(* ===== verification/Olnk_Prelude.thy ===== *)
theory Olnk_Prelude
  imports "HOL-Library.Word" "HOL-Library.Char_ord" "HOL-Library.List_Lexorder"
    "HOL-Library.Product_Lexorder" "HOL-Library.Multiset"
begin

text \<open>
  Shared vocabulary of the OcarinaLNK development.

  \<^item> Names for the machine integers of the C and C++ sources (LP64: \<open>size_t\<close> has 64 bits),
    for nullable C strings and for byte buffers.
  \<^item> \<open>std::stable_sort\<close> as an insertion sort over a comparator, with the contract of the
    C++ standard (sorted, a permutation, stable) as the locale \<open>strict_weak\<close>, and the
    lexicographic comparators of the linker's tables as the locale \<open>key_order\<close>.
  \<^item> \<open>std::vector\<close> tables that are filled by \<open>push_back\<close> and then put in order, as the locale
    \<open>ordered_table\<close>.
  \<^item> Lemmas on lists and words that the components share.
\<close>

named_theorems word_bounds \<open>translations of 64-bit comparisons and sums to naturals\<close>
named_theorems keyed \<open>comparators rewritten to comparisons of lexicographic keys\<close>

type_synonym u8 = "8 word"
type_synonym u16 = "16 word"
type_synonym u32 = "32 word"
type_synonym u64 = "64 word"
type_synonym size_t = "64 word"
type_synonym bytes = "8 word list"

text \<open>A \<open>const char*\<close>: \<open>None\<close> is the null pointer, \<open>Some s\<close> the characters before the
  terminating NUL.\<close>

type_synonym cstr = "string option"

text \<open>\<open>std::string::c_str()\<close> handed to a C function: what follows an embedded NUL is not seen.\<close>

definition c_str :: "string \<Rightarrow> string" where
  "c_str s = takeWhile (\<lambda>c. c \<noteq> CHR 0x00) s"

lemma c_str_id [simp]: "CHR 0x00 \<notin> set s \<Longrightarrow> c_str s = s"
  unfolding c_str_def by (simp add: takeWhile_eq_all_conv) (metis)

lemma c_str_no_nul: "CHR 0x00 \<notin> set (c_str s)"
  unfolding c_str_def by (auto dest: set_takeWhileD)

lemma c_str_idem [simp]: "c_str (c_str s) = c_str s"
  by (rule c_str_id) (rule c_str_no_nul)

section \<open>\<open>std::stable_sort\<close>\<close>

fun stable_insert :: "('a \<Rightarrow> 'a \<Rightarrow> bool) \<Rightarrow> 'a \<Rightarrow> 'a list \<Rightarrow> 'a list" where
  "stable_insert lt x [] = [x]"
| "stable_insert lt x (y # ys) = (if lt y x then y # stable_insert lt x ys else x # y # ys)"

definition stable_sort :: "('a \<Rightarrow> 'a \<Rightarrow> bool) \<Rightarrow> 'a list \<Rightarrow> 'a list" where
  "stable_sort lt xs = foldr (stable_insert lt) xs []"

lemma stable_sort_simps [simp]:
  "stable_sort lt [] = []"
  "stable_sort lt (x # xs) = stable_insert lt x (stable_sort lt xs)"
  by (simp_all add: stable_sort_def)

lemma mset_stable_insert [simp]: "mset (stable_insert lt x xs) = add_mset x (mset xs)"
  by (induction xs) auto

lemma mset_stable_sort [simp]: "mset (stable_sort lt xs) = mset xs"
  by (induction xs) auto

lemma set_stable_sort [simp]: "set (stable_sort lt xs) = set xs"
  by (metis mset_stable_sort set_mset_mset)

lemma length_stable_sort [simp]: "length (stable_sort lt xs) = length xs"
  by (metis mset_stable_sort size_mset)

text \<open>
  The requirement of the C++ standard on a comparator: a strict weak order.  Under it the
  three properties of \<open>std::stable_sort\<close> (sorted, permutation, stable) hold of
  \<^const>\<open>stable_sort\<close> and determine its result.
\<close>

locale strict_weak =
  fixes lt :: "'a \<Rightarrow> 'a \<Rightarrow> bool"
  assumes irrefl: "\<not> lt x x"
    and trans: "lt x y \<Longrightarrow> lt y z \<Longrightarrow> lt x z"
    and neg_trans: "\<not> lt x y \<Longrightarrow> \<not> lt y z \<Longrightarrow> \<not> lt x z"
begin

lemma asym: "lt x y \<Longrightarrow> \<not> lt y x"
  using irrefl trans by blast

lemma set_insert [simp]: "set (stable_insert lt x xs) = insert x (set xs)"
  by (induction xs) auto

lemma sorted_insert:
  "sorted_wrt (\<lambda>a b. \<not> lt b a) xs \<Longrightarrow> sorted_wrt (\<lambda>a b. \<not> lt b a) (stable_insert lt x xs)"
proof (induction xs)
  case (Cons y ys)
  then show ?case
    using neg_trans [of _ y x] by (cases "lt y x") (auto dest: asym)
qed simp

lemma sorted_stable_sort: "sorted_wrt (\<lambda>a b. \<not> lt b a) (stable_sort lt xs)"
  by (induction xs) (auto intro: sorted_insert)

lemma filter_insert_equiv:
  assumes "\<not> lt x z" "\<not> lt z x"
  shows "filter (\<lambda>y. \<not> lt y z \<and> \<not> lt z y) (stable_insert lt x xs)
       = x # filter (\<lambda>y. \<not> lt y z \<and> \<not> lt z y) xs"
proof (induction xs)
  case (Cons y ys)
  then show ?case
    using assms neg_trans [of y z x] by (cases "lt y x") auto
qed (use assms in simp)

lemma filter_insert_other:
  "\<not> P x \<Longrightarrow> filter P (stable_insert lt x xs) = filter P xs"
  by (induction xs) auto

lemma stable_stable_sort:
  "filter (\<lambda>y. \<not> lt y z \<and> \<not> lt z y) (stable_sort lt xs)
   = filter (\<lambda>y. \<not> lt y z \<and> \<not> lt z y) xs"
proof (induction xs)
  case (Cons x xs)
  then show ?case
    by (cases "\<not> lt x z \<and> \<not> lt z x") (auto simp: filter_insert_equiv filter_insert_other)
qed simp

text \<open>The three properties determine the result: a list that is sorted and has the same
  equivalence segments as \<open>xs\<close> is what the sort returns.\<close>

lemma stable_sort_unique:
  assumes "sorted_wrt (\<lambda>a b. \<not> lt b a) ys" "mset ys = mset xs"
    and "\<And>z. filter (\<lambda>y. \<not> lt y z \<and> \<not> lt z y) ys = filter (\<lambda>y. \<not> lt y z \<and> \<not> lt z y) xs"
  shows "ys = stable_sort lt xs"
proof -
  have "ys = zs" if "sorted_wrt (\<lambda>a b. \<not> lt b a) ys" "sorted_wrt (\<lambda>a b. \<not> lt b a) zs" "mset ys = mset zs"
    "\<And>z. filter (\<lambda>y. \<not> lt y z \<and> \<not> lt z y) ys = filter (\<lambda>y. \<not> lt y z \<and> \<not> lt z y) zs"
    for ys zs :: "'a list"
    using that
  proof (induction ys arbitrary: zs)
    case (Cons y ys)
    obtain z zs' where zs: "zs = z # zs'" using Cons.prems(3) by (cases zs) auto
    have sets: "set (y # ys) = set zs" using Cons.prems(3) by (metis set_mset_mset)
    have "\<not> lt z y"
    proof (cases "z = y")
      case False
      then have "z \<in> set ys" using sets zs by auto
      then show ?thesis using Cons.prems(1) by auto
    qed (simp add: irrefl)
    moreover have "\<not> lt y z"
    proof (cases "z = y")
      case False
      then have "y \<in> set zs'" using sets zs by auto
      then show ?thesis using Cons.prems(2) zs by auto
    qed (simp add: irrefl)
    ultimately have yz: "y = z"
      using Cons.prems(4) [of y] zs by (auto simp: irrefl)
    have "ys = zs'"
    proof (rule Cons.IH)
      show "filter (\<lambda>v. \<not> lt v w \<and> \<not> lt w v) ys = filter (\<lambda>v. \<not> lt v w \<and> \<not> lt w v) zs'" for w
        using Cons.prems(4) [of w] zs yz by (auto split: if_splits)
    qed (use Cons.prems zs yz in auto)
    then show ?case using yz zs by simp
  qed simp
  then show ?thesis using assms sorted_stable_sort stable_stable_sort by simp
qed

end

text \<open>The comparators of the linker compare lexicographic keys; equal keys are ties.\<close>

locale key_order =
  fixes lt :: "'a \<Rightarrow> 'a \<Rightarrow> bool" and key :: "'a \<Rightarrow> 'k::linorder"
  assumes lt_key: "lt x y \<longleftrightarrow> key x < key y"

sublocale key_order \<subseteq> strict_weak lt
  by unfold_locales (auto simp: lt_key)

context key_order
begin

lemma stable_insert_insort: "stable_insert lt x xs = insort_key key x xs"
  by (induction xs) (auto simp: lt_key not_le)

lemma stable_sort_sort_key: "stable_sort lt xs = sort_key key xs"
  by (induction xs) (auto simp: stable_insert_insort)

lemma sorted_keys: "sorted (map key (stable_sort lt xs))"
  by (simp add: stable_sort_sort_key)

text \<open>Without ties the result does not depend on the order of the input.\<close>

lemma sort_permuted:
  assumes "mset xs = mset ys" "inj_on key (set xs)"
  shows "stable_sort lt xs = stable_sort lt ys"
  using assms by (auto simp: stable_sort_sort_key intro: sort_key_inj_key_eq)

lemma sort_idem: "stable_sort lt (stable_sort lt xs) = stable_sort lt xs"
  by (simp add: stable_sort_sort_key sort_key_id_if_sorted)

end

lemma lex_less_if:
  "((a::'a::linorder), (b::'b::linorder)) < (c, d) \<longleftrightarrow> (if a \<noteq> c then a < c else b < d)"
  by auto

text \<open>
  The tables of the linker core (sections, symbols, relocations, output sections, IR nodes) share
  one protocol: \<open>push_back\<close> records, then normalise each record and sort.  A provider gives the
  comparator with its key, the three operations and the per-record normalisation; the client
  lemmas below say that the finished table does not depend on the insertion order.
\<close>

locale ordered_table = key_order lt key
  for lt :: "'e \<Rightarrow> 'e \<Rightarrow> bool" and key :: "'e \<Rightarrow> 'k::linorder" +
  fixes empty :: 't
    and add :: "'e \<Rightarrow> 't \<Rightarrow> 't"
    and finish :: "'t \<Rightarrow> 't"
    and contents :: "'t \<Rightarrow> 'e list"
    and norm :: "'e \<Rightarrow> 'e"
  assumes contents_empty: "contents empty = []"
    and contents_add: "contents (add e t) = contents t @ [e]"
    and contents_finish: "contents (finish t) = stable_sort lt (map norm (contents t))"
    and key_norm: "key (norm e) = key e"
    and norm_norm: "norm (norm e) = norm e"
begin

lemma contents_fill: "contents (fold add es t) = contents t @ es"
  by (induction es arbitrary: t) (simp_all add: contents_add)

lemma finish_sorted: "sorted (map key (contents (finish t)))"
  by (simp add: contents_finish sorted_keys)

lemma finish_mset: "mset (contents (finish t)) = image_mset norm (mset (contents t))"
  by (simp add: contents_finish)

lemma inj_on_norm: "inj_on key A \<Longrightarrow> inj_on key (norm ` A)"
  by (auto simp: inj_on_def key_norm)

lemma finish_permuted:
  assumes "mset (contents t) = mset (contents t')" "inj_on key (set (contents t))"
  shows "contents (finish t) = contents (finish t')"
  unfolding contents_finish
proof (rule sort_permuted)
  show "inj_on key (set (map norm (contents t)))" using assms(2) by (simp add: inj_on_norm)
qed (use assms(1) in simp)

lemma finish_fill_permuted:
  assumes "mset es = mset es'" "inj_on key (set es)"
  shows "contents (finish (fold add es empty)) = contents (finish (fold add es' empty))"
  by (rule finish_permuted) (use assms in \<open>simp_all add: contents_fill contents_empty\<close>)

lemma finish_idem: "contents (finish (finish t)) = contents (finish t)"
proof -
  have "map norm (contents (finish t)) = contents (finish t)"
    by (rule map_idI) (auto simp: contents_finish norm_norm)
  then show ?thesis by (simp add: contents_finish [of "finish t"]) (simp add: contents_finish sort_idem)
qed

end

section \<open>Words\<close>

lemma unat_add_no_wrap [word_bounds]:
  "unat (a :: 'a::len word) + unat b < 2 ^ LENGTH('a) \<Longrightarrow> unat (a + b) = unat a + unat b"
  by (simp add: unat_word_ariths)

text \<open>The overflow test of the sources, \<open>sum < operand\<close>, is exact.\<close>

lemma add_wraps_iff [word_bounds]:
  "a + b < (a :: 'a::len word) \<longleftrightarrow> 2 ^ LENGTH('a) \<le> unat a + unat b"
  by (metis no_olen_add_nat not_less)

lemma unat_less_2p: "unat (v :: 'a::len word) < 2 ^ LENGTH('a)"
  by (fact unsigned_less)

lemma unat_eq_iff [simp]: "unat (a :: 'a::len word) = unat b \<longleftrightarrow> a = b"
  by (simp add: word_unat_eq_iff)

lemma unat_mod_word [simp]: "unat (a mod b :: 'a::len word) = unat a mod unat b"
  by (simp add: unat_mod)

end
