(* ===== verification/Olnk_Layout.thy ===== *)
theory Olnk_Layout
  imports Olnk_Prelude
begin

text \<open>
  File-offset layout: \<open>src/olnk/compute_offsets.cpp\<close> (in-place offsets for a vector of layout
  entries) and \<open>src/olnk/output_builder.cpp\<close> (the \<open>OutputBuilder\<close> class, which normalises, sorts
  and places output sections).  Offsets are \<open>uint64_t\<close> and wrap; a reference layout over the
  naturals says what both passes mean to compute.
\<close>

section \<open>\<open>compute_offsets.cpp\<close>\<close>

record LayoutEntry =
  le_size :: u64
  le_alignment :: u64
  le_file_offset :: u64

definition align_up :: "u64 \<Rightarrow> u64 \<Rightarrow> u64" where
  "align_up value alignment =
     (if alignment \<le> 1 then value
      else let remainder = value mod alignment in
        if remainder = 0 then value else value + (alignment - remainder))"

text \<open>The loop over the entries; on overflow it stops with the entry written and the rest of the
  vector untouched.\<close>

fun compute_offsets_loop :: "u64 \<Rightarrow> LayoutEntry list \<Rightarrow> bool \<times> LayoutEntry list" where
  "compute_offsets_loop cursor [] = (True, [])"
| "compute_offsets_loop cursor (e # es) =
     (let e1 = (if le_alignment e = 0 then e\<lparr>le_alignment := 1\<rparr> else e);
          cursor1 = align_up cursor (le_alignment e1);
          e2 = e1\<lparr>le_file_offset := cursor1\<rparr>;
          cursor2 = cursor1 + le_size e2
      in if cursor2 < le_file_offset e2 then (False, e2 # es)
         else case compute_offsets_loop cursor2 es of (ok, es') \<Rightarrow> (ok, e2 # es'))"

definition compute_offsets :: "LayoutEntry list \<Rightarrow> u64 \<Rightarrow> bool \<times> LayoutEntry list" where
  "compute_offsets entries base_offset = compute_offsets_loop base_offset entries"

section \<open>\<open>output_builder.cpp\<close>\<close>

datatype OutputSectionKind =
    OutputSectionKind_kUnknown | OutputSectionKind_kCode | OutputSectionKind_kReadOnlyData
  | OutputSectionKind_kData | OutputSectionKind_kBss | OutputSectionKind_kTls
  | OutputSectionKind_kDebug

text \<open>\<open>static_cast<uint8_t>(kind)\<close>.\<close>

primrec OutputSectionKind_u8 :: "OutputSectionKind \<Rightarrow> nat" where
  "OutputSectionKind_u8 OutputSectionKind_kUnknown = 0"
| "OutputSectionKind_u8 OutputSectionKind_kCode = 1"
| "OutputSectionKind_u8 OutputSectionKind_kReadOnlyData = 2"
| "OutputSectionKind_u8 OutputSectionKind_kData = 3"
| "OutputSectionKind_u8 OutputSectionKind_kBss = 4"
| "OutputSectionKind_u8 OutputSectionKind_kTls = 5"
| "OutputSectionKind_u8 OutputSectionKind_kDebug = 6"

record OutputSectionInput =
  osi_name :: string
  osi_kind :: OutputSectionKind
  osi_size :: u64
  osi_alignment :: u64
  osi_input_ordinal :: u32

record OutputLayoutEntry =
  ole_name :: string
  ole_kind :: OutputSectionKind
  ole_size :: u64
  ole_alignment :: u64
  ole_file_offset :: u64

record OutputImage =
  oi_base_offset :: u64
  oi_sections :: "OutputLayoutEntry list"

definition output_align_up :: "u64 \<Rightarrow> u64 \<Rightarrow> u64" where
  "output_align_up value alignment =
     (if alignment \<le> 1 then value
      else let remainder = value mod alignment in
        if remainder = 0 then value else value + (alignment - remainder))"

record OutputBuilder =
  ob_inputs :: "OutputSectionInput list"

definition OutputBuilder_new :: OutputBuilder where
  "OutputBuilder_new = \<lparr>ob_inputs = []\<rparr>"

definition OutputBuilder_add_section :: "OutputSectionInput \<Rightarrow> OutputBuilder \<Rightarrow> OutputBuilder" where
  "OutputBuilder_add_section section b = b\<lparr>ob_inputs := ob_inputs b @ [section]\<rparr>"

definition output_section_less :: "OutputSectionInput \<Rightarrow> OutputSectionInput \<Rightarrow> bool" where
  "output_section_less lhs rhs =
     (if osi_kind lhs \<noteq> osi_kind rhs
      then OutputSectionKind_u8 (osi_kind lhs) < OutputSectionKind_u8 (osi_kind rhs)
      else if osi_name lhs \<noteq> osi_name rhs then osi_name lhs < osi_name rhs
      else osi_input_ordinal lhs < osi_input_ordinal rhs)"

definition output_norm :: "OutputSectionInput \<Rightarrow> OutputSectionInput" where
  "output_norm input = (if osi_alignment input = 0 then input\<lparr>osi_alignment := 1\<rparr> else input)"

definition OutputBuilder_normalize_inputs :: "OutputBuilder \<Rightarrow> OutputBuilder" where
  "OutputBuilder_normalize_inputs b =
     b\<lparr>ob_inputs := stable_sort output_section_less (map output_norm (ob_inputs b))\<rparr>"

text \<open>The placement loop: the result flag and the entries pushed to the image, in order.  A failed
  alignment pushes nothing for that input, a failed advance has already pushed its entry.\<close>

fun output_place :: "u64 \<Rightarrow> OutputSectionInput list \<Rightarrow> bool \<times> OutputLayoutEntry list" where
  "output_place cursor [] = (True, [])"
| "output_place cursor (input # inputs) =
     (let aligned_cursor = output_align_up cursor (osi_alignment input)
      in if aligned_cursor < cursor then (False, [])
         else let entry = \<lparr>ole_name = osi_name input, ole_kind = osi_kind input,
                           ole_size = osi_size input, ole_alignment = osi_alignment input,
                           ole_file_offset = aligned_cursor\<rparr>;
                  cursor' = aligned_cursor + osi_size input
              in if cursor' < aligned_cursor then (False, [entry])
                 else case output_place cursor' inputs of (ok, entries) \<Rightarrow> (ok, entry # entries))"

text \<open>\<open>build\<close> returns its flag, the builder (whose inputs it normalises in place) and the image;
  a null \<open>out_image\<close> fails before anything is touched.\<close>

definition OutputBuilder_build ::
    "OutputBuilder \<Rightarrow> u64 \<Rightarrow> OutputImage option \<Rightarrow> bool \<times> OutputBuilder \<times> OutputImage option" where
  "OutputBuilder_build b base_offset out_image =
     (case out_image of
        None \<Rightarrow> (False, b, None)
      | Some _ \<Rightarrow>
          let b' = OutputBuilder_normalize_inputs b
          in case output_place base_offset (ob_inputs b') of (ok, entries) \<Rightarrow>
             (ok, b', Some \<lparr>oi_base_offset = base_offset, oi_sections = entries\<rparr>))"

section \<open>The reference layout\<close>

text \<open>The least multiple of \<open>a\<close> that is not below \<open>c\<close> (\<open>c\<close> itself for \<open>a \<le> 1\<close>).\<close>

definition nat_align_up :: "nat \<Rightarrow> nat \<Rightarrow> nat" where
  "nat_align_up c a = (if a \<le> 1 then c else ((c + (a - 1)) div a) * a)"

text \<open>Offsets of a list of (size, alignment) pairs placed one after the other from \<open>c\<close>, and the
  first free byte after them.\<close>

fun nat_layout :: "nat \<Rightarrow> (nat \<times> nat) list \<Rightarrow> nat list" where
  "nat_layout c [] = []"
| "nat_layout c ((s, a) # rest) = nat_align_up c a # nat_layout (nat_align_up c a + s) rest"

fun nat_layout_end :: "nat \<Rightarrow> (nat \<times> nat) list \<Rightarrow> nat" where
  "nat_layout_end c [] = c"
| "nat_layout_end c ((s, a) # rest) = nat_layout_end (nat_align_up c a + s) rest"

lemma nat_align_up_mod:
  assumes "1 < a"
  shows "nat_align_up c a = (if c mod a = 0 then c else c + (a - c mod a))"
proof (cases "c mod a = 0")
  case True
  then obtain k where "c = k * a" by (metis mod_0_imp_dvd dvd_def mult.commute)
  moreover have "(k * a + (a - 1)) div a = k + (a - 1) div a"
    by (rule div_mult_self3) (use assms in simp)
  ultimately show ?thesis using assms by (simp add: nat_align_up_def div_less del: Nat.diff_Suc_less)
next
  case False
  then obtain r where r: "c mod a = Suc r" by (cases "c mod a") auto
  have lt: "Suc r < a" using assms mod_less_divisor [of a c] r by simp
  have "c = c div a * a + Suc r" using div_mult_mod_eq [of c a] r by simp
  then have "c + (a - 1) = r + (c div a + 1) * a" using assms by (simp add: algebra_simps)
  moreover have "(r + (c div a + 1) * a) div a = (c div a + 1) + r div a"
    by (rule div_mult_self1) (use assms in simp)
  ultimately have "(c + (a - 1)) div a = c div a + 1" using lt by (simp only: div_less Suc_lessD)
  then show ?thesis
    using False assms lt r div_mult_mod_eq [of c a] by (simp add: nat_align_up_def algebra_simps)
qed

lemma nat_align_up_ge: "c \<le> nat_align_up c a"
proof (cases "1 < a")
  case True
  then show ?thesis unfolding nat_align_up_mod [OF True] by (metis le_add1 le_refl)
qed (simp add: nat_align_up_def)

lemma nat_align_up_dvd: "1 \<le> a \<Longrightarrow> a dvd nat_align_up c a"
  by (auto simp: nat_align_up_def)

text \<open>Word-level alignment against the reference: it either agrees, or wraps, and a wrapped result is
  below its input.\<close>

lemma output_align_up_eq: "output_align_up = align_up"
  by (simp add: fun_eq_iff output_align_up_def align_up_def)

lemma unat_align_up:
  "if nat_align_up (unat v) (unat a) < 2 ^ 64
   then unat (align_up v a) = nat_align_up (unat v) (unat a)
   else align_up v a < v"
proof (cases "a \<le> 1")
  case True
  then have "unat a \<le> 1" by (simp add: word_le_nat_alt)
  then show ?thesis using True unat_less_2p [of v] by (simp add: align_up_def nat_align_up_def)
next
  case False
  then have a: "1 < unat a" by (simp add: word_le_nat_alt)
  let ?r = "v mod a"
  have r: "unat ?r = unat v mod unat a" "unat ?r < unat a" using a by simp_all
  have zero: "?r = 0 \<longleftrightarrow> unat v mod unat a = 0"
    by (metis r(1) unat_eq_zero)
  have sub: "unat (a - ?r) = unat a - unat v mod unat a"
    using r by (subst unat_sub) (auto simp: word_le_nat_alt)
  have "v + (a - ?r) < v \<longleftrightarrow> 2 ^ 64 \<le> unat v + (unat a - unat v mod unat a)"
    using add_wraps_iff [of v "a - ?r"] sub by simp
  moreover have "unat (v + (a - ?r)) = unat v + (unat a - unat v mod unat a)"
    if "unat v + (unat a - unat v mod unat a) < 2 ^ 64"
    using unat_add_no_wrap [of v "a - ?r"] that sub by simp
  ultimately show ?thesis
    using False a zero unat_less_2p [of v] by (auto simp: align_up_def nat_align_up_mod Let_def)
qed

lemma unat_align_up_fits:
  "nat_align_up (unat v) (unat a) < 2 ^ 64 \<Longrightarrow> unat (align_up v a) = nat_align_up (unat v) (unat a)"
  using unat_align_up [of v a] by simp

lemma align_up_wraps_iff: "align_up v a < v \<longleftrightarrow> 2 ^ 64 \<le> nat_align_up (unat v) (unat a)"
  using unat_align_up [of v a] nat_align_up_ge [of "unat v" "unat a"]
  by (auto simp: word_less_nat_alt split: if_splits)

section \<open>Both passes against the reference\<close>

lemma nat_layout_end_ge: "c \<le> nat_layout_end c ds"
proof (induction c ds rule: nat_layout_end.induct)
  case (2 c s a rest)
  then show ?case using nat_align_up_ge [of c a] by simp
qed simp

lemma nat_layout_end_step:
  "nat_layout_end c ((s, a) # rest) < n \<Longrightarrow> nat_align_up c a < n \<and> nat_align_up c a + s < n"
  using nat_layout_end_ge [of "nat_align_up c a + s" rest] by simp

lemma length_nat_layout [simp]: "length (nat_layout c ds) = length ds"
  by (induction c ds rule: nat_layout.induct) auto

definition le_dims :: "LayoutEntry \<Rightarrow> nat \<times> nat" where
  "le_dims e = (unat (le_size e), unat (le_alignment e))"

definition osi_dims :: "OutputSectionInput \<Rightarrow> nat \<times> nat" where
  "osi_dims i = (unat (osi_size i), unat (osi_alignment i))"

definition le_norm :: "LayoutEntry \<Rightarrow> LayoutEntry" where
  "le_norm e = (if le_alignment e = 0 then e\<lparr>le_alignment := 1\<rparr> else e)"

lemma le_norm_align [simp]: "nat_align_up c (unat (le_alignment (le_norm e))) = nat_align_up c (unat (le_alignment e))"
  by (simp add: le_norm_def nat_align_up_def)

lemma le_norm_size [simp]: "le_size (le_norm e) = le_size e"
  by (simp add: le_norm_def)

lemma compute_offsets_loop_fits:
  assumes "nat_layout_end (unat cursor) (map le_dims es) < 2 ^ 64"
  shows "compute_offsets_loop cursor es =
    (True, map2 (\<lambda>e off. (le_norm e)\<lparr>le_file_offset := of_nat off\<rparr>) es
             (nat_layout (unat cursor) (map le_dims es)))"
  using assms
proof (induction es arbitrary: cursor)
  case (Cons e es)
  let ?c = "align_up cursor (le_alignment (le_norm e))"
  have fit: "nat_align_up (unat cursor) (unat (le_alignment e)) < 2 ^ 64"
    "nat_align_up (unat cursor) (unat (le_alignment e)) + unat (le_size e) < 2 ^ 64"
    using nat_layout_end_step [of "unat cursor" "unat (le_size e)" "unat (le_alignment e)"] Cons.prems
    by (simp_all add: le_dims_def)
  then have c: "unat ?c = nat_align_up (unat cursor) (unat (le_alignment e))"
    by (subst unat_align_up_fits) simp_all
  have c': "unat (?c + le_size e) = nat_align_up (unat cursor) (unat (le_alignment e)) + unat (le_size e)"
    using unat_add_no_wrap [of ?c "le_size e"] fit c by simp
  have "\<not> ?c + le_size e < ?c"
    using add_wraps_iff [of ?c "le_size e"] fit c by simp
  moreover have "compute_offsets_loop (?c + le_size e) es =
    (True, map2 (\<lambda>e off. (le_norm e)\<lparr>le_file_offset := of_nat off\<rparr>) es
             (nat_layout (unat (?c + le_size e)) (map le_dims es)))"
    by (rule Cons.IH) (use Cons.prems c' in \<open>simp add: le_dims_def\<close>)
  moreover have "of_nat (nat_align_up (unat cursor) (unat (le_alignment e))) = ?c"
    by (simp flip: c)
  ultimately show ?case
    by (simp add: Let_def le_dims_def [of e] c' flip: le_norm_def)
qed simp

lemma output_place_exact:
  "fst (output_place cursor ins) \<longleftrightarrow> nat_layout_end (unat cursor) (map osi_dims ins) < 2 ^ 64"
  "fst (output_place cursor ins) \<Longrightarrow>
     map (\<lambda>e. unat (ole_file_offset e)) (snd (output_place cursor ins))
     = nat_layout (unat cursor) (map osi_dims ins)"
proof (induction ins arbitrary: cursor)
  case Nil
  { case 1 show ?case using unat_less_2p [of cursor] by simp }
  { case 2 show ?case by simp }
next
  case (Cons i ins)
  have *: "(fst (output_place cursor (i # ins)) \<longleftrightarrow> nat_layout_end (unat cursor) (map osi_dims (i # ins)) < 2 ^ 64) \<and>
    (fst (output_place cursor (i # ins)) \<longrightarrow>
     map (\<lambda>e. unat (ole_file_offset e)) (snd (output_place cursor (i # ins)))
     = nat_layout (unat cursor) (map osi_dims (i # ins)))"
    (is ?goal) for cursor
  proof -
    let ?c = "align_up cursor (osi_alignment i)"
    let ?n = "nat_align_up (unat cursor) (unat (osi_alignment i))"
    show ?goal
  proof (cases "?n < 2 ^ 64 \<and> ?n + unat (osi_size i) < 2 ^ 64")
    case True
    then have c: "unat ?c = ?n" by (simp add: unat_align_up_fits)
    have "\<not> ?c < cursor" "\<not> ?c + osi_size i < ?c"
      using True c add_wraps_iff [of ?c "osi_size i"] by (simp_all add: align_up_wraps_iff)
    moreover have "unat (?c + osi_size i) = ?n + unat (osi_size i)"
      using unat_add_no_wrap [of ?c "osi_size i"] True c by simp
    ultimately show ?thesis
      using Cons.IH [of "?c + osi_size i"] c
      by (auto simp: output_align_up_eq osi_dims_def [of i] Let_def split: prod.splits)
  next
    case False
    then have "\<not> nat_layout_end (unat cursor) (map osi_dims (i # ins)) < 2 ^ 64"
      using nat_layout_end_step [of "unat cursor" "unat (osi_size i)" "unat (osi_alignment i)"]
      by (auto simp: osi_dims_def)
    moreover have "?c < cursor \<or> ?c + osi_size i < ?c"
    proof (cases "?n < 2 ^ 64")
      case True
      then show ?thesis using False add_wraps_iff [of ?c "osi_size i"] by (simp add: unat_align_up_fits)
    qed (simp add: align_up_wraps_iff)
    ultimately show ?thesis by (auto simp: output_align_up_eq Let_def)
  qed
  qed
  { case 1 show ?case by (rule * [THEN conjunct1]) }
  { case 2 then show ?case by (rule * [THEN conjunct2, rule_format]) }
qed

text \<open>What a layout promises: every offset is aligned, not below the cursor, and regions do not
  overlap.\<close>

fun placed :: "nat \<Rightarrow> (nat \<times> nat) list \<Rightarrow> nat list \<Rightarrow> bool" where
  "placed c [] offs \<longleftrightarrow> offs = []"
| "placed c ((s, a) # ds) [] \<longleftrightarrow> False"
| "placed c ((s, a) # ds) (off # offs) \<longleftrightarrow> c \<le> off \<and> (a \<noteq> 0 \<longrightarrow> a dvd off) \<and> placed (off + s) ds offs"

lemma nat_layout_placed: "placed c ds (nat_layout c ds)"
proof (induction c ds rule: nat_layout.induct)
  case (2 c s a rest)
  then show ?case using nat_align_up_ge [of c a] nat_align_up_dvd [of a c] by (cases "a = 0") auto
qed simp

text \<open>The comparator of \<open>normalize_inputs\<close> and the builder as an ordered table.\<close>

definition output_key :: "OutputSectionInput \<Rightarrow> nat \<times> string \<times> nat" where
  "output_key i = (OutputSectionKind_u8 (osi_kind i), osi_name i, unat (osi_input_ordinal i))"

lemma OutputSectionKind_u8_inj [simp]: "OutputSectionKind_u8 a = OutputSectionKind_u8 b \<longleftrightarrow> a = b"
  by (cases a; cases b) simp_all

lemma output_section_less_key [keyed]: "output_section_less a b \<longleftrightarrow> output_key a < output_key b"
  by (simp add: output_section_less_def output_key_def word_less_nat_alt lex_less_if del: less_prod_simp)

interpretation output_tbl: ordered_table output_section_less output_key
  OutputBuilder_new OutputBuilder_add_section OutputBuilder_normalize_inputs ob_inputs output_norm
  by unfold_locales
    (auto simp: keyed OutputBuilder_new_def OutputBuilder_add_section_def
      OutputBuilder_normalize_inputs_def output_norm_def output_key_def)

lemma output_norm_aligned: "osi_alignment (output_norm i) \<noteq> 0"
  by (simp add: output_norm_def)

lemma normalized_aligned: "i \<in> set (ob_inputs (OutputBuilder_normalize_inputs b)) \<Longrightarrow> osi_alignment i \<noteq> 0"
  by (auto simp: OutputBuilder_normalize_inputs_def output_norm_aligned)

lemma placed_ge: "placed c ds offs \<Longrightarrow> i < length offs \<Longrightarrow> c \<le> offs ! i"
proof (induction c ds offs arbitrary: i rule: placed.induct)
  case (3 c s a ds off offs)
  then show ?case by (cases i) (auto intro: le_trans [OF _ "3.IH"])
qed auto

lemma placed_aligned:
  "placed c ds offs \<Longrightarrow> i < length offs \<Longrightarrow> snd (ds ! i) \<noteq> 0 \<Longrightarrow> snd (ds ! i) dvd offs ! i"
proof (induction c ds offs arbitrary: i rule: placed.induct)
  case (3 c s a ds off offs)
  then show ?case by (cases i) auto
qed auto

lemma placed_disjoint:
  "placed c ds offs \<Longrightarrow> i < j \<Longrightarrow> j < length offs \<Longrightarrow> offs ! i + fst (ds ! i) \<le> offs ! j"
proof (induction c ds offs arbitrary: i j rule: placed.induct)
  case (3 c s a ds off offs)
  then show ?case by (cases i; cases j) (auto dest: placed_ge)
qed auto

lemma output_place_entries:
  "output_place cursor ins = (True, es) \<Longrightarrow>
   map ole_name es = map osi_name ins \<and> map ole_kind es = map osi_kind ins \<and>
   map ole_size es = map osi_size ins \<and> map ole_alignment es = map osi_alignment ins"
  by (induction ins arbitrary: cursor es) (auto simp: Let_def split: if_splits prod.splits)

section \<open>Properties\<close>

text \<open>C8: C5: \<open>OutputBuilder::build\<close> succeeds exactly when the laid-out image ends below \<open>2^64\<close>, and then
  every section of the image sits at the offset of the reference layout over the naturals: the two
  wrap-around tests of the loop are neither too weak nor too strong.\<close>

theorem OutputBuilder_build_exact:
  assumes "OutputBuilder_build b base (Some img) = (ok, b', Some img')"
  shows "(ok \<longleftrightarrow> nat_layout_end (unat base) (map osi_dims (ob_inputs b')) < 2 ^ 64) \<and>
    (ok \<longrightarrow> map (\<lambda>e. unat (ole_file_offset e)) (oi_sections img')
              = nat_layout (unat base) (map osi_dims (ob_inputs b')))"
  using assms output_place_exact [of base "ob_inputs b'"]
  by (auto simp: OutputBuilder_build_def Let_def split: prod.splits)

definition two_sections :: OutputBuilder where
  "two_sections = \<lparr>ob_inputs =
     [\<lparr>osi_name = ''.data'', osi_kind = OutputSectionKind_kData, osi_size = 8, osi_alignment = 16,
       osi_input_ordinal = 1\<rparr>,
      \<lparr>osi_name = ''.text'', osi_kind = OutputSectionKind_kCode, osi_size = 5, osi_alignment = 0,
       osi_input_ordinal = 0\<rparr>]\<rparr>"

lemma two_sections_build:
  "OutputBuilder_build two_sections 64 (Some \<lparr>oi_base_offset = 0, oi_sections = []\<rparr>) =
    (True,
     \<lparr>ob_inputs =
       [\<lparr>osi_name = ''.text'', osi_kind = OutputSectionKind_kCode, osi_size = 5, osi_alignment = 1,
         osi_input_ordinal = 0\<rparr>,
        \<lparr>osi_name = ''.data'', osi_kind = OutputSectionKind_kData, osi_size = 8, osi_alignment = 16,
         osi_input_ordinal = 1\<rparr>]\<rparr>,
     Some \<lparr>oi_base_offset = 64, oi_sections =
       [\<lparr>ole_name = ''.text'', ole_kind = OutputSectionKind_kCode, ole_size = 5, ole_alignment = 1,
         ole_file_offset = 64\<rparr>,
        \<lparr>ole_name = ''.data'', ole_kind = OutputSectionKind_kData, ole_size = 8, ole_alignment = 16,
         ole_file_offset = 80\<rparr>]\<rparr>)"
  by (simp add: two_sections_def OutputBuilder_build_def OutputBuilder_normalize_inputs_def
      output_norm_def output_section_less_def output_align_up_def word_le_nat_alt word_less_nat_alt)

theorem OutputBuilder_build_exact_witness:
  "nat_layout_end 64 [(5, 1), (8, 16)] < 2 ^ 64 \<and> nat_layout 64 [(5, 1), (8, 16)] = [64, 80]"
  using OutputBuilder_build_exact [OF two_sections_build] by (simp add: osi_dims_def nat_align_up_def)

text \<open>C9: In an image that \<open>OutputBuilder::build\<close> reports as good no two sections overlap, every section
  starts at a multiple of its alignment, and none starts below the base offset.\<close>

theorem OutputBuilder_build_disjoint:
  assumes "OutputBuilder_build b base (Some img) = (True, b', Some img')"
    and "i < length (oi_sections img')"
  shows "unat base \<le> unat (ole_file_offset (oi_sections img' ! i)) \<and>
    unat (ole_alignment (oi_sections img' ! i)) dvd unat (ole_file_offset (oi_sections img' ! i)) \<and>
    (\<forall>j. i < j \<and> j < length (oi_sections img') \<longrightarrow>
       unat (ole_file_offset (oi_sections img' ! i)) + unat (ole_size (oi_sections img' ! i))
       \<le> unat (ole_file_offset (oi_sections img' ! j)))"
proof -
  let ?ins = "ob_inputs b'" and ?es = "oi_sections img'"
  from assms(1) have b': "b' = OutputBuilder_normalize_inputs b"
    and pl: "output_place base ?ins = (True, ?es)"
    by (auto simp: OutputBuilder_build_def Let_def split: prod.splits)
  have offs: "map (\<lambda>e. unat (ole_file_offset e)) ?es = nat_layout (unat base) (map osi_dims ?ins)"
    using output_place_exact(2) [of base ?ins] pl by simp
  have "placed (unat base) (map osi_dims ?ins) (map (\<lambda>e. unat (ole_file_offset e)) ?es)"
    unfolding offs by (rule nat_layout_placed)
  note pl' = placed_ge [OF this] placed_aligned [OF this] placed_disjoint [OF this]
  have len: "length ?es = length ?ins" using offs by (metis length_map length_nat_layout)
  have dims: "ole_size (?es ! k) = osi_size (?ins ! k)" "ole_alignment (?es ! k) = osi_alignment (?ins ! k)"
    if "k < length ?es" for k
    using output_place_entries [OF pl] that len by (metis nth_map)+
  have "osi_alignment (?ins ! i) \<noteq> 0"
    using normalized_aligned [of "?ins ! i" b] b' assms(2) len by simp
  then have "unat (osi_alignment (?ins ! i)) \<noteq> 0" by (simp add: unat_eq_0)
  with assms(2) len dims pl'(1) [of i] pl'(2) [of i] pl'(3) [of i] show ?thesis
    by (auto simp: osi_dims_def)
qed

theorem OutputBuilder_build_disjoint_witness:
  "unat (64 :: u64) \<le> unat (64 :: u64) \<and> unat (1 :: u64) dvd unat (64 :: u64) \<and>
   unat (64 :: u64) + unat (5 :: u64) \<le> unat (80 :: u64)"
  using OutputBuilder_build_disjoint [OF two_sections_build, of 0] by simp

text \<open>The image \<open>OutputBuilder::build\<close> produces does not depend on the order in which the sections were
  added, as long as no two of them agree in kind, name and input ordinal.\<close>

theorem OutputBuilder_build_deterministic:
  assumes "mset es = mset es'" and "inj_on output_key (set es)"
  shows "OutputBuilder_build (fold OutputBuilder_add_section es OutputBuilder_new) base (Some img)
       = OutputBuilder_build (fold OutputBuilder_add_section es' OutputBuilder_new) base (Some img)"
proof -
  have "OutputBuilder_normalize_inputs (fold OutputBuilder_add_section es OutputBuilder_new)
      = OutputBuilder_normalize_inputs (fold OutputBuilder_add_section es' OutputBuilder_new)"
    using output_tbl.finish_fill_permuted [OF assms] by (intro OutputBuilder.equality) simp_all
  then show ?thesis by (simp add: OutputBuilder_build_def)
qed

theorem OutputBuilder_build_deterministic_witness:
  "OutputBuilder_build (fold OutputBuilder_add_section (ob_inputs two_sections) OutputBuilder_new) 64
     (Some \<lparr>oi_base_offset = 0, oi_sections = []\<rparr>) =
   OutputBuilder_build (fold OutputBuilder_add_section (rev (ob_inputs two_sections)) OutputBuilder_new) 64
     (Some \<lparr>oi_base_offset = 0, oi_sections = []\<rparr>)"
  using OutputBuilder_build_deterministic [of "ob_inputs two_sections" "rev (ob_inputs two_sections)" 64
      "\<lparr>oi_base_offset = 0, oi_sections = []\<rparr>"]
  by (simp add: two_sections_def output_key_def)

text \<open>When the layout ends below \<open>2^64\<close>, \<open>compute_offsets\<close> returns true and writes exactly the offsets of
  the reference layout, normalising zero alignments to one and leaving sizes alone.\<close>

theorem compute_offsets_reference:
  assumes "nat_layout_end (unat base) (map le_dims es) < 2 ^ 64"
  shows "compute_offsets es base =
    (True, map2 (\<lambda>e off. (le_norm e)\<lparr>le_file_offset := of_nat off\<rparr>) es
             (nat_layout (unat base) (map le_dims es)))"
  unfolding compute_offsets_def by (rule compute_offsets_loop_fits) (rule assms)

theorem compute_offsets_reference_witness:
  "compute_offsets [\<lparr>le_size = 3, le_alignment = 0, le_file_offset = 0\<rparr>,
                    \<lparr>le_size = 4, le_alignment = 8, le_file_offset = 0\<rparr>] 16 =
   (True, [\<lparr>le_size = 3, le_alignment = 1, le_file_offset = 16\<rparr>,
           \<lparr>le_size = 4, le_alignment = 8, le_file_offset = 24\<rparr>])"
  using compute_offsets_reference [of 16 "[\<lparr>le_size = 3, le_alignment = 0, le_file_offset = 0\<rparr>,
                    \<lparr>le_size = 4, le_alignment = 8, le_file_offset = 0\<rparr>]"]
  by (simp add: le_dims_def le_norm_def nat_align_up_def)

text \<open>\<open>compute_offsets\<close> does not test the alignment step for wrap-around: there is a vector for which it
  returns true although an entry is placed below the base offset, where \<open>OutputBuilder\<close>'s loop over
  the same sizes and alignments fails.\<close>

theorem compute_offsets_alignment_wrap:
  "\<exists>es ins base. map osi_dims ins = map le_dims es \<and> fst (compute_offsets es base) \<and>
     (\<exists>e. e \<in> set (snd (compute_offsets es base)) \<and> le_file_offset e < base) \<and>
     \<not> fst (output_place base ins)"
proof -
  let ?es = "[\<lparr>le_size = 8, le_alignment = 4096, le_file_offset = 0\<rparr>] :: LayoutEntry list"
  let ?ins = "[\<lparr>osi_name = ''.text'', osi_kind = OutputSectionKind_kCode, osi_size = 8,
                osi_alignment = 4096, osi_input_ordinal = 0\<rparr>] :: OutputSectionInput list"
  let ?base = "18446744073709551615 :: u64"
  have run: "compute_offsets ?es ?base =
    (True, [\<lparr>le_size = 8, le_alignment = 4096, le_file_offset = 0\<rparr>])"
    by (simp add: compute_offsets_def align_up_def Let_def word_le_nat_alt word_less_nat_alt)
  have dims: "map osi_dims ?ins = map le_dims ?es" by (simp add: osi_dims_def le_dims_def)
  have "\<not> fst (output_place ?base ?ins)"
    unfolding output_place_exact dims by (simp add: le_dims_def nat_align_up_def)
  with dims run show ?thesis
    by (intro exI [of _ ?es] exI [of _ ?ins] exI [of _ ?base]) simp
qed

end
