(* ===== verification/Olnk_Tables.thy ===== *)
theory Olnk_Tables
  imports Olnk_Prelude
begin

text \<open>
  The deterministic tables of the linker core: \<open>src/olnk/section_handler.cpp\<close> (\<open>SectionTable\<close>),
  \<open>src/olnk/symbols_table.cpp\<close> (\<open>SymbolTable\<close>), \<open>src/olnk/internal/ir_model.h\<close> with
  \<open>src/olnk/ir_builder.cpp\<close> (\<open>IrBuilder\<close>) and \<open>src/olnk/ir_visitor.cpp\<close> (\<open>IrVisitor\<close>).  Each
  class is a record of its vectors; each sort comparator is the cascade of the source, shown equal
  to the comparison of a lexicographic key, so that every class interprets \<open>ordered_table\<close>.
\<close>

section \<open>\<open>section_handler.cpp\<close>\<close>

datatype SectionKind =
    SectionKind_kUnknown | SectionKind_kCode | SectionKind_kReadOnlyData | SectionKind_kData
  | SectionKind_kBss | SectionKind_kTls | SectionKind_kDebug

primrec SectionKind_u8 :: "SectionKind \<Rightarrow> nat" where
  "SectionKind_u8 SectionKind_kUnknown = 0"
| "SectionKind_u8 SectionKind_kCode = 1"
| "SectionKind_u8 SectionKind_kReadOnlyData = 2"
| "SectionKind_u8 SectionKind_kData = 3"
| "SectionKind_u8 SectionKind_kBss = 4"
| "SectionKind_u8 SectionKind_kTls = 5"
| "SectionKind_u8 SectionKind_kDebug = 6"

record SectionRecord =
  sec_name :: string
  sec_kind :: SectionKind
  sec_size :: u64
  sec_alignment :: u64
  sec_input_ordinal :: u32

record SectionTable =
  tbl_sections :: "SectionRecord list"

definition SectionTable_new :: SectionTable where
  "SectionTable_new = \<lparr>tbl_sections = []\<rparr>"

definition SectionTable_add :: "SectionRecord \<Rightarrow> SectionTable \<Rightarrow> SectionTable" where
  "SectionTable_add section t = t\<lparr>tbl_sections := tbl_sections t @ [section]\<rparr>"

definition section_norm :: "SectionRecord \<Rightarrow> SectionRecord" where
  "section_norm section = (if sec_alignment section = 0 then section\<lparr>sec_alignment := 1\<rparr> else section)"

definition section_less :: "SectionRecord \<Rightarrow> SectionRecord \<Rightarrow> bool" where
  "section_less lhs rhs =
     (if sec_kind lhs \<noteq> sec_kind rhs then SectionKind_u8 (sec_kind lhs) < SectionKind_u8 (sec_kind rhs)
      else if sec_name lhs \<noteq> sec_name rhs then sec_name lhs < sec_name rhs
      else sec_input_ordinal lhs < sec_input_ordinal rhs)"

definition SectionTable_normalize :: "SectionTable \<Rightarrow> SectionTable" where
  "SectionTable_normalize t =
     t\<lparr>tbl_sections := stable_sort section_less (map section_norm (tbl_sections t))\<rparr>"

definition SectionTable_view :: "SectionTable \<Rightarrow> SectionRecord list" where
  "SectionTable_view t = tbl_sections t"

section \<open>\<open>symbols_table.cpp\<close>\<close>

datatype SymbolScope =
    SymbolScope_kUndefined | SymbolScope_kLocal | SymbolScope_kGlobal | SymbolScope_kWeak

primrec SymbolScope_u8 :: "SymbolScope \<Rightarrow> nat" where
  "SymbolScope_u8 SymbolScope_kUndefined = 0"
| "SymbolScope_u8 SymbolScope_kLocal = 1"
| "SymbolScope_u8 SymbolScope_kGlobal = 2"
| "SymbolScope_u8 SymbolScope_kWeak = 3"

record SymbolRecord =
  sym_name :: string
  sym_value :: u64
  sym_size :: u64
  sym_scope :: SymbolScope
  sym_input_ordinal :: u32

record SymbolTable =
  tbl_records :: "SymbolRecord list"

definition SymbolTable_new :: SymbolTable where
  "SymbolTable_new = \<lparr>tbl_records = []\<rparr>"

definition SymbolTable_add :: "SymbolRecord \<Rightarrow> SymbolTable \<Rightarrow> SymbolTable" where
  "SymbolTable_add rec t = t\<lparr>tbl_records := tbl_records t @ [rec]\<rparr>"

definition symbol_less :: "SymbolRecord \<Rightarrow> SymbolRecord \<Rightarrow> bool" where
  "symbol_less lhs rhs =
     (if sym_name lhs \<noteq> sym_name rhs then sym_name lhs < sym_name rhs
      else if sym_scope lhs \<noteq> sym_scope rhs
      then SymbolScope_u8 (sym_scope lhs) < SymbolScope_u8 (sym_scope rhs)
      else if sym_input_ordinal lhs \<noteq> sym_input_ordinal rhs
      then sym_input_ordinal lhs < sym_input_ordinal rhs
      else if sym_value lhs \<noteq> sym_value rhs then sym_value lhs < sym_value rhs
      else sym_size lhs < sym_size rhs)"

definition SymbolTable_finalize_deterministic_order :: "SymbolTable \<Rightarrow> SymbolTable" where
  "SymbolTable_finalize_deterministic_order t = t\<lparr>tbl_records := stable_sort symbol_less (tbl_records t)\<rparr>"

text \<open>The loop of \<open>find_by_name\<close>: the first record of that name, null when there is none.\<close>

fun find_by_name_loop :: "string \<Rightarrow> SymbolRecord list \<Rightarrow> SymbolRecord option" where
  "find_by_name_loop name [] = None"
| "find_by_name_loop name (rec # rest) =
     (if sym_name rec = name then Some rec else find_by_name_loop name rest)"

definition SymbolTable_find_by_name :: "SymbolTable \<Rightarrow> string \<Rightarrow> SymbolRecord option" where
  "SymbolTable_find_by_name t name = find_by_name_loop name (tbl_records t)"

definition SymbolTable_size :: "SymbolTable \<Rightarrow> size_t" where
  "SymbolTable_size t = of_nat (length (tbl_records t))"

section \<open>\<open>internal/ir_model.h\<close>\<close>

datatype IrSectionKind =
    IrSectionKind_kUnknown | IrSectionKind_kCode | IrSectionKind_kReadOnlyData
  | IrSectionKind_kData | IrSectionKind_kBss | IrSectionKind_kDebug

primrec IrSectionKind_u8 :: "IrSectionKind \<Rightarrow> nat" where
  "IrSectionKind_u8 IrSectionKind_kUnknown = 0"
| "IrSectionKind_u8 IrSectionKind_kCode = 1"
| "IrSectionKind_u8 IrSectionKind_kReadOnlyData = 2"
| "IrSectionKind_u8 IrSectionKind_kData = 3"
| "IrSectionKind_u8 IrSectionKind_kBss = 4"
| "IrSectionKind_u8 IrSectionKind_kDebug = 5"

record IrSymbolNode =
  isym_name :: string
  isym_value :: u64
  isym_size :: u64
  isym_input_ordinal :: u32

record IrSectionNode =
  isec_name :: string
  isec_kind :: IrSectionKind
  isec_size :: u64
  isec_alignment :: u64
  isec_input_ordinal :: u32

record IrGraph =
  graph_sections :: "IrSectionNode list"
  graph_symbols :: "IrSymbolNode list"

section \<open>\<open>ir_builder.cpp\<close>\<close>

record IrBuilder =
  irb_sections :: "IrSectionNode list"
  irb_symbols :: "IrSymbolNode list"

definition IrBuilder_new :: IrBuilder where
  "IrBuilder_new = \<lparr>irb_sections = [], irb_symbols = []\<rparr>"

definition IrBuilder_add_section :: "IrSectionNode \<Rightarrow> IrBuilder \<Rightarrow> IrBuilder" where
  "IrBuilder_add_section section b = b\<lparr>irb_sections := irb_sections b @ [section]\<rparr>"

definition IrBuilder_add_symbol :: "IrSymbolNode \<Rightarrow> IrBuilder \<Rightarrow> IrBuilder" where
  "IrBuilder_add_symbol symbol b = b\<lparr>irb_symbols := irb_symbols b @ [symbol]\<rparr>"

definition ir_section_norm :: "IrSectionNode \<Rightarrow> IrSectionNode" where
  "ir_section_norm section = (if isec_alignment section = 0 then section\<lparr>isec_alignment := 1\<rparr> else section)"

definition ir_section_less :: "IrSectionNode \<Rightarrow> IrSectionNode \<Rightarrow> bool" where
  "ir_section_less lhs rhs =
     (if isec_kind lhs \<noteq> isec_kind rhs
      then IrSectionKind_u8 (isec_kind lhs) < IrSectionKind_u8 (isec_kind rhs)
      else if isec_name lhs \<noteq> isec_name rhs then isec_name lhs < isec_name rhs
      else isec_input_ordinal lhs < isec_input_ordinal rhs)"

definition IrBuilder_normalize_sections :: "IrBuilder \<Rightarrow> IrBuilder" where
  "IrBuilder_normalize_sections b =
     b\<lparr>irb_sections := stable_sort ir_section_less (map ir_section_norm (irb_sections b))\<rparr>"

definition ir_symbol_less :: "IrSymbolNode \<Rightarrow> IrSymbolNode \<Rightarrow> bool" where
  "ir_symbol_less lhs rhs =
     (if isym_name lhs \<noteq> isym_name rhs then isym_name lhs < isym_name rhs
      else if isym_value lhs \<noteq> isym_value rhs then isym_value lhs < isym_value rhs
      else isym_input_ordinal lhs < isym_input_ordinal rhs)"

definition IrBuilder_normalize_symbols :: "IrBuilder \<Rightarrow> IrBuilder" where
  "IrBuilder_normalize_symbols b = b\<lparr>irb_symbols := stable_sort ir_symbol_less (irb_symbols b)\<rparr>"

definition IrBuilder_build :: "IrBuilder \<Rightarrow> IrGraph option \<Rightarrow> bool \<times> IrBuilder \<times> IrGraph option" where
  "IrBuilder_build b out_graph =
     (case out_graph of
        None \<Rightarrow> (False, b, None)
      | Some g \<Rightarrow>
          let b' = IrBuilder_normalize_symbols (IrBuilder_normalize_sections b)
          in (True, b', Some (g\<lparr>graph_sections := irb_sections b', graph_symbols := irb_symbols b'\<rparr>)))"

section \<open>\<open>ir_visitor.cpp\<close>\<close>

text \<open>A callback is an effect on a state of the caller; \<open>None\<close> is an empty \<open>std::function\<close>.  The
  index loop of the source is \<open>visit_from\<close>.\<close>

function visit_from :: "nat \<Rightarrow> 'n list \<Rightarrow> ('n \<Rightarrow> 's \<Rightarrow> 's) \<Rightarrow> 's \<Rightarrow> 's" where
  "visit_from i nodes callback s =
     (if i < length nodes then visit_from (Suc i) nodes callback (callback (nodes ! i) s) else s)"
  by auto
termination by (relation "measure (\<lambda>(i, nodes, _). length nodes - i)") auto

declare visit_from.simps [simp del]

definition visit_sections ::
    "IrGraph \<Rightarrow> (IrSectionNode \<Rightarrow> 's \<Rightarrow> 's) option \<Rightarrow> 's \<Rightarrow> bool \<times> 's" where
  "visit_sections graph callback s =
     (case callback of None \<Rightarrow> (False, s) | Some cb \<Rightarrow> (True, visit_from 0 (graph_sections graph) cb s))"

definition visit_symbols ::
    "IrGraph \<Rightarrow> (IrSymbolNode \<Rightarrow> 's \<Rightarrow> 's) option \<Rightarrow> 's \<Rightarrow> bool \<times> 's" where
  "visit_symbols graph callback s =
     (case callback of None \<Rightarrow> (False, s) | Some cb \<Rightarrow> (True, visit_from 0 (graph_symbols graph) cb s))"

section \<open>The comparators as keys\<close>

lemma SectionKind_u8_inj [simp]: "SectionKind_u8 a = SectionKind_u8 b \<longleftrightarrow> a = b"
  by (cases a; cases b) simp_all

lemma SymbolScope_u8_inj [simp]: "SymbolScope_u8 a = SymbolScope_u8 b \<longleftrightarrow> a = b"
  by (cases a; cases b) simp_all

lemma IrSectionKind_u8_inj [simp]: "IrSectionKind_u8 a = IrSectionKind_u8 b \<longleftrightarrow> a = b"
  by (cases a; cases b) simp_all

definition section_key :: "SectionRecord \<Rightarrow> nat \<times> string \<times> nat" where
  "section_key r = (SectionKind_u8 (sec_kind r), sec_name r, unat (sec_input_ordinal r))"

definition symbol_key :: "SymbolRecord \<Rightarrow> string \<times> nat \<times> nat \<times> nat \<times> nat" where
  "symbol_key r = (sym_name r, SymbolScope_u8 (sym_scope r), unat (sym_input_ordinal r),
     unat (sym_value r), unat (sym_size r))"

definition ir_section_key :: "IrSectionNode \<Rightarrow> nat \<times> string \<times> nat" where
  "ir_section_key r = (IrSectionKind_u8 (isec_kind r), isec_name r, unat (isec_input_ordinal r))"

definition ir_symbol_key :: "IrSymbolNode \<Rightarrow> string \<times> nat \<times> nat" where
  "ir_symbol_key r = (isym_name r, unat (isym_value r), unat (isym_input_ordinal r))"

lemma section_less_key [keyed]: "section_less a b \<longleftrightarrow> section_key a < section_key b"
  by (simp add: section_less_def section_key_def word_less_nat_alt lex_less_if del: less_prod_simp)

lemma symbol_less_key [keyed]: "symbol_less a b \<longleftrightarrow> symbol_key a < symbol_key b"
  by (simp add: symbol_less_def symbol_key_def word_less_nat_alt lex_less_if del: less_prod_simp)

lemma ir_section_less_key [keyed]: "ir_section_less a b \<longleftrightarrow> ir_section_key a < ir_section_key b"
  by (simp add: ir_section_less_def ir_section_key_def word_less_nat_alt lex_less_if del: less_prod_simp)

lemma ir_symbol_less_key [keyed]: "ir_symbol_less a b \<longleftrightarrow> ir_symbol_key a < ir_symbol_key b"
  by (simp add: ir_symbol_less_def ir_symbol_key_def word_less_nat_alt lex_less_if del: less_prod_simp)

text \<open>The symbol key has every field, so it identifies a record.\<close>

lemma symbol_key_inj: "inj symbol_key"
  by (rule injI) (simp add: symbol_key_def)

interpretation section_tbl: ordered_table section_less section_key
  SectionTable_new SectionTable_add SectionTable_normalize SectionTable_view section_norm
  by unfold_locales
    (auto simp: keyed SectionTable_new_def SectionTable_add_def SectionTable_normalize_def
      SectionTable_view_def section_norm_def section_key_def)

interpretation symbol_tbl: ordered_table symbol_less symbol_key
  SymbolTable_new SymbolTable_add SymbolTable_finalize_deterministic_order tbl_records "\<lambda>r. r"
  by unfold_locales
    (auto simp: keyed SymbolTable_new_def SymbolTable_add_def SymbolTable_finalize_deterministic_order_def)

interpretation ir_section_tbl: ordered_table ir_section_less ir_section_key
  IrBuilder_new IrBuilder_add_section IrBuilder_normalize_sections irb_sections ir_section_norm
  by unfold_locales
    (auto simp: keyed IrBuilder_new_def IrBuilder_add_section_def IrBuilder_normalize_sections_def
      ir_section_norm_def ir_section_key_def)

interpretation ir_symbol_tbl: ordered_table ir_symbol_less ir_symbol_key
  IrBuilder_new IrBuilder_add_symbol IrBuilder_normalize_symbols irb_symbols "\<lambda>r. r"
  by unfold_locales
    (auto simp: keyed IrBuilder_new_def IrBuilder_add_symbol_def IrBuilder_normalize_symbols_def)

section \<open>Lookup in a finalised symbol table\<close>

lemma find_by_name_loop_None: "find_by_name_loop name rs = None \<longleftrightarrow> name \<notin> sym_name ` set rs"
  by (induction rs) auto

lemma find_by_name_loop_SomeD: "find_by_name_loop name rs = Some r \<Longrightarrow> r \<in> set rs \<and> sym_name r = name"
  by (induction rs) (auto split: if_splits)

lemma find_by_name_loop_least:
  "sorted (map symbol_key rs) \<Longrightarrow> find_by_name_loop name rs = Some r \<Longrightarrow> r' \<in> set rs \<Longrightarrow>
   sym_name r' = name \<Longrightarrow> symbol_key r \<le> symbol_key r'"
  by (induction rs) (auto split: if_splits)

lemma set_finalized: "set (tbl_records (SymbolTable_finalize_deterministic_order t)) = set (tbl_records t)"
  by (simp add: SymbolTable_finalize_deterministic_order_def)

lemma visit_from_drop: "visit_from i nodes cb s = fold cb (drop i nodes) s"
proof (induction i nodes cb s rule: visit_from.induct)
  case (1 i nodes cb s)
  then show ?case
    by (cases "i < length nodes") (simp_all add: visit_from.simps [of i] flip: Cons_nth_drop_Suc)
qed

section \<open>Properties\<close>

text \<open>Two symbol tables that received the same records, in whatever order and with duplicates, are
  equal once finalised: the sort's comparator leaves no ties, so the order is total.\<close>

theorem SymbolTable_finalize_deterministic:
  assumes "mset rs = mset rs'"
  shows "SymbolTable_finalize_deterministic_order (fold SymbolTable_add rs SymbolTable_new)
       = SymbolTable_finalize_deterministic_order (fold SymbolTable_add rs' SymbolTable_new)"
  using symbol_tbl.finish_fill_permuted [OF assms inj_on_subset [OF symbol_key_inj subset_UNIV]]
  by (intro SymbolTable.equality) simp_all

definition sym_undef :: SymbolRecord where
  "sym_undef = \<lparr>sym_name = ''f'', sym_value = 0, sym_size = 0, sym_scope = SymbolScope_kUndefined,
     sym_input_ordinal = 1\<rparr>"

definition sym_def :: SymbolRecord where
  "sym_def = \<lparr>sym_name = ''f'', sym_value = 4096, sym_size = 16, sym_scope = SymbolScope_kGlobal,
     sym_input_ordinal = 0\<rparr>"

theorem SymbolTable_finalize_deterministic_witness:
  "SymbolTable_finalize_deterministic_order (fold SymbolTable_add [sym_def, sym_undef] SymbolTable_new)
   = SymbolTable_finalize_deterministic_order (fold SymbolTable_add [sym_undef, sym_def] SymbolTable_new)"
  by (rule SymbolTable_finalize_deterministic) simp

text \<open>In a finalised symbol table \<open>find_by_name\<close> returns null exactly for the names never added, and
  otherwise the record of that name that is least by scope, input ordinal, value and size; in
  particular an undefined reference is preferred to every definition of the same name.\<close>

theorem SymbolTable_find_by_name_least:
  "case SymbolTable_find_by_name (SymbolTable_finalize_deterministic_order (fold SymbolTable_add rs SymbolTable_new)) name of
     None \<Rightarrow> name \<notin> sym_name ` set rs
   | Some r \<Rightarrow> r \<in> set rs \<and> sym_name r = name \<and>
       symbol_key r = Min (symbol_key ` {r' \<in> set rs. sym_name r' = name})"
proof -
  let ?t = "SymbolTable_finalize_deterministic_order (fold SymbolTable_add rs SymbolTable_new)"
  have set: "set (tbl_records ?t) = set rs"
    by (simp add: set_finalized symbol_tbl.contents_fill symbol_tbl.contents_empty)
  show ?thesis
  proof (cases "SymbolTable_find_by_name ?t name")
    case None
    then show ?thesis
      using find_by_name_loop_None [of name "tbl_records ?t"] by (simp add: SymbolTable_find_by_name_def set)
  next
    case (Some r)
    then have r: "r \<in> set rs" "sym_name r = name"
      using find_by_name_loop_SomeD [of name "tbl_records ?t" r] set by (auto simp: SymbolTable_find_by_name_def)
    have "Min (symbol_key ` {r' \<in> set rs. sym_name r' = name}) = symbol_key r"
    proof (rule Min_eqI)
      show "symbol_key r \<le> k" if "k \<in> symbol_key ` {r' \<in> set rs. sym_name r' = name}" for k
        using that find_by_name_loop_least [OF symbol_tbl.finish_sorted] Some set
        by (auto simp: SymbolTable_find_by_name_def simp del: less_eq_prod_simp)
    qed (use r in auto)
    with Some r show ?thesis by simp
  qed
qed

text \<open>An undefined reference hides a global definition of the same name from \<open>find_by_name\<close>, although
  the definition is in the table.\<close>

theorem SymbolTable_undefined_shadows:
  "SymbolTable_find_by_name (SymbolTable_finalize_deterministic_order
     (fold SymbolTable_add [sym_def, sym_undef] SymbolTable_new)) ''f'' = Some sym_undef"
  by (simp add: SymbolTable_find_by_name_def SymbolTable_finalize_deterministic_order_def
      SymbolTable_add_def SymbolTable_new_def symbol_less_def sym_undef_def sym_def_def)

text \<open>\<open>SectionTable::normalize\<close> is deterministic and idempotent: the view is sorted by kind, name and
  ordinal, its records are the added ones with zero alignments made one, normalising again changes
  nothing, and without ties the insertion order is irrelevant.\<close>

theorem SectionTable_normalize_contract:
  assumes "mset rs = mset rs'" "inj_on section_key (set rs)"
  shows "let t = SectionTable_normalize (fold SectionTable_add rs SectionTable_new) in
      SectionTable_normalize (fold SectionTable_add rs' SectionTable_new) = t \<and>
      SectionTable_normalize t = t \<and>
      sorted (map section_key (SectionTable_view t)) \<and>
      mset (SectionTable_view t) = image_mset section_norm (mset rs)"
proof -
  have ext: "t = t'" if "SectionTable_view t = SectionTable_view t'" for t t'
    using that by (intro SectionTable.equality) (simp_all add: SectionTable_view_def)
  show ?thesis
    using section_tbl.finish_fill_permuted [OF assms] section_tbl.finish_sorted section_tbl.finish_idem
      section_tbl.finish_mset [of "fold SectionTable_add rs SectionTable_new"]
    by (auto simp: Let_def section_tbl.contents_fill section_tbl.contents_empty intro!: ext)
qed

definition sec_text :: SectionRecord where
  "sec_text = \<lparr>sec_name = ''.text'', sec_kind = SectionKind_kCode, sec_size = 5, sec_alignment = 0,
     sec_input_ordinal = 0\<rparr>"

definition sec_bss :: SectionRecord where
  "sec_bss = \<lparr>sec_name = ''.bss'', sec_kind = SectionKind_kBss, sec_size = 64, sec_alignment = 16,
     sec_input_ordinal = 1\<rparr>"

theorem SectionTable_normalize_contract_witness:
  "SectionTable_view (SectionTable_normalize (fold SectionTable_add [sec_bss, sec_text] SectionTable_new))
     = [sec_text\<lparr>sec_alignment := 1\<rparr>, sec_bss] \<and>
   SectionTable_normalize (fold SectionTable_add [sec_text, sec_bss] SectionTable_new)
     = SectionTable_normalize (fold SectionTable_add [sec_bss, sec_text] SectionTable_new)"
proof
  show "SectionTable_normalize (fold SectionTable_add [sec_text, sec_bss] SectionTable_new)
     = SectionTable_normalize (fold SectionTable_add [sec_bss, sec_text] SectionTable_new)"
    using SectionTable_normalize_contract [of "[sec_bss, sec_text]" "[sec_text, sec_bss]"]
    by (simp add: Let_def section_key_def sec_text_def sec_bss_def)
qed (simp add: SectionTable_view_def SectionTable_normalize_def SectionTable_add_def SectionTable_new_def
    section_norm_def section_less_def sec_text_def sec_bss_def)

text \<open>The calls a client makes on an \<open>IrBuilder\<close> before \<open>build\<close>.\<close>

datatype ir_add = AddSection IrSectionNode | AddSymbol IrSymbolNode

primrec ir_step :: "ir_add \<Rightarrow> IrBuilder \<Rightarrow> IrBuilder" where
  "ir_step (AddSection s) = IrBuilder_add_section s"
| "ir_step (AddSymbol s) = IrBuilder_add_symbol s"

primrec ir_add_section :: "ir_add \<Rightarrow> IrSectionNode option" where
  "ir_add_section (AddSection s) = Some s"
| "ir_add_section (AddSymbol s) = None"

primrec ir_add_symbol :: "ir_add \<Rightarrow> IrSymbolNode option" where
  "ir_add_symbol (AddSection s) = None"
| "ir_add_symbol (AddSymbol s) = Some s"

lemma ir_steps:
  "irb_sections (fold ir_step os b) = irb_sections b @ List.map_filter ir_add_section os"
  "irb_symbols (fold ir_step os b) = irb_symbols b @ List.map_filter ir_add_symbol os"
proof (induction os arbitrary: b)
  case (Cons x os)
  { case 1 show ?case using Cons.IH by (cases x) (simp_all add: IrBuilder_add_section_def IrBuilder_add_symbol_def) }
  { case 2 show ?case using Cons.IH by (cases x) (simp_all add: IrBuilder_add_section_def IrBuilder_add_symbol_def) }
qed simp_all

lemma mset_map_filter_cong: "mset os = mset os' \<Longrightarrow> mset (List.map_filter f os) = mset (List.map_filter f os')"
  by (simp add: List.map_filter_def)

text \<open>\<open>IrBuilder::build\<close> gives the same graph for every interleaving of the same \<open>add_section\<close> and
  \<open>add_symbol\<close> calls, as long as no two sections agree in kind, name and ordinal and no two symbols in
  name, value and ordinal.\<close>

theorem IrBuilder_build_deterministic:
  assumes "mset os = mset os'"
    and "inj_on ir_section_key (set (List.map_filter ir_add_section os))"
    and "inj_on ir_symbol_key (set (List.map_filter ir_add_symbol os))"
  shows "IrBuilder_build (fold ir_step os IrBuilder_new) (Some g)
       = IrBuilder_build (fold ir_step os' IrBuilder_new) (Some g)"
proof -
  let ?b = "fold ir_step os IrBuilder_new" and ?b' = "fold ir_step os' IrBuilder_new"
  have "irb_sections (IrBuilder_normalize_sections ?b) = irb_sections (IrBuilder_normalize_sections ?b')"
    using assms(2) mset_map_filter_cong [OF assms(1)]
    by (intro ir_section_tbl.finish_permuted) (simp_all add: ir_steps IrBuilder_new_def)
  moreover have "irb_symbols (IrBuilder_normalize_symbols ?b) = irb_symbols (IrBuilder_normalize_symbols ?b')"
    using assms(3) mset_map_filter_cong [OF assms(1)]
    by (intro ir_symbol_tbl.finish_permuted) (simp_all add: ir_steps IrBuilder_new_def)
  ultimately have "IrBuilder_normalize_symbols (IrBuilder_normalize_sections ?b)
    = IrBuilder_normalize_symbols (IrBuilder_normalize_sections ?b')"
    by (intro IrBuilder.equality) (simp_all add: IrBuilder_normalize_sections_def IrBuilder_normalize_symbols_def)
  then show ?thesis by (simp add: IrBuilder_build_def)
qed

definition ir_text :: IrSectionNode where
  "ir_text = \<lparr>isec_name = ''.text'', isec_kind = IrSectionKind_kCode, isec_size = 5, isec_alignment = 0,
     isec_input_ordinal = 0\<rparr>"

definition ir_main :: IrSymbolNode where
  "ir_main = \<lparr>isym_name = ''main'', isym_value = 64, isym_size = 5, isym_input_ordinal = 0\<rparr>"

theorem IrBuilder_build_deterministic_witness:
  "IrBuilder_build (fold ir_step [AddSection ir_text, AddSymbol ir_main] IrBuilder_new)
     (Some \<lparr>graph_sections = [], graph_symbols = []\<rparr>)
   = IrBuilder_build (fold ir_step [AddSymbol ir_main, AddSection ir_text] IrBuilder_new)
     (Some \<lparr>graph_sections = [], graph_symbols = []\<rparr>)"
  by (rule IrBuilder_build_deterministic) (simp_all add: List.map_filter_simps)

text \<open>The visitor calls a non-empty callback once per node, in graph order, and does nothing for an
  empty one: \<open>visit_sections\<close> and \<open>visit_symbols\<close> are folds over the graph's vectors.\<close>

theorem visit_in_order:
  "visit_sections g cb s = (cb \<noteq> None, case cb of None \<Rightarrow> s | Some f \<Rightarrow> fold f (graph_sections g) s)"
    for cb :: "(IrSectionNode \<Rightarrow> 's \<Rightarrow> 's) option"
  by (cases cb) (simp_all add: visit_sections_def visit_from_drop)

end
