(* ===== verification/Olnk_Relocation.thy ===== *)
theory Olnk_Relocation
  imports Olnk_Prelude
begin

text \<open>
  \<open>src/olnk/relocation.cpp\<close>: the relocation planner (an ordered table) and the application of
  relocations to a place.  Values are \<open>uint64_t\<close>; the addend is an \<open>int64_t\<close>, kept as a 64-bit
  word read with \<open>sint\<close>.  Negating \<open>INT64_MIN\<close> is undefined behaviour in C++, and the model says so
  with \<open>None\<close>.
\<close>

datatype RelocationKind =
    RelocationKind_kNone | RelocationKind_kAbsolute | RelocationKind_kPcRelative
  | RelocationKind_kGot | RelocationKind_kPlt

primrec RelocationKind_u16 :: "RelocationKind \<Rightarrow> nat" where
  "RelocationKind_u16 RelocationKind_kNone = 0"
| "RelocationKind_u16 RelocationKind_kAbsolute = 1"
| "RelocationKind_u16 RelocationKind_kPcRelative = 2"
| "RelocationKind_u16 RelocationKind_kGot = 3"
| "RelocationKind_u16 RelocationKind_kPlt = 4"

datatype RelocationApplyStatus =
    RelocationApplyStatus_kApplied | RelocationApplyStatus_kSkippedUnsupported
  | RelocationApplyStatus_kInvalidInput | RelocationApplyStatus_kOverflow

record RelocationRecord =
  rel_kind :: RelocationKind
  rel_offset :: u64
  rel_addend :: "64 word"
  rel_target_value :: u64
  rel_input_ordinal :: u32

record RelocationResult =
  rr_offset :: u64
  rr_status :: RelocationApplyStatus
  rr_resolved_value :: u64

definition RelocationResult_default :: RelocationResult where
  "RelocationResult_default =
     \<lparr>rr_offset = 0, rr_status = RelocationApplyStatus_kInvalidInput, rr_resolved_value = 0\<rparr>"

record RelocationPlanner =
  planner_records :: "RelocationRecord list"

definition RelocationPlanner_new :: RelocationPlanner where
  "RelocationPlanner_new = \<lparr>planner_records = []\<rparr>"

definition RelocationPlanner_add :: "RelocationRecord \<Rightarrow> RelocationPlanner \<Rightarrow> RelocationPlanner" where
  "RelocationPlanner_add rec p = p\<lparr>planner_records := planner_records p @ [rec]\<rparr>"

definition relocation_less :: "RelocationRecord \<Rightarrow> RelocationRecord \<Rightarrow> bool" where
  "relocation_less lhs rhs =
     (if rel_offset lhs \<noteq> rel_offset rhs then rel_offset lhs < rel_offset rhs
      else if rel_kind lhs \<noteq> rel_kind rhs
      then RelocationKind_u16 (rel_kind lhs) < RelocationKind_u16 (rel_kind rhs)
      else rel_input_ordinal lhs < rel_input_ordinal rhs)"

definition RelocationPlanner_finalize_deterministic_order :: "RelocationPlanner \<Rightarrow> RelocationPlanner" where
  "RelocationPlanner_finalize_deterministic_order p =
     p\<lparr>planner_records := stable_sort relocation_less (planner_records p)\<rparr>"

definition RelocationPlanner_view :: "RelocationPlanner \<Rightarrow> RelocationRecord list" where
  "RelocationPlanner_view p = planner_records p"

text \<open>\<open>-addend\<close> on \<open>int64_t\<close>, then the cast to \<open>uint64_t\<close>; undefined on \<open>INT64_MIN\<close>.\<close>

definition neg_i64 :: "64 word \<Rightarrow> u64 option" where
  "neg_i64 addend = (if sint addend = - (2 ^ 63) then None else Some (- addend))"

definition apply_single :: "RelocationRecord \<Rightarrow> u64 \<Rightarrow> RelocationResult option" where
  "apply_single rec place =
     (let result = RelocationResult_default\<lparr>rr_offset := rel_offset rec\<rparr> in
      if rel_kind rec = RelocationKind_kNone
      then Some (result\<lparr>rr_status := RelocationApplyStatus_kSkippedUnsupported\<rparr>)
      else
        let base = rel_target_value rec; addend = rel_addend rec;
            pc_step = (\<lambda>result.
              if rel_kind rec = RelocationKind_kPcRelative then
                if rr_resolved_value result < place
                then Some (result\<lparr>rr_status := RelocationApplyStatus_kOverflow\<rparr>)
                else Some (result\<lparr>rr_resolved_value := rr_resolved_value result - place,
                                  rr_status := RelocationApplyStatus_kApplied\<rparr>)
              else Some (result\<lparr>rr_status := RelocationApplyStatus_kApplied\<rparr>))
        in if 0 \<le> sint addend then
             if 18446744073709551615 - addend < base
             then Some (result\<lparr>rr_status := RelocationApplyStatus_kOverflow\<rparr>)
             else pc_step (result\<lparr>rr_resolved_value := base + addend\<rparr>)
           else case neg_i64 addend of
             None \<Rightarrow> None
           | Some usub \<Rightarrow>
               if base < usub then Some (result\<lparr>rr_status := RelocationApplyStatus_kOverflow\<rparr>)
               else pc_step (result\<lparr>rr_resolved_value := base - usub\<rparr>))"

fun apply_relocations :: "RelocationRecord list \<Rightarrow> u64 \<Rightarrow> RelocationResult list option" where
  "apply_relocations [] place_base = Some []"
| "apply_relocations (rec # recs) place_base =
     (let place = place_base + rel_offset rec;
          r = (if place < place_base
               then Some (RelocationResult_default\<lparr>rr_offset := rel_offset rec,
                                                   rr_status := RelocationApplyStatus_kOverflow\<rparr>)
               else apply_single rec place)
      in case r of None \<Rightarrow> None
         | Some result \<Rightarrow> map_option (Cons result) (apply_relocations recs place_base))"

section \<open>Integer arithmetic of a relocation\<close>

text \<open>What \<open>S + A\<close>, and for PC-relative kinds \<open>S + A - P\<close>, is over the integers.\<close>

definition reloc_sum :: "RelocationRecord \<Rightarrow> int" where
  "reloc_sum rec = uint (rel_target_value rec) + sint (rel_addend rec)"

definition reloc_value :: "RelocationRecord \<Rightarrow> u64 \<Rightarrow> int" where
  "reloc_value rec place =
     (if rel_kind rec = RelocationKind_kPcRelative then reloc_sum rec - uint place else reloc_sum rec)"

definition in_u64 :: "int \<Rightarrow> bool" where
  "in_u64 v \<longleftrightarrow> 0 \<le> v \<and> v < 2 ^ 64"

lemma sint_uint_64:
  "sint (a :: u64) = (if uint a < 2 ^ 63 then uint a else uint a - 2 ^ 64)"
proof -
  have "(x + 9223372036854775808) mod 18446744073709551616 = x - 9223372036854775808"
    if "9223372036854775808 \<le> x" "x < 18446744073709551616" for x :: int
  proof -
    have "(x + 9223372036854775808) mod 18446744073709551616
        = (x - 9223372036854775808 + 18446744073709551616) mod 18446744073709551616" by (simp add: add.commute)
    then show ?thesis using that by (simp only: mod_add_self2) (simp add: mod_pos_pos_trivial)
  qed
  then show ?thesis
    using uint_bounded [of a] by (simp add: sint_uint signed_take_bit_eq_take_bit_shift take_bit_eq_mod
      mod_pos_pos_trivial not_less)
qed

lemma uint_pos [simp]: "0 \<le> uint (a :: 'a::len word)"
  by simp

lemma uint_lt_64: "uint (a :: u64) < 18446744073709551616"
  using uint_bounded [of a] by simp

text \<open>The two overflow tests of the source are exact.\<close>

lemma add_test:
  assumes "0 \<le> sint (a :: u64)"
  shows "18446744073709551615 - a < b \<longleftrightarrow> 2 ^ 64 \<le> uint b + sint a"
    and "uint b + sint a < 2 ^ 64 \<Longrightarrow> uint (b + a) = uint b + sint a"
proof -
  have s: "sint a = uint a" "uint a < 9223372036854775808"
    using assms uint_lt_64 [of a] by (simp_all add: sint_uint_64 split: if_splits)
  have "uint (18446744073709551615 - a) = 18446744073709551615 - uint a"
  proof -
    have "(18446744073709551615 - uint a) mod 18446744073709551616 = 18446744073709551615 - uint a"
      by (rule mod_pos_pos_trivial) (use s(2) uint_pos [of a] in linarith)+
    then show ?thesis by (simp add: uint_word_ariths)
  qed
  then show "18446744073709551615 - a < b \<longleftrightarrow> 2 ^ 64 \<le> uint b + sint a"
    by (auto simp: word_less_def s)
  show "uint (b + a) = uint b + sint a" if "uint b + sint a < 2 ^ 64"
    using that by (simp add: uint_word_ariths mod_pos_pos_trivial s)
qed

lemma sub_test:
  assumes "sint (a :: u64) < 0" "neg_i64 a = Some u"
  shows "b < u \<longleftrightarrow> uint b + sint a < 0"
    and "0 \<le> uint b + sint a \<Longrightarrow> uint (b - u) = uint b + sint a"
proof -
  have a: "sint a = uint a - 18446744073709551616" "9223372036854775808 \<le> uint a"
    using assms(1) by (simp_all add: sint_uint_64 split: if_splits)
  have u: "u = - a" using assms(2) by (simp add: neg_i64_def split: if_splits)
  have neg: "uint u = - sint a"
  proof -
    have "uint u = (- uint a) mod 18446744073709551616" by (simp add: u uint_word_ariths)
    also have "\<dots> = (- uint a + 18446744073709551616) mod 18446744073709551616" by simp
    also have "\<dots> = - uint a + 18446744073709551616"
      using a uint_lt_64 [of a] by (intro mod_pos_pos_trivial) simp_all
    finally show ?thesis by (simp add: a)
  qed
  show "b < u \<longleftrightarrow> uint b + sint a < 0" by (auto simp: word_less_def neg)
  show "uint (b - u) = uint b + sint a" if "0 \<le> uint b + sint a"
    using that neg by (subst uint_sub_lem [THEN iffD1]) simp_all
qed

section \<open>The planner as an ordered table\<close>

lemma RelocationKind_u16_inj [simp]: "RelocationKind_u16 a = RelocationKind_u16 b \<longleftrightarrow> a = b"
  by (cases a; cases b) simp_all

definition relocation_key :: "RelocationRecord \<Rightarrow> nat \<times> nat \<times> nat" where
  "relocation_key r = (unat (rel_offset r), RelocationKind_u16 (rel_kind r), unat (rel_input_ordinal r))"

lemma relocation_less_key [keyed]: "relocation_less a b \<longleftrightarrow> relocation_key a < relocation_key b"
  by (simp add: relocation_less_def relocation_key_def word_less_nat_alt lex_less_if del: less_prod_simp)

interpretation planner_tbl: ordered_table relocation_less relocation_key
  RelocationPlanner_new RelocationPlanner_add RelocationPlanner_finalize_deterministic_order
  RelocationPlanner_view "\<lambda>r. r"
  by unfold_locales
    (auto simp: keyed RelocationPlanner_new_def RelocationPlanner_add_def
      RelocationPlanner_finalize_deterministic_order_def RelocationPlanner_view_def)

section \<open>Properties\<close>

lemma apply_single_None_iff:
  "apply_single rec place = None \<longleftrightarrow> rel_kind rec \<noteq> RelocationKind_kNone \<and> sint (rel_addend rec) = - (2 ^ 63)"
  by (auto simp: apply_single_def neg_i64_def Let_def split: option.splits)

lemma apply_single_value:
  assumes "sint (rel_addend rec) \<noteq> - (2 ^ 63)"
  shows "\<exists>r. apply_single rec place = Some r \<and> rr_offset r = rel_offset rec \<and>
    (rr_status r =
      (if rel_kind rec = RelocationKind_kNone then RelocationApplyStatus_kSkippedUnsupported
       else if in_u64 (reloc_sum rec) \<and> in_u64 (reloc_value rec place) then RelocationApplyStatus_kApplied
       else RelocationApplyStatus_kOverflow)) \<and>
    (rr_status r = RelocationApplyStatus_kApplied \<longrightarrow> uint (rr_resolved_value r) = reloc_value rec place)"
proof -
  let ?b = "rel_target_value rec" and ?a = "rel_addend rec"
  have pc: "uint v = reloc_sum rec \<Longrightarrow> in_u64 (reloc_sum rec)" for v :: u64
    using uint_lt_64 [of v] by (simp add: in_u64_def) (metis uint_pos)
  have place: "v < place \<longleftrightarrow> \<not> in_u64 (uint v - uint place)" "\<not> v < place \<Longrightarrow> uint (v - place) = uint v - uint place"
    for v :: u64
  proof -
    have "uint v - uint place < 18446744073709551616"
      using uint_lt_64 [of v] uint_pos [of place] by linarith
    then show "v < place \<longleftrightarrow> \<not> in_u64 (uint v - uint place)"
      "\<not> v < place \<Longrightarrow> uint (v - place) = uint v - uint place"
      by (auto simp: in_u64_def word_less_def uint_sub_lem [THEN iffD1])
  qed
  show ?thesis
  proof (cases "0 \<le> sint ?a")
    case True
    note t = add_test [OF True, of ?b]
    have "in_u64 (reloc_sum rec) \<longleftrightarrow> \<not> 2 ^ 64 \<le> uint ?b + sint ?a"
      using True by (auto simp: in_u64_def reloc_sum_def)
    then show ?thesis using True t place [of "?b + ?a"] pc [of "?b + ?a"]
      by (auto simp: apply_single_def Let_def reloc_value_def reloc_sum_def RelocationResult_default_def)
  next
    case False
    then obtain u where u: "neg_i64 ?a = Some u" using assms by (simp add: neg_i64_def)
    from False have neg: "sint ?a < 0" by simp
    note t = sub_test [OF neg u, of ?b]
    have "in_u64 (reloc_sum rec) \<longleftrightarrow> 0 \<le> uint ?b + sint ?a"
      using neg uint_lt_64 [of ?b] by (auto simp: in_u64_def reloc_sum_def)
    then show ?thesis using False u t place [of "?b - u"] pc [of "?b - u"]
      by (auto simp: apply_single_def Let_def reloc_value_def reloc_sum_def RelocationResult_default_def)
  qed
qed


definition rel_call :: RelocationRecord where
  "rel_call = \<lparr>rel_kind = RelocationKind_kPcRelative, rel_offset = 16, rel_addend = - 4,
     rel_target_value = 4100, rel_input_ordinal = 0\<rparr>"


lemma apply_relocations_pointwise_aux:
  assumes "apply_relocations recs base = Some rs"
  shows "length rs = length recs \<and> (\<forall>i. i < length recs \<longrightarrow>
      rr_offset (rs ! i) = rel_offset (recs ! i) \<and>
      (if 2 ^ 64 \<le> unat base + unat (rel_offset (recs ! i))
       then rr_status (rs ! i) = RelocationApplyStatus_kOverflow
       else apply_single (recs ! i) (base + rel_offset (recs ! i)) = Some (rs ! i)))"
  using assms
proof (induction recs arbitrary: rs)
  case (Cons rec recs)
  have off: "apply_single rec p = Some r \<Longrightarrow> rr_offset r = rel_offset rec" for p r
    by (auto simp: apply_single_def Let_def RelocationResult_default_def split: if_splits option.splits)
  from Cons.prems obtain r rs' where rs: "rs = r # rs'" and rest: "apply_relocations recs base = Some rs'"
    and r: "rr_offset r = rel_offset rec"
      "if 2 ^ 64 \<le> unat base + unat (rel_offset rec) then rr_status r = RelocationApplyStatus_kOverflow
       else apply_single rec (base + rel_offset rec) = Some r"
    using add_wraps_iff [of base "rel_offset rec"]
    by (auto simp: Let_def RelocationResult_default_def split: if_splits option.splits dest: off)
  from Cons.IH [OF rest] r show ?case
    by (auto simp: rs nth_Cons split: nat.splits)
qed simp

text \<open>\<open>apply_relocations\<close> returns one result per record, in the order of the records and carrying their
  offsets, and record \<open>i\<close> is applied at the place \<open>place_base + offset\<close> of its own, or reported as
  overflow exactly when that place is not a \<open>uint64_t\<close>; no record influences another.\<close>

theorem apply_relocations_pointwise:
  assumes "apply_relocations recs base = Some rs"
  shows "length rs = length recs \<and> (\<forall>i. i < length recs \<longrightarrow>
      rr_offset (rs ! i) = rel_offset (recs ! i) \<and>
      (if 2 ^ 64 \<le> unat base + unat (rel_offset (recs ! i))
       then rr_status (rs ! i) = RelocationApplyStatus_kOverflow
       else apply_single (recs ! i) (base + rel_offset (recs ! i)) = Some (rs ! i)))"
  using assms by (rule apply_relocations_pointwise_aux)

theorem apply_relocations_pointwise_witness:
  "apply_single rel_call (3984 + 16) = Some \<lparr>rr_offset = 16, rr_status = RelocationApplyStatus_kApplied,
     rr_resolved_value = 96\<rparr>"
proof -
  have "apply_relocations [rel_call] 3984 = Some [\<lparr>rr_offset = 16, rr_status = RelocationApplyStatus_kApplied,
     rr_resolved_value = 96\<rparr>]" by code_simp
  from apply_relocations_pointwise [OF this] show ?thesis by (simp add: rel_call_def)
qed

text \<open>The only undefined behaviour of \<open>apply_single\<close> is the negation of \<open>INT64_MIN\<close>, which no guard
  excludes: a record with that addend and a real kind has no defined result, although \<open>S + A\<close> is
  representable for every target value of at least \<open>2^63\<close>.\<close>

theorem apply_single_undefined_iff:
  "apply_single rec place = None \<longleftrightarrow>
     rel_kind rec \<noteq> RelocationKind_kNone \<and> sint (rel_addend rec) = - (2 ^ 63)"
  by (rule apply_single_None_iff)

end
