(* ===== verification/Olnk_Status.thy ===== *)
theory Olnk_Status
  imports Olnk_Prelude
begin

text \<open>
  The C vocabulary of \<open>include/olnk/olnk-api.h\<close> and \<open>include/olnk/olnk-version.h\<close>: status codes, log
  levels, severities and output kinds with their numeric values, the version macros, and the
  functions of \<open>src/olnk/api.cpp\<close> and \<open>src/olnk/diagnostics.cpp\<close> on them.  A C enum may hold an integer
  that is none of its enumerators (the \<open>default\<close> branches of the sources are about those), so
  each enumeration has a constructor for such a value.
\<close>

unbundle bit_operations_syntax

section \<open>Enumerations\<close>

datatype olnk_status =
    OLNK_STATUS_OK | OLNK_STATUS_UNKNOWN | OLNK_STATUS_INVALID_ARGUMENT | OLNK_STATUS_OUT_OF_MEMORY
  | OLNK_STATUS_IO_ERROR | OLNK_STATUS_PARSE_ERROR | OLNK_STATUS_FORMAT_ERROR
  | OLNK_STATUS_MACHINE_ERROR | OLNK_STATUS_SCRIPT_ERROR | OLNK_STATUS_PLUGIN_ERROR
  | OLNK_STATUS_SYMBOL_ERROR | OLNK_STATUS_RELOCATION_ERROR | OLNK_STATUS_LINK_ERROR
  | OLNK_STATUS_INTERNAL_ERROR | OLNK_STATUS_NOT_IMPLEMENTED | OLNK_STATUS_RAW int

primrec olnk_status_int :: "olnk_status \<Rightarrow> int" where
  "olnk_status_int OLNK_STATUS_OK = 0"
| "olnk_status_int OLNK_STATUS_UNKNOWN = 1"
| "olnk_status_int OLNK_STATUS_INVALID_ARGUMENT = 2"
| "olnk_status_int OLNK_STATUS_OUT_OF_MEMORY = 3"
| "olnk_status_int OLNK_STATUS_IO_ERROR = 4"
| "olnk_status_int OLNK_STATUS_PARSE_ERROR = 5"
| "olnk_status_int OLNK_STATUS_FORMAT_ERROR = 6"
| "olnk_status_int OLNK_STATUS_MACHINE_ERROR = 7"
| "olnk_status_int OLNK_STATUS_SCRIPT_ERROR = 8"
| "olnk_status_int OLNK_STATUS_PLUGIN_ERROR = 9"
| "olnk_status_int OLNK_STATUS_SYMBOL_ERROR = 10"
| "olnk_status_int OLNK_STATUS_RELOCATION_ERROR = 11"
| "olnk_status_int OLNK_STATUS_LINK_ERROR = 12"
| "olnk_status_int OLNK_STATUS_INTERNAL_ERROR = 13"
| "olnk_status_int OLNK_STATUS_NOT_IMPLEMENTED = 14"
| "olnk_status_int (OLNK_STATUS_RAW n) = n"

datatype olnk_log_level =
    OLNK_LOG_TRACE | OLNK_LOG_DEBUG | OLNK_LOG_INFO | OLNK_LOG_WARN | OLNK_LOG_ERROR
  | OLNK_LOG_FATAL | OLNK_LOG_OFF | OLNK_LOG_RAW int

primrec olnk_log_level_int :: "olnk_log_level \<Rightarrow> int" where
  "olnk_log_level_int OLNK_LOG_TRACE = 0"
| "olnk_log_level_int OLNK_LOG_DEBUG = 1"
| "olnk_log_level_int OLNK_LOG_INFO = 2"
| "olnk_log_level_int OLNK_LOG_WARN = 3"
| "olnk_log_level_int OLNK_LOG_ERROR = 4"
| "olnk_log_level_int OLNK_LOG_FATAL = 5"
| "olnk_log_level_int OLNK_LOG_OFF = 6"
| "olnk_log_level_int (OLNK_LOG_RAW n) = n"

datatype olnk_diagnostic_severity =
    OLNK_DIAGNOSTIC_NOTE | OLNK_DIAGNOSTIC_WARNING | OLNK_DIAGNOSTIC_ERROR | OLNK_DIAGNOSTIC_FATAL
  | OLNK_DIAGNOSTIC_RAW int

datatype olnk_output_kind =
    OLNK_OUTPUT_EXECUTABLE | OLNK_OUTPUT_SHARED_LIBRARY | OLNK_OUTPUT_STATIC_IMAGE
  | OLNK_OUTPUT_RELOCATABLE | OLNK_OUTPUT_BINARY | OLNK_OUTPUT_RAW int

section \<open>\<open>olnk-version.h\<close>\<close>

definition OLNK_VERSION_MAJOR :: u32 where "OLNK_VERSION_MAJOR = 0"
definition OLNK_VERSION_MINOR :: u32 where "OLNK_VERSION_MINOR = 1"
definition OLNK_VERSION_PATCH :: u32 where "OLNK_VERSION_PATCH = 0"
definition OLNK_VERSION_STRING :: string where "OLNK_VERSION_STRING = ''0.1.0''"

definition OLNK_VERSION_HEX :: u32 where
  "OLNK_VERSION_HEX =
     push_bit 16 (OLNK_VERSION_MAJOR AND 0xFF) OR push_bit 8 (OLNK_VERSION_MINOR AND 0xFF)
       OR push_bit 0 (OLNK_VERSION_PATCH AND 0xFF)"

definition OLNK_API_VERSION :: u32 where "OLNK_API_VERSION = 1"

text \<open>Decimal digits of a macro's number, as the preprocessor's \<open>#\<close> gives them for the version
  macros.\<close>

fun stringify_nat :: "nat \<Rightarrow> string" where
  "stringify_nat n = (if n < 10 then [char_of (48 + n)] else stringify_nat (n div 10) @ [char_of (48 + n mod 10)])"

declare stringify_nat.simps [simp del]

definition OLNK_VERSION_STRING_FULL :: string where
  "OLNK_VERSION_STRING_FULL =
     stringify_nat (unat OLNK_VERSION_MAJOR) @ ''.'' @ stringify_nat (unat OLNK_VERSION_MINOR) @ ''.''
       @ stringify_nat (unat OLNK_VERSION_PATCH)"

section \<open>Version and status functions of \<open>api.cpp\<close>\<close>

text \<open>\<open>OLNK_VERSION_ENCODED\<close> is defined nowhere, so the fallback branch is the compiled one.\<close>

definition olnk_api_version :: u32 where "olnk_api_version = 0"
definition olnk_version_major :: u32 where "olnk_version_major = OLNK_VERSION_MAJOR"
definition olnk_version_minor :: u32 where "olnk_version_minor = OLNK_VERSION_MINOR"
definition olnk_version_patch :: u32 where "olnk_version_patch = OLNK_VERSION_PATCH"
definition olnk_version_string :: string where "olnk_version_string = OLNK_VERSION_STRING"

primrec olnk_status_to_string :: "olnk_status \<Rightarrow> string" where
  "olnk_status_to_string OLNK_STATUS_OK = ''ok''"
| "olnk_status_to_string OLNK_STATUS_UNKNOWN = ''unknown''"
| "olnk_status_to_string OLNK_STATUS_INVALID_ARGUMENT = ''invalid-argument''"
| "olnk_status_to_string OLNK_STATUS_OUT_OF_MEMORY = ''out-of-memory''"
| "olnk_status_to_string OLNK_STATUS_IO_ERROR = ''io-error''"
| "olnk_status_to_string OLNK_STATUS_PARSE_ERROR = ''parse-error''"
| "olnk_status_to_string OLNK_STATUS_FORMAT_ERROR = ''format-error''"
| "olnk_status_to_string OLNK_STATUS_MACHINE_ERROR = ''machine-error''"
| "olnk_status_to_string OLNK_STATUS_SCRIPT_ERROR = ''script-error''"
| "olnk_status_to_string OLNK_STATUS_PLUGIN_ERROR = ''plugin-error''"
| "olnk_status_to_string OLNK_STATUS_SYMBOL_ERROR = ''symbol-error''"
| "olnk_status_to_string OLNK_STATUS_RELOCATION_ERROR = ''relocation-error''"
| "olnk_status_to_string OLNK_STATUS_LINK_ERROR = ''link-error''"
| "olnk_status_to_string OLNK_STATUS_INTERNAL_ERROR = ''internal-error''"
| "olnk_status_to_string OLNK_STATUS_NOT_IMPLEMENTED = ''not-implemented''"
| "olnk_status_to_string (OLNK_STATUS_RAW n) = ''unrecognized-status''"

primrec valid_log_level :: "olnk_log_level \<Rightarrow> bool" where
  "valid_log_level OLNK_LOG_TRACE = True"
| "valid_log_level OLNK_LOG_DEBUG = True"
| "valid_log_level OLNK_LOG_INFO = True"
| "valid_log_level OLNK_LOG_WARN = True"
| "valid_log_level OLNK_LOG_ERROR = True"
| "valid_log_level OLNK_LOG_FATAL = True"
| "valid_log_level OLNK_LOG_OFF = True"
| "valid_log_level (OLNK_LOG_RAW n) = False"

primrec valid_diag_severity :: "olnk_diagnostic_severity \<Rightarrow> bool" where
  "valid_diag_severity OLNK_DIAGNOSTIC_NOTE = True"
| "valid_diag_severity OLNK_DIAGNOSTIC_WARNING = True"
| "valid_diag_severity OLNK_DIAGNOSTIC_ERROR = True"
| "valid_diag_severity OLNK_DIAGNOSTIC_FATAL = True"
| "valid_diag_severity (OLNK_DIAGNOSTIC_RAW n) = False"

primrec valid_output_kind :: "olnk_output_kind \<Rightarrow> bool" where
  "valid_output_kind OLNK_OUTPUT_EXECUTABLE = True"
| "valid_output_kind OLNK_OUTPUT_SHARED_LIBRARY = True"
| "valid_output_kind OLNK_OUTPUT_STATIC_IMAGE = True"
| "valid_output_kind OLNK_OUTPUT_RELOCATABLE = True"
| "valid_output_kind OLNK_OUTPUT_BINARY = True"
| "valid_output_kind (OLNK_OUTPUT_RAW n) = False"

section \<open>\<open>diagnostics.cpp\<close>\<close>

record DiagnosticMessage =
  dm_severity :: olnk_diagnostic_severity
  dm_text :: string

record DiagnosticBuffer =
  db_messages :: "DiagnosticMessage list"

definition DiagnosticBuffer_push ::
    "olnk_diagnostic_severity \<Rightarrow> string \<Rightarrow> DiagnosticBuffer \<Rightarrow> DiagnosticBuffer" where
  "DiagnosticBuffer_push severity message b =
     b\<lparr>db_messages := db_messages b @ [\<lparr>dm_severity = severity, dm_text = message\<rparr>]\<rparr>"

primrec severity_to_string :: "olnk_diagnostic_severity \<Rightarrow> string" where
  "severity_to_string OLNK_DIAGNOSTIC_NOTE = ''note''"
| "severity_to_string OLNK_DIAGNOSTIC_WARNING = ''warning''"
| "severity_to_string OLNK_DIAGNOSTIC_ERROR = ''error''"
| "severity_to_string OLNK_DIAGNOSTIC_FATAL = ''fatal''"
| "severity_to_string (OLNK_DIAGNOSTIC_RAW n) = ''unknown''"

definition format_diagnostic :: "olnk_diagnostic_severity \<Rightarrow> string \<Rightarrow> string" where
  "format_diagnostic severity message = ''['' @ severity_to_string severity @ ''] '' @ message"

section \<open>Lemmas\<close>

text \<open>The strings of the enumerators are pairwise different, so a logged status can be read back.\<close>

definition valid_status :: "olnk_status \<Rightarrow> bool" where
  "valid_status s \<longleftrightarrow> (\<forall>n. s \<noteq> OLNK_STATUS_RAW n)"

lemma olnk_status_to_string_inj:
  "valid_status s \<Longrightarrow> olnk_status_to_string s = olnk_status_to_string t \<Longrightarrow> s = t"
  by (cases s; cases t) (simp_all add: valid_status_def)

lemma severity_to_string_no_bracket: "CHR '']'' \<notin> set (severity_to_string s)"
  by (cases s) simp_all

text \<open>A formatted line determines the severity word and the message.\<close>

lemma format_diagnostic_inj:
  assumes "format_diagnostic s m = format_diagnostic s' m'"
  shows "severity_to_string s = severity_to_string s' \<and> m = m'"
proof -
  have word: "takeWhile (\<lambda>c. c \<noteq> CHR '']'') (severity_to_string t @ ''] '' @ n) = severity_to_string t" for t n
    using severity_to_string_no_bracket [of t] by (subst takeWhile_append2) auto
  from assms have eq: "severity_to_string s @ ''] '' @ m = severity_to_string s' @ ''] '' @ m'"
    by (simp add: format_diagnostic_def)
  from arg_cong [OF this, of "takeWhile (\<lambda>c. c \<noteq> CHR '']'')"]
  have "severity_to_string s = severity_to_string s'" unfolding word .
  with eq show ?thesis by simp
qed

lemma version_string_full: "OLNK_VERSION_STRING_FULL = OLNK_VERSION_STRING"
  by code_simp

end
