(* ===== verification/Olnk_Registry.thy ===== *)
theory Olnk_Registry
  imports Olnk_Status
begin

text \<open>
  What the format registry (\<open>src/olnk/format.cpp\<close>) and the machine registry
  (\<open>src/olnk/machine.cpp\<close>) share: ASCII case-insensitive comparison of C strings, and first-match
  lookup by name or alias in a table of static entries.  Both comparison loops are shown to be
  equality after case folding; the locale \<open>name_registry\<close> states the lookup contract and is
  interpreted on both registries.  The packed version numbers of the ABI headers are here too.
\<close>

section \<open>Case-insensitive comparison\<close>

text \<open>\<open>olnk_ascii_tolower\<close> on the value of an \<open>unsigned char\<close>.\<close>

definition olnk_ascii_tolower :: "int \<Rightarrow> int" where
  "olnk_ascii_tolower ch = (if 65 \<le> ch \<and> ch \<le> 90 then ch - 65 + 97 else ch)"

definition uchar :: "char \<Rightarrow> int" where
  "uchar c = int (of_char c)"

fun ascii_case_equal_loop :: "string \<Rightarrow> string \<Rightarrow> bool" where
  "ascii_case_equal_loop (a # as) (b # bs) =
     (if olnk_ascii_tolower (uchar a) \<noteq> olnk_ascii_tolower (uchar b) then False
      else ascii_case_equal_loop as bs)"
| "ascii_case_equal_loop as bs = (as = [] \<and> bs = [])"

definition olnk_ascii_case_equal :: "cstr \<Rightarrow> cstr \<Rightarrow> bool" where
  "olnk_ascii_case_equal a b =
     (case (a, b) of (Some a, Some b) \<Rightarrow> ascii_case_equal_loop a b | _ \<Rightarrow> False)"

text \<open>The comparison of \<open>machine.cpp\<close> folds the \<open>char\<close> itself.\<close>

definition char_tolower :: "char \<Rightarrow> char" where
  "char_tolower c = (if CHR ''A'' \<le> c \<and> c \<le> CHR ''Z'' then char_of (of_char c - 65 + 97 :: nat) else c)"

fun cstr_iequals_loop :: "string \<Rightarrow> string \<Rightarrow> bool" where
  "cstr_iequals_loop (a # as) (b # bs) =
     (let ca = char_tolower a; cb = char_tolower b
      in if ca \<noteq> cb then False else cstr_iequals_loop as bs)"
| "cstr_iequals_loop as bs = (as = [] \<and> bs = [])"

definition cstr_iequals_ascii :: "cstr \<Rightarrow> cstr \<Rightarrow> bool" where
  "cstr_iequals_ascii a b = (case (a, b) of (Some a, Some b) \<Rightarrow> cstr_iequals_loop a b | _ \<Rightarrow> False)"

text \<open>\<open>cstr_equals\<close>: \<open>strcmp\<close> on two non-null strings.\<close>

definition cstr_equals :: "cstr \<Rightarrow> cstr \<Rightarrow> bool" where
  "cstr_equals a b = (case (a, b) of (Some a, Some b) \<Rightarrow> a = b | _ \<Rightarrow> False)"

definition fold_case :: "string \<Rightarrow> string" where
  "fold_case s = map char_tolower s"

lemma tolower_agree:
  "olnk_ascii_tolower (uchar a) = olnk_ascii_tolower (uchar b) \<longleftrightarrow> char_tolower a = char_tolower b"
proof -
  have up: "CHR ''A'' \<le> c \<and> c \<le> CHR ''Z'' \<longleftrightarrow> 65 \<le> (of_char c :: nat) \<and> (of_char c :: nat) \<le> 90" for c
    by (simp add: less_eq_char_def)
  have "int (of_char (char_tolower c)) = olnk_ascii_tolower (uchar c)" for c
    using up [of c] by (auto simp: char_tolower_def olnk_ascii_tolower_def uchar_def of_nat_diff)
  then show ?thesis by (metis of_char_eq_iff of_nat_eq_iff)
qed

lemma ascii_case_equal_loop_iff: "ascii_case_equal_loop a b \<longleftrightarrow> fold_case a = fold_case b"
  by (induction a b rule: ascii_case_equal_loop.induct) (auto simp: tolower_agree fold_case_def)

lemma cstr_iequals_loop_iff: "cstr_iequals_loop a b \<longleftrightarrow> fold_case a = fold_case b"
  by (induction a b rule: cstr_iequals_loop.induct) (auto simp: fold_case_def Let_def)

lemma olnk_ascii_case_equal_iff [simp]:
  "olnk_ascii_case_equal a b \<longleftrightarrow> a \<noteq> None \<and> b \<noteq> None \<and> fold_case (the a) = fold_case (the b)"
  by (cases a; cases b) (simp_all add: olnk_ascii_case_equal_def ascii_case_equal_loop_iff)

lemma cstr_iequals_ascii_iff [simp]:
  "cstr_iequals_ascii a b \<longleftrightarrow> a \<noteq> None \<and> b \<noteq> None \<and> fold_case (the a) = fold_case (the b)"
  by (cases a; cases b) (simp_all add: cstr_iequals_ascii_def cstr_iequals_loop_iff)

lemma list_ex_iequals:
  "list_ex (\<lambda>c. cstr_iequals_ascii c (Some n)) cs \<longleftrightarrow> (\<exists>s. Some s \<in> set cs \<and> fold_case s = fold_case n)"
proof (induction cs)
  case (Cons c cs)
  then show ?case by (cases c) auto
qed simp

text \<open>The two loops of the code base compute the same relation.\<close>

lemma case_comparisons_agree: "olnk_ascii_case_equal = cstr_iequals_ascii"
  by (auto simp: fun_eq_iff)

section \<open>First match in a table of named entries\<close>

fun first_match :: "('e \<Rightarrow> bool) \<Rightarrow> nat \<Rightarrow> 'e list \<Rightarrow> nat option" where
  "first_match P i [] = None"
| "first_match P i (e # es) = (if P e then Some i else first_match P (Suc i) es)"

lemma first_match_Some:
  "first_match P k es = Some i \<longleftrightarrow> k \<le> i \<and> i - k < length es \<and> P (es ! (i - k)) \<and> (\<forall>j < i - k. \<not> P (es ! j))"
proof (induction es arbitrary: k)
  case (Cons e es)
  show ?case
  proof (cases "P e")
    case True
    then show ?thesis by (auto intro: Suc_leI le_antisym) (metis diff_is_0_eq' linorder_not_less nth_Cons_0 zero_less_diff le_antisym)
  next
    case False
    have "k \<le> i \<and> i - k < length (e # es) \<and> P ((e # es) ! (i - k)) \<and> (\<forall>j < i - k. \<not> P ((e # es) ! j))
      \<longleftrightarrow> Suc k \<le> i \<and> i - Suc k < length es \<and> P (es ! (i - Suc k)) \<and> (\<forall>j < i - Suc k. \<not> P (es ! j))"
    proof (cases "i \<le> k")
      case False
      then have "i - k = Suc (i - Suc k)" by simp
      then show ?thesis using False \<open>\<not> P e\<close> by (auto simp: All_less_Suc2)
    qed (use \<open>\<not> P e\<close> in auto)
    with False show ?thesis by (simp add: Cons.IH)
  qed
qed simp

lemma first_match_None: "first_match P k es = None \<longleftrightarrow> (\<forall>e \<in> set es. \<not> P e)"
  by (induction es arbitrary: k) auto

lemma first_match_cong: "(\<And>e. e \<in> set es \<Longrightarrow> P e = Q e) \<Longrightarrow> first_match P k es = first_match Q k es"
  by (induction es arbitrary: k) auto

text \<open>All pairs of an entry's position and one of its folded names.\<close>

definition registry_entries :: "('e \<Rightarrow> cstr list) \<Rightarrow> 'e list \<Rightarrow> (nat \<times> string) list" where
  "registry_entries names es =
     concat (map2 (\<lambda>i r. map (Pair i) (remdups (map fold_case (List.map_filter id (names r)))))
       [0..<length es] es)"

lemma registry_entries_iff:
  "(i, s) \<in> set (registry_entries names es) \<longleftrightarrow>
     i < length es \<and> (\<exists>n. Some n \<in> set (names (es ! i)) \<and> fold_case n = s)"
  by (auto simp: registry_entries_def set_zip List.map_filter_def image_iff split: prod.splits) force+

text \<open>
  A registry: a table of entries, each with its list of (possibly null) names, and the first-match
  lookup of the source.  The client lemmas say that case does not matter, that exactly the listed
  names are found, and that in a registry whose folded names do not clash every name finds the
  entry that lists it.
\<close>

locale name_registry =
  fixes entries :: "'e list" and names :: "'e \<Rightarrow> cstr list"
    and matches :: "'e \<Rightarrow> string \<Rightarrow> bool" and find :: "string \<Rightarrow> nat option"
  assumes matches_iff: "matches e n \<longleftrightarrow> (\<exists>s. Some s \<in> set (names e) \<and> fold_case s = fold_case n)"
    and find_first: "find n = first_match (\<lambda>e. matches e n) 0 entries"
begin

lemma find_case_insensitive: "fold_case m = fold_case n \<Longrightarrow> find m = find n"
  by (simp add: find_first matches_iff)

lemma find_Some: "find n = Some i \<Longrightarrow> i < length entries \<and> matches (entries ! i) n"
  by (auto simp: find_first first_match_Some)

lemma find_None: "find n = None \<longleftrightarrow> (\<forall>e \<in> set entries. \<not> matches e n)"
  by (simp add: find_first first_match_None)

lemma find_own_name:
  assumes "distinct (map snd (registry_entries names entries))"
    and "i < length entries" "Some n \<in> set (names (entries ! i))" "fold_case m = fold_case n"
  shows "find m = Some i"
proof -
  have "\<not> matches (entries ! j) m" if "j < i" for j
  proof
    assume "matches (entries ! j) m"
    then have "(j, fold_case n) \<in> set (registry_entries names entries)"
      using that assms(2,4) by (auto simp: matches_iff registry_entries_iff)
    moreover have "(i, fold_case n) \<in> set (registry_entries names entries)"
      using assms(2,3) by (auto simp: registry_entries_iff)
    ultimately have "j = i" using assms(1) by (metis distinct_map inj_onD prod.inject snd_conv)
    with that show False by simp
  qed
  moreover have "matches (entries ! i) m" using assms(3,4) by (auto simp: matches_iff)
  ultimately show ?thesis using assms(2) by (simp add: find_first first_match_Some)
qed

end

section \<open>Packed versions\<close>

text \<open>\<open>olnk_format_make_version\<close>, \<open>olnk_machine_make_version\<close>, \<open>olnk_plugin_make_version\<close> and
  \<open>olnk_ir_make_version\<close> have the same body; the field masks drop high bits.\<close>

definition make_version :: "u32 \<Rightarrow> u32 \<Rightarrow> u32 \<Rightarrow> u32" where
  "make_version major minor patch =
     push_bit 22 (major AND 0x3FF) OR push_bit 12 (minor AND 0x3FF) OR push_bit 0 (patch AND 0xFFF)"

definition capability_test :: "u32 \<Rightarrow> u32 \<Rightarrow> bool" where
  "capability_test capabilities capability = (capabilities AND capability = capability)"


text \<open>The three fields occupy disjoint bits, so the packed number is their sum, each field reduced
  to its width; for fields within their width the packing is injective and monotone.\<close>

lemma mask_bits: "(0x3FF :: u32) = mask 10" "(0xFFF :: u32) = mask 12"
  by (simp_all add: mask_eq_exp_minus_1)

lemma unat_field:
  assumes "n + k \<le> 32"
  shows "unat (push_bit k (take_bit n x) :: u32) = unat x mod 2 ^ n * 2 ^ k"
proof -
  have "unat x mod 2 ^ n * 2 ^ k < 2 ^ n * 2 ^ k" by simp
  also have "\<dots> = 2 ^ (n + k)" by (simp add: power_add)
  also have "\<dots> \<le> 2 ^ 32" using assms by (rule power_increasing) simp
  finally have "unat x mod 2 ^ n * 2 ^ k < 2 ^ 32" .
  moreover have "unat (push_bit k (take_bit n x)) = take_bit 32 (push_bit k (take_bit n (unat x)))"
    by (simp only: unsigned_push_bit_eq unsigned_take_bit_eq) simp
  ultimately show ?thesis
    by (simp only: push_bit_eq_mult take_bit_eq_mod mod_less)
qed


lemma or_disjoint: "a AND b = 0 \<Longrightarrow> unat (a OR b :: u32) = unat (a + b)"
  using word_plus_and_or [of a b] by simp

lemma unat_make_version:
  "unat (make_version major minor patch) =
     unat major mod 1024 * 4194304 + unat minor mod 1024 * 4096 + unat patch mod 4096"
proof -
  let ?a = "push_bit 22 (take_bit 10 major) :: u32" and ?b = "push_bit 12 (take_bit 10 minor) :: u32"
    and ?c = "take_bit 12 patch :: u32"
  have disj: "?a AND ?b = 0" "(?a OR ?b) AND ?c = 0"
    by (rule bit_eqI; auto simp: bit_simps)+
  have lt: "unat major mod 1024 \<le> 1023" "unat minor mod 1024 \<le> 1023" "unat patch mod 4096 \<le> 4095"
    by (simp_all add: less_Suc_eq_le [symmetric])
  have "unat (?a OR ?b) = unat major mod 1024 * 4194304 + unat minor mod 1024 * 4096"
    using lt by (simp add: or_disjoint [OF disj(1)] unat_add_no_wrap unat_field)
  then have "unat ((?a OR ?b) OR ?c) =
     unat major mod 1024 * 4194304 + unat minor mod 1024 * 4096 + unat patch mod 4096"
    using lt unat_field [of 12 0 patch]
    by (subst or_disjoint [OF disj(2)]) (simp add: unat_add_no_wrap)
  then show ?thesis
    by (simp add: make_version_def mask_bits take_bit_eq_mask or.assoc del: push_bit_take_bit)
qed

lemma make_version_mono:
  assumes "major < 1024" "minor < 1024" "patch < 4096" "major' < 1024" "minor' < 1024" "patch' < 4096"
  shows "make_version major minor patch < make_version major' minor' patch' \<longleftrightarrow>
    (unat major, unat minor, unat patch) < (unat major', unat minor', unat patch')"
  using assms
  by (auto simp: word_less_nat_alt unat_make_version)

end
