(* ===== verification/Olnk_Machine.thy ===== *)
theory Olnk_Machine
  imports Olnk_Registry
begin

text \<open>
  The machine registry: \<open>include/olnk/olnk-machine.h\<close> (enumerations, descriptor, properties, host,
  vtable and definition structs, helper functions) and \<open>src/olnk/machine.cpp\<close> (the table of twenty
  built-in machines, the callbacks they share, and the lookup functions).  A pointer to
  \<open>g_builtin_machines[i].definition\<close> (or to its descriptor or instance) is the index \<open>i\<close>; a number
  outside the table is the address of some other object.  The Lua registry that
  \<open>lua_machine_spec_matches_name\<close> reads belongs to the Lua runtime and is a parameter: \<open>None\<close> when it
  is absent or reading it throws, otherwise the machine specifications in iteration order.
  Structure sizes are those of an LP64 target.
\<close>

section \<open>\<open>olnk-machine.h\<close>\<close>

datatype olnk_machine_kind =
    OLNK_MACHINE_KIND_UNKNOWN | OLNK_MACHINE_KIND_I386 | OLNK_MACHINE_KIND_X86_64
  | OLNK_MACHINE_KIND_ARM | OLNK_MACHINE_KIND_AARCH64 | OLNK_MACHINE_KIND_THUMB
  | OLNK_MACHINE_KIND_RISCV32 | OLNK_MACHINE_KIND_RISCV64
  | OLNK_MACHINE_KIND_PPC32 | OLNK_MACHINE_KIND_PPC64
  | OLNK_MACHINE_KIND_MIPS32 | OLNK_MACHINE_KIND_MIPS64
  | OLNK_MACHINE_KIND_SPARC32 | OLNK_MACHINE_KIND_SPARC64
  | OLNK_MACHINE_KIND_SYSTEMZ | OLNK_MACHINE_KIND_LOONGARCH32 | OLNK_MACHINE_KIND_LOONGARCH64
  | OLNK_MACHINE_KIND_WASM32 | OLNK_MACHINE_KIND_WASM64
  | OLNK_MACHINE_KIND_BPFEL | OLNK_MACHINE_KIND_BPFEB
  | OLNK_MACHINE_KIND_CUSTOM | OLNK_MACHINE_KIND_RAW int

datatype olnk_machine_endianness =
    OLNK_MACHINE_ENDIANNESS_UNKNOWN | OLNK_MACHINE_ENDIANNESS_LITTLE | OLNK_MACHINE_ENDIANNESS_BIG

datatype olnk_machine_address_class =
    OLNK_MACHINE_ADDRESS_CLASS_UNKNOWN | OLNK_MACHINE_ADDRESS_CLASS_16 | OLNK_MACHINE_ADDRESS_CLASS_32
  | OLNK_MACHINE_ADDRESS_CLASS_64 | OLNK_MACHINE_ADDRESS_CLASS_128

primrec address_class_bits :: "olnk_machine_address_class \<Rightarrow> nat" where
  "address_class_bits OLNK_MACHINE_ADDRESS_CLASS_UNKNOWN = 0"
| "address_class_bits OLNK_MACHINE_ADDRESS_CLASS_16 = 16"
| "address_class_bits OLNK_MACHINE_ADDRESS_CLASS_32 = 32"
| "address_class_bits OLNK_MACHINE_ADDRESS_CLASS_64 = 64"
| "address_class_bits OLNK_MACHINE_ADDRESS_CLASS_128 = 128"

text \<open>The capability bits; the enumerator \<open>1u << n\<close> is bit \<open>n\<close> of the mask.\<close>

datatype olnk_machine_capability =
    OLNK_MACHINE_CAPABILITY_EXECUTABLE | OLNK_MACHINE_CAPABILITY_SHARED_LIBRARY
  | OLNK_MACHINE_CAPABILITY_RELOCATABLE_OUTPUT | OLNK_MACHINE_CAPABILITY_TLS
  | OLNK_MACHINE_CAPABILITY_PIC | OLNK_MACHINE_CAPABILITY_RELAXATION
  | OLNK_MACHINE_CAPABILITY_BRANCH_VENEERS | OLNK_MACHINE_CAPABILITY_GOT
  | OLNK_MACHINE_CAPABILITY_PLT | OLNK_MACHINE_CAPABILITY_ATOMICS | OLNK_MACHINE_CAPABILITY_SIMD
  | OLNK_MACHINE_CAPABILITY_UNALIGNED_ACCESS | OLNK_MACHINE_CAPABILITY_VIRTUAL_ISA

primrec machine_capability_bit :: "olnk_machine_capability \<Rightarrow> nat" where
  "machine_capability_bit OLNK_MACHINE_CAPABILITY_EXECUTABLE = 0"
| "machine_capability_bit OLNK_MACHINE_CAPABILITY_SHARED_LIBRARY = 1"
| "machine_capability_bit OLNK_MACHINE_CAPABILITY_RELOCATABLE_OUTPUT = 2"
| "machine_capability_bit OLNK_MACHINE_CAPABILITY_TLS = 3"
| "machine_capability_bit OLNK_MACHINE_CAPABILITY_PIC = 4"
| "machine_capability_bit OLNK_MACHINE_CAPABILITY_RELAXATION = 5"
| "machine_capability_bit OLNK_MACHINE_CAPABILITY_BRANCH_VENEERS = 6"
| "machine_capability_bit OLNK_MACHINE_CAPABILITY_GOT = 7"
| "machine_capability_bit OLNK_MACHINE_CAPABILITY_PLT = 8"
| "machine_capability_bit OLNK_MACHINE_CAPABILITY_ATOMICS = 9"
| "machine_capability_bit OLNK_MACHINE_CAPABILITY_SIMD = 10"
| "machine_capability_bit OLNK_MACHINE_CAPABILITY_UNALIGNED_ACCESS = 11"
| "machine_capability_bit OLNK_MACHINE_CAPABILITY_VIRTUAL_ISA = 12"

definition machine_cap :: "olnk_machine_capability \<Rightarrow> u32" where
  "machine_cap c = push_bit (machine_capability_bit c) 1"

datatype olnk_machine_code_model =
    OLNK_MACHINE_CODE_MODEL_UNKNOWN | OLNK_MACHINE_CODE_MODEL_TINY | OLNK_MACHINE_CODE_MODEL_SMALL
  | OLNK_MACHINE_CODE_MODEL_MEDIUM | OLNK_MACHINE_CODE_MODEL_LARGE

record olnk_machine_properties =
  mp_abi_version :: u32
  mp_struct_size :: u32
  mp_kind :: olnk_machine_kind
  mp_capabilities :: u32
  mp_endianness :: olnk_machine_endianness
  mp_address_class :: olnk_machine_address_class
  mp_pointer_size :: u32
  mp_address_size :: u32
  mp_instruction_alignment :: u32
  mp_stack_alignment :: u32
  mp_function_alignment :: u32
  mp_default_image_base :: u64
  mp_default_page_size :: u64
  mp_max_branch_range :: u64
  mp_default_code_model :: olnk_machine_code_model
  mp_canonical_name :: cstr
  mp_canonical_triple :: cstr

text \<open>The host services a machine callback may use, as effects on a state \<open>'s\<close> of the host.\<close>

record 's olnk_machine_host =
  mh_abi_version :: u32
  mh_struct_size :: u32
  mh_log :: "(olnk_log_level \<Rightarrow> string \<Rightarrow> 's \<Rightarrow> 's) option"
  mh_diagnostic :: "(olnk_diagnostic_severity \<Rightarrow> string \<Rightarrow> 's \<Rightarrow> 's) option"
  mh_get_option :: "(cstr \<Rightarrow> 's \<Rightarrow> cstr) option"
  mh_set_option :: "(cstr \<Rightarrow> cstr \<Rightarrow> 's \<Rightarrow> olnk_status \<times> 's) option"

record 's olnk_machine_context =
  mctx_host :: "'s olnk_machine_host option"
  mctx_linker_context :: "nat option"
  mctx_session :: "nat option"
  mctx_config :: "nat option"

record olnk_machine_descriptor =
  md_abi_version :: u32
  md_struct_size :: u32
  md_name :: cstr
  md_description :: cstr
  md_vendor :: cstr
  md_license :: cstr
  md_version_major :: u32
  md_version_minor :: u32
  md_version_patch :: u32
  md_kind :: olnk_machine_kind
  md_capabilities :: u32
  md_min_host_api_version :: u32
  md_max_host_api_version :: u32
  md_primary_alias :: cstr
  md_secondary_alias :: cstr
  md_canonical_triple :: cstr

text \<open>The definition object: addresses of its descriptor and properties (as \<open>module_data\<close>), and
  whether its vtable pointer is set to the built-in vtable.\<close>

record olnk_machine_definition =
  mdef_abi_version :: u32
  mdef_struct_size :: u32
  mdef_descriptor :: "nat option"
  mdef_vtable :: bool
  mdef_module_data :: "nat option"

definition OLNK_MACHINE_ABI_VERSION :: u32 where "OLNK_MACHINE_ABI_VERSION = 1"
definition sizeof_olnk_machine_descriptor :: u32 where "sizeof_olnk_machine_descriptor = 112"
definition sizeof_olnk_machine_properties :: u32 where "sizeof_olnk_machine_properties = 112"
definition sizeof_olnk_machine_definition :: u32 where "sizeof_olnk_machine_definition = 48"
definition sizeof_olnk_machine_host :: u32 where "sizeof_olnk_machine_host = 72"
definition sizeof_olnk_machine_vtable :: u32 where "sizeof_olnk_machine_vtable = 104"

definition olnk_machine_make_version :: "u32 \<Rightarrow> u32 \<Rightarrow> u32 \<Rightarrow> u32" where
  "olnk_machine_make_version major minor patch =
     push_bit 22 (major AND 0x3FF) OR push_bit 12 (minor AND 0x3FF) OR push_bit 0 (patch AND 0xFFF)"

definition olnk_machine_capability_test :: "u32 \<Rightarrow> u32 \<Rightarrow> bool" where
  "olnk_machine_capability_test capabilities capability = (capabilities AND capability = capability)"

definition olnk_machine_is_virtual_kind :: "olnk_machine_kind \<Rightarrow> bool" where
  "olnk_machine_is_virtual_kind kind =
     (case kind of
        OLNK_MACHINE_KIND_WASM32 \<Rightarrow> True | OLNK_MACHINE_KIND_WASM64 \<Rightarrow> True
      | OLNK_MACHINE_KIND_BPFEL \<Rightarrow> True | OLNK_MACHINE_KIND_BPFEB \<Rightarrow> True
      | _ \<Rightarrow> False)"

section \<open>The built-in table of \<open>machine.cpp\<close>\<close>

record olnk_machine_instance =
  mi_definition :: "nat option"

record BuiltinMachineRecord =
  bm_descriptor :: olnk_machine_descriptor
  bm_properties :: olnk_machine_properties
  bm_instance :: olnk_machine_instance
  bm_definition :: olnk_machine_definition

text \<open>The macros \<open>OLNK_MACHINE_COMMON_DESCRIPTOR_FIELDS\<close> and \<open>OLNK_MACHINE_COMMON_PROPERTIES_FIELDS\<close>.\<close>

definition machine_descriptor_fields ::
    "olnk_machine_kind \<Rightarrow> u32 \<Rightarrow> cstr \<Rightarrow> cstr \<Rightarrow> cstr \<Rightarrow> cstr \<Rightarrow> cstr \<Rightarrow> olnk_machine_descriptor" where
  "machine_descriptor_fields kind caps name desc alias1 alias2 triple =
     \<lparr>md_abi_version = OLNK_MACHINE_ABI_VERSION, md_struct_size = sizeof_olnk_machine_descriptor,
      md_name = name, md_description = desc, md_vendor = Some ''olnk'', md_license = Some ''MIT'',
      md_version_major = 0, md_version_minor = 1, md_version_patch = 0, md_kind = kind,
      md_capabilities = caps, md_min_host_api_version = 0, md_max_host_api_version = 0xFFFFFFFF,
      md_primary_alias = alias1, md_secondary_alias = alias2, md_canonical_triple = triple\<rparr>"

definition machine_properties_fields ::
    "olnk_machine_kind \<Rightarrow> u32 \<Rightarrow> olnk_machine_endianness \<Rightarrow> olnk_machine_address_class \<Rightarrow> u32 \<Rightarrow> u32 \<Rightarrow> u32 \<Rightarrow>
     u32 \<Rightarrow> u32 \<Rightarrow> u64 \<Rightarrow> u64 \<Rightarrow> u64 \<Rightarrow> olnk_machine_code_model \<Rightarrow> cstr \<Rightarrow> cstr \<Rightarrow> olnk_machine_properties" where
  "machine_properties_fields kind caps endian addr_class ptr_size addr_size instr_align stack_align
     func_align image_base page_size branch_range code_model canon_name triple =
     \<lparr>mp_abi_version = OLNK_MACHINE_ABI_VERSION, mp_struct_size = sizeof_olnk_machine_properties,
      mp_kind = kind, mp_capabilities = caps, mp_endianness = endian, mp_address_class = addr_class,
      mp_pointer_size = ptr_size, mp_address_size = addr_size, mp_instruction_alignment = instr_align,
      mp_stack_alignment = stack_align, mp_function_alignment = func_align,
      mp_default_image_base = image_base, mp_default_page_size = page_size,
      mp_max_branch_range = branch_range, mp_default_code_model = code_model,
      mp_canonical_name = canon_name, mp_canonical_triple = triple\<rparr>"

text \<open>A table entry before first use: instance and definition pointers are null.\<close>

definition BuiltinMachineRecord_init ::
    "olnk_machine_descriptor \<Rightarrow> olnk_machine_properties \<Rightarrow> BuiltinMachineRecord" where
  "BuiltinMachineRecord_init d p =
     \<lparr>bm_descriptor = d, bm_properties = p, bm_instance = \<lparr>mi_definition = None\<rparr>,
      bm_definition = \<lparr>mdef_abi_version = OLNK_MACHINE_ABI_VERSION,
        mdef_struct_size = sizeof_olnk_machine_definition, mdef_descriptor = None, mdef_vtable = False,
        mdef_module_data = None\<rparr>\<rparr>"

definition k_caps_native_common :: u32 where
  "k_caps_native_common =
     machine_cap OLNK_MACHINE_CAPABILITY_EXECUTABLE OR machine_cap OLNK_MACHINE_CAPABILITY_SHARED_LIBRARY OR
     machine_cap OLNK_MACHINE_CAPABILITY_RELOCATABLE_OUTPUT OR machine_cap OLNK_MACHINE_CAPABILITY_TLS OR
     machine_cap OLNK_MACHINE_CAPABILITY_PIC OR machine_cap OLNK_MACHINE_CAPABILITY_GOT OR
     machine_cap OLNK_MACHINE_CAPABILITY_PLT"

definition k_caps_native_relax :: u32 where
  "k_caps_native_relax = k_caps_native_common OR machine_cap OLNK_MACHINE_CAPABILITY_RELAXATION"

definition k_caps_native_branch :: u32 where
  "k_caps_native_branch = k_caps_native_relax OR machine_cap OLNK_MACHINE_CAPABILITY_BRANCH_VENEERS"

definition k_caps_x86_64 :: u32 where
  "k_caps_x86_64 = k_caps_native_common OR machine_cap OLNK_MACHINE_CAPABILITY_ATOMICS OR
     machine_cap OLNK_MACHINE_CAPABILITY_SIMD OR machine_cap OLNK_MACHINE_CAPABILITY_UNALIGNED_ACCESS"

definition k_caps_i386 :: u32 where
  "k_caps_i386 = k_caps_native_common OR machine_cap OLNK_MACHINE_CAPABILITY_ATOMICS OR
     machine_cap OLNK_MACHINE_CAPABILITY_SIMD OR machine_cap OLNK_MACHINE_CAPABILITY_UNALIGNED_ACCESS"

definition k_caps_aarch64 :: u32 where
  "k_caps_aarch64 = k_caps_native_branch OR machine_cap OLNK_MACHINE_CAPABILITY_ATOMICS OR
     machine_cap OLNK_MACHINE_CAPABILITY_SIMD"

definition k_caps_arm :: u32 where
  "k_caps_arm = k_caps_native_branch OR machine_cap OLNK_MACHINE_CAPABILITY_ATOMICS"

definition k_caps_riscv :: u32 where
  "k_caps_riscv = k_caps_native_relax OR machine_cap OLNK_MACHINE_CAPABILITY_ATOMICS"

definition k_caps_ppc :: u32 where
  "k_caps_ppc = k_caps_native_common OR machine_cap OLNK_MACHINE_CAPABILITY_ATOMICS"

definition k_caps_mips :: u32 where "k_caps_mips = k_caps_native_common"
definition k_caps_sparc :: u32 where "k_caps_sparc = k_caps_native_common"

definition k_caps_systemz :: u32 where
  "k_caps_systemz = k_caps_native_common OR machine_cap OLNK_MACHINE_CAPABILITY_ATOMICS"

definition k_caps_loongarch :: u32 where
  "k_caps_loongarch = k_caps_native_relax OR machine_cap OLNK_MACHINE_CAPABILITY_ATOMICS"

definition k_caps_wasm :: u32 where
  "k_caps_wasm =
     machine_cap OLNK_MACHINE_CAPABILITY_RELOCATABLE_OUTPUT OR machine_cap OLNK_MACHINE_CAPABILITY_TLS OR
     machine_cap OLNK_MACHINE_CAPABILITY_PIC OR machine_cap OLNK_MACHINE_CAPABILITY_VIRTUAL_ISA"

definition k_caps_bpf :: u32 where
  "k_caps_bpf =
     machine_cap OLNK_MACHINE_CAPABILITY_RELOCATABLE_OUTPUT OR
     machine_cap OLNK_MACHINE_CAPABILITY_VIRTUAL_ISA"

definition g_machine_i386 :: BuiltinMachineRecord where
  "g_machine_i386 = BuiltinMachineRecord_init
     (machine_descriptor_fields OLNK_MACHINE_KIND_I386 k_caps_i386 (Some ''i386'') (Some ''Intel 32-bit x86'')
        (Some ''x86'') (Some ''ia32'') (Some ''i386-unknown-none''))
     (machine_properties_fields OLNK_MACHINE_KIND_I386 k_caps_i386 OLNK_MACHINE_ENDIANNESS_LITTLE
        OLNK_MACHINE_ADDRESS_CLASS_32 4 4 1 16 16 0x8048000 4096 0
        OLNK_MACHINE_CODE_MODEL_SMALL (Some ''i386'') (Some ''i386-unknown-none''))"

definition g_machine_x86_64 :: BuiltinMachineRecord where
  "g_machine_x86_64 = BuiltinMachineRecord_init
     (machine_descriptor_fields OLNK_MACHINE_KIND_X86_64 k_caps_x86_64 (Some ''x86_64'') (Some ''AMD64 / x86-64'')
        (Some ''amd64'') (Some ''x64'') (Some ''x86_64-unknown-none''))
     (machine_properties_fields OLNK_MACHINE_KIND_X86_64 k_caps_x86_64 OLNK_MACHINE_ENDIANNESS_LITTLE
        OLNK_MACHINE_ADDRESS_CLASS_64 8 8 1 16 16 0x400000 4096 0
        OLNK_MACHINE_CODE_MODEL_SMALL (Some ''x86_64'') (Some ''x86_64-unknown-none''))"

definition g_machine_arm :: BuiltinMachineRecord where
  "g_machine_arm = BuiltinMachineRecord_init
     (machine_descriptor_fields OLNK_MACHINE_KIND_ARM k_caps_arm (Some ''arm'') (Some ''ARM 32-bit'')
        (Some ''arm32'') None (Some ''arm-unknown-none''))
     (machine_properties_fields OLNK_MACHINE_KIND_ARM k_caps_arm OLNK_MACHINE_ENDIANNESS_LITTLE
        OLNK_MACHINE_ADDRESS_CLASS_32 4 4 4 8 4 0x10000 4096 33554432
        OLNK_MACHINE_CODE_MODEL_SMALL (Some ''arm'') (Some ''arm-unknown-none''))"

definition g_machine_aarch64 :: BuiltinMachineRecord where
  "g_machine_aarch64 = BuiltinMachineRecord_init
     (machine_descriptor_fields OLNK_MACHINE_KIND_AARCH64 k_caps_aarch64 (Some ''aarch64'') (Some ''ARM 64-bit'')
        (Some ''arm64'') None (Some ''aarch64-unknown-none''))
     (machine_properties_fields OLNK_MACHINE_KIND_AARCH64 k_caps_aarch64 OLNK_MACHINE_ENDIANNESS_LITTLE
        OLNK_MACHINE_ADDRESS_CLASS_64 8 8 4 16 4 0x400000 4096 134217728
        OLNK_MACHINE_CODE_MODEL_SMALL (Some ''aarch64'') (Some ''aarch64-unknown-none''))"

definition g_machine_thumb :: BuiltinMachineRecord where
  "g_machine_thumb = BuiltinMachineRecord_init
     (machine_descriptor_fields OLNK_MACHINE_KIND_THUMB k_caps_arm (Some ''thumb'') (Some ''ARM Thumb instruction set state'')
        (Some ''thumb2'') None (Some ''thumb-unknown-none''))
     (machine_properties_fields OLNK_MACHINE_KIND_THUMB k_caps_arm OLNK_MACHINE_ENDIANNESS_LITTLE
        OLNK_MACHINE_ADDRESS_CLASS_32 4 4 2 8 2 0x10000 4096 16777216
        OLNK_MACHINE_CODE_MODEL_SMALL (Some ''thumb'') (Some ''thumb-unknown-none''))"

definition g_machine_riscv32 :: BuiltinMachineRecord where
  "g_machine_riscv32 = BuiltinMachineRecord_init
     (machine_descriptor_fields OLNK_MACHINE_KIND_RISCV32 k_caps_riscv (Some ''riscv32'') (Some ''RISC-V 32-bit'')
        (Some ''rv32'') None (Some ''riscv32-unknown-none''))
     (machine_properties_fields OLNK_MACHINE_KIND_RISCV32 k_caps_riscv OLNK_MACHINE_ENDIANNESS_LITTLE
        OLNK_MACHINE_ADDRESS_CLASS_32 4 4 2 16 4 0x10000 4096 1048576
        OLNK_MACHINE_CODE_MODEL_SMALL (Some ''riscv32'') (Some ''riscv32-unknown-none''))"

definition g_machine_riscv64 :: BuiltinMachineRecord where
  "g_machine_riscv64 = BuiltinMachineRecord_init
     (machine_descriptor_fields OLNK_MACHINE_KIND_RISCV64 k_caps_riscv (Some ''riscv64'') (Some ''RISC-V 64-bit'')
        (Some ''rv64'') None (Some ''riscv64-unknown-none''))
     (machine_properties_fields OLNK_MACHINE_KIND_RISCV64 k_caps_riscv OLNK_MACHINE_ENDIANNESS_LITTLE
        OLNK_MACHINE_ADDRESS_CLASS_64 8 8 2 16 4 0x400000 4096 1048576
        OLNK_MACHINE_CODE_MODEL_SMALL (Some ''riscv64'') (Some ''riscv64-unknown-none''))"

definition g_machine_ppc32 :: BuiltinMachineRecord where
  "g_machine_ppc32 = BuiltinMachineRecord_init
     (machine_descriptor_fields OLNK_MACHINE_KIND_PPC32 k_caps_ppc (Some ''ppc32'') (Some ''PowerPC 32-bit'')
        (Some ''powerpc'') (Some ''ppc'') (Some ''powerpc-unknown-none''))
     (machine_properties_fields OLNK_MACHINE_KIND_PPC32 k_caps_ppc OLNK_MACHINE_ENDIANNESS_BIG
        OLNK_MACHINE_ADDRESS_CLASS_32 4 4 4 16 4 0x10000 4096 0
        OLNK_MACHINE_CODE_MODEL_SMALL (Some ''powerpc'') (Some ''powerpc-unknown-none''))"

definition g_machine_ppc64 :: BuiltinMachineRecord where
  "g_machine_ppc64 = BuiltinMachineRecord_init
     (machine_descriptor_fields OLNK_MACHINE_KIND_PPC64 k_caps_ppc (Some ''ppc64'') (Some ''PowerPC 64-bit'')
        (Some ''powerpc64'') None (Some ''powerpc64-unknown-none''))
     (machine_properties_fields OLNK_MACHINE_KIND_PPC64 k_caps_ppc OLNK_MACHINE_ENDIANNESS_BIG
        OLNK_MACHINE_ADDRESS_CLASS_64 8 8 4 16 4 0x10000000 65536 0
        OLNK_MACHINE_CODE_MODEL_MEDIUM (Some ''powerpc64'') (Some ''powerpc64-unknown-none''))"

definition g_machine_mips32 :: BuiltinMachineRecord where
  "g_machine_mips32 = BuiltinMachineRecord_init
     (machine_descriptor_fields OLNK_MACHINE_KIND_MIPS32 k_caps_mips (Some ''mips32'') (Some ''MIPS 32-bit'')
        (Some ''mips'') None (Some ''mips-unknown-none''))
     (machine_properties_fields OLNK_MACHINE_KIND_MIPS32 k_caps_mips OLNK_MACHINE_ENDIANNESS_BIG
        OLNK_MACHINE_ADDRESS_CLASS_32 4 4 4 8 4 0x400000 4096 0
        OLNK_MACHINE_CODE_MODEL_SMALL (Some ''mips32'') (Some ''mips-unknown-none''))"

definition g_machine_mips64 :: BuiltinMachineRecord where
  "g_machine_mips64 = BuiltinMachineRecord_init
     (machine_descriptor_fields OLNK_MACHINE_KIND_MIPS64 k_caps_mips (Some ''mips64'') (Some ''MIPS 64-bit'')
        None None (Some ''mips64-unknown-none''))
     (machine_properties_fields OLNK_MACHINE_KIND_MIPS64 k_caps_mips OLNK_MACHINE_ENDIANNESS_BIG
        OLNK_MACHINE_ADDRESS_CLASS_64 8 8 4 16 4 0x120000000 16384 0
        OLNK_MACHINE_CODE_MODEL_MEDIUM (Some ''mips64'') (Some ''mips64-unknown-none''))"

definition g_machine_sparc32 :: BuiltinMachineRecord where
  "g_machine_sparc32 = BuiltinMachineRecord_init
     (machine_descriptor_fields OLNK_MACHINE_KIND_SPARC32 k_caps_sparc (Some ''sparc32'') (Some ''SPARC 32-bit'')
        (Some ''sparc'') None (Some ''sparc-unknown-none''))
     (machine_properties_fields OLNK_MACHINE_KIND_SPARC32 k_caps_sparc OLNK_MACHINE_ENDIANNESS_BIG
        OLNK_MACHINE_ADDRESS_CLASS_32 4 4 4 8 4 0x10000 8192 0
        OLNK_MACHINE_CODE_MODEL_SMALL (Some ''sparc'') (Some ''sparc-unknown-none''))"

definition g_machine_sparc64 :: BuiltinMachineRecord where
  "g_machine_sparc64 = BuiltinMachineRecord_init
     (machine_descriptor_fields OLNK_MACHINE_KIND_SPARC64 k_caps_sparc (Some ''sparc64'') (Some ''SPARC 64-bit'')
        None None (Some ''sparc64-unknown-none''))
     (machine_properties_fields OLNK_MACHINE_KIND_SPARC64 k_caps_sparc OLNK_MACHINE_ENDIANNESS_BIG
        OLNK_MACHINE_ADDRESS_CLASS_64 8 8 4 16 4 0x100000 8192 0
        OLNK_MACHINE_CODE_MODEL_MEDIUM (Some ''sparc64'') (Some ''sparc64-unknown-none''))"

definition g_machine_systemz :: BuiltinMachineRecord where
  "g_machine_systemz = BuiltinMachineRecord_init
     (machine_descriptor_fields OLNK_MACHINE_KIND_SYSTEMZ k_caps_systemz (Some ''systemz'') (Some ''IBM z/Architecture'')
        (Some ''s390x'') None (Some ''s390x-unknown-none''))
     (machine_properties_fields OLNK_MACHINE_KIND_SYSTEMZ k_caps_systemz OLNK_MACHINE_ENDIANNESS_BIG
        OLNK_MACHINE_ADDRESS_CLASS_64 8 8 2 8 2 0x100000 4096 0
        OLNK_MACHINE_CODE_MODEL_MEDIUM (Some ''systemz'') (Some ''s390x-unknown-none''))"

definition g_machine_loongarch32 :: BuiltinMachineRecord where
  "g_machine_loongarch32 = BuiltinMachineRecord_init
     (machine_descriptor_fields OLNK_MACHINE_KIND_LOONGARCH32 k_caps_loongarch (Some ''loongarch32'') (Some ''LoongArch 32-bit'')
        (Some ''la32'') None (Some ''loongarch32-unknown-none''))
     (machine_properties_fields OLNK_MACHINE_KIND_LOONGARCH32 k_caps_loongarch OLNK_MACHINE_ENDIANNESS_LITTLE
        OLNK_MACHINE_ADDRESS_CLASS_32 4 4 4 16 4 0x10000 16384 0
        OLNK_MACHINE_CODE_MODEL_SMALL (Some ''loongarch32'') (Some ''loongarch32-unknown-none''))"

definition g_machine_loongarch64 :: BuiltinMachineRecord where
  "g_machine_loongarch64 = BuiltinMachineRecord_init
     (machine_descriptor_fields OLNK_MACHINE_KIND_LOONGARCH64 k_caps_loongarch (Some ''loongarch64'') (Some ''LoongArch 64-bit'')
        (Some ''la64'') None (Some ''loongarch64-unknown-none''))
     (machine_properties_fields OLNK_MACHINE_KIND_LOONGARCH64 k_caps_loongarch OLNK_MACHINE_ENDIANNESS_LITTLE
        OLNK_MACHINE_ADDRESS_CLASS_64 8 8 4 16 4 0x400000 16384 0
        OLNK_MACHINE_CODE_MODEL_SMALL (Some ''loongarch64'') (Some ''loongarch64-unknown-none''))"

definition g_machine_wasm32 :: BuiltinMachineRecord where
  "g_machine_wasm32 = BuiltinMachineRecord_init
     (machine_descriptor_fields OLNK_MACHINE_KIND_WASM32 k_caps_wasm (Some ''wasm32'') (Some ''WebAssembly 32-bit'')
        (Some ''wasm'') None (Some ''wasm32-unknown-unknown''))
     (machine_properties_fields OLNK_MACHINE_KIND_WASM32 k_caps_wasm OLNK_MACHINE_ENDIANNESS_LITTLE
        OLNK_MACHINE_ADDRESS_CLASS_32 4 4 1 16 1 0 65536 0
        OLNK_MACHINE_CODE_MODEL_SMALL (Some ''wasm32'') (Some ''wasm32-unknown-unknown''))"

definition g_machine_wasm64 :: BuiltinMachineRecord where
  "g_machine_wasm64 = BuiltinMachineRecord_init
     (machine_descriptor_fields OLNK_MACHINE_KIND_WASM64 k_caps_wasm (Some ''wasm64'') (Some ''WebAssembly 64-bit'')
        None None (Some ''wasm64-unknown-unknown''))
     (machine_properties_fields OLNK_MACHINE_KIND_WASM64 k_caps_wasm OLNK_MACHINE_ENDIANNESS_LITTLE
        OLNK_MACHINE_ADDRESS_CLASS_64 8 8 1 16 1 0 65536 0
        OLNK_MACHINE_CODE_MODEL_SMALL (Some ''wasm64'') (Some ''wasm64-unknown-unknown''))"

definition g_machine_bpfel :: BuiltinMachineRecord where
  "g_machine_bpfel = BuiltinMachineRecord_init
     (machine_descriptor_fields OLNK_MACHINE_KIND_BPFEL k_caps_bpf (Some ''bpfel'') (Some ''eBPF little-endian'')
        (Some ''bpf'') (Some ''ebpf'') (Some ''bpfel-unknown-none''))
     (machine_properties_fields OLNK_MACHINE_KIND_BPFEL k_caps_bpf OLNK_MACHINE_ENDIANNESS_LITTLE
        OLNK_MACHINE_ADDRESS_CLASS_64 8 8 8 8 8 0 4096 0
        OLNK_MACHINE_CODE_MODEL_SMALL (Some ''bpfel'') (Some ''bpfel-unknown-none''))"

definition g_machine_bpfeb :: BuiltinMachineRecord where
  "g_machine_bpfeb = BuiltinMachineRecord_init
     (machine_descriptor_fields OLNK_MACHINE_KIND_BPFEB k_caps_bpf (Some ''bpfeb'') (Some ''eBPF big-endian'')
        None None (Some ''bpfeb-unknown-none''))
     (machine_properties_fields OLNK_MACHINE_KIND_BPFEB k_caps_bpf OLNK_MACHINE_ENDIANNESS_BIG
        OLNK_MACHINE_ADDRESS_CLASS_64 8 8 8 8 8 0 4096 0
        OLNK_MACHINE_CODE_MODEL_SMALL (Some ''bpfeb'') (Some ''bpfeb-unknown-none''))"

definition g_builtin_machines :: "BuiltinMachineRecord list" where
  "g_builtin_machines =
     [g_machine_i386, g_machine_x86_64, g_machine_arm, g_machine_aarch64, g_machine_thumb,
      g_machine_riscv32, g_machine_riscv64, g_machine_ppc32, g_machine_ppc64, g_machine_mips32,
      g_machine_mips64, g_machine_sparc32, g_machine_sparc64, g_machine_systemz,
      g_machine_loongarch32, g_machine_loongarch64, g_machine_wasm32, g_machine_wasm64,
      g_machine_bpfel, g_machine_bpfeb]"

section \<open>Registry state and lookup\<close>

text \<open>The table is patched on first use; every operation that touches it takes the current table
  and returns the patched one.\<close>

definition patch_record :: "nat \<Rightarrow> BuiltinMachineRecord \<Rightarrow> BuiltinMachineRecord" where
  "patch_record i r =
     r\<lparr>bm_definition := (bm_definition r)\<lparr>mdef_descriptor := Some i, mdef_vtable := True,
                                            mdef_module_data := Some i\<rparr>,
       bm_instance := (bm_instance r)\<lparr>mi_definition := Some i\<rparr>\<rparr>"

definition initialize_builtin_registry :: "BuiltinMachineRecord list \<Rightarrow> BuiltinMachineRecord list" where
  "initialize_builtin_registry tbl = map2 patch_record [0..<length tbl] tbl"

definition builtin_machine_count :: "BuiltinMachineRecord list \<Rightarrow> size_t" where
  "builtin_machine_count tbl = of_nat (length tbl)"

definition record_from_definition ::
    "BuiltinMachineRecord list \<Rightarrow> nat option \<Rightarrow> BuiltinMachineRecord option" where
  "record_from_definition tbl def =
     (case def of None \<Rightarrow> None | Some p \<Rightarrow>
        (case first_match (\<lambda>i. i = p) 0 [0..<length tbl] of None \<Rightarrow> None | Some i \<Rightarrow> Some (tbl ! i)))"

definition record_from_instance ::
    "BuiltinMachineRecord list \<Rightarrow> olnk_machine_instance option \<Rightarrow> BuiltinMachineRecord option" where
  "record_from_instance tbl inst =
     (case inst of None \<Rightarrow> None | Some x \<Rightarrow> record_from_definition tbl (mi_definition x))"

definition matches_machine_name :: "BuiltinMachineRecord \<Rightarrow> string \<Rightarrow> bool" where
  "matches_machine_name rec name \<longleftrightarrow>
     cstr_iequals_ascii (md_name (bm_descriptor rec)) (Some name) \<or>
     cstr_iequals_ascii (md_primary_alias (bm_descriptor rec)) (Some name) \<or>
     cstr_iequals_ascii (md_secondary_alias (bm_descriptor rec)) (Some name) \<or>
     cstr_iequals_ascii (md_canonical_triple (bm_descriptor rec)) (Some name) \<or>
     cstr_iequals_ascii (mp_canonical_name (bm_properties rec)) (Some name) \<or>
     cstr_iequals_ascii (mp_canonical_triple (bm_properties rec)) (Some name)"

text \<open>A specification of the Lua registry: the fields the bridge reads, \<open>None\<close> for a field that is
  absent or of another type.\<close>

record lua_machine_spec =
  lms_name :: "string option"
  lms_arch :: "string option"
  lms_aliases :: "string option list option"

definition lua_spec_matched :: "string \<Rightarrow> lua_machine_spec \<Rightarrow> bool" where
  "lua_spec_matched name spec \<longleftrightarrow>
     (case lms_name spec of Some n \<Rightarrow> cstr_iequals_ascii (Some (c_str n)) (Some name) | None \<Rightarrow> False) \<or>
     (case lms_arch spec of Some a \<Rightarrow> cstr_iequals_ascii (Some (c_str a)) (Some name) | None \<Rightarrow> False) \<or>
     (case lms_aliases spec of None \<Rightarrow> False
      | Some as \<Rightarrow> list_ex (\<lambda>a. case a of Some s \<Rightarrow> cstr_iequals_ascii (Some (c_str s)) (Some name)
                                  | None \<Rightarrow> False) as)"

definition lua_arch_kind :: "lua_machine_spec \<Rightarrow> olnk_machine_kind option" where
  "lua_arch_kind spec =
     (case lms_arch spec of None \<Rightarrow> None
      | Some a \<Rightarrow>
         if cstr_iequals_ascii (Some (c_str a)) (Some ''wasm32'') then Some OLNK_MACHINE_KIND_WASM32
         else if cstr_iequals_ascii (Some (c_str a)) (Some ''x86_64'') then Some OLNK_MACHINE_KIND_X86_64
         else if cstr_iequals_ascii (Some (c_str a)) (Some ''aarch64'') then Some OLNK_MACHINE_KIND_AARCH64
         else None)"

text \<open>The loop over the registry's values; a value that is no table is \<open>None\<close>.  The first matching
  specification decides, also when its architecture is unknown.\<close>

fun lua_machine_loop :: "string \<Rightarrow> lua_machine_spec option list \<Rightarrow> olnk_machine_kind option" where
  "lua_machine_loop name [] = None"
| "lua_machine_loop name (None # specs) = lua_machine_loop name specs"
| "lua_machine_loop name (Some spec # specs) =
     (if \<not> lua_spec_matched name spec then lua_machine_loop name specs else lua_arch_kind spec)"

text \<open>\<open>lua_machine_spec_matches_name\<close> with its out parameter: \<open>None\<close> is the result false.\<close>

definition lua_machine_spec_matches_name ::
    "lua_machine_spec option list option \<Rightarrow> string \<Rightarrow> olnk_machine_kind option" where
  "lua_machine_spec_matches_name registry name =
     (case registry of None \<Rightarrow> None | Some specs \<Rightarrow> lua_machine_loop name specs)"

definition olnk_find_machine_by_kind ::
    "olnk_machine_kind \<Rightarrow> BuiltinMachineRecord list \<Rightarrow> nat option \<times> BuiltinMachineRecord list" where
  "olnk_find_machine_by_kind kind tbl =
     (let tbl = initialize_builtin_registry tbl
      in (first_match (\<lambda>r. md_kind (bm_descriptor r) = kind) 0 tbl, tbl))"

definition olnk_machine_count :: "BuiltinMachineRecord list \<Rightarrow> size_t \<times> BuiltinMachineRecord list" where
  "olnk_machine_count tbl = (let tbl = initialize_builtin_registry tbl in (builtin_machine_count tbl, tbl))"

definition olnk_machine_at :: "size_t \<Rightarrow> BuiltinMachineRecord list \<Rightarrow> nat option \<times> BuiltinMachineRecord list" where
  "olnk_machine_at index tbl =
     (let tbl = initialize_builtin_registry tbl
      in if builtin_machine_count tbl \<le> index then (None, tbl) else (Some (unat index), tbl))"

definition olnk_find_machine ::
    "lua_machine_spec option list option \<Rightarrow> cstr \<Rightarrow> BuiltinMachineRecord list
     \<Rightarrow> nat option \<times> BuiltinMachineRecord list" where
  "olnk_find_machine registry name tbl =
     (case name of
        None \<Rightarrow> (None, tbl)
      | Some n \<Rightarrow>
          if n = [] then (None, tbl)
          else let tbl = initialize_builtin_registry tbl
               in case first_match (\<lambda>r. matches_machine_name r n) 0 tbl of
                    Some i \<Rightarrow> (Some i, tbl)
                  | None \<Rightarrow>
                      (case lua_machine_spec_matches_name registry n of
                         Some kind \<Rightarrow> olnk_find_machine_by_kind kind tbl
                       | None \<Rightarrow> (None, tbl)))"

primrec olnk_machine_kind_name :: "olnk_machine_kind \<Rightarrow> string" where
  "olnk_machine_kind_name OLNK_MACHINE_KIND_UNKNOWN = ''unknown''"
| "olnk_machine_kind_name OLNK_MACHINE_KIND_I386 = ''i386''"
| "olnk_machine_kind_name OLNK_MACHINE_KIND_X86_64 = ''x86_64''"
| "olnk_machine_kind_name OLNK_MACHINE_KIND_ARM = ''arm''"
| "olnk_machine_kind_name OLNK_MACHINE_KIND_AARCH64 = ''aarch64''"
| "olnk_machine_kind_name OLNK_MACHINE_KIND_THUMB = ''thumb''"
| "olnk_machine_kind_name OLNK_MACHINE_KIND_RISCV32 = ''riscv32''"
| "olnk_machine_kind_name OLNK_MACHINE_KIND_RISCV64 = ''riscv64''"
| "olnk_machine_kind_name OLNK_MACHINE_KIND_PPC32 = ''ppc32''"
| "olnk_machine_kind_name OLNK_MACHINE_KIND_PPC64 = ''ppc64''"
| "olnk_machine_kind_name OLNK_MACHINE_KIND_MIPS32 = ''mips32''"
| "olnk_machine_kind_name OLNK_MACHINE_KIND_MIPS64 = ''mips64''"
| "olnk_machine_kind_name OLNK_MACHINE_KIND_SPARC32 = ''sparc32''"
| "olnk_machine_kind_name OLNK_MACHINE_KIND_SPARC64 = ''sparc64''"
| "olnk_machine_kind_name OLNK_MACHINE_KIND_SYSTEMZ = ''systemz''"
| "olnk_machine_kind_name OLNK_MACHINE_KIND_LOONGARCH32 = ''loongarch32''"
| "olnk_machine_kind_name OLNK_MACHINE_KIND_LOONGARCH64 = ''loongarch64''"
| "olnk_machine_kind_name OLNK_MACHINE_KIND_WASM32 = ''wasm32''"
| "olnk_machine_kind_name OLNK_MACHINE_KIND_WASM64 = ''wasm64''"
| "olnk_machine_kind_name OLNK_MACHINE_KIND_BPFEL = ''bpfel''"
| "olnk_machine_kind_name OLNK_MACHINE_KIND_BPFEB = ''bpfeb''"
| "olnk_machine_kind_name OLNK_MACHINE_KIND_CUSTOM = ''custom''"
| "olnk_machine_kind_name (OLNK_MACHINE_KIND_RAW n) = ''unrecognized-machine-kind''"

section \<open>The callbacks of the built-in machines\<close>

definition struct_header_is_compatible :: "u32 \<Rightarrow> u32 \<Rightarrow> u32 \<Rightarrow> u32 \<Rightarrow> bool" where
  "struct_header_is_compatible abi_version struct_size expected_abi sizeof_T \<longleftrightarrow>
     abi_version = expected_abi \<and> sizeof_T \<le> struct_size"

text \<open>\<open>create\<close>: the descriptor with its address, and the value of \<open>*out_instance\<close> (\<open>None\<close> for a null
  \<open>out_instance\<close>); the result has the status, the out value and the table.\<close>

definition builtin_machine_create ::
    "(nat \<times> olnk_machine_descriptor) option \<Rightarrow> nat option option \<Rightarrow> BuiltinMachineRecord list
     \<Rightarrow> olnk_status \<times> nat option option \<times> BuiltinMachineRecord list" where
  "builtin_machine_create descriptor out_instance tbl =
     (case (descriptor, out_instance) of
        (Some (addr, d), Some _) \<Rightarrow>
          if \<not> struct_header_is_compatible (md_abi_version d) (md_struct_size d) OLNK_MACHINE_ABI_VERSION
                 sizeof_olnk_machine_descriptor
          then (OLNK_STATUS_INVALID_ARGUMENT, Some None, tbl)
          else let tbl = initialize_builtin_registry tbl
               in (case first_match (\<lambda>i. i = addr) 0 [0..<length tbl] of
                     Some i \<Rightarrow> (OLNK_STATUS_OK, Some (Some i), tbl)
                   | None \<Rightarrow> (OLNK_STATUS_MACHINE_ERROR, Some None, tbl))
      | _ \<Rightarrow> (OLNK_STATUS_INVALID_ARGUMENT, out_instance, tbl))"

definition builtin_machine_destroy :: "nat option \<Rightarrow> BuiltinMachineRecord list \<Rightarrow> BuiltinMachineRecord list" where
  "builtin_machine_destroy inst tbl = tbl"

definition builtin_machine_set_option ::
    "olnk_machine_instance option \<Rightarrow> cstr \<Rightarrow> cstr \<Rightarrow> olnk_status" where
  "builtin_machine_set_option inst key value =
     (if inst = None \<or> key = None \<or> value = None then OLNK_STATUS_INVALID_ARGUMENT
      else if cstr_iequals_ascii key (Some ''cpu'') \<or> cstr_iequals_ascii key (Some ''features'') \<or>
              cstr_iequals_ascii key (Some ''abi'') \<or> cstr_iequals_ascii key (Some ''code-model'')
      then OLNK_STATUS_OK else OLNK_STATUS_INVALID_ARGUMENT)"

definition builtin_machine_get_properties ::
    "BuiltinMachineRecord list \<Rightarrow> olnk_machine_instance option \<Rightarrow> olnk_machine_properties option
     \<Rightarrow> olnk_status \<times> olnk_machine_properties option" where
  "builtin_machine_get_properties tbl inst out_properties =
     (case (inst, out_properties) of
        (Some _, Some p) \<Rightarrow>
          if mp_struct_size p < sizeof_olnk_machine_properties
          then (OLNK_STATUS_INVALID_ARGUMENT, out_properties)
          else (case record_from_instance tbl inst of
                  None \<Rightarrow> (OLNK_STATUS_MACHINE_ERROR, out_properties)
                | Some rec \<Rightarrow> (OLNK_STATUS_OK, Some (bm_properties rec)))
      | _ \<Rightarrow> (OLNK_STATUS_INVALID_ARGUMENT, out_properties))"

definition machine_ctx_log ::
    "'s olnk_machine_context option \<Rightarrow> olnk_log_level \<Rightarrow> string \<Rightarrow> 's \<Rightarrow> 's" where
  "machine_ctx_log context level message s =
     (case context of None \<Rightarrow> s | Some c \<Rightarrow>
        (case mctx_host c of None \<Rightarrow> s | Some h \<Rightarrow>
           (case mh_log h of None \<Rightarrow> s | Some log \<Rightarrow>
              if sizeof_olnk_machine_host \<le> mh_struct_size h \<and> mh_abi_version h = OLNK_MACHINE_ABI_VERSION
              then log level message s else s)))"

definition machine_ctx_diag ::
    "'s olnk_machine_context option \<Rightarrow> olnk_diagnostic_severity \<Rightarrow> string \<Rightarrow> 's \<Rightarrow> 's" where
  "machine_ctx_diag context severity message s =
     (case context of None \<Rightarrow> s | Some c \<Rightarrow>
        (case mctx_host c of None \<Rightarrow> s | Some h \<Rightarrow>
           (case mh_diagnostic h of None \<Rightarrow> s | Some diag \<Rightarrow>
              if sizeof_olnk_machine_host \<le> mh_struct_size h \<and> mh_abi_version h = OLNK_MACHINE_ABI_VERSION
              then diag severity message s else s)))"

definition fallback_empty :: "cstr \<Rightarrow> string" where
  "fallback_empty s = (case s of Some x \<Rightarrow> x | None \<Rightarrow> [])"

definition builtin_machine_validate_config ::
    "BuiltinMachineRecord list \<Rightarrow> olnk_machine_instance option \<Rightarrow> 's olnk_machine_context option \<Rightarrow> 's
     \<Rightarrow> olnk_status \<times> 's" where
  "builtin_machine_validate_config tbl inst context s =
     (if inst = None then (OLNK_STATUS_INVALID_ARGUMENT, s)
      else case record_from_instance tbl inst of
        None \<Rightarrow> (OLNK_STATUS_MACHINE_ERROR, s)
      | Some rec \<Rightarrow>
          let s = machine_ctx_log context OLNK_LOG_DEBUG (fallback_empty (md_description (bm_descriptor rec))) s;
              s = (if olnk_machine_is_virtual_kind (md_kind (bm_descriptor rec))
                   then machine_ctx_log context OLNK_LOG_DEBUG ''validated virtual machine target'' s
                   else machine_ctx_log context OLNK_LOG_DEBUG ''validated native machine target'' s);
              s = (if mp_address_class (bm_properties rec) = OLNK_MACHINE_ADDRESS_CLASS_UNKNOWN
                   then machine_ctx_diag context OLNK_DIAGNOSTIC_WARNING ''machine has unknown address class'' s
                   else s);
              s = (if mp_endianness (bm_properties rec) = OLNK_MACHINE_ENDIANNESS_UNKNOWN
                   then machine_ctx_diag context OLNK_DIAGNOSTIC_WARNING ''machine has unknown endianness'' s
                   else s)
          in (OLNK_STATUS_OK, s))"

definition builtin_machine_canonical_name :: "BuiltinMachineRecord list \<Rightarrow> olnk_machine_instance option \<Rightarrow> cstr" where
  "builtin_machine_canonical_name tbl inst =
     (case record_from_instance tbl inst of None \<Rightarrow> None | Some rec \<Rightarrow> mp_canonical_name (bm_properties rec))"

definition builtin_machine_canonical_triple :: "BuiltinMachineRecord list \<Rightarrow> olnk_machine_instance option \<Rightarrow> cstr" where
  "builtin_machine_canonical_triple tbl inst =
     (case record_from_instance tbl inst of None \<Rightarrow> None | Some rec \<Rightarrow> mp_canonical_triple (bm_properties rec))"

definition builtin_machine_describe :: "BuiltinMachineRecord list \<Rightarrow> olnk_machine_instance option \<Rightarrow> cstr" where
  "builtin_machine_describe tbl inst =
     (case record_from_instance tbl inst of None \<Rightarrow> None | Some rec \<Rightarrow> md_description (bm_descriptor rec))"

section \<open>The vtable\<close>

record 's olnk_machine_vtable =
  mv_abi_version :: u32
  mv_struct_size :: u32
  mv_create :: "((nat \<times> olnk_machine_descriptor) option \<Rightarrow> nat option option \<Rightarrow> BuiltinMachineRecord list
     \<Rightarrow> olnk_status \<times> nat option option \<times> BuiltinMachineRecord list) option"
  mv_destroy :: "(nat option \<Rightarrow> BuiltinMachineRecord list \<Rightarrow> BuiltinMachineRecord list) option"
  mv_set_option :: "(olnk_machine_instance option \<Rightarrow> cstr \<Rightarrow> cstr \<Rightarrow> olnk_status) option"
  mv_get_properties :: "(BuiltinMachineRecord list \<Rightarrow> olnk_machine_instance option
     \<Rightarrow> olnk_machine_properties option \<Rightarrow> olnk_status \<times> olnk_machine_properties option) option"
  mv_validate_config :: "(BuiltinMachineRecord list \<Rightarrow> olnk_machine_instance option
     \<Rightarrow> 's olnk_machine_context option \<Rightarrow> 's \<Rightarrow> olnk_status \<times> 's) option"
  mv_canonical_name :: "(BuiltinMachineRecord list \<Rightarrow> olnk_machine_instance option \<Rightarrow> cstr) option"
  mv_canonical_triple :: "(BuiltinMachineRecord list \<Rightarrow> olnk_machine_instance option \<Rightarrow> cstr) option"
  mv_describe :: "(BuiltinMachineRecord list \<Rightarrow> olnk_machine_instance option \<Rightarrow> cstr) option"

definition g_builtin_machine_vtable :: "'s olnk_machine_vtable" where
  "g_builtin_machine_vtable =
     \<lparr>mv_abi_version = OLNK_MACHINE_ABI_VERSION, mv_struct_size = sizeof_olnk_machine_vtable,
      mv_create = Some builtin_machine_create, mv_destroy = Some builtin_machine_destroy,
      mv_set_option = Some builtin_machine_set_option,
      mv_get_properties = Some builtin_machine_get_properties,
      mv_validate_config = Some builtin_machine_validate_config,
      mv_canonical_name = Some builtin_machine_canonical_name,
      mv_canonical_triple = Some builtin_machine_canonical_triple,
      mv_describe = Some builtin_machine_describe\<rparr>"

section \<open>Lemmas on the patched table\<close>

lemma patch_record_fields [simp]:
  "bm_descriptor (patch_record i r) = bm_descriptor r"
  "bm_properties (patch_record i r) = bm_properties r"
  "mi_definition (bm_instance (patch_record i r)) = Some i"
  by (simp_all add: patch_record_def)

lemma length_initialize [simp]: "length (initialize_builtin_registry tbl) = length tbl"
  by (simp add: initialize_builtin_registry_def)

lemma nth_initialize [simp]: "i < length tbl \<Longrightarrow> initialize_builtin_registry tbl ! i = patch_record i (tbl ! i)"
  by (simp add: initialize_builtin_registry_def)

lemma initialize_idem [simp]:
  "initialize_builtin_registry (initialize_builtin_registry tbl) = initialize_builtin_registry tbl"
  by (rule nth_equalityI) (simp_all add: patch_record_def)

text \<open>Lookups look at descriptors and properties only, which patching leaves alone.\<close>

lemma first_match_map2:
  "(\<And>j e. e \<in> set es \<Longrightarrow> P (f j e) = P e) \<Longrightarrow> length js = length es \<Longrightarrow>
   first_match P k (map2 f js es) = first_match P k es"
  by (induction es arbitrary: js k) (auto simp: length_Suc_conv)

lemma matches_patch [simp]: "matches_machine_name (patch_record i r) n = matches_machine_name r n"
  by (simp only: matches_machine_name_def patch_record_fields)

lemma first_match_initialize [simp]:
  "first_match (\<lambda>r. matches_machine_name r n) 0 (initialize_builtin_registry tbl)
   = first_match (\<lambda>r. matches_machine_name r n) 0 tbl"
  "first_match (\<lambda>r. md_kind (bm_descriptor r) = k) 0 (initialize_builtin_registry tbl)
   = first_match (\<lambda>r. md_kind (bm_descriptor r) = k) 0 tbl"
  unfolding initialize_builtin_registry_def by (rule first_match_map2; simp)+

text \<open>The table as it is before and after first use.\<close>

definition machine_table :: "BuiltinMachineRecord list \<Rightarrow> bool" where
  "machine_table tbl \<longleftrightarrow> tbl = g_builtin_machines \<or> tbl = initialize_builtin_registry g_builtin_machines"

lemma machine_table_initialize:
  "machine_table tbl \<Longrightarrow> initialize_builtin_registry tbl = initialize_builtin_registry g_builtin_machines"
  by (auto simp: machine_table_def)

lemma length_builtin_machines: "length g_builtin_machines = 20"
  by (simp add: g_builtin_machines_def)

lemma machine_table_length: "machine_table tbl \<Longrightarrow> length tbl = 20"
  by (auto simp: machine_table_def length_builtin_machines)

definition machine_names :: "BuiltinMachineRecord \<Rightarrow> cstr list" where
  "machine_names r =
     [md_name (bm_descriptor r), md_primary_alias (bm_descriptor r), md_secondary_alias (bm_descriptor r),
      md_canonical_triple (bm_descriptor r), mp_canonical_name (bm_properties r),
      mp_canonical_triple (bm_properties r)]"

lemma matches_machine_name_iff:
  "matches_machine_name r n \<longleftrightarrow> (\<exists>s. Some s \<in> set (machine_names r) \<and> fold_case s = fold_case n)"
  unfolding list_ex_iequals [symmetric]
  by (simp add: matches_machine_name_def machine_names_def del: cstr_iequals_ascii_iff)

interpretation machine_reg: name_registry g_builtin_machines machine_names matches_machine_name
  "\<lambda>n. first_match (\<lambda>r. matches_machine_name r n) 0 g_builtin_machines"
  by unfold_locales (rule matches_machine_name_iff, rule refl)

lemma machine_entries_distinct: "distinct (map snd (registry_entries machine_names g_builtin_machines))"
  by code_simp

lemmas machine_find_own = machine_reg.find_own_name [OF machine_entries_distinct]

lemma olnk_find_machine_table:
  assumes "machine_table tbl"
  shows "fst (olnk_find_machine registry (Some n) tbl) =
    (if n = [] then None
     else case first_match (\<lambda>r. matches_machine_name r n) 0 g_builtin_machines of
       Some i \<Rightarrow> Some i
     | None \<Rightarrow> (case lua_machine_spec_matches_name registry n of
         Some k \<Rightarrow> first_match (\<lambda>r. md_kind (bm_descriptor r) = k) 0 g_builtin_machines
       | None \<Rightarrow> None))"
  using machine_table_initialize [OF assms]
  by (simp add: olnk_find_machine_def olnk_find_machine_by_kind_def Let_def split: option.splits)

text \<open>Coherence of one table entry: descriptor and properties agree, sizes agree with the address class,
  alignments and page size are powers of two, and the virtual-ISA capability is set exactly for the
  kinds that \<open>olnk_machine_is_virtual_kind\<close> names.\<close>

definition pow2 :: "nat \<Rightarrow> bool" where
  "pow2 n \<longleftrightarrow> list_ex (\<lambda>k. n = 2 ^ k) [0..<17]"

definition machine_coherent :: "BuiltinMachineRecord \<Rightarrow> bool" where
  "machine_coherent r \<longleftrightarrow>
     (let d = bm_descriptor r; p = bm_properties r in
      md_kind d = mp_kind p \<and> md_capabilities d = mp_capabilities p \<and>
      md_canonical_triple d = mp_canonical_triple p \<and>
      8 * unat (mp_pointer_size p) = address_class_bits (mp_address_class p) \<and>
      mp_address_size p = mp_pointer_size p \<and>
      pow2 (unat (mp_instruction_alignment p)) \<and> pow2 (unat (mp_stack_alignment p)) \<and>
      pow2 (unat (mp_function_alignment p)) \<and> pow2 (unat (mp_default_page_size p)) \<and>
      mp_default_image_base p mod mp_default_page_size p = 0 \<and>
      (olnk_machine_capability_test (mp_capabilities p) (machine_cap OLNK_MACHINE_CAPABILITY_VIRTUAL_ISA)
         \<longleftrightarrow> olnk_machine_is_virtual_kind (md_kind d)))"

lemma olnk_machine_make_version_eq: "olnk_machine_make_version = make_version"
  by (simp add: fun_eq_iff olnk_machine_make_version_def make_version_def)

definition kind_has_machine :: "olnk_machine_kind \<Rightarrow> bool" where
  "kind_has_machine k =
     (case k of OLNK_MACHINE_KIND_UNKNOWN \<Rightarrow> False | OLNK_MACHINE_KIND_CUSTOM \<Rightarrow> False
      | OLNK_MACHINE_KIND_RAW n \<Rightarrow> False | _ \<Rightarrow> True)"

lemma machine_kind_table:
  "map (\<lambda>r. md_kind (bm_descriptor r)) g_builtin_machines =
    [OLNK_MACHINE_KIND_I386, OLNK_MACHINE_KIND_X86_64, OLNK_MACHINE_KIND_ARM, OLNK_MACHINE_KIND_AARCH64,
     OLNK_MACHINE_KIND_THUMB, OLNK_MACHINE_KIND_RISCV32, OLNK_MACHINE_KIND_RISCV64, OLNK_MACHINE_KIND_PPC32,
     OLNK_MACHINE_KIND_PPC64, OLNK_MACHINE_KIND_MIPS32, OLNK_MACHINE_KIND_MIPS64, OLNK_MACHINE_KIND_SPARC32,
     OLNK_MACHINE_KIND_SPARC64, OLNK_MACHINE_KIND_SYSTEMZ, OLNK_MACHINE_KIND_LOONGARCH32,
     OLNK_MACHINE_KIND_LOONGARCH64, OLNK_MACHINE_KIND_WASM32, OLNK_MACHINE_KIND_WASM64,
     OLNK_MACHINE_KIND_BPFEL, OLNK_MACHINE_KIND_BPFEB]"
  by code_simp

lemma machine_name_is_kind_name:
  "map (\<lambda>r. md_name (bm_descriptor r)) g_builtin_machines
   = map (\<lambda>r. Some (olnk_machine_kind_name (md_kind (bm_descriptor r)))) g_builtin_machines"
  by code_simp

lemma first_match_map: "first_match P k (map f es) = first_match (\<lambda>e. P (f e)) k es"
  by (induction es arbitrary: k) auto

lemma find_kind:
  "first_match (\<lambda>r. md_kind (bm_descriptor r) = k) 0 g_builtin_machines =
   first_match (\<lambda>k'. k' = k) 0 (map (\<lambda>r. md_kind (bm_descriptor r)) g_builtin_machines)"
  by (simp add: first_match_map)

lemmas builtin_machine_defs = g_machine_i386_def g_machine_x86_64_def g_machine_arm_def g_machine_aarch64_def
  g_machine_thumb_def g_machine_riscv32_def g_machine_riscv64_def g_machine_ppc32_def
  g_machine_ppc64_def g_machine_mips32_def g_machine_mips64_def g_machine_sparc32_def
  g_machine_sparc64_def g_machine_systemz_def g_machine_loongarch32_def g_machine_loongarch64_def
  g_machine_wasm32_def g_machine_wasm64_def g_machine_bpfel_def g_machine_bpfeb_def

lemmas machine_field_defs = BuiltinMachineRecord_init_def machine_descriptor_fields_def
  machine_properties_fields_def

text \<open>The capability masks as numbers.\<close>

lemma k_caps [simp]:
  "k_caps_native_common = 0x19F" "k_caps_native_relax = 0x1BF" "k_caps_native_branch = 0x1FF"
  "k_caps_x86_64 = 0xF9F" "k_caps_i386 = 0xF9F" "k_caps_aarch64 = 0x7FF" "k_caps_arm = 0x3FF"
  "k_caps_riscv = 0x3BF" "k_caps_ppc = 0x39F" "k_caps_mips = 0x19F" "k_caps_sparc = 0x19F"
  "k_caps_systemz = 0x39F" "k_caps_loongarch = 0x3BF" "k_caps_wasm = 0x101C" "k_caps_bpf = 0x1004"
  by (simp_all add: k_caps_native_common_def k_caps_native_relax_def k_caps_native_branch_def
      k_caps_x86_64_def k_caps_i386_def k_caps_aarch64_def k_caps_arm_def k_caps_riscv_def k_caps_ppc_def
      k_caps_mips_def k_caps_sparc_def k_caps_systemz_def k_caps_loongarch_def k_caps_wasm_def
      k_caps_bpf_def machine_cap_def push_bit_eq_mult)

lemma pow2_values [simp]: "pow2 1" "pow2 (Suc 0)" "pow2 2" "pow2 4" "pow2 8" "pow2 16" "pow2 4096" "pow2 8192"
  "pow2 16384" "pow2 65536"
  by (simp_all add: pow2_def upt_rec)

section \<open>Properties\<close>

text \<open>Every name, alias and triple of a built-in machine, in any letter case, is found by
  \<open>olnk_find_machine\<close>, and what is found is the machine that lists it: no two built-in machines share
  a name, and the Lua registry cannot shadow one.\<close>

theorem olnk_find_machine_complete:
  assumes "machine_table tbl" "i < 20" "Some n \<in> set (machine_names (g_builtin_machines ! i))"
    and "fold_case m = fold_case n" "m \<noteq> []"
  shows "fst (olnk_find_machine registry (Some m) tbl) = Some i"
  using machine_find_own [of i n m] assms
  by (simp add: olnk_find_machine_table length_builtin_machines)

theorem olnk_find_machine_complete_witness:
  "fst (olnk_find_machine None (Some ''AMD64'') g_builtin_machines) = Some 1"
proof (rule olnk_find_machine_complete)
  show "Some ''amd64'' \<in> set (machine_names (g_builtin_machines ! 1))"
    by (simp add: machine_names_def g_builtin_machines_def g_machine_x86_64_def BuiltinMachineRecord_init_def
        machine_descriptor_fields_def machine_properties_fields_def)
  show "fold_case ''AMD64'' = fold_case ''amd64''" by code_simp
qed (simp_all add: machine_table_def)

text \<open>Lookup by kind and lookup by name agree: \<open>olnk_find_machine_by_kind\<close> finds a machine for every
  kind of the header except \<open>UNKNOWN\<close>, \<open>CUSTOM\<close> and integers that are no enumerator, and looking up
  the string that \<open>olnk_machine_kind_name\<close> prints for such a kind finds the same machine.\<close>

theorem olnk_find_machine_kind_name:
  assumes "machine_table tbl"
  shows "(fst (olnk_find_machine_by_kind k tbl) = None \<longleftrightarrow> \<not> kind_has_machine k) \<and>
    (kind_has_machine k \<longrightarrow>
       fst (olnk_find_machine registry (Some (olnk_machine_kind_name k)) tbl) = fst (olnk_find_machine_by_kind k tbl))"
proof -
  let ?p = "first_match (\<lambda>r. md_kind (bm_descriptor r) = k) 0 g_builtin_machines"
  have by_kind: "fst (olnk_find_machine_by_kind k tbl) = ?p"
    using machine_table_initialize [OF assms] by (simp add: olnk_find_machine_by_kind_def Let_def)
  have none: "?p = None \<longleftrightarrow> \<not> kind_has_machine k"
    unfolding find_kind machine_kind_table by (cases k) (simp_all add: kind_has_machine_def)
  have "fst (olnk_find_machine registry (Some (olnk_machine_kind_name k)) tbl) = Some i" if "?p = Some i" for i
  proof -
    from that have i: "i < length g_builtin_machines" "md_kind (bm_descriptor (g_builtin_machines ! i)) = k"
      by (auto simp: first_match_Some)
    have "md_name (bm_descriptor (g_builtin_machines ! i)) = Some (olnk_machine_kind_name k)"
      using arg_cong [OF machine_name_is_kind_name, of "\<lambda>l. l ! i"] i by simp
    then have "Some (olnk_machine_kind_name k) \<in> set (machine_names (g_builtin_machines ! i))"
      by (simp add: machine_names_def)
    from machine_find_own [OF i(1) this refl] show ?thesis
      using assms by (cases k) (simp_all add: olnk_find_machine_table)
  qed
  then show ?thesis using none by (cases ?p) (auto simp: by_kind)
qed

theorem olnk_find_machine_kind_name_witness:
  "fst (olnk_find_machine None (Some ''wasm64'') g_builtin_machines)
     = fst (olnk_find_machine_by_kind OLNK_MACHINE_KIND_WASM64 g_builtin_machines)"
  using olnk_find_machine_kind_name [of g_builtin_machines OLNK_MACHINE_KIND_WASM64 None]
  by (simp add: machine_table_def kind_has_machine_def)

lemma lua_machine_loop_case:
  "fold_case m = fold_case n \<Longrightarrow> lua_machine_loop m specs = lua_machine_loop n specs"
  by (induction n specs rule: lua_machine_loop.induct) (auto simp: lua_spec_matched_def cong: option.case_cong)

text \<open>\<open>olnk_find_machine\<close> ignores the letter case of its argument, the Lua specifications included.\<close>

theorem olnk_find_machine_case_insensitive:
  assumes "fold_case m = fold_case n"
  shows "olnk_find_machine registry (Some m) tbl = olnk_find_machine registry (Some n) tbl"
proof -
  have "m = [] \<longleftrightarrow> n = []" using assms by (auto simp: fold_case_def)
  moreover have "first_match (\<lambda>r. matches_machine_name r m) 0 t = first_match (\<lambda>r. matches_machine_name r n) 0 t" for t
    using assms by (simp add: matches_machine_name_iff)
  moreover have "lua_machine_spec_matches_name registry m = lua_machine_spec_matches_name registry n"
    by (simp add: lua_machine_spec_matches_name_def lua_machine_loop_case [OF assms] split: option.split)
  ultimately show ?thesis by (simp add: olnk_find_machine_def Let_def split: option.split)
qed

theorem olnk_find_machine_case_insensitive_witness:
  "olnk_find_machine None (Some ''BPF'') g_builtin_machines = olnk_find_machine None (Some ''bpf'') g_builtin_machines"
proof (rule olnk_find_machine_case_insensitive)
  show "fold_case ''BPF'' = fold_case ''bpf''" by code_simp
qed

text \<open>The built-in table is coherent: in every entry the descriptor and the properties agree on kind,
  capabilities and triple, the pointer size fits the address class, alignments and page size are
  powers of two, the image base is page aligned, and exactly the virtual kinds have the virtual-ISA
  capability.\<close>

theorem g_builtin_machines_coherent: "list_all machine_coherent g_builtin_machines"
  by (simp add: g_builtin_machines_def builtin_machine_defs machine_field_defs machine_coherent_def Let_def
      olnk_machine_capability_test_def olnk_machine_is_virtual_kind_def machine_cap_def push_bit_eq_mult)

text \<open>The machine life cycle: for each built-in machine \<open>create\<close> on its own descriptor succeeds with the
  machine's own instance, and \<open>get_properties\<close> and \<open>canonical_name\<close> on that instance return that
  machine's properties; \<open>create\<close> on any other descriptor address fails without an instance.\<close>

theorem builtin_machine_lifecycle:
  assumes "machine_table tbl" "addr < 20" "sizeof_olnk_machine_properties \<le> mp_struct_size out"
  shows "\<exists>tbl'. builtin_machine_create (Some (addr, bm_descriptor (tbl ! addr))) (Some prev) tbl
        = (OLNK_STATUS_OK, Some (Some addr), tbl') \<and>
      builtin_machine_get_properties tbl' (Some (bm_instance (tbl' ! addr))) (Some out)
        = (OLNK_STATUS_OK, Some (bm_properties (tbl ! addr))) \<and>
      builtin_machine_canonical_name tbl' (Some (bm_instance (tbl' ! addr)))
        = mp_canonical_name (bm_properties (tbl ! addr))"
proof -
  have header: "list_all (\<lambda>r. struct_header_is_compatible (md_abi_version (bm_descriptor r))
      (md_struct_size (bm_descriptor r)) OLNK_MACHINE_ABI_VERSION sizeof_olnk_machine_descriptor) g_builtin_machines"
    by (simp add: g_builtin_machines_def builtin_machine_defs machine_field_defs struct_header_is_compatible_def)
  let ?t = "initialize_builtin_registry tbl"
  have len: "addr < length tbl" using assms machine_table_length by simp
  have same: "bm_descriptor (tbl ! addr) = bm_descriptor (g_builtin_machines ! addr)"
    using assms(1,2) by (auto simp: machine_table_def length_builtin_machines)
  have idx: "first_match (\<lambda>i. i = addr) 0 [0..<length tbl] = Some addr"
    using len by (simp add: first_match_Some)
  have "builtin_machine_create (Some (addr, bm_descriptor (tbl ! addr))) (Some prev) tbl
      = (OLNK_STATUS_OK, Some (Some addr), ?t)"
    using header assms(2) idx same
    by (simp add: builtin_machine_create_def list_all_length length_builtin_machines Let_def)
  moreover have "record_from_instance ?t (Some (bm_instance (?t ! addr))) = Some (?t ! addr)"
    using len idx by (simp add: record_from_instance_def record_from_definition_def)
  ultimately show ?thesis using assms(3) len
    by (auto simp: builtin_machine_get_properties_def builtin_machine_canonical_name_def)
qed

theorem builtin_machine_lifecycle_witness:
  "\<exists>tbl'. builtin_machine_create (Some (3, bm_descriptor (g_builtin_machines ! 3))) (Some None) g_builtin_machines
     = (OLNK_STATUS_OK, Some (Some 3), tbl') \<and>
   builtin_machine_canonical_name tbl' (Some (bm_instance (tbl' ! 3))) = Some ''aarch64''"
proof -
  have "mp_canonical_name (bm_properties (g_builtin_machines ! 3)) = Some ''aarch64''" by code_simp
  then show ?thesis
    using builtin_machine_lifecycle [of g_builtin_machines 3 "bm_properties g_machine_arm" None]
    by (auto simp: machine_table_def g_machine_arm_def BuiltinMachineRecord_init_def machine_properties_fields_def)
qed

text \<open>\<open>olnk_machine_make_version\<close> packs versions so that, for components within their fields, comparing
  the packed numbers is comparing the versions lexicographically.\<close>

theorem olnk_machine_make_version_order:
  assumes "major < 1024" "minor < 1024" "patch < 4096" "major' < 1024" "minor' < 1024" "patch' < 4096"
  shows "olnk_machine_make_version major minor patch < olnk_machine_make_version major' minor' patch' \<longleftrightarrow>
    (unat major, unat minor, unat patch) < (unat major', unat minor', unat patch')"
  unfolding olnk_machine_make_version_eq by (rule make_version_mono) (fact assms)+

theorem olnk_machine_make_version_order_witness:
  "olnk_machine_make_version 1 9 0 < olnk_machine_make_version 1 10 3"
  using olnk_machine_make_version_order [of 1 9 0 1 10 3] by (simp add: word_less_nat_alt)

end
