(* ===== verification/Olnk_Effects.thy ===== *)
theory Olnk_Effects
  imports Olnk_Prelude
begin

text \<open>
  Effects of the C++ sources: state, exceptions and the two ways a call may fail to come back to its
  caller, undefined behaviour (a dangling or null pointer is dereferenced) and \<open>std::terminate\<close> (an
  exception reaches a \<open>noexcept\<close> boundary).  Programs are functions from a state to an outcome; \<open>wp\<close>
  is their weakest precondition, with rules for every combinator, so that the proofs about the API
  are by simplification.
\<close>

datatype exn = BadAlloc | OtherExn

datatype fault = UndefinedBehaviour | Terminate

datatype ('a, 'w) outcome = Ret 'a 'w | Exn exn 'w | Fault fault

type_synonym ('a, 'w) prog = "'w \<Rightarrow> ('a, 'w) outcome"

definition mret :: "'a \<Rightarrow> ('a, 'w) prog" where
  "mret x w = Ret x w"

definition mbind :: "('a, 'w) prog \<Rightarrow> ('a \<Rightarrow> ('b, 'w) prog) \<Rightarrow> ('b, 'w) prog" where
  "mbind m f w = (case m w of Ret x w' \<Rightarrow> f x w' | Exn e w' \<Rightarrow> Exn e w' | Fault u \<Rightarrow> Fault u)"

definition mseq :: "('a, 'w) prog \<Rightarrow> ('b, 'w) prog \<Rightarrow> ('b, 'w) prog" where
  "mseq m n = mbind m (\<lambda>_. n)"

definition mthrow :: "exn \<Rightarrow> ('a, 'w) prog" where
  "mthrow e w = Exn e w"

definition mfault :: "fault \<Rightarrow> ('a, 'w) prog" where
  "mfault u w = Fault u"

text \<open>\<open>try { m } catch (...) { h e }\<close>.\<close>

definition mtry :: "('a, 'w) prog \<Rightarrow> (exn \<Rightarrow> ('a, 'w) prog) \<Rightarrow> ('a, 'w) prog" where
  "mtry m h w = (case m w of Ret x w' \<Rightarrow> Ret x w' | Exn e w' \<Rightarrow> h e w' | Fault u \<Rightarrow> Fault u)"

text \<open>A function marked \<open>noexcept\<close>.\<close>

definition mnoexcept :: "('a, 'w) prog \<Rightarrow> ('a, 'w) prog" where
  "mnoexcept m = mtry m (\<lambda>_. mfault Terminate)"

definition mget :: "('w \<Rightarrow> 'a) \<Rightarrow> ('a, 'w) prog" where
  "mget f w = Ret (f w) w"

definition mupd :: "('w \<Rightarrow> 'w) \<Rightarrow> (unit, 'w) prog" where
  "mupd f w = Ret () (f w)"

text \<open>Dereferencing: a missing object is undefined behaviour.\<close>

definition mderef :: "('w \<Rightarrow> 'a option) \<Rightarrow> ('a, 'w) prog" where
  "mderef f w = (case f w of None \<Rightarrow> Fault UndefinedBehaviour | Some x \<Rightarrow> Ret x w)"

fun mfold :: "('a \<Rightarrow> (unit, 'w) prog) \<Rightarrow> 'a list \<Rightarrow> (unit, 'w) prog" where
  "mfold f [] = mret ()"
| "mfold f (x # xs) = mseq (f x) (mfold f xs)"

section \<open>Weakest preconditions\<close>

named_theorems wp_rules \<open>weakest preconditions of programs\<close>

text \<open>\<open>Q\<close> is about a normal return, \<open>E\<close> about an exception, \<open>F\<close> about a fault.\<close>

definition wp :: "('a, 'w) prog \<Rightarrow> ('a \<Rightarrow> 'w \<Rightarrow> bool) \<Rightarrow> (exn \<Rightarrow> 'w \<Rightarrow> bool) \<Rightarrow> (fault \<Rightarrow> bool) \<Rightarrow> 'w \<Rightarrow> bool" where
  "wp m Q E F w = (case m w of Ret x w' \<Rightarrow> Q x w' | Exn e w' \<Rightarrow> E e w' | Fault u \<Rightarrow> F u)"

lemma wp_mret [wp_rules]: "wp (mret x) Q E F w = Q x w"
  by (simp add: wp_def mret_def)

lemma wp_mbind [wp_rules]: "wp (mbind m f) Q E F w = wp m (\<lambda>x. wp (f x) Q E F) E F w"
  by (simp add: wp_def mbind_def split: outcome.split)

lemma wp_mseq [wp_rules]: "wp (mseq m n) Q E F w = wp m (\<lambda>_. wp n Q E F) E F w"
  by (simp add: mseq_def wp_mbind)

lemma wp_mthrow [wp_rules]: "wp (mthrow e) Q E F w = E e w"
  by (simp add: wp_def mthrow_def)

lemma wp_mfault [wp_rules]: "wp (mfault u) Q E F w = F u"
  by (simp add: wp_def mfault_def)

lemma wp_mtry [wp_rules]: "wp (mtry m h) Q E F w = wp m Q (\<lambda>e. wp (h e) Q E F) F w"
  by (simp add: wp_def mtry_def split: outcome.split)

lemma wp_mnoexcept [wp_rules]: "wp (mnoexcept m) Q E F w = wp m Q (\<lambda>_ _. F Terminate) F w"
  by (simp add: wp_def mnoexcept_def mtry_def mfault_def split: outcome.split)

lemma wp_mget [wp_rules]: "wp (mget f) Q E F w = Q (f w) w"
  by (simp add: wp_def mget_def)

lemma wp_mupd [wp_rules]: "wp (mupd f) Q E F w = Q () (f w)"
  by (simp add: wp_def mupd_def)

lemma wp_mderef [wp_rules]:
  "wp (mderef f) Q E F w = (case f w of None \<Rightarrow> F UndefinedBehaviour | Some x \<Rightarrow> Q x w)"
  by (simp add: wp_def mderef_def split: option.split)

lemma wp_if [wp_rules]: "wp (if b then m else n) Q E F w = (if b then wp m Q E F w else wp n Q E F w)"
  by simp

lemma wp_option [wp_rules]:
  "wp (case x of None \<Rightarrow> m | Some y \<Rightarrow> n y) Q E F w = (case x of None \<Rightarrow> wp m Q E F w | Some y \<Rightarrow> wp (n y) Q E F w)"
  by (simp split: option.split)

lemma wp_mono:
  assumes "wp m Q E F w" "\<And>x w'. Q x w' \<Longrightarrow> Q' x w'" "\<And>e w'. E e w' \<Longrightarrow> E' e w'" "\<And>u. F u \<Longrightarrow> F' u"
  shows "wp m Q' E' F' w"
  using assms by (auto simp: wp_def split: outcome.splits)

lemma wp_conj: "wp m Q E F w \<Longrightarrow> wp m Q' E' F' w \<Longrightarrow> wp m (\<lambda>x w. Q x w \<and> Q' x w) (\<lambda>e w. E e w \<and> E' e w) (\<lambda>u. F u \<and> F' u) w"
  by (auto simp: wp_def split: outcome.splits)

lemma wp_Ret: "wp m Q E F w \<Longrightarrow> m w = Ret x w' \<Longrightarrow> Q x w'"
  by (simp add: wp_def)

lemma wp_Fault: "wp m Q E F w \<Longrightarrow> m w = Fault u \<Longrightarrow> F u"
  by (simp add: wp_def)

lemma wp_Exn: "wp m Q E F w \<Longrightarrow> m w = Exn e w' \<Longrightarrow> E e w'"
  by (simp add: wp_def)

lemma wpI: "(\<And>x w'. m w = Ret x w' \<Longrightarrow> Q x w') \<Longrightarrow> (\<And>e w'. m w = Exn e w' \<Longrightarrow> E e w') \<Longrightarrow>
   (\<And>u. m w = Fault u \<Longrightarrow> F u) \<Longrightarrow> wp m Q E F w"
  by (auto simp: wp_def split: outcome.split)

text \<open>An invariant is kept by a loop if the body keeps it.\<close>

lemma wp_mfold:
  assumes "I w" and "\<And>x w. x \<in> set xs \<Longrightarrow> I w \<Longrightarrow> wp (f x) (\<lambda>_. I) E F w"
  shows "wp (mfold f xs) (\<lambda>_. I) E F w"
  using assms
proof (induction xs arbitrary: w)
  case (Cons x xs)
  have "wp (f x) (\<lambda>_. I) E F w" using Cons.prems by simp
  then show ?case
    unfolding mfold.simps wp_mseq by (rule wp_mono) (use Cons in auto)
qed (simp add: wp_mret)

text \<open>Rules for running a program on a concrete state.\<close>

lemmas run_defs = mret_def mbind_def mseq_def mthrow_def mfault_def mtry_def mnoexcept_def mget_def
  mupd_def mderef_def

end
