(* ===== verification/Olnk_World.thy ===== *)
theory Olnk_World
  imports Olnk_Machine Olnk_Effects
begin

text \<open>
  The state the public API works on: the opaque structs of \<open>src/olnk/api.cpp\<close>
  (\<open>olnk_context\<close>, \<open>olnk_config\<close>, \<open>olnk_session\<close>, \<open>olnk_diagnostic\<close>, \<open>olnk_result\<close>), each kind in a heap of its own,
  the format instances of \<open>src/olnk/format.cpp\<close>, the machine table, the files written, the callback
  invocations, and the initialisation counter.  Addresses are natural numbers from one supply;
  null is \<open>None\<close>.  The environment, fixed for a run, says which allocation (counted by \<open>w_tick\<close>)
  throws, what the file system does and what the Lua registries hold.
\<close>

section \<open>Structs of \<open>api.cpp\<close>\<close>

record DiagnosticStorage =
  diag_severity :: olnk_diagnostic_severity
  diag_message :: string
  diag_file :: string
  diag_line :: u32
  diag_column :: u32

record ResultStorage =
  res_status :: olnk_status
  res_output_path :: string
  res_output_size :: u64
  res_elapsed_ns :: u64
  res_input_count :: u32
  res_warning_count :: u32
  res_error_count :: u32

text \<open>Callbacks and their \<open>user_data\<close> are opaque addresses.\<close>

record olnk_context =
  ctx_log_level :: olnk_log_level
  ctx_log_callback :: "nat option"
  ctx_log_user_data :: "nat option"
  ctx_diag_callback :: "nat option"
  ctx_diag_user_data :: "nat option"
  ctx_options :: "(string \<times> string) list"

record olnk_config =
  cfg_output_path :: string
  cfg_map_path :: string
  cfg_entry_symbol :: string
  cfg_output_kind :: olnk_output_kind
  cfg_format_name :: string
  cfg_machine_name :: string
  cfg_script_path :: string
  cfg_thread_count :: u32
  cfg_incremental :: int
  cfg_debug_info :: int
  cfg_defines :: "(string \<times> string) list"
  cfg_input_files :: "string list"
  cfg_library_paths :: "string list"
  cfg_libraries :: "string list"
  cfg_plugins :: "string list"

record olnk_session =
  ses_context :: "nat option"
  ses_snapshot_config :: olnk_config
  ses_diagnostics :: "nat list"
  ses_options :: "(string \<times> string) list"

definition DiagnosticStorage_default :: DiagnosticStorage where
  "DiagnosticStorage_default = \<lparr>diag_severity = OLNK_DIAGNOSTIC_NOTE, diag_message = [], diag_file = [],
     diag_line = 0, diag_column = 0\<rparr>"

definition ResultStorage_default :: ResultStorage where
  "ResultStorage_default = \<lparr>res_status = OLNK_STATUS_UNKNOWN, res_output_path = [], res_output_size = 0,
     res_elapsed_ns = 0, res_input_count = 0, res_warning_count = 0, res_error_count = 0\<rparr>"

definition olnk_context_default :: olnk_context where
  "olnk_context_default = \<lparr>ctx_log_level = OLNK_LOG_INFO, ctx_log_callback = None, ctx_log_user_data = None,
     ctx_diag_callback = None, ctx_diag_user_data = None, ctx_options = []\<rparr>"

definition olnk_config_default :: olnk_config where
  "olnk_config_default = \<lparr>cfg_output_path = [], cfg_map_path = [], cfg_entry_symbol = [],
     cfg_output_kind = OLNK_OUTPUT_EXECUTABLE, cfg_format_name = [], cfg_machine_name = [],
     cfg_script_path = [], cfg_thread_count = 0, cfg_incremental = 0, cfg_debug_info = 0, cfg_defines = [],
     cfg_input_files = [], cfg_library_paths = [], cfg_libraries = [], cfg_plugins = []\<rparr>"

definition olnk_session_default :: olnk_session where
  "olnk_session_default = \<lparr>ses_context = None, ses_snapshot_config = olnk_config_default,
     ses_diagnostics = [], ses_options = []\<rparr>"

section \<open>The format descriptor (\<open>olnk-format.h\<close>)\<close>

datatype olnk_format_kind =
    OLNK_FORMAT_KIND_UNKNOWN | OLNK_FORMAT_KIND_ELF | OLNK_FORMAT_KIND_PE | OLNK_FORMAT_KIND_MACH_O
  | OLNK_FORMAT_KIND_WASM | OLNK_FORMAT_KIND_RAW_BINARY | OLNK_FORMAT_KIND_CUSTOM

record olnk_format_descriptor =
  fd_abi_version :: u32
  fd_struct_size :: u32
  fd_name :: cstr
  fd_description :: cstr
  fd_vendor :: cstr
  fd_license :: cstr
  fd_version_major :: u32
  fd_version_minor :: u32
  fd_version_patch :: u32
  fd_kind :: olnk_format_kind
  fd_capabilities :: u32
  fd_min_host_api_version :: u32
  fd_max_host_api_version :: u32
  fd_primary_alias :: cstr
  fd_secondary_alias :: cstr

section \<open>Environment and world\<close>

text \<open>A Lua format specification as the bridge of \<open>format.cpp\<close> reads it.\<close>

record lua_format_spec =
  lfs_name :: "string option"
  lfs_kind :: "string option"
  lfs_aliases :: "string option list option"

text \<open>
  \<open>env_alloc\<close>: what allocation number \<open>n\<close> throws.  \<open>env_open_ok\<close>: whether a path can be opened for
  writing.  \<open>env_write_good\<close>: what \<open>good()\<close> answers after writing these bytes; \<open>env_written\<close>: what the
  file holds after the stream is closed.  The two are independent, because a buffered write can
  fail when the buffer is flushed.
\<close>

record env =
  env_alloc :: "nat \<Rightarrow> exn option"
  env_open_ok :: "string \<Rightarrow> bool"
  env_write_good :: "string \<Rightarrow> string \<Rightarrow> bool"
  env_written :: "string \<Rightarrow> string \<Rightarrow> string"
  env_lua_formats :: "lua_format_spec option list option"
  env_lua_machines :: "lua_machine_spec option list option"

datatype event =
    LogEvent nat "nat option" olnk_log_level string
  | DiagEvent nat "nat option" olnk_diagnostic_severity string

record world =
  w_env :: env
  w_tick :: nat
  w_next :: nat
  w_contexts :: "nat \<rightharpoonup> olnk_context"
  w_configs :: "nat \<rightharpoonup> olnk_config"
  w_sessions :: "nat \<rightharpoonup> olnk_session"
  w_diags :: "nat \<rightharpoonup> DiagnosticStorage"
  w_results :: "nat \<rightharpoonup> ResultStorage"
  w_instances :: "nat \<rightharpoonup> olnk_format_descriptor"
  w_events :: "event list"
  w_files :: "string \<rightharpoonup> string"
  w_machines :: "BuiltinMachineRecord list"
  g_initialize_count :: u32

type_synonym 'a api = "('a, world) prog"

definition world_init :: "env \<Rightarrow> world" where
  "world_init e = \<lparr>w_env = e, w_tick = 0, w_next = 0, w_contexts = Map.empty, w_configs = Map.empty,
     w_sessions = Map.empty, w_diags = Map.empty, w_results = Map.empty, w_instances = Map.empty,
     w_events = [], w_files = Map.empty, w_machines = g_builtin_machines, g_initialize_count = 0\<rparr>"

section \<open>Allocation, deletion, access\<close>

text \<open>A point where the standard library may throw.\<close>

definition may_throw :: "unit api" where
  "may_throw w =
     (let w' = w\<lparr>w_tick := Suc (w_tick w)\<rparr>
      in case env_alloc (w_env w) (w_tick w) of None \<Rightarrow> Ret () w' | Some e \<Rightarrow> Exn e w')"

lemma wp_may_throw [wp_rules]:
  "wp may_throw Q E F w =
     (case env_alloc (w_env w) (w_tick w) of None \<Rightarrow> Q () (w\<lparr>w_tick := Suc (w_tick w)\<rparr>)
      | Some e \<Rightarrow> E e (w\<lparr>w_tick := Suc (w_tick w)\<rparr>))"
  by (simp add: wp_def may_throw_def Let_def split: option.split)

definition new_context :: "nat api" where
  "new_context = mseq may_throw (\<lambda>w. Ret (w_next w)
     (w\<lparr>w_next := Suc (w_next w), w_contexts := (w_contexts w)(w_next w \<mapsto> olnk_context_default)\<rparr>))"

definition new_config :: "nat api" where
  "new_config = mseq may_throw (\<lambda>w. Ret (w_next w)
     (w\<lparr>w_next := Suc (w_next w), w_configs := (w_configs w)(w_next w \<mapsto> olnk_config_default)\<rparr>))"

definition new_session :: "nat api" where
  "new_session = mseq may_throw (\<lambda>w. Ret (w_next w)
     (w\<lparr>w_next := Suc (w_next w), w_sessions := (w_sessions w)(w_next w \<mapsto> olnk_session_default)\<rparr>))"

definition new_diagnostic :: "nat api" where
  "new_diagnostic = mseq may_throw (\<lambda>w. Ret (w_next w)
     (w\<lparr>w_next := Suc (w_next w), w_diags := (w_diags w)(w_next w \<mapsto> DiagnosticStorage_default)\<rparr>))"

definition new_result :: "nat api" where
  "new_result = mseq may_throw (\<lambda>w. Ret (w_next w)
     (w\<lparr>w_next := Suc (w_next w), w_results := (w_results w)(w_next w \<mapsto> ResultStorage_default)\<rparr>))"

definition new_instance :: "olnk_format_descriptor \<Rightarrow> nat api" where
  "new_instance d = mseq may_throw (\<lambda>w. Ret (w_next w)
     (w\<lparr>w_next := Suc (w_next w), w_instances := (w_instances w)(w_next w \<mapsto> d)\<rparr>))"

text \<open>\<open>delete p\<close>: nothing for null, undefined behaviour for an address that is not live.\<close>

definition delete_context :: "nat option \<Rightarrow> unit api" where
  "delete_context p = (case p of None \<Rightarrow> mret () | Some a \<Rightarrow>
     mseq (mderef (\<lambda>w. w_contexts w a)) (mupd (\<lambda>w. w\<lparr>w_contexts := (w_contexts w)(a := None)\<rparr>)))"

definition delete_config :: "nat option \<Rightarrow> unit api" where
  "delete_config p = (case p of None \<Rightarrow> mret () | Some a \<Rightarrow>
     mseq (mderef (\<lambda>w. w_configs w a)) (mupd (\<lambda>w. w\<lparr>w_configs := (w_configs w)(a := None)\<rparr>)))"

definition delete_session :: "nat \<Rightarrow> unit api" where
  "delete_session a =
     mseq (mderef (\<lambda>w. w_sessions w a)) (mupd (\<lambda>w. w\<lparr>w_sessions := (w_sessions w)(a := None)\<rparr>))"

definition delete_diagnostic :: "nat \<Rightarrow> unit api" where
  "delete_diagnostic a =
     mseq (mderef (\<lambda>w. w_diags w a)) (mupd (\<lambda>w. w\<lparr>w_diags := (w_diags w)(a := None)\<rparr>))"

definition delete_result :: "nat option \<Rightarrow> unit api" where
  "delete_result p = (case p of None \<Rightarrow> mret () | Some a \<Rightarrow>
     mseq (mderef (\<lambda>w. w_results w a)) (mupd (\<lambda>w. w\<lparr>w_results := (w_results w)(a := None)\<rparr>)))"

definition delete_instance :: "nat option \<Rightarrow> unit api" where
  "delete_instance p = (case p of None \<Rightarrow> mret () | Some a \<Rightarrow>
     mseq (mderef (\<lambda>w. w_instances w a)) (mupd (\<lambda>w. w\<lparr>w_instances := (w_instances w)(a := None)\<rparr>)))"

definition get_context :: "nat \<Rightarrow> olnk_context api" where
  "get_context a = mderef (\<lambda>w. w_contexts w a)"

definition get_config :: "nat \<Rightarrow> olnk_config api" where
  "get_config a = mderef (\<lambda>w. w_configs w a)"

definition get_session :: "nat \<Rightarrow> olnk_session api" where
  "get_session a = mderef (\<lambda>w. w_sessions w a)"

definition get_diagnostic :: "nat \<Rightarrow> DiagnosticStorage api" where
  "get_diagnostic a = mderef (\<lambda>w. w_diags w a)"

definition get_result :: "nat \<Rightarrow> ResultStorage api" where
  "get_result a = mderef (\<lambda>w. w_results w a)"

definition get_instance :: "nat \<Rightarrow> olnk_format_descriptor api" where
  "get_instance a = mderef (\<lambda>w. w_instances w a)"

text \<open>Assignment to a field of a live object.\<close>

definition upd_context :: "nat \<Rightarrow> (olnk_context \<Rightarrow> olnk_context) \<Rightarrow> unit api" where
  "upd_context a f = mbind (get_context a) (\<lambda>x. mupd (\<lambda>w. w\<lparr>w_contexts := (w_contexts w)(a \<mapsto> f x)\<rparr>))"

definition upd_config :: "nat \<Rightarrow> (olnk_config \<Rightarrow> olnk_config) \<Rightarrow> unit api" where
  "upd_config a f = mbind (get_config a) (\<lambda>x. mupd (\<lambda>w. w\<lparr>w_configs := (w_configs w)(a \<mapsto> f x)\<rparr>))"

definition upd_session :: "nat \<Rightarrow> (olnk_session \<Rightarrow> olnk_session) \<Rightarrow> unit api" where
  "upd_session a f = mbind (get_session a) (\<lambda>x. mupd (\<lambda>w. w\<lparr>w_sessions := (w_sessions w)(a \<mapsto> f x)\<rparr>))"

definition upd_diagnostic :: "nat \<Rightarrow> (DiagnosticStorage \<Rightarrow> DiagnosticStorage) \<Rightarrow> unit api" where
  "upd_diagnostic a f = mbind (get_diagnostic a) (\<lambda>x. mupd (\<lambda>w. w\<lparr>w_diags := (w_diags w)(a \<mapsto> f x)\<rparr>))"

definition upd_result :: "nat \<Rightarrow> (ResultStorage \<Rightarrow> ResultStorage) \<Rightarrow> unit api" where
  "upd_result a f = mbind (get_result a) (\<lambda>x. mupd (\<lambda>w. w\<lparr>w_results := (w_results w)(a \<mapsto> f x)\<rparr>))"

definition emit :: "event \<Rightarrow> unit api" where
  "emit e = mupd (\<lambda>w. w\<lparr>w_events := w_events w @ [e]\<rparr>)"

lemmas heap_defs = new_context_def new_config_def new_session_def new_diagnostic_def new_result_def
  new_instance_def delete_context_def delete_config_def delete_session_def delete_diagnostic_def
  delete_result_def delete_instance_def get_context_def get_config_def get_session_def
  get_diagnostic_def get_result_def get_instance_def upd_context_def upd_config_def upd_session_def
  upd_diagnostic_def upd_result_def emit_def

lemma wp_fun [wp_rules]: "wp (\<lambda>w. Ret (f w) (g w)) Q E F w = Q (f w) (g w)"
  by (simp add: wp_def)

end
