(* ===== verification/Olnk_Format.thy ===== *)
theory Olnk_Format
  imports Olnk_World
begin

text \<open>
  The format side: \<open>include/olnk/olnk-format.h\<close> (enumerations, host table, context, vtable and definition
  structs, helpers), \<open>src/olnk/format.cpp\<close> (the four built-in formats, their shared callbacks and
  \<open>olnk_find_format\<close> with its Lua bridge) and \<open>src/olnk/format_serializer.cpp\<close>
  (\<open>run_format_serializer\<close>, which drives any format through its vtable).  A pointer to one of the four
  static definitions is its index.
\<close>

section \<open>\<open>olnk-format.h\<close>\<close>

datatype olnk_format_capability =
    OLNK_FORMAT_CAPABILITY_EXECUTABLE | OLNK_FORMAT_CAPABILITY_SHARED_LIBRARY
  | OLNK_FORMAT_CAPABILITY_RELOCATABLE_OUTPUT | OLNK_FORMAT_CAPABILITY_STATIC_IMAGE
  | OLNK_FORMAT_CAPABILITY_DEBUG_INFO | OLNK_FORMAT_CAPABILITY_TLS
  | OLNK_FORMAT_CAPABILITY_DYNAMIC_LINKING | OLNK_FORMAT_CAPABILITY_IMPORT_EXPORT_TABLES
  | OLNK_FORMAT_CAPABILITY_CUSTOM_SECTIONS | OLNK_FORMAT_CAPABILITY_POSITION_INDEPENDENT
  | OLNK_FORMAT_CAPABILITY_INCREMENTAL_LINK

primrec format_capability_bit :: "olnk_format_capability \<Rightarrow> nat" where
  "format_capability_bit OLNK_FORMAT_CAPABILITY_EXECUTABLE = 0"
| "format_capability_bit OLNK_FORMAT_CAPABILITY_SHARED_LIBRARY = 1"
| "format_capability_bit OLNK_FORMAT_CAPABILITY_RELOCATABLE_OUTPUT = 2"
| "format_capability_bit OLNK_FORMAT_CAPABILITY_STATIC_IMAGE = 3"
| "format_capability_bit OLNK_FORMAT_CAPABILITY_DEBUG_INFO = 4"
| "format_capability_bit OLNK_FORMAT_CAPABILITY_TLS = 5"
| "format_capability_bit OLNK_FORMAT_CAPABILITY_DYNAMIC_LINKING = 6"
| "format_capability_bit OLNK_FORMAT_CAPABILITY_IMPORT_EXPORT_TABLES = 7"
| "format_capability_bit OLNK_FORMAT_CAPABILITY_CUSTOM_SECTIONS = 8"
| "format_capability_bit OLNK_FORMAT_CAPABILITY_POSITION_INDEPENDENT = 9"
| "format_capability_bit OLNK_FORMAT_CAPABILITY_INCREMENTAL_LINK = 10"

definition format_cap :: "olnk_format_capability \<Rightarrow> u32" where
  "format_cap c = push_bit (format_capability_bit c) 1"

datatype olnk_format_image_class =
    OLNK_FORMAT_IMAGE_CLASS_UNKNOWN | OLNK_FORMAT_IMAGE_CLASS_32 | OLNK_FORMAT_IMAGE_CLASS_64

datatype olnk_format_endianness =
    OLNK_FORMAT_ENDIANNESS_UNKNOWN | OLNK_FORMAT_ENDIANNESS_LITTLE | OLNK_FORMAT_ENDIANNESS_BIG

record olnk_format_properties =
  fp_abi_version :: u32
  fp_struct_size :: u32
  fp_kind :: olnk_format_kind
  fp_capabilities :: u32
  fp_image_class :: olnk_format_image_class
  fp_endianness :: olnk_format_endianness
  fp_default_file_alignment :: u64
  fp_default_section_alignment :: u64
  fp_default_page_alignment :: u64
  fp_default_text_section_name :: cstr
  fp_default_data_section_name :: cstr
  fp_default_bss_section_name :: cstr
  fp_default_rodata_section_name :: cstr

record olnk_format_output_info =
  foi_abi_version :: u32
  foi_struct_size :: u32
  foi_output_path :: cstr
  foi_file_size :: u64
  foi_image_base :: u64
  foi_entry_address :: u64
  foi_section_count :: u32
  foi_segment_count :: u32
  foi_output_kind :: olnk_output_kind
  foi_format_kind :: olnk_format_kind

text \<open>The context a format callback gets.  The host's functions read everything of it but the host
  pointer itself, which is therefore added by extension.\<close>

record olnk_format_context_base =
  fctx_linker_context :: "nat option"
  fctx_session :: "nat option"
  fctx_config :: "nat option"

record olnk_format_host =
  fh_abi_version :: u32
  fh_struct_size :: u32
  fh_log :: "(olnk_format_context_base option \<Rightarrow> olnk_log_level \<Rightarrow> cstr \<Rightarrow> unit api) option"
  fh_diagnostic :: "(olnk_format_context_base option \<Rightarrow> olnk_diagnostic_severity \<Rightarrow> cstr \<Rightarrow> unit api) option"
  fh_get_option :: "(olnk_format_context_base option \<Rightarrow> cstr \<Rightarrow> cstr api) option"
  fh_set_option :: "(olnk_format_context_base option \<Rightarrow> cstr \<Rightarrow> cstr \<Rightarrow> olnk_status api) option"
  fh_emit_output :: "(olnk_format_context_base option \<Rightarrow> string option \<Rightarrow> olnk_status api) option"
  fh_emit_aux_file :: "(olnk_format_context_base option \<Rightarrow> cstr \<Rightarrow> string option \<Rightarrow> olnk_status api) option"

record olnk_format_context = olnk_format_context_base +
  fctx_host :: "olnk_format_host option"

definition fctx_base :: "olnk_format_context \<Rightarrow> olnk_format_context_base" where
  "fctx_base c = olnk_format_context_base.truncate c"

record olnk_format_image_view =
  fiv_opaque :: "nat option"
  fiv_opaque_size :: size_t

record olnk_format_vtable =
  fv_abi_version :: u32
  fv_struct_size :: u32
  fv_create :: "(olnk_format_descriptor option \<Rightarrow> nat option option \<Rightarrow> (olnk_status \<times> nat option option) api) option"
  fv_destroy :: "(nat option \<Rightarrow> unit api) option"
  fv_set_option :: "(nat option \<Rightarrow> cstr \<Rightarrow> cstr \<Rightarrow> olnk_status api) option"
  fv_get_properties :: "(nat option \<Rightarrow> olnk_format_properties option \<Rightarrow> (olnk_status \<times> olnk_format_properties option) api) option"
  fv_validate_config :: "(nat option \<Rightarrow> olnk_format_context option \<Rightarrow> olnk_status api) option"
  fv_apply_defaults :: "(nat option \<Rightarrow> olnk_format_context option \<Rightarrow> olnk_status api) option"
  fv_canonicalize_section_name :: "(nat option \<Rightarrow> cstr \<Rightarrow> u32 \<Rightarrow> size_t \<Rightarrow> (olnk_status \<times> cstr) api) option"
  fv_serialize :: "(nat option \<Rightarrow> olnk_format_context option \<Rightarrow> olnk_format_image_view option
     \<Rightarrow> olnk_format_output_info option \<Rightarrow> (olnk_status \<times> olnk_format_output_info option) api) option"
  fv_describe :: "(nat option \<Rightarrow> cstr api) option"

record olnk_format_definition =
  fdef_abi_version :: u32
  fdef_struct_size :: u32
  fdef_descriptor :: "olnk_format_descriptor option"
  fdef_vtable :: "olnk_format_vtable option"

definition OLNK_FORMAT_ABI_VERSION :: u32 where "OLNK_FORMAT_ABI_VERSION = 1"
definition sizeof_olnk_format_descriptor :: u32 where "sizeof_olnk_format_descriptor = 104"
definition sizeof_olnk_format_properties :: u32 where "sizeof_olnk_format_properties = 96"
definition sizeof_olnk_format_output_info :: u32 where "sizeof_olnk_format_output_info = 64"
definition sizeof_olnk_format_definition :: u32 where "sizeof_olnk_format_definition = 48"
definition sizeof_olnk_format_vtable :: u32 where "sizeof_olnk_format_vtable = 112"
definition sizeof_olnk_format_host :: u32 where "sizeof_olnk_format_host = 88"

definition olnk_format_make_version :: "u32 \<Rightarrow> u32 \<Rightarrow> u32 \<Rightarrow> u32" where
  "olnk_format_make_version major minor patch =
     push_bit 22 (major AND 0x3FF) OR push_bit 12 (minor AND 0x3FF) OR push_bit 0 (patch AND 0xFFF)"

definition olnk_format_capability_test :: "u32 \<Rightarrow> u32 \<Rightarrow> bool" where
  "olnk_format_capability_test capabilities capability = (capabilities AND capability = capability)"

text \<open>All-zero structs, as \<open>memset\<close> and value initialisation leave them.\<close>

definition format_output_info_zero :: olnk_format_output_info where
  "format_output_info_zero = \<lparr>foi_abi_version = 0, foi_struct_size = 0, foi_output_path = None,
     foi_file_size = 0, foi_image_base = 0, foi_entry_address = 0, foi_section_count = 0,
     foi_segment_count = 0, foi_output_kind = OLNK_OUTPUT_EXECUTABLE,
     foi_format_kind = OLNK_FORMAT_KIND_UNKNOWN\<rparr>"

definition format_properties_zero :: olnk_format_properties where
  "format_properties_zero = \<lparr>fp_abi_version = 0, fp_struct_size = 0, fp_kind = OLNK_FORMAT_KIND_UNKNOWN,
     fp_capabilities = 0, fp_image_class = OLNK_FORMAT_IMAGE_CLASS_UNKNOWN,
     fp_endianness = OLNK_FORMAT_ENDIANNESS_UNKNOWN, fp_default_file_alignment = 0,
     fp_default_section_alignment = 0, fp_default_page_alignment = 0, fp_default_text_section_name = None,
     fp_default_data_section_name = None, fp_default_bss_section_name = None,
     fp_default_rodata_section_name = None\<rparr>"

section \<open>The built-in callbacks of \<open>format.cpp\<close>\<close>

definition status_of_exn :: "exn \<Rightarrow> olnk_status" where
  "status_of_exn e = (case e of BadAlloc \<Rightarrow> OLNK_STATUS_OUT_OF_MEMORY | OtherExn \<Rightarrow> OLNK_STATUS_INTERNAL_ERROR)"

definition builtin_create ::
    "olnk_format_descriptor option \<Rightarrow> nat option option \<Rightarrow> (olnk_status \<times> nat option option) api" where
  "builtin_create descriptor out_instance =
     (case (descriptor, out_instance) of
        (Some d, Some _) \<Rightarrow>
          mtry (mbind (new_instance d) (\<lambda>inst. mret (OLNK_STATUS_OK, Some (Some inst))))
            (\<lambda>e. mret (status_of_exn e, Some None))
      | _ \<Rightarrow> mret (OLNK_STATUS_INVALID_ARGUMENT, out_instance))"

definition builtin_destroy :: "nat option \<Rightarrow> unit api" where
  "builtin_destroy inst = delete_instance inst"

definition builtin_get_properties ::
    "nat option \<Rightarrow> olnk_format_properties option \<Rightarrow> (olnk_status \<times> olnk_format_properties option) api" where
  "builtin_get_properties inst out_properties =
     (case (inst, out_properties) of
        (Some a, Some _) \<Rightarrow>
          mbind (get_instance a) (\<lambda>descriptor.
            mret (OLNK_STATUS_OK, Some (format_properties_zero
              \<lparr>fp_abi_version := OLNK_FORMAT_ABI_VERSION, fp_struct_size := sizeof_olnk_format_properties,
               fp_kind := fd_kind descriptor, fp_capabilities := fd_capabilities descriptor,
               fp_image_class := OLNK_FORMAT_IMAGE_CLASS_64, fp_endianness := OLNK_FORMAT_ENDIANNESS_LITTLE\<rparr>)))
      | _ \<Rightarrow> mret (OLNK_STATUS_INVALID_ARGUMENT, out_properties))"

definition builtin_validate_config :: "nat option \<Rightarrow> olnk_format_context option \<Rightarrow> olnk_status api" where
  "builtin_validate_config inst context =
     (case (inst, context) of
        (Some _, Some c) \<Rightarrow>
          mret (if fctx_config c = None then OLNK_STATUS_INVALID_ARGUMENT else OLNK_STATUS_OK)
      | _ \<Rightarrow> mret OLNK_STATUS_INVALID_ARGUMENT)"

definition builtin_payload :: "olnk_format_descriptor \<Rightarrow> string" where
  "builtin_payload d =
     ''OLNK'' @ [CHR 0x0A] @ ''format='' @ (case fd_name d of Some n \<Rightarrow> n | None \<Rightarrow> ''unknown'') @ [CHR 0x0A]"

definition builtin_serialize ::
    "nat option \<Rightarrow> olnk_format_context option \<Rightarrow> olnk_format_image_view option \<Rightarrow> olnk_format_output_info option
     \<Rightarrow> (olnk_status \<times> olnk_format_output_info option) api" where
  "builtin_serialize inst context image_view out_info =
     (case (inst, context, image_view, out_info) of
        (Some a, Some c, Some _, Some _) \<Rightarrow>
          (case fctx_host c of
             None \<Rightarrow> mret (OLNK_STATUS_INVALID_ARGUMENT, out_info)
           | Some host \<Rightarrow>
              (case fh_emit_output host of
                 None \<Rightarrow> mret (OLNK_STATUS_INVALID_ARGUMENT, out_info)
               | Some emit_output \<Rightarrow>
                  mnoexcept (mbind (get_instance a) (\<lambda>descriptor.
                    mseq may_throw
                    (mbind (emit_output (Some (fctx_base c)) (Some (builtin_payload descriptor))) (\<lambda>emit_status.
                      if emit_status \<noteq> OLNK_STATUS_OK then mret (emit_status, out_info)
                      else mret (OLNK_STATUS_OK, Some (format_output_info_zero
                        \<lparr>foi_abi_version := OLNK_FORMAT_ABI_VERSION,
                         foi_struct_size := sizeof_olnk_format_output_info,
                         foi_format_kind := fd_kind descriptor,
                         foi_file_size := of_nat (length (builtin_payload descriptor)),
                         foi_output_kind := OLNK_OUTPUT_EXECUTABLE\<rparr>))))))))
      | _ \<Rightarrow> mret (OLNK_STATUS_INVALID_ARGUMENT, out_info))"

definition g_builtin_format_vtable :: olnk_format_vtable where
  "g_builtin_format_vtable =
     \<lparr>fv_abi_version = OLNK_FORMAT_ABI_VERSION, fv_struct_size = sizeof_olnk_format_vtable,
      fv_create = Some builtin_create, fv_destroy = Some builtin_destroy, fv_set_option = None,
      fv_get_properties = Some builtin_get_properties, fv_validate_config = Some builtin_validate_config,
      fv_apply_defaults = None, fv_canonicalize_section_name = None, fv_serialize = Some builtin_serialize,
      fv_describe = None\<rparr>"

definition builtin_format_desc ::
    "string \<Rightarrow> string \<Rightarrow> olnk_format_kind \<Rightarrow> u32 \<Rightarrow> string \<Rightarrow> string \<Rightarrow> olnk_format_descriptor" where
  "builtin_format_desc name description kind caps alias1 alias2 =
     \<lparr>fd_abi_version = OLNK_FORMAT_ABI_VERSION, fd_struct_size = sizeof_olnk_format_descriptor,
      fd_name = Some name, fd_description = Some description, fd_vendor = Some ''olnk'',
      fd_license = Some ''internal'', fd_version_major = 1, fd_version_minor = 0, fd_version_patch = 0,
      fd_kind = kind, fd_capabilities = caps, fd_min_host_api_version = 0, fd_max_host_api_version = 0,
      fd_primary_alias = Some alias1, fd_secondary_alias = Some alias2\<rparr>"

definition g_elf_desc :: olnk_format_descriptor where
  "g_elf_desc = builtin_format_desc ''ELF'' ''Builtin ELF format'' OLNK_FORMAT_KIND_ELF
     (format_cap OLNK_FORMAT_CAPABILITY_EXECUTABLE OR format_cap OLNK_FORMAT_CAPABILITY_RELOCATABLE_OUTPUT)
     ''elf'' ''native''"

definition g_pe_desc :: olnk_format_descriptor where
  "g_pe_desc = builtin_format_desc ''PE'' ''Builtin PE format'' OLNK_FORMAT_KIND_PE
     (format_cap OLNK_FORMAT_CAPABILITY_EXECUTABLE OR format_cap OLNK_FORMAT_CAPABILITY_SHARED_LIBRARY)
     ''pe'' ''coff''"

definition g_macho_desc :: olnk_format_descriptor where
  "g_macho_desc = builtin_format_desc ''Mach-O'' ''Builtin Mach-O format'' OLNK_FORMAT_KIND_MACH_O
     (format_cap OLNK_FORMAT_CAPABILITY_EXECUTABLE) ''mach-o'' ''macho''"

definition g_wasm_desc :: olnk_format_descriptor where
  "g_wasm_desc = builtin_format_desc ''WASM'' ''Builtin WASM format'' OLNK_FORMAT_KIND_WASM
     (format_cap OLNK_FORMAT_CAPABILITY_RELOCATABLE_OUTPUT) ''wasm'' ''wasm32''"

definition builtin_format_def :: "olnk_format_descriptor \<Rightarrow> olnk_format_definition" where
  "builtin_format_def d = \<lparr>fdef_abi_version = OLNK_FORMAT_ABI_VERSION,
     fdef_struct_size = sizeof_olnk_format_definition, fdef_descriptor = Some d,
     fdef_vtable = Some g_builtin_format_vtable\<rparr>"

text \<open>\<open>kStaticFormats\<close>: \<open>g_elf_def\<close>, \<open>g_pe_def\<close>, \<open>g_macho_def\<close>, \<open>g_wasm_def\<close>.\<close>

definition kStaticFormats :: "olnk_format_definition list" where
  "kStaticFormats = map builtin_format_def [g_elf_desc, g_pe_desc, g_macho_desc, g_wasm_desc]"

section \<open>Lookup\<close>

definition olnk_format_definition_is_usable :: "olnk_format_definition \<Rightarrow> bool" where
  "olnk_format_definition_is_usable def \<longleftrightarrow> fdef_descriptor def \<noteq> None"

definition olnk_format_matches_name :: "olnk_format_definition \<Rightarrow> string \<Rightarrow> bool" where
  "olnk_format_matches_name def name =
     (case fdef_descriptor def of None \<Rightarrow> False
      | Some desc \<Rightarrow>
         if olnk_ascii_case_equal (fd_name desc) (Some name) then True
         else if olnk_ascii_case_equal (fd_primary_alias desc) (Some name) then True
         else if olnk_ascii_case_equal (fd_secondary_alias desc) (Some name) then True
         else False)"

text \<open>The kind string of a Lua specification mapped to a static definition.\<close>

definition lua_kind_format :: "lua_format_spec \<Rightarrow> nat option" where
  "lua_kind_format spec =
     (case lfs_kind spec of None \<Rightarrow> None
      | Some kind \<Rightarrow>
         if olnk_ascii_case_equal (Some (c_str kind)) (Some ''elf'') then Some 0
         else if olnk_ascii_case_equal (Some (c_str kind)) (Some ''pe'') then Some 1
         else if olnk_ascii_case_equal (Some (c_str kind)) (Some ''mach-o'') then Some 2
         else if olnk_ascii_case_equal (Some (c_str kind)) (Some ''wasm'') then Some 3
         else None)"

fun lookup_lua_format_loop :: "string \<Rightarrow> lua_format_spec option list \<Rightarrow> nat option" where
  "lookup_lua_format_loop needle [] = None"
| "lookup_lua_format_loop needle (None # specs) = lookup_lua_format_loop needle specs"
| "lookup_lua_format_loop needle (Some spec # specs) =
     (if (case lfs_name spec of Some n \<Rightarrow> olnk_ascii_case_equal (Some (c_str n)) (Some needle) | None \<Rightarrow> False)
      then lua_kind_format spec
      else case lfs_aliases spec of
        None \<Rightarrow> lookup_lua_format_loop needle specs
      | Some as \<Rightarrow>
          if list_ex (\<lambda>a. case a of Some s \<Rightarrow> olnk_ascii_case_equal (Some (c_str s)) (Some needle)
                                | None \<Rightarrow> False) as
          then lua_kind_format spec
          else lookup_lua_format_loop needle specs)"

definition lookup_lua_format_definition :: "lua_format_spec option list option \<Rightarrow> string \<Rightarrow> nat option" where
  "lookup_lua_format_definition registry needle =
     (case registry of None \<Rightarrow> None | Some specs \<Rightarrow> lookup_lua_format_loop needle specs)"

definition olnk_format_count :: size_t where
  "olnk_format_count = of_nat (length kStaticFormats)"

definition olnk_format_at :: "size_t \<Rightarrow> nat option" where
  "olnk_format_at index =
     (if of_nat (length kStaticFormats) \<le> index then None
      else if \<not> olnk_format_definition_is_usable (kStaticFormats ! unat index) then None
      else Some (unat index))"

definition olnk_find_format :: "lua_format_spec option list option \<Rightarrow> cstr \<Rightarrow> nat option" where
  "olnk_find_format registry name =
     (case name of None \<Rightarrow> None
      | Some n \<Rightarrow>
         if n = [] then None
         else case first_match (\<lambda>def. olnk_format_matches_name def n) 0 kStaticFormats of
           Some i \<Rightarrow> Some i
         | None \<Rightarrow> lookup_lua_format_definition registry n)"

section \<open>\<open>format_serializer.cpp\<close>\<close>

definition has_minimum_definition :: "olnk_format_definition \<Rightarrow> bool" where
  "has_minimum_definition def = (case fdef_vtable def of None \<Rightarrow> False | Some v \<Rightarrow> fv_serialize v \<noteq> None)"

definition initialize_output_info :: "olnk_format_output_info option \<Rightarrow> olnk_format_output_info option" where
  "initialize_output_info out_info =
     map_option (\<lambda>_. format_output_info_zero\<lparr>foi_abi_version := OLNK_FORMAT_ABI_VERSION,
                       foi_struct_size := sizeof_olnk_format_output_info\<rparr>) out_info"

text \<open>Calls through the vtable: \<open>destroy\<close> is called without a null test.\<close>

definition vtable_destroy :: "olnk_format_vtable \<Rightarrow> nat option \<Rightarrow> unit api" where
  "vtable_destroy v inst = (case fv_destroy v of None \<Rightarrow> mfault UndefinedBehaviour | Some f \<Rightarrow> f inst)"

definition vtable_serialize ::
    "olnk_format_vtable \<Rightarrow> nat option \<Rightarrow> olnk_format_context \<Rightarrow> olnk_format_image_view \<Rightarrow> olnk_format_output_info option
     \<Rightarrow> (olnk_status \<times> olnk_format_output_info option) api" where
  "vtable_serialize v inst context image_view out_info =
     (case fv_serialize v of None \<Rightarrow> mfault UndefinedBehaviour
      | Some f \<Rightarrow> f inst (Some context) (Some image_view) out_info)"

text \<open>The three stages after \<open>create\<close>, each ending in \<open>destroy\<close> on its error exit.\<close>

definition serializer_serialize ::
    "olnk_format_vtable \<Rightarrow> olnk_format_context \<Rightarrow> olnk_format_image_view \<Rightarrow> olnk_format_output_info option
     \<Rightarrow> nat option \<Rightarrow> (olnk_status \<times> olnk_format_output_info option) api" where
  "serializer_serialize v c iv out_info inst =
     mbind (vtable_serialize v inst c iv out_info) (\<lambda>(serialize_status, out_info').
     mseq (vtable_destroy v inst) (mret (serialize_status, out_info')))"

definition serializer_validate ::
    "olnk_format_vtable \<Rightarrow> olnk_format_context \<Rightarrow> olnk_format_image_view \<Rightarrow> olnk_format_output_info option
     \<Rightarrow> nat option \<Rightarrow> (olnk_status \<times> olnk_format_output_info option) api" where
  "serializer_validate v c iv out_info inst =
     mbind (case fv_validate_config v of None \<Rightarrow> mret OLNK_STATUS_OK
            | Some validate_config \<Rightarrow> validate_config inst (Some c)) (\<lambda>validate_status.
     if validate_status \<noteq> OLNK_STATUS_OK
     then mseq (vtable_destroy v inst) (mret (validate_status, out_info))
     else serializer_serialize v c iv out_info inst)"

definition serializer_defaults ::
    "olnk_format_vtable \<Rightarrow> olnk_format_context \<Rightarrow> olnk_format_image_view \<Rightarrow> olnk_format_output_info option
     \<Rightarrow> nat option \<Rightarrow> (olnk_status \<times> olnk_format_output_info option) api" where
  "serializer_defaults v c iv out_info inst =
     mbind (case fv_apply_defaults v of None \<Rightarrow> mret OLNK_STATUS_OK
            | Some apply_defaults \<Rightarrow> apply_defaults inst (Some c)) (\<lambda>defaults_status.
     if defaults_status \<noteq> OLNK_STATUS_OK \<and> defaults_status \<noteq> OLNK_STATUS_NOT_IMPLEMENTED
     then mseq (vtable_destroy v inst) (mret (defaults_status, out_info))
     else serializer_validate v c iv out_info inst)"

definition run_format_serializer ::
    "olnk_format_definition option \<Rightarrow> olnk_format_context option \<Rightarrow> olnk_format_image_view option
     \<Rightarrow> olnk_format_output_info option \<Rightarrow> (olnk_status \<times> olnk_format_output_info option) api" where
  "run_format_serializer def context image_view out_info0 =
     (let out_info = initialize_output_info out_info0 in
      case (def, context, image_view, out_info) of
        (Some d, Some c, Some iv, Some _) \<Rightarrow>
          if \<not> has_minimum_definition d then mret (OLNK_STATUS_INVALID_ARGUMENT, out_info)
          else (case fdef_vtable d of
            None \<Rightarrow> mret (OLNK_STATUS_INVALID_ARGUMENT, out_info)
          | Some v \<Rightarrow>
              mbind (case fv_create v of
                       None \<Rightarrow> mret (OLNK_STATUS_OK, None)
                     | Some create \<Rightarrow>
                         mbind (create (fdef_descriptor d) (Some None)) (\<lambda>(st, inst).
                           mret (st, case inst of None \<Rightarrow> None | Some i \<Rightarrow> i)))
                (\<lambda>(create_status, inst).
                  if create_status \<noteq> OLNK_STATUS_OK then mret (create_status, out_info)
                  else if inst = None then mret (OLNK_STATUS_FORMAT_ERROR, out_info)
                  else serializer_defaults v c iv out_info inst))
      | _ \<Rightarrow> mret (OLNK_STATUS_INVALID_ARGUMENT, out_info))"

lemmas serializer_defs = run_format_serializer_def serializer_defaults_def serializer_validate_def
  serializer_serialize_def vtable_destroy_def vtable_serialize_def

section \<open>Lookup properties\<close>

definition format_names :: "olnk_format_definition \<Rightarrow> cstr list" where
  "format_names def = (case fdef_descriptor def of None \<Rightarrow> []
     | Some d \<Rightarrow> [fd_name d, fd_primary_alias d, fd_secondary_alias d])"

lemma olnk_format_matches_name_iff:
  "olnk_format_matches_name def n \<longleftrightarrow> (\<exists>s. Some s \<in> set (format_names def) \<and> fold_case s = fold_case n)"
proof (cases "fdef_descriptor def")
  case (Some d)
  then show ?thesis
    unfolding olnk_format_matches_name_def format_names_def list_ex_iequals [symmetric]
    by (simp del: cstr_iequals_ascii_iff olnk_ascii_case_equal_iff add: case_comparisons_agree)
qed (simp add: olnk_format_matches_name_def format_names_def)

interpretation format_reg: name_registry kStaticFormats format_names olnk_format_matches_name
  "\<lambda>n. first_match (\<lambda>def. olnk_format_matches_name def n) 0 kStaticFormats"
  by unfold_locales (rule olnk_format_matches_name_iff, rule refl)

lemma format_names_table:
  "map format_names kStaticFormats =
     [[Some ''ELF'', Some ''elf'', Some ''native''], [Some ''PE'', Some ''pe'', Some ''coff''],
      [Some ''Mach-O'', Some ''mach-o'', Some ''macho''], [Some ''WASM'', Some ''wasm'', Some ''wasm32'']]"
  by (simp add: kStaticFormats_def format_names_def builtin_format_def_def builtin_format_desc_def
      g_elf_desc_def g_pe_desc_def g_macho_desc_def g_wasm_desc_def)

lemma registry_entries_map: "registry_entries names es = registry_entries id (map names es)"
  by (simp add: registry_entries_def zip_map2 comp_def case_prod_beta split_def)

lemma format_entries_distinct: "distinct (map snd (registry_entries format_names kStaticFormats))"
proof -
  have "distinct (map snd (registry_entries id
     [[Some ''ELF'', Some ''elf'', Some ''native''], [Some ''PE'', Some ''pe'', Some ''coff''],
      [Some ''Mach-O'', Some ''mach-o'', Some ''macho''], [Some ''WASM'', Some ''wasm'', Some ''wasm32'']]))"
    by code_simp
  then show ?thesis by (simp add: registry_entries_map [of format_names] format_names_table del: map_map)
qed

lemma length_kStaticFormats: "length kStaticFormats = 4"
  by (simp add: kStaticFormats_def)

lemmas format_find_own = format_reg.find_own_name [OF format_entries_distinct, unfolded length_kStaticFormats]

lemma lua_format_case:
  "fold_case m = fold_case n \<Longrightarrow> lookup_lua_format_loop m specs = lookup_lua_format_loop n specs"
  by (induction m specs rule: lookup_lua_format_loop.induct) (simp_all split: option.splits)

text \<open>Every name and alias of a built-in format, in any letter case, finds the format that lists it,
  whatever the Lua registry holds; and the lookup never depends on the case of its argument.\<close>

theorem olnk_find_format_complete:
  assumes "fold_case m = fold_case n" "n \<noteq> []"
  shows "olnk_find_format registry (Some m) = olnk_find_format registry (Some n) \<and>
    (\<forall>i < 4. Some n \<in> set (format_names (kStaticFormats ! i)) \<longrightarrow> olnk_find_format registry (Some m) = Some i)"
proof -
  have "m \<noteq> []" using assms by (auto simp: fold_case_def)
  then show ?thesis
    using assms format_find_own [of _ n m] format_reg.find_case_insensitive [OF assms(1)] lua_format_case [OF assms(1)]
    by (auto simp: olnk_find_format_def lookup_lua_format_definition_def split: option.splits)
qed

theorem olnk_find_format_complete_witness: "\<forall>registry. olnk_find_format registry (Some ''Coff'') = Some 1"
proof -
  have "fold_case ''Coff'' = fold_case ''coff''" by code_simp
  moreover have "Some ''coff'' \<in> set (format_names (kStaticFormats ! 1))"
    by (simp add: kStaticFormats_def format_names_def builtin_format_def_def builtin_format_desc_def g_pe_desc_def)
  ultimately show ?thesis using olnk_find_format_complete [of "''Coff''" "''coff''"] by (metis list.distinct(1) one_less_numeral_iff semiring_norm(76))
qed

section \<open>The life of a format instance\<close>

text \<open>A call that returns leaves the format instances as they were.\<close>

definition keeps_instances :: "'a api \<Rightarrow> bool" where
  "keeps_instances m \<longleftrightarrow> (\<forall>w x w'. m w = Ret x w' \<longrightarrow> w_instances w' = w_instances w)"

text \<open>
  What \<open>run_format_serializer\<close> relies on in a format: a successful \<open>create\<close> makes one new instance and a
  failed one none, \<open>destroy\<close> removes exactly its argument, and the other callbacks leave the instances
  alone in the contexts they are used in.
\<close>

locale format_lifecycle =
  fixes def :: olnk_format_definition and vt :: olnk_format_vtable
    and create :: "olnk_format_descriptor option \<Rightarrow> nat option option \<Rightarrow> (olnk_status \<times> nat option option) api"
    and destroy :: "nat option \<Rightarrow> unit api"
    and ok_ctx :: "olnk_format_context \<Rightarrow> bool"
  assumes vtable: "fdef_vtable def = Some vt" "fv_create vt = Some create" "fv_destroy vt = Some destroy"
    and create_ok: "w_instances w (w_next w) = None \<Longrightarrow>
      create (fdef_descriptor def) (Some None) w = Ret (OLNK_STATUS_OK, Some (Some a)) w1 \<Longrightarrow>
      w_instances w a = None \<and> (\<exists>x. w_instances w1 = (w_instances w)(a \<mapsto> x))"
    and create_fail: "create (fdef_descriptor def) (Some None) w = Ret (st, out) w1 \<Longrightarrow>
      st \<noteq> OLNK_STATUS_OK \<or> out = None \<or> out = Some None \<Longrightarrow> w_instances w1 = w_instances w"
    and destroy_removes: "destroy (Some a) w = Ret () w1 \<Longrightarrow> w_instances w1 = (w_instances w)(a := None)"
    and defaults_keep: "ok_ctx c \<Longrightarrow> fv_apply_defaults vt = Some f \<Longrightarrow> keeps_instances (f inst (Some c))"
    and validate_keep: "ok_ctx c \<Longrightarrow> fv_validate_config vt = Some f' \<Longrightarrow> keeps_instances (f' inst (Some c))"
    and serialize_keep: "ok_ctx c \<Longrightarrow> fv_serialize vt = Some f'' \<Longrightarrow> keeps_instances (f'' inst (Some c) iv oi)"
begin

abbreviation "wpr m Q \<equiv> wp m Q (\<lambda>_ _. True) (\<lambda>_. True)"

lemma wp_keep_bind:
  assumes "keeps_instances m" "\<And>x v'. w_instances v' = w_instances v \<Longrightarrow> wpr (k x) Q v'"
  shows "wpr (mbind m k) Q v"
  unfolding wp_mbind using assms by (auto simp: keeps_instances_def wp_def [of m] split: outcome.split)

lemma keeps_option:
  assumes "\<And>f. p = Some f \<Longrightarrow> keeps_instances (f inst (Some c))"
  shows "keeps_instances (case p of None \<Rightarrow> mret x | Some f \<Rightarrow> f inst (Some c))"
  using assms by (auto simp: keeps_instances_def mret_def split: option.split)

lemma destroy_restores:
  assumes "w_instances v = H(a \<mapsto> x)" "H a = None"
  shows "wpr (mseq (vtable_destroy vt (Some a)) (mret y)) (\<lambda>_ w'. w_instances w' = H) v"
  using assms destroy_removes [of a v]
  by (auto simp: wp_def run_defs vtable_destroy_def vtable split: outcome.splits)

lemma serialize_restores:
  assumes "ok_ctx c" "fv_serialize vt = Some f" "w_instances v = H(a \<mapsto> x)" "H a = None"
  shows "wpr (serializer_serialize vt c iv info (Some a)) (\<lambda>_ w'. w_instances w' = H) v"
  unfolding serializer_serialize_def
  by (rule wp_keep_bind)
    (use assms serialize_keep in \<open>auto simp: vtable_serialize_def split: prod.split intro: destroy_restores\<close>)

lemma validate_restores:
  assumes "ok_ctx c" "fv_serialize vt = Some f" "w_instances v = H(a \<mapsto> x)" "H a = None"
  shows "wpr (serializer_validate vt c iv info (Some a)) (\<lambda>_ w'. w_instances w' = H) v"
  unfolding serializer_validate_def
  by (rule wp_keep_bind [OF keeps_option])
    (use assms validate_keep in \<open>auto intro: destroy_restores serialize_restores\<close>)

lemma defaults_restores:
  assumes "ok_ctx c" "fv_serialize vt = Some f" "w_instances v = H(a \<mapsto> x)" "H a = None"
  shows "wpr (serializer_defaults vt c iv info (Some a)) (\<lambda>_ w'. w_instances w' = H) v"
  unfolding serializer_defaults_def
  by (rule wp_keep_bind [OF keeps_option])
    (use assms defaults_keep in \<open>auto intro: destroy_restores validate_restores\<close>)

text \<open>Every path that returns, the four error exits included, has destroyed what it created.\<close>

lemma no_leak:
  assumes ctx: "ok_ctx c" and free: "w_instances w (w_next w) = None"
  shows "wpr (run_format_serializer (Some def) (Some c) (Some iv) (Some oi)) (\<lambda>_ w'. w_instances w' = w_instances w) w"
proof (cases "fv_serialize vt")
  case None
  then show ?thesis
    by (simp add: run_format_serializer_def initialize_output_info_def has_minimum_definition_def vtable wp_rules Let_def)
next
  case (Some ser)
  let ?post = "\<lambda>_ w'. w_instances w' = w_instances w"
  have made: "wpr (create (fdef_descriptor def) (Some None)) (\<lambda>(st, inst) v.
      if st \<noteq> OLNK_STATUS_OK \<or> inst = None \<or> inst = Some None then ?post () v
      else wpr (serializer_defaults vt c iv info (the inst)) ?post v) w" for info
  proof (cases "create (fdef_descriptor def) (Some None) w")
    case (Ret r v)
    obtain st inst where r: "r = (st, inst)" by fastforce
    show ?thesis
    proof (cases "st \<noteq> OLNK_STATUS_OK \<or> inst = None \<or> inst = Some None")
      case True
      then show ?thesis using create_fail [of w st inst v] Ret r by (simp add: wp_def)
    next
      case False
      then obtain a where inst: "st = OLNK_STATUS_OK" "inst = Some (Some a)" by (cases inst) auto
      then obtain x where "w_instances v = (w_instances w)(a \<mapsto> x)" "w_instances w a = None"
        using create_ok [OF free, of a v] Ret r by blast
      then show ?thesis
        using defaults_restores [OF ctx Some] Ret r inst by (simp add: wp_def [of "create _ _"])
    qed
  qed (simp_all add: wp_def)
  show ?thesis
    using Some
    by (simp add: run_format_serializer_def initialize_output_info_def has_minimum_definition_def vtable wp_rules Let_def,
        intro wp_mono [OF made]) (auto simp: wp_rules split: if_splits option.splits)
qed

end

text \<open>The host table's \<open>emit_output\<close> leaves the format instances alone.\<close>

definition host_keeps :: "olnk_format_context \<Rightarrow> bool" where
  "host_keeps c \<longleftrightarrow> (\<forall>host emit_output b bytes. fctx_host c = Some host \<longrightarrow> fh_emit_output host = Some emit_output \<longrightarrow>
     keeps_instances (emit_output b bytes))"

lemma keeps_builtin_serialize:
  assumes "host_keeps c"
  shows "keeps_instances (builtin_serialize inst (Some c) iv oi)"
  unfolding keeps_instances_def
proof (intro allI impI)
  fix w x w' assume run: "builtin_serialize inst (Some c) iv oi w = Ret x w'"
  have emit: "w_instances v' = w_instances v"
    if "fctx_host c = Some host" "fh_emit_output host = Some f" "f b bytes v = Ret st v'" for host f b bytes v st v'
    using assms that by (auto simp: host_keeps_def keeps_instances_def)
  show "w_instances w' = w_instances w"
    using run by (auto simp: builtin_serialize_def heap_defs run_defs may_throw_def Let_def dest!: emit
        split: option.splits outcome.splits if_splits)
qed

text \<open>Each of the four built-in formats meets the contract.\<close>

lemma builtin_format_lifecycle:
  "format_lifecycle (builtin_format_def d) g_builtin_format_vtable builtin_create builtin_destroy host_keeps"
proof
  show "keeps_instances (f inst (Some c))"
    if "fv_validate_config g_builtin_format_vtable = Some f" for f inst c
    using that by (auto simp: g_builtin_format_vtable_def builtin_validate_config_def keeps_instances_def mret_def split: option.splits)
  show "keeps_instances (f inst (Some c) iv oi)"
    if "host_keeps c" "fv_serialize g_builtin_format_vtable = Some f" for f inst c iv oi
    using that keeps_builtin_serialize by (auto simp: g_builtin_format_vtable_def)
qed (auto simp: builtin_format_def_def g_builtin_format_vtable_def builtin_create_def builtin_destroy_def
    heap_defs run_defs may_throw_def Let_def status_of_exn_def split: option.splits outcome.splits if_splits exn.splits)

interpretation elf_format: format_lifecycle "builtin_format_def g_elf_desc" g_builtin_format_vtable builtin_create builtin_destroy host_keeps
  by (rule builtin_format_lifecycle)

interpretation pe_format: format_lifecycle "builtin_format_def g_pe_desc" g_builtin_format_vtable builtin_create builtin_destroy host_keeps
  by (rule builtin_format_lifecycle)

interpretation macho_format: format_lifecycle "builtin_format_def g_macho_desc" g_builtin_format_vtable builtin_create builtin_destroy host_keeps
  by (rule builtin_format_lifecycle)

interpretation wasm_format: format_lifecycle "builtin_format_def g_wasm_desc" g_builtin_format_vtable builtin_create builtin_destroy host_keeps
  by (rule builtin_format_lifecycle)

text \<open>C32: For every format that keeps to the lifecycle contract (a successful \<open>create\<close> makes one new instance and a failed one none, \<open>destroy\<close> removes
  exactly its argument, the other callbacks leave the instances alone in the contexts that \<open>ok\<close> describes), with any callbacks for defaults, validation and serialisation and whatever they
  return, each way \<open>run_format_serializer\<close> returns (a null argument, or success or failure of creation, defaults, validation or serialisation) has destroyed the instance it
  created and touched no other.  The four built-in formats meet the contract when the host's output function leaves instances alone.\<close>

theorem serializer_no_instance_leak:
  assumes "format_lifecycle def vt create destroy ok" "ok c" "w_instances w (w_next w) = None"
    and "run_format_serializer (Some def) (Some c) iv oi w = Ret r w'"
  shows "w_instances w' = w_instances w"
proof (cases "iv = None \<or> oi = None")
  case True
  then show ?thesis using assms(4)
    by (cases oi; cases iv) (auto simp: run_format_serializer_def initialize_output_info_def mret_def Let_def)
next
  case False
  then show ?thesis using wp_Ret [OF format_lifecycle.no_leak [OF assms(1-3)]] assms(4) by (cases r) auto
qed

text \<open>A context whose host accepts every output, and an environment where nothing fails.\<close>

definition accepting_context :: olnk_format_context where
  "accepting_context = \<lparr>fctx_linker_context = None, fctx_session = None, fctx_config = Some 0,
     fctx_host = Some \<lparr>fh_abi_version = 1, fh_struct_size = sizeof_olnk_format_host, fh_log = None, fh_diagnostic = None,
       fh_get_option = None, fh_set_option = None, fh_emit_output = Some (\<lambda>_ _. mret OLNK_STATUS_OK),
       fh_emit_aux_file = None\<rparr>\<rparr>"

definition plain_env :: env where
  "plain_env = \<lparr>env_alloc = (\<lambda>_. None), env_open_ok = (\<lambda>_. True), env_write_good = (\<lambda>_ _. True),
     env_written = (\<lambda>_ b. b), env_lua_formats = None, env_lua_machines = None\<rparr>"

text \<open>A format whose defaults fail.\<close>

definition picky_vtable :: olnk_format_vtable where
  "picky_vtable = g_builtin_format_vtable\<lparr>fv_apply_defaults := Some (\<lambda>_ _. mret OLNK_STATUS_INTERNAL_ERROR)\<rparr>"

definition picky_format :: olnk_format_definition where
  "picky_format = (builtin_format_def g_elf_desc)\<lparr>fdef_vtable := Some picky_vtable\<rparr>"

lemma picky_lifecycle: "format_lifecycle picky_format picky_vtable builtin_create builtin_destroy host_keeps"
proof
  show "keeps_instances (f inst (Some c))"
    if "fv_validate_config picky_vtable = Some f" for f inst c
    using that by (auto simp: picky_vtable_def g_builtin_format_vtable_def builtin_validate_config_def keeps_instances_def mret_def split: option.splits)
  show "keeps_instances (f inst (Some c) iv oi)"
    if "host_keeps c" "fv_serialize picky_vtable = Some f" for f inst c iv oi
    using that keeps_builtin_serialize by (auto simp: picky_vtable_def g_builtin_format_vtable_def)
qed (auto simp: picky_format_def picky_vtable_def builtin_format_def_def g_builtin_format_vtable_def builtin_create_def builtin_destroy_def keeps_instances_def
    heap_defs run_defs may_throw_def Let_def status_of_exn_def split: option.splits outcome.splits if_splits exn.splits)

theorem serializer_no_instance_leak_witness:
  "\<exists>info w'. run_format_serializer (Some picky_format) (Some accepting_context)
      (Some \<lparr>fiv_opaque = None, fiv_opaque_size = 0\<rparr>) (Some format_output_info_zero) (world_init plain_env)
        = Ret (OLNK_STATUS_INTERNAL_ERROR, info) w' \<and> w_next w' = 1 \<and> w_instances w' = w_instances (world_init plain_env)"
proof -
  let ?run = "run_format_serializer (Some picky_format) (Some accepting_context)
      (Some \<lparr>fiv_opaque = None, fiv_opaque_size = 0\<rparr>) (Some format_output_info_zero) (world_init plain_env)"
  have "\<exists>info w'. ?run = Ret (OLNK_STATUS_INTERNAL_ERROR, info) w' \<and> w_next w' = 1"
    by (simp add: serializer_defs has_minimum_definition_def initialize_output_info_def picky_format_def picky_vtable_def
        builtin_format_def_def g_builtin_format_vtable_def builtin_create_def builtin_destroy_def
        accepting_context_def heap_defs run_defs may_throw_def world_init_def plain_env_def Let_def)
  then obtain info w' where run: "?run = Ret (OLNK_STATUS_INTERNAL_ERROR, info) w'" "w_next w' = 1" by blast
  have "host_keeps accepting_context" by (auto simp: host_keeps_def accepting_context_def keeps_instances_def mret_def)
  with serializer_no_instance_leak [OF picky_lifecycle _ _ run(1)] run show ?thesis by (auto simp: world_init_def)
qed

end
