(* ===== verification/Olnk_Api.thy ===== *)
theory Olnk_Api
  imports Olnk_Format
begin

text \<open>
  \<open>src/olnk/api.cpp\<close> and \<open>src/olnk/linker.cpp\<close>: the internal utilities, the host table that the API hands to
  a format, and the public functions of \<open>include/olnk/olnk-api.h\<close> as programs over the world.  Pointers
  are \<open>nat option\<close>; an out parameter \<open>olnk_result_t** out_result\<close> is \<open>Some previous\<close> (or \<open>None\<close> for a null
  \<open>out_result\<close>) and its new value is part of the result.  Callbacks only observe: a call is recorded
  as an event, and re-entering the API from a callback is outside the model.  Stream constructors
  are taken not to throw.
\<close>

section \<open>Internal utilities\<close>

definition safe_emit_log :: "nat option \<Rightarrow> olnk_log_level \<Rightarrow> cstr \<Rightarrow> unit api" where
  "safe_emit_log context level message =
     (case (context, message) of
        (Some c, Some msg) \<Rightarrow>
          if \<not> valid_log_level level then mret ()
          else mbind (get_context c) (\<lambda>ctx.
            if ctx_log_level ctx = OLNK_LOG_OFF then mret ()
            else if olnk_log_level_int level < olnk_log_level_int (ctx_log_level ctx) then mret ()
            else case ctx_log_callback ctx of
              None \<Rightarrow> mret ()
            | Some cb \<Rightarrow> emit (LogEvent cb (ctx_log_user_data ctx) level msg))
      | _ \<Rightarrow> mret ())"

definition add_diagnostic ::
    "nat option \<Rightarrow> olnk_diagnostic_severity \<Rightarrow> cstr \<Rightarrow> cstr \<Rightarrow> u32 \<Rightarrow> u32 \<Rightarrow> olnk_status api" where
  "add_diagnostic session severity message file line column =
     (case (session, message) of
        (Some s, Some msg) \<Rightarrow>
          if \<not> valid_diag_severity severity then mret OLNK_STATUS_INVALID_ARGUMENT
          else mnoexcept (
            mbind
              (mtry
                (mbind new_diagnostic (\<lambda>d.
                  mtry
                    (mseq (upd_diagnostic d (\<lambda>x. x\<lparr>diag_severity := severity\<rparr>))
                    (mseq may_throw
                    (mseq (upd_diagnostic d (\<lambda>x. x\<lparr>diag_message := msg\<rparr>))
                    (mseq (case file of None \<Rightarrow> mret ()
                           | Some f \<Rightarrow> mseq may_throw (upd_diagnostic d (\<lambda>x. x\<lparr>diag_file := f\<rparr>)))
                    (mseq (upd_diagnostic d (\<lambda>x. x\<lparr>diag_line := line, diag_column := column\<rparr>))
                    (mseq (get_session s)
                    (mseq may_throw
                    (mseq (upd_session s (\<lambda>x. x\<lparr>ses_diagnostics := ses_diagnostics x @ [d]\<rparr>))
                    (mret OLNK_STATUS_OK)))))))))
                    (\<lambda>e. mseq (delete_diagnostic d) (mret (status_of_exn e)))))
                (\<lambda>e. mret (status_of_exn e)))
              (\<lambda>st. if st \<noteq> OLNK_STATUS_OK then mret st
                else mbind (get_session s) (\<lambda>ses.
                  case ses_context ses of
                    None \<Rightarrow> mret OLNK_STATUS_OK
                  | Some c \<Rightarrow> mbind (get_context c) (\<lambda>ctx.
                      case ctx_diag_callback ctx of
                        None \<Rightarrow> mret OLNK_STATUS_OK
                      | Some cb \<Rightarrow> mseq (emit (DiagEvent cb (ctx_diag_user_data ctx) severity msg))
                                     (mret OLNK_STATUS_OK)))))
      | _ \<Rightarrow> mret OLNK_STATUS_INVALID_ARGUMENT)"

definition clear_diagnostics :: "nat option \<Rightarrow> unit api" where
  "clear_diagnostics session =
     (case session of None \<Rightarrow> mret ()
      | Some s \<Rightarrow> mbind (get_session s) (\<lambda>ses.
          mseq (mfold delete_diagnostic (ses_diagnostics ses))
               (upd_session s (\<lambda>x. x\<lparr>ses_diagnostics := []\<rparr>))))"

fun count_diagnostics_loop :: "olnk_diagnostic_severity \<Rightarrow> nat list \<Rightarrow> u32 \<Rightarrow> u32 api" where
  "count_diagnostics_loop severity [] n = mret n"
| "count_diagnostics_loop severity (d # ds) n =
     mbind (get_diagnostic d) (\<lambda>x.
       count_diagnostics_loop severity ds (if diag_severity x = severity then n + 1 else n))"

definition count_diagnostics_with_severity :: "nat option \<Rightarrow> olnk_diagnostic_severity \<Rightarrow> u32 api" where
  "count_diagnostics_with_severity session severity =
     (case session of None \<Rightarrow> mret 0
      | Some s \<Rightarrow> mbind (get_session s) (\<lambda>ses. count_diagnostics_loop severity (ses_diagnostics ses) 0))"

text \<open>Assignment of a C string to a \<open>std::string\<close> member; \<open>store\<close> is the member.\<close>

definition set_string :: "(string \<Rightarrow> unit api) \<Rightarrow> cstr \<Rightarrow> olnk_status api" where
  "set_string store value =
     (case value of None \<Rightarrow> mret OLNK_STATUS_INVALID_ARGUMENT
      | Some v \<Rightarrow> mtry (mseq may_throw (mseq (store v) (mret OLNK_STATUS_OK)))
                     (\<lambda>e. mret (status_of_exn e)))"

definition push_back_string :: "(string \<Rightarrow> unit api) \<Rightarrow> cstr \<Rightarrow> olnk_status api" where
  "push_back_string push value =
     (case value of None \<Rightarrow> mret OLNK_STATUS_INVALID_ARGUMENT
      | Some v \<Rightarrow> mtry (mseq may_throw (mseq (push v) (mret OLNK_STATUS_OK)))
                     (\<lambda>e. mret (status_of_exn e)))"

definition define_kv :: "(string \<times> string \<Rightarrow> unit api) \<Rightarrow> cstr \<Rightarrow> cstr \<Rightarrow> olnk_status api" where
  "define_kv push key value =
     (case (key, value) of
        (Some k, Some v) \<Rightarrow> mtry (mseq may_throw (mseq (push (k, v)) (mret OLNK_STATUS_OK)))
                              (\<lambda>e. mret (status_of_exn e))
      | _ \<Rightarrow> mret OLNK_STATUS_INVALID_ARGUMENT)"

definition make_result :: "nat option api" where
  "make_result = mtry (mbind new_result (\<lambda>r. mret (Some r))) (\<lambda>_. mret None)"

definition populate_result_from_session ::
    "nat option \<Rightarrow> nat option \<Rightarrow> olnk_status \<Rightarrow> u64 \<Rightarrow> unit api" where
  "populate_result_from_session result session status elapsed_ns =
     (case result of None \<Rightarrow> mret ()
      | Some r \<Rightarrow> mnoexcept (
          mseq (upd_result r (\<lambda>x. x\<lparr>res_status := status, res_elapsed_ns := elapsed_ns\<rparr>))
          (case session of None \<Rightarrow> mret ()
           | Some s \<Rightarrow>
              mbind (get_session s) (\<lambda>ses.
              mseq (upd_result r (\<lambda>x. x\<lparr>res_input_count := of_nat (length (cfg_input_files (ses_snapshot_config ses)))\<rparr>))
              (mbind (count_diagnostics_with_severity session OLNK_DIAGNOSTIC_WARNING) (\<lambda>warnings.
              mseq (upd_result r (\<lambda>x. x\<lparr>res_warning_count := warnings\<rparr>))
              (mbind (count_diagnostics_with_severity session OLNK_DIAGNOSTIC_ERROR) (\<lambda>errors.
              mbind (count_diagnostics_with_severity session OLNK_DIAGNOSTIC_FATAL) (\<lambda>fatals.
              mseq (upd_result r (\<lambda>x. x\<lparr>res_error_count := errors + fatals\<rparr>))
              (mseq may_throw
              (upd_result r (\<lambda>x. x\<lparr>res_output_path := cfg_output_path (ses_snapshot_config ses)\<rparr>))))))))))))"

text \<open>A file that can be opened has its size; \<open>size\<close> as \<open>streamoff\<close> is not negative for it.\<close>

definition file_size_or_zero :: "string \<Rightarrow> u64 api" where
  "file_size_or_zero path = mget (\<lambda>w. case w_files w path of None \<Rightarrow> 0 | Some c \<Rightarrow> of_nat (length c))"

text \<open>\<open>bytes\<close> with their size; opening with \<open>trunc\<close> empties the file, closing leaves \<open>env_written\<close>.\<close>

definition write_output_file :: "string \<Rightarrow> string option \<Rightarrow> olnk_status api" where
  "write_output_file path bytes =
     (case bytes of None \<Rightarrow> mret OLNK_STATUS_INVALID_ARGUMENT
      | Some b \<Rightarrow>
         if path = [] \<or> b = [] then mret OLNK_STATUS_INVALID_ARGUMENT
         else mbind (mget w_env) (\<lambda>e.
           if \<not> env_open_ok e path then mret OLNK_STATUS_IO_ERROR
           else mseq (mupd (\<lambda>w. w\<lparr>w_files := (w_files w)(path \<mapsto> env_written e path b)\<rparr>))
                (mret (if env_write_good e path b then OLNK_STATUS_OK else OLNK_STATUS_IO_ERROR))))"

section \<open>The host table handed to formats\<close>

definition api_format_emit_output ::
    "olnk_format_context_base option \<Rightarrow> string option \<Rightarrow> olnk_status api" where
  "api_format_emit_output format_ctx bytes =
     (case format_ctx of None \<Rightarrow> mret OLNK_STATUS_INVALID_ARGUMENT
      | Some c \<Rightarrow>
         (case fctx_session c of None \<Rightarrow> mret OLNK_STATUS_INVALID_ARGUMENT
          | Some s \<Rightarrow> mbind (get_session s) (\<lambda>ses.
              write_output_file (cfg_output_path (ses_snapshot_config ses)) bytes)))"

definition api_format_emit_aux_file ::
    "olnk_format_context_base option \<Rightarrow> cstr \<Rightarrow> string option \<Rightarrow> olnk_status api" where
  "api_format_emit_aux_file format_ctx logical_name bytes = mret OLNK_STATUS_NOT_IMPLEMENTED"

definition api_format_log :: "olnk_format_context_base option \<Rightarrow> olnk_log_level \<Rightarrow> cstr \<Rightarrow> unit api" where
  "api_format_log format_ctx level message =
     (case format_ctx of None \<Rightarrow> mret () | Some c \<Rightarrow> safe_emit_log (fctx_linker_context c) level message)"

definition api_format_diagnostic ::
    "olnk_format_context_base option \<Rightarrow> olnk_diagnostic_severity \<Rightarrow> cstr \<Rightarrow> unit api" where
  "api_format_diagnostic format_ctx severity message =
     (case format_ctx of None \<Rightarrow> mret ()
      | Some c \<Rightarrow>
         if fctx_session c = None then mret ()
         else mbind (add_diagnostic (fctx_session c) severity
                (Some (case message of Some m \<Rightarrow> m | None \<Rightarrow> [])) None 0 0) (\<lambda>_. mret ()))"

definition api_format_get_option :: "olnk_format_context_base option \<Rightarrow> cstr \<Rightarrow> cstr api" where
  "api_format_get_option format_ctx key = mret None"

definition api_format_set_option :: "olnk_format_context_base option \<Rightarrow> cstr \<Rightarrow> cstr \<Rightarrow> olnk_status api" where
  "api_format_set_option format_ctx key value = mret OLNK_STATUS_NOT_IMPLEMENTED"

definition api_format_host :: olnk_format_host where
  "api_format_host =
     \<lparr>fh_abi_version = OLNK_FORMAT_ABI_VERSION, fh_struct_size = sizeof_olnk_format_host,
      fh_log = Some api_format_log, fh_diagnostic = Some api_format_diagnostic,
      fh_get_option = Some api_format_get_option, fh_set_option = Some api_format_set_option,
      fh_emit_output = Some api_format_emit_output, fh_emit_aux_file = Some api_format_emit_aux_file\<rparr>"

section \<open>\<open>linker.cpp\<close>\<close>

datatype LinkPipelineStatus =
    LinkPipelineStatus_kOk | LinkPipelineStatus_kNotReady | LinkPipelineStatus_kInternalError

record LinkPipelineResult =
  lpr_status :: LinkPipelineStatus
  lpr_phase :: string

definition run_ingest_phase :: bool where "run_ingest_phase = True"
definition run_symbols_phase :: bool where "run_symbols_phase = True"
definition run_layout_phase :: bool where "run_layout_phase = True"
definition run_relocation_phase :: bool where "run_relocation_phase = True"
definition run_serialize_phase :: bool where "run_serialize_phase = True"

text \<open>\<open>LinkPipeline::run\<close> over the outcome of its phases, in order.\<close>

definition LinkPipeline_phases :: "(string \<times> bool) list" where
  "LinkPipeline_phases =
     [(''ingest'', run_ingest_phase), (''symbols'', run_symbols_phase), (''layout'', run_layout_phase),
      (''relocation'', run_relocation_phase), (''serialize'', run_serialize_phase)]"

fun LinkPipeline_run_phases :: "(string \<times> bool) list \<Rightarrow> LinkPipelineResult" where
  "LinkPipeline_run_phases [] = \<lparr>lpr_status = LinkPipelineStatus_kOk, lpr_phase = ''complete''\<rparr>"
| "LinkPipeline_run_phases ((name, ok) # rest) =
     (if \<not> ok then \<lparr>lpr_status = LinkPipelineStatus_kNotReady, lpr_phase = name\<rparr>
      else LinkPipeline_run_phases rest)"

definition run_link_pipeline :: olnk_status where
  "run_link_pipeline =
     (case lpr_status (LinkPipeline_run_phases LinkPipeline_phases) of
        LinkPipelineStatus_kOk \<Rightarrow> OLNK_STATUS_OK
      | LinkPipelineStatus_kNotReady \<Rightarrow> OLNK_STATUS_NOT_IMPLEMENTED
      | LinkPipelineStatus_kInternalError \<Rightarrow> OLNK_STATUS_INTERNAL_ERROR)"

section \<open>Library and context functions\<close>

definition olnk_initialize :: "olnk_status api" where
  "olnk_initialize = mseq (mupd (\<lambda>w. w\<lparr>g_initialize_count := g_initialize_count w + 1\<rparr>)) (mret OLNK_STATUS_OK)"

text \<open>Without interference the compare-and-exchange loop decrements a non-zero counter once.\<close>

definition olnk_shutdown :: "unit api" where
  "olnk_shutdown = mupd (\<lambda>w. if g_initialize_count w \<noteq> 0
     then w\<lparr>g_initialize_count := g_initialize_count w - 1\<rparr> else w)"

definition olnk_context_create :: "nat option api" where
  "olnk_context_create = mtry (mbind new_context (\<lambda>c. mret (Some c))) (\<lambda>_. mret None)"

definition olnk_context_destroy :: "nat option \<Rightarrow> unit api" where
  "olnk_context_destroy context = delete_context context"

definition olnk_context_set_log_level :: "nat option \<Rightarrow> olnk_log_level \<Rightarrow> unit api" where
  "olnk_context_set_log_level context level =
     (case context of None \<Rightarrow> mret ()
      | Some c \<Rightarrow> if \<not> valid_log_level level then mret ()
                 else upd_context c (\<lambda>x. x\<lparr>ctx_log_level := level\<rparr>))"

definition olnk_context_set_log_callback :: "nat option \<Rightarrow> nat option \<Rightarrow> nat option \<Rightarrow> unit api" where
  "olnk_context_set_log_callback context callback user_data =
     (case context of None \<Rightarrow> mret ()
      | Some c \<Rightarrow> upd_context c (\<lambda>x. x\<lparr>ctx_log_callback := callback, ctx_log_user_data := user_data\<rparr>))"

definition olnk_context_set_diagnostic_callback :: "nat option \<Rightarrow> nat option \<Rightarrow> nat option \<Rightarrow> unit api" where
  "olnk_context_set_diagnostic_callback context callback user_data =
     (case context of None \<Rightarrow> mret ()
      | Some c \<Rightarrow> upd_context c (\<lambda>x. x\<lparr>ctx_diag_callback := callback, ctx_diag_user_data := user_data\<rparr>))"

definition olnk_context_set_option :: "nat option \<Rightarrow> cstr \<Rightarrow> cstr \<Rightarrow> olnk_status api" where
  "olnk_context_set_option context key value =
     (case (context, key, value) of
        (Some c, Some k, Some v) \<Rightarrow>
          mtry (mseq may_throw (mseq (upd_context c (\<lambda>x. x\<lparr>ctx_options := ctx_options x @ [(k, v)]\<rparr>))
                  (mret OLNK_STATUS_OK)))
            (\<lambda>e. mret (status_of_exn e))
      | _ \<Rightarrow> mret OLNK_STATUS_INVALID_ARGUMENT)"

section \<open>Config functions\<close>

definition olnk_config_create :: "nat option api" where
  "olnk_config_create = mtry (mbind new_config (\<lambda>c. mret (Some c))) (\<lambda>_. mret None)"

definition olnk_config_destroy :: "nat option \<Rightarrow> unit api" where
  "olnk_config_destroy config = delete_config config"

definition olnk_config_set_output_path :: "nat option \<Rightarrow> cstr \<Rightarrow> olnk_status api" where
  "olnk_config_set_output_path config output_path =
     (case config of None \<Rightarrow> mret OLNK_STATUS_INVALID_ARGUMENT
      | Some c \<Rightarrow> set_string (\<lambda>v. upd_config c (\<lambda>x. x\<lparr>cfg_output_path := v\<rparr>)) output_path)"

definition olnk_config_set_map_path :: "nat option \<Rightarrow> cstr \<Rightarrow> olnk_status api" where
  "olnk_config_set_map_path config map_path =
     (case config of None \<Rightarrow> mret OLNK_STATUS_INVALID_ARGUMENT
      | Some c \<Rightarrow> set_string (\<lambda>v. upd_config c (\<lambda>x. x\<lparr>cfg_map_path := v\<rparr>)) map_path)"

definition olnk_config_set_entry_symbol :: "nat option \<Rightarrow> cstr \<Rightarrow> olnk_status api" where
  "olnk_config_set_entry_symbol config symbol_name =
     (case config of None \<Rightarrow> mret OLNK_STATUS_INVALID_ARGUMENT
      | Some c \<Rightarrow> set_string (\<lambda>v. upd_config c (\<lambda>x. x\<lparr>cfg_entry_symbol := v\<rparr>)) symbol_name)"

definition olnk_config_set_output_kind :: "nat option \<Rightarrow> olnk_output_kind \<Rightarrow> olnk_status api" where
  "olnk_config_set_output_kind config kind =
     (case config of None \<Rightarrow> mret OLNK_STATUS_INVALID_ARGUMENT
      | Some c \<Rightarrow> if \<not> valid_output_kind kind then mret OLNK_STATUS_INVALID_ARGUMENT
                 else mseq (upd_config c (\<lambda>x. x\<lparr>cfg_output_kind := kind\<rparr>)) (mret OLNK_STATUS_OK))"

definition olnk_config_set_format :: "nat option \<Rightarrow> cstr \<Rightarrow> olnk_status api" where
  "olnk_config_set_format config format_name =
     (case config of None \<Rightarrow> mret OLNK_STATUS_INVALID_ARGUMENT
      | Some c \<Rightarrow> set_string (\<lambda>v. upd_config c (\<lambda>x. x\<lparr>cfg_format_name := v\<rparr>)) format_name)"

definition olnk_config_set_machine :: "nat option \<Rightarrow> cstr \<Rightarrow> olnk_status api" where
  "olnk_config_set_machine config machine_name =
     (case config of None \<Rightarrow> mret OLNK_STATUS_INVALID_ARGUMENT
      | Some c \<Rightarrow> set_string (\<lambda>v. upd_config c (\<lambda>x. x\<lparr>cfg_machine_name := v\<rparr>)) machine_name)"

definition olnk_config_set_script_path :: "nat option \<Rightarrow> cstr \<Rightarrow> olnk_status api" where
  "olnk_config_set_script_path config script_path =
     (case config of None \<Rightarrow> mret OLNK_STATUS_INVALID_ARGUMENT
      | Some c \<Rightarrow> set_string (\<lambda>v. upd_config c (\<lambda>x. x\<lparr>cfg_script_path := v\<rparr>)) script_path)"

definition olnk_config_set_thread_count :: "nat option \<Rightarrow> u32 \<Rightarrow> olnk_status api" where
  "olnk_config_set_thread_count config thread_count =
     (case config of None \<Rightarrow> mret OLNK_STATUS_INVALID_ARGUMENT
      | Some c \<Rightarrow> mseq (upd_config c (\<lambda>x. x\<lparr>cfg_thread_count := thread_count\<rparr>)) (mret OLNK_STATUS_OK))"

definition olnk_config_set_incremental :: "nat option \<Rightarrow> int \<Rightarrow> olnk_status api" where
  "olnk_config_set_incremental config enabled =
     (case config of None \<Rightarrow> mret OLNK_STATUS_INVALID_ARGUMENT
      | Some c \<Rightarrow> mseq (upd_config c (\<lambda>x. x\<lparr>cfg_incremental := (if enabled \<noteq> 0 then 1 else 0)\<rparr>))
                   (mret OLNK_STATUS_OK))"

definition olnk_config_set_debug_info :: "nat option \<Rightarrow> int \<Rightarrow> olnk_status api" where
  "olnk_config_set_debug_info config enabled =
     (case config of None \<Rightarrow> mret OLNK_STATUS_INVALID_ARGUMENT
      | Some c \<Rightarrow> mseq (upd_config c (\<lambda>x. x\<lparr>cfg_debug_info := (if enabled \<noteq> 0 then 1 else 0)\<rparr>))
                   (mret OLNK_STATUS_OK))"

definition olnk_config_define :: "nat option \<Rightarrow> cstr \<Rightarrow> cstr \<Rightarrow> olnk_status api" where
  "olnk_config_define config key value =
     (case config of None \<Rightarrow> mret OLNK_STATUS_INVALID_ARGUMENT
      | Some c \<Rightarrow> define_kv (\<lambda>kv. upd_config c (\<lambda>x. x\<lparr>cfg_defines := cfg_defines x @ [kv]\<rparr>)) key value)"

definition olnk_config_add_input_file :: "nat option \<Rightarrow> cstr \<Rightarrow> olnk_status api" where
  "olnk_config_add_input_file config path =
     (case config of None \<Rightarrow> mret OLNK_STATUS_INVALID_ARGUMENT
      | Some c \<Rightarrow> push_back_string (\<lambda>v. upd_config c (\<lambda>x. x\<lparr>cfg_input_files := cfg_input_files x @ [v]\<rparr>)) path)"

definition olnk_config_add_library_path :: "nat option \<Rightarrow> cstr \<Rightarrow> olnk_status api" where
  "olnk_config_add_library_path config path =
     (case config of None \<Rightarrow> mret OLNK_STATUS_INVALID_ARGUMENT
      | Some c \<Rightarrow> push_back_string (\<lambda>v. upd_config c (\<lambda>x. x\<lparr>cfg_library_paths := cfg_library_paths x @ [v]\<rparr>)) path)"

definition olnk_config_add_library :: "nat option \<Rightarrow> cstr \<Rightarrow> olnk_status api" where
  "olnk_config_add_library config name =
     (case config of None \<Rightarrow> mret OLNK_STATUS_INVALID_ARGUMENT
      | Some c \<Rightarrow> push_back_string (\<lambda>v. upd_config c (\<lambda>x. x\<lparr>cfg_libraries := cfg_libraries x @ [v]\<rparr>)) name)"

definition olnk_config_add_plugin :: "nat option \<Rightarrow> cstr \<Rightarrow> olnk_status api" where
  "olnk_config_add_plugin config path =
     (case config of None \<Rightarrow> mret OLNK_STATUS_INVALID_ARGUMENT
      | Some c \<Rightarrow> push_back_string (\<lambda>v. upd_config c (\<lambda>x. x\<lparr>cfg_plugins := cfg_plugins x @ [v]\<rparr>)) path)"

section \<open>Session functions\<close>

text \<open>Copying the configuration may throw after the session was allocated; the local pointer is then
  lost.\<close>

definition olnk_session_create :: "nat option \<Rightarrow> nat option \<Rightarrow> nat option api" where
  "olnk_session_create context config =
     (case (context, config) of
        (Some c, Some g) \<Rightarrow>
          mtry
            (mbind new_session (\<lambda>s.
             mseq (upd_session s (\<lambda>x. x\<lparr>ses_context := Some c\<rparr>))
             (mbind (get_config g) (\<lambda>cfg.
             mseq may_throw
             (mseq (upd_session s (\<lambda>x. x\<lparr>ses_snapshot_config := cfg\<rparr>))
             (mseq (safe_emit_log (Some c) OLNK_LOG_DEBUG (Some ''created olnk session''))
             (mret (Some s))))))))
            (\<lambda>_. mret None)
      | _ \<Rightarrow> mret None)"

definition olnk_session_destroy :: "nat option \<Rightarrow> unit api" where
  "olnk_session_destroy session =
     (case session of None \<Rightarrow> mret ()
      | Some s \<Rightarrow> mseq (clear_diagnostics (Some s)) (delete_session s))"

definition olnk_session_reset :: "nat option \<Rightarrow> olnk_status api" where
  "olnk_session_reset session =
     (case session of None \<Rightarrow> mret OLNK_STATUS_INVALID_ARGUMENT
      | Some s \<Rightarrow>
         mseq (clear_diagnostics (Some s))
         (mseq (upd_session s (\<lambda>x. x\<lparr>ses_options := []\<rparr>))
         (mbind (get_session s) (\<lambda>ses.
          mseq (safe_emit_log (ses_context ses) OLNK_LOG_DEBUG (Some ''reset olnk session''))
          (mret OLNK_STATUS_OK)))))"

definition olnk_session_set_option :: "nat option \<Rightarrow> cstr \<Rightarrow> cstr \<Rightarrow> olnk_status api" where
  "olnk_session_set_option session key value =
     (case (session, key, value) of
        (Some s, Some k, Some v) \<Rightarrow>
          mtry (mseq may_throw (mseq (upd_session s (\<lambda>x. x\<lparr>ses_options := ses_options x @ [(k, v)]\<rparr>))
                  (mret OLNK_STATUS_OK)))
            (\<lambda>e. mret (status_of_exn e))
      | _ \<Rightarrow> mret OLNK_STATUS_INVALID_ARGUMENT)"

text \<open>The part of \<open>olnk_session_run\<close> that reports a configuration error: the status of the run, or the
  early return with the status of the failed diagnostic (\<open>Inl\<close>).\<close>

definition run_report :: "nat \<Rightarrow> nat \<Rightarrow> string \<Rightarrow> (olnk_status + olnk_status) api" where
  "run_report s r message =
     mbind (add_diagnostic (Some s) OLNK_DIAGNOSTIC_ERROR (Some message) None 0 0) (\<lambda>diag_status.
       if diag_status \<noteq> OLNK_STATUS_OK then mseq (delete_result (Some r)) (mret (Inl diag_status))
       else mret (Inr OLNK_STATUS_INVALID_ARGUMENT))"

definition unknown_format_message :: "string \<Rightarrow> string" where
  "unknown_format_message format_name = ''unknown format: '' @ format_name"

definition unknown_machine_message :: "string \<Rightarrow> string" where
  "unknown_machine_message machine_name = ''unknown machine: '' @ machine_name"

definition find_machine_api :: "cstr \<Rightarrow> nat option api" where
  "find_machine_api name w =
     (case olnk_find_machine (env_lua_machines (w_env w)) name (w_machines w) of
        (m, tbl) \<Rightarrow> Ret m (w\<lparr>w_machines := tbl\<rparr>))"

definition run_format_context :: "nat \<Rightarrow> olnk_session \<Rightarrow> olnk_format_context" where
  "run_format_context s ses =
     \<lparr>fctx_linker_context = ses_context ses, fctx_session = Some s, fctx_config = Some s,
      fctx_host = Some api_format_host\<rparr>"

text \<open>The serialisation step of the pipeline branch.\<close>

definition run_serialize :: "nat \<Rightarrow> nat \<Rightarrow> olnk_session \<Rightarrow> nat \<Rightarrow> (olnk_status + olnk_status) api" where
  "run_serialize s r ses f =
     mbind (run_format_serializer (Some (kStaticFormats ! f)) (Some (run_format_context s ses))
              (Some \<lparr>fiv_opaque = None, fiv_opaque_size = 0\<rparr>) (Some format_output_info_zero))
       (\<lambda>(final_status, out_info).
         if final_status = OLNK_STATUS_OK
         then mseq (upd_result r (\<lambda>x. x\<lparr>res_output_size := (case out_info of Some i \<Rightarrow> foi_file_size i | None \<Rightarrow> 0)\<rparr>))
                (mret (Inr final_status))
         else mret (Inr final_status))"

text \<open>Machine lookup and serialisation, after the format lookup left the status \<open>final1\<close>.\<close>

definition run_machine ::
    "nat \<Rightarrow> nat \<Rightarrow> olnk_session \<Rightarrow> nat option \<Rightarrow> olnk_status \<Rightarrow> (olnk_status + olnk_status) api" where
  "run_machine s r ses format_def final1 =
     (let machine_name = (if cfg_machine_name (ses_snapshot_config ses) = [] then ''x86_64''
                          else c_str (cfg_machine_name (ses_snapshot_config ses)))
      in mbind (find_machine_api (Some machine_name)) (\<lambda>machine_def.
         mbind (if final1 = OLNK_STATUS_OK \<and> machine_def = None
                then mseq may_throw (run_report s r (unknown_machine_message machine_name))
                else mret (Inr final1)) (\<lambda>st2.
           case st2 of Inl e \<Rightarrow> mret (Inl e)
           | Inr final2 \<Rightarrow>
              if final2 = OLNK_STATUS_OK
              then (case format_def of Some f \<Rightarrow> run_serialize s r ses f | None \<Rightarrow> mret (Inr final2))
              else mret (Inr final2))))"

definition run_lookup :: "nat \<Rightarrow> nat \<Rightarrow> olnk_session \<Rightarrow> (olnk_status + olnk_status) api" where
  "run_lookup s r ses =
     (let format_name = (if cfg_format_name (ses_snapshot_config ses) = [] then ''ELF''
                         else c_str (cfg_format_name (ses_snapshot_config ses)))
      in mbind (mget (\<lambda>w. olnk_find_format (env_lua_formats (w_env w)) (Some format_name))) (\<lambda>format_def.
         mbind (case format_def of
                  None \<Rightarrow> mseq may_throw (run_report s r (unknown_format_message format_name))
                | Some f \<Rightarrow> mret (Inr OLNK_STATUS_OK)) (\<lambda>st1.
           case st1 of Inl e \<Rightarrow> mret (Inl e)
           | Inr final1 \<Rightarrow> run_machine s r ses format_def final1)))"

text \<open>The pipeline branch inside the \<open>try\<close> block: the pipeline, the lookups, serialisation, and the
  diagnostic for \<open>NOT_IMPLEMENTED\<close>.\<close>

definition run_pipeline :: "nat \<Rightarrow> nat \<Rightarrow> olnk_session \<Rightarrow> (olnk_status + olnk_status) api" where
  "run_pipeline s r ses =
     mbind
       (if run_link_pipeline \<noteq> OLNK_STATUS_OK then mret (Inr run_link_pipeline) else run_lookup s r ses)
       (\<lambda>st. case st of
          Inl e \<Rightarrow> mret (Inl e)
        | Inr final_status \<Rightarrow>
            if final_status = OLNK_STATUS_NOT_IMPLEMENTED
            then mbind (add_diagnostic (Some s) OLNK_DIAGNOSTIC_ERROR
                          (Some ''internal linker feature is not fully wired yet'') None 0 0) (\<lambda>diag_status.
                   if diag_status \<noteq> OLNK_STATUS_OK
                   then mseq (delete_result (Some r)) (mret (Inl diag_status))
                   else mret (Inr final_status))
            else mret (Inr final_status))"

text \<open>The choice between the two configuration errors and the pipeline.\<close>

definition run_select :: "nat \<Rightarrow> nat \<Rightarrow> olnk_session \<Rightarrow> (olnk_status + olnk_status) api" where
  "run_select s r ses =
     (if cfg_input_files (ses_snapshot_config ses) = [] then run_report s r ''no input files configured''
      else if cfg_output_path (ses_snapshot_config ses) = [] then run_report s r ''no output path configured''
      else mtry (run_pipeline s r ses)
             (\<lambda>e. mseq (delete_result (Some r)) (mret (Inl (status_of_exn e)))))"

text \<open>The end of \<open>olnk_session_run\<close>: fill the result, settle the output size, log, return.\<close>

definition run_finish :: "nat \<Rightarrow> nat \<Rightarrow> olnk_session \<Rightarrow> olnk_status \<Rightarrow> (olnk_status \<times> nat option option) api" where
  "run_finish s r ses final_status =
     mseq (populate_result_from_session (Some r) (Some s) final_status 0)
     (mseq (if final_status \<noteq> OLNK_STATUS_OK
            then upd_result r (\<lambda>x. x\<lparr>res_output_size := 0\<rparr>)
            else mbind (get_result r) (\<lambda>res.
              if res_output_size res = 0
              then mbind (file_size_or_zero (cfg_output_path (ses_snapshot_config ses))) (\<lambda>sz.
                     upd_result r (\<lambda>x. x\<lparr>res_output_size := sz\<rparr>))
              else mret ()))
     (mseq (if final_status = OLNK_STATUS_OK
            then safe_emit_log (ses_context ses) OLNK_LOG_INFO (Some ''olnk session completed'')
            else safe_emit_log (ses_context ses) OLNK_LOG_ERROR
                   (Some ''olnk session failed: invalid configuration''))
      (mret (final_status, Some (Some r)))))"

definition olnk_session_run :: "nat option \<Rightarrow> nat option option \<Rightarrow> (olnk_status \<times> nat option option) api" where
  "olnk_session_run session out_result =
     (case (session, out_result) of
        (Some s, Some _) \<Rightarrow> mnoexcept (
          mseq (clear_diagnostics (Some s))
          (mbind (get_session s) (\<lambda>ses.
           mseq (safe_emit_log (ses_context ses) OLNK_LOG_INFO (Some ''starting olnk session''))
           (mbind make_result (\<lambda>result.
            case result of
              None \<Rightarrow> mret (OLNK_STATUS_OUT_OF_MEMORY, Some None)
            | Some r \<Rightarrow>
               mbind (run_select s r ses) (\<lambda>st.
                 case st of
                   Inl early \<Rightarrow> mret (early, Some None)
                 | Inr final_status \<Rightarrow> run_finish s r ses final_status))))))
      | _ \<Rightarrow> mret (OLNK_STATUS_INVALID_ARGUMENT, out_result))"

section \<open>Diagnostics, results, one-shot\<close>

definition olnk_session_diagnostic_count :: "nat option \<Rightarrow> size_t api" where
  "olnk_session_diagnostic_count session =
     (case session of None \<Rightarrow> mret 0
      | Some s \<Rightarrow> mbind (get_session s) (\<lambda>ses. mret (of_nat (length (ses_diagnostics ses)))))"

definition olnk_session_diagnostic_at :: "nat option \<Rightarrow> size_t \<Rightarrow> nat option api" where
  "olnk_session_diagnostic_at session index =
     (case session of None \<Rightarrow> mret None
      | Some s \<Rightarrow> mbind (get_session s) (\<lambda>ses.
          if length (ses_diagnostics ses) \<le> unat index then mret None
          else mret (Some (ses_diagnostics ses ! unat index))))"

definition olnk_diagnostic_severity_of :: "nat option \<Rightarrow> olnk_diagnostic_severity api" where
  "olnk_diagnostic_severity_of diagnostic =
     (case diagnostic of None \<Rightarrow> mret OLNK_DIAGNOSTIC_FATAL
      | Some d \<Rightarrow> mbind (get_diagnostic d) (\<lambda>x. mret (diag_severity x)))"

definition olnk_diagnostic_message :: "nat option \<Rightarrow> cstr api" where
  "olnk_diagnostic_message diagnostic =
     (case diagnostic of None \<Rightarrow> mret None
      | Some d \<Rightarrow> mbind (get_diagnostic d) (\<lambda>x. mret (Some (c_str (diag_message x)))))"

definition olnk_diagnostic_file :: "nat option \<Rightarrow> cstr api" where
  "olnk_diagnostic_file diagnostic =
     (case diagnostic of None \<Rightarrow> mret None
      | Some d \<Rightarrow> mbind (get_diagnostic d) (\<lambda>x.
          mret (if diag_file x = [] then None else Some (c_str (diag_file x)))))"

definition olnk_diagnostic_line :: "nat option \<Rightarrow> u32 api" where
  "olnk_diagnostic_line diagnostic =
     (case diagnostic of None \<Rightarrow> mret 0 | Some d \<Rightarrow> mbind (get_diagnostic d) (\<lambda>x. mret (diag_line x)))"

definition olnk_diagnostic_column :: "nat option \<Rightarrow> u32 api" where
  "olnk_diagnostic_column diagnostic =
     (case diagnostic of None \<Rightarrow> mret 0 | Some d \<Rightarrow> mbind (get_diagnostic d) (\<lambda>x. mret (diag_column x)))"

definition olnk_result_destroy :: "nat option \<Rightarrow> unit api" where
  "olnk_result_destroy result = delete_result result"

definition olnk_result_status :: "nat option \<Rightarrow> olnk_status api" where
  "olnk_result_status result =
     (case result of None \<Rightarrow> mret OLNK_STATUS_INVALID_ARGUMENT
      | Some r \<Rightarrow> mbind (get_result r) (\<lambda>x. mret (res_status x)))"

definition olnk_result_output_path :: "nat option \<Rightarrow> cstr api" where
  "olnk_result_output_path result =
     (case result of None \<Rightarrow> mret None
      | Some r \<Rightarrow> mbind (get_result r) (\<lambda>x.
          mret (if res_output_path x = [] then None else Some (c_str (res_output_path x)))))"

definition olnk_result_output_size :: "nat option \<Rightarrow> u64 api" where
  "olnk_result_output_size result =
     (case result of None \<Rightarrow> mret 0 | Some r \<Rightarrow> mbind (get_result r) (\<lambda>x. mret (res_output_size x)))"

definition olnk_result_elapsed_ns :: "nat option \<Rightarrow> u64 api" where
  "olnk_result_elapsed_ns result =
     (case result of None \<Rightarrow> mret 0 | Some r \<Rightarrow> mbind (get_result r) (\<lambda>x. mret (res_elapsed_ns x)))"

definition olnk_result_input_count :: "nat option \<Rightarrow> u32 api" where
  "olnk_result_input_count result =
     (case result of None \<Rightarrow> mret 0 | Some r \<Rightarrow> mbind (get_result r) (\<lambda>x. mret (res_input_count x)))"

definition olnk_result_warning_count :: "nat option \<Rightarrow> u32 api" where
  "olnk_result_warning_count result =
     (case result of None \<Rightarrow> mret 0 | Some r \<Rightarrow> mbind (get_result r) (\<lambda>x. mret (res_warning_count x)))"

definition olnk_result_error_count :: "nat option \<Rightarrow> u32 api" where
  "olnk_result_error_count result =
     (case result of None \<Rightarrow> mret 0 | Some r \<Rightarrow> mbind (get_result r) (\<lambda>x. mret (res_error_count x)))"

definition olnk_link :: "nat option \<Rightarrow> nat option \<Rightarrow> nat option option \<Rightarrow> (olnk_status \<times> nat option option) api" where
  "olnk_link context config out_result =
     (if context = None \<or> config = None \<or> out_result = None
      then mret (OLNK_STATUS_INVALID_ARGUMENT, out_result)
      else mnoexcept (mbind (olnk_session_create context config) (\<lambda>session.
        case session of
          None \<Rightarrow> mret (OLNK_STATUS_OUT_OF_MEMORY, Some None)
        | Some s \<Rightarrow> mbind (olnk_session_run (Some s) (Some None)) (\<lambda>(status, out).
            mseq (olnk_session_destroy (Some s)) (mret (status, out))))))"

end
