(* ===== verification/Olnk_Ownership.thy ===== *)
theory Olnk_Ownership
  imports Olnk_Api
begin

text \<open>
  Memory safety and ownership for the public API of \<open>src/olnk/api.cpp\<close>: an invariant of the world, the
  specification of every internal utility as a weakest-precondition lemma, and the proof that every
  public function keeps the invariant and does not reach undefined behaviour when its handles are
  null or live.
\<close>

section \<open>The invariant\<close>

text \<open>Addresses are handed out in order, so everything from the next one on is free.\<close>

definition fresh_ok :: "world \<Rightarrow> bool" where
  "fresh_ok w \<longleftrightarrow> (\<forall>a. w_next w \<le> a \<longrightarrow>
     w_contexts w a = None \<and> w_configs w a = None \<and> w_sessions w a = None \<and> w_diags w a = None \<and>
     w_results w a = None \<and> w_instances w a = None)"

text \<open>\<open>owns w s d\<close>: session \<open>s\<close> lists diagnostic \<open>d\<close>.\<close>

definition owns :: "(nat \<rightharpoonup> olnk_session) \<Rightarrow> nat \<Rightarrow> nat \<Rightarrow> bool" where
  "owns sessions s d \<longleftrightarrow> (\<exists>ses. sessions s = Some ses \<and> d \<in> set (ses_diagnostics ses))"

text \<open>Every live diagnostic is listed by exactly one live session, once, and nothing else is listed.\<close>

definition diags_ok :: "(nat \<rightharpoonup> olnk_session) \<Rightarrow> (nat \<rightharpoonup> DiagnosticStorage) \<Rightarrow> bool" where
  "diags_ok sessions diags \<longleftrightarrow>
     (\<forall>d. diags d \<noteq> None \<longleftrightarrow> (\<exists>s. owns sessions s d)) \<and>
     (\<forall>s s' d. owns sessions s d \<longrightarrow> owns sessions s' d \<longrightarrow> s = s') \<and>
     (\<forall>s ses. sessions s = Some ses \<longrightarrow> distinct (ses_diagnostics ses))"

text \<open>A session's context outlives it, the client's obligation.\<close>

definition contexts_ok :: "world \<Rightarrow> bool" where
  "contexts_ok w \<longleftrightarrow> (\<forall>s ses c. w_sessions w s = Some ses \<longrightarrow> ses_context ses = Some c \<longrightarrow> w_contexts w c \<noteq> None)"

definition world_ok :: "world \<Rightarrow> bool" where
  "world_ok w \<longleftrightarrow> fresh_ok w \<and> diags_ok (w_sessions w) (w_diags w) \<and> contexts_ok w \<and>
     (\<forall>a. w_instances w a = None) \<and> machine_table (w_machines w)"

lemma world_ok_init: "world_ok (world_init e)"
  by (simp add: world_ok_def world_init_def fresh_ok_def diags_ok_def owns_def contexts_ok_def machine_table_def)

section \<open>Internal utilities\<close>

text \<open>What diagnostics and logging never touch.\<close>

definition same_rest :: "world \<Rightarrow> world \<Rightarrow> bool" where
  "same_rest w w' \<longleftrightarrow> w_env w' = w_env w \<and> w_contexts w' = w_contexts w \<and> w_configs w' = w_configs w \<and>
     w_files w' = w_files w \<and> w_machines w' = w_machines w \<and> g_initialize_count w' = g_initialize_count w \<and>
     w_instances w' = w_instances w"

lemma same_rest_refl [simp]: "same_rest w w"
  by (simp add: same_rest_def)

lemma same_rest_trans: "same_rest w w' \<Longrightarrow> same_rest w' w'' \<Longrightarrow> same_rest w w''"
  by (simp add: same_rest_def)

definition ctx_live :: "world \<Rightarrow> nat option \<Rightarrow> bool" where
  "ctx_live w c \<longleftrightarrow> (case c of None \<Rightarrow> True | Some a \<Rightarrow> w_contexts w a \<noteq> None)"

text \<open>Logging only adds events.\<close>

lemma wp_safe_emit_log:
  assumes "ctx_live w c" "\<And>es. Q () (w\<lparr>w_events := w_events w @ es\<rparr>)"
  shows "wp (safe_emit_log c level msg) Q E F w"
proof -
  have "Q () w" using assms(2) [of "[]"] by simp
  then show ?thesis
    using assms by (auto simp: safe_emit_log_def wp_rules heap_defs ctx_live_def split: option.splits)
qed

lemma status_of_exn_not_ok [simp]: "status_of_exn e \<noteq> OLNK_STATUS_OK"
  by (cases e) (simp_all add: status_of_exn_def)

definition new_diag :: "olnk_diagnostic_severity \<Rightarrow> string \<Rightarrow> DiagnosticStorage" where
  "new_diag sev msg = \<lparr>diag_severity = sev, diag_message = msg, diag_file = [], diag_line = 0, diag_column = 0\<rparr>"

text \<open>A diagnostic is added at a fresh address and listed by the session, or nothing changes.\<close>

lemma wp_add_diagnostic:
  assumes "w_sessions w s = Some ses" "ctx_live w (ses_context ses)" "valid_diag_severity sev"
    and free: "w_diags w (w_next w) = None"
    and ok: "\<And>w'. same_rest w w' \<Longrightarrow> w_next w' = Suc (w_next w) \<Longrightarrow>
         w_diags w' = (w_diags w)(w_next w \<mapsto> new_diag sev msg) \<Longrightarrow>
         w_sessions w' = (w_sessions w)(s \<mapsto> ses\<lparr>ses_diagnostics := ses_diagnostics ses @ [w_next w]\<rparr>) \<Longrightarrow>
         w_results w' = w_results w \<Longrightarrow> Q OLNK_STATUS_OK w'"
    and err: "\<And>e w'. same_rest w w' \<Longrightarrow> w_next w \<le> w_next w' \<Longrightarrow> w_diags w' = w_diags w \<Longrightarrow>
         w_sessions w' = w_sessions w \<Longrightarrow> w_results w' = w_results w \<Longrightarrow> Q (status_of_exn e) w'"
  shows "wp (add_diagnostic (Some s) sev (Some msg) None 0 0) Q E F w"
proof -
  have upd: "(w_diags w)(w_next w := None) = w_diags w" using free by (simp add: fun_upd_idem)
  show ?thesis
    using assms(1-3)
    by (auto simp: add_diagnostic_def wp_rules heap_defs DiagnosticStorage_default_def ctx_live_def
        same_rest_def new_diag_def upd intro!: ok err split: option.splits)
qed

text \<open>Deleting a list of live, distinct diagnostics.\<close>

definition del_all :: "nat list \<Rightarrow> (nat \<rightharpoonup> 'a) \<Rightarrow> (nat \<rightharpoonup> 'a)" where
  "del_all ds m = (\<lambda>a. if a \<in> set ds then None else m a)"

lemma del_all_simps [simp]: "del_all [] m = m" "del_all (d # ds) m = del_all ds (m(d := None))"
  by (auto simp: del_all_def)

lemma wp_delete_diagnostics:
  assumes "distinct ds" "\<And>d. d \<in> set ds \<Longrightarrow> w_diags w d \<noteq> None"
    and "Q () (w\<lparr>w_diags := del_all ds (w_diags w)\<rparr>)"
  shows "wp (mfold delete_diagnostic ds) Q E F w"
  using assms
proof (induction ds arbitrary: w)
  case (Cons d ds)
  then obtain x where "w_diags w d = Some x" by force
  moreover have "wp (mfold delete_diagnostic ds) Q E F (w\<lparr>w_diags := (w_diags w)(d := None)\<rparr>)"
  proof (rule Cons.IH)
    show "Q () (w\<lparr>w_diags := (w_diags w)(d := None),
        w_diags := del_all ds (w_diags (w\<lparr>w_diags := (w_diags w)(d := None)\<rparr>))\<rparr>)"
      using Cons.prems(3) by (simp del: fun_upd_apply)
  qed (use Cons.prems in auto)
  ultimately show ?case by (simp add: wp_rules delete_diagnostic_def [of d])
qed (simp add: wp_rules)

lemma diags_ok_D:
  assumes "diags_ok S D" "S s = Some ses"
  shows "distinct (ses_diagnostics ses)" "d \<in> set (ses_diagnostics ses) \<Longrightarrow> D d \<noteq> None"
  using assms by (auto simp: diags_ok_def owns_def)

lemma wp_clear_diagnostics:
  assumes "w_sessions w s = Some ses" "diags_ok (w_sessions w) (w_diags w)"
    and "Q () (w\<lparr>w_diags := del_all (ses_diagnostics ses) (w_diags w),
                  w_sessions := (w_sessions w)(s \<mapsto> ses\<lparr>ses_diagnostics := []\<rparr>)\<rparr>)"
  shows "wp (clear_diagnostics (Some s)) Q E F w"
proof -
  have "wp (mfold delete_diagnostic (ses_diagnostics ses))
      (\<lambda>_. wp (upd_session s (\<lambda>x. x\<lparr>ses_diagnostics := []\<rparr>)) Q E F) E F w"
    using diags_ok_D [OF assms(2,1)] assms(1,3)
    by (intro wp_delete_diagnostics) (auto simp: wp_rules heap_defs)
  then show ?thesis using assms(1)
    by (simp add: clear_diagnostics_def wp_rules heap_defs)
qed

section \<open>Keeping the diagnostic ownership\<close>

lemma owns_upd:
  "owns (S(s \<mapsto> ses)) s' d \<longleftrightarrow> (if s' = s then d \<in> set (ses_diagnostics ses) else owns S s' d)"
  by (auto simp: owns_def)

lemma diags_ok_same:
  assumes "diags_ok S D" "S s = Some ses" "ses_diagnostics ses' = ses_diagnostics ses"
  shows "diags_ok (S(s \<mapsto> ses')) D"
proof -
  have "owns (S(s \<mapsto> ses')) = owns S" using assms(2,3) by (auto simp: fun_eq_iff owns_def)
  then show ?thesis using assms by (auto simp: diags_ok_def split: if_splits)
qed

lemma diags_ok_add:
  assumes "diags_ok S D" "S s = Some ses" "D d = None"
  shows "diags_ok (S(s \<mapsto> ses\<lparr>ses_diagnostics := ses_diagnostics ses @ [d]\<rparr>)) (D(d \<mapsto> x))"
proof -
  have no: "\<not> owns S s' d" for s' using assms(1,3) by (metis diags_ok_def)
  have own: "owns (S(s \<mapsto> ses\<lparr>ses_diagnostics := ses_diagnostics ses @ [d]\<rparr>)) s' d' \<longleftrightarrow>
      owns S s' d' \<or> (s' = s \<and> d' = d)" for s' d'
    using assms(2) by (auto simp: owns_def)
  have "d \<notin> set (ses_diagnostics ses)" using no [of s] assms(2) by (auto simp: owns_def)
  then show ?thesis using assms no unfolding diags_ok_def own by (auto split: if_splits)
qed

lemma diags_ok_clear:
  assumes "diags_ok S D" "S s = Some ses"
  shows "diags_ok (S(s \<mapsto> ses\<lparr>ses_diagnostics := []\<rparr>)) (del_all (ses_diagnostics ses) D)"
proof -
  have own: "owns (S(s \<mapsto> ses\<lparr>ses_diagnostics := []\<rparr>)) s' d \<longleftrightarrow> owns S s' d \<and> s' \<noteq> s" for s' d
    by (auto simp: owns_def)
  have mine: "d \<in> set (ses_diagnostics ses) \<longleftrightarrow> owns S s d" for d using assms(2) by (auto simp: owns_def)
  show ?thesis using assms unfolding diags_ok_def own del_all_def mine by (auto split: if_splits)
qed

lemma diags_ok_new:
  assumes "diags_ok S D" "S s = None" "ses_diagnostics ses = []"
  shows "diags_ok (S(s \<mapsto> ses)) D"
proof -
  have "owns (S(s \<mapsto> ses)) = owns S" using assms(2,3) by (auto simp: fun_eq_iff owns_def)
  then show ?thesis using assms by (auto simp: diags_ok_def split: if_splits)
qed

lemma diags_ok_delete:
  assumes "diags_ok S D" "S s = Some ses" "ses_diagnostics ses = []"
  shows "diags_ok (S(s := None)) D"
proof -
  have "owns (S(s := None)) = owns S" using assms(2,3) by (auto simp: fun_eq_iff owns_def)
  then show ?thesis using assms by (auto simp: diags_ok_def split: if_splits)
qed

section \<open>The serializer on the built-in formats\<close>

definition format_payload :: "nat \<Rightarrow> string" where
  "format_payload f = builtin_payload ([g_elf_desc, g_pe_desc, g_macho_desc, g_wasm_desc] ! f)"

lemma format_payload_nonempty [simp]: "builtin_payload d \<noteq> []"
  by (simp add: builtin_payload_def)

lemma wp_run_format_serializer:
  assumes "f < 4" "w_sessions w s = Some ses" "cfg_output_path (ses_snapshot_config ses) = path" "path \<noteq> []"
    and free: "w_instances w (w_next w) = None"
    and noex: "F Terminate"
    and ok: "\<And>w' info. env_open_ok (w_env w) path \<Longrightarrow> env_write_good (w_env w) path (format_payload f) \<Longrightarrow>
       w_files w' = (w_files w)(path \<mapsto> env_written (w_env w) path (format_payload f)) \<Longrightarrow>
       w_env w' = w_env w \<Longrightarrow> w_contexts w' = w_contexts w \<Longrightarrow> w_configs w' = w_configs w \<Longrightarrow>
       w_sessions w' = w_sessions w \<Longrightarrow> w_diags w' = w_diags w \<Longrightarrow> w_results w' = w_results w \<Longrightarrow>
       w_machines w' = w_machines w \<Longrightarrow> w_instances w' = w_instances w \<Longrightarrow> w_next w \<le> w_next w' \<Longrightarrow>
       foi_file_size info = of_nat (length (format_payload f)) \<Longrightarrow> Q (OLNK_STATUS_OK, Some info) w'"
    and err: "\<And>w' st info. st \<in> {OLNK_STATUS_OUT_OF_MEMORY, OLNK_STATUS_INTERNAL_ERROR, OLNK_STATUS_IO_ERROR} \<Longrightarrow>
       w_env w' = w_env w \<Longrightarrow> w_contexts w' = w_contexts w \<Longrightarrow> w_configs w' = w_configs w \<Longrightarrow>
       w_sessions w' = w_sessions w \<Longrightarrow> w_diags w' = w_diags w \<Longrightarrow> w_results w' = w_results w \<Longrightarrow>
       w_machines w' = w_machines w \<Longrightarrow> w_instances w' = w_instances w \<Longrightarrow> w_next w \<le> w_next w' \<Longrightarrow>
       Q (st, info) w'"
  shows "wp (run_format_serializer (Some (kStaticFormats ! f)) (Some (run_format_context s ses'))
           (Some iv) (Some oi)) Q E F w"
proof -
  let ?d = "[g_elf_desc, g_pe_desc, g_macho_desc, g_wasm_desc] ! f"
  have def: "kStaticFormats ! f = builtin_format_def ?d" using assms(1) by (simp add: kStaticFormats_def del: list.map)
  have upd: "(w_instances w)(w_next w := None) = w_instances w" using free by (simp add: fun_upd_idem)
  have st: "status_of_exn e \<in> {OLNK_STATUS_OUT_OF_MEMORY, OLNK_STATUS_INTERNAL_ERROR, OLNK_STATUS_IO_ERROR}" for e
    by (cases e) (simp_all add: status_of_exn_def)
  show ?thesis
    unfolding def using assms(2-4) noex st
    by (auto simp: serializer_defs builtin_format_def_def g_builtin_format_vtable_def
        has_minimum_definition_def initialize_output_info_def
        builtin_create_def builtin_destroy_def builtin_validate_config_def builtin_serialize_def
        run_format_context_def api_format_host_def api_format_emit_output_def write_output_file_def
        fctx_base_def olnk_format_context_base.truncate_def format_payload_def
        wp_rules heap_defs upd Let_def
        intro!: ok err [where st = "status_of_exn e" for e] err [where st = OLNK_STATUS_IO_ERROR] split: option.splits)
qed

section \<open>The phases of a run\<close>

text \<open>What a phase of \<open>olnk_session_run\<close> on session \<open>s\<close> with result object \<open>r\<close> may change: the files, the
  session's diagnostics, the result object, addresses and ticks.\<close>

definition run_frame :: "world \<Rightarrow> world \<Rightarrow> bool" where
  "run_frame w w' \<longleftrightarrow> w_env w' = w_env w \<and> w_contexts w' = w_contexts w \<and> w_configs w' = w_configs w \<and>
     w_instances w' = w_instances w \<and> machine_table (w_machines w') \<and> w_next w \<le> w_next w'"

lemma run_frameI [intro]: "same_rest w w' \<Longrightarrow> machine_table (w_machines w) \<Longrightarrow> w_next w \<le> w_next w' \<Longrightarrow> run_frame w w'"
  by (simp add: run_frame_def same_rest_def)

text \<open>The outcomes of the middle of a run: a success, a reported configuration error, an unreported
  failure, and the early return that deletes the result object.\<close>

definition run_ok :: "world \<Rightarrow> nat \<Rightarrow> nat \<Rightarrow> olnk_session \<Rightarrow> nat \<Rightarrow> world \<Rightarrow> bool" where
  "run_ok w s r ses f w' \<longleftrightarrow>
     (let path = cfg_output_path (ses_snapshot_config ses) in
      cfg_input_files (ses_snapshot_config ses) \<noteq> [] \<and> path \<noteq> [] \<and>
      f < 4 \<and> env_open_ok (w_env w) path \<and> env_write_good (w_env w) path (format_payload f) \<and>
      w_files w' = (w_files w)(path \<mapsto> env_written (w_env w) path (format_payload f)) \<and>
      w_sessions w' = w_sessions w \<and> w_diags w' = w_diags w \<and>
      w_results w' = (w_results w)(r \<mapsto> (the (w_results w r))\<lparr>res_output_size := of_nat (length (format_payload f))\<rparr>))"

definition run_reported :: "world \<Rightarrow> nat \<Rightarrow> olnk_session \<Rightarrow> string \<Rightarrow> world \<Rightarrow> bool" where
  "run_reported w s ses msg w' \<longleftrightarrow>
     w_diags w' = (w_diags w)(w_next w \<mapsto> new_diag OLNK_DIAGNOSTIC_ERROR msg) \<and>
     w_sessions w' = (w_sessions w)(s \<mapsto> ses\<lparr>ses_diagnostics := ses_diagnostics ses @ [w_next w]\<rparr>) \<and>
     w_results w' = w_results w \<and> w_files w' = w_files w \<and> w_next w < w_next w'"

definition run_quiet :: "world \<Rightarrow> world \<Rightarrow> bool" where
  "run_quiet w w' \<longleftrightarrow> w_sessions w' = w_sessions w \<and> w_diags w' = w_diags w"

lemma wp_run_report:
  assumes "w_sessions w s = Some ses" "ctx_live w (ses_context ses)" "w_diags w (w_next w) = None"
    and "w_results w r = Some res"
    and ok: "\<And>w'. same_rest w w' \<Longrightarrow> w_next w \<le> w_next w' \<Longrightarrow> run_reported w s ses msg w' \<Longrightarrow>
        Q (Inr OLNK_STATUS_INVALID_ARGUMENT) w'"
    and err: "\<And>e w'. same_rest w w' \<Longrightarrow> w_next w \<le> w_next w' \<Longrightarrow> run_quiet w w' \<Longrightarrow>
        w_results w' = (w_results w)(r := None) \<Longrightarrow> Q (Inl (status_of_exn e)) w'"
  shows "wp (run_report s r msg) Q E F w"
  unfolding run_report_def wp_mbind
  by (rule wp_add_diagnostic [OF assms(1,2)])
    (use assms in \<open>auto simp: wp_rules heap_defs run_reported_def run_quiet_def same_rest_def intro!: ok err\<close>)

lemma find_machine_api_table:
  "machine_table tbl \<Longrightarrow> olnk_find_machine reg name tbl = (m, tbl') \<Longrightarrow> machine_table tbl'"
  by (auto simp: olnk_find_machine_def olnk_find_machine_by_kind_def Let_def machine_table_def
      split: option.splits if_splits)

lemma wp_run_serialize:
  assumes "f < 4" "w_sessions w s = Some ses" "cfg_output_path (ses_snapshot_config ses) \<noteq> []"
    "cfg_input_files (ses_snapshot_config ses) \<noteq> []"
    and "w_instances w (w_next w) = None" "w_results w r = Some res" "F Terminate" "machine_table (w_machines w)"
    and ok: "\<And>w'. run_frame w w' \<Longrightarrow> run_ok w s r ses f w' \<Longrightarrow> Q (Inr OLNK_STATUS_OK) w'"
    and err: "\<And>st w'. run_frame w w' \<Longrightarrow> run_quiet w w' \<Longrightarrow> w_results w' = w_results w \<Longrightarrow>
        st \<in> {OLNK_STATUS_OUT_OF_MEMORY, OLNK_STATUS_INTERNAL_ERROR, OLNK_STATUS_IO_ERROR} \<Longrightarrow> Q (Inr st) w'"
  shows "wp (run_serialize s r ses f) Q E F w"
  unfolding run_serialize_def wp_mbind
  by (rule wp_run_format_serializer [OF assms(1,2) refl])
    (use assms in \<open>auto simp: wp_rules heap_defs run_frame_def run_ok_def run_quiet_def Let_def intro!: ok err\<close>)

text \<open>The format and machine a session asks for, with the defaults of \<open>olnk_session_run\<close>.\<close>

definition run_format_name :: "olnk_session \<Rightarrow> string" where
  "run_format_name ses = (if cfg_format_name (ses_snapshot_config ses) = [] then ''ELF''
     else c_str (cfg_format_name (ses_snapshot_config ses)))"

definition run_machine_name :: "olnk_session \<Rightarrow> string" where
  "run_machine_name ses = (if cfg_machine_name (ses_snapshot_config ses) = [] then ''x86_64''
     else c_str (cfg_machine_name (ses_snapshot_config ses)))"

text \<open>The message of the configuration error a run reports, if there is one.\<close>

definition run_error :: "world \<Rightarrow> olnk_session \<Rightarrow> string option" where
  "run_error w ses =
     (if cfg_input_files (ses_snapshot_config ses) = [] then Some ''no input files configured''
      else if cfg_output_path (ses_snapshot_config ses) = [] then Some ''no output path configured''
      else if olnk_find_format (env_lua_formats (w_env w)) (Some (run_format_name ses)) = None
      then Some (unknown_format_message (run_format_name ses))
      else if fst (olnk_find_machine (env_lua_machines (w_env w)) (Some (run_machine_name ses)) g_builtin_machines) = None
      then Some (unknown_machine_message (run_machine_name ses))
      else None)"

lemma olnk_find_machine_fst:
  "machine_table tbl \<Longrightarrow> fst (olnk_find_machine reg name tbl) = fst (olnk_find_machine reg name g_builtin_machines)"
  by (cases name) (simp add: olnk_find_machine_def,
      simp add: olnk_find_machine_table machine_table_def [of g_builtin_machines])

lemma lua_format_range: "lookup_lua_format_loop n specs = Some f \<Longrightarrow> f < 4"
  by (induction n specs rule: lookup_lua_format_loop.induct)
    (auto simp: lua_kind_format_def split: if_splits option.splits)

lemma olnk_find_format_range: "olnk_find_format reg name = Some f \<Longrightarrow> f < 4"
  by (auto simp: olnk_find_format_def lookup_lua_format_definition_def first_match_Some kStaticFormats_def
      dest: lua_format_range split: option.splits if_splits)

lemma run_link_pipeline_ok [simp]: "run_link_pipeline = OLNK_STATUS_OK"
  by (simp add: run_link_pipeline_def LinkPipeline_phases_def run_ingest_phase_def run_symbols_phase_def
      run_layout_phase_def run_relocation_phase_def run_serialize_phase_def)

text \<open>The middle of a run, from a world in which the result object \<open>r\<close> exists.\<close>

definition run_post :: "world \<Rightarrow> nat \<Rightarrow> nat \<Rightarrow> olnk_session \<Rightarrow> olnk_status + olnk_status \<Rightarrow> world \<Rightarrow> bool" where
  "run_post w s r ses st w' \<longleftrightarrow> run_frame w w' \<and>
     (case st of
        Inl e \<Rightarrow> run_quiet w w' \<and> w_results w' = (w_results w)(r := None) \<and>
          e \<in> {OLNK_STATUS_OUT_OF_MEMORY, OLNK_STATUS_INTERNAL_ERROR}
      | Inr final \<Rightarrow>
          (case run_error w ses of
             Some msg \<Rightarrow> final = OLNK_STATUS_INVALID_ARGUMENT \<and> run_reported w s ses msg w'
           | None \<Rightarrow>
               (final = OLNK_STATUS_OK \<and>
                (\<exists>f. olnk_find_format (env_lua_formats (w_env w)) (Some (run_format_name ses)) = Some f \<and>
                     run_ok w s r ses f w')) \<or>
               (final \<in> {OLNK_STATUS_OUT_OF_MEMORY, OLNK_STATUS_INTERNAL_ERROR, OLNK_STATUS_IO_ERROR} \<and>
                run_quiet w w' \<and> w_results w' = w_results w)))"

definition run_pre :: "world \<Rightarrow> nat \<Rightarrow> nat \<Rightarrow> olnk_session \<Rightarrow> bool" where
  "run_pre w s r ses \<longleftrightarrow> w_sessions w s = Some ses \<and> ctx_live w (ses_context ses) \<and>
     w_diags w (w_next w) = None \<and> w_instances w (w_next w) = None \<and> w_results w r \<noteq> None \<and>
     machine_table (w_machines w)"

lemma status_of_exn_cases: "status_of_exn e = OLNK_STATUS_OUT_OF_MEMORY \<or> status_of_exn e = OLNK_STATUS_INTERNAL_ERROR"
  by (cases e) (simp_all add: status_of_exn_def)

text \<open>A report is what \<open>run_post\<close> asks for when the run has that configuration error.\<close>

lemma wp_report_post:
  assumes "run_pre w s r ses" "run_error w ses = Some msg"
  shows "wp (run_report s r msg) (run_post w s r ses) E F w"
proof -
  from assms(1) obtain res where "w_results w r = Some res" by (auto simp: run_pre_def)
  then show ?thesis
    using assms status_of_exn_cases
    by (intro wp_run_report) (auto simp: run_pre_def run_post_def)
qed

lemma wp_find_machine [wp_rules]:
  "wp (find_machine_api name) Q E F w =
     (case olnk_find_machine (env_lua_machines (w_env w)) name (w_machines w) of
        (m, tbl) \<Rightarrow> Q m (w\<lparr>w_machines := tbl\<rparr>))"
  by (simp add: wp_def find_machine_api_def split: prod.split)

lemma run_post_machines:
  "run_post w s r ses st v \<Longrightarrow> machine_table tbl \<Longrightarrow> run_post w s r ses st (v\<lparr>w_machines := tbl\<rparr>)"
  unfolding run_post_def run_frame_def run_ok_def run_quiet_def run_reported_def Let_def
  by (cases st) (simp_all split: option.splits)

lemma run_rel_upd [simp]:
  "run_frame (w\<lparr>w_tick := t\<rparr>) v = run_frame w v" "run_frame (w\<lparr>w_machines := tbl\<rparr>) v = run_frame w v"
  "run_ok (w\<lparr>w_tick := t\<rparr>) s r ses f v = run_ok w s r ses f v"
  "run_ok (w\<lparr>w_machines := tbl\<rparr>) s r ses f v = run_ok w s r ses f v"
  "run_quiet (w\<lparr>w_tick := t\<rparr>) v = run_quiet w v" "run_quiet (w\<lparr>w_machines := tbl\<rparr>) v = run_quiet w v"
  "run_reported (w\<lparr>w_tick := t\<rparr>) s ses msg v = run_reported w s ses msg v"
  "run_reported (w\<lparr>w_machines := tbl\<rparr>) s ses msg v = run_reported w s ses msg v"
  "run_error (w\<lparr>w_tick := t\<rparr>) ses = run_error w ses" "run_error (w\<lparr>w_machines := tbl\<rparr>) ses = run_error w ses"
  by (simp_all add: run_frame_def run_ok_def run_quiet_def run_reported_def run_error_def)

lemma run_post_upd [simp]:
  "run_post (w\<lparr>w_tick := t\<rparr>) s r ses = run_post w s r ses"
  "run_post (w\<lparr>w_machines := tbl\<rparr>) s r ses = run_post w s r ses"
  by (rule ext, rule ext, rename_tac st v, case_tac st; simp add: run_post_def split: option.split)+

lemma run_post_settled:
  assumes "run_post w s r ses (Inr final) v"
  shows "final \<noteq> OLNK_STATUS_NOT_IMPLEMENTED"
  using assms by (auto simp: run_post_def split: option.splits)

definition run_exn :: "world \<Rightarrow> world \<Rightarrow> bool" where
  "run_exn w w' \<longleftrightarrow> run_frame w w' \<and> run_quiet w w' \<and> w_results w' = w_results w"

lemma run_frame_machines: "run_frame w v \<Longrightarrow> machine_table (w_machines v)"
  by (simp add: run_frame_def)

lemma run_post_frame: "run_post w s r ses st v \<Longrightarrow> run_frame w v"
  by (simp add: run_post_def)

lemma machine_table_snd:
  "machine_table (w_machines v) \<Longrightarrow> machine_table (snd (olnk_find_machine reg name (w_machines v)))"
  by (metis find_machine_api_table prod.collapse)

text \<open>After a reported error the machine lookup changes nothing but the table.\<close>

lemma wp_run_machine_reported:
  assumes "run_post w s r ses (Inr final) v" "final \<noteq> OLNK_STATUS_OK"
  shows "wp (run_machine s r ses fd final) (run_post w s r ses) E F v"
proof -
  have "machine_table (w_machines v)" using run_frame_machines [OF run_post_frame [OF assms(1)]] .
  then have "run_post w s r ses (Inr final) (v\<lparr>w_machines := tbl\<rparr>)"
    if "olnk_find_machine reg name (w_machines v) = (m, tbl)" for reg name m tbl
    using run_post_machines [OF assms(1)] find_machine_api_table that by blast
  then show ?thesis
    using assms(2) by (simp add: run_machine_def run_machine_name_def [symmetric] Let_def wp_rules split: prod.split)
qed

lemma run_pre_upd [simp]:
  "run_pre (w\<lparr>w_tick := t\<rparr>) s r ses = run_pre w s r ses"
  "machine_table tbl \<Longrightarrow> machine_table (w_machines w) \<Longrightarrow> run_pre (w\<lparr>w_machines := tbl\<rparr>) s r ses = run_pre w s r ses"
  by (auto simp: run_pre_def ctx_live_def split: option.splits)

lemma run_exn_tick:
  "run_pre w s r ses \<Longrightarrow> run_exn w (w\<lparr>w_tick := t\<rparr>)"
  "run_pre w s r ses \<Longrightarrow> machine_table tbl \<Longrightarrow> run_exn w (w\<lparr>w_machines := tbl, w_tick := t\<rparr>)"
  by (simp_all add: run_exn_def run_pre_def run_frame_def run_quiet_def)

lemma wp_serialize_post:
  assumes pre: "run_pre w s r ses" and noex: "F Terminate" and err: "run_error w ses = None"
    and f: "olnk_find_format (env_lua_formats (w_env w)) (Some (run_format_name ses)) = Some f"
  shows "wp (run_serialize s r ses f) (run_post w s r ses) E F w"
proof -
  obtain res where res: "w_results w r = Some res" using pre by (auto simp: run_pre_def)
  have "cfg_input_files (ses_snapshot_config ses) \<noteq> []" "cfg_output_path (ses_snapshot_config ses) \<noteq> []"
    using err by (auto simp: run_error_def split: if_splits)
  then show ?thesis
    using pre res f err noex by (intro wp_run_serialize [OF olnk_find_format_range [OF f]])
      (auto simp: run_pre_def run_post_def)
qed

lemma wp_run_machine_ok:
  assumes pre: "run_pre w s r ses" and noex: "F Terminate"
    and cfg: "cfg_input_files (ses_snapshot_config ses) \<noteq> []" "cfg_output_path (ses_snapshot_config ses) \<noteq> []"
    and f: "olnk_find_format (env_lua_formats (w_env w)) (Some (run_format_name ses)) = Some f"
  shows "wp (run_machine s r ses (Some f) OLNK_STATUS_OK) (run_post w s r ses) (\<lambda>_. run_exn w) F w"
proof -
  obtain m tbl where m: "olnk_find_machine (env_lua_machines (w_env w)) (Some (run_machine_name ses)) (w_machines w) = (m, tbl)"
    by fastforce
  have tbl: "machine_table tbl" "machine_table (w_machines w)"
    using pre find_machine_api_table m by (auto simp: run_pre_def)
  have fst_m: "fst (olnk_find_machine (env_lua_machines (w_env w)) (Some (run_machine_name ses)) g_builtin_machines) = m"
    using olnk_find_machine_fst [OF tbl(2), symmetric] m by simp
  have pre': "run_pre (w\<lparr>w_machines := tbl, w_tick := t\<rparr>) s r ses" "run_pre (w\<lparr>w_machines := tbl\<rparr>) s r ses" for t
    using pre tbl by simp_all
  note unf = run_machine_def run_machine_name_def [symmetric] Let_def wp_rules m
  show ?thesis
  proof (cases m)
    case None
    have err: "run_error (w\<lparr>w_machines := tbl, w_tick := t\<rparr>) ses = Some (unknown_machine_message (run_machine_name ses))" for t
      using cfg f None fst_m by (simp add: run_error_def)
    have "wp (run_report s r (unknown_machine_message (run_machine_name ses)))
        (\<lambda>st2. wp (case st2 of Inl e \<Rightarrow> mret (Inl e) | Inr final2 \<Rightarrow>
              if final2 = OLNK_STATUS_OK
              then case Some f of None \<Rightarrow> mret (Inr final2) | Some x \<Rightarrow> run_serialize s r ses x
              else mret (Inr final2))
           (run_post w s r ses) (\<lambda>_. run_exn w) F) (\<lambda>_. run_exn w) F (w\<lparr>w_machines := tbl, w_tick := t\<rparr>)" for t
      by (rule wp_mono [OF wp_report_post [OF pre'(1) err]])
        (use err in \<open>auto simp: wp_rules run_post_def [of _ _ _ _ "Inr _"] split: sum.split\<close>)
    then show ?thesis using None run_exn_tick [OF pre] tbl
      by (simp add: unf split: option.split)
  next
    case (Some i)
    have "run_error (w\<lparr>w_machines := tbl\<rparr>) ses = None"
      using cfg f Some fst_m by (simp add: run_error_def)
    from wp_serialize_post [where F = F and E = "\<lambda>_. run_exn w", OF pre'(2) noex this, of f] show ?thesis
      using Some f by (simp add: unf)
  qed
qed

lemma wp_run_lookup:
  assumes pre: "run_pre w s r ses" and noex: "F Terminate"
    and cfg: "cfg_input_files (ses_snapshot_config ses) \<noteq> []" "cfg_output_path (ses_snapshot_config ses) \<noteq> []"
  shows "wp (run_lookup s r ses) (run_post w s r ses) (\<lambda>_. run_exn w) F w"
proof (cases "olnk_find_format (env_lua_formats (w_env w)) (Some (run_format_name ses))")
  case None
  have err: "run_error (w\<lparr>w_tick := t\<rparr>) ses = Some (unknown_format_message (run_format_name ses))" for t
    using cfg None by (simp add: run_error_def)
  have pre': "run_pre (w\<lparr>w_tick := t\<rparr>) s r ses" for t using pre by simp
  have "wp (run_report s r (unknown_format_message (run_format_name ses)))
      (\<lambda>st1. wp (case st1 of Inl e \<Rightarrow> mret (Inl e) | Inr final1 \<Rightarrow> run_machine s r ses None final1)
         (run_post w s r ses) (\<lambda>_. run_exn w) F) (\<lambda>_. run_exn w) F (w\<lparr>w_tick := t\<rparr>)" for t
  proof (rule wp_mono [OF wp_report_post [OF pre' err]])
    fix st v assume post: "run_post (w\<lparr>w_tick := t\<rparr>) s r ses st v"
    show "wp (case st of Inl e \<Rightarrow> mret (Inl e) | Inr final1 \<Rightarrow> run_machine s r ses None final1)
         (run_post w s r ses) (\<lambda>_. run_exn w) F v"
    proof (cases st)
      case (Inr final)
      then have "final = OLNK_STATUS_INVALID_ARGUMENT"
        using post err by (simp add: run_post_def)
      then show ?thesis using post Inr by (simp add: wp_run_machine_reported)
    qed (use post in \<open>simp add: wp_rules\<close>)
  qed (simp_all add: noex)
  then show ?thesis using None run_exn_tick [OF pre]
    by (simp add: run_lookup_def run_format_name_def [symmetric] Let_def wp_rules split: option.split)
next
  case (Some f)
  then show ?thesis using wp_run_machine_ok [where F = F, OF pre noex cfg Some]
    by (simp add: run_lookup_def run_format_name_def [symmetric] Let_def wp_rules)
qed

lemma wp_run_pipeline:
  assumes pre: "run_pre w s r ses" and noex: "F Terminate"
    and cfg: "cfg_input_files (ses_snapshot_config ses) \<noteq> []" "cfg_output_path (ses_snapshot_config ses) \<noteq> []"
  shows "wp (run_pipeline s r ses) (run_post w s r ses) (\<lambda>_. run_exn w) F w"
proof -
  have "wp (run_lookup s r ses)
     (\<lambda>st. wp (case st of Inl e \<Rightarrow> mret (Inl e) | Inr final_status \<Rightarrow>
            if final_status = OLNK_STATUS_NOT_IMPLEMENTED
            then mbind (add_diagnostic (Some s) OLNK_DIAGNOSTIC_ERROR
                          (Some ''internal linker feature is not fully wired yet'') None 0 0) (\<lambda>diag_status.
                   if diag_status \<noteq> OLNK_STATUS_OK
                   then mseq (delete_result (Some r)) (mret (Inl diag_status))
                   else mret (Inr final_status))
            else mret (Inr final_status)) (run_post w s r ses) (\<lambda>_. run_exn w) F) (\<lambda>_. run_exn w) F w"
    by (rule wp_mono [OF wp_run_lookup [where F = F, OF assms]])
      (auto simp: wp_rules dest: run_post_settled split: sum.split)
  then show ?thesis by (simp add: run_pipeline_def wp_mbind)
qed

lemma wp_run_select:
  assumes pre: "run_pre w s r ses" and noex: "F Terminate"
  shows "wp (run_select s r ses) (run_post w s r ses) E F w"
proof (cases "cfg_input_files (ses_snapshot_config ses) = [] \<or> cfg_output_path (ses_snapshot_config ses) = []")
  case True
  then show ?thesis
    by (auto simp: run_select_def run_error_def intro!: wp_report_post pre)
next
  case False
  have "wp (run_pipeline s r ses) (run_post w s r ses)
      (\<lambda>e. wp (mseq (delete_result (Some r)) (mret (Inl (status_of_exn e)))) (run_post w s r ses) E F) F w"
  proof (rule wp_mono [OF wp_run_pipeline [where F = F, OF pre noex]])
    fix e v assume "run_exn w v"
    with pre status_of_exn_cases [of e]
    show "wp (mseq (delete_result (Some r)) (mret (Inl (status_of_exn e)))) (run_post w s r ses) E F v"
      by (auto simp: wp_rules heap_defs run_exn_def run_pre_def run_post_def run_frame_def run_quiet_def)
  qed (use False noex in auto)
  with False show ?thesis by (simp add: run_select_def wp_mtry)
qed

section \<open>The end of a run\<close>

definition sev_count :: "world \<Rightarrow> olnk_diagnostic_severity \<Rightarrow> nat list \<Rightarrow> nat" where
  "sev_count w sev ds = length (filter (\<lambda>d. diag_severity (the (w_diags w d)) = sev) ds)"

lemma wp_count_loop:
  assumes "\<And>d. d \<in> set ds \<Longrightarrow> w_diags w d \<noteq> None"
  shows "wp (count_diagnostics_loop sev ds n) Q E F w = Q (n + of_nat (sev_count w sev ds)) w"
  using assms
proof (induction ds arbitrary: n)
  case (Cons d ds)
  then obtain x where "w_diags w d = Some x" by force
  with Cons show ?case
    by (simp add: wp_rules get_diagnostic_def sev_count_def add.assoc)
qed (simp add: wp_rules sev_count_def)

text \<open>The result object as \<open>run_finish\<close> leaves it.\<close>

definition filled_result :: "world \<Rightarrow> olnk_session \<Rightarrow> ResultStorage \<Rightarrow> olnk_status \<Rightarrow> ResultStorage" where
  "filled_result w ses res final = res\<lparr>res_status := final, res_elapsed_ns := 0,
     res_input_count := of_nat (length (cfg_input_files (ses_snapshot_config ses))),
     res_warning_count := of_nat (sev_count w OLNK_DIAGNOSTIC_WARNING (ses_diagnostics ses)),
     res_error_count := of_nat (sev_count w OLNK_DIAGNOSTIC_ERROR (ses_diagnostics ses))
                        + of_nat (sev_count w OLNK_DIAGNOSTIC_FATAL (ses_diagnostics ses)),
     res_output_path := cfg_output_path (ses_snapshot_config ses),
     res_output_size :=
       (if final \<noteq> OLNK_STATUS_OK then 0
        else if res_output_size res = 0
        then (case w_files w (cfg_output_path (ses_snapshot_config ses)) of None \<Rightarrow> 0 | Some c \<Rightarrow> of_nat (length c))
        else res_output_size res)\<rparr>"

lemma sev_count_upd [simp]: "sev_count (w\<lparr>w_results := m\<rparr>) sev ds = sev_count w sev ds"
  by (simp add: sev_count_def)

lemma wp_populate:
  assumes "w_sessions w s = Some ses" "\<And>d. d \<in> set (ses_diagnostics ses) \<Longrightarrow> w_diags w d \<noteq> None"
    "w_results w r = Some res" "F Terminate"
    and ok: "\<And>w'. same_rest w w' \<Longrightarrow> w_next w' = w_next w \<Longrightarrow> w_sessions w' = w_sessions w \<Longrightarrow> w_diags w' = w_diags w \<Longrightarrow>
       w_results w' = (w_results w)(r \<mapsto> (filled_result w ses res final)\<lparr>res_output_size := res_output_size res\<rparr>) \<Longrightarrow> Q () w'"
  shows "wp (populate_result_from_session (Some r) (Some s) final 0) Q E F w"
  using assms(1-4)
  by (auto simp: populate_result_from_session_def wp_rules heap_defs count_diagnostics_with_severity_def
      wp_count_loop same_rest_def filled_result_def intro!: ok split: option.splits)

lemma wp_run_finish:
  assumes "w_sessions w s = Some ses" "\<And>d. d \<in> set (ses_diagnostics ses) \<Longrightarrow> w_diags w d \<noteq> None"
    "w_results w r = Some res" "F Terminate" "ctx_live w (ses_context ses)"
    and same: "ses_snapshot_config ses0 = ses_snapshot_config ses" "ses_context ses0 = ses_context ses"
    and ok: "\<And>w'. same_rest w w' \<Longrightarrow> w_next w' = w_next w \<Longrightarrow> w_sessions w' = w_sessions w \<Longrightarrow> w_diags w' = w_diags w \<Longrightarrow>
       w_results w' = (w_results w)(r \<mapsto> filled_result w ses res final) \<Longrightarrow> Q (final, Some (Some r)) w'"
  shows "wp (run_finish s r ses0 final) Q E F w"
  unfolding run_finish_def wp_mseq
proof (rule wp_populate [OF assms(1,2,3), where final = final])
  fix v assume v: "same_rest w v" "w_next v = w_next w" "w_sessions v = w_sessions w" "w_diags v = w_diags w"
    "w_results v = (w_results w)(r \<mapsto> (filled_result w ses res final)\<lparr>res_output_size := res_output_size res\<rparr>)"
  have ctx: "ctx_live (v\<lparr>w_results := m\<rparr>) (ses_context ses)" "ctx_live v (ses_context ses)" for m
    using assms(5) v(1) by (auto simp: ctx_live_def same_rest_def split: option.splits)
  have fin: "Q (fs, Some (Some r)) (v\<lparr>w_results := m, w_events := es\<rparr>)"
    if "fs = final" "m = (w_results w)(r \<mapsto> filled_result w ses res final)" for fs es m
    unfolding that(1) using v that(2) by (intro ok) (auto simp: same_rest_def)
  have fin': "Q (fs, Some (Some r)) (v\<lparr>w_events := es\<rparr>)"
    if "fs = final" "w_results v = (w_results w)(r \<mapsto> filled_result w ses res final)" for fs es
    unfolding that(1) using v that(2) by (intro ok) (auto simp: same_rest_def)
  show "wp (if final \<noteq> OLNK_STATUS_OK then upd_result r (\<lambda>x. x\<lparr>res_output_size := 0\<rparr>)
        else mbind (get_result r) (\<lambda>res. if res_output_size res = 0
              then mbind (file_size_or_zero (cfg_output_path (ses_snapshot_config ses0))) (\<lambda>sz.
                     upd_result r (\<lambda>x. x\<lparr>res_output_size := sz\<rparr>)) else mret ()))
     (\<lambda>_. wp (if final = OLNK_STATUS_OK
            then safe_emit_log (ses_context ses0) OLNK_LOG_INFO (Some ''olnk session completed'')
            else safe_emit_log (ses_context ses0) OLNK_LOG_ERROR (Some ''olnk session failed: invalid configuration''))
      (\<lambda>_. wp (mret (final, Some (Some r))) Q E F) E F) E F v"
    using v ctx
    by (auto simp: wp_rules heap_defs file_size_or_zero_def same same_rest_def filled_result_def
        intro!: wp_safe_emit_log fin fin' split: if_splits)
qed (use assms(4) in auto)

section \<open>\<open>olnk_session_run\<close> as a whole\<close>

text \<open>What a run promises about the result it hands out, given the session before the run.\<close>

definition run_result :: "world \<Rightarrow> olnk_session \<Rightarrow> olnk_status \<Rightarrow> nat list \<Rightarrow> ResultStorage \<Rightarrow> world \<Rightarrow> bool" where
  "run_result w ses st ds res w' \<longleftrightarrow>
     res_status res = st \<and> res_output_path res = cfg_output_path (ses_snapshot_config ses) \<and>
     res_input_count res = of_nat (length (cfg_input_files (ses_snapshot_config ses))) \<and>
     res_warning_count res = 0 \<and>
     (case run_error w ses of
        Some msg \<Rightarrow> st = OLNK_STATUS_INVALID_ARGUMENT \<and> res_error_count res = 1 \<and> res_output_size res = 0 \<and>
          (\<exists>d. ds = [d] \<and> w_diags w' d = Some (new_diag OLNK_DIAGNOSTIC_ERROR msg))
      | None \<Rightarrow> ds = [] \<and> res_error_count res = 0 \<and>
          (if st = OLNK_STATUS_OK
           then \<exists>f. olnk_find_format (env_lua_formats (w_env w)) (Some (run_format_name ses)) = Some f \<and>
                  w_files w' = (w_files w)(cfg_output_path (ses_snapshot_config ses) \<mapsto>
                     env_written (w_env w) (cfg_output_path (ses_snapshot_config ses)) (format_payload f)) \<and>
                  res_output_size res = of_nat (length (format_payload f))
           else st \<in> {OLNK_STATUS_OUT_OF_MEMORY, OLNK_STATUS_INTERNAL_ERROR, OLNK_STATUS_IO_ERROR} \<and>
                res_output_size res = 0))"

definition session_run_post ::
    "world \<Rightarrow> nat \<Rightarrow> olnk_session \<Rightarrow> olnk_status \<times> nat option option \<Rightarrow> world \<Rightarrow> bool" where
  "session_run_post w s ses ret w' \<longleftrightarrow>
     world_ok w' \<and> w_env w' = w_env w \<and> w_contexts w' = w_contexts w \<and> w_configs w' = w_configs w \<and>
     (\<exists>ds. w_sessions w' = (w_sessions w)(s \<mapsto> ses\<lparr>ses_diagnostics := ds\<rparr>) \<and>
       (case ret of
          (st, Some (Some r)) \<Rightarrow> w_results w r = None \<and>
             (\<exists>res. w_results w' = (w_results w)(r \<mapsto> res) \<and> run_result w ses st ds res w')
        | (st, Some None) \<Rightarrow> st \<in> {OLNK_STATUS_OUT_OF_MEMORY, OLNK_STATUS_INTERNAL_ERROR} \<and> ds = [] \<and>
             w_results w' = w_results w
        | (st, None) \<Rightarrow> False))"

lemma world_okI:
  assumes "fresh_ok w'" "diags_ok (w_sessions w') (w_diags w')" "contexts_ok w'"
    "w_instances w' = Map.empty" "machine_table (w_machines w')"
  shows "world_ok w'"
  using assms by (simp add: world_ok_def)

lemma fresh_ok_mono:
  assumes "fresh_ok w" "w_next w \<le> w_next w'"
    and "\<And>a. w_next w' \<le> a \<Longrightarrow> w_contexts w' a = w_contexts w a \<and> w_configs w' a = w_configs w a \<and>
         w_sessions w' a = w_sessions w a \<and> w_diags w' a = w_diags w a \<and> w_results w' a = w_results w a \<and>
         w_instances w' a = w_instances w a"
  shows "fresh_ok w'"
  using assms by (auto simp: fresh_ok_def)

lemma contexts_ok_upd:
  "contexts_ok w \<Longrightarrow> w_sessions w s = Some ses \<Longrightarrow> w_sessions w' = (w_sessions w)(s \<mapsto> ses') \<Longrightarrow>
   ses_context ses' = ses_context ses \<Longrightarrow> w_contexts w' = w_contexts w \<Longrightarrow> contexts_ok w'"
  by (auto simp: contexts_ok_def split: if_splits)

lemma world_ok_ctx_live: "world_ok w \<Longrightarrow> w_sessions w s = Some ses \<Longrightarrow> ctx_live w (ses_context ses)"
  by (auto simp: world_ok_def contexts_ok_def ctx_live_def split: option.splits)

text \<open>The state in which the middle of the run starts: diagnostics cleared, result allocated.\<close>

definition run_start :: "world \<Rightarrow> nat \<Rightarrow> olnk_session \<Rightarrow> world \<Rightarrow> bool" where
  "run_start w s ses w2 \<longleftrightarrow> world_ok w2 \<and> w_env w2 = w_env w \<and> w_contexts w2 = w_contexts w \<and> w_configs w2 = w_configs w \<and>
     w_files w2 = w_files w \<and> w_sessions w2 = (w_sessions w)(s \<mapsto> ses\<lparr>ses_diagnostics := []\<rparr>) \<and>
     w_results w2 = (w_results w)(w_next w \<mapsto> ResultStorage_default) \<and> w_results w (w_next w) = None"

lemma run_start_pre:
  assumes "run_start w s ses w2"
  shows "run_pre w2 s (w_next w) (ses\<lparr>ses_diagnostics := []\<rparr>)"
  using assms world_ok_ctx_live [of w2 s "ses\<lparr>ses_diagnostics := []\<rparr>"]
  by (auto simp: run_start_def run_pre_def world_ok_def fresh_ok_def)

lemma run_name_diags [simp]:
  "run_format_name (ses\<lparr>ses_diagnostics := ds\<rparr>) = run_format_name ses"
  "run_machine_name (ses\<lparr>ses_diagnostics := ds\<rparr>) = run_machine_name ses"
  by (simp_all add: run_format_name_def run_machine_name_def)

lemma run_error_diags [simp]: "run_error w (ses\<lparr>ses_diagnostics := ds\<rparr>) = run_error w ses"
  by (simp add: run_error_def)

lemma run_error_env: "w_env w = w_env w' \<Longrightarrow> run_error w ses = run_error w' ses"
  by (simp add: run_error_def)

lemma world_ok_quiet:
  assumes "world_ok w" "run_frame w v" "run_quiet w v"
    and "\<And>a. w_next v \<le> a \<Longrightarrow> w_results v a = None"
  shows "world_ok v"
proof (rule world_okI)
  show "fresh_ok v" using assms by (auto simp: world_ok_def fresh_ok_def run_frame_def run_quiet_def)
  show "contexts_ok v" using assms by (simp add: world_ok_def contexts_ok_def run_frame_def run_quiet_def)
qed (use assms in \<open>auto simp: world_ok_def run_frame_def run_quiet_def\<close>)

lemma world_ok_reported:
  assumes "world_ok w" "run_frame w v" "run_reported w s ses msg v" "w_sessions w s = Some ses"
  shows "world_ok v"
proof (rule world_okI)
  have "w_diags w (w_next w) = None" using assms(1) by (simp add: world_ok_def fresh_ok_def)
  then show "diags_ok (w_sessions v) (w_diags v)"
    using assms diags_ok_add [of "w_sessions w" "w_diags w" s ses "w_next w"]
    by (simp add: world_ok_def run_reported_def)
  show "fresh_ok v" using assms by (auto simp: world_ok_def fresh_ok_def run_frame_def run_reported_def)
  show "contexts_ok v"
    using assms contexts_ok_upd [of w s ses v] by (auto simp: world_ok_def run_frame_def run_reported_def)
qed (use assms in \<open>auto simp: world_ok_def run_frame_def\<close>)

lemma world_ok_result:
  assumes "world_ok v" "same_rest v w'" "w_next w' = w_next v" "w_sessions w' = w_sessions v" "w_diags w' = w_diags v"
    "w_results w' = (w_results v)(r \<mapsto> x)" "r < w_next v"
  shows "world_ok w'"
  using assms by (auto simp: world_ok_def same_rest_def fresh_ok_def contexts_ok_def)

lemma payload_size: "f < 4 \<Longrightarrow> (of_nat (length (format_payload f)) :: u64) \<noteq> 0"
proof -
  assume "f < 4"
  then consider "f = 0" | "f = 1" | "f = 2" | "f = 3" by linarith
  then show ?thesis
    by cases (simp_all add: format_payload_def builtin_payload_def g_elf_desc_def g_pe_desc_def g_macho_desc_def
        g_wasm_desc_def builtin_format_desc_def)
qed

text \<open>The end of a run from the state the middle leaves.\<close>

lemma wp_run_tail:
  assumes start: "run_start w s ses w2" and post: "run_post w2 s (w_next w) (ses\<lparr>ses_diagnostics := []\<rparr>) st v"
    and ses: "w_sessions w s = Some ses" and noex: "F Terminate"
  shows "wp (case st of Inl early \<Rightarrow> mret (early, Some None)
      | Inr final \<Rightarrow> run_finish s (w_next w) (ses\<lparr>ses_diagnostics := []\<rparr>) final) (session_run_post w s ses) E F v"
proof -
  let ?r = "w_next w" and ?ses = "ses\<lparr>ses_diagnostics := []\<rparr>"
  note S = start [unfolded run_start_def]
  have frame: "run_frame w2 v" using post by (rule run_post_frame)
  have err: "run_error w2 ses = run_error w ses" using S by (intro run_error_env) simp
  have r2: "?r < w_next w2"
    using S by (metis fresh_ok_def fun_upd_same linorder_not_less option.distinct(1) world_ok_def)
  then have r: "?r < w_next v" using frame by (simp add: run_frame_def)
  have env: "w_env v = w_env w" "w_contexts v = w_contexts w" "w_configs v = w_configs w"
    using S frame by (simp_all add: run_frame_def)
  have fresh: "w_results w a = None" "a \<noteq> ?r" if "w_next v \<le> a" for a
  proof -
    have "fresh_ok w2" "w_next w2 \<le> a" using S frame that by (simp_all add: world_ok_def run_frame_def)
    then have "w_results w2 a = None" unfolding fresh_ok_def by blast
    then show "w_results w a = None" "a \<noteq> ?r" using S by (auto split: if_splits)
  qed
  show ?thesis
  proof (cases st)
    case (Inl e)
    with post have q: "run_quiet w2 v" "w_results v = (w_results w2)(?r := None)"
      "e \<in> {OLNK_STATUS_OUT_OF_MEMORY, OLNK_STATUS_INTERNAL_ERROR}" by (simp_all add: run_post_def)
    have "world_ok v" using S frame q fresh by (intro world_ok_quiet [of w2 v]) auto
    moreover have "w_results v = w_results w" using q(2) S by auto
    ultimately show ?thesis using Inl q S env
      by (auto simp: wp_rules session_run_post_def run_quiet_def)
  next
    case (Inr final)
    note fin = wp_run_finish [where F = F and final = final and r = ?r and s = s and ?ses0.0 = ?ses]
    show ?thesis
    proof (cases "run_error w ses")
      case (Some msg)
      let ?ses' = "ses\<lparr>ses_diagnostics := [w_next w2]\<rparr>"
      from post Inr Some err have p: "final = OLNK_STATUS_INVALID_ARGUMENT" "run_reported w2 s ?ses msg v"
        by (simp_all add: run_post_def)
      have okv: "world_ok v" using S frame p by (intro world_ok_reported [of w2 v s ?ses msg]) auto
      have sv: "w_sessions v = (w_sessions w)(s \<mapsto> ?ses')" "w_results v = w_results w2"
        "w_diags v (w_next w2) = Some (new_diag OLNK_DIAGNOSTIC_ERROR msg)"
        using p(2) S by (simp_all add: run_reported_def)
      have ctx: "ctx_live v (ses_context ses)" using world_ok_ctx_live [OF okv, of s ?ses'] sv by simp
      show ?thesis unfolding Inr sum.case
      proof (rule fin [of v ?ses' ResultStorage_default])
        fix w' assume f: "same_rest v w'" "w_next w' = w_next v" "w_sessions w' = w_sessions v" "w_diags w' = w_diags v"
          "w_results w' = (w_results v)(?r \<mapsto> filled_result v ?ses' ResultStorage_default final)"
        have "world_ok w'" using world_ok_result [OF okv f r] .
        moreover have "run_result w ses final [w_next w2] (filled_result v ?ses' ResultStorage_default final) w'"
          using Some p(1) sv f(4)
          by (simp add: run_result_def filled_result_def sev_count_def new_diag_def)
        ultimately show "session_run_post w s ses (final, Some (Some ?r)) w'"
          using f S sv env by (auto simp: session_run_post_def same_rest_def)
      qed (use sv S noex ctx in auto)
    next
      case None
      from post Inr None err S have p: "run_quiet w2 v" "\<exists>res. w_results v = (w_results w)(?r \<mapsto> res) \<and>
          (if final = OLNK_STATUS_OK
           then \<exists>f. olnk_find_format (env_lua_formats (w_env w)) (Some (run_format_name ses)) = Some f \<and> f < 4 \<and>
              w_files v = (w_files w)(cfg_output_path (ses_snapshot_config ses) \<mapsto>
                 env_written (w_env w) (cfg_output_path (ses_snapshot_config ses)) (format_payload f)) \<and>
              res = ResultStorage_default\<lparr>res_output_size := of_nat (length (format_payload f))\<rparr>
           else final \<in> {OLNK_STATUS_OUT_OF_MEMORY, OLNK_STATUS_INTERNAL_ERROR, OLNK_STATUS_IO_ERROR} \<and>
              res = ResultStorage_default)"
        by (auto simp: run_post_def run_ok_def run_quiet_def Let_def)
      then obtain res where res: "w_results v = (w_results w)(?r \<mapsto> res)"
          "if final = OLNK_STATUS_OK
           then \<exists>f. olnk_find_format (env_lua_formats (w_env w)) (Some (run_format_name ses)) = Some f \<and> f < 4 \<and>
              w_files v = (w_files w)(cfg_output_path (ses_snapshot_config ses) \<mapsto>
                 env_written (w_env w) (cfg_output_path (ses_snapshot_config ses)) (format_payload f)) \<and>
              res = ResultStorage_default\<lparr>res_output_size := of_nat (length (format_payload f))\<rparr>
           else final \<in> {OLNK_STATUS_OUT_OF_MEMORY, OLNK_STATUS_INTERNAL_ERROR, OLNK_STATUS_IO_ERROR} \<and>
              res = ResultStorage_default" by blast
      have okv: "world_ok v" using S frame p(1) fresh res(1) by (intro world_ok_quiet [of w2 v]) auto
      have sv: "w_sessions v = (w_sessions w)(s \<mapsto> ?ses)" using p(1) S by (simp add: run_quiet_def)
      have ctx: "ctx_live v (ses_context ses)" using world_ok_ctx_live [OF okv, of s ?ses] sv by simp
      show ?thesis unfolding Inr sum.case
      proof (rule fin [of v ?ses res])
        fix w' assume f: "same_rest v w'" "w_next w' = w_next v" "w_sessions w' = w_sessions v" "w_diags w' = w_diags v"
          "w_results w' = (w_results v)(?r \<mapsto> filled_result v ?ses res final)"
        have "world_ok w'" using world_ok_result [OF okv f r] .
        moreover have "run_result w ses final [] (filled_result v ?ses res final) w'"
          using None res(2) f(1) payload_size
          by (auto simp: run_result_def filled_result_def sev_count_def same_rest_def ResultStorage_default_def
              split: if_splits)
        ultimately show "session_run_post w s ses (final, Some (Some ?r)) w'"
          using f S sv env res(1) by (auto simp: session_run_post_def same_rest_def)
      qed (use sv S noex ctx res in auto)
    qed
  qed
qed

lemma wp_olnk_session_run:
  assumes ok: "world_ok w" and ses: "w_sessions w s = Some ses" and noex: "F Terminate"
  shows "wp (olnk_session_run (Some s) (Some p)) (session_run_post w s ses) E F w"
proof -
  let ?w1 = "w\<lparr>w_diags := del_all (ses_diagnostics ses) (w_diags w),
                w_sessions := (w_sessions w)(s \<mapsto> ses\<lparr>ses_diagnostics := []\<rparr>)\<rparr>"
  let ?ses = "ses\<lparr>ses_diagnostics := []\<rparr>"
  have dok: "diags_ok (w_sessions w) (w_diags w)" using ok by (simp add: world_ok_def)
  have ctx: "ctx_live ?w1 (ses_context ses)"
    using world_ok_ctx_live [OF ok ses] by (auto simp: ctx_live_def split: option.splits)
  have okw: "world_ok w'" if "w_sessions w' = w_sessions ?w1" "w_diags w' = w_diags ?w1" "w_next w \<le> w_next w'"
    "w_contexts w' = w_contexts w" "w_configs w' = w_configs w" "w_instances w' = w_instances w"
    "w_machines w' = w_machines w" "\<And>a. w_next w' \<le> a \<Longrightarrow> w_results w' a = None" for w'
  proof (rule world_okI)
    show "fresh_ok w'" using ok that ses by (auto simp: world_ok_def fresh_ok_def del_all_def)
    show "diags_ok (w_sessions w') (w_diags w')" using diags_ok_clear [OF dok ses] that by simp
    show "contexts_ok w'" using ok that contexts_ok_upd [OF _ ses, of w' ?ses] by (simp add: world_ok_def)
  qed (use ok that in \<open>auto simp: world_ok_def\<close>)
  have res0: "w_results w a = None" if "w_next w \<le> a" for a using ok that by (simp add: world_ok_def fresh_ok_def)
  have tail: "wp (mbind make_result (\<lambda>result. case result of
              None \<Rightarrow> mret (OLNK_STATUS_OUT_OF_MEMORY, Some None)
            | Some r \<Rightarrow> mbind (run_select s r ?ses) (\<lambda>st. case st of
                   Inl early \<Rightarrow> mret (early, Some None)
                 | Inr final_status \<Rightarrow> run_finish s r ?ses final_status)))
      (session_run_post w s ses) (\<lambda>_ _. F Terminate) F (?w1\<lparr>w_events := es\<rparr>)" for es
  proof -
    let ?w2 = "?w1\<lparr>w_events := es, w_tick := Suc (w_tick w), w_next := Suc (w_next w),
        w_results := (w_results w)(w_next w \<mapsto> ResultStorage_default)\<rparr>"
    have start: "run_start w s ses ?w2"
      using res0 by (auto simp: run_start_def intro!: okw)
    have sel: "wp (run_select s (w_next w) ?ses) (\<lambda>st. wp (case st of
                   Inl early \<Rightarrow> mret (early, Some None)
                 | Inr final_status \<Rightarrow> run_finish s (w_next w) ?ses final_status)
         (session_run_post w s ses) (\<lambda>_ _. F Terminate) F) (\<lambda>_ _. F Terminate) F ?w2"
      by (rule wp_mono [OF wp_run_select [where F = F and E = "\<lambda>_ _. F Terminate", OF run_start_pre [OF start] noex]])
        (auto intro: wp_run_tail [where F = F, OF start _ ses noex])
    have oom: "session_run_post w s ses (OLNK_STATUS_OUT_OF_MEMORY, Some None) (?w1\<lparr>w_events := es, w_tick := t\<rparr>)" for t
      using ses res0 by (auto simp: session_run_post_def intro!: okw exI [of _ "[]"])
    show ?thesis using sel oom by (simp add: make_result_def wp_rules heap_defs split: option.split)
  qed
  have "wp (clear_diagnostics (Some s)) (\<lambda>_. wp (mbind (get_session s) (\<lambda>ses.
           mseq (safe_emit_log (ses_context ses) OLNK_LOG_INFO (Some ''starting olnk session''))
           (mbind make_result (\<lambda>result. case result of
              None \<Rightarrow> mret (OLNK_STATUS_OUT_OF_MEMORY, Some None)
            | Some r \<Rightarrow> mbind (run_select s r ses) (\<lambda>st. case st of
                   Inl early \<Rightarrow> mret (early, Some None)
                 | Inr final_status \<Rightarrow> run_finish s r ses final_status)))))
        (session_run_post w s ses) (\<lambda>_ _. F Terminate) F) (\<lambda>_ _. F Terminate) F w"
    by (rule wp_clear_diagnostics [OF ses dok])
      (use ctx tail in \<open>auto simp: wp_mbind wp_mseq get_session_def wp_mderef intro!: wp_safe_emit_log\<close>)
  then show ?thesis
    by (simp add: olnk_session_run_def wp_mnoexcept wp_mseq)
qed

end
