(* ===== verification/Olnk_Client.thy ===== *)
theory Olnk_Client
  imports Olnk_Ownership
begin

text \<open>
  A client of the C API: every prototype of \<open>include/olnk/olnk-api.h\<close> that takes or makes a handle is a
  constructor of a call datatype, \<open>exec\<close> dispatches a call to its implementation in \<open>src/olnk/api.cpp\<close>, and
  \<open>reachable\<close> are the worlds a client can produce with calls whose handles are null or live.  The
  safety theorem is by induction over these worlds.
\<close>

section \<open>Calls\<close>

datatype lib_call = CallInitialize | CallShutdown

datatype context_call =
    CallContextCreate
  | CallContextDestroy "nat option"
  | CallContextSetLogLevel "nat option" olnk_log_level
  | CallContextSetLogCallback "nat option" "nat option" "nat option"
  | CallContextSetDiagnosticCallback "nat option" "nat option" "nat option"
  | CallContextSetOption "nat option" cstr cstr

datatype config_call =
    CallConfigCreate
  | CallConfigDestroy "nat option"
  | CallConfigSetOutputPath "nat option" cstr
  | CallConfigSetMapPath "nat option" cstr
  | CallConfigSetEntrySymbol "nat option" cstr
  | CallConfigSetOutputKind "nat option" olnk_output_kind
  | CallConfigSetFormat "nat option" cstr
  | CallConfigSetMachine "nat option" cstr
  | CallConfigSetScriptPath "nat option" cstr
  | CallConfigSetThreadCount "nat option" u32
  | CallConfigSetIncremental "nat option" int
  | CallConfigSetDebugInfo "nat option" int
  | CallConfigDefine "nat option" cstr cstr
  | CallConfigAddInputFile "nat option" cstr
  | CallConfigAddLibraryPath "nat option" cstr
  | CallConfigAddLibrary "nat option" cstr
  | CallConfigAddPlugin "nat option" cstr

datatype session_call =
    CallSessionCreate "nat option" "nat option"
  | CallSessionDestroy "nat option"
  | CallSessionRun "nat option" "nat option option"
  | CallSessionReset "nat option"
  | CallSessionSetOption "nat option" cstr cstr
  | CallLink "nat option" "nat option" "nat option option"

datatype diagnostic_call =
    CallDiagnosticCount "nat option"
  | CallDiagnosticAt "nat option" size_t
  | CallDiagnosticSeverity "nat option"
  | CallDiagnosticMessage "nat option"
  | CallDiagnosticFile "nat option"
  | CallDiagnosticLine "nat option"
  | CallDiagnosticColumn "nat option"

datatype result_call =
    CallResultDestroy "nat option"
  | CallResultStatus "nat option"
  | CallResultOutputPath "nat option"
  | CallResultOutputSize "nat option"
  | CallResultElapsedNs "nat option"
  | CallResultInputCount "nat option"
  | CallResultWarningCount "nat option"
  | CallResultErrorCount "nat option"

datatype api_call =
    LibCall lib_call | ContextCall context_call | ConfigCall config_call | SessionCall session_call
  | DiagnosticCall diagnostic_call | ResultCall result_call

text \<open>Run a function for its effect.\<close>

definition ignore_ret :: "'a api \<Rightarrow> unit api" where
  "ignore_ret m = mbind m (\<lambda>_. mret ())"

primrec exec_lib :: "lib_call \<Rightarrow> unit api" where
  "exec_lib CallInitialize = ignore_ret olnk_initialize"
| "exec_lib CallShutdown = olnk_shutdown"

primrec exec_context :: "context_call \<Rightarrow> unit api" where
  "exec_context CallContextCreate = ignore_ret olnk_context_create"
| "exec_context (CallContextDestroy c) = olnk_context_destroy c"
| "exec_context (CallContextSetLogLevel c l) = olnk_context_set_log_level c l"
| "exec_context (CallContextSetLogCallback c f u) = olnk_context_set_log_callback c f u"
| "exec_context (CallContextSetDiagnosticCallback c f u) = olnk_context_set_diagnostic_callback c f u"
| "exec_context (CallContextSetOption c k v) = ignore_ret (olnk_context_set_option c k v)"

primrec exec_config :: "config_call \<Rightarrow> unit api" where
  "exec_config CallConfigCreate = ignore_ret olnk_config_create"
| "exec_config (CallConfigDestroy c) = olnk_config_destroy c"
| "exec_config (CallConfigSetOutputPath c v) = ignore_ret (olnk_config_set_output_path c v)"
| "exec_config (CallConfigSetMapPath c v) = ignore_ret (olnk_config_set_map_path c v)"
| "exec_config (CallConfigSetEntrySymbol c v) = ignore_ret (olnk_config_set_entry_symbol c v)"
| "exec_config (CallConfigSetOutputKind c k) = ignore_ret (olnk_config_set_output_kind c k)"
| "exec_config (CallConfigSetFormat c v) = ignore_ret (olnk_config_set_format c v)"
| "exec_config (CallConfigSetMachine c v) = ignore_ret (olnk_config_set_machine c v)"
| "exec_config (CallConfigSetScriptPath c v) = ignore_ret (olnk_config_set_script_path c v)"
| "exec_config (CallConfigSetThreadCount c n) = ignore_ret (olnk_config_set_thread_count c n)"
| "exec_config (CallConfigSetIncremental c n) = ignore_ret (olnk_config_set_incremental c n)"
| "exec_config (CallConfigSetDebugInfo c n) = ignore_ret (olnk_config_set_debug_info c n)"
| "exec_config (CallConfigDefine c k v) = ignore_ret (olnk_config_define c k v)"
| "exec_config (CallConfigAddInputFile c v) = ignore_ret (olnk_config_add_input_file c v)"
| "exec_config (CallConfigAddLibraryPath c v) = ignore_ret (olnk_config_add_library_path c v)"
| "exec_config (CallConfigAddLibrary c v) = ignore_ret (olnk_config_add_library c v)"
| "exec_config (CallConfigAddPlugin c v) = ignore_ret (olnk_config_add_plugin c v)"

primrec exec_session :: "session_call \<Rightarrow> unit api" where
  "exec_session (CallSessionCreate c g) = ignore_ret (olnk_session_create c g)"
| "exec_session (CallSessionDestroy s) = olnk_session_destroy s"
| "exec_session (CallSessionRun s p) = ignore_ret (olnk_session_run s p)"
| "exec_session (CallSessionReset s) = ignore_ret (olnk_session_reset s)"
| "exec_session (CallSessionSetOption s k v) = ignore_ret (olnk_session_set_option s k v)"
| "exec_session (CallLink c g p) = ignore_ret (olnk_link c g p)"

primrec exec_diagnostic :: "diagnostic_call \<Rightarrow> unit api" where
  "exec_diagnostic (CallDiagnosticCount s) = ignore_ret (olnk_session_diagnostic_count s)"
| "exec_diagnostic (CallDiagnosticAt s i) = ignore_ret (olnk_session_diagnostic_at s i)"
| "exec_diagnostic (CallDiagnosticSeverity d) = ignore_ret (olnk_diagnostic_severity_of d)"
| "exec_diagnostic (CallDiagnosticMessage d) = ignore_ret (olnk_diagnostic_message d)"
| "exec_diagnostic (CallDiagnosticFile d) = ignore_ret (olnk_diagnostic_file d)"
| "exec_diagnostic (CallDiagnosticLine d) = ignore_ret (olnk_diagnostic_line d)"
| "exec_diagnostic (CallDiagnosticColumn d) = ignore_ret (olnk_diagnostic_column d)"

primrec exec_result :: "result_call \<Rightarrow> unit api" where
  "exec_result (CallResultDestroy r) = olnk_result_destroy r"
| "exec_result (CallResultStatus r) = ignore_ret (olnk_result_status r)"
| "exec_result (CallResultOutputPath r) = ignore_ret (olnk_result_output_path r)"
| "exec_result (CallResultOutputSize r) = ignore_ret (olnk_result_output_size r)"
| "exec_result (CallResultElapsedNs r) = ignore_ret (olnk_result_elapsed_ns r)"
| "exec_result (CallResultInputCount r) = ignore_ret (olnk_result_input_count r)"
| "exec_result (CallResultWarningCount r) = ignore_ret (olnk_result_warning_count r)"
| "exec_result (CallResultErrorCount r) = ignore_ret (olnk_result_error_count r)"

primrec exec :: "api_call \<Rightarrow> unit api" where
  "exec (LibCall c) = exec_lib c"
| "exec (ContextCall c) = exec_context c"
| "exec (ConfigCall c) = exec_config c"
| "exec (SessionCall c) = exec_session c"
| "exec (DiagnosticCall c) = exec_diagnostic c"
| "exec (ResultCall c) = exec_result c"

section \<open>Valid handles\<close>

text \<open>A handle is null or live.  A context may be destroyed when no live session refers to it.\<close>

definition live :: "(nat \<rightharpoonup> 'a) \<Rightarrow> nat option \<Rightarrow> bool" where
  "live heap p \<longleftrightarrow> (case p of None \<Rightarrow> True | Some a \<Rightarrow> heap a \<noteq> None)"

definition context_unused :: "world \<Rightarrow> nat option \<Rightarrow> bool" where
  "context_unused w p \<longleftrightarrow> p \<noteq> None \<longrightarrow> (\<forall>s ses. w_sessions w s = Some ses \<longrightarrow> ses_context ses \<noteq> p)"

primrec valid_context :: "world \<Rightarrow> context_call \<Rightarrow> bool" where
  "valid_context w CallContextCreate = True"
| "valid_context w (CallContextDestroy c) = (live (w_contexts w) c \<and> context_unused w c)"
| "valid_context w (CallContextSetLogLevel c l) = live (w_contexts w) c"
| "valid_context w (CallContextSetLogCallback c f u) = live (w_contexts w) c"
| "valid_context w (CallContextSetDiagnosticCallback c f u) = live (w_contexts w) c"
| "valid_context w (CallContextSetOption c k v) = live (w_contexts w) c"

primrec valid_config :: "world \<Rightarrow> config_call \<Rightarrow> bool" where
  "valid_config w CallConfigCreate = True"
| "valid_config w (CallConfigDestroy c) = live (w_configs w) c"
| "valid_config w (CallConfigSetOutputPath c v) = live (w_configs w) c"
| "valid_config w (CallConfigSetMapPath c v) = live (w_configs w) c"
| "valid_config w (CallConfigSetEntrySymbol c v) = live (w_configs w) c"
| "valid_config w (CallConfigSetOutputKind c k) = live (w_configs w) c"
| "valid_config w (CallConfigSetFormat c v) = live (w_configs w) c"
| "valid_config w (CallConfigSetMachine c v) = live (w_configs w) c"
| "valid_config w (CallConfigSetScriptPath c v) = live (w_configs w) c"
| "valid_config w (CallConfigSetThreadCount c n) = live (w_configs w) c"
| "valid_config w (CallConfigSetIncremental c n) = live (w_configs w) c"
| "valid_config w (CallConfigSetDebugInfo c n) = live (w_configs w) c"
| "valid_config w (CallConfigDefine c k v) = live (w_configs w) c"
| "valid_config w (CallConfigAddInputFile c v) = live (w_configs w) c"
| "valid_config w (CallConfigAddLibraryPath c v) = live (w_configs w) c"
| "valid_config w (CallConfigAddLibrary c v) = live (w_configs w) c"
| "valid_config w (CallConfigAddPlugin c v) = live (w_configs w) c"

primrec valid_session :: "world \<Rightarrow> session_call \<Rightarrow> bool" where
  "valid_session w (CallSessionCreate c g) = (live (w_contexts w) c \<and> live (w_configs w) g)"
| "valid_session w (CallSessionDestroy s) = live (w_sessions w) s"
| "valid_session w (CallSessionRun s p) = live (w_sessions w) s"
| "valid_session w (CallSessionReset s) = live (w_sessions w) s"
| "valid_session w (CallSessionSetOption s k v) = live (w_sessions w) s"
| "valid_session w (CallLink c g p) = (live (w_contexts w) c \<and> live (w_configs w) g)"

primrec valid_diagnostic :: "world \<Rightarrow> diagnostic_call \<Rightarrow> bool" where
  "valid_diagnostic w (CallDiagnosticCount s) = live (w_sessions w) s"
| "valid_diagnostic w (CallDiagnosticAt s i) = live (w_sessions w) s"
| "valid_diagnostic w (CallDiagnosticSeverity d) = live (w_diags w) d"
| "valid_diagnostic w (CallDiagnosticMessage d) = live (w_diags w) d"
| "valid_diagnostic w (CallDiagnosticFile d) = live (w_diags w) d"
| "valid_diagnostic w (CallDiagnosticLine d) = live (w_diags w) d"
| "valid_diagnostic w (CallDiagnosticColumn d) = live (w_diags w) d"

primrec valid_result :: "world \<Rightarrow> result_call \<Rightarrow> bool" where
  "valid_result w (CallResultDestroy r) = live (w_results w) r"
| "valid_result w (CallResultStatus r) = live (w_results w) r"
| "valid_result w (CallResultOutputPath r) = live (w_results w) r"
| "valid_result w (CallResultOutputSize r) = live (w_results w) r"
| "valid_result w (CallResultElapsedNs r) = live (w_results w) r"
| "valid_result w (CallResultInputCount r) = live (w_results w) r"
| "valid_result w (CallResultWarningCount r) = live (w_results w) r"
| "valid_result w (CallResultErrorCount r) = live (w_results w) r"

primrec valid_call :: "world \<Rightarrow> api_call \<Rightarrow> bool" where
  "valid_call w (LibCall c) = True"
| "valid_call w (ContextCall c) = valid_context w c"
| "valid_call w (ConfigCall c) = valid_config w c"
| "valid_call w (SessionCall c) = valid_session w c"
| "valid_call w (DiagnosticCall c) = valid_diagnostic w c"
| "valid_call w (ResultCall c) = valid_result w c"

inductive reachable :: "env \<Rightarrow> world \<Rightarrow> bool" for e where
  start: "reachable e (world_init e)"
| call: "reachable e w \<Longrightarrow> valid_call w c \<Longrightarrow> exec c w = Ret () w' \<Longrightarrow> reachable e w'"

section \<open>Every call keeps the invariant\<close>

text \<open>Keeping the invariant without faults or exceptions.\<close>

definition safe :: "unit api \<Rightarrow> world \<Rightarrow> bool" where
  "safe m w \<longleftrightarrow> wp m (\<lambda>_. world_ok) (\<lambda>_ _. False) (\<lambda>_. False) w"

lemma wp_ignore_ret [wp_rules]: "wp (ignore_ret m) Q E F w = wp m (\<lambda>_. Q ()) E F w"
  by (simp add: ignore_ret_def wp_def mbind_def mret_def split: outcome.split)

text \<open>Worlds that agree on what the invariant reads.\<close>

lemma world_ok_configs:
  assumes "world_ok w"
  shows "world_ok (w\<lparr>w_tick := t\<rparr>)"
    "w_configs w c \<noteq> None \<Longrightarrow> world_ok (w\<lparr>w_configs := (w_configs w)(c \<mapsto> x)\<rparr>)"
    "world_ok (w\<lparr>w_configs := (w_configs w)(c := None)\<rparr>)"
    "w_contexts w c \<noteq> None \<Longrightarrow> world_ok (w\<lparr>w_contexts := (w_contexts w)(c \<mapsto> y)\<rparr>)"
    "world_ok (w\<lparr>w_results := (w_results w)(c := None)\<rparr>)"
    "world_ok (w\<lparr>g_initialize_count := n\<rparr>)"
    "world_ok (w\<lparr>w_events := es\<rparr>)"
  using assms by (auto simp: world_ok_def fresh_ok_def contexts_ok_def)

lemmas setter_defs = olnk_config_set_output_path_def olnk_config_set_map_path_def
  olnk_config_set_entry_symbol_def olnk_config_set_output_kind_def olnk_config_set_format_def
  olnk_config_set_machine_def olnk_config_set_script_path_def olnk_config_set_thread_count_def
  olnk_config_set_incremental_def olnk_config_set_debug_info_def olnk_config_define_def
  olnk_config_add_input_file_def olnk_config_add_library_path_def olnk_config_add_library_def
  olnk_config_add_plugin_def set_string_def push_back_string_def define_kv_def

lemma safe_lib: "world_ok w \<Longrightarrow> safe (exec_lib c) w"
  by (cases c) (auto simp: safe_def wp_rules olnk_initialize_def olnk_shutdown_def world_ok_configs)

lemma safe_config:
  assumes "world_ok w" "valid_config w c"
  shows "safe (exec_config c) w"
proof -
  have new: "world_ok (w\<lparr>w_tick := t, w_next := Suc (w_next w), w_configs := (w_configs w)(w_next w \<mapsto> x)\<rparr>)" for t x
    using assms(1) by (auto simp: world_ok_def fresh_ok_def contexts_ok_def)
  have upd: "world_ok (w\<lparr>w_tick := t, w_configs := (w_configs w)(a \<mapsto> x)\<rparr>)" if "w_configs w a \<noteq> None" for t a x
    using world_ok_configs(2) [OF world_ok_configs(1) [OF assms(1), of t], of a x] that by simp
  show ?thesis
    using assms new upd
    by (cases c) (auto simp: safe_def wp_rules heap_defs olnk_config_create_def olnk_config_destroy_def
        live_def setter_defs world_ok_configs split: option.splits)
qed

lemma safe_context:
  assumes "world_ok w" "valid_context w c"
  shows "safe (exec_context c) w"
proof -
  have new: "world_ok (w\<lparr>w_tick := t, w_next := Suc (w_next w), w_contexts := (w_contexts w)(w_next w \<mapsto> x)\<rparr>)" for t x
    using assms(1) by (auto simp: world_ok_def fresh_ok_def contexts_ok_def)
  have upd: "world_ok (w\<lparr>w_tick := t, w_contexts := (w_contexts w)(a \<mapsto> x)\<rparr>)" if "w_contexts w a \<noteq> None" for t a x
    using world_ok_configs(4) [OF world_ok_configs(1) [OF assms(1), of t], of a x] that by simp
  have del: "world_ok (w\<lparr>w_contexts := (w_contexts w)(a := None)\<rparr>)" if "context_unused w (Some a)" for a
    using assms(1) that by (auto simp: world_ok_def fresh_ok_def contexts_ok_def context_unused_def)
  show ?thesis
    using assms new upd del
    by (cases c) (auto simp: safe_def wp_rules heap_defs olnk_context_create_def olnk_context_destroy_def
        olnk_context_set_log_level_def olnk_context_set_log_callback_def olnk_context_set_option_def
        olnk_context_set_diagnostic_callback_def live_def world_ok_configs split: option.splits)
qed

lemma safe_diagnostic: "world_ok w \<Longrightarrow> valid_diagnostic w c \<Longrightarrow> safe (exec_diagnostic c) w"
  by (cases c) (auto simp: safe_def wp_rules heap_defs olnk_session_diagnostic_count_def
      olnk_session_diagnostic_at_def olnk_diagnostic_severity_of_def olnk_diagnostic_message_def
      olnk_diagnostic_file_def olnk_diagnostic_line_def olnk_diagnostic_column_def live_def split: option.splits)

lemma safe_result: "world_ok w \<Longrightarrow> valid_result w c \<Longrightarrow> safe (exec_result c) w"
  by (cases c) (auto simp: safe_def wp_rules heap_defs olnk_result_destroy_def olnk_result_status_def
      olnk_result_output_path_def olnk_result_output_size_def olnk_result_elapsed_ns_def
      olnk_result_input_count_def olnk_result_warning_count_def olnk_result_error_count_def
      live_def world_ok_configs split: option.splits)

section \<open>Sessions\<close>

text \<open>Creating a session: null on failure, and then possibly a session nobody refers to; otherwise a
  fresh session with a copy of the configuration.\<close>

lemma wp_session_create:
  assumes ok: "world_ok w" and c: "w_contexts w c = Some ctx" and g: "w_configs w g = Some cfg"
    and null: "\<And>w'. world_ok w' \<Longrightarrow> w_results w' = w_results w \<Longrightarrow> w_configs w' = w_configs w \<Longrightarrow>
       w_contexts w' = w_contexts w \<Longrightarrow> w_files w' = w_files w \<Longrightarrow> (\<exists>t. env_alloc (w_env w) t \<noteq> None) \<Longrightarrow>
       w_sessions w' = w_sessions w \<or> w_sessions w' = (w_sessions w)(w_next w \<mapsto> olnk_session_default\<lparr>ses_context := Some c\<rparr>) \<Longrightarrow> Q None w'"
    and made: "\<And>w'. world_ok w' \<Longrightarrow> w_results w' = w_results w \<Longrightarrow> w_env w' = w_env w \<Longrightarrow> w_files w' = w_files w \<Longrightarrow>
       w_sessions w (w_next w) = None \<Longrightarrow> w_configs w' = w_configs w \<Longrightarrow> w_contexts w' = w_contexts w \<Longrightarrow>
       w_sessions w' = (w_sessions w)(w_next w \<mapsto> olnk_session_default\<lparr>ses_context := Some c, ses_snapshot_config := cfg\<rparr>) \<Longrightarrow>
       Q (Some (w_next w)) w'"
  shows "wp (olnk_session_create (Some c) (Some g)) Q E F w"
proof -
  have okw: "world_ok w'" if "w_sessions w' = (w_sessions w)(w_next w \<mapsto> ses)"
    "ses_context ses = Some c" "ses_diagnostics ses = []"
    "w_next w' = Suc (w_next w)" "w_contexts w' = w_contexts w" "w_configs w' = w_configs w" "w_diags w' = w_diags w"
    "w_results w' = w_results w" "w_instances w' = w_instances w" "w_machines w' = w_machines w" for w' ses
  proof (rule world_okI)
    show "diags_ok (w_sessions w') (w_diags w')"
      using ok that by (auto simp: world_ok_def fresh_ok_def intro!: diags_ok_new)
    show "contexts_ok w'" using ok c that by (auto simp: world_ok_def contexts_ok_def split: if_splits)
    show "fresh_ok w'" using ok that by (auto simp: world_ok_def fresh_ok_def)
  qed (use ok that in \<open>auto simp: world_ok_def\<close>)
  have free: "w_sessions w (w_next w) = None" using ok by (simp add: world_ok_def fresh_ok_def)
  show ?thesis
  proof (cases "env_alloc (w_env w) (w_tick w)")
    case None
    then show ?thesis
      using c g free
      by (auto simp: olnk_session_create_def wp_rules heap_defs ctx_live_def olnk_session_default_def
          intro!: null made wp_safe_emit_log okw split: option.splits)
  next
    case (Some e)
    then show ?thesis
      by (auto simp: olnk_session_create_def wp_rules heap_defs intro!: null world_ok_configs [OF ok])
  qed
qed

lemma wp_session_destroy:
  assumes ok: "world_ok w" and s: "w_sessions w s = Some ses"
    and fin: "\<And>w'. world_ok w' \<Longrightarrow> w_sessions w' = (w_sessions w)(s := None) \<Longrightarrow> w_results w' = w_results w \<Longrightarrow>
       w_configs w' = w_configs w \<Longrightarrow> w_contexts w' = w_contexts w \<Longrightarrow> w_files w' = w_files w \<Longrightarrow> Q () w'"
  shows "wp (olnk_session_destroy (Some s)) Q E F w"
proof -
  let ?w = "w\<lparr>w_diags := del_all (ses_diagnostics ses) (w_diags w), w_sessions := (w_sessions w)(s := None)\<rparr>"
  have dok: "diags_ok (w_sessions w) (w_diags w)" using ok by (simp add: world_ok_def)
  have "world_ok ?w"
  proof (rule world_okI)
    show "diags_ok (w_sessions ?w) (w_diags ?w)"
      using diags_ok_delete [OF diags_ok_clear [OF dok s], of s "ses\<lparr>ses_diagnostics := []\<rparr>"] by simp
    show "fresh_ok ?w" using ok by (auto simp: world_ok_def fresh_ok_def del_all_def)
    show "contexts_ok ?w" using ok by (auto simp: world_ok_def contexts_ok_def)
  qed (use ok in \<open>auto simp: world_ok_def\<close>)
  then have "Q () ?w" by (intro fin) simp_all
  moreover have "(w_sessions w)(s \<mapsto> ses', s := None) = (w_sessions w)(s := None)" for ses' by simp
  ultimately show ?thesis
    unfolding olnk_session_destroy_def option.case wp_mseq
    by (intro wp_clear_diagnostics [OF s dok]) (simp add: wp_rules heap_defs)
qed

lemma safe_session_simple:
  assumes ok: "world_ok w" and s: "w_sessions w s = Some ses"
  shows "safe (exec_session (CallSessionDestroy (Some s))) w"
    "safe (exec_session (CallSessionReset (Some s))) w"
    "safe (exec_session (CallSessionSetOption (Some s) k v)) w"
proof -
  have dok: "diags_ok (w_sessions w) (w_diags w)" using ok by (simp add: world_ok_def)
  have upd: "world_ok w'" if "w_sessions w' = (w_sessions w)(s \<mapsto> ses')" "ses_context ses' = ses_context ses"
    "diags_ok (w_sessions w') (w_diags w')" "w_next w' = w_next w" "w_contexts w' = w_contexts w"
    "w_configs w' = w_configs w" "\<And>a. w_diags w a = None \<Longrightarrow> w_diags w' a = None"
    "w_results w' = w_results w" "w_instances w' = w_instances w" "w_machines w' = w_machines w" for w' ses'
  proof (rule world_okI)
    show "fresh_ok w'" using ok that s by (auto simp: world_ok_def fresh_ok_def)
    show "contexts_ok w'" using ok that contexts_ok_upd [OF _ s, of w' ses'] by (simp add: world_ok_def)
  qed (use ok that in \<open>auto simp: world_ok_def\<close>)
  show "safe (exec_session (CallSessionDestroy (Some s))) w"
    unfolding safe_def exec_session.simps by (rule wp_session_destroy [OF ok s])
  have ctx: "ctx_live (w\<lparr>w_diags := d, w_sessions := m\<rparr>) (ses_context ses)" for d m
    using world_ok_ctx_live [OF ok s] by (auto simp: ctx_live_def split: option.splits)
  have cleared: "diags_ok ((w_sessions w)(s \<mapsto> ses\<lparr>ses_diagnostics := [], ses_options := []\<rparr>)) (del_all (ses_diagnostics ses) (w_diags w))"
    using diags_ok_same [OF diags_ok_clear [OF dok s], of s "ses\<lparr>ses_diagnostics := []\<rparr>"] by simp
  show "safe (exec_session (CallSessionReset (Some s))) w"
    unfolding safe_def exec_session.simps olnk_session_reset_def wp_ignore_ret option.case wp_mseq
    by (rule wp_clear_diagnostics [OF s dok])
      (auto simp: wp_rules heap_defs del_all_def intro!: wp_safe_emit_log ctx upd cleared [unfolded del_all_def])
  show "safe (exec_session (CallSessionSetOption (Some s) k v)) w"
    using s by (auto simp: safe_def wp_rules heap_defs olnk_session_set_option_def world_ok_configs [OF ok]
        intro!: upd dok diags_ok_same [OF dok s] split: option.splits)
qed

text \<open>The two calls that run the linker may also reach \<open>std::terminate\<close>, when memory runs out outside
  their \<open>try\<close> blocks.\<close>

lemma wp_session_run_ok:
  assumes "world_ok w" "w_sessions w s = Some ses"
  shows "wp (olnk_session_run (Some s) (Some p)) (\<lambda>_. world_ok) (\<lambda>_ _. False) (\<lambda>u. u = Terminate) w"
  by (rule wp_mono [OF wp_olnk_session_run [where F = "\<lambda>u. u = Terminate" and E = "\<lambda>_ _. False", OF assms refl]])
    (auto simp: session_run_post_def)

text \<open>The one-shot call: unless the session could not be created, the sessions are what they were
  before, and what the call returns and leaves is what a run of a fresh session returns and leaves.\<close>

lemma wp_link:
  assumes ok: "world_ok w" and c: "w_contexts w c = Some ctx" and g: "w_configs w g = Some cfg"
    and noex: "F Terminate"
    and oom: "\<And>w'. world_ok w' \<Longrightarrow> w_results w' = w_results w \<Longrightarrow> w_files w' = w_files w \<Longrightarrow>
       w_sessions w' = w_sessions w \<or> w_sessions w' = (w_sessions w)(w_next w \<mapsto> olnk_session_default\<lparr>ses_context := Some c\<rparr>) \<Longrightarrow>
       Q (OLNK_STATUS_OUT_OF_MEMORY, Some None) w'"
    and run: "\<And>ret w1 w2 w'. session_run_post w1 (w_next w) (olnk_session_default\<lparr>ses_context := Some c, ses_snapshot_config := cfg\<rparr>) ret w2 \<Longrightarrow>
       w_results w1 = w_results w \<Longrightarrow> w_env w1 = w_env w \<Longrightarrow> w_files w1 = w_files w \<Longrightarrow> world_ok w' \<Longrightarrow>
       w_sessions w' = w_sessions w \<Longrightarrow> w_results w' = w_results w2 \<Longrightarrow> w_files w' = w_files w2 \<Longrightarrow> Q ret w'"
  shows "wp (olnk_link (Some c) (Some g) (Some p)) Q E F w"
proof -
  let ?ses = "olnk_session_default\<lparr>ses_context := Some c, ses_snapshot_config := cfg\<rparr>"
  have "wp (olnk_session_create (Some c) (Some g)) (\<lambda>session. wp (case session of
          None \<Rightarrow> mret (OLNK_STATUS_OUT_OF_MEMORY, Some None)
        | Some s \<Rightarrow> mbind (olnk_session_run (Some s) (Some None)) (\<lambda>(status, out).
            mseq (olnk_session_destroy (Some s)) (mret (status, out)))) Q (\<lambda>_ _. F Terminate) F) (\<lambda>_ _. F Terminate) F w"
  proof (rule wp_session_create [OF ok c g])
    fix w1 assume w1: "world_ok w1" "w_results w1 = w_results w" "w_env w1 = w_env w" "w_files w1 = w_files w"
      "w_sessions w (w_next w) = None" "w_sessions w1 = (w_sessions w)(w_next w \<mapsto> ?ses)"
    then have s1: "w_sessions w1 (w_next w) = Some ?ses" by simp
    have "wp (olnk_session_run (Some (w_next w)) (Some None)) (\<lambda>ret. wp (case ret of (status, out) \<Rightarrow>
            mseq (olnk_session_destroy (Some (w_next w))) (mret (status, out))) Q (\<lambda>_ _. F Terminate) F) (\<lambda>_ _. F Terminate) F w1"
    proof (rule wp_mono [OF wp_olnk_session_run [where F = F and E = "\<lambda>_ _. F Terminate", OF w1(1) s1 noex]])
      fix ret w2 assume post: "session_run_post w1 (w_next w) ?ses ret w2"
      then obtain ds where s2: "world_ok w2" "w_sessions w2 = (w_sessions w1)(w_next w \<mapsto> ?ses\<lparr>ses_diagnostics := ds\<rparr>)"
        by (auto simp: session_run_post_def)
      have "(w_sessions w2)(w_next w := None) = w_sessions w" using s2 w1(5,6) by (auto simp: fun_eq_iff)
      then show "wp (case ret of (status, out) \<Rightarrow>
            mseq (olnk_session_destroy (Some (w_next w))) (mret (status, out))) Q (\<lambda>_ _. F Terminate) F w2"
        using s2 post w1 by (cases ret)
          (auto simp: wp_rules intro!: wp_session_destroy [OF s2(1), of "w_next w" "?ses\<lparr>ses_diagnostics := ds\<rparr>"] run [of w1 _ w2])
    qed auto
    then show "wp (case Some (w_next w) of None \<Rightarrow> mret (OLNK_STATUS_OUT_OF_MEMORY, Some None)
        | Some s \<Rightarrow> mbind (olnk_session_run (Some s) (Some None)) (\<lambda>(status, out).
            mseq (olnk_session_destroy (Some s)) (mret (status, out)))) Q (\<lambda>_ _. F Terminate) F w1"
      by (simp add: wp_mbind)
  qed (simp add: wp_rules oom)
  then show ?thesis by (simp add: olnk_link_def wp_mnoexcept wp_mbind)
qed

end
