(* ===== verification/Olnk_Safety.thy ===== *)
theory Olnk_Safety
  imports Olnk_Client
begin

text \<open>
  The properties of the C API: safety of every sequence of calls, what a run of a session does, when
  it succeeds, what the one-shot call leaves behind, isolation of the configuration snapshot, and the
  smaller contracts of setters, logging and diagnostics.
\<close>

section \<open>A run without faults of the environment\<close>

text \<open>No allocation fails and the output path can be written.\<close>

definition calm :: "env \<Rightarrow> string \<Rightarrow> bool" where
  "calm e path \<longleftrightarrow> (\<forall>t. env_alloc e t = None) \<and> env_open_ok e path \<and> (\<forall>b. env_write_good e path b)"

lemma wp_serializer_calm:
  assumes "f < 4" "w_sessions w s = Some ses" "cfg_output_path (ses_snapshot_config ses) = path" "path \<noteq> []"
    and "calm (w_env w) path"
    and ok: "\<And>w' info. w_env w' = w_env w \<Longrightarrow> w_contexts w' = w_contexts w \<Longrightarrow>
       w_sessions w' = w_sessions w \<Longrightarrow> w_diags w' = w_diags w \<Longrightarrow> w_results w' = w_results w \<Longrightarrow>
       Q (OLNK_STATUS_OK, Some info) w'"
  shows "wp (run_format_serializer (Some (kStaticFormats ! f)) (Some (run_format_context s ses'))
           (Some iv) (Some oi)) Q E F w"
proof -
  let ?d = "[g_elf_desc, g_pe_desc, g_macho_desc, g_wasm_desc] ! f"
  have def: "kStaticFormats ! f = builtin_format_def ?d" using assms(1) by (simp add: kStaticFormats_def del: list.map)
  show ?thesis
    unfolding def using assms(2-5)
    by (auto simp: serializer_defs builtin_format_def_def g_builtin_format_vtable_def
        has_minimum_definition_def initialize_output_info_def
        builtin_create_def builtin_destroy_def builtin_validate_config_def builtin_serialize_def
        run_format_context_def api_format_host_def api_format_emit_output_def write_output_file_def
        fctx_base_def olnk_format_context_base.truncate_def
        wp_rules heap_defs Let_def calm_def intro!: ok)
qed

lemma wp_select_calm:
  assumes ses: "w_sessions w s = Some ses" and calm: "calm (w_env w) (cfg_output_path (ses_snapshot_config ses))"
    and err: "run_error w ses = None" and tbl: "machine_table (w_machines w)" and r: "w_results w r = Some res"
    and ok: "\<And>w' sz. w_env w' = w_env w \<Longrightarrow> w_contexts w' = w_contexts w \<Longrightarrow> w_sessions w' = w_sessions w \<Longrightarrow>
       w_diags w' = w_diags w \<Longrightarrow> w_results w' = (w_results w)(r \<mapsto> res\<lparr>res_output_size := sz\<rparr>) \<Longrightarrow> Q (Inr OLNK_STATUS_OK) w'"
  shows "wp (run_select s r ses) Q E F w"
proof -
  obtain f where f: "olnk_find_format (env_lua_formats (w_env w)) (Some (run_format_name ses)) = Some f"
    and cfg: "cfg_input_files (ses_snapshot_config ses) \<noteq> []" "cfg_output_path (ses_snapshot_config ses) \<noteq> []"
    using err by (auto simp: run_error_def split: if_splits)
  obtain i tbl' where m: "olnk_find_machine (env_lua_machines (w_env w)) (Some (run_machine_name ses)) (w_machines w) = (Some i, tbl')"
    using err cfg f olnk_find_machine_fst [OF tbl, of "env_lua_machines (w_env w)" "Some (run_machine_name ses)"]
    by (cases "olnk_find_machine (env_lua_machines (w_env w)) (Some (run_machine_name ses)) (w_machines w)")
      (auto simp: run_error_def split: if_splits)
  have "wp (run_format_serializer (Some (kStaticFormats ! f)) (Some (run_format_context s ses))
       (Some \<lparr>fiv_opaque = None, fiv_opaque_size = 0\<rparr>) (Some format_output_info_zero))
       (\<lambda>x. wp (case x of (final_status, out_info) \<Rightarrow>
         if final_status = OLNK_STATUS_OK
         then mseq (upd_result r (\<lambda>x. x\<lparr>res_output_size := (case out_info of Some i \<Rightarrow> foi_file_size i | None \<Rightarrow> 0)\<rparr>))
                (mret (Inr final_status))
         else mret (Inr final_status)) (\<lambda>st. wp (case st of Inl e \<Rightarrow> mret (Inl e) | Inr final_status \<Rightarrow>
            if final_status = OLNK_STATUS_NOT_IMPLEMENTED
            then mbind (add_diagnostic (Some s) OLNK_DIAGNOSTIC_ERROR
                          (Some ''internal linker feature is not fully wired yet'') None 0 0) (\<lambda>diag_status.
                   if diag_status \<noteq> OLNK_STATUS_OK
                   then mseq (delete_result (Some r)) (mret (Inl diag_status))
                   else mret (Inr final_status))
            else mret (Inr final_status)) Q E' F) E' F) E' F (w\<lparr>w_machines := tbl'\<rparr>)" for E'
    by (rule wp_serializer_calm [OF olnk_find_format_range [OF f], of _ s ses])
      (use ses cfg calm r in \<open>auto simp: wp_rules heap_defs intro!: ok\<close>)
  then show ?thesis
    using cfg f m
    by (simp add: run_select_def run_pipeline_def run_lookup_def run_machine_def run_serialize_def wp_rules Let_def
        run_format_name_def [symmetric] run_machine_name_def [symmetric])
qed

lemma wp_session_run_calm:
  assumes ok: "world_ok w" and ses: "w_sessions w s = Some ses" and err: "run_error w ses = None"
    and calm: "calm (w_env w) (cfg_output_path (ses_snapshot_config ses))"
  shows "wp (olnk_session_run (Some s) (Some p)) (\<lambda>ret _. fst ret = OLNK_STATUS_OK \<and> (\<exists>r. snd ret = Some (Some r)))
    (\<lambda>_ _. False) (\<lambda>_. False) w"
proof -
  let ?Q = "\<lambda>(ret :: olnk_status \<times> nat option option) (_ :: world). fst ret = OLNK_STATUS_OK \<and> (\<exists>r. snd ret = Some (Some r))"
  let ?w1 = "w\<lparr>w_diags := del_all (ses_diagnostics ses) (w_diags w),
                w_sessions := (w_sessions w)(s \<mapsto> ses\<lparr>ses_diagnostics := []\<rparr>)\<rparr>"
  let ?ses = "ses\<lparr>ses_diagnostics := []\<rparr>"
  have dok: "diags_ok (w_sessions w) (w_diags w)" using ok by (simp add: world_ok_def)
  have live: "ctx_live w (ses_context ses)" by (rule world_ok_ctx_live [OF ok ses])
  have ctx: "ctx_live w' (ses_context ses)" if "w_contexts w' = w_contexts w" for w'
    using live that by (auto simp: ctx_live_def split: option.splits)
  have fin: "wp (run_finish s r ?ses OLNK_STATUS_OK) ?Q (\<lambda>_ _. False) (\<lambda>_. False) v"
    if "w_env v = w_env w" "w_contexts v = w_contexts w" "w_sessions v s = Some ?ses" "w_results v r \<noteq> None" for v r
    using that calm
    by (auto simp: run_finish_def populate_result_from_session_def count_diagnostics_with_severity_def file_size_or_zero_def
        wp_rules heap_defs calm_def intro!: wp_safe_emit_log ctx)
  have err': "run_error w' ses = None" if "w_env w' = w_env w" for w'
    using err run_error_env [OF that, of ses] by simp
  have sel: "wp (run_select s (w_next w) ?ses) (\<lambda>st. wp (case st of
                   Inl early \<Rightarrow> mret (early, Some None)
                 | Inr final_status \<Rightarrow> run_finish s (w_next w) ?ses final_status) ?Q (\<lambda>_ _. False) (\<lambda>_. False))
      (\<lambda>_ _. False) (\<lambda>_. False) (?w1\<lparr>w_events := es, w_tick := t, w_next := n,
          w_results := (w_results w)(w_next w \<mapsto> ResultStorage_default)\<rparr>)" for es t n
    using calm err' ok by (intro wp_select_calm [where res = ResultStorage_default]) (auto simp: world_ok_def intro!: fin)
  have "wp (clear_diagnostics (Some s)) (\<lambda>_. wp (mbind (get_session s) (\<lambda>ses.
           mseq (safe_emit_log (ses_context ses) OLNK_LOG_INFO (Some ''starting olnk session''))
           (mbind make_result (\<lambda>result. case result of
              None \<Rightarrow> mret (OLNK_STATUS_OUT_OF_MEMORY, Some None)
            | Some r \<Rightarrow> mbind (run_select s r ses) (\<lambda>st. case st of
                   Inl early \<Rightarrow> mret (early, Some None)
                 | Inr final_status \<Rightarrow> run_finish s r ses final_status)))))
        ?Q (\<lambda>_ _. False) (\<lambda>_. False)) (\<lambda>_ _. False) (\<lambda>_. False) w"
    by (rule wp_clear_diagnostics [OF ses dok])
      (use sel calm in \<open>auto simp: wp_rules heap_defs make_result_def calm_def intro!: wp_safe_emit_log ctx\<close>)
  then show ?thesis by (simp add: olnk_session_run_def wp_rules)
qed

section \<open>Safety of call sequences\<close>

text \<open>The calls that may end in \<open>std::terminate\<close>: the two \<open>noexcept\<close> functions that allocate outside a
  \<open>try\<close> block.\<close>

fun may_terminate :: "api_call \<Rightarrow> bool" where
  "may_terminate (SessionCall (CallSessionRun s p)) = True"
| "may_terminate (SessionCall (CallLink c g p)) = True"
| "may_terminate _ = False"

definition call_post :: "api_call \<Rightarrow> (unit, world) outcome \<Rightarrow> bool" where
  "call_post c r \<longleftrightarrow>
     (case r of Ret _ w' \<Rightarrow> world_ok w' | Exn _ _ \<Rightarrow> False | Fault u \<Rightarrow> u = Terminate \<and> may_terminate c)"

lemma safe_call_post: "safe (exec c) w \<Longrightarrow> call_post c (exec c w)"
  by (simp add: safe_def wp_def call_post_def split: outcome.splits)

lemma safe_null_session:
  assumes "world_ok w"
  shows "safe (exec_session (CallSessionDestroy None)) w" "safe (exec_session (CallSessionReset None)) w"
    "safe (exec_session (CallSessionSetOption None k v)) w" "safe (exec_session (CallSessionRun None p)) w"
    "safe (exec_session (CallSessionRun s None)) w"
    "safe (exec_session (CallSessionCreate None g)) w" "safe (exec_session (CallSessionCreate c None)) w"
    "safe (exec_session (CallLink None g p)) w" "safe (exec_session (CallLink c None p)) w"
    "safe (exec_session (CallLink c g None)) w"
  using assms by (auto simp: safe_def wp_rules olnk_session_destroy_def olnk_session_reset_def olnk_session_set_option_def
      olnk_session_run_def olnk_session_create_def olnk_link_def split: option.splits)

lemma session_call_post:
  assumes ok: "world_ok w" and v: "valid_session w c"
  shows "call_post (SessionCall c) (exec (SessionCall c) w)"
proof -
  have post: "call_post (SessionCall c) (exec (SessionCall c) w)"
    if "wp (exec_session c) (\<lambda>_. world_ok) (\<lambda>_ _. False) (\<lambda>u. u = Terminate \<and> may_terminate (SessionCall c)) w"
    using that by (simp add: wp_def call_post_def split: outcome.splits)
  have safe: "call_post (SessionCall c) (exec (SessionCall c) w)" if "safe (exec_session c) w"
    using safe_call_post [of "SessionCall c" w] that by simp
  note null = safe_null_session [OF ok] and some = safe_session_simple [OF ok]
  show ?thesis
  proof (cases c)
    case (CallSessionCreate x g)
    show ?thesis
    proof (cases "\<exists>a b. x = Some a \<and> g = Some b")
      case True
      then obtain a b ctx cfg where "x = Some a" "g = Some b" "w_contexts w a = Some ctx" "w_configs w b = Some cfg"
        using v CallSessionCreate by (auto simp: live_def)
      then show ?thesis unfolding CallSessionCreate
        by (intro post [unfolded CallSessionCreate]) (auto simp: wp_rules intro!: wp_session_create [OF ok])
    qed (use safe null CallSessionCreate in \<open>cases x; cases g; auto\<close>)
  next
    case (CallSessionRun s p)
    show ?thesis
    proof (cases "\<exists>a b. s = Some a \<and> p = Some b")
      case True
      then obtain a b ses where "s = Some a" "p = Some b" "w_sessions w a = Some ses"
        using v CallSessionRun by (auto simp: live_def)
      then show ?thesis using wp_session_run_ok [OF ok, of a ses b] unfolding CallSessionRun
        by (intro post [unfolded CallSessionRun]) (simp add: wp_rules)
    qed (use safe null CallSessionRun in \<open>cases s; cases p; auto\<close>)
  next
    case (CallLink x g p)
    show ?thesis
    proof (cases "\<exists>a b q. x = Some a \<and> g = Some b \<and> p = Some q")
      case True
      then obtain a b q ctx cfg where "x = Some a" "g = Some b" "p = Some q" "w_contexts w a = Some ctx" "w_configs w b = Some cfg"
        using v CallLink by (auto simp: live_def)
      then show ?thesis unfolding CallLink
        by (intro post [unfolded CallLink]) (auto simp: wp_rules intro!: wp_link [OF ok])
    qed (use safe null CallLink in \<open>cases x; cases g; cases p; auto\<close>)
  qed (use v safe null some in \<open>auto simp: live_def split: option.splits\<close>)
qed

lemma valid_call_post:
  assumes "world_ok w" "valid_call w c"
  shows "call_post c (exec c w)"
proof (cases c)
  case (SessionCall x)
  then show ?thesis using assms session_call_post by simp
qed (use assms safe_call_post [of c w] safe_lib safe_context safe_config safe_diagnostic safe_result in auto)

lemma reachable_ok: "reachable e w \<Longrightarrow> world_ok w"
proof (induction rule: reachable.induct)
  case (call w c w')
  then show ?case using valid_call_post [of w c] by (simp add: call_post_def)
qed (rule world_ok_init)

section \<open>Properties\<close>

text \<open>A sample environment and a sample client for the witnesses: a context, a configuration with one
  input and an output path, a session.\<close>

definition sample_env :: env where
  "sample_env = \<lparr>env_alloc = (\<lambda>_. None), env_open_ok = (\<lambda>_. True), env_write_good = (\<lambda>_ _. True),
     env_written = (\<lambda>_ b. b), env_lua_formats = None, env_lua_machines = None\<rparr>"

definition sample_config :: olnk_config where
  "sample_config = olnk_config_default\<lparr>cfg_output_path := ''a.out'', cfg_input_files := [''a.o'']\<rparr>"

definition sample_session :: olnk_session where
  "sample_session = olnk_session_default\<lparr>ses_context := Some 0, ses_snapshot_config := sample_config\<rparr>"

definition sample_setup :: world where
  "sample_setup = (world_init sample_env)\<lparr>w_tick := 4, w_next := 2, w_contexts := [0 \<mapsto> olnk_context_default],
     w_configs := [1 \<mapsto> sample_config]\<rparr>"

definition sample_world :: world where
  "sample_world = sample_setup\<lparr>w_tick := 6, w_next := 3, w_sessions := [2 \<mapsto> sample_session]\<rparr>"


lemma sample_setup_reachable: "reachable sample_env sample_setup"
proof -
  have 1: "reachable sample_env ((world_init sample_env)\<lparr>w_tick := 1, w_next := 1, w_contexts := [0 \<mapsto> olnk_context_default]\<rparr>)"
    by (rule reachable.call [OF reachable.start, of _ "ContextCall CallContextCreate"])
      (simp_all add: ignore_ret_def olnk_context_create_def heap_defs run_defs may_throw_def sample_env_def world_init_def Let_def)
  have 2: "reachable sample_env ((world_init sample_env)\<lparr>w_tick := 2, w_next := 2, w_contexts := [0 \<mapsto> olnk_context_default],
      w_configs := [1 \<mapsto> olnk_config_default]\<rparr>)"
    by (rule reachable.call [OF 1, of "ConfigCall CallConfigCreate"])
      (simp_all add: ignore_ret_def olnk_config_create_def heap_defs run_defs may_throw_def sample_env_def world_init_def Let_def)
  have 3: "reachable sample_env ((world_init sample_env)\<lparr>w_tick := 3, w_next := 2, w_contexts := [0 \<mapsto> olnk_context_default],
      w_configs := [1 \<mapsto> olnk_config_default\<lparr>cfg_output_path := ''a.out''\<rparr>]\<rparr>)"
    by (rule reachable.call [OF 2, of "ConfigCall (CallConfigSetOutputPath (Some 1) (Some ''a.out''))"])
      (simp_all add: ignore_ret_def olnk_config_set_output_path_def set_string_def heap_defs run_defs may_throw_def
        sample_env_def world_init_def Let_def live_def)
  show ?thesis
    by (rule reachable.call [OF 3, of "ConfigCall (CallConfigAddInputFile (Some 1) (Some ''a.o''))"])
      (simp_all add: ignore_ret_def olnk_config_add_input_file_def push_back_string_def heap_defs run_defs may_throw_def
        sample_env_def world_init_def Let_def live_def sample_setup_def sample_config_def olnk_config_default_def)
qed

lemma sample_create: "olnk_session_create (Some 0) (Some 1) sample_setup = Ret (Some 2) sample_world"
  by (simp add: olnk_session_create_def safe_emit_log_def heap_defs run_defs may_throw_def Let_def
      sample_env_def world_init_def sample_setup_def sample_world_def sample_session_def olnk_context_default_def
      olnk_session_default_def valid_log_level_def)

lemma sample_world_reachable: "reachable sample_env sample_world"
  by (rule reachable.call [OF sample_setup_reachable, of "SessionCall (CallSessionCreate (Some 0) (Some 1))"])
    (simp add: live_def sample_setup_def, simp add: ignore_ret_def run_defs sample_create del: One_nat_def)

lemma sample_session_live: "w_sessions sample_world 2 = Some sample_session"
  by (simp add: sample_world_def)

lemma sample_format: "olnk_find_format None (Some ''ELF'') = Some 0"
  by (simp add: olnk_find_format_def kStaticFormats_def olnk_format_matches_name_def builtin_format_def_def
      g_elf_desc_def builtin_format_desc_def)

lemma sample_machine: "fst (olnk_find_machine None (Some ''x86_64'') g_builtin_machines) \<noteq> None"
  by code_simp

lemma sample_run_error: "run_error sample_world sample_session = None"
  using sample_format sample_machine
  by (simp add: run_error_def sample_world_def sample_setup_def sample_session_def sample_config_def world_init_def sample_env_def
      run_format_name_def run_machine_name_def olnk_config_default_def)

lemma sample_calm: "calm (w_env sample_world) (cfg_output_path (ses_snapshot_config sample_session))"
  by (simp add: calm_def sample_world_def sample_setup_def world_init_def sample_env_def)



text \<open>C3: What a run of a session does, whenever it returns.  Other sessions, contexts and configurations
  are untouched.  With a result: a configuration error (no input, no output path, unknown format,
  unknown machine, in this order) gives \<open>INVALID_ARGUMENT\<close>, a result that counts one error, and
  exactly one diagnostic with that message; otherwise there is no diagnostic and either the status is
  \<open>OK\<close>, the output file holds what the file system made of the format's payload and the result has
  its size, or the status is one of memory, internal or I/O errors.  Without a result nothing but
  the session's diagnostics changed.\<close>

theorem session_run_contract:
  assumes "reachable e w" "w_sessions w s = Some ses" "olnk_session_run (Some s) (Some p) w = Ret ret w'"
  shows "session_run_post w s ses ret w'"
  using wp_Ret [OF wp_olnk_session_run [where F = "\<lambda>_. True" and E = "\<lambda>_ _. True", OF reachable_ok [OF assms(1)] assms(2) TrueI] assms(3)] .

theorem session_run_contract_witness:
  "\<exists>ret w'. olnk_session_run (Some 2) (Some None) sample_world = Ret ret w' \<and>
     session_run_post sample_world 2 sample_session ret w'"
proof -
  obtain ret w' where "olnk_session_run (Some 2) (Some None) sample_world = Ret ret w'"
    using wp_session_run_calm [OF reachable_ok [OF sample_world_reachable] sample_session_live sample_run_error sample_calm, of None]
    by (auto simp: wp_def split: outcome.splits)
  with session_run_contract [OF sample_world_reachable sample_session_live] show ?thesis by blast
qed

text \<open>C2: A run succeeds when it should: if no allocation fails, the output path can be written and the
  configuration has no error, then the run returns \<open>OK\<close> with a result object, and the output file is
  the payload of the format the configuration names.\<close>

theorem session_run_succeeds:
  assumes "reachable e w" "w_sessions w s = Some ses" "run_error w ses = None"
    and "calm (w_env w) (cfg_output_path (ses_snapshot_config ses))"
  shows "\<exists>r w' f. olnk_session_run (Some s) (Some p) w = Ret (OLNK_STATUS_OK, Some (Some r)) w' \<and>
    olnk_find_format (env_lua_formats (w_env w)) (Some (run_format_name ses)) = Some f \<and>
    w_files w' (cfg_output_path (ses_snapshot_config ses)) =
      Some (env_written (w_env w) (cfg_output_path (ses_snapshot_config ses)) (format_payload f))"
proof -
  have ok: "world_ok w" using assms(1) by (rule reachable_ok)
  obtain r w' where run: "olnk_session_run (Some s) (Some p) w = Ret (OLNK_STATUS_OK, Some (Some r)) w'"
    using wp_session_run_calm [OF ok assms(2-4), of p] by (auto simp: wp_def split: outcome.splits)
  have "session_run_post w s ses (OLNK_STATUS_OK, Some (Some r)) w'"
    using wp_Ret [OF wp_olnk_session_run [where F = "\<lambda>_. True" and E = "\<lambda>_ _. True", OF ok assms(2) TrueI] run] .
  then show ?thesis using run assms(3) by (auto simp: session_run_post_def run_result_def)
qed


theorem session_run_succeeds_witness:
  "\<exists>r w' f. olnk_session_run (Some 2) (Some None) sample_world = Ret (OLNK_STATUS_OK, Some (Some r)) w' \<and>
    olnk_find_format None (Some ''ELF'') = Some f \<and> w_files w' ''a.out'' = Some (format_payload f)"
  using session_run_succeeds [OF sample_world_reachable sample_session_live sample_run_error sample_calm, of None]
  by (simp add: sample_world_def sample_setup_def sample_session_def sample_config_def world_init_def sample_env_def
      olnk_config_default_def run_format_name_def)

text \<open>What the caller of \<open>olnk_link\<close> can see of a run.\<close>

definition session_of :: "olnk_config \<Rightarrow> olnk_session" where
  "session_of cfg = olnk_session_default\<lparr>ses_snapshot_config := cfg\<rparr>"

lemma session_of_context [simp]:
  "run_format_name (olnk_session_default\<lparr>ses_context := c, ses_snapshot_config := cfg\<rparr>) = run_format_name (session_of cfg)"
  "run_machine_name (olnk_session_default\<lparr>ses_context := c, ses_snapshot_config := cfg\<rparr>) = run_machine_name (session_of cfg)"
  "ses_snapshot_config (session_of cfg) = cfg"
  by (simp_all add: run_format_name_def run_machine_name_def session_of_def)

lemma session_of_error [simp]:
  "run_error w (olnk_session_default\<lparr>ses_context := c, ses_snapshot_config := cfg\<rparr>) = run_error w (session_of cfg)"
  by (simp add: run_error_def)

definition link_result :: "world \<Rightarrow> olnk_session \<Rightarrow> olnk_status \<Rightarrow> ResultStorage \<Rightarrow> world \<Rightarrow> bool" where
  "link_result w ses st res w' \<longleftrightarrow>
     res_status res = st \<and> res_output_path res = cfg_output_path (ses_snapshot_config ses) \<and>
     (st = OLNK_STATUS_INVALID_ARGUMENT \<longleftrightarrow> run_error w ses \<noteq> None) \<and>
     (st = OLNK_STATUS_OK \<longrightarrow> (\<exists>f. olnk_find_format (env_lua_formats (w_env w)) (Some (run_format_name ses)) = Some f \<and>
        w_files w' = (w_files w)(cfg_output_path (ses_snapshot_config ses) \<mapsto>
          env_written (w_env w) (cfg_output_path (ses_snapshot_config ses)) (format_payload f)) \<and>
        res_output_size res = of_nat (length (format_payload f))))"

lemma link_result_of_run:
  assumes "run_result w1 (olnk_session_default\<lparr>ses_context := c, ses_snapshot_config := cfg\<rparr>) st ds res w2" "w_env w1 = w_env w" "w_files w1 = w_files w"
    "w_files w' = w_files w2"
  shows "link_result w (session_of cfg) st res w'"
  using assms run_error_env [OF assms(2), of "session_of cfg"]
  by (cases "run_error w (session_of cfg)") (auto simp: run_result_def link_result_def)

lemma sample_link: "\<exists>r w'. olnk_link (Some 0) (Some 1) (Some None) sample_setup = Ret (OLNK_STATUS_OK, Some (Some r)) w'"
proof -
  have ok: "world_ok sample_world" by (rule reachable_ok [OF sample_world_reachable])
  obtain r w1 where run: "olnk_session_run (Some 2) (Some None) sample_world = Ret (OLNK_STATUS_OK, Some (Some r)) w1"
    using wp_session_run_calm [OF ok sample_session_live sample_run_error sample_calm, of None]
    by (auto simp: wp_def split: outcome.splits)
  have "session_run_post sample_world 2 sample_session (OLNK_STATUS_OK, Some (Some r)) w1"
    using wp_Ret [OF wp_olnk_session_run [where F = "\<lambda>_. True" and E = "\<lambda>_ _. True", OF ok sample_session_live TrueI] run] .
  then obtain ses where "world_ok w1" "w_sessions w1 2 = Some ses" by (auto simp: session_run_post_def)
  then have "wp (olnk_session_destroy (Some 2)) (\<lambda>_ _. True) (\<lambda>_ _. False) (\<lambda>_. False) w1"
    by (rule wp_session_destroy) simp
  then obtain w2 where "olnk_session_destroy (Some 2) w1 = Ret () w2" by (auto simp: wp_def split: outcome.splits)
  with run show ?thesis by (simp add: olnk_link_def run_defs sample_create del: One_nat_def)
qed



text \<open>A session leaks when the configuration cannot be copied: the object was allocated, the copy
  throws, the caller gets a null pointer, and the object stays in the heap with nobody to free it.\<close>

theorem session_create_leaks:
  assumes "w_contexts w c = Some ctx" "w_configs w g = Some cfg"
    and "env_alloc (w_env w) (w_tick w) = None" "env_alloc (w_env w) (Suc (w_tick w)) = Some x"
  shows "\<exists>w'. olnk_session_create (Some c) (Some g) w = Ret None w' \<and>
    w_sessions w' (w_next w) = Some (olnk_session_default\<lparr>ses_context := Some c\<rparr>)"
  using assms by (simp add: olnk_session_create_def heap_defs run_defs may_throw_def Let_def)

theorem session_create_leaks_witness:
  "\<exists>w'. olnk_session_create (Some 0) (Some 1)
       (sample_setup\<lparr>w_env := sample_env\<lparr>env_alloc := (\<lambda>t. if t = 5 then Some BadAlloc else None)\<rparr>\<rparr>) = Ret None w' \<and>
     w_sessions w' 2 = Some (olnk_session_default\<lparr>ses_context := Some 0\<rparr>)"
  using session_create_leaks [of "sample_setup\<lparr>w_env := sample_env\<lparr>env_alloc := (\<lambda>t. if t = 5 then Some BadAlloc else None)\<rparr>\<rparr>"
      0 olnk_context_default 1 sample_config BadAlloc]
  by (simp add: sample_setup_def)

lemma config_calls_sessions: "exec_config c w = Ret () w' \<Longrightarrow> w_sessions w' = w_sessions w"
  by (cases c) (auto simp: ignore_ret_def olnk_config_create_def olnk_config_destroy_def setter_defs heap_defs run_defs
      may_throw_def Let_def split: option.splits if_splits outcome.splits)

lemma mfold_keeps:
  assumes "\<And>x w w'. g x w = Ret () w' \<Longrightarrow> f w' = f w"
  shows "mfold g xs w = Ret () w' \<Longrightarrow> f w' = f w"
proof (induction xs arbitrary: w)
  case (Cons x xs)
  then obtain w1 where "g x w = Ret () w1" "mfold g xs w1 = Ret () w'"
    by (auto simp: mseq_def mbind_def split: outcome.splits)
  then show ?case using Cons.IH assms by metis
qed (simp add: mret_def)

text \<open>The configuration is a snapshot: whatever configuration calls follow (changing or destroying the
  configuration included), the session keeps the values the configuration had when the session was
  created.\<close>

theorem session_snapshot_isolated:
  assumes "w_configs w g = Some cfg" "w_contexts w c = Some ctx"
    and "olnk_session_create (Some c) (Some g) w = Ret (Some s) w1" "mfold exec_config cs w1 = Ret () w2"
  shows "w_sessions w2 s = Some (olnk_session_default\<lparr>ses_context := Some c, ses_snapshot_config := cfg\<rparr>)"
proof -
  have "w_sessions w1 s = Some (olnk_session_default\<lparr>ses_context := Some c, ses_snapshot_config := cfg\<rparr>)"
    using assms(1-3)
    by (auto simp: olnk_session_create_def safe_emit_log_def olnk_session_default_def heap_defs run_defs may_throw_def Let_def
        split: option.splits if_splits)
  then show ?thesis using mfold_keeps [where f = w_sessions, OF config_calls_sessions assms(4)] by simp
qed

theorem session_snapshot_isolated_witness:
  "\<exists>w2. mfold exec_config [CallConfigSetThreadCount (Some 1) 8, CallConfigDestroy (Some 1)] sample_world = Ret () w2 \<and>
     w_sessions w2 2 = Some sample_session"
proof -
  obtain w2 where run: "mfold exec_config [CallConfigSetThreadCount (Some 1) 8, CallConfigDestroy (Some 1)] sample_world = Ret () w2"
    by (simp add: ignore_ret_def olnk_config_set_thread_count_def olnk_config_destroy_def heap_defs run_defs
        sample_world_def sample_setup_def)
  then show ?thesis
    using session_snapshot_isolated [OF _ _ sample_create run, of sample_config olnk_context_default]
    by (simp add: sample_setup_def sample_session_def)
qed

end
