(* ===== verification/Olnk_Threads.thy ===== *)
theory Olnk_Threads
  imports Olnk_Client
begin

text \<open>
  The only shared state of the API, the atomic counter behind \<open>olnk_initialize\<close> and \<open>olnk_shutdown\<close>
  (\<open>src/olnk/api.cpp\<close>), under arbitrary interleavings of threads.  Every atomic operation is one step:
  the \<open>fetch_add\<close>, the \<open>load\<close> that starts \<open>olnk_shutdown\<close>, and each \<open>compare_exchange_weak\<close> of its loop, which
  may fail spuriously.  A thread inside \<open>olnk_shutdown\<close> has its local \<open>current\<close>.
\<close>

section \<open>Interleaved steps\<close>

datatype thread_state = Outside | InShutdown u32

text \<open>\<open>th_inits\<close>, \<open>th_drops\<close> and \<open>th_noops\<close> count the completed initialisations, the shutdowns that
  decremented the counter and the shutdowns that left it at zero; the code does not keep them.\<close>

record thread_world =
  th_count :: u32
  th_local :: "nat \<Rightarrow> thread_state"
  th_inits :: nat
  th_drops :: nat
  th_noops :: nat

definition threads_init :: thread_world where
  "threads_init = \<lparr>th_count = 0, th_local = (\<lambda>_. Outside), th_inits = 0, th_drops = 0, th_noops = 0\<rparr>"

definition fetch_add :: "thread_world \<Rightarrow> thread_world" where
  "fetch_add w = w\<lparr>th_count := th_count w + 1, th_inits := Suc (th_inits w)\<rparr>"

definition shutdown_load :: "nat \<Rightarrow> thread_world \<Rightarrow> thread_world" where
  "shutdown_load t w = w\<lparr>th_local := (th_local w)(t := InShutdown (th_count w))\<rparr>"

text \<open>One evaluation of the loop condition with \<open>current\<close>; \<open>spurious\<close> is the weak exchange's failure.\<close>

definition shutdown_test :: "nat \<Rightarrow> u32 \<Rightarrow> bool \<Rightarrow> thread_world \<Rightarrow> thread_world" where
  "shutdown_test t current spurious w =
     (if current = 0 then w\<lparr>th_local := (th_local w)(t := Outside), th_noops := Suc (th_noops w)\<rparr>
      else if th_count w = current \<and> \<not> spurious
      then w\<lparr>th_count := current - 1, th_local := (th_local w)(t := Outside), th_drops := Suc (th_drops w)\<rparr>
      else w\<lparr>th_local := (th_local w)(t := InShutdown (th_count w))\<rparr>)"

inductive thread_step :: "thread_world \<Rightarrow> thread_world \<Rightarrow> bool" where
  initialize: "th_local w t = Outside \<Longrightarrow> thread_step w (fetch_add w)"
| shutdown_begin: "th_local w t = Outside \<Longrightarrow> thread_step w (shutdown_load t w)"
| shutdown_loop: "th_local w t = InShutdown current \<Longrightarrow> thread_step w (shutdown_test t current spurious w)"

inductive_cases thread_stepE: "thread_step w w'"

lemmas thread_defs = fetch_add_def shutdown_load_def shutdown_test_def threads_init_def

section \<open>Properties\<close>

text \<open>The counter is the difference of the two counts, modulo its width.\<close>

lemma thread_step_count:
  "thread_step w w' \<Longrightarrow> th_count w = of_nat (th_inits w) - of_nat (th_drops w) \<Longrightarrow>
   th_count w' = of_nat (th_inits w') - of_nat (th_drops w')"
  by (erule thread_stepE) (auto simp: thread_defs algebra_simps)

lemma thread_step_drops:
  assumes "thread_step w w'" "th_count w = of_nat (th_inits w) - of_nat (th_drops w)" "th_drops w \<le> th_inits w"
  shows "th_drops w' \<le> th_inits w'"
proof -
  have "th_drops w < th_inits w" if "th_count w \<noteq> 0"
    using that assms(2,3) by (cases "th_drops w = th_inits w") auto
  then show ?thesis using assms by (auto simp: thread_defs elim!: thread_stepE)
qed

lemma threads_inv:
  assumes "thread_step\<^sup>*\<^sup>* threads_init w"
  shows "th_count w = of_nat (th_inits w) - of_nat (th_drops w) \<and> th_drops w \<le> th_inits w"
  using assms
proof (induction rule: rtranclp_induct)
  case (step y z)
  then show ?case using thread_step_count thread_step_drops by blast
qed (simp add: threads_init_def)

text \<open>C35: Whatever the interleaving of threads and the spurious failures, no initialisation and no
  shutdown is lost: a shutdown never takes the counter below zero, and while fewer than \<open>2\<^sup>3\<^sup>2\<close>
  initialisations happened the counter is exactly their number less the decrements.\<close>

theorem initialize_count_exact:
  assumes "thread_step\<^sup>*\<^sup>* threads_init w" "th_inits w < 2 ^ 32"
  shows "unat (th_count w) + th_drops w = th_inits w"
proof -
  have "th_count w = of_nat (th_inits w - th_drops w)" "th_drops w \<le> th_inits w"
    using threads_inv [OF assms(1)] by (auto simp: of_nat_diff)
  moreover have "unat (of_nat (th_inits w - th_drops w) :: u32) = th_inits w - th_drops w"
    using assms(2) by (simp add: unsigned_of_nat take_bit_nat_eq_self)
  ultimately show ?thesis by simp
qed

text \<open>A sample run of two threads: both initialise, both load 2 in \<open>olnk_shutdown\<close>, the first decrements,
  the second one's exchange fails and it retries.\<close>

definition race_world :: thread_world where
  "race_world = shutdown_test 1 1 False (shutdown_test 1 2 False (shutdown_test 0 2 False
     (shutdown_load 1 (shutdown_load 0 (fetch_add (fetch_add threads_init))))))"

lemma race_reachable: "thread_step\<^sup>*\<^sup>* threads_init race_world"
proof -
  note s = rtranclp.rtrancl_into_rtrancl [where r = thread_step]
  have "thread_step\<^sup>*\<^sup>* threads_init (shutdown_load 1 (shutdown_load 0 (fetch_add (fetch_add threads_init))))"
    by (intro s [OF _ shutdown_begin] s [OF _ initialize] rtranclp.rtrancl_refl) (simp_all add: thread_defs)
  then show ?thesis
    unfolding race_world_def by (intro s [OF _ shutdown_loop]) (simp_all add: thread_defs)
qed

theorem initialize_count_exact_witness:
  "unat (th_count race_world) + th_drops race_world = th_inits race_world \<and> th_drops race_world = 2"
  using initialize_count_exact [OF race_reachable] by (simp add: race_world_def thread_defs)

text \<open>The loop of \<open>olnk_shutdown\<close> is lock-free: an iteration that does not end the loop and did not
  fail spuriously saw the counter changed by another thread since \<open>current\<close> was read; the retry has
  the new value.  With no other thread in between, the load and one iteration do what the
  sequential \<open>olnk_shutdown\<close> does to the counter.\<close>

theorem shutdown_retry_progress:
  "(\<forall>current. th_local (shutdown_test t current False w) t \<noteq> Outside \<longrightarrow>
      th_count w \<noteq> current \<and> th_local (shutdown_test t current False w) t = InShutdown (th_count w)) \<and>
   (\<forall>v. g_initialize_count v = th_count w \<longrightarrow>
      olnk_shutdown v = Ret () (v\<lparr>g_initialize_count :=
        th_count (shutdown_test t (th_count w) False (shutdown_load t w))\<rparr>))"
  by (auto simp: thread_defs olnk_shutdown_def mupd_def)

theorem shutdown_retry_progress_witness:
  "\<forall>e. olnk_shutdown ((world_init e)\<lparr>g_initialize_count := 5\<rparr>) =
     Ret () ((world_init e)\<lparr>g_initialize_count :=
       th_count (shutdown_test 0 5 False (shutdown_load 0 (threads_init\<lparr>th_count := 5\<rparr>)))\<rparr>)"
  using shutdown_retry_progress [of 0 "threads_init\<lparr>th_count := 5\<rparr>"] by simp

end
