(* ===== verification/Olnk_Args.thy ===== *)
theory Olnk_Args
  imports Olnk_Prelude
begin

text \<open>
  The argument parser behind the command line: \<open>Registry\<close> and \<open>KlyCLIService::parse\<close> of
  \<open>third_party/Klyspec/Klyspec.hpp\<close>, which \<open>src/olnk/cli.cpp\<close> calls with the table of arguments it
  builds.  Commands and aliases are maps, as the \<open>unordered_map\<close>s of the source; the arguments of a
  command are a list.
\<close>

section \<open>Data\<close>

datatype ArgumentKind = Arg_flag | Arg_switch | Arg_option | Arg_positional | Arg_variadic | Arg_repeatable | Arg_key_value

datatype ValuePolicy = Value_none | Value_optional | Value_required

record ArgumentSpec =
  arg_id :: string
  arg_kind :: ArgumentKind
  arg_value_policy :: ValuePolicy
  arg_names :: "string list"
  arg_help :: string
  arg_default_value :: "string option"
  arg_required :: bool

record CommandSpec =
  cmd_name :: string
  cmd_help :: string
  cmd_aliases :: "string list"
  cmd_arguments :: "ArgumentSpec list"

record ParseResult =
  pr_values :: "string \<rightharpoonup> string list"
  pr_positionals :: "string list"
  pr_diagnostics :: "string list"
  pr_ok :: bool

record Registry =
  reg_commands :: "string \<rightharpoonup> CommandSpec"
  reg_aliases :: "string \<rightharpoonup> string"

definition Registry_empty :: Registry where
  "Registry_empty = \<lparr>reg_commands = Map.empty, reg_aliases = Map.empty\<rparr>"

definition ParseResult_default :: ParseResult where
  "ParseResult_default = \<lparr>pr_values = Map.empty, pr_positionals = [], pr_diagnostics = [], pr_ok = True\<rparr>"

section \<open>Registry\<close>

definition register_command :: "CommandSpec \<Rightarrow> Registry \<Rightarrow> bool \<times> Registry" where
  "register_command spec r =
     (if cmd_name spec = [] \<or> reg_commands r (cmd_name spec) \<noteq> None then (False, r)
      else (True, r\<lparr>reg_commands := (reg_commands r)(cmd_name spec \<mapsto> spec),
                    reg_aliases := (reg_aliases r)(cmd_name spec \<mapsto> cmd_name spec)\<rparr>))"

definition register_alias :: "string \<Rightarrow> string \<Rightarrow> Registry \<Rightarrow> bool \<times> Registry" where
  "register_alias command_name alias r =
     (if reg_commands r command_name = None \<or> alias = [] \<or> reg_aliases r alias \<noteq> None then (False, r)
      else (True, r\<lparr>reg_aliases := (reg_aliases r)(alias \<mapsto> command_name)\<rparr>))"

definition lookup_command :: "Registry \<Rightarrow> string \<Rightarrow> CommandSpec option" where
  "lookup_command r name_or_alias =
     (case reg_aliases r name_or_alias of None \<Rightarrow> None | Some name \<Rightarrow> reg_commands r name)"

definition register_argument :: "string \<Rightarrow> ArgumentSpec \<Rightarrow> Registry \<Rightarrow> bool \<times> Registry" where
  "register_argument command_name spec r =
     (case reg_aliases r command_name of None \<Rightarrow> (False, r)
      | Some name \<Rightarrow>
         (case reg_commands r name of None \<Rightarrow> (False, r)
          | Some cmd \<Rightarrow>
              if arg_id spec = [] then (False, r)
              else if list_ex (\<lambda>arg. arg_id arg = arg_id spec \<or> list_ex (\<lambda>n. n \<in> set (arg_names arg)) (arg_names spec))
                     (cmd_arguments cmd)
              then (False, r)
              else (True, r\<lparr>reg_commands := (reg_commands r)(name \<mapsto> cmd\<lparr>cmd_arguments := cmd_arguments cmd @ [spec]\<rparr>)\<rparr>)))"

definition lookup_argument :: "Registry \<Rightarrow> string \<Rightarrow> string \<Rightarrow> ArgumentSpec option" where
  "lookup_argument r command_name id_or_name =
     (case lookup_command r command_name of None \<Rightarrow> None
      | Some command \<Rightarrow> find (\<lambda>arg. arg_id arg = id_or_name \<or> id_or_name \<in> set (arg_names arg)) (cmd_arguments command))"

section \<open>Parsing\<close>

definition push_value :: "string \<Rightarrow> string \<Rightarrow> ParseResult \<Rightarrow> ParseResult" where
  "push_value key v res =
     res\<lparr>pr_values := (pr_values res)(key \<mapsto> (case pr_values res key of None \<Rightarrow> [v] | Some vs \<Rightarrow> vs @ [v]))\<rparr>"

definition fail_with :: "string \<Rightarrow> ParseResult \<Rightarrow> ParseResult" where
  "fail_with msg res = res\<lparr>pr_ok := False, pr_diagnostics := pr_diagnostics res @ [msg]\<rparr>"

text \<open>A token \<open>--name\<close> or \<open>--name=value\<close>; the second result is what is left of the arguments.\<close>

definition parse_long ::
    "(string \<Rightarrow> ArgumentSpec option) \<Rightarrow> string \<Rightarrow> string list \<Rightarrow> ParseResult \<Rightarrow> ParseResult \<times> string list" where
  "parse_long lookup token rest res =
     (let long_name = takeWhile (\<lambda>c. c \<noteq> CHR ''='') token;
          inline_value = (case dropWhile (\<lambda>c. c \<noteq> CHR ''='') token of [] \<Rightarrow> None | _ # v \<Rightarrow> Some v)
      in case lookup long_name of
           None \<Rightarrow> (fail_with (''unknown option: '' @ long_name) res, rest)
         | Some arg \<Rightarrow>
             if arg_value_policy arg = Value_required
             then (case inline_value of
                     Some v \<Rightarrow> (push_value (arg_id arg) v res, rest)
                   | None \<Rightarrow>
                      (case rest of
                         [] \<Rightarrow> (fail_with (''missing value for option: '' @ long_name) res, rest)
                       | v # rest' \<Rightarrow> (push_value (arg_id arg) v res, rest')))
             else (push_value (arg_id arg) (case inline_value of Some v \<Rightarrow> v | None \<Rightarrow> ''true'') res, rest))"

text \<open>The letters of a token \<open>-abc\<close>.\<close>

fun parse_short ::
    "(string \<Rightarrow> ArgumentSpec option) \<Rightarrow> string \<Rightarrow> string list \<Rightarrow> ParseResult \<Rightarrow> ParseResult \<times> string list" where
  "parse_short lookup [] rest res = (res, rest)"
| "parse_short lookup (c # cs) rest res =
     (let short_name = ''-'' @ [c]
      in case lookup short_name of
           None \<Rightarrow> parse_short lookup cs rest (fail_with (''unknown option: '' @ short_name) res)
         | Some arg \<Rightarrow>
             if arg_value_policy arg = Value_required
             then (if cs \<noteq> [] then (push_value (arg_id arg) cs res, rest)
                   else case rest of
                     [] \<Rightarrow> (fail_with (''missing value for option: '' @ short_name) res, rest)
                   | v # rest' \<Rightarrow> (push_value (arg_id arg) v res, rest'))
             else parse_short lookup cs rest (push_value (arg_id arg) ''true'' res))"

lemma parse_long_rest: "length (snd (parse_long lookup token rest res)) \<le> length rest"
  by (auto simp: parse_long_def Let_def split: option.split list.split)

lemma parse_short_rest: "length (snd (parse_short lookup cs rest res)) \<le> length rest"
  by (induction lookup cs rest res rule: parse_short.induct) (auto simp: Let_def split: option.split list.split)

function parse_tokens ::
    "(string \<Rightarrow> ArgumentSpec option) \<Rightarrow> string list \<Rightarrow> bool \<Rightarrow> ParseResult \<Rightarrow> ParseResult" where
  "parse_tokens lookup [] end_of_options res = res"
| "parse_tokens lookup (token # rest) end_of_options res =
     (if \<not> end_of_options \<and> token = ''--'' then parse_tokens lookup rest True res
      else if \<not> end_of_options \<and> 2 < length token \<and> take 2 token = ''--''
      then (let r = parse_long lookup token rest res in parse_tokens lookup (snd r) end_of_options (fst r))
      else if \<not> end_of_options \<and> 1 < length token \<and> token ! 0 = CHR ''-'' \<and> token ! 1 \<noteq> CHR ''-''
      then (let r = parse_short lookup (tl token) rest res in parse_tokens lookup (snd r) end_of_options (fst r))
      else parse_tokens lookup rest end_of_options (res\<lparr>pr_positionals := pr_positionals res @ [token]\<rparr>))"
  by pat_completeness auto
termination
  by (relation "measure (\<lambda>(_, argv, _, _). length argv)")
    (auto intro: le_imp_less_Suc parse_long_rest parse_short_rest)

definition check_argument :: "ArgumentSpec \<Rightarrow> ParseResult \<Rightarrow> ParseResult" where
  "check_argument arg res =
     (let res1 = (if arg_required arg \<and> pr_values res (arg_id arg) = None
                  then fail_with (''missing required argument: '' @ arg_id arg) res else res);
          res2 = (case (pr_values res1 (arg_id arg), arg_default_value arg) of
                    (None, Some v) \<Rightarrow> push_value (arg_id arg) v res1 | _ \<Rightarrow> res1);
          many = (case pr_values res2 (arg_id arg) of None \<Rightarrow> False | Some vs \<Rightarrow> 1 < length vs);
          res3 = (if arg_kind arg = Arg_flag \<and> many then fail_with (''flag provided multiple times: '' @ arg_id arg) res2 else res2)
      in if (arg_kind arg = Arg_option \<or> arg_kind arg = Arg_switch) \<and> many
         then fail_with (''non-repeatable option provided multiple times: '' @ arg_id arg) res3 else res3)"

definition check_positionals :: "ArgumentSpec list \<Rightarrow> ParseResult \<Rightarrow> ParseResult" where
  "check_positionals arguments res =
     (let positional_specs = length (filter (\<lambda>a. arg_kind a = Arg_positional) arguments);
          variadic = list_ex (\<lambda>a. arg_kind a = Arg_variadic) arguments;
          res1 = (if length (pr_positionals res) < positional_specs then fail_with ''missing positional argument(s)'' res else res)
      in if \<not> variadic \<and> positional_specs < length (pr_positionals res1) \<and> positional_specs \<noteq> 0
         then fail_with ''unexpected extra positional argument(s)'' res1 else res1)"

definition KlyCLIService_parse :: "Registry \<Rightarrow> string \<Rightarrow> string list \<Rightarrow> ParseResult" where
  "KlyCLIService_parse registry command_name argv =
     (case lookup_command registry command_name of
        None \<Rightarrow> fail_with ''unknown command'' ParseResult_default
      | Some command \<Rightarrow>
          check_positionals (cmd_arguments command)
            (fold check_argument (cmd_arguments command)
              (parse_tokens (lookup_argument registry (cmd_name command)) argv False ParseResult_default)))"

section \<open>Registries that registration builds\<close>

text \<open>No two arguments of a command share an id or a name.\<close>

definition arguments_ok :: "ArgumentSpec list \<Rightarrow> bool" where
  "arguments_ok arguments \<longleftrightarrow>
     sorted_wrt (\<lambda>a b. arg_id a \<noteq> arg_id b \<and> set (arg_names a) \<inter> set (arg_names b) = {}) arguments"

inductive registered :: "Registry \<Rightarrow> bool" where
  start: "registered Registry_empty"
| command: "registered r \<Longrightarrow> arguments_ok (cmd_arguments spec) \<Longrightarrow> registered (snd (register_command spec r))"
| argument: "registered r \<Longrightarrow> registered (snd (register_argument command_name spec r))"
| other_name: "registered r \<Longrightarrow> registered (snd (register_alias command_name alias r))"

definition registry_ok :: "Registry \<Rightarrow> bool" where
  "registry_ok r \<longleftrightarrow>
     (\<forall>n c. reg_commands r n = Some c \<longrightarrow> n \<noteq> [] \<and> cmd_name c = n \<and> reg_aliases r n = Some n \<and> arguments_ok (cmd_arguments c)) \<and>
     (\<forall>a n. reg_aliases r a = Some n \<longrightarrow> reg_commands r n \<noteq> None)"

lemma arguments_ok_Nil [simp]: "arguments_ok []"
  by (simp add: arguments_ok_def)

lemma arguments_ok_snoc:
  "arguments_ok (xs @ [a]) \<longleftrightarrow>
     arguments_ok xs \<and> (\<forall>x \<in> set xs. arg_id x \<noteq> arg_id a \<and> set (arg_names x) \<inter> set (arg_names a) = {})"
  by (auto simp: arguments_ok_def sorted_wrt_append)

lemma registered_ok: "registered r \<Longrightarrow> registry_ok r"
proof (induction rule: registered.induct)
  case start
  then show ?case by (simp add: registry_ok_def Registry_empty_def)
next
  case (command r spec)
  then show ?case by (auto simp: registry_ok_def register_command_def)
next
  case (argument r command_name spec)
  then show ?case
    by (auto simp: registry_ok_def register_argument_def arguments_ok_snoc list_ex_iff disjoint_iff split: option.split)
next
  case (other_name r command_name al)
  then show ?case by (auto simp: registry_ok_def register_alias_def)
qed

lemma registered_lookup:
  assumes "registered r" "lookup_command r name = Some c"
  shows "lookup_command r (cmd_name c) = Some c \<and> arguments_ok (cmd_arguments c)"
  using registered_ok [OF assms(1)] assms(2)
  by (auto simp: registry_ok_def lookup_command_def split: option.splits)

section \<open>What a parse result holds\<close>

text \<open>A result records an error exactly when it has a diagnostic, and its values are non-empty lists under the
  ids of \<open>ids\<close>.\<close>

definition result_ok :: "string set \<Rightarrow> ParseResult \<Rightarrow> bool" where
  "result_ok ids res \<longleftrightarrow>
     (pr_ok res \<longleftrightarrow> pr_diagnostics res = []) \<and> (\<forall>k vs. pr_values res k = Some vs \<longrightarrow> vs \<noteq> [] \<and> k \<in> ids)"

lemma result_ok_steps [simp, intro]:
  "result_ok ids ParseResult_default"
  "result_ok ids res \<Longrightarrow> result_ok ids (fail_with msg res)"
  "result_ok ids res \<Longrightarrow> k \<in> ids \<Longrightarrow> result_ok ids (push_value k v res)"
  "result_ok ids res \<Longrightarrow> result_ok ids (res\<lparr>pr_positionals := ps\<rparr>)"
  by (auto simp: result_ok_def ParseResult_default_def fail_with_def push_value_def split: option.splits if_splits)

lemma parse_long_ok:
  assumes "\<forall>n a. lookup n = Some a \<longrightarrow> arg_id a \<in> ids" "result_ok ids res"
  shows "result_ok ids (fst (parse_long lookup token rest res))"
  using assms by (auto simp: parse_long_def Let_def split: option.split list.split)

lemma parse_short_ok:
  assumes "\<forall>n a. lookup n = Some a \<longrightarrow> arg_id a \<in> ids" "result_ok ids res"
  shows "result_ok ids (fst (parse_short lookup cs rest res))"
  using assms
  by (induction lookup cs rest res rule: parse_short.induct) (auto simp: Let_def split: option.split list.split)

lemma parse_tokens_ok:
  assumes "\<forall>n a. lookup n = Some a \<longrightarrow> arg_id a \<in> ids" "result_ok ids res"
  shows "result_ok ids (parse_tokens lookup argv eoo res)"
  using assms
  by (induction lookup argv eoo res rule: parse_tokens.induct) (auto simp: Let_def parse_long_ok parse_short_ok)

text \<open>What the final checks establish for one argument: a required one is there, an argument with a default has
  a value, and what may be given once is there at most once.\<close>

definition argument_met :: "ParseResult \<Rightarrow> ArgumentSpec \<Rightarrow> bool" where
  "argument_met res arg \<longleftrightarrow>
     (arg_required arg \<or> arg_default_value arg \<noteq> None \<longrightarrow> pr_values res (arg_id arg) \<noteq> None) \<and>
     (arg_kind arg \<in> {Arg_flag, Arg_option, Arg_switch} \<longrightarrow> (\<forall>vs. pr_values res (arg_id arg) = Some vs \<longrightarrow> length vs \<le> 1))"

lemma check_argument_result:
  "result_ok ids res \<Longrightarrow> arg_id arg \<in> ids \<Longrightarrow> result_ok ids (check_argument arg res)"
  by (auto simp: check_argument_def Let_def split: option.split)

lemma check_argument_keeps:
  "k \<noteq> arg_id arg \<Longrightarrow> pr_values (check_argument arg res) k = pr_values res k"
  "pr_ok (check_argument arg res) \<Longrightarrow> pr_ok res"
  "pr_positionals (check_argument arg res) = pr_positionals res"
  by (auto simp: check_argument_def Let_def fail_with_def push_value_def split: option.splits if_splits)

lemma check_argument_met: "pr_ok (check_argument arg res) \<Longrightarrow> argument_met (check_argument arg res) arg"
  by (auto simp: check_argument_def argument_met_def Let_def fail_with_def push_value_def not_less
      split: option.splits if_splits)

lemma check_arguments_met:
  assumes "arguments_ok arguments" "pr_ok (fold check_argument arguments res)"
  shows "pr_ok res \<and> (\<forall>arg \<in> set arguments. argument_met (fold check_argument arguments res) arg)"
  using assms
proof (induction arguments rule: rev_induct)
  case (snoc a xs)
  let ?r = "fold check_argument xs res"
  have "pr_ok ?r" using snoc.prems check_argument_keeps(2) by simp
  then have "pr_ok res" "\<forall>arg \<in> set xs. argument_met ?r arg" using snoc by (auto simp: arguments_ok_snoc)
  moreover have "argument_met (check_argument a ?r) x" if "x \<in> set xs" "argument_met ?r x" for x
    using that snoc.prems(1) check_argument_keeps(1) by (auto simp: argument_met_def arguments_ok_snoc)
  ultimately show ?case using snoc.prems check_argument_met by auto
qed simp

lemma check_arguments_result:
  "result_ok ids res \<Longrightarrow> arg_id ` set arguments \<subseteq> ids \<Longrightarrow> result_ok ids (fold check_argument arguments res)"
  by (induction arguments arbitrary: res) (auto intro!: check_argument_result)

lemma check_positionals_keeps:
  "pr_values (check_positionals arguments res) = pr_values res"
  "pr_ok (check_positionals arguments res) \<Longrightarrow> pr_ok res"
  by (simp_all add: check_positionals_def Let_def fail_with_def split: if_splits)

lemma check_positionals_result: "result_ok ids res \<Longrightarrow> result_ok ids (check_positionals arguments res)"
  by (simp add: check_positionals_def Let_def)

lemma check_positionals_count:
  "pr_ok (check_positionals arguments res) \<Longrightarrow>
     length (filter (\<lambda>a. arg_kind a = Arg_positional) arguments) \<le> length (pr_positionals (check_positionals arguments res))"
  by (auto simp: check_positionals_def Let_def fail_with_def split: if_splits)


definition sample_spec :: ArgumentSpec where
  "sample_spec = \<lparr>arg_id = ''output'', arg_kind = Arg_option, arg_value_policy = Value_required, arg_names = [''-o'', ''--output''],
     arg_help = [], arg_default_value = None, arg_required = True\<rparr>"

definition sample_command :: CommandSpec where
  "sample_command = \<lparr>cmd_name = ''link'', cmd_help = [], cmd_aliases = [], cmd_arguments = []\<rparr>"

definition sample_registry :: Registry where
  "sample_registry = snd (register_argument ''link'' sample_spec (snd (register_command sample_command Registry_empty)))"


end
