(* ===== verification/Olnk_Cli.thy ===== *)
theory Olnk_Cli
  imports Olnk_Client Olnk_Args
begin

text \<open>
  The command line program: \<open>src/olnk/cli.cpp\<close> and \<open>src/main.cpp\<close>.  It parses its arguments, fills a
  configuration through the public API and runs a session.  The standard streams are strings that
  grow.  What is not part of these sources is a parameter: the files a profile is read from, the
  profile loader, the text of the IPC snapshot and the outcome of the DSL probe.  The program's own
  string operations are taken not to run out of memory; the API calls may.
\<close>

section \<open>State\<close>

datatype profile_format = Format_json | Format_xml | Format_yaml | Format_sexpr

text \<open>What loading a profile does: the entries, no object at the root, or an exception that the text is malformed.\<close>

datatype profile_load = Profile "(string \<times> string) list" | NoObject | LoadThrows

record cli_env =
  ce_probe_ok :: bool
  ce_read_file :: "string \<Rightarrow> string option"
  ce_load_profile :: "profile_format \<Rightarrow> string \<Rightarrow> profile_load"
  ce_ipc_text :: "string \<Rightarrow> ParseResult \<Rightarrow> string option"

record cli_world =
  cw_world :: world
  cw_out :: string
  cw_err :: string

type_synonym 'a cli = "('a, cli_world) prog"

definition lift_api :: "'a api \<Rightarrow> 'a cli" where
  "lift_api m c = (case m (cw_world c) of
     Ret x w \<Rightarrow> Ret x (c\<lparr>cw_world := w\<rparr>) | Exn e w \<Rightarrow> Exn e (c\<lparr>cw_world := w\<rparr>) | Fault u \<Rightarrow> Fault u)"

definition cout :: "string \<Rightarrow> unit cli" where
  "cout s = mupd (\<lambda>c. c\<lparr>cw_out := cw_out c @ s\<rparr>)"

definition cerr :: "string \<Rightarrow> unit cli" where
  "cerr s = mupd (\<lambda>c. c\<lparr>cw_err := cw_err c @ s\<rparr>)"

definition nl :: string where "nl = [CHR 0x0A]"

record ProcessState =
  ps_context :: "nat option"
  ps_config :: "nat option"
  ps_session :: "nat option"

definition ProcessState_destroy :: "ProcessState \<Rightarrow> unit cli" where
  "ProcessState_destroy state =
     mseq (if ps_session state \<noteq> None then lift_api (olnk_session_destroy (ps_session state)) else mret ())
     (mseq (if ps_config state \<noteq> None then lift_api (olnk_config_destroy (ps_config state)) else mret ())
           (if ps_context state \<noteq> None then lift_api (olnk_context_destroy (ps_context state)) else mret ()))"

section \<open>\<open>strtol\<close> with base 10\<close>

definition is_space :: "char \<Rightarrow> bool" where
  "is_space c \<longleftrightarrow> c = CHR '' '' \<or> (9 \<le> (of_char c :: nat) \<and> (of_char c :: nat) \<le> 13)"

definition is_digit :: "char \<Rightarrow> bool" where
  "is_digit c \<longleftrightarrow> 48 \<le> (of_char c :: nat) \<and> (of_char c :: nat) \<le> 57"

definition digits_value :: "string \<Rightarrow> int" where
  "digits_value ds = foldl (\<lambda>n c. 10 * n + (int (of_char c) - 48)) 0 ds"

text \<open>The value, clamped to \<open>long\<close>, and the rest of the string that \<open>end\<close> points to; the whole string if
  there are no digits.\<close>

definition strtol10 :: "string \<Rightarrow> int \<times> string" where
  "strtol10 s =
     (let body = dropWhile is_space s;
          neg = (body \<noteq> [] \<and> hd body = CHR ''-'');
          body' = (if body \<noteq> [] \<and> (hd body = CHR ''-'' \<or> hd body = CHR ''+'') then tl body else body);
          ds = takeWhile is_digit body';
          v = digits_value ds
      in if ds = [] then (0, s)
         else ((if neg then max (- (2 ^ 63)) (- v) else min (2 ^ 63 - 1) v), dropWhile is_digit body'))"

section \<open>The CLI plugin and the subcommands\<close>

definition CliBehaviorPlugin_extend_arguments :: "Registry \<Rightarrow> Registry" where
  "CliBehaviorPlugin_extend_arguments r0 =
     (let arg = (\<lambda>i k p n h d. \<lparr>arg_id = i, arg_kind = k, arg_value_policy = p, arg_names = [n], arg_help = h,
                   arg_default_value = d, arg_required = False\<rparr>);
          add = (\<lambda>spec r. if lookup_argument r ''link'' (arg_id spec) = None then snd (register_argument ''link'' spec r) else r)
      in add (arg ''profile'' Arg_option Value_required ''--profile'' ''Profile file path for config preload'' None)
        (add (arg ''mode'' Arg_switch Value_optional ''--mode'' ''Optional CLI mode switch (strict|compat)'' (Some ''strict''))
        (add (arg ''dry_run'' Arg_flag Value_none ''--dry-run'' ''Parse and validate, but skip linker execution'' None) r0)))"

definition CliBehaviorPlugin_before_parse :: "string list \<Rightarrow> string list" where
  "CliBehaviorPlugin_before_parse argv = map (\<lambda>token. if token = ''-vv'' then ''--trace'' else token) argv"

definition CliBehaviorPlugin_after_parse :: "ParseResult \<Rightarrow> ParseResult" where
  "CliBehaviorPlugin_after_parse res =
     (if pr_values res ''verbose'' \<noteq> None \<and> pr_values res ''trace'' \<noteq> None
      then res\<lparr>pr_diagnostics := pr_diagnostics res @ [''--verbose and --trace both set; using trace level'']\<rparr> else res)"

definition CliBehaviorPlugin_intercept_dispatch :: "ParseResult \<Rightarrow> int option cli" where
  "CliBehaviorPlugin_intercept_dispatch res =
     (if pr_values res ''dry_run'' \<noteq> None
      then mseq (cout (''dry-run: parse/config validation complete; skipping linker session run'' @ nl)) (mret (Some 0))
      else mret None)"

definition CliBehaviorPlugin_after_dispatch :: "nat \<Rightarrow> unit cli" where
  "CliBehaviorPlugin_after_dispatch code =
     (if code \<noteq> 0
      then cerr (''cli-plugin: dispatch finished with non-zero exit code '' @ stringify_nat code @ nl)
      else mret ())"

definition InspectSubcommand_execute :: "string list \<Rightarrow> int cli" where
  "InspectSubcommand_execute args =
     mseq (cout (''inspect subcommand (native):'' @ concat (map (\<lambda>a. '' '' @ a) args) @ nl)) (mret 0)"

definition ProfilesSubcommand_execute :: "string list \<Rightarrow> int cli" where
  "ProfilesSubcommand_execute args = mseq (cout (''supported profile formats: json, xml, yaml, sexpr'' @ nl)) (mret 0)"

text \<open>\<open>SubcommandRegistry::dispatch\<close> of \<open>Klyspec-Subcommand.hpp\<close> on the registry with the two subcommands, each
  under its name and its id.\<close>

definition dispatch_subcommand :: "string \<Rightarrow> string list \<Rightarrow> int cli" where
  "dispatch_subcommand name args =
     (if name = ''inspect'' \<or> name = ''olnk.native.inspect'' then InspectSubcommand_execute args
      else if name = ''profiles'' \<or> name = ''olnk.native.profiles'' then ProfilesSubcommand_execute args
      else mret 127)"

section \<open>Helpers\<close>

definition status_string :: "olnk_status \<Rightarrow> string" where
  "status_string status = olnk_status_to_string status"

definition has_value :: "ParseResult \<Rightarrow> string \<Rightarrow> bool" where
  "has_value parsed key \<longleftrightarrow> pr_values parsed key \<noteq> None"

definition first_value :: "ParseResult \<Rightarrow> string \<Rightarrow> string option" where
  "first_value parsed key =
     (case pr_values parsed key of None \<Rightarrow> None | Some [] \<Rightarrow> None | Some (v # _) \<Rightarrow> Some v)"

definition values_for :: "ParseResult \<Rightarrow> string \<Rightarrow> string list option" where
  "values_for parsed key = pr_values parsed key"

definition print_help :: "CommandSpec \<Rightarrow> unit cli" where
  "print_help cmd = cout
     (''OcarinaLNK (olnk)'' @ nl @ ''Usage:'' @ nl @ ''  olnk [options] <input...>'' @ nl @
      ''  olnk inspect <args...>'' @ nl @ ''  olnk profiles'' @ nl @ nl @ cmd_help cmd @ nl @ nl @
      ''Important options:'' @ nl @ ''  -o, --output <path>'' @ nl @ ''      --format <name>'' @ nl @
      ''      --machine <name>'' @ nl @ ''      --output-kind <kind>'' @ nl @ ''      --profile <path>'' @ nl @
      ''      --profile-format <json|xml|yaml|sexpr>'' @ nl @ ''      --ipc-signal / --ipc-socket'' @ nl @
      ''      --dry-run'' @ nl)"

definition link_arguments :: "ArgumentSpec list" where
  "link_arguments =
     (let arg = (\<lambda>i k p n h d. \<lparr>arg_id = i, arg_kind = k, arg_value_policy = p, arg_names = n, arg_help = h,
                   arg_default_value = d, arg_required = False\<rparr>)
      in [arg ''help'' Arg_flag Value_none [''-h'', ''--help''] ''Show help'' None,
          arg ''version'' Arg_flag Value_none [''--version''] ''Show version'' None,
          arg ''verbose'' Arg_flag Value_none [''--verbose''] ''Verbose logs'' None,
          arg ''trace'' Arg_flag Value_none [''--trace''] ''Trace logs'' None,
          arg ''output'' Arg_option Value_required [''-o'', ''--output''] ''Output path'' None,
          arg ''map'' Arg_option Value_required [''--map''] ''Map output path'' None,
          arg ''entry'' Arg_option Value_required [''--entry''] ''Entry symbol'' None,
          arg ''format'' Arg_option Value_required [''--format''] ''Output format'' None,
          arg ''machine'' Arg_option Value_required [''--machine''] ''Machine target'' None,
          arg ''script'' Arg_option Value_required [''--script''] ''Linker script path'' None,
          arg ''output_kind'' Arg_option Value_required [''--output-kind''] ''Output kind'' None,
          arg ''threads'' Arg_option Value_required [''-j'', ''--threads''] ''Thread count'' None,
          arg ''profile_format'' Arg_option Value_required [''--profile-format''] ''Profile format'' (Some ''json''),
          arg ''library_path'' Arg_repeatable Value_required [''-L'', ''--lib-path''] ''Library search path'' None,
          arg ''library'' Arg_repeatable Value_required [''-l'', ''--lib''] ''Link library'' None,
          arg ''plugin'' Arg_repeatable Value_required [''--plugin''] ''Plugin path'' None,
          arg ''define'' Arg_repeatable Value_required [''-D'', ''--define''] ''Define key=value'' None,
          arg ''input0'' Arg_positional Value_required [] ''Primary input'' None,
          arg ''inputs'' Arg_variadic Value_required [] ''Additional inputs'' None,
          arg ''meta'' Arg_key_value Value_optional [''--meta''] ''Metadata hint'' None,
          arg ''incremental'' Arg_flag Value_none [''--incremental''] ''Enable incremental mode'' None,
          arg ''debug_info'' Arg_flag Value_none [''--debug-info''] ''Enable debug info'' None,
          arg ''ipc_signal'' Arg_flag Value_none [''--ipc-signal''] ''Enable IPC signal mode'' None,
          arg ''ipc_socket'' Arg_flag Value_none [''--ipc-socket''] ''Enable IPC local socket mode'' None])"

definition build_registry :: Registry where
  "build_registry =
     (let r = snd (register_command \<lparr>cmd_name = ''link'', cmd_help = ''Link object files and libraries through OcarinaLNK C ABI.'',
                      cmd_aliases = [], cmd_arguments = []\<rparr> Registry_empty);
          r1 = fold (\<lambda>spec r. snd (register_argument ''link'' spec r)) link_arguments r
      in snd (register_alias ''link'' ''olnk'' r1))"

definition parse_profile_format :: "string \<Rightarrow> profile_format option" where
  "parse_profile_format v =
     (if v = ''json'' then Some Format_json else if v = ''xml'' then Some Format_xml
      else if v = ''yaml'' then Some Format_yaml else if v = ''sexpr'' then Some Format_sexpr else None)"

section \<open>Configuration\<close>

text \<open>\<open>value->c_str()\<close> stops at a NUL.  A false result is an error that was reported.\<close>

definition apply_string_setter ::
    "ParseResult \<Rightarrow> nat option \<Rightarrow> string \<Rightarrow> (nat option \<Rightarrow> cstr \<Rightarrow> olnk_status api) \<Rightarrow> string \<Rightarrow> bool cli" where
  "apply_string_setter parsed config key setter label =
     (case first_value parsed key of None \<Rightarrow> mret True
      | Some v \<Rightarrow> mbind (lift_api (setter config (Some (c_str v)))) (\<lambda>s.
          if s \<noteq> OLNK_STATUS_OK
          then mseq (cerr (''error: failed to set '' @ label @ '': '' @ status_string s @ nl)) (mret False)
          else mret True))"

text \<open>\<open>a && b\<close> over early returns of false.\<close>

definition andalso :: "bool cli \<Rightarrow> bool cli \<Rightarrow> bool cli" where
  "andalso m n = mbind m (\<lambda>ok. if ok then n else mret False)"

primrec all_ok :: "('a \<Rightarrow> bool cli) \<Rightarrow> 'a list \<Rightarrow> bool cli" where
  "all_ok f [] = mret True"
| "all_ok f (x # xs) = andalso (f x) (all_ok f xs)"

definition status_ok :: "olnk_status api \<Rightarrow> bool cli" where
  "status_ok m = mbind (lift_api m) (\<lambda>s. mret (s = OLNK_STATUS_OK))"

definition apply_profile_entry :: "nat option \<Rightarrow> string \<times> string \<Rightarrow> bool cli" where
  "apply_profile_entry config kv =
     (case kv of (key, v) \<Rightarrow>
        if key = ''output'' then status_ok (olnk_config_set_output_path config (Some (c_str v)))
        else if key = ''format'' then status_ok (olnk_config_set_format config (Some (c_str v)))
        else if key = ''machine'' then status_ok (olnk_config_set_machine config (Some (c_str v)))
        else if key = ''script'' then status_ok (olnk_config_set_script_path config (Some (c_str v)))
        else if take 7 key = ''define.''
        then (if drop 7 key \<noteq> []
              then mseq (lift_api (olnk_config_define config (Some (c_str (drop 7 key))) (Some (c_str v)))) (mret True)
              else mret True)
        else mret True)"

definition apply_profile :: "cli_env \<Rightarrow> ParseResult \<Rightarrow> nat option \<Rightarrow> bool cli" where
  "apply_profile env parsed config =
     (case first_value parsed ''profile'' of None \<Rightarrow> mret True
      | Some profile_path \<Rightarrow>
         (case ce_read_file env profile_path of
            None \<Rightarrow> mseq (cerr (''error: cannot open profile file: '' @ profile_path @ nl)) (mret False)
          | Some buffer \<Rightarrow>
             (let format_string = (case first_value parsed ''profile_format'' of None \<Rightarrow> ''json'' | Some f \<Rightarrow> f)
              in case parse_profile_format format_string of
                   None \<Rightarrow> mseq (cerr (''error: invalid profile format: '' @ format_string @ nl)) (mret False)
                 | Some fmt \<Rightarrow>
                    (case ce_load_profile env fmt buffer of
                       NoObject \<Rightarrow> mseq (cerr (''error: failed to parse profile file'' @ nl)) (mret False)
                     | LoadThrows \<Rightarrow> mthrow OtherExn
                     | Profile loaded \<Rightarrow> all_ok (apply_profile_entry config) loaded))))"

definition output_kind_of :: "string \<Rightarrow> olnk_output_kind option" where
  "output_kind_of kind =
     (if kind = ''executable'' then Some OLNK_OUTPUT_EXECUTABLE
      else if kind = ''shared'' then Some OLNK_OUTPUT_SHARED_LIBRARY
      else if kind = ''static'' then Some OLNK_OUTPUT_STATIC_IMAGE
      else if kind = ''relocatable'' then Some OLNK_OUTPUT_RELOCATABLE
      else if kind = ''binary'' then Some OLNK_OUTPUT_BINARY else None)"

definition apply_output_kind :: "nat option \<Rightarrow> ParseResult \<Rightarrow> bool cli" where
  "apply_output_kind config parsed =
     (case first_value parsed ''output_kind'' of None \<Rightarrow> mret True
      | Some kind \<Rightarrow>
         (case output_kind_of kind of
            None \<Rightarrow> mseq (cerr (''error: invalid --output-kind: '' @ kind @ nl)) (mret False)
          | Some mapped \<Rightarrow> mbind (status_ok (olnk_config_set_output_kind config mapped)) (\<lambda>ok.
              if ok then mret True else mseq (cerr (''error: failed to set output kind'' @ nl)) (mret False))))"

definition apply_threads :: "nat option \<Rightarrow> ParseResult \<Rightarrow> bool cli" where
  "apply_threads config parsed =
     (case first_value parsed ''threads'' of None \<Rightarrow> mret True
      | Some threads \<Rightarrow>
         (case strtol10 (c_str threads) of (n, rest) \<Rightarrow>
            if rest \<noteq> [] \<or> n < 0
            then mseq (cerr (''error: --threads expects non-negative integer'' @ nl)) (mret False)
            else mbind (status_ok (olnk_config_set_thread_count config (of_int n))) (\<lambda>ok.
              if ok then mret True else mseq (cerr (''error: failed to set threads'' @ nl)) (mret False))))"

text \<open>\<open>kv.find('=')\<close>: the key is not empty and something follows the sign.\<close>

definition split_define :: "string \<Rightarrow> (string \<times> string) option" where
  "split_define kv =
     (let eq = length (takeWhile (\<lambda>c. c \<noteq> CHR ''='') kv)
      in if eq = length kv \<or> eq = 0 \<or> length kv \<le> eq + 1 then None
         else Some (take eq kv, drop (eq + 1) kv))"

definition apply_define :: "nat option \<Rightarrow> string \<Rightarrow> bool cli" where
  "apply_define config kv =
     (case split_define kv of
        None \<Rightarrow> mseq (cerr (''error: invalid define: '' @ kv @ nl)) (mret False)
      | Some (key, v) \<Rightarrow> mbind (status_ok (olnk_config_define config (Some (c_str key)) (Some (c_str v)))) (\<lambda>ok.
          if ok then mret True else mseq (cerr (''error: failed define: '' @ key @ nl)) (mret False)))"

definition apply_flag :: "olnk_status api \<Rightarrow> string \<Rightarrow> bool cli" where
  "apply_flag m label =
     mbind (status_ok m) (\<lambda>ok. if ok then mret True
       else mseq (cerr (''error: failed to set '' @ label @ '' mode'' @ nl)) (mret False))"

definition apply_config :: "cli_env \<Rightarrow> nat option \<Rightarrow> ParseResult \<Rightarrow> bool cli" where
  "apply_config env config parsed =
     andalso (apply_profile env parsed config)
    (andalso (apply_string_setter parsed config ''output'' olnk_config_set_output_path ''output'')
    (andalso (apply_string_setter parsed config ''map'' olnk_config_set_map_path ''map'')
    (andalso (apply_string_setter parsed config ''entry'' olnk_config_set_entry_symbol ''entry'')
    (andalso (apply_string_setter parsed config ''format'' olnk_config_set_format ''format'')
    (andalso (apply_string_setter parsed config ''machine'' olnk_config_set_machine ''machine'')
    (andalso (apply_string_setter parsed config ''script'' olnk_config_set_script_path ''script'')
    (andalso (apply_output_kind config parsed)
    (andalso (apply_threads config parsed)
    (andalso (apply_flag (olnk_config_set_incremental config (if has_value parsed ''incremental'' then 1 else 0)) ''incremental'')
    (andalso (apply_flag (olnk_config_set_debug_info config (if has_value parsed ''debug_info'' then 1 else 0)) ''debug-info'')
    (andalso (case values_for parsed ''define'' of None \<Rightarrow> mret True | Some defs \<Rightarrow> all_ok (apply_define config) defs)
    (andalso (case values_for parsed ''library'' of None \<Rightarrow> mret True
              | Some libs \<Rightarrow> all_ok (\<lambda>l. status_ok (olnk_config_add_library config (Some (c_str l)))) libs)
    (andalso (case values_for parsed ''library_path'' of None \<Rightarrow> mret True
              | Some lib_paths \<Rightarrow> all_ok (\<lambda>p. status_ok (olnk_config_add_library_path config (Some (c_str p)))) lib_paths)
    (andalso (case values_for parsed ''plugin'' of None \<Rightarrow> mret True
              | Some plugins \<Rightarrow> all_ok (\<lambda>p. status_ok (olnk_config_add_plugin config (Some (c_str p)))) plugins)
      (all_ok (\<lambda>i. status_ok (olnk_config_add_input_file config (Some (c_str i)))) (pr_positionals parsed))))))))))))))))"

section \<open>Running\<close>

primrec print_diagnostic_loop :: "nat option \<Rightarrow> nat list \<Rightarrow> unit cli" where
  "print_diagnostic_loop session [] = mret ()"
| "print_diagnostic_loop session (i # is) =
     mseq (mbind (lift_api (olnk_session_diagnostic_at session (of_nat i))) (\<lambda>d.
            if d = None then mret ()
            else mbind (lift_api (olnk_diagnostic_message d)) (\<lambda>msg.
              cerr (''diagnostic['' @ stringify_nat i @ '']: '' @ (case msg of None \<Rightarrow> ''<no-message>'' | Some m \<Rightarrow> m) @ nl))))
       (print_diagnostic_loop session is)"

definition print_diagnostics :: "nat option \<Rightarrow> int cli" where
  "print_diagnostics session =
     mbind (lift_api (olnk_session_diagnostic_count session)) (\<lambda>n.
       mseq (print_diagnostic_loop session [0..<unat n]) (mret (if n = 0 then 0 else 1)))"

definition emit_ipc_snapshot :: "cli_env \<Rightarrow> ParseResult \<Rightarrow> unit cli" where
  "emit_ipc_snapshot env parsed =
     (if \<not> has_value parsed ''ipc_signal'' \<and> \<not> has_value parsed ''ipc_socket'' then mret ()
      else let socket = has_value parsed ''ipc_socket'';
               code = (if pr_ok parsed then ''0'' else if socket then ''1'' else ''2'')
           in mseq (case ce_ipc_text env (if socket then ''local_socket'' else ''signal'') parsed of None \<Rightarrow> mret ()
                    | Some text \<Rightarrow> cout (''ipc-payload: '' @ text @ nl))
                (cout (''ipc-dispatch-code: '' @ code @ nl)))"

definition run_klytmk_probe :: "cli_env \<Rightarrow> unit cli" where
  "run_klytmk_probe env =
     (if ce_probe_ok env then mret () else cerr (''warning: embedded klytmk DSL probe failed'' @ nl))"

text \<open>From the session on; \<open>state\<close> has a context and a configuration.\<close>

definition run_session :: "ProcessState \<Rightarrow> (int \<times> ProcessState) cli" where
  "run_session state0 =
     mbind (lift_api (olnk_session_create (ps_context state0) (ps_config state0))) (\<lambda>session.
       let state = state0\<lparr>ps_session := session\<rparr>
       in if session = None
          then mseq (cerr (''fatal: failed to create session'' @ nl)) (mret (1, state))
          else mbind (lift_api (olnk_session_run session (Some None))) (\<lambda>(status, res).
            let exit_code = (if status \<noteq> OLNK_STATUS_OK then 1 else 0 :: nat)
            in mseq (if status \<noteq> OLNK_STATUS_OK
                     then cerr (''error: link failed: '' @ status_string status @ nl) else mret ())
              (mseq (print_diagnostics session)
              (mseq (lift_api (olnk_result_destroy (case res of None \<Rightarrow> None | Some r \<Rightarrow> r)))
              (mseq (CliBehaviorPlugin_after_dispatch exit_code) (mret (int exit_code, state)))))))"

text \<open>Everything after the \<open>ProcessState\<close> is declared; its destructor runs on every return.\<close>

definition run_link :: "cli_env \<Rightarrow> ParseResult \<Rightarrow> (int \<times> ProcessState) cli" where
  "run_link env parsed =
     mbind (lift_api olnk_context_create) (\<lambda>ctx.
       let state1 = \<lparr>ps_context = ctx, ps_config = None, ps_session = None\<rparr>
       in if ctx = None then mseq (cerr (''fatal: failed to create context'' @ nl)) (mret (1, state1))
          else mseq (if has_value parsed ''trace'' then lift_api (olnk_context_set_log_level ctx OLNK_LOG_TRACE)
                     else if has_value parsed ''verbose'' then lift_api (olnk_context_set_log_level ctx OLNK_LOG_DEBUG)
                     else mret ())
            (mbind (lift_api olnk_config_create) (\<lambda>config.
               let state2 = state1\<lparr>ps_config := config\<rparr>
               in if config = None then mseq (cerr (''fatal: failed to create config'' @ nl)) (mret (1, state2))
                  else mbind (apply_config env config parsed) (\<lambda>ok.
                    if \<not> ok then mret (2, state2)
                    else mbind (CliBehaviorPlugin_intercept_dispatch parsed) (\<lambda>intercepted.
                      case intercepted of
                        Some code \<Rightarrow> mseq (CliBehaviorPlugin_after_dispatch (nat code)) (mret (code, state2))
                      | None \<Rightarrow> run_session state2)))))"

fun fast_path :: "string list \<Rightarrow> int option cli" where
  "fast_path [] = mret None"
| "fast_path (token # args) =
     (if token = ''--version'' then mseq (cout (olnk_version_string @ nl)) (mret (Some 0))
      else if token = ''--help'' \<or> token = ''-h''
      then mseq (case lookup_command build_registry ''link'' of None \<Rightarrow> mret () | Some cmd \<Rightarrow> print_help cmd) (mret (Some 0))
      else fast_path args)"

text \<open>\<open>args\<close> are \<open>argv[1], \<dots>\<close>.\<close>

definition run_cli :: "cli_env \<Rightarrow> string list \<Rightarrow> int cli" where
  "run_cli env args =
     mseq (run_klytmk_probe env)
    (mbind (fast_path args) (\<lambda>fast. case fast of Some code \<Rightarrow> mret code
     | None \<Rightarrow>
        if args \<noteq> [] \<and> hd args \<in> {''inspect'', ''profiles'', ''olnk.native.inspect'', ''olnk.native.profiles''}
        then dispatch_subcommand (hd args) (tl args)
        else
          let registry = CliBehaviorPlugin_extend_arguments build_registry;
              parsed = CliBehaviorPlugin_after_parse
                (KlyCLIService_parse registry ''link'' (CliBehaviorPlugin_before_parse args))
          in if \<not> pr_ok parsed
             then mseq (mfold (\<lambda>diag. cerr (''error: '' @ diag @ nl)) (pr_diagnostics parsed)) (mret 2)
             else if has_value parsed ''help''
             then mseq (case lookup_command registry ''link'' of None \<Rightarrow> mret () | Some cmd \<Rightarrow> print_help cmd) (mret 0)
             else if has_value parsed ''version'' then mseq (cout (olnk_version_string @ nl)) (mret 0)
             else mseq (emit_ipc_snapshot env parsed)
               (mbind (run_link env parsed) (\<lambda>(code, state). mseq (ProcessState_destroy state) (mret code)))))"

definition main :: "cli_env \<Rightarrow> string list \<Rightarrow> int cli" where
  "main env args =
     mbind (lift_api olnk_initialize) (\<lambda>st.
       if st \<noteq> OLNK_STATUS_OK then mret 1
       else mbind (run_cli env args) (\<lambda>cli_status. mseq (lift_api olnk_shutdown) (mret cli_status)))"

section \<open>What the configuration becomes\<close>

text \<open>A profile entry, the command line values, and what the command line has to satisfy.\<close>

definition profile_entry_config :: "string \<times> string \<Rightarrow> olnk_config \<Rightarrow> olnk_config" where
  "profile_entry_config kv cfg =
     (case kv of (key, v) \<Rightarrow>
        if key = ''output'' then cfg\<lparr>cfg_output_path := c_str v\<rparr>
        else if key = ''format'' then cfg\<lparr>cfg_format_name := c_str v\<rparr>
        else if key = ''machine'' then cfg\<lparr>cfg_machine_name := c_str v\<rparr>
        else if key = ''script'' then cfg\<lparr>cfg_script_path := c_str v\<rparr>
        else if take 7 key = ''define.''
        then (if drop 7 key \<noteq> [] then cfg\<lparr>cfg_defines := cfg_defines cfg @ [(c_str (drop 7 key), c_str v)]\<rparr> else cfg)
        else cfg)"

text \<open>What loading the profile of a command line does, if it comes to that.\<close>

definition profile_loaded :: "cli_env \<Rightarrow> ParseResult \<Rightarrow> profile_load option" where
  "profile_loaded env parsed =
     (case first_value parsed ''profile'' of None \<Rightarrow> None
      | Some path \<Rightarrow>
         (case ce_read_file env path of None \<Rightarrow> Some NoObject
          | Some text \<Rightarrow>
             (case parse_profile_format (case first_value parsed ''profile_format'' of None \<Rightarrow> ''json'' | Some f \<Rightarrow> f) of
                None \<Rightarrow> Some NoObject
              | Some fmt \<Rightarrow> Some (ce_load_profile env fmt text))))"

definition profile_throws :: "cli_env \<Rightarrow> ParseResult \<Rightarrow> bool" where
  "profile_throws env parsed \<longleftrightarrow> profile_loaded env parsed = Some LoadThrows"

definition profile_config :: "cli_env \<Rightarrow> ParseResult \<Rightarrow> olnk_config \<Rightarrow> olnk_config option" where
  "profile_config env parsed cfg =
     (case profile_loaded env parsed of None \<Rightarrow> Some cfg
      | Some (Profile kvs) \<Rightarrow> Some (fold profile_entry_config kvs cfg) | Some _ \<Rightarrow> None)"

definition threads_value :: "string \<Rightarrow> u32 option" where
  "threads_value t = (case strtol10 (c_str t) of (n, rest) \<Rightarrow> if rest = [] \<and> 0 \<le> n then Some (of_int n) else None)"

definition cli_values_ok :: "ParseResult \<Rightarrow> bool" where
  "cli_values_ok parsed \<longleftrightarrow>
     pred_option (\<lambda>k. output_kind_of k \<noteq> None) (first_value parsed ''output_kind'') \<and>
     pred_option (\<lambda>t. threads_value t \<noteq> None) (first_value parsed ''threads'') \<and>
     (\<forall>kv \<in> set (case values_for parsed ''define'' of None \<Rightarrow> [] | Some ds \<Rightarrow> ds). split_define kv \<noteq> None)"

definition all_values :: "ParseResult \<Rightarrow> string \<Rightarrow> string list" where
  "all_values parsed key = (case values_for parsed key of None \<Rightarrow> [] | Some vs \<Rightarrow> map c_str vs)"

definition cli_config :: "ParseResult \<Rightarrow> olnk_config \<Rightarrow> olnk_config" where
  "cli_config parsed cfg =
     (let str = (\<lambda>key old. case first_value parsed key of None \<Rightarrow> old | Some v \<Rightarrow> c_str v)
      in cfg\<lparr>cfg_output_path := str ''output'' (cfg_output_path cfg), cfg_map_path := str ''map'' (cfg_map_path cfg),
             cfg_entry_symbol := str ''entry'' (cfg_entry_symbol cfg), cfg_format_name := str ''format'' (cfg_format_name cfg),
             cfg_machine_name := str ''machine'' (cfg_machine_name cfg), cfg_script_path := str ''script'' (cfg_script_path cfg),
             cfg_output_kind := (case first_value parsed ''output_kind'' of None \<Rightarrow> cfg_output_kind cfg
                                 | Some k \<Rightarrow> the (output_kind_of k)),
             cfg_thread_count := (case first_value parsed ''threads'' of None \<Rightarrow> cfg_thread_count cfg
                                  | Some t \<Rightarrow> the (threads_value t)),
             cfg_incremental := (if has_value parsed ''incremental'' then 1 else 0),
             cfg_debug_info := (if has_value parsed ''debug_info'' then 1 else 0),
             cfg_defines := cfg_defines cfg @ map (map_prod c_str c_str)
               (map (the \<circ> split_define) (case values_for parsed ''define'' of None \<Rightarrow> [] | Some ds \<Rightarrow> ds)),
             cfg_libraries := cfg_libraries cfg @ all_values parsed ''library'',
             cfg_library_paths := cfg_library_paths cfg @ all_values parsed ''library_path'',
             cfg_plugins := cfg_plugins cfg @ all_values parsed ''plugin'',
             cfg_input_files := cfg_input_files cfg @ map c_str (pr_positionals parsed)\<rparr>)"

section \<open>The configuration code computes it\<close>

definition calm_alloc :: "world \<Rightarrow> bool" where
  "calm_alloc w \<longleftrightarrow> (\<forall>n. env_alloc (w_env w) n = None)"

lemma calm_alloc_upd [simp]:
  "calm_alloc (w\<lparr>w_tick := t\<rparr>) = calm_alloc w" "calm_alloc (w\<lparr>w_configs := m\<rparr>) = calm_alloc w"
  by (simp_all add: calm_alloc_def)

text \<open>\<open>m\<close> only changes the configuration at \<open>c\<close>, and does to it what \<open>g\<close> says unless an allocation fails.\<close>

definition with_config :: "cli_world \<Rightarrow> nat \<Rightarrow> nat \<Rightarrow> olnk_config \<Rightarrow> string \<Rightarrow> cli_world" where
  "with_config s c t cfg err = s\<lparr>cw_world := (cw_world s)\<lparr>w_tick := t, w_configs := (w_configs (cw_world s))(c \<mapsto> cfg)\<rparr>, cw_err := err\<rparr>"

definition implements :: "nat \<Rightarrow> bool cli \<Rightarrow> (olnk_config \<Rightarrow> olnk_config option) \<Rightarrow> bool" where
  "implements c m g \<longleftrightarrow>
     (\<forall>s cfg. w_configs (cw_world s) c = Some cfg \<longrightarrow>
        (\<exists>ok t cfg' err. m s = Ret ok (with_config s c t cfg' err) \<and>
           (calm_alloc (cw_world s) \<longrightarrow> (case g cfg of None \<Rightarrow> \<not> ok | Some x \<Rightarrow> ok \<and> cfg' = x))))"

named_theorems implements_rules \<open>what the configuration steps compute\<close>

lemma with_config_simps [simp]:
  "w_configs (cw_world (with_config s c t cfg err)) c = Some cfg"
  "calm_alloc (cw_world (with_config s c t cfg err)) = calm_alloc (cw_world s)"
  "with_config (with_config s c t cfg err) c t' cfg' err' = with_config s c t' cfg' err'"
  by (simp_all add: with_config_def)

lemma with_config_same: "w_configs (cw_world s) c = Some cfg \<Longrightarrow> with_config s c (w_tick (cw_world s)) cfg (cw_err s) = s"
  by (simp add: with_config_def map_upd_triv)

lemma implements_ret [implements_rules]: "implements c (mret True) Some"
  unfolding implements_def
proof (intro allI impI)
  fix s :: cli_world and cfg assume "w_configs (cw_world s) c = Some cfg"
  then show "\<exists>ok t cfg' err. mret True s = Ret ok (with_config s c t cfg' err) \<and>
      (calm_alloc (cw_world s) \<longrightarrow> (case Some cfg of None \<Rightarrow> \<not> ok | Some x \<Rightarrow> ok \<and> cfg' = x))"
    using with_config_same [of s c cfg] by (intro exI [of _ True] exI [of _ "w_tick (cw_world s)"] exI [of _ cfg] exI [of _ "cw_err s"]) (simp add: mret_def)
qed

lemma implements_fail [implements_rules]: "implements c (mseq (cerr msg) (mret False)) (\<lambda>_. None)"
  unfolding implements_def
proof (intro allI impI)
  fix s :: cli_world and cfg assume "w_configs (cw_world s) c = Some cfg"
  then have "with_config s c (w_tick (cw_world s)) cfg (cw_err s @ msg) = s\<lparr>cw_err := cw_err s @ msg\<rparr>"
    by (simp add: with_config_def map_upd_triv)
  then show "\<exists>ok t cfg' err. mseq (cerr msg) (mret False) s = Ret ok (with_config s c t cfg' err) \<and>
      (calm_alloc (cw_world s) \<longrightarrow> (case None of None \<Rightarrow> \<not> ok | Some x \<Rightarrow> ok \<and> cfg' = x))"
    by (intro exI [of _ False] exI [of _ "w_tick (cw_world s)"] exI [of _ cfg] exI [of _ "cw_err s @ msg"])
      (simp add: run_defs cerr_def)
qed

lemma implements_andalso [implements_rules]:
  assumes "implements c m g" "implements c n h"
  shows "implements c (andalso m n) (\<lambda>x. Option.bind (g x) h)"
  unfolding implements_def
proof (intro allI impI)
  fix s :: cli_world and cfg assume cfg: "w_configs (cw_world s) c = Some cfg"
  obtain ok t cfg1 err where m: "m s = Ret ok (with_config s c t cfg1 err)"
      "calm_alloc (cw_world s) \<longrightarrow> (case g cfg of None \<Rightarrow> \<not> ok | Some x \<Rightarrow> ok \<and> cfg1 = x)"
    using assms(1) cfg unfolding implements_def by blast
  let ?s = "with_config s c t cfg1 err"
  obtain ok2 t2 cfg2 err2 where n: "n ?s = Ret ok2 (with_config ?s c t2 cfg2 err2)"
      "calm_alloc (cw_world ?s) \<longrightarrow> (case h cfg1 of None \<Rightarrow> \<not> ok2 | Some x \<Rightarrow> ok2 \<and> cfg2 = x)"
    using assms(2) unfolding implements_def by (metis with_config_simps(1))
  show "\<exists>ok t cfg' err. andalso m n s = Ret ok (with_config s c t cfg' err) \<and>
      (calm_alloc (cw_world s) \<longrightarrow> (case Option.bind (g cfg) h of None \<Rightarrow> \<not> ok | Some x \<Rightarrow> ok \<and> cfg' = x))"
  proof (cases ok)
    case True
    then show ?thesis using m n
      by (intro exI [of _ ok2] exI [of _ t2] exI [of _ cfg2] exI [of _ err2])
        (auto simp: andalso_def mbind_def split: option.splits)
  next
    case False
    then show ?thesis using m
      by (intro exI [of _ False] exI [of _ t] exI [of _ cfg1] exI [of _ err])
        (auto simp: andalso_def mbind_def mret_def split: option.splits)
  qed
qed

lemma implements_report [implements_rules]:
  assumes "implements c m g"
  shows "implements c (mbind m (\<lambda>ok. if ok then mret True else mseq (cerr msg) (mret False))) g"
  unfolding implements_def
proof (intro allI impI)
  fix s :: cli_world and cfg assume cfg: "w_configs (cw_world s) c = Some cfg"
  obtain ok t cfg1 err where m: "m s = Ret ok (with_config s c t cfg1 err)"
      "calm_alloc (cw_world s) \<longrightarrow> (case g cfg of None \<Rightarrow> \<not> ok | Some x \<Rightarrow> ok \<and> cfg1 = x)"
    using assms cfg unfolding implements_def by blast
  show "\<exists>ok t cfg' err. mbind m (\<lambda>ok. if ok then mret True else mseq (cerr msg) (mret False)) s =
        Ret ok (with_config s c t cfg' err) \<and>
      (calm_alloc (cw_world s) \<longrightarrow> (case g cfg of None \<Rightarrow> \<not> ok | Some x \<Rightarrow> ok \<and> cfg' = x))"
    using m by (intro exI [of _ ok] exI [of _ t] exI [of _ cfg1] exI [of _ "if ok then err else err @ msg"])
      (auto simp: run_defs cerr_def with_config_def split: option.splits)
qed

lemma implements_all_ok [implements_rules]:
  assumes "\<And>x. x \<in> set xs \<Longrightarrow> implements c (f x) (g x)"
  shows "implements c (all_ok f xs) (\<lambda>cfg. fold (\<lambda>x acc. Option.bind acc (g x)) xs (Some cfg))"
proof -
  have none: "fold (\<lambda>x acc. Option.bind acc (g x)) ys None = None" for ys by (induction ys) auto
  have "implements c (all_ok f xs) (\<lambda>cfg. fold (\<lambda>x acc. Option.bind acc (g x)) xs (Some cfg))"
    using assms
  proof (induction xs)
    case (Cons x xs)
    have "(\<lambda>cfg. fold (\<lambda>x acc. Option.bind acc (g x)) (x # xs) (Some cfg)) =
        (\<lambda>cfg. Option.bind (g x cfg) (\<lambda>cfg. fold (\<lambda>x acc. Option.bind acc (g x)) xs (Some cfg)))"
      using none by (auto simp: fun_eq_iff split: Option.bind_split)
    moreover have "implements c (andalso (f x) (all_ok f xs))
        (\<lambda>cfg. Option.bind (g x cfg) (\<lambda>cfg. fold (\<lambda>x acc. Option.bind acc (g x)) xs (Some cfg)))"
      using Cons by (intro implements_andalso) auto
    ultimately show ?case by simp
  qed (simp add: implements_ret)
  then show ?thesis .
qed

text \<open>The setters.\<close>

lemma implements_setters:
  "implements c (status_ok (set_string (\<lambda>v. upd_config c (f v)) (Some v))) (\<lambda>x. Some (f v x))"
  "implements c (status_ok (push_back_string (\<lambda>v. upd_config c (f v)) (Some v))) (\<lambda>x. Some (f v x))"
  "implements c (status_ok (define_kv (\<lambda>kv. upd_config c (k kv)) (Some a) (Some b))) (\<lambda>x. Some (k (a, b) x))"
  "implements c (status_ok (mseq (upd_config c h) (mret OLNK_STATUS_OK))) (\<lambda>x. Some (h x))"
proof -
  have step: "\<exists>ok t cfg' err. status_ok (mtry (mseq may_throw (mseq (upd_config c h) (mret OLNK_STATUS_OK)))
        (\<lambda>e. mret (status_of_exn e))) s = Ret ok (with_config s c t cfg' err) \<and>
      (calm_alloc (cw_world s) \<longrightarrow> (case Some (h cfg) of None \<Rightarrow> \<not> ok | Some x \<Rightarrow> ok \<and> cfg' = x))"
    if cfg: "w_configs (cw_world s) c = Some cfg" for s cfg h
  proof (cases "env_alloc (w_env (cw_world s)) (w_tick (cw_world s))")
    case None
    then show ?thesis using cfg
      by (intro exI [of _ True] exI [of _ "Suc (w_tick (cw_world s))"] exI [of _ "h cfg"] exI [of _ "cw_err s"])
        (simp add: status_ok_def lift_api_def run_defs may_throw_def Let_def heap_defs with_config_def)
  next
    case (Some e)
    have "(w_configs (cw_world s))(c \<mapsto> cfg) = w_configs (cw_world s)" using cfg by (metis map_upd_triv)
    then show ?thesis using cfg Some
      by (intro exI [of _ False] exI [of _ "Suc (w_tick (cw_world s))"] exI [of _ cfg] exI [of _ "cw_err s"])
        (auto simp: status_ok_def lift_api_def run_defs may_throw_def Let_def with_config_def calm_alloc_def)
  qed
  have throwing: "implements c (status_ok (mtry (mseq may_throw (mseq (upd_config c h) (mret OLNK_STATUS_OK)))
      (\<lambda>e. mret (status_of_exn e)))) (\<lambda>x. Some (h x))" for h
    unfolding implements_def using step by blast
  show "implements c (status_ok (set_string (\<lambda>v. upd_config c (f v)) (Some v))) (\<lambda>x. Some (f v x))"
      "implements c (status_ok (push_back_string (\<lambda>v. upd_config c (f v)) (Some v))) (\<lambda>x. Some (f v x))"
      "implements c (status_ok (define_kv (\<lambda>kv. upd_config c (k kv)) (Some a) (Some b))) (\<lambda>x. Some (k (a, b) x))"
    unfolding set_string_def push_back_string_def define_kv_def option.case prod.case by (rule throwing)+
  show "implements c (status_ok (mseq (upd_config c h) (mret OLNK_STATUS_OK))) (\<lambda>x. Some (h x))"
    unfolding implements_def
  proof (intro allI impI)
    fix s :: cli_world and cfg assume cfg: "w_configs (cw_world s) c = Some cfg"
    then show "\<exists>ok t cfg' err. status_ok (mseq (upd_config c h) (mret OLNK_STATUS_OK)) s = Ret ok (with_config s c t cfg' err) \<and>
      (calm_alloc (cw_world s) \<longrightarrow> (case Some (h cfg) of None \<Rightarrow> \<not> ok | Some x \<Rightarrow> ok \<and> cfg' = x))"
      by (intro exI [of _ True] exI [of _ "w_tick (cw_world s)"] exI [of _ "h cfg"] exI [of _ "cw_err s"])
        (simp add: status_ok_def lift_api_def run_defs heap_defs with_config_def)
  qed
qed

lemma implements_status:
  assumes "implements c (status_ok m) g"
  shows "implements c (mbind (lift_api m) (\<lambda>st. if st \<noteq> OLNK_STATUS_OK then mseq (cerr (msg st)) (mret False) else mret True)) g"
  unfolding implements_def
proof (intro allI impI)
  fix s :: cli_world and cfg assume cfg: "w_configs (cw_world s) c = Some cfg"
  obtain ok t cfg1 err where m: "status_ok m s = Ret ok (with_config s c t cfg1 err)"
      "calm_alloc (cw_world s) \<longrightarrow> (case g cfg of None \<Rightarrow> \<not> ok | Some x \<Rightarrow> ok \<and> cfg1 = x)"
    using assms cfg unfolding implements_def by blast
  then obtain st where st: "lift_api m s = Ret st (with_config s c t cfg1 err)" "ok \<longleftrightarrow> st = OLNK_STATUS_OK"
    by (auto simp: status_ok_def mbind_def mret_def split: outcome.splits)
  show "\<exists>ok t cfg' err. mbind (lift_api m) (\<lambda>st. if st \<noteq> OLNK_STATUS_OK then mseq (cerr (msg st)) (mret False) else mret True) s =
        Ret ok (with_config s c t cfg' err) \<and>
      (calm_alloc (cw_world s) \<longrightarrow> (case g cfg of None \<Rightarrow> \<not> ok | Some x \<Rightarrow> ok \<and> cfg' = x))"
    using m st by (intro exI [of _ ok] exI [of _ t] exI [of _ cfg1] exI [of _ "if ok then err else err @ msg st"])
      (auto simp: run_defs cerr_def with_config_def split: option.splits)
qed

lemma implements_cong: "implements c m g \<Longrightarrow> (\<And>x. g x = h x) \<Longrightarrow> implements c m h"
  by (simp add: implements_def)

lemma implements_if:
  assumes "b \<Longrightarrow> implements c m (\<lambda>x. Some (f x))" "\<not> b \<Longrightarrow> implements c n (\<lambda>x. Some (k x))"
  shows "implements c (if b then m else n) (\<lambda>x. Some (if b then f x else k x))"
  using assms by auto

lemma implements_option:
  assumes "\<And>v. p = Some v \<Longrightarrow> implements c (m v) (g v)"
  shows "implements c (case p of None \<Rightarrow> mret True | Some v \<Rightarrow> m v) (\<lambda>x. case p of None \<Rightarrow> Some x | Some v \<Rightarrow> g v x)"
  using assms implements_ret by (cases p) auto

lemma apply_string_setter_implements:
  assumes "\<And>v. setter (Some c) (Some v) = set_string (\<lambda>v. upd_config c (f v)) (Some v)"
  shows "implements c (apply_string_setter parsed (Some c) key setter label)
    (\<lambda>x. case first_value parsed key of None \<Rightarrow> Some x | Some v \<Rightarrow> Some (f (c_str v) x))"
  unfolding apply_string_setter_def assms
  by (intro implements_option implements_status implements_setters)

lemma implements_pushes:
  assumes "\<And>v. add (Some c) (Some v) = push_back_string (\<lambda>v. upd_config c (f v)) (Some v)"
  shows "implements c (all_ok (\<lambda>p. status_ok (add (Some c) (Some (c_str p)))) xs) (\<lambda>x. Some (fold f (map c_str xs) x))"
proof -
  have "fold (\<lambda>p acc. Option.bind acc (\<lambda>x. Some (f (c_str p) x))) xs (Some x) = Some (fold f (map c_str xs) x)" for x
    by (induction xs arbitrary: x) auto
  then show ?thesis
    by (intro implements_cong [OF implements_all_ok [where g = "\<lambda>p x. Some (f (c_str p) x)"]])
      (simp_all add: assms implements_setters)
qed

lemma implements_ignored:
  assumes "implements c (status_ok m) (\<lambda>x. Some (h x))"
  shows "implements c (mseq (lift_api m) (mret True)) (\<lambda>x. Some (h x))"
  unfolding implements_def
proof (intro allI impI)
  fix s :: cli_world and cfg assume cfg: "w_configs (cw_world s) c = Some cfg"
  obtain ok t cfg1 err where m: "status_ok m s = Ret ok (with_config s c t cfg1 err)"
      "calm_alloc (cw_world s) \<longrightarrow> ok \<and> cfg1 = h cfg"
    using assms [unfolded implements_def, rule_format, OF cfg] by auto
  then show "\<exists>ok t cfg' err. mseq (lift_api m) (mret True) s = Ret ok (with_config s c t cfg' err) \<and>
      (calm_alloc (cw_world s) \<longrightarrow> (case Some (h cfg) of None \<Rightarrow> \<not> ok | Some x \<Rightarrow> ok \<and> cfg' = x))"
    by (intro exI [of _ True] exI [of _ t] exI [of _ cfg1] exI [of _ err])
      (auto simp: status_ok_def run_defs split: outcome.splits)
qed

lemmas config_setters = olnk_config_set_output_path_def olnk_config_set_map_path_def
  olnk_config_set_entry_symbol_def olnk_config_set_format_def olnk_config_set_machine_def
  olnk_config_set_script_path_def olnk_config_set_thread_count_def olnk_config_set_incremental_def
  olnk_config_set_debug_info_def olnk_config_define_def olnk_config_add_input_file_def
  olnk_config_add_library_path_def olnk_config_add_library_def olnk_config_add_plugin_def

lemma apply_profile_throws: "profile_throws env parsed \<Longrightarrow> apply_profile env parsed config s = Exn OtherExn s"
  by (auto simp: profile_throws_def profile_loaded_def apply_profile_def mthrow_def split: option.splits)

lemma apply_profile_implements:
  assumes "\<not> profile_throws env parsed"
  shows "implements c (apply_profile env parsed (Some c)) (profile_config env parsed)"
proof -
  have entry: "implements c (apply_profile_entry (Some c) kv) (\<lambda>x. Some (profile_entry_config kv x))" for kv
  proof (cases kv)
    case (Pair key v)
    show ?thesis
      unfolding Pair apply_profile_entry_def profile_entry_config_def prod.case config_setters option.case
      by (intro implements_if implements_ret
        implements_setters(1) [of c "\<lambda>v x. x\<lparr>cfg_output_path := v\<rparr>"]
        implements_setters(1) [of c "\<lambda>v x. x\<lparr>cfg_format_name := v\<rparr>"]
        implements_setters(1) [of c "\<lambda>v x. x\<lparr>cfg_machine_name := v\<rparr>"]
        implements_setters(1) [of c "\<lambda>v x. x\<lparr>cfg_script_path := v\<rparr>"]
        implements_ignored [OF implements_setters(3) [of c "\<lambda>kv x. x\<lparr>cfg_defines := cfg_defines x @ [kv]\<rparr>"]])
  qed
  have all: "fold (\<lambda>kv acc. Option.bind acc (\<lambda>x. Some (profile_entry_config kv x))) kvs (Some x) = Some (fold profile_entry_config kvs x)" for kvs x
    by (induction kvs arbitrary: x) auto
  have load: "implements c (all_ok (apply_profile_entry (Some c)) kvs) (\<lambda>x. Some (fold profile_entry_config kvs x))" for kvs
    using implements_cong [OF implements_all_ok [OF entry] all] .
  show ?thesis
    using assms unfolding apply_profile_def profile_config_def profile_throws_def profile_loaded_def Let_def
    by (auto intro!: implements_ret implements_fail load split: option.split profile_load.split)
qed

lemma apply_output_kind_implements:
  "implements c (apply_output_kind (Some c) parsed)
     (\<lambda>x. case first_value parsed ''output_kind'' of None \<Rightarrow> Some x
        | Some k \<Rightarrow> map_option (\<lambda>m. x\<lparr>cfg_output_kind := m\<rparr>) (output_kind_of k))"
  unfolding apply_output_kind_def
proof (rule implements_option)
  fix k assume "first_value parsed ''output_kind'' = Some k"
  have valid: "output_kind_of k = Some m \<Longrightarrow> valid_output_kind m" for m
    by (auto simp: output_kind_of_def split: if_splits)
  show "implements c (case output_kind_of k of None \<Rightarrow> mseq (cerr (''error: invalid --output-kind: '' @ k @ nl)) (mret False)
      | Some mapped \<Rightarrow> mbind (status_ok (olnk_config_set_output_kind (Some c) mapped)) (\<lambda>ok.
          if ok then mret True else mseq (cerr (''error: failed to set output kind'' @ nl)) (mret False)))
      (\<lambda>x. map_option (\<lambda>m. x\<lparr>cfg_output_kind := m\<rparr>) (output_kind_of k))"
    using valid implements_report [OF implements_setters(4)]
    by (auto simp: olnk_config_set_output_kind_def intro!: implements_fail split: option.split)
qed

lemma apply_threads_implements:
  "implements c (apply_threads (Some c) parsed)
     (\<lambda>x. case first_value parsed ''threads'' of None \<Rightarrow> Some x
        | Some t \<Rightarrow> map_option (\<lambda>n. x\<lparr>cfg_thread_count := n\<rparr>) (threads_value t))"
  unfolding apply_threads_def
proof (rule implements_option)
  fix t assume "first_value parsed ''threads'' = Some t"
  show "implements c (case strtol10 (c_str t) of (n, rest) \<Rightarrow>
            if rest \<noteq> [] \<or> n < 0
            then mseq (cerr (''error: --threads expects non-negative integer'' @ nl)) (mret False)
            else mbind (status_ok (olnk_config_set_thread_count (Some c) (of_int n))) (\<lambda>ok.
              if ok then mret True else mseq (cerr (''error: failed to set threads'' @ nl)) (mret False)))
      (\<lambda>x. map_option (\<lambda>n. x\<lparr>cfg_thread_count := n\<rparr>) (threads_value t))"
    using implements_report [OF implements_setters(4)]
    by (auto simp: config_setters threads_value_def intro!: implements_fail split: prod.split)
qed

lemma apply_defines_implements:
  "implements c (all_ok (apply_define (Some c)) defs)
     (\<lambda>x. if \<forall>kv \<in> set defs. split_define kv \<noteq> None
          then Some (x\<lparr>cfg_defines := cfg_defines x @ map (map_prod c_str c_str) (map (the \<circ> split_define) defs)\<rparr>) else None)"
proof -
  let ?g = "\<lambda>kv x. map_option (\<lambda>d. x\<lparr>cfg_defines := cfg_defines x @ [map_prod c_str c_str d]\<rparr>) (split_define kv)"
  have one: "implements c (apply_define (Some c) kv) (?g kv)" for kv
    unfolding apply_define_def config_setters option.case
    using implements_report [OF implements_setters(3) [of c "\<lambda>kv x. x\<lparr>cfg_defines := cfg_defines x @ [kv]\<rparr>"]]
    by (auto intro!: implements_fail split: option.split)
  have none: "fold (\<lambda>kv acc. Option.bind acc (?g kv)) ds None = None" for ds by (induction ds) auto
  have "fold (\<lambda>kv acc. Option.bind acc (?g kv)) ds (Some x) =
      (if \<forall>kv \<in> set ds. split_define kv \<noteq> None
       then Some (x\<lparr>cfg_defines := cfg_defines x @ map (map_prod c_str c_str) (map (the \<circ> split_define) ds)\<rparr>) else None)" for ds x
  proof (induction ds arbitrary: x)
    case (Cons d ds)
    then show ?case using none by (cases "split_define d") auto
  qed simp
  then show ?thesis by (intro implements_cong [OF implements_all_ok [OF one]])
qed

lemma fold_cfg:
  "fold (\<lambda>v x. x\<lparr>cfg_libraries := cfg_libraries x @ [v]\<rparr>) vs y = y\<lparr>cfg_libraries := cfg_libraries y @ vs\<rparr>"
  "fold (\<lambda>v x. x\<lparr>cfg_library_paths := cfg_library_paths x @ [v]\<rparr>) vs y = y\<lparr>cfg_library_paths := cfg_library_paths y @ vs\<rparr>"
  "fold (\<lambda>v x. x\<lparr>cfg_plugins := cfg_plugins x @ [v]\<rparr>) vs y = y\<lparr>cfg_plugins := cfg_plugins y @ vs\<rparr>"
  "fold (\<lambda>v x. x\<lparr>cfg_input_files := cfg_input_files x @ [v]\<rparr>) vs y = y\<lparr>cfg_input_files := cfg_input_files y @ vs\<rparr>"
  by (induction vs arbitrary: y) simp_all

text \<open>Each step as one assignment.\<close>

lemma assign_steps:
  "(case p of None \<Rightarrow> Some x | Some v \<Rightarrow> Some (x\<lparr>cfg_output_path := c_str v\<rparr>)) =
     Some (x\<lparr>cfg_output_path := (case p of None \<Rightarrow> cfg_output_path x | Some v \<Rightarrow> c_str v)\<rparr>)"
  "(case p of None \<Rightarrow> Some x | Some v \<Rightarrow> Some (x\<lparr>cfg_map_path := c_str v\<rparr>)) =
     Some (x\<lparr>cfg_map_path := (case p of None \<Rightarrow> cfg_map_path x | Some v \<Rightarrow> c_str v)\<rparr>)"
  "(case p of None \<Rightarrow> Some x | Some v \<Rightarrow> Some (x\<lparr>cfg_entry_symbol := c_str v\<rparr>)) =
     Some (x\<lparr>cfg_entry_symbol := (case p of None \<Rightarrow> cfg_entry_symbol x | Some v \<Rightarrow> c_str v)\<rparr>)"
  "(case p of None \<Rightarrow> Some x | Some v \<Rightarrow> Some (x\<lparr>cfg_format_name := c_str v\<rparr>)) =
     Some (x\<lparr>cfg_format_name := (case p of None \<Rightarrow> cfg_format_name x | Some v \<Rightarrow> c_str v)\<rparr>)"
  "(case p of None \<Rightarrow> Some x | Some v \<Rightarrow> Some (x\<lparr>cfg_machine_name := c_str v\<rparr>)) =
     Some (x\<lparr>cfg_machine_name := (case p of None \<Rightarrow> cfg_machine_name x | Some v \<Rightarrow> c_str v)\<rparr>)"
  "(case p of None \<Rightarrow> Some x | Some v \<Rightarrow> Some (x\<lparr>cfg_script_path := c_str v\<rparr>)) =
     Some (x\<lparr>cfg_script_path := (case p of None \<Rightarrow> cfg_script_path x | Some v \<Rightarrow> c_str v)\<rparr>)"
  "pred_option (\<lambda>k. output_kind_of k \<noteq> None) p \<Longrightarrow>
     (case p of None \<Rightarrow> Some x | Some k \<Rightarrow> map_option (\<lambda>m. x\<lparr>cfg_output_kind := m\<rparr>) (output_kind_of k)) =
     Some (x\<lparr>cfg_output_kind := (case p of None \<Rightarrow> cfg_output_kind x | Some k \<Rightarrow> the (output_kind_of k))\<rparr>)"
  "\<not> pred_option (\<lambda>k. output_kind_of k \<noteq> None) p \<Longrightarrow>
     (case p of None \<Rightarrow> Some x | Some k \<Rightarrow> map_option (\<lambda>m. x\<lparr>cfg_output_kind := m\<rparr>) (output_kind_of k)) = None"
  "pred_option (\<lambda>t. threads_value t \<noteq> None) p \<Longrightarrow>
     (case p of None \<Rightarrow> Some x | Some t \<Rightarrow> map_option (\<lambda>n. x\<lparr>cfg_thread_count := n\<rparr>) (threads_value t)) =
     Some (x\<lparr>cfg_thread_count := (case p of None \<Rightarrow> cfg_thread_count x | Some t \<Rightarrow> the (threads_value t))\<rparr>)"
  "\<not> pred_option (\<lambda>t. threads_value t \<noteq> None) p \<Longrightarrow>
     (case p of None \<Rightarrow> Some x | Some t \<Rightarrow> map_option (\<lambda>n. x\<lparr>cfg_thread_count := n\<rparr>) (threads_value t)) = None"
  by (cases p; auto)+

lemma define_step:
  "(case ds of None \<Rightarrow> Some x | Some defs \<Rightarrow> if \<forall>kv \<in> set defs. split_define kv \<noteq> None
      then Some (x\<lparr>cfg_defines := cfg_defines x @ map (map_prod c_str c_str) (map (the \<circ> split_define) defs)\<rparr>) else None) =
   (if \<forall>kv \<in> set (case ds of None \<Rightarrow> [] | Some d \<Rightarrow> d). split_define kv \<noteq> None
    then Some (x\<lparr>cfg_defines := cfg_defines x @ map (map_prod c_str c_str) (map (the \<circ> split_define) (case ds of None \<Rightarrow> [] | Some d \<Rightarrow> d))\<rparr>)
    else None)"
  by (cases ds) simp_all

lemma push_steps:
  "(case vs of None \<Rightarrow> Some x | Some v \<Rightarrow> Some (x\<lparr>cfg_libraries := cfg_libraries x @ map c_str v\<rparr>)) =
     Some (x\<lparr>cfg_libraries := cfg_libraries x @ (case vs of None \<Rightarrow> [] | Some v \<Rightarrow> map c_str v)\<rparr>)"
  "(case vs of None \<Rightarrow> Some x | Some v \<Rightarrow> Some (x\<lparr>cfg_library_paths := cfg_library_paths x @ map c_str v\<rparr>)) =
     Some (x\<lparr>cfg_library_paths := cfg_library_paths x @ (case vs of None \<Rightarrow> [] | Some v \<Rightarrow> map c_str v)\<rparr>)"
  "(case vs of None \<Rightarrow> Some x | Some v \<Rightarrow> Some (x\<lparr>cfg_plugins := cfg_plugins x @ map c_str v\<rparr>)) =
     Some (x\<lparr>cfg_plugins := cfg_plugins x @ (case vs of None \<Rightarrow> [] | Some v \<Rightarrow> map c_str v)\<rparr>)"
  by (cases vs; simp)+

lemma apply_config_throws: "profile_throws env parsed \<Longrightarrow> apply_config env config parsed s = Exn OtherExn s"
  by (simp add: apply_config_def andalso_def mbind_def apply_profile_throws)

lemma apply_config_implements:
  assumes "\<not> profile_throws env parsed"
  shows "implements c (apply_config env (Some c) parsed)
     (\<lambda>x. Option.bind (profile_config env parsed x) (\<lambda>y. if cli_values_ok parsed then Some (cli_config parsed y) else None))"
proof -
  note str = apply_string_setter_implements [where parsed = parsed]
  note push = implements_pushes [of _ c]
  have flag: "implements c (apply_flag (olnk_config_set_incremental (Some c) n) l) (\<lambda>x. Some (x\<lparr>cfg_incremental := if n \<noteq> 0 then 1 else 0\<rparr>))"
      "implements c (apply_flag (olnk_config_set_debug_info (Some c) n) l) (\<lambda>x. Some (x\<lparr>cfg_debug_info := if n \<noteq> 0 then 1 else 0\<rparr>))" for n l
    unfolding apply_flag_def config_setters option.case by (intro implements_report implements_setters)+
  have steps: "implements c (apply_config env (Some c) parsed)
     (\<lambda>x. Option.bind (profile_config env parsed x) (\<lambda>x.
      Option.bind (case first_value parsed ''output'' of None \<Rightarrow> Some x | Some v \<Rightarrow> Some (x\<lparr>cfg_output_path := c_str v\<rparr>)) (\<lambda>x.
      Option.bind (case first_value parsed ''map'' of None \<Rightarrow> Some x | Some v \<Rightarrow> Some (x\<lparr>cfg_map_path := c_str v\<rparr>)) (\<lambda>x.
      Option.bind (case first_value parsed ''entry'' of None \<Rightarrow> Some x | Some v \<Rightarrow> Some (x\<lparr>cfg_entry_symbol := c_str v\<rparr>)) (\<lambda>x.
      Option.bind (case first_value parsed ''format'' of None \<Rightarrow> Some x | Some v \<Rightarrow> Some (x\<lparr>cfg_format_name := c_str v\<rparr>)) (\<lambda>x.
      Option.bind (case first_value parsed ''machine'' of None \<Rightarrow> Some x | Some v \<Rightarrow> Some (x\<lparr>cfg_machine_name := c_str v\<rparr>)) (\<lambda>x.
      Option.bind (case first_value parsed ''script'' of None \<Rightarrow> Some x | Some v \<Rightarrow> Some (x\<lparr>cfg_script_path := c_str v\<rparr>)) (\<lambda>x.
      Option.bind (case first_value parsed ''output_kind'' of None \<Rightarrow> Some x
        | Some k \<Rightarrow> map_option (\<lambda>m. x\<lparr>cfg_output_kind := m\<rparr>) (output_kind_of k)) (\<lambda>x.
      Option.bind (case first_value parsed ''threads'' of None \<Rightarrow> Some x
        | Some t \<Rightarrow> map_option (\<lambda>n. x\<lparr>cfg_thread_count := n\<rparr>) (threads_value t)) (\<lambda>x.
      Option.bind (Some (x\<lparr>cfg_incremental := if (if has_value parsed ''incremental'' then 1 else 0 :: int) \<noteq> 0 then 1 else 0\<rparr>)) (\<lambda>x.
      Option.bind (Some (x\<lparr>cfg_debug_info := if (if has_value parsed ''debug_info'' then 1 else 0 :: int) \<noteq> 0 then 1 else 0\<rparr>)) (\<lambda>x.
      Option.bind (case values_for parsed ''define'' of None \<Rightarrow> Some x
        | Some defs \<Rightarrow> if \<forall>kv \<in> set defs. split_define kv \<noteq> None
          then Some (x\<lparr>cfg_defines := cfg_defines x @ map (map_prod c_str c_str) (map (the \<circ> split_define) defs)\<rparr>) else None) (\<lambda>x.
      Option.bind (case values_for parsed ''library'' of None \<Rightarrow> Some x
        | Some vs \<Rightarrow> Some (fold (\<lambda>v x. x\<lparr>cfg_libraries := cfg_libraries x @ [v]\<rparr>) (map c_str vs) x)) (\<lambda>x.
      Option.bind (case values_for parsed ''library_path'' of None \<Rightarrow> Some x
        | Some vs \<Rightarrow> Some (fold (\<lambda>v x. x\<lparr>cfg_library_paths := cfg_library_paths x @ [v]\<rparr>) (map c_str vs) x)) (\<lambda>x.
      Option.bind (case values_for parsed ''plugin'' of None \<Rightarrow> Some x
        | Some vs \<Rightarrow> Some (fold (\<lambda>v x. x\<lparr>cfg_plugins := cfg_plugins x @ [v]\<rparr>) (map c_str vs) x)) (\<lambda>x.
      Some (fold (\<lambda>v x. x\<lparr>cfg_input_files := cfg_input_files x @ [v]\<rparr>) (map c_str (pr_positionals parsed)) x)))))))))))))))))"
    unfolding apply_config_def
    by (intro implements_andalso implements_option apply_profile_implements [OF assms] str apply_output_kind_implements apply_threads_implements
        flag apply_defines_implements push) (simp_all add: config_setters)
  show ?thesis
    by (rule implements_cong [OF steps, OF Option.bind_cong [OF refl]],
        cases "pred_option (\<lambda>k. output_kind_of k \<noteq> None) (first_value parsed ''output_kind'')";
        cases "pred_option (\<lambda>t. threads_value t \<noteq> None) (first_value parsed ''threads'')";
        cases "\<forall>kv \<in> set (case values_for parsed ''define'' of None \<Rightarrow> [] | Some ds \<Rightarrow> ds). split_define kv \<noteq> None")
      (simp_all only: assign_steps define_step push_steps Option.bind.simps cli_values_ok_def fold_cfg simp_thms if_True if_False,
        simp_all add: cli_config_def Let_def all_values_def cong: option.case_cong)
qed

end
