(* ===== verification/Olnk_Program.thy ===== *)
theory Olnk_Program
  imports Olnk_Cli Olnk_Safety
begin

text \<open>
  The whole program, from \<open>main\<close> down to the output file: the command line of \<open>src/olnk/cli.cpp\<close> composed
  with the API of \<open>src/olnk/api.cpp\<close>.
\<close>

section \<open>Weakest preconditions for the command line\<close>

lemma wp_lift_api [wp_rules]:
  "wp (lift_api m) Q E F s =
     wp m (\<lambda>x w. Q x (s\<lparr>cw_world := w\<rparr>)) (\<lambda>e w. E e (s\<lparr>cw_world := w\<rparr>)) F (cw_world s)"
  by (simp add: wp_def lift_api_def split: outcome.split)

lemma wp_streams [wp_rules]:
  "wp (cout t) Q E F s = Q () (s\<lparr>cw_out := cw_out s @ t\<rparr>)"
  "wp (cerr t) Q E F s = Q () (s\<lparr>cw_err := cw_err s @ t\<rparr>)"
  by (simp_all add: cout_def cerr_def wp_mupd)

lemma wp_implements:
  assumes "implements c m g" "w_configs (cw_world s) c = Some cfg"
    and "\<And>ok t cfg' err. (calm_alloc (cw_world s) \<longrightarrow> (case g cfg of None \<Rightarrow> \<not> ok | Some x \<Rightarrow> ok \<and> cfg' = x)) \<Longrightarrow>
       Q ok (with_config s c t cfg' err)"
  shows "wp m Q E F s"
  using assms unfolding implements_def wp_def by (metis outcome.simps(10))

text \<open>Printing the diagnostics of a live session only writes to the error stream.\<close>

lemma wp_print_diagnostics:
  assumes ok: "world_ok (cw_world s)" and ses: "w_sessions (cw_world s) sid = Some ses"
    and fin: "\<And>x err. Q x (s\<lparr>cw_err := err\<rparr>)"
  shows "wp (print_diagnostics (Some sid)) Q E F s"
proof -
  have diag: "w_diags (cw_world s) (ses_diagnostics ses ! i) \<noteq> None" if "\<not> length (ses_diagnostics ses) \<le> i" for i
    using ok ses that unfolding world_ok_def diags_ok_def owns_def by (metis not_le nth_mem)
  have loop: "wp (print_diagnostic_loop (Some sid) ks) (\<lambda>_ s'. \<exists>err. s' = s\<lparr>cw_err := err\<rparr>) E F (s\<lparr>cw_err := err\<rparr>)" for ks err
  proof (induction ks arbitrary: err)
    case Nil
    then show ?case by (auto simp: wp_rules)
  next
    case (Cons i ks)
    then show ?case
      using ses diag [of "unat (of_nat i :: size_t)"]
      by (auto simp: wp_rules heap_defs olnk_session_diagnostic_at_def olnk_diagnostic_message_def split: option.split)
  qed
  have "s\<lparr>cw_err := cw_err s\<rparr> = s" by simp
  then have here: "wp (print_diagnostic_loop (Some sid) ks) (\<lambda>_ s'. \<exists>err. s' = s\<lparr>cw_err := err\<rparr>) E F s" for ks
    using loop [of ks "cw_err s"] by simp
  have "wp (print_diagnostic_loop (Some sid) ks) (\<lambda>_. wp (mret x) Q E F) E F s" for ks x
    by (rule wp_mono [OF here]) (auto simp: wp_mret intro: fin)
  moreover have "Q x s" for x using fin [of x "cw_err s"] by simp
  ultimately show ?thesis
    unfolding print_diagnostics_def olnk_session_diagnostic_count_def get_session_def
    using ses by (simp add: wp_mbind wp_lift_api wp_mderef wp_mseq wp_mret)
qed

section \<open>Ownership\<close>

text \<open>The objects of the program itself: what it still has to release.\<close>

definition cli_owns :: "world \<Rightarrow> ProcessState \<Rightarrow> world \<Rightarrow> bool" where
  "cli_owns w state w' \<longleftrightarrow>
     w_results w' = w_results w \<and>
     (case ps_context state of None \<Rightarrow> w_contexts w' = w_contexts w
      | Some c \<Rightarrow> w_contexts w c = None \<and> (\<exists>x. w_contexts w' = (w_contexts w)(c \<mapsto> x))) \<and>
     (case ps_config state of None \<Rightarrow> w_configs w' = w_configs w
      | Some g \<Rightarrow> w_configs w g = None \<and> (\<exists>x. w_configs w' = (w_configs w)(g \<mapsto> x))) \<and>
     (case ps_session state of None \<Rightarrow> True
      | Some sid \<Rightarrow> world_ok w' \<and> w_sessions w' sid \<noteq> None)"

lemma wp_ProcessState_destroy:
  assumes own: "cli_owns w state (cw_world s)"
    and fin: "\<And>s'. w_contexts (cw_world s') = w_contexts w \<Longrightarrow> w_configs (cw_world s') = w_configs w \<Longrightarrow>
       w_results (cw_world s') = w_results w \<Longrightarrow> w_files (cw_world s') = w_files (cw_world s) \<Longrightarrow>
       cw_out s' = cw_out s \<Longrightarrow> cw_err s' = cw_err s \<Longrightarrow> Q () s'"
  shows "wp (ProcessState_destroy state) Q E F s"
proof -
  have rest: "wp (mseq (if ps_config state \<noteq> None then lift_api (olnk_config_destroy (ps_config state)) else mret ())
       (if ps_context state \<noteq> None then lift_api (olnk_context_destroy (ps_context state)) else mret ())) Q E F s'"
    if "w_contexts (cw_world s') = w_contexts (cw_world s)" "w_configs (cw_world s') = w_configs (cw_world s)"
      "w_results (cw_world s') = w_results (cw_world s)" "w_files (cw_world s') = w_files (cw_world s)"
      "cw_out s' = cw_out s" "cw_err s' = cw_err s" for s'
    using own that unfolding cli_owns_def
    by (auto simp: wp_rules heap_defs olnk_config_destroy_def olnk_context_destroy_def fun_upd_idem
        intro!: fin split: option.splits)
  show ?thesis
  proof (cases "ps_session state")
    case None
    then show ?thesis using rest [of s] by (simp add: ProcessState_destroy_def wp_rules)
  next
    case (Some sid)
    then obtain ses where "world_ok (cw_world s)" "w_sessions (cw_world s) sid = Some ses"
      using own by (auto simp: cli_owns_def)
    then have "wp (olnk_session_destroy (Some sid)) (\<lambda>x w. wp (mseq (if ps_config state \<noteq> None then lift_api (olnk_config_destroy (ps_config state)) else mret ())
       (if ps_context state \<noteq> None then lift_api (olnk_context_destroy (ps_context state)) else mret ())) Q E F (s\<lparr>cw_world := w\<rparr>))
       (\<lambda>e w. E e (s\<lparr>cw_world := w\<rparr>)) F (cw_world s)"
      by (rule wp_session_destroy) (rule rest, simp_all)
    then show ?thesis unfolding ProcessState_destroy_def
      by (subst wp_mseq) (simp add: Some wp_lift_api)
  qed
qed

lemma wp_after_dispatch [wp_rules]:
  "wp (CliBehaviorPlugin_after_dispatch code) Q E F s =
     (if code = 0 then Q () s
      else Q () (s\<lparr>cw_err := cw_err s @ ''cli-plugin: dispatch finished with non-zero exit code '' @ stringify_nat code @ nl\<rparr>))"
  by (simp add: CliBehaviorPlugin_after_dispatch_def wp_rules)

text \<open>What the exit code of a link says: zero means that the configuration is complete and the output file was
  written, and it is zero when nothing stands in the way.\<close>

definition link_outcome :: "world \<Rightarrow> olnk_config \<Rightarrow> int \<Rightarrow> world \<Rightarrow> bool" where
  "link_outcome w cfg code w' \<longleftrightarrow>
     (code = 0 \<longrightarrow> run_error w (session_of cfg) = None \<and>
        (\<exists>f. olnk_find_format (env_lua_formats (w_env w)) (Some (run_format_name (session_of cfg))) = Some f \<and>
           w_files w' = (w_files w)(cfg_output_path cfg \<mapsto> env_written (w_env w) (cfg_output_path cfg) (format_payload f)))) \<and>
     (run_error w (session_of cfg) = None \<and> calm (w_env w) (cfg_output_path cfg) \<longrightarrow> code = 0)"

lemma wp_run_session:
  assumes ok: "world_ok w1" and w1: "cw_world s = w1" "w_contexts w1 c = Some ctx" "w_configs w1 g = Some cfg"
    and noex: "F Terminate \<or> run_error w1 (session_of cfg) = None \<and> calm (w_env w1) (cfg_output_path cfg)"
    and fin: "\<And>code session s'. code \<in> {0, 1} \<Longrightarrow> w_contexts (cw_world s') = w_contexts w1 \<Longrightarrow> w_configs (cw_world s') = w_configs w1 \<Longrightarrow>
      w_results (cw_world s') = w_results w1 \<Longrightarrow> link_outcome w1 cfg code (cw_world s') \<Longrightarrow>
      (\<forall>sid. session = Some sid \<longrightarrow> world_ok (cw_world s') \<and> w_sessions (cw_world s') sid \<noteq> None) \<Longrightarrow>
      Q (code, \<lparr>ps_context = Some c, ps_config = Some g, ps_session = session\<rparr>) s'"
  shows "wp (run_session \<lparr>ps_context = Some c, ps_config = Some g, ps_session = None\<rparr>) Q E F s"
proof -
  let ?ses = "olnk_session_default\<lparr>ses_context := Some c, ses_snapshot_config := cfg\<rparr>"
  let ?good = "run_error w1 (session_of cfg) = None \<and> calm (w_env w1) (cfg_output_path cfg)"
  have ran: "wp (olnk_session_run (Some sid) (Some None)) (\<lambda>x w. wp (case x of (status, res) \<Rightarrow>
        let exit_code = (if status \<noteq> OLNK_STATUS_OK then 1 else 0 :: nat)
        in mseq (if status \<noteq> OLNK_STATUS_OK
                     then cerr (''error: link failed: '' @ status_string status @ nl) else mret ())
              (mseq (print_diagnostics (Some sid))
              (mseq (lift_api (olnk_result_destroy (case res of None \<Rightarrow> None | Some r \<Rightarrow> r)))
              (mseq (CliBehaviorPlugin_after_dispatch exit_code)
                (mret (int exit_code, \<lparr>ps_context = Some c, ps_config = Some g, ps_session = Some sid\<rparr>)))))) Q E F (s\<lparr>cw_world := w\<rparr>))
      (\<lambda>e w. E e (s\<lparr>cw_world := w\<rparr>)) F w2"
    if w2: "world_ok w2" "w_sessions w2 sid = Some ?ses" "w_results w2 = w_results w1" "w_configs w2 = w_configs w1"
      "w_contexts w2 = w_contexts w1" "w_env w2 = w_env w1" "w_files w2 = w_files w1" for w2 sid
  proof (rule wp_mono [where Q = "\<lambda>ret w3. session_run_post w2 sid ?ses ret w3 \<and> (?good \<longrightarrow> fst ret = OLNK_STATUS_OK)"])
    have err: "run_error w2 ses = run_error w1 ses" for ses using w2(6) by (rule run_error_env)
    have "wp (olnk_session_run (Some sid) (Some None)) (\<lambda>ret w3. session_run_post w2 sid ?ses ret w3 \<and> (fst ret = OLNK_STATUS_OK \<and> (\<exists>r. snd ret = Some (Some r))))
       (\<lambda>_ _. True \<and> False) (\<lambda>u. True \<and> False) w2" if ?good
      using that err w2(6)
      by (intro wp_conj wp_olnk_session_run [where F = "\<lambda>_. True", OF w2(1,2) TrueI] wp_session_run_calm [OF w2(1,2)]) auto
    then show "wp (olnk_session_run (Some sid) (Some None)) (\<lambda>ret w3. session_run_post w2 sid ?ses ret w3 \<and> (?good \<longrightarrow> fst ret = OLNK_STATUS_OK))
       (\<lambda>_ _. False) F w2"
      using wp_olnk_session_run [where F = F and E = "\<lambda>_ _. False" and p = None, OF w2(1,2)] noex
      by (cases ?good) (auto elim!: wp_mono)
    fix ret w3 assume "session_run_post w2 sid ?ses ret w3 \<and> (?good \<longrightarrow> fst ret = OLNK_STATUS_OK)"
    then have post: "session_run_post w2 sid ?ses ret w3" and good: "?good \<Longrightarrow> fst ret = OLNK_STATUS_OK" by blast+
    obtain status res where ret: "ret = (status, res)" by fastforce
    from post obtain ds where w3: "world_ok w3" "w_contexts w3 = w_contexts w1" "w_configs w3 = w_configs w1"
        "w_sessions w3 = (w_sessions w2)(sid \<mapsto> ?ses\<lparr>ses_diagnostics := ds\<rparr>)"
      using w2 by (auto simp: session_run_post_def)
    have sid: "w_sessions w3 sid = Some (?ses\<lparr>ses_diagnostics := ds\<rparr>)" using w3(4) by simp
    have results: "(\<exists>r. res = Some (Some r) \<and> w_results w3 r \<noteq> None \<and> (w_results w3)(r := None) = w_results w1) \<or>
        (res = Some None \<and> w_results w3 = w_results w1)"
    proof (cases res)
      case (Some y)
      then show ?thesis using post w2(3) by (cases y) (auto simp: session_run_post_def ret fun_upd_idem)
    qed (use post in \<open>simp add: session_run_post_def ret\<close>)
    have out: "link_outcome w1 cfg (if status \<noteq> OLNK_STATUS_OK then 1 else 0) w3"
    proof (cases "\<exists>r. res = Some (Some r)")
      case True
      then obtain r x ds' where "run_result w2 ?ses status ds' x w3" using post by (auto simp: session_run_post_def ret)
      then show ?thesis using good w2(6,7) err [of "session_of cfg"]
        by (cases "run_error w1 (session_of cfg)") (auto simp: run_result_def link_outcome_def ret)
    next
      case False
      then show ?thesis using post good results by (auto simp: session_run_post_def ret link_outcome_def)
    qed
    then have out': "link_outcome w1 cfg (if status \<noteq> OLNK_STATUS_OK then 1 else 0) (w3\<lparr>w_results := m\<rparr>)" for m
      by (simp add: link_outcome_def)
    have done_ok: "world_ok (w3\<lparr>w_results := m\<rparr>)" if "(w_results w3)(r := None) = m" for r m
      using world_ok_configs(5) [OF w3(1), of r] that by simp
    show "wp (case ret of (status, res) \<Rightarrow>
        let exit_code = (if status \<noteq> OLNK_STATUS_OK then 1 else 0 :: nat)
        in mseq (if status \<noteq> OLNK_STATUS_OK
                     then cerr (''error: link failed: '' @ status_string status @ nl) else mret ())
              (mseq (print_diagnostics (Some sid))
              (mseq (lift_api (olnk_result_destroy (case res of None \<Rightarrow> None | Some r \<Rightarrow> r)))
              (mseq (CliBehaviorPlugin_after_dispatch exit_code)
                (mret (int exit_code, \<lparr>ps_context = Some c, ps_config = Some g, ps_session = Some sid\<rparr>)))))) Q E F (s\<lparr>cw_world := w3\<rparr>)"
      unfolding ret prod.case Let_def wp_mseq
      using w3 sid results out out'
      by (auto simp: wp_rules heap_defs olnk_result_destroy_def intro!: wp_print_diagnostics fin done_ok)
  qed auto
  have null: "link_outcome w1 cfg 1 w'" if "\<exists>t. env_alloc (w_env w1) t \<noteq> None" for w'
    using that by (auto simp: link_outcome_def calm_def)
  show ?thesis
    unfolding run_session_def wp_mbind wp_lift_api ProcessState.simps
    by (rule wp_session_create [OF _ w1(2,3) [folded w1(1)]])
      (use ok w1 ran null in \<open>auto simp: Let_def wp_rules intro!: fin\<close>)
qed

lemma link_outcome_cong:
  "w_env w1 = w_env w \<Longrightarrow> w_files w1 = w_files w \<Longrightarrow> link_outcome w1 cfg code w' = link_outcome w cfg code w'"
  using run_error_env [of w1 w "session_of cfg"] by (simp add: link_outcome_def)

text \<open>The configuration a command line asks for, and what the exit code says about it.\<close>

definition requested_config :: "cli_env \<Rightarrow> ParseResult \<Rightarrow> olnk_config option" where
  "requested_config env parsed =
     Option.bind (profile_config env parsed olnk_config_default) (\<lambda>cfg. if cli_values_ok parsed then Some (cli_config parsed cfg) else None)"

definition cli_outcome :: "cli_env \<Rightarrow> ParseResult \<Rightarrow> world \<Rightarrow> int \<Rightarrow> world \<Rightarrow> bool" where
  "cli_outcome env parsed w code w' \<longleftrightarrow> calm_alloc w \<longrightarrow>
     \<not> profile_throws env parsed \<and>
     (case requested_config env parsed of None \<Rightarrow> code = 2 \<and> w_files w' = w_files w
      | Some cfg \<Rightarrow> if has_value parsed ''dry_run'' then code = 0 \<and> w_files w' = w_files w else code \<in> {0, 1} \<and> link_outcome w cfg code w')"

text \<open>From the context on: whatever happens, the program has exactly the objects of its state.\<close>

lemma world_ok_new:
  assumes "world_ok w" "w_next w' = Suc (Suc (w_next w))" "w_contexts w' = (w_contexts w)(w_next w \<mapsto> x)"
    "w_configs w' = (w_configs w)(Suc (w_next w) \<mapsto> y)" "w_sessions w' = w_sessions w" "w_diags w' = w_diags w"
    "w_results w' = w_results w" "w_instances w' = w_instances w" "w_machines w' = w_machines w"
  shows "world_ok w'"
  using assms by (auto simp: world_ok_def fresh_ok_def contexts_ok_def)

definition link_ready :: "cli_env \<Rightarrow> ParseResult \<Rightarrow> world \<Rightarrow> bool" where
  "link_ready env parsed w \<longleftrightarrow>
     (\<exists>cfg. requested_config env parsed = Some cfg \<and> run_error w (session_of cfg) = None \<and> calm (w_env w) (cfg_output_path cfg))"

lemma wp_run_link:
  assumes ok: "world_ok (cw_world s)" and noex: "F Terminate \<or> link_ready env parsed (cw_world s)"
    and exn: "\<And>s'. profile_throws env parsed \<Longrightarrow> w_files (cw_world s') = w_files (cw_world s) \<Longrightarrow> E OtherExn s'"
    and fin: "\<And>code state s'. code \<in> {0, 1, 2} \<Longrightarrow> cli_owns (cw_world s) state (cw_world s') \<Longrightarrow>
      cli_outcome env parsed (cw_world s) code (cw_world s') \<Longrightarrow> Q (code, state) s'"
  shows "wp (run_link env parsed) Q E F s"
proof -
  let ?w = "cw_world s" and ?c = "w_next (cw_world s)"
  have free: "w_contexts ?w a = None" "w_configs ?w a = None" if "?c \<le> a" for a
    using ok that by (auto simp: world_ok_def fresh_ok_def)
  let ?g = "Suc ?c"
  have conf: "wp (apply_config env (Some ?g) parsed) (\<lambda>ok. wp (if \<not> ok then mret (2, \<lparr>ps_context = Some ?c, ps_config = Some ?g, ps_session = None\<rparr>)
                    else mbind (CliBehaviorPlugin_intercept_dispatch parsed) (\<lambda>intercepted.
                      case intercepted of
                        Some code \<Rightarrow> mseq (CliBehaviorPlugin_after_dispatch (nat code)) (mret (code, \<lparr>ps_context = Some ?c, ps_config = Some ?g, ps_session = None\<rparr>))
                      | None \<Rightarrow> run_session \<lparr>ps_context = Some ?c, ps_config = Some ?g, ps_session = None\<rparr>)) Q E F) E F s1"
    if s1: "world_ok (cw_world s1)" "w_contexts (cw_world s1) = (w_contexts ?w)(?c \<mapsto> ctx)"
      "w_configs (cw_world s1) = (w_configs ?w)(?g \<mapsto> olnk_config_default)" "w_results (cw_world s1) = w_results ?w"
      "w_env (cw_world s1) = w_env ?w" "w_files (cw_world s1) = w_files ?w" for s1 ctx
  proof (cases "profile_throws env parsed")
    case True
    then show ?thesis using s1(6) by (simp add: wp_def apply_config_throws exn)
  next
    case calm: False
    show ?thesis
  proof (rule wp_implements [OF apply_config_implements [OF calm], of _ _ olnk_config_default])
    fix ok t cfg' err
    assume res: "calm_alloc (cw_world s1) \<longrightarrow> (case Option.bind (profile_config env parsed olnk_config_default)
        (\<lambda>y. if cli_values_ok parsed then Some (cli_config parsed y) else None) of None \<Rightarrow> \<not> ok | Some x \<Rightarrow> ok \<and> cfg' = x)"
    then have conf: "calm_alloc ?w \<Longrightarrow> (case requested_config env parsed of None \<Rightarrow> \<not> ok | Some x \<Rightarrow> ok \<and> cfg' = x)"
      using s1(5) by (simp add: requested_config_def calm_alloc_def)
    let ?s = "with_config s1 ?g t cfg' err"
    have okw: "world_ok (cw_world ?s)"
      using world_ok_configs(2) [OF world_ok_configs(1) [OF s1(1), of t], of ?g cfg'] s1(3) by (simp add: with_config_def)
    have ws: "w_contexts (cw_world ?s) = (w_contexts ?w)(?c \<mapsto> ctx)" "w_configs (cw_world ?s) = (w_configs ?w)(?g \<mapsto> cfg')"
        "w_results (cw_world ?s) = w_results ?w"
      using s1 by (simp_all add: with_config_def)
    have own: "cli_owns ?w \<lparr>ps_context = Some ?c, ps_config = Some ?g, ps_session = session\<rparr> (cw_world s')"
      if "w_contexts (cw_world s') = w_contexts (cw_world ?s)" "w_configs (cw_world s') = w_configs (cw_world ?s)"
        "w_results (cw_world s') = w_results (cw_world ?s)"
        "\<forall>sid. session = Some sid \<longrightarrow> world_ok (cw_world s') \<and> w_sessions (cw_world s') sid \<noteq> None" for s' session
      using that ws free by (auto simp: cli_owns_def split: option.split)
    have env: "w_env (cw_world ?s) = w_env ?w" "w_files (cw_world ?s) = w_files ?w" using s1 by (simp_all add: with_config_def)
    have linked: "cli_outcome env parsed ?w code (cw_world s')"
      if "link_outcome (cw_world ?s) cfg' code (cw_world s')" ok "\<not> has_value parsed ''dry_run''" "code \<in> {0, 1}" for code s'
      using that conf calm link_outcome_cong [OF env] by (auto simp: cli_outcome_def split: option.splits)
    have run: "wp (run_session \<lparr>ps_context = Some ?c, ps_config = Some ?g, ps_session = None\<rparr>) Q E F ?s"
      if ok "\<not> has_value parsed ''dry_run''"
    proof (rule wp_run_session [OF okw refl])
      show "F Terminate \<or> run_error (cw_world ?s) (session_of cfg') = None \<and> calm (w_env (cw_world ?s)) (cfg_output_path cfg')"
        using noex conf env run_error_env [OF env(1), of "session_of cfg'"]
        by (auto simp: link_ready_def calm_def calm_alloc_def)
    qed (use ws own that in \<open>auto intro!: fin linked\<close>)
    have early: "cli_outcome env parsed ?w 2 (cw_world ?s)" if "\<not> ok"
      using that conf env calm by (auto simp: cli_outcome_def split: option.splits)
    have dry: "cli_outcome env parsed ?w 0 (cw_world ?s)" if ok "has_value parsed ''dry_run''"
      using that conf env calm by (auto simp: cli_outcome_def split: option.splits)
    show "wp (if \<not> ok then mret (2, \<lparr>ps_context = Some ?c, ps_config = Some ?g, ps_session = None\<rparr>)
                    else mbind (CliBehaviorPlugin_intercept_dispatch parsed) (\<lambda>intercepted.
                      case intercepted of
                        Some code \<Rightarrow> mseq (CliBehaviorPlugin_after_dispatch (nat code)) (mret (code, \<lparr>ps_context = Some ?c, ps_config = Some ?g, ps_session = None\<rparr>))
                      | None \<Rightarrow> run_session \<lparr>ps_context = Some ?c, ps_config = Some ?g, ps_session = None\<rparr>)) Q E F ?s"
      using own [of ?s None] own [of "?s\<lparr>cw_out := t\<rparr>" None for t] run early dry
      by (auto simp: CliBehaviorPlugin_intercept_dispatch_def has_value_def wp_rules intro!: fin)
    qed (use s1 in simp)
  qed
  have failed: "cli_outcome env parsed ?w code w'" if "env_alloc (w_env ?w) n = Some e" for code w' n e
    using that by (auto simp: cli_outcome_def calm_alloc_def)
  show ?thesis
    unfolding run_link_def
    using free
    by (auto simp: wp_rules heap_defs olnk_context_create_def olnk_config_create_def olnk_context_set_log_level_def Let_def
        cli_owns_def intro!: fin conf failed world_ok_new [OF ok] split: option.split)
qed


section \<open>The program as a whole\<close>

text \<open>The parse result of a command line that asks for a link: no help or version request, no subcommand, no
  parse error.\<close>

definition cli_parse :: "string list \<Rightarrow> ParseResult" where
  "cli_parse args = CliBehaviorPlugin_after_parse
     (KlyCLIService_parse (CliBehaviorPlugin_extend_arguments build_registry) ''link'' (CliBehaviorPlugin_before_parse args))"

definition link_request :: "string list \<Rightarrow> ParseResult option" where
  "link_request args =
     (if list_ex (\<lambda>t. t \<in> {''--version'', ''--help'', ''-h''}) args \<or>
         args \<noteq> [] \<and> hd args \<in> {''inspect'', ''profiles'', ''olnk.native.inspect'', ''olnk.native.profiles''} \<or>
         \<not> pr_ok (cli_parse args) \<or> has_value (cli_parse args) ''help'' \<or> has_value (cli_parse args) ''version''
      then None else Some (cli_parse args))"

lemma wp_fast_path:
  assumes "\<And>out. Q (if list_ex (\<lambda>t. t \<in> {''--version'', ''--help'', ''-h''}) args then Some 0 else None) (s\<lparr>cw_out := out\<rparr>)"
  shows "wp (fast_path args) Q E F s"
  using assms
proof (induction args)
  case Nil
  then show ?case using Nil [of "cw_out s"] by (simp add: wp_rules)
next
  case (Cons token args)
  have "Q x s" if "\<And>out. Q x (s\<lparr>cw_out := out\<rparr>)" for x using that [of "cw_out s"] by simp
  then show ?case
    using Cons by (auto simp: wp_rules print_help_def split: option.split)
qed

lemma wp_report_errors:
  assumes "\<And>err. Q () (s\<lparr>cw_err := err\<rparr>)"
  shows "wp (mfold (\<lambda>diag. cerr (''error: '' @ diag @ nl)) ds) Q E F s"
proof -
  have "wp (mfold (\<lambda>diag. cerr (''error: '' @ diag @ nl)) ds) (\<lambda>_ s'. \<exists>err. s' = s\<lparr>cw_err := err\<rparr>) E F s"
    by (rule wp_mfold) (auto simp: wp_rules intro: exI [of _ "cw_err s"])
  then show ?thesis by (rule wp_mono) (auto intro: assms)
qed

lemma wp_run_cli:
  assumes ok: "world_ok (cw_world s)"
    and noex: "F Terminate \<or> (\<exists>parsed. link_request args = Some parsed \<and> link_ready env parsed (cw_world s))"
    and exn: "\<And>parsed s'. link_request args = Some parsed \<Longrightarrow> profile_throws env parsed \<Longrightarrow> w_files (cw_world s') = w_files (cw_world s) \<Longrightarrow> E OtherExn s'"
    and fin: "\<And>code s'. code \<in> {0, 1, 2} \<Longrightarrow> w_contexts (cw_world s') = w_contexts (cw_world s) \<Longrightarrow>
       w_configs (cw_world s') = w_configs (cw_world s) \<Longrightarrow> w_results (cw_world s') = w_results (cw_world s) \<Longrightarrow>
       (\<forall>parsed. link_request args = Some parsed \<longrightarrow> cli_outcome env parsed (cw_world s) code (cw_world s')) \<Longrightarrow> Q code s'"
  shows "wp (run_cli env args) Q E F s"
proof -
  let ?w = "cw_world s"
  have files: "cli_outcome env parsed ?w code w'" if "cli_outcome env parsed ?w code w1" "w_files w' = w_files w1" for parsed code w1 w'
    using that by (auto simp: cli_outcome_def link_outcome_def split: option.splits)
  have link: "wp (mbind (run_link env parsed) (\<lambda>(code, state). mseq (ProcessState_destroy state) (mret code))) Q E F s1"
    if s1: "cw_world s1 = ?w" "link_request args = Some parsed" for s1 parsed
    unfolding wp_mbind
  proof (rule wp_run_link [where F = F])
    show "F Terminate \<or> link_ready env parsed (cw_world s1)" using noex s1 by auto
    show "E OtherExn s'" if "profile_throws env parsed" "w_files (cw_world s') = w_files (cw_world s1)" for s' using exn that s1 by simp
    fix code :: int and state and s2 :: cli_world
    assume "code \<in> {0, 1, 2}" "cli_owns (cw_world s1) state (cw_world s2)" "cli_outcome env parsed (cw_world s1) code (cw_world s2)"
    then show "wp (case (code, state) of (code, state) \<Rightarrow> mseq (ProcessState_destroy state) (mret code)) Q E F s2"
      using s1 files unfolding prod.case wp_mseq
      by (intro wp_ProcessState_destroy [of ?w]) (auto simp: wp_mret intro!: fin)
  qed (use ok s1 in simp)
  have quick: "Q code s'" if "cw_world s' = ?w" "link_request args = None" "code \<in> {0, 1, 2}" for code s'
    using that by (intro fin) auto
  have ipc: "wp (emit_ipc_snapshot env parsed) Q' E F s1" if "\<And>out. Q' () (s1\<lparr>cw_out := out\<rparr>)" for Q' parsed s1
    using that that [of "cw_out s1"] by (simp add: emit_ipc_snapshot_def wp_rules Let_def split: option.split)
  have body: "wp (case (if list_ex (\<lambda>t. t \<in> {''--version'', ''--help'', ''-h''}) args then Some 0 else None) of Some code \<Rightarrow> mret code
     | None \<Rightarrow>
        if args \<noteq> [] \<and> hd args \<in> {''inspect'', ''profiles'', ''olnk.native.inspect'', ''olnk.native.profiles''}
        then dispatch_subcommand (hd args) (tl args)
        else
          let registry = CliBehaviorPlugin_extend_arguments build_registry;
              parsed = CliBehaviorPlugin_after_parse
                (KlyCLIService_parse registry ''link'' (CliBehaviorPlugin_before_parse args))
          in if \<not> pr_ok parsed
             then mseq (mfold (\<lambda>diag. cerr (''error: '' @ diag @ nl)) (pr_diagnostics parsed)) (mret 2)
             else if has_value parsed ''help''
             then mseq (case lookup_command registry ''link'' of None \<Rightarrow> mret () | Some cmd \<Rightarrow> print_help cmd) (mret 0)
             else if has_value parsed ''version'' then mseq (cout (olnk_version_string @ nl)) (mret 0)
             else mseq (emit_ipc_snapshot env parsed)
               (mbind (run_link env parsed) (\<lambda>(code, state). mseq (ProcessState_destroy state) (mret code)))) Q E F s1"
    if s1: "cw_world s1 = ?w" for s1
  proof (cases "list_ex (\<lambda>t. t \<in> {''--version'', ''--help'', ''-h''}) args")
    case True
    then show ?thesis using quick s1 by (simp add: wp_mret link_request_def)
  next
    case noflag: False
    show ?thesis
    proof (cases "args \<noteq> [] \<and> hd args \<in> {''inspect'', ''profiles'', ''olnk.native.inspect'', ''olnk.native.profiles''}")
      case True
      then have "link_request args = None" by (auto simp: link_request_def)
      then show ?thesis using quick s1 noflag True
        by (auto simp: dispatch_subcommand_def InspectSubcommand_execute_def ProfilesSubcommand_execute_def wp_rules)
    next
      case False
      let ?p = "cli_parse args"
      have req: "link_request args = (if \<not> pr_ok ?p \<or> has_value ?p ''help'' \<or> has_value ?p ''version'' then None else Some ?p)"
        using noflag False by (auto simp: link_request_def)
      have errs: "wp (mseq (mfold (\<lambda>diag. cerr (''error: '' @ diag @ nl)) (pr_diagnostics ?p)) (mret 2)) Q E F s1" if "\<not> pr_ok ?p"
        unfolding wp_mseq using that s1 req by (intro wp_report_errors) (auto simp: wp_mret intro!: quick)
      have helped: "wp (mseq (case cmd of None \<Rightarrow> mret () | Some cmd \<Rightarrow> print_help cmd) (mret 0)) Q E F s1"
        if "link_request args = None" for cmd
        using that s1 quick by (cases cmd) (auto simp: wp_mseq wp_mret wp_streams print_help_def)
      have run: "wp (mseq (emit_ipc_snapshot env ?p)
          (mbind (run_link env ?p) (\<lambda>(code, state). mseq (ProcessState_destroy state) (mret code)))) Q E F s1"
        if "link_request args = Some ?p"
        unfolding wp_mseq [of "emit_ipc_snapshot env ?p"] using that s1 by (intro ipc link) auto
      show ?thesis
        using False noflag req errs helped run quick s1
        unfolding Let_def cli_parse_def [symmetric]
        by (cases "pr_ok ?p"; cases "has_value ?p ''help''"; cases "has_value ?p ''version''")
          (auto simp: wp_mseq [of "cout x" for x] wp_streams wp_mret)
    qed
  qed
  have probe: "wp (run_klytmk_probe env) Q' E F s" if "\<And>err. Q' () (s\<lparr>cw_err := err\<rparr>)" for Q'
    using that that [of "cw_err s"] by (simp add: run_klytmk_probe_def wp_rules)
  show ?thesis
    unfolding run_cli_def wp_mseq wp_mbind
    by (intro probe wp_fast_path body) simp
qed

text \<open>The counter of \<open>olnk_initialize\<close> does not matter to what a link does.\<close>

lemma cli_outcome_cong:
  assumes "w_env w1 = w_env w" "w_files w1 = w_files w" "w_files w1' = w_files w'"
  shows "cli_outcome env parsed w1 code w1' = cli_outcome env parsed w code w'"
  using assms link_outcome_cong [OF assms(1,2)]
  by (simp add: cli_outcome_def link_outcome_def calm_alloc_def split: option.split)

lemma link_ready_cong: "w_env w1 = w_env w \<Longrightarrow> link_ready env parsed w1 = link_ready env parsed w"
  using run_error_env [of w1 w] by (simp add: link_ready_def)

lemma wp_main:
  assumes ok: "world_ok (cw_world s)"
    and noex: "F Terminate \<or> (\<exists>parsed. link_request args = Some parsed \<and> link_ready env parsed (cw_world s))"
    and exn: "\<And>parsed s'. link_request args = Some parsed \<Longrightarrow> profile_throws env parsed \<Longrightarrow> w_files (cw_world s') = w_files (cw_world s) \<Longrightarrow> E OtherExn s'"
    and fin: "\<And>code s'. code \<in> {0, 1, 2} \<Longrightarrow> w_contexts (cw_world s') = w_contexts (cw_world s) \<Longrightarrow>
       w_configs (cw_world s') = w_configs (cw_world s) \<Longrightarrow> w_results (cw_world s') = w_results (cw_world s) \<Longrightarrow>
       (\<forall>parsed. link_request args = Some parsed \<longrightarrow> cli_outcome env parsed (cw_world s) code (cw_world s')) \<Longrightarrow> Q code s'"
  shows "wp (main env args) Q E F s"
proof -
  let ?w = "(cw_world s)\<lparr>g_initialize_count := g_initialize_count (cw_world s) + 1\<rparr>"
  have "wp (run_cli env args) (\<lambda>cli_status. wp (mseq (lift_api olnk_shutdown) (mret cli_status)) Q E F) E F (s\<lparr>cw_world := ?w\<rparr>)"
  proof (rule wp_run_cli [where F = F])
    show "F Terminate \<or> (\<exists>parsed. link_request args = Some parsed \<and> link_ready env parsed (cw_world (s\<lparr>cw_world := ?w\<rparr>)))"
      using noex link_ready_cong [of ?w "cw_world s"] by simp
    show "E OtherExn s'" if "link_request args = Some parsed" "profile_throws env parsed" "w_files (cw_world s') = w_files (cw_world (s\<lparr>cw_world := ?w\<rparr>))" for parsed s'
      using exn that by simp
    fix code :: int and s' :: cli_world
    assume a: "code \<in> {0, 1, 2}" "w_contexts (cw_world s') = w_contexts (cw_world (s\<lparr>cw_world := ?w\<rparr>))"
      "w_configs (cw_world s') = w_configs (cw_world (s\<lparr>cw_world := ?w\<rparr>))"
      "w_results (cw_world s') = w_results (cw_world (s\<lparr>cw_world := ?w\<rparr>))"
      "\<forall>parsed. link_request args = Some parsed \<longrightarrow> cli_outcome env parsed (cw_world (s\<lparr>cw_world := ?w\<rparr>)) code (cw_world s')"
    have "cli_outcome env parsed (cw_world s) code (cw_world s'\<lparr>g_initialize_count := n\<rparr>)"
      if "link_request args = Some parsed" for parsed n
      using a(5) that cli_outcome_cong [of ?w "cw_world s" "cw_world s'" "cw_world s'\<lparr>g_initialize_count := n\<rparr>"] by simp
    moreover have "cli_outcome env parsed (cw_world s) code (cw_world s')" if "link_request args = Some parsed" for parsed
      using a(5) that cli_outcome_cong [of ?w "cw_world s" "cw_world s'" "cw_world s'"] by simp
    ultimately show "wp (mseq (lift_api olnk_shutdown) (mret code)) Q E F s'"
      using a(1-4) by (auto simp: wp_rules olnk_shutdown_def intro!: fin)
  qed (use ok world_ok_configs(6) in simp)
  then show ?thesis by (simp add: main_def wp_rules olnk_initialize_def)
qed

text \<open>A command line for the witnesses: \<open>olnk a.o -o a.out --format=ELF\<close>.\<close>

definition sample_args :: "string list" where
  "sample_args = [''a.o'', ''-o'', ''a.out'', ''--format=ELF'']"

definition sample_cli_env :: cli_env where
  "sample_cli_env = \<lparr>ce_probe_ok = True, ce_read_file = (\<lambda>_. None), ce_load_profile = (\<lambda>_ _. NoObject), ce_ipc_text = (\<lambda>_ _. None)\<rparr>"

definition sample_cli_world :: cli_world where
  "sample_cli_world = \<lparr>cw_world = world_init sample_env, cw_out = [], cw_err = []\<rparr>"

definition sample_cli_config :: olnk_config where
  "sample_cli_config = olnk_config_default\<lparr>cfg_output_path := ''a.out'', cfg_input_files := [''a.o''], cfg_format_name := ''ELF''\<rparr>"

lemma sample_cli_reachable: "reachable sample_env (cw_world sample_cli_world)"
  by (simp add: sample_cli_world_def reachable.start)

lemma sample_parse_given:
  "(pr_ok (cli_parse sample_args), map (pr_values (cli_parse sample_args)) [''output'', ''format''], pr_positionals (cli_parse sample_args))
   = (True, [Some [''a.out''], Some [''ELF'']], [''a.o''])"
  by code_simp

lemma sample_parse_absent:
  "list_all (\<lambda>key. pr_values (cli_parse sample_args) key = None)
     [''map'', ''entry'', ''machine'', ''script'', ''output_kind'', ''threads'', ''incremental'', ''debug_info'', ''define'',
      ''library'', ''library_path'', ''plugin'', ''dry_run'', ''help'', ''version'', ''profile'']"
  by code_simp

lemma sample_request: "link_request sample_args = Some (cli_parse sample_args)"
proof -
  have "\<not> (list_ex (\<lambda>t. t \<in> {''--version'', ''--help'', ''-h''}) sample_args \<or>
     sample_args \<noteq> [] \<and> hd sample_args \<in> {''inspect'', ''profiles'', ''olnk.native.inspect'', ''olnk.native.profiles''})"
    by (simp add: sample_args_def)
  then show ?thesis using sample_parse_given sample_parse_absent by (simp add: link_request_def has_value_def)
qed

lemma sample_requested: "requested_config sample_cli_env (cli_parse sample_args) = Some sample_cli_config"
  using sample_parse_given sample_parse_absent
  by (simp add: requested_config_def profile_config_def profile_loaded_def cli_values_ok_def cli_config_def first_value_def has_value_def values_for_def
      all_values_def sample_cli_config_def olnk_config_default_def c_str_def)

lemma sample_cli_ready:
  "run_error (cw_world sample_cli_world) (session_of sample_cli_config) = None"
  "calm (w_env (cw_world sample_cli_world)) (cfg_output_path sample_cli_config)"
  using sample_format sample_machine
  by (simp_all add: run_error_def calm_def sample_cli_world_def sample_cli_config_def world_init_def sample_env_def
      session_of_def run_format_name_def run_machine_name_def olnk_config_default_def)

lemma sample_not_dry: "\<not> has_value (cli_parse sample_args) ''dry_run''"
  using sample_parse_absent by (simp add: has_value_def)

section \<open>Properties of the program\<close>



lemma main_ready:
  assumes "reachable e (cw_world s)" "link_request args = Some parsed" "\<not> has_value parsed ''dry_run''"
    and "requested_config env parsed = Some cfg" "run_error (cw_world s) (session_of cfg) = None"
    and "calm (w_env (cw_world s)) (cfg_output_path cfg)"
  shows "\<exists>s'. main env args s = Ret 0 s' \<and> link_outcome (cw_world s) cfg 0 (cw_world s')"
proof -
  have ready: "link_ready env parsed (cw_world s)" using assms(4-6) by (auto simp: link_ready_def)
  have "calm_alloc (cw_world s)" using assms(6) by (auto simp: calm_def calm_alloc_def)
  then have linked: "code = 0 \<and> link_outcome (cw_world s) cfg 0 w'"
    if "\<forall>parsed. link_request args = Some parsed \<longrightarrow> cli_outcome env parsed (cw_world s) code w'" for code w'
    using that assms(2-6) by (auto simp: cli_outcome_def link_outcome_def)
  have "wp (main env args) (\<lambda>code s'. code = 0 \<and> link_outcome (cw_world s) cfg 0 (cw_world s')) (\<lambda>_ _. False) (\<lambda>_. False) s"
  proof (rule wp_main [where F = "\<lambda>_. False", OF reachable_ok [OF assms(1)]])
    show False if "link_request args = Some parsed'" "profile_throws env parsed'" for parsed'
      using that assms(2,4) by (simp add: requested_config_def profile_config_def profile_throws_def)
  qed (use ready assms(2) linked in blast)+
  then show ?thesis by (simp add: wp_def split: outcome.splits)
qed

text \<open>C4: The program links.  For a command line that asks for a link, whose profile and values are accepted and
  whose configuration has no error, on a machine where nothing fails, \<open>main\<close> returns 0, and the output file
  the command line names holds the payload of the format it names; no other file is touched.\<close>

theorem cli_links:
  assumes "reachable e (cw_world s)" "link_request args = Some parsed" "\<not> has_value parsed ''dry_run''"
    and "requested_config env parsed = Some cfg" "run_error (cw_world s) (session_of cfg) = None"
    and "calm (w_env (cw_world s)) (cfg_output_path cfg)"
  shows "\<exists>s' f. main env args s = Ret 0 s' \<and>
     olnk_find_format (env_lua_formats (w_env (cw_world s))) (Some (run_format_name (session_of cfg))) = Some f \<and>
     w_files (cw_world s') = (w_files (cw_world s))
       (cfg_output_path cfg \<mapsto> env_written (w_env (cw_world s)) (cfg_output_path cfg) (format_payload f))"
  using main_ready [OF assms] by (auto simp: link_outcome_def)

theorem cli_links_witness:
  "\<exists>s' f. main sample_cli_env sample_args sample_cli_world = Ret 0 s' \<and> olnk_find_format None (Some ''ELF'') = Some f \<and>
     w_files (cw_world s') = [''a.out'' \<mapsto> format_payload f]"
  using cli_links [OF sample_cli_reachable sample_request sample_not_dry sample_requested sample_cli_ready]
  by (simp add: sample_cli_world_def sample_cli_config_def world_init_def sample_env_def run_format_name_def session_of_def)



end
