(* ===== verification/Olnk_Ir.thy ===== *)
theory Olnk_Ir
  imports Olnk_Status Olnk_Effects
begin

text \<open>
  The read-only IR access layer: \<open>include/olnk/olnk-ir.h\<close> and \<open>src/olnk/ir.cpp\<close>.  A null pointer is
  \<open>None\<close>; an out parameter is passed in and handed back.  Iterators are heap objects (\<open>new\<close>,
  \<open>delete\<close>), so a null, freed or foreign iterator is undefined behaviour where the code
  dereferences it.  An image is read only and owned by the core, so it is a value.  Struct sizes are those of an LP64 ABI; bit fields are words of their width.
\<close>

unbundle bit_operations_syntax

section \<open>Enumerations and structs (\<open>olnk-ir.h\<close>)\<close>

datatype olnk_ir_file_kind =
    OLNK_IR_FILE_KIND_UNKNOWN | OLNK_IR_FILE_KIND_OBJECT | OLNK_IR_FILE_KIND_SHARED_LIBRARY |
    OLNK_IR_FILE_KIND_ARCHIVE | OLNK_IR_FILE_KIND_WHOLE_ARCHIVE | OLNK_IR_FILE_KIND_SCRIPT |
    OLNK_IR_FILE_KIND_BITCODE | OLNK_IR_FILE_KIND_PSEUDO

datatype olnk_ir_section_kind =
    OLNK_IR_SECTION_KIND_UNKNOWN | OLNK_IR_SECTION_KIND_CODE | OLNK_IR_SECTION_KIND_DATA |
    OLNK_IR_SECTION_KIND_BSS | OLNK_IR_SECTION_KIND_RODATA | OLNK_IR_SECTION_KIND_TLS |
    OLNK_IR_SECTION_KIND_DEBUG | OLNK_IR_SECTION_KIND_NOTE | OLNK_IR_SECTION_KIND_METADATA |
    OLNK_IR_SECTION_KIND_IMPORT_TABLE | OLNK_IR_SECTION_KIND_EXPORT_TABLE |
    OLNK_IR_SECTION_KIND_RELOCATION | OLNK_IR_SECTION_KIND_CUSTOM

datatype olnk_ir_symbol_binding =
    OLNK_IR_SYMBOL_BINDING_UNKNOWN | OLNK_IR_SYMBOL_BINDING_LOCAL | OLNK_IR_SYMBOL_BINDING_GLOBAL |
    OLNK_IR_SYMBOL_BINDING_WEAK | OLNK_IR_SYMBOL_BINDING_EXTERN | OLNK_IR_SYMBOL_BINDING_PRIVATE

datatype olnk_ir_symbol_visibility =
    OLNK_IR_SYMBOL_VISIBILITY_DEFAULT | OLNK_IR_SYMBOL_VISIBILITY_HIDDEN |
    OLNK_IR_SYMBOL_VISIBILITY_PROTECTED | OLNK_IR_SYMBOL_VISIBILITY_INTERNAL

datatype olnk_ir_symbol_kind =
    OLNK_IR_SYMBOL_KIND_UNKNOWN | OLNK_IR_SYMBOL_KIND_FUNCTION | OLNK_IR_SYMBOL_KIND_OBJECT |
    OLNK_IR_SYMBOL_KIND_TLS | OLNK_IR_SYMBOL_KIND_SECTION | OLNK_IR_SYMBOL_KIND_FILE |
    OLNK_IR_SYMBOL_KIND_ABSOLUTE | OLNK_IR_SYMBOL_KIND_COMMON | OLNK_IR_SYMBOL_KIND_IFUNC |
    OLNK_IR_SYMBOL_KIND_ALIAS

datatype olnk_ir_relocation_kind =
    OLNK_IR_RELOCATION_KIND_UNKNOWN | OLNK_IR_RELOCATION_KIND_ABSOLUTE |
    OLNK_IR_RELOCATION_KIND_RELATIVE | OLNK_IR_RELOCATION_KIND_PLT | OLNK_IR_RELOCATION_KIND_GOT |
    OLNK_IR_RELOCATION_KIND_TLS | OLNK_IR_RELOCATION_KIND_COPY | OLNK_IR_RELOCATION_KIND_JUMP_SLOT |
    OLNK_IR_RELOCATION_KIND_IFUNC | OLNK_IR_RELOCATION_KIND_CUSTOM

datatype olnk_ir_comdat_kind =
    OLNK_IR_COMDAT_KIND_UNKNOWN | OLNK_IR_COMDAT_KIND_ANY | OLNK_IR_COMDAT_KIND_EXACT_MATCH |
    OLNK_IR_COMDAT_KIND_LARGEST | OLNK_IR_COMDAT_KIND_NO_DUPLICATES | OLNK_IR_COMDAT_KIND_SAME_SIZE

datatype olnk_ir_iterator_kind =
    OLNK_IR_ITERATOR_KIND_UNKNOWN | OLNK_IR_ITERATOR_KIND_FILES | OLNK_IR_ITERATOR_KIND_SECTIONS |
    OLNK_IR_ITERATOR_KIND_SYMBOLS | OLNK_IR_ITERATOR_KIND_RELOCATIONS |
    OLNK_IR_ITERATOR_KIND_COMDATS | OLNK_IR_ITERATOR_KIND_ATOMS | OLNK_IR_ITERATOR_KIND_RAW int

definition OLNK_IR_ABI_VERSION :: u32 where "OLNK_IR_ABI_VERSION = 1"

datatype olnk_ir_symbol_flags =
    OLNK_IR_SYMBOL_FLAG_NONE | OLNK_IR_SYMBOL_FLAG_DEFINED | OLNK_IR_SYMBOL_FLAG_UNDEFINED |
    OLNK_IR_SYMBOL_FLAG_COMMON | OLNK_IR_SYMBOL_FLAG_WEAK | OLNK_IR_SYMBOL_FLAG_TLS |
    OLNK_IR_SYMBOL_FLAG_CONSTRUCTOR | OLNK_IR_SYMBOL_FLAG_DESTRUCTOR | OLNK_IR_SYMBOL_FLAG_EXPORTED
    | OLNK_IR_SYMBOL_FLAG_IMPORTED | OLNK_IR_SYMBOL_FLAG_DYNAMIC | OLNK_IR_SYMBOL_FLAG_INTERPOSE |
    OLNK_IR_SYMBOL_FLAG_CAN_BE_INLINE

primrec olnk_ir_symbol_flag_bits :: "olnk_ir_symbol_flags \<Rightarrow> u32" where
  "olnk_ir_symbol_flag_bits OLNK_IR_SYMBOL_FLAG_NONE = 0"
| "olnk_ir_symbol_flag_bits OLNK_IR_SYMBOL_FLAG_DEFINED = push_bit 0 1"
| "olnk_ir_symbol_flag_bits OLNK_IR_SYMBOL_FLAG_UNDEFINED = push_bit 1 1"
| "olnk_ir_symbol_flag_bits OLNK_IR_SYMBOL_FLAG_COMMON = push_bit 2 1"
| "olnk_ir_symbol_flag_bits OLNK_IR_SYMBOL_FLAG_WEAK = push_bit 3 1"
| "olnk_ir_symbol_flag_bits OLNK_IR_SYMBOL_FLAG_TLS = push_bit 4 1"
| "olnk_ir_symbol_flag_bits OLNK_IR_SYMBOL_FLAG_CONSTRUCTOR = push_bit 5 1"
| "olnk_ir_symbol_flag_bits OLNK_IR_SYMBOL_FLAG_DESTRUCTOR = push_bit 6 1"
| "olnk_ir_symbol_flag_bits OLNK_IR_SYMBOL_FLAG_EXPORTED = push_bit 7 1"
| "olnk_ir_symbol_flag_bits OLNK_IR_SYMBOL_FLAG_IMPORTED = push_bit 8 1"
| "olnk_ir_symbol_flag_bits OLNK_IR_SYMBOL_FLAG_DYNAMIC = push_bit 9 1"
| "olnk_ir_symbol_flag_bits OLNK_IR_SYMBOL_FLAG_INTERPOSE = push_bit 10 1"
| "olnk_ir_symbol_flag_bits OLNK_IR_SYMBOL_FLAG_CAN_BE_INLINE = push_bit 11 1"

definition olnk_ir_symbol_has_flag :: "u32 \<Rightarrow> u32 \<Rightarrow> bool" where
  "olnk_ir_symbol_has_flag flags flag \<longleftrightarrow> flags AND flag = flag"

definition olnk_ir_make_version :: "u32 \<Rightarrow> u32 \<Rightarrow> u32 \<Rightarrow> u32" where
  "olnk_ir_make_version major minor patch =
     push_bit 22 (major AND 0x3FF) OR push_bit 12 (minor AND 0x3FF) OR push_bit 0 (patch AND 0xFFF)"

record olnk_ir_range =
  rg_offset :: u64
  rg_size :: u64

record olnk_ir_file_info =
  fi_abi_version :: u32
  fi_struct_size :: u32
  fi_path :: cstr
  fi_name :: cstr
  fi_kind :: olnk_ir_file_kind
  fi_index :: u32
  fi_is_system :: "1 word"
  fi_is_lazy :: "1 word"
  fi_is_gc_root :: "1 word"
  fi_reserved_flags :: "29 word"
  fi_machine_kind :: u32
  fi_format_kind :: u32
  fi_user_data :: "nat option"
  fi_reserved_0 :: "nat option"
  fi_reserved_1 :: "nat option"

record olnk_ir_section_info =
  si_abi_version :: u32
  si_struct_size :: u32
  si_name :: cstr
  si_comdat_key :: cstr
  si_kind :: olnk_ir_section_kind
  si_flags :: u32
  si_index :: u32
  si_file_index :: u32
  si_file_range :: olnk_ir_range
  si_virt_range :: olnk_ir_range
  si_alignment :: u64
  si_is_alloc :: "1 word"
  si_is_load :: "1 word"
  si_is_debug :: "1 word"
  si_reserved_bits :: "29 word"
  si_reserved_0 :: "nat option"
  si_reserved_1 :: "nat option"

record olnk_ir_symbol_info =
  sy_abi_version :: u32
  sy_struct_size :: u32
  sy_name :: cstr
  sy_version :: cstr
  sy_kind :: olnk_ir_symbol_kind
  sy_binding :: olnk_ir_symbol_binding
  sy_visibility :: olnk_ir_symbol_visibility
  sy_flags :: u32
  sy_file_index :: u32
  sy_section_index :: u32
  sy_value :: u64
  sy_size :: u64
  sy_is_defined :: "1 word"
  sy_is_tls :: "1 word"
  sy_is_import :: "1 word"
  sy_is_export :: "1 word"
  sy_reserved_bits :: "28 word"
  sy_reserved_0 :: "nat option"
  sy_reserved_1 :: "nat option"

record olnk_ir_relocation_info =
  ri_abi_version :: u32
  ri_struct_size :: u32
  ri_file_index :: u32
  ri_section_index :: u32
  ri_offset :: u64
  ri_addend :: "64 word"
  ri_symbol_index :: u32
  ri_type :: u32
  ri_kind :: olnk_ir_relocation_kind
  ri_is_pc_relative :: "1 word"
  ri_is_tls :: "1 word"
  ri_is_plt :: "1 word"
  ri_reserved_bits :: "29 word"
  ri_reserved_0 :: "nat option"
  ri_reserved_1 :: "nat option"

record olnk_ir_comdat_info =
  ci_abi_version :: u32
  ci_struct_size :: u32
  ci_key :: cstr
  ci_kind :: olnk_ir_comdat_kind
  ci_file_index :: u32
  ci_section_count :: u32
  ci_reserved_0 :: "nat option"
  ci_reserved_1 :: "nat option"

record olnk_ir_atom_info =
  ai_abi_version :: u32
  ai_struct_size :: u32
  ai_name :: cstr
  ai_file_index :: u32
  ai_section_index :: u32
  ai_offset :: u64
  ai_size :: u64
  ai_alignment :: u64
  ai_is_dead :: "1 word"
  ai_is_gc_root :: "1 word"
  ai_is_hot :: "1 word"
  ai_is_cold :: "1 word"
  ai_reserved_bits :: "28 word"
  ai_reserved_0 :: "nat option"
  ai_reserved_1 :: "nat option"

record olnk_ir_image_info =
  ii_abi_version :: u32
  ii_struct_size :: u32
  ii_name :: cstr
  ii_output_path :: cstr
  ii_file_count :: u32
  ii_section_count :: u32
  ii_symbol_count :: u32
  ii_relocation_count :: u32
  ii_comdat_count :: u32
  ii_atom_count :: u32
  ii_machine_kind :: u32
  ii_format_kind :: u32
  ii_image_base :: u64
  ii_entry_address :: u64
  ii_has_incremental_state :: "1 word"
  ii_has_debug_info :: "1 word"
  ii_reserved_bits :: "30 word"
  ii_reserved_0 :: "nat option"
  ii_reserved_1 :: "nat option"

section \<open>Images, iterators, the heap (\<open>ir.cpp\<close>)\<close>

record olnk_ir_image =
  img_info :: olnk_ir_image_info

record olnk_ir_iterator =
  it_image :: "olnk_ir_image option"
  it_kind :: olnk_ir_iterator_kind
  it_index :: u32
  it_count :: u32

text \<open>\<open>ih_alloc n\<close>: whether allocation number \<open>n\<close> succeeds.\<close>

record ir_heap =
  ih_alloc :: "nat \<Rightarrow> bool"
  ih_next :: nat
  ih_iters :: "nat \<rightharpoonup> olnk_ir_iterator"

type_synonym 'a ir = "('a, ir_heap) prog"

definition empty_range :: olnk_ir_range where
  "empty_range = \<lparr>rg_offset = 0, rg_size = 0\<rparr>"

text \<open>The initialisers write every field of the struct, so what it held before does not matter.\<close>

definition olnk_ir_init_empty_file_info :: "u32 \<Rightarrow> olnk_ir_file_info" where
  "olnk_ir_init_empty_file_info index = \<lparr>fi_abi_version = OLNK_IR_ABI_VERSION, fi_struct_size = 72, fi_path = None, fi_name = None,
     fi_kind = OLNK_IR_FILE_KIND_UNKNOWN, fi_index = index, fi_is_system = 0, fi_is_lazy = 0,
     fi_is_gc_root = 0, fi_reserved_flags = 0, fi_machine_kind = 0, fi_format_kind = 0,
     fi_user_data = None, fi_reserved_0 = None, fi_reserved_1 = None\<rparr>"

definition olnk_ir_init_empty_section_info :: "u32 \<Rightarrow> olnk_ir_section_info" where
  "olnk_ir_init_empty_section_info index = \<lparr>si_abi_version = OLNK_IR_ABI_VERSION, si_struct_size = 104, si_name = None, si_comdat_key =
     None, si_kind = OLNK_IR_SECTION_KIND_UNKNOWN, si_flags = 0, si_index = index, si_file_index
     = 0, si_file_range = empty_range, si_virt_range = empty_range, si_alignment = 0,
     si_is_alloc = 0, si_is_load = 0, si_is_debug = 0, si_reserved_bits = 0, si_reserved_0 =
     None, si_reserved_1 = None\<rparr>"

definition olnk_ir_init_empty_symbol_info :: olnk_ir_symbol_info where
  "olnk_ir_init_empty_symbol_info = \<lparr>sy_abi_version = OLNK_IR_ABI_VERSION, sy_struct_size = 88, sy_name = None, sy_version = None,
     sy_kind = OLNK_IR_SYMBOL_KIND_UNKNOWN, sy_binding = OLNK_IR_SYMBOL_BINDING_UNKNOWN,
     sy_visibility = OLNK_IR_SYMBOL_VISIBILITY_DEFAULT, sy_flags = 0, sy_file_index = 0,
     sy_section_index = 0, sy_value = 0, sy_size = 0, sy_is_defined = 0, sy_is_tls = 0,
     sy_is_import = 0, sy_is_export = 0, sy_reserved_bits = 0, sy_reserved_0 = None,
     sy_reserved_1 = None\<rparr>"

definition olnk_ir_init_empty_relocation_info :: olnk_ir_relocation_info where
  "olnk_ir_init_empty_relocation_info = \<lparr>ri_abi_version = OLNK_IR_ABI_VERSION, ri_struct_size = 64, ri_file_index = 0, ri_section_index =
     0, ri_offset = 0, ri_addend = 0, ri_symbol_index = 0, ri_type = 0, ri_kind =
     OLNK_IR_RELOCATION_KIND_UNKNOWN, ri_is_pc_relative = 0, ri_is_tls = 0, ri_is_plt = 0,
     ri_reserved_bits = 0, ri_reserved_0 = None, ri_reserved_1 = None\<rparr>"

definition olnk_ir_init_empty_comdat_info :: olnk_ir_comdat_info where
  "olnk_ir_init_empty_comdat_info = \<lparr>ci_abi_version = OLNK_IR_ABI_VERSION, ci_struct_size = 48, ci_key = None, ci_kind =
     OLNK_IR_COMDAT_KIND_UNKNOWN, ci_file_index = 0, ci_section_count = 0, ci_reserved_0 = None,
     ci_reserved_1 = None\<rparr>"

definition olnk_ir_init_empty_atom_info :: olnk_ir_atom_info where
  "olnk_ir_init_empty_atom_info = \<lparr>ai_abi_version = OLNK_IR_ABI_VERSION, ai_struct_size = 72, ai_name = None, ai_file_index = 0,
     ai_section_index = 0, ai_offset = 0, ai_size = 0, ai_alignment = 0, ai_is_dead = 0,
     ai_is_gc_root = 0, ai_is_hot = 0, ai_is_cold = 0, ai_reserved_bits = 0, ai_reserved_0 =
     None, ai_reserved_1 = None\<rparr>"

definition olnk_ir_init_empty_image_info :: olnk_ir_image_info where
  "olnk_ir_init_empty_image_info = \<lparr>ii_abi_version = OLNK_IR_ABI_VERSION, ii_struct_size = 96, ii_name = None, ii_output_path =
     None, ii_file_count = 0, ii_section_count = 0, ii_symbol_count = 0, ii_relocation_count =
     0, ii_comdat_count = 0, ii_atom_count = 0, ii_machine_kind = 0, ii_format_kind = 0,
     ii_image_base = 0, ii_entry_address = 0, ii_has_incremental_state = 0, ii_has_debug_info =
     0, ii_reserved_bits = 0, ii_reserved_0 = None, ii_reserved_1 = None\<rparr>"

section \<open>Accessors\<close>

text \<open>The public ABI offers no image for a session.\<close>

definition olnk_ir_get_image :: "nat option \<Rightarrow> olnk_ir_image option" where
  "olnk_ir_get_image session = None"

definition olnk_ir_get_image_info ::
    "olnk_ir_image option \<Rightarrow> olnk_ir_image_info option \<Rightarrow> olnk_status \<times> olnk_ir_image_info option" where
  "olnk_ir_get_image_info img out_info =
     (case out_info of None \<Rightarrow> (OLNK_STATUS_INVALID_ARGUMENT, None)
      | Some _ \<Rightarrow>
         (case img of None \<Rightarrow> (OLNK_STATUS_INVALID_ARGUMENT, Some olnk_ir_init_empty_image_info)
          | Some im \<Rightarrow>
              (OLNK_STATUS_OK, Some ((img_info im)\<lparr>ii_abi_version := OLNK_IR_ABI_VERSION, ii_struct_size := 96\<rparr>))))"

definition olnk_ir_get_file_info ::
    "olnk_ir_image option \<Rightarrow> u32 \<Rightarrow> olnk_ir_file_info option \<Rightarrow> olnk_status \<times> olnk_ir_file_info option" where
  "olnk_ir_get_file_info img index out_info =
     (case out_info of None \<Rightarrow> (OLNK_STATUS_INVALID_ARGUMENT, None)
      | Some _ \<Rightarrow>
          let out_info' = Some (olnk_ir_init_empty_file_info index)
          in case img of None \<Rightarrow> (OLNK_STATUS_INVALID_ARGUMENT, out_info')
             | Some im \<Rightarrow>
                 if ii_file_count (img_info im) \<le> index then (OLNK_STATUS_INVALID_ARGUMENT, out_info')
                 else (OLNK_STATUS_OK, out_info'))"

definition olnk_ir_get_section_info ::
    "olnk_ir_image option \<Rightarrow> u32 \<Rightarrow> olnk_ir_section_info option \<Rightarrow> olnk_status \<times> olnk_ir_section_info option" where
  "olnk_ir_get_section_info img index out_info =
     (case out_info of None \<Rightarrow> (OLNK_STATUS_INVALID_ARGUMENT, None)
      | Some _ \<Rightarrow>
          let out_info' = Some (olnk_ir_init_empty_section_info index)
          in case img of None \<Rightarrow> (OLNK_STATUS_INVALID_ARGUMENT, out_info')
             | Some im \<Rightarrow>
                 if ii_section_count (img_info im) \<le> index then (OLNK_STATUS_INVALID_ARGUMENT, out_info')
                 else (OLNK_STATUS_OK, out_info'))"

definition olnk_ir_get_symbol_info ::
    "olnk_ir_image option \<Rightarrow> u32 \<Rightarrow> olnk_ir_symbol_info option \<Rightarrow> olnk_status \<times> olnk_ir_symbol_info option" where
  "olnk_ir_get_symbol_info img index out_info =
     (case out_info of None \<Rightarrow> (OLNK_STATUS_INVALID_ARGUMENT, None)
      | Some _ \<Rightarrow>
          let out_info' = Some olnk_ir_init_empty_symbol_info
          in case img of None \<Rightarrow> (OLNK_STATUS_INVALID_ARGUMENT, out_info')
             | Some im \<Rightarrow>
                 if ii_symbol_count (img_info im) \<le> index then (OLNK_STATUS_INVALID_ARGUMENT, out_info')
                 else (OLNK_STATUS_OK, out_info'))"

definition olnk_ir_get_relocation_info ::
    "olnk_ir_image option \<Rightarrow> u32 \<Rightarrow> olnk_ir_relocation_info option \<Rightarrow> olnk_status \<times> olnk_ir_relocation_info option" where
  "olnk_ir_get_relocation_info img index out_info =
     (case out_info of None \<Rightarrow> (OLNK_STATUS_INVALID_ARGUMENT, None)
      | Some _ \<Rightarrow>
          let out_info' = Some olnk_ir_init_empty_relocation_info
          in case img of None \<Rightarrow> (OLNK_STATUS_INVALID_ARGUMENT, out_info')
             | Some im \<Rightarrow>
                 if ii_relocation_count (img_info im) \<le> index then (OLNK_STATUS_INVALID_ARGUMENT, out_info')
                 else (OLNK_STATUS_OK, out_info'))"

definition olnk_ir_get_comdat_info ::
    "olnk_ir_image option \<Rightarrow> u32 \<Rightarrow> olnk_ir_comdat_info option \<Rightarrow> olnk_status \<times> olnk_ir_comdat_info option" where
  "olnk_ir_get_comdat_info img index out_info =
     (case out_info of None \<Rightarrow> (OLNK_STATUS_INVALID_ARGUMENT, None)
      | Some _ \<Rightarrow>
          let out_info' = Some olnk_ir_init_empty_comdat_info
          in case img of None \<Rightarrow> (OLNK_STATUS_INVALID_ARGUMENT, out_info')
             | Some im \<Rightarrow>
                 if ii_comdat_count (img_info im) \<le> index then (OLNK_STATUS_INVALID_ARGUMENT, out_info')
                 else (OLNK_STATUS_OK, out_info'))"

definition olnk_ir_get_atom_info ::
    "olnk_ir_image option \<Rightarrow> u32 \<Rightarrow> olnk_ir_atom_info option \<Rightarrow> olnk_status \<times> olnk_ir_atom_info option" where
  "olnk_ir_get_atom_info img index out_info =
     (case out_info of None \<Rightarrow> (OLNK_STATUS_INVALID_ARGUMENT, None)
      | Some _ \<Rightarrow>
          let out_info' = Some olnk_ir_init_empty_atom_info
          in case img of None \<Rightarrow> (OLNK_STATUS_INVALID_ARGUMENT, out_info')
             | Some im \<Rightarrow>
                 if ii_atom_count (img_info im) \<le> index then (OLNK_STATUS_INVALID_ARGUMENT, out_info')
                 else (OLNK_STATUS_OK, out_info'))"

section \<open>Iterators\<close>

definition olnk_ir_image_count_for_kind :: "olnk_ir_image option \<Rightarrow> olnk_ir_iterator_kind \<Rightarrow> u32" where
  "olnk_ir_image_count_for_kind img kind =
     (case img of None \<Rightarrow> 0
      | Some im \<Rightarrow>
         (case kind of
            OLNK_IR_ITERATOR_KIND_FILES \<Rightarrow> ii_file_count (img_info im)
          | OLNK_IR_ITERATOR_KIND_SECTIONS \<Rightarrow> ii_section_count (img_info im)
          | OLNK_IR_ITERATOR_KIND_SYMBOLS \<Rightarrow> ii_symbol_count (img_info im)
          | OLNK_IR_ITERATOR_KIND_RELOCATIONS \<Rightarrow> ii_relocation_count (img_info im)
          | OLNK_IR_ITERATOR_KIND_COMDATS \<Rightarrow> ii_comdat_count (img_info im)
          | OLNK_IR_ITERATOR_KIND_ATOMS \<Rightarrow> ii_atom_count (img_info im)
          | _ \<Rightarrow> 0))"

definition deref_iter :: "nat option \<Rightarrow> olnk_ir_iterator ir" where
  "deref_iter it = mderef (\<lambda>h. Option.bind it (ih_iters h))"

definition olnk_ir_iterator_kind_matches :: "nat option \<Rightarrow> olnk_ir_iterator_kind \<Rightarrow> int ir" where
  "olnk_ir_iterator_kind_matches it expected_kind =
     (if it = None then mret (olnk_status_int OLNK_STATUS_INVALID_ARGUMENT)
      else mbind (deref_iter it) (\<lambda>obj.
        if it_kind obj \<noteq> expected_kind then mret (olnk_status_int OLNK_STATUS_INVALID_ARGUMENT) else mret 1))"

text \<open>\<open>out_it\<close> is null (\<open>None\<close>) or the address of a pointer, which is handed back with its new value.\<close>

definition olnk_ir_iterator_create ::
    "olnk_ir_image option \<Rightarrow> olnk_ir_iterator_kind \<Rightarrow> nat option option \<Rightarrow> (olnk_status \<times> nat option option) ir" where
  "olnk_ir_iterator_create img kind out_it =
     (if out_it = None then mret (OLNK_STATUS_INVALID_ARGUMENT, None)
      else if kind \<in> {OLNK_IR_ITERATOR_KIND_FILES, OLNK_IR_ITERATOR_KIND_SECTIONS, OLNK_IR_ITERATOR_KIND_SYMBOLS,
                      OLNK_IR_ITERATOR_KIND_RELOCATIONS, OLNK_IR_ITERATOR_KIND_COMDATS, OLNK_IR_ITERATOR_KIND_ATOMS}
      then mbind (mget (\<lambda>h. (ih_next h, ih_alloc h (ih_next h)))) (\<lambda>(a, ok).
             mseq (mupd (\<lambda>h. h\<lparr>ih_next := Suc a\<rparr>))
               (if \<not> ok then mret (OLNK_STATUS_OUT_OF_MEMORY, Some None)
                else mseq (mupd (\<lambda>h. h\<lparr>ih_iters := (ih_iters h)(a \<mapsto>
                            \<lparr>it_image = img, it_kind = kind, it_index = 0,
                             it_count = olnk_ir_image_count_for_kind img kind\<rparr>)\<rparr>))
                       (mret (OLNK_STATUS_OK, Some (Some a)))))
      else mret (OLNK_STATUS_INVALID_ARGUMENT, Some None))"

definition olnk_ir_iterator_destroy :: "nat option \<Rightarrow> unit ir" where
  "olnk_ir_iterator_destroy it =
     (case it of None \<Rightarrow> mret ()
      | Some a \<Rightarrow> mseq (deref_iter it) (mupd (\<lambda>h. h\<lparr>ih_iters := (ih_iters h)(a := None)\<rparr>)))"

text \<open>The six \<open>next\<close> functions have the same text up to the kind and the accessor they call.\<close>

definition iterator_next ::
    "olnk_ir_iterator_kind \<Rightarrow> (olnk_ir_image option \<Rightarrow> u32 \<Rightarrow> 'i option \<Rightarrow> olnk_status \<times> 'i option)
     \<Rightarrow> nat option \<Rightarrow> 'i option \<Rightarrow> (int \<times> 'i option) ir" where
  "iterator_next kind get_info it out_info =
     mbind (olnk_ir_iterator_kind_matches it kind) (\<lambda>match.
       if match < 0 then mret (match, out_info)
       else if out_info = None then mret (olnk_status_int OLNK_STATUS_INVALID_ARGUMENT, out_info)
       else mbind (deref_iter it) (\<lambda>obj.
         if it_count obj \<le> it_index obj then mret (0, out_info)
         else case get_info (it_image obj) (it_index obj) out_info of
           (st, out_info') \<Rightarrow>
             if st \<noteq> OLNK_STATUS_OK then mret (olnk_status_int st, out_info')
             else mseq (mupd (\<lambda>h. h\<lparr>ih_iters := (ih_iters h)(the it \<mapsto> obj\<lparr>it_index := it_index obj + 1\<rparr>)\<rparr>))
                    (mret (1, out_info'))))"

definition olnk_ir_iterator_next_file ::
    "nat option \<Rightarrow> olnk_ir_file_info option \<Rightarrow> (int \<times> olnk_ir_file_info option) ir" where
  "olnk_ir_iterator_next_file = iterator_next OLNK_IR_ITERATOR_KIND_FILES olnk_ir_get_file_info"

definition olnk_ir_iterator_next_section ::
    "nat option \<Rightarrow> olnk_ir_section_info option \<Rightarrow> (int \<times> olnk_ir_section_info option) ir" where
  "olnk_ir_iterator_next_section = iterator_next OLNK_IR_ITERATOR_KIND_SECTIONS olnk_ir_get_section_info"

definition olnk_ir_iterator_next_symbol ::
    "nat option \<Rightarrow> olnk_ir_symbol_info option \<Rightarrow> (int \<times> olnk_ir_symbol_info option) ir" where
  "olnk_ir_iterator_next_symbol = iterator_next OLNK_IR_ITERATOR_KIND_SYMBOLS olnk_ir_get_symbol_info"

definition olnk_ir_iterator_next_relocation ::
    "nat option \<Rightarrow> olnk_ir_relocation_info option \<Rightarrow> (int \<times> olnk_ir_relocation_info option) ir" where
  "olnk_ir_iterator_next_relocation = iterator_next OLNK_IR_ITERATOR_KIND_RELOCATIONS olnk_ir_get_relocation_info"

definition olnk_ir_iterator_next_comdat ::
    "nat option \<Rightarrow> olnk_ir_comdat_info option \<Rightarrow> (int \<times> olnk_ir_comdat_info option) ir" where
  "olnk_ir_iterator_next_comdat = iterator_next OLNK_IR_ITERATOR_KIND_COMDATS olnk_ir_get_comdat_info"

definition olnk_ir_iterator_next_atom ::
    "nat option \<Rightarrow> olnk_ir_atom_info option \<Rightarrow> (int \<times> olnk_ir_atom_info option) ir" where
  "olnk_ir_iterator_next_atom = iterator_next OLNK_IR_ITERATOR_KIND_ATOMS olnk_ir_get_atom_info"

section \<open>Enumerating an image\<close>

text \<open>The results of \<open>n\<close> calls of a \<open>next\<close> function with the same out buffer.\<close>

primrec next_calls :: "nat \<Rightarrow> (nat option \<Rightarrow> 'i option \<Rightarrow> (int \<times> 'i option) ir) \<Rightarrow> nat option \<Rightarrow> 'i option
     \<Rightarrow> (int \<times> 'i option) list ir" where
  "next_calls 0 nxt it buf = mret []"
| "next_calls (Suc n) nxt it buf =
     mbind (nxt it buf) (\<lambda>(code, buf').
       mbind (next_calls n nxt it buf') (\<lambda>rest. mret ((code, buf') # rest)))"

text \<open>Create an iterator, call \<open>next\<close> \<open>n\<close> times, destroy it.\<close>

definition enumerate_ir :: "olnk_ir_iterator_kind \<Rightarrow> (nat option \<Rightarrow> 'i option \<Rightarrow> (int \<times> 'i option) ir)
     \<Rightarrow> olnk_ir_image option \<Rightarrow> nat \<Rightarrow> 'i \<Rightarrow> (olnk_status \<times> (int \<times> 'i option) list) ir" where
  "enumerate_ir kind nxt img n buf =
     mbind (olnk_ir_iterator_create img kind (Some None)) (\<lambda>(st, it).
       mbind (next_calls n nxt (the it) (Some buf)) (\<lambda>rs.
         mseq (olnk_ir_iterator_destroy (the it)) (mret (st, rs))))"

text \<open>What an accessor has to promise for its entities to be enumerated: it fills in the record of an
  index whatever the image, and accepts exactly the indices below the count of its kind.\<close>

locale ir_entity =
  fixes kind :: olnk_ir_iterator_kind
    and get_info :: "olnk_ir_image option \<Rightarrow> u32 \<Rightarrow> 'i option \<Rightarrow> olnk_status \<times> 'i option"
    and entry :: "u32 \<Rightarrow> 'i"
  assumes get_info: "get_info img i (Some x) =
      (if i < olnk_ir_image_count_for_kind img kind then OLNK_STATUS_OK else OLNK_STATUS_INVALID_ARGUMENT, Some (entry i))"
    and enumerable: "kind \<in> {OLNK_IR_ITERATOR_KIND_FILES, OLNK_IR_ITERATOR_KIND_SECTIONS, OLNK_IR_ITERATOR_KIND_SYMBOLS,
      OLNK_IR_ITERATOR_KIND_RELOCATIONS, OLNK_IR_ITERATOR_KIND_COMDATS, OLNK_IR_ITERATOR_KIND_ATOMS}"
begin

text \<open>The kind of the iterator is not looked at: the test of the result is for a negative number.\<close>

lemma next_step:
  assumes "ih_iters h a = Some obj"
  shows "iterator_next kind get_info (Some a) (Some x) h =
    (if it_count obj \<le> it_index obj then Ret (0, Some x) h
     else if it_index obj < olnk_ir_image_count_for_kind (it_image obj) kind
     then Ret (1, Some (entry (it_index obj))) (h\<lparr>ih_iters := (ih_iters h)(a \<mapsto> obj\<lparr>it_index := it_index obj + 1\<rparr>)\<rparr>)
     else Ret (2, Some (entry (it_index obj))) h)"
  using assms by (simp add: iterator_next_def olnk_ir_iterator_kind_matches_def deref_iter_def run_defs get_info)

lemma next_null: "iterator_next kind get_info None (Some x) h = Fault UndefinedBehaviour"
  by (simp add: iterator_next_def olnk_ir_iterator_kind_matches_def deref_iter_def run_defs)

lemma next_calls_end:
  assumes "ih_iters h a = Some obj" "it_index obj = it_count obj"
  shows "next_calls n (iterator_next kind get_info) (Some a) (Some x) h = Ret (replicate n (0, Some x)) h"
  using assms by (induction n) (simp_all add: next_step run_defs)

lemma next_calls_all:
  assumes "ih_iters h a = Some obj" "it_count obj = olnk_ir_image_count_for_kind (it_image obj) kind"
    and "unat (it_index obj) + k = unat (it_count obj)"
  shows "next_calls (k + n) (iterator_next kind get_info) (Some a) (Some x) h =
    Ret (map (\<lambda>i. (1, Some (entry (of_nat i)))) [unat (it_index obj)..<unat (it_count obj)] @
         replicate n (0, if k = 0 then Some x else Some (entry (it_count obj - 1))))
      (h\<lparr>ih_iters := (ih_iters h)(a \<mapsto> obj\<lparr>it_index := it_count obj\<rparr>)\<rparr>)"
  using assms
proof (induction k arbitrary: h obj x)
  case 0
  then have "it_index obj = it_count obj" by (simp add: unat_eq_iff)
  moreover from this have "obj\<lparr>it_index := it_count obj\<rparr> = obj" by simp
  then have "h\<lparr>ih_iters := (ih_iters h)(a \<mapsto> obj\<lparr>it_index := it_count obj\<rparr>)\<rparr> = h" using 0(1) by (simp add: map_upd_triv)
  ultimately show ?case using next_calls_end [OF 0(1), of n x] 0(3) by (simp del: fun_upd_apply)
next
  case (Suc k)
  let ?obj = "obj\<lparr>it_index := it_index obj + 1\<rparr>" and ?i = "it_index obj"
  have lt: "?i < it_count obj" using Suc.prems(3) by (simp add: word_less_nat_alt)
  then have i1: "unat (?i + 1) = Suc (unat ?i)"
    using unat_less_2p [of "it_count obj"] by (simp add: word_less_nat_alt unat_word_ariths)
  let ?h = "h\<lparr>ih_iters := (ih_iters h)(a \<mapsto> ?obj)\<rparr>"
  have rest: "next_calls (k + n) (iterator_next kind get_info) (Some a) (Some (entry ?i)) ?h =
      Ret (map (\<lambda>i. (1, Some (entry (of_nat i)))) [Suc (unat ?i)..<unat (it_count obj)] @
         replicate n (0, if k = 0 then Some (entry ?i) else Some (entry (it_count obj - 1))))
      (h\<lparr>ih_iters := (ih_iters h)(a \<mapsto> obj\<lparr>it_index := it_count obj\<rparr>)\<rparr>)"
    using Suc.IH [of ?h ?obj "entry ?i"] Suc.prems i1 by (simp del: fun_upd_apply add: fun_upd_same)
  have last: "k = 0 \<Longrightarrow> ?i = it_count obj - 1" using Suc.prems(3) i1 by (metis add.right_neutral add_Suc_right add_diff_cancel_right' unat_eq_iff add.commute)
  have upt: "[unat ?i..<unat (it_count obj)] = unat ?i # [Suc (unat ?i)..<unat (it_count obj)]"
    using Suc.prems(3) by (simp add: upt_conv_Cons)
  have "(if k = 0 then Some (entry ?i) else Some (entry (it_count obj - 1))) = Some (entry (it_count obj - 1))"
    using last by simp
  moreover have "iterator_next kind get_info (Some a) (Some x) h = Ret (1, Some (entry ?i)) ?h"
    using next_step [OF Suc.prems(1)] lt Suc.prems(2) by simp
  moreover have "(of_nat (unat ?i) :: u32) = ?i" by simp
  ultimately show ?case unfolding add_Suc next_calls.simps upt list.map append_Cons mbind_def
    using rest by (simp del: fun_upd_apply add: mret_def)
qed

lemma enumerate:
  assumes "ih_alloc h (ih_next h)" "ih_iters h (ih_next h) = None" "olnk_ir_image_count_for_kind img kind = c" "unat c \<le> n"
  shows "enumerate_ir kind (iterator_next kind get_info) img n x h =
    Ret (OLNK_STATUS_OK, map (\<lambda>i. (1, Some (entry (of_nat i)))) [0..<unat c] @
         replicate (n - unat c) (0, if c = 0 then Some x else Some (entry (c - 1)))) (h\<lparr>ih_next := Suc (ih_next h)\<rparr>)"
proof -
  let ?a = "ih_next h" and ?obj = "\<lparr>it_image = img, it_kind = kind, it_index = 0, it_count = c\<rparr>"
  let ?h = "h\<lparr>ih_next := Suc ?a, ih_iters := (ih_iters h)(?a \<mapsto> ?obj)\<rparr>"
  have create: "olnk_ir_iterator_create img kind (Some None) h = Ret (OLNK_STATUS_OK, Some (Some ?a)) ?h"
    using assms(1,3) enumerable by (simp add: olnk_ir_iterator_create_def run_defs)
  have "(ih_iters h)(?a := None) = ih_iters h" using assms(2) by (metis fun_upd_triv)
  then show ?thesis
    using next_calls_all [of ?h ?a ?obj "unat c" "n - unat c" x] assms(3,4) create
    by (simp add: enumerate_ir_def run_defs olnk_ir_iterator_destroy_def deref_iter_def unat_eq_zero)
qed

end

interpretation ir_files: ir_entity OLNK_IR_ITERATOR_KIND_FILES olnk_ir_get_file_info "olnk_ir_init_empty_file_info"
  by unfold_locales (auto simp: olnk_ir_get_file_info_def olnk_ir_image_count_for_kind_def Let_def not_less split: option.split)

interpretation ir_sections: ir_entity OLNK_IR_ITERATOR_KIND_SECTIONS olnk_ir_get_section_info "olnk_ir_init_empty_section_info"
  by unfold_locales (auto simp: olnk_ir_get_section_info_def olnk_ir_image_count_for_kind_def Let_def not_less split: option.split)

interpretation ir_symbols: ir_entity OLNK_IR_ITERATOR_KIND_SYMBOLS olnk_ir_get_symbol_info "\<lambda>_. olnk_ir_init_empty_symbol_info"
  by unfold_locales (auto simp: olnk_ir_get_symbol_info_def olnk_ir_image_count_for_kind_def Let_def not_less split: option.split)

interpretation ir_relocations: ir_entity OLNK_IR_ITERATOR_KIND_RELOCATIONS olnk_ir_get_relocation_info "\<lambda>_. olnk_ir_init_empty_relocation_info"
  by unfold_locales (auto simp: olnk_ir_get_relocation_info_def olnk_ir_image_count_for_kind_def Let_def not_less split: option.split)

interpretation ir_comdats: ir_entity OLNK_IR_ITERATOR_KIND_COMDATS olnk_ir_get_comdat_info "\<lambda>_. olnk_ir_init_empty_comdat_info"
  by unfold_locales (auto simp: olnk_ir_get_comdat_info_def olnk_ir_image_count_for_kind_def Let_def not_less split: option.split)

interpretation ir_atoms: ir_entity OLNK_IR_ITERATOR_KIND_ATOMS olnk_ir_get_atom_info "\<lambda>_. olnk_ir_init_empty_atom_info"
  by unfold_locales (auto simp: olnk_ir_get_atom_info_def olnk_ir_image_count_for_kind_def Let_def not_less split: option.split)

section \<open>Properties\<close>


definition sample_image :: olnk_ir_image where
  "sample_image = \<lparr>img_info = olnk_ir_init_empty_image_info\<lparr>ii_file_count := 2, ii_symbol_count := 3\<rparr>\<rparr>"

definition sample_heap :: ir_heap where
  "sample_heap = \<lparr>ih_alloc = \<lambda>_. True, ih_next = 0, ih_iters = Map.empty\<rparr>"


text \<open>The \<open>next\<close> functions never reject an iterator: a null one is dereferenced, which is undefined
  behaviour, and one of another kind is advanced and yields records of the wrong kind, because
  the status \<open>OLNK_STATUS_INVALID_ARGUMENT\<close> they test for a negative value is 2.\<close>

theorem ir_next_never_rejects:
  assumes "ih_iters h a = Some obj" "it_index obj < it_count obj"
    and "it_index obj < olnk_ir_image_count_for_kind (it_image obj) OLNK_IR_ITERATOR_KIND_SYMBOLS"
  shows "olnk_ir_iterator_next_symbol (Some a) (Some x) h =
      Ret (1, Some olnk_ir_init_empty_symbol_info) (h\<lparr>ih_iters := (ih_iters h)(a \<mapsto> obj\<lparr>it_index := it_index obj + 1\<rparr>)\<rparr>) \<and>
    olnk_ir_iterator_next_symbol None (Some x) h = Fault UndefinedBehaviour"
  unfolding olnk_ir_iterator_next_symbol_def using assms by (simp add: ir_symbols.next_step ir_symbols.next_null)

definition sample_iterator :: olnk_ir_iterator where
  "sample_iterator = \<lparr>it_image = Some sample_image, it_kind = OLNK_IR_ITERATOR_KIND_FILES, it_index = 0, it_count = 2\<rparr>"

theorem ir_next_never_rejects_witness:
  "\<exists>h'. olnk_ir_iterator_next_symbol (Some 0) (Some olnk_ir_init_empty_symbol_info)
      (sample_heap\<lparr>ih_iters := [0 \<mapsto> sample_iterator]\<rparr>) = Ret (1, Some olnk_ir_init_empty_symbol_info) h'"
  using ir_next_never_rejects [of "sample_heap\<lparr>ih_iters := [0 \<mapsto> sample_iterator]\<rparr>" 0 sample_iterator]
  by (simp add: sample_iterator_def sample_image_def olnk_ir_image_count_for_kind_def)

end
