(* ===== verification/Olnk_Plugin.thy ===== *)
theory Olnk_Plugin
  imports Olnk_Status Olnk_Effects
begin

text \<open>
  The plugin ABI (\<open>include/olnk/olnk-plugin.h\<close>), the host side of it (\<open>src/olnk/plugin.cpp\<close>) and the six
  plugins of \<open>plugins/\<close>.  Callbacks are programs on the plugin world, which holds the instances the
  plugins allocate, the reference counts of the dynamic loader and a part for the host of its own.
  \<open>dlopen\<close>, \<open>dlsym\<close> and \<open>getenv\<close> are parameters; so is the table of host services, which the sources
  declare and never fill in.  A null function pointer is \<open>None\<close>, and calling it is undefined behaviour.
\<close>

unbundle bit_operations_syntax

section \<open>\<open>olnk-plugin.h\<close>\<close>

datatype olnk_plugin_kind =
    OLNK_PLUGIN_KIND_UNKNOWN | OLNK_PLUGIN_KIND_ANALYSIS | OLNK_PLUGIN_KIND_TRANSFORM | OLNK_PLUGIN_KIND_OUTPUT
  | OLNK_PLUGIN_KIND_DIAGNOSTIC | OLNK_PLUGIN_KIND_SCRIPTING | OLNK_PLUGIN_KIND_RAW int

datatype olnk_plugin_event =
    OLNK_PLUGIN_EVENT_NONE | OLNK_PLUGIN_EVENT_INITIALIZE | OLNK_PLUGIN_EVENT_BEFORE_LINK
  | OLNK_PLUGIN_EVENT_AFTER_LINK | OLNK_PLUGIN_EVENT_FINALIZE | OLNK_PLUGIN_EVENT_RAW int

datatype olnk_plugin_capability =
    OLNK_PLUGIN_CAPABILITY_NONE | OLNK_PLUGIN_CAPABILITY_READ_DIAGNOSTICS | OLNK_PLUGIN_CAPABILITY_EMIT_DIAGNOSTICS
  | OLNK_PLUGIN_CAPABILITY_READ_CONFIG | OLNK_PLUGIN_CAPABILITY_WRITE_CONFIG | OLNK_PLUGIN_CAPABILITY_READ_IR
  | OLNK_PLUGIN_CAPABILITY_WRITE_IR | OLNK_PLUGIN_CAPABILITY_READ_LAYOUT | OLNK_PLUGIN_CAPABILITY_WRITE_OUTPUT_AUX

primrec olnk_plugin_capability_bits :: "olnk_plugin_capability \<Rightarrow> u32" where
  "olnk_plugin_capability_bits OLNK_PLUGIN_CAPABILITY_NONE = 0"
| "olnk_plugin_capability_bits OLNK_PLUGIN_CAPABILITY_READ_DIAGNOSTICS = push_bit 0 1"
| "olnk_plugin_capability_bits OLNK_PLUGIN_CAPABILITY_EMIT_DIAGNOSTICS = push_bit 1 1"
| "olnk_plugin_capability_bits OLNK_PLUGIN_CAPABILITY_READ_CONFIG = push_bit 2 1"
| "olnk_plugin_capability_bits OLNK_PLUGIN_CAPABILITY_WRITE_CONFIG = push_bit 3 1"
| "olnk_plugin_capability_bits OLNK_PLUGIN_CAPABILITY_READ_IR = push_bit 4 1"
| "olnk_plugin_capability_bits OLNK_PLUGIN_CAPABILITY_WRITE_IR = push_bit 5 1"
| "olnk_plugin_capability_bits OLNK_PLUGIN_CAPABILITY_READ_LAYOUT = push_bit 6 1"
| "olnk_plugin_capability_bits OLNK_PLUGIN_CAPABILITY_WRITE_OUTPUT_AUX = push_bit 7 1"

definition OLNK_PLUGIN_ABI_VERSION :: u32 where "OLNK_PLUGIN_ABI_VERSION = 1"

definition OLNK_PLUGIN_ENTRYPOINT_NAME :: string where "OLNK_PLUGIN_ENTRYPOINT_NAME = ''olnk_plugin_query''"

text \<open>The services take the address of the plugin context.  \<open>emit_file\<close> gets the bytes \<open>data[0..size)\<close>.\<close>

record 'w olnk_plugin_host =
  ph_abi_version :: u32
  ph_struct_size :: u32
  ph_log :: "(nat option \<Rightarrow> olnk_log_level \<Rightarrow> cstr \<Rightarrow> (unit, 'w) prog) option"
  ph_diagnostic :: "(nat option \<Rightarrow> olnk_diagnostic_severity \<Rightarrow> cstr \<Rightarrow> (unit, 'w) prog) option"
  ph_get_option :: "(nat option \<Rightarrow> cstr \<Rightarrow> (cstr, 'w) prog) option"
  ph_set_option :: "(nat option \<Rightarrow> cstr \<Rightarrow> cstr \<Rightarrow> (olnk_status, 'w) prog) option"
  ph_emit_file :: "(nat option \<Rightarrow> cstr \<Rightarrow> string \<Rightarrow> (olnk_status, 'w) prog) option"
  ph_reserved :: "nat option list"

record 'w olnk_plugin_context =
  pc_address :: nat
  pc_host :: "'w olnk_plugin_host option"
  pc_linker_context :: "nat option"
  pc_session :: "nat option"
  pc_config :: "nat option"
  pc_reserved :: "nat option list"

record olnk_plugin_descriptor =
  pd_abi_version :: u32
  pd_struct_size :: u32
  pd_name :: cstr
  pd_description :: cstr
  pd_author :: cstr
  pd_license :: cstr
  pd_version_major :: u32
  pd_version_minor :: u32
  pd_version_patch :: u32
  pd_kind :: olnk_plugin_kind
  pd_capabilities :: u32
  pd_min_host_api_version :: u32
  pd_max_host_api_version :: u32
  pd_homepage :: cstr
  pd_repository :: cstr
  pd_reserved_0 :: "nat option"
  pd_reserved_1 :: "nat option"

text \<open>\<open>create\<close> gets the address of a pointer (or null) and hands back what it stored there.\<close>

record 'w olnk_plugin_vtable =
  pv_abi_version :: u32
  pv_struct_size :: u32
  pv_create :: "(olnk_plugin_descriptor option \<Rightarrow> nat option option \<Rightarrow> (olnk_status \<times> nat option option, 'w) prog) option"
  pv_destroy :: "(nat option \<Rightarrow> (unit, 'w) prog) option"
  pv_set_option :: "(nat option \<Rightarrow> cstr \<Rightarrow> cstr \<Rightarrow> (olnk_status, 'w) prog) option"
  pv_initialize :: "(nat option \<Rightarrow> 'w olnk_plugin_context option \<Rightarrow> (olnk_status, 'w) prog) option"
  pv_before_link :: "(nat option \<Rightarrow> 'w olnk_plugin_context option \<Rightarrow> (olnk_status, 'w) prog) option"
  pv_after_link :: "(nat option \<Rightarrow> 'w olnk_plugin_context option \<Rightarrow> nat option \<Rightarrow> (olnk_status, 'w) prog) option"
  pv_finalize :: "(nat option \<Rightarrow> 'w olnk_plugin_context option \<Rightarrow> (olnk_status, 'w) prog) option"
  pv_on_event :: "(nat option \<Rightarrow> 'w olnk_plugin_context option \<Rightarrow> olnk_plugin_event \<Rightarrow> string option
      \<Rightarrow> (olnk_status, 'w) prog) option"
  pv_reserved :: "nat option list"

record 'w olnk_plugin_query_result =
  pq_abi_version :: u32
  pq_struct_size :: u32
  pq_descriptor :: "olnk_plugin_descriptor option"
  pq_vtable :: "'w olnk_plugin_vtable option"
  pq_module_data :: "nat option"
  pq_reserved_0 :: "nat option"
  pq_reserved_1 :: "nat option"

definition olnk_plugin_make_version :: "u32 \<Rightarrow> u32 \<Rightarrow> u32 \<Rightarrow> u32" where
  "olnk_plugin_make_version major minor patch =
     push_bit 22 (major AND 0x3FF) OR push_bit 12 (minor AND 0x3FF) OR push_bit 0 (patch AND 0xFFF)"

definition olnk_plugin_host_supports :: "'w olnk_plugin_host option \<Rightarrow> u32 \<Rightarrow> bool" where
  "olnk_plugin_host_supports host required_abi_version =
     (case host of None \<Rightarrow> False | Some h \<Rightarrow> required_abi_version \<le> ph_abi_version h)"

section \<open>Validation (\<open>plugin.cpp\<close>)\<close>

definition has_min_struct_size :: "u32 \<Rightarrow> u32 \<Rightarrow> bool" where
  "has_min_struct_size actual required \<longleftrightarrow> required \<le> actual"

definition is_same_abi :: "u32 \<Rightarrow> bool" where
  "is_same_abi abi_version \<longleftrightarrow> abi_version = OLNK_PLUGIN_ABI_VERSION"

text \<open>\<open>sizeof\<close> the four structs on LP64.\<close>

definition k_host_min_size :: u32 where "k_host_min_size = 80"
definition k_desc_min_size :: u32 where "k_desc_min_size = 104"
definition k_vtable_min_size :: u32 where "k_vtable_min_size = 104"
definition k_query_min_size :: u32 where "k_query_min_size = 48"

definition valid_cstr :: "cstr \<Rightarrow> bool" where
  "valid_cstr s \<longleftrightarrow> s \<noteq> None"

definition validate_host :: "'w olnk_plugin_host option \<Rightarrow> bool" where
  "validate_host host =
     (case host of None \<Rightarrow> False
      | Some h \<Rightarrow>
          if \<not> is_same_abi (ph_abi_version h) then False
          else if \<not> has_min_struct_size (ph_struct_size h) k_host_min_size then False
          else True)"

definition validate_descriptor :: "olnk_plugin_descriptor option \<Rightarrow> bool" where
  "validate_descriptor descriptor =
     (case descriptor of None \<Rightarrow> False
      | Some d \<Rightarrow>
          if \<not> is_same_abi (pd_abi_version d) then False
          else if \<not> has_min_struct_size (pd_struct_size d) k_desc_min_size then False
          else if \<not> valid_cstr (pd_name d) then False
          else (case pd_kind d of OLNK_PLUGIN_KIND_RAW _ \<Rightarrow> False | _ \<Rightarrow> True))"

definition validate_vtable :: "'w olnk_plugin_vtable option \<Rightarrow> bool" where
  "validate_vtable vtable =
     (case vtable of None \<Rightarrow> False
      | Some v \<Rightarrow>
          if \<not> is_same_abi (pv_abi_version v) then False
          else if \<not> has_min_struct_size (pv_struct_size v) k_vtable_min_size then False
          else if pv_create v = None then False
          else if pv_destroy v = None then False
          else True)"

definition validate_query_result :: "'w olnk_plugin_query_result option \<Rightarrow> bool" where
  "validate_query_result query =
     (case query of None \<Rightarrow> False
      | Some q \<Rightarrow>
          if \<not> is_same_abi (pq_abi_version q) then False
          else if \<not> has_min_struct_size (pq_struct_size q) k_query_min_size then False
          else if \<not> validate_descriptor (pq_descriptor q) then False
          else if \<not> validate_vtable (pq_vtable q) then False
          else True)"

section \<open>Callback dispatch (\<open>plugin.cpp\<close>)\<close>

text \<open>Reading through a pointer that may be null.\<close>

definition deref :: "'a option \<Rightarrow> ('a, 'w) prog" where
  "deref p = mderef (\<lambda>_. p)"

definition ok_status :: olnk_status where
  "ok_status = OLNK_STATUS_OK"

definition call_set_option ::
    "'w olnk_plugin_vtable option \<Rightarrow> nat option \<Rightarrow> cstr \<Rightarrow> cstr \<Rightarrow> (olnk_status, 'w) prog" where
  "call_set_option vtable inst key val =
     mnoexcept (case vtable of None \<Rightarrow> mret ok_status
       | Some v \<Rightarrow> (case pv_set_option v of None \<Rightarrow> mret ok_status | Some f \<Rightarrow> f inst key val))"

definition call_initialize ::
    "'w olnk_plugin_vtable option \<Rightarrow> nat option \<Rightarrow> 'w olnk_plugin_context option \<Rightarrow> (olnk_status, 'w) prog" where
  "call_initialize vtable inst ctx =
     mnoexcept (case vtable of None \<Rightarrow> mret ok_status
       | Some v \<Rightarrow> (case pv_initialize v of None \<Rightarrow> mret ok_status | Some f \<Rightarrow> f inst ctx))"

definition call_before_link ::
    "'w olnk_plugin_vtable option \<Rightarrow> nat option \<Rightarrow> 'w olnk_plugin_context option \<Rightarrow> (olnk_status, 'w) prog" where
  "call_before_link vtable inst ctx =
     mnoexcept (case vtable of None \<Rightarrow> mret ok_status
       | Some v \<Rightarrow> (case pv_before_link v of None \<Rightarrow> mret ok_status | Some f \<Rightarrow> f inst ctx))"

definition call_after_link ::
    "'w olnk_plugin_vtable option \<Rightarrow> nat option \<Rightarrow> 'w olnk_plugin_context option \<Rightarrow> nat option \<Rightarrow> (olnk_status, 'w) prog" where
  "call_after_link vtable inst ctx res =
     mnoexcept (case vtable of None \<Rightarrow> mret ok_status
       | Some v \<Rightarrow> (case pv_after_link v of None \<Rightarrow> mret ok_status | Some f \<Rightarrow> f inst ctx res))"

definition call_finalize ::
    "'w olnk_plugin_vtable option \<Rightarrow> nat option \<Rightarrow> 'w olnk_plugin_context option \<Rightarrow> (olnk_status, 'w) prog" where
  "call_finalize vtable inst ctx =
     mnoexcept (case vtable of None \<Rightarrow> mret ok_status
       | Some v \<Rightarrow> (case pv_finalize v of None \<Rightarrow> mret ok_status | Some f \<Rightarrow> f inst ctx))"

definition call_on_event ::
    "'w olnk_plugin_vtable option \<Rightarrow> nat option \<Rightarrow> 'w olnk_plugin_context option \<Rightarrow> olnk_plugin_event \<Rightarrow> string option
     \<Rightarrow> (olnk_status, 'w) prog" where
  "call_on_event vtable inst ctx event event_data =
     mnoexcept (case vtable of None \<Rightarrow> mret ok_status
       | Some v \<Rightarrow> (case pv_on_event v of None \<Rightarrow> mret ok_status | Some f \<Rightarrow> f inst ctx event event_data))"

definition call_destroy :: "'w olnk_plugin_vtable option \<Rightarrow> nat option \<Rightarrow> (unit, 'w) prog" where
  "call_destroy vtable inst =
     mnoexcept (case vtable of None \<Rightarrow> mret ()
       | Some v \<Rightarrow> (case pv_destroy v of None \<Rightarrow> mret () | Some f \<Rightarrow> f inst))"

text \<open>The public wrappers.  They reach the vtable through \<open>query->vtable\<close> after the validation.\<close>

definition create_instance ::
    "'w olnk_plugin_query_result option \<Rightarrow> nat option option \<Rightarrow> (olnk_status \<times> nat option option, 'w) prog" where
  "create_instance query out_instance =
     mnoexcept (if out_instance = None then mret (OLNK_STATUS_RAW (- 1), None)
       else if \<not> validate_query_result query then mret (OLNK_STATUS_RAW (- 1), Some None)
       else mbind (deref query) (\<lambda>q. mbind (deref (pq_vtable q)) (\<lambda>v. mbind (deref (pv_create v)) (\<lambda>f.
              f (pq_descriptor q) (Some None)))))"

definition destroy_instance :: "'w olnk_plugin_query_result option \<Rightarrow> nat option \<Rightarrow> (unit, 'w) prog" where
  "destroy_instance query inst =
     (case query of None \<Rightarrow> mret ()
      | Some q \<Rightarrow> if pq_vtable q = None then mret () else call_destroy (pq_vtable q) inst)"

definition set_option_plugin ::
    "'w olnk_plugin_query_result option \<Rightarrow> nat option \<Rightarrow> cstr \<Rightarrow> cstr \<Rightarrow> (olnk_status, 'w) prog" where
  "set_option_plugin query inst key val =
     (if \<not> validate_query_result query then mret (OLNK_STATUS_RAW (- 1))
      else if key = None then mret (OLNK_STATUS_RAW (- 1))
      else mbind (deref query) (\<lambda>q. call_set_option (pq_vtable q) inst key val))"

definition initialize_plugin ::
    "'w olnk_plugin_query_result option \<Rightarrow> nat option \<Rightarrow> 'w olnk_plugin_context option \<Rightarrow> (olnk_status, 'w) prog" where
  "initialize_plugin query inst ctx =
     (if \<not> validate_query_result query then mret (OLNK_STATUS_RAW (- 1))
      else mbind (deref query) (\<lambda>q. call_initialize (pq_vtable q) inst ctx))"

definition before_link ::
    "'w olnk_plugin_query_result option \<Rightarrow> nat option \<Rightarrow> 'w olnk_plugin_context option \<Rightarrow> (olnk_status, 'w) prog" where
  "before_link query inst ctx =
     (if \<not> validate_query_result query then mret (OLNK_STATUS_RAW (- 1))
      else mbind (deref query) (\<lambda>q. call_before_link (pq_vtable q) inst ctx))"

definition after_link ::
    "'w olnk_plugin_query_result option \<Rightarrow> nat option \<Rightarrow> 'w olnk_plugin_context option \<Rightarrow> nat option \<Rightarrow> (olnk_status, 'w) prog" where
  "after_link query inst ctx res =
     (if \<not> validate_query_result query then mret (OLNK_STATUS_RAW (- 1))
      else mbind (deref query) (\<lambda>q. call_after_link (pq_vtable q) inst ctx res))"

definition finalize_plugin ::
    "'w olnk_plugin_query_result option \<Rightarrow> nat option \<Rightarrow> 'w olnk_plugin_context option \<Rightarrow> (olnk_status, 'w) prog" where
  "finalize_plugin query inst ctx =
     (if \<not> validate_query_result query then mret (OLNK_STATUS_RAW (- 1))
      else mbind (deref query) (\<lambda>q. call_finalize (pq_vtable q) inst ctx))"

definition on_event_plugin ::
    "'w olnk_plugin_query_result option \<Rightarrow> nat option \<Rightarrow> 'w olnk_plugin_context option \<Rightarrow> olnk_plugin_event
     \<Rightarrow> string option \<Rightarrow> (olnk_status, 'w) prog" where
  "on_event_plugin query inst ctx event event_data =
     (if \<not> validate_query_result query then mret (OLNK_STATUS_RAW (- 1))
      else (case event of
         OLNK_PLUGIN_EVENT_RAW _ \<Rightarrow> mret (OLNK_STATUS_RAW (- 1))
       | _ \<Rightarrow> mbind (deref query) (\<lambda>q. call_on_event (pq_vtable q) inst ctx event event_data)))"

section \<open>The plugin world\<close>

text \<open>\<open>StubInstance\<close> of the five scaffold plugins, and that of \<open>append-stub.cpp\<close>.\<close>

record StubInstance =
  si_logical_name :: string
  si_content :: string

record AppendStubInstance =
  as_logical_name :: string
  as_marker :: string
  as_body :: string

datatype instance_object = Stub StubInstance | Append AppendStubInstance

text \<open>\<open>pw_alloc n\<close>: what allocation number \<open>n\<close> throws.  \<open>pw_open\<close>: the reference counts of the loader.\<close>

record 'h pworld =
  pw_alloc :: "nat \<Rightarrow> exn option"
  pw_tick :: nat
  pw_next :: nat
  pw_instances :: "nat \<rightharpoonup> instance_object"
  pw_open :: "nat \<Rightarrow> nat"
  pw_host :: 'h

type_synonym ('a, 'h) plug = "('a, 'h pworld) prog"

definition pmay_throw :: "(unit, 'h) plug" where
  "pmay_throw = mbind (mget (\<lambda>w. pw_alloc w (pw_tick w))) (\<lambda>r.
     mseq (mupd (\<lambda>w. w\<lparr>pw_tick := Suc (pw_tick w)\<rparr>)) (case r of None \<Rightarrow> mret () | Some e \<Rightarrow> mthrow e))"

text \<open>\<open>new (std::nothrow)\<close>: a failed allocation gives a null pointer.\<close>

definition new_nothrow :: "instance_object \<Rightarrow> (nat option, 'h) plug" where
  "new_nothrow obj = mtry
     (mseq pmay_throw (mbind (mget pw_next) (\<lambda>a.
        mseq (mupd (\<lambda>w. w\<lparr>pw_next := Suc a, pw_instances := (pw_instances w)(a \<mapsto> obj)\<rparr>)) (mret (Some a)))))
     (\<lambda>_. mret None)"

text \<open>Access through \<open>reinterpret_cast<StubInstance*>\<close>: another object there is undefined behaviour.\<close>

definition get_stub :: "nat option \<Rightarrow> (StubInstance, 'h) plug" where
  "get_stub inst = mderef (\<lambda>w. case Option.bind inst (pw_instances w) of Some (Stub s) \<Rightarrow> Some s | _ \<Rightarrow> None)"

definition get_append :: "nat option \<Rightarrow> (AppendStubInstance, 'h) plug" where
  "get_append inst = mderef (\<lambda>w. case Option.bind inst (pw_instances w) of Some (Append s) \<Rightarrow> Some s | _ \<Rightarrow> None)"

definition put_instance :: "nat option \<Rightarrow> instance_object \<Rightarrow> (unit, 'h) plug" where
  "put_instance inst obj = mupd (\<lambda>w. w\<lparr>pw_instances := (pw_instances w)(the inst \<mapsto> obj)\<rparr>)"

definition delete_instance_object :: "nat option \<Rightarrow> (unit, 'h) plug" where
  "delete_instance_object inst =
     (case inst of None \<Rightarrow> mret ()
      | Some a \<Rightarrow> mseq (mderef (\<lambda>w. pw_instances w a)) (mupd (\<lambda>w. w\<lparr>pw_instances := (pw_instances w)(a := None)\<rparr>)))"

section \<open>The scaffold plugins\<close>

text \<open>The five plugins share their text but for the defaults and the descriptor.  \<open>name\<close> and \<open>content\<close> are
  the two strings \<open>create\<close> assigns.\<close>

definition scaffold_create ::
    "string \<Rightarrow> string \<Rightarrow> olnk_plugin_descriptor option \<Rightarrow> nat option option \<Rightarrow> (olnk_status \<times> nat option option, 'h) plug" where
  "scaffold_create name content descriptor out =
     (if out = None then mret (OLNK_STATUS_INVALID_ARGUMENT, out)
      else mbind (new_nothrow (Stub \<lparr>si_logical_name = [], si_content = []\<rparr>)) (\<lambda>inst.
        if inst = None then mret (OLNK_STATUS_OUT_OF_MEMORY, out)
        else mseq pmay_throw (mbind (get_stub inst) (\<lambda>s. mseq (put_instance inst (Stub (s\<lparr>si_logical_name := name\<rparr>)))
            (mseq pmay_throw (mbind (get_stub inst) (\<lambda>s. mseq (put_instance inst (Stub (s\<lparr>si_content := content\<rparr>)))
               (mret (OLNK_STATUS_OK, Some inst)))))))))"

definition scaffold_destroy :: "nat option \<Rightarrow> (unit, 'h) plug" where
  "scaffold_destroy inst = delete_instance_object inst"

definition scaffold_set_option :: "nat option \<Rightarrow> cstr \<Rightarrow> cstr \<Rightarrow> (olnk_status, 'h) plug" where
  "scaffold_set_option inst key val =
     (case (inst, key, val) of
        (Some _, Some k, Some v) \<Rightarrow>
          mseq pmay_throw
            (if k = ''logical_name''
             then mseq pmay_throw (mbind (get_stub inst) (\<lambda>s. mseq (put_instance inst (Stub (s\<lparr>si_logical_name := v\<rparr>)))
                    (mret OLNK_STATUS_OK)))
             else if k = ''content''
             then mseq pmay_throw (mbind (get_stub inst) (\<lambda>s. mseq (put_instance inst (Stub (s\<lparr>si_content := v\<rparr>)))
                    (mret OLNK_STATUS_OK)))
             else mret OLNK_STATUS_NOT_IMPLEMENTED)
      | _ \<Rightarrow> mret OLNK_STATUS_INVALID_ARGUMENT)"

definition scaffold_hook :: "nat option \<Rightarrow> 'h pworld olnk_plugin_context option \<Rightarrow> (olnk_status, 'h) plug" where
  "scaffold_hook inst ctx = mret OLNK_STATUS_OK"

definition host_emit_file ::
    "'h pworld olnk_plugin_context option \<Rightarrow> (nat option \<Rightarrow> cstr \<Rightarrow> string \<Rightarrow> (olnk_status, 'h) plug) option" where
  "host_emit_file ctx = Option.bind ctx (\<lambda>c. Option.bind (pc_host c) ph_emit_file)"

definition scaffold_after ::
    "nat option \<Rightarrow> 'h pworld olnk_plugin_context option \<Rightarrow> nat option \<Rightarrow> (olnk_status, 'h) plug" where
  "scaffold_after inst ctx res =
     (case (inst, host_emit_file ctx) of
        (Some _, Some emit_file) \<Rightarrow>
          mbind (get_stub inst) (\<lambda>state.
            if si_logical_name state = [] then mret OLNK_STATUS_INVALID_ARGUMENT
            else emit_file (map_option pc_address ctx) (Some (c_str (si_logical_name state))) (si_content state))
      | _ \<Rightarrow> mret OLNK_STATUS_INVALID_ARGUMENT)"

definition scaffold_on_event ::
    "nat option \<Rightarrow> 'h pworld olnk_plugin_context option \<Rightarrow> olnk_plugin_event \<Rightarrow> string option \<Rightarrow> (olnk_status, 'h) plug" where
  "scaffold_on_event inst ctx event event_data = mret OLNK_STATUS_OK"

definition builtin_descriptor :: "string \<Rightarrow> string \<Rightarrow> olnk_plugin_kind \<Rightarrow> olnk_plugin_capability \<Rightarrow> olnk_plugin_descriptor" where
  "builtin_descriptor name description kind capability =
     \<lparr>pd_abi_version = OLNK_PLUGIN_ABI_VERSION, pd_struct_size = 104, pd_name = Some name,
      pd_description = Some description, pd_author = Some ''olnk'', pd_license = Some ''MIT'',
      pd_version_major = 0, pd_version_minor = 1, pd_version_patch = 0, pd_kind = kind,
      pd_capabilities = olnk_plugin_capability_bits capability, pd_min_host_api_version = 0,
      pd_max_host_api_version = 0xFFFFFFFF, pd_homepage = None, pd_repository = None, pd_reserved_0 = None,
      pd_reserved_1 = None\<rparr>"

definition builtin_query :: "olnk_plugin_descriptor \<Rightarrow> 'w olnk_plugin_vtable \<Rightarrow> 'w olnk_plugin_query_result" where
  "builtin_query kDesc kVtable =
     \<lparr>pq_abi_version = OLNK_PLUGIN_ABI_VERSION, pq_struct_size = 48, pq_descriptor = Some kDesc,
      pq_vtable = Some kVtable, pq_module_data = None, pq_reserved_0 = None, pq_reserved_1 = None\<rparr>"

definition scaffold_vtable ::
    "(olnk_plugin_descriptor option \<Rightarrow> nat option option \<Rightarrow> (olnk_status \<times> nat option option, 'h) plug)
     \<Rightarrow> 'h pworld olnk_plugin_vtable" where
  "scaffold_vtable create =
     \<lparr>pv_abi_version = OLNK_PLUGIN_ABI_VERSION, pv_struct_size = 104, pv_create = Some create,
      pv_destroy = Some scaffold_destroy, pv_set_option = Some scaffold_set_option,
      pv_initialize = Some scaffold_hook, pv_before_link = Some scaffold_hook, pv_after_link = Some scaffold_after,
      pv_finalize = Some scaffold_hook, pv_on_event = Some scaffold_on_event, pv_reserved = [None, None, None, None]\<rparr>"

definition dump_symtbl_create ::
    "olnk_plugin_descriptor option \<Rightarrow> nat option option \<Rightarrow> (olnk_status \<times> nat option option, 'h) plug" where
  "dump_symtbl_create = scaffold_create ''symbols.map.txt''
     (''# dump-symtbl'' @ [CHR 0x0A])"

definition dump_symtbl_query :: "'h pworld olnk_plugin_query_result" where
  "dump_symtbl_query = builtin_query
     (builtin_descriptor ''dump-symtbl'' ''Dump symbol table report'' OLNK_PLUGIN_KIND_DIAGNOSTIC OLNK_PLUGIN_CAPABILITY_WRITE_OUTPUT_AUX)
     (scaffold_vtable dump_symtbl_create)"

definition dwarf_embeddings_create ::
    "olnk_plugin_descriptor option \<Rightarrow> nat option option \<Rightarrow> (olnk_status \<times> nat option option, 'h) plug" where
  "dwarf_embeddings_create = scaffold_create ''dwarf.sidecar.txt''
     (''# dwarf-embeddings'' @ [CHR 0x0A])"

definition dwarf_embeddings_query :: "'h pworld olnk_plugin_query_result" where
  "dwarf_embeddings_query = builtin_query
     (builtin_descriptor ''dwarf-embeddings'' ''Emit DWARF sidecar scaffold'' OLNK_PLUGIN_KIND_OUTPUT OLNK_PLUGIN_CAPABILITY_WRITE_OUTPUT_AUX)
     (scaffold_vtable dwarf_embeddings_create)"

definition identical_code_folding_create ::
    "olnk_plugin_descriptor option \<Rightarrow> nat option option \<Rightarrow> (olnk_status \<times> nat option option, 'h) plug" where
  "identical_code_folding_create = scaffold_create ''icf-report.txt''
     (''# identical-code-folding'' @ [CHR 0x0A])"

definition identical_code_folding_query :: "'h pworld olnk_plugin_query_result" where
  "identical_code_folding_query = builtin_query
     (builtin_descriptor ''identical-code-folding'' ''ICF analysis scaffold'' OLNK_PLUGIN_KIND_TRANSFORM OLNK_PLUGIN_CAPABILITY_READ_IR)
     (scaffold_vtable identical_code_folding_create)"

definition linker_map_generation_create ::
    "olnk_plugin_descriptor option \<Rightarrow> nat option option \<Rightarrow> (olnk_status \<times> nat option option, 'h) plug" where
  "linker_map_generation_create = scaffold_create ''linker.map''
     (''# linker-map-generation'' @ [CHR 0x0A])"

definition linker_map_generation_query :: "'h pworld olnk_plugin_query_result" where
  "linker_map_generation_query = builtin_query
     (builtin_descriptor ''linker-map-generation'' ''Generate linker map scaffold'' OLNK_PLUGIN_KIND_OUTPUT OLNK_PLUGIN_CAPABILITY_WRITE_OUTPUT_AUX)
     (scaffold_vtable linker_map_generation_create)"

definition visualization_create ::
    "olnk_plugin_descriptor option \<Rightarrow> nat option option \<Rightarrow> (olnk_status \<times> nat option option, 'h) plug" where
  "visualization_create = scaffold_create ''visualization.json''
     (''{'' @ [CHR 0x0A] @ ''  '' @ [CHR 0x22] @ ''plugin'' @ [CHR 0x22] @ '': '' @ [CHR 0x22] @ ''visualization'' @ [CHR 0x22] @
       [CHR 0x0A] @ ''}'' @ [CHR 0x0A])"

definition visualization_query :: "'h pworld olnk_plugin_query_result" where
  "visualization_query = builtin_query
     (builtin_descriptor ''visualization'' ''Emit visualization scaffold'' OLNK_PLUGIN_KIND_DIAGNOSTIC OLNK_PLUGIN_CAPABILITY_WRITE_OUTPUT_AUX)
     (scaffold_vtable visualization_create)"

section \<open>\<open>append-stub.cpp\<close>\<close>

text \<open>The member initialisers may throw; the exception leaves \<open>create\<close> and the storage is released.\<close>

definition append_create ::
    "olnk_plugin_descriptor option \<Rightarrow> nat option option \<Rightarrow> (olnk_status \<times> nat option option, 'h) plug" where
  "append_create descriptor out =
     (if out = None then mret (OLNK_STATUS_INVALID_ARGUMENT, out)
      else mbind (new_nothrow (Append \<lparr>as_logical_name = ''append-stub.txt'',
             as_marker = ''/* OLNK STUB */'' @ [CHR 0x0A], as_body = []\<rparr>)) (\<lambda>inst.
        if inst = None then mret (OLNK_STATUS_OUT_OF_MEMORY, out)
        else mtry (mseq pmay_throw (mseq pmay_throw (mret (OLNK_STATUS_OK, Some inst))))
               (\<lambda>e. mseq (delete_instance_object inst) (mthrow e))))"

definition append_destroy :: "nat option \<Rightarrow> (unit, 'h) plug" where
  "append_destroy inst = delete_instance_object inst"

definition append_set_option :: "nat option \<Rightarrow> cstr \<Rightarrow> cstr \<Rightarrow> (olnk_status, 'h) plug" where
  "append_set_option inst key val =
     (case (inst, key, val) of
        (Some _, Some k, Some v) \<Rightarrow>
          mseq pmay_throw
            (if k = ''logical_name''
             then mseq pmay_throw (mbind (get_append inst) (\<lambda>s. mseq (put_instance inst (Append (s\<lparr>as_logical_name := v\<rparr>)))
                    (mret OLNK_STATUS_OK)))
             else if k = ''marker''
             then mseq pmay_throw (mbind (get_append inst) (\<lambda>s. mseq (put_instance inst (Append (s\<lparr>as_marker := v\<rparr>)))
                    (mret OLNK_STATUS_OK)))
             else if k = ''body''
             then mseq pmay_throw (mbind (get_append inst) (\<lambda>s. mseq (put_instance inst (Append (s\<lparr>as_body := v\<rparr>)))
                    (mret OLNK_STATUS_OK)))
             else mret OLNK_STATUS_NOT_IMPLEMENTED)
      | _ \<Rightarrow> mret OLNK_STATUS_INVALID_ARGUMENT)"

definition append_hook :: "nat option \<Rightarrow> 'h pworld olnk_plugin_context option \<Rightarrow> (olnk_status, 'h) plug" where
  "append_hook inst ctx = mret OLNK_STATUS_OK"

definition append_after ::
    "nat option \<Rightarrow> 'h pworld olnk_plugin_context option \<Rightarrow> nat option \<Rightarrow> (olnk_status, 'h) plug" where
  "append_after inst ctx res =
     (case (inst, host_emit_file ctx) of
        (Some _, Some emit_file) \<Rightarrow>
          mbind (get_append inst) (\<lambda>state. mseq pmay_throw
            (let payload = as_marker state @ as_body state
             in emit_file (map_option pc_address ctx) (Some (c_str (as_logical_name state))) payload))
      | _ \<Rightarrow> mret OLNK_STATUS_INVALID_ARGUMENT)"

definition append_on_event ::
    "nat option \<Rightarrow> 'h pworld olnk_plugin_context option \<Rightarrow> olnk_plugin_event \<Rightarrow> string option \<Rightarrow> (olnk_status, 'h) plug" where
  "append_on_event inst ctx event event_data = mret OLNK_STATUS_OK"

definition append_vtable :: "'h pworld olnk_plugin_vtable" where
  "append_vtable =
     \<lparr>pv_abi_version = OLNK_PLUGIN_ABI_VERSION, pv_struct_size = 104, pv_create = Some append_create,
      pv_destroy = Some append_destroy, pv_set_option = Some append_set_option,
      pv_initialize = Some append_hook, pv_before_link = Some append_hook, pv_after_link = Some append_after,
      pv_finalize = Some append_hook, pv_on_event = Some append_on_event, pv_reserved = [None, None, None, None]\<rparr>"

definition append_stub_query :: "'h pworld olnk_plugin_query_result" where
  "append_stub_query = builtin_query
     (builtin_descriptor ''append-stub'' ''Emit conservative marker payload (marker prepended)''
        OLNK_PLUGIN_KIND_OUTPUT OLNK_PLUGIN_CAPABILITY_WRITE_OUTPUT_AUX)
     append_vtable"

section \<open>Loading modules (\<open>plugin.cpp\<close>)\<close>

text \<open>The dynamic loader: what \<open>getenv\<close>, \<open>dlopen\<close> and \<open>dlsym\<close> answer; a module's entry point returns the
  address of a query object or null.\<close>

record 'w dl_env =
  dl_getenv :: "string \<Rightarrow> cstr"
  dl_open :: "string \<Rightarrow> nat option"
  dl_sym :: "nat \<Rightarrow> string \<Rightarrow> 'w olnk_plugin_query_result option option"

record 'w loaded_plugin_module =
  lm_handle :: "nat option"
  lm_query :: "'w olnk_plugin_query_result option"

definition dlopen :: "'h pworld dl_env \<Rightarrow> string \<Rightarrow> (nat option, 'h) plug" where
  "dlopen env path =
     (case dl_open env path of None \<Rightarrow> mret None
      | Some h \<Rightarrow> mseq (mupd (\<lambda>w. w\<lparr>pw_open := (pw_open w)(h := Suc (pw_open w h))\<rparr>)) (mret (Some h)))"

definition dlclose :: "nat \<Rightarrow> (unit, 'h) plug" where
  "dlclose h = mupd (\<lambda>w. w\<lparr>pw_open := (pw_open w)(h := pw_open w h - 1)\<rparr>)"

definition kNames :: "string list" where
  "kNames = [''append-stub.so'', ''dump-symtbl.so'', ''dwarf-embeddings.so'', ''identical-code-folding.so'',
     ''linker-map-generation.so'', ''visualization.so'']"

primrec load_modules :: "'h pworld dl_env \<Rightarrow> string \<Rightarrow> string list \<Rightarrow> 'h pworld loaded_plugin_module list
     \<Rightarrow> ('h pworld loaded_plugin_module list, 'h) plug" where
  "load_modules env root [] loaded = mret loaded"
| "load_modules env root (name # names) loaded =
     mseq pmay_throw (mbind (dlopen env (root @ ''/'' @ name)) (\<lambda>h.
       case h of None \<Rightarrow> load_modules env root names loaded
       | Some hnd \<Rightarrow>
          (case dl_sym env hnd OLNK_PLUGIN_ENTRYPOINT_NAME of
             None \<Rightarrow> mseq (dlclose hnd) (load_modules env root names loaded)
           | Some q \<Rightarrow>
               if \<not> validate_query_result q then mseq (dlclose hnd) (load_modules env root names loaded)
               else mseq pmay_throw (load_modules env root names (loaded @ [\<lparr>lm_handle = h, lm_query = q\<rparr>])))))"

definition load_builtin_modules_from_env :: "'h pworld dl_env \<Rightarrow> ('h pworld loaded_plugin_module list, 'h) plug" where
  "load_builtin_modules_from_env env =
     mnoexcept (let root = (case dl_getenv env ''OLNK_PLUGIN_DIR'' of None \<Rightarrow> ''.'' | Some r \<Rightarrow> if r = [] then ''.'' else r)
                in load_modules env root kNames [])"

definition unload_modules :: "'h pworld loaded_plugin_module list \<Rightarrow> ('h pworld loaded_plugin_module list, 'h) plug" where
  "unload_modules loaded =
     mseq (mfold (\<lambda>m. case lm_handle m of None \<Rightarrow> mret () | Some h \<Rightarrow> dlclose h) loaded) (mret [])"

section \<open>Null pointers\<close>

lemma validate_query_result_Some:
  assumes "validate_query_result query"
  obtains q d v c f where "query = Some q" "pq_descriptor q = Some d" "pq_vtable q = Some v" "pv_create v = Some c" "pv_destroy v = Some f"
  using assms by (auto simp: validate_query_result_def validate_vtable_def validate_descriptor_def split: option.splits if_splits)

text \<open>No callback of the table runs into undefined behaviour.\<close>

definition callbacks_safe :: "'w olnk_plugin_vtable \<Rightarrow> bool" where
  "callbacks_safe v \<longleftrightarrow>
     (\<forall>f d o1 w. pv_create v = Some f \<longrightarrow> f d o1 w \<noteq> Fault UndefinedBehaviour) \<and>
     (\<forall>f i w. pv_destroy v = Some f \<longrightarrow> f i w \<noteq> Fault UndefinedBehaviour) \<and>
     (\<forall>f i k x w. pv_set_option v = Some f \<longrightarrow> f i k x w \<noteq> Fault UndefinedBehaviour) \<and>
     (\<forall>f i c w. f \<in> {pv_initialize v, pv_before_link v, pv_finalize v} \<longrightarrow> (\<forall>g. f = Some g \<longrightarrow> g i c w \<noteq> Fault UndefinedBehaviour)) \<and>
     (\<forall>f i c r w. pv_after_link v = Some f \<longrightarrow> f i c r w \<noteq> Fault UndefinedBehaviour) \<and>
     (\<forall>f i c e d w. pv_on_event v = Some f \<longrightarrow> f i c e d w \<noteq> Fault UndefinedBehaviour)"

lemma mnoexcept_UB: "mnoexcept m w = Fault UndefinedBehaviour \<longleftrightarrow> m w = Fault UndefinedBehaviour"
  by (simp add: run_defs split: outcome.split)

lemmas wrapper_defs = create_instance_def destroy_instance_def set_option_plugin_def initialize_plugin_def before_link_def
  after_link_def finalize_plugin_def on_event_plugin_def
lemmas call_defs = call_set_option_def call_initialize_def call_before_link_def call_after_link_def call_finalize_def
  call_on_event_def call_destroy_def

section \<open>Running a plugin\<close>

text \<open>The lifecycle of \<open>olnk-plugin.h\<close>: create, configure, the hooks, destroy.\<close>

primrec set_options ::
    "'w olnk_plugin_query_result option \<Rightarrow> nat option \<Rightarrow> (string \<times> string) list \<Rightarrow> (olnk_status list, 'w) prog" where
  "set_options query inst [] = mret []"
| "set_options query inst (kv # opts) =
     mbind (set_option_plugin query inst (Some (fst kv)) (Some (snd kv))) (\<lambda>st.
       mbind (set_options query inst opts) (\<lambda>sts. mret (st # sts)))"

definition plugin_session ::
    "'w olnk_plugin_query_result option \<Rightarrow> (string \<times> string) list \<Rightarrow> 'w olnk_plugin_context option \<Rightarrow> nat option
     \<Rightarrow> (olnk_status list, 'w) prog" where
  "plugin_session query opts ctx res =
     mbind (create_instance query (Some None)) (\<lambda>(st, out).
       if st \<noteq> OLNK_STATUS_OK then mret [st]
       else let inst = the out in
         mbind (set_options query inst opts) (\<lambda>sts.
         mbind (initialize_plugin query inst ctx) (\<lambda>a.
         mbind (before_link query inst ctx) (\<lambda>b.
         mbind (after_link query inst ctx res) (\<lambda>c.
         mbind (finalize_plugin query inst ctx) (\<lambda>d.
         mseq (destroy_instance query inst) (mret (st # sts @ [a, b, c, d]))))))))"

text \<open>No allocation fails.\<close>

definition quiet :: "'h pworld \<Rightarrow> bool" where
  "quiet w \<longleftrightarrow> (\<forall>n. pw_alloc w n = None)"

lemma quiet_simps [simp]:
  "quiet (w\<lparr>pw_tick := t\<rparr>) = quiet w" "quiet (w\<lparr>pw_next := n\<rparr>) = quiet w" "quiet (w\<lparr>pw_instances := i\<rparr>) = quiet w"
  "quiet (w\<lparr>pw_open := p\<rparr>) = quiet w" "quiet (w\<lparr>pw_host := h\<rparr>) = quiet w"
  by (simp_all add: quiet_def)

lemma pmay_throw_quiet: "quiet w \<Longrightarrow> pmay_throw w = Ret () (w\<lparr>pw_tick := Suc (pw_tick w)\<rparr>)"
  by (simp add: pmay_throw_def run_defs quiet_def)

text \<open>The statuses and the final state of a list of options.\<close>

primrec configure :: "(string \<Rightarrow> string \<Rightarrow> 's \<Rightarrow> 's option) \<Rightarrow> (string \<times> string) list \<Rightarrow> 's \<Rightarrow> olnk_status list \<times> 's" where
  "configure opt [] s = ([], s)"
| "configure opt (kv # opts) s =
     (case opt (fst kv) (snd kv) s of
        None \<Rightarrow> (case configure opt opts s of (sts, s') \<Rightarrow> (OLNK_STATUS_NOT_IMPLEMENTED # sts, s'))
      | Some s1 \<Rightarrow> (case configure opt opts s1 of (sts, s') \<Rightarrow> (OLNK_STATUS_OK # sts, s')))"

text \<open>What a shipped plugin promises: a state that the options it knows change and that determines the one
  file it emits, all through its own instance.\<close>

text \<open>What a host makes of an artefact that is emitted, and what a plugin answers when there is none.\<close>

definition emit_status :: "(nat option \<Rightarrow> cstr \<Rightarrow> string \<Rightarrow> olnk_status) \<Rightarrow> 'w olnk_plugin_context \<Rightarrow> (string \<times> string) option \<Rightarrow> olnk_status" where
  "emit_status est c art = (case art of None \<Rightarrow> OLNK_STATUS_INVALID_ARGUMENT | Some (name, payload) \<Rightarrow> est (Some (pc_address c)) (Some name) payload)"

definition emit_effect :: "(cstr \<Rightarrow> string \<Rightarrow> 'h \<Rightarrow> 'h) \<Rightarrow> (string \<times> string) option \<Rightarrow> 'h \<Rightarrow> 'h" where
  "emit_effect upd art h = (case art of None \<Rightarrow> h | Some (name, payload) \<Rightarrow> upd (Some name) payload h)"

locale plugin_contract =
  fixes query :: "'h pworld olnk_plugin_query_result"
    and obj :: "'s \<Rightarrow> instance_object"
    and init :: 's
    and opt :: "string \<Rightarrow> string \<Rightarrow> 's \<Rightarrow> 's option"
    and artefact :: "'s \<Rightarrow> (string \<times> string) option"
  assumes create: "quiet w \<Longrightarrow> \<exists>t. create_instance (Some query) (Some None) w =
      Ret (OLNK_STATUS_OK, Some (Some (pw_next w)))
        (w\<lparr>pw_tick := t, pw_next := Suc (pw_next w), pw_instances := (pw_instances w)(pw_next w \<mapsto> obj init)\<rparr>)"
    and set_option: "quiet w \<Longrightarrow> pw_instances w a = Some (obj s) \<Longrightarrow>
      \<exists>t. set_option_plugin (Some query) (Some a) (Some k) (Some v) w =
        (case opt k v s of
           None \<Rightarrow> Ret OLNK_STATUS_NOT_IMPLEMENTED (w\<lparr>pw_tick := t\<rparr>)
         | Some s' \<Rightarrow> Ret OLNK_STATUS_OK (w\<lparr>pw_tick := t, pw_instances := (pw_instances w)(a \<mapsto> obj s')\<rparr>))"
    and hooks: "initialize_plugin (Some query) inst ctx w = Ret OLNK_STATUS_OK w"
      "before_link (Some query) inst ctx w = Ret OLNK_STATUS_OK w"
      "finalize_plugin (Some query) inst ctx w = Ret OLNK_STATUS_OK w"
    and after: "quiet w \<Longrightarrow> pw_instances w a = Some (obj s) \<Longrightarrow> host_emit_file (Some c) = Some e \<Longrightarrow>
      \<exists>t. after_link (Some query) (Some a) (Some c) res w =
        (case artefact s of
           None \<Rightarrow> Ret OLNK_STATUS_INVALID_ARGUMENT (w\<lparr>pw_tick := t\<rparr>)
         | Some (name, payload) \<Rightarrow> mnoexcept (e (Some (pc_address c)) (Some name) payload) (w\<lparr>pw_tick := t\<rparr>))"
    and destroy: "pw_instances w a = Some (obj s) \<Longrightarrow>
      destroy_instance (Some query) (Some a) w = Ret () (w\<lparr>pw_instances := (pw_instances w)(a := None)\<rparr>)"
begin

lemma set_options_configure:
  assumes "quiet w" "pw_instances w a = Some (obj s)"
  shows "\<exists>t. set_options (Some query) (Some a) opts w =
    (case configure opt opts s of (sts, s') \<Rightarrow> Ret sts (w\<lparr>pw_tick := t, pw_instances := (pw_instances w)(a \<mapsto> obj s')\<rparr>))"
  using assms
proof (induction opts arbitrary: w s)
  case Nil
  then have "w\<lparr>pw_tick := pw_tick w, pw_instances := (pw_instances w)(a \<mapsto> obj s)\<rparr> = w" by (simp add: map_upd_triv)
  then show ?case by (intro exI [of _ "pw_tick w"]) (simp add: mret_def del: fun_upd_apply)
next
  case (Cons kv opts)
  obtain k v where kv: "kv = (k, v)" by fastforce
  obtain t where t: "set_option_plugin (Some query) (Some a) (Some k) (Some v) w =
      (case opt k v s of
         None \<Rightarrow> Ret OLNK_STATUS_NOT_IMPLEMENTED (w\<lparr>pw_tick := t\<rparr>)
       | Some s' \<Rightarrow> Ret OLNK_STATUS_OK (w\<lparr>pw_tick := t, pw_instances := (pw_instances w)(a \<mapsto> obj s')\<rparr>))"
    using set_option [OF Cons.prems] by blast
  show ?case
  proof (cases "opt k v s")
    case None
    obtain t' where "set_options (Some query) (Some a) opts (w\<lparr>pw_tick := t\<rparr>) =
        (case configure opt opts s of (sts, s') \<Rightarrow> Ret sts (w\<lparr>pw_tick := t', pw_instances := (pw_instances w)(a \<mapsto> obj s')\<rparr>))"
      using Cons.IH [of "w\<lparr>pw_tick := t\<rparr>" s] Cons.prems by (auto simp del: fun_upd_apply)
    then show ?thesis using t None by (auto simp: kv mbind_def mret_def split: prod.split simp del: fun_upd_apply)
  next
    case (Some s1)
    let ?w = "w\<lparr>pw_tick := t, pw_instances := (pw_instances w)(a \<mapsto> obj s1)\<rparr>"
    obtain t' where "set_options (Some query) (Some a) opts ?w =
        (case configure opt opts s1 of (sts, s') \<Rightarrow> Ret sts (w\<lparr>pw_tick := t', pw_instances := (pw_instances w)(a \<mapsto> obj s')\<rparr>))"
      using Cons.IH [of ?w s1] Cons.prems by (auto simp del: fun_upd_apply simp: fun_upd_same)
    then show ?thesis using t Some by (auto simp: kv mbind_def mret_def split: prod.split simp del: fun_upd_apply)
  qed
qed

text \<open>A session emits the artefact of the configured state exactly once, or nothing if there is none, and leaves no instance behind.\<close>

lemma session:
  assumes w: "quiet w" "pw_instances w (pw_next w) = None" and e: "host_emit_file (Some c) = Some e"
    and frame: "\<And>a n d w. e a n d w = Ret (est a n d) (w\<lparr>pw_host := upd n d (pw_host w)\<rparr>)"
    and conf: "configure opt opts init = (sts, s)"
  shows "\<exists>t. plugin_session (Some query) opts (Some c) res w =
    Ret (OLNK_STATUS_OK # sts @ [OLNK_STATUS_OK, OLNK_STATUS_OK, emit_status est c (artefact s), OLNK_STATUS_OK])
      (w\<lparr>pw_tick := t, pw_next := Suc (pw_next w), pw_host := emit_effect upd (artefact s) (pw_host w)\<rparr>)"
proof -
  let ?a = "pw_next w"
  obtain t1 where t1: "create_instance (Some query) (Some None) w = Ret (OLNK_STATUS_OK, Some (Some ?a))
      (w\<lparr>pw_tick := t1, pw_next := Suc ?a, pw_instances := (pw_instances w)(?a \<mapsto> obj init)\<rparr>)"
    using create [OF w(1)] by blast
  let ?w1 = "w\<lparr>pw_tick := t1, pw_next := Suc ?a, pw_instances := (pw_instances w)(?a \<mapsto> obj init)\<rparr>"
  have i1: "quiet ?w1" "pw_instances ?w1 ?a = Some (obj init)" using w by simp_all
  obtain t2 where t2: "set_options (Some query) (Some ?a) opts ?w1 =
      Ret sts (?w1\<lparr>pw_tick := t2, pw_instances := (pw_instances ?w1)(?a \<mapsto> obj s)\<rparr>)"
    using set_options_configure [OF i1, of opts] conf by auto
  let ?w2 = "w\<lparr>pw_tick := t2, pw_next := Suc ?a, pw_instances := (pw_instances w)(?a \<mapsto> obj s)\<rparr>"
  have t2': "set_options (Some query) (Some ?a) opts ?w1 = Ret sts ?w2" using t2 by (simp del: fun_upd_apply)
  have i2: "quiet ?w2" "pw_instances ?w2 ?a = Some (obj s)" using w by simp_all
  let ?host = "emit_effect upd (artefact s) (pw_host w)"
  obtain t3 where t3: "after_link (Some query) (Some ?a) (Some c) res ?w2 =
      Ret (emit_status est c (artefact s)) (?w2\<lparr>pw_tick := t3, pw_host := ?host\<rparr>)"
    using after [OF i2 e, of res] by (cases "artefact s") (auto simp: frame emit_status_def emit_effect_def mnoexcept_def mtry_def simp del: fun_upd_apply)
  let ?w3 = "?w2\<lparr>pw_tick := t3, pw_host := ?host\<rparr>"
  have "pw_instances ?w3 ?a = Some (obj s)" by simp
  from destroy [OF this] have d: "destroy_instance (Some query) (Some ?a) ?w3 =
      Ret () (w\<lparr>pw_tick := t3, pw_next := Suc ?a, pw_host := ?host\<rparr>)"
    using w(2) by (simp del: fun_upd_apply add: fun_upd_idem)
  show ?thesis
    using t1 t2' t3 d by (auto simp: plugin_session_def mbind_def mseq_def mret_def hooks Let_def simp del: fun_upd_apply)
qed

end

section \<open>The shipped plugins\<close>

definition stub_option :: "string \<Rightarrow> string \<Rightarrow> StubInstance \<Rightarrow> StubInstance option" where
  "stub_option k v s =
     (if k = ''logical_name'' then Some (s\<lparr>si_logical_name := v\<rparr>)
      else if k = ''content'' then Some (s\<lparr>si_content := v\<rparr>) else None)"

definition stub_artefact :: "StubInstance \<Rightarrow> (string \<times> string) option" where
  "stub_artefact s = (if si_logical_name s = [] then None else Some (c_str (si_logical_name s), si_content s))"

definition append_option :: "string \<Rightarrow> string \<Rightarrow> AppendStubInstance \<Rightarrow> AppendStubInstance option" where
  "append_option k v s =
     (if k = ''logical_name'' then Some (s\<lparr>as_logical_name := v\<rparr>)
      else if k = ''marker'' then Some (s\<lparr>as_marker := v\<rparr>)
      else if k = ''body'' then Some (s\<lparr>as_body := v\<rparr>) else None)"

definition append_artefact :: "AppendStubInstance \<Rightarrow> (string \<times> string) option" where
  "append_artefact s = Some (c_str (as_logical_name s), as_marker s @ as_body s)"

definition scaffold_query :: "string \<Rightarrow> string \<Rightarrow> olnk_plugin_descriptor \<Rightarrow> 'h pworld olnk_plugin_query_result" where
  "scaffold_query name content kDesc = builtin_query kDesc (scaffold_vtable (scaffold_create name content))"

lemmas validate_defs = validate_query_result_def validate_vtable_def validate_descriptor_def is_same_abi_def
  has_min_struct_size_def k_query_min_size_def k_desc_min_size_def k_vtable_min_size_def valid_cstr_def builtin_query_def

lemma scaffold_valid: "validate_descriptor (Some d) \<Longrightarrow> validate_query_result (Some (scaffold_query n c d))"
  by (simp add: validate_defs scaffold_query_def scaffold_vtable_def)

lemmas plugin_run = run_defs pmay_throw_quiet get_stub_def get_append_def put_instance_def delete_instance_object_def new_nothrow_def deref_def

lemma scaffold_contract:
  fixes d :: olnk_plugin_descriptor
  assumes "validate_descriptor (Some d)"
  shows "plugin_contract (scaffold_query n c d :: 'h pworld olnk_plugin_query_result) Stub \<lparr>si_logical_name = n, si_content = c\<rparr>
    stub_option stub_artefact"
proof
  let ?q = "scaffold_query n c d :: 'h pworld olnk_plugin_query_result"
  note valid = scaffold_valid [OF assms, of n c]
  have vt: "pq_vtable ?q = Some (scaffold_vtable (scaffold_create n c))"
    by (simp add: scaffold_query_def builtin_query_def)
  have sel: "pv_create (scaffold_vtable f) = Some f" "pv_destroy (scaffold_vtable f) = Some scaffold_destroy"
      "pv_set_option (scaffold_vtable f) = Some scaffold_set_option" "pv_initialize (scaffold_vtable f) = Some scaffold_hook"
      "pv_before_link (scaffold_vtable f) = Some scaffold_hook" "pv_after_link (scaffold_vtable f) = Some scaffold_after"
      "pv_finalize (scaffold_vtable f) = Some scaffold_hook"
    for f :: "olnk_plugin_descriptor option \<Rightarrow> nat option option \<Rightarrow> (olnk_status \<times> nat option option, 'h) plug"
    by (simp_all add: scaffold_vtable_def)
  note defs = wrapper_defs call_defs valid vt sel plugin_run
  fix w :: "'h pworld" and a s k v inst res and ctx :: "'h pworld olnk_plugin_context option" and cx e
  show "\<exists>t. create_instance (Some ?q) (Some None) w =
      Ret (OLNK_STATUS_OK, Some (Some (pw_next w))) (w\<lparr>pw_tick := t, pw_next := Suc (pw_next w),
        pw_instances := (pw_instances w)(pw_next w \<mapsto> Stub \<lparr>si_logical_name = n, si_content = c\<rparr>)\<rparr>)"
    if "quiet w"
    using that by (intro exI [of _ "pw_tick w + 3"]) (simp add: defs scaffold_create_def)
  show "initialize_plugin (Some ?q) inst ctx w = Ret OLNK_STATUS_OK w"
      "before_link (Some ?q) inst ctx w = Ret OLNK_STATUS_OK w"
      "finalize_plugin (Some ?q) inst ctx w = Ret OLNK_STATUS_OK w"
    by (simp_all add: defs scaffold_hook_def)
  assume obj: "pw_instances w a = Some (Stub s)"
  show "destroy_instance (Some ?q) (Some a) w = Ret () (w\<lparr>pw_instances := (pw_instances w)(a := None)\<rparr>)"
    using obj by (simp add: defs scaffold_destroy_def)
  show "\<exists>t. set_option_plugin (Some ?q) (Some a) (Some k) (Some v) w =
        (case stub_option k v s of
           None \<Rightarrow> Ret OLNK_STATUS_NOT_IMPLEMENTED (w\<lparr>pw_tick := t\<rparr>)
         | Some s' \<Rightarrow> Ret OLNK_STATUS_OK (w\<lparr>pw_tick := t, pw_instances := (pw_instances w)(a \<mapsto> Stub s')\<rparr>))"
    if "quiet w"
    using that obj
    by (intro exI [of _ "pw_tick w + (if k \<in> {''logical_name'', ''content''} then 2 else 1)"])
      (simp add: defs scaffold_set_option_def stub_option_def)
  show "\<exists>t. after_link (Some ?q) (Some a) (Some cx) res w =
        (case stub_artefact s of
           None \<Rightarrow> Ret OLNK_STATUS_INVALID_ARGUMENT (w\<lparr>pw_tick := t\<rparr>)
         | Some (name, payload) \<Rightarrow> mnoexcept (e (Some (pc_address cx)) (Some name) payload) (w\<lparr>pw_tick := t\<rparr>))"
    if "quiet w" "host_emit_file (Some cx) = Some e"
    using that obj by (intro exI [of _ "pw_tick w"]) (simp add: defs scaffold_after_def stub_artefact_def)
qed

lemma append_valid: "validate_query_result (Some (append_stub_query :: 'h pworld olnk_plugin_query_result))"
  by (simp add: validate_defs append_stub_query_def append_vtable_def builtin_descriptor_def)

lemma builtin_valid:
  "(\<forall>n. kind \<noteq> OLNK_PLUGIN_KIND_RAW n) \<Longrightarrow> validate_descriptor (Some (builtin_descriptor name text kind cap))"
  by (cases kind) (simp_all add: validate_defs builtin_descriptor_def)

lemma append_contract:
  "plugin_contract (append_stub_query :: 'h pworld olnk_plugin_query_result) Append
     \<lparr>as_logical_name = ''append-stub.txt'', as_marker = ''/* OLNK STUB */'' @ [CHR 0x0A], as_body = []\<rparr>
     append_option append_artefact"
proof
  let ?q = "append_stub_query :: 'h pworld olnk_plugin_query_result"
  have vt: "pq_vtable ?q = Some append_vtable" by (simp add: append_stub_query_def builtin_query_def)
  note defs = wrapper_defs call_defs append_valid vt append_vtable_def plugin_run
  fix w :: "'h pworld" and a s k v inst res and ctx :: "'h pworld olnk_plugin_context option" and cx e
  show "\<exists>t. create_instance (Some ?q) (Some None) w =
      Ret (OLNK_STATUS_OK, Some (Some (pw_next w))) (w\<lparr>pw_tick := t, pw_next := Suc (pw_next w),
        pw_instances := (pw_instances w)(pw_next w \<mapsto> Append \<lparr>as_logical_name = ''append-stub.txt'',
          as_marker = ''/* OLNK STUB */'' @ [CHR 0x0A], as_body = []\<rparr>)\<rparr>)"
    if "quiet w"
    using that by (intro exI [of _ "pw_tick w + 3"]) (simp add: defs append_create_def)
  show "initialize_plugin (Some ?q) inst ctx w = Ret OLNK_STATUS_OK w"
      "before_link (Some ?q) inst ctx w = Ret OLNK_STATUS_OK w"
      "finalize_plugin (Some ?q) inst ctx w = Ret OLNK_STATUS_OK w"
    by (simp_all add: defs append_hook_def)
  assume obj: "pw_instances w a = Some (Append s)"
  show "destroy_instance (Some ?q) (Some a) w = Ret () (w\<lparr>pw_instances := (pw_instances w)(a := None)\<rparr>)"
    using obj by (simp add: defs append_destroy_def)
  show "\<exists>t. set_option_plugin (Some ?q) (Some a) (Some k) (Some v) w =
        (case append_option k v s of
           None \<Rightarrow> Ret OLNK_STATUS_NOT_IMPLEMENTED (w\<lparr>pw_tick := t\<rparr>)
         | Some s' \<Rightarrow> Ret OLNK_STATUS_OK (w\<lparr>pw_tick := t, pw_instances := (pw_instances w)(a \<mapsto> Append s')\<rparr>))"
    if "quiet w"
    using that obj
    by (intro exI [of _ "pw_tick w + (if k \<in> {''logical_name'', ''marker'', ''body''} then 2 else 1)"])
      (simp add: defs append_set_option_def append_option_def)
  show "\<exists>t. after_link (Some ?q) (Some a) (Some cx) res w =
        (case append_artefact s of
           None \<Rightarrow> Ret OLNK_STATUS_INVALID_ARGUMENT (w\<lparr>pw_tick := t\<rparr>)
         | Some (name, payload) \<Rightarrow> mnoexcept (e (Some (pc_address cx)) (Some name) payload) (w\<lparr>pw_tick := t\<rparr>))"
    if "quiet w" "host_emit_file (Some cx) = Some e"
    using that obj by (intro exI [of _ "Suc (pw_tick w)"]) (simp add: defs append_after_def append_artefact_def)
qed

interpretation append_stub: plugin_contract append_stub_query Append
  "\<lparr>as_logical_name = ''append-stub.txt'', as_marker = ''/* OLNK STUB */'' @ [CHR 0x0A], as_body = []\<rparr>"
  append_option append_artefact
  by (rule append_contract)

interpretation dump_symtbl: plugin_contract dump_symtbl_query Stub "\<lparr>si_logical_name = ''symbols.map.txt'',
    si_content = ''# dump-symtbl'' @ [CHR 0x0A]\<rparr>" stub_option stub_artefact
  unfolding dump_symtbl_query_def dump_symtbl_create_def scaffold_query_def [symmetric] by (rule scaffold_contract) (simp add: builtin_valid)

interpretation dwarf_embeddings: plugin_contract dwarf_embeddings_query Stub "\<lparr>si_logical_name = ''dwarf.sidecar.txt'',
    si_content = ''# dwarf-embeddings'' @ [CHR 0x0A]\<rparr>" stub_option stub_artefact
  unfolding dwarf_embeddings_query_def dwarf_embeddings_create_def scaffold_query_def [symmetric] by (rule scaffold_contract) (simp add: builtin_valid)

interpretation identical_code_folding: plugin_contract identical_code_folding_query Stub "\<lparr>si_logical_name = ''icf-report.txt'',
    si_content = ''# identical-code-folding'' @ [CHR 0x0A]\<rparr>" stub_option stub_artefact
  unfolding identical_code_folding_query_def identical_code_folding_create_def scaffold_query_def [symmetric] by (rule scaffold_contract) (simp add: builtin_valid)

interpretation linker_map_generation: plugin_contract linker_map_generation_query Stub "\<lparr>si_logical_name = ''linker.map'',
    si_content = ''# linker-map-generation'' @ [CHR 0x0A]\<rparr>" stub_option stub_artefact
  unfolding linker_map_generation_query_def linker_map_generation_create_def scaffold_query_def [symmetric] by (rule scaffold_contract) (simp add: builtin_valid)

interpretation visualization: plugin_contract visualization_query Stub "\<lparr>si_logical_name = ''visualization.json'',
    si_content = ''{'' @ [CHR 0x0A] @ ''  '' @ [CHR 0x22] @ ''plugin'' @ [CHR 0x22] @ '': '' @ [CHR 0x22] @ ''visualization'' @ [CHR 0x22] @
       [CHR 0x0A] @ ''}'' @ [CHR 0x0A]\<rparr>" stub_option stub_artefact
  unfolding visualization_query_def visualization_create_def scaffold_query_def [symmetric] by (rule scaffold_contract) (simp add: builtin_valid)

section \<open>The loader\<close>

text \<open>What a name contributes: nothing if the module cannot be opened, has no entry point or fails the
  validation.\<close>

definition module_of :: "'h pworld dl_env \<Rightarrow> string \<Rightarrow> string \<Rightarrow> 'h pworld loaded_plugin_module option" where
  "module_of env root name =
     Option.bind (dl_open env (root @ ''/'' @ name)) (\<lambda>h.
       case dl_sym env h OLNK_PLUGIN_ENTRYPOINT_NAME of
         Some q \<Rightarrow> if validate_query_result q then Some \<lparr>lm_handle = Some h, lm_query = q\<rparr> else None
       | None \<Rightarrow> None)"

lemma module_of_valid: "module_of env root name = Some m \<Longrightarrow> validate_query_result (lm_query m)"
  by (cases "dl_open env (root @ ''/'' @ name)") (auto simp: module_of_def split: option.splits if_splits)

definition opened :: "'w loaded_plugin_module list \<Rightarrow> nat \<Rightarrow> nat" where
  "opened ms h = count_list (map lm_handle ms) (Some h)"

lemma load_modules_spec:
  assumes "quiet w"
  shows "\<exists>w'. load_modules env root names loaded w = Ret (loaded @ List.map_filter (module_of env root) names) w' \<and>
    quiet w' \<and> (\<forall>h. pw_open w' h = pw_open w h + opened (List.map_filter (module_of env root) names) h)"
  using assms
proof (induction names arbitrary: w loaded)
  case (Cons name names)
  let ?w = "w\<lparr>pw_tick := Suc (pw_tick w)\<rparr>"
  show ?case
  proof (cases "dl_open env (root @ ''/'' @ name)")
    case None
    then show ?thesis using Cons.IH [of ?w] Cons.prems
      by (simp add: dlopen_def run_defs pmay_throw_quiet module_of_def List.map_filter_simps)
  next
    case (Some h)
    let ?w1 = "?w\<lparr>pw_open := (pw_open w)(h := Suc (pw_open w h))\<rparr>"
    show ?thesis
    proof (cases "\<exists>q. dl_sym env h OLNK_PLUGIN_ENTRYPOINT_NAME = Some q \<and> validate_query_result q")
      case True
      then obtain q where q: "dl_sym env h OLNK_PLUGIN_ENTRYPOINT_NAME = Some q" "validate_query_result q" by blast
      show ?thesis
        using Cons.IH [of "?w1\<lparr>pw_tick := Suc (Suc (pw_tick w))\<rparr>" "loaded @ [\<lparr>lm_handle = Some h, lm_query = q\<rparr>]"] Cons.prems Some q
        by (force simp: dlopen_def run_defs pmay_throw_quiet module_of_def List.map_filter_simps opened_def)
    next
      case False
      then have "module_of env root name = None" using Some by (auto simp: module_of_def split: option.split)
      moreover have "load_modules env root (name # names) loaded w = load_modules env root names loaded ?w"
        using False Some Cons.prems by (auto simp: dlopen_def dlclose_def run_defs pmay_throw_quiet split: option.split)
      ultimately show ?thesis using Cons.IH [of ?w] Cons.prems by (simp add: List.map_filter_simps)
    qed
  qed
qed (simp add: mret_def opened_def List.map_filter_simps)

lemma unload_spec:
  assumes "\<forall>h. opened ms h \<le> pw_open w h"
  shows "\<exists>w'. unload_modules ms w = Ret [] w' \<and> (\<forall>h. pw_open w' h = pw_open w h - opened ms h) \<and> pw_instances w' = pw_instances w"
  using assms
proof (induction ms arbitrary: w)
  case (Cons m ms)
  show ?case
  proof (cases "lm_handle m")
    case None
    then show ?thesis using Cons by (simp add: unload_modules_def run_defs opened_def)
  next
    case (Some h)
    let ?w = "w\<lparr>pw_open := (pw_open w)(h := pw_open w h - 1)\<rparr>"
    have "\<forall>x. opened ms x \<le> pw_open ?w x" using Cons.prems Some by (auto simp: opened_def split: if_splits)
    then obtain w' where "unload_modules ms ?w = Ret [] w'" "\<forall>x. pw_open w' x = pw_open ?w x - opened ms x" "pw_instances w' = pw_instances w"
      using Cons.IH [of ?w] by auto
    then show ?thesis using Some by (auto simp: unload_modules_def run_defs opened_def dlclose_def)
  qed
qed (simp add: unload_modules_def run_defs opened_def)

section \<open>Properties\<close>

text \<open>The host wrappers are safe against every null pointer in a plugin's tables: whatever the query
  object, its descriptor, its vtable and its optional callbacks are, a wrapper runs into undefined
  behaviour only if a callback of the plugin does.\<close>

theorem plugin_wrappers_null_safe:
  assumes "\<forall>q v. query = Some q \<longrightarrow> pq_vtable q = Some v \<longrightarrow> callbacks_safe v"
  shows "create_instance query out w \<noteq> Fault UndefinedBehaviour \<and>
    destroy_instance query inst w \<noteq> Fault UndefinedBehaviour \<and>
    set_option_plugin query inst key val w \<noteq> Fault UndefinedBehaviour \<and>
    initialize_plugin query inst ctx w \<noteq> Fault UndefinedBehaviour \<and>
    before_link query inst ctx w \<noteq> Fault UndefinedBehaviour \<and>
    after_link query inst ctx res w \<noteq> Fault UndefinedBehaviour \<and>
    finalize_plugin query inst ctx w \<noteq> Fault UndefinedBehaviour \<and>
    on_event_plugin query inst ctx event event_data w \<noteq> Fault UndefinedBehaviour"
proof (cases query)
  case (Some q)
  have deref_q: "mbind (deref (Some x)) f w = f x w" for x and f :: "'c \<Rightarrow> ('d, 'a) prog"
    by (simp add: deref_def run_defs)
  have create: "create_instance query out w \<noteq> Fault UndefinedBehaviour"
  proof (cases "validate_query_result query")
    case True
    then show ?thesis
    proof (cases rule: validate_query_result_Some)
      case (1 q' d v c f)
      then have "callbacks_safe v" using assms by blast
      then show ?thesis using 1 True
        by (auto simp: create_instance_def mnoexcept_UB deref_def run_defs callbacks_safe_def split: outcome.splits)
    qed
  qed (auto simp: create_instance_def mnoexcept_UB mret_def)
  show ?thesis
  proof (cases "pq_vtable q")
    case None
    then have "\<not> validate_query_result query" using Some by (auto elim: validate_query_result_Some)
    then show ?thesis using create None Some by (simp add: wrapper_defs mret_def)
  next
    case vt: (Some v)
    then have safe: "callbacks_safe v" using assms Some by blast
    have calls: "call_set_option (Some v) inst key val w \<noteq> Fault UndefinedBehaviour"
        "call_initialize (Some v) inst ctx w \<noteq> Fault UndefinedBehaviour"
        "call_before_link (Some v) inst ctx w \<noteq> Fault UndefinedBehaviour"
        "call_after_link (Some v) inst ctx res w \<noteq> Fault UndefinedBehaviour"
        "call_finalize (Some v) inst ctx w \<noteq> Fault UndefinedBehaviour"
        "call_on_event (Some v) inst ctx event event_data w \<noteq> Fault UndefinedBehaviour"
        "call_destroy (Some v) inst w \<noteq> Fault UndefinedBehaviour"
      using safe by (auto simp: call_defs mnoexcept_UB callbacks_safe_def mret_def split: option.split)
    show ?thesis using create calls vt Some
      by (cases event) (simp_all add: set_option_plugin_def initialize_plugin_def before_link_def after_link_def finalize_plugin_def
          on_event_plugin_def destroy_instance_def deref_q mret_def)
  qed
qed (simp add: wrapper_defs validate_query_result_def mret_def mnoexcept_UB)

definition bare_vtable :: "unit pworld olnk_plugin_vtable" where
  "bare_vtable = (scaffold_vtable (\<lambda>d out. mret (OLNK_STATUS_OUT_OF_MEMORY, out)))\<lparr>pv_destroy := Some (\<lambda>i. mret ()),
     pv_set_option := None, pv_after_link := None, pv_on_event := None\<rparr>"

theorem plugin_wrappers_null_safe_witness:
  "after_link (Some (builtin_query (builtin_descriptor ''x'' ''y'' OLNK_PLUGIN_KIND_OUTPUT OLNK_PLUGIN_CAPABILITY_NONE) bare_vtable))
     None None None \<lparr>pw_alloc = \<lambda>_. None, pw_tick = 0, pw_next = 0, pw_instances = Map.empty, pw_open = \<lambda>_. 0, pw_host = ()\<rparr>
   \<noteq> Fault UndefinedBehaviour"
proof -
  have "callbacks_safe bare_vtable"
    by (simp add: callbacks_safe_def bare_vtable_def scaffold_vtable_def scaffold_hook_def mret_def)
  then show ?thesis using plugin_wrappers_null_safe
      [of "Some (builtin_query (builtin_descriptor ''x'' ''y'' OLNK_PLUGIN_KIND_OUTPUT OLNK_PLUGIN_CAPABILITY_NONE) bare_vtable)"]
    by (simp add: builtin_query_def)
qed

text \<open>The six shipped plugins, and the statuses of the options and the artefact that the options determine.\<close>

datatype shipped_plugin = Append_stub | Dump_symtbl | Dwarf_embeddings | Identical_code_folding | Linker_map_generation | Visualization

definition shipped_query :: "shipped_plugin \<Rightarrow> 'h pworld olnk_plugin_query_result" where
  "shipped_query p = (case p of Append_stub \<Rightarrow> append_stub_query | Dump_symtbl \<Rightarrow> dump_symtbl_query | Dwarf_embeddings \<Rightarrow> dwarf_embeddings_query
     | Identical_code_folding \<Rightarrow> identical_code_folding_query | Linker_map_generation \<Rightarrow> linker_map_generation_query | Visualization \<Rightarrow> visualization_query)"

definition stub_configured :: "string \<Rightarrow> string \<Rightarrow> (string \<times> string) list \<Rightarrow> olnk_status list \<times> (string \<times> string) option" where
  "stub_configured name content opts = map_prod id stub_artefact (configure stub_option opts \<lparr>si_logical_name = name, si_content = content\<rparr>)"

definition shipped_artefact :: "shipped_plugin \<Rightarrow> (string \<times> string) list \<Rightarrow> olnk_status list \<times> (string \<times> string) option" where
  "shipped_artefact p opts = (case p of
     Append_stub \<Rightarrow> map_prod id append_artefact (configure append_option opts
       \<lparr>as_logical_name = ''append-stub.txt'', as_marker = ''/* OLNK STUB */'' @ [CHR 0x0A], as_body = []\<rparr>)
   | Dump_symtbl \<Rightarrow> stub_configured ''symbols.map.txt'' (''# dump-symtbl'' @ [CHR 0x0A]) opts
   | Dwarf_embeddings \<Rightarrow> stub_configured ''dwarf.sidecar.txt'' (''# dwarf-embeddings'' @ [CHR 0x0A]) opts
   | Identical_code_folding \<Rightarrow> stub_configured ''icf-report.txt'' (''# identical-code-folding'' @ [CHR 0x0A]) opts
   | Linker_map_generation \<Rightarrow> stub_configured ''linker.map'' (''# linker-map-generation'' @ [CHR 0x0A]) opts
   | Visualization \<Rightarrow> stub_configured ''visualization.json'' (''{'' @ [CHR 0x0A] @ ''  '' @ [CHR 0x22] @ ''plugin'' @ [CHR 0x22] @ '': '' @ [CHR 0x22] @ ''visualization'' @
       [CHR 0x22] @ [CHR 0x0A] @ ''}'' @ [CHR 0x0A]) opts)"


definition recording_emit :: "nat option \<Rightarrow> cstr \<Rightarrow> string \<Rightarrow> (olnk_status, (cstr \<times> string) list) plug" where
  "recording_emit a n d w = Ret OLNK_STATUS_OK (w\<lparr>pw_host := pw_host w @ [(n, d)]\<rparr>)"

definition recording_context :: "(cstr \<times> string) list pworld olnk_plugin_context" where
  "recording_context = \<lparr>pc_address = 7, pc_host = Some \<lparr>ph_abi_version = 1, ph_struct_size = 80, ph_log = None,
     ph_diagnostic = None, ph_get_option = None, ph_set_option = None, ph_emit_file = Some recording_emit, ph_reserved = []\<rparr>,
     pc_linker_context = None, pc_session = None, pc_config = None, pc_reserved = []\<rparr>"

definition recording_world :: "(cstr \<times> string) list pworld" where
  "recording_world = \<lparr>pw_alloc = \<lambda>_. None, pw_tick = 0, pw_next = 0, pw_instances = Map.empty, pw_open = \<lambda>_. 0, pw_host = []\<rparr>"


text \<open>C34: Loading and unloading plugin modules balance: the loader keeps exactly the modules of its name
  list, in order, that open, export the entry point and pass the validation, every other module it
  opened is closed again, and unloading the result restores every reference count.\<close>

theorem plugin_modules_balanced:
  fixes w :: "'h pworld"
  assumes "quiet w"
  shows "\<exists>root w' w''. load_builtin_modules_from_env env w = Ret (List.map_filter (module_of env root) kNames) w' \<and>
    (\<forall>m \<in> set (List.map_filter (module_of env root) kNames). validate_query_result (lm_query m)) \<and>
    (\<forall>h. pw_open w' h = pw_open w h + opened (List.map_filter (module_of env root) kNames) h) \<and>
    unload_modules (List.map_filter (module_of env root) kNames) w' = Ret [] w'' \<and> pw_open w'' = pw_open w"
proof -
  define root where "root = (case dl_getenv env ''OLNK_PLUGIN_DIR'' of None \<Rightarrow> ''.'' | Some r \<Rightarrow> if r = [] then ''.'' else r)"
  let ?ms = "List.map_filter (module_of env root) kNames"
  obtain w' where w': "load_modules env root kNames [] w = Ret ?ms w'" "\<forall>h. pw_open w' h = pw_open w h + opened ?ms h"
    using load_modules_spec [OF assms, of env root kNames "[]"] by auto
  then have load: "load_builtin_modules_from_env env w = Ret ?ms w'"
    by (simp add: load_builtin_modules_from_env_def root_def Let_def mnoexcept_def mtry_def)
  obtain w'' where "unload_modules ?ms w' = Ret [] w''" "\<forall>h. pw_open w'' h = pw_open w' h - opened ?ms h"
    using unload_spec [of ?ms w'] w'(2) by auto
  moreover from this have "pw_open w'' = pw_open w" using w'(2) by (simp add: fun_eq_iff)
  moreover have "\<forall>m \<in> set ?ms. validate_query_result (lm_query m)"
    by (auto simp: List.map_filter_def dest: module_of_valid)
  ultimately show ?thesis using load w'(2) by blast
qed

theorem plugin_modules_balanced_witness:
  "\<exists>ms w'. load_builtin_modules_from_env \<lparr>dl_getenv = \<lambda>_. Some ''/p'',
      dl_open = \<lambda>p. if p = ''/p/visualization.so'' then Some 3 else None, dl_sym = \<lambda>_ _. Some (Some visualization_query)\<rparr>
      recording_world = Ret ms w'"
  using plugin_modules_balanced [of recording_world "\<lparr>dl_getenv = \<lambda>_. Some ''/p'',
      dl_open = \<lambda>p. if p = ''/p/visualization.so'' then Some 3 else None, dl_sym = \<lambda>_ _. Some (Some visualization_query)\<rparr>"]
  by (auto simp: quiet_def recording_world_def)

end
