(* ===== verification/Bfd_Base.thy ===== *)
theory Bfd_Base
  imports Olnk_Prelude "HOL-Library.Sublist"
begin

text \<open>
  What the theories about the BFD sources (\<open>tooling/bfd-scrape/bfd\<close>) share: the integer types of
  \<open>bfd.h\<close> on LP64, buffers with a bound, and the three ways a C function can end: with a value, in
  \<open>abort ()\<close>, or outside the language (a read or write past a buffer, a null pointer).
\<close>

type_synonym bfd_vma = u64
type_synonym bfd_byte = u8
type_synonym bfd_size_type = u64

datatype 'a cresult = Done 'a | Abort | Undefined

definition cbind :: "'a cresult \<Rightarrow> ('a \<Rightarrow> 'b cresult) \<Rightarrow> 'b cresult" where
  "cbind r f = (case r of Done x \<Rightarrow> f x | Abort \<Rightarrow> Abort | Undefined \<Rightarrow> Undefined)"

lemma cbind_simps [simp]:
  "cbind (Done x) f = f x" "cbind Abort f = Abort" "cbind Undefined f = Undefined"
  by (simp_all add: cbind_def)

lemma cbind_Done: "cbind r f = Done y \<longleftrightarrow> (\<exists>x. r = Done x \<and> f x = Done y)"
  by (cases r) simp_all

text \<open>Runs that may not end: \<open>None\<close>.\<close>

type_synonym 'a run = "'a cresult option"

definition rbind :: "'a run \<Rightarrow> ('a \<Rightarrow> 'b run) \<Rightarrow> 'b run" where
  "rbind r f = (case r of None \<Rightarrow> None | Some Abort \<Rightarrow> Some Abort | Some Undefined \<Rightarrow> Some Undefined | Some (Done x) \<Rightarrow> f x)"

lemma rbind_simps [simp]: "rbind None f = None" "rbind (Some Abort) f = Some Abort" "rbind (Some Undefined) f = Some Undefined"
    "rbind (Some (Done x)) f = f x"
  by (simp_all add: rbind_def)

text \<open>An access to the first \<open>n\<close> bytes of a buffer.\<close>

definition within :: "nat \<Rightarrow> bytes \<Rightarrow> 'a \<Rightarrow> 'a cresult" where
  "within n p x = (if n \<le> length p then Done x else Undefined)"

lemma within_ok [simp]: "n \<le> length p \<Longrightarrow> within n p x = Done x"
  by (simp add: within_def)

lemma within_Done [simp]: "within n p x = Done y \<longleftrightarrow> n \<le> length p \<and> x = y"
  by (simp add: within_def)

section \<open>Output files and the strings in them\<close>

text \<open>The output file: what was written, and which writes succeed.\<close>

record bfd_file =
  bf_out :: string
  bf_ok :: "nat \<Rightarrow> bool"
  bf_calls :: nat

definition bfd_write :: "string \<Rightarrow> bfd_file \<Rightarrow> bool \<times> bfd_file" where
  "bfd_write bytes f =
     (if bf_ok f (bf_calls f) then (True, f\<lparr>bf_out := bf_out f @ bytes, bf_calls := Suc (bf_calls f)\<rparr>)
      else (False, f\<lparr>bf_calls := Suc (bf_calls f)\<rparr>))"

abbreviation nul :: char where
  "nul \<equiv> CHR 0x00"

lemma bfd_write_all: "\<forall>n. bf_ok f n \<Longrightarrow> bfd_write bytes f = (True, f\<lparr>bf_out := bf_out f @ bytes, bf_calls := Suc (bf_calls f)\<rparr>)"
  by (simp add: bfd_write_def)

text \<open>The C string at an offset of the section.\<close>

definition string_at :: "string \<Rightarrow> nat \<Rightarrow> string option" where
  "string_at sec off = (if nul \<in> set (drop off sec) then Some (takeWhile (\<lambda>c. c \<noteq> nul) (drop off sec)) else None)"

lemma string_at_suffix:
  assumes "drop off sec = s @ nul # rest" "suffix r s" "nul \<notin> set s"
  shows "string_at sec (off + (length s - length r)) = Some r"
proof -
  obtain p where s: "s = p @ r" using assms(2) by (auto simp: suffix_def)
  have "drop (off + length p) sec = drop (length p) (drop off sec)" by (simp add: add.commute)
  then have "drop (off + length p) sec = r @ nul # rest" using assms(1) s by simp
  moreover have "takeWhile (\<lambda>c. c \<noteq> nul) (r @ nul # rest) = r"
    using assms(3) s by (subst takeWhile_append2) auto
  ultimately show ?thesis using s by (simp add: string_at_def)
qed

lemma string_at_less: "string_at sec off = Some s \<Longrightarrow> off < length sec"
  by (rule ccontr) (simp add: string_at_def)

end
