(* ===== verification/Bfd_Bytes.thy ===== *)
theory Bfd_Bytes
  imports Bfd_Base
begin

text \<open>
  Byte order in \<open>tooling/bfd-scrape/bfd/libbfd.c\<close>: the fixed-size readers and writers and the loops
  \<open>bfd_get_bits\<close> and \<open>bfd_put_bits\<close> for any number of bytes.  A pointer is the list of the bytes from it to
  the end of its buffer.
\<close>

unbundle bit_operations_syntax

section \<open>Readers\<close>

text \<open>\<open>addr[i]\<close> converted to a wider type and shifted.\<close>

definition at :: "bytes \<Rightarrow> nat \<Rightarrow> nat \<Rightarrow> 'a::len word" where
  "at p i k = push_bit k (ucast (p ! i))"

definition COERCE16 :: "u64 \<Rightarrow> u64" where
  "COERCE16 x = (x XOR 0x8000) - 0x8000"

definition COERCE32 :: "u64 \<Rightarrow> u64" where
  "COERCE32 x = (x XOR 0x80000000) - 0x80000000"

definition COERCE64 :: "u64 \<Rightarrow> u64" where
  "COERCE64 x = (x XOR push_bit 63 1) - push_bit 63 1"

definition bfd_getb16 :: "bytes \<Rightarrow> bfd_vma cresult" where
  "bfd_getb16 addr = within 2 addr (at addr 0 8 OR at addr 1 0)"

definition bfd_getl16 :: "bytes \<Rightarrow> bfd_vma cresult" where
  "bfd_getl16 addr = within 2 addr (at addr 1 8 OR at addr 0 0)"

definition bfd_getb_signed_16 :: "bytes \<Rightarrow> u64 cresult" where
  "bfd_getb_signed_16 addr = within 2 addr (COERCE16 (at addr 0 8 OR at addr 1 0))"

definition bfd_getl_signed_16 :: "bytes \<Rightarrow> u64 cresult" where
  "bfd_getl_signed_16 addr = within 2 addr (COERCE16 (at addr 1 8 OR at addr 0 0))"

definition bfd_getb24 :: "bytes \<Rightarrow> bfd_vma cresult" where
  "bfd_getb24 addr = within 3 addr (ucast (at addr 0 16 OR at addr 1 8 OR at addr 2 0 :: u32))"

definition bfd_getl24 :: "bytes \<Rightarrow> bfd_vma cresult" where
  "bfd_getl24 addr = within 3 addr (ucast (at addr 0 0 OR at addr 1 8 OR at addr 2 16 :: u32))"

definition bfd_getb32 :: "bytes \<Rightarrow> bfd_vma cresult" where
  "bfd_getb32 addr = within 4 addr (ucast (at addr 0 24 OR at addr 1 16 OR at addr 2 8 OR at addr 3 0 :: u32))"

definition bfd_getl32 :: "bytes \<Rightarrow> bfd_vma cresult" where
  "bfd_getl32 addr = within 4 addr (ucast (at addr 0 0 OR at addr 1 8 OR at addr 2 16 OR at addr 3 24 :: u32))"

definition bfd_getb_signed_32 :: "bytes \<Rightarrow> u64 cresult" where
  "bfd_getb_signed_32 addr =
     within 4 addr (COERCE32 (ucast (at addr 0 24 OR at addr 1 16 OR at addr 2 8 OR at addr 3 0 :: u32)))"

definition bfd_getl_signed_32 :: "bytes \<Rightarrow> u64 cresult" where
  "bfd_getl_signed_32 addr =
     within 4 addr (COERCE32 (ucast (at addr 0 0 OR at addr 1 8 OR at addr 2 16 OR at addr 3 24 :: u32)))"

text \<open>The 64-bit readers shift an accumulator: \<open>v <<= 8; v |= addr[i]\<close>.\<close>

definition shift_in :: "bytes \<Rightarrow> u64 \<Rightarrow> nat \<Rightarrow> u64" where
  "shift_in addr v i = push_bit 8 v OR ucast (addr ! i)"

definition bfd_getb64 :: "bytes \<Rightarrow> u64 cresult" where
  "bfd_getb64 addr = within 8 addr (foldl (shift_in addr) (ucast (addr ! 0)) [1, 2, 3, 4, 5, 6, 7])"

definition bfd_getl64 :: "bytes \<Rightarrow> u64 cresult" where
  "bfd_getl64 addr = within 8 addr (foldl (shift_in addr) (ucast (addr ! 7)) [6, 5, 4, 3, 2, 1, 0])"

definition bfd_getb_signed_64 :: "bytes \<Rightarrow> u64 cresult" where
  "bfd_getb_signed_64 addr = within 8 addr (COERCE64 (foldl (shift_in addr) (ucast (addr ! 0)) [1, 2, 3, 4, 5, 6, 7]))"

definition bfd_getl_signed_64 :: "bytes \<Rightarrow> u64 cresult" where
  "bfd_getl_signed_64 addr = within 8 addr (COERCE64 (foldl (shift_in addr) (ucast (addr ! 7)) [6, 5, 4, 3, 2, 1, 0]))"

section \<open>Writers\<close>

text \<open>\<open>(data >> k) & 0xff\<close> stored in a byte.\<close>

definition octet :: "u64 \<Rightarrow> nat \<Rightarrow> bfd_byte" where
  "octet data k = ucast (drop_bit k data AND 0xff)"

definition bfd_putb16 :: "bfd_vma \<Rightarrow> bytes \<Rightarrow> bytes cresult" where
  "bfd_putb16 data addr = within 2 addr (addr[0 := octet data 8, 1 := octet data 0])"

definition bfd_putl16 :: "bfd_vma \<Rightarrow> bytes \<Rightarrow> bytes cresult" where
  "bfd_putl16 data addr = within 2 addr (addr[0 := octet data 0, 1 := octet data 8])"

definition bfd_putb24 :: "bfd_vma \<Rightarrow> bytes \<Rightarrow> bytes cresult" where
  "bfd_putb24 data addr = within 3 addr (addr[0 := octet data 16, 1 := octet data 8, 2 := octet data 0])"

definition bfd_putl24 :: "bfd_vma \<Rightarrow> bytes \<Rightarrow> bytes cresult" where
  "bfd_putl24 data addr = within 3 addr (addr[0 := octet data 0, 1 := octet data 8, 2 := octet data 16])"

definition bfd_putb32 :: "bfd_vma \<Rightarrow> bytes \<Rightarrow> bytes cresult" where
  "bfd_putb32 data addr = within 4 addr
     (addr[0 := octet data 24, 1 := octet data 16, 2 := octet data 8, 3 := octet data 0])"

definition bfd_putl32 :: "bfd_vma \<Rightarrow> bytes \<Rightarrow> bytes cresult" where
  "bfd_putl32 data addr = within 4 addr
     (addr[0 := octet data 0, 1 := octet data 8, 2 := octet data 16, 3 := octet data 24])"

definition bfd_putb64 :: "u64 \<Rightarrow> bytes \<Rightarrow> bytes cresult" where
  "bfd_putb64 data addr = within 8 addr
     (addr[0 := octet data 56, 1 := octet data 48, 2 := octet data 40, 3 := octet data 32,
           4 := octet data 24, 5 := octet data 16, 6 := octet data 8, 7 := octet data 0])"

definition bfd_putl64 :: "u64 \<Rightarrow> bytes \<Rightarrow> bytes cresult" where
  "bfd_putl64 data addr = within 8 addr
     (addr[7 := octet data 56, 6 := octet data 48, 5 := octet data 40, 4 := octet data 32,
           3 := octet data 24, 2 := octet data 16, 1 := octet data 8, 0 := octet data 0])"

section \<open>Any number of bytes\<close>

function put_bits_loop :: "nat \<Rightarrow> nat \<Rightarrow> bool \<Rightarrow> u64 \<Rightarrow> bytes \<Rightarrow> bytes" where
  "put_bits_loop i bytes big_p data addr =
     (if i < bytes
      then put_bits_loop (Suc i) bytes big_p (drop_bit 8 data)
             (addr[(if big_p then bytes - i - 1 else i) := ucast (data AND 0xff)])
      else addr)"
  by pat_completeness auto
termination by (relation "measure (\<lambda>(i, bytes, _). bytes - i)") auto

function get_bits_loop :: "nat \<Rightarrow> nat \<Rightarrow> bool \<Rightarrow> bytes \<Rightarrow> u64 \<Rightarrow> u64" where
  "get_bits_loop i bytes big_p addr data =
     (if i < bytes
      then get_bits_loop (Suc i) bytes big_p addr
             (push_bit 8 data OR ucast (addr ! (if big_p then i else bytes - i - 1)))
      else data)"
  by pat_completeness auto
termination by (relation "measure (\<lambda>(i, bytes, _). bytes - i)") auto

declare put_bits_loop.simps [simp del] get_bits_loop.simps [simp del]

text \<open>A negative \<open>bits\<close> makes the loops empty.\<close>

definition bfd_put_bits :: "u64 \<Rightarrow> bytes \<Rightarrow> int \<Rightarrow> bool \<Rightarrow> bytes cresult" where
  "bfd_put_bits data addr bits big_p =
     (if bits mod 8 \<noteq> 0 then Abort
      else let bytes = nat (bits div 8) in within bytes addr (put_bits_loop 0 bytes big_p data addr))"

definition bfd_get_bits :: "bytes \<Rightarrow> int \<Rightarrow> bool \<Rightarrow> u64 cresult" where
  "bfd_get_bits addr bits big_p =
     (if bits mod 8 \<noteq> 0 then Abort
      else let bytes = nat (bits div 8) in within bytes addr (get_bits_loop 0 bytes big_p addr 0))"

section \<open>The loops\<close>

text \<open>The bytes of a number, least significant first, and the number of a byte sequence, most
  significant first.\<close>

definition octets :: "nat \<Rightarrow> u64 \<Rightarrow> bytes" where
  "octets n data = map (\<lambda>i. octet data (8 * i)) [0..<n]"

definition be_number :: "bytes \<Rightarrow> u64 \<Rightarrow> u64" where
  "be_number bs v = foldl (\<lambda>v b. v * 256 + ucast b) v bs"

definition in_order :: "bool \<Rightarrow> bytes \<Rightarrow> bytes" where
  "in_order big_p bs = (if big_p then bs else rev bs)"

lemma mask_ff: "(0xff :: u64) = mask 8"
  by (simp add: mask_eq_exp_minus_1)

lemma octet_0: "octet data 0 = ucast data"
  by (rule bit_word_eqI) (auto simp: octet_def bit_simps mask_ff)

lemma octet_drop: "octet (drop_bit k data) j = octet data (k + j)"
  by (simp add: octet_def drop_bit_drop_bit add.commute)

lemma octets_Suc: "octets (Suc n) data = octet data 0 # octets n (drop_bit 8 data)"
  by (simp add: octets_def upt_rec [of 0] map_Suc_upt [symmetric] octet_drop comp_def del: upt_Suc)

lemma shift_or: "push_bit 8 (v :: u64) OR ucast (b :: u8) = v * 256 + ucast b"
proof -
  have "push_bit 8 v AND ucast b = 0"
    by (rule bit_word_eqI) (auto simp: bit_simps dest: bit_imp_le_length)
  then have "push_bit 8 v OR ucast b = push_bit 8 v + ucast b"
    using word_plus_and_or [of "push_bit 8 v" "ucast b"] by simp
  then show ?thesis by (simp add: push_bit_eq_mult)
qed

lemma get_bits_loop_number:
  assumes "i \<le> n" "n \<le> length addr"
  shows "get_bits_loop i n big_p addr data = be_number (drop i (in_order big_p (take n addr))) data"
  using assms
proof (induction "n - i" arbitrary: i data)
  case 0
  then show ?case by (subst get_bits_loop.simps) (simp add: be_number_def in_order_def)
next
  case (Suc k)
  let ?s = "in_order big_p (take n addr)"
  have lt: "i < n" using Suc by simp
  then have len: "i < length ?s" using Suc by (simp add: in_order_def)
  have "addr ! (if big_p then i else n - i - 1) = ?s ! i"
    using Suc by (simp add: in_order_def rev_nth min_absorb2)
  then have "get_bits_loop i n big_p addr data = get_bits_loop (Suc i) n big_p addr (data * 256 + ucast (?s ! i))"
    using lt by (subst get_bits_loop.simps) (simp add: shift_or)
  also have "\<dots> = be_number (drop (Suc i) ?s) (data * 256 + ucast (?s ! i))" using Suc by (intro Suc.hyps(1)) auto
  also have "\<dots> = be_number (drop i ?s) data"
    using len by (simp add: be_number_def Cons_nth_drop_Suc [symmetric])
  finally show ?case .
qed

lemma put_bits_loop_octets:
  assumes "i \<le> n" "n \<le> length addr"
  shows "put_bits_loop i n big_p data addr =
    (if big_p then rev (octets (n - i) data) @ drop (n - i) addr
     else take i addr @ octets (n - i) data @ drop n addr)"
  using assms
proof (induction "n - i" arbitrary: i data addr)
  case 0
  then show ?case by (subst put_bits_loop.simps) (simp add: octets_def)
next
  case (Suc k)
  let ?j = "if big_p then n - i - 1 else i" and ?b = "ucast (data AND 0xff) :: u8"
  have b: "?b = octet data 0" by (simp add: octet_def)
  have lt: "i < n" using Suc by simp
  have "put_bits_loop i n big_p data addr = put_bits_loop (Suc i) n big_p (drop_bit 8 data) (addr[?j := ?b])"
    using lt by (subst put_bits_loop.simps) simp
  also have "\<dots> = (if big_p then rev (octets k (drop_bit 8 data)) @ drop k (addr[?j := ?b])
     else take (Suc i) (addr[?j := ?b]) @ octets k (drop_bit 8 data) @ drop n (addr[?j := ?b]))"
  proof -
    have "k = n - Suc i" using Suc by simp
    then show ?thesis
      using Suc.hyps(1) [of "Suc i" "addr[?j := ?b]" "drop_bit 8 data"] lt Suc.prems by simp
  qed
  also have "\<dots> = (if big_p then rev (octets (n - i) data) @ drop (n - i) addr
     else take i addr @ octets (n - i) data @ drop n addr)"
  proof (cases big_p)
    case True
    have "drop k (addr[k := ?b]) = ?b # drop (Suc k) addr"
      using Suc by (simp add: drop_update_swap Cons_nth_drop_Suc [symmetric])
    moreover have "n - i = Suc k" "n - i - 1 = k" using Suc by simp_all
    ultimately show ?thesis using True b by (simp add: octets_Suc)
  next
    case False
    have "take (Suc i) (addr[i := ?b]) = take i addr @ [?b]" "drop n (addr[i := ?b]) = drop n addr"
      using Suc by (simp_all add: take_Suc_conv_app_nth)
    moreover have "n - i = Suc k" using Suc by simp
    ultimately show ?thesis using False b by (simp add: octets_Suc)
  qed
  finally show ?case .
qed

lemma length_octets [simp]: "length (octets n data) = n"
  by (simp add: octets_def)

lemma be_number_octets: "be_number (rev (octets n data)) 0 = take_bit (8 * n) data"
proof (induction n arbitrary: data)
  case (Suc n)
  have "be_number (rev (octets (Suc n) data)) 0 = push_bit 8 (take_bit (8 * n) (drop_bit 8 data)) OR ucast (ucast data :: u8)"
    using Suc.IH [of "drop_bit 8 data"] by (simp add: octets_Suc be_number_def octet_0 shift_or)
  also have "\<dots> = take_bit (8 * Suc n) data"
    by (rule bit_word_eqI) (auto simp: bit_simps simp del: push_bit_take_bit)
  finally show ?case .
qed (simp add: octets_def be_number_def)

lemma bits_nat:
  assumes "bits mod 8 = 0" "0 \<le> bits"
  shows "8 * nat (bits div 8) = nat bits"
proof -
  have "8 * (bits div 8) = bits" using assms(1) by presburger
  then have "nat (8 * (bits div 8)) = nat bits" by simp
  then show ?thesis by (simp add: nat_mult_distrib)
qed

lemma in_order_put:
  assumes "n \<le> length addr"
  shows "take n (put_bits_loop 0 n big_p data addr) = in_order big_p (rev (octets n data)) \<and>
    drop n (put_bits_loop 0 n big_p data addr) = drop n addr"
  using put_bits_loop_octets [of 0 n addr big_p data] assms by (simp add: in_order_def)

lemma in_order_twice [simp]: "in_order big_p (in_order big_p bs) = bs"
  by (simp add: in_order_def)

section \<open>The fixed sizes are the loops\<close>

lemma loops_unfold:
  "get_bits_loop i n big_p addr data = (if i < n
      then get_bits_loop (Suc i) n big_p addr (push_bit 8 data OR ucast (addr ! (if big_p then i else n - i - 1))) else data)"
  "put_bits_loop i n big_p data addr = (if i < n
      then put_bits_loop (Suc i) n big_p (drop_bit 8 data) (addr[(if big_p then n - i - 1 else i) := octet data 0]) else addr)"
  by (subst get_bits_loop.simps, simp) (subst put_bits_loop.simps, simp add: octet_def)

lemma ucast_at: "k \<le> 24 \<Longrightarrow> (ucast (at p i k :: u32) :: u64) = at p i k"
  by (rule bit_word_eqI) (auto simp: at_def bit_simps dest: bit_imp_le_length)

lemma get_bits_values:
  "get_bits_loop 0 2 big_p addr 0 = (if big_p then at addr 0 8 OR at addr 1 0 else at addr 1 8 OR at addr 0 0)"
  "get_bits_loop 0 3 big_p addr 0 =
     (if big_p then ucast (at addr 0 16 OR at addr 1 8 OR at addr 2 0 :: u32)
      else ucast (at addr 0 0 OR at addr 1 8 OR at addr 2 16 :: u32))"
  "get_bits_loop 0 4 big_p addr 0 =
     (if big_p then ucast (at addr 0 24 OR at addr 1 16 OR at addr 2 8 OR at addr 3 0 :: u32)
      else ucast (at addr 0 0 OR at addr 1 8 OR at addr 2 16 OR at addr 3 24 :: u32))"
  "get_bits_loop 0 8 big_p addr 0 =
     (if big_p then foldl (shift_in addr) (ucast (addr ! 0)) [1, 2, 3, 4, 5, 6, 7]
      else foldl (shift_in addr) (ucast (addr ! 7)) [6, 5, 4, 3, 2, 1, 0])"
  by (simp_all add: ucast_at unsigned_or_eq)
    (simp_all add: loops_unfold(1) at_def shift_in_def numeral_nat push_bit_or ac_simps)

lemma put_bits_values:
  "put_bits_loop 0 2 big_p data addr =
     (if big_p then addr[1 := octet data 0, 0 := octet data 8] else addr[0 := octet data 0, 1 := octet data 8])"
  "put_bits_loop 0 3 big_p data addr =
     (if big_p then addr[2 := octet data 0, 1 := octet data 8, 0 := octet data 16]
      else addr[0 := octet data 0, 1 := octet data 8, 2 := octet data 16])"
  "put_bits_loop 0 4 big_p data addr =
     (if big_p then addr[3 := octet data 0, 2 := octet data 8, 1 := octet data 16, 0 := octet data 24]
      else addr[0 := octet data 0, 1 := octet data 8, 2 := octet data 16, 3 := octet data 24])"
  "put_bits_loop 0 8 big_p data addr =
     (if big_p
      then addr[7 := octet data 0, 6 := octet data 8, 5 := octet data 16, 4 := octet data 24,
             3 := octet data 32, 2 := octet data 40, 1 := octet data 48, 0 := octet data 56]
      else addr[0 := octet data 0, 1 := octet data 8, 2 := octet data 16, 3 := octet data 24,
             4 := octet data 32, 5 := octet data 40, 6 := octet data 48, 7 := octet data 56])"
  by (simp_all add: loops_unfold(2) numeral_nat octet_drop drop_bit_drop_bit)

lemmas fixed_get_defs = bfd_getb16_def bfd_getl16_def bfd_getb24_def bfd_getl24_def bfd_getb32_def
  bfd_getl32_def bfd_getb64_def bfd_getl64_def

lemmas fixed_put_defs = bfd_putb16_def bfd_putl16_def bfd_putb24_def bfd_putl24_def bfd_putb32_def
  bfd_putl32_def bfd_putb64_def bfd_putl64_def

lemma get_fixed:
  "bfd_getb16 p = bfd_get_bits p 16 True" "bfd_getl16 p = bfd_get_bits p 16 False"
  "bfd_getb24 p = bfd_get_bits p 24 True" "bfd_getl24 p = bfd_get_bits p 24 False"
  "bfd_getb32 p = bfd_get_bits p 32 True" "bfd_getl32 p = bfd_get_bits p 32 False"
  "bfd_getb64 p = bfd_get_bits p 64 True" "bfd_getl64 p = bfd_get_bits p 64 False"
  by (simp_all add: fixed_get_defs bfd_get_bits_def get_bits_values)

lemma put_fixed:
  "bfd_putb16 d p = bfd_put_bits d p 16 True" "bfd_putl16 d p = bfd_put_bits d p 16 False"
  "bfd_putb24 d p = bfd_put_bits d p 24 True" "bfd_putl24 d p = bfd_put_bits d p 24 False"
  "bfd_putb32 d p = bfd_put_bits d p 32 True" "bfd_putl32 d p = bfd_put_bits d p 32 False"
  "bfd_putb64 d p = bfd_put_bits d p 64 True" "bfd_putl64 d p = bfd_put_bits d p 64 False"
  by (simp_all add: fixed_put_defs bfd_put_bits_def put_bits_values list_update_swap)

section \<open>Sign extension\<close>

lemma xor_power:
  "(v XOR 2 ^ k) - 2 ^ k = (if bit v k then v - 2 ^ Suc k else (v :: 'a::len word))" if "k < LENGTH('a)"
proof -
  have or_xor: "v OR 2 ^ k = (v XOR 2 ^ k) + (v AND 2 ^ k)"
  proof -
    have "(v XOR 2 ^ k) AND (v AND 2 ^ k) = 0" "(v XOR 2 ^ k) OR (v AND 2 ^ k) = v OR 2 ^ k"
      by (rule bit_word_eqI, auto simp: bit_simps)+
    then show ?thesis using word_plus_and_or [of "v XOR 2 ^ k" "v AND 2 ^ k"] by simp
  qed
  have "v AND 2 ^ k = (if bit v k then 2 ^ k else 0)"
    by (rule bit_word_eqI) (auto simp: bit_simps)
  then show ?thesis
    using or_xor word_plus_and_or [of v "2 ^ k"] by (auto simp: algebra_simps)
qed

definition signed_value :: "nat \<Rightarrow> u64 \<Rightarrow> int" where
  "signed_value n v = (if uint v < 2 ^ (n - 1) then uint v else uint v - 2 ^ n)"

lemma sint_of_int_range: "- (2 ^ 63) \<le> z \<Longrightarrow> z < 2 ^ 63 \<Longrightarrow> sint (of_int z :: u64) = z"
  by (simp add: signed_of_int signed_take_bit_int_eq_self)

lemma int_div_less_two:
  assumes "x < 2 * (2 :: int) ^ k"
  shows "x div 2 ^ k < 2"
proof (rule ccontr)
  assume "\<not> x div 2 ^ k < 2"
  then have "2 * 2 ^ k \<le> x div 2 ^ k * 2 ^ k" by (intro mult_right_mono) auto
  also have "\<dots> \<le> x" using pos_mod_sign [of "2 ^ k" x] by (simp add: minus_mod_eq_div_mult [symmetric])
  finally show False using assms by simp
qed

lemma sint_coerce:
  assumes "k < 64" "take_bit (Suc k) v = v"
  shows "sint ((v XOR 2 ^ k) - 2 ^ k :: u64) = signed_value (Suc k) v"
proof -
  have "uint (take_bit (Suc k) v) < 2 ^ Suc k" by (simp only: unsigned_take_bit_eq take_bit_int_less_exp)
  then have lt: "uint v < 2 ^ Suc k" using assms(2) by simp
  have le: "(2 :: int) ^ k \<le> 2 ^ 63" using assms(1) by (intro power_increasing) auto
  have bit: "bit v k \<longleftrightarrow> \<not> uint v < 2 ^ k"
  proof -
    have "bit (uint v) k \<longleftrightarrow> odd (uint v div 2 ^ k)" by (simp add: bit_iff_odd)
    moreover have "uint v div 2 ^ k < 2" using lt by (intro int_div_less_two) simp
    moreover have "0 \<le> uint v div 2 ^ k" by (simp add: pos_imp_zdiv_nonneg_iff)
    ultimately have "bit (uint v) k \<longleftrightarrow> uint v div 2 ^ k = 1"
      by (cases "uint v div 2 ^ k = 0") auto
    also have "\<dots> \<longleftrightarrow> \<not> uint v < 2 ^ k"
    proof (cases "uint v < 2 ^ k")
      case False
      then have "1 \<le> uint v div 2 ^ k" using zdiv_mono1 [of "2 ^ k" "uint v" "2 ^ k"] by simp
      with \<open>uint v div 2 ^ k < 2\<close> False show ?thesis by simp
    qed simp
    finally show ?thesis using assms(1) by (simp add: bit_uint_iff)
  qed
  have "sint (of_int (uint v) :: u64) = uint v" if "uint v < 2 ^ k"
    using that le order_trans [OF _ uint_nonnegative [of v], of "- (2 ^ 63)"]
    by (intro sint_of_int_range) (auto intro: order.strict_trans2)
  moreover have "sint (of_int (uint v - 2 ^ Suc k) :: u64) = uint v - 2 ^ Suc k" if "\<not> uint v < 2 ^ k"
    using that le lt by (intro sint_of_int_range) (auto simp: not_less)
  ultimately show ?thesis
    using xor_power [of k v] assms(1) bit by (auto simp: signed_value_def)
qed

lemma get_bits_small:
  assumes "bfd_get_bits p bits big_p = Done v" "0 \<le> bits" "bits \<le> 64"
  shows "take_bit (nat bits) v = v"
proof -
  have b: "bits mod 8 = 0" using assms(1) by (auto simp: bfd_get_bits_def split: if_splits)
  define n where "n = nat (bits div 8)"
  have n: "n \<le> length p" "v = be_number (in_order big_p (take n p)) 0" "8 * n = nat bits"
    using assms(1) b get_bits_loop_number [of 0 n p big_p 0] bits_nat [OF b assms(2)]
    by (auto simp: bfd_get_bits_def Let_def n_def split: if_splits)
  have bound: "take_bit (8 * length bs) (be_number bs 0) = be_number bs 0" for bs
  proof (induction bs rule: rev_induct)
    case (snoc b bs)
    have "be_number (bs @ [b]) 0 = push_bit 8 (be_number bs 0) OR ucast b"
      by (simp add: be_number_def shift_or)
    moreover have "take_bit (8 * length (bs @ [b])) (push_bit 8 (be_number bs 0) OR ucast b)
        = push_bit 8 (take_bit (8 * length bs) (be_number bs 0)) OR ucast b"
      by (rule bit_word_eqI) (auto simp: bit_simps dest: bit_imp_le_length)
    ultimately show ?case using snoc by simp
  qed (simp add: be_number_def)
  have "length (in_order big_p (take n p)) = n" using n(1) by (simp add: in_order_def)
  then show ?thesis using bound [of "in_order big_p (take n p)"] n by simp
qed

lemma coerce_values: "COERCE16 x = (x XOR 2 ^ 15) - 2 ^ 15" "COERCE32 x = (x XOR 2 ^ 31) - 2 ^ 31"
  "COERCE64 x = (x XOR 2 ^ 63) - 2 ^ 63"
  by (simp_all add: COERCE16_def COERCE32_def COERCE64_def push_bit_eq_mult)

text \<open>What a signed reader has to return next to the unsigned one of the same width: the two's complement value
  where that one reads, and nothing where it reads outside of the buffer.\<close>

definition extends :: "nat \<Rightarrow> u64 cresult \<Rightarrow> u64 cresult \<Rightarrow> bool" where
  "extends n u s \<longleftrightarrow>
     (case u of Done v \<Rightarrow> (\<exists>x. s = Done x \<and> sint x = signed_value n v) | Abort \<Rightarrow> s = Abort | Undefined \<Rightarrow> s = Undefined)"

lemma extends_coerce:
  assumes "g = bfd_get_bits p bits big_p" "g = within n p v" "bits = int (Suc k)" "k < 64"
  shows "extends (Suc k) g (within n p ((v XOR 2 ^ k) - 2 ^ k))"
proof (cases "n \<le> length p")
  case True
  then have "take_bit (Suc k) v = v"
    using get_bits_small [of p bits big_p v] assms by (simp add: nat_add_distrib)
  then show ?thesis using sint_coerce [of k v] assms(2,4) True by (simp add: extends_def)
next
  case False
  then show ?thesis using assms(2) by (simp add: extends_def within_def)
qed

text \<open>The signed readers return the two's complement value of what the unsigned reader of the same
  width and byte order returns, and read exactly when that one does.\<close>

theorem signed_readers_extend:
  "extends 16 (bfd_getb16 p) (bfd_getb_signed_16 p) \<and> extends 16 (bfd_getl16 p) (bfd_getl_signed_16 p) \<and>
   extends 32 (bfd_getb32 p) (bfd_getb_signed_32 p) \<and> extends 32 (bfd_getl32 p) (bfd_getl_signed_32 p) \<and>
   extends 64 (bfd_getb64 p) (bfd_getb_signed_64 p) \<and> extends 64 (bfd_getl64 p) (bfd_getl_signed_64 p)"
  using extends_coerce [OF get_fixed(1) bfd_getb16_def, of 15] extends_coerce [OF get_fixed(2) bfd_getl16_def, of 15]
    extends_coerce [OF get_fixed(5) bfd_getb32_def, of 31] extends_coerce [OF get_fixed(6) bfd_getl32_def, of 31]
    extends_coerce [OF get_fixed(7) bfd_getb64_def, of 63] extends_coerce [OF get_fixed(8) bfd_getl64_def, of 63]
  unfolding bfd_getb_signed_16_def bfd_getl_signed_16_def bfd_getb_signed_32_def bfd_getl_signed_32_def
    bfd_getb_signed_64_def bfd_getl_signed_64_def coerce_values
  by simp

lemma octets_be_number: "m \<le> 8 \<Longrightarrow> m = length bs \<Longrightarrow> octets m (be_number (rev bs) 0) = bs"
proof (induction m arbitrary: bs)
  case (Suc m)
  then obtain b r where bs: "bs = b # r" by (cases bs) auto
  let ?v = "be_number (rev r) 0"
  have small: "take_bit (8 * length r) ?v = ?v"
    using get_bits_small [of "rev r" "8 * int (length r)" True ?v] get_bits_loop_number [of 0 "length r" "rev r" True 0] Suc.prems bs
    by (simp add: bfd_get_bits_def Let_def in_order_def nat_mult_distrib)
  have v: "be_number (rev bs) 0 = push_bit 8 ?v OR ucast b" by (simp add: bs be_number_def shift_or)
  have "ucast (push_bit 8 ?v OR ucast b :: u64) = b"
    by (rule bit_word_eqI) (auto simp: bit_simps)
  moreover have "drop_bit 8 (push_bit 8 ?v OR ucast b) = ?v"
  proof (rule bit_word_eqI)
    fix k assume "k < LENGTH(64)"
    have "k < 56" if "bit ?v k"
    proof -
      have "bit (take_bit (8 * length r) ?v) k" using that small by simp
      then have "k < 8 * length r" by (simp add: bit_take_bit_iff)
      then show ?thesis using Suc.prems bs by simp
    qed
    then show "bit (drop_bit 8 (push_bit 8 ?v OR ucast b)) k = bit ?v k"
      by (auto simp: bit_simps dest: bit_imp_le_length)
  qed
  ultimately show ?case using Suc bs v by (simp add: octets_Suc octet_0)
qed (simp add: octets_def)

lemma put_get_bits:
  assumes "bits mod 8 = 0" "0 \<le> bits" "bits \<le> 64" "nat (bits div 8) \<le> length addr"
  shows "(\<exists>addr'. bfd_put_bits data addr bits big_p = Done addr' \<and> length addr' = length addr \<and>
      drop (nat (bits div 8)) addr' = drop (nat (bits div 8)) addr \<and>
      bfd_get_bits addr' bits big_p = Done (take_bit (nat bits) data)) \<and>
    (\<forall>v. bfd_get_bits addr bits big_p = Done v \<longrightarrow> bfd_put_bits v addr bits big_p = Done addr)"
proof -
  define n where "n = nat (bits div 8)"
  have n: "n \<le> length addr" "8 * n = nat bits" "n \<le> 8"
    using assms bits_nat [OF assms(1,2)] by (auto simp: n_def)
  let ?a = "put_bits_loop 0 n big_p data addr"
  have put: "bfd_put_bits d addr bits big_p = Done (put_bits_loop 0 n big_p d addr)" for d
    using assms n by (simp add: bfd_put_bits_def Let_def n_def [symmetric])
  have get: "bfd_get_bits a bits big_p = Done (be_number (in_order big_p (take n a)) 0)" if "n \<le> length a" for a
    using assms that get_bits_loop_number [of 0 n a big_p 0]
    by (simp add: bfd_get_bits_def Let_def n_def [symmetric])
  have len: "length (put_bits_loop 0 n big_p d addr) = length addr" for d
    using put_bits_loop_octets [of 0 n addr big_p d] n by simp
  have again: "put_bits_loop 0 n big_p (be_number (in_order big_p (take n addr)) 0) addr = addr"
  proof -
    show ?thesis
      using put_bits_loop_octets [of 0 n addr big_p] n octets_be_number [of n "take n addr"] octets_be_number [of n "rev (take n addr)"]
      by (simp add: in_order_def)
  qed
  show ?thesis
    using put get [OF n(1)] get [of ?a] len [of data] in_order_put [OF n(1), of big_p data] n again
    by (auto simp: be_number_octets n_def [symmetric])
qed

text \<open>C37: Writing a number of \<open>bits\<close> bits and reading it back, in either byte order, gives its low \<open>bits\<close>
  bits and touches no other byte of the buffer; and writing back what was read changes nothing.\<close>

theorem put_get_bits_roundtrip:
  assumes "bits mod 8 = 0" "0 \<le> bits" "bits \<le> 64" "nat (bits div 8) \<le> length addr"
  shows "(\<exists>addr'. bfd_put_bits data addr bits big_p = Done addr' \<and> length addr' = length addr \<and>
      drop (nat (bits div 8)) addr' = drop (nat (bits div 8)) addr \<and>
      bfd_get_bits addr' bits big_p = Done (take_bit (nat bits) data)) \<and>
    (\<forall>v. bfd_get_bits addr bits big_p = Done v \<longrightarrow> bfd_put_bits v addr bits big_p = Done addr)"
  using put_get_bits [OF assms] .

theorem put_get_bits_roundtrip_witness:
  "\<exists>addr'. bfd_put_bits 0x12345678 [1, 2, 3, 4] 24 True = Done addr' \<and> bfd_get_bits addr' 24 True = Done 0x345678"
  using put_get_bits_roundtrip [of 24 "[1, 2, 3, 4]" "0x12345678" True] by (auto simp: take_bit_eq_mod)

text \<open>The sixteen readers and writers of fixed size are the two loops at their size and byte order,
  so the round trip holds for them too.\<close>

theorem fixed_sizes_are_loops:
  "bfd_getb16 p = bfd_get_bits p 16 True \<and> bfd_getl16 p = bfd_get_bits p 16 False \<and>
   bfd_getb24 p = bfd_get_bits p 24 True \<and> bfd_getl24 p = bfd_get_bits p 24 False \<and>
   bfd_getb32 p = bfd_get_bits p 32 True \<and> bfd_getl32 p = bfd_get_bits p 32 False \<and>
   bfd_getb64 p = bfd_get_bits p 64 True \<and> bfd_getl64 p = bfd_get_bits p 64 False \<and>
   bfd_putb16 d p = bfd_put_bits d p 16 True \<and> bfd_putl16 d p = bfd_put_bits d p 16 False \<and>
   bfd_putb24 d p = bfd_put_bits d p 24 True \<and> bfd_putl24 d p = bfd_put_bits d p 24 False \<and>
   bfd_putb32 d p = bfd_put_bits d p 32 True \<and> bfd_putl32 d p = bfd_put_bits d p 32 False \<and>
   bfd_putb64 d p = bfd_put_bits d p 64 True \<and> bfd_putl64 d p = bfd_put_bits d p 64 False"
  by (simp add: get_fixed put_fixed)

end
