(* ===== verification/Olnk_Util.thy ===== *)
theory Olnk_Util
  imports Olnk_Effects Olnk_Status Bfd_Bytes
begin

text \<open>
  The internal helpers of the linker: whole-file input and output (\<open>file_io.cpp\<close>), the buffer behind the
  memory-map interface (\<open>memory_map.cpp\<close>), the incremental cache (\<open>incremental.cpp\<close>), the header prefix
  parser (\<open>handle_header.cpp\<close>), the task runner (\<open>threading.cpp\<close>), hashing (\<open>hash.cpp\<close>) and the
  checks for Lua modules (\<open>lua_format.cpp\<close>, \<open>lua_machine.cpp\<close>, \<open>lua_linker_script.cpp\<close>,
  \<open>lua_global_utils.cpp\<close>).  File streams and the xxHash library are parameters.
\<close>

section \<open>Files\<close>

text \<open>What the file streams do.  \<open>fe_tellg\<close> is the position after seeking to the end, negative on failure;
  \<open>fe_read\<close> is what reading \<open>n\<close> bytes from the beginning puts into the buffer, or a stream in a bad state;
  \<open>fe_write_good\<close> is the stream state after the write, before the buffer is flushed, and \<open>fe_written\<close> is what the
  file holds once the stream is closed.\<close>

record file_env =
  fe_open_in :: "string \<Rightarrow> bool"
  fe_tellg :: "string \<Rightarrow> (string \<rightharpoonup> bytes) \<Rightarrow> int"
  fe_read :: "string \<Rightarrow> (string \<rightharpoonup> bytes) \<Rightarrow> nat \<Rightarrow> bytes option"
  fe_open_out :: "string \<Rightarrow> bool"
  fe_write_good :: "string \<Rightarrow> bytes \<Rightarrow> bool"
  fe_written :: "string \<Rightarrow> bytes \<Rightarrow> bytes"
  fe_resize_ok :: "nat \<Rightarrow> bool"

record file_world =
  fw_env :: file_env
  fw_files :: "string \<rightharpoonup> bytes"

datatype FileIoStatus = File_kOk | File_kInvalidArgument | File_kOpenFailed | File_kReadFailed | File_kWriteFailed | File_kPartialWrite

record FileReadResult =
  fr_status :: FileIoStatus
  fr_bytes :: bytes

record FileWriteResult =
  fwr_status :: FileIoStatus
  fwr_bytes_written :: size_t

text \<open>\<open>resize\<close> may run out of memory.\<close>

definition read_file_all :: "string \<Rightarrow> (FileReadResult, file_world) prog" where
  "read_file_all path w =
     (let e = fw_env w; result = \<lparr>fr_status = File_kInvalidArgument, fr_bytes = []\<rparr>
      in if path = [] then Ret result w
         else if \<not> fe_open_in e path then Ret (result\<lparr>fr_status := File_kOpenFailed\<rparr>) w
         else let size = fe_tellg e path (fw_files w)
              in if size < 0 then Ret (result\<lparr>fr_status := File_kReadFailed\<rparr>) w
                 else if \<not> fe_resize_ok e (nat size) then Exn BadAlloc w
                 else if nat size = 0 then Ret (result\<lparr>fr_status := File_kOk\<rparr>) w
                 else case fe_read e path (fw_files w) (nat size) of
                        None \<Rightarrow> Ret (result\<lparr>fr_status := File_kReadFailed\<rparr>) w
                      | Some bs \<Rightarrow> Ret \<lparr>fr_status = File_kOk, fr_bytes = bs\<rparr> w)"

text \<open>\<open>data\<close> is the array behind the pointer, \<open>None\<close> the null pointer; the caller vouches for \<open>size\<close> bytes.\<close>

definition write_file_all :: "string \<Rightarrow> bytes option \<Rightarrow> size_t \<Rightarrow> (FileWriteResult, file_world) prog" where
  "write_file_all path data n w =
     (let e = fw_env w; result = \<lparr>fwr_status = File_kInvalidArgument, fwr_bytes_written = 0\<rparr>
      in if path = [] \<or> data = None \<and> n \<noteq> 0 then Ret result w
         else if \<not> fe_open_out e path then Ret (result\<lparr>fwr_status := File_kOpenFailed\<rparr>) w
         else case data of
                Some xs \<Rightarrow>
                  if length xs < unat n then Fault UndefinedBehaviour
                  else let bs = take (unat n) xs; w' = w\<lparr>fw_files := (fw_files w)(path \<mapsto> fe_written e path bs)\<rparr>
                       in if \<not> fe_write_good e path bs then Ret (result\<lparr>fwr_status := File_kWriteFailed\<rparr>) w'
                          else Ret \<lparr>fwr_status = File_kOk, fwr_bytes_written = n\<rparr> w'
              | None \<Rightarrow>
                  let w' = w\<lparr>fw_files := (fw_files w)(path \<mapsto> fe_written e path [])\<rparr>
                  in if \<not> fe_write_good e path [] then Ret (result\<lparr>fwr_status := File_kWriteFailed\<rparr>) w'
                     else Ret \<lparr>fwr_status = File_kOk, fwr_bytes_written = n\<rparr> w')"

datatype MemoryMapStatus = Map_kOk | Map_kInvalidArgument | Map_kOpenFailed | Map_kReadFailed

record MemoryMapView =
  mv_data :: "bytes option"
  mv_size :: size_t

record MemoryMappedFile =
  mm_buffer :: bytes

text \<open>The status and the object afterwards; with an exception the object has an empty buffer.\<close>

definition MemoryMappedFile_open ::
    "string \<Rightarrow> MemoryMappedFile \<Rightarrow> (MemoryMapStatus \<times> MemoryMappedFile, file_world) prog" where
  "MemoryMappedFile_open path m w =
     (let e = fw_env w; m = m\<lparr>mm_buffer := []\<rparr>
      in if path = [] then Ret (Map_kInvalidArgument, m) w
         else if \<not> fe_open_in e path then Ret (Map_kOpenFailed, m) w
         else let size = fe_tellg e path (fw_files w)
              in if size < 0 then Ret (Map_kReadFailed, m) w
                 else if \<not> fe_resize_ok e (nat size) then Exn BadAlloc w
                 else if nat size = 0 then Ret (Map_kOk, m) w
                 else case fe_read e path (fw_files w) (nat size) of
                        None \<Rightarrow> Ret (Map_kReadFailed, m) w
                      | Some bs \<Rightarrow> Ret (Map_kOk, m\<lparr>mm_buffer := bs\<rparr>) w)"

definition MemoryMappedFile_view :: "MemoryMappedFile \<Rightarrow> MemoryMapView" where
  "MemoryMappedFile_view m =
     \<lparr>mv_data = (if mm_buffer m = [] then None else Some (mm_buffer m)), mv_size = of_nat (length (mm_buffer m))\<rparr>"

definition MemoryMappedFile_close :: "MemoryMappedFile \<Rightarrow> MemoryMappedFile" where
  "MemoryMappedFile_close m = m\<lparr>mm_buffer := []\<rparr>"

text \<open>A file system that keeps what it is given.\<close>

definition faithful :: "file_env \<Rightarrow> bool" where
  "faithful e \<longleftrightarrow>
     (\<forall>p bs. fe_written e p bs = bs) \<and> (\<forall>p. fe_open_in e p) \<and> (\<forall>n. fe_resize_ok e n) \<and>
     (\<forall>p fs bs. fs p = Some bs \<longrightarrow> fe_tellg e p fs = int (length bs) \<and> fe_read e p fs (length bs) = Some bs)"

definition map_status :: "FileIoStatus \<Rightarrow> MemoryMapStatus" where
  "map_status s = (case s of File_kOk \<Rightarrow> Map_kOk | File_kInvalidArgument \<Rightarrow> Map_kInvalidArgument
     | File_kOpenFailed \<Rightarrow> Map_kOpenFailed | _ \<Rightarrow> Map_kReadFailed)"

lemma MemoryMappedFile_open_read:
  "MemoryMappedFile_open path m = mbind (read_file_all path) (\<lambda>r. mret (map_status (fr_status r), m\<lparr>mm_buffer := fr_bytes r\<rparr>))"
  by (rule ext) (simp add: MemoryMappedFile_open_def read_file_all_def mbind_def mret_def map_status_def Let_def split: option.split)

text \<open>What is written can be read back: on a file system that keeps what it is given, when \<open>write_file_all\<close>
  reports success for a buffer of that size, it wrote that many bytes, \<open>read_file_all\<close> returns exactly them, and so
  does the view of a memory-mapped file opened on the path, whatever the object held before.\<close>

theorem file_roundtrip:
  assumes "faithful (fw_env w)" "length bs < 2 ^ 64"
    and "write_file_all path (Some bs) (of_nat (length bs)) w = Ret r w'" "fwr_status r = File_kOk"
  shows "fwr_bytes_written r = of_nat (length bs) \<and>
    read_file_all path w' = Ret \<lparr>fr_status = File_kOk, fr_bytes = bs\<rparr> w' \<and>
    (\<exists>m'. MemoryMappedFile_open path m w' = Ret (Map_kOk, m') w' \<and>
       MemoryMappedFile_view m' = \<lparr>mv_data = (if bs = [] then None else Some bs), mv_size = of_nat (length bs)\<rparr>)"
proof -
  have n: "unat (of_nat (length bs) :: size_t) = length bs"
    using assms(2) by (simp add: unat_of_nat)
  have w': "path \<noteq> []" "w' = w\<lparr>fw_files := (fw_files w)(path \<mapsto> bs)\<rparr>" "fwr_bytes_written r = of_nat (length bs)"
    using assms(1,3,4) by (auto simp: write_file_all_def n Let_def faithful_def split: if_splits)
  moreover have "read_file_all path w' = Ret \<lparr>fr_status = File_kOk, fr_bytes = bs\<rparr> w'"
    using assms(1) w'(1) unfolding w'(2) read_file_all_def Let_def faithful_def by (simp add: Let_def)
  ultimately show ?thesis
    by (auto simp: MemoryMappedFile_open_read mbind_def mret_def map_status_def MemoryMappedFile_view_def)
qed

definition sample_file_env :: file_env where
  "sample_file_env = \<lparr>fe_open_in = \<lambda>_. True, fe_tellg = \<lambda>p fs. (case fs p of None \<Rightarrow> - 1 | Some bs \<Rightarrow> int (length bs)),
     fe_read = \<lambda>p fs n. (case fs p of None \<Rightarrow> None | Some bs \<Rightarrow> if n \<le> length bs then Some (take n bs) else None),
     fe_open_out = \<lambda>_. True, fe_write_good = \<lambda>_ _. True, fe_written = \<lambda>_ bs. bs, fe_resize_ok = \<lambda>_. True\<rparr>"

theorem file_roundtrip_witness:
  "\<exists>w'. write_file_all ''a'' (Some [1, 2]) 2 \<lparr>fw_env = sample_file_env, fw_files = Map.empty\<rparr> =
      Ret \<lparr>fwr_status = File_kOk, fwr_bytes_written = 2\<rparr> w' \<and>
    read_file_all ''a'' w' = Ret \<lparr>fr_status = File_kOk, fr_bytes = [1, 2]\<rparr> w'"
proof -
  let ?w = "\<lparr>fw_env = sample_file_env, fw_files = Map.empty\<rparr>"
  have "faithful (fw_env ?w)" by (simp add: faithful_def sample_file_env_def)
  moreover obtain w' where "write_file_all ''a'' (Some [1, 2]) (of_nat (length [1, 2 :: u8])) ?w =
      Ret \<lparr>fwr_status = File_kOk, fwr_bytes_written = 2\<rparr> w'"
    by (simp add: write_file_all_def sample_file_env_def Let_def)
  ultimately show ?thesis using file_roundtrip [of ?w "[1, 2]" "''a''" _ w'] by auto
qed

section \<open>Incremental cache\<close>

datatype IncrementalStatus = Inc_kOk | Inc_kDisabled | Inc_kInvalidArgument | Inc_kCacheMiss | Inc_kIncompatible | Inc_kIoFailure

record IncrementalMetadata =
  im_schema_version :: u32
  im_key :: string

record IncrementalLoadResult =
  il_status :: IncrementalStatus
  il_metadata :: IncrementalMetadata

record IncrementalCache =
  ic_supported_schema_version :: u32
  ic_entries :: "string \<rightharpoonup> IncrementalMetadata"

definition IncrementalCache_new :: "u32 \<Rightarrow> IncrementalCache" where
  "IncrementalCache_new v = \<lparr>ic_supported_schema_version = v, ic_entries = Map.empty\<rparr>"

definition IncrementalLoadResult_default :: IncrementalLoadResult where
  "IncrementalLoadResult_default = \<lparr>il_status = Inc_kDisabled, il_metadata = \<lparr>im_schema_version = 1, im_key = []\<rparr>\<rparr>"

definition try_load :: "IncrementalCache \<Rightarrow> string \<Rightarrow> u32 \<Rightarrow> IncrementalLoadResult" where
  "try_load c cache_key on_disk_schema_version =
     (let result = IncrementalLoadResult_default
      in if cache_key = [] then result\<lparr>il_status := Inc_kInvalidArgument\<rparr>
         else if on_disk_schema_version \<noteq> ic_supported_schema_version c then result\<lparr>il_status := Inc_kIncompatible\<rparr>
         else case ic_entries c cache_key of
                None \<Rightarrow> result\<lparr>il_status := Inc_kCacheMiss\<rparr>
              | Some md \<Rightarrow> \<lparr>il_status = Inc_kOk, il_metadata = md\<rparr>)"

definition store :: "IncrementalMetadata \<Rightarrow> IncrementalCache \<Rightarrow> IncrementalStatus \<times> IncrementalCache" where
  "store md c =
     (if im_key md = [] then (Inc_kInvalidArgument, c)
      else if im_schema_version md \<noteq> ic_supported_schema_version c then (Inc_kIncompatible, c)
      else (Inc_kOk, c\<lparr>ic_entries := (ic_entries c)(im_key md \<mapsto> md)\<rparr>))"

text \<open>The caches that a sequence of stores can produce, and what such a cache never does: hand out metadata of another
  schema or of another key.\<close>

definition cache_after :: "u32 \<Rightarrow> IncrementalMetadata list \<Rightarrow> IncrementalCache" where
  "cache_after v mds = fold (\<lambda>md c. snd (store md c)) mds (IncrementalCache_new v)"

definition storable :: "u32 \<Rightarrow> IncrementalMetadata \<Rightarrow> bool" where
  "storable v md \<longleftrightarrow> im_key md \<noteq> [] \<and> im_schema_version md = v"

lemma cache_after_snoc: "cache_after v (mds @ [md]) = snd (store md (cache_after v mds))"
  by (simp add: cache_after_def)

lemma cache_after_version [simp]: "ic_supported_schema_version (cache_after v mds) = v"
  by (induction mds rule: rev_induct) (simp_all add: cache_after_snoc store_def, simp add: cache_after_def IncrementalCache_new_def)

lemma cache_after_entries:
  "ic_entries (cache_after v mds) k = find (\<lambda>md. storable v md \<and> im_key md = k) (rev mds)"
proof (induction mds rule: rev_induct)
  case Nil
  then show ?case by (simp add: cache_after_def IncrementalCache_new_def)
next
  case (snoc md mds)
  then show ?case by (auto simp: cache_after_snoc store_def storable_def)
qed

text \<open>The cache answers with the last metadata stored under the key, provided the schema on disk is the supported one; metadata
  of another schema, and the empty key, never get in.\<close>

lemma try_load_last:
  "try_load (cache_after v mds) key disk =
     (if key = [] then IncrementalLoadResult_default\<lparr>il_status := Inc_kInvalidArgument\<rparr>
      else if disk \<noteq> v then IncrementalLoadResult_default\<lparr>il_status := Inc_kIncompatible\<rparr>
      else case find (\<lambda>md. storable v md \<and> im_key md = key) (rev mds) of
             None \<Rightarrow> IncrementalLoadResult_default\<lparr>il_status := Inc_kCacheMiss\<rparr>
           | Some md \<Rightarrow> \<lparr>il_status = Inc_kOk, il_metadata = md\<rparr>)"
  by (simp add: try_load_def Let_def cache_after_entries)

section \<open>Header prefix\<close>

datatype HeaderParseStatus = Header_kOk | Header_kInvalidArgument | Header_kTooSmall | Header_kUnsupported

record HeaderView =
  hv_data :: "bytes option"
  hv_size :: size_t

record ParsedHeaderInfo =
  hi_magic :: u32
  hi_machine :: u16
  hi_kind :: u16

text \<open>\<open>out_info\<close> is the object behind the pointer; the result has what it holds afterwards.\<close>

definition parse_header_prefix ::
    "HeaderView \<Rightarrow> ParsedHeaderInfo option \<Rightarrow> (HeaderParseStatus \<times> ParsedHeaderInfo option) cresult" where
  "parse_header_prefix input out_info =
     (let cleared = Some \<lparr>hi_magic = 0, hi_machine = 0, hi_kind = 0\<rparr>
      in if out_info = None then Done (Header_kInvalidArgument, None)
         else case hv_data input of
                None \<Rightarrow> Done (Header_kInvalidArgument, cleared)
              | Some b \<Rightarrow>
                  if hv_size input = 0 then Done (Header_kInvalidArgument, cleared)
                  else if hv_size input < 8 then Done (Header_kTooSmall, cleared)
                  else within 8 b (Header_kOk, Some
                    \<lparr>hi_magic = ucast (b ! 0) OR push_bit 8 (ucast (b ! 1)) OR push_bit 16 (ucast (b ! 2)) OR push_bit 24 (ucast (b ! 3)),
                     hi_machine = ucast (b ! 4) OR push_bit 8 (ucast (b ! 5)),
                     hi_kind = ucast (b ! 6) OR push_bit 8 (ucast (b ! 7))\<rparr>))"

lemma parse_header_prefix_little_endian:
  assumes "hv_data input = Some b" "8 \<le> hv_size input" "8 \<le> length b"
  shows "\<exists>info magic machine kind. parse_header_prefix input (Some out) = Done (Header_kOk, Some info) \<and>
    bfd_getl32 b = Done magic \<and> bfd_getl16 (drop 4 b) = Done machine \<and> bfd_getl16 (drop 6 b) = Done kind \<and>
    magic = ucast (hi_magic info) \<and> machine = ucast (hi_machine info) \<and> kind = ucast (hi_kind info)"
proof -
  have "hv_size input \<noteq> 0" "\<not> hv_size input < 8" using assms(2) by (auto simp: not_less)
  moreover have "(push_bit 8 (ucast y) OR ucast x :: u64) = ucast (ucast x OR push_bit 8 (ucast y) :: u16)" for x y :: u8
  proof (rule bit_word_eqI)
    fix n
    have "n < 8" if "bit x n" using bit_imp_le_length [OF that] by simp
    moreover have "n - 8 < 8" if "bit y (n - 8)" using bit_imp_le_length [OF that] by simp
    ultimately show "bit (push_bit 8 (ucast y) OR ucast x :: u64) n = bit (ucast (ucast x OR push_bit 8 (ucast y) :: u16) :: u64) n"
      by (auto simp: bit_simps)
  qed
  ultimately show ?thesis
    using assms(1,3) by (simp add: parse_header_prefix_def bfd_getl32_def bfd_getl16_def at_def Let_def)
qed

section \<open>Tasks\<close>

record 'w DeterministicTaskRunner =
  dt_tasks :: "(unit, 'w) prog list"

definition add_task :: "(unit, 'w) prog option \<Rightarrow> 'w DeterministicTaskRunner \<Rightarrow> 'w DeterministicTaskRunner" where
  "add_task task r = (case task of None \<Rightarrow> r | Some t \<Rightarrow> r\<lparr>dt_tasks := dt_tasks r @ [t]\<rparr>)"

definition run_all_serial :: "'w DeterministicTaskRunner \<Rightarrow> (unit, 'w) prog" where
  "run_all_serial r = mfold (\<lambda>task. task) (dt_tasks r)"

definition task_count :: "'w DeterministicTaskRunner \<Rightarrow> size_t" where
  "task_count r = of_nat (length (dt_tasks r))"

definition clear_tasks :: "'w DeterministicTaskRunner \<Rightarrow> 'w DeterministicTaskRunner" where
  "clear_tasks r = r\<lparr>dt_tasks := []\<rparr>"

lemma mfold_append: "mfold f (xs @ ys) = mseq (mfold f xs) (mfold f ys)"
  by (induction xs) (auto simp: fun_eq_iff mseq_def mbind_def mret_def split: outcome.split)

text \<open>Tasks run once each, in the order they were added, null functions left out, and an exception ends the run.\<close>

lemma dt_tasks_added: "dt_tasks (fold add_task ts r) = dt_tasks r @ List.map_filter id ts"
  by (induction ts arbitrary: r) (auto simp: add_task_def List.map_filter_def split: option.split)

lemma run_all_serial_order:
  "run_all_serial (fold add_task ts r) = mseq (run_all_serial r) (mfold (\<lambda>task. task) (List.map_filter id ts))"
  by (simp add: run_all_serial_def dt_tasks_added mfold_append)

section \<open>Hashing\<close>

text \<open>The xxHash library: the hash of a block, and the streaming state.\<close>

record 's xxh3 =
  xx_withSeed :: "bytes \<Rightarrow> u64 \<Rightarrow> u64"
  xx_initial :: 's
  xx_reset :: "'s \<Rightarrow> u64 \<Rightarrow> 's"
  xx_update :: "'s \<Rightarrow> bytes \<Rightarrow> 's"
  xx_digest :: "'s \<Rightarrow> u64"

definition kDefaultSeed :: u64 where
  "kDefaultSeed = 0x9E3779B185EBCA87"

definition hash_bytes64 :: "'s xxh3 \<Rightarrow> bytes option \<Rightarrow> u64 \<Rightarrow> u64" where
  "hash_bytes64 x data seed =
     (case data of None \<Rightarrow> xx_withSeed x [] seed | Some bs \<Rightarrow> if bs = [] then xx_withSeed x [] seed else xx_withSeed x bs seed)"

lemma hash_bytes64_simps [simp]:
  "hash_bytes64 x (Some bs) seed = xx_withSeed x bs seed" "hash_bytes64 x None seed = xx_withSeed x [] seed"
  by (simp_all add: hash_bytes64_def)

definition hash_string64 :: "'s xxh3 \<Rightarrow> bytes \<Rightarrow> u64 \<Rightarrow> u64" where
  "hash_string64 x s seed = hash_bytes64 x (Some s) seed"

text \<open>The object representation of a pair of words on a little-endian machine.\<close>

definition word_bytes :: "u64 \<Rightarrow> bytes" where
  "word_bytes v = map (\<lambda>i. ucast (drop_bit (8 * i) v)) [0..<8]"

definition hash_u64_pair :: "'s xxh3 \<Rightarrow> u64 \<Rightarrow> u64 \<Rightarrow> u64 \<Rightarrow> u64" where
  "hash_u64_pair x a b seed = hash_bytes64 x (Some (word_bytes a @ word_bytes b)) seed"

definition hash_combine64 :: "'s xxh3 \<Rightarrow> u64 \<Rightarrow> u64 \<Rightarrow> u64 \<Rightarrow> u64" where
  "hash_combine64 x current next seed = hash_u64_pair x current next seed"

text \<open>The states that \<open>XXH3_createState\<close> hands out.\<close>

record 's xx_heap =
  xh_alloc :: "nat \<Rightarrow> bool"
  xh_next :: nat
  xh_states :: "nat \<rightharpoonup> 's"

record hash64_builder =
  hb_state :: "nat option"
  hb_seed :: u64

definition XXH3_createState :: "'s xxh3 \<Rightarrow> (nat option, 's xx_heap) prog" where
  "XXH3_createState x h =
     (if xh_alloc h (xh_next h)
      then Ret (Some (xh_next h)) (h\<lparr>xh_next := Suc (xh_next h), xh_states := (xh_states h)(xh_next h \<mapsto> xx_initial x)\<rparr>)
      else Ret None (h\<lparr>xh_next := Suc (xh_next h)\<rparr>))"

definition XXH3_freeState :: "nat \<Rightarrow> (unit, 's xx_heap) prog" where
  "XXH3_freeState a h = (if xh_states h a = None then Fault UndefinedBehaviour else Ret () (h\<lparr>xh_states := (xh_states h)(a := None)\<rparr>))"

definition with_state :: "nat \<Rightarrow> ('s \<Rightarrow> 's) \<Rightarrow> (unit, 's xx_heap) prog" where
  "with_state a f h = (case xh_states h a of None \<Rightarrow> Fault UndefinedBehaviour | Some s \<Rightarrow> Ret () (h\<lparr>xh_states := (xh_states h)(a \<mapsto> f s)\<rparr>))"

definition hash64_builder_new :: "'s xxh3 \<Rightarrow> u64 \<Rightarrow> (hash64_builder, 's xx_heap) prog" where
  "hash64_builder_new x seed =
     mbind (XXH3_createState x) (\<lambda>st.
       mseq (case st of None \<Rightarrow> mret () | Some a \<Rightarrow> with_state a (\<lambda>s. xx_reset x s seed))
         (mret \<lparr>hb_state = st, hb_seed = seed\<rparr>))"

definition hash64_builder_destroy :: "hash64_builder \<Rightarrow> (unit, 's xx_heap) prog" where
  "hash64_builder_destroy b = (case hb_state b of None \<Rightarrow> mret () | Some a \<Rightarrow> XXH3_freeState a)"

text \<open>Move construction: the new object and what is left of the old one.\<close>

definition hash64_builder_move :: "hash64_builder \<Rightarrow> hash64_builder \<times> hash64_builder" where
  "hash64_builder_move other = (other, \<lparr>hb_state = None, hb_seed = 0\<rparr>)"

text \<open>Move assignment between two different objects; assignment to itself does nothing.\<close>

definition hash64_builder_assign :: "hash64_builder \<Rightarrow> hash64_builder \<Rightarrow> (hash64_builder \<times> hash64_builder, 's xx_heap) prog" where
  "hash64_builder_assign this other =
     mseq (case hb_state this of None \<Rightarrow> mret () | Some a \<Rightarrow> XXH3_freeState a)
       (mret (other, \<lparr>hb_state = None, hb_seed = 0\<rparr>))"

definition hash64_builder_update :: "'s xxh3 \<Rightarrow> hash64_builder \<Rightarrow> bytes option \<Rightarrow> (unit, 's xx_heap) prog" where
  "hash64_builder_update x b data =
     (case (hb_state b, data) of
        (Some a, Some bs) \<Rightarrow> if bs = [] then mret () else with_state a (\<lambda>s. xx_update x s bs)
      | _ \<Rightarrow> mret ())"

definition hash64_builder_digest :: "'s xxh3 \<Rightarrow> hash64_builder \<Rightarrow> (u64, 's xx_heap) prog" where
  "hash64_builder_digest x b =
     (case hb_state b of None \<Rightarrow> mret (hash_bytes64 x (Some []) (hb_seed b))
      | Some a \<Rightarrow> mbind (mderef (\<lambda>h. xh_states h a)) (\<lambda>s. mret (xx_digest x s)))"

definition hash64_builder_reset :: "'s xxh3 \<Rightarrow> hash64_builder \<Rightarrow> (unit, 's xx_heap) prog" where
  "hash64_builder_reset x b = (case hb_state b of None \<Rightarrow> mret () | Some a \<Rightarrow> with_state a (\<lambda>s. xx_reset x s (hb_seed b)))"

definition hash64_builder_seed :: "hash64_builder \<Rightarrow> u64" where
  "hash64_builder_seed b = hb_seed b"

lemmas builder_defs = hash64_builder_new_def hash64_builder_destroy_def hash64_builder_update_def hash64_builder_digest_def
  hash64_builder_reset_def hash64_builder_assign_def XXH3_createState_def XXH3_freeState_def with_state_def

text \<open>What a live builder has been fed with, on the side of the model: \<open>fed\<close> says that the builder's state is the one the library
  has after a reset and these blocks.\<close>

definition fed :: "'s xxh3 \<Rightarrow> hash64_builder \<Rightarrow> bytes list \<Rightarrow> 's xx_heap \<Rightarrow> bool" where
  "fed x b blocks h \<longleftrightarrow>
     (case hb_state b of None \<Rightarrow> True
      | Some a \<Rightarrow> \<exists>s. xh_states h a = Some (fold (\<lambda>bs s. xx_update x s bs) blocks (xx_reset x s (hb_seed b))))"

definition blocks_of :: "bytes option list \<Rightarrow> bytes list" where
  "blocks_of chunks = filter (\<lambda>bs. bs \<noteq> []) (List.map_filter id chunks)"

lemma blocks_of_simps [simp]:
  "blocks_of [] = []" "blocks_of (None # cs) = blocks_of cs"
  "blocks_of (Some bs # cs) = (if bs = [] then blocks_of cs else bs # blocks_of cs)"
  by (simp_all add: blocks_of_def List.map_filter_def)

text \<open>A whole use: construct, feed, move into another object, read the digest twice, destroy both objects.\<close>

definition hash_session :: "'s xxh3 \<Rightarrow> u64 \<Rightarrow> bytes option list \<Rightarrow> (u64 \<times> u64, 's xx_heap) prog" where
  "hash_session x seed chunks =
     mbind (hash64_builder_new x seed) (\<lambda>b.
       mseq (mfold (hash64_builder_update x b) chunks)
         (case hash64_builder_move b of (c, b') \<Rightarrow>
            mbind (hash64_builder_digest x c) (\<lambda>d1.
            mbind (hash64_builder_digest x c) (\<lambda>d2.
            mseq (hash64_builder_destroy c) (mseq (hash64_builder_destroy b') (mret (d1, d2)))))))"

lemma updates_feed:
  assumes "xh_states h a = Some s"
  shows "mfold (hash64_builder_update x \<lparr>hb_state = Some a, hb_seed = seed\<rparr>) chunks h =
    Ret () (h\<lparr>xh_states := (xh_states h)(a \<mapsto> fold (\<lambda>bs s. xx_update x s bs) (blocks_of chunks) s)\<rparr>)"
  using assms
proof (induction chunks arbitrary: h s)
  case Nil
  then show ?case by (simp add: mret_def map_upd_triv)
next
  case (Cons c chunks)
  note IH = Cons.IH [of h s] Cons.IH [of "h\<lparr>xh_states := (xh_states h)(a \<mapsto> xx_update x s bs)\<rparr>" for bs]
  show ?case
  proof (cases c)
    case None
    then show ?thesis using IH(1) Cons.prems by (simp add: hash64_builder_update_def mseq_def mbind_def mret_def)
  next
    case (Some bs)
    then show ?thesis using IH Cons.prems
      by (cases "bs = []") (simp_all add: hash64_builder_update_def with_state_def mseq_def mbind_def mret_def cong: if_cong)
  qed
qed

lemma updates_null: "mfold (hash64_builder_update x \<lparr>hb_state = None, hb_seed = seed\<rparr>) chunks h = Ret () h"
  by (induction chunks) (simp_all add: hash64_builder_update_def mseq_def mbind_def mret_def)

lemma concat_blocks: "concat (blocks_of chunks) = concat (map (\<lambda>c. case c of None \<Rightarrow> [] | Some bs \<Rightarrow> bs) chunks)"
  by (induction chunks) (auto split: option.split)

text \<open>The hash builder hashes the concatenation of what it is fed.  If the library's streaming digest of blocks
  is the hash of their concatenation, as its interface documents, then a builder that is fed any chunks
  (null and empty ones are skipped), moved and read gives the one-shot hash of all bytes under its seed, the same on every
  read; without memory for a state it gives the hash of the empty input.  No state is leaked, freed twice or used
  after it was freed.\<close>

theorem hash_builder_streams:
  fixes x :: "'s xxh3"
  assumes "\<And>s seed blocks. xx_digest x (fold (\<lambda>bs s. xx_update x s bs) blocks (xx_reset x s seed)) = xx_withSeed x (concat blocks) seed"
    and "xh_states h (xh_next h) = None"
  shows "hash_session x seed chunks h =
    (let d = (if xh_alloc h (xh_next h) then hash_bytes64 x (Some (concat (map (\<lambda>c. case c of None \<Rightarrow> [] | Some bs \<Rightarrow> bs) chunks))) seed
              else hash_bytes64 x None seed)
     in Ret (d, d) (h\<lparr>xh_next := Suc (xh_next h)\<rparr>))"
proof (cases "xh_alloc h (xh_next h)")
  case True
  let ?h = "h\<lparr>xh_next := Suc (xh_next h), xh_states := (xh_states h)(xh_next h \<mapsto> xx_reset x (xx_initial x) seed)\<rparr>"
  have "(xh_states h)(xh_next h := None) = xh_states h" using assms(2) by (simp add: fun_upd_idem)
  moreover have "hash64_builder_new x seed h = Ret \<lparr>hb_state = Some (xh_next h), hb_seed = seed\<rparr> ?h"
    using True by (simp add: builder_defs mbind_def mseq_def mret_def)
  moreover note updates_feed [of ?h "xh_next h" "xx_reset x (xx_initial x) seed" x seed chunks]
  ultimately show ?thesis
    using True assms(1) concat_blocks [of chunks]
    by (simp add: hash_session_def mbind_def mseq_def mret_def hash64_builder_move_def hash64_builder_digest_def
        hash64_builder_destroy_def XXH3_freeState_def mderef_def Let_def)
next
  case False
  then show ?thesis
    by (simp add: hash_session_def builder_defs mbind_def mseq_def mret_def hash64_builder_move_def updates_null Let_def)
qed

text \<open>A stand-in for the library that keeps the seed and the bytes.\<close>

definition sample_xxh :: "(u64 \<times> bytes) xxh3" where
  "sample_xxh = \<lparr>xx_withSeed = \<lambda>bs seed. fold (\<lambda>b v. 31 * v + ucast b) bs seed, xx_initial = (0, []), xx_reset = \<lambda>_ seed. (seed, []),
     xx_update = \<lambda>(seed, bs) b. (seed, bs @ b), xx_digest = \<lambda>(seed, bs). fold (\<lambda>b v. 31 * v + ucast b) bs seed\<rparr>"

theorem hash_builder_streams_witness:
  "hash_session sample_xxh kDefaultSeed [Some [1], None, Some [2, 3]] \<lparr>xh_alloc = \<lambda>_. True, xh_next = 0, xh_states = Map.empty\<rparr> =
     (let d = xx_withSeed sample_xxh [1, 2, 3] kDefaultSeed in Ret (d, d) \<lparr>xh_alloc = \<lambda>_. True, xh_next = 1, xh_states = Map.empty\<rparr>)"
proof -
  have "fold (\<lambda>bs s. xx_update sample_xxh s bs) blocks (seed, acc) = (seed, acc @ concat blocks)" for blocks seed acc
    by (induction blocks arbitrary: acc) (simp_all add: sample_xxh_def)
  then have "xx_digest sample_xxh (fold (\<lambda>bs s. xx_update sample_xxh s bs) blocks (xx_reset sample_xxh s seed)) =
      xx_withSeed sample_xxh (concat blocks) seed" for s seed blocks
    by (simp add: sample_xxh_def)
  from hash_builder_streams [where h = "\<lparr>xh_alloc = \<lambda>_. True, xh_next = 0, xh_states = Map.empty\<rparr>" and seed = kDefaultSeed
      and chunks = "[Some [1], None, Some [2, 3]]", OF this] show ?thesis
    by (simp add: Let_def)
qed

section \<open>Lua modules\<close>

record LuaFormatSchema =
  lf_name :: string
  lf_kind :: string
  lf_has_get_properties :: bool
  lf_has_validate_config :: bool
  lf_has_serialize :: bool

definition validate_lua_format_schema :: "LuaFormatSchema \<Rightarrow> olnk_status" where
  "validate_lua_format_schema schema =
     (if lf_name schema = [] \<or> lf_kind schema = [] then OLNK_STATUS_INVALID_ARGUMENT
      else if \<not> lf_has_get_properties schema \<or> \<not> lf_has_validate_config schema \<or> \<not> lf_has_serialize schema
      then OLNK_STATUS_INVALID_ARGUMENT
      else OLNK_STATUS_OK)"

text \<open>\<open>out_definition\<close> is the pointer variable behind the argument; the second result is what it holds afterwards.\<close>

definition make_lua_format_definition_stub :: "LuaFormatSchema \<Rightarrow> nat option option \<Rightarrow> olnk_status \<times> nat option option" where
  "make_lua_format_definition_stub schema out_definition =
     (if out_definition = None then (OLNK_STATUS_INVALID_ARGUMENT, None)
      else let status = validate_lua_format_schema schema
           in if status \<noteq> OLNK_STATUS_OK then (status, Some None) else (OLNK_STATUS_NOT_IMPLEMENTED, Some None))"

record LuaMachineSchema =
  lms_name :: string
  lms_arch :: string
  lms_default_section_alignment :: u64
  lms_supports_relocations :: bool
  lms_has_validate_output_kind :: bool

definition validate_lua_machine_schema :: "LuaMachineSchema \<Rightarrow> olnk_status" where
  "validate_lua_machine_schema schema =
     (if lms_name schema = [] \<or> lms_arch schema = [] then OLNK_STATUS_INVALID_ARGUMENT
      else if lms_default_section_alignment schema = 0 then OLNK_STATUS_INVALID_ARGUMENT
      else if \<not> lms_has_validate_output_kind schema then OLNK_STATUS_INVALID_ARGUMENT
      else OLNK_STATUS_OK)"

definition make_lua_machine_definition_stub :: "LuaMachineSchema \<Rightarrow> nat option option \<Rightarrow> olnk_status \<times> nat option option" where
  "make_lua_machine_definition_stub schema out_definition =
     (if out_definition = None then (OLNK_STATUS_INVALID_ARGUMENT, None)
      else let status = validate_lua_machine_schema schema
           in if status \<noteq> OLNK_STATUS_OK then (status, Some None) else (OLNK_STATUS_NOT_IMPLEMENTED, Some None))"

record LuaScriptRequest =
  ls_script_path :: string
  ls_entry_function :: string

definition validate_lua_script_request :: "LuaScriptRequest \<Rightarrow> olnk_status" where
  "validate_lua_script_request request =
     (if ls_script_path request = [] \<or> ls_entry_function request = [] then OLNK_STATUS_INVALID_ARGUMENT else OLNK_STATUS_OK)"

text \<open>The character classes of the C locale.\<close>

definition isalnum :: "char \<Rightarrow> bool" where
  "isalnum c \<longleftrightarrow> (let n = of_char c :: nat in 48 \<le> n \<and> n \<le> 57 \<or> 65 \<le> n \<and> n \<le> 90 \<or> 97 \<le> n \<and> n \<le> 122)"

definition isspace :: "char \<Rightarrow> bool" where
  "isspace c \<longleftrightarrow> (let n = of_char c :: nat in n = 32 \<or> 9 \<le> n \<and> n \<le> 13)"

fun lua_identifier_loop :: "string \<Rightarrow> bool" where
  "lua_identifier_loop [] = True"
| "lua_identifier_loop (ch # v) =
     (if \<not> (isalnum ch \<or> ch = CHR ''_'' \<or> ch = CHR ''-'' \<or> ch = CHR ''.'') then False else lua_identifier_loop v)"

definition lua_identifier_is_ascii :: "string \<Rightarrow> bool" where
  "lua_identifier_is_ascii v = (if v = [] then False else lua_identifier_loop v)"

function trim_begin :: "string \<Rightarrow> nat \<Rightarrow> nat \<Rightarrow> nat" where
  "trim_begin v b e = (if b < e \<and> isspace (v ! b) then trim_begin v (Suc b) e else b)"
  by pat_completeness auto
termination by (relation "measure (\<lambda>(_, b, e). e - b)") auto

function trim_end :: "string \<Rightarrow> nat \<Rightarrow> nat \<Rightarrow> nat" where
  "trim_end v b e = (if b < e \<and> isspace (v ! (e - 1)) then trim_end v b (e - 1) else e)"
  by pat_completeness auto
termination by (relation "measure (\<lambda>(_, b, e). e - b)") auto

declare trim_begin.simps [simp del] trim_end.simps [simp del]

definition lua_trim_ascii_whitespace :: "string \<Rightarrow> string" where
  "lua_trim_ascii_whitespace v =
     (let b = trim_begin v 0 (length v); e = trim_end v b (length v) in take (e - b) (drop b v))"

lemma trim_begin_drop: "b \<le> length v \<Longrightarrow> drop (trim_begin v b (length v)) v = dropWhile isspace (drop b v)"
proof (induction v b "length v" rule: trim_begin.induct)
  case (1 v b)
  show ?case
  proof (cases "b < length v")
    case True
    then have "drop b v = v ! b # drop (Suc b) v" by (rule Cons_nth_drop_Suc [symmetric])
    then show ?thesis using 1 True by (subst trim_begin.simps) simp
  qed (use 1 in \<open>subst trim_begin.simps, simp\<close>)
qed

lemma trim_begin_le: "b \<le> e \<Longrightarrow> trim_begin v b e \<le> e"
  by (induction v b e rule: trim_begin.induct) (subst trim_begin.simps, auto)

lemma trim_end_take:
  "b \<le> e \<Longrightarrow> e \<le> length v \<Longrightarrow>
     take (trim_end v b e - b) (drop b v) = rev (dropWhile isspace (rev (take (e - b) (drop b v))))"
proof (induction v b e rule: trim_end.induct)
  case (1 v b e)
  show ?case
  proof (cases "b < e")
    case True
    then have "take (e - b) (drop b v) = take (e - 1 - b) (drop b v) @ [v ! (e - 1)]"
      using 1(3) take_Suc_conv_app_nth [of "e - 1 - b" "drop b v"] by (simp add: Suc_diff_Suc)
    moreover have "trim_end v b e = (if isspace (v ! (e - 1)) then trim_end v b (e - 1) else e)"
      using True by (subst trim_end.simps) simp
    ultimately show ?thesis using 1 True by simp
  qed (use 1 in \<open>subst trim_end.simps, simp\<close>)
qed

lemma lua_trim_eq: "lua_trim_ascii_whitespace v = rev (dropWhile isspace (rev (dropWhile isspace v)))"
proof -
  let ?b = "trim_begin v 0 (length v)"
  have "take (length v - ?b) (drop ?b v) = drop ?b v" by simp
  then show ?thesis
    using trim_end_take [OF trim_begin_le order_refl, of 0 v v] trim_begin_drop [of 0 v]
    by (simp add: lua_trim_ascii_whitespace_def Let_def)
qed

text \<open>Trimming ends, and it removes exactly the white space at both ends: the argument is the result between two runs of
  white space, the result neither starts nor ends with white space, and trimming again changes nothing.\<close>

theorem lua_trim_exact:
  "(\<exists>pre suf. v = pre @ lua_trim_ascii_whitespace v @ suf \<and> list_all isspace pre \<and> list_all isspace suf) \<and>
   (case lua_trim_ascii_whitespace v of [] \<Rightarrow> list_all isspace v
    | c # cs \<Rightarrow> \<not> isspace c \<and> \<not> isspace (last (c # cs))) \<and>
   lua_trim_ascii_whitespace (lua_trim_ascii_whitespace v) = lua_trim_ascii_whitespace v"
proof -
  let ?d = "dropWhile isspace v" and ?t = "lua_trim_ascii_whitespace v"
  have d: "?d = ?t @ rev (takeWhile isspace (rev ?d))"
    unfolding lua_trim_eq by (metis rev_append rev_rev_ident takeWhile_dropWhile_id)
  have split: "v = takeWhile isspace v @ ?t @ rev (takeWhile isspace (rev ?d))" using d by simp
  have space: "list_all isspace (takeWhile isspace v)" "list_all isspace (rev (takeWhile isspace (rev ?d)))"
    by (auto simp: list_all_iff dest: set_takeWhileD)
  have ends: "\<not> isspace c \<and> \<not> isspace (last (c # cs))" if "?t = c # cs" for c cs
  proof -
    have "hd ?d = c" "?d \<noteq> []" using d that by (metis append_Cons list.sel(1), force)
    then have "\<not> isspace c" using hd_dropWhile by metis
    moreover have "dropWhile isspace (rev ?d) \<noteq> []" "last (c # cs) = hd (dropWhile isspace (rev ?d))"
      using that unfolding lua_trim_eq by (auto simp: hd_rev [symmetric]) 
    ultimately show ?thesis using hd_dropWhile by metis
  qed
  have all: "list_all isspace v" if "?t = []"
    using split space that by (metis append_Nil list_all_append)
  have idem: "lua_trim_ascii_whitespace ?t = ?t"
  proof (cases ?t)
    case Nil
    then show ?thesis by (simp add: lua_trim_eq [of "[]"])
  next
    case (Cons c cs)
    then have "dropWhile isspace ?t = ?t" "dropWhile isspace (rev ?t) = rev ?t"
      using ends [OF Cons] by (simp_all add: dropWhile_eq_self_iff hd_append hd_rev split: if_splits)
    then show ?thesis by (simp add: lua_trim_eq [of ?t])
  qed
  have "case ?t of [] \<Rightarrow> list_all isspace v | c # cs \<Rightarrow> \<not> isspace c \<and> \<not> isspace (last (c # cs))"
    using ends all by (cases ?t) simp_all
  then show ?thesis using split space idem by blast
qed

end
