(* ===== verification/Bfd_Leb.thy ===== *)
theory Bfd_Leb
  imports Bfd_Bytes
begin

text \<open>
  LEB128 numbers in \<open>tooling/bfd-scrape/bfd/libbfd.c\<close>: the two unchecked readers, the reader that stops at
  an end pointer, and the writer.  The readers are related to the number a byte sequence stands for,
  the writer to the shortest encoding.
\<close>

unbundle bit_operations_syntax

section \<open>LEB128\<close>

text \<open>\<open>result |= (byte & 0x7f) << shift; shift += 7\<close>, while \<open>shift\<close> is below 64.\<close>

definition leb_step :: "bfd_byte \<Rightarrow> u64 \<times> nat \<Rightarrow> u64 \<times> nat" where
  "leb_step byte s = (case s of (result, shift) \<Rightarrow>
     if shift < 64 then (result OR push_bit shift (ucast byte AND 0x7f), shift + 7) else (result, shift))"

text \<open>The \<open>do\<close> loop of the unchecked readers; running off the buffer is undefined.\<close>

fun read_leb_loop :: "bytes \<Rightarrow> u64 \<times> nat \<Rightarrow> nat \<Rightarrow> (u64 \<times> nat \<times> bfd_byte \<times> nat) cresult" where
  "read_leb_loop [] s num_read = Undefined"
| "read_leb_loop (byte # buf) s num_read =
     (let s' = leb_step byte s
      in if byte AND 0x80 \<noteq> 0 then read_leb_loop buf s' (Suc num_read)
         else Done (fst s', snd s', byte, Suc num_read))"

definition bfd_read_unsigned_leb128 :: "bytes \<Rightarrow> (bfd_vma \<times> nat) cresult" where
  "bfd_read_unsigned_leb128 buf =
     cbind (read_leb_loop buf (0, 0) 0) (\<lambda>(result, shift, byte, num_read). Done (result, num_read))"

definition bfd_read_signed_leb128 :: "bytes \<Rightarrow> (u64 \<times> nat) cresult" where
  "bfd_read_signed_leb128 buf =
     cbind (read_leb_loop buf (0, 0) 0) (\<lambda>(result, shift, byte, num_read).
       Done (if shift < 64 \<and> byte AND 0x40 \<noteq> 0 then result OR push_bit shift (- 1) else result, num_read))"

text \<open>The checked reader stops at \<open>end\<close>, here the end of the list; it also returns the rest, \<open>*ptr\<close>.\<close>

fun safe_leb_loop :: "bytes \<Rightarrow> u64 \<times> nat \<Rightarrow> bfd_byte \<Rightarrow> (u64 \<times> nat) \<times> bfd_byte \<times> bytes" where
  "safe_leb_loop [] s byte = (s, byte, [])"
| "safe_leb_loop (b # data) s byte =
     (let s' = leb_step b s
      in if b AND 0x80 = 0 then (s', b, data) else safe_leb_loop data s' b)"

definition bfd_safe_read_leb128 :: "bytes \<Rightarrow> bool \<Rightarrow> bfd_vma \<times> bytes" where
  "bfd_safe_read_leb128 data sign =
     (case safe_leb_loop data (0, 0) 0 of ((result, shift), byte, rest) \<Rightarrow>
        (if sign \<and> shift < 64 \<and> byte AND 0x40 \<noteq> 0 then result OR - push_bit shift 1 else result, rest))"

text \<open>The writer: \<open>p\<close> and \<open>end\<close> are indices into \<open>buf\<close>; the result is the index after the last byte
  written, or null.\<close>

function bfd_write_unsigned_leb128 :: "bytes \<Rightarrow> nat \<Rightarrow> nat \<Rightarrow> bfd_vma \<Rightarrow> (nat option \<times> bytes) cresult" where
  "bfd_write_unsigned_leb128 buf p end_p val =
     (if end_p < p then Done (None, buf)
      else if length buf \<le> p then Undefined
      else let c = ucast (val AND 0x7f);
               val' = drop_bit 7 val;
               buf' = buf[p := (if val' \<noteq> 0 then c OR 0x80 else c)]
           in if val' \<noteq> 0 then bfd_write_unsigned_leb128 buf' (p + 1) end_p val' else Done (Some (p + 1), buf'))"
  by pat_completeness auto
termination
proof (relation "measure (\<lambda>(_, _, _, val). unat val)", goal_cases)
  case (2 buf p end_p val c val' buf')
  then have "val \<noteq> 0" by auto
  then have "0 < unat val" by (simp add: unsigned_eq_0_iff zero_less_iff_neq_zero)
  then have "unat val div 128 < unat val" by (intro div_less_dividend) auto
  with 2 show ?case by (simp add: drop_bit_eq_div unat_div_distrib)
qed simp

declare bfd_write_unsigned_leb128.simps [simp del]

section \<open>LEB128 values\<close>

text \<open>The number a byte sequence stands for: seven bits per byte, least significant first.\<close>

fun leb_value :: "bytes \<Rightarrow> nat" where
  "leb_value [] = 0"
| "leb_value (b # bs) = unat b mod 128 + 128 * leb_value bs"

lemma leb_value_snoc: "leb_value (bs @ [b]) = leb_value bs + 128 ^ length bs * (unat b mod 128)"
  by (induction bs) (simp_all add: algebra_simps)

lemma leb_value_less: "leb_value bs < 128 ^ length bs"
proof (induction bs rule: rev_induct)
  case (snoc b bs)
  have "128 ^ length bs * (unat b mod 128) \<le> 128 ^ length bs * 127"
    by (intro mult_left_mono) (simp_all add: less_Suc_eq_le [symmetric])
  then have "leb_value (bs @ [b]) < 128 ^ length bs + 128 ^ length bs * 127"
    unfolding leb_value_snoc using snoc by (rule add_less_le_mono [rotated])
  then show ?case by simp
qed simp

lemma ucast_of_nat: "(ucast (b :: u8) :: u64) = of_nat (unat b)"
  by (metis of_int_of_nat_eq of_nat_unat ucast_eq)

lemma low_seven: "(ucast (b :: u8) AND 0x7f :: u64) = of_nat (unat b mod 128)"
proof -
  have mask: "(0x7f :: u64) = mask 7" by (simp add: mask_eq_exp_minus_1)
  have "(ucast b :: u64) AND mask 7 = take_bit 7 (ucast b)" by (rule take_bit_eq_mask [symmetric])
  also have "\<dots> = of_nat (take_bit 7 (unat b))" by (simp only: take_bit_of_nat [symmetric] ucast_of_nat)
  finally show ?thesis by (simp only: mask take_bit_eq_mod) simp
qed

lemma or_disjoint_shift:
  assumes "V < 2 ^ s"
  shows "of_nat V OR push_bit s x = of_nat V + push_bit s (x :: 'a::len word)"
proof -
  have "take_bit s (of_nat V) = (of_nat V :: 'a word)" using assms by (simp add: take_bit_of_nat take_bit_nat_eq_self)
  then have low: "bit (of_nat V :: 'a word) n \<Longrightarrow> n < s" for n by (metis bit_take_bit_iff)
  have "of_nat V AND push_bit s x = 0" by (rule bit_word_eqI) (use low in \<open>force simp: bit_and_iff bit_push_bit_iff\<close>)
  then show ?thesis using word_plus_and_or [of "of_nat V" "push_bit s x"] by simp
qed

lemma leb_step_value:
  assumes "length bs = k"
  shows "leb_step b (of_nat (leb_value bs), 7 * min k 10) = (of_nat (leb_value (bs @ [b])), 7 * min (Suc k) 10)"
proof (cases "k < 10")
  case True
  have pow: "(128 :: nat) ^ k = 2 ^ (7 * k)" by (simp add: power_mult)
  then have "leb_value bs < 2 ^ (7 * k)" using leb_value_less [of bs] assms by simp
  then have "of_nat (leb_value bs) OR push_bit (7 * k) (of_nat (unat b mod 128)) =
      (of_nat (leb_value bs + 2 ^ (7 * k) * (unat b mod 128)) :: u64)"
    using or_disjoint_shift [of "leb_value bs" "7 * k" "of_nat (unat b mod 128)"]
    by (simp add: push_bit_eq_mult mult.commute)
  then show ?thesis using True assms pow
    by (simp add: leb_step_def low_seven leb_value_snoc del: of_nat_mod)
next
  case False
  then have "7 * k \<ge> 64" by simp
  then have "(of_nat (128 ^ k) :: u64) = 0" using exp_eq_zero_iff [of "7 * k", where 'a = 64]
    by (simp add: power_mult)
  then show ?thesis using False assms by (simp add: leb_step_def leb_value_snoc min_def)
qed

lemma fold_leb_step:
  "fold leb_step bs (0, 0) = (of_nat (leb_value bs), 7 * min (length bs) 10)"
proof (induction bs rule: rev_induct)
  case (snoc b bs)
  then show ?case using leb_step_value [OF refl, of b bs] by simp
qed simp

definition continued :: "bytes \<Rightarrow> bool" where
  "continued bs \<longleftrightarrow> (\<forall>b \<in> set bs. b AND 0x80 \<noteq> 0)"

lemma read_leb_loop_fold:
  assumes "continued cs" "l AND 0x80 = 0"
  shows "read_leb_loop (cs @ l # rest) s n =
    (let s' = fold leb_step (cs @ [l]) s in Done (fst s', snd s', l, n + length cs + 1))"
  using assms by (induction cs arbitrary: s n) (simp_all add: continued_def Let_def)

lemma safe_leb_loop_fold:
  assumes "continued cs"
  shows "l AND 0x80 = 0 \<Longrightarrow> safe_leb_loop (cs @ l # rest) s b = (fold leb_step (cs @ [l]) s, l, rest)"
    "safe_leb_loop cs s b = (fold leb_step cs s, last (b # cs), [])"
  using assms by (induction cs arbitrary: s b) (simp_all add: continued_def Let_def)

section \<open>The LEB128 writer\<close>

text \<open>The shortest encoding.\<close>

function uleb :: "nat \<Rightarrow> bytes" where
  "uleb v = (if v div 128 = 0 then [of_nat v] else of_nat (v mod 128 + 128) # uleb (v div 128))"
  by pat_completeness auto
termination by (relation "measure id") auto

declare uleb.simps [simp del]

lemma continued_Nil [simp]: "continued []"
  by (simp add: continued_def)

lemma high_bit: "n < 256 \<Longrightarrow> (of_nat n :: u8) AND 0x80 \<noteq> 0 \<longleftrightarrow> 128 \<le> n"
proof -
  assume n: "n < 256"
  have e: "(0x80 :: u8) = 2 ^ 7" by simp
  have "(of_nat n :: u8) AND 2 ^ 7 \<noteq> 0 \<longleftrightarrow> bit (of_nat n :: u8) 7" by (simp only: and_exp_eq_0_iff_not_bit not_not)
  also have "\<dots> \<longleftrightarrow> bit n 7" by (simp add: bit_simps)
  also have "\<dots> \<longleftrightarrow> odd (n div 128)" by (simp add: bit_iff_odd)
  also have "\<dots> \<longleftrightarrow> 128 \<le> n"
  proof (cases "128 \<le> n")
    case True
    then obtain m where "n = 128 + m" using le_Suc_ex by blast
    moreover have "(128 + m) div 128 = Suc (m div 128)" by (simp add: div_add_self1)
    ultimately show ?thesis using n by simp
  qed simp
  finally show ?thesis by (simp only: e)
qed

lemma uleb_shape: "\<exists>cs l. uleb v = cs @ [l] \<and> continued cs \<and> l AND 0x80 = 0"
proof (induction v rule: uleb.induct)
  case (1 v)
  show ?case
  proof (cases "v div 128 = 0")
    case True
    then have "(of_nat v :: u8) AND 0x80 = 0" using high_bit [of v] by (auto simp: div_eq_0_iff)
    then show ?thesis using True by (subst uleb.simps) (auto intro!: exI [of _ "[]"])
  next
    case False
    then obtain cs l where "uleb (v div 128) = cs @ [l]" "continued cs" "l AND 0x80 = 0" using 1 by blast
    moreover have "(of_nat (v mod 128 + 128) :: u8) AND 0x80 \<noteq> 0"
      using high_bit [of "v mod 128 + 128"] by (simp add: less_diff_conv [symmetric])
    ultimately show ?thesis using False
      by (subst uleb.simps) (auto intro!: exI [of _ "of_nat (v mod 128 + 128) # cs"] exI [of _ l] simp: continued_def)
  qed
qed

lemma leb_value_uleb: "leb_value (uleb v) = v"
proof (induction v rule: uleb.induct)
  case (1 v)
  have u: "unat (of_nat n :: u8) = n" if "n < 256" for n using that by (simp add: unsigned_of_nat take_bit_nat_eq_self)
  show ?case
  proof (cases "v div 128 = 0")
    case True
    then have "v < 128" by (simp add: div_eq_0_iff)
    then show ?thesis using u [of v] by (subst uleb.simps) simp
  next
    case False
    have "v mod 128 < 128" by simp
    then have "unat (of_nat (v mod 128 + 128) :: u8) = v mod 128 + 128" by (intro u) linarith
    then show ?thesis using False 1 by (subst uleb.simps) (simp del: of_nat_add of_nat_mod)
  qed
qed

lemma length_uleb: "v < 128 ^ k \<Longrightarrow> 0 < k \<Longrightarrow> length (uleb v) \<le> k"
proof (induction k arbitrary: v)
  case (Suc k)
  show ?case
  proof (cases "v div 128 = 0 \<or> k = 0")
    case False
    then have "length (uleb (v div 128)) \<le> k" using Suc by (intro Suc.IH) (auto simp: less_mult_imp_div_less mult.commute)
    with False show ?thesis by (subst uleb.simps) simp
  qed (use Suc.prems in \<open>subst uleb.simps, auto simp: div_eq_0_iff\<close>)
qed simp

lemma length_uleb_word: "length (uleb (unat (val :: u64))) \<le> 10"
proof -
  have "unat val < 2 ^ 64" using unat_less_2p [of val] by simp
  then show ?thesis by (intro length_uleb) auto
qed

lemma low_seven_val: "ucast (val AND 0x7f :: u64) = (of_nat (unat val mod 128) :: u8)"
proof -
  have "ucast (take_bit 7 val) = (of_nat (take_bit 7 (unat val)) :: u8)"
    by (metis of_nat_unat of_int_of_nat_eq ucast_eq unsigned_take_bit_eq)
  moreover have "val AND 0x7f = take_bit 7 val" by (simp add: take_bit_eq_mask mask_eq_exp_minus_1)
  ultimately show ?thesis by (simp add: take_bit_eq_mod)
qed

lemma set_high: "n < 128 \<Longrightarrow> (of_nat n :: u8) OR 0x80 = of_nat (n + 128)"
  using or_disjoint_shift [of n 7 "1 :: u8"] by (simp add: push_bit_eq_mult)

lemma drop_seven: "unat (drop_bit 7 val :: u64) = unat val div 128"
  by (simp add: drop_bit_eq_div unat_div_distrib)

lemma uleb_last: "unat val div 128 = 0 \<Longrightarrow> uleb (unat val) = [ucast (val AND 0x7f :: u64)]"
  by (subst uleb.simps) (simp add: low_seven_val mod_less div_eq_0_iff)

lemma uleb_more: "unat val div 128 \<noteq> 0 \<Longrightarrow>
    uleb (unat val) = (ucast (val AND 0x7f :: u64) OR 0x80) # uleb (unat (drop_bit 7 val))"
  by (subst uleb.simps) (simp add: low_seven_val set_high drop_seven del: of_nat_add of_nat_mod)

lemma drop_zero: "drop_bit 7 val = (0 :: u64) \<longleftrightarrow> unat val div 128 = 0"
  by (metis drop_seven unsigned_eq_0_iff)

lemma write_fits:
  assumes "p + length (uleb (unat val)) \<le> Suc end_p" "end_p < length buf"
  shows "bfd_write_unsigned_leb128 buf p end_p val =
    Done (Some (p + length (uleb (unat val))), take p buf @ uleb (unat val) @ drop (p + length (uleb (unat val))) buf)"
  using assms
proof (induction buf p end_p val rule: bfd_write_unsigned_leb128.induct)
  case (1 buf p end_p val)
  let ?c = "ucast (val AND 0x7f) :: u8"
  have pos: "0 < length (uleb (unat val))" by (subst uleb.simps) simp
  then have p: "p \<le> end_p" "p < length buf" using 1 by linarith+
  show ?case
  proof (cases "unat val div 128 = 0")
    case True
    then show ?thesis using p
      by (subst bfd_write_unsigned_leb128.simps)
        (simp add: uleb_last drop_zero Let_def upd_conv_take_nth_drop)
  next
    case False
    let ?L = "uleb (unat (drop_bit 7 val))"
    have "bfd_write_unsigned_leb128 (buf[p := ?c OR 0x80]) (p + 1) end_p (drop_bit 7 val) =
      Done (Some (p + 1 + length ?L), take (p + 1) (buf[p := ?c OR 0x80]) @ ?L @ drop (p + 1 + length ?L) (buf[p := ?c OR 0x80]))"
      using False p 1 uleb_more [OF False] by (intro 1(1)) (auto simp: drop_zero)
    moreover have "take (p + 1) (buf[p := ?c OR 0x80]) = take p buf @ [?c OR 0x80]"
      using p by (simp add: take_Suc_conv_app_nth)
    ultimately show ?thesis using p uleb_more [OF False] False
      by (subst bfd_write_unsigned_leb128.simps) (simp add: drop_zero Let_def)
  qed
qed

lemma write_overflow:
  assumes "Suc end_p < p + length (uleb (unat val))" "end_p < length buf"
  shows "\<exists>buf'. bfd_write_unsigned_leb128 buf p end_p val = Done (None, buf')"
  using assms
proof (induction buf p end_p val rule: bfd_write_unsigned_leb128.induct)
  case (1 buf p end_p val)
  show ?case
  proof (cases "unat val div 128 = 0 \<or> end_p < p")
    case True
    then show ?thesis using 1 by (subst bfd_write_unsigned_leb128.simps) (auto simp: uleb_last)
  next
    case False
    then have div: "unat val div 128 \<noteq> 0" by simp
    have "\<exists>buf'. bfd_write_unsigned_leb128 (buf[p := ucast (val AND 0x7f) OR 0x80]) (p + 1) end_p (drop_bit 7 val) = Done (None, buf')"
      using False 1 uleb_more [OF div] by (intro 1(1)) (auto simp: drop_zero)
    then show ?thesis using False 1 by (subst bfd_write_unsigned_leb128.simps) (simp add: drop_zero Let_def)
  qed
qed

section \<open>LEB128 properties\<close>

lemma read_unsigned_value:
  assumes "continued cs" "l AND 0x80 = 0"
  shows "bfd_read_unsigned_leb128 (cs @ l # rest) = Done (of_nat (leb_value (cs @ [l])), length cs + 1)"
  by (simp add: bfd_read_unsigned_leb128_def read_leb_loop_fold [OF assms] fold_leb_step Let_def del: fold_append)

text \<open>The readers compute the number a terminated LEB128 sequence stands for, modulo \<open>2\<^sup>6\<^sup>4\<close>, however
  long the sequence is, and consume exactly its bytes; the checked reader and the unchecked one agree,
  and the signed readers subtract the sign weight when the sign bit is set and fits.\<close>

theorem leb_readers_exact:
  assumes "continued cs" "l AND 0x80 = 0"
  shows "bfd_read_unsigned_leb128 (cs @ l # rest) = Done (of_nat (leb_value (cs @ [l])), length cs + 1) \<and>
    bfd_safe_read_leb128 (cs @ l # rest) False = (of_nat (leb_value (cs @ [l])), rest) \<and>
    bfd_read_signed_leb128 (cs @ l # rest) = Done (fst (bfd_safe_read_leb128 (cs @ l # rest) True), length cs + 1) \<and>
    fst (bfd_safe_read_leb128 (cs @ l # rest) True) =
      (if length cs < 9 \<and> l AND 0x40 \<noteq> 0
       then of_nat (leb_value (cs @ [l])) - 2 ^ (7 * (length cs + 1)) else of_nat (leb_value (cs @ [l])))"
proof -
  let ?v = "of_nat (leb_value (cs @ [l])) :: u64" and ?k = "length cs + 1"
  have small: "7 * min ?k 10 < 64 \<longleftrightarrow> length cs < 9" by auto
  have ext: "?v OR - push_bit s 1 = ?v - 2 ^ s" "?v OR push_bit s (- 1) = ?v - 2 ^ s"
    if "s = 7 * ?k" for s
  proof -
    have "leb_value (cs @ [l]) < 2 ^ s" using leb_value_less [of "cs @ [l]"] that by (simp add: power_mult power_add)
    moreover have "- push_bit s 1 = push_bit s (- 1 :: u64)" by (simp add: push_bit_eq_mult)
    ultimately show "?v OR - push_bit s 1 = ?v - 2 ^ s" "?v OR push_bit s (- 1) = ?v - 2 ^ s"
      using or_disjoint_shift [of "leb_value (cs @ [l])" s "- 1 :: u64"] by (simp_all add: push_bit_eq_mult)
  qed
  note unsigned = read_unsigned_value [OF assms]
  note folds = read_leb_loop_fold [OF assms] safe_leb_loop_fold(1) [OF assms] fold_leb_step
  show ?thesis
    using ext small
    by (simp add: unsigned bfd_safe_read_leb128_def bfd_read_signed_leb128_def folds Let_def
        del: fold_append of_nat_add)
qed

theorem leb_readers_exact_witness:
  "bfd_read_unsigned_leb128 ([0xE5, 0x8E] @ 0x26 # []) = Done (624485, 3) \<and>
   fst (bfd_safe_read_leb128 ([0xC0, 0xBB] @ 0x78 # []) True) = - 123456"
  using leb_readers_exact [of "[0xE5, 0x8E]" "0x26" "[]"] leb_readers_exact [of "[0xC0, 0xBB]" "0x78" "[]"]
  by (simp add: continued_def)

text \<open>The LEB128 writer is inverse to the reader: with room for the encoding it writes at most ten
  bytes, touches nothing else, and the reader gets the number back; without room it returns null and
  stays inside the space it was given.\<close>

theorem leb_write_read:
  assumes "end_p < length buf" "p \<le> length buf"
  shows "(\<forall>q buf'. bfd_write_unsigned_leb128 buf p end_p val = Done (Some q, buf') \<longrightarrow>
      q \<le> p + 10 \<and> q \<le> Suc end_p \<and> take p buf' = take p buf \<and> drop q buf' = drop q buf \<and>
      bfd_read_unsigned_leb128 (drop p buf') = Done (val, q - p)) \<and>
    (p + 10 \<le> Suc end_p \<longrightarrow> (\<exists>q buf'. bfd_write_unsigned_leb128 buf p end_p val = Done (Some q, buf'))) \<and>
    bfd_write_unsigned_leb128 buf p end_p val \<noteq> Undefined"
proof -
  let ?L = "uleb (unat val)"
  obtain cs l where L: "?L = cs @ [l]" "continued cs" "l AND 0x80 = 0" using uleb_shape by blast
  have read: "bfd_read_unsigned_leb128 (?L @ rest) = Done (val, length ?L)" for rest
    using read_unsigned_value [OF L(2,3), of rest] L(1) leb_value_uleb [of "unat val"] by simp
  show ?thesis
  proof (cases "p + length ?L \<le> Suc end_p")
    case True
    then have "min p (length buf) = p" using assms by simp
    then show ?thesis
      using write_fits [OF True assms(1)] read True length_uleb_word [of val] assms by simp
  next
    case False
    then obtain buf' where "bfd_write_unsigned_leb128 buf p end_p val = Done (None, buf')"
      using write_overflow [of end_p p val buf] assms by (auto simp: not_le)
    then show ?thesis using False length_uleb_word [of val] by auto
  qed
qed

theorem leb_write_read_witness:
  "\<exists>q buf'. bfd_write_unsigned_leb128 (replicate 12 0) 1 11 624485 = Done (Some q, buf') \<and>
     bfd_read_unsigned_leb128 (drop 1 buf') = Done (624485, q - 1)"
  using leb_write_read [of 11 "replicate 12 0" 1 624485] by (auto simp del: replicate.simps)

end
