(* ===== verification/Bfd_Hash.thy ===== *)
theory Bfd_Hash
  imports Bfd_Base
begin

text \<open>
  The chained string hash table of \<open>tooling/bfd-scrape/bfd/hash.c\<close>, which backs every symbol table and
  string table of BFD.  A chain of \<open>next\<close> pointers is a list; an entry carries its address, so that the
  functions that compare pointers compare addresses.  Entries of derived tables extend the record, as
  the derived structs of the C code do.  The allocator \<open>objalloc\<close> is not part of the sources: it is a
  parameter, a function that says which of its allocations succeed.
\<close>

unbundle bit_operations_syntax

section \<open>Data\<close>

record objalloc =
  oa_ok :: "nat \<Rightarrow> bool"
  oa_next :: nat

record bfd_hash_entry =
  he_addr :: nat
  he_string :: string
  he_hash :: u64

text \<open>\<open>entsize\<close> is never read by these functions.  \<open>ht_memory\<close> is null after the table was freed.\<close>

record 'e bfd_hash_table =
  ht_table :: "'e list list"
  ht_memory :: "objalloc option"
  ht_size :: u32
  ht_count :: u32
  ht_entsize :: u32
  ht_frozen :: bool

type_synonym 'e newfunc = "'e option \<Rightarrow> 'e bfd_hash_table \<Rightarrow> string \<Rightarrow> ('e option \<times> 'e bfd_hash_table) cresult"

definition objalloc_alloc :: "objalloc \<Rightarrow> nat option \<times> objalloc" where
  "objalloc_alloc m =
     (if oa_ok m (oa_next m) then Some (oa_next m) else None, m\<lparr>oa_next := Suc (oa_next m)\<rparr>)"

section \<open>Sizes\<close>

definition primes :: "u32 list" where
  "primes = [31, 61, 127, 251, 509, 1021, 2039, 4093, 8191, 16381, 32749, 65521, 131071, 262139, 524287,
     1048573, 2097143, 4194301, 8388593, 16777213, 33554393, 67108859, 134217689, 268435399, 536870909,
     1073741789, 2147483647, 4294967291]"

text \<open>The binary search; \<open>low\<close> never passes \<open>high\<close>.\<close>

function prime_search :: "u32 \<Rightarrow> nat \<Rightarrow> nat \<Rightarrow> nat" where
  "prime_search n low high =
     (if low < high
      then let mid = low + (high - low) div 2
           in if primes ! mid \<le> n then prime_search n (mid + 1) high else prime_search n low mid
      else low)"
  by pat_completeness auto
termination by (relation "measure (\<lambda>(_, low, high). high - low)") auto

declare prime_search.simps [simp del]

text \<open>After the search \<open>*low\<close> is read, also when \<open>low\<close> is the end of the array.\<close>

definition higher_prime_number :: "u32 \<Rightarrow> u32 cresult" where
  "higher_prime_number n =
     (let low = prime_search n 0 (length primes)
      in if length primes \<le> low then Undefined
         else if primes ! low \<le> n then Done 0 else Done (primes ! low))"

definition bfd_hash_set_default_size :: "u32 \<Rightarrow> u32 cresult" where
  "bfd_hash_set_default_size hash_size =
     (let silly_size = 0x4000000
      in higher_prime_number
           (if silly_size < hash_size then silly_size
            else if hash_size \<noteq> 0 then hash_size - 1 else hash_size))"

section \<open>The hash function\<close>

definition hash_step :: "u64 \<Rightarrow> char \<Rightarrow> u64" where
  "hash_step hash ch =
     (let c = of_char ch :: u32;
          hash' = hash + ucast (c + push_bit 17 c)
      in hash' XOR drop_bit 2 hash')"

definition bfd_hash_hash :: "string \<Rightarrow> u64 \<times> u32" where
  "bfd_hash_hash str =
     (let hash = foldl hash_step 0 str;
          len = of_nat (length str) :: u32;
          hash' = hash + ucast (len + push_bit 17 len)
      in (hash' XOR drop_bit 2 hash', len))"

definition hash_of :: "string \<Rightarrow> u64" where
  "hash_of str = fst (bfd_hash_hash str)"

text \<open>\<open>hash % table->size\<close>: the modulus is converted to \<open>unsigned long\<close>.\<close>

definition slot :: "u64 \<Rightarrow> u32 \<Rightarrow> nat" where
  "slot hash tsize = unat (hash mod ucast tsize)"

section \<open>Creation and allocation\<close>

text \<open>\<open>created\<close> is the outcome of \<open>objalloc_create\<close>.  The old contents of \<open>*table\<close> do not matter; they stay
  on failure.\<close>

definition bfd_hash_table_init_n :: "objalloc option \<Rightarrow> u32 \<Rightarrow> u32 \<Rightarrow> 'e bfd_hash_table option" where
  "bfd_hash_table_init_n created entsize tsize =
     (let alloc = ucast tsize * 8 :: u64
      in if alloc div 8 \<noteq> ucast tsize then None
         else case created of None \<Rightarrow> None
         | Some m \<Rightarrow>
            (case objalloc_alloc m of
               (None, _) \<Rightarrow> None
             | (Some _, m') \<Rightarrow>
                 Some \<lparr>ht_table = replicate (unat tsize) [], ht_memory = Some m', ht_size = tsize, ht_count = 0,
                       ht_entsize = entsize, ht_frozen = False\<rparr>))"

definition bfd_hash_table_init :: "u32 \<Rightarrow> objalloc option \<Rightarrow> u32 \<Rightarrow> 'e bfd_hash_table option" where
  "bfd_hash_table_init bfd_default_hash_table_size created entsize =
     bfd_hash_table_init_n created entsize bfd_default_hash_table_size"

definition bfd_hash_table_free :: "'e bfd_hash_table \<Rightarrow> 'e bfd_hash_table" where
  "bfd_hash_table_free table = table\<lparr>ht_memory := None\<rparr>"

text \<open>\<open>objalloc_alloc\<close> on the table's memory; a freed table has none, and the call dereferences a null pointer.\<close>

definition table_alloc :: "'e bfd_hash_table \<Rightarrow> (nat option \<times> 'e bfd_hash_table) cresult" where
  "table_alloc table =
     (case ht_memory table of None \<Rightarrow> Undefined
      | Some m \<Rightarrow> (case objalloc_alloc m of (r, m') \<Rightarrow> Done (r, table\<lparr>ht_memory := Some m'\<rparr>)))"

text \<open>The size is an \<open>unsigned int\<close>: a caller's larger number arrives truncated, and the block is that small.  Which requests
  succeed is the allocator's business.\<close>

definition bfd_hash_allocate :: "'e bfd_hash_table \<Rightarrow> u32 \<Rightarrow> (nat option \<times> 'e bfd_hash_table) cresult" where
  "bfd_hash_allocate table bsize = table_alloc table"

text \<open>Filling a block of \<open>bsize\<close> bytes with \<open>n\<close> bytes.\<close>

definition memcpy_fits :: "u32 \<Rightarrow> nat \<Rightarrow> bool" where
  "memcpy_fits bsize n \<longleftrightarrow> n \<le> unat bsize"

definition bfd_hash_newfunc :: "bfd_hash_entry newfunc" where
  "bfd_hash_newfunc entry table str =
     (case entry of Some e \<Rightarrow> Done (Some e, table)
      | None \<Rightarrow> cbind (bfd_hash_allocate table 24) (\<lambda>(r, t).
          Done (map_option (\<lambda>a. \<lparr>he_addr = a, he_string = [], he_hash = 0\<rparr>) r, t)))"

section \<open>Insertion and growth\<close>

text \<open>Runs of equal hash codes at the head of a chain move together, in order, to the head of their new
  chain.\<close>

function rehash_chain :: "u64 \<Rightarrow> 'x bfd_hash_entry_scheme list \<Rightarrow> 'x bfd_hash_entry_scheme list list
     \<Rightarrow> 'x bfd_hash_entry_scheme list list" where
  "rehash_chain newsize [] newtable = newtable"
| "rehash_chain newsize (chain # rest) newtable =
     (let run = chain # takeWhile (\<lambda>e. he_hash e = he_hash chain) rest;
          idx = unat (he_hash chain mod newsize)
      in rehash_chain newsize (dropWhile (\<lambda>e. he_hash e = he_hash chain) rest)
           (newtable[idx := run @ newtable ! idx]))"
  by pat_completeness auto
termination by (relation "measure (\<lambda>(_, c, _). length c)") (auto simp: le_imp_less_Suc length_dropWhile_le)

definition rehash :: "u64 \<Rightarrow> 'x bfd_hash_entry_scheme list list \<Rightarrow> 'x bfd_hash_entry_scheme list list" where
  "rehash newsize table = foldl (\<lambda>newtable chain. rehash_chain newsize chain newtable) (replicate (unat newsize) []) table"

definition hash_grow :: "'x bfd_hash_entry_scheme bfd_hash_table \<Rightarrow> 'x bfd_hash_entry_scheme bfd_hash_table cresult" where
  "hash_grow table =
     cbind (higher_prime_number (ht_size table)) (\<lambda>prime.
       let newsize = ucast prime :: u64; alloc = newsize * 8
       in if newsize = 0 \<or> alloc div 8 \<noteq> newsize then Done (table\<lparr>ht_frozen := True\<rparr>)
          else cbind (table_alloc table) (\<lambda>(r, t).
            case r of
              None \<Rightarrow> Done (t\<lparr>ht_frozen := True\<rparr>)
            | Some _ \<Rightarrow> Done (t\<lparr>ht_table := rehash newsize (ht_table t), ht_size := ucast newsize\<rparr>)))"

definition hash_link :: "'x bfd_hash_entry_scheme \<Rightarrow> 'x bfd_hash_entry_scheme bfd_hash_table \<Rightarrow> 'x bfd_hash_entry_scheme bfd_hash_table" where
  "hash_link hashp table =
     (let idx = slot (he_hash hashp) (ht_size table)
      in table\<lparr>ht_table := (ht_table table)[idx := hashp # ht_table table ! idx], ht_count := ht_count table + 1\<rparr>)"

definition bfd_hash_insert ::
    "'x bfd_hash_entry_scheme newfunc \<Rightarrow> 'x bfd_hash_entry_scheme bfd_hash_table \<Rightarrow> string \<Rightarrow> u64
     \<Rightarrow> ('x bfd_hash_entry_scheme option \<times> 'x bfd_hash_entry_scheme bfd_hash_table) cresult" where
  "bfd_hash_insert newfunc table str hash =
     cbind (newfunc None table str) (\<lambda>(r, t).
       case r of
         None \<Rightarrow> Done (None, t)
       | Some e \<Rightarrow>
          if ht_size t = 0 then Undefined
          else let hashp = e\<lparr>he_string := str, he_hash := hash\<rparr>; t1 = hash_link hashp t
               in if \<not> ht_frozen t1 \<and> ht_size t1 * 3 div 4 < ht_count t1
                  then cbind (hash_grow t1) (\<lambda>t2. Done (Some hashp, t2))
                  else Done (Some hashp, t1))"

text \<open>The copy is as long as \<open>len + 1\<close> says, in the 32 bits of \<open>len\<close>.  A longer string is cut off before its terminator: what
  is in the table then is not a string, and reading it leaves the block.\<close>

definition bfd_hash_lookup ::
    "'x bfd_hash_entry_scheme newfunc \<Rightarrow> 'x bfd_hash_entry_scheme bfd_hash_table \<Rightarrow> string \<Rightarrow> bool \<Rightarrow> bool
     \<Rightarrow> ('x bfd_hash_entry_scheme option \<times> 'x bfd_hash_entry_scheme bfd_hash_table) cresult" where
  "bfd_hash_lookup newfunc table str create copy =
     (let hash = hash_of str; len = snd (bfd_hash_hash str) in
      if ht_size table = 0 \<or> ht_memory table = None then Undefined
      else case find (\<lambda>hashp. he_hash hashp = hash \<and> he_string hashp = str) (ht_table table ! slot hash (ht_size table)) of
        Some hashp \<Rightarrow> Done (Some hashp, table)
      | None \<Rightarrow>
          if \<not> create then Done (None, table)
          else if copy
          then cbind (table_alloc table) (\<lambda>(r, t).
                 case r of
                   None \<Rightarrow> Done (None, t)
                 | Some _ \<Rightarrow> if memcpy_fits (len + 1) (length str + 1) then bfd_hash_insert newfunc t str hash else Undefined)
          else bfd_hash_insert newfunc table str hash)"

section \<open>Renaming, replacing, traversing\<close>

text \<open>\<open>ent\<close> is the entry as it is now; it is found in its chain by address.\<close>

definition bfd_hash_rename ::
    "'x bfd_hash_entry_scheme bfd_hash_table \<Rightarrow> string \<Rightarrow> 'x bfd_hash_entry_scheme
     \<Rightarrow> 'x bfd_hash_entry_scheme bfd_hash_table cresult" where
  "bfd_hash_rename table str ent =
     (if ht_size table = 0 \<or> ht_memory table = None then Undefined
      else let idx = slot (he_hash ent) (ht_size table);
               chain = ht_table table ! idx;
               before = takeWhile (\<lambda>e. he_addr e \<noteq> he_addr ent) chain
           in case dropWhile (\<lambda>e. he_addr e \<noteq> he_addr ent) chain of
                [] \<Rightarrow> Abort
              | _ # after \<Rightarrow>
                  let tbl = (ht_table table)[idx := before @ after];
                      ent' = ent\<lparr>he_string := str, he_hash := hash_of str\<rparr>;
                      idx' = slot (he_hash ent') (ht_size table)
                  in Done (table\<lparr>ht_table := tbl[idx' := ent' # tbl ! idx']\<rparr>))"

text \<open>The new entry's own \<open>next\<close> is not set: the chain goes on with what it points to, \<open>nw_next\<close>.\<close>

definition bfd_hash_replace ::
    "'x bfd_hash_entry_scheme bfd_hash_table \<Rightarrow> 'x bfd_hash_entry_scheme \<Rightarrow> 'x bfd_hash_entry_scheme
     \<Rightarrow> 'x bfd_hash_entry_scheme list \<Rightarrow> 'x bfd_hash_entry_scheme bfd_hash_table cresult" where
  "bfd_hash_replace table old nw nw_next =
     (if ht_size table = 0 \<or> ht_memory table = None then Undefined
      else let idx = slot (he_hash old) (ht_size table); chain = ht_table table ! idx
           in if list_ex (\<lambda>e. he_addr e = he_addr old) chain
              then Done (table\<lparr>ht_table := (ht_table table)
                     [idx := takeWhile (\<lambda>e. he_addr e \<noteq> he_addr old) chain @ nw # nw_next]\<rparr>)
              else Abort)"

fun traverse_loop :: "('e \<Rightarrow> 's \<Rightarrow> bool \<times> 's) \<Rightarrow> 'e list \<Rightarrow> 's \<Rightarrow> bool \<times> 's" where
  "traverse_loop func [] info = (True, info)"
| "traverse_loop func (p # ps) info =
     (case func p info of (ok, info') \<Rightarrow> if ok then traverse_loop func ps info' else (False, info'))"

fun traverse_table :: "('e \<Rightarrow> 's \<Rightarrow> bool \<times> 's) \<Rightarrow> 'e list list \<Rightarrow> 's \<Rightarrow> 's" where
  "traverse_table func [] info = info"
| "traverse_table func (chain # table) info =
     (case traverse_loop func chain info of (ok, info') \<Rightarrow> if ok then traverse_table func table info' else info')"

text \<open>The callback may change \<open>info\<close>; it is taken not to change the table.  \<open>frozen\<close> is cleared at the end,
  whatever it was before.\<close>

definition bfd_hash_traverse ::
    "'e bfd_hash_table \<Rightarrow> ('e \<Rightarrow> 's \<Rightarrow> bool \<times> 's) \<Rightarrow> 's \<Rightarrow> ('e bfd_hash_table \<times> 's) cresult" where
  "bfd_hash_traverse table func info =
     (if ht_memory table = None then Undefined
      else Done (table\<lparr>ht_frozen := False\<rparr>, traverse_table func (ht_table table) info))"

section \<open>The table of primes\<close>

lemma length_primes [simp]: "length primes = 28"
  by (simp add: primes_def)

lemma sorted_primes: "sorted_wrt (<) primes"
  by (simp add: primes_def)

text \<open>The search returns the first position whose prime exceeds \<open>n\<close>.\<close>

lemma prime_search_first:
  assumes "low \<le> high" "high \<le> 28" "\<forall>i < low. primes ! i \<le> n" "\<forall>i. high \<le> i \<and> i < 28 \<longrightarrow> n < primes ! i"
  shows "prime_search n low high \<le> 28 \<and> (\<forall>i < prime_search n low high. primes ! i \<le> n) \<and>
    (\<forall>i. prime_search n low high \<le> i \<and> i < 28 \<longrightarrow> n < primes ! i)"
  using assms
proof (induction n low high rule: prime_search.induct)
  case (1 n low high)
  let ?mid = "low + (high - low) div 2"
  have mono: "primes ! i \<le> primes ! j" if "i \<le> j" "j < 28" for i j
    using sorted_wrt_nth_less [OF sorted_primes, of i j] that by (cases "i = j") auto
  show ?case
  proof (cases "low < high")
    case True
    then have mid: "low \<le> ?mid" "?mid < high" by auto
    show ?thesis
    proof (cases "primes ! ?mid \<le> n")
      case le: True
      have "\<forall>i < ?mid + 1. primes ! i \<le> n" using le mono [of _ ?mid] mid 1(4) order_trans [OF mono [of _ ?mid] le] by simp
      moreover have "prime_search n low high = prime_search n (?mid + 1) high"
        using le True by (subst prime_search.simps) (simp add: Let_def)
      ultimately show ?thesis using 1(1) [OF True refl le _ 1(4)] mid 1(6) by (metis Suc_eq_plus1 Suc_leI)
    next
      case False
      have "\<forall>i. ?mid \<le> i \<and> i < 28 \<longrightarrow> n < primes ! i" using False mono [of ?mid] by (meson not_le order_less_le_trans)
      moreover have "prime_search n low high = prime_search n low ?mid"
        using False True by (subst prime_search.simps) (simp add: Let_def)
      moreover have "?mid \<le> 28" using mid 1(4) by linarith
      ultimately show ?thesis using 1(2) [OF True refl False mid(1) _ 1(5)] by metis
    qed
  next
    case False
    then have "prime_search n low high = low" by (subst prime_search.simps) simp
    then show ?thesis using 1(3-6) False by (metis le_antisym le_trans not_less)
  qed
qed

lemma higher_prime_number_spec:
  "(n < 4294967291 \<longrightarrow> (\<exists>p \<in> set primes. higher_prime_number n = Done p \<and> n < p \<and> (\<forall>q \<in> set primes. n < q \<longrightarrow> p \<le> q))) \<and>
   (4294967291 \<le> n \<longrightarrow> higher_prime_number n = Undefined)"
proof -
  let ?k = "prime_search n 0 28"
  have k: "?k \<le> 28" "\<And>i. i < ?k \<Longrightarrow> primes ! i \<le> n" "\<And>i. ?k \<le> i \<Longrightarrow> i < 28 \<Longrightarrow> n < primes ! i"
  proof -
    have "?k \<le> 28 \<and> (\<forall>i < ?k. primes ! i \<le> n) \<and> (\<forall>i. ?k \<le> i \<and> i < 28 \<longrightarrow> n < primes ! i)"
      by (rule prime_search_first) auto
    then show "?k \<le> 28" "\<And>i. i < ?k \<Longrightarrow> primes ! i \<le> n" "\<And>i. ?k \<le> i \<Longrightarrow> i < 28 \<Longrightarrow> n < primes ! i"
      by blast+
  qed
  have top: "primes ! 27 = 4294967291" by (simp add: primes_def)
  have in_range: "?k < 28 \<longleftrightarrow> n < 4294967291" using k(2) [of 27] k(3) [of 27] k(1) top by (cases "?k = 28") auto
  have "\<exists>p \<in> set primes. higher_prime_number n = Done p \<and> n < p \<and> (\<forall>q \<in> set primes. n < q \<longrightarrow> p \<le> q)" if "?k < 28"
  proof (rule bexI [of _ "primes ! ?k"])
    have "primes ! ?k \<le> q" if "q \<in> set primes" "n < q" for q
    proof -
      obtain i where "i < 28" "q = primes ! i" using \<open>q \<in> set primes\<close> by (auto simp: in_set_conv_nth)
      then show ?thesis using k(2) [of i] \<open>n < q\<close> sorted_wrt_nth_less [OF sorted_primes, of ?k i]
        by (cases "i = ?k"; cases "i < ?k") auto
    qed
    then show "higher_prime_number n = Done (primes ! ?k) \<and> n < primes ! ?k \<and> (\<forall>q \<in> set primes. n < q \<longrightarrow> primes ! ?k \<le> q)"
      using k(3) [of ?k] that by (auto simp: higher_prime_number_def Let_def)
  qed (use that in simp)
  then show ?thesis using in_range by (auto simp: higher_prime_number_def Let_def)
qed

text \<open>\<open>higher_prime_number\<close> returns the least entry of its table above \<open>n\<close>.  From the last entry on
  there is none, and instead of the zero its comment promises the function reads the word after the
  array.\<close>

theorem higher_prime_number_exact:
  "(n < 4294967291 \<longrightarrow> (\<exists>p \<in> set primes. higher_prime_number n = Done p \<and> n < p \<and> (\<forall>q \<in> set primes. n < q \<longrightarrow> p \<le> q))) \<and>
   (4294967291 \<le> n \<longrightarrow> higher_prime_number n = Undefined)"
  by (rule higher_prime_number_spec)

theorem higher_prime_number_exact_witness:
  "higher_prime_number 4294967295 = Undefined \<and> (\<exists>p \<in> set primes. higher_prime_number 4051 = Done p \<and> 4051 < p)"
  using higher_prime_number_exact [of 4294967295] higher_prime_number_exact [of 4051] by auto

section \<open>The invariant\<close>

definition ht_entries :: "'e bfd_hash_table \<Rightarrow> 'e list" where
  "ht_entries t = concat (ht_table t)"

text \<open>Every entry is in the slot of its hash code, which is that of its string.\<close>

definition slots_ok :: "u32 \<Rightarrow> 'x bfd_hash_entry_scheme list list \<Rightarrow> bool" where
  "slots_ok tsize table \<longleftrightarrow> length table = unat tsize \<and>
     (\<forall>i < length table. \<forall>e \<in> set (table ! i). slot (hash_of (he_string e)) tsize = i \<and> he_hash e = hash_of (he_string e))"

definition fresh_in :: "nat \<Rightarrow> objalloc option \<Rightarrow> bool" where
  "fresh_in a m \<longleftrightarrow> (\<exists>x. m = Some x \<and> oa_next x \<le> a)"

definition hash_ok :: "'x bfd_hash_entry_scheme bfd_hash_table \<Rightarrow> bool" where
  "hash_ok t \<longleftrightarrow> ht_size t \<noteq> 0 \<and> slots_ok (ht_size t) (ht_table t) \<and>
     distinct (map he_string (ht_entries t)) \<and> distinct (map he_addr (ht_entries t)) \<and>
     ht_count t = of_nat (length (ht_entries t)) \<and>
     (\<exists>m. ht_memory t = Some m \<and> (\<forall>e \<in> set (ht_entries t). he_addr e < oa_next m))"

text \<open>What the table stands for: the entry of a string.\<close>

definition ht_map :: "'x bfd_hash_entry_scheme bfd_hash_table \<Rightarrow> string \<rightharpoonup> 'x bfd_hash_entry_scheme" where
  "ht_map t = map_of (map (\<lambda>e. (he_string e, e)) (ht_entries t))"

lemma unat_ucast_size [simp]: "unat (ucast (n :: u32) :: u64) = unat n"
proof -
  have "unat n < 2 ^ 64" using unat_less_2p [of n] by simp
  then show ?thesis by (simp add: unsigned_ucast_eq take_bit_nat_eq_self)
qed

lemma ucast_back [simp]: "ucast (ucast (n :: u32) :: u64) = n"
  by (rule bit_word_eqI) (simp add: bit_simps)

lemma slot_less: "n \<noteq> 0 \<Longrightarrow> slot h n < unat n"
  by (simp add: slot_def unat_gt_0)

lemma map_of_entries:
  assumes "distinct (map he_string es)"
  shows "map_of (map (\<lambda>e. (he_string e, e)) es) s = Some e \<longleftrightarrow> e \<in> set es \<and> he_string e = s"
proof -
  let ?f = "\<lambda>e. (he_string e, e)"
  have "map fst (map ?f es) = map he_string es" by simp
  then have d: "distinct (map fst (map ?f es))" using assms by (simp only:)
  have "map_of (map ?f es) s = Some e \<longleftrightarrow> (s, e) \<in> set (map ?f es)" by (rule map_of_eq_Some_iff [OF d])
  then show ?thesis by (auto simp only: set_map image_iff prod.inject)
qed

lemma ht_map_Some: "hash_ok t \<Longrightarrow> ht_map t s = Some e \<longleftrightarrow> e \<in> set (ht_entries t) \<and> he_string e = s"
  unfolding ht_map_def hash_ok_def by (intro map_of_entries) auto

lemma find_in_chain:
  assumes ok: "hash_ok t"
  shows "find (\<lambda>e. he_hash e = hash_of s \<and> he_string e = s) (ht_table t ! slot (hash_of s) (ht_size t)) = ht_map t s"
    (is "find ?P ?c = _")
proof -
  let ?i = "slot (hash_of s) (ht_size t)"
  have slots: "slots_ok (ht_size t) (ht_table t)" and pos: "ht_size t \<noteq> 0" using ok by (simp_all add: hash_ok_def)
  then have i: "?i < length (ht_table t)" using slot_less [OF pos] by (simp add: slots_ok_def)
  have mem: "e \<in> set ?c \<and> ?P e \<longleftrightarrow> e \<in> set (ht_entries t) \<and> he_string e = s" for e
  proof
    assume "e \<in> set (ht_entries t) \<and> he_string e = s"
    then obtain k where k: "k < length (ht_table t)" "e \<in> set (ht_table t ! k)" "he_string e = s"
      by (auto simp: ht_entries_def in_set_conv_nth [of _ "ht_table t"])
    then have "slot (hash_of (he_string e)) (ht_size t) = k" "he_hash e = hash_of (he_string e)"
      using slots unfolding slots_ok_def by blast+
    with k show "e \<in> set ?c \<and> ?P e" by simp
  qed (use i nth_mem in \<open>auto simp: ht_entries_def\<close>)
  show ?thesis
  proof (cases "find ?P ?c")
    case None
    then have "\<nexists>e. e \<in> set ?c \<and> ?P e" by (auto simp: find_None_iff)
    then have "ht_map t s = None" using mem ht_map_Some [OF ok, of s] by (metis option.exhaust)
    with None show ?thesis by simp
  next
    case (Some e)
    then have "e \<in> set ?c \<and> ?P e" by (auto simp: find_Some_iff)
    then show ?thesis using Some mem ht_map_Some [OF ok, of s e] by simp
  qed
qed

section \<open>Insertion\<close>

lemma mset_concat_update:
  "i < length xs \<Longrightarrow> mset (concat (xs[i := ys @ xs ! i])) = mset ys + mset (concat xs)"
proof (induction xs arbitrary: i)
  case (Cons x xs)
  then show ?case by (cases i) (auto simp: add_ac)
qed simp

lemma distinct_mset_map: "mset xs = mset ys \<Longrightarrow> distinct (map f xs) = distinct (map f ys)"
  by (metis mset_eq_imp_distinct_iff mset_map)

text \<open>Rehashing keeps the entries and puts each in its slot.\<close>

lemma rehash_chain_ok:
  assumes "n \<noteq> 0" "length nt = unat n"
    and "\<forall>i < length nt. \<forall>e \<in> set (nt ! i). slot (he_hash e) n = i"
  shows "length (rehash_chain (ucast n) c nt) = unat n \<and>
    mset (concat (rehash_chain (ucast n) c nt)) = mset c + mset (concat nt) \<and>
    (\<forall>i < unat n. \<forall>e \<in> set (rehash_chain (ucast n) c nt ! i). slot (he_hash e) n = i)"
  using assms
proof (induction c arbitrary: nt rule: length_induct)
  case (1 c)
  show ?case
  proof (cases c)
    case (Cons e r)
    let ?P = "\<lambda>x. he_hash x = he_hash e"
    let ?run = "e # takeWhile ?P r" and ?i = "slot (he_hash e) n"
    let ?nt = "nt[?i := ?run @ nt ! ?i]"
    have i: "?i < length nt" using slot_less [OF 1(2)] 1(3) by simp
    have nt: "\<forall>j < length ?nt. \<forall>x \<in> set (?nt ! j). slot (he_hash x) n = j"
      using 1(4) i by (auto simp: nth_list_update dest: set_takeWhileD)
    have len: "length (dropWhile ?P r) < length c" using Cons by (simp add: le_imp_less_Suc length_dropWhile_le)
    have step: "rehash_chain (ucast n) c nt = rehash_chain (ucast n) (dropWhile ?P r) ?nt"
      unfolding Cons by (simp add: Let_def slot_def)
    have "mset r = mset (takeWhile ?P r) + mset (dropWhile ?P r)"
      by (metis mset_append takeWhile_dropWhile_id)
    then have "mset (dropWhile ?P r) + mset (concat ?nt) = mset c + mset (concat nt)"
      unfolding Cons mset_concat_update [OF i, of ?run] by simp
    moreover have "length ?nt = unat n" using 1(3) by simp
    ultimately show ?thesis
      unfolding step using 1(1) [THEN spec, THEN mp, OF len] 1(2) nt by metis
  qed (use 1 in simp)
qed

lemma rehash_ok:
  assumes n: "n \<noteq> 0"
  shows "length (rehash (ucast n) tbl) = unat n \<and> mset (concat (rehash (ucast n) tbl)) = mset (concat tbl) \<and>
    (\<forall>i < unat n. \<forall>e \<in> set (rehash (ucast n) tbl ! i). slot (he_hash e) n = i)"
proof -
  have all: "length (foldl (\<lambda>nt c. rehash_chain (ucast n) c nt) nt tbl) = unat n \<and>
      mset (concat (foldl (\<lambda>nt c. rehash_chain (ucast n) c nt) nt tbl)) = mset (concat tbl) + mset (concat nt) \<and>
      (\<forall>i < unat n. \<forall>e \<in> set (foldl (\<lambda>nt c. rehash_chain (ucast n) c nt) nt tbl ! i). slot (he_hash e) n = i)"
    if "length nt = unat n" "\<forall>i < length nt. \<forall>e \<in> set (nt ! i). slot (he_hash e) n = i" for nt
    using that
  proof (induction tbl arbitrary: nt)
    case (Cons c tbl)
    have c: "length (rehash_chain (ucast n) c nt) = unat n" "mset (concat (rehash_chain (ucast n) c nt)) = mset c + mset (concat nt)"
      "\<forall>i < unat n. \<forall>e \<in> set (rehash_chain (ucast n) c nt ! i). slot (he_hash e) n = i"
      using rehash_chain_ok [OF n Cons.prems] by blast+
    show ?case using Cons.IH [of "rehash_chain (ucast n) c nt"] c by (simp add: add_ac)
  qed simp
  have "concat (replicate (unat n) []) = []" by (simp add: concat_replicate_trivial)
  then show ?thesis using all [of "replicate (unat n) []"] by (simp add: rehash_def)
qed

text \<open>Growing keeps the invariant and the map.\<close>

lemma hash_ok_permuted:
  assumes "hash_ok t" "mset (ht_entries t') = mset (ht_entries t)" "ht_count t' = ht_count t"
    and "ht_size t' \<noteq> 0" "slots_ok (ht_size t') (ht_table t')" "ht_memory t = Some m" "ht_memory t' = Some m'" "oa_next m \<le> oa_next m'"
  shows "hash_ok t' \<and> ht_map t' = ht_map t"
proof -
  have set: "set (ht_entries t') = set (ht_entries t)" and len: "length (ht_entries t') = length (ht_entries t)"
    using assms(2) by (metis set_mset_mset, metis size_mset)
  have d: "distinct (map he_string (ht_entries t'))" "distinct (map he_addr (ht_entries t'))"
    using assms(1) distinct_mset_map [OF assms(2)] by (auto simp: hash_ok_def)
  have ok: "hash_ok t'"
    using assms d set len unfolding hash_ok_def by (auto intro: less_le_trans)
  moreover have "ht_map t' s = ht_map t s" for s
    using ht_map_Some [OF ok, of s] ht_map_Some [OF assms(1), of s] set
    by (metis option.exhaust)
  ultimately show ?thesis by (simp add: fun_eq_iff)
qed

lemma slots_ok_string:
  assumes "slots_ok n tbl" "mset (concat tbl') = mset (concat tbl)" "e \<in> set (concat tbl')"
  shows "he_hash e = hash_of (he_string e)"
proof -
  have "e \<in> set (concat tbl)" using assms(2,3) by (metis set_mset_mset)
  then obtain c where "c \<in> set tbl" "e \<in> set c" by auto
  then obtain i where "i < length tbl" "e \<in> set (tbl ! i)" by (metis in_set_conv_nth)
  then show ?thesis using assms(1) unfolding slots_ok_def by blast
qed

lemma table_alloc_cases:
  assumes "ht_memory t = Some m"
  obtains (ok) m' a where "table_alloc t = Done (Some a, t\<lparr>ht_memory := Some m'\<rparr>)" "a = oa_next m" "oa_next m' = Suc (oa_next m)"
      "oa_ok m (oa_next m)" "oa_ok m' = oa_ok m"
    | (fail) m' where "table_alloc t = Done (None, t\<lparr>ht_memory := Some m'\<rparr>)" "oa_next m' = Suc (oa_next m)"
      "\<not> oa_ok m (oa_next m)" "oa_ok m' = oa_ok m"
proof (cases "oa_ok m (oa_next m)")
  case True
  then show ?thesis using assms ok [of "oa_next m" "m\<lparr>oa_next := Suc (oa_next m)\<rparr>"]
    by (simp add: table_alloc_def objalloc_alloc_def)
next
  case False
  then show ?thesis using assms fail [of "m\<lparr>oa_next := Suc (oa_next m)\<rparr>"]
    by (simp add: table_alloc_def objalloc_alloc_def)
qed

lemma hash_grow_ok:
  assumes ok: "hash_ok t" and small: "ht_size t < 4294967291"
  shows "\<exists>t'. hash_grow t = Done t' \<and> hash_ok t' \<and> ht_map t' = ht_map t"
proof -
  obtain p where p: "higher_prime_number (ht_size t) = Done p" "ht_size t < p"
    using higher_prime_number_spec small by blast
  then have p0: "p \<noteq> 0" by auto
  then have n0: "(ucast p :: u64) \<noteq> 0" by (metis unat_ucast_size unsigned_eq_0_iff)
  have "unat p * 8 < 2 ^ 64" using unat_less_2p [of p] by simp
  then have "unat (ucast p * 8 :: u64) = unat p * 8" using unat_mult_lem [of "ucast p :: u64" 8] by simp
  then have "unat ((ucast p * 8) div 8 :: u64) = unat p" by (simp add: unat_div_distrib)
  then have alloc: "(ucast p * 8) div 8 = (ucast p :: u64)" by (metis unat_eq_iff unat_ucast_size)
  obtain m where m: "ht_memory t = Some m" using ok by (auto simp: hash_ok_def)
  from m show ?thesis
  proof (cases rule: table_alloc_cases)
    case (ok m' a)
    let ?t' = "t\<lparr>ht_memory := Some m', ht_table := rehash (ucast p) (ht_table t), ht_size := p\<rparr>"
    have r: "length (rehash (ucast p) (ht_table t)) = unat p" "mset (concat (rehash (ucast p) (ht_table t))) = mset (concat (ht_table t))"
      "\<forall>i < unat p. \<forall>e \<in> set (rehash (ucast p) (ht_table t) ! i). slot (he_hash e) p = i"
      using rehash_ok [OF p0, of "ht_table t"] by blast+
    have "slots_ok p (rehash (ucast p) (ht_table t))"
      unfolding slots_ok_def
    proof (intro conjI allI impI ballI)
      fix i e assume i: "i < length (rehash (ucast p) (ht_table t))" "e \<in> set (rehash (ucast p) (ht_table t) ! i)"
      then have "e \<in> set (concat (rehash (ucast p) (ht_table t)))" by (auto intro: nth_mem)
      then show "he_hash e = hash_of (he_string e)"
        using slots_ok_string [OF _ r(2)] assms(1) by (auto simp: hash_ok_def)
      then show "slot (hash_of (he_string e)) p = i" using r i by metis
    qed (rule r(1))
    then have "hash_ok ?t' \<and> ht_map ?t' = ht_map t"
      using r(2) p0 ok m by (intro hash_ok_permuted [OF assms(1)]) (auto simp: ht_entries_def)
    moreover have "hash_grow t = Done ?t'"
      using p ok n0 alloc by (simp add: hash_grow_def Let_def)
    ultimately show ?thesis by blast
  next
    case (fail m')
    let ?t' = "t\<lparr>ht_memory := Some m', ht_frozen := True\<rparr>"
    have "hash_ok ?t' \<and> ht_map ?t' = ht_map t"
      using fail m assms(1) by (intro hash_ok_permuted [OF assms(1)]) (auto simp: ht_entries_def hash_ok_def)
    moreover have "hash_grow t = Done ?t'"
      using p fail n0 alloc by (simp add: hash_grow_def Let_def)
    ultimately show ?thesis by blast
  qed
qed

text \<open>An allocation that was made between two states of a table failed.\<close>

definition alloc_failed :: "'e bfd_hash_table \<Rightarrow> 'f bfd_hash_table \<Rightarrow> bool" where
  "alloc_failed t t' \<longleftrightarrow> (\<exists>m m' n. ht_memory t = Some m \<and> ht_memory t' = Some m' \<and> oa_next m \<le> n \<and> n < oa_next m' \<and> \<not> oa_ok m n)"

lemma alloc_failed_step: "table_alloc t = Done (r, t1) \<Longrightarrow> alloc_failed t1 t2 \<Longrightarrow> alloc_failed t t2"
  by (auto simp: table_alloc_def objalloc_alloc_def alloc_failed_def split: option.splits if_splits; metis Suc_leD)

lemma alloc_failed_now: "table_alloc t = Done (None, t1) \<Longrightarrow> alloc_failed t t1"
  by (auto simp: table_alloc_def objalloc_alloc_def alloc_failed_def split: option.splits if_splits)

text \<open>A copy of the string can be made: its length with the terminator is an \<open>unsigned int\<close>.\<close>

definition copy_fits :: "bool \<Rightarrow> string \<Rightarrow> bool" where
  "copy_fits copy s \<longleftrightarrow> (copy \<longrightarrow> length s < 4294967295)"

lemma memcpy_fits_len: "memcpy_fits (snd (bfd_hash_hash s) + 1) (length s + 1) \<longleftrightarrow> length s < 4294967295"
proof -
  have mod: "unat (of_nat (length s + 1) :: u32) = (length s + 1) mod 2 ^ 32"
    by (simp only: unat_of_nat) simp
  have "(length s + 1) mod 2 ^ 32 < 2 ^ 32" by (rule mod_less_divisor) (rule zero_less_power, rule zero_less_numeral)
  moreover have "(length s + 1) mod 2 ^ 32 = length s + 1" if "length s + 1 < 2 ^ 32" using that by (rule mod_less)
  ultimately have "length s + 1 \<le> (length s + 1) mod 2 ^ 32 \<longleftrightarrow> length s + 1 < 2 ^ 32" by linarith
  also have "\<dots> \<longleftrightarrow> length s < 4294967295"
  proof -
    have "(2 ^ 32 :: nat) = 4294967295 + 1" by simp
    then show ?thesis by linarith
  qed
  finally show ?thesis unfolding memcpy_fits_def bfd_hash_hash_def Let_def snd_conv mod [symmetric] by (simp add: add.commute)
qed

text \<open>
  What the table relies on in the function that makes entries: on a table that is not freed it returns, it changes nothing of the
  table but the allocator, a new entry has an address the allocator had not handed out, and without an entry an allocation
  failed.
\<close>

locale hash_newfunc =
  fixes newfunc :: "'x bfd_hash_entry_scheme newfunc"
  assumes returned: "ht_memory t = Some m \<Longrightarrow> \<exists>r t1. newfunc None t s = Done (r, t1)"
    and made: "ht_memory t = Some m \<Longrightarrow> newfunc None t s = Done (Some e, t1) \<Longrightarrow>
      \<exists>m1. t1 = t\<lparr>ht_memory := Some m1\<rparr> \<and> oa_next m \<le> he_addr e \<and> he_addr e < oa_next m1"
    and failed: "ht_memory t = Some m \<Longrightarrow> newfunc None t s = Done (None, t1) \<Longrightarrow>
      \<exists>m1 n. t1 = t\<lparr>ht_memory := Some m1\<rparr> \<and> oa_next m \<le> n \<and> n < oa_next m1 \<and> \<not> oa_ok m n"
begin

lemma hash_link_ok:
  assumes ok: "hash_ok t" and new: "ht_map t s = None" and m: "ht_memory t = Some m"
    and e: "he_string e = s" "he_hash e = hash_of s" "oa_next m \<le> he_addr e" "he_addr e < oa_next m1"
  shows "hash_ok (hash_link e (t\<lparr>ht_memory := Some m1\<rparr>)) \<and>
    ht_map (hash_link e (t\<lparr>ht_memory := Some m1\<rparr>)) = (ht_map t)(s \<mapsto> e)"
proof -
  let ?i = "slot (hash_of s) (ht_size t)" and ?t = "hash_link e (t\<lparr>ht_memory := Some m1\<rparr>)"
  have pos: "ht_size t \<noteq> 0" and slots: "slots_ok (ht_size t) (ht_table t)" using ok by (auto simp: hash_ok_def)
  then have i: "?i < length (ht_table t)" using slot_less [OF pos] by (simp add: slots_ok_def)
  have tbl: "ht_table ?t = (ht_table t)[?i := [e] @ ht_table t ! ?i]" "ht_size ?t = ht_size t" "ht_memory ?t = Some m1"
      "ht_count ?t = ht_count t + 1"
    using e by (simp_all add: hash_link_def Let_def)
  then have ms: "mset (ht_entries ?t) = add_mset e (mset (ht_entries t))"
    using mset_concat_update [OF i, of "[e]"] by (simp add: ht_entries_def)
  have set: "set (ht_entries ?t) = insert e (set (ht_entries t))" and len: "length (ht_entries ?t) = Suc (length (ht_entries t))"
    using ms by (metis set_mset_add_mset_insert set_mset_mset, metis size_add_mset size_mset)
  have perm: "mset (ht_entries ?t) = mset (e # ht_entries t)" using ms by simp
  have str: "he_string x \<noteq> s" if "x \<in> set (ht_entries t)" for x
    using that new ht_map_Some [OF ok, of s x] by auto
  have addr: "he_addr x < oa_next m" if "x \<in> set (ht_entries t)" for x
    using ok m that by (auto simp: hash_ok_def)
  have d: "distinct (map he_string (ht_entries ?t))" "distinct (map he_addr (ht_entries ?t))"
    unfolding distinct_mset_map [OF perm] using ok str addr e by (force simp: hash_ok_def)+
  have sl: "slots_ok (ht_size t) (ht_table ?t)"
    using slots i e by (auto simp: slots_ok_def tbl(1) nth_list_update)
  have okt: "hash_ok ?t"
    unfolding hash_ok_def using pos sl d set len tbl addr e ok
    by (auto simp: hash_ok_def dest: addr intro: less_le_trans less_trans)
  moreover have "ht_map ?t x = ((ht_map t)(s \<mapsto> e)) x" for x
    using ht_map_Some [OF okt, of x] ht_map_Some [OF ok, of x] set str e(1)
    by (cases "ht_map ?t x"; cases "x = s"; cases "ht_map t x") auto
  ultimately show ?thesis by (simp add: fun_eq_iff)
qed

lemma insert_ok:
  assumes ok: "hash_ok t" and new: "ht_map t s = None" and small: "ht_size t < 4294967291"
  shows "\<exists>r t'. bfd_hash_insert newfunc t s (hash_of s) = Done (r, t') \<and> hash_ok t' \<and>
    (case r of None \<Rightarrow> ht_map t' = ht_map t \<and> alloc_failed t t'
     | Some e \<Rightarrow> he_string e = s \<and> ht_map t' = (ht_map t)(s \<mapsto> e))"
proof -
  obtain m where m: "ht_memory t = Some m" using ok by (auto simp: hash_ok_def)
  obtain r t1 where Pair: "newfunc None t s = Done (r, t1)" using returned [OF m] by blast
  show ?thesis
  proof (cases r)
    case None
    then obtain m1 n where n: "t1 = t\<lparr>ht_memory := Some m1\<rparr>" "oa_next m \<le> n" "n < oa_next m1" "\<not> oa_ok m n"
      using failed [OF m] Pair by blast
    then have "hash_ok t1 \<and> ht_map t1 = ht_map t"
      using m ok by (intro hash_ok_permuted [OF ok]) (auto simp: ht_entries_def hash_ok_def)
    moreover have "alloc_failed t t1" using n m by (auto simp: alloc_failed_def)
    ultimately show ?thesis using Pair None by (simp add: bfd_hash_insert_def)
  next
    case (Some e)
    then obtain m1 where t1: "t1 = t\<lparr>ht_memory := Some m1\<rparr>" "oa_next m \<le> he_addr e" "he_addr e < oa_next m1"
      using made [OF m] Pair by blast
    let ?e = "e\<lparr>he_string := s, he_hash := hash_of s\<rparr>"
    let ?t = "hash_link ?e t1"
    have link: "hash_ok ?t" "ht_map ?t = (ht_map t)(s \<mapsto> ?e)"
      using hash_link_ok [OF ok new m, of ?e m1] t1 by simp_all
    have sz: "ht_size ?t = ht_size t" "ht_size t1 = ht_size t" "ht_size t \<noteq> 0"
      using t1 ok by (simp_all add: hash_link_def Let_def hash_ok_def)
    obtain t2 where t2: "hash_grow ?t = Done t2" "hash_ok t2" "ht_map t2 = ht_map ?t"
      using hash_grow_ok [OF link(1)] sz small by auto
    show ?thesis using Pair Some link sz t2
      by (cases "\<not> ht_frozen ?t \<and> ht_size ?t * 3 div 4 < ht_count ?t") (auto simp: bfd_hash_insert_def Let_def)
  qed
qed

text \<open>Looking a string up: with \<open>create\<close> the entry is found or made, without it the table is read only.\<close>

lemma lookup_ok:
  assumes ok: "hash_ok t" and small: "ht_size t < 4294967291" and fits: "ht_map t s = None \<longrightarrow> copy_fits copy s"
  shows "\<exists>r t'. bfd_hash_lookup newfunc t s create copy = Done (r, t') \<and> hash_ok t' \<and>
    (case r of
       Some e \<Rightarrow> he_string e = s \<and> (ht_map t s = None \<longrightarrow> create) \<and> ht_map t' = (ht_map t)(s \<mapsto> e) \<and>
         (ht_map t s \<noteq> None \<longrightarrow> t' = t)
     | None \<Rightarrow> ht_map t s = None \<and> ht_map t' = ht_map t \<and> (if create then alloc_failed t t' else t' = t))"
proof -
  have pos: "ht_size t \<noteq> 0" using ok by (simp add: hash_ok_def)
  obtain m where m: "ht_memory t = Some m" using ok by (auto simp: hash_ok_def)
  note unf = bfd_hash_lookup_def Let_def pos m find_in_chain [OF ok] memcpy_fits_len [simplified]
  show ?thesis
  proof (cases "ht_map t s")
    case (Some e)
    then have "he_string e = s" "(ht_map t)(s \<mapsto> e) = ht_map t" using ht_map_Some [OF ok, of s e] by auto
    with Some ok show ?thesis by (simp add: unf)
  next
    case None
    show ?thesis
    proof (cases "create \<and> copy")
      case False
      then show ?thesis using None ok insert_ok [OF ok None small]
        by (cases create) (fastforce simp: unf split: option.splits)+
    next
      case True
      from m show ?thesis
      proof (cases rule: table_alloc_cases)
        case (ok m' a)
        let ?t = "t\<lparr>ht_memory := Some m'\<rparr>"
        have t: "hash_ok ?t \<and> ht_map ?t = ht_map t"
          using m ok assms(1) by (intro hash_ok_permuted [OF assms(1)]) (auto simp: ht_entries_def hash_ok_def)
        then have "ht_map ?t s = None" "ht_size ?t < 4294967291" using None small by simp_all
        from insert_ok [OF conjunct1 [OF t] this] obtain r t' where
          r: "bfd_hash_insert newfunc ?t s (hash_of s) = Done (r, t')" "hash_ok t'"
            "case r of None \<Rightarrow> ht_map t' = ht_map ?t \<and> alloc_failed ?t t' | Some e \<Rightarrow> he_string e = s \<and> ht_map t' = (ht_map ?t)(s \<mapsto> e)"
          by blast
        show ?thesis using True None t ok(1) r fits alloc_failed_step [OF ok(1)] by (auto simp: unf copy_fits_def split: option.splits)
      next
        case (fail m')
        let ?t = "t\<lparr>ht_memory := Some m'\<rparr>"
        have "hash_ok ?t \<and> ht_map ?t = ht_map t"
          using m fail assms(1) by (intro hash_ok_permuted [OF assms(1)]) (auto simp: ht_entries_def hash_ok_def)
        then show ?thesis using True None fail(1) alloc_failed_now by (simp add: unf)
      qed
    qed
  qed
qed

end

text \<open>A string that is too long to be copied is not entered.\<close>

lemma lookup_too_long:
  assumes ok: "hash_ok t" and new: "ht_map t s = None" and long: "\<not> copy_fits copy s" and run: "bfd_hash_lookup newfunc t s True copy = Done (r, t')"
  shows "r = None"
proof -
  obtain m where m: "ht_memory t = Some m" using ok by (auto simp: hash_ok_def)
  have pos: "ht_size t \<noteq> 0" using ok by (simp add: hash_ok_def)
  from m show ?thesis
    using run long new pos by (cases rule: table_alloc_cases)
      (auto simp: bfd_hash_lookup_def Let_def find_in_chain [OF ok] memcpy_fits_len [simplified] copy_fits_def split: if_splits)
qed

lemma bfd_hash_newfunc_made:
  "ht_memory t = Some m \<Longrightarrow> bfd_hash_newfunc None t s =
     (if oa_ok m (oa_next m) then Done (Some \<lparr>he_addr = oa_next m, he_string = [], he_hash = 0\<rparr>, t\<lparr>ht_memory := Some (m\<lparr>oa_next := Suc (oa_next m)\<rparr>)\<rparr>)
      else Done (None, t\<lparr>ht_memory := Some (m\<lparr>oa_next := Suc (oa_next m)\<rparr>)\<rparr>))"
  by (simp add: bfd_hash_newfunc_def bfd_hash_allocate_def table_alloc_def objalloc_alloc_def)

interpretation base_hash: hash_newfunc bfd_hash_newfunc
  by unfold_locales (fastforce simp: bfd_hash_newfunc_made split: if_splits)+

text \<open>A constructor that sets up the fields it adds: every entry the table makes satisfies \<open>fresh\<close>, which the hash table's own fields do not
  matter to.\<close>

locale initialising_newfunc = hash_newfunc newfunc for newfunc :: "'x bfd_hash_entry_scheme newfunc" +
  fixes fresh :: "'x bfd_hash_entry_scheme \<Rightarrow> bool"
  assumes initialised: "newfunc None t s = Done (Some e, t1) \<Longrightarrow> fresh e"
    and fresh_named: "fresh (e\<lparr>he_string := s, he_hash := h\<rparr>) = fresh e"
begin

lemma insert_fresh:
  assumes "bfd_hash_insert newfunc t s h = Done (Some e, t')"
  shows "fresh e"
proof -
  obtain x t1 where "newfunc None t s = Done (Some x, t1)" "e = x\<lparr>he_string := s, he_hash := h\<rparr>"
    using assms by (auto simp: bfd_hash_insert_def Let_def cbind_Done split: option.splits prod.splits if_splits)
  then show ?thesis using initialised by (simp add: fresh_named)
qed

text \<open>What a lookup finds was there before or is fresh.\<close>

lemma lookup_fresh:
  assumes "hash_ok t" "bfd_hash_lookup newfunc t s create copy = Done (Some e, t')" "ht_map t s = None"
  shows "fresh e"
proof -
  have "ht_size t \<noteq> 0" using assms(1) by (simp add: hash_ok_def)
  then have "\<exists>t1. bfd_hash_insert newfunc t1 s (hash_of s) = Done (Some e, t')"
    using assms(2) find_in_chain [OF assms(1), of s] assms(3)
    by (auto simp: bfd_hash_lookup_def Let_def cbind_Done split: if_splits prod.splits option.splits)
  then show ?thesis using insert_fresh by blast
qed

end

lemma init_ok:
  assumes "tsize \<noteq> 0" "bfd_hash_table_init_n created entsize tsize = Some t"
  shows "hash_ok t \<and> ht_map t = Map.empty \<and> ht_size t = tsize"
proof -
  obtain m where "t = \<lparr>ht_table = replicate (unat tsize) [], ht_memory = Some m, ht_size = tsize, ht_count = 0,
      ht_entsize = entsize, ht_frozen = False\<rparr>"
    using assms(2) by (auto simp: bfd_hash_table_init_n_def Let_def split: if_splits option.splits prod.splits)
  moreover have "concat (replicate (unat tsize) []) = []" by (simp add: concat_replicate_trivial)
  ultimately show ?thesis using assms(1) by (simp add: hash_ok_def slots_ok_def ht_map_def ht_entries_def)
qed

lemma mset_concat_set:
  "i < length xs \<Longrightarrow> mset (concat (xs[i := y])) + mset (xs ! i) = mset (concat xs) + mset y"
proof (induction xs arbitrary: i)
  case (Cons x xs)
  then show ?case by (cases i) (auto simp: add_ac)
qed simp

lemma split_by_addr:
  assumes "distinct (map he_addr c)" "e \<in> set c"
  shows "dropWhile (\<lambda>x. he_addr x \<noteq> he_addr e) c = e # tl (dropWhile (\<lambda>x. he_addr x \<noteq> he_addr e) c)"
  using assms by (induction c) (auto simp: image_iff)

lemma chain_distinct:
  assumes "hash_ok t" "i < length (ht_table t)"
  shows "distinct (map he_addr (ht_table t ! i))"
proof -
  have "concat (ht_table t) = concat (take i (ht_table t)) @ ht_table t ! i @ concat (drop (Suc i) (ht_table t))"
    using arg_cong [OF id_take_nth_drop [OF assms(2)], of concat] by (simp only: concat_append concat.simps)
  moreover have "distinct (map he_addr (concat (ht_table t)))" using assms(1) by (simp add: hash_ok_def ht_entries_def)
  ultimately show ?thesis by (metis distinct_append map_append)
qed

lemma slots_okD:
  "slots_ok n tbl \<Longrightarrow> i < length tbl \<Longrightarrow> e \<in> set (tbl ! i) \<Longrightarrow>
    he_hash e = hash_of (he_string e) \<and> slot (hash_of (he_string e)) n = i"
  unfolding slots_ok_def by blast

lemma slots_ok_update:
  assumes "slots_ok n tbl" "\<forall>e \<in> set c. he_hash e = hash_of (he_string e) \<and> slot (hash_of (he_string e)) n = i"
  shows "slots_ok n (tbl[i := c])"
proof -
  have "e \<in> set (tbl[i := c] ! j) \<Longrightarrow> e \<in> set (tbl ! j) \<or> j = i \<and> e \<in> set c" if "j < length tbl" for e j
    using that by (cases "j = i") auto
  then show ?thesis using assms unfolding slots_ok_def by (metis length_list_update)
qed

lemma hash_ok_moved:
  assumes ok: "hash_ok t" and new: "ht_map t s = None" and old: "mset (ht_entries t) = mset (ent # rest)"
    and new': "mset (ht_entries t') = mset (e' # rest)" and e': "he_string e' = s" "he_addr e' = he_addr ent"
    and frame: "ht_size t' = ht_size t" "ht_count t' = ht_count t" "ht_memory t' = ht_memory t"
    and slots: "slots_ok (ht_size t) (ht_table t')"
  shows "hash_ok t' \<and> ht_map t' = ((ht_map t)(he_string ent := None))(s \<mapsto> e')"
proof -
  have sets: "set (ht_entries t) = insert ent (set rest)" "set (ht_entries t') = insert e' (set rest)"
    using mset_eq_setD [OF old] mset_eq_setD [OF new'] by simp_all
  have len: "length (ht_entries t') = length (ht_entries t)" using mset_eq_length [OF old] mset_eq_length [OF new'] by simp
  have str: "he_string x \<noteq> s" if "x \<in> set (ht_entries t)" for x
    using that new ht_map_Some [OF ok, of s x] by auto
  have d0: "distinct (map he_string (ent # rest))" "distinct (map he_addr (ent # rest))"
    using ok unfolding distinct_mset_map [OF old, symmetric] by (simp_all add: hash_ok_def)
  have d: "distinct (map he_string (ht_entries t'))" "distinct (map he_addr (ht_entries t'))"
    unfolding distinct_mset_map [OF new'] using d0 str e' sets(1) by fastforce+
  have okt: "hash_ok t'" using ok slots d len sets e' frame by (auto simp: hash_ok_def)
  have other: "he_string x \<noteq> he_string ent" if "x \<in> set rest" for x using d0(1) that by (metis distinct.simps(2) image_eqI list.simps(9) set_map)
  have rest: "\<forall>y \<in> set rest. he_string y \<noteq> s" using str sets(1) by simp
  have ne: "he_string ent \<noteq> s" using str [of ent] sets(1) by simp
  have "ht_map t' x = Some y \<longleftrightarrow> (((ht_map t)(he_string ent := None))(s \<mapsto> e')) x = Some y" for x y
    unfolding ht_map_Some [OF okt] fun_upd_apply using ht_map_Some [OF ok, of x y] sets rest other ne e' by auto
  then have "ht_map t' = ((ht_map t)(he_string ent := None))(s \<mapsto> e')" by (intro ext) (metis option.exhaust)
  then show ?thesis using okt by blast
qed

text \<open>Renaming moves one entry: the table forgets its old name and knows it under the new one.\<close>

lemma rename_ok:
  assumes ok: "hash_ok t" and ent: "ht_map t (he_string ent) = Some ent" and new: "ht_map t s = None"
  shows "\<exists>t'. bfd_hash_rename t s ent = Done t' \<and> hash_ok t' \<and>
    ht_map t' = ((ht_map t)(he_string ent := None))(s \<mapsto> ent\<lparr>he_string := s, he_hash := hash_of s\<rparr>)"
proof -
  let ?n = "ht_size t" and ?P = "\<lambda>e. he_addr e \<noteq> he_addr ent" and ?ent = "ent\<lparr>he_string := s, he_hash := hash_of s\<rparr>"
  let ?i = "slot (he_hash ent) ?n" and ?j = "slot (hash_of s) ?n"
  have pos: "?n \<noteq> 0" and slots: "slots_ok ?n (ht_table t)" and mem0: "ht_memory t \<noteq> None" using ok by (auto simp: hash_ok_def)
  have ij: "?i < length (ht_table t)" "?j < length (ht_table t)" using slot_less [OF pos] slots by (auto simp: slots_ok_def)
  have mem: "ent \<in> set (ht_entries t)" using ht_map_Some [OF ok] ent by blast
  then obtain k where k: "k < length (ht_table t)" "ent \<in> set (ht_table t ! k)"
    by (auto simp: ht_entries_def in_set_conv_nth [of _ "ht_table t"])
  then have h: "he_hash ent = hash_of (he_string ent)" "k = ?i" using slots unfolding slots_ok_def by fastforce+
  let ?c = "ht_table t ! ?i"
  have "distinct (map he_addr ?c)" using chain_distinct [OF ok ij(1)] .
  then obtain after where after: "dropWhile ?P ?c = ent # after" using split_by_addr k h(2) by metis
  let ?before = "takeWhile ?P ?c"
  have c: "?c = ?before @ ent # after" using takeWhile_dropWhile_id [of ?P ?c] after by simp
  let ?tbl = "(ht_table t)[?i := ?before @ after]"
  let ?t' = "t\<lparr>ht_table := ?tbl[?j := [?ent] @ ?tbl ! ?j]\<rparr>"
  have run: "bfd_hash_rename t s ent = Done ?t'" using pos mem0 after by (simp add: bfd_hash_rename_def Let_def)
  have "mset (concat ?tbl) + mset ?c = mset (concat (ht_table t)) + mset (?before @ after)"
    by (rule mset_concat_set [OF ij(1)])
  moreover have "mset ?c = add_mset ent (mset (?before @ after))" by (subst c) simp
  ultimately have old: "mset (ht_entries t) = mset (ent # concat ?tbl)" by (simp add: ht_entries_def)
  have new': "mset (ht_entries ?t') = mset (?ent # concat ?tbl)"
    using mset_concat_update [of ?j ?tbl "[?ent]"] ij(2) by (simp add: ht_entries_def)
  have "\<forall>e \<in> set ?c. he_hash e = hash_of (he_string e) \<and> slot (hash_of (he_string e)) ?n = ?i"
    by (intro ballI slots_okD [OF slots ij(1)])
  moreover have "set (?before @ after) \<subseteq> set ?c" using arg_cong [OF c, of set] by (metis Un_subset_iff order_refl set_append set_subset_Cons sup.mono)
  ultimately have sl0: "slots_ok ?n ?tbl" using slots_ok_update [OF slots] by (meson in_mono)
  have "\<forall>e \<in> set (?tbl ! ?j). he_hash e = hash_of (he_string e) \<and> slot (hash_of (he_string e)) ?n = ?j"
    by (intro ballI slots_okD [OF sl0]) (simp_all only: length_list_update ij(2))
  moreover have "he_hash ?ent = hash_of (he_string ?ent) \<and> slot (hash_of (he_string ?ent)) ?n = ?j" by simp
  ultimately have "\<forall>e \<in> set ([?ent] @ ?tbl ! ?j). he_hash e = hash_of (he_string e) \<and> slot (hash_of (he_string e)) ?n = ?j"
    unfolding set_append list.set by blast
  then have "slots_ok ?n (?tbl[?j := [?ent] @ ?tbl ! ?j])" by (rule slots_ok_update [OF sl0])
  moreover have "ht_table ?t' = ?tbl[?j := [?ent] @ ?tbl ! ?j]" by simp
  ultimately have sl: "slots_ok ?n (ht_table ?t')" by (simp only:)
  have "hash_ok ?t' \<and> ht_map ?t' = ((ht_map t)(he_string ent := None))(s \<mapsto> ?ent)"
    by (rule hash_ok_moved [OF ok new old new' _ _ _ _ _ sl]) simp_all
  then show ?thesis using run by blast
qed

lemma traverse_table_loop: "traverse_table func table info = snd (traverse_loop func (concat table) info)"
proof -
  have app: "traverse_loop func (xs @ ys) i =
      (case traverse_loop func xs i of (ok, i') \<Rightarrow> if ok then traverse_loop func ys i' else (False, i'))" for xs ys i
    by (induction xs arbitrary: i) (auto split: prod.splits)
  show ?thesis by (induction table arbitrary: info) (auto simp: app split: prod.splits)
qed

section \<open>Entries as objects\<close>

text \<open>A change of an entry through a pointer to it.\<close>

definition put_in :: "'x bfd_hash_entry_scheme \<Rightarrow> 'x bfd_hash_entry_scheme bfd_hash_table \<Rightarrow> 'x bfd_hash_entry_scheme bfd_hash_table" where
  "put_in e t = t\<lparr>ht_table := map (map (\<lambda>x. if he_addr x = he_addr e then e else x)) (ht_table t)\<rparr>"

lemma option_eqI: "(\<And>x. u = Some x \<longleftrightarrow> v = Some x) \<Longrightarrow> u = v"
  by (cases u; cases v) auto

lemma put_in_entries: "ht_entries (put_in e t) = map (\<lambda>x. if he_addr x = he_addr e then e else x) (ht_entries t)"
  by (simp add: put_in_def ht_entries_def map_concat)

text \<open>Two entries are one object in different states.\<close>

definition same_object :: "'x bfd_hash_entry_scheme \<Rightarrow> 'x bfd_hash_entry_scheme \<Rightarrow> bool" where
  "same_object x y \<longleftrightarrow> he_addr x = he_addr y \<and> he_string x = he_string y \<and> he_hash x = he_hash y"

lemma same_object_trans: "same_object x y \<Longrightarrow> same_object y z \<Longrightarrow> same_object x z"
  by (simp add: same_object_def)

lemma put_in_ok:
  assumes ok: "hash_ok t" and x: "x \<in> set (ht_entries t)" "same_object e x"
  shows "hash_ok (put_in e t)" "ht_map (put_in e t) = (ht_map t)(he_string e \<mapsto> e)"
proof -
  let ?f = "\<lambda>y. if he_addr y = he_addr e then e else y"
  have uniq: "y = x" if "y \<in> set (ht_entries t)" "he_addr y = he_addr e" for y
    using ok x that by (auto simp: hash_ok_def distinct_map inj_on_def same_object_def)
  have uniq_string: "y = x" if "y \<in> set (ht_entries t)" "he_string y = he_string e" for y
    using ok x that by (auto simp: hash_ok_def distinct_map inj_on_def same_object_def)
  have mem: "y \<in> set (ht_entries (put_in e t)) \<longleftrightarrow> y = e \<or> y \<in> set (ht_entries t) \<and> he_addr y \<noteq> he_addr e" for y
    using x by (auto simp: put_in_entries same_object_def)
  have core: "he_addr (?f y) = he_addr y" "he_string (?f y) = he_string y" "he_hash (?f y) = he_hash y" if "y \<in> set (ht_entries t)" for y
    using uniq [OF that] x(2) by (auto simp: same_object_def)
  have strings: "map he_string (ht_entries (put_in e t)) = map he_string (ht_entries t)"
      "map he_addr (ht_entries (put_in e t)) = map he_addr (ht_entries t)"
    using core by (auto simp: put_in_entries)
  have entry: "y \<in> set (ht_entries t)" if "i < length (ht_table t)" "y \<in> set (ht_table t ! i)" for i y
    using that nth_mem by (auto simp: ht_entries_def)
  have "slots_ok (ht_size t) (ht_table (put_in e t))"
    using ok core entry by (fastforce simp: slots_ok_def hash_ok_def put_in_def)
  moreover have "length (ht_entries (put_in e t)) = length (ht_entries t)" by (simp add: put_in_entries)
  moreover have "\<exists>m. ht_memory t = Some m \<and> (\<forall>y \<in> set (ht_entries (put_in e t)). he_addr y < oa_next m)"
    using ok strings(2) unfolding hash_ok_def by (metis (no_types, lifting) imageE imageI list.set_map)
  ultimately show okp: "hash_ok (put_in e t)"
    using ok strings unfolding hash_ok_def by (simp add: put_in_def)
  show "ht_map (put_in e t) = (ht_map t)(he_string e \<mapsto> e)"
  proof
    fix s
    have "y \<in> set (ht_entries (put_in e t)) \<and> he_string y = he_string e \<longleftrightarrow> y = e" for y
      using mem uniq_string x(2) unfolding same_object_def by metis
    moreover have "y \<in> set (ht_entries (put_in e t)) \<and> he_string y = s \<longleftrightarrow> y \<in> set (ht_entries t) \<and> he_string y = s"
      if "s \<noteq> he_string e" for y
      using that mem uniq x(2) unfolding same_object_def by metis
    ultimately show "ht_map (put_in e t) s = ((ht_map t)(he_string e \<mapsto> e)) s"
      using ht_map_Some [OF okp, of s] ht_map_Some [OF ok, of s] by (intro option_eqI) (cases "s = he_string e"; simp; blast)
  qed
qed

section \<open>Properties\<close>

text \<open>C29: Looking a string up in a well-formed table that can still grow, a string that has fewer than 4294967295 characters when it is
  new and to be copied, always returns, keeps the table well formed and behaves like a lookup in a finite map from strings to entries: a known
  string yields its entry and leaves the table untouched; an unknown one yields nothing and leaves the table untouched when \<open>create\<close>
  is not set; with \<open>create\<close> it is added under an entry that carries it, unless one of the allocations the call made failed, and
  then nothing is returned and none of the entries is lost.\<close>

theorem bfd_hash_lookup_refines:
  assumes "hash_ok t" "ht_size t < 4294967291" "ht_map t s = None \<longrightarrow> copy_fits copy s"
  shows "\<exists>r t'. bfd_hash_lookup bfd_hash_newfunc t s create copy = Done (r, t') \<and> hash_ok t' \<and>
    (case r of
       Some e \<Rightarrow> he_string e = s \<and> (ht_map t s = None \<longrightarrow> create) \<and> ht_map t' = (ht_map t)(s \<mapsto> e) \<and>
         (ht_map t s \<noteq> None \<longrightarrow> t' = t)
     | None \<Rightarrow> ht_map t s = None \<and> ht_map t' = ht_map t \<and> (if create then alloc_failed t t' else t' = t))"
  using base_hash.lookup_ok [OF assms] .

definition sample_table :: "bfd_hash_entry bfd_hash_table" where
  "sample_table = \<lparr>ht_table = replicate 31 [], ht_memory = Some \<lparr>oa_ok = \<lambda>_. True, oa_next = 1\<rparr>, ht_size = 31,
     ht_count = 0, ht_entsize = 24, ht_frozen = False\<rparr>"

lemma sample_table_init:
  "bfd_hash_table_init_n (Some \<lparr>oa_ok = \<lambda>_. True, oa_next = 0\<rparr>) 24 31 = Some sample_table"
  by (simp add: bfd_hash_table_init_n_def objalloc_alloc_def sample_table_def Let_def)

lemmas sample_table_ok = init_ok [OF _ sample_table_init, simplified]

lemma sample_table_ready: "\<not> alloc_failed sample_table t"
  by (simp add: alloc_failed_def sample_table_def)

theorem bfd_hash_lookup_refines_witness:
  "\<exists>e t'. bfd_hash_lookup bfd_hash_newfunc sample_table ''main'' True True = Done (Some e, t') \<and> hash_ok t' \<and>
    he_string e = ''main'' \<and> ht_map t' = [''main'' \<mapsto> e]"
  using bfd_hash_lookup_refines [of sample_table "''main''" True True] sample_table_ok sample_table_ready
  by (fastforce simp: copy_fits_def split: option.splits)

text \<open>Renaming an entry of a well-formed table to a name that is not in use removes the entry from its old
  name and files it under the new one, with every other entry kept.\<close>

theorem bfd_hash_rename_refines:
  assumes "hash_ok t" "ht_map t (he_string ent) = Some ent" "ht_map t s = None"
  shows "\<exists>t'. bfd_hash_rename t s ent = Done t' \<and> hash_ok t' \<and>
    ht_map t' = ((ht_map t)(he_string ent := None))(s \<mapsto> ent\<lparr>he_string := s, he_hash := hash_of s\<rparr>)"
  using rename_ok [OF assms] .

definition sample_entry :: bfd_hash_entry where
  "sample_entry = \<lparr>he_addr = 1, he_string = ''a'', he_hash = hash_of ''a''\<rparr>"

definition sample_filled :: "bfd_hash_entry bfd_hash_table" where
  "sample_filled = hash_link sample_entry (sample_table\<lparr>ht_memory := Some \<lparr>oa_ok = \<lambda>_. True, oa_next = 2\<rparr>\<rparr>)"

lemma sample_filled_ok: "hash_ok sample_filled \<and> ht_map sample_filled = [''a'' \<mapsto> sample_entry]"
  using base_hash.hash_link_ok [of sample_table "''a''" "\<lparr>oa_ok = \<lambda>_. True, oa_next = 1\<rparr>" sample_entry
      "\<lparr>oa_ok = \<lambda>_. True, oa_next = 2\<rparr>"] sample_table_ok
  by (simp add: sample_filled_def sample_entry_def) (simp add: sample_table_def)

theorem bfd_hash_rename_refines_witness:
  "\<exists>t'. bfd_hash_rename sample_filled ''b'' sample_entry = Done t' \<and>
    ht_map t' = [''b'' \<mapsto> sample_entry\<lparr>he_string := ''b'', he_hash := hash_of ''b''\<rparr>]"
  using bfd_hash_rename_refines [of sample_filled sample_entry "''b''"] sample_filled_ok
  by (auto simp: sample_entry_def)

end
