(* ===== verification/Bfd_Stringtab.thy ===== *)
theory Bfd_Stringtab
  imports Bfd_Hash Bfd_Bytes
begin

text \<open>
  The string tables of \<open>tooling/bfd-scrape/bfd/hash.c\<close>, which object formats other than ELF use: strings are numbered by the
  offset they get in the output, with or without sharing of equal strings, and XCOFF puts a length before each of them.  The
  chain of \<open>next\<close> pointers from \<open>first\<close> to \<open>last\<close> is a list.  An entry has the index \<open>-1\<close> until it is put there; the index of no
  string of a table of less than \<open>2^64 - 1\<close> bytes is that number.
\<close>

section \<open>Data\<close>

record strtab_hash_entry = bfd_hash_entry +
  se_index :: bfd_size_type

record bfd_strtab_hash =
  sh_table :: "strtab_hash_entry bfd_hash_table"
  sh_size :: bfd_size_type
  sh_chain :: "strtab_hash_entry list"
  sh_length_field_size :: u8

section \<open>Operations\<close>

definition strtab_hash_newfunc :: "strtab_hash_entry newfunc" where
  "strtab_hash_newfunc entry table str =
     (case entry of
        Some e \<Rightarrow> Done (Some (e\<lparr>se_index := - 1\<rparr>), table)
      | None \<Rightarrow> cbind (bfd_hash_allocate table 40) (\<lambda>(r, t).
          Done (map_option (\<lambda>a. \<lparr>he_addr = a, he_string = [], he_hash = 0, se_index = - 1\<rparr>) r, t)))"

text \<open>The call of \<open>bfd_malloc\<close> comes from \<open>heap\<close>, the objalloc of the table is \<open>created\<close>.\<close>

definition bfd_stringtab_init :: "u32 \<Rightarrow> objalloc option \<Rightarrow> objalloc \<Rightarrow> bfd_strtab_hash option" where
  "bfd_stringtab_init bfd_default_hash_table_size created heap =
     (case objalloc_alloc heap of
        (None, _) \<Rightarrow> None
      | (Some _, _) \<Rightarrow>
         (case bfd_hash_table_init bfd_default_hash_table_size created 40 of
            None \<Rightarrow> None
          | Some t \<Rightarrow> Some \<lparr>sh_table = t, sh_size = 0, sh_chain = [], sh_length_field_size = 0\<rparr>))"

definition bfd_xcoff_stringtab_init :: "u32 \<Rightarrow> objalloc option \<Rightarrow> objalloc \<Rightarrow> bool \<Rightarrow> bfd_strtab_hash option" where
  "bfd_xcoff_stringtab_init bfd_default_hash_table_size created heap isxcoff64 =
     (case bfd_stringtab_init bfd_default_hash_table_size created heap of
        None \<Rightarrow> None
      | Some ret \<Rightarrow> Some (ret\<lparr>sh_length_field_size := if isxcoff64 then 4 else 2\<rparr>))"

text \<open>What is left after the table itself was freed.\<close>

definition bfd_stringtab_free :: "bfd_strtab_hash \<Rightarrow> strtab_hash_entry bfd_hash_table" where
  "bfd_stringtab_free table = bfd_hash_table_free (sh_table table)"

text \<open>A new entry gets the next index and becomes the last of the chain.\<close>

definition number_entry :: "strtab_hash_entry \<Rightarrow> string \<Rightarrow> bfd_strtab_hash \<Rightarrow> bfd_size_type \<times> bfd_strtab_hash" where
  "number_entry entry str tab =
     (if se_index entry = - 1
      then let field = ucast (sh_length_field_size tab);
               entry = entry\<lparr>se_index := sh_size tab + field\<rparr>
           in (se_index entry, tab\<lparr>sh_size := sh_size tab + (of_nat (length str) + 1) + field,
                 sh_chain := sh_chain tab @ [entry], sh_table := put_in entry (sh_table tab)\<rparr>)
      else (se_index entry, tab))"

text \<open>Without \<open>hash\<close> the entry is made outside of the hash table; its hash code is never set or read.  The size of the copy is a
  \<open>size_t\<close> that \<open>bfd_hash_allocate\<close> truncates, and \<open>memcpy\<close> then writes all of it.\<close>

definition bfd_stringtab_add :: "bfd_strtab_hash \<Rightarrow> string \<Rightarrow> bool \<Rightarrow> bool \<Rightarrow> (bfd_size_type \<times> bfd_strtab_hash) cresult" where
  "bfd_stringtab_add tab str hash copy =
     (if hash
      then cbind (bfd_hash_lookup strtab_hash_newfunc (sh_table tab) str True copy) (\<lambda>(r, t).
             let tab = tab\<lparr>sh_table := t\<rparr>
             in case r of None \<Rightarrow> Done (- 1, tab) | Some entry \<Rightarrow> Done (number_entry entry str tab))
      else cbind (bfd_hash_allocate (sh_table tab) 40) (\<lambda>(r, t).
             case r of
               None \<Rightarrow> Done (- 1, tab\<lparr>sh_table := t\<rparr>)
             | Some a \<Rightarrow>
                 let entry = \<lparr>he_addr = a, he_string = str, he_hash = 0, se_index = - 1\<rparr>; len = length str + 1
                 in if \<not> copy then Done (number_entry entry str (tab\<lparr>sh_table := t\<rparr>))
                    else cbind (bfd_hash_allocate t (of_nat len)) (\<lambda>(n, t).
                      case n of
                        None \<Rightarrow> Done (- 1, tab\<lparr>sh_table := t\<rparr>)
                      | Some _ \<Rightarrow>
                          if memcpy_fits (of_nat len) len then Done (number_entry entry str (tab\<lparr>sh_table := t\<rparr>)) else Undefined)))"

definition bfd_stringtab_size :: "bfd_strtab_hash \<Rightarrow> bfd_size_type" where
  "bfd_stringtab_size tab = sh_size tab"

definition chars_of :: "bytes \<Rightarrow> string" where
  "chars_of = map (\<lambda>b. char_of (unat b))"

text \<open>The length before a string, as the file's byte order has it.\<close>

definition length_field :: "bool \<Rightarrow> u8 \<Rightarrow> nat \<Rightarrow> bytes cresult" where
  "length_field big field len =
     (if field = 4 then (if big then bfd_putb32 (of_nat len) (replicate 4 0) else bfd_putl32 (of_nat len) (replicate 4 0))
      else if field = 2 then (if big then bfd_putb16 (of_nat len) (replicate 2 0) else bfd_putl16 (of_nat len) (replicate 2 0))
      else Done [])"

fun emit_chain :: "bool \<Rightarrow> u8 \<Rightarrow> strtab_hash_entry list \<Rightarrow> bfd_file \<Rightarrow> (bool \<times> bfd_file) cresult" where
  "emit_chain big field [] f = Done (True, f)"
| "emit_chain big field (entry # entries) f =
     (let str = he_string entry; len = length str + 1
      in cbind (length_field big field len) (\<lambda>buf.
           case (if field = 4 \<or> field = 2 then bfd_write (chars_of buf) f else (True, f)) of
             (False, f) \<Rightarrow> Done (False, f)
           | (True, f) \<Rightarrow>
              (case bfd_write (str @ [nul]) f of
                 (False, f) \<Rightarrow> Done (False, f)
               | (True, f) \<Rightarrow> emit_chain big field entries f)))"

definition bfd_stringtab_emit :: "bool \<Rightarrow> bfd_file \<Rightarrow> bfd_strtab_hash \<Rightarrow> (bool \<times> bfd_file) cresult" where
  "bfd_stringtab_emit big f tab = emit_chain big (sh_length_field_size tab) (sh_chain tab) f"

section \<open>What a table stands for\<close>

text \<open>The strings in the order of the chain, and the set of those that are shared.  A string takes its length field, its characters and
  the terminator.\<close>

definition total_bytes :: "nat \<Rightarrow> string list \<Rightarrow> nat" where
  "total_bytes field ss = sum_list (map (\<lambda>s. field + length s + 1) ss)"

lemma total_bytes_simps [simp]: "total_bytes field [] = 0" "total_bytes field (s # ss) = field + length s + 1 + total_bytes field ss"
    "total_bytes field (ss @ ts) = total_bytes field ss + total_bytes field ts"
  by (simp_all add: total_bytes_def)

lemma total_take: "total_bytes field (take k ss) \<le> total_bytes field ss"
  using total_bytes_simps(3) [of field "take k ss" "drop k ss"] by simp

definition place_of :: "nat \<Rightarrow> string list \<Rightarrow> nat \<Rightarrow> bfd_size_type" where
  "place_of field ss k = of_nat (total_bytes field (take k ss) + field)"

abbreviation field_of_tab :: "bfd_strtab_hash \<Rightarrow> nat" where
  "field_of_tab tab \<equiv> unat (sh_length_field_size tab)"

definition stringtab_rep :: "bfd_strtab_hash \<Rightarrow> string list \<Rightarrow> string set \<Rightarrow> bool" where
  "stringtab_rep tab ss shared \<longleftrightarrow>
     hash_ok (sh_table tab) \<and> dom (ht_map (sh_table tab)) = shared \<and>
     (\<forall>s e. ht_map (sh_table tab) s = Some e \<longrightarrow> e \<in> set (sh_chain tab)) \<and>
     map he_string (sh_chain tab) = ss \<and> map se_index (sh_chain tab) = map (place_of (field_of_tab tab) ss) [0..<length ss] \<and>
     sh_size tab = of_nat (total_bytes (field_of_tab tab) ss) \<and> total_bytes (field_of_tab tab) ss < 2 ^ 64 - 1 \<and>
     (\<forall>s \<in> set ss. nul \<notin> set s) \<and> sh_length_field_size tab \<in> {0, 2, 4}"

lemma place_of_append [simp]: "k < length ss \<Longrightarrow> place_of field (ss @ ts) k = place_of field ss k"
  by (simp add: place_of_def)

lemma place_of_less:
  assumes "k < length ss" "total_bytes field ss < 2 ^ 64 - 1"
  shows "unat (place_of field ss k) = total_bytes field (take k ss) + field" "place_of field ss k \<noteq> - 1"
proof -
  have "total_bytes field (take (Suc k) ss) \<le> total_bytes field ss" by (rule total_take)
  then have le: "total_bytes field (take k ss) + field < total_bytes field ss" using assms(1) by (simp add: take_Suc_conv_app_nth)
  then show u: "unat (place_of field ss k) = total_bytes field (take k ss) + field"
    using assms(2) by (simp add: place_of_def unat_of_nat del: of_nat_add)
  have "unat (- 1 :: u64) = 2 ^ 64 - 1" by (simp add: unsigned_minus_1_eq_mask mask_eq_exp_minus_1)
  then show "place_of field ss k \<noteq> - 1" using u le assms(2) by (metis less_irrefl less_trans)
qed

lemma strtab_hash_newfunc_made:
  "ht_memory t = Some m \<Longrightarrow> strtab_hash_newfunc None t s =
     (if oa_ok m (oa_next m)
      then Done (Some \<lparr>he_addr = oa_next m, he_string = [], he_hash = 0, se_index = - 1\<rparr>, t\<lparr>ht_memory := Some (m\<lparr>oa_next := Suc (oa_next m)\<rparr>)\<rparr>)
      else Done (None, t\<lparr>ht_memory := Some (m\<lparr>oa_next := Suc (oa_next m)\<rparr>)\<rparr>))"
  by (simp add: strtab_hash_newfunc_def bfd_hash_allocate_def table_alloc_def objalloc_alloc_def)

interpretation stringtab_hash: initialising_newfunc strtab_hash_newfunc "\<lambda>e. se_index e = - 1"
proof
  show "se_index e = - 1" if "strtab_hash_newfunc None t s = Done (Some e, t1)" for t s e t1
    using that by (auto simp: strtab_hash_newfunc_def cbind_Done)
qed (fastforce simp: strtab_hash_newfunc_made split: if_splits)+

section \<open>Adding\<close>

text \<open>A new entry at the end of the chain; \<open>t\<close> is the hash table it may have been entered in.\<close>

lemma number_new:
  assumes rep: "stringtab_rep tab ss shared" and e: "se_index e = - 1" "he_string e = s" "nul \<notin> set s"
    and small: "total_bytes (field_of_tab tab) (ss @ [s]) < 2 ^ 64 - 1"
    and put: "\<And>i. hash_ok (put_in (e\<lparr>se_index := i\<rparr>) t)" "\<And>i. dom (ht_map (put_in (e\<lparr>se_index := i\<rparr>) t)) = shared'"
      "\<And>i x y. ht_map (put_in (e\<lparr>se_index := i\<rparr>) t) x = Some y \<Longrightarrow> y = e\<lparr>se_index := i\<rparr> \<or> ht_map (sh_table tab) x = Some y"
  shows "\<exists>tab'. number_entry e s (tab\<lparr>sh_table := t\<rparr>) = (place_of (field_of_tab tab) (ss @ [s]) (length ss), tab') \<and>
    sh_length_field_size tab' = sh_length_field_size tab \<and> stringtab_rep tab' (ss @ [s]) shared'"
proof -
  let ?L = "field_of_tab tab" and ?i = "sh_size tab + ucast (sh_length_field_size tab)"
  have i: "?i = place_of ?L (ss @ [s]) (length ss)"
    using rep by (simp add: stringtab_rep_def place_of_def word_of_nat_eq_iff unsigned_ucast_eq)
  let ?e = "e\<lparr>se_index := ?i\<rparr>"
  let ?tab = "tab\<lparr>sh_size := sh_size tab + (of_nat (length s) + 1) + ucast (sh_length_field_size tab),
      sh_chain := sh_chain tab @ [?e], sh_table := put_in ?e t\<rparr>"
  have run: "number_entry e s (tab\<lparr>sh_table := t\<rparr>) = (?i, ?tab)" using e(1) by (simp add: number_entry_def Let_def)
  have len: "length (sh_chain tab) = length ss" using rep by (auto simp: stringtab_rep_def)
  have "map (place_of ?L (ss @ [s])) [0..<length ss] = map (place_of ?L ss) [0..<length ss]" by simp
  then have "map se_index (sh_chain tab @ [?e]) = map (place_of ?L (ss @ [s])) [0..<length (ss @ [s])]"
    using rep i len by (simp add: stringtab_rep_def)
  moreover have "sh_size ?tab = of_nat (total_bytes ?L (ss @ [s]))"
    using rep by (simp add: stringtab_rep_def)
  moreover have "\<forall>x y. ht_map (put_in ?e t) x = Some y \<longrightarrow> y \<in> set (sh_chain ?tab)"
    using put(3) rep unfolding stringtab_rep_def by fastforce
  moreover have "map he_string (sh_chain ?tab) = ss @ [s]" "sh_length_field_size ?tab = sh_length_field_size tab" "sh_table ?tab = put_in ?e t"
    using rep e by (simp_all add: stringtab_rep_def)
  ultimately have "stringtab_rep ?tab (ss @ [s]) shared'"
    using rep e(3) put(1,2) small unfolding stringtab_rep_def by simp
  then show ?thesis using run i by auto
qed

text \<open>What the table does with a string, on the abstract state.\<close>

definition spec_add :: "bool \<Rightarrow> string \<Rightarrow> string list \<times> string set \<Rightarrow> string list \<times> string set" where
  "spec_add hash s = (\<lambda>(ss, shared). if hash \<and> s \<in> shared then (ss, shared) else (ss @ [s], if hash then insert s shared else shared))"

definition answered :: "string list \<Rightarrow> nat \<Rightarrow> string \<Rightarrow> bfd_size_type \<Rightarrow> bool" where
  "answered ss field s i \<longleftrightarrow> (\<exists>k < length ss. ss ! k = s \<and> i = place_of field ss k)"

lemma answered_append: "answered ss field s i \<Longrightarrow> answered (ss @ ts) field s i"
  unfolding answered_def by (metis nth_append_left place_of_append trans_less_add1 length_append)

lemma put_in_other:
  assumes "\<forall>x \<in> set (ht_entries t). he_addr x \<noteq> he_addr e"
  shows "put_in e t = t"
proof -
  have "map (map (\<lambda>x. if he_addr x = he_addr e then e else x)) (ht_table t) = ht_table t"
    using assms by (intro map_idI) (auto simp: ht_entries_def intro!: map_idI)
  then show ?thesis by (simp add: put_in_def)
qed

lemma allocated_ok:
  assumes "hash_ok t" "bfd_hash_allocate t n = Done (r, t')"
  shows "hash_ok t' \<and> ht_map t' = ht_map t \<and> ht_size t' = ht_size t \<and> ht_entries t' = ht_entries t \<and>
    (\<forall>a. r = Some a \<longrightarrow> (\<forall>x \<in> set (ht_entries t). he_addr x \<noteq> a) )"
proof -
  obtain m where m: "ht_memory t = Some m" using assms(1) by (auto simp: hash_ok_def)
  then obtain m' where t': "t' = t\<lparr>ht_memory := Some m'\<rparr>" "oa_next m \<le> oa_next m'" "\<forall>a. r = Some a \<longrightarrow> a = oa_next m"
    using assms(2) by (cases rule: table_alloc_cases) (auto simp: bfd_hash_allocate_def)
  then have "hash_ok t' \<and> ht_map t' = ht_map t"
    using m assms(1) by (intro hash_ok_permuted [OF assms(1)]) (auto simp: ht_entries_def hash_ok_def)
  moreover have "\<forall>x \<in> set (ht_entries t). he_addr x < oa_next m" using assms(1) m by (auto simp: hash_ok_def)
  ultimately show ?thesis using t' by (fastforce simp: ht_entries_def)
qed

lemma allocate_returns: "hash_ok t \<Longrightarrow> \<exists>r t'. bfd_hash_allocate t n = Done (r, t')"
  by (auto simp: bfd_hash_allocate_def table_alloc_def hash_ok_def split: prod.splits)

lemma memcpy_fits_copy: "memcpy_fits (of_nat (length (s :: string) + 1)) (length s + 1) \<longleftrightarrow> length s < 4294967295"
  using memcpy_fits_len [of s] by (simp add: bfd_hash_hash_def Let_def add.commute)

lemma rep_table:
  assumes "stringtab_rep tab ss shared" "hash_ok t" "ht_map t = ht_map (sh_table tab)"
  shows "stringtab_rep (tab\<lparr>sh_table := t\<rparr>) ss shared"
  using assms by (simp add: stringtab_rep_def)

lemma add_unshared:
  assumes rep: "stringtab_rep tab ss shared" and s: "nul \<notin> set s"
    and small: "total_bytes (field_of_tab tab) (ss @ [s]) < 2 ^ 64 - 1" and fits: "copy_fits copy s"
  shows "\<exists>i tab'. bfd_stringtab_add tab s False copy = Done (i, tab') \<and> sh_length_field_size tab' = sh_length_field_size tab \<and>
    (if i = - 1 then stringtab_rep tab' ss shared \<and> alloc_failed (sh_table tab) (sh_table tab')
     else stringtab_rep tab' (ss @ [s]) shared \<and> answered (ss @ [s]) (field_of_tab tab) s i)"
proof -
  have ok: "hash_ok (sh_table tab)" using rep by (simp add: stringtab_rep_def)
  obtain r t where t: "bfd_hash_allocate (sh_table tab) 40 = Done (r, t)" using allocate_returns [OF ok] by blast
  note t_ok = allocated_ok [OF ok t]
  have new: "\<exists>i tab'. number_entry \<lparr>he_addr = a, he_string = s, he_hash = 0, se_index = - 1\<rparr> s (tab\<lparr>sh_table := u\<rparr>) = (i, tab') \<and>
      sh_length_field_size tab' = sh_length_field_size tab \<and> i \<noteq> - 1 \<and> stringtab_rep tab' (ss @ [s]) shared \<and> answered (ss @ [s]) (field_of_tab tab) s i"
    if u: "hash_ok u" "ht_map u = ht_map (sh_table tab)" "ht_entries u = ht_entries (sh_table tab)" "r = Some a" for u a
  proof -
    have other: "put_in (\<lparr>he_addr = a, he_string = s, he_hash = 0, se_index = - 1\<rparr>\<lparr>se_index := i\<rparr>) u = u" for i
      using t_ok u by (intro put_in_other) auto
    have "dom (ht_map u) = shared" using rep u by (simp add: stringtab_rep_def)
    then obtain tab' where "number_entry \<lparr>he_addr = a, he_string = s, he_hash = 0, se_index = - 1\<rparr> s (tab\<lparr>sh_table := u\<rparr>) =
          (place_of (field_of_tab tab) (ss @ [s]) (length ss), tab')"
        "sh_length_field_size tab' = sh_length_field_size tab" "stringtab_rep tab' (ss @ [s]) shared"
      using number_new [OF rep _ _ s small, of "\<lparr>he_addr = a, he_string = s, he_hash = 0, se_index = - 1\<rparr>" u shared] u(1,2)
      unfolding other by fastforce
    moreover have "answered (ss @ [s]) (field_of_tab tab) s (place_of (field_of_tab tab) (ss @ [s]) (length ss))"
      unfolding answered_def by (intro exI [of _ "length ss"]) simp
    ultimately show ?thesis using place_of_less(2) [OF _ small, of "length ss"] by simp
  qed
  show ?thesis
  proof (cases r)
    case None
    then have "alloc_failed (sh_table tab) t" using t alloc_failed_now by (simp add: bfd_hash_allocate_def)
    then show ?thesis using t t_ok rep_table [OF rep] None by (simp add: bfd_stringtab_add_def)
  next
    case (Some a)
    obtain r2 t2 where t2: "bfd_hash_allocate t (of_nat (length s + 1)) = Done (r2, t2)" using allocate_returns t_ok by blast
    note t2_ok = allocated_ok [OF conjunct1 [OF t_ok] t2]
    show ?thesis
    proof (cases "copy \<and> r2 = None")
      case True
      then have "alloc_failed (sh_table tab) t2"
        using t t2 alloc_failed_now alloc_failed_step by (metis bfd_hash_allocate_def)
      moreover have "bfd_stringtab_add tab s False copy = Done (- 1, tab\<lparr>sh_table := t2\<rparr>)"
        using True t Some t2 by (simp add: bfd_stringtab_add_def Let_def)
      ultimately show ?thesis using t2_ok t_ok rep_table [OF rep, of t2] by simp
    next
      case False
      have "\<exists>u. bfd_stringtab_add tab s False copy =
          Done (number_entry \<lparr>he_addr = a, he_string = s, he_hash = 0, se_index = - 1\<rparr> s (tab\<lparr>sh_table := u\<rparr>)) \<and> (u = t \<or> u = t2)"
        using False t Some t2 fits memcpy_fits_copy [of s] by (cases r2) (auto simp: bfd_stringtab_add_def Let_def copy_fits_def)
      then obtain u where u: "bfd_stringtab_add tab s False copy =
          Done (number_entry \<lparr>he_addr = a, he_string = s, he_hash = 0, se_index = - 1\<rparr> s (tab\<lparr>sh_table := u\<rparr>))" "u = t \<or> u = t2" by blast
      obtain i tab' where "number_entry \<lparr>he_addr = a, he_string = s, he_hash = 0, se_index = - 1\<rparr> s (tab\<lparr>sh_table := u\<rparr>) = (i, tab')"
          "sh_length_field_size tab' = sh_length_field_size tab" "i \<noteq> - 1" "stringtab_rep tab' (ss @ [s]) shared"
          "answered (ss @ [s]) (field_of_tab tab) s i"
        using new [of u a] u(2) t_ok t2_ok Some by metis
      then show ?thesis using u(1) by simp
    qed
  qed
qed

lemma add_shared:
  assumes rep: "stringtab_rep tab ss shared" and s: "nul \<notin> set s" and size: "ht_size (sh_table tab) < 4294967291"
    and small: "total_bytes (field_of_tab tab) (ss @ [s]) < 2 ^ 64 - 1" and fits: "copy_fits copy s"
  shows "\<exists>i tab'. bfd_stringtab_add tab s True copy = Done (i, tab') \<and> sh_length_field_size tab' = sh_length_field_size tab \<and>
    (if i = - 1 then stringtab_rep tab' ss shared \<and> s \<notin> shared \<and> alloc_failed (sh_table tab) (sh_table tab')
     else if s \<in> shared then tab' = tab \<and> answered ss (field_of_tab tab) s i
     else stringtab_rep tab' (ss @ [s]) (insert s shared) \<and> answered (ss @ [s]) (field_of_tab tab) s i)"
proof -
  let ?t = "sh_table tab" and ?L = "field_of_tab tab"
  have ok: "hash_ok ?t" and shared: "shared = dom (ht_map ?t)" using rep by (auto simp: stringtab_rep_def)
  obtain r t where t: "bfd_hash_lookup strtab_hash_newfunc ?t s True copy = Done (r, t)" "hash_ok t"
    and r: "case r of Some e \<Rightarrow> he_string e = s \<and> ht_map t = (ht_map ?t)(s \<mapsto> e) \<and> (ht_map ?t s \<noteq> None \<longrightarrow> t = ?t)
       | None \<Rightarrow> ht_map ?t s = None \<and> ht_map t = ht_map ?t \<and> alloc_failed ?t t"
    using stringtab_hash.lookup_ok [OF ok size, of s copy True] fits by (auto split: option.splits)
  show ?thesis
  proof (cases r)
    case None
    then show ?thesis using t r rep_table [OF rep t(2)] shared by (auto simp: bfd_stringtab_add_def)
  next
    case (Some e)
    then have e: "he_string e = s" "ht_map t = (ht_map ?t)(s \<mapsto> e)" "ht_map ?t s \<noteq> None \<longrightarrow> t = ?t" using r by simp_all
    show ?thesis
    proof (cases "s \<in> shared")
      case True
      then have same: "t = ?t" and "ht_map ?t s = Some e" using e shared by (auto dest: fun_cong [of _ _ s])
      then have "e \<in> set (sh_chain tab)" using rep by (auto simp: stringtab_rep_def)
      then obtain k where k: "k < length (sh_chain tab)" "e = sh_chain tab ! k" by (metis in_set_conv_nth)
      have ss: "map he_string (sh_chain tab) = ss" "map se_index (sh_chain tab) = map (place_of ?L ss) [0..<length ss]" "total_bytes ?L ss < 2 ^ 64 - 1"
        using rep by (simp_all add: stringtab_rep_def)
      then have len: "k < length ss" and "ss ! k = s" using k e(1) by auto
      moreover have "se_index e = place_of ?L ss k"
        using k len ss(2) by (metis nth_map nth_upt map_nth length_map add_0 length_upt minus_nat.diff_0)
      ultimately have "answered ss ?L s (se_index e)" "se_index e \<noteq> - 1"
        using place_of_less(2) [OF len ss(3)] by (auto simp: answered_def)
      then show ?thesis using t Some same True by (simp add: bfd_stringtab_add_def number_entry_def)
    next
      case False
      then have new: "ht_map ?t s = None" using shared by auto
      have fresh: "se_index e = - 1" using stringtab_hash.lookup_fresh [OF ok _ new] t(1) Some by blast
      have mem: "e \<in> set (ht_entries t)" using ht_map_Some [OF t(2), of s e] e by simp
      have put: "hash_ok (put_in (e\<lparr>se_index := i\<rparr>) t)" "ht_map (put_in (e\<lparr>se_index := i\<rparr>) t) = (ht_map ?t)(s \<mapsto> e\<lparr>se_index := i\<rparr>)" for i
        using put_in_ok [OF t(2) mem, of "e\<lparr>se_index := i\<rparr>"] e by (simp_all add: same_object_def)
      have dom: "dom (ht_map (put_in (e\<lparr>se_index := i\<rparr>) t)) = insert s shared" for i using put(2) shared by simp
      have only: "y = e\<lparr>se_index := i\<rparr> \<or> ht_map ?t x = Some y" if "ht_map (put_in (e\<lparr>se_index := i\<rparr>) t) x = Some y" for i x y
        using that put(2) by (simp split: if_splits)
      obtain tab' where tab': "number_entry e s (tab\<lparr>sh_table := t\<rparr>) = (place_of ?L (ss @ [s]) (length ss), tab')"
          "sh_length_field_size tab' = sh_length_field_size tab" "stringtab_rep tab' (ss @ [s]) (insert s shared)"
        using number_new [OF rep fresh e(1) s small put(1) dom only] by blast
      have "answered (ss @ [s]) ?L s (place_of ?L (ss @ [s]) (length ss))"
        unfolding answered_def by (intro exI [of _ "length ss"]) simp
      then show ?thesis using t Some tab' False place_of_less(2) [OF _ small, of "length ss"] by (simp add: bfd_stringtab_add_def)
    qed
  qed
qed

section \<open>Writing\<close>

text \<open>The number in a length field.\<close>

definition read_length :: "bool \<Rightarrow> bytes \<Rightarrow> bfd_vma cresult" where
  "read_length big p = bfd_get_bits p (8 * int (length p)) big"

lemma length_field_ok:
  assumes "field \<in> {0, 2, 4}"
  shows "\<exists>buf. length_field big field len = Done buf \<and> length buf = unat field \<and>
    read_length big buf = Done (take_bit (8 * unat field) (of_nat len))"
proof -
  have put: "\<exists>buf. bfd_put_bits (of_nat len) (replicate n 0) (8 * int n) big = Done buf \<and> length buf = n \<and>
      read_length big buf = Done (take_bit (8 * n) (of_nat len))" if "n \<le> 8" for n
  proof -
    have n: "nat (8 * int n div 8) = n" "nat (8 * int n) = 8 * n" by (simp_all add: nat_mult_distrib)
    have b: "8 * int n mod 8 = 0" "0 \<le> 8 * int n" "8 * int n \<le> 64" "n \<le> length (replicate n (0 :: u8))" using that by auto
    obtain p where "bfd_put_bits (of_nat len) (replicate n 0) (8 * int n) big = Done p" "length p = length (replicate n (0 :: u8))"
        "bfd_get_bits p (8 * int n) big = Done (take_bit (8 * n) (of_nat len))"
      using conjunct1 [OF put_get_bits [of "8 * int n" "replicate n 0" "of_nat len" big]] b unfolding n by blast
    then show ?thesis by (simp add: read_length_def)
  qed
  have empty: "read_length big [] = Done 0" by (simp add: read_length_def bfd_get_bits_def loops_unfold)
  from assms show ?thesis
    using put [of 2] put [of 4] empty by (auto simp: length_field_def put_fixed)
qed

definition field_bytes :: "bool \<Rightarrow> u8 \<Rightarrow> string \<Rightarrow> bytes" where
  "field_bytes big field s = (case length_field big field (length s + 1) of Done buf \<Rightarrow> buf | _ \<Rightarrow> [])"

lemma field_bytes:
  assumes "field \<in> {0, 2, 4}"
  shows "length_field big field (length s + 1) = Done (field_bytes big field s)" "length (field_bytes big field s) = unat field"
    "read_length big (field_bytes big field s) = Done (take_bit (8 * unat field) (of_nat (length s + 1)))"
  using length_field_ok [OF assms, of big "length s + 1"] by (auto simp: field_bytes_def)

text \<open>The bytes of the section.\<close>

definition section_image :: "bool \<Rightarrow> u8 \<Rightarrow> string list \<Rightarrow> string" where
  "section_image big field ss = concat (map (\<lambda>s. chars_of (field_bytes big field s) @ s @ [nul]) ss)"

lemma length_chars_of [simp]: "length (chars_of bs) = length bs"
  by (simp add: chars_of_def)

lemma section_image_simps [simp]: "section_image big field [] = []"
    "section_image big field (s # ss) = chars_of (field_bytes big field s) @ s @ nul # section_image big field ss"
  by (simp_all add: section_image_def)

lemma length_section_image: "field \<in> {0, 2, 4} \<Longrightarrow> length (section_image big field ss) = total_bytes (unat field) ss"
  by (induction ss) (simp_all add: field_bytes(2))

lemma emit_chain_ok:
  assumes "field \<in> {0, 2, 4}"
  shows "\<forall>n. bf_ok f n \<Longrightarrow> \<exists>f'. emit_chain big field es f = Done (True, f') \<and>
    bf_out f' = bf_out f @ section_image big field (map he_string es)"
proof (induction es arbitrary: f)
  case (Cons e es)
  have run: "\<exists>f1. emit_chain big field (e # es) f = emit_chain big field es f1 \<and> (\<forall>n. bf_ok f1 n) \<and>
      bf_out f1 = bf_out f @ chars_of (field_bytes big field (he_string e)) @ he_string e @ [nul]"
  proof (cases "field = 4 \<or> field = 2")
    case True
    then show ?thesis using Cons.prems field_bytes(1) [OF assms, of big "he_string e"]
      by (simp add: bfd_write_all Let_def) (intro exI conjI, rule refl, simp_all)
  next
    case False
    then have "field = 0" using assms by simp
    then show ?thesis using Cons.prems field_bytes [OF assms, of big "he_string e"]
      by (simp add: bfd_write_all Let_def chars_of_def) (intro exI conjI, rule refl, simp_all)
  qed
  then show ?case using Cons.IH by fastforce
qed simp

lemma image_at:
  assumes "field \<in> {0, 2, 4}" "k < length ss"
  shows "drop (total_bytes (unat field) (take k ss)) (section_image big field ss) =
    chars_of (field_bytes big field (ss ! k)) @ ss ! k @ nul # section_image big field (drop (Suc k) ss)"
proof -
  have "section_image big field ss = section_image big field (take k ss) @ section_image big field (drop k ss)"
    unfolding section_image_def by (metis append_take_drop_id concat_append map_append)
  moreover have "drop k ss = ss ! k # drop (Suc k) ss" using assms(2) by (simp add: Cons_nth_drop_Suc)
  ultimately show ?thesis using length_section_image [OF assms(1), of big "take k ss"] by simp
qed

section \<open>Reachable tables\<close>

text \<open>A table and the answers its client got: strings, each with its index.  The bounds are those of the code's integer types: a copied
  string has fewer than 4294967295 characters, the section fewer than \<open>2^64 - 1\<close> bytes.  An add that fails is a step as well.\<close>

inductive built :: "bfd_strtab_hash \<Rightarrow> (string \<times> bfd_size_type) list \<Rightarrow> bool" where
  init: "bfd_stringtab_init n created heap = Some tab \<Longrightarrow> n \<noteq> 0 \<Longrightarrow> built tab []"
| xcoff: "bfd_xcoff_stringtab_init n created heap isxcoff64 = Some tab \<Longrightarrow> n \<noteq> 0 \<Longrightarrow> built tab []"
| add: "built tab rs \<Longrightarrow> bfd_stringtab_add tab s hash copy = Done (i, t) \<Longrightarrow> nul \<notin> set s \<Longrightarrow> ht_size (sh_table tab) < 4294967291 \<Longrightarrow>
    unat (bfd_stringtab_size tab) + length s + 5 < 2 ^ 64 - 1 \<Longrightarrow> copy_fits copy s \<Longrightarrow> built t (if i = - 1 then rs else (s, i) # rs)"

lemma init_rep:
  assumes "bfd_stringtab_init n created heap = Some tab" "n \<noteq> 0"
  shows "stringtab_rep tab [] {} \<and> stringtab_rep (tab\<lparr>sh_length_field_size := 2\<rparr>) [] {} \<and> stringtab_rep (tab\<lparr>sh_length_field_size := 4\<rparr>) [] {}"
proof -
  obtain t where t: "bfd_hash_table_init n created 40 = Some t" "tab = \<lparr>sh_table = t, sh_size = 0, sh_chain = [], sh_length_field_size = 0\<rparr>"
    using assms(1) by (auto simp: bfd_stringtab_init_def split: option.splits prod.splits)
  then have "hash_ok t" "ht_map t = Map.empty" using init_ok [OF assms(2)] unfolding bfd_hash_table_init_def by blast+
  then show ?thesis using t(2) by (simp add: stringtab_rep_def)
qed

lemma rep_size:
  assumes "stringtab_rep tab ss shared"
  shows "unat (bfd_stringtab_size tab) = total_bytes (field_of_tab tab) ss" "field_of_tab tab \<le> 4"
  using assms by (auto simp: stringtab_rep_def bfd_stringtab_size_def unat_of_nat)

lemma built_rep:
  "built tab rs \<Longrightarrow> \<exists>ss shared. stringtab_rep tab ss shared \<and> (\<forall>(s, i) \<in> set rs. answered ss (field_of_tab tab) s i)"
proof (induction rule: built.induct)
  case (init n created heap tab)
  then show ?case using init_rep by fastforce
next
  case (xcoff n created heap isxcoff64 tab)
  then obtain tab0 where "bfd_stringtab_init n created heap = Some tab0" "tab = tab0\<lparr>sh_length_field_size := if isxcoff64 then 4 else 2\<rparr>"
    by (auto simp: bfd_xcoff_stringtab_init_def split: option.splits)
  then show ?case using init_rep [of n created heap tab0] xcoff.hyps(2) by (cases isxcoff64) fastforce+
next
  case (add tab rs s hash copy i t)
  then obtain ss shared where rep: "stringtab_rep tab ss shared" and rs: "\<forall>(s, i) \<in> set rs. answered ss (field_of_tab tab) s i" by blast
  have small: "total_bytes (field_of_tab tab) (ss @ [s]) < 2 ^ 64 - 1" using add.hyps(5) rep_size [OF rep] by simp
  have old: "\<forall>(s, i) \<in> set rs. answered (ss @ ts) (field_of_tab tab) s i" for ts using rs answered_append by fastforce
  have "sh_length_field_size t = sh_length_field_size tab \<and> (\<exists>ss' shared'. stringtab_rep t ss' shared' \<and> (ss' = ss \<or> ss' = ss @ [s]) \<and>
      (i \<noteq> - 1 \<longrightarrow> answered ss' (field_of_tab tab) s i))"
    using add_shared [OF rep add.hyps(3,4) small add.hyps(6)] add_unshared [OF rep add.hyps(3) small add.hyps(6)] add.hyps(2) rep
    by (cases hash) (auto split: if_splits)
  then show ?case using old [of "[]"] old [of "[s]"] by (auto split: if_splits)
qed

section \<open>Properties\<close>

text \<open>C31: Adding a string to a table always returns, for a string without a null character that fits the section and, when it is to be
  copied, has fewer than 4294967295 characters.  It does what the abstract table does: a shared string that is known gets its old
  index and changes nothing, any other string is put at the end, and the index is the place of the string in the section.  The
  only other outcome, the index \<open>-1\<close> with the strings of the table as they were, comes with a string that is not known and after an
  allocation of this very call failed.\<close>

theorem stringtab_add_refines:
  assumes "stringtab_rep tab ss shared" "nul \<notin> set s" "ht_size (sh_table tab) < 4294967291"
    and "total_bytes (field_of_tab tab) (ss @ [s]) < 2 ^ 64 - 1" "copy_fits copy s"
  shows "\<exists>i tab'. bfd_stringtab_add tab s hash copy = Done (i, tab') \<and> sh_length_field_size tab' = sh_length_field_size tab \<and>
    (if i = - 1 then stringtab_rep tab' ss shared \<and> \<not> (hash \<and> s \<in> shared) \<and> alloc_failed (sh_table tab) (sh_table tab')
     else case spec_add hash s (ss, shared) of (ss', shared') \<Rightarrow>
       stringtab_rep tab' ss' shared' \<and> answered ss' (field_of_tab tab) s i \<and> (hash \<and> s \<in> shared \<longrightarrow> tab' = tab))"
proof (cases hash)
  case True
  then show ?thesis using add_shared [OF assms] assms(1) by (auto simp: spec_add_def split: if_splits)
next
  case False
  then show ?thesis using add_unshared [OF assms(1,2,4,5)] by (auto simp: spec_add_def split: if_splits)
qed

text \<open>C30: Whatever a client adds, in any order and with any failure of the allocator, strings without null characters, those that are
  copied shorter than 4294967295 characters, in a table that can still grow and a section below \<open>2^64 - 1\<close> bytes: when the table is written
  to a file that accepts it, the section has exactly the announced size and every index the client was given is the position of
  its string.  Before the string stands the length field of the format (none, two or four bytes) in the byte order of the file; it
  holds the length of the string with its terminator modulo \<open>2^16\<close> or \<open>2^32\<close>.\<close>

theorem stringtab_strings_readable:
  assumes "built tab rs" "\<forall>n. bf_ok f n"
  shows "\<exists>f' sec. bfd_stringtab_emit big f tab = Done (True, f') \<and> bf_out f' = bf_out f @ sec \<and> length sec = unat (bfd_stringtab_size tab) \<and>
    (\<forall>(s, i) \<in> set rs. string_at sec (unat i) = Some s \<and> (\<exists>buf. length buf = field_of_tab tab \<and> length buf \<le> unat i \<and>
       take (length buf) (drop (unat i - length buf) sec) = chars_of buf \<and> read_length big buf = Done (take_bit (8 * length buf) (of_nat (length s + 1)))))"
proof -
  let ?L = "sh_length_field_size tab"
  obtain ss shared where rep: "stringtab_rep tab ss shared" and rs: "\<forall>(s, i) \<in> set rs. answered ss (field_of_tab tab) s i"
    using built_rep [OF assms(1)] by blast
  have L: "?L \<in> {0, 2, 4}" and ss: "map he_string (sh_chain tab) = ss" "total_bytes (field_of_tab tab) ss < 2 ^ 64 - 1" "\<forall>s \<in> set ss. nul \<notin> set s"
    using rep by (simp_all add: stringtab_rep_def)
  let ?sec = "section_image big ?L ss"
  obtain f' where f': "bfd_stringtab_emit big f tab = Done (True, f')" "bf_out f' = bf_out f @ ?sec"
    using emit_chain_ok [OF L assms(2)] ss(1) unfolding bfd_stringtab_emit_def by metis
  have each: "string_at ?sec (unat i) = Some s \<and> (\<exists>buf. length buf = field_of_tab tab \<and> length buf \<le> unat i \<and>
      take (length buf) (drop (unat i - length buf) ?sec) = chars_of buf \<and> read_length big buf = Done (take_bit (8 * length buf) (of_nat (length s + 1))))"
    if "(s, i) \<in> set rs" for s i
  proof -
    from that rs obtain k where k: "k < length ss" "ss ! k = s" "i = place_of (field_of_tab tab) ss k" by (auto simp: answered_def)
    let ?o = "total_bytes (field_of_tab tab) (take k ss)"
    have i: "unat i = ?o + field_of_tab tab" using place_of_less(1) [OF k(1) ss(2)] k(3) by simp
    note at = image_at [OF L k(1), of big, unfolded k(2)]
    note buf = field_bytes [OF L, of big s]
    have "drop (unat i) ?sec = drop (field_of_tab tab) (drop ?o ?sec)" using i by (simp add: add.commute)
    then have "drop (unat i) ?sec = s @ nul # section_image big ?L (drop (Suc k) ss)" using at buf(2) by simp
    moreover have "nul \<notin> set s" using ss(3) k(1,2) by auto
    ultimately have "string_at ?sec (unat i) = Some s" using string_at_suffix [of "unat i" ?sec s _ s] by simp
    moreover have "take (field_of_tab tab) (drop ?o ?sec) = chars_of (field_bytes big ?L s)" using at buf(2) by simp
    ultimately show ?thesis using i buf(2,3) by (intro conjI exI [of _ "field_bytes big ?L s"]) simp_all
  qed
  show ?thesis using f' each length_section_image [OF L, of big ss] rep_size(1) [OF rep] by (intro exI conjI) auto
qed

definition sample_stringtab :: bfd_strtab_hash where
  "sample_stringtab = \<lparr>sh_table = \<lparr>ht_table = replicate 31 [], ht_memory = Some \<lparr>oa_ok = \<lambda>_. True, oa_next = 1\<rparr>, ht_size = 31,
     ht_count = 0, ht_entsize = 40, ht_frozen = False\<rparr>, sh_size = 0, sh_chain = [], sh_length_field_size = 2\<rparr>"

lemma sample_stringtab_init:
  "bfd_xcoff_stringtab_init 31 (Some \<lparr>oa_ok = \<lambda>_. True, oa_next = 0\<rparr>) \<lparr>oa_ok = \<lambda>_. True, oa_next = 0\<rparr> False = Some sample_stringtab"
  by (simp add: bfd_xcoff_stringtab_init_def bfd_stringtab_init_def bfd_hash_table_init_def bfd_hash_table_init_n_def objalloc_alloc_def
      sample_stringtab_def Let_def)

lemma sample_stringtab_rep: "stringtab_rep sample_stringtab [] {}"
  using built_rep [OF built.xcoff [OF sample_stringtab_init]] by (auto simp: stringtab_rep_def sample_stringtab_def)

theorem stringtab_add_refines_witness:
  "\<exists>i tab'. bfd_stringtab_add sample_stringtab ''main'' True True = Done (i, tab') \<and> i \<noteq> - 1 \<and> stringtab_rep tab' [''main''] {''main''}"
proof -
  have "ht_size (sh_table sample_stringtab) < 4294967291" "total_bytes (field_of_tab sample_stringtab) ([] @ [''main'']) < 2 ^ 64 - 1"
    by (simp_all add: sample_stringtab_def)
  moreover have "\<not> alloc_failed (sh_table sample_stringtab) t" for t :: "strtab_hash_entry bfd_hash_table"
    by (simp add: alloc_failed_def sample_stringtab_def)
  ultimately show ?thesis
    using stringtab_add_refines [OF sample_stringtab_rep, of "''main''" True True]
    by (fastforce simp: spec_add_def copy_fits_def split: if_splits)
qed

theorem stringtab_strings_readable_witness:
  "\<exists>f' sec. bfd_stringtab_emit True \<lparr>bf_out = [], bf_ok = \<lambda>_. True, bf_calls = 0\<rparr>
      (snd (case bfd_stringtab_add sample_stringtab ''main'' False False of Done r \<Rightarrow> r)) = Done (True, f') \<and>
    bf_out f' = sec \<and> length sec = 7 \<and> string_at sec 2 = Some ''main''"
proof -
  let ?t = "snd (case bfd_stringtab_add sample_stringtab ''main'' False False of Done r \<Rightarrow> r)"
  have run: "bfd_stringtab_add sample_stringtab ''main'' False False = Done (2, ?t)"
    by (simp add: bfd_stringtab_add_def sample_stringtab_def bfd_hash_allocate_def table_alloc_def objalloc_alloc_def number_entry_def Let_def)
  have "built ?t (if (2 :: bfd_size_type) = - 1 then [] else [(''main'', 2)])"
    by (rule built.add [OF built.xcoff [OF sample_stringtab_init] run]) (simp_all add: sample_stringtab_def bfd_stringtab_size_def copy_fits_def)
  then have "built ?t [(''main'', 2)]" by simp
  moreover have "bfd_stringtab_size ?t = 7"
    by (simp add: bfd_stringtab_add_def sample_stringtab_def bfd_hash_allocate_def table_alloc_def objalloc_alloc_def number_entry_def bfd_stringtab_size_def Let_def)
  ultimately show ?thesis
    using stringtab_strings_readable [of ?t "[(''main'', 2)]" "\<lparr>bf_out = [], bf_ok = \<lambda>_. True, bf_calls = 0\<rparr>" True] by fastforce
qed

end
