(* ===== verification/Bfd_Strtab.thy ===== *)
theory Bfd_Strtab
  imports Bfd_Hash
begin

text \<open>
  The string table of ELF output files, \<open>tooling/bfd-scrape/bfd/elf-strtab.c\<close>: strings are entered into a hash
  table and counted, and \<open>_bfd_elf_strtab_finalize\<close> assigns their offsets, letting a string that is the end of a
  longer one share its bytes.  Entries are objects with an address; the hash table holds their
  contents and the array holds their addresses, so a change through one is seen through the
  other.  A failed \<open>BFD_ASSERT\<close> is reported and execution goes on: the reports are counted.
\<close>

section \<open>Data\<close>

text \<open>The union of an index and a pointer to the entry this one is a suffix of.\<close>

datatype strtab_u = Index u64 | Suffix nat

record elf_strtab_hash_entry = bfd_hash_entry +
  es_len :: int
  es_refcount :: u32
  es_u :: strtab_u

text \<open>\<open>st_array\<close> is null after a failed \<open>realloc\<close>; a null or uninitialised element is \<open>None\<close>.  \<open>st_heap\<close> decides which
  calls of \<open>malloc\<close> succeed.\<close>

record elf_strtab_hash =
  st_table :: "elf_strtab_hash_entry bfd_hash_table"
  st_size :: u64
  st_alloced :: u64
  st_sec_size :: u64
  st_array :: "nat option list option"
  st_heap :: objalloc
  st_asserts :: nat

definition BFD_ASSERT :: "bool \<Rightarrow> elf_strtab_hash \<Rightarrow> elf_strtab_hash" where
  "BFD_ASSERT c tab = (if c then tab else tab\<lparr>st_asserts := Suc (st_asserts tab)\<rparr>)"

section \<open>Entries as objects\<close>

definition entry_at :: "elf_strtab_hash \<Rightarrow> nat \<Rightarrow> elf_strtab_hash_entry option" where
  "entry_at tab a = find (\<lambda>e. he_addr e = a) (ht_entries (st_table tab))"

definition put_entry :: "elf_strtab_hash_entry \<Rightarrow> elf_strtab_hash \<Rightarrow> elf_strtab_hash" where
  "put_entry e tab = tab\<lparr>st_table := put_in e (st_table tab)\<rparr>"

definition deref :: "elf_strtab_hash \<Rightarrow> nat \<Rightarrow> elf_strtab_hash_entry cresult" where
  "deref tab a = (case entry_at tab a of None \<Rightarrow> Undefined | Some e \<Rightarrow> Done e)"

text \<open>\<open>tab->array[i]\<close> as an address, and the object behind it.\<close>

definition array_at :: "elf_strtab_hash \<Rightarrow> nat \<Rightarrow> nat cresult" where
  "array_at tab i =
     (case st_array tab of None \<Rightarrow> Undefined
      | Some arr \<Rightarrow> if i < length arr then case arr ! i of None \<Rightarrow> Undefined | Some a \<Rightarrow> Done a else Undefined)"

definition entry_of :: "elf_strtab_hash \<Rightarrow> nat \<Rightarrow> elf_strtab_hash_entry cresult" where
  "entry_of tab i = cbind (array_at tab i) (deref tab)"

definition read_index :: "elf_strtab_hash_entry \<Rightarrow> u64 cresult" where
  "read_index e = (case es_u e of Index i \<Rightarrow> Done i | Suffix _ \<Rightarrow> Undefined)"

text \<open>A loop over the elements of the array that changes each entry and carries a state.\<close>

fun for_loop ::
    "(elf_strtab_hash \<Rightarrow> elf_strtab_hash_entry \<Rightarrow> 's \<Rightarrow> (elf_strtab_hash_entry \<times> 's) cresult) \<Rightarrow> nat list \<Rightarrow> 's \<Rightarrow> elf_strtab_hash
     \<Rightarrow> ('s \<times> elf_strtab_hash) cresult" where
  "for_loop f [] s tab = Done (s, tab)"
| "for_loop f (i # is) s tab =
     cbind (entry_of tab i) (\<lambda>e. cbind (f tab e s) (\<lambda>(e', s'). for_loop f is s' (put_entry e' tab)))"

abbreviation array_indices :: "elf_strtab_hash \<Rightarrow> nat list" where
  "array_indices tab \<equiv> [1..<unat (st_size tab)]"

section \<open>Creation\<close>

definition elf_strtab_hash_newfunc :: "elf_strtab_hash_entry newfunc" where
  "elf_strtab_hash_newfunc entry table str =
     (case entry of
        Some e \<Rightarrow> Done (Some (e\<lparr>es_u := Index (- 1), es_refcount := 0, es_len := 0\<rparr>), table)
      | None \<Rightarrow> cbind (bfd_hash_allocate table 40) (\<lambda>(r, t).
          Done (map_option (\<lambda>a. \<lparr>he_addr = a, he_string = [], he_hash = 0, es_len = 0, es_refcount = 0, es_u = Index (- 1)\<rparr>) r, t)))"

text \<open>The two calls of \<open>bfd_malloc\<close> come from \<open>heap\<close>, the objalloc of the table is \<open>created\<close>.\<close>

definition elf_strtab_init :: "u32 \<Rightarrow> objalloc option \<Rightarrow> objalloc \<Rightarrow> elf_strtab_hash option" where
  "elf_strtab_init bfd_default_hash_table_size created heap =
     (case objalloc_alloc heap of
        (None, _) \<Rightarrow> None
      | (Some _, h1) \<Rightarrow>
         (case bfd_hash_table_init bfd_default_hash_table_size created 40 of
            None \<Rightarrow> None
          | Some t \<Rightarrow>
             (case objalloc_alloc h1 of
                (None, _) \<Rightarrow> None
              | (Some _, h2) \<Rightarrow>
                  Some \<lparr>st_table = t, st_size = 1, st_alloced = 64, st_sec_size = 0, st_array = Some (replicate 64 None),
                        st_heap = h2, st_asserts = 0\<rparr>)))"

section \<open>Adding and counting\<close>

text \<open>The conversion of a \<open>size_t\<close> to \<open>int\<close>.\<close>

definition c_int :: "nat \<Rightarrow> int" where
  "c_int n = signed_take_bit 31 (int n)"

text \<open>\<open>bfd_realloc_or_free\<close> of the array to \<open>n\<close> elements.\<close>

definition grow_array :: "elf_strtab_hash \<Rightarrow> elf_strtab_hash" where
  "grow_array tab =
     (let alloced = st_alloced tab * 2;
          n = unat (alloced * 8) div 8;
          old = (case st_array tab of None \<Rightarrow> [] | Some arr \<Rightarrow> arr)
      in case objalloc_alloc (st_heap tab) of
           (None, h) \<Rightarrow> tab\<lparr>st_heap := h, st_alloced := alloced, st_array := None\<rparr>
         | (Some _, h) \<Rightarrow>
             tab\<lparr>st_heap := h, st_alloced := alloced, st_array := Some (take n old @ replicate (n - length old) None)\<rparr>)"

text \<open>The entry gets the next index and its place in the array.\<close>

definition enter :: "elf_strtab_hash_entry \<Rightarrow> elf_strtab_hash \<Rightarrow> (u64 \<times> elf_strtab_hash) cresult" where
  "enter e tab =
     (let i = st_size tab; tab1 = put_entry (e\<lparr>es_u := Index i\<rparr>) (tab\<lparr>st_size := i + 1\<rparr>)
      in case st_array tab1 of None \<Rightarrow> Undefined
         | Some arr \<Rightarrow>
             if unat i < length arr then Done (i, tab1\<lparr>st_array := Some (arr[unat i := Some (he_addr e)])\<rparr>)
             else Undefined)"

definition elf_strtab_add :: "elf_strtab_hash \<Rightarrow> string \<Rightarrow> bool \<Rightarrow> (u64 \<times> elf_strtab_hash) cresult" where
  "elf_strtab_add tab str copy =
     (if str = [] then Done (0, tab)
      else let tab = BFD_ASSERT (st_sec_size tab = 0) tab
           in cbind (bfd_hash_lookup elf_strtab_hash_newfunc (st_table tab) str True copy) (\<lambda>(r, t).
                let tab = tab\<lparr>st_table := t\<rparr>
                in case r of
                     None \<Rightarrow> Done (- 1, tab)
                   | Some entry \<Rightarrow>
                       let entry = entry\<lparr>es_refcount := es_refcount entry + 1\<rparr>
                       in if es_len entry = 0
                          then let entry = entry\<lparr>es_len := c_int (length str + 1)\<rparr>;
                                   tab = BFD_ASSERT (0 < es_len entry) (put_entry entry tab)
                               in if st_size tab = st_alloced tab
                                  then let tab = grow_array tab
                                       in if st_array tab = None then Done (- 1, tab) else enter entry tab
                                  else enter entry tab
                          else cbind (read_index entry) (\<lambda>i. Done (i, put_entry entry tab))))"

definition elf_strtab_addref :: "elf_strtab_hash \<Rightarrow> u64 \<Rightarrow> elf_strtab_hash cresult" where
  "elf_strtab_addref tab idx =
     (if idx = 0 \<or> idx = - 1 then Done tab
      else let tab = BFD_ASSERT (idx < st_size tab) (BFD_ASSERT (st_sec_size tab = 0) tab)
           in cbind (entry_of tab (unat idx)) (\<lambda>e. Done (put_entry (e\<lparr>es_refcount := es_refcount e + 1\<rparr>) tab)))"

definition elf_strtab_delref :: "elf_strtab_hash \<Rightarrow> u64 \<Rightarrow> elf_strtab_hash cresult" where
  "elf_strtab_delref tab idx =
     (if idx = 0 \<or> idx = - 1 then Done tab
      else let tab = BFD_ASSERT (idx < st_size tab) (BFD_ASSERT (st_sec_size tab = 0) tab)
           in cbind (entry_of tab (unat idx)) (\<lambda>e.
                let tab = BFD_ASSERT (0 < es_refcount e) tab
                in Done (put_entry (e\<lparr>es_refcount := es_refcount e - 1\<rparr>) tab)))"

definition elf_strtab_refcount :: "elf_strtab_hash \<Rightarrow> u64 \<Rightarrow> u32 cresult" where
  "elf_strtab_refcount tab idx = cbind (entry_of tab (unat idx)) (\<lambda>e. Done (es_refcount e))"

definition elf_strtab_clear_all_refs :: "elf_strtab_hash \<Rightarrow> elf_strtab_hash cresult" where
  "elf_strtab_clear_all_refs tab =
     cbind (for_loop (\<lambda>_ e s. Done (e\<lparr>es_refcount := 0\<rparr>, s)) (array_indices tab) () tab) (\<lambda>(_, tab). Done tab)"

section \<open>Saving and restoring\<close>

text \<open>Element \<open>0\<close> of the counts is never used.\<close>

record strtab_save =
  sv_size :: u64
  sv_refcount :: "u32 list"

definition elf_strtab_save :: "elf_strtab_hash \<Rightarrow> (strtab_save option \<times> elf_strtab_hash) cresult" where
  "elf_strtab_save tab =
     (case objalloc_alloc (st_heap tab) of
        (None, h) \<Rightarrow> Done (None, tab\<lparr>st_heap := h\<rparr>)
      | (Some _, h) \<Rightarrow>
          cbind (for_loop (\<lambda>_ e counts. Done (e, counts @ [es_refcount e])) (array_indices tab) [0] (tab\<lparr>st_heap := h\<rparr>))
            (\<lambda>(counts, tab). Done (Some \<lparr>sv_size = st_size tab, sv_refcount = counts\<rparr>, tab)))"

definition elf_strtab_restore :: "elf_strtab_hash \<Rightarrow> strtab_save option \<Rightarrow> elf_strtab_hash cresult" where
  "elf_strtab_restore tab save =
     (let tab = BFD_ASSERT (st_sec_size tab = 0) tab; curr_size = st_size tab;
          save_size = (case save of None \<Rightarrow> 1 | Some s \<Rightarrow> sv_size s);
          tab = (BFD_ASSERT (save_size \<le> curr_size) tab)\<lparr>st_size := save_size\<rparr>
      in cbind (for_loop (\<lambda>_ e idx. case save of
                  None \<Rightarrow> Undefined
                | Some s \<Rightarrow> if idx < length (sv_refcount s) then Done (e\<lparr>es_refcount := sv_refcount s ! idx\<rparr>, Suc idx) else Undefined)
                [1..<unat save_size] 1 tab) (\<lambda>(idx, tab).
           cbind (for_loop (\<lambda>_ e s. Done (e\<lparr>es_refcount := 0, es_len := 0\<rparr>, s)) [idx..<unat curr_size] () tab)
             (\<lambda>(_, tab). Done tab)))"

section \<open>Reading\<close>

definition elf_strtab_size :: "elf_strtab_hash \<Rightarrow> u64" where
  "elf_strtab_size tab = (if st_sec_size tab \<noteq> 0 then st_sec_size tab else st_size tab)"

definition elf_strtab_len :: "elf_strtab_hash \<Rightarrow> u64" where
  "elf_strtab_len tab = st_size tab"

definition elf_strtab_offset :: "elf_strtab_hash \<Rightarrow> u64 \<Rightarrow> (u64 \<times> elf_strtab_hash) cresult" where
  "elf_strtab_offset tab idx =
     (if idx = 0 then Done (0, tab)
      else let tab = BFD_ASSERT (st_sec_size tab \<noteq> 0) (BFD_ASSERT (idx < st_size tab) tab)
           in cbind (entry_of tab (unat idx)) (\<lambda>e.
                let tab = put_entry (e\<lparr>es_refcount := es_refcount e - 1\<rparr>) (BFD_ASSERT (0 < es_refcount e) tab)
                in cbind (read_index e) (\<lambda>i. Done (i, tab))))"

text \<open>The string, and the offset stored through the pointer when there is one.\<close>

definition elf_strtab_str :: "elf_strtab_hash \<Rightarrow> u64 \<Rightarrow> u64 option \<Rightarrow> (string option \<times> u64 option \<times> elf_strtab_hash) cresult" where
  "elf_strtab_str tab idx offset =
     (if idx = 0 then Done (None, offset, tab)
      else let tab = BFD_ASSERT (st_sec_size tab \<noteq> 0) (BFD_ASSERT (idx < st_size tab) tab)
           in cbind (entry_of tab (unat idx)) (\<lambda>e.
                if es_refcount e = 0 then Done (None, offset, tab)
                else case offset of None \<Rightarrow> Done (Some (he_string e), None, tab)
                     | Some _ \<Rightarrow> cbind (read_index e) (\<lambda>i. Done (Some (he_string e), Some i, tab))))"

fun emit_loop :: "nat list \<Rightarrow> u64 \<Rightarrow> bfd_file \<Rightarrow> elf_strtab_hash \<Rightarrow> (bool \<times> bfd_file \<times> elf_strtab_hash) cresult" where
  "emit_loop [] off f tab = Done (True, f, BFD_ASSERT (off = st_sec_size tab) tab)"
| "emit_loop (i # is) off f tab =
     cbind (entry_of tab i) (\<lambda>e.
       let tab = BFD_ASSERT (es_refcount e = 0) tab; len = es_len e
       in if len \<le> 0 then emit_loop is off f tab
          else if length (he_string e) + 1 < nat len then Undefined
          else case bfd_write (take (nat len) (he_string e @ [nul])) f of
                 (False, f) \<Rightarrow> Done (False, f, tab)
               | (True, f) \<Rightarrow> emit_loop is (off + of_int len) f tab)"

definition elf_strtab_emit :: "bfd_file \<Rightarrow> elf_strtab_hash \<Rightarrow> (bool \<times> bfd_file \<times> elf_strtab_hash) cresult" where
  "elf_strtab_emit f tab =
     (case bfd_write [nul] f of
        (False, f) \<Rightarrow> Done (False, f, tab)
      | (True, f) \<Rightarrow> emit_loop (array_indices tab) 1 f tab)"

section \<open>Finalising\<close>

text \<open>Comparing strings from their ends.\<close>

fun rev_diff :: "string \<Rightarrow> string \<Rightarrow> int option" where
  "rev_diff (s # ss) (t # ts) = (if s \<noteq> t then Some (of_char s - of_char t) else rev_diff ss ts)"
| "rev_diff _ _ = None"

definition strrevcmp :: "elf_strtab_hash_entry \<Rightarrow> elf_strtab_hash_entry \<Rightarrow> int" where
  "strrevcmp A B =
     (let lenA = nat (es_len A); lenB = nat (es_len B)
      in case rev_diff (rev (take lenA (he_string A))) (rev (take lenB (he_string B))) of
           Some d \<Rightarrow> d | None \<Rightarrow> int lenA - int lenB)"

definition is_suffix :: "elf_strtab_hash_entry \<Rightarrow> elf_strtab_hash_entry \<Rightarrow> bool" where
  "is_suffix A B =
     (if es_len A \<le> es_len B then False
      else take (nat (es_len B - 1)) (drop (nat (es_len A - es_len B)) (he_string A)) = take (nat (es_len B - 1)) (he_string B))"

text \<open>The first loop: the referenced entries, with their lengths less the terminator; the others are dropped.\<close>

definition gather :: "elf_strtab_hash \<Rightarrow> elf_strtab_hash_entry \<Rightarrow> nat list \<Rightarrow> (elf_strtab_hash_entry \<times> nat list) cresult" where
  "gather tab e used =
     (if es_refcount e \<noteq> 0
      then if es_len e = - (2 ^ 31) then Undefined else Done (e\<lparr>es_len := es_len e - 1\<rparr>, used @ [he_addr e])
      else Done (e\<lparr>es_len := 0\<rparr>, used))"

text \<open>The loop from the end of the sorted array; \<open>e\<close> is the address of the entry the next ones may be a suffix of.\<close>

fun merge_loop :: "nat \<Rightarrow> nat list \<Rightarrow> elf_strtab_hash \<Rightarrow> elf_strtab_hash cresult" where
  "merge_loop e [] tab = Done tab"
| "merge_loop e (a # as) tab =
     cbind (deref tab e) (\<lambda>E. cbind (deref tab a) (\<lambda>cmp.
       let cmp = cmp\<lparr>es_len := es_len cmp + 1\<rparr>
       in if is_suffix E cmp
          then merge_loop e as (put_entry (cmp\<lparr>es_u := Suffix e, es_len := - es_len cmp\<rparr>) tab)
          else merge_loop a as (put_entry cmp tab)))"

text \<open>\<open>qsort\<close> with \<open>strrevcmp\<close>, which never answers zero for two entries of one table.\<close>

definition sort_used :: "elf_strtab_hash \<Rightarrow> nat list \<Rightarrow> nat list" where
  "sort_used tab used =
     map he_addr (stable_sort (\<lambda>A B. strrevcmp A B < 0) (List.map_filter (entry_at tab) used))"

definition merge_suffixes :: "nat list \<Rightarrow> elf_strtab_hash \<Rightarrow> elf_strtab_hash cresult" where
  "merge_suffixes used tab =
     (case rev (sort_used tab used) of
        [] \<Rightarrow> Done tab
      | a # as \<Rightarrow> cbind (deref tab a) (\<lambda>e. merge_loop a as (put_entry (e\<lparr>es_len := es_len e + 1\<rparr>) tab)))"

definition place :: "elf_strtab_hash \<Rightarrow> elf_strtab_hash_entry \<Rightarrow> u64 \<Rightarrow> (elf_strtab_hash_entry \<times> u64) cresult" where
  "place tab e sec_size =
     Done (if es_refcount e \<noteq> 0 \<and> 0 < es_len e then (e\<lparr>es_u := Index sec_size\<rparr>, sec_size + of_int (es_len e)) else (e, sec_size))"

definition adjust :: "elf_strtab_hash \<Rightarrow> elf_strtab_hash_entry \<Rightarrow> unit \<Rightarrow> (elf_strtab_hash_entry \<times> unit) cresult" where
  "adjust tab e _ =
     (if es_refcount e \<noteq> 0 \<and> es_len e < 0
      then case es_u e of
             Index _ \<Rightarrow> Undefined
           | Suffix a \<Rightarrow> cbind (deref tab a) (\<lambda>s. cbind (read_index s) (\<lambda>i.
               Done (e\<lparr>es_u := Index (i + of_int (es_len s + es_len e))\<rparr>, ())))
      else Done (e, ()))"

definition assign_offsets :: "elf_strtab_hash \<Rightarrow> elf_strtab_hash cresult" where
  "assign_offsets tab =
     cbind (for_loop place (array_indices tab) 1 tab) (\<lambda>(sec_size, tab).
       let tab = tab\<lparr>st_sec_size := sec_size\<rparr>
       in cbind (for_loop adjust (array_indices tab) () tab) (\<lambda>(_, tab). Done tab))"

definition elf_strtab_finalize :: "elf_strtab_hash \<Rightarrow> elf_strtab_hash cresult" where
  "elf_strtab_finalize tab =
     (case objalloc_alloc (st_heap tab) of
        (None, h) \<Rightarrow> assign_offsets (tab\<lparr>st_heap := h\<rparr>)
      | (Some _, h) \<Rightarrow>
          cbind (for_loop gather (array_indices tab) [] (tab\<lparr>st_heap := h\<rparr>)) (\<lambda>(used, tab).
            cbind (merge_suffixes used tab) assign_offsets))"

section \<open>The store\<close>

lemma objalloc_alloc_cases:
  "objalloc_alloc m = (if oa_ok m (oa_next m) then Some (oa_next m) else None, m\<lparr>oa_next := Suc (oa_next m)\<rparr>)"
  by (simp add: objalloc_alloc_def)

lemma find_unique: "distinct (map f xs) \<Longrightarrow> find (\<lambda>x. f x = a) xs = Some x \<longleftrightarrow> x \<in> set xs \<and> f x = a"
  by (induction xs) auto

lemma entry_at_Some:
  "hash_ok (st_table tab) \<Longrightarrow> entry_at tab a = Some e \<longleftrightarrow> e \<in> set (ht_entries (st_table tab)) \<and> he_addr e = a"
  unfolding entry_at_def by (rule find_unique) (simp add: hash_ok_def)

lemma entry_at_addr: "entry_at tab a = Some e \<Longrightarrow> he_addr e = a"
  unfolding entry_at_def by (auto simp: find_Some_iff)

lemma same_object_simps [simp]:
  "same_object x x" "same_object (x\<lparr>es_len := l\<rparr>) y = same_object x y" "same_object (x\<lparr>es_refcount := r\<rparr>) y = same_object x y"
  "same_object (x\<lparr>es_u := u\<rparr>) y = same_object x y" "same_object x (y\<lparr>es_len := l\<rparr>) = same_object x y"
  "same_object x (y\<lparr>es_refcount := r\<rparr>) = same_object x y" "same_object x (y\<lparr>es_u := u\<rparr>) = same_object x y"
  by (simp_all add: same_object_def)

lemma put_entry_simps [simp]:
  "st_size (put_entry e tab) = st_size tab" "st_alloced (put_entry e tab) = st_alloced tab"
  "st_sec_size (put_entry e tab) = st_sec_size tab" "st_array (put_entry e tab) = st_array tab"
  "st_heap (put_entry e tab) = st_heap tab" "st_asserts (put_entry e tab) = st_asserts tab"
  by (simp_all add: put_entry_def)

lemma put_entry_ok:
  assumes "hash_ok (st_table tab)" "entry_at tab a = Some x" "same_object e x"
  shows "hash_ok (st_table (put_entry e tab))" "entry_at (put_entry e tab) = (entry_at tab)(a \<mapsto> e)"
    "ht_map (st_table (put_entry e tab)) = (ht_map (st_table tab))(he_string e \<mapsto> e)"
proof -
  have x: "x \<in> set (ht_entries (st_table tab))" "he_addr x = a" using assms(1,2) entry_at_Some by auto
  show ok: "hash_ok (st_table (put_entry e tab))" and "ht_map (st_table (put_entry e tab)) = (ht_map (st_table tab))(he_string e \<mapsto> e)"
    using put_in_ok [OF assms(1) x(1) assms(3)] by (simp_all add: put_entry_def)
  show "entry_at (put_entry e tab) = (entry_at tab)(a \<mapsto> e)"
  proof
    fix b
    have "y \<in> set (ht_entries (st_table (put_entry e tab))) \<and> he_addr y = b \<longleftrightarrow>
        (if b = a then y = e else y \<in> set (ht_entries (st_table tab)) \<and> he_addr y = b)" for y
      using x assms(3) by (auto simp: put_entry_def put_in_entries same_object_def)
    then show "entry_at (put_entry e tab) b = ((entry_at tab)(a \<mapsto> e)) b"
      using entry_at_Some [OF ok, of b] entry_at_Some [OF assms(1), of b]
      by (intro option_eqI) auto
  qed
qed

text \<open>Nothing but the contents of entries changed.\<close>

definition framed :: "elf_strtab_hash \<Rightarrow> elf_strtab_hash \<Rightarrow> bool" where
  "framed tab t \<longleftrightarrow>
     st_size t = st_size tab \<and> st_alloced t = st_alloced tab \<and> st_sec_size t = st_sec_size tab \<and> st_array t = st_array tab \<and>
     st_heap t = st_heap tab \<and> st_asserts t = st_asserts tab \<and> hash_ok (st_table t) \<and>
     (\<forall>a. rel_option same_object (entry_at t a) (entry_at tab a))"

lemma framed_refl: "hash_ok (st_table tab) \<Longrightarrow> framed tab tab"
  by (simp add: framed_def option.rel_refl)

lemma framed_trans:
  assumes "framed x y" "framed y z"
  shows "framed x z"
proof -
  have "rel_option same_object u w" if "rel_option same_object u v" "rel_option same_object v w" for u v w
    using that by (cases u; cases v; cases w) (auto intro: same_object_trans)
  then show ?thesis using assms unfolding framed_def by (metis (no_types, lifting))
qed

lemma framed_entry:
  assumes "framed tab t" "entry_at t a = Some e"
  obtains x where "entry_at tab a = Some x" "same_object e x"
  using assms unfolding framed_def by (metis option_rel_Some1)

lemma framed_put:
  assumes "framed tab t" "entry_at t a = Some x" "same_object e x"
  shows "framed tab (put_entry e t)"
proof -
  have ok: "hash_ok (st_table t)" using assms(1) by (simp add: framed_def)
  obtain y where "entry_at tab a = Some y" "same_object x y" using framed_entry [OF assms(1,2)] .
  then show ?thesis
    using assms(1,3) put_entry_ok [OF ok assms(2,3)] unfolding framed_def
    by (auto intro: same_object_trans)
qed

lemma array_at_framed: "framed tab t \<Longrightarrow> array_at t i = array_at tab i"
  by (simp add: array_at_def framed_def)

text \<open>Invariants of loops over the array.\<close>

lemma for_loop_rule:
  assumes "I 0 s tab"
    and "\<And>k s t. k < length is \<Longrightarrow> I k s t \<Longrightarrow>
      \<exists>e e' s'. entry_of t (is ! k) = Done e \<and> f t e s = Done (e', s') \<and> I (Suc k) s' (put_entry e' t)"
  shows "\<exists>s' t. for_loop f is s tab = Done (s', t) \<and> I (length is) s' t"
  using assms
proof (induction "is" arbitrary: I s tab)
  case (Cons i ixs)
  from Cons.prems(2) [of 0 s tab] Cons.prems(1) obtain e e' s' where
    step: "entry_of tab i = Done e" "f tab e s = Done (e', s')" "I (Suc 0) s' (put_entry e' tab)" by auto
  have "\<exists>s'' t. for_loop f ixs s' (put_entry e' tab) = Done (s'', t) \<and> I (Suc (length ixs)) s'' t"
    by (rule Cons.IH [of "\<lambda>k. I (Suc k)"]) (use step(3) Cons.prems(2) in force)+
  then show ?case using step by simp
qed simp

text \<open>The loop over the array as a map over the entries \<open>E\<close>, with the states \<open>S k\<close> in between.  The body sees the entries before it
  changed and those behind it unchanged.\<close>

definition midway :: "(nat \<Rightarrow> 'a) \<Rightarrow> (nat \<Rightarrow> 'a) \<Rightarrow> nat \<Rightarrow> nat \<Rightarrow> 'a" where
  "midway new old k j = (if j < k then new j else old j)"

lemma for_loop_entries:
  assumes ok: "hash_ok (st_table tab)" and arr: "\<forall>k < length as. array_at tab (is ! k) = Done (as ! k)" "length is = length as"
    and as: "distinct as" "\<forall>a \<in> set as. entry_at tab a = Some (E a)" and S: "S 0 = s"
    and f: "\<And>k t. k < length as \<Longrightarrow> (\<forall>j < length as. entry_at t (as ! j) = Some (midway N (\<lambda>j. E (as ! j)) k j)) \<Longrightarrow>
        f t (E (as ! k)) (S k) = Done (N k, S (Suc k))"
    and same: "\<And>k. k < length as \<Longrightarrow> same_object (N k) (E (as ! k))"
  shows "\<exists>t. for_loop f is s tab = Done (S (length as), t) \<and> framed tab t \<and>
    (\<forall>k < length as. entry_at t (as ! k) = Some (N k)) \<and> (\<forall>a. a \<notin> set as \<longrightarrow> entry_at t a = entry_at tab a)"
proof -
  let ?I = "\<lambda>k s t. s = S k \<and> framed tab t \<and>
    (\<forall>j < length as. entry_at t (as ! j) = Some (midway N (\<lambda>j. E (as ! j)) k j)) \<and>
    (\<forall>a. a \<notin> set as \<longrightarrow> entry_at t a = entry_at tab a)"
  have "\<exists>s' t. for_loop f is s tab = Done (s', t) \<and> ?I (length is) s' t"
  proof (rule for_loop_rule)
    show "?I 0 s tab" using ok as S by (simp add: framed_refl midway_def)
  next
    fix k s t assume k: "k < length is" and I: "?I k s t"
    let ?a = "as ! k"
    have a: "?a \<in> set as" "entry_at t ?a = Some (E ?a)" using I k arr(2) by (simp_all add: midway_def)
    have "entry_of t (is ! k) = Done (E ?a)"
      using arr k a I by (simp add: entry_of_def array_at_framed [of tab t] deref_def)
    moreover have "f t (E ?a) s = Done (N k, S (Suc k))" using f [of k t] I k arr(2) by simp
    moreover have "same_object (N k) (E ?a)" using same k arr(2) by simp
    then have "entry_at (put_entry (N k) t) = (entry_at t)(?a \<mapsto> N k)" "framed tab (put_entry (N k) t)"
      using put_entry_ok(2) [OF _ a(2)] framed_put [OF _ a(2)] I by (auto simp: framed_def)
    moreover have "as ! j = ?a \<longleftrightarrow> j = k" if "j < length as" for j using as(1) that k arr(2) by (simp add: nth_eq_iff_index_eq)
    ultimately show "\<exists>e e' s'. entry_of t (is ! k) = Done e \<and> f t e s = Done (e', s') \<and> ?I (Suc k) s' (put_entry e' t)"
      using I a(1) by (intro exI [of _ "E ?a"] exI [of _ "N k"] exI [of _ "S (Suc k)"]) (auto simp: less_Suc_eq midway_def)
  qed
  then show ?thesis using arr(2) by (auto simp: midway_def)
qed

section \<open>The order of the strings\<close>

text \<open>Strings are compared from their ends; a string comes before the strings it is the end of.\<close>

definition rkey :: "string \<Rightarrow> nat list" where
  "rkey s = map of_char (rev s)"

lemma rkey_eq [simp]: "rkey s = rkey t \<longleftrightarrow> s = t"
proof -
  have "inj (of_char :: char \<Rightarrow> nat)" by (simp add: inj_def)
  then show ?thesis unfolding rkey_def by (simp add: inj_map_eq_map)
qed

lemma rev_diff_less:
  "(case rev_diff x y of Some d \<Rightarrow> d | None \<Rightarrow> int (length x) - int (length y)) < 0 \<longleftrightarrow>
     (map of_char x :: nat list) < map of_char y"
proof (induction x arbitrary: y)
  case Nil
  then show ?case by (cases y) auto
next
  case (Cons s ss)
  show ?case
  proof (cases y)
    case (Cons t ts)
    have "(of_char s :: int) = int (of_char s)" "(of_char t :: int) = int (of_char t)" by (simp_all add: of_nat_of_char)
    then have "(of_char s - of_char t :: int) < 0 \<longleftrightarrow> (of_char s :: nat) < of_char t" by linarith
    then show ?thesis using Cons Cons.IH [of ts] by (auto split: option.splits)
  qed simp
qed

lemma strrevcmp_less:
  assumes "es_len A = int (length (he_string A))" "es_len B = int (length (he_string B))"
  shows "strrevcmp A B < 0 \<longleftrightarrow> rkey (he_string A) < rkey (he_string B)"
  using rev_diff_less [of "rev (he_string A)" "rev (he_string B)"] assms
  by (simp add: strrevcmp_def rkey_def Let_def split: option.splits)

lemma prefix_le: "prefix x y \<Longrightarrow> x \<le> (y :: 'a::linorder list)"
  by (induction x arbitrary: y) (auto simp: prefix_def)

lemma prefix_between: "prefix x z \<Longrightarrow> x \<le> y \<Longrightarrow> y \<le> z \<Longrightarrow> prefix x (y :: 'a::linorder list)"
proof (induction x arbitrary: y z)
  case (Cons c x)
  obtain z' where z: "z = c # z'" "prefix x z'" using Cons.prems(1) by (cases z) auto
  obtain d y' where y: "y = d # y'" using Cons.prems(2) by (cases y) auto
  with Cons z show ?case by (auto dest: less_asym)
qed simp

lemma suffix_rkey: "suffix s t \<longleftrightarrow> prefix (rkey s) (rkey t)"
proof -
  have "inj (of_char :: char \<Rightarrow> nat)" by (simp add: inj_def)
  then show ?thesis
    unfolding rkey_def suffix_to_prefix prefix_def by (auto simp: map_eq_append_conv inj_map_eq_map)
qed

text \<open>Of three strings in order, if the first is the end of the last, it is the end of the middle one.\<close>

lemma suffix_between: "suffix s u \<Longrightarrow> rkey s \<le> rkey t \<Longrightarrow> rkey t \<le> rkey u \<Longrightarrow> suffix s t"
  unfolding suffix_rkey by (rule prefix_between)

lemma suffix_le: "suffix s t \<Longrightarrow> rkey s \<le> rkey t"
  unfolding suffix_rkey by (rule prefix_le)

lemma is_suffix_iff:
  assumes "es_len A = int (length (he_string A)) + 1" "es_len B = int (length (he_string B)) + 1"
  shows "is_suffix A B \<longleftrightarrow> strict_suffix (he_string B) (he_string A)"
proof (cases "length (he_string A) \<le> length (he_string B)")
  case True
  then show ?thesis using assms by (auto simp: is_suffix_def strict_suffix_def suffix_def)
next
  case False
  let ?n = "length (he_string A) - length (he_string B)"
  have "nat (es_len A - es_len B) = ?n" using assms False by (simp add: nat_diff_distrib')
  moreover have "suffix (he_string B) (he_string A) \<longleftrightarrow> drop ?n (he_string A) = he_string B"
    using False by (auto simp: suffix_def) (metis append_take_drop_id)
  ultimately show ?thesis using assms False by (auto simp: is_suffix_def strict_suffix_def)
qed

text \<open>The sorted array of the used entries.\<close>

lemma stable_sort_cong:
  assumes "\<And>x y. x \<in> set xs \<Longrightarrow> y \<in> set xs \<Longrightarrow> lt x y = lt' x y"
  shows "stable_sort lt xs = stable_sort lt' xs"
proof -
  have ins: "stable_insert lt x ys = stable_insert lt' x ys" if "\<And>y. y \<in> set ys \<Longrightarrow> lt y x = lt' y x" for x ys
    using that by (induction ys) auto
  have "set ys \<subseteq> set xs \<Longrightarrow> stable_sort lt ys = stable_sort lt' ys" for ys
  proof (induction ys)
    case (Cons y ys)
    then show ?case using ins [of "stable_sort lt' ys" y] assms by auto
  qed simp
  then show ?thesis by blast
qed

interpretation by_rkey: key_order "\<lambda>A B. rkey (he_string A) < rkey (he_string B)" "\<lambda>A. rkey (he_string A)"
  by unfold_locales simp

lemma sort_used_sorted:
  assumes "\<forall>a \<in> set used. entry_at tab a = Some (E a) \<and> es_len (E a) = int (length (he_string (E a)))"
  shows "mset (sort_used tab used) = mset used" "sorted (map (\<lambda>a. rkey (he_string (E a))) (sort_used tab used))"
proof -
  let ?xs = "map E used"
  let ?ys = "stable_sort (\<lambda>A B. rkey (he_string A) < rkey (he_string B)) ?xs"
  have addr: "he_addr (E a) = a" if "a \<in> set used" for a using assms that by (auto dest: entry_at_addr)
  have "List.map_filter (entry_at tab) used = ?xs"
    using assms by (auto simp: List.map_filter_def filter_id_conv)
  then have eq: "sort_used tab used = map he_addr ?ys"
    unfolding sort_used_def using assms by (subst stable_sort_cong [of ?xs]) (auto simp: strrevcmp_less)
  have keys: "map (\<lambda>a. rkey (he_string (E a))) (map he_addr ?ys) = map (\<lambda>A. rkey (he_string A)) ?ys"
    using addr by auto
  have "map he_addr ?xs = used" using addr by (simp add: map_idI)
  then show "mset (sort_used tab used) = mset used" unfolding eq by (metis mset_map mset_stable_sort)
  show "sorted (map (\<lambda>a. rkey (he_string (E a))) (sort_used tab used))"
    unfolding eq keys by (rule by_rkey.sorted_keys)
qed

section \<open>Merging\<close>

text \<open>An entry after the merge is kept whole, or it shares the bytes of an entry that is kept whole.\<close>

definition whole :: "elf_strtab_hash_entry \<Rightarrow> bool" where
  "whole x \<longleftrightarrow> es_len x = int (length (he_string x)) + 1"

definition shares :: "elf_strtab_hash \<Rightarrow> nat set \<Rightarrow> elf_strtab_hash_entry \<Rightarrow> bool" where
  "shares t B x \<longleftrightarrow> es_len x = - (int (length (he_string x)) + 1) \<and>
     (\<exists>b \<in> B. \<exists>y. es_u x = Suffix b \<and> entry_at t b = Some y \<and> whole y \<and> suffix (he_string x) (he_string y))"

text \<open>What the loop does to the entry at \<open>a\<close>, one of \<open>A\<close>; \<open>S\<close> are the strings.  One that is kept is not the end of any string of
  \<open>A\<close> or of one from \<open>p\<close> on.\<close>

definition settled ::
    "(nat \<Rightarrow> string) \<Rightarrow> nat set \<Rightarrow> nat \<Rightarrow> string \<Rightarrow> elf_strtab_hash \<Rightarrow> elf_strtab_hash \<Rightarrow> nat \<Rightarrow> bool" where
  "settled S A e p tab t a \<longleftrightarrow>
     (\<exists>x y. entry_at tab a = Some x \<and> entry_at t a = Some y \<and> es_refcount y = es_refcount x \<and>
       (shares t (insert e A) y \<or>
        whole y \<and> (\<forall>q. (q \<in> S ` A \<or> rkey p \<le> rkey q) \<and> rkey (S a) < rkey q \<longrightarrow> \<not> suffix (S a) q)))"

lemma settled_step:
  assumes "settled S A e' (S a) tab1 t b" "e' \<in> {e, a}" "entry_at tab1 b = entry_at tab b" "rkey (S a) < rkey p"
  shows "settled S (insert a A) e p tab t b"
proof -
  have "shares t (insert e (insert a A)) y" if "shares t (insert e' A) y" for y
    using that assms(2) unfolding shares_def by blast
  moreover have "q \<in> S ` A \<or> rkey (S a) \<le> rkey q" if "q \<in> S ` insert a A \<or> rkey p \<le> rkey q" for q
    using that assms(4) by auto
  ultimately show ?thesis
    using assms(1,3) unfolding settled_def by metis
qed

lemma merge_loop_ok:
  assumes "hash_ok (st_table tab)" "distinct (e # as)" "entry_at tab e = Some E" "he_string E = S e" "whole E"
    and "\<forall>a \<in> set as. \<exists>x. entry_at tab a = Some x \<and> he_string x = S a \<and> es_len x = int (length (S a))"
    and "sorted_wrt (\<lambda>a b. rkey (S b) < rkey (S a)) as" "\<forall>a \<in> set as. rkey (S a) < rkey p" "suffix p (S e)"
  shows "\<exists>t. merge_loop e as tab = Done t \<and> framed tab t \<and> (\<forall>a. a \<notin> set as \<longrightarrow> entry_at t a = entry_at tab a) \<and>
    (\<forall>a \<in> set as. settled S (set as) e p tab t a)"
  using assms
proof (induction as arbitrary: tab e E p)
  case Nil
  then show ?case by (simp add: framed_refl)
next
  case (Cons a as)
  from Cons.prems(6) obtain x where x: "entry_at tab a = Some x" "he_string x = S a" "es_len x = int (length (S a))" by auto
  let ?cmp = "x\<lparr>es_len := es_len x + 1\<rparr>"
  define z where "z = (if strict_suffix (S a) (S e) then ?cmp\<lparr>es_u := Suffix e, es_len := - es_len ?cmp\<rparr> else ?cmp)"
  define e' where "e' = (if strict_suffix (S a) (S e) then e else a)"
  have suf: "is_suffix E ?cmp \<longleftrightarrow> strict_suffix (S a) (S e)"
    using is_suffix_iff [of E ?cmp] Cons.prems(4,5) x by (simp add: whole_def)
  have loop: "merge_loop e (a # as) tab = merge_loop e' as (put_entry z tab)"
    using Cons.prems(3) x(1) suf by (simp add: deref_def Let_def z_def e'_def)
  have ne: "a \<noteq> e" "a \<notin> set as" "e \<notin> set as" "distinct (e' # as)" using Cons.prems(2) by (auto simp: e'_def)
  have less: "rkey (S a) < rkey p" "\<forall>b \<in> set as. rkey (S b) < rkey (S a)" "rkey p \<le> rkey (S e)"
    using Cons.prems(7-9) suffix_le by auto
  have z: "same_object z x" "he_string z = S a" "es_refcount z = es_refcount x" by (simp_all add: z_def x)
  have t1: "hash_ok (st_table (put_entry z tab))" "entry_at (put_entry z tab) = (entry_at tab)(a \<mapsto> z)" "framed tab (put_entry z tab)"
    using put_entry_ok [OF Cons.prems(1) x(1) z(1)] framed_put [OF framed_refl [OF Cons.prems(1)] x(1) z(1)] by auto
  have "\<exists>E'. entry_at (put_entry z tab) e' = Some E' \<and> he_string E' = S e' \<and> whole E' \<and> suffix (S a) (S e')"
    using Cons.prems(3-5) x ne z t1(2) by (auto simp: e'_def z_def whole_def strict_suffix_def)
  then obtain E' where E': "entry_at (put_entry z tab) e' = Some E'" "he_string E' = S e'" "whole E'" "suffix (S a) (S e')" by blast
  have as1: "\<forall>b \<in> set as. \<exists>y. entry_at (put_entry z tab) b = Some y \<and> he_string y = S b \<and> es_len y = int (length (S b))"
    using Cons.prems(6) ne t1(2) by auto
  obtain t where t: "merge_loop e' as (put_entry z tab) = Done t" "framed (put_entry z tab) t"
      "\<forall>b. b \<notin> set as \<longrightarrow> entry_at t b = entry_at (put_entry z tab) b"
      "\<forall>b \<in> set as. settled S (set as) e' (S a) (put_entry z tab) t b"
    using Cons.IH [OF t1(1) ne(4) E'(1-3) as1 _ less(2) E'(4)] Cons.prems(7) by auto
  have here: "entry_at t a = Some z" "entry_at t e = Some E" using t(3) t1(2) ne Cons.prems(3) by auto
  have "settled S (set (a # as)) e p tab t a"
  proof (cases "strict_suffix (S a) (S e)")
    case True
    then have "shares t (insert e (set (a # as))) z"
      using here(2) Cons.prems(4,5) x by (auto simp: shares_def z_def strict_suffix_def)
    then show ?thesis using x(1) here z(3) by (simp add: settled_def)
  next
    case False
    have "\<not> suffix (S a) q" if q: "q \<in> S ` set (a # as) \<or> rkey p \<le> rkey q" "rkey (S a) < rkey q" for q
    proof
      assume s: "suffix (S a) q"
      have "rkey p \<le> rkey q" using q less(2) by (auto dest: less_asym)
      then have "suffix (S a) p" using suffix_between [OF s] less(1) by simp
      then have "suffix (S a) (S e)" using Cons.prems(9) by (rule suffix_order.trans)
      moreover have "S a \<noteq> S e" using less by auto
      ultimately show False using False by (simp add: strict_suffix_def)
    qed
    then show ?thesis using x here z(3) False by (auto simp: settled_def whole_def z_def)
  qed
  moreover have "settled S (set (a # as)) e p tab t b" if "b \<in> set as" for b
  proof -
    have "b \<noteq> a" "e' \<in> {e, a}" using that ne(2) by (auto simp: e'_def)
    then show ?thesis using settled_step [OF bspec [OF t(4) that], of e tab p] t1(2) less(1) by simp
  qed
  moreover have "framed tab t" using framed_trans [OF t1(3) t(2)] .
  ultimately show ?case using loop t(1,3) t1(2) by auto
qed

lemma entry_strings_inj:
  assumes "hash_ok (st_table tab)" "entry_at tab a = Some x" "entry_at tab b = Some y" "he_string x = he_string y"
  shows "a = b"
proof -
  have "x \<in> set (ht_entries (st_table tab))" "y \<in> set (ht_entries (st_table tab))" "he_addr x = a" "he_addr y = b"
    using assms entry_at_Some by blast+
  then show ?thesis using assms(1,4) by (auto simp: hash_ok_def distinct_map inj_on_def)
qed

lemma merge_suffixes_ok:
  assumes ok: "hash_ok (st_table tab)" and used: "distinct used"
    and E: "\<forall>a \<in> set used. entry_at tab a = Some (E a) \<and> es_len (E a) = int (length (he_string (E a)))"
  shows "\<exists>t. merge_suffixes used tab = Done t \<and> framed tab t \<and> (\<forall>a. a \<notin> set used \<longrightarrow> entry_at t a = entry_at tab a) \<and>
    (\<forall>a \<in> set used. \<exists>y. entry_at t a = Some y \<and> es_refcount y = es_refcount (E a) \<and>
       (shares t (set used) y \<or>
        whole y \<and> (\<forall>b \<in> set used. b \<noteq> a \<longrightarrow> \<not> suffix (he_string (E a)) (he_string (E b)))))"
proof -
  let ?S = "\<lambda>a. he_string (E a)"
  let ?L = "rev (sort_used tab used)"
  have L: "mset ?L = mset used" using sort_used_sorted(1) [OF E] by simp
  then have set: "set ?L = set used" "distinct ?L" using used by (metis set_mset_mset, metis mset_eq_imp_distinct_iff)
  have inj: "a = b" if "a \<in> set used" "b \<in> set used" "?S a = ?S b" for a b
    using entry_strings_inj [OF ok] E that by metis
  have "distinct (map (\<lambda>a. rkey (?S a)) (sort_used tab used))"
    using set inj by (auto simp: distinct_map inj_on_def)
  then have "sorted_wrt (<) (map (\<lambda>a. rkey (?S a)) (sort_used tab used))"
    using sort_used_sorted(2) [OF E] by (simp add: strict_sorted_iff)
  then have sorted: "sorted_wrt (\<lambda>a b. rkey (?S b) < rkey (?S a)) ?L" by (simp add: sorted_wrt_rev sorted_wrt_map)
  show ?thesis
  proof (cases ?L)
    case Nil
    then have "used = []" using set(1) by simp
    then show ?thesis using Nil ok by (simp add: merge_suffixes_def framed_refl)
  next
    case (Cons e as)
    let ?E = "(E e)\<lparr>es_len := es_len (E e) + 1\<rparr>"
    have e: "e \<in> set used" "entry_at tab e = Some (E e)" and as: "set as \<subseteq> set used" "e \<notin> set as" "set used = insert e (set as)"
      using Cons set E by auto
    have z: "same_object ?E (E e)" by simp
    note put = put_entry_ok [OF ok e(2) z] framed_put [OF framed_refl [OF ok] e(2) z]
    have pre: "distinct (e # as)" "entry_at (put_entry ?E tab) e = Some ?E" "he_string ?E = ?S e" "whole ?E"
        "\<forall>a \<in> set as. \<exists>x. entry_at (put_entry ?E tab) a = Some x \<and> he_string x = ?S a \<and> es_len x = int (length (?S a))"
        "sorted_wrt (\<lambda>a b. rkey (?S b) < rkey (?S a)) as" "\<forall>a \<in> set as. rkey (?S a) < rkey (?S e)" "suffix (?S e) (?S e)"
      using put(2) e E as sorted Cons set(2) by (auto simp: whole_def)
    obtain t where t: "merge_loop e as (put_entry ?E tab) = Done t" "framed (put_entry ?E tab) t"
        "\<forall>a. a \<notin> set as \<longrightarrow> entry_at t a = entry_at (put_entry ?E tab) a"
        "\<forall>a \<in> set as. settled ?S (set as) e (?S e) (put_entry ?E tab) t a"
      using merge_loop_ok [OF put(1) pre] by blast
    have at_e: "entry_at t e = Some ?E" using t(3) as(2) put(2) by simp
    have kept: "\<exists>y. entry_at t a = Some y \<and> es_refcount y = es_refcount (E a) \<and>
       (shares t (set used) y \<or> whole y \<and> (\<forall>b \<in> set used. b \<noteq> a \<longrightarrow> \<not> suffix (?S a) (?S b)))" if a: "a \<in> set used" for a
    proof (cases "a = e")
      case True
      have "\<not> suffix (?S e) (?S b)" if "b \<in> set as" for b
        using suffix_le [of "?S e" "?S b"] sorted Cons that by (auto dest: leD)
      then show ?thesis using True at_e E e as(3) by (auto simp: whole_def)
    next
      case False
      then have mem: "a \<in> set as" using a as(3) by simp
      from bspec [OF t(4) mem] obtain y where y: "entry_at t a = Some y" "es_refcount y = es_refcount (E a)"
          "shares t (set used) y \<or>
           whole y \<and> (\<forall>q. (q \<in> ?S ` set as \<or> rkey (?S e) \<le> rkey q) \<and> rkey (?S a) < rkey q \<longrightarrow> \<not> suffix (?S a) q)"
        using put(2) False E a as(3) by (auto simp: settled_def)
      moreover have "rkey (?S a) < rkey (?S b) \<and> (?S b \<in> ?S ` set as \<or> rkey (?S e) \<le> rkey (?S b))"
        if "b \<in> set used" "b \<noteq> a" "suffix (?S a) (?S b)" for b
        using suffix_le [OF that(3)] inj [OF a that(1)] that as(3) by (auto simp: less_le)
      ultimately show ?thesis by blast
    qed
    have "framed tab t" using framed_trans [OF put(4) t(2)] .
    moreover have "\<forall>a. a \<notin> set used \<longrightarrow> entry_at t a = entry_at tab a" using t(3) put(2) as(3) e(1) by auto
    moreover have "merge_suffixes used tab = Done t" using Cons e(2) t(1) by (simp add: merge_suffixes_def deref_def)
    ultimately show ?thesis using kept by blast
  qed
qed
end
