(* ===== verification/Bfd_Strtab_Offsets.thy ===== *)
theory Bfd_Strtab_Offsets
  imports Bfd_Strtab
begin

text \<open>
  What \<open>_bfd_elf_strtab_finalize\<close> leaves behind: the loops over the array, the bytes of the section, the
  offsets of the strings in it, and that \<open>_bfd_elf_strtab_emit\<close> writes these bytes.
\<close>


section \<open>The array\<close>

text \<open>The array holds the addresses \<open>as\<close>, from index \<open>1\<close> on.\<close>

definition arrayed :: "elf_strtab_hash \<Rightarrow> nat list \<Rightarrow> bool" where
  "arrayed tab as \<longleftrightarrow>
     hash_ok (st_table tab) \<and> unat (st_size tab) = Suc (length as) \<and> distinct as \<and>
     (\<forall>k < length as. array_at tab (Suc k) = Done (as ! k)) \<and> (\<forall>a \<in> set as. entry_at tab a \<noteq> None)"

lemma framed_arrayed:
  assumes "framed tab t" "arrayed tab as"
  shows "arrayed t as"
proof -
  have "entry_at t a \<noteq> None" if "entry_at tab a \<noteq> None" for a
  proof -
    have "rel_option same_object (entry_at t a) (entry_at tab a)" using assms(1) by (simp add: framed_def)
    then show ?thesis using that by (cases "entry_at t a") auto
  qed
  then show ?thesis
    using assms array_at_framed [OF assms(1)] by (simp add: arrayed_def framed_def)
qed

lemma arrayed_loop:
  assumes tab: "arrayed tab as" and E: "\<forall>a \<in> set as. entry_at tab a = Some (E a)" and S: "S 0 = s"
    and f: "\<And>k t. k < length as \<Longrightarrow> (\<forall>j < length as. entry_at t (as ! j) = Some (midway N (\<lambda>j. E (as ! j)) k j)) \<Longrightarrow>
        f t (E (as ! k)) (S k) = Done (N k, S (Suc k))"
    and same: "\<And>k. k < length as \<Longrightarrow> same_object (N k) (E (as ! k))"
  shows "\<exists>t. for_loop f (array_indices tab) s tab = Done (S (length as), t) \<and> framed tab t \<and>
    (\<forall>k < length as. entry_at t (as ! k) = Some (N k)) \<and> (\<forall>a. a \<notin> set as \<longrightarrow> entry_at t a = entry_at tab a)"
proof -
  have idx: "\<forall>k < length as. array_at tab (array_indices tab ! k) = Done (as ! k)" "length (array_indices tab) = length as"
    using tab by (simp_all add: arrayed_def del: upt_Suc)
  have "hash_ok (st_table tab)" "distinct as" using tab by (simp_all add: arrayed_def)
  from for_loop_entries [OF this(1) idx this(2) E S f same] show ?thesis .
qed

text \<open>A loop whose body looks at nothing but the entry.\<close>

lemma arrayed_map:
  assumes tab: "arrayed tab as" and E: "\<forall>a \<in> set as. entry_at tab a = Some (E a)"
    and f: "\<And>t a s. a \<in> set as \<Longrightarrow> f t (E a) s = Done (N a, F a s)" and same: "\<And>a. a \<in> set as \<Longrightarrow> same_object (N a) (E a)"
  shows "\<exists>t. for_loop f (array_indices tab) s tab = Done (fold F as s, t) \<and> framed tab t \<and>
    (\<forall>a \<in> set as. entry_at t a = Some (N a)) \<and> (\<forall>a. a \<notin> set as \<longrightarrow> entry_at t a = entry_at tab a)"
proof -
  let ?S = "\<lambda>k. fold F (take k as) s"
  have "\<exists>t. for_loop f (array_indices tab) s tab = Done (?S (length as), t) \<and> framed tab t \<and>
    (\<forall>k < length as. entry_at t (as ! k) = Some (N (as ! k))) \<and> (\<forall>a. a \<notin> set as \<longrightarrow> entry_at t a = entry_at tab a)"
  proof (rule arrayed_loop [OF tab E])
    show "f t (E (as ! k)) (?S k) = Done (N (as ! k), ?S (Suc k))" if "k < length as" for k t
      using f [OF nth_mem [OF that]] that by (simp add: take_Suc_conv_app_nth)
  qed (use same in auto)
  then show ?thesis by (auto simp: all_set_conv_all_nth)
qed

text \<open>The entries an entry stands for.\<close>

abbreviation live :: "elf_strtab_hash_entry \<Rightarrow> bool" where
  "live e \<equiv> es_refcount e \<noteq> 0"

lemma fold_filter: "fold (\<lambda>a s. if P a then s @ [a] else s) as s = s @ filter P as"
  by (induction as arbitrary: s) auto

lemma gather_ok:
  assumes tab: "arrayed tab as" and E: "\<forall>a \<in> set as. entry_at tab a = Some (E a)" and whole: "\<forall>a \<in> set as. live (E a) \<longrightarrow> whole (E a)"
  shows "\<exists>t. for_loop gather (array_indices tab) [] tab = Done (filter (\<lambda>a. live (E a)) as, t) \<and> framed tab t \<and>
    (\<forall>a \<in> set as. entry_at t a = Some ((E a)\<lparr>es_len := if live (E a) then int (length (he_string (E a))) else 0\<rparr>))"
proof -
  let ?N = "\<lambda>a. (E a)\<lparr>es_len := if live (E a) then int (length (he_string (E a))) else 0\<rparr>"
  let ?F = "\<lambda>a s. if live (E a) then s @ [a] else s"
  have addr: "he_addr (E a) = a" if "a \<in> set as" for a using E that by (auto dest: entry_at_addr)
  have "gather t (E a) s = Done (?N a, ?F a s)" if "a \<in> set as" for t a s
    using whole that addr by (auto simp: gather_def whole_def)
  from arrayed_map [where f = gather and N = ?N and F = ?F, OF tab E this, of "[]"] show ?thesis
    by (auto simp: fold_filter)
qed

section \<open>The image\<close>

text \<open>The bytes an entry contributes, the bytes of the whole section, and where the contribution of the \<open>k\<close>th entry starts.\<close>

definition bytes_of :: "elf_strtab_hash_entry \<Rightarrow> string" where
  "bytes_of e = (if 0 < es_len e then he_string e @ [nul] else [])"

definition image_of :: "elf_strtab_hash_entry list \<Rightarrow> string" where
  "image_of es = nul # concat (map bytes_of es)"

definition start_of :: "elf_strtab_hash_entry list \<Rightarrow> nat \<Rightarrow> nat" where
  "start_of es k = Suc (length (concat (map bytes_of (take k es))))"

lemma start_of_Suc: "k < length es \<Longrightarrow> start_of es (Suc k) = start_of es k + length (bytes_of (es ! k))"
  by (simp add: start_of_def take_Suc_conv_app_nth)

lemma start_of_length: "start_of es (length es) = length (image_of es)"
  by (simp add: start_of_def image_of_def)

lemma drop_start:
  assumes "k < length es"
  shows "\<exists>rest. drop (start_of es k) (image_of es) = bytes_of (es ! k) @ rest"
proof -
  have "es = take k es @ es ! k # drop (Suc k) es" using assms by (rule id_take_nth_drop)
  then have "concat (map bytes_of es) = concat (map bytes_of (take k es)) @ bytes_of (es ! k) @ concat (map bytes_of (drop (Suc k) es))"
    by (metis concat.simps(2) concat_append list.simps(9) map_append)
  then show ?thesis by (simp add: start_of_def image_of_def)
qed

section \<open>Offsets\<close>

text \<open>The entries \<open>E a\<close> after merging: kept whole, the end of one that is kept, or dropped.\<close>

definition merged :: "nat list \<Rightarrow> (nat \<Rightarrow> elf_strtab_hash_entry) \<Rightarrow> bool" where
  "merged as E \<longleftrightarrow> (\<forall>a \<in> set as.
     if live (E a)
     then whole (E a) \<or>
       es_len (E a) = - (int (length (he_string (E a))) + 1) \<and>
       (\<exists>b \<in> set as. es_u (E a) = Suffix b \<and> live (E b) \<and> whole (E b) \<and> suffix (he_string (E a)) (he_string (E b)))
     else es_len (E a) = 0)"

lemma merged_bytes:
  assumes "merged as E" "a \<in> set as"
  shows "0 < es_len (E a) \<Longrightarrow> live (E a) \<and> whole (E a) \<and> bytes_of (E a) = he_string (E a) @ [nul]"
    "\<not> 0 < es_len (E a) \<Longrightarrow> bytes_of (E a) = []"
    "live (E a) \<Longrightarrow> whole (E a) \<Longrightarrow> 0 < es_len (E a)"
  using bspec [OF assms(1) [unfolded merged_def] assms(2)] by (auto simp: whole_def bytes_of_def split: if_splits)

abbreviation placed :: "elf_strtab_hash_entry list \<Rightarrow> nat \<Rightarrow> elf_strtab_hash_entry" where
  "placed es k \<equiv> if 0 < es_len (es ! k) then (es ! k)\<lparr>es_u := Index (of_nat (start_of es k))\<rparr> else es ! k"

lemma place_ok:
  assumes tab: "arrayed tab as" and E: "\<forall>a \<in> set as. entry_at tab a = Some (E a)" and m: "merged as E"
  shows "\<exists>t. for_loop place (array_indices tab) 1 tab = Done (of_nat (length (image_of (map E as))), t) \<and> framed tab t \<and>
    (\<forall>k < length as. entry_at t (as ! k) = Some (placed (map E as) k))"
proof -
  let ?es = "map E as"
  have "place t (E (as ! k)) (of_nat (start_of ?es k)) = Done (placed ?es k, of_nat (start_of ?es (Suc k)))" if k: "k < length as" for k t
  proof (cases "0 < es_len (E (as ! k))")
    case True
    note b = merged_bytes(1) [OF m nth_mem [OF k] True]
    have "es_len (E (as ! k)) = int (length (bytes_of (E (as ! k))))" using b by (simp add: whole_def)
    then show ?thesis using True b k by (simp add: place_def start_of_Suc)
  next
    case False
    then show ?thesis using merged_bytes(2) [OF m nth_mem [OF k]] k by (simp add: place_def start_of_Suc)
  qed
  then have "\<exists>t. for_loop place (array_indices tab) 1 tab = Done (of_nat (start_of ?es (length as)), t) \<and> framed tab t \<and>
    (\<forall>k < length as. entry_at t (as ! k) = Some (placed ?es k)) \<and> (\<forall>a. a \<notin> set as \<longrightarrow> entry_at t a = entry_at tab a)"
    by (intro arrayed_loop [where N = "placed ?es" and S = "\<lambda>k. of_nat (start_of ?es k)", OF tab E]) (simp_all add: start_of_def)
  then show ?thesis using start_of_length [of ?es] by auto
qed

text \<open>What the second loop makes of the entries.\<close>

definition adjusted :: "nat list \<Rightarrow> (nat \<Rightarrow> elf_strtab_hash_entry) \<Rightarrow> nat \<Rightarrow> elf_strtab_hash_entry \<Rightarrow> bool" where
  "adjusted as E k y \<longleftrightarrow>
     (let x = E (as ! k); es = map E as in
      same_object y x \<and> es_refcount y = es_refcount x \<and> es_len y = es_len x \<and>
      (live x \<longrightarrow> (\<exists>j < length as. 0 < es_len (E (as ! j)) \<and> suffix (he_string x) (he_string (E (as ! j))) \<and>
         es_u y = Index (of_nat (start_of es j + (length (he_string (E (as ! j))) - length (he_string x)))))))"

lemma adjust_step:
  assumes E: "\<forall>j < length as. \<forall>t. T t \<longrightarrow> 0 < es_len (E (as ! j)) \<longrightarrow> entry_at t (as ! j) = Some (placed (map E as) j)"
    and m: "merged as E" and k: "k < length as"
  shows "\<exists>y. (\<forall>t. T t \<longrightarrow> adjust t (placed (map E as) k) u = Done (y, ())) \<and> adjusted as E k y \<and> (0 < es_len (E (as ! k)) \<longrightarrow> y = placed (map E as) k)"
proof (cases "live (E (as ! k)) \<and> es_len (E (as ! k)) < 0")
  case False
  have "0 < es_len (E (as ! k))" if "live (E (as ! k))"
    using bspec [OF m [unfolded merged_def] nth_mem [OF k]] False that by (auto simp: whole_def)
  then have "adjusted as E k (placed (map E as) k)" using k by (auto simp: adjusted_def Let_def)
  then show ?thesis using False k by (intro exI [of _ "placed (map E as) k"]) (auto simp: adjust_def)
next
  case True
  let ?x = "E (as ! k)"
  obtain b where b: "b \<in> set as" "es_u ?x = Suffix b" "live (E b)" "whole (E b)" "suffix (he_string ?x) (he_string (E b))"
      "es_len ?x = - (int (length (he_string ?x)) + 1)"
    using bspec [OF m [unfolded merged_def] nth_mem [OF k]] True by (auto simp: whole_def)
  obtain j where j: "j < length as" "b = as ! j" using b(1) by (auto simp: in_set_conv_nth)
  have pos: "0 < es_len (E (as ! j))" using merged_bytes(3) [OF m b(1,3,4)] j by simp
  have le: "length (he_string ?x) \<le> length (he_string (E b))" using b(5) by (rule suffix_length_le)
  let ?y = "?x\<lparr>es_u := Index (of_nat (start_of (map E as) j + (length (he_string (E b)) - length (he_string ?x))))\<rparr>"
  have len: "(of_int (es_len (E b) + es_len ?x) :: u64) = of_nat (length (he_string (E b)) - length (he_string ?x))"
    using b(4,6) le by (simp add: whole_def of_nat_diff)
  have "adjust t (placed (map E as) k) u = Done (?y, ())" if "T t" for t
  proof -
    have "deref t b = Done (placed (map E as) j)" using E that pos j by (simp add: deref_def)
    then show ?thesis using True b(2) j pos k len by (simp add: adjust_def read_index_def)
  qed
  moreover have "adjusted as E k ?y" using j pos b(5) k by (auto simp: adjusted_def Let_def)
  ultimately show ?thesis using True by (intro exI [of _ ?y]) auto
qed

lemma adjust_ok:
  assumes tab: "arrayed tab as" and E: "\<forall>k < length as. entry_at tab (as ! k) = Some (placed (map E as) k)" and m: "merged as E"
  shows "\<exists>t. for_loop adjust (array_indices tab) () tab = Done ((), t) \<and> framed tab t \<and>
    (\<forall>k < length as. \<exists>y. entry_at t (as ! k) = Some y \<and> adjusted as E k y)"
proof -
  let ?P = "placed (map E as)"
  let ?T = "\<lambda>t. \<forall>j < length as. 0 < es_len (E (as ! j)) \<longrightarrow> entry_at t (as ! j) = Some (?P j)"
  define Q where "Q k y \<longleftrightarrow> (\<forall>t. ?T t \<longrightarrow> adjust t (?P k) () = Done (y, ())) \<and> adjusted as E k y \<and>
    (0 < es_len (E (as ! k)) \<longrightarrow> y = ?P k)" for k y
  have "\<forall>k. k < length as \<longrightarrow> (\<exists>y. Q k y)" unfolding Q_def using adjust_step [of as ?T E _ "()", OF _ m] by blast
  then obtain N where "\<forall>k. k < length as \<longrightarrow> Q k (N k)" by metis
  then have N: "\<forall>t. ?T t \<longrightarrow> adjust t (?P k) () = Done (N k, ())" "adjusted as E k (N k)" "0 < es_len (E (as ! k)) \<longrightarrow> N k = ?P k"
    if "k < length as" for k using that unfolding Q_def by blast+
  let ?E = "\<lambda>a. the (entry_at tab a)"
  have at: "?E (as ! k) = ?P k" if "k < length as" for k using E that by simp
  have "\<exists>t. for_loop adjust (array_indices tab) () tab = Done (((), t)) \<and> framed tab t \<and>
    (\<forall>k < length as. entry_at t (as ! k) = Some (N k)) \<and> (\<forall>a. a \<notin> set as \<longrightarrow> entry_at t a = entry_at tab a)"
  proof (rule arrayed_loop [where E = ?E and S = "\<lambda>_. ()", OF tab])
    show "\<forall>a \<in> set as. entry_at tab a = Some (?E a)" using tab by (auto simp: arrayed_def)
    show "adjust t (?E (as ! k)) () = Done (N k, ())"
      if k: "k < length as" and t: "\<forall>j < length as. entry_at t (as ! j) = Some (midway N (\<lambda>j. ?E (as ! j)) k j)" for k t
    proof -
      have "?T t" using t N at by (simp add: midway_def)
      then show ?thesis using N [OF k] at [OF k] by simp
    qed
    show "same_object (N k) (?E (as ! k))" if "k < length as" for k
    proof -
      have "same_object (N k) (E (as ! k))" using N [OF that] by (simp add: adjusted_def Let_def)
      then show ?thesis using at [OF that] that by simp
    qed
  qed simp
  then show ?thesis using N by blast
qed


lemma st_update_entry [simp]:
  "entry_at (tab\<lparr>st_heap := h\<rparr>) a = entry_at tab a" "entry_at (tab\<lparr>st_sec_size := n\<rparr>) a = entry_at tab a"
  "array_at (tab\<lparr>st_heap := h\<rparr>) i = array_at tab i" "array_at (tab\<lparr>st_sec_size := n\<rparr>) i = array_at tab i"
  by (simp_all add: entry_at_def array_at_def)

lemma st_update_arrayed [simp]:
  "arrayed (tab\<lparr>st_heap := h\<rparr>) as = arrayed tab as" "arrayed (tab\<lparr>st_sec_size := n\<rparr>) as = arrayed tab as"
  by (simp_all add: arrayed_def)

text \<open>The state after \<open>_bfd_elf_strtab_finalize\<close>: \<open>es\<close> are the entries, in the order of their indices.\<close>

definition finalized :: "elf_strtab_hash \<Rightarrow> elf_strtab_hash_entry list \<Rightarrow> bool" where
  "finalized t es \<longleftrightarrow>
     arrayed t (map he_addr es) \<and> (\<forall>e \<in> set es. entry_at t (he_addr e) = Some e) \<and>
     st_sec_size t = of_nat (length (image_of es)) \<and>
     (\<forall>e \<in> set es. live e \<longrightarrow> (\<exists>off < length (image_of es). es_u e = Index (of_nat off) \<and>
        string_at (image_of es) off = Some (he_string e))) \<and>
     (\<forall>e \<in> set es. 0 < es_len e \<longrightarrow> whole e)"

text \<open>The strings that take space of their own are the referenced ones that are not the end of another referenced string.\<close>

definition irredundant :: "elf_strtab_hash_entry list \<Rightarrow> bool" where
  "irredundant es \<longleftrightarrow> (\<forall>e \<in> set es. 0 < es_len e \<longleftrightarrow>
     live e \<and> (\<forall>e' \<in> set es. live e' \<and> he_addr e' \<noteq> he_addr e \<longrightarrow> \<not> suffix (he_string e) (he_string e')))"

lemma merged_kept:
  assumes m: "merged as E" and a: "a \<in> set as" and len: "0 < es_len (E a) \<Longrightarrow>
      \<forall>b \<in> set as. live (E b) \<and> b \<noteq> a \<longrightarrow> \<not> suffix (he_string (E a)) (he_string (E b))"
  shows "0 < es_len (E a) \<longleftrightarrow> live (E a) \<and> (\<forall>b \<in> set as. live (E b) \<and> b \<noteq> a \<longrightarrow> \<not> suffix (he_string (E a)) (he_string (E b)))"
proof
  assume "0 < es_len (E a)"
  then show "live (E a) \<and> (\<forall>b \<in> set as. live (E b) \<and> b \<noteq> a \<longrightarrow> \<not> suffix (he_string (E a)) (he_string (E b)))"
    using merged_bytes(1) [OF m a] len by blast
next
  assume *: "live (E a) \<and> (\<forall>b \<in> set as. live (E b) \<and> b \<noteq> a \<longrightarrow> \<not> suffix (he_string (E a)) (he_string (E b)))"
  have "whole (E a)"
  proof (rule ccontr)
    assume "\<not> whole (E a)"
    then obtain b where "b \<in> set as" "live (E b)" "whole (E b)" "suffix (he_string (E a)) (he_string (E b))"
      using bspec [OF m [unfolded merged_def] a] * by auto
    then show False using * \<open>\<not> whole (E a)\<close> by blast
  qed
  then show "0 < es_len (E a)" using merged_bytes(3) [OF m a] * by blast
qed

lemma image_of_cong:
  assumes "length es = length fs" "\<And>k. k < length fs \<Longrightarrow> same_object (es ! k) (fs ! k) \<and> es_len (es ! k) = es_len (fs ! k)"
  shows "image_of es = image_of fs"
proof -
  have "map bytes_of es = map bytes_of fs"
    using assms by (intro nth_equalityI) (auto simp: bytes_of_def same_object_def)
  then show ?thesis by (simp add: image_of_def)
qed

lemma adjusted_string:
  assumes "adjusted as E k y" "merged as E" "k < length as" "live y" "\<forall>a \<in> set as. nul \<notin> set (he_string (E a))"
  shows "\<exists>off < length (image_of (map E as)). es_u y = Index (of_nat off) \<and> string_at (image_of (map E as)) off = Some (he_string y)"
proof -
  let ?x = "E (as ! k)" and ?es = "map E as"
  have y: "he_string y = he_string ?x" "live ?x" using assms(1,4) by (auto simp: adjusted_def Let_def same_object_def)
  obtain j where j: "j < length as" "0 < es_len (E (as ! j))" "suffix (he_string ?x) (he_string (E (as ! j)))"
      "es_u y = Index (of_nat (start_of ?es j + (length (he_string (E (as ! j))) - length (he_string ?x))))"
    using assms(1) y(2) by (auto simp: adjusted_def Let_def)
  let ?off = "start_of ?es j + (length (he_string (E (as ! j))) - length (he_string ?x))"
  have mem: "as ! j \<in> set as" using j(1) by simp
  obtain rest where "drop (start_of ?es j) (image_of ?es) = he_string (E (as ! j)) @ nul # rest"
    using drop_start [of j ?es] j(1) merged_bytes(1) [OF assms(2) mem j(2)] by auto
  from string_at_suffix [OF this j(3)] have "string_at (image_of ?es) ?off = Some (he_string y)"
    using assms(5) mem y(1) by simp
  moreover from this have "?off < length (image_of ?es)" by (rule string_at_less)
  ultimately show ?thesis using j(4) by blast
qed

lemma assign_offsets_ok:
  assumes tab: "arrayed tab as" and E: "\<forall>a \<in> set as. entry_at tab a = Some (E a)" and m: "merged as E"
    and nuls: "\<forall>a \<in> set as. nul \<notin> set (he_string (E a))"
  shows "\<exists>t es. assign_offsets tab = Done t \<and> finalized t es \<and> st_asserts t = st_asserts tab \<and> st_size t = st_size tab \<and>
    list_all2 (\<lambda>e a. same_object e (E a) \<and> es_refcount e = es_refcount (E a) \<and> es_len e = es_len (E a)) es as"
proof -
  let ?n = "of_nat (length (image_of (map E as))) :: u64"
  obtain t1 where t1: "for_loop place (array_indices tab) 1 tab = Done (?n, t1)" "framed tab t1"
      "\<forall>k < length as. entry_at t1 (as ! k) = Some (placed (map E as) k)"
    using place_ok [OF tab E m] by blast
  let ?t1 = "t1\<lparr>st_sec_size := ?n\<rparr>"
  have "arrayed ?t1 as" "\<forall>k < length as. entry_at ?t1 (as ! k) = Some (placed (map E as) k)"
    using framed_arrayed [OF t1(2) tab] t1(3) by simp_all
  note t1' = this
  obtain t where t: "for_loop adjust (array_indices ?t1) () ?t1 = Done ((), t)" "framed ?t1 t"
      "\<forall>k < length as. \<exists>y. entry_at t (as ! k) = Some y \<and> adjusted as E k y"
    using adjust_ok [OF t1' m] by blast
  have run: "assign_offsets tab = Done t" using t1(1) t(1) by (simp add: assign_offsets_def Let_def)
  define es where "es = map (\<lambda>a. the (entry_at t a)) as"
  have es: "entry_at t (as ! k) = Some (es ! k) \<and> adjusted as E k (es ! k)" if "k < length as" for k
    using t(3) that by (auto simp: es_def)
  have addr: "he_addr (es ! k) = as ! k" if "k < length as" for k using es [OF that] by (auto dest: entry_at_addr)
  then have addrs: "map he_addr es = as" by (intro nth_equalityI) (auto simp: es_def)
  have rel: "list_all2 (\<lambda>e a. same_object e (E a) \<and> es_refcount e = es_refcount (E a) \<and> es_len e = es_len (E a)) es as"
    using es by (auto simp: list_all2_conv_all_nth adjusted_def Let_def es_def)
  have img: "image_of es = image_of (map E as)"
    using rel by (intro image_of_cong) (auto simp: list_all2_conv_all_nth)
  have len: "length es = length as" by (simp add: es_def)
  have "live e \<and> whole e" if "e \<in> set es" "0 < es_len e" for e
  proof -
    obtain k where k: "k < length as" "e = es ! k" using \<open>e \<in> set es\<close> len by (auto simp: in_set_conv_nth)
    then have "0 < es_len (E (as ! k))" using rel that(2) by (auto simp: list_all2_conv_all_nth)
    from merged_bytes(1) [OF m nth_mem [OF k(1)] this] show ?thesis
      using rel k by (auto simp: list_all2_conv_all_nth whole_def same_object_def)
  qed
  moreover have "\<exists>off < length (image_of es). es_u e = Index (of_nat off) \<and> string_at (image_of es) off = Some (he_string e)"
    if "e \<in> set es" "live e" for e
    using that adjusted_string [OF conjunct2 [OF es] m _ _ nuls] len unfolding img by (auto simp: in_set_conv_nth)
  moreover have "entry_at t (he_addr e) = Some e" if "e \<in> set es" for e
    using that es addr len by (auto simp: in_set_conv_nth)
  moreover have "arrayed t as" "st_sec_size t = ?n" "st_asserts t = st_asserts tab" "st_size t = st_size tab"
    using framed_arrayed [OF t(2) t1'(1)] t(2) t1(2) by (simp_all add: framed_def)
  ultimately have "finalized t es" using addrs img by (simp add: finalized_def)
  then show ?thesis using run rel \<open>st_asserts t = _\<close> \<open>st_size t = _\<close> by blast
qed


text \<open>A table that is being filled, as the list \<open>xs\<close> of its strings and reference counts.  The entries that have no index, left behind by
  a restored table, count as fresh.\<close>

definition row :: "elf_strtab_hash \<Rightarrow> nat \<Rightarrow> nat \<Rightarrow> string \<times> u32 \<Rightarrow> bool" where
  "row tab k a x \<longleftrightarrow>
     (\<exists>e. entry_at tab a = Some e \<and> x = (he_string e, es_refcount e) \<and> whole e \<and> es_u e = Index (of_nat (Suc k)) \<and>
        nul \<notin> set (he_string e))"

abbreviation unused :: "elf_strtab_hash_entry \<Rightarrow> bool" where
  "unused e \<equiv> es_len e = 0 \<and> es_refcount e = 0"

definition strtab_at :: "elf_strtab_hash \<Rightarrow> nat list \<Rightarrow> (string \<times> u32) list \<Rightarrow> bool" where
  "strtab_at tab as xs \<longleftrightarrow>
     arrayed tab as \<and> length as = length xs \<and> (\<forall>k < length xs. row tab k (as ! k) (xs ! k)) \<and>
     (\<forall>a e. entry_at tab a = Some e \<and> a \<notin> set as \<longrightarrow> unused e) \<and>
     st_sec_size tab = 0 \<and> (\<exists>arr. st_array tab = Some arr \<and> length arr = unat (st_alloced tab)) \<and> st_size tab \<le> st_alloced tab"

definition strtab_rep :: "elf_strtab_hash \<Rightarrow> (string \<times> u32) list \<Rightarrow> bool" where
  "strtab_rep tab xs \<longleftrightarrow> (\<exists>as. strtab_at tab as xs)"

abbreviation heap_ready :: "elf_strtab_hash \<Rightarrow> bool" where
  "heap_ready tab \<equiv> oa_ok (st_heap tab) (oa_next (st_heap tab))"

text \<open>The size of the section when nothing is shared.\<close>

definition total_size :: "(string \<times> u32) list \<Rightarrow> nat" where
  "total_size xs = Suc (sum_list (map (\<lambda>(s, _). Suc (length s)) xs))"

lemma merge_merged:
  assumes ok: "hash_ok (st_table tab)" and as: "distinct as" and E: "\<forall>a \<in> set as. entry_at tab a = Some (E a)"
    and len: "\<forall>a \<in> set as. es_len (E a) = (if live (E a) then int (length (he_string (E a))) else 0)"
  shows "\<exists>t E'. merge_suffixes (filter (\<lambda>a. live (E a)) as) tab = Done t \<and> framed tab t \<and>
    (\<forall>a \<in> set as. entry_at t a = Some (E' a) \<and> same_object (E' a) (E a) \<and> es_refcount (E' a) = es_refcount (E a)) \<and> merged as E' \<and>
    (\<forall>a \<in> set as. \<forall>b \<in> set as. 0 < es_len (E' a) \<and> live (E' b) \<and> b \<noteq> a \<longrightarrow> \<not> suffix (he_string (E a)) (he_string (E b)))"
proof -
  let ?used = "filter (\<lambda>a. live (E a)) as"
  have used: "\<forall>a \<in> set ?used. entry_at tab a = Some (E a) \<and> es_len (E a) = int (length (he_string (E a)))"
    using E len by auto
  obtain t where t: "merge_suffixes ?used tab = Done t" "framed tab t" "\<forall>a. a \<notin> set ?used \<longrightarrow> entry_at t a = entry_at tab a"
      "\<forall>a \<in> set ?used. \<exists>y. entry_at t a = Some y \<and> es_refcount y = es_refcount (E a) \<and>
         (shares t (set ?used) y \<or> whole y \<and> (\<forall>b \<in> set ?used. b \<noteq> a \<longrightarrow> \<not> suffix (he_string (E a)) (he_string (E b))))"
    using merge_suffixes_ok [OF ok distinct_filter [OF as] used] by blast
  define E' where "E' a = the (entry_at t a)" for a
  have dead: "entry_at t a = Some (E a) \<and> E' a = E a" if "a \<in> set as" "\<not> live (E a)" for a
    using t(3) E that by (simp add: E'_def)
  have alive: "entry_at t a = Some (E' a) \<and> es_refcount (E' a) = es_refcount (E a) \<and>
      (shares t (set ?used) (E' a) \<or> whole (E' a) \<and> (\<forall>b \<in> set ?used. b \<noteq> a \<longrightarrow> \<not> suffix (he_string (E a)) (he_string (E b))))"
    if "a \<in> set as" "live (E a)" for a
    using bspec [OF t(4), of a] that by (auto simp: E'_def)
  have all: "entry_at t a = Some (E' a) \<and> same_object (E' a) (E a) \<and> es_refcount (E' a) = es_refcount (E a)" if "a \<in> set as" for a
  proof -
    have "entry_at t a = Some (E' a) \<and> es_refcount (E' a) = es_refcount (E a)" using alive dead that by (cases "live (E a)") auto
    then show ?thesis using framed_entry [OF t(2), of a] E that by (metis option.inject)
  qed
  have "merged as E'"
    unfolding merged_def
  proof
    fix a assume a: "a \<in> set as"
    show "if live (E' a) then whole (E' a) \<or> es_len (E' a) = - (int (length (he_string (E' a))) + 1) \<and>
       (\<exists>b \<in> set as. es_u (E' a) = Suffix b \<and> live (E' b) \<and> whole (E' b) \<and> suffix (he_string (E' a)) (he_string (E' b)))
     else es_len (E' a) = 0"
    proof (cases "live (E a)")
      case True
      then show ?thesis using alive [OF a True] all by (auto simp: shares_def)
    next
      case False
      then show ?thesis using dead [OF a False] len a by simp
    qed
  qed
  moreover have "\<not> suffix (he_string (E a)) (he_string (E b))"
    if "a \<in> set as" "b \<in> set as" "0 < es_len (E' a)" "live (E' b)" "b \<noteq> a" for a b
  proof -
    have "live (E a)" using dead len that(1,3) by fastforce
    moreover have "\<not> shares t (set ?used) (E' a)" using that(3) by (simp add: shares_def)
    ultimately show ?thesis using alive [OF that(1)] all [OF that(2)] that by auto
  qed
  ultimately show ?thesis using t(1,2) all by blast
qed


lemma image_size:
  assumes "list_all2 (\<lambda>e (s, _). he_string e = s) es xs"
  shows "length (image_of es) \<le> total_size xs"
proof -
  have "length (concat (map bytes_of es)) \<le> sum_list (map (\<lambda>(s, _). Suc (length s)) xs)"
    using assms by (induction rule: list_all2_induct) (auto simp: bytes_of_def)
  then show ?thesis by (simp add: image_of_def total_size_def)
qed

abbreviation strings_of :: "elf_strtab_hash_entry list \<Rightarrow> (string \<times> u32) list" where
  "strings_of es \<equiv> map (\<lambda>e. (he_string e, es_refcount e)) es"

lemma finalize_ok:
  assumes rep: "strtab_rep tab xs" and heap: "heap_ready tab"
  shows "\<exists>t es. elf_strtab_finalize tab = Done t \<and> finalized t es \<and> irredundant es \<and> strings_of es = xs \<and> st_asserts t = st_asserts tab"
proof -
  let ?tab = "tab\<lparr>st_heap := (st_heap tab)\<lparr>oa_next := Suc (oa_next (st_heap tab))\<rparr>\<rparr>"
  obtain as where as: "arrayed tab as" "length as = length xs" "\<forall>k < length xs. \<exists>e. entry_at tab (as ! k) = Some e \<and>
      xs ! k = (he_string e, es_refcount e) \<and> whole e \<and> nul \<notin> set (he_string e)"
    using rep unfolding strtab_rep_def strtab_at_def row_def by metis
  define E where "E a = the (entry_at tab a)" for a
  have E: "\<forall>a \<in> set as. entry_at tab a = Some (E a)" "\<forall>a \<in> set as. live (E a) \<longrightarrow> whole (E a)"
      "\<forall>a \<in> set as. nul \<notin> set (he_string (E a))" "xs = strings_of (map E as)"
    using as(2,3) by (auto simp: E_def all_set_conv_all_nth list_eq_iff_nth_eq)
  let ?E1 = "\<lambda>a. (E a)\<lparr>es_len := if live (E a) then int (length (he_string (E a))) else 0\<rparr>"
  obtain t1 where t1: "for_loop gather (array_indices ?tab) [] ?tab = Done (filter (\<lambda>a. live (?E1 a)) as, t1)" "framed ?tab t1"
      "\<forall>a \<in> set as. entry_at t1 a = Some (?E1 a)"
    using gather_ok [of ?tab as E] as(1) E by auto
  have ok1: "hash_ok (st_table t1)" "distinct as" "arrayed t1 as"
    using framed_arrayed [OF t1(2)] as(1) by (auto simp: arrayed_def)
  have "\<forall>a \<in> set as. es_len (?E1 a) = (if live (?E1 a) then int (length (he_string (?E1 a))) else 0)" by simp
  from merge_merged [OF ok1(1,2) t1(3) this] obtain t2 E2 where
    t2: "merge_suffixes (filter (\<lambda>a. live (?E1 a)) as) t1 = Done t2" "framed t1 t2" "merged as E2"
      "\<forall>a \<in> set as. entry_at t2 a = Some (E2 a)" "\<forall>a \<in> set as. same_object (E2 a) (E a) \<and> es_refcount (E2 a) = es_refcount (E a)"
      "\<forall>a \<in> set as. \<forall>b \<in> set as. 0 < es_len (E2 a) \<and> live (E2 b) \<and> b \<noteq> a \<longrightarrow> \<not> suffix (he_string (E a)) (he_string (E b))"
    by auto
  have "\<forall>a \<in> set as. nul \<notin> set (he_string (E2 a))" using t2(5) E(3) by (simp add: same_object_def)
  from assign_offsets_ok [OF framed_arrayed [OF t2(2) ok1(3)] t2(4,3) this] obtain t es where
    t: "assign_offsets t2 = Done t" "finalized t es" "st_asserts t = st_asserts t2"
      "list_all2 (\<lambda>e a. same_object e (E2 a) \<and> es_refcount e = es_refcount (E2 a) \<and> es_len e = es_len (E2 a)) es as"
    by blast
  have pt: "length es = length as" "\<And>k. k < length as \<Longrightarrow> he_string (es ! k) = he_string (E (as ! k)) \<and>
      es_refcount (es ! k) = es_refcount (E (as ! k)) \<and> es_len (es ! k) = es_len (E2 (as ! k)) \<and> live (E2 (as ! k)) = live (E (as ! k))"
    using t(4) t2(5) by (auto simp: list_all2_conv_all_nth same_object_def)
  have "strings_of es = xs" using pt unfolding E(4) by (intro nth_equalityI) auto
  moreover have "irredundant es"
  proof -
    have addr: "map he_addr es = as" using t(4) t2(4,5) entry_at_addr [OF bspec [OF t2(4)]]
      by (intro nth_equalityI) (auto simp: list_all2_conv_all_nth same_object_def)
    have "0 < es_len (E2 a) \<longleftrightarrow> live (E a) \<and> (\<forall>b \<in> set as. live (E b) \<and> b \<noteq> a \<longrightarrow> \<not> suffix (he_string (E a)) (he_string (E b)))"
      if "a \<in> set as" for a
      using merged_kept [OF t2(3) that] t2(5,6) that by (simp add: same_object_def)
    moreover have "he_addr (es ! k) = as ! k" if "k < length as" for k using addr pt(1) that by (metis nth_map)
    ultimately show ?thesis using pt by (simp add: irredundant_def all_set_conv_all_nth)
  qed
  moreover have "elf_strtab_finalize tab = Done t"
    using heap t1(1) t2(1) t(1) by (simp add: elf_strtab_finalize_def objalloc_alloc_cases)
  moreover have "st_asserts t = st_asserts tab" using t(3) t2(2) t1(2) by (simp add: framed_def)
  ultimately show ?thesis using t(2) by blast
qed

text \<open>A client resolves a sequence of references.\<close>

fun resolve :: "nat list \<Rightarrow> elf_strtab_hash \<Rightarrow> (u64 list \<times> elf_strtab_hash) cresult" where
  "resolve [] tab = Done ([], tab)"
| "resolve (k # ks) tab =
     cbind (elf_strtab_offset tab (of_nat (Suc k))) (\<lambda>(off, tab). cbind (resolve ks tab) (\<lambda>(offs, tab). Done (off # offs, tab)))"

lemma of_nat_index:
  assumes "arrayed t as" "k < length as"
  shows "unat (of_nat (Suc k) :: u64) = Suc k" "(of_nat (Suc k) :: u64) < st_size t" "(of_nat (Suc k) :: u64) \<noteq> 0"
proof -
  have "Suc k < unat (st_size t)" using assms by (simp add: arrayed_def)
  also have "\<dots> < 2 ^ 64" using unsigned_less [of "st_size t"] by simp
  finally show u: "unat (of_nat (Suc k) :: u64) = Suc k" by (simp add: unat_of_nat del: of_nat_Suc)
  show "(of_nat (Suc k) :: u64) < st_size t" using u assms by (simp add: word_less_nat_alt arrayed_def)
  show "(of_nat (Suc k) :: u64) \<noteq> 0" using u by (metis nat.distinct(1) unat_0)
qed


lemma arrayed_entry:
  assumes "arrayed t as" "k < length as"
  shows "entry_of t (unat (of_nat (Suc k) :: u64)) = deref t (as ! k)"
  unfolding of_nat_index [OF assms] using assms by (simp add: entry_of_def arrayed_def)

lemma BFD_ASSERT_True [simp]: "BFD_ASSERT True tab = tab"
  by (simp add: BFD_ASSERT_def)

lemma arrayed_put:
  assumes "arrayed t as" "entry_at t a = Some x" "same_object e x"
  shows "arrayed (put_entry e t) as" "entry_at (put_entry e t) = (entry_at t)(a \<mapsto> e)"
proof -
  have ok: "hash_ok (st_table t)" using assms(1) by (simp add: arrayed_def)
  show "arrayed (put_entry e t) as" by (rule framed_arrayed [OF framed_put [OF framed_refl [OF ok] assms(2,3)] assms(1)])
  show "entry_at (put_entry e t) = (entry_at t)(a \<mapsto> e)" by (rule put_entry_ok(2) [OF ok assms(2,3)])
qed

lemma finalizedD:
  assumes "finalized t es" "k < length es"
  shows "arrayed t (map he_addr es)" "entry_at t (he_addr (es ! k)) = Some (es ! k)"
    "j < length es \<Longrightarrow> he_addr (es ! j) = he_addr (es ! k) \<longleftrightarrow> j = k"
proof -
  show "arrayed t (map he_addr es)" "entry_at t (he_addr (es ! k)) = Some (es ! k)" using assms by (simp_all add: finalized_def)
  then have "distinct (map he_addr es)" by (simp add: arrayed_def)
  then show "he_addr (es ! j) = he_addr (es ! k) \<longleftrightarrow> j = k" if "j < length es"
    using nth_eq_iff_index_eq [of "map he_addr es" j k] assms(2) that by simp
qed

text \<open>Reading an offset uses up a reference.\<close>

lemma finalized_used:
  assumes fin: "finalized t es" and k: "k < length es" "live (es ! k)"
  defines "e \<equiv> (es ! k)\<lparr>es_refcount := es_refcount (es ! k) - 1\<rparr>"
  shows "finalized (put_entry e t) (es[k := e])" "image_of (es[k := e]) = image_of es"
proof -
  note f = finalizedD [OF fin k(1)]
  have e: "same_object e (es ! k)" "he_addr e = he_addr (es ! k)" by (simp_all add: e_def)
  note put = arrayed_put [OF f(1,2) e(1)]
  show img: "image_of (es[k := e]) = image_of es"
    using k(1) by (intro image_of_cong) (auto simp: nth_list_update e_def)
  have addr: "map he_addr (es[k := e]) = map he_addr es"
    using e(2) k(1) by (simp add: map_update list_update_same_conv)
  have mem: "x = e \<or> x \<in> set es" if "x \<in> set (es[k := e])" for x using set_update_subset_insert that by fastforce
  have at: "entry_at (put_entry e t) (he_addr x) = Some x" if "x \<in> set (es[k := e])" for x
  proof -
    obtain j where j: "j < length es" "x = es[k := e] ! j" using \<open>x \<in> _\<close> by (auto simp: in_set_conv_nth)
    then show ?thesis using put(2) f(3) [OF j(1)] e(2) finalizedD(2) [OF fin j(1)] by (cases "j = k") auto
  qed
  have "\<exists>off < length (image_of es). es_u x = Index (of_nat off) \<and> string_at (image_of es) off = Some (he_string x)"
    if "x \<in> set (es[k := e])" "live x" for x
  proof -
    have "\<exists>y \<in> set es. live y \<and> es_u y = es_u x \<and> he_string y = he_string x"
      using mem [OF that(1)] that(2) k by (auto simp: e_def)
    then show ?thesis using fin by (force simp: finalized_def)
  qed
  moreover have "whole x" if "x \<in> set (es[k := e])" "0 < es_len x" for x
  proof -
    have "\<exists>y \<in> set es. es_len y = es_len x \<and> he_string y = he_string x"
      using mem [OF that(1)] k by (auto simp: e_def)
    then show ?thesis using fin that(2) unfolding finalized_def whole_def by metis
  qed
  ultimately show "finalized (put_entry e t) (es[k := e])"
    using put(1) at fin unfolding finalized_def img addr by (simp add: finalized_def)
qed

lemma offset_ok:
  assumes fin: "finalized t es" and small: "length (image_of es) < 2 ^ 64" and k: "k < length es" "live (es ! k)"
  shows "\<exists>off t'. elf_strtab_offset t (of_nat (Suc k)) = Done (off, t') \<and>
    string_at (image_of es) (unat off) = Some (he_string (es ! k)) \<and>
    finalized t' (es[k := (es ! k)\<lparr>es_refcount := es_refcount (es ! k) - 1\<rparr>]) \<and> st_asserts t' = st_asserts t"
proof -
  let ?e = "(es ! k)\<lparr>es_refcount := es_refcount (es ! k) - 1\<rparr>"
  note f = finalizedD [OF fin k(1)]
  obtain off where off: "off < length (image_of es)" "es_u (es ! k) = Index (of_nat off)"
      "string_at (image_of es) off = Some (he_string (es ! k))"
    using fin k nth_mem [OF k(1)] by (auto simp: finalized_def)
  have "unat (st_sec_size t) = length (image_of es)" using fin small by (simp add: finalized_def unat_of_nat)
  then have "st_sec_size t \<noteq> 0" by (auto simp: image_of_def)
  moreover have u: "unat (of_nat off :: u64) = off" using off(1) small by (simp add: unat_of_nat)
  moreover have "entry_of t (unat (of_nat (Suc k) :: u64)) = Done (es ! k)"
    using arrayed_entry [OF f(1), of k] k(1) f(2) by (simp add: deref_def)
  ultimately have "elf_strtab_offset t (of_nat (Suc k)) = Done (of_nat off, put_entry ?e t)"
    using of_nat_index(2,3) [OF f(1), of k] k off(2)
    by (simp add: elf_strtab_offset_def Let_def read_index_def word_gt_0 del: of_nat_Suc)
  then show ?thesis using finalized_used(1) [OF fin k] off(3) u by simp
qed


lemma BFD_ASSERT_simps [simp]:
  "st_table (BFD_ASSERT c t) = st_table t" "st_size (BFD_ASSERT c t) = st_size t" "st_alloced (BFD_ASSERT c t) = st_alloced t"
  "st_sec_size (BFD_ASSERT c t) = st_sec_size t" "st_array (BFD_ASSERT c t) = st_array t" "st_heap (BFD_ASSERT c t) = st_heap t"
  by (simp_all add: BFD_ASSERT_def)

lemma BFD_ASSERT_entry [simp]:
  "entry_at (BFD_ASSERT c t) a = entry_at t a" "array_at (BFD_ASSERT c t) i = array_at t i"
  by (simp_all add: entry_at_def array_at_def)

lemma BFD_ASSERT_finalized [simp]:
  "arrayed (BFD_ASSERT c t) as = arrayed t as" "finalized (BFD_ASSERT c t) es = finalized t es"
  by (simp_all add: arrayed_def finalized_def)

lemma resolve_ok:
  assumes "finalized t es" "length (image_of es) < 2 ^ 64" "\<forall>k \<in> set ks. k < length es"
    "\<forall>k < length es. count_list ks k \<le> unat (es_refcount (es ! k))"
  shows "\<exists>offs t' es'. resolve ks t = Done (offs, t') \<and> finalized t' es' \<and> image_of es' = image_of es \<and> length es' = length es \<and>
    (\<forall>k < length es. unat (es_refcount (es' ! k)) = unat (es_refcount (es ! k)) - count_list ks k) \<and>
    list_all2 (\<lambda>k off. string_at (image_of es) (unat off) = Some (he_string (es ! k))) ks offs \<and> st_asserts t' = st_asserts t"
  using assms
proof (induction ks arbitrary: t es)
  case (Cons k ks)
  let ?e = "(es ! k)\<lparr>es_refcount := es_refcount (es ! k) - 1\<rparr>"
  let ?es = "es[k := ?e]"
  have k: "k < length es" "1 \<le> unat (es_refcount (es ! k))" using Cons.prems(3,4) by fastforce+
  then have live: "live (es ! k)" by auto
  have dec: "unat (es_refcount ?e) = unat (es_refcount (es ! k)) - 1" using live by (simp add: unat_minus_one)
  obtain off t1 where t1: "elf_strtab_offset t (of_nat (Suc k)) = Done (off, t1)" "finalized t1 ?es" "st_asserts t1 = st_asserts t"
      "string_at (image_of es) (unat off) = Some (he_string (es ! k))"
    using offset_ok [OF Cons.prems(1,2) k(1) live] by blast
  have img: "image_of ?es = image_of es" by (rule finalized_used(2) [OF Cons.prems(1) k(1) live])
  have cnt: "unat (es_refcount (?es ! j)) = unat (es_refcount (es ! j)) - (if j = k then 1 else 0)" if "j < length es" for j
    using that dec by (cases "j = k") auto
  have str: "he_string (?es ! j) = he_string (es ! j)" if "j < length es" for j using that by (cases "j = k") auto
  have "\<forall>j < length ?es. count_list ks j \<le> unat (es_refcount (?es ! j))"
    using Cons.prems(4) cnt by (fastforce split: if_splits)
  then obtain offs t' es' where ih: "resolve ks t1 = Done (offs, t')" "finalized t' es'" "image_of es' = image_of es" "length es' = length es"
      "\<forall>j < length es. unat (es_refcount (es' ! j)) = unat (es_refcount (?es ! j)) - count_list ks j"
      "list_all2 (\<lambda>k off. string_at (image_of es) (unat off) = Some (he_string (?es ! k))) ks offs" "st_asserts t' = st_asserts t"
    using Cons.IH [OF t1(2)] Cons.prems(2,3) t1(3) unfolding img by auto
  have "list_all2 (\<lambda>k off. string_at (image_of es) (unat off) = Some (he_string (es ! k))) ks offs"
    using ih(6) Cons.prems(3) str by (auto simp: list_all2_conv_all_nth)
  moreover have "resolve (k # ks) t = Done (off # offs, t')" using t1(1) ih(1) by simp
  moreover have "\<forall>j < length es. unat (es_refcount (es' ! j)) = unat (es_refcount (es ! j)) - count_list (k # ks) j"
    using ih(5) cnt by auto
  ultimately show ?case using ih(2,3,4,7) t1(4) by (intro exI [of _ "off # offs"] exI [of _ t'] exI [of _ es']) simp
qed auto

lemma emit_loop_ok:
  assumes "finalized t es" "\<forall>n. bf_ok f n" "k \<le> length es"
  shows "\<exists>f' t'. emit_loop [Suc k..<Suc (length es)] (of_nat (start_of es k)) f t = Done (True, f', t') \<and>
    bf_out f' = bf_out f @ concat (map bytes_of (drop k es)) \<and> ((\<forall>e \<in> set es. \<not> live e) \<longrightarrow> st_asserts t' = st_asserts t)"
  using assms
proof (induction "length es - k" arbitrary: k f t)
  case 0
  then have "k = length es" by simp
  moreover have "of_nat (start_of es (length es)) = st_sec_size t" using 0(2) by (simp add: start_of_length finalized_def)
  ultimately show ?case by simp
next
  case (Suc n)
  then have k: "k < length es" by simp
  let ?e = "es ! k" and ?t = "BFD_ASSERT (es_refcount (es ! k) = 0) t"
  have range: "[Suc k..<Suc (length es)] = Suc k # [Suc (Suc k)..<Suc (length es)]" using k by (simp add: upt_conv_Cons del: upt_Suc)
  note f = finalizedD [OF Suc(3) k]
  have entry: "entry_of t (Suc k) = Done ?e" using f(1,2) k by (simp add: entry_of_def arrayed_def deref_def)
  have tl: "concat (map bytes_of (drop k es)) = bytes_of ?e @ concat (map bytes_of (drop (Suc k) es))"
    using Cons_nth_drop_Suc [OF k] by (metis concat.simps(2) list.simps(9))
  have ih: "\<exists>f' t'. emit_loop [Suc (Suc k)..<Suc (length es)] (of_nat (start_of es (Suc k))) g ?t = Done (True, f', t') \<and>
    bf_out f' = bf_out g @ concat (map bytes_of (drop (Suc k) es)) \<and> ((\<forall>e \<in> set es. \<not> live e) \<longrightarrow> st_asserts t' = st_asserts ?t)"
    if "\<forall>n. bf_ok g n" for g
    using Suc(1) [of "Suc k" ?t g] Suc(2,3) k that by simp
  have quiet: "st_asserts ?t = st_asserts t" if "\<forall>e \<in> set es. \<not> live e" using that k by simp
  show ?case
  proof (cases "0 < es_len ?e")
    case True
    then have b: "whole ?e" "bytes_of ?e = he_string ?e @ [nul]" using Suc(3) k by (simp_all add: finalized_def bytes_of_def)
    let ?f = "f\<lparr>bf_out := bf_out f @ bytes_of ?e, bf_calls := Suc (bf_calls f)\<rparr>"
    have len: "nat (es_len ?e) = Suc (length (he_string ?e))" "es_len ?e = int (length (bytes_of ?e))" using b by (simp_all add: whole_def)
    have "emit_loop [Suc k..<Suc (length es)] (of_nat (start_of es k)) f t =
        emit_loop [Suc (Suc k)..<Suc (length es)] (of_nat (start_of es (Suc k))) ?f ?t"
      unfolding range using entry True len b(2) Suc(4) start_of_Suc [OF k] by (simp add: Let_def bfd_write_all add.left_commute del: upt_Suc)
    then show ?thesis using ih [of ?f] Suc(4) tl quiet by auto
  next
    case False
    then have "bytes_of ?e = []" by (simp add: bytes_of_def)
    moreover have "emit_loop [Suc k..<Suc (length es)] (of_nat (start_of es k)) f t =
        emit_loop [Suc (Suc k)..<Suc (length es)] (of_nat (start_of es (Suc k))) f ?t"
      unfolding range using entry False calculation start_of_Suc [OF k] by (simp add: Let_def del: upt_Suc)
    ultimately show ?thesis using ih [OF Suc(4)] tl quiet by auto
  qed
qed

lemma emit_ok:
  assumes "finalized t es" "\<forall>n. bf_ok f n"
  shows "\<exists>f' t'. elf_strtab_emit f t = Done (True, f', t') \<and> bf_out f' = bf_out f @ image_of es \<and>
    ((\<forall>e \<in> set es. \<not> live e) \<longrightarrow> st_asserts t' = st_asserts t)"
proof -
  let ?f = "f\<lparr>bf_out := bf_out f @ [nul], bf_calls := Suc (bf_calls f)\<rparr>"
  have "unat (st_size t) = Suc (length es)" using assms(1) by (simp add: finalized_def arrayed_def)
  then have "elf_strtab_emit f t = emit_loop [Suc 0..<Suc (length es)] (of_nat (start_of es 0)) ?f t"
    using assms(2) by (simp add: elf_strtab_emit_def bfd_write_all start_of_def del: upt_Suc)
  then show ?thesis using emit_loop_ok [OF assms(1), of ?f 0] assms(2) by (auto simp: image_of_def)
qed

end
