(* ===== verification/Bfd_Strtab_Fill.thy ===== *)
theory Bfd_Strtab_Fill
  imports Bfd_Strtab_Offsets
begin

text \<open>
  Filling the string table: the constructor of its entries satisfies the contract of the hash table, and
  every operation before \<open>_bfd_elf_strtab_finalize\<close> acts on the list of strings and counts the table stands for.
\<close>


section \<open>Filling the table\<close>

lemma elf_strtab_hash_newfunc_made:
  "ht_memory t = Some m \<Longrightarrow> elf_strtab_hash_newfunc None t s =
     (if oa_ok m (oa_next m)
      then Done (Some \<lparr>he_addr = oa_next m, he_string = [], he_hash = 0, es_len = 0, es_refcount = 0, es_u = Index (- 1)\<rparr>,
             t\<lparr>ht_memory := Some (m\<lparr>oa_next := Suc (oa_next m)\<rparr>)\<rparr>)
      else Done (None, t\<lparr>ht_memory := Some (m\<lparr>oa_next := Suc (oa_next m)\<rparr>)\<rparr>))"
  by (simp add: elf_strtab_hash_newfunc_def bfd_hash_allocate_def table_alloc_def objalloc_alloc_def)

interpretation strtab_hash: initialising_newfunc elf_strtab_hash_newfunc unused
proof
  show "unused e" if "elf_strtab_hash_newfunc None t s = Done (Some e, t1)" for t s e t1
    using that by (auto simp: elf_strtab_hash_newfunc_def cbind_Done)
qed (fastforce simp: elf_strtab_hash_newfunc_made split: if_splits)+

lemma entry_at_ht_map:
  assumes "hash_ok (st_table tab)"
  shows "entry_at tab a = Some e \<longleftrightarrow> ht_map (st_table tab) (he_string e) = Some e \<and> he_addr e = a"
  using entry_at_Some [OF assms] ht_map_Some [OF assms] by blast

lemma row_frame: "entry_at t a = entry_at tab a \<Longrightarrow> row t k a x = row tab k a x"
  by (simp add: row_def)

text \<open>Entries that have no index do not matter to the table.\<close>

lemma strtab_at_table:
  assumes at: "strtab_at tab as xs" and ok: "hash_ok t"
    and old: "\<And>a e. entry_at tab a = Some e \<Longrightarrow> entry_at (tab\<lparr>st_table := t\<rparr>) a = Some e"
    and new: "\<And>a e. entry_at (tab\<lparr>st_table := t\<rparr>) a = Some e \<Longrightarrow> entry_at tab a = Some e \<or> unused e"
  shows "strtab_at (tab\<lparr>st_table := t\<rparr>) as xs"
proof -
  have arr: "array_at (tab\<lparr>st_table := t\<rparr>) i = array_at tab i" for i by (simp add: array_at_def)
  have "\<forall>a \<in> set as. entry_at (tab\<lparr>st_table := t\<rparr>) a \<noteq> None" using at old by (fastforce simp: strtab_at_def arrayed_def)
  then have "arrayed (tab\<lparr>st_table := t\<rparr>) as" using at ok arr by (simp add: strtab_at_def arrayed_def)
  moreover have "row (tab\<lparr>st_table := t\<rparr>) k (as ! k) (xs ! k)" if "k < length xs" for k
    using at old that unfolding strtab_at_def row_def by metis
  moreover have "\<forall>a e. entry_at (tab\<lparr>st_table := t\<rparr>) a = Some e \<and> a \<notin> set as \<longrightarrow> unused e"
    using at new unfolding strtab_at_def by metis
  ultimately show ?thesis using at by (simp add: strtab_at_def)
qed

lemma lookup_rep:
  assumes at: "strtab_at tab as xs" and small: "ht_size (st_table tab) < 4294967291" and fits: "copy_fits copy s"
  shows "\<exists>r t. bfd_hash_lookup elf_strtab_hash_newfunc (st_table tab) s True copy = Done (r, t) \<and>
    strtab_at (tab\<lparr>st_table := t\<rparr>) as xs \<and>
    (\<forall>e. r = Some e \<longrightarrow> he_string e = s \<and> entry_at (tab\<lparr>st_table := t\<rparr>) (he_addr e) = Some e) \<and>
    (r = None \<longrightarrow> s \<notin> fst ` set xs \<and> alloc_failed (st_table tab) t)"
proof -
  have ok: "hash_ok (st_table tab)" using at by (simp add: strtab_at_def arrayed_def)
  obtain r t where t: "bfd_hash_lookup elf_strtab_hash_newfunc (st_table tab) s True copy = Done (r, t)" "hash_ok t"
    and r: "case r of Some e \<Rightarrow> he_string e = s \<and> ht_map t = (ht_map (st_table tab))(s \<mapsto> e) \<and> (ht_map (st_table tab) s \<noteq> None \<longrightarrow> t = st_table tab)
       | None \<Rightarrow> ht_map (st_table tab) s = None \<and> ht_map t = ht_map (st_table tab) \<and> alloc_failed (st_table tab) t"
    using strtab_hash.lookup_ok [OF ok small, of s copy True] fits by (auto split: option.splits)
  let ?t = "tab\<lparr>st_table := t\<rparr>"
  have ok': "hash_ok (st_table ?t)" using t(2) by simp
  note at_iff = entry_at_ht_map [OF ok] entry_at_ht_map [OF ok']
  show ?thesis
  proof (cases r)
    case None
    then have "strtab_at ?t as xs" using r by (intro strtab_at_table [OF at t(2)]) (simp_all add: at_iff)
    moreover have "s \<notin> fst ` set xs"
    proof
      assume "s \<in> fst ` set xs"
      then obtain k where k: "k < length xs" "fst (xs ! k) = s" by (auto simp: in_set_conv_nth)
      obtain e where "entry_at tab (as ! k) = Some e" "xs ! k = (he_string e, es_refcount e)"
        using at k(1) unfolding strtab_at_def row_def by blast
      then show False using at_iff(1) k(2) r None by auto
    qed
    ultimately show ?thesis using t(1) None r by auto
  next
    case (Some e)
    then have e: "he_string e = s" "ht_map t = (ht_map (st_table tab))(s \<mapsto> e)" "ht_map (st_table tab) s \<noteq> None \<longrightarrow> t = st_table tab"
      using r by simp_all
    have here: "entry_at ?t (he_addr e) = Some e" using e by (simp add: at_iff)
    have "strtab_at ?t as xs"
    proof (cases "ht_map (st_table tab) s")
      case None
      have "unused e" using strtab_hash.lookup_fresh [OF ok _ None] t(1) Some by blast
      then show ?thesis using None e by (intro strtab_at_table [OF at t(2)]) (auto simp: at_iff split: if_splits)
    next
      case (Some x)
      then show ?thesis using e(3) at by simp
    qed
    then show ?thesis using t(1) Some e(1) here by blast
  qed
qed

section \<open>Changing one entry\<close>

lemma strtab_atI:
  assumes "arrayed tab as" "length as = length xs" "\<And>k. k < length xs \<Longrightarrow> row tab k (as ! k) (xs ! k)"
    "\<And>a e. entry_at tab a = Some e \<Longrightarrow> a \<notin> set as \<Longrightarrow> unused e" "st_sec_size tab = 0"
    "\<exists>arr. st_array tab = Some arr \<and> length arr = unat (st_alloced tab)" "st_size tab \<le> st_alloced tab"
  shows "strtab_at tab as xs"
  using assms unfolding strtab_at_def by blast

lemma strtab_atD:
  assumes "strtab_at tab as xs" "k < length xs"
  obtains e where "entry_at tab (as ! k) = Some e" "xs ! k = (he_string e, es_refcount e)" "whole e" "es_u e = Index (of_nat (Suc k))"
    "nul \<notin> set (he_string e)" "as ! k \<in> set as" "entry_of tab (unat (of_nat (Suc k) :: u64)) = Done e"
proof -
  from assms obtain e where e: "entry_at tab (as ! k) = Some e" "xs ! k = (he_string e, es_refcount e)" "whole e"
      "es_u e = Index (of_nat (Suc k))" "nul \<notin> set (he_string e)"
    unfolding strtab_at_def row_def by blast
  have k: "arrayed tab as" "k < length as" using assms by (simp_all add: strtab_at_def)
  show thesis using that [OF e] nth_mem [OF k(2)] arrayed_entry [OF k] e(1) by (simp add: deref_def)
qed

lemma strtab_at_put:
  assumes at: "strtab_at tab as xs" and k: "k < length xs" "entry_at tab (as ! k) = Some e"
  shows "strtab_at (put_entry (e\<lparr>es_refcount := r\<rparr>) tab) as (xs[k := (he_string e, r)])"
proof -
  let ?e = "e\<lparr>es_refcount := r\<rparr>"
  let ?t = "put_entry ?e tab"
  have arr: "arrayed tab as" "length as = length xs" using at by (simp_all add: strtab_at_def)
  have same: "same_object ?e e" by simp
  note put = arrayed_put [OF arr(1) k(2) same]
  have inj: "as ! j = as ! k \<longleftrightarrow> j = k" if "j < length xs" for j
    using arr that k(1) by (simp add: arrayed_def nth_eq_iff_index_eq)
  have "row ?t j (as ! j) (xs[k := (he_string e, r)] ! j)" if j: "j < length xs" for j
  proof (cases "j = k")
    case True
    from strtab_atD [OF at k(1)] k(2) have "row tab k (as ! k) (xs ! k)" "whole e" "es_u e = Index (of_nat (Suc k))" "nul \<notin> set (he_string e)"
      using at k(1) by (auto simp: strtab_at_def)
    then show ?thesis using True k put(2) by (simp add: row_def whole_def)
  next
    case False
    then have "row ?t j (as ! j) (xs ! j) = row tab j (as ! j) (xs ! j)" using put(2) inj [OF j] by (intro row_frame) simp
    then show ?thesis using False at j by (simp add: strtab_at_def)
  qed
  moreover have "unused x" if "entry_at ?t a = Some x" "a \<notin> set as" for a x
  proof -
    have "a \<noteq> as ! k" using that(2) k(1) arr(2) by auto
    then show ?thesis using that put(2) at by (auto simp: strtab_at_def)
  qed
  ultimately show ?thesis using put(1) arr(2) at by (intro strtab_atI) (auto simp: strtab_at_def)
qed

lemma strtab_at_distinct:
  assumes at: "strtab_at tab as xs"
  shows "distinct (map fst xs)"
proof -
  have "j = k" if jk: "j < length xs" "k < length xs" "fst (xs ! j) = fst (xs ! k)" for j k
  proof -
    obtain e where e: "entry_at tab (as ! j) = Some e" "xs ! j = (he_string e, es_refcount e)" using strtab_atD [OF at jk(1)] by metis
    obtain e' where e': "entry_at tab (as ! k) = Some e'" "xs ! k = (he_string e', es_refcount e')" using strtab_atD [OF at jk(2)] by metis
    have arr: "hash_ok (st_table tab)" "distinct as" "length as = length xs" using at by (simp_all add: strtab_at_def arrayed_def)
    have "as ! j = as ! k" using entry_strings_inj [OF arr(1) e(1) e'(1)] e(2) e'(2) jk(3) by simp
    then show ?thesis using arr(2,3) jk by (simp add: nth_eq_iff_index_eq)
  qed
  then show ?thesis by (auto simp: distinct_conv_nth)
qed

text \<open>An entry of the hash table is in the array exactly when it has a length.\<close>

lemma strtab_at_indexed:
  assumes at: "strtab_at tab as xs" and e: "entry_at tab a = Some e"
  shows "es_len e \<noteq> 0 \<longleftrightarrow> a \<in> set as" "es_len e \<noteq> 0 \<longleftrightarrow> he_string e \<in> fst ` set xs"
proof -
  have arr: "hash_ok (st_table tab)" "length as = length xs" using at by (simp_all add: strtab_at_def arrayed_def)
  have row: "\<exists>k < length xs. a = as ! k \<and> xs ! k = (he_string e, es_refcount e) \<and> whole e" if "a \<in> set as"
  proof -
    obtain k where k: "k < length xs" "a = as ! k" using \<open>a \<in> set as\<close> arr(2) by (auto simp: in_set_conv_nth)
    obtain x where "entry_at tab (as ! k) = Some x" "xs ! k = (he_string x, es_refcount x)" "whole x" using strtab_atD [OF at k(1)] by metis
    then show ?thesis using k e by auto
  qed
  have out: "es_len e = 0" if "a \<notin> set as" using at e that unfolding strtab_at_def by blast
  show iff: "es_len e \<noteq> 0 \<longleftrightarrow> a \<in> set as" using row out by (auto simp: whole_def)
  have "a \<in> set as" if "he_string e \<in> fst ` set xs"
  proof -
    obtain k where k: "k < length xs" "fst (xs ! k) = he_string e"
      using \<open>he_string e \<in> fst ` set xs\<close> by (auto simp: in_set_conv_nth)
    obtain e' where e': "entry_at tab (as ! k) = Some e'" "xs ! k = (he_string e', es_refcount e')" using strtab_atD [OF at k(1)] by metis
    then show ?thesis using entry_strings_inj [OF arr(1) e e'(1)] k arr(2) by simp
  qed
  moreover have "he_string e \<in> fst ` set xs" if "a \<in> set as" using row [OF that] nth_mem by force
  ultimately show "es_len e \<noteq> 0 \<longleftrightarrow> he_string e \<in> fst ` set xs" using iff by blast
qed

section \<open>A new entry\<close>

lemma grow_array_put: "grow_array (put_entry e tab) = put_entry e (grow_array tab)"
  by (simp add: grow_array_def put_entry_def objalloc_alloc_cases Let_def)

text \<open>The array doubles unless \<open>realloc\<close> fails.\<close>

lemma grow_at:
  assumes at: "strtab_at tab as xs" and full: "st_size tab = st_alloced tab" and small: "unat (st_alloced tab) < 2 ^ 59"
  shows "if heap_ready tab then strtab_at (grow_array tab) as xs \<and> st_size (grow_array tab) < st_alloced (grow_array tab)
    else st_array (grow_array tab) = None"
proof (cases "heap_ready tab")
  case True
  let ?t = "grow_array tab"
  obtain arr where arr: "st_array tab = Some arr" "length arr = unat (st_alloced tab)" and a: "arrayed tab as" "length as = length xs"
    using at by (auto simp: strtab_at_def)
  have al: "unat (st_alloced tab * 2) = 2 * unat (st_alloced tab)" "unat (st_alloced tab * 2 * 8) = 16 * unat (st_alloced tab)"
    using small by (simp_all add: unat_word_ariths)
  have pos: "0 < unat (st_alloced tab)" using a(1) full by (simp add: arrayed_def)
  have t: "st_table ?t = st_table tab" "st_size ?t = st_size tab" "st_alloced ?t = st_alloced tab * 2" "st_sec_size ?t = st_sec_size tab"
      "st_array ?t = Some (arr @ replicate (unat (st_alloced tab)) None)"
    using True arr al by (simp_all add: grow_array_def objalloc_alloc_cases Let_def)
  have less: "st_size ?t < st_alloced ?t" using t al(1) full pos by (simp add: word_less_nat_alt)
  have ent: "entry_at ?t b = entry_at tab b" for b using t(1) by (simp add: entry_at_def)
  have "array_at ?t (Suc k) = array_at tab (Suc k)" if "k < length as" for k
    using that a(1) full arr t(5) by (simp add: array_at_def nth_append arrayed_def)
  then have "arrayed ?t as" using a(1) t ent by (simp add: arrayed_def)
  moreover have "row ?t k (as ! k) (xs ! k)" if "k < length xs" for k
    using at that row_frame [OF ent] by (simp add: strtab_at_def)
  moreover have "unused e" if "entry_at ?t b = Some e" "b \<notin> set as" for b e
    using at that ent unfolding strtab_at_def by simp
  ultimately have "strtab_at ?t as xs"
    using a(2) at t arr(2) al(1) less by (intro strtab_atI) (auto simp: strtab_at_def)
  then show ?thesis using True less by simp
qed (simp add: grow_array_def objalloc_alloc_cases Let_def)

lemma arrayed_append:
  assumes tab: "arrayed tab as" and arr: "st_array tab = Some arr" "length arr = unat (st_alloced tab)" "st_size tab < st_alloced tab"
    and a: "a \<notin> set as" and t: "hash_ok (st_table t)" "\<And>b. b \<in> set as \<Longrightarrow> entry_at t b = entry_at tab b" "entry_at t a \<noteq> None"
      "st_size t = st_size tab + 1" "st_array t = Some (arr[unat (st_size tab) := Some a])"
  shows "arrayed t (as @ [a])"
proof -
  let ?n = "length as"
  have n: "unat (st_size tab) = Suc ?n" "Suc ?n < length arr" using tab arr by (simp_all add: arrayed_def word_less_nat_alt)
  have "unat (st_size t) = Suc (Suc ?n)"
    using n unat_less_2p [of "st_alloced tab"] t(4) arr(2) by (simp add: unat_word_ariths)
  moreover have "array_at t (Suc k) = Done ((as @ [a]) ! k)" if "k < Suc ?n" for k
  proof (cases "k = ?n")
    case True
    then show ?thesis using t(5) n by (simp add: array_at_def)
  next
    case False
    then have "array_at t (Suc k) = array_at tab (Suc k)" using t(5) n arr(1) by (simp add: array_at_def)
    then show ?thesis using False that tab by (simp add: arrayed_def nth_append)
  qed
  moreover have "entry_at t b \<noteq> None" if "b \<in> set (as @ [a])" for b
    using that t(2) [of b] t(3) tab by (auto simp: arrayed_def)
  ultimately show ?thesis using t(1) a tab by (simp add: arrayed_def)
qed

lemma enter_at:
  assumes at: "strtab_at tab as xs" and room: "st_size tab < st_alloced tab" and x: "entry_at tab a = Some x" "unused x"
    and e: "same_object e x" "whole e" "nul \<notin> set (he_string e)"
  shows "\<exists>t. enter e (put_entry e tab) = Done (of_nat (Suc (length xs)), t) \<and> st_asserts t = st_asserts tab \<and>
    strtab_at t (as @ [a]) (xs @ [(he_string e, es_refcount e)])"
proof -
  let ?n = "length xs"
  obtain arr where arr: "st_array tab = Some arr" "length arr = unat (st_alloced tab)" and ar: "arrayed tab as" "length as = ?n"
    using at by (auto simp: strtab_at_def)
  have n: "unat (st_size tab) = Suc ?n" "Suc ?n < length arr"
    using ar arr(2) room by (simp_all add: arrayed_def word_less_nat_alt)
  have n3: "st_size tab = of_nat (Suc ?n)" using arg_cong [OF n(1), of "of_nat :: nat \<Rightarrow> u64"] by simp
  have out: "a \<notin> set as" using strtab_at_indexed(1) [OF at x(1)] x(2) by simp
  let ?e = "e\<lparr>es_u := Index (st_size tab)\<rparr>"
  let ?t = "(put_entry ?e (put_entry e tab\<lparr>st_size := st_size tab + 1\<rparr>))\<lparr>st_array := Some (arr[Suc ?n := Some (he_addr e)])\<rparr>"
  have addr: "he_addr e = a" using entry_at_addr [OF x(1)] e(1) by (simp add: same_object_def)
  have run: "enter e (put_entry e tab) = Done (of_nat (Suc ?n), ?t)"
    using n n3 arr(1) by (simp add: enter_def Let_def del: of_nat_Suc)
  note p1 = arrayed_put [OF ar(1) x(1) e(1)]
  have ok1: "hash_ok (st_table (put_entry e tab))" using p1(1) by (simp add: arrayed_def)
  have "entry_at (put_entry e tab) a = Some e" "same_object ?e e" using p1(2) by simp_all
  note p2 = put_entry_ok [OF ok1 this]
  have t: "st_table ?t = st_table (put_entry ?e (put_entry e tab))" by (simp add: put_entry_def)
  then have ent: "entry_at ?t b = (if b = a then Some ?e else entry_at tab b)" for b
    using p1(2) p2(2) by (simp add: entry_at_def) (metis fun_upd_apply entry_at_def)
  have st: "st_size ?t = st_size tab + 1" "st_alloced ?t = st_alloced tab" "st_sec_size ?t = st_sec_size tab"
      "st_array ?t = Some (arr[unat (st_size tab) := Some a])" "st_asserts ?t = st_asserts tab"
    using n(1) addr by simp_all
  have okt: "hash_ok (st_table ?t)" using t p2(1) by simp
  have arrt: "arrayed ?t (as @ [a])"
    using out by (intro arrayed_append [OF ar(1) arr room out okt _ _ st(1,4)]) (auto simp: ent)
  have "row ?t k ((as @ [a]) ! k) ((xs @ [(he_string e, es_refcount e)]) ! k)" if "k < Suc ?n" for k
  proof (cases "k = ?n")
    case True
    have "es_u ?e = Index (of_nat (Suc ?n))" using n3 by (simp del: of_nat_Suc)
    then have "row ?t ?n a (he_string e, es_refcount e)"
      unfolding row_def using ent [of a] e(2,3) by (intro exI [of _ ?e]) (simp add: whole_def del: of_nat_Suc)
    then show ?thesis using True ar(2) by (simp add: nth_append)
  next
    case False
    then have k: "k < ?n" using that by simp
    then have "as ! k \<noteq> a" using out ar(2) nth_mem by metis
    then have "row ?t k (as ! k) (xs ! k) = row tab k (as ! k) (xs ! k)" by (intro row_frame) (simp add: ent)
    then show ?thesis using k ar(2) at by (simp add: nth_append strtab_at_def)
  qed
  moreover have "unused y" if "entry_at ?t b = Some y" "b \<notin> set (as @ [a])" for b y
    using that at unfolding strtab_at_def by (auto simp: ent)
  moreover have "st_size ?t \<le> st_alloced ?t" using st(1,2) inc_le [OF room] by simp
  ultimately have "strtab_at ?t (as @ [a]) (xs @ [(he_string e, es_refcount e)])"
    using arrt ar(2) st arr(2) at by (intro strtab_atI) (auto simp: strtab_at_def)
  then show ?thesis using run st(5) by blast
qed

section \<open>Operations on the list of strings\<close>

text \<open>Entering a string counts one more reference to it.\<close>

definition counted :: "string \<Rightarrow> (string \<times> u32) list \<Rightarrow> (string \<times> u32) list" where
  "counted s xs = (if s \<in> fst ` set xs then map (\<lambda>(t, r). (t, if t = s then r + 1 else r)) xs else xs @ [(s, 1)])"

lemma counted_update:
  assumes "distinct (map fst xs)" "k < length xs" "xs ! k = (s, r)"
  shows "counted s xs = xs[k := (s, r + 1)]"
proof -
  have "s \<in> fst ` set xs" using assms(2,3) by (metis fst_conv image_eqI nth_mem)
  moreover have "fst (xs ! j) = s \<longleftrightarrow> j = k" if "j < length xs" for j
    using nth_eq_iff_index_eq [OF assms(1), of j k] assms(2,3) that by simp
  ultimately show ?thesis
    using assms(2,3) by (intro nth_equalityI) (auto simp: counted_def case_prod_beta nth_list_update prod_eq_iff)
qed

text \<open>The result of \<open>_bfd_elf_strtab_add\<close>: the entry's index, or all ones for an unknown string when an allocation of this call failed: one
  of the hash table, which leaves the strings as they were, or the growth of the full array, which loses the array.\<close>

definition added :: "elf_strtab_hash \<Rightarrow> string \<Rightarrow> (string \<times> u32) list \<Rightarrow> u64 \<Rightarrow> elf_strtab_hash \<Rightarrow> bool" where
  "added tab s xs i t \<longleftrightarrow>
     strtab_rep t (counted s xs) \<and> (\<exists>k < length (counted s xs). i = of_nat (Suc k) \<and> fst (counted s xs ! k) = s) \<or>
     i = - 1 \<and> s \<notin> fst ` set xs \<and>
       (strtab_rep t xs \<and> alloc_failed (st_table tab) (st_table t) \<or>
        st_array t = None \<and> st_size tab = st_alloced tab \<and> \<not> heap_ready tab)"

lemma add_known:
  assumes at: "strtab_at tab as xs" and e: "entry_at tab (he_addr e) = Some e" "es_len e \<noteq> 0" "he_string e = s"
  shows "\<exists>i. read_index e = Done i \<and> added tab0 s xs i (put_entry (e\<lparr>es_refcount := es_refcount e + 1\<rparr>) tab)"
proof -
  have len: "length as = length xs" using at by (simp add: strtab_at_def)
  have "he_addr e \<in> set as" using strtab_at_indexed(1) [OF at e(1)] e(2) by simp
  then obtain k where k: "k < length xs" "as ! k = he_addr e" using len by (auto simp: in_set_conv_nth)
  obtain x where x: "entry_at tab (as ! k) = Some x" "xs ! k = (he_string x, es_refcount x)" "es_u x = Index (of_nat (Suc k))"
    using strtab_atD [OF at k(1)] by metis
  have [simp]: "x = e" using x(1) e(1) k(2) by simp
  have eq: "counted s xs = xs[k := (s, es_refcount e + 1)]"
    using counted_update [OF strtab_at_distinct [OF at] k(1)] x(2) e(3) by simp
  have "strtab_rep (put_entry (e\<lparr>es_refcount := es_refcount e + 1\<rparr>) tab) (counted s xs)"
    unfolding eq strtab_rep_def using strtab_at_put [OF at k(1), of e] e(1,3) k(2) by auto
  moreover have "k < length (counted s xs) \<and> fst (counted s xs ! k) = s" unfolding eq using k(1) by simp
  ultimately show ?thesis using x(3) by (auto simp: read_index_def added_def)
qed

lemma add_new:
  assumes at: "strtab_at tab as xs" and x: "entry_at tab (he_addr e) = Some x" "es_len x = 0" "same_object e x" "es_refcount e = 1"
    and e: "whole e" "nul \<notin> set (he_string e)" and small: "unat (st_alloced tab) < 2 ^ 59" and s: "he_string e = s"
    and tab0: "st_size tab0 = st_size tab" "st_alloced tab0 = st_alloced tab" "st_heap tab0 = st_heap tab"
  shows "\<exists>i t. (if st_size tab = st_alloced tab
     then let tab = grow_array (put_entry e tab) in if st_array tab = None then Done (- 1, tab) else enter e tab
     else enter e (put_entry e tab)) = Done (i, t) \<and> added tab0 s xs i t \<and> st_asserts t = st_asserts tab"
proof -
  have un: "unused x" "s \<notin> fst ` set xs"
    using strtab_at_indexed [OF at x(1)] x(2,3) at x(1) s by (auto simp: strtab_at_def same_object_def)
  have main: "\<exists>i t. enter e (put_entry e t0) = Done (i, t) \<and> added tab0 s xs i t \<and> st_asserts t = st_asserts t0"
    if "strtab_at t0 as xs" "st_size t0 < st_alloced t0" "entry_at t0 (he_addr e) = Some x" for t0
    using enter_at [OF that un(1) x(3) e] un(2) s x(4) unfolding added_def strtab_rep_def counted_def by (force simp: nth_append)
  show ?thesis
  proof (cases "st_size tab = st_alloced tab")
    case True
    have frame: "entry_at (grow_array tab) a = entry_at tab a" "st_asserts (grow_array tab) = st_asserts tab" for a
      by (simp_all add: grow_array_def objalloc_alloc_cases Let_def entry_at_def)
    show ?thesis
    proof (cases "heap_ready tab")
      case ready: True
      then have g: "strtab_at (grow_array tab) as xs" "st_size (grow_array tab) < st_alloced (grow_array tab)"
        using grow_at [OF at True small] by simp_all
      then have "st_array (grow_array tab) \<noteq> None" by (auto simp: strtab_at_def)
      then show ?thesis using True main [OF g] x(1) by (auto simp: grow_array_put frame Let_def)
    next
      case False
      then have "st_array (grow_array tab) = None" using grow_at [OF at True small] by simp
      then show ?thesis using True False tab0 un(2) by (simp add: grow_array_put frame Let_def added_def)
    qed
  next
    case False
    then have "st_size tab < st_alloced tab" using at by (simp add: strtab_at_def less_le)
    then show ?thesis using False main [OF at _ x(1)] by simp
  qed
qed

lemma read_index_count [simp]: "read_index (e\<lparr>es_refcount := r\<rparr>) = read_index e"
  by (simp add: read_index_def)

lemma c_int_small: "n < 2 ^ 31 \<Longrightarrow> c_int n = int n"
  unfolding c_int_def by (rule signed_take_bit_int_eq_self) simp_all

lemma add_ok:
  assumes rep: "strtab_rep tab xs" and s: "s \<noteq> []" "nul \<notin> set s" "length s + 1 < 2 ^ 31"
    and small: "ht_size (st_table tab) < 4294967291" "unat (st_alloced tab) < 2 ^ 59"
  shows "\<exists>i t. elf_strtab_add tab s copy = Done (i, t) \<and> added tab s xs i t \<and> st_asserts t = st_asserts tab"
proof -
  obtain as where at: "strtab_at tab as xs" using rep by (auto simp: strtab_rep_def)
  have sec: "BFD_ASSERT (st_sec_size tab = 0) tab = tab" using at by (simp add: strtab_at_def)
  obtain r t where t: "bfd_hash_lookup elf_strtab_hash_newfunc (st_table tab) s True copy = Done (r, t)"
      "strtab_at (tab\<lparr>st_table := t\<rparr>) as xs"
      "\<And>e. r = Some e \<Longrightarrow> he_string e = s \<and> entry_at (tab\<lparr>st_table := t\<rparr>) (he_addr e) = Some e"
      "r = None \<Longrightarrow> s \<notin> fst ` set xs \<and> alloc_failed (st_table tab) t"
    using lookup_rep [OF at small(1), of copy s] s(3) by (auto simp: copy_fits_def)
  let ?t = "tab\<lparr>st_table := t\<rparr>"
  show ?thesis
  proof (cases r)
    case None
    then show ?thesis using s(1) sec t(1,2,4) by (auto simp: elf_strtab_add_def Let_def added_def strtab_rep_def)
  next
    case (Some e)
    note e = t(3) [OF Some]
    show ?thesis
    proof (cases "es_len e = 0")
      case False
      then show ?thesis using add_known [OF t(2) conjunct2 [OF e] False conjunct1 [OF e], of tab] s(1) sec t(1) Some
        by (auto simp: elf_strtab_add_def Let_def)
    next
      case True
      let ?e = "e\<lparr>es_refcount := es_refcount e + 1, es_len := c_int (length s + 1)\<rparr>"
      have c: "c_int (length s + 1) = int (length s) + 1" using c_int_small [OF s(3)] by simp
      have "es_refcount e = 0" using strtab_at_indexed(1) [OF t(2) conjunct2 [OF e]] True t(2) e by (auto simp: strtab_at_def)
      then have new: "\<exists>i t'. (if st_size ?t = st_alloced ?t
          then let tab = grow_array (put_entry ?e ?t) in if st_array tab = None then Done (- 1, tab) else enter ?e tab
          else enter ?e (put_entry ?e ?t)) = Done (i, t') \<and> added tab s xs i t' \<and> st_asserts t' = st_asserts ?t"
        using e True s(2) small(2) c by (intro add_new [OF t(2), of ?e e]) (simp_all add: whole_def)
      have "elf_strtab_add tab s copy = (if st_size ?t = st_alloced ?t
          then let tab = grow_array (put_entry ?e ?t) in if st_array tab = None then Done (- 1, tab) else enter ?e tab
          else enter ?e (put_entry ?e ?t))"
        using s(1) sec t(1) Some True c by (simp add: elf_strtab_add_def Let_def)
      then show ?thesis using new by simp
    qed
  qed
qed

section \<open>Counting references\<close>

lemma below_top: "a < (b :: 'a::len word) \<Longrightarrow> a \<noteq> - 1"
  by auto

lemma addref_ok:
  assumes at: "strtab_at tab as xs" and k: "k < length xs" "xs ! k = (s, r)"
  shows "\<exists>t. elf_strtab_addref tab (of_nat (Suc k)) = Done t \<and> strtab_at t as (xs[k := (s, r + 1)]) \<and> st_asserts t = st_asserts tab"
proof -
  have arr: "arrayed tab as" "k < length as" "st_sec_size tab = 0" using at k by (simp_all add: strtab_at_def)
  note idx = of_nat_index [OF arr(1,2)]
  obtain e where e: "entry_at tab (as ! k) = Some e" "xs ! k = (he_string e, es_refcount e)" "entry_of tab (unat (of_nat (Suc k) :: u64)) = Done e"
    using strtab_atD [OF at k(1)] by metis
  have "strtab_at (put_entry (e\<lparr>es_refcount := r + 1\<rparr>) tab) as (xs[k := (s, r + 1)])"
    using strtab_at_put [OF at k(1) e(1), of "r + 1"] e(2) k(2) by simp
  moreover have "elf_strtab_addref tab (of_nat (Suc k)) = Done (put_entry (e\<lparr>es_refcount := r + 1\<rparr>) tab)"
    using idx e arr(3) k(2) below_top [OF idx(2)] by (simp add: elf_strtab_addref_def Let_def del: of_nat_Suc)
  ultimately show ?thesis by simp
qed

lemma delref_ok:
  assumes at: "strtab_at tab as xs" and k: "k < length xs" "xs ! k = (s, r)" "r \<noteq> 0"
  shows "\<exists>t. elf_strtab_delref tab (of_nat (Suc k)) = Done t \<and> strtab_at t as (xs[k := (s, r - 1)]) \<and> st_asserts t = st_asserts tab"
proof -
  have arr: "arrayed tab as" "k < length as" "st_sec_size tab = 0" using at k by (simp_all add: strtab_at_def)
  note idx = of_nat_index [OF arr(1,2)]
  obtain e where e: "entry_at tab (as ! k) = Some e" "xs ! k = (he_string e, es_refcount e)" "entry_of tab (unat (of_nat (Suc k) :: u64)) = Done e"
    using strtab_atD [OF at k(1)] by metis
  have "strtab_at (put_entry (e\<lparr>es_refcount := r - 1\<rparr>) tab) as (xs[k := (s, r - 1)])"
    using strtab_at_put [OF at k(1) e(1), of "r - 1"] e(2) k(2) by simp
  moreover have "elf_strtab_delref tab (of_nat (Suc k)) = Done (put_entry (e\<lparr>es_refcount := r - 1\<rparr>) tab)"
    using idx e arr(3) k(2,3) below_top [OF idx(2)] by (simp add: elf_strtab_delref_def Let_def word_gt_0 del: of_nat_Suc)
  ultimately show ?thesis by simp
qed

text \<open>Loops that only set the counts.\<close>

lemma counts_loop:
  assumes at: "strtab_at tab as xs"
    and f: "\<And>t a e s. entry_at tab a = Some e \<Longrightarrow> a \<in> set as \<Longrightarrow> f t e s = Done (e\<lparr>es_refcount := R a\<rparr>, F (es_refcount e) s)"
  shows "\<exists>t. for_loop f (array_indices tab) s tab = Done (fold (\<lambda>(_, r). F r) xs s, t) \<and> framed tab t \<and>
    strtab_at t as (map2 (\<lambda>(s, _) a. (s, R a)) xs as)"
proof -
  define E where "E a = the (entry_at tab a)" for a
  have arr: "arrayed tab as" "length as = length xs" using at by (simp_all add: strtab_at_def)
  have E: "\<forall>a \<in> set as. entry_at tab a = Some (E a)" using arr(1) by (auto simp: arrayed_def E_def)
  let ?N = "\<lambda>a. (E a)\<lparr>es_refcount := R a\<rparr>"
  obtain t where t: "for_loop f (array_indices tab) s tab = Done (fold (\<lambda>a. F (es_refcount (E a))) as s, t)" "framed tab t"
      "\<forall>a \<in> set as. entry_at t a = Some (?N a)" "\<forall>a. a \<notin> set as \<longrightarrow> entry_at t a = entry_at tab a"
    using arrayed_map [where f = f and N = ?N and F = "\<lambda>a. F (es_refcount (E a))", OF arr(1) E] f E by fastforce
  have rows: "xs ! k = (he_string (E (as ! k)), es_refcount (E (as ! k))) \<and> whole (E (as ! k)) \<and> es_u (E (as ! k)) = Index (of_nat (Suc k)) \<and>
      nul \<notin> set (he_string (E (as ! k)))" if k: "k < length xs" for k
  proof -
    obtain e where "entry_at tab (as ! k) = Some e" "xs ! k = (he_string e, es_refcount e)" "whole e" "es_u e = Index (of_nat (Suc k))"
        "nul \<notin> set (he_string e)" using strtab_atD [OF at k] by metis
    then show ?thesis by (simp add: E_def)
  qed
  have "xs = strings_of (map E as)" using rows arr(2) by (intro nth_equalityI) auto
  then have "fold (\<lambda>(_, r). F r) xs s = fold (\<lambda>a. F (es_refcount (E a))) as s" by (simp add: fold_map comp_def)
  moreover have "row t k (as ! k) (map2 (\<lambda>(s, _) a. (s, R a)) xs as ! k)" if k: "k < length xs" for k
    using rows [OF k] bspec [OF t(3) nth_mem, of k] k arr(2) by (simp add: row_def whole_def)
  moreover have "unused e" if "entry_at t a = Some e" "a \<notin> set as" for a e
    using at that t(4) unfolding strtab_at_def by simp
  ultimately have "strtab_at t as (map2 (\<lambda>(s, _) a. (s, R a)) xs as)"
    using framed_arrayed [OF t(2) arr(1)] arr(2) t(2) at by (intro strtab_atI) (auto simp: strtab_at_def framed_def)
  then show ?thesis using t(1,2) \<open>fold _ xs s = _\<close> by simp
qed


section \<open>Saving and restoring\<close>

lemma strtab_at_heap [simp]: "strtab_at (tab\<lparr>st_heap := h\<rparr>) as xs = strtab_at tab as xs"
  by (simp add: strtab_at_def row_def)

lemma fold_append: "fold (\<lambda>(_, r) counts. counts @ [r]) xs cs = cs @ map snd xs"
  by (induction xs arbitrary: cs) auto

lemma save_ok:
  assumes at: "strtab_at tab as xs" and heap: "heap_ready tab"
  shows "\<exists>t. elf_strtab_save tab = Done (Some \<lparr>sv_size = st_size tab, sv_refcount = 0 # map snd xs\<rparr>, t) \<and> strtab_at t as xs \<and>
    st_asserts t = st_asserts tab"
proof -
  let ?h = "(st_heap tab)\<lparr>oa_next := Suc (oa_next (st_heap tab))\<rparr>"
  let ?tab = "tab\<lparr>st_heap := ?h\<rparr>" and ?R = "\<lambda>a. es_refcount (the (entry_at tab a))"
  have "strtab_at ?tab as xs" using at by simp
  from counts_loop [where f = "\<lambda>_ e counts. Done (e, counts @ [es_refcount e])" and F = "\<lambda>r counts. counts @ [r]" and R = ?R and s = "[0]", OF this]
  obtain t where t: "for_loop (\<lambda>_ e counts. Done (e, counts @ [es_refcount e])) (array_indices ?tab) [0] ?tab = Done ([0] @ map snd xs, t)"
      "framed ?tab t" "strtab_at t as (map2 (\<lambda>(s, _) a. (s, ?R a)) xs as)"
    by (auto simp: fold_append)
  have "map2 (\<lambda>(s, _) a. (s, ?R a)) xs as = xs"
  proof (intro nth_equalityI)
    fix k assume "k < length (map2 (\<lambda>(s, _) a. (s, ?R a)) xs as)"
    then have k: "k < length xs" "k < length as" by auto
    obtain e where "entry_at tab (as ! k) = Some e" "xs ! k = (he_string e, es_refcount e)" using strtab_atD [OF at k(1)] by metis
    then show "map2 (\<lambda>(s, _) a. (s, ?R a)) xs as ! k = xs ! k" using k by simp
  qed (use at in \<open>simp add: strtab_at_def\<close>)
  then show ?thesis
    using t heap by (simp add: elf_strtab_save_def objalloc_alloc_cases framed_def)
qed

lemma loop_range:
  assumes "\<forall>k < length as. array_at tab (Suc k) = Done (as ! k)" "n \<le> length as"
  shows "\<forall>k < length (take n as). array_at tab ([1..<Suc n] ! k) = Done (take n as ! k)" "length [1..<Suc n] = length (take n as)"
    "\<forall>k < length (drop n as). array_at tab ([Suc n..<Suc (length as)] ! k) = Done (drop n as ! k)"
    "length [Suc n..<Suc (length as)] = length (drop n as)"
  using assms by (auto simp del: upt_Suc)

lemma st_size_frame [simp]:
  "entry_at (tab\<lparr>st_size := n\<rparr>) a = entry_at tab a" "array_at (tab\<lparr>st_size := n\<rparr>) i = array_at tab i"
  by (simp_all add: entry_at_def array_at_def)

text \<open>The two loops of \<open>_bfd_elf_strtab_restore\<close>.\<close>

lemma restore_loops:
  assumes d: "distinct as" "hash_ok (st_table tab)" and tab: "\<forall>k < length as. array_at tab (Suc k) = Done (as ! k)"
    and n: "n \<le> length as" and E: "\<forall>a \<in> set as. entry_at tab a = Some (E a)"
    and f: "\<And>k t. k < n \<Longrightarrow> f t (E (as ! k)) (Suc k) = Done ((E (as ! k))\<lparr>es_refcount := R k\<rparr>, Suc (Suc k))"
  shows "\<exists>t t'. for_loop f [1..<Suc n] 1 tab = Done (Suc n, t) \<and>
    for_loop (\<lambda>_ e s. Done (e\<lparr>es_refcount := 0, es_len := 0\<rparr>, s)) [Suc n..<Suc (length as)] () t = Done ((), t') \<and> framed tab t' \<and>
    (\<forall>k < n. entry_at t' (as ! k) = Some ((E (as ! k))\<lparr>es_refcount := R k\<rparr>)) \<and>
    (\<forall>a. a \<notin> set (take n as) \<longrightarrow> entry_at t' a = (if a \<in> set as then Some ((E a)\<lparr>es_refcount := 0, es_len := 0\<rparr>) else entry_at tab a))"
proof -
  have sets: "set as = set (take n as) \<union> set (drop n as)" "set (take n as) \<inter> set (drop n as) = {}"
    using d(1) append_take_drop_id [of n as] by (metis set_append, metis distinct_append)
  note r = loop_range [OF tab n]
  have "\<exists>t. for_loop f [1..<Suc n] 1 tab = Done (Suc (length (take n as)), t) \<and> framed tab t \<and>
      (\<forall>k < length (take n as). entry_at t (take n as ! k) = Some ((E (as ! k))\<lparr>es_refcount := R k\<rparr>)) \<and>
      (\<forall>a. a \<notin> set (take n as) \<longrightarrow> entry_at t a = entry_at tab a)"
    by (rule for_loop_entries [where S = Suc and E = E, OF d(2) r(1,2)]) (use d f n E sets(1) in auto)
  then obtain t where t: "for_loop f [1..<Suc n] 1 tab = Done (Suc n, t)" "framed tab t"
      "\<forall>k < n. entry_at t (as ! k) = Some ((E (as ! k))\<lparr>es_refcount := R k\<rparr>)"
      "\<forall>a. a \<notin> set (take n as) \<longrightarrow> entry_at t a = entry_at tab a"
    using n by auto
  let ?N = "\<lambda>k. (E (drop n as ! k))\<lparr>es_refcount := 0, es_len := 0\<rparr>"
  have tail: "\<forall>a \<in> set (drop n as). entry_at t a = Some (E a)" using t(4) sets E by auto
  have ok: "hash_ok (st_table t)" using t(2) by (simp add: framed_def)
  have r': "\<forall>k < length (drop n as). array_at t ([Suc n..<Suc (length as)] ! k) = Done (drop n as ! k)"
    using r(3) array_at_framed [OF t(2)] by simp
  have "\<exists>t'. for_loop (\<lambda>_ e s. Done (e\<lparr>es_refcount := 0, es_len := 0\<rparr>, s)) [Suc n..<Suc (length as)] () t = Done ((), t') \<and> framed t t' \<and>
      (\<forall>k < length (drop n as). entry_at t' (drop n as ! k) = Some (?N k)) \<and> (\<forall>a. a \<notin> set (drop n as) \<longrightarrow> entry_at t' a = entry_at t a)"
    by (rule for_loop_entries [where S = "\<lambda>_. ()" and E = E, OF ok r' r(4) _ tail]) (use d in auto)
  then obtain t' where t': "for_loop (\<lambda>_ e s. Done (e\<lparr>es_refcount := 0, es_len := 0\<rparr>, s)) [Suc n..<Suc (length as)] () t = Done ((), t')"
      "framed t t'" "\<forall>a \<in> set (drop n as). entry_at t' a = Some ((E a)\<lparr>es_refcount := 0, es_len := 0\<rparr>)"
      "\<forall>a. a \<notin> set (drop n as) \<longrightarrow> entry_at t' a = entry_at t a"
    unfolding all_set_conv_all_nth by blast
  have "entry_at t' (as ! k) = Some ((E (as ! k))\<lparr>es_refcount := R k\<rparr>)" if "k < n" for k
  proof -
    have "as ! k \<in> set (take n as)" using that n by (metis length_take min.absorb2 nth_mem nth_take)
    then show ?thesis using t'(4) t(3) sets(2) that by auto
  qed
  moreover have "entry_at t' a = (if a \<in> set as then Some ((E a)\<lparr>es_refcount := 0, es_len := 0\<rparr>) else entry_at tab a)"
    if "a \<notin> set (take n as)" for a
    using that t'(3,4) t(4) sets by auto
  ultimately show ?thesis using t(1) t'(1) framed_trans [OF t(2) t'(2)] by blast
qed


lemma restore_ok:
  assumes at: "strtab_at tab as xs" and n: "length cs \<le> length xs"
    and save: "save = Some \<lparr>sv_size = of_nat (Suc (length cs)), sv_refcount = c # cs\<rparr> \<or> save = None \<and> cs = []"
  shows "\<exists>t. elf_strtab_restore tab save = Done t \<and> strtab_at t (take (length cs) as) (zip (map fst xs) cs) \<and> st_asserts t = st_asserts tab"
proof -
  let ?n = "length cs"
  define E where "E a = the (entry_at tab a)" for a
  have arr: "arrayed tab as" "length as = length xs" using at by (simp_all add: strtab_at_def)
  have E: "\<forall>a \<in> set as. entry_at tab a = Some (E a)" using arr(1) by (auto simp: arrayed_def E_def)
  let ?m = "of_nat (Suc ?n) :: u64"
  have sz: "unat (st_size tab) = Suc (length as)" "unat ?m = Suc ?n" "?m \<le> st_size tab"
  proof -
    show s: "unat (st_size tab) = Suc (length as)" using arr(1) by (simp add: arrayed_def)
    then have "Suc ?n < 2 ^ 64" using n arr(2) unat_less_2p [of "st_size tab"] by simp
    then show "unat ?m = Suc ?n" by (simp add: unat_of_nat del: of_nat_Suc)
    then show "?m \<le> st_size tab" using s n arr(2) by (simp add: word_le_nat_alt)
  qed
  let ?f = "\<lambda>_ e idx. case save of None \<Rightarrow> Undefined
      | Some s \<Rightarrow> if idx < length (sv_refcount s) then Done (e\<lparr>es_refcount := sv_refcount s ! idx\<rparr>, Suc idx) else Undefined"
  let ?g = "\<lambda>_ e s. Done (e\<lparr>es_refcount := 0, es_len := 0\<rparr>, s)"
  have sv: "(case save of None \<Rightarrow> 1 | Some s \<Rightarrow> sv_size s) = ?m" using save by auto
  let ?tab = "tab\<lparr>st_size := ?m\<rparr>"
  have "\<exists>t t'. for_loop ?f [1..<Suc ?n] 1 ?tab = Done (Suc ?n, t) \<and>
      for_loop ?g [Suc ?n..<Suc (length as)] () t = Done ((), t') \<and> framed ?tab t' \<and>
      (\<forall>k < ?n. entry_at t' (as ! k) = Some ((E (as ! k))\<lparr>es_refcount := cs ! k\<rparr>)) \<and>
      (\<forall>a. a \<notin> set (take ?n as) \<longrightarrow>
         entry_at t' a = (if a \<in> set as then Some ((E a)\<lparr>es_refcount := 0, es_len := 0\<rparr>) else entry_at ?tab a))"
    by (rule restore_loops) (use arr n E save in \<open>auto simp: arrayed_def\<close>)
  then obtain t t' where t: "for_loop ?f [1..<Suc ?n] 1 ?tab = Done (Suc ?n, t)"
      "for_loop ?g [Suc ?n..<Suc (length as)] () t = Done ((), t')" and fr: "framed ?tab t'"
    and e: "\<And>k. k < ?n \<Longrightarrow> entry_at t' (as ! k) = Some ((E (as ! k))\<lparr>es_refcount := cs ! k\<rparr>)"
      "\<And>a. a \<notin> set (take ?n as) \<Longrightarrow> entry_at t' a = (if a \<in> set as then Some ((E a)\<lparr>es_refcount := 0, es_len := 0\<rparr>) else entry_at tab a)"
    by auto
  have run: "elf_strtab_restore tab save = Done t'"
    unfolding elf_strtab_restore_def Let_def sv using t sz at by (simp add: strtab_at_def del: of_nat_Suc upt_Suc)
  have f: "st_size t' = ?m" "st_alloced t' = st_alloced tab" "st_sec_size t' = st_sec_size tab" "st_array t' = st_array tab"
      "st_asserts t' = st_asserts tab" "hash_ok (st_table t')" "\<And>i. array_at t' i = array_at tab i"
    using fr array_at_framed [OF fr] by (simp_all add: framed_def)
  have "row t' k (take ?n as ! k) (zip (map fst xs) cs ! k)" if "k < length (zip (map fst xs) cs)" for k
  proof -
    have k: "k < ?n" "k < length xs" using that n by simp_all
    obtain x where "entry_at tab (as ! k) = Some x" "xs ! k = (he_string x, es_refcount x)" "whole x" "es_u x = Index (of_nat (Suc k))"
        "nul \<notin> set (he_string x)" using strtab_atD [OF at k(2)] by metis
    then show ?thesis using e(1) [OF k(1)] k by (simp add: row_def E_def whole_def)
  qed
  moreover have "unused x" if "entry_at t' a = Some x" "a \<notin> set (take ?n as)" for a x
    using that e(2) [OF that(2)] at unfolding strtab_at_def by (auto split: if_splits)
  moreover have "arrayed t' (take ?n as)"
  proof -
    have "\<forall>a \<in> set (take ?n as). entry_at t' a \<noteq> None" using e(1) n arr(2) by (auto simp: in_set_conv_nth)
    then show ?thesis using arr f sz(2) n by (simp add: arrayed_def del: of_nat_Suc)
  qed
  moreover have "st_size t' \<le> st_alloced t'" using f(1,2) sz(3) at by (auto simp: strtab_at_def intro: order_trans)
  ultimately have "strtab_at t' (take ?n as) (zip (map fst xs) cs)"
    using f n arr(2) at by (intro strtab_atI) (auto simp: strtab_at_def)
  then show ?thesis using run f(5) by blast
qed

end
