(* ===== verification/Bfd_Strtab_Client.thy ===== *)
theory Bfd_Strtab_Client
  imports Bfd_Strtab_Fill
begin

text \<open>
  The string table as its clients see it: the tables they can reach, the offsets they get and the bytes
  that are written.
\<close>


section \<open>Reachable tables\<close>

lemma strtab_init_ok:
  assumes "elf_strtab_init n created heap = Some tab" "n \<noteq> 0"
  shows "strtab_rep tab [] \<and> st_asserts tab = 0 \<and> ht_size (st_table tab) = n \<and> st_alloced tab = 64"
proof -
  from assms(1) obtain t h where t: "bfd_hash_table_init n created 40 = Some t"
    "tab = \<lparr>st_table = t, st_size = 1, st_alloced = 64, st_sec_size = 0, st_array = Some (replicate 64 None), st_heap = h, st_asserts = 0\<rparr>"
    by (auto simp: elf_strtab_init_def split: option.splits prod.splits)
  have ok: "hash_ok t" "ht_map t = Map.empty" "ht_size t = n"
    using init_ok [OF assms(2)] t(1) unfolding bfd_hash_table_init_def by blast+
  then have "entry_at tab a = None" for a
    using entry_at_ht_map [of tab a] t(2) by (cases "entry_at tab a") auto
  then have "strtab_at tab [] []" using ok(1) t(2) by (intro strtab_atI) (auto simp: arrayed_def)
  then show ?thesis using t(2) ok(3) by (auto simp: strtab_rep_def)
qed

text \<open>What the operations do to the list of strings and counts a table stands for.\<close>

definition string_added :: "string \<Rightarrow> (string \<times> u32) list \<Rightarrow> (string \<times> u32) list" where
  "string_added s xs = (if s = [] then xs else counted s xs)"

definition recount :: "(u32 \<Rightarrow> u32) \<Rightarrow> u64 \<Rightarrow> (string \<times> u32) list \<Rightarrow> (string \<times> u32) list" where
  "recount f i xs = (if i = 0 then xs else let k = unat i - 1 in xs[k := (fst (xs ! k), f (snd (xs ! k)))])"

definition uncounted :: "(string \<times> u32) list \<Rightarrow> (string \<times> u32) list" where
  "uncounted xs = map (\<lambda>(s, _). (s, 0)) xs"

type_synonym saves = "(strtab_save \<times> (string \<times> u32) list) list"

definition kept_saves :: "nat \<Rightarrow> saves \<Rightarrow> saves" where
  "kept_saves n svs = filter (\<lambda>(_, ys). length ys \<le> n) svs"

text \<open>The tables a client reaches before it finalises one, with the list its calls amount to: adding a string counts a reference to it, the
  calls with an index count up and down, clearing sets every count to zero, and restoring brings back the list of the time of the
  save.  An add whose hash table has no memory changes nothing, one that loses the array ends the use of the table.  \<open>svs\<close> are the saved
  states that can still be restored: a restore cuts the table, and what was saved of a longer one is of no use then.  The bounds are
  those of the code's own integer types; a count is lowered only when it is not zero.\<close>

inductive filling :: "elf_strtab_hash \<Rightarrow> (string \<times> u32) list \<Rightarrow> saves \<Rightarrow> bool" where
  init: "elf_strtab_init n created heap = Some tab \<Longrightarrow> n \<noteq> 0 \<Longrightarrow> filling tab [] []"
| add: "filling tab xs svs \<Longrightarrow> elf_strtab_add tab s copy = Done (i, t) \<Longrightarrow> nul \<notin> set s \<Longrightarrow> length s + 1 < 2 ^ 31 \<Longrightarrow>
    ht_size (st_table tab) < 4294967291 \<Longrightarrow> unat (st_alloced tab) < 2 ^ 59 \<Longrightarrow> st_array t \<noteq> None \<Longrightarrow>
    filling t (if i = - 1 then xs else string_added s xs) svs"
| addref: "filling tab xs svs \<Longrightarrow> elf_strtab_addref tab i = Done t \<Longrightarrow> i < elf_strtab_len tab \<Longrightarrow> filling t (recount (\<lambda>r. r + 1) i xs) svs"
| delref: "filling tab xs svs \<Longrightarrow> elf_strtab_delref tab i = Done t \<Longrightarrow> i < elf_strtab_len tab \<Longrightarrow> i = 0 \<or> snd (xs ! (unat i - 1)) \<noteq> 0 \<Longrightarrow>
    filling t (recount (\<lambda>r. r - 1) i xs) svs"
| clear: "filling tab xs svs \<Longrightarrow> elf_strtab_clear_all_refs tab = Done t \<Longrightarrow> filling t (uncounted xs) svs"
| save: "filling tab xs svs \<Longrightarrow> elf_strtab_save tab = Done (sv, t) \<Longrightarrow> filling t xs (case sv of None \<Rightarrow> svs | Some v \<Rightarrow> (v, xs) # svs)"
| restore: "filling tab xs svs \<Longrightarrow> (v, ys) \<in> set svs \<Longrightarrow> elf_strtab_restore tab (Some v) = Done t \<Longrightarrow> filling t ys (kept_saves (length ys) svs)"
| reset: "filling tab xs svs \<Longrightarrow> elf_strtab_restore tab None = Done t \<Longrightarrow> filling t [] (kept_saves 0 svs)"

lemma index_cases:
  assumes "strtab_at tab as xs" "i < st_size tab" "i \<noteq> 0"
  obtains k where "i = of_nat (Suc k)" "k < length xs" "unat i = Suc k"
proof -
  have "unat i < Suc (length xs)" using assms(1,2) by (simp add: strtab_at_def arrayed_def word_less_nat_alt)
  moreover have "unat i \<noteq> 0" using assms(3) by (simp add: unat_eq_0)
  ultimately obtain k where k: "unat i = Suc k" "k < length xs" by (cases "unat i") auto
  have "i = of_nat (Suc k)" using arg_cong [OF k(1), of "of_nat :: nat \<Rightarrow> u64"] by simp
  then show thesis using that k by blast
qed

text \<open>A saved state remembers the counts of a list whose strings are the first ones of the table.\<close>

definition save_of :: "(string \<times> u32) list \<Rightarrow> strtab_save \<Rightarrow> (string \<times> u32) list \<Rightarrow> bool" where
  "save_of xs v ys \<longleftrightarrow> v = \<lparr>sv_size = of_nat (Suc (length ys)), sv_refcount = 0 # map snd ys\<rparr> \<and> prefix (map fst ys) (map fst xs)"

definition saves_of :: "(string \<times> u32) list \<Rightarrow> saves \<Rightarrow> bool" where
  "saves_of xs svs \<longleftrightarrow> (\<forall>(v, ys) \<in> set svs. save_of xs v ys)"

lemma saves_of_mono: "saves_of xs svs \<Longrightarrow> prefix (map fst xs) (map fst ys) \<Longrightarrow> saves_of ys svs"
  unfolding saves_of_def save_of_def by (auto intro: prefix_order.trans)

lemma saves_of_kept:
  assumes "saves_of xs svs" "prefix (map fst ys) (map fst xs)"
  shows "saves_of ys (kept_saves (length ys) svs)"
proof -
  have "prefix (map fst zs) (map fst ys)" if "prefix (map fst zs) (map fst xs)" "length zs \<le> length ys" for zs :: "(string \<times> u32) list"
    using prefix_length_prefix [OF that(1) assms(2)] that(2) by simp
  then show ?thesis using assms(1) unfolding saves_of_def save_of_def kept_saves_def by fastforce
qed

lemma names_prefix:
  "prefix (map fst xs) (map fst (string_added s xs))" "map fst (recount f i xs) = map fst xs" "map fst (uncounted xs) = map fst xs"
proof -
  have "map fst (map (\<lambda>(t, r). (t, if t = s then r + 1 else r)) xs) = map fst xs" by (induction xs) auto
  then have "map fst (counted s xs) = map fst xs \<or> (\<exists>x. counted s xs = xs @ [x])" by (simp only: counted_def split: if_split) blast
  then show "prefix (map fst xs) (map fst (string_added s xs))" by (auto simp: string_added_def)
  show "map fst (recount f i xs) = map fst xs"
    by (cases "unat i - 1 < length xs") (auto simp: recount_def Let_def map_update list_update_same_conv intro: nth_equalityI)
  show "map fst (uncounted xs) = map fst xs" by (induction xs) (auto simp: uncounted_def)
qed

text \<open>The state of a table that is being filled.\<close>

definition filled :: "elf_strtab_hash \<Rightarrow> (string \<times> u32) list \<Rightarrow> saves \<Rightarrow> bool" where
  "filled tab xs svs \<longleftrightarrow> strtab_rep tab xs \<and> st_asserts tab = 0 \<and> saves_of xs svs"

lemma filled_at: "filled tab xs svs \<Longrightarrow> \<exists>as. strtab_at tab as xs"
  by (auto simp: filled_def strtab_rep_def)

lemma addref_filled:
  assumes "filled tab xs svs" "i < elf_strtab_len tab"
  shows "\<exists>t. elf_strtab_addref tab i = Done t \<and> filled t (recount (\<lambda>r. r + 1) i xs) svs"
proof (cases "i = 0")
  case True
  then show ?thesis using assms(1) by (simp add: elf_strtab_addref_def recount_def)
next
  case False
  obtain as where at: "strtab_at tab as xs" using filled_at [OF assms(1)] by blast
  then obtain k where k: "i = of_nat (Suc k)" "k < length xs" "unat i = Suc k"
    using index_cases [OF at assms(2) [unfolded elf_strtab_len_def] False] by blast
  show ?thesis using addref_ok [OF at k(2), of "fst (xs ! k)" "snd (xs ! k)"] assms(1) k(3) False names_prefix(2) [of "\<lambda>r. r + 1" i xs] saves_of_mono [of xs svs]
    unfolding k(1) [symmetric] by (auto simp: filled_def strtab_rep_def recount_def Let_def)
qed

lemma delref_filled:
  assumes "filled tab xs svs" "i < elf_strtab_len tab" "i = 0 \<or> snd (xs ! (unat i - 1)) \<noteq> 0"
  shows "\<exists>t. elf_strtab_delref tab i = Done t \<and> filled t (recount (\<lambda>r. r - 1) i xs) svs"
proof (cases "i = 0")
  case True
  then show ?thesis using assms(1) by (simp add: elf_strtab_delref_def recount_def)
next
  case False
  obtain as where at: "strtab_at tab as xs" using filled_at [OF assms(1)] by blast
  then obtain k where k: "i = of_nat (Suc k)" "k < length xs" "unat i = Suc k"
    using index_cases [OF at assms(2) [unfolded elf_strtab_len_def] False] by blast
  show ?thesis using delref_ok [OF at k(2), of "fst (xs ! k)" "snd (xs ! k)"] assms(1,3) k(3) False names_prefix(2) [of "\<lambda>r. r - 1" i xs] saves_of_mono [of xs svs]
    unfolding k(1) [symmetric] by (auto simp: filled_def strtab_rep_def recount_def Let_def)
qed

lemma clear_filled:
  assumes "filled tab xs svs"
  shows "\<exists>t. elf_strtab_clear_all_refs tab = Done t \<and> filled t (uncounted xs) svs"
proof -
  obtain as where at: "strtab_at tab as xs" using filled_at [OF assms] by blast
  have "map2 (\<lambda>(s, _) a. (s, 0)) xs as = uncounted xs"
    using at by (intro nth_equalityI) (auto simp: uncounted_def strtab_at_def case_prod_beta)
  then obtain t where "for_loop (\<lambda>_ e s. Done (e\<lparr>es_refcount := 0\<rparr>, s)) (array_indices tab) () tab = Done ((), t)" "framed tab t" "strtab_at t as (uncounted xs)"
    using counts_loop [where f = "\<lambda>_ e s. Done (e\<lparr>es_refcount := 0\<rparr>, s)" and F = "\<lambda>_ s. s" and R = "\<lambda>_. 0" and s = "()", OF at] by auto
  then show ?thesis using assms saves_of_mono [of xs svs "uncounted xs"] names_prefix(3) [of xs]
    by (auto simp: elf_strtab_clear_all_refs_def filled_def strtab_rep_def framed_def)
qed

lemma save_filled:
  assumes "filled tab xs svs"
  shows "\<exists>sv t. elf_strtab_save tab = Done (sv, t) \<and> filled t xs (case sv of None \<Rightarrow> svs | Some v \<Rightarrow> (v, xs) # svs) \<and> (heap_ready tab \<longrightarrow> sv \<noteq> None)"
proof -
  obtain as where at: "strtab_at tab as xs" using filled_at [OF assms] by blast
  show ?thesis
  proof (cases "heap_ready tab")
    case True
    have "unat (st_size tab) = Suc (length xs)" using at by (simp add: strtab_at_def arrayed_def)
    from arg_cong [OF this, of "of_nat :: nat \<Rightarrow> u64"] have "st_size tab = of_nat (Suc (length xs))" by simp
    then show ?thesis using save_ok [OF at True] assms by (auto simp: filled_def strtab_rep_def saves_of_def save_of_def simp del: of_nat_Suc)
  next
    case False
    then show ?thesis using assms by (simp add: elf_strtab_save_def objalloc_alloc_cases filled_def strtab_rep_def)
  qed
qed

lemma restore_filled:
  assumes "filled tab xs svs" and v: "v = None \<and> ys = [] \<or> (\<exists>w. v = Some w \<and> (w, ys) \<in> set svs)"
  shows "\<exists>t. elf_strtab_restore tab v = Done t \<and> filled t ys (kept_saves (length ys) svs)"
proof -
  obtain as where at: "strtab_at tab as xs" using filled_at [OF assms(1)] by blast
  have pre: "prefix (map fst ys) (map fst xs)" and saved: "v = Some \<lparr>sv_size = of_nat (Suc (length ys)), sv_refcount = 0 # map snd ys\<rparr> \<or> v = None \<and> ys = []"
    using assms by (auto simp: filled_def saves_of_def save_of_def)
  obtain zs where zs: "map fst xs = map fst ys @ zs" using pre by (auto simp: prefix_def)
  have len: "length (map snd ys) \<le> length xs" using arg_cong [OF zs, of length] by simp
  have same: "zip (map fst xs) (map snd ys) = ys" unfolding zs by (simp add: zip_append1 zip_map_fst_snd)
  have "saves_of ys (kept_saves (length ys) svs)" using saves_of_kept [OF _ pre] assms(1) by (auto simp: filled_def)
  moreover obtain t where "elf_strtab_restore tab v = Done t" "strtab_at t (take (length (map snd ys)) as) ys" "st_asserts t = st_asserts tab"
    using restore_ok [OF at len, of v 0] saved same by auto
  ultimately show ?thesis using assms(1) by (auto simp: filled_def strtab_rep_def)
qed

lemma added_cases:
  assumes "added tab s xs i t"
  obtains (ok) k where "i \<noteq> - 1" "strtab_rep t (counted s xs)" "k < length (counted s xs)" "i = of_nat (Suc k)" "fst (counted s xs ! k) = s"
    | (no_memory) "i = - 1" "s \<notin> fst ` set xs" "strtab_rep t xs" "alloc_failed (st_table tab) (st_table t)"
    | (no_array) "i = - 1" "s \<notin> fst ` set xs" "st_array t = None" "st_size tab = st_alloced tab" "\<not> heap_ready tab"
proof -
  have "i \<noteq> - 1" if "strtab_rep t ys" "i = of_nat (Suc k)" "k < length ys" for k ys
    using that of_nat_index(2) below_top unfolding strtab_rep_def strtab_at_def by metis
  then show thesis using assms ok no_memory no_array unfolding added_def by metis
qed

lemma add_filled:
  assumes "filled tab xs svs" "nul \<notin> set s" "length s + 1 < 2 ^ 31" "ht_size (st_table tab) < 4294967291" "unat (st_alloced tab) < 2 ^ 59"
  shows "\<exists>i t. elf_strtab_add tab s copy = Done (i, t) \<and> (st_array t \<noteq> None \<longrightarrow> filled t (if i = - 1 then xs else string_added s xs) svs)"
proof (cases "s = []")
  case True
  then show ?thesis using assms(1) by (simp add: elf_strtab_add_def string_added_def)
next
  case False
  have rep: "strtab_rep tab xs" and z: "st_asserts tab = 0" "saves_of xs svs" using assms(1) by (simp_all add: filled_def)
  obtain i t where t: "elf_strtab_add tab s copy = Done (i, t)" "added tab s xs i t" "st_asserts t = st_asserts tab"
    using add_ok [OF rep False assms(2-5), of copy] by blast
  have "saves_of (string_added s xs) svs" using saves_of_mono [OF z(2) names_prefix(1)] .
  with t(2) have "st_array t \<noteq> None \<longrightarrow> filled t (if i = - 1 then xs else string_added s xs) svs"
    using t(3) z False by (cases rule: added_cases) (simp_all add: filled_def string_added_def)
  then show ?thesis using t(1) by blast
qed

text \<open>Every step keeps this state.\<close>

lemma filling_filled: "filling tab xs svs \<Longrightarrow> filled tab xs svs"
proof (induction rule: filling.induct)
  case (init n created heap tab)
  then show ?case using strtab_init_ok by (auto simp: filled_def saves_of_def)
next
  case (add tab xs svs s copy i t)
  then show ?case using add_filled [OF add.IH add.hyps(3-6), of copy] by auto
next
  case (addref tab xs svs i t)
  then show ?case using addref_filled by fastforce
next
  case (delref tab xs svs i t)
  then show ?case using delref_filled by fastforce
next
  case (clear tab xs svs t)
  then show ?case using clear_filled by fastforce
next
  case (save tab xs svs sv t)
  then show ?case using save_filled [OF save.IH] by auto
next
  case (restore tab xs svs v ys t)
  then show ?case using restore_filled [OF restore.IH, of "Some v" ys] by auto
next
  case (reset tab xs svs t)
  then show ?case using restore_filled [OF reset.IH, of None "[]"] by auto
qed


section \<open>Properties\<close>

text \<open>When the temporary array cannot be allocated, strings are not merged, and nothing is lost if all of them are referenced.\<close>

lemma finalize_unmerged:
  assumes rep: "strtab_rep tab xs" and heap: "\<not> heap_ready tab" and all: "\<forall>x \<in> set xs. snd x \<noteq> 0"
  shows "\<exists>t es. elf_strtab_finalize tab = Done t \<and> finalized t es \<and> strings_of es = xs \<and> st_asserts t = st_asserts tab"
proof -
  let ?tab = "tab\<lparr>st_heap := (st_heap tab)\<lparr>oa_next := Suc (oa_next (st_heap tab))\<rparr>\<rparr>"
  obtain as where at: "strtab_at tab as xs" using rep by (auto simp: strtab_rep_def)
  have arr: "arrayed ?tab as" "length as = length xs" using at by (simp_all add: strtab_at_def)
  define E where "E a = the (entry_at tab a)" for a
  have row: "entry_at tab (as ! k) = Some (E (as ! k)) \<and> xs ! k = (he_string (E (as ! k)), es_refcount (E (as ! k))) \<and> whole (E (as ! k)) \<and>
      live (E (as ! k)) \<and> nul \<notin> set (he_string (E (as ! k)))" if k: "k < length xs" for k
  proof -
    obtain e where "entry_at tab (as ! k) = Some e" "xs ! k = (he_string e, es_refcount e)" "whole e" "nul \<notin> set (he_string e)"
      using strtab_atD [OF at k] by metis
    then show ?thesis using bspec [OF all nth_mem [OF k]] by (simp add: E_def)
  qed
  then have E: "\<forall>a \<in> set as. entry_at ?tab a = Some (E a)" "merged as E" "\<forall>a \<in> set as. nul \<notin> set (he_string (E a))"
    using arr(2) by (auto simp: merged_def all_set_conv_all_nth)
  obtain t es where t: "assign_offsets ?tab = Done t" "finalized t es" "st_asserts t = st_asserts ?tab"
      "list_all2 (\<lambda>e a. same_object e (E a) \<and> es_refcount e = es_refcount (E a) \<and> es_len e = es_len (E a)) es as"
    using assign_offsets_ok [OF arr(1) E] by blast
  have "strings_of es = xs"
    using t(4) row arr(2) by (intro nth_equalityI) (auto simp: list_all2_conv_all_nth same_object_def)
  then show ?thesis using heap t by (simp add: elf_strtab_finalize_def objalloc_alloc_cases) blast
qed

text \<open>Finalising, exchanging references for offsets and writing; \<open>es\<close> are the entries as they are written.\<close>

lemma finalized_written:
  assumes t: "elf_strtab_finalize tab = Done t" "finalized t es" "strings_of es = xs" and size: "total_size xs < 2 ^ 64"
    and ks: "\<forall>k \<in> set ks. k < length xs" "\<forall>k < length xs. count_list ks k \<le> unat (snd (xs ! k))" and f: "\<forall>n. bf_ok f n"
  shows "\<exists>offs t1 f' t2. resolve ks t = Done (offs, t1) \<and>
    elf_strtab_emit f t1 = Done (True, f', t2) \<and> bf_out f' = bf_out f @ image_of es \<and> unat (elf_strtab_size t) = length (image_of es) \<and>
    list_all2 (\<lambda>k off. string_at (image_of es) (unat off) = Some (fst (xs ! k))) ks offs \<and>
    ((\<forall>k < length xs. count_list ks k = unat (snd (xs ! k))) \<longrightarrow> st_asserts t2 = st_asserts t)"
proof -
  have len: "length es = length xs" and row: "\<And>k. k < length xs \<Longrightarrow> xs ! k = (he_string (es ! k), es_refcount (es ! k))"
    using t(3) by auto
  have "length (image_of es) \<le> total_size xs" using t(3) by (intro image_size) (auto simp: list_all2_conv_all_nth)
  then have small: "length (image_of es) < 2 ^ 64" using size by simp
  have "unat (st_sec_size t) = length (image_of es)" using t(2) small by (simp add: finalized_def unat_of_nat)
  then have sec: "unat (elf_strtab_size t) = length (image_of es)" by (auto simp: elf_strtab_size_def image_of_def)
  obtain offs t1 es' where t1: "resolve ks t = Done (offs, t1)" "finalized t1 es'" "image_of es' = image_of es" "length es' = length es"
      "\<forall>k < length es. unat (es_refcount (es' ! k)) = unat (es_refcount (es ! k)) - count_list ks k"
      "list_all2 (\<lambda>k off. string_at (image_of es) (unat off) = Some (he_string (es ! k))) ks offs" "st_asserts t1 = st_asserts t"
    using resolve_ok [OF t(2) small, of ks] ks row len by auto
  have "\<forall>e \<in> set es'. \<not> live e" if all: "\<forall>k < length xs. count_list ks k = unat (snd (xs ! k))"
  proof -
    have "es_refcount (es' ! k) = 0" if "k < length es" for k using t1(5) all row len that by (simp add: unat_eq_0)
    then show ?thesis using t1(4) by (auto simp: in_set_conv_nth)
  qed
  then obtain f' t2 where t2: "elf_strtab_emit f t1 = Done (True, f', t2)" "bf_out f' = bf_out f @ image_of es"
      "(\<forall>k < length xs. count_list ks k = unat (snd (xs ! k))) \<longrightarrow> st_asserts t2 = st_asserts t"
    using emit_ok [OF t1(2) f] t1(3,7) by auto
  have "list_all2 (\<lambda>k off. string_at (image_of es) (unat off) = Some (fst (xs ! k))) ks offs"
    using t1(6) ks(1) row by (auto simp: list_all2_conv_all_nth)
  then show ?thesis using t1(1) t2 sec by blast
qed


text \<open>The strings that need room of their own.\<close>

definition needs_space :: "(string \<times> u32) list \<Rightarrow> string \<times> u32 \<Rightarrow> bool" where
  "needs_space xs = (\<lambda>(s, r). r \<noteq> 0 \<and> (\<forall>(t, q) \<in> set xs. q \<noteq> 0 \<and> t \<noteq> s \<longrightarrow> \<not> suffix s t))"

definition packed :: "(string \<times> u32) list \<Rightarrow> string" where
  "packed xs = nul # concat (map (\<lambda>(s, _). s @ [nul]) (filter (needs_space xs) xs))"

lemma irredundant_packed:
  assumes irr: "irredundant es" and d: "distinct (map he_addr es)" "distinct (map he_string es)"
  shows "image_of es = packed (strings_of es)"
proof -
  have addr: "he_addr e' = he_addr e \<longleftrightarrow> he_string e' = he_string e" if "e \<in> set es" "e' \<in> set es" for e e'
    using d that by (auto simp: distinct_map inj_on_def)
  have "needs_space (strings_of es) (he_string e, es_refcount e) \<longleftrightarrow> 0 < es_len e" if "e \<in> set es" for e
    using bspec [OF irr [unfolded irredundant_def] that] addr [OF that] by (auto simp: needs_space_def)
  then have kept: "bytes_of e = (if needs_space (strings_of es) (he_string e, es_refcount e) then he_string e @ [nul] else [])"
    if "e \<in> set es" for e using that by (simp add: bytes_of_def)
  have "concat (map bytes_of fs) = concat (map (\<lambda>(s, _). s @ [nul]) (filter (needs_space (strings_of es)) (strings_of fs)))"
    if "set fs \<subseteq> set es" for fs
    using that kept by (induction fs) auto
  then show ?thesis by (simp add: image_of_def packed_def)
qed



section \<open>Samples\<close>

definition sample_heap :: "nat \<Rightarrow> objalloc" where
  "sample_heap n = \<lparr>oa_ok = \<lambda>i. i < n, oa_next = 0\<rparr>"

definition sample_strtab :: "nat \<Rightarrow> elf_strtab_hash" where
  "sample_strtab n = the (elf_strtab_init 31 (Some (sample_heap 100)) (sample_heap n))"

definition with_string :: "string \<Rightarrow> elf_strtab_hash \<Rightarrow> elf_strtab_hash" where
  "with_string s tab = (case elf_strtab_add tab s True of Done (_, t) \<Rightarrow> t | _ \<Rightarrow> tab)"

lemma sample_init: "2 \<le> n \<Longrightarrow> elf_strtab_init 31 (Some (sample_heap 100)) (sample_heap n) = Some (sample_strtab n)"
  by (simp add: sample_strtab_def elf_strtab_init_def sample_heap_def objalloc_alloc_def bfd_hash_table_init_def bfd_hash_table_init_n_def Let_def)

definition room_for :: "string \<Rightarrow> elf_strtab_hash \<Rightarrow> bool" where
  "room_for s tab \<longleftrightarrow> s \<noteq> [] \<and> nul \<notin> set s \<and> length s \<le> 9 \<and> ht_size (st_table tab) = 31 \<and> st_alloced tab = 64 \<and>
     (case elf_strtab_add tab s True of Done (i, _) \<Rightarrow> i \<noteq> - 1 | _ \<Rightarrow> False)"

lemma with_string_rep:
  assumes "strtab_rep tab xs" "room_for s tab"
  shows "strtab_rep (with_string s tab) (counted s xs)"
  using add_ok [OF assms(1), of s True] assms(2) by (auto simp: room_for_def with_string_def added_def)

lemma with_string_filling:
  assumes "filling tab xs svs" "room_for s tab"
  shows "filling (with_string s tab) (counted s xs) svs"
proof -
  obtain i t where t: "elf_strtab_add tab s True = Done (i, t)" "i \<noteq> - 1"
    using assms(2) by (auto simp: room_for_def split: cresult.splits prod.splits)
  have "strtab_rep t (counted s xs)"
    using with_string_rep [OF _ assms(2)] filling_filled [OF assms(1)] t by (auto simp: filled_def with_string_def)
  then have "st_array t \<noteq> None" by (auto simp: strtab_rep_def strtab_at_def)
  then show ?thesis using filling.add [OF assms(1) t(1)] assms(2) t by (simp add: room_for_def with_string_def string_added_def)
qed

definition sample_two :: elf_strtab_hash where
  "sample_two = with_string ''bcd'' (with_string ''d'' (sample_strtab 9))"

lemma sample_two_rep: "strtab_rep sample_two [(''d'', 1), (''bcd'', 1)]"
proof -
  have "strtab_rep (sample_strtab 9) []" using strtab_init_ok [OF sample_init [of 9]] by simp
  moreover have "room_for ''d'' (sample_strtab 9)" by code_simp
  ultimately have "strtab_rep (with_string ''d'' (sample_strtab 9)) (counted ''d'' [])" by (rule with_string_rep)
  moreover have "room_for ''bcd'' (with_string ''d'' (sample_strtab 9))" by code_simp
  ultimately have "strtab_rep sample_two (counted ''bcd'' (counted ''d'' []))" unfolding sample_two_def by (rule with_string_rep)
  then show ?thesis by (simp add: counted_def)
qed

definition sample_file :: bfd_file where
  "sample_file = \<lparr>bf_out = [], bf_ok = \<lambda>_. True, bf_calls = 0\<rparr>"



text \<open>C18: \<open>_bfd_elf_strtab_add\<close> of a string that is not empty, has no null character and fewer than \<open>2^31 - 1\<close> characters always returns, and no
  assertion fails.  It counts one more reference to a string the table knows and appends one it does not know, with one reference, and
  returns the index of the string.  All ones are returned only for an unknown string, and only when an allocation of this very call
  failed: one of the hash table's allocator, and then the strings stay as they were, or the growth of the full array, and then the array
  is lost.\<close>

theorem strtab_add_refines:
  assumes "strtab_rep tab xs" "s \<noteq> []" "nul \<notin> set s" "length s + 1 < 2 ^ 31"
    and "ht_size (st_table tab) < 4294967291" "unat (st_alloced tab) < 2 ^ 59"
  shows "\<exists>i t. elf_strtab_add tab s copy = Done (i, t) \<and> st_asserts t = st_asserts tab \<and>
    (if i = - 1
     then s \<notin> fst ` set xs \<and>
       (strtab_rep t xs \<and> alloc_failed (st_table tab) (st_table t) \<or> st_array t = None \<and> st_size tab = st_alloced tab \<and> \<not> heap_ready tab)
     else strtab_rep t (counted s xs) \<and> (\<exists>k < length (counted s xs). i = of_nat (Suc k) \<and> fst (counted s xs ! k) = s))"
proof -
  obtain i t where t: "elf_strtab_add tab s copy = Done (i, t)" "added tab s xs i t" "st_asserts t = st_asserts tab"
    using add_ok [OF assms, of copy] by blast
  from t(2) show ?thesis using t(1,3) by (cases rule: added_cases) auto
qed

theorem strtab_add_refines_witness:
  "(\<exists>i t. elf_strtab_add sample_two ''d'' False = Done (i, t) \<and> i \<noteq> - 1 \<and> strtab_rep t [(''d'', 2), (''bcd'', 1)]) \<and>
   (\<exists>i t. elf_strtab_add sample_two ''x'' False = Done (i, t) \<and> i \<noteq> - 1 \<and> strtab_rep t [(''d'', 1), (''bcd'', 1), (''x'', 1)])"
proof -
  have "ht_size (st_table sample_two) = 31" "st_alloced sample_two = 64" "st_size sample_two \<noteq> st_alloced sample_two" by code_simp+
  then have fit: "ht_size (st_table sample_two) < 4294967291" "unat (st_alloced sample_two) < 2 ^ 59" "st_size sample_two \<noteq> st_alloced sample_two" by simp_all
  have ready: "case elf_strtab_add sample_two ''x'' False of Done (i, _) \<Rightarrow> i \<noteq> - 1 | _ \<Rightarrow> False" by code_simp
  show ?thesis
    using strtab_add_refines [OF sample_two_rep _ _ _ fit(1,2), of "''d''" False] strtab_add_refines [OF sample_two_rep _ _ _ fit(1,2), of "''x''" False] ready
    by (auto simp: counted_def split: if_splits)
qed

text \<open>Restoring a table from what was saved brings back the strings and counts of that time, whatever strings were
  appended and references counted since.\<close>

theorem strtab_save_restore:
  assumes "strtab_rep tab xs" "heap_ready tab" "strtab_rep tab' ys" "prefix (map fst xs) (map fst ys)"
  shows "\<exists>save t t'. elf_strtab_save tab = Done (Some save, t) \<and> strtab_rep t xs \<and>
    elf_strtab_restore tab' (Some save) = Done t' \<and> strtab_rep t' xs \<and> st_asserts t' = st_asserts tab'"
proof -
  obtain as where as: "strtab_at tab as xs" using assms(1) by (auto simp: strtab_rep_def)
  obtain bs where bs: "strtab_at tab' bs ys" using assms(3) by (auto simp: strtab_rep_def)
  obtain zs where zs: "map fst ys = map fst xs @ zs" using assms(4) by (auto simp: prefix_def)
  have len: "length (map snd xs) \<le> length ys" using arg_cong [OF zs, of length] by simp
  have "unat (st_size tab) = Suc (length xs)" using as by (simp add: strtab_at_def arrayed_def)
  from arg_cong [OF this, of "of_nat :: nat \<Rightarrow> u64"] have "st_size tab = of_nat (Suc (length (map snd xs)))" by simp
  then obtain t where t: "elf_strtab_save tab = Done (Some \<lparr>sv_size = of_nat (Suc (length (map snd xs))), sv_refcount = 0 # map snd xs\<rparr>, t)"
      "strtab_at t as xs" using save_ok [OF as assms(2)] by auto
  have "zip (map fst ys) (map snd xs) = xs" unfolding zs by (simp add: zip_append1 zip_map_fst_snd)
  then show ?thesis using restore_ok [OF bs len, of _ 0] t unfolding strtab_rep_def by (smt (verit))
qed


theorem strtab_save_restore_witness:
  "\<exists>save t t'. elf_strtab_save sample_two = Done (Some save, t) \<and>
    elf_strtab_restore (with_string ''d'' (with_string ''x'' sample_two)) (Some save) = Done t' \<and> strtab_rep t' [(''d'', 1), (''bcd'', 1)]"
proof -
  have heap: "heap_ready sample_two" by code_simp
  have "room_for ''x'' sample_two" "room_for ''d'' (with_string ''x'' sample_two)" by code_simp+
  then have "strtab_rep (with_string ''d'' (with_string ''x'' sample_two)) (counted ''d'' (counted ''x'' [(''d'', 1), (''bcd'', 1)]))"
    using sample_two_rep by (intro with_string_rep)
  from strtab_save_restore [OF sample_two_rep heap this] show ?thesis by (fastforce simp: counted_def)
qed

text \<open>C19: Whatever a client does to a table before it finalises one (adds that succeed or find no memory, references counted up and down,
  \<open>_bfd_elf_strtab_clear_all_refs\<close>, saved states taken and restored), the table holds exactly the list of strings and counts that these calls
  amount to: the strings are distinct, each has the index of its place, and the counts read back are those of the list.  No assertion of
  the code has failed, and every further call but an add (with an index in range, a count that is not zero when it is lowered, a state
  saved of a table that was not cut shorter since) returns.\<close>

theorem strtab_filling_invariant:
  assumes "filling tab xs svs"
  shows "strtab_rep tab xs \<and> distinct (map fst xs) \<and> unat (elf_strtab_len tab) = Suc (length xs) \<and> st_asserts tab = 0 \<and>
    (\<forall>k < length xs. elf_strtab_refcount tab (of_nat (Suc k)) = Done (snd (xs ! k))) \<and>
    (\<forall>i < elf_strtab_len tab. (\<exists>t. elf_strtab_addref tab i = Done t) \<and>
       (i = 0 \<or> snd (xs ! (unat i - 1)) \<noteq> 0 \<longrightarrow> (\<exists>t. elf_strtab_delref tab i = Done t))) \<and>
    (\<exists>t. elf_strtab_clear_all_refs tab = Done t) \<and> (\<exists>sv t. elf_strtab_save tab = Done (sv, t) \<and> (heap_ready tab \<longrightarrow> sv \<noteq> None)) \<and>
    (\<forall>(v, ys) \<in> set svs. \<exists>t. elf_strtab_restore tab (Some v) = Done t) \<and> (\<exists>t. elf_strtab_restore tab None = Done t)"
proof -
  note filled = filling_filled [OF assms]
  obtain as where at: "strtab_at tab as xs" using filled_at [OF filled] by blast
  have "elf_strtab_refcount tab (of_nat (Suc k)) = Done (snd (xs ! k))" if "k < length xs" for k
    using strtab_atD [OF at that] by (metis cbind_simps(1) elf_strtab_refcount_def snd_conv)
  moreover have "unat (elf_strtab_len tab) = Suc (length xs)" using at by (simp add: elf_strtab_len_def strtab_at_def arrayed_def)
  moreover have "strtab_rep tab xs" "st_asserts tab = 0" using filled by (simp_all add: filled_def)
  moreover have "\<exists>t. elf_strtab_restore tab (Some v) = Done t" if "(v, ys) \<in> set svs" for v ys
    using restore_filled [OF filled, of "Some v" ys] that by blast
  ultimately show ?thesis
    using strtab_at_distinct [OF at] addref_filled [OF filled] delref_filled [OF filled] clear_filled [OF filled] save_filled [OF filled]
      restore_filled [OF filled, of None "[]"] by blast
qed

lemma sample_two_filling: "filling sample_two [(''d'', 1), (''bcd'', 1)] []"
proof -
  have "room_for ''d'' (sample_strtab 9)" "room_for ''bcd'' (with_string ''d'' (sample_strtab 9))" by code_simp+
  moreover have "filling (sample_strtab 9) [] []" using filling.init [OF sample_init [of 9]] by simp
  ultimately have "filling sample_two (counted ''bcd'' (counted ''d'' [])) []" unfolding sample_two_def by (intro with_string_filling)
  then show ?thesis by (simp add: counted_def)
qed

theorem strtab_filling_invariant_witness:
  "\<exists>v t1 t2 t3 t4. elf_strtab_save sample_two = Done (Some v, t1) \<and> elf_strtab_addref t1 1 = Done t2 \<and> elf_strtab_refcount t2 1 = Done 2 \<and>
    elf_strtab_clear_all_refs t2 = Done t3 \<and> elf_strtab_refcount t3 1 = Done 0 \<and>
    elf_strtab_restore t3 (Some v) = Done t4 \<and> elf_strtab_refcount t4 1 = Done 1 \<and> st_asserts t4 = 0"
proof -
  let ?xs = "[(''d'', 1), (''bcd'', 1)] :: (string \<times> u32) list" and ?ys = "[(''d'', 2), (''bcd'', 1)] :: (string \<times> u32) list"
  have "heap_ready sample_two" by code_simp
  then obtain v t1 where t1: "elf_strtab_save sample_two = Done (Some v, t1)" using strtab_filling_invariant [OF sample_two_filling] by auto
  have f1: "filling t1 ?xs [(v, ?xs)]" using filling.save [OF sample_two_filling t1] by simp
  have i1: "1 < elf_strtab_len t1" using conjunct1 [OF conjunct2 [OF conjunct2 [OF strtab_filling_invariant [OF f1]]]] by (simp add: word_less_nat_alt)
  then obtain t2 where t2: "elf_strtab_addref t1 1 = Done t2" using strtab_filling_invariant [OF f1] by blast
  have f2: "filling t2 ?ys [(v, ?xs)]" using filling.addref [OF f1 t2 i1] by (simp add: recount_def Let_def)
  obtain t3 where t3: "elf_strtab_clear_all_refs t2 = Done t3" using strtab_filling_invariant [OF f2] by blast
  have f3: "filling t3 [(''d'', 0), (''bcd'', 0)] [(v, ?xs)]" using filling.clear [OF f2 t3] by (simp add: uncounted_def)
  obtain t4 where t4: "elf_strtab_restore t3 (Some v) = Done t4" using strtab_filling_invariant [OF f3] by auto
  have f4: "filling t4 ?xs [(v, ?xs)]" using filling.restore [OF f3 _ t4, of ?xs] by (simp add: kept_saves_def)
  show ?thesis using t1 t2 t3 t4 strtab_filling_invariant [OF f2] strtab_filling_invariant [OF f3] strtab_filling_invariant [OF f4] by fastforce
qed

definition sample_short :: elf_strtab_hash where
  "sample_short = (case elf_strtab_delref (with_string ''c'' (with_string ''ab'' (sample_strtab 2))) 1 of Done t \<Rightarrow> t | _ \<Rightarrow> sample_strtab 2)"

lemma sample_short_filling: "filling sample_short [(''ab'', 0), (''c'', 1)] []"
proof -
  let ?t = "with_string ''c'' (with_string ''ab'' (sample_strtab 2))"
  have "room_for ''ab'' (sample_strtab 2)" "room_for ''c'' (with_string ''ab'' (sample_strtab 2))" by code_simp+
  moreover have "filling (sample_strtab 2) [] []" using filling.init [OF sample_init [of 2]] by simp
  ultimately have "filling ?t (counted ''c'' (counted ''ab'' [])) []" by (intro with_string_filling)
  then have f: "filling ?t [(''ab'', 1), (''c'', 1)] []" by (simp add: counted_def)
  have "case elf_strtab_delref ?t 1 of Done _ \<Rightarrow> True | _ \<Rightarrow> False" by code_simp
  then have "elf_strtab_delref ?t 1 = Done sample_short" by (simp add: sample_short_def split: cresult.splits)
  moreover have "1 < elf_strtab_len ?t" by code_simp
  ultimately show ?thesis using filling.delref [OF f] by (fastforce simp: recount_def Let_def)
qed

text \<open>When \<open>_bfd_elf_strtab_finalize\<close> cannot allocate its temporary array and the table has a string that is not referenced any
  more, the offsets leave that string out while \<open>_bfd_elf_strtab_emit\<close> writes it: the offset of \<open>c\<close> holds \<open>ab\<close>, and six bytes
  are written for a section of three.\<close>

theorem strtab_finalize_no_memory:
  "\<exists>tab xs. filling tab xs [] \<and>
     cbind (elf_strtab_finalize tab) (\<lambda>t. cbind (entry_of t 2) (\<lambda>e. cbind (elf_strtab_offset t 2) (\<lambda>(off, t1).
       cbind (elf_strtab_emit sample_file t1) (\<lambda>(ok, f, _).
         Done (he_string e, ok, string_at (bf_out f) (unat off), length (bf_out f), elf_strtab_size t))))) =
     Done (''c'', True, Some ''ab'', 6, 3)"
proof -
  have "cbind (elf_strtab_finalize sample_short) (\<lambda>t. cbind (entry_of t 2) (\<lambda>e. cbind (elf_strtab_offset t 2) (\<lambda>(off, t1).
       cbind (elf_strtab_emit sample_file t1) (\<lambda>(ok, f, _).
         Done (he_string e, ok, string_at (bf_out f) (unat off), length (bf_out f), elf_strtab_size t))))) =
     Done (''c'', True, Some ''ab'', 6, 3)"
    by code_simp
  then show ?thesis using sample_short_filling by blast
qed

end
