(* ===== verification/Bfd_Reloc.thy ===== *)
theory Bfd_Reloc
  imports Bfd_Bytes
begin

text \<open>
  Relocation of section contents, \<open>tooling/bfd-scrape/bfd/reloc.c\<close>: the overflow check, reading and writing of the field a
  \<open>howto\<close> describes, and the functions that relocate it.  Bit-fields of the C records are words of their width.  The machine's
  numbers (bits per address, octets per byte) come from the architecture table and are fields of the record of the file; a
  howto's \<open>special_function\<close> belongs to a back end and is a parameter.
\<close>

unbundle bit_operations_syntax

section \<open>Data\<close>

datatype complain_overflow =
  complain_overflow_dont | complain_overflow_bitfield | complain_overflow_signed | complain_overflow_unsigned

datatype bfd_reloc_status_type =
  bfd_reloc_ok | bfd_reloc_overflow | bfd_reloc_outofrange | bfd_reloc_continue | bfd_reloc_notsupported | bfd_reloc_other |
  bfd_reloc_undefined | bfd_reloc_dangerous

record reloc_howto_type =
  hw_type :: u32
  hw_size :: "4 word"
  hw_bitsize :: "7 word"
  hw_rightshift :: "6 word"
  hw_bitpos :: "6 word"
  hw_complain_on_overflow :: complain_overflow
  hw_negate :: bool
  hw_pc_relative :: bool
  hw_partial_inplace :: bool
  hw_pcrel_offset :: bool
  hw_install_addend :: bool
  hw_src_mask :: bfd_vma
  hw_dst_mask :: bfd_vma

datatype bfd_flavour = elf_flavour | coff_flavour | other_flavour

record bfd =
  bfd_big_endian :: bool
  bfd_bits_per_address :: nat
  bfd_arch_octets_per_byte :: u32
  bfd_get_flavour :: bfd_flavour
  bfd_xvec_name :: string
  bfd_write_direction :: bool

datatype sec_info_type =
  SEC_INFO_TYPE_NONE | SEC_INFO_TYPE_STABS | SEC_INFO_TYPE_MERGE | SEC_INFO_TYPE_EH_FRAME | SEC_INFO_TYPE_JUST_SYMS |
  SEC_INFO_TYPE_TARGET | SEC_INFO_TYPE_EH_FRAME_ENTRY | SEC_INFO_TYPE_SFRAME

text \<open>\<open>as_output_vma\<close> is \<open>output_section->vma\<close>, nothing when there is no output section; \<open>as_output_is_abs\<close> says whether the output section
  is the absolute section.\<close>

record asection =
  as_name :: string
  as_is_und :: bool
  as_is_abs :: bool
  as_is_common :: bool
  as_elf_octets :: bool
  as_debugging :: bool
  as_info_type :: sec_info_type
  as_output_is_abs :: bool
  as_vma :: bfd_vma
  as_size :: bfd_size_type
  as_rawsize :: bfd_size_type
  as_output_offset :: bfd_vma
  as_output_vma :: "bfd_vma option"

record asymbol =
  sy_value :: bfd_vma
  sy_weak :: bool
  sy_section_sym :: bool
  sy_section :: asection

text \<open>\<open>re_symbol\<close> is \<open>*sym_ptr_ptr\<close>, which can be null; a symbol always has a section.\<close>

record arelent =
  re_symbol :: "asymbol option"
  re_address :: bfd_size_type
  re_addend :: bfd_vma
  re_howto :: "reloc_howto_type option"

text \<open>A special function may change the entry and the data; the flag says whether there is an output file.\<close>

type_synonym special_function = "bfd \<Rightarrow> arelent \<Rightarrow> bytes \<Rightarrow> asection \<Rightarrow> bool \<Rightarrow> (bfd_reloc_status_type \<times> arelent \<times> bytes) cresult"

definition bfd_get_section_limit_octets :: "bfd \<Rightarrow> asection \<Rightarrow> bfd_size_type" where
  "bfd_get_section_limit_octets abfd sec =
     (if \<not> bfd_write_direction abfd \<and> as_rawsize sec \<noteq> 0 then as_rawsize sec else as_size sec)"

definition bfd_octets_per_byte :: "bfd \<Rightarrow> asection \<Rightarrow> u32" where
  "bfd_octets_per_byte abfd sec =
     (if bfd_get_flavour abfd = elf_flavour \<and> as_elf_octets sec then 1 else bfd_arch_octets_per_byte abfd)"

section \<open>Overflow\<close>

text \<open>\<open>n\<close> one bits; shifting by the width of the type or more is undefined.\<close>

definition N_ONES :: "nat \<Rightarrow> bfd_vma cresult" where
  "N_ONES n = (if n = 0 then Done 0 else if 64 < n then Undefined else Done (push_bit 1 (push_bit (n - 1) 1) - 1))"

definition sign_bits_differ :: "bfd_vma \<Rightarrow> bfd_vma \<Rightarrow> bfd_vma \<Rightarrow> bool" where
  "sign_bits_differ a signmask addrmask = (let ss = a AND signmask in ss \<noteq> 0 \<and> ss \<noteq> (addrmask AND signmask))"

definition bfd_check_overflow :: "complain_overflow \<Rightarrow> nat \<Rightarrow> nat \<Rightarrow> nat \<Rightarrow> bfd_vma \<Rightarrow> bfd_reloc_status_type cresult" where
  "bfd_check_overflow how bitsize rightshift addrsize relocation =
     (if bitsize = 0 then Done bfd_reloc_ok
      else cbind (N_ONES bitsize) (\<lambda>fieldmask. cbind (N_ONES addrsize) (\<lambda>addrones.
        if 64 \<le> rightshift then Undefined
        else let signmask = NOT fieldmask;
                 addrmask = addrones OR push_bit rightshift fieldmask;
                 a = drop_bit rightshift (relocation AND addrmask)
             in Done (if (case how of
                  complain_overflow_dont \<Rightarrow> False
                | complain_overflow_signed \<Rightarrow> sign_bits_differ a (NOT (drop_bit 1 fieldmask)) (drop_bit rightshift addrmask)
                | complain_overflow_bitfield \<Rightarrow> sign_bits_differ a signmask (drop_bit rightshift addrmask)
                | complain_overflow_unsigned \<Rightarrow> a AND signmask \<noteq> 0)
                then bfd_reloc_overflow else bfd_reloc_ok))))"

definition bfd_reloc_offset_in_range :: "reloc_howto_type \<Rightarrow> bfd \<Rightarrow> asection \<Rightarrow> bfd_size_type \<Rightarrow> bool" where
  "bfd_reloc_offset_in_range howto abfd sec off =
     (let octet_end = bfd_get_section_limit_octets abfd sec; reloc_size = ucast (hw_size howto)
      in off \<le> octet_end \<and> reloc_size \<le> octet_end - off)"

section \<open>The field\<close>

definition read_reloc :: "bfd \<Rightarrow> bytes \<Rightarrow> reloc_howto_type \<Rightarrow> bfd_vma cresult" where
  "read_reloc abfd data howto =
     (let big = bfd_big_endian abfd; n = hw_size howto
      in if n = 0 then Done 0
         else if n = 1 then within 1 data (ucast (data ! 0) AND 0xff)
         else if n = 2 then (if big then bfd_getb16 data else bfd_getl16 data)
         else if n = 3 then (if big then bfd_getb24 data else bfd_getl24 data)
         else if n = 4 then (if big then bfd_getb32 data else bfd_getl32 data)
         else if n = 8 then (if big then bfd_getb64 data else bfd_getl64 data)
         else Abort)"

definition write_reloc :: "bfd \<Rightarrow> bfd_vma \<Rightarrow> bytes \<Rightarrow> reloc_howto_type \<Rightarrow> bytes cresult" where
  "write_reloc abfd val data howto =
     (let big = bfd_big_endian abfd; n = hw_size howto
      in if n = 0 then Done data
         else if n = 1 then within 1 data (data[0 := octet val 0])
         else if n = 2 then (if big then bfd_putb16 val data else bfd_putl16 val data)
         else if n = 3 then (if big then bfd_putb24 val data else bfd_putl24 val data)
         else if n = 4 then (if big then bfd_putb32 val data else bfd_putl32 val data)
         else if n = 8 then (if big then bfd_putb64 val data else bfd_putl64 val data)
         else Abort)"

text \<open>The bits under \<open>dst_mask\<close> get the sum, the others stay.\<close>

definition insert_sum :: "reloc_howto_type \<Rightarrow> bfd_vma \<Rightarrow> bfd_vma \<Rightarrow> bfd_vma" where
  "insert_sum howto x relocation =
     (x AND NOT (hw_dst_mask howto)) OR (((x AND hw_src_mask howto) + relocation) AND hw_dst_mask howto)"

definition apply_reloc :: "bfd \<Rightarrow> bytes \<Rightarrow> reloc_howto_type \<Rightarrow> bfd_vma \<Rightarrow> bytes cresult" where
  "apply_reloc abfd data howto relocation =
     cbind (read_reloc abfd data howto) (\<lambda>val.
       let relocation = (if hw_negate howto then - relocation else relocation)
       in write_reloc abfd (insert_sum howto val relocation) data howto)"

text \<open>\<open>rightshift\<close> and \<open>bitpos\<close> are below the width of the type.\<close>

definition position :: "reloc_howto_type \<Rightarrow> bfd_vma \<Rightarrow> bfd_vma" where
  "position howto relocation = push_bit (unat (hw_bitpos howto)) (drop_bit (unat (hw_rightshift howto)) relocation)"

text \<open>A pointer into the data.\<close>

definition at_offset :: "bfd_size_type \<Rightarrow> bytes \<Rightarrow> (bytes \<Rightarrow> ('a \<times> bytes) cresult) \<Rightarrow> ('a \<times> bytes) cresult" where
  "at_offset off data f =
     (if unat off \<le> length data
      then cbind (f (drop (unat off) data)) (\<lambda>(r, p). Done (r, take (unat off) data @ p))
      else Undefined)"

section \<open>Relocating\<close>

definition overflow_signed :: "reloc_howto_type \<Rightarrow> bfd_vma \<Rightarrow> bfd_vma \<Rightarrow> bfd_vma \<Rightarrow> bfd_vma \<Rightarrow> bool" where
  "overflow_signed howto a b signmask addrmask =
     (let ss = drop_bit (unat (hw_bitpos howto)) (drop_bit 1 (NOT (hw_src_mask howto)) AND hw_src_mask howto);
          b = (b XOR ss) - ss; sum = a + b
      in sign_bits_differ a signmask addrmask \<or> NOT (a XOR b) AND (a XOR sum) AND signmask AND addrmask \<noteq> 0)"

definition contents_overflow :: "reloc_howto_type \<Rightarrow> bfd \<Rightarrow> bfd_vma \<Rightarrow> bfd_vma \<Rightarrow> bool cresult" where
  "contents_overflow howto abfd relocation x =
     (if hw_complain_on_overflow howto = complain_overflow_dont then Done False
      else cbind (N_ONES (unat (hw_bitsize howto))) (\<lambda>fieldmask. cbind (N_ONES (bfd_bits_per_address abfd)) (\<lambda>addrones.
        let rightshift = unat (hw_rightshift howto);
            signmask = NOT fieldmask;
            addrmask = addrones OR push_bit rightshift fieldmask;
            a = drop_bit rightshift (relocation AND addrmask);
            b = drop_bit (unat (hw_bitpos howto)) (x AND hw_src_mask howto AND addrmask);
            addrmask = drop_bit rightshift addrmask
        in case hw_complain_on_overflow howto of
             complain_overflow_signed \<Rightarrow> Done (overflow_signed howto a b (NOT (drop_bit 1 fieldmask)) addrmask)
           | complain_overflow_bitfield \<Rightarrow> Done (overflow_signed howto a b signmask addrmask)
           | complain_overflow_unsigned \<Rightarrow> Done ((a OR b OR ((a + b) AND addrmask)) AND signmask \<noteq> 0)
           | complain_overflow_dont \<Rightarrow> Abort)))"

definition bfd_relocate_contents ::
    "reloc_howto_type \<Rightarrow> bfd \<Rightarrow> bfd_vma \<Rightarrow> bytes \<Rightarrow> (bfd_reloc_status_type \<times> bytes) cresult" where
  "bfd_relocate_contents howto input_bfd relocation location =
     (let relocation = (if hw_negate howto then - relocation else relocation)
      in cbind (read_reloc input_bfd location howto) (\<lambda>x.
           cbind (contents_overflow howto input_bfd relocation x) (\<lambda>overflow.
             cbind (write_reloc input_bfd (insert_sum howto x (position howto relocation)) location howto) (\<lambda>p.
               Done (if overflow then bfd_reloc_overflow else bfd_reloc_ok, p)))))"

definition bfd_final_link_relocate ::
    "reloc_howto_type \<Rightarrow> bfd \<Rightarrow> asection \<Rightarrow> bytes \<Rightarrow> bfd_vma \<Rightarrow> bfd_vma \<Rightarrow> bfd_vma \<Rightarrow> (bfd_reloc_status_type \<times> bytes) cresult" where
  "bfd_final_link_relocate howto input_bfd input_section contents address val addend =
     (let octets = address * ucast (bfd_octets_per_byte input_bfd input_section)
      in if \<not> bfd_reloc_offset_in_range howto input_bfd input_section octets then Done (bfd_reloc_outofrange, contents)
         else let relocation = val + addend
              in if hw_pc_relative howto
                 then case as_output_vma input_section of
                        None \<Rightarrow> Undefined
                      | Some vma \<Rightarrow>
                          let relocation = relocation - (vma + as_output_offset input_section);
                              relocation = (if hw_pcrel_offset howto then relocation - address else relocation)
                          in at_offset octets contents (bfd_relocate_contents howto input_bfd relocation)
                 else at_offset octets contents (bfd_relocate_contents howto input_bfd relocation))"

definition bfd_clear_contents ::
    "reloc_howto_type \<Rightarrow> bfd \<Rightarrow> asection \<Rightarrow> bytes \<Rightarrow> bfd_vma \<Rightarrow> (bfd_reloc_status_type \<times> bytes) cresult" where
  "bfd_clear_contents howto input_bfd input_section buf off =
     (if \<not> bfd_reloc_offset_in_range howto input_bfd input_section off then Done (bfd_reloc_outofrange, buf)
      else at_offset off buf (\<lambda>location. cbind (read_reloc input_bfd location howto) (\<lambda>x.
        let x = x AND NOT (hw_dst_mask howto);
            x = (if as_name input_section = ''.debug_ranges'' \<and> hw_dst_mask howto AND 1 \<noteq> 0 then x OR 1 else x)
        in cbind (write_reloc input_bfd x location howto) (\<lambda>p. Done (bfd_reloc_ok, p)))))"

text \<open>The value of the symbol in the output, for \<open>bfd_perform_relocation\<close>.\<close>

definition symbol_relocation :: "reloc_howto_type \<Rightarrow> bfd \<Rightarrow> asection \<Rightarrow> asymbol \<Rightarrow> bool \<Rightarrow> bfd_vma" where
  "symbol_relocation howto abfd input_section symbol output =
     (let sec = sy_section symbol;
          relocation = (if as_is_common sec then 0 else sy_value symbol);
          output_base = (if output \<and> \<not> hw_partial_inplace howto then 0 else case as_output_vma sec of None \<Rightarrow> 0 | Some vma \<Rightarrow> vma);
          output_base = output_base + as_output_offset sec;
          output_base = (if bfd_get_flavour abfd = elf_flavour \<and> as_elf_octets sec
                         then output_base * ucast (bfd_octets_per_byte abfd input_section) else output_base)
      in relocation + output_base)"

definition relative_to_section :: "reloc_howto_type \<Rightarrow> asection \<Rightarrow> bfd_size_type \<Rightarrow> bfd_vma \<Rightarrow> bfd_vma cresult" where
  "relative_to_section howto input_section address relocation =
     (if hw_pc_relative howto
      then case as_output_vma input_section of
             None \<Rightarrow> Undefined
           | Some vma \<Rightarrow>
               let relocation = relocation - (vma + as_output_offset input_section)
               in Done (if hw_pcrel_offset howto then relocation - address else relocation)
      else Done relocation)"

text \<open>The end of both functions: check, shift, apply at \<open>offset\<close> of the data.\<close>

definition check_and_apply ::
    "reloc_howto_type \<Rightarrow> bfd \<Rightarrow> bfd_reloc_status_type \<Rightarrow> bfd_size_type \<Rightarrow> bfd_vma \<Rightarrow> arelent \<Rightarrow> bytes
     \<Rightarrow> (bfd_reloc_status_type \<times> arelent \<times> bytes) cresult" where
  "check_and_apply howto abfd flag offset relocation reloc_entry data =
     cbind (if hw_complain_on_overflow howto \<noteq> complain_overflow_dont \<and> flag = bfd_reloc_ok
            then bfd_check_overflow (hw_complain_on_overflow howto) (unat (hw_bitsize howto)) (unat (hw_rightshift howto))
                   (bfd_bits_per_address abfd) relocation
            else Done flag) (\<lambda>flag.
       cbind (at_offset offset data (\<lambda>p. cbind (apply_reloc abfd p howto (position howto relocation)) (\<lambda>p. Done (flag, p)))) (\<lambda>(flag, data).
         Done (flag, reloc_entry, data)))"

text \<open>What follows the special function; the symbol and the howto were read before it was called.\<close>

definition perform_generic ::
    "asymbol \<Rightarrow> reloc_howto_type option \<Rightarrow> bfd \<Rightarrow> arelent \<Rightarrow> bytes \<Rightarrow> asection \<Rightarrow> bool \<Rightarrow> bfd_reloc_status_type
     \<Rightarrow> (bfd_reloc_status_type \<times> arelent \<times> bytes) cresult" where
  "perform_generic symbol opt_howto abfd reloc_entry data input_section output flag =
     (let moved = reloc_entry\<lparr>re_address := re_address reloc_entry + as_output_offset input_section\<rparr>
      in if as_is_abs (sy_section symbol) \<and> output then Done (bfd_reloc_ok, moved, data)
         else case opt_howto of
           None \<Rightarrow> Done (bfd_reloc_undefined, reloc_entry, data)
         | Some howto \<Rightarrow>
             let octets = re_address reloc_entry * ucast (bfd_octets_per_byte abfd input_section)
             in if \<not> bfd_reloc_offset_in_range howto abfd input_section octets then Done (bfd_reloc_outofrange, reloc_entry, data)
                else cbind (relative_to_section howto input_section (re_address reloc_entry)
                       (symbol_relocation howto abfd input_section symbol output + re_addend reloc_entry)) (\<lambda>relocation.
                  if output \<and> \<not> hw_partial_inplace howto then Done (flag, moved\<lparr>re_addend := relocation\<rparr>, data)
                  else if output \<and> bfd_get_flavour abfd = coff_flavour
                  then check_and_apply howto abfd flag octets (relocation - re_addend reloc_entry) (moved\<lparr>re_addend := 0\<rparr>) data
                  else if output then check_and_apply howto abfd flag octets relocation (moved\<lparr>re_addend := relocation\<rparr>) data
                  else check_and_apply howto abfd flag octets relocation reloc_entry data))"

definition bfd_perform_relocation ::
    "special_function option \<Rightarrow> bfd \<Rightarrow> arelent \<Rightarrow> bytes \<Rightarrow> asection \<Rightarrow> bool \<Rightarrow> (bfd_reloc_status_type \<times> arelent \<times> bytes) cresult" where
  "bfd_perform_relocation special abfd reloc_entry data input_section output =
     (case re_symbol reloc_entry of
        None \<Rightarrow> Undefined
      | Some symbol \<Rightarrow>
          let howto = re_howto reloc_entry;
              flag = (if as_is_und (sy_section symbol) \<and> \<not> sy_weak symbol \<and> \<not> output then bfd_reloc_undefined else bfd_reloc_ok)
          in case (howto, special) of
               (Some _, Some f) \<Rightarrow>
                 cbind (f abfd reloc_entry data input_section output) (\<lambda>(cont, reloc_entry, data).
                   if cont \<noteq> bfd_reloc_continue then Done (cont, reloc_entry, data)
                   else perform_generic symbol howto abfd reloc_entry data input_section output flag)
             | _ \<Rightarrow> perform_generic symbol howto abfd reloc_entry data input_section output flag)"

definition install_value :: "asymbol \<Rightarrow> reloc_howto_type \<Rightarrow> bfd \<Rightarrow> arelent \<Rightarrow> asection \<Rightarrow> bfd_vma" where
  "install_value symbol howto abfd reloc_entry input_section =
     (let sec = sy_section symbol;
          relocation = (if as_is_common sec then 0 else sy_value symbol);
          output_base = (if \<not> hw_partial_inplace howto then 0 else as_vma sec);
          output_base = (if bfd_get_flavour abfd = elf_flavour \<and> as_elf_octets sec
                         then output_base * ucast (bfd_octets_per_byte abfd input_section) else output_base);
          relocation = relocation + output_base + re_addend reloc_entry
      in if hw_pc_relative howto
         then let relocation = relocation - as_vma input_section
              in if hw_pcrel_offset howto \<and> hw_partial_inplace howto then relocation - re_address reloc_entry else relocation
         else relocation)"

text \<open>The data begins at offset \<open>data_start_offset\<close> of the section.\<close>

definition install_inplace ::
    "reloc_howto_type \<Rightarrow> bfd \<Rightarrow> arelent \<Rightarrow> bytes \<Rightarrow> bfd_vma \<Rightarrow> asection \<Rightarrow> bfd_vma \<Rightarrow> (bfd_reloc_status_type \<times> arelent \<times> bytes) cresult" where
  "install_inplace howto abfd reloc_entry data data_start_offset input_section relocation =
     (if \<not> hw_partial_inplace howto then Done (bfd_reloc_ok, reloc_entry\<lparr>re_addend := relocation\<rparr>, data)
      else let coff = \<not> hw_install_addend howto \<and> bfd_get_flavour abfd = coff_flavour;
               entry = (if \<not> coff then reloc_entry\<lparr>re_addend := relocation\<rparr>
                        else if bfd_xvec_name abfd \<noteq> ''coff-z8k'' then reloc_entry\<lparr>re_addend := 0\<rparr> else reloc_entry);
               relocation = (if coff then relocation - re_addend reloc_entry else relocation);
               octets = re_address reloc_entry * ucast (bfd_octets_per_byte abfd input_section)
           in if \<not> bfd_reloc_offset_in_range howto abfd input_section octets then Done (bfd_reloc_outofrange, entry, data)
              else check_and_apply howto abfd bfd_reloc_ok (octets - data_start_offset) relocation entry data)"

definition install_generic ::
    "asymbol option \<Rightarrow> reloc_howto_type option \<Rightarrow> bfd \<Rightarrow> arelent \<Rightarrow> bytes \<Rightarrow> bfd_vma \<Rightarrow> asection
     \<Rightarrow> (bfd_reloc_status_type \<times> arelent \<times> bytes) cresult" where
  "install_generic opt_symbol opt_howto abfd reloc_entry data data_start_offset input_section =
     (case opt_howto of
        None \<Rightarrow> Undefined
      | Some howto \<Rightarrow>
          if hw_install_addend howto
          then install_inplace howto abfd reloc_entry data data_start_offset input_section (re_addend reloc_entry)
          else case opt_symbol of
                 None \<Rightarrow> Undefined
               | Some symbol \<Rightarrow>
                   if as_is_abs (sy_section symbol) then Done (bfd_reloc_ok, reloc_entry, data)
                   else install_inplace howto abfd reloc_entry data data_start_offset input_section
                          (install_value symbol howto abfd reloc_entry input_section))"

definition bfd_install_relocation ::
    "special_function option \<Rightarrow> bfd \<Rightarrow> arelent \<Rightarrow> bytes \<Rightarrow> bfd_vma \<Rightarrow> asection \<Rightarrow> (bfd_reloc_status_type \<times> arelent \<times> bytes) cresult" where
  "bfd_install_relocation special abfd reloc_entry data data_start_offset input_section =
     (let symbol = re_symbol reloc_entry; howto = re_howto reloc_entry
      in case (howto, special) of
           (Some _, Some f) \<Rightarrow>
             cbind (f abfd reloc_entry data input_section True) (\<lambda>(cont, reloc_entry, data).
               if cont \<noteq> bfd_reloc_continue then Done (cont, reloc_entry, data)
               else install_generic symbol howto abfd reloc_entry data data_start_offset input_section)
         | _ \<Rightarrow> install_generic symbol howto abfd reloc_entry data data_start_offset input_section)"


section \<open>Masks\<close>

lemma N_ONES_mask: "n \<le> 64 \<Longrightarrow> N_ONES n = Done (mask n)"
proof -
  assume "n \<le> 64"
  moreover have "(push_bit 1 (push_bit (n - 1) 1) - 1 :: u64) = mask n" if "n \<noteq> 0"
    using that by (cases n) (simp_all add: push_bit_push_bit mask_eq_exp_minus_1 push_bit_eq_mult)
  ultimately show ?thesis by (simp add: N_ONES_def)
qed

lemma mask_or_field: "b + r \<le> n \<Longrightarrow> mask n OR push_bit r (mask b) = (mask n :: u64)"
  by (rule bit_word_eqI) (auto simp: bit_simps)

lemma half_mask: "0 < b \<Longrightarrow> b \<le> 64 \<Longrightarrow> drop_bit 1 (mask b :: u64) = mask (b - 1)"
  by (rule bit_word_eqI) (auto simp: bit_simps)

text \<open>The test of the sign bits: from bit \<open>k\<close> on they are all equal.\<close>

lemma sign_bits_agree:
  assumes "\<forall>i. bit a i \<longrightarrow> i < m" "m \<le> 64"
  shows "\<not> sign_bits_differ a (NOT (mask k)) (mask m) \<longleftrightarrow> (\<forall>i j. k \<le> i \<and> i < m \<and> k \<le> j \<and> j < m \<longrightarrow> bit a i = bit a j)"
proof -
  have lt: "i < m \<and> i < 64" if "bit a i" for i using that assms by auto
  have "a AND NOT (mask k) = 0 \<longleftrightarrow> (\<forall>i. k \<le> i \<and> i < m \<longrightarrow> \<not> bit a i)"
    unfolding bit_eq_iff using assms by (auto simp: bit_simps) (metis lt not_le)+
  moreover have "a AND NOT (mask k) = mask m AND NOT (mask k) \<longleftrightarrow> (\<forall>i. k \<le> i \<and> i < m \<longrightarrow> bit a i)"
    unfolding bit_eq_iff using assms by (auto simp: bit_simps) (meson not_le order_less_le_trans)
  ultimately show ?thesis unfolding sign_bits_differ_def Let_def by blast
qed

lemma signed_range_bits:
  assumes "0 < m"
  shows "- (2 ^ k) \<le> signed_take_bit (m - 1) x \<and> signed_take_bit (m - 1) x < 2 ^ k \<longleftrightarrow>
    (\<forall>i j. k \<le> i \<and> i < m \<and> k \<le> j \<and> j < m \<longrightarrow> bit (x :: int) i = bit x j)"
proof -
  have "- (2 ^ k) \<le> signed_take_bit (m - 1) x \<and> signed_take_bit (m - 1) x < 2 ^ k \<longleftrightarrow>
      signed_take_bit k (signed_take_bit (m - 1) x) = signed_take_bit (m - 1) x"
    using signed_take_bit_int_eq_self_iff [of k "signed_take_bit (m - 1) x"] by (simp only:)
  also have "\<dots> \<longleftrightarrow> (\<forall>i. bit x (min (m - 1) (min k i)) = bit x (min (m - 1) i))"
    by (simp add: bit_eq_iff bit_signed_take_bit_iff ac_simps)
  also have "\<dots> \<longleftrightarrow> (\<forall>i j. k \<le> i \<and> i < m \<and> k \<le> j \<and> j < m \<longrightarrow> bit x i = bit x j)"
  proof
    assume *: "\<forall>i. bit x (min (m - 1) (min k i)) = bit x (min (m - 1) i)"
    have "bit x i = bit x k" if "k \<le> i" "i < m" for i
    proof -
      have "min (m - 1) (min k i) = k" "min (m - 1) i = i" using that by auto
      then show ?thesis using spec [OF *, of i] by simp
    qed
    then show "\<forall>i j. k \<le> i \<and> i < m \<and> k \<le> j \<and> j < m \<longrightarrow> bit x i = bit x j" by blast
  next
    assume *: "\<forall>i j. k \<le> i \<and> i < m \<and> k \<le> j \<and> j < m \<longrightarrow> bit x i = bit x j"
    show "\<forall>i. bit x (min (m - 1) (min k i)) = bit x (min (m - 1) i)"
    proof
      fix i
      show "bit x (min (m - 1) (min k i)) = bit x (min (m - 1) i)"
        using spec [OF spec [OF *, of k], of "min (m - 1) i"] assms by (auto simp: min_def)
    qed
  qed
  finally show ?thesis .
qed

text \<open>The address as a number of \<open>n\<close> bits, shifted.\<close>

definition shifted_address :: "nat \<Rightarrow> nat \<Rightarrow> bfd_vma \<Rightarrow> int" where
  "shifted_address n r relocation = signed_take_bit (n - 1) (uint relocation) div 2 ^ r"

lemma shifted_address_bits:
  assumes "r < n"
  shows "shifted_address n r relocation = signed_take_bit (n - r - 1) (drop_bit r (uint relocation))"
proof -
  have "min (n - Suc 0) (r + i) = r + min (n - r - 1) i" for i using assms by auto
  then have "drop_bit r (signed_take_bit (n - 1) (uint relocation)) = signed_take_bit (n - r - 1) (drop_bit r (uint relocation))"
    by (intro bit_eqI) (simp add: bit_simps)
  then show ?thesis by (simp add: shifted_address_def drop_bit_eq_div)
qed

lemma sign_bits_address:
  assumes "r < n" "n \<le> 64"
  shows "sign_bits_differ (drop_bit r (relocation AND mask n)) (NOT (mask k)) (mask (n - r)) \<longleftrightarrow>
    \<not> (- (2 ^ k) \<le> shifted_address n r relocation \<and> shifted_address n r relocation < 2 ^ k)"
proof -
  let ?a = "drop_bit r (relocation AND mask n)"
  have bits: "bit ?a i \<longleftrightarrow> i < n - r \<and> bit relocation (r + i)" for i
    using assms by (auto simp: bit_simps dest: bit_imp_le_length)
  have "\<not> sign_bits_differ ?a (NOT (mask k)) (mask (n - r)) \<longleftrightarrow>
      (\<forall>i j. k \<le> i \<and> i < n - r \<and> k \<le> j \<and> j < n - r \<longrightarrow> bit ?a i = bit ?a j)"
    using assms bits by (intro sign_bits_agree) auto
  also have "\<dots> \<longleftrightarrow> (\<forall>i j. k \<le> i \<and> i < n - r \<and> k \<le> j \<and> j < n - r \<longrightarrow>
      bit (drop_bit r (uint relocation)) i = bit (drop_bit r (uint relocation)) j)"
    using bits by (auto simp: bit_simps)
  also have "\<dots> \<longleftrightarrow> - (2 ^ k) \<le> shifted_address n r relocation \<and> shifted_address n r relocation < 2 ^ k"
    unfolding shifted_address_bits [OF assms(1)] by (rule signed_range_bits [symmetric]) (use assms in simp)
  finally show ?thesis by blast
qed

lemma unsigned_address:
  assumes "n \<le> 64"
  shows "drop_bit r ((relocation :: bfd_vma) AND mask n) AND NOT (mask b) = 0 \<longleftrightarrow> uint relocation mod 2 ^ n div 2 ^ r < 2 ^ b"
proof -
  let ?a = "drop_bit r (relocation AND mask n)"
  have "uint ?a = drop_bit r (take_bit n (uint relocation))"
    using assms by (simp add: unsigned_drop_bit_eq unsigned_take_bit_eq flip: take_bit_eq_mask)
  then have u: "uint ?a = uint relocation mod 2 ^ n div 2 ^ r" by (simp add: drop_bit_eq_div take_bit_eq_mod)
  have "?a AND NOT (mask b) = 0 \<longleftrightarrow> take_bit b (uint ?a) = uint ?a"
    unfolding bit_eq_iff [where 'a = int] bit_eq_iff [where 'a = "64 word"] by (auto simp: bit_simps)
  also have "\<dots> \<longleftrightarrow> uint ?a < 2 ^ b" by (simp add: take_bit_int_eq_self_iff)
  finally show ?thesis unfolding u .
qed


section \<open>The overflow check\<close>

text \<open>What it means that a relocation fits into \<open>b\<close> bits.\<close>

definition fits :: "complain_overflow \<Rightarrow> nat \<Rightarrow> nat \<Rightarrow> nat \<Rightarrow> bfd_vma \<Rightarrow> bool" where
  "fits how b r n relocation =
     (case how of
        complain_overflow_dont \<Rightarrow> True
      | complain_overflow_signed \<Rightarrow> - (2 ^ (b - 1)) \<le> shifted_address n r relocation \<and> shifted_address n r relocation < 2 ^ (b - 1)
      | complain_overflow_bitfield \<Rightarrow> - (2 ^ b) \<le> shifted_address n r relocation \<and> shifted_address n r relocation < 2 ^ b
      | complain_overflow_unsigned \<Rightarrow> uint relocation mod 2 ^ n div 2 ^ r < 2 ^ b)"

lemma check_overflow_fits:
  assumes "0 < b" "b + r \<le> n" "n \<le> 64"
  shows "bfd_check_overflow how b r n relocation = Done (if fits how b r n relocation then bfd_reloc_ok else bfd_reloc_overflow)"
proof -
  have n: "r < n" "r < 64" "b \<le> 64" using assms by simp_all
  have ones: "N_ONES b = Done (mask b)" "N_ONES n = Done (mask n)" using N_ONES_mask assms(3) n(3) by simp_all
  have shift: "drop_bit r (mask n) = (mask (n - r) :: u64)" by (rule bit_word_eqI) (use assms(3) in \<open>auto simp: bit_simps\<close>)
  show ?thesis
    unfolding bfd_check_overflow_def ones cbind_simps Let_def mask_or_field [OF assms(2)] half_mask [OF assms(1) n(3)] shift fits_def
      sign_bits_address [OF n(1) assms(3)] unsigned_address [OF assms(3)]
    using assms(1) n(2) by (cases how) auto
qed

text \<open>With no addend in the contents the two overflow checks of the file agree.\<close>

lemma contents_overflow_check:
  assumes "hw_src_mask howto = 0" "hw_bitsize howto \<noteq> 0" "unat (hw_bitsize howto) \<le> 64" "bfd_bits_per_address abfd \<le> 64"
  shows "cbind (contents_overflow howto abfd relocation x) (\<lambda>overflow. Done (if overflow then bfd_reloc_overflow else bfd_reloc_ok)) =
    bfd_check_overflow (hw_complain_on_overflow howto) (unat (hw_bitsize howto)) (unat (hw_rightshift howto)) (bfd_bits_per_address abfd) relocation"
proof -
  let ?b = "unat (hw_bitsize howto)" and ?r = "unat (hw_rightshift howto)" and ?n = "bfd_bits_per_address abfd"
  have b: "?b \<noteq> 0" using assms(2) by (simp add: unat_eq_0)
  have r: "\<not> 64 \<le> ?r" using unat_less_2p [of "hw_rightshift howto"] by simp
  note ones = N_ONES_mask [OF assms(3)] N_ONES_mask [OF assms(4)]
  have a: "drop_bit ?r (relocation AND m) AND drop_bit ?r m = drop_bit ?r (relocation AND m)" for m
    by (rule bit_word_eqI) (auto simp: bit_simps)
  show ?thesis
    by (cases "hw_complain_on_overflow howto")
      (simp_all add: contents_overflow_def bfd_check_overflow_def b r ones Let_def assms(1) overflow_signed_def a)
qed


section \<open>The field\<close>

text \<open>The sizes the code knows.\<close>

definition howto_ok :: "reloc_howto_type \<Rightarrow> bool" where
  "howto_ok howto \<longleftrightarrow> hw_size howto \<in> {0, 1, 2, 3, 4, 8} \<and> unat (hw_bitsize howto) \<le> 64"

abbreviation field_size :: "reloc_howto_type \<Rightarrow> nat" where
  "field_size howto \<equiv> unat (hw_size howto)"

lemma and_mask_ff: "(ucast (b :: u8) :: u64) AND 0xff = ucast b"
  unfolding mask_ff by (rule bit_word_eqI) (auto simp: bit_simps dest: bit_imp_le_length)

lemma field_loops:
  assumes "howto_ok howto"
  shows "read_reloc abfd data howto = bfd_get_bits data (8 * int (field_size howto)) (bfd_big_endian abfd)"
    "write_reloc abfd val data howto = bfd_put_bits val data (8 * int (field_size howto)) (bfd_big_endian abfd)"
    "field_size howto \<le> 8"
proof -
  have one: "get_bits_loop 0 (Suc 0) b data 0 = ucast (data ! 0) AND 0xff" "put_bits_loop 0 (Suc 0) b val data = data[0 := octet val 0]" for b
    using and_mask_ff by (simp_all add: loops_unfold)
  have n: "hw_size howto = 0 \<or> hw_size howto = 1 \<or> hw_size howto = 2 \<or> hw_size howto = 3 \<or> hw_size howto = 4 \<or> hw_size howto = 8"
    using assms by (simp add: howto_ok_def)
  then show "field_size howto \<le> 8" by auto
  show "read_reloc abfd data howto = bfd_get_bits data (8 * int (field_size howto)) (bfd_big_endian abfd)"
    using n by (elim disjE) (simp_all add: read_reloc_def Let_def get_fixed bfd_get_bits_def one loops_unfold(1) [of 0 0])
  show "write_reloc abfd val data howto = bfd_put_bits val data (8 * int (field_size howto)) (bfd_big_endian abfd)"
    using n by (elim disjE) (simp_all add: write_reloc_def Let_def put_fixed bfd_put_bits_def one loops_unfold(2) [of 0 0])
qed


text \<open>Replacing the field of a howto in a buffer.\<close>

lemma replace_field:
  assumes ok: "howto_ok howto" and room: "unat off + field_size howto \<le> length data"
  shows "\<exists>x. read_reloc abfd (drop (unat off) data) howto = Done x \<and>
    (\<forall>y. \<exists>p. write_reloc abfd y (drop (unat off) data) howto = Done p \<and>
       length (take (unat off) data @ p) = length data \<and>
       drop (unat off + field_size howto) (take (unat off) data @ p) = drop (unat off + field_size howto) data \<and>
       read_reloc abfd p howto = Done (take_bit (8 * field_size howto) y))"
proof -
  let ?n = "field_size howto" and ?big = "bfd_big_endian abfd" and ?q = "drop (unat off) data"
  have n: "nat (8 * int ?n div 8) = ?n" "nat (8 * int ?n) = 8 * ?n" by (simp_all add: nat_mult_distrib)
  have b: "8 * int ?n mod 8 = 0" "0 \<le> 8 * int ?n" "8 * int ?n \<le> 64" "?n \<le> length ?q"
    using field_loops(3) [OF ok] room by (simp, simp, linarith, simp)
  have "\<exists>x. bfd_get_bits ?q (8 * int ?n) ?big = Done x" using b(4) by (simp add: bfd_get_bits_def Let_def)
  moreover have "\<exists>p. bfd_put_bits y ?q (8 * int ?n) ?big = Done p \<and> length (take (unat off) data @ p) = length data \<and>
      drop (unat off + ?n) (take (unat off) data @ p) = drop (unat off + ?n) data \<and> bfd_get_bits p (8 * int ?n) ?big = Done (take_bit (8 * ?n) y)" for y
  proof -
    obtain p where p: "bfd_put_bits y ?q (8 * int ?n) ?big = Done p" "length p = length ?q" "drop ?n p = drop ?n ?q"
        "bfd_get_bits p (8 * int ?n) ?big = Done (take_bit (8 * ?n) y)"
      using conjunct1 [OF put_get_bits [of "8 * int ?n" ?q y ?big]] b unfolding n by blast
    have "drop (unat off + ?n) (take (unat off) data @ p) = drop ?n p" using room by simp
    then show ?thesis using p room by (simp add: add.commute)
  qed
  ultimately show ?thesis unfolding field_loops(1,2) [OF ok] by blast
qed

section \<open>Relocating\<close>

text \<open>The value \<open>_bfd_final_link_relocate\<close> puts into the field.\<close>

definition final_value :: "reloc_howto_type \<Rightarrow> asection \<Rightarrow> bfd_vma \<Rightarrow> bfd_vma \<Rightarrow> bfd_vma \<Rightarrow> bfd_vma \<Rightarrow> bfd_vma" where
  "final_value howto input_section vma address val addend =
     (let relocation = val + addend -
        (if hw_pc_relative howto then vma + as_output_offset input_section + (if hw_pcrel_offset howto then address else 0) else 0)
      in if hw_negate howto then - relocation else relocation)"

lemma in_range_room:
  assumes "bfd_reloc_offset_in_range howto abfd sec off" "unat (bfd_get_section_limit_octets abfd sec) \<le> length contents"
  shows "unat off + field_size howto \<le> length contents"
proof -
  have "off \<le> bfd_get_section_limit_octets abfd sec" "ucast (hw_size howto) \<le> bfd_get_section_limit_octets abfd sec - off"
    using assms(1) by (simp_all add: bfd_reloc_offset_in_range_def Let_def)
  then have "unat off \<le> unat (bfd_get_section_limit_octets abfd sec)"
      "unat (ucast (hw_size howto) :: u64) \<le> unat (bfd_get_section_limit_octets abfd sec) - unat off"
    by (simp_all add: word_le_nat_alt unat_sub)
  moreover have "unat (ucast (hw_size howto) :: u64) = field_size howto"
    using unat_less_2p [of "hw_size howto"] by (simp add: unsigned_ucast_eq take_bit_nat_eq_self_iff)
  ultimately show ?thesis using assms(2) by linarith
qed


lemma contents_overflow_total:
  assumes "howto_ok howto" "bfd_bits_per_address abfd \<le> 64"
  shows "\<exists>overflow. contents_overflow howto abfd relocation x = Done overflow"
  using assms by (cases "hw_complain_on_overflow howto") (auto simp: contents_overflow_def N_ONES_mask howto_ok_def Let_def)

text \<open>The result of relocating one field in a buffer: the field, and everything around it.\<close>

definition relocated :: "reloc_howto_type \<Rightarrow> bfd \<Rightarrow> bfd_size_type \<Rightarrow> bfd_vma \<Rightarrow> bytes \<Rightarrow> bytes \<Rightarrow> bool" where
  "relocated howto abfd off y contents contents' \<longleftrightarrow>
     length contents' = length contents \<and> take (unat off) contents' = take (unat off) contents \<and>
     drop (unat off + field_size howto) contents' = drop (unat off + field_size howto) contents \<and>
     (\<exists>x. read_reloc abfd (drop (unat off) contents) howto = Done x \<and>
        read_reloc abfd (drop (unat off) contents') howto = Done (take_bit (8 * field_size howto) (insert_sum howto x y)))"

lemma relocate_contents_ok:
  assumes ok: "howto_ok howto" "bfd_bits_per_address abfd \<le> 64" and room: "unat off + field_size howto \<le> length contents"
  shows "\<exists>overflow contents' x. at_offset off contents (bfd_relocate_contents howto abfd relocation) =
      Done (if overflow then bfd_reloc_overflow else bfd_reloc_ok, contents') \<and>
    contents_overflow howto abfd (if hw_negate howto then - relocation else relocation) x = Done overflow \<and>
    relocated howto abfd off (position howto (if hw_negate howto then - relocation else relocation)) contents contents'"
proof -
  let ?r = "if hw_negate howto then - relocation else relocation"
  obtain x where x: "read_reloc abfd (drop (unat off) contents) howto = Done x"
    and w: "\<And>y. \<exists>p. write_reloc abfd y (drop (unat off) contents) howto = Done p \<and>
       length (take (unat off) contents @ p) = length contents \<and>
       drop (unat off + field_size howto) (take (unat off) contents @ p) = drop (unat off + field_size howto) contents \<and>
       read_reloc abfd p howto = Done (take_bit (8 * field_size howto) y)"
    using replace_field [OF ok(1) room] by blast
  obtain p where p: "write_reloc abfd (insert_sum howto x (position howto ?r)) (drop (unat off) contents) howto = Done p"
      "length (take (unat off) contents @ p) = length contents"
      "drop (unat off + field_size howto) (take (unat off) contents @ p) = drop (unat off + field_size howto) contents"
      "read_reloc abfd p howto = Done (take_bit (8 * field_size howto) (insert_sum howto x (position howto ?r)))"
    using w by blast
  obtain overflow where o: "contents_overflow howto abfd ?r x = Done overflow" using contents_overflow_total [OF ok] by blast
  have "relocated howto abfd off (position howto ?r) contents (take (unat off) contents @ p)"
    unfolding relocated_def using p x room by simp
  moreover have "at_offset off contents (bfd_relocate_contents howto abfd relocation) =
      Done (if overflow then bfd_reloc_overflow else bfd_reloc_ok, take (unat off) contents @ p)"
    using room x o p(1) by (simp add: at_offset_def bfd_relocate_contents_def Let_def)
  ultimately show ?thesis using o by blast
qed

lemma final_link_contents:
  assumes "hw_pc_relative howto \<longrightarrow> as_output_vma sec = Some vma"
    and "off = address * ucast (bfd_octets_per_byte abfd sec)" "bfd_reloc_offset_in_range howto abfd sec off"
  shows "\<exists>relocation. bfd_final_link_relocate howto abfd sec contents address val addend =
      at_offset off contents (bfd_relocate_contents howto abfd relocation) \<and>
    (if hw_negate howto then - relocation else relocation) = final_value howto sec vma address val addend"
  using assms by (auto simp: bfd_final_link_relocate_def Let_def final_value_def diff_diff_eq)


lemma inserted_bits:
  assumes "hw_src_mask howto = 0" "hw_dst_mask howto = push_bit (unat (hw_bitpos howto)) (mask b)"
    and "unat (hw_bitpos howto) + b \<le> 8 * field_size howto" "field_size howto \<le> 8" "b + unat (hw_rightshift howto) \<le> 64" "i < b"
  shows "bit (drop_bit (unat (hw_bitpos howto)) (take_bit (8 * field_size howto) (insert_sum howto x (position howto v)))) i =
    bit v (unat (hw_rightshift howto) + i)"
  using assms by (auto simp: insert_sum_def position_def bit_simps)

lemma field_value_signed:
  assumes "0 < b" "b + r \<le> n" "\<forall>i < b. bit y i = bit v (r + i)"
    and "- (2 ^ (b - 1)) \<le> shifted_address n r v \<and> shifted_address n r v < 2 ^ (b - 1)" "n \<le> 64"
  shows "signed_take_bit (b - 1) (uint (y :: u64)) = shifted_address n r v"
proof -
  have r: "r < n" and le: "b - 1 \<le> n - r - 1" using assms by simp_all
  have "shifted_address n r v = signed_take_bit (b - 1) (shifted_address n r v)"
    using assms(4) by (metis signed_take_bit_int_eq_self_iff)
  also have "\<dots> = signed_take_bit (b - 1) (drop_bit r (uint v))"
    unfolding shifted_address_bits [OF r] using le by (simp add: min_def)
  also have "\<dots> = signed_take_bit (b - 1) (uint y)"
  proof (rule bit_eqI)
    fix i
    have "min (b - 1) i < b" using assms(1) by simp
    then have "bit y (min (b - 1) i) = bit v (r + min (b - 1) i)" using assms(3) by blast
    then show "bit (signed_take_bit (b - 1) (drop_bit r (uint v))) i = bit (signed_take_bit (b - 1) (uint y)) i"
      using assms(1,2,5) by (auto simp: bit_simps)
  qed
  finally show ?thesis by simp
qed



lemma relocate_is_apply:
  assumes "howto_ok howto" "bfd_bits_per_address abfd \<le> 64" "hw_src_mask howto = 0" "\<not> hw_negate howto"
    and "hw_bitsize howto \<noteq> 0 \<or> hw_complain_on_overflow howto = complain_overflow_dont"
  shows "\<exists>flag. bfd_relocate_contents howto abfd relocation =
      (\<lambda>p. cbind (apply_reloc abfd p howto (position howto relocation)) (\<lambda>p. Done (flag, p))) \<and>
    (if hw_complain_on_overflow howto \<noteq> complain_overflow_dont
     then bfd_check_overflow (hw_complain_on_overflow howto) (unat (hw_bitsize howto)) (unat (hw_rightshift howto))
            (bfd_bits_per_address abfd) relocation
     else Done bfd_reloc_ok) = Done flag"
proof -
  let ?flag = "if hw_complain_on_overflow howto \<noteq> complain_overflow_dont
     then bfd_check_overflow (hw_complain_on_overflow howto) (unat (hw_bitsize howto)) (unat (hw_rightshift howto))
            (bfd_bits_per_address abfd) relocation
     else Done bfd_reloc_ok"
  have chk: "cbind (contents_overflow howto abfd relocation x) (\<lambda>overflow. Done (if overflow then bfd_reloc_overflow else bfd_reloc_ok)) = ?flag" for x
    using contents_overflow_check [OF assms(3) _ _ assms(2), of relocation x] assms(1,5) by (auto simp: contents_overflow_def howto_ok_def)
  obtain o0 where "contents_overflow howto abfd relocation 0 = Done o0" using contents_overflow_total [OF assms(1,2)] by blast
  then have flag: "?flag = Done (if o0 then bfd_reloc_overflow else bfd_reloc_ok)" using chk [of 0] by simp
  have co: "contents_overflow howto abfd relocation x = Done o0" for x
    using contents_overflow_total [OF assms(1,2), of relocation x] chk [of x] flag by (auto split: if_splits)
  have "bfd_relocate_contents howto abfd relocation =
      (\<lambda>p. cbind (apply_reloc abfd p howto (position howto relocation)) (\<lambda>p. Done (if o0 then bfd_reloc_overflow else bfd_reloc_ok, p)))"
  proof
    fix p
    show "bfd_relocate_contents howto abfd relocation p =
        cbind (apply_reloc abfd p howto (position howto relocation)) (\<lambda>p. Done (if o0 then bfd_reloc_overflow else bfd_reloc_ok, p))"
      using assms(4) co by (cases "read_reloc abfd p howto") (simp_all add: bfd_relocate_contents_def apply_reloc_def Let_def)
  qed
  then show ?thesis using flag by blast
qed


text \<open>C28: A final link relocation never reads or writes outside the section: an offset whose field would not lie in the
  section is refused with the contents unchanged, and any other one changes its field only, by the sum under the masks of the howto.\<close>

theorem relocations_stay_inside:
  assumes "howto_ok howto" "bfd_bits_per_address abfd \<le> 64" "hw_pc_relative howto \<longrightarrow> as_output_vma sec = Some vma"
    and "unat (bfd_get_section_limit_octets abfd sec) \<le> length contents" "off = address * ucast (bfd_octets_per_byte abfd sec)"
  shows "\<exists>st contents'. bfd_final_link_relocate howto abfd sec contents address val addend = Done (st, contents') \<and>
    (if bfd_reloc_offset_in_range howto abfd sec off
     then st \<in> {bfd_reloc_ok, bfd_reloc_overflow} \<and> unat off + field_size howto \<le> length contents \<and>
       relocated howto abfd off (position howto (final_value howto sec vma address val addend)) contents contents'
     else st = bfd_reloc_outofrange \<and> contents' = contents)"
proof (cases "bfd_reloc_offset_in_range howto abfd sec off")
  case True
  have room: "unat off + field_size howto \<le> length contents" by (rule in_range_room [OF True assms(4)])
  obtain rv where rv: "bfd_final_link_relocate howto abfd sec contents address val addend =
      at_offset off contents (bfd_relocate_contents howto abfd rv)" "(if hw_negate howto then - rv else rv) = final_value howto sec vma address val addend"
    using final_link_contents [OF assms(3,5) True, of contents val addend] by blast
  show ?thesis using relocate_contents_ok [OF assms(1,2) room, of rv] True room unfolding rv by (auto split: if_splits)
next
  case False
  then show ?thesis using assms(5) by (simp add: bfd_final_link_relocate_def)
qed

text \<open>C27: The overflow check is exact: a value passes if and only if it, taken as an address of \<open>addrsize\<close> bits and shifted,
  lies in the range of the field, which for a bit-field of \<open>n\<close> bits is \<open>-2^n\<close> to \<open>2^n - 1\<close>.\<close>

theorem check_overflow_exact:
  assumes "0 < bitsize" "bitsize + rightshift \<le> addrsize" "addrsize \<le> 64"
  shows "bfd_check_overflow how bitsize rightshift addrsize relocation =
    Done (if fits how bitsize rightshift addrsize relocation then bfd_reloc_ok else bfd_reloc_overflow)"
  by (rule check_overflow_fits [OF assms])


text \<open>Clearing a field sets the bits of the destination mask to zero, to one for the lowest bit of a field in a range
  list, and leaves everything else as it was.\<close>

theorem clear_contents_exact:
  assumes "howto_ok howto" "unat (bfd_get_section_limit_octets abfd sec) \<le> length buf" "bfd_reloc_offset_in_range howto abfd sec off"
  shows "\<exists>buf' x. bfd_clear_contents howto abfd sec buf off = Done (bfd_reloc_ok, buf') \<and> length buf' = length buf \<and>
    take (unat off) buf' = take (unat off) buf \<and> drop (unat off + field_size howto) buf' = drop (unat off + field_size howto) buf \<and>
    read_reloc abfd (drop (unat off) buf) howto = Done x \<and>
    read_reloc abfd (drop (unat off) buf') howto = Done (take_bit (8 * field_size howto)
      (if as_name sec = ''.debug_ranges'' then (x AND NOT (hw_dst_mask howto)) OR (hw_dst_mask howto AND 1) else x AND NOT (hw_dst_mask howto)))"
proof -
  have room: "unat off + field_size howto \<le> length buf" by (rule in_range_room [OF assms(3,2)])
  let ?y = "\<lambda>x. if as_name sec = ''.debug_ranges'' then (x AND NOT (hw_dst_mask howto)) OR (hw_dst_mask howto AND 1) else x AND NOT (hw_dst_mask howto)"
  have low: "hw_dst_mask howto AND 1 = 0 \<or> hw_dst_mask howto AND 1 = 1" by (simp add: and_one_eq mod_2_eq_odd)
  obtain x p where x: "read_reloc abfd (drop (unat off) buf) howto = Done x"
    and p: "write_reloc abfd (?y x) (drop (unat off) buf) howto = Done p" "length (take (unat off) buf @ p) = length buf"
      "drop (unat off + field_size howto) (take (unat off) buf @ p) = drop (unat off + field_size howto) buf"
      "read_reloc abfd p howto = Done (take_bit (8 * field_size howto) (?y x))"
    using replace_field [OF assms(1) room, of abfd] by blast
  have y: "(let x = x AND NOT (hw_dst_mask howto) in if as_name sec = ''.debug_ranges'' \<and> hw_dst_mask howto AND 1 \<noteq> 0 then x OR 1 else x) = ?y x"
    using low by (auto simp: Let_def)
  have "bfd_clear_contents howto abfd sec buf off = Done (bfd_reloc_ok, take (unat off) buf @ p)"
    using assms(3) room x p(1) y by (simp add: bfd_clear_contents_def at_offset_def Let_def)
  then show ?thesis using x p room by (intro exI [of _ "take (unat off) buf @ p"] exI [of _ x]) simp
qed

section \<open>Samples\<close>

text \<open>A 32-bit field relative to the place, as in ELF for x86-64.\<close>

definition sample_howto :: reloc_howto_type where
  "sample_howto = \<lparr>hw_type = 2, hw_size = 4, hw_bitsize = 32, hw_rightshift = 0, hw_bitpos = 0,
     hw_complain_on_overflow = complain_overflow_signed, hw_negate = False, hw_pc_relative = True, hw_partial_inplace = False,
     hw_pcrel_offset = True, hw_install_addend = False, hw_src_mask = 0, hw_dst_mask = 0xffffffff\<rparr>"

definition sample_bfd :: bfd where
  "sample_bfd = \<lparr>bfd_big_endian = False, bfd_bits_per_address = 64, bfd_arch_octets_per_byte = 1, bfd_get_flavour = elf_flavour,
     bfd_xvec_name = ''elf64-x86-64'', bfd_write_direction = False\<rparr>"

definition sample_section :: asection where
  "sample_section = \<lparr>as_name = ''.text'', as_is_und = False, as_is_abs = False, as_is_common = False, as_elf_octets = False, as_debugging = False,
     as_info_type = SEC_INFO_TYPE_NONE, as_output_is_abs = False, as_vma = 0,
     as_size = 16, as_rawsize = 0, as_output_offset = 0, as_output_vma = Some 0x401000\<rparr>"

definition sample_reloc :: arelent where
  "sample_reloc = \<lparr>re_symbol = Some \<lparr>sy_value = 0x20, sy_weak = False, sy_section_sym = False, sy_section = sample_section\<rparr>, re_address = 4, re_addend = - 4,
     re_howto = Some sample_howto\<rparr>"

lemmas sample_defs = sample_howto_def sample_bfd_def sample_section_def howto_ok_def bfd_get_section_limit_octets_def
  bfd_octets_per_byte_def bfd_reloc_offset_in_range_def

theorem check_overflow_exact_witness:
  "bfd_check_overflow complain_overflow_signed 8 0 32 0xffffff80 = Done bfd_reloc_ok \<and>
   bfd_check_overflow complain_overflow_signed 8 0 32 0x80 = Done bfd_reloc_overflow"
  using check_overflow_exact [of 8 0 32 complain_overflow_signed "0xffffff80"] check_overflow_exact [of 8 0 32 complain_overflow_signed "0x80"]
  by (simp add: fits_def shifted_address_def signed_take_bit_eq_take_bit_minus take_bit_eq_mod bit_iff_odd)



theorem relocations_stay_inside_witness:
  "\<exists>contents'. bfd_final_link_relocate sample_howto sample_bfd sample_section (replicate 16 0) 13 0 0 = Done (bfd_reloc_outofrange, contents') \<and>
    contents' = replicate 16 0"
  using relocations_stay_inside [of sample_howto sample_bfd sample_section "0x401000" "replicate 16 0" 13 13 0 0]
  by (simp add: sample_defs)

theorem clear_contents_exact_witness:
  "\<exists>buf'. bfd_clear_contents sample_howto sample_bfd sample_section (replicate 16 0x90) 4 = Done (bfd_reloc_ok, buf') \<and>
    read_reloc sample_bfd (drop 4 buf') sample_howto = Done 0"
proof -
  have "x AND NOT 0xffffffff = 0 \<or> take_bit 32 (x AND NOT 0xffffffff) = 0" for x :: u64
  proof -
    have "(0xffffffff :: u64) = mask 32" by (simp add: mask_eq_exp_minus_1)
    then have "take_bit 32 (x AND NOT 0xffffffff) = 0" by (simp add: bit_eq_iff bit_simps)
    then show ?thesis ..
  qed
  then show ?thesis
    using clear_contents_exact [of sample_howto sample_bfd sample_section "replicate 16 0x90" 4] by (fastforce simp: sample_defs)
qed

end
