(* ===== verification/Bfd_Reloc_Section.thy ===== *)
theory Bfd_Reloc_Section
  imports Bfd_Reloc
begin

text \<open>
  The relocation of a whole section, \<open>bfd_generic_get_relocated_section_contents\<close> of \<open>tooling/bfd-scrape/bfd/reloc.c\<close>: every entry
  of the section is relocated in turn, entries of discarded symbols are cleared, problems are reported to the linker's
  callbacks.  Reading the section and its entries, and the offsets of merged sections, belong to other files and to the
  back end; they are fields of \<open>reloc_env\<close>.
\<close>

unbundle bit_operations_syntax

section \<open>Data\<close>

text \<open>\<open>ve_contents\<close> is nothing when reading fails, and its value nothing when there is no data.  \<open>ve_simple\<close> says whether the list of input
  files is the output file.\<close>

record reloc_env =
  ve_upper_bound :: int
  ve_contents :: "bytes option option"
  ve_malloc_ok :: bool
  ve_canonicalize :: "int \<times> arelent list"
  ve_special :: "reloc_howto_type \<Rightarrow> special_function option"
  ve_merged_offset :: "asection \<Rightarrow> bfd_vma \<Rightarrow> asection \<times> bfd_vma"
  ve_simple :: bool

text \<open>A relocation without a symbol, and one with a status other than \<open>bfd_reloc_ok\<close>.\<close>

datatype reloc_report = No_value bfd_size_type | Status bfd_reloc_status_type bfd_size_type

record reloc_state =
  rs_data :: bytes
  rs_reports :: "reloc_report list"
  rs_kept :: "arelent list"

definition discarded_section :: "asection \<Rightarrow> bool" where
  "discarded_section sec \<longleftrightarrow> \<not> as_is_abs sec \<and> as_output_is_abs sec \<and> as_info_type sec \<noteq> SEC_INFO_TYPE_MERGE \<and>
     as_info_type sec \<noteq> SEC_INFO_TYPE_JUST_SYMS"

definition bfd_abs_section :: asection where
  "bfd_abs_section = \<lparr>as_name = ''*ABS*'', as_is_und = False, as_is_abs = True, as_is_common = False, as_elf_octets = False,
     as_debugging = False, as_info_type = SEC_INFO_TYPE_NONE, as_output_is_abs = True, as_vma = 0, as_size = 0, as_rawsize = 0,
     as_output_offset = 0, as_output_vma = Some 0\<rparr>"

definition bfd_abs_symbol :: asymbol where
  "bfd_abs_symbol = \<lparr>sy_value = 0, sy_weak = False, sy_section_sym = True, sy_section = bfd_abs_section\<rparr>"

definition none_howto :: reloc_howto_type where
  "none_howto = \<lparr>hw_type = 0, hw_size = 0, hw_bitsize = 0, hw_rightshift = 0, hw_bitpos = 0,
     hw_complain_on_overflow = complain_overflow_dont, hw_negate = False, hw_pc_relative = False, hw_partial_inplace = False,
     hw_pcrel_offset = False, hw_install_addend = False, hw_src_mask = 0, hw_dst_mask = 0\<rparr>"

section \<open>Operations\<close>

definition bfd_link_reloc_status_error :: "arelent \<Rightarrow> bfd_reloc_status_type \<Rightarrow> reloc_state \<Rightarrow> reloc_state" where
  "bfd_link_reloc_status_error reloc_entry r st =
     (if r = bfd_reloc_ok then st else st\<lparr>rs_reports := rs_reports st @ [Status r (re_address reloc_entry)]\<rparr>)"

text \<open>The body of the loop up to the status: a discarded symbol's field is cleared, any other one is relocated.\<close>

definition relocate_entry ::
    "reloc_env \<Rightarrow> bfd \<Rightarrow> asection \<Rightarrow> bool \<Rightarrow> asymbol \<Rightarrow> arelent \<Rightarrow> bytes \<Rightarrow> (bfd_reloc_status_type \<times> arelent \<times> bytes) cresult" where
  "relocate_entry env input_bfd input_section relocatable symbol parent data =
     (let sec = sy_section symbol
      in if discarded_section sec \<or> as_is_und sec \<and> as_debugging input_section \<and> ve_simple env
         then case re_howto parent of
                None \<Rightarrow> Undefined
              | Some howto \<Rightarrow>
                  cbind (bfd_clear_contents howto input_bfd input_section data
                          (re_address parent * ucast (bfd_octets_per_byte input_bfd input_section))) (\<lambda>(_, data).
                    Done (bfd_reloc_ok, parent\<lparr>re_symbol := Some bfd_abs_symbol, re_addend := 0, re_howto := Some none_howto\<rparr>, data))
         else let parent =
                    (if sy_section_sym symbol \<and> as_info_type sec = SEC_INFO_TYPE_MERGE \<and> \<not> as_debugging sec
                     then case ve_merged_offset env sec (re_addend parent) of (sec', offset) \<Rightarrow>
                            parent\<lparr>re_addend := offset + (as_output_offset sec' - as_output_offset sec)\<rparr>
                     else parent)
              in bfd_perform_relocation (case re_howto parent of None \<Rightarrow> None | Some howto \<Rightarrow> ve_special env howto)
                   input_bfd parent data input_section relocatable)"

text \<open>The loop ends at the first entry that cannot be applied; the flag says whether it ran to the end.\<close>

fun relocate_entries ::
    "reloc_env \<Rightarrow> bfd \<Rightarrow> asection \<Rightarrow> bool \<Rightarrow> arelent list \<Rightarrow> reloc_state \<Rightarrow> (bool \<times> reloc_state) cresult" where
  "relocate_entries env input_bfd input_section relocatable [] st = Done (True, st)"
| "relocate_entries env input_bfd input_section relocatable (parent # parents) st =
     (case re_symbol parent of
        None \<Rightarrow> Done (False, st\<lparr>rs_reports := rs_reports st @ [No_value (re_address parent)]\<rparr>)
      | Some symbol \<Rightarrow>
          cbind (relocate_entry env input_bfd input_section relocatable symbol parent (rs_data st)) (\<lambda>(r, parent, data).
            let st = st\<lparr>rs_data := data\<rparr>;
                st = (if relocatable then st\<lparr>rs_kept := rs_kept st @ [parent]\<rparr> else st);
                st = bfd_link_reloc_status_error parent r st
            in if r = bfd_reloc_outofrange \<or> r = bfd_reloc_notsupported then Done (False, st)
               else relocate_entries env input_bfd input_section relocatable parents st))"

definition bfd_generic_get_relocated_section_contents ::
    "reloc_env \<Rightarrow> bfd \<Rightarrow> asection \<Rightarrow> bool \<Rightarrow> (bytes option \<times> reloc_report list \<times> arelent list) cresult" where
  "bfd_generic_get_relocated_section_contents env input_bfd input_section relocatable =
     (if ve_upper_bound env < 0 then Done (None, [], [])
      else case ve_contents env of
        None \<Rightarrow> Done (None, [], [])
      | Some None \<Rightarrow> Done (None, [], [])
      | Some (Some data) \<Rightarrow>
          if ve_upper_bound env = 0 then Done (Some data, [], [])
          else if \<not> ve_malloc_ok env then Done (None, [], [])
          else case ve_canonicalize env of (reloc_count, relocs) \<Rightarrow>
            if reloc_count < 0 then Done (None, [], [])
            else if reloc_count = 0 then Done (Some data, [], [])
            else cbind (relocate_entries env input_bfd input_section relocatable relocs \<lparr>rs_data = data, rs_reports = [], rs_kept = []\<rparr>)
                   (\<lambda>(ok, st). Done (if ok then Some (rs_data st) else None, rs_reports st, rs_kept st)))"

section \<open>Fields are independent\<close>

text \<open>The bytes a relocation puts into its field, from those it finds there.\<close>

definition new_field :: "reloc_howto_type \<Rightarrow> bfd \<Rightarrow> bfd_vma \<Rightarrow> bytes \<Rightarrow> bytes" where
  "new_field howto abfd relocation old =
     in_order (bfd_big_endian abfd) (rev (octets (field_size howto)
       (insert_sum howto (be_number (in_order (bfd_big_endian abfd) old) 0) (if hw_negate howto then - relocation else relocation))))"

lemma length_new_field [simp]: "length (new_field howto abfd relocation old) = field_size howto"
  by (simp add: new_field_def in_order_def)

lemma apply_reloc_local:
  assumes ok: "howto_ok howto" and room: "field_size howto \<le> length p"
  shows "apply_reloc abfd p howto relocation =
    Done (new_field howto abfd relocation (take (field_size howto) p) @ drop (field_size howto) p)"
proof -
  let ?n = "field_size howto" and ?big = "bfd_big_endian abfd"
  have n: "nat (8 * int ?n div 8) = ?n" by simp
  have get: "bfd_get_bits p (8 * int ?n) ?big = Done (be_number (in_order ?big (take ?n p)) 0)"
    using get_bits_loop_number [of 0 ?n p ?big 0] room by (simp add: bfd_get_bits_def Let_def in_order_def)
  have put: "bfd_put_bits y p (8 * int ?n) ?big = Done (in_order ?big (rev (octets ?n y)) @ drop ?n p)" for y
  proof -
    have "put_bits_loop 0 ?n ?big y p = take ?n (put_bits_loop 0 ?n ?big y p) @ drop ?n (put_bits_loop 0 ?n ?big y p)" by simp
    also have "\<dots> = in_order ?big (rev (octets ?n y)) @ drop ?n p" using in_order_put [OF room, of ?big y] by simp
    finally show ?thesis using room by (simp add: bfd_put_bits_def Let_def)
  qed
  show ?thesis unfolding apply_reloc_def field_loops [OF ok] get put cbind_simps Let_def new_field_def ..
qed


definition overwrite :: "nat \<Rightarrow> bytes \<Rightarrow> bytes \<Rightarrow> bytes" where
  "overwrite off new data = take off data @ new @ drop (off + length new) data"

lemma length_overwrite [simp]: "off + length new \<le> length data \<Longrightarrow> length (overwrite off new data) = length data"
  by (simp add: overwrite_def)

lemma nth_overwrite:
  "off + length new \<le> length data \<Longrightarrow> i < length data \<Longrightarrow>
    overwrite off new data ! i = (if off \<le> i \<and> i < off + length new then new ! (i - off) else data ! i)"
  by (auto simp: overwrite_def nth_append min_def)

text \<open>Where the field of an entry begins, and its bytes.\<close>

abbreviation entry_offset :: "bfd \<Rightarrow> asection \<Rightarrow> arelent \<Rightarrow> bfd_size_type" where
  "entry_offset abfd sec e \<equiv> re_address e * ucast (bfd_octets_per_byte abfd sec)"

definition field_of :: "bfd \<Rightarrow> asection \<Rightarrow> arelent \<Rightarrow> nat set" where
  "field_of abfd sec e =
     (case re_howto e of None \<Rightarrow> {}
      | Some howto \<Rightarrow> {unat (entry_offset abfd sec e)..<unat (entry_offset abfd sec e) + field_size howto})"

definition well_sized :: "bfd \<Rightarrow> asection \<Rightarrow> bytes \<Rightarrow> bool" where
  "well_sized abfd sec data \<longleftrightarrow> unat (bfd_get_section_limit_octets abfd sec) \<le> length data"

text \<open>An entry with a howto of the code's sizes.\<close>

definition entry_ok :: "asection \<Rightarrow> arelent \<Rightarrow> bool" where
  "entry_ok sec e \<longleftrightarrow> (\<forall>howto. re_howto e = Some howto \<longrightarrow> howto_ok howto \<and> (hw_pc_relative howto \<longrightarrow> as_output_vma sec \<noteq> None))"

lemma check_overflow_total:
  assumes "howto_ok howto" "bfd_bits_per_address abfd \<le> 64"
  obtains st where "bfd_check_overflow c (unat (hw_bitsize howto)) (unat (hw_rightshift howto)) (bfd_bits_per_address abfd) v = Done st"
    "st \<in> {bfd_reloc_ok, bfd_reloc_overflow}"
proof -
  have r: "\<not> 64 \<le> unat (hw_rightshift howto)" using unat_less_2p [of "hw_rightshift howto"] by simp
  have ones: "N_ONES (unat (hw_bitsize howto)) = Done (mask (unat (hw_bitsize howto)))"
      "N_ONES (bfd_bits_per_address abfd) = Done (mask (bfd_bits_per_address abfd))"
    using assms by (simp_all add: N_ONES_mask howto_ok_def)
  have "\<exists>st. bfd_check_overflow c (unat (hw_bitsize howto)) (unat (hw_rightshift howto)) (bfd_bits_per_address abfd) v = Done st \<and>
      st \<in> {bfd_reloc_ok, bfd_reloc_overflow}"
    using r by (simp add: bfd_check_overflow_def ones Let_def)
  then show thesis using that by blast
qed

lemma check_and_apply_local:
  assumes "howto_ok howto" "bfd_bits_per_address abfd \<le> 64" "flag \<in> {bfd_reloc_ok, bfd_reloc_undefined}"
  shows "\<exists>st \<in> {bfd_reloc_ok, bfd_reloc_overflow, bfd_reloc_undefined}. \<forall>data. unat off + field_size howto \<le> length data \<longrightarrow>
    check_and_apply howto abfd flag off v e data =
      Done (st, e, overwrite (unat off) (new_field howto abfd (position howto v) (take (field_size howto) (drop (unat off) data))) data)"
proof -
  obtain st where st: "bfd_check_overflow (hw_complain_on_overflow howto) (unat (hw_bitsize howto)) (unat (hw_rightshift howto))
      (bfd_bits_per_address abfd) v = Done st" "st \<in> {bfd_reloc_ok, bfd_reloc_overflow}"
    using check_overflow_total [OF assms(1,2)] .
  let ?st = "if hw_complain_on_overflow howto \<noteq> complain_overflow_dont \<and> flag = bfd_reloc_ok then st else flag"
  have "check_and_apply howto abfd flag off v e data =
      Done (?st, e, overwrite (unat off) (new_field howto abfd (position howto v) (take (field_size howto) (drop (unat off) data))) data)"
    if "unat off + field_size howto \<le> length data" for data
    using that st(1) by (auto simp: check_and_apply_def at_offset_def apply_reloc_local [OF assms(1)] overwrite_def add.commute)
  moreover have "?st \<in> {bfd_reloc_ok, bfd_reloc_overflow, bfd_reloc_undefined}" using st(2) assms(3) by auto
  ultimately show ?thesis by blast
qed

lemma relative_total:
  "hw_pc_relative howto \<longrightarrow> as_output_vma sec \<noteq> None \<Longrightarrow> \<exists>v. relative_to_section howto sec address relocation = Done v"
  by (cases "as_output_vma sec") (simp_all add: relative_to_section_def Let_def)

text \<open>Relocating an entry in a final link: the outcome does not depend on the data outside its field.\<close>

lemma perform_local:
  assumes e: "re_symbol e = Some symbol" "entry_ok sec e" and bits: "bfd_bits_per_address abfd \<le> 64"
  shows "\<exists>st f. st \<noteq> bfd_reloc_notsupported \<and> (\<forall>data. well_sized abfd sec data \<longrightarrow>
    bfd_perform_relocation None abfd e data sec False =
      Done (st, e, case re_howto e of
          None \<Rightarrow> data
        | Some howto \<Rightarrow>
            if st = bfd_reloc_outofrange then data
            else overwrite (unat (entry_offset abfd sec e)) (f (take (field_size howto) (drop (unat (entry_offset abfd sec e)) data))) data)) \<and>
    (\<forall>howto. re_howto e = Some howto \<longrightarrow>
       (st = bfd_reloc_outofrange \<longleftrightarrow> \<not> bfd_reloc_offset_in_range howto abfd sec (entry_offset abfd sec e)) \<and> (\<forall>old. length (f old) = field_size howto))"
proof (cases "re_howto e")
  case None
  then show ?thesis using e(1)
    by (intro exI [of _ bfd_reloc_undefined]) (auto simp: bfd_perform_relocation_def perform_generic_def Let_def)
next
  case (Some howto)
  let ?off = "entry_offset abfd sec e"
  let ?flag = "if as_is_und (sy_section symbol) \<and> \<not> sy_weak symbol then bfd_reloc_undefined else bfd_reloc_ok"
  have ok: "howto_ok howto" "hw_pc_relative howto \<longrightarrow> as_output_vma sec \<noteq> None" using e(2) Some by (auto simp: entry_ok_def)
  show ?thesis
  proof (cases "bfd_reloc_offset_in_range howto abfd sec ?off")
    case False
    then show ?thesis using Some e(1)
      by (intro exI [of _ bfd_reloc_outofrange] exI [of _ "\<lambda>_. replicate (field_size howto) 0"])
        (auto simp: bfd_perform_relocation_def perform_generic_def Let_def)
  next
    case True
    obtain v where v: "relative_to_section howto sec (re_address e) (symbol_relocation howto abfd sec symbol False + re_addend e) = Done v"
      using relative_total [OF ok(2)] by blast
    have fl: "?flag \<in> {bfd_reloc_ok, bfd_reloc_undefined}" by simp
    obtain st where st: "st \<in> {bfd_reloc_ok, bfd_reloc_overflow, bfd_reloc_undefined}"
      "\<forall>data. unat ?off + field_size howto \<le> length data \<longrightarrow> check_and_apply howto abfd ?flag ?off v e data =
        Done (st, e, overwrite (unat ?off) (new_field howto abfd (position howto v) (take (field_size howto) (drop (unat ?off) data))) data)"
      using check_and_apply_local [OF ok(1) bits fl, of ?off v e] by blast
    have "bfd_perform_relocation None abfd e data sec False = Done (st, e, overwrite (unat ?off)
        (new_field howto abfd (position howto v) (take (field_size howto) (drop (unat ?off) data))) data)" if "well_sized abfd sec data" for data
    proof -
      have "bfd_perform_relocation None abfd e data sec False = check_and_apply howto abfd ?flag ?off v e data"
        using v Some e(1) True by (simp add: bfd_perform_relocation_def perform_generic_def Let_def split del: if_split)
      then show ?thesis using st(2) in_range_room [OF True, of data] that by (simp add: well_sized_def)
    qed
    then show ?thesis using st(1) Some True
      by (intro exI [of _ st] exI [of _ "new_field howto abfd (position howto v)"]) auto
  qed
qed


section \<open>The whole section\<close>

text \<open>What the loop does with an entry in a final link when no back end interferes; \<open>cleared\<close> entries are those of discarded symbols.\<close>

definition cleared :: "reloc_env \<Rightarrow> asection \<Rightarrow> asymbol \<Rightarrow> bool" where
  "cleared env sec symbol \<longleftrightarrow> discarded_section (sy_section symbol) \<or> as_is_und (sy_section symbol) \<and> as_debugging sec \<and> ve_simple env"

lemma clear_total:
  assumes "howto_ok howto" "well_sized abfd sec data"
  shows "\<exists>st data'. bfd_clear_contents howto abfd sec data off = Done (st, data') \<and> length data' = length data"
proof (cases "bfd_reloc_offset_in_range howto abfd sec off")
  case True
  have room: "unat off + field_size howto \<le> length data" using in_range_room [OF True] assms(2) by (simp add: well_sized_def)
  let ?y = "\<lambda>x. let x = x AND NOT (hw_dst_mask howto) in if as_name sec = ''.debug_ranges'' \<and> hw_dst_mask howto AND 1 \<noteq> 0 then x OR 1 else x"
  obtain x p where "read_reloc abfd (drop (unat off) data) howto = Done x"
      "write_reloc abfd (?y x) (drop (unat off) data) howto = Done p" "length (take (unat off) data @ p) = length data"
    using replace_field [OF assms(1) room, of abfd] by blast
  then show ?thesis using True room by (auto simp: bfd_clear_contents_def at_offset_def Let_def)
next
  case False
  then show ?thesis by (simp add: bfd_clear_contents_def)
qed

lemma relocate_entry_total:
  assumes "re_symbol e = Some symbol" "entry_ok sec e" "bfd_bits_per_address abfd \<le> 64" "well_sized abfd sec data"
    and "\<forall>h. ve_special env h = None" "cleared env sec symbol \<longrightarrow> re_howto e \<noteq> None"
  shows "\<exists>st e' data'. relocate_entry env abfd sec False symbol e data = Done (st, e', data') \<and> length data' = length data"
proof (cases "cleared env sec symbol")
  case True
  then obtain howto where h: "re_howto e = Some howto" "howto_ok howto" using assms(2,6) by (auto simp: entry_ok_def)
  obtain st data' where "bfd_clear_contents howto abfd sec data (entry_offset abfd sec e) = Done (st, data')" "length data' = length data"
    using clear_total [OF h(2) assms(4)] by blast
  then show ?thesis using True h(1) by (simp add: relocate_entry_def cleared_def Let_def)
next
  case False
  define e1 where "e1 = (if sy_section_sym symbol \<and> as_info_type (sy_section symbol) = SEC_INFO_TYPE_MERGE \<and> \<not> as_debugging (sy_section symbol)
    then case ve_merged_offset env (sy_section symbol) (re_addend e) of (sec', offset) \<Rightarrow>
      e\<lparr>re_addend := offset + (as_output_offset sec' - as_output_offset (sy_section symbol))\<rparr> else e)"
  have e1: "re_symbol e1 = Some symbol" "re_howto e1 = re_howto e" "entry_ok sec e1"
    using assms(1,2) by (auto simp: e1_def entry_ok_def split: prod.splits)
  have run: "relocate_entry env abfd sec False symbol e data = bfd_perform_relocation None abfd e1 data sec False"
    using False assms(5) unfolding relocate_entry_def e1_def [symmetric] Let_def by (auto simp: cleared_def split: option.splits)
  obtain st f where p: "bfd_perform_relocation None abfd e1 data sec False = Done (st, e1, case re_howto e1 of None \<Rightarrow> data
      | Some howto \<Rightarrow> if st = bfd_reloc_outofrange then data
          else overwrite (unat (entry_offset abfd sec e1)) (f (take (field_size howto) (drop (unat (entry_offset abfd sec e1)) data))) data)"
    and f: "\<forall>howto. re_howto e1 = Some howto \<longrightarrow>
       (st = bfd_reloc_outofrange \<longleftrightarrow> \<not> bfd_reloc_offset_in_range howto abfd sec (entry_offset abfd sec e1)) \<and> (\<forall>old. length (f old) = field_size howto)"
    using perform_local [OF e1(1,3) assms(3)] assms(4) by blast
  have "length (overwrite (unat (entry_offset abfd sec e1)) (f old) data) = length data"
    if "re_howto e1 = Some howto" "st \<noteq> bfd_reloc_outofrange" for howto old
  proof -
    have "bfd_reloc_offset_in_range howto abfd sec (entry_offset abfd sec e1)" "length (f old) = field_size howto" using f that by auto
    then show ?thesis using in_range_room [of howto abfd sec "entry_offset abfd sec e1" data] assms(4) by (simp add: well_sized_def)
  qed
  then show ?thesis using run p by (auto split: option.splits)
qed

lemma relocate_entries_total:
  assumes "\<forall>e \<in> set es. entry_ok sec e \<and> (\<forall>symbol. re_symbol e = Some symbol \<and> cleared env sec symbol \<longrightarrow> re_howto e \<noteq> None)"
    and "bfd_bits_per_address abfd \<le> 64" "well_sized abfd sec (rs_data st)" "\<forall>h. ve_special env h = None"
  shows "\<exists>r. relocate_entries env abfd sec False es st = Done r \<and> length (rs_data (snd r)) = length (rs_data st)"
  using assms
proof (induction es arbitrary: st)
  case (Cons e es)
  show ?case
  proof (cases "re_symbol e")
    case (Some symbol)
    obtain r e' data' where step: "relocate_entry env abfd sec False symbol e (rs_data st) = Done (r, e', data')" "length data' = length (rs_data st)"
      using relocate_entry_total [OF Some _ Cons.prems(2,3,4)] Cons.prems(1) Some by auto
    let ?st = "bfd_link_reloc_status_error e' r (st\<lparr>rs_data := data'\<rparr>)"
    have d: "rs_data ?st = data'" by (simp add: bfd_link_reloc_status_error_def)
    then have "\<exists>r. relocate_entries env abfd sec False es ?st = Done r \<and> length (rs_data (snd r)) = length (rs_data ?st)"
      using Cons.prems step(2) by (intro Cons.IH) (auto simp: well_sized_def)
    then show ?thesis using Some step d by (auto simp: Let_def)
  qed auto
qed simp


lemma relocate_entries_kept: "relocate_entries env abfd sec False es st = Done (ok, st') \<Longrightarrow> rs_kept st' = rs_kept st"
proof (induction es arbitrary: st)
  case (Cons e es)
  have same: "rs_kept (bfd_link_reloc_status_error e' r (st\<lparr>rs_data := data\<rparr>)) = rs_kept st" for e' r data
    by (simp add: bfd_link_reloc_status_error_def)
  show ?case
  proof (cases "re_symbol e")
    case None
    then show ?thesis using Cons.prems by auto
  next
    case (Some symbol)
    then obtain r e' data where "relocate_entry env abfd sec False symbol e (rs_data st) = Done (r, e', data)"
      using Cons.prems by (auto simp: cbind_Done)
    then show ?thesis using Cons.prems Some same [of e' r data] Cons.IH by (auto simp: Let_def split: if_splits)
  qed
qed simp

text \<open>A section that cannot be relocated is always reported.\<close>

lemma relocate_entries_stopped:
  "relocate_entries env abfd sec relocatable es st = Done (False, st') \<Longrightarrow> rs_reports st' \<noteq> []"
proof (induction es arbitrary: st)
  case (Cons e es)
  show ?case
  proof (cases "re_symbol e")
    case None
    then show ?thesis using Cons.prems by auto
  next
    case (Some symbol)
    then obtain r e' data where "relocate_entry env abfd sec relocatable symbol e (rs_data st) = Done (r, e', data)"
      using Cons.prems by (auto simp: cbind_Done)
    then show ?thesis using Cons.prems Some Cons.IH by (auto simp: Let_def bfd_link_reloc_status_error_def split: if_splits)
  qed
qed simp

text \<open>The section, its entries or the memory for them cannot be had.\<close>

definition no_input :: "reloc_env \<Rightarrow> bool" where
  "no_input env \<longleftrightarrow> ve_upper_bound env < 0 \<or> (\<forall>data. ve_contents env \<noteq> Some (Some data)) \<or> \<not> ve_malloc_ok env \<or> fst (ve_canonicalize env) < 0"


text \<open>Entries that are relocated as they are.\<close>

definition plain :: "reloc_env \<Rightarrow> bfd \<Rightarrow> asection \<Rightarrow> arelent \<Rightarrow> bool" where
  "plain env abfd sec e \<longleftrightarrow> entry_ok sec e \<and>
     (\<exists>symbol howto. re_symbol e = Some symbol \<and> re_howto e = Some howto \<and> \<not> cleared env sec symbol \<and>
        \<not> (sy_section_sym symbol \<and> as_info_type (sy_section symbol) = SEC_INFO_TYPE_MERGE \<and> \<not> as_debugging (sy_section symbol)) \<and>
        bfd_reloc_offset_in_range howto abfd sec (entry_offset abfd sec e))"

text \<open>Two sections agree on the field of an entry.\<close>

definition agree_on :: "nat set \<Rightarrow> bytes \<Rightarrow> bytes \<Rightarrow> bool" where
  "agree_on F xs ys \<longleftrightarrow> length xs = length ys \<and> (\<forall>i \<in> F. i < length xs \<longrightarrow> xs ! i = ys ! i)"

lemma plain_step:
  assumes p: "plain env abfd sec e" and bits: "bfd_bits_per_address abfd \<le> 64" and sp: "\<forall>h. ve_special env h = None"
  shows "\<exists>st g symbol. re_symbol e = Some symbol \<and> st \<noteq> bfd_reloc_outofrange \<and> st \<noteq> bfd_reloc_notsupported \<and>
    (\<forall>data. well_sized abfd sec data \<longrightarrow>
       relocate_entry env abfd sec False symbol e data = Done (st, e, g data) \<and> bfd_perform_relocation None abfd e data sec False = Done (st, e, g data) \<and>
       agree_on (- field_of abfd sec e) (g data) data) \<and>
    (\<forall>d1 d2. well_sized abfd sec d1 \<and> agree_on (field_of abfd sec e) d1 d2 \<longrightarrow> agree_on (field_of abfd sec e) (g d1) (g d2))"
proof -
  obtain symbol howto where e: "re_symbol e = Some symbol" "re_howto e = Some howto" "entry_ok sec e" "\<not> cleared env sec symbol"
      "\<not> (sy_section_sym symbol \<and> as_info_type (sy_section symbol) = SEC_INFO_TYPE_MERGE \<and> \<not> as_debugging (sy_section symbol))"
      "bfd_reloc_offset_in_range howto abfd sec (entry_offset abfd sec e)"
    using p by (auto simp: plain_def)
  let ?off = "unat (entry_offset abfd sec e)" and ?n = "field_size howto"
  from perform_local [OF e(1,3) bits] obtain st f where st0: "st \<noteq> bfd_reloc_notsupported"
      "\<forall>data. well_sized abfd sec data \<longrightarrow> bfd_perform_relocation None abfd e data sec False = Done (st, e, case re_howto e of
          None \<Rightarrow> data
        | Some howto \<Rightarrow> if st = bfd_reloc_outofrange then data else overwrite ?off (f (take (field_size howto) (drop ?off data))) data)"
      "\<forall>howto. re_howto e = Some howto \<longrightarrow>
       (st = bfd_reloc_outofrange \<longleftrightarrow> \<not> bfd_reloc_offset_in_range howto abfd sec (entry_offset abfd sec e)) \<and> (\<forall>old. length (f old) = field_size howto)"
    by blast
  then have st: "st \<noteq> bfd_reloc_notsupported" "st \<noteq> bfd_reloc_outofrange" "\<And>old. length (f old) = ?n" using e(2,6) by auto
  have run: "bfd_perform_relocation None abfd e data sec False = Done (st, e, overwrite ?off (f (take ?n (drop ?off data))) data)"
    if "well_sized abfd sec data" for data
    using st0(2) that e(2) st(2) by simp
  let ?g = "\<lambda>data. overwrite ?off (f (take ?n (drop ?off data))) data"
  have room: "?off + ?n \<le> length data" if "well_sized abfd sec data" for data
    using in_range_room [OF e(6)] that by (simp add: well_sized_def)
  have F: "field_of abfd sec e = {?off..<?off + ?n}" by (simp add: field_of_def e(2))
  have entry: "relocate_entry env abfd sec False symbol e data = bfd_perform_relocation None abfd e data sec False" for data
    using e(2,4,5) sp by (auto simp: relocate_entry_def cleared_def Let_def)
  have out: "agree_on (- field_of abfd sec e) (?g data) data" if "well_sized abfd sec data" for data
    using room [OF that] st(3) unfolding F agree_on_def by (auto simp: nth_overwrite)
  have same: "take ?n (drop ?off d1) = take ?n (drop ?off d2)" if "well_sized abfd sec d1" "agree_on (field_of abfd sec e) d1 d2" for d1 d2
    using that room [of d1] unfolding F agree_on_def by (intro nth_equalityI) (auto simp: well_sized_def)
  have "agree_on (field_of abfd sec e) (?g d1) (?g d2)" if "well_sized abfd sec d1" "agree_on (field_of abfd sec e) d1 d2" for d1 d2
    using same [OF that] room [OF that(1)] that(2) st(3) unfolding F agree_on_def by (auto simp: nth_overwrite)
  then show ?thesis
    using e(1) st by (intro exI [of _ st] exI [of _ ?g] exI [of _ symbol] conjI allI impI) (simp_all add: entry run out)
qed


text \<open>What relocating an entry alone reports.\<close>

definition reports_of :: "bfd \<Rightarrow> asection \<Rightarrow> bytes \<Rightarrow> arelent \<Rightarrow> reloc_report list" where
  "reports_of abfd sec data e =
     (case bfd_perform_relocation None abfd e data sec False of
        Done (r, _) \<Rightarrow> if r = bfd_reloc_ok then [] else [Status r (re_address e)]
      | _ \<Rightarrow> [])"

lemma agree_on_sym: "agree_on F xs ys \<Longrightarrow> agree_on F ys xs"
  by (simp add: agree_on_def)

lemma agree_on_trans: "agree_on F xs ys \<Longrightarrow> agree_on F ys zs \<Longrightarrow> agree_on F xs zs"
  by (simp add: agree_on_def)

lemma agree_on_mono: "agree_on F xs ys \<Longrightarrow> G \<subseteq> F \<Longrightarrow> agree_on G xs ys"
  by (auto simp: agree_on_def)

lemma well_sized_agree: "agree_on F xs ys \<Longrightarrow> well_sized abfd sec xs \<longleftrightarrow> well_sized abfd sec ys"
  by (simp add: agree_on_def well_sized_def)

lemma relocate_entries_fields:
  assumes "\<forall>e \<in> set es. plain env abfd sec e" "bfd_bits_per_address abfd \<le> 64" "\<forall>h. ve_special env h = None"
    and "sorted_wrt (\<lambda>a b. field_of abfd sec a \<inter> field_of abfd sec b = {}) es" "well_sized abfd sec (rs_data st)"
  shows "\<exists>st'. relocate_entries env abfd sec False es st = Done (True, st') \<and>
    rs_reports st' = rs_reports st @ concat (map (reports_of abfd sec (rs_data st)) es) \<and>
    agree_on (- (\<Union>e \<in> set es. field_of abfd sec e)) (rs_data st') (rs_data st) \<and>
    (\<forall>e \<in> set es. \<exists>r alone. bfd_perform_relocation None abfd e (rs_data st) sec False = Done (r, e, alone) \<and>
       agree_on (field_of abfd sec e) (rs_data st') alone)"
  using assms
proof (induction es arbitrary: st)
  case Nil
  then show ?case by (simp add: agree_on_def)
next
  case (Cons e es)
  let ?F = "field_of abfd sec" and ?U = "\<Union>e \<in> set es. field_of abfd sec e" and ?data = "rs_data st"
  have "plain env abfd sec e" using Cons.prems(1) by simp
  from plain_step [OF this Cons.prems(2,3)] obtain r g symbol where
    e: "re_symbol e = Some symbol" "r \<noteq> bfd_reloc_outofrange" "r \<noteq> bfd_reloc_notsupported"
    and step: "\<And>data. well_sized abfd sec data \<Longrightarrow> relocate_entry env abfd sec False symbol e data = Done (r, e, g data) \<and>
      bfd_perform_relocation None abfd e data sec False = Done (r, e, g data) \<and> agree_on (- ?F e) (g data) data"
    by blast
  note here = step [OF Cons.prems(5)]
  let ?st = "bfd_link_reloc_status_error e r (st\<lparr>rs_data := g ?data\<rparr>)"
  have st: "rs_data ?st = g ?data" "rs_reports ?st = rs_reports st @ reports_of abfd sec ?data e"
    using here by (simp_all add: bfd_link_reloc_status_error_def reports_of_def)
  have ws: "well_sized abfd sec (rs_data ?st)" unfolding st(1) using well_sized_agree here Cons.prems(5) by blast
  have dis: "?F e \<inter> ?F e' = {}" if "e' \<in> set es" for e' using Cons.prems(4) that by simp
  obtain st' where ih: "relocate_entries env abfd sec False es ?st = Done (True, st')"
      "rs_reports st' = rs_reports ?st @ concat (map (reports_of abfd sec (rs_data ?st)) es)" "agree_on (- ?U) (rs_data st') (rs_data ?st)"
      "\<forall>e' \<in> set es. \<exists>r alone. bfd_perform_relocation None abfd e' (rs_data ?st) sec False = Done (r, e', alone) \<and>
         agree_on (?F e') (rs_data st') alone"
    using Cons.IH [OF _ Cons.prems(2,3) _ ws] Cons.prems(1,4) by auto
  have other: "(\<exists>r' alone. bfd_perform_relocation None abfd e' ?data sec False = Done (r', e', alone) \<and> agree_on (?F e') (rs_data st') alone) \<and>
      reports_of abfd sec (rs_data ?st) e' = reports_of abfd sec ?data e'" if e': "e' \<in> set es" for e'
  proof -
    have "plain env abfd sec e'" using Cons.prems(1) e' by simp
    from plain_step [OF this Cons.prems(2,3)] obtain r' g' where
      p: "\<And>data. well_sized abfd sec data \<Longrightarrow> bfd_perform_relocation None abfd e' data sec False = Done (r', e', g' data)"
        "\<And>d1 d2. well_sized abfd sec d1 \<Longrightarrow> agree_on (?F e') d1 d2 \<Longrightarrow> agree_on (?F e') (g' d1) (g' d2)"
      by blast
    have "agree_on (?F e') (rs_data ?st) ?data"
      unfolding st(1) using dis [OF e'] by (intro agree_on_mono [OF conjunct2 [OF conjunct2 [OF here]]]) auto
    from p(2) [OF ws this] have "agree_on (?F e') (g' (rs_data ?st)) (g' ?data)" .
    then show ?thesis using bspec [OF ih(4) e'] p(1) [OF ws] p(1) [OF Cons.prems(5)] by (auto simp: reports_of_def intro: agree_on_trans)
  qed
  have field: "agree_on (?F e) (rs_data st') (g ?data)"
    using ih(3) dis unfolding st(1) by (intro agree_on_mono [OF ih(3) [unfolded st(1)]]) auto
  have rest: "agree_on (- (\<Union>e' \<in> set (e # es). ?F e')) (rs_data st') ?data"
    by (rule agree_on_trans [OF agree_on_mono [OF ih(3) [unfolded st(1)]] agree_on_mono [OF conjunct2 [OF conjunct2 [OF here]]]]) auto
  have "map (reports_of abfd sec (rs_data ?st)) es = map (reports_of abfd sec ?data) es" using other by simp
  then have reports: "rs_reports st' = rs_reports st @ concat (map (reports_of abfd sec ?data) (e # es))"
    unfolding ih(2) st(2) by (simp only: list.simps concat.simps append.assoc)
  have run: "relocate_entries env abfd sec False (e # es) st = Done (True, st')" using e here ih(1) by (simp add: Let_def)
  have "\<forall>e' \<in> set (e # es). \<exists>r alone. bfd_perform_relocation None abfd e' ?data sec False = Done (r, e', alone) \<and>
      agree_on (?F e') (rs_data st') alone" using other here field by auto
  with run reports rest show ?case by blast
qed



definition sample_env :: "arelent list \<Rightarrow> reloc_env" where
  "sample_env es = \<lparr>ve_upper_bound = 8 * int (Suc (length es)), ve_contents = Some (Some (replicate 16 0)), ve_malloc_ok = True,
     ve_canonicalize = (int (length es), es), ve_special = \<lambda>_. None, ve_merged_offset = \<lambda>sec a. (sec, a), ve_simple = False\<rparr>"

definition sample_relocs :: "arelent list" where
  "sample_relocs = [sample_reloc, sample_reloc\<lparr>re_address := 8\<rparr>]"

lemma sample_relocs_plain:
  "\<forall>e \<in> set sample_relocs. plain (sample_env es) sample_bfd sample_section e"
  by (simp add: sample_relocs_def sample_reloc_def plain_def entry_ok_def cleared_def discarded_section_def sample_defs)



definition sample_discarded :: asymbol where
  "sample_discarded = \<lparr>sy_value = 0, sy_weak = False, sy_section_sym = False, sy_section = sample_section\<lparr>as_output_is_abs := True\<rparr>\<rparr>"


end
