(* ===== verification/Bfd_Link.thy ===== *)
theory Bfd_Link
  imports Bfd_Hash
begin

text \<open>
  The symbols of a link, \<open>tooling/bfd-scrape/bfd/linker.c\<close>: the hash table of global symbols, its list of undefined symbols, and
  \<open>_bfd_generic_link_add_one_symbol\<close>, which merges a symbol of an input file into the table by a table of states.  Entries are
  objects with an address.  An entry that a warning symbol replaces in the hash table lives on outside of it, in
  \<open>lt_off\<close>.  The functions of the linker that are called back are a record of what they were told; making a section of a file is
  a parameter.  A loop that may go on for ever returns \<open>None\<close> when it does.
\<close>

section \<open>Data\<close>

text \<open>A section: which of the standard sections it is, its flag for common symbols, and the file it belongs to.\<close>

record link_section =
  ls_name :: string
  ls_is_und :: bool
  ls_is_ind :: bool
  ls_is_com_ptr :: bool
  ls_is_common :: bool
  ls_alloc :: bool
  ls_owner :: "nat option"

record link_file =
  lf_id :: nat
  lf_leading_char :: char
  lf_plugin :: bool

datatype bfd_link_hash_type =
  bfd_link_hash_new | bfd_link_hash_undefined | bfd_link_hash_undefweak | bfd_link_hash_defined | bfd_link_hash_defweak |
  bfd_link_hash_common | bfd_link_hash_indirect | bfd_link_hash_warning

record link_common =
  cm_alignment_power :: nat
  cm_section :: link_section

text \<open>The union of an entry, whose first member \<open>next\<close> is the same for all variants and is a field of the entry.  Zeroed memory is \<open>U_undef None\<close>;
  the pointer \<open>p\<close> of a common symbol is null when its memory could not be allocated.\<close>

datatype link_u = U_undef "nat option" | U_def link_section bfd_vma | U_i nat "string option" | U_c "link_common option" bfd_size_type

record bfd_link_hash_entry = bfd_hash_entry +
  lh_type :: bfd_link_hash_type
  lh_next :: "nat option"
  lh_u :: link_u
  lh_non_ir_ref_regular :: bool
  lh_non_ir_ref_dynamic :: bool
  lh_ref_real :: bool
  lh_wrapper_symbol :: bool
  lh_linker_def :: bool
  lh_ldscript_def :: bool

datatype link_event =
  Multiple_common nat nat bfd_link_hash_type bfd_size_type | Multiple_definition nat nat link_section bfd_vma |
  Constructor bool string nat link_section bfd_vma | Add_to_set nat nat link_section bfd_vma | Warning string string "nat option" |
  Gc_note "nat option" | Indirect_loop nat string string | Lto_needed nat

record bfd_link_hash_table =
  lt_table :: "bfd_link_hash_entry bfd_hash_table"
  lt_off :: "bfd_link_hash_entry list"
  lt_undefs :: "nat option"
  lt_undefs_tail :: "nat option"
  lt_heap :: objalloc
  lt_events :: "link_event list"
  lt_asserts :: nat

record bfd_link_info =
  li_relocatable :: bool
  li_wrap_hash :: "bfd_hash_entry bfd_hash_table option"
  li_wrap_char :: char
  li_notice_all :: bool
  li_notice_hash :: "bfd_hash_entry bfd_hash_table option"
  li_notice :: "nat \<Rightarrow> nat option \<Rightarrow> nat \<Rightarrow> link_section \<Rightarrow> bfd_vma \<Rightarrow> bool"
  li_lto_plugin_active :: bool
  li_gc_sections :: bool
  li_make_section :: "nat \<Rightarrow> string \<Rightarrow> link_section option"

text \<open>The arguments that describe the symbol.\<close>

record link_symbol =
  ly_abfd :: link_file
  ly_name :: string
  ly_indirect :: bool
  ly_warning :: bool
  ly_constructor :: bool
  ly_weak :: bool
  ly_section :: link_section
  ly_value :: bfd_vma
  ly_string :: string
  ly_copy :: bool
  ly_collect :: bool

section \<open>Entries as objects\<close>

definition lh_at :: "bfd_link_hash_table \<Rightarrow> nat \<Rightarrow> bfd_link_hash_entry option" where
  "lh_at tab a = find (\<lambda>e. he_addr e = a) (ht_entries (lt_table tab) @ lt_off tab)"

definition lh_get :: "bfd_link_hash_table \<Rightarrow> nat \<Rightarrow> bfd_link_hash_entry cresult" where
  "lh_get tab a = (case lh_at tab a of None \<Rightarrow> Undefined | Some e \<Rightarrow> Done e)"

definition lh_put :: "bfd_link_hash_entry \<Rightarrow> bfd_link_hash_table \<Rightarrow> bfd_link_hash_table" where
  "lh_put e tab = tab\<lparr>lt_table := put_in e (lt_table tab), lt_off := map (\<lambda>x. if he_addr x = he_addr e then e else x) (lt_off tab)\<rparr>"

definition lh_update :: "nat \<Rightarrow> (bfd_link_hash_entry \<Rightarrow> bfd_link_hash_entry) \<Rightarrow> bfd_link_hash_table \<Rightarrow> bfd_link_hash_table cresult" where
  "lh_update a f tab = cbind (lh_get tab a) (\<lambda>e. Done (lh_put (f e) tab))"

definition tell :: "link_event \<Rightarrow> bfd_link_hash_table \<Rightarrow> bfd_link_hash_table" where
  "tell ev tab = tab\<lparr>lt_events := lt_events tab @ [ev]\<rparr>"

definition lt_assert :: "bool \<Rightarrow> bfd_link_hash_table \<Rightarrow> bfd_link_hash_table" where
  "lt_assert c tab = (if c then tab else tab\<lparr>lt_asserts := Suc (lt_asserts tab)\<rparr>)"

definition u_link :: "bfd_link_hash_entry \<Rightarrow> nat cresult" where
  "u_link e = (case lh_u e of U_i a _ \<Rightarrow> Done a | _ \<Rightarrow> Undefined)"

text \<open>The character at an index of a C string, which may be its terminator.\<close>

definition c_char :: "string \<Rightarrow> nat \<Rightarrow> char cresult" where
  "c_char s i = (if i < length s then Done (s ! i) else if i = length s then Done nul else Undefined)"

section \<open>The table\<close>

definition bfd_link_hash_newfunc :: "bfd_link_hash_entry newfunc" where
  "bfd_link_hash_newfunc entry table str =
     (let zero = (\<lambda>a s h. \<lparr>he_addr = a, he_string = s, he_hash = h, lh_type = bfd_link_hash_new, lh_next = None, lh_u = U_undef None,
            lh_non_ir_ref_regular = False, lh_non_ir_ref_dynamic = False, lh_ref_real = False, lh_wrapper_symbol = False, lh_linker_def = False, lh_ldscript_def = False\<rparr>)
      in case entry of
           Some e \<Rightarrow> Done (Some (zero (he_addr e) (he_string e) (he_hash e)), table)
         | None \<Rightarrow> cbind (bfd_hash_allocate table 56) (\<lambda>(r, t). Done (map_option (\<lambda>a. zero a [] 0) r, t)))"

text \<open>Whether the output file already has a table is asserted; the rest of the file's state is not modelled.\<close>

definition bfd_link_hash_table_init :: "u32 \<Rightarrow> objalloc option \<Rightarrow> objalloc \<Rightarrow> bool \<Rightarrow> u32 \<Rightarrow> bfd_link_hash_table option" where
  "bfd_link_hash_table_init bfd_default_hash_table_size created heap fresh_output entsize =
     (case bfd_hash_table_init bfd_default_hash_table_size created entsize of
        None \<Rightarrow> None
      | Some t \<Rightarrow> Some (lt_assert fresh_output \<lparr>lt_table = t, lt_off = [], lt_undefs = None, lt_undefs_tail = None, lt_heap = heap,
          lt_events = [], lt_asserts = 0\<rparr>))"

partial_function (option) follow_links :: "bfd_link_hash_table \<Rightarrow> nat \<Rightarrow> nat run" where
  "follow_links tab a =
     (case lh_get tab a of
        Undefined \<Rightarrow> Some Undefined
      | Abort \<Rightarrow> Some Abort
      | Done e \<Rightarrow>
          if lh_type e = bfd_link_hash_indirect \<or> lh_type e = bfd_link_hash_warning
          then (case lh_u e of U_i b _ \<Rightarrow> follow_links tab b | _ \<Rightarrow> Some Undefined)
          else Some (Done a))"

definition bfd_link_hash_lookup ::
    "bfd_link_hash_table \<Rightarrow> string \<Rightarrow> bool \<Rightarrow> bool \<Rightarrow> bool \<Rightarrow> (nat option \<times> bfd_link_hash_table) run" where
  "bfd_link_hash_lookup tab str create copy follow =
     rbind (Some (bfd_hash_lookup bfd_link_hash_newfunc (lt_table tab) str create copy)) (\<lambda>(r, t).
       let tab = tab\<lparr>lt_table := t\<rparr>
       in case r of
            None \<Rightarrow> Some (Done (None, tab))
          | Some e \<Rightarrow>
              if follow then rbind (follow_links tab (he_addr e)) (\<lambda>a. Some (Done (Some a, tab)))
              else Some (Done (Some (he_addr e), tab)))"

definition in_hash :: "bfd_hash_entry bfd_hash_table \<Rightarrow> string \<Rightarrow> bool cresult" where
  "in_hash t str = cbind (bfd_hash_lookup bfd_hash_newfunc t str False False) (\<lambda>(r, _). Done (r \<noteq> None))"

text \<open>A character before the name that the file's format or the linker adds.\<close>

definition split_prefix :: "bfd_link_info \<Rightarrow> link_file \<Rightarrow> string \<Rightarrow> string \<times> string" where
  "split_prefix info abfd str =
     (case str of
        [] \<Rightarrow> ([], [])
      | c # l \<Rightarrow> if c = lf_leading_char abfd \<or> c = li_wrap_char info then ([c], l) else ([], str))"

text \<open>A lookup under another name, of which a flag of the found entry is set.\<close>

definition lookup_renamed ::
    "bfd_link_hash_table \<Rightarrow> string \<Rightarrow> bool \<Rightarrow> bool \<Rightarrow> (bfd_link_hash_entry \<Rightarrow> bfd_link_hash_entry) \<Rightarrow> (nat option \<times> bfd_link_hash_table) run" where
  "lookup_renamed tab n create follow flag =
     (case objalloc_alloc (lt_heap tab) of
        (None, h) \<Rightarrow> Some (Done (None, tab\<lparr>lt_heap := h\<rparr>))
      | (Some _, h) \<Rightarrow>
          rbind (bfd_link_hash_lookup (tab\<lparr>lt_heap := h\<rparr>) n create True follow) (\<lambda>(r, tab).
            case r of None \<Rightarrow> Some (Done (None, tab))
            | Some a \<Rightarrow> rbind (Some (lh_update a flag tab)) (\<lambda>tab. Some (Done (Some a, tab)))))"

definition bfd_wrapped_link_hash_lookup ::
    "link_file \<Rightarrow> bfd_link_info \<Rightarrow> string \<Rightarrow> bool \<Rightarrow> bool \<Rightarrow> bool \<Rightarrow> bfd_link_hash_table \<Rightarrow> (nat option \<times> bfd_link_hash_table) run" where
  "bfd_wrapped_link_hash_lookup abfd info str create copy follow tab =
     (case li_wrap_hash info of
        None \<Rightarrow> bfd_link_hash_lookup tab str create copy follow
      | Some wrap \<Rightarrow>
          (case split_prefix info abfd str of (pre, l) \<Rightarrow>
             rbind (Some (in_hash wrap l)) (\<lambda>wrapped.
               if wrapped then lookup_renamed tab (pre @ ''__wrap_'' @ l) create follow (\<lambda>e. e\<lparr>lh_wrapper_symbol := True\<rparr>)
               else let real = take 7 l = ''__real_''; rest = drop 7 l
                    in rbind (if real then Some (in_hash wrap rest) else Some (Done False)) (\<lambda>is_real.
                         if is_real then lookup_renamed tab (pre @ rest) create follow (\<lambda>e. e\<lparr>lh_ref_real := True\<rparr>)
                         else bfd_link_hash_lookup tab str create copy follow))))"

text \<open>The character in front of the name is overwritten for the time of the lookup, which the lookup does not notice: the entry it
  belongs to has a longer name.\<close>

definition unwrap_hash_lookup :: "bfd_link_info \<Rightarrow> link_file \<Rightarrow> nat \<Rightarrow> bfd_link_hash_table \<Rightarrow> (nat option \<times> bfd_link_hash_table) run" where
  "unwrap_hash_lookup info input_bfd h tab =
     rbind (Some (lh_get tab h)) (\<lambda>e.
       case split_prefix info input_bfd (he_string e) of (pre, l) \<Rightarrow>
         if take 7 l = ''__wrap_''
         then (case li_wrap_hash info of
                 None \<Rightarrow> Some Undefined
               | Some wrap \<Rightarrow>
                   rbind (Some (in_hash wrap (drop 7 l))) (\<lambda>wrapped.
                     if wrapped then bfd_link_hash_lookup tab (pre @ drop 7 l) False False False
                     else Some (Done (Some h, tab))))
         else Some (Done (Some h, tab)))"

definition bfd_link_hash_traverse ::
    "bfd_link_hash_table \<Rightarrow> (nat \<Rightarrow> 's \<Rightarrow> bool \<times> 's) \<Rightarrow> 's \<Rightarrow> (bfd_link_hash_table \<times> 's) cresult" where
  "bfd_link_hash_traverse htab func info =
     cbind (bfd_hash_traverse (lt_table htab) (\<lambda>p s. func (case (lh_type p, lh_u p) of
             (bfd_link_hash_warning, U_i a _) \<Rightarrow> a | _ \<Rightarrow> he_addr p) s) info)
       (\<lambda>(t, s). Done (htab\<lparr>lt_table := t\<rparr>, s))"

section \<open>Undefined symbols\<close>

definition bfd_link_add_undef :: "nat \<Rightarrow> bfd_link_hash_table \<Rightarrow> bfd_link_hash_table cresult" where
  "bfd_link_add_undef h tab =
     cbind (lh_get tab h) (\<lambda>e.
       cbind (case lt_undefs_tail tab of
                None \<Rightarrow> Done (lt_assert (lh_next e = None) tab)
              | Some tail \<Rightarrow> lh_update tail (\<lambda>x. x\<lparr>lh_next := Some h\<rparr>) (lt_assert (lh_next e = None) tab)) (\<lambda>tab.
         Done (tab\<lparr>lt_undefs := if lt_undefs tab = None then Some h else lt_undefs tab, lt_undefs_tail := Some h\<rparr>)))"

text \<open>\<open>pun\<close> is the entry whose \<open>next\<close> is being looked at, nothing for the head of the list.\<close>

definition read_pun :: "nat option \<Rightarrow> bfd_link_hash_table \<Rightarrow> nat option cresult" where
  "read_pun pun tab = (case pun of None \<Rightarrow> Done (lt_undefs tab) | Some a \<Rightarrow> cbind (lh_get tab a) (\<lambda>e. Done (lh_next e)))"

definition write_pun :: "nat option \<Rightarrow> nat option \<Rightarrow> bfd_link_hash_table \<Rightarrow> bfd_link_hash_table cresult" where
  "write_pun pun x tab =
     (case pun of None \<Rightarrow> Done (tab\<lparr>lt_undefs := x\<rparr>) | Some a \<Rightarrow> lh_update a (\<lambda>e. e\<lparr>lh_next := x\<rparr>) tab)"

text \<open>One round of the loop: the next \<open>pun\<close>, or nothing when the loop ends.\<close>

definition repair_step :: "nat option \<Rightarrow> bfd_link_hash_table \<Rightarrow> (nat option option \<times> bfd_link_hash_table) cresult" where
  "repair_step pun tab =
     cbind (read_pun pun tab) (\<lambda>x. case x of
       None \<Rightarrow> Done (None, tab)
     | Some h \<Rightarrow>
         cbind (lh_get tab h) (\<lambda>e.
           if lh_type e = bfd_link_hash_new \<or> lh_type e = bfd_link_hash_undefweak
           then cbind (write_pun pun (lh_next e) tab) (\<lambda>tab.
                  cbind (lh_update h (\<lambda>e. e\<lparr>lh_next := None\<rparr>) tab) (\<lambda>tab.
                    if lt_undefs_tail tab = Some h then Done (None, tab\<lparr>lt_undefs_tail := pun\<rparr>) else Done (Some pun, tab)))
           else Done (Some (Some h), tab)))"

partial_function (option) repair_loop :: "nat option \<Rightarrow> bfd_link_hash_table \<Rightarrow> bfd_link_hash_table run" where
  "repair_loop pun tab =
     (case repair_step pun tab of
        Undefined \<Rightarrow> Some Undefined
      | Abort \<Rightarrow> Some Abort
      | Done (None, tab) \<Rightarrow> Some (Done tab)
      | Done (Some pun, tab) \<Rightarrow> repair_loop pun tab)"

definition bfd_link_repair_undef_list :: "bfd_link_hash_table \<Rightarrow> bfd_link_hash_table run" where
  "bfd_link_repair_undef_list tab = repair_loop None tab"

section \<open>The state table\<close>

datatype link_row = UNDEF_ROW | UNDEFW_ROW | DEF_ROW | DEFW_ROW | COMMON_ROW | INDR_ROW | WARN_ROW | SET_ROW

datatype link_action_type =
  FAIL | UND | WEAK | DEF | DEFW | COM | REF | CREF | CDEF | NOACT | BIG | MDEF | MIND | IND | CIND | SET | MWARN | WARN | CYCLE | REFC | WARNC

definition link_actions :: "link_action_type list list" where
  "link_actions =
    [[UND,   NOACT, UND,   REF,   REF,   NOACT, REFC,  WARNC],
     [WEAK,  NOACT, NOACT, REF,   REF,   NOACT, REFC,  WARNC],
     [DEF,   DEF,   DEF,   MDEF,  DEF,   CDEF,  MIND,  CYCLE],
     [DEFW,  DEFW,  DEFW,  NOACT, NOACT, NOACT, NOACT, CYCLE],
     [COM,   COM,   COM,   CREF,  COM,   BIG,   REFC,  WARNC],
     [IND,   IND,   IND,   MDEF,  IND,   CIND,  MIND,  CYCLE],
     [MWARN, WARN,  WARN,  WARN,  WARN,  WARN,  WARN,  NOACT],
     [SET,   SET,   SET,   SET,   SET,   SET,   CYCLE, CYCLE]]"

primrec row_index :: "link_row \<Rightarrow> nat" where
  "row_index UNDEF_ROW = 0" | "row_index UNDEFW_ROW = 1" | "row_index DEF_ROW = 2" | "row_index DEFW_ROW = 3" | "row_index COMMON_ROW = 4"
| "row_index INDR_ROW = 5" | "row_index WARN_ROW = 6" | "row_index SET_ROW = 7"

primrec type_index :: "bfd_link_hash_type \<Rightarrow> nat" where
  "type_index bfd_link_hash_new = 0" | "type_index bfd_link_hash_undefined = 1" | "type_index bfd_link_hash_undefweak = 2"
| "type_index bfd_link_hash_defined = 3" | "type_index bfd_link_hash_defweak = 4" | "type_index bfd_link_hash_common = 5"
| "type_index bfd_link_hash_indirect = 6" | "type_index bfd_link_hash_warning = 7"

definition link_action :: "link_row \<Rightarrow> bfd_link_hash_type \<Rightarrow> link_action_type" where
  "link_action row prev = link_actions ! row_index row ! type_index prev"

section \<open>Adding a symbol\<close>

text \<open>\<open>bfd_log2\<close>, the logarithm rounded up.\<close>

function log2_loop :: "bfd_vma \<Rightarrow> nat" where
  "log2_loop x = (let x = drop_bit 1 x in if x \<noteq> 0 then Suc (log2_loop x) else 1)"
  by pat_completeness auto
termination
proof (relation "measure unat")
  fix x y :: bfd_vma
  assume "y = drop_bit 1 x" "y \<noteq> 0"
  then have "unat y = unat x div 2" by (simp add: drop_bit_eq_div unat_div_distrib)
  moreover have "unat y \<noteq> 0" using \<open>y \<noteq> 0\<close> by (simp add: unat_eq_0)
  ultimately show "(y, x) \<in> measure unat" by simp
qed simp

declare log2_loop.simps [simp del]

definition bfd_log2 :: "bfd_vma \<Rightarrow> nat" where
  "bfd_log2 x = (if x \<le> 1 then 0 else log2_loop (x - 1))"

text \<open>The file a symbol comes from.\<close>

definition entry_bfd :: "bfd_link_hash_entry \<Rightarrow> nat option cresult" where
  "entry_bfd e =
     (if lh_type e \<in> {bfd_link_hash_undefined, bfd_link_hash_undefweak} then (case lh_u e of U_undef f \<Rightarrow> Done f | _ \<Rightarrow> Undefined)
      else if lh_type e \<in> {bfd_link_hash_defined, bfd_link_hash_defweak} then (case lh_u e of U_def sec _ \<Rightarrow> Done (ls_owner sec) | _ \<Rightarrow> Undefined)
      else if lh_type e = bfd_link_hash_common then (case lh_u e of U_c (Some c) _ \<Rightarrow> Done (ls_owner (cm_section c)) | _ \<Rightarrow> Undefined)
      else Done None)"

partial_function (option) hash_entry_bfd :: "bfd_link_hash_table \<Rightarrow> nat \<Rightarrow> nat option run" where
  "hash_entry_bfd tab a =
     (case lh_get tab a of
        Undefined \<Rightarrow> Some Undefined
      | Abort \<Rightarrow> Some Abort
      | Done e \<Rightarrow>
          if lh_type e = bfd_link_hash_warning
          then (case lh_u e of U_i b _ \<Rightarrow> hash_entry_bfd tab b | _ \<Rightarrow> Some Undefined)
          else Some (entry_bfd e))"

text \<open>How a round ends: the function returns, or the next symbol is treated.\<close>

datatype link_next = Return bool | Again link_row nat

definition mark_referenced :: "nat \<Rightarrow> bfd_link_hash_table \<Rightarrow> bfd_link_hash_table cresult" where
  "mark_referenced h tab =
     cbind (lh_get tab h) (\<lambda>e.
       Done (if lh_next e = None \<and> lt_undefs_tail tab \<noteq> Some h then lh_put (e\<lparr>lh_next := Some h\<rparr>) tab else tab))"

definition make_undef :: "bfd_link_hash_type \<Rightarrow> link_file \<Rightarrow> nat \<Rightarrow> bfd_link_hash_table \<Rightarrow> bfd_link_hash_table cresult" where
  "make_undef type abfd h tab = lh_update h (\<lambda>e. e\<lparr>lh_type := type, lh_u := U_undef (Some (lf_id abfd))\<rparr>) tab"

text \<open>The test for names of global constructors and destructors.\<close>

definition constructor_kind :: "string \<Rightarrow> char option cresult" where
  "constructor_kind name =
     (let s = dropWhile (\<lambda>c. c = CHR ''_'') (tl name)
      in if take 7 s = ''GLOBAL_''
         then cbind (c_char s 8) (\<lambda>c.
                if c = CHR ''I'' \<or> c = CHR ''D''
                then cbind (c_char s 7) (\<lambda>a. cbind (c_char s 9) (\<lambda>b. Done (if a = b then Some c else None)))
                else Done None)
         else Done None)"

definition define_symbol ::
    "link_symbol \<Rightarrow> bfd_link_hash_type \<Rightarrow> nat \<Rightarrow> bfd_link_hash_table \<Rightarrow> bfd_link_hash_table cresult" where
  "define_symbol sy type h tab =
     cbind (lh_get tab h) (\<lambda>e.
       let tab = lh_put (e\<lparr>lh_type := type, lh_u := U_def (ly_section sy) (ly_value sy), lh_linker_def := False, lh_ldscript_def := False\<rparr>) tab
       in if ly_collect sy \<and> take 1 (ly_name sy) = ''_''
          then cbind (constructor_kind (ly_name sy)) (\<lambda>kind. case kind of
                 None \<Rightarrow> Done tab
               | Some c \<Rightarrow>
                   if lh_type e = bfd_link_hash_defweak then Abort
                   else Done (tell (Constructor (c = CHR ''I'') (he_string e) (lf_id (ly_abfd sy)) (ly_section sy) (ly_value sy)) tab))
          else Done tab)"

text \<open>The section of a common symbol.\<close>

definition common_section :: "bfd_link_info \<Rightarrow> link_symbol \<Rightarrow> link_section cresult" where
  "common_section info sy =
     (let sec = ly_section sy; f = lf_id (ly_abfd sy);
          made = (\<lambda>n. case li_make_section info f n of None \<Rightarrow> Undefined | Some s \<Rightarrow> Done (s\<lparr>ls_alloc := True\<rparr>))
      in if ls_is_com_ptr sec then made ''COMMON''
         else if ls_owner sec \<noteq> Some f then made (ls_name sec)
         else Done sec)"

definition default_power :: "bfd_vma \<Rightarrow> nat" where
  "default_power v = min (bfd_log2 v) 4"

text \<open>When the memory for the common symbol cannot be had, its size is what the union held before; it is not read.\<close>

definition make_common :: "bfd_link_info \<Rightarrow> link_symbol \<Rightarrow> nat \<Rightarrow> bfd_link_hash_table \<Rightarrow> (bool \<times> bfd_link_hash_table) cresult" where
  "make_common info sy h tab =
     cbind (lh_get tab h) (\<lambda>e.
       cbind (if lh_type e = bfd_link_hash_new then bfd_link_add_undef h tab else Done tab) (\<lambda>tab.
         cbind (bfd_hash_allocate (lt_table tab) 16) (\<lambda>(p, t). case p of
           None \<Rightarrow>
             cbind (lh_update h (\<lambda>e. e\<lparr>lh_type := bfd_link_hash_common, lh_u := U_c None 0\<rparr>) (tab\<lparr>lt_table := t\<rparr>)) (\<lambda>tab. Done (False, tab))
         | Some _ \<Rightarrow>
             cbind (common_section info sy) (\<lambda>sec.
               cbind (lh_update h (\<lambda>e. e\<lparr>lh_type := bfd_link_hash_common,
                     lh_u := U_c (Some \<lparr>cm_alignment_power = default_power (ly_value sy), cm_section = sec\<rparr>) (ly_value sy),
                     lh_linker_def := False, lh_ldscript_def := False\<rparr>) (tab\<lparr>lt_table := t\<rparr>)) (\<lambda>tab. Done (True, tab))))))"

definition enlarge_common :: "bfd_link_info \<Rightarrow> link_symbol \<Rightarrow> nat \<Rightarrow> bfd_link_hash_table \<Rightarrow> bfd_link_hash_table cresult" where
  "enlarge_common info sy h tab =
     cbind (lh_get tab h) (\<lambda>e.
       let tab = tell (Multiple_common h (lf_id (ly_abfd sy)) bfd_link_hash_common (ly_value sy)) (lt_assert (lh_type e = bfd_link_hash_common) tab)
       in case lh_u e of
            U_c p old_size \<Rightarrow>
              if old_size < ly_value sy
              then (case p of
                      None \<Rightarrow> Undefined
                    | Some _ \<Rightarrow> cbind (common_section info sy) (\<lambda>sec.
                        Done (lh_put (e\<lparr>lh_u := U_c (Some \<lparr>cm_alignment_power = default_power (ly_value sy), cm_section = sec\<rparr>) (ly_value sy)\<rparr>) tab)))
              else Done tab
          | _ \<Rightarrow> Undefined)"

text \<open>An indirect symbol; a chain of two that point at each other is refused.  The warning of an indirect symbol is never read.\<close>

definition make_indirect :: "link_symbol \<Rightarrow> link_row \<Rightarrow> nat \<Rightarrow> nat \<Rightarrow> bfd_link_hash_table \<Rightarrow> (link_next \<times> bfd_link_hash_table) cresult" where
  "make_indirect sy row h inh tab =
     cbind (lh_get tab inh) (\<lambda>i.
       cbind (if lh_type i = bfd_link_hash_indirect then cbind (u_link i) (\<lambda>l. Done (l = h)) else Done False) (\<lambda>loop.
         if loop then Done (Return False, tell (Indirect_loop (lf_id (ly_abfd sy)) (ly_name sy) (ly_string sy)) tab)
         else cbind (if lh_type i = bfd_link_hash_new
                     then cbind (make_undef bfd_link_hash_undefined (ly_abfd sy) inh tab) (bfd_link_add_undef inh)
                     else Done tab) (\<lambda>tab.
           cbind (lh_get tab h) (\<lambda>e.
             let tab = lh_put (e\<lparr>lh_type := bfd_link_hash_indirect, lh_u := U_i inh None\<rparr>) tab
             in Done (if lh_type e \<noteq> bfd_link_hash_new then Again UNDEF_ROW h else Return True, tab)))))"

text \<open>A warning symbol takes the place of the entry in the hash table and points to it.  The size of the copy of the warning is a \<open>size_t\<close>
  that \<open>bfd_hash_allocate\<close> truncates.\<close>

definition make_warning :: "link_symbol \<Rightarrow> nat \<Rightarrow> bfd_link_hash_table \<Rightarrow> (bool \<times> nat option \<times> bfd_link_hash_table) cresult" where
  "make_warning sy h tab =
     cbind (lh_get tab h) (\<lambda>e.
       cbind (bfd_link_hash_newfunc None (lt_table tab) (he_string e)) (\<lambda>(r, t). case r of
         None \<Rightarrow> Done (False, None, tab\<lparr>lt_table := t\<rparr>)
       | Some new \<Rightarrow>
           let len = length (ly_string sy) + 1
           in cbind (if ly_copy sy then bfd_hash_allocate t (of_nat len) else Done (Some 0, t)) (\<lambda>(w, t). case w of
              None \<Rightarrow> Done (False, None, tab\<lparr>lt_table := t\<rparr>)
            | Some _ \<Rightarrow>
                if ly_copy sy \<and> \<not> memcpy_fits (of_nat len) len then Undefined
                else
                let sub = e\<lparr>he_addr := he_addr new, lh_type := bfd_link_hash_warning, lh_u := U_i h (Some (ly_string sy))\<rparr>;
                    chain = ht_table t ! slot (he_hash e) (ht_size t)
                in cbind (bfd_hash_replace t e sub (tl (dropWhile (\<lambda>x. he_addr x \<noteq> h) chain))) (\<lambda>t.
                     Done (True, Some (he_addr sub), tab\<lparr>lt_table := t, lt_off := e # lt_off tab\<rparr>)))))"

text \<open>The actions that follow a link: the entry's own link is read when the action is done.\<close>

definition cycle :: "link_row \<Rightarrow> nat \<Rightarrow> bfd_link_hash_table \<Rightarrow> (link_next \<times> bfd_link_hash_table) cresult" where
  "cycle row h tab = cbind (lh_get tab h) (\<lambda>e. cbind (u_link e) (\<lambda>l. Done (Again row l, tab)))"

definition multiple_indirect :: "link_symbol \<Rightarrow> link_row \<Rightarrow> nat \<Rightarrow> nat option \<Rightarrow> bfd_link_hash_table \<Rightarrow> (link_next \<times> bfd_link_hash_table) cresult" where
  "multiple_indirect sy row h inh tab =
     cbind (lh_get tab h) (\<lambda>e. cbind (u_link e) (\<lambda>l.
       if Some l = inh then Done (Return True, tab)
       else cbind (lh_get tab l) (\<lambda>x.
         if lh_type x = bfd_link_hash_defweak then Done (Again row l, tab)
         else Done (Return True, tell (Multiple_definition h (lf_id (ly_abfd sy)) (ly_section sy) (ly_value sy)) tab))))"

definition issue_warning :: "link_symbol \<Rightarrow> nat \<Rightarrow> bfd_link_hash_table \<Rightarrow> bfd_link_hash_table cresult" where
  "issue_warning sy h tab =
     cbind (lh_get tab h) (\<lambda>e. case lh_u e of
       U_i l (Some w) \<Rightarrow>
         if lf_plugin (ly_abfd sy) then Done tab
         else Done (lh_put (e\<lparr>lh_u := U_i l None\<rparr>) (tell (Warning w (he_string e) (Some (lf_id (ly_abfd sy)))) tab))
     | U_i l None \<Rightarrow> Done tab
     | _ \<Rightarrow> Undefined)"

definition finish :: "bfd_link_hash_table cresult \<Rightarrow> (link_next \<times> bfd_link_hash_table) cresult" where
  "finish r = cbind r (\<lambda>tab. Done (Return True, tab))"

text \<open>Every action but the two that make or issue a warning for a symbol.\<close>

definition link_act ::
    "bfd_link_info \<Rightarrow> link_symbol \<Rightarrow> link_action_type \<Rightarrow> link_row \<Rightarrow> nat \<Rightarrow> nat option \<Rightarrow> bfd_link_hash_table \<Rightarrow> (link_next \<times> bfd_link_hash_table) cresult" where
  "link_act info sy action row h inh tab =
     (let abfd = ly_abfd sy; f = lf_id (ly_abfd sy)
      in case action of
        FAIL \<Rightarrow> Abort
      | NOACT \<Rightarrow> Done (Return True, tab)
      | UND \<Rightarrow> finish (cbind (make_undef bfd_link_hash_undefined abfd h tab) (bfd_link_add_undef h))
      | WEAK \<Rightarrow> finish (make_undef bfd_link_hash_undefweak abfd h tab)
      | CDEF \<Rightarrow> cbind (lh_get tab h) (\<lambda>e.
          finish (define_symbol sy bfd_link_hash_defined h
            (tell (Multiple_common h f bfd_link_hash_defined 0) (lt_assert (lh_type e = bfd_link_hash_common) tab))))
      | DEF \<Rightarrow> finish (define_symbol sy bfd_link_hash_defined h tab)
      | DEFW \<Rightarrow> finish (define_symbol sy bfd_link_hash_defweak h tab)
      | COM \<Rightarrow> cbind (make_common info sy h tab) (\<lambda>(ok, tab). Done (Return ok, tab))
      | REF \<Rightarrow> finish (mark_referenced h tab)
      | BIG \<Rightarrow> finish (enlarge_common info sy h tab)
      | CREF \<Rightarrow> Done (Return True, tell (Multiple_common h f bfd_link_hash_common (ly_value sy)) tab)
      | MIND \<Rightarrow> multiple_indirect sy row h inh tab
      | MDEF \<Rightarrow> Done (Return True, tell (Multiple_definition h f (ly_section sy) (ly_value sy)) tab)
      | CIND \<Rightarrow> cbind (lh_get tab h) (\<lambda>e. case inh of None \<Rightarrow> Undefined
          | Some i \<Rightarrow> make_indirect sy row h i (tell (Multiple_common h f bfd_link_hash_indirect 0) (lt_assert (lh_type e = bfd_link_hash_common) tab)))
      | IND \<Rightarrow> (case inh of None \<Rightarrow> Undefined | Some i \<Rightarrow> make_indirect sy row h i tab)
      | SET \<Rightarrow> Done (Return True, tell (Add_to_set h f (ly_section sy) (ly_value sy)) tab)
      | WARNC \<Rightarrow> cbind (issue_warning sy h tab) (cycle row h)
      | CYCLE \<Rightarrow> cycle row h tab
      | REFC \<Rightarrow> cbind (mark_referenced h tab) (cycle row h)
      | MWARN \<Rightarrow> Abort
      | WARN \<Rightarrow> Abort)"

definition link_warn ::
    "bfd_link_info \<Rightarrow> link_symbol \<Rightarrow> link_action_type \<Rightarrow> nat \<Rightarrow> nat option \<Rightarrow> bfd_link_hash_table \<Rightarrow> (bool \<times> nat option \<times> bfd_link_hash_table) run" where
  "link_warn info sy action h hashp tab =
     rbind (Some (lh_get tab h)) (\<lambda>e.
       if action = WARN \<and> (\<not> li_lto_plugin_active info \<and> (lh_next e \<noteq> None \<or> lt_undefs_tail tab = Some h)
            \<or> lh_non_ir_ref_regular e \<or> lh_non_ir_ref_dynamic e)
       then rbind (hash_entry_bfd tab h) (\<lambda>owner.
              let tab = tell (Warning (ly_string sy) (he_string e) owner) tab
              in Some (Done (True, hashp, if li_gc_sections info then tell (Gc_note owner) tab else tab)))
       else rbind (Some (make_warning sy h tab)) (\<lambda>(ok, p, tab). Some (Done (ok, if ok then p else hashp, tab))))"

text \<open>The loop.  The result is the returned flag and the entry left in \<open>*hashp\<close>.\<close>

partial_function (option) link_loop ::
    "bfd_link_info \<Rightarrow> link_symbol \<Rightarrow> link_row \<Rightarrow> nat \<Rightarrow> nat option \<Rightarrow> nat option \<Rightarrow> bfd_link_hash_table \<Rightarrow> (bool \<times> nat option \<times> bfd_link_hash_table) run" where
  "link_loop info sy row h inh hashp tab =
     (case lh_get tab h of
        Undefined \<Rightarrow> Some Undefined
      | Abort \<Rightarrow> Some Abort
      | Done e \<Rightarrow>
          let action = link_action row (if lh_ldscript_def e then bfd_link_hash_undefined else lh_type e)
          in if action = WARN \<or> action = MWARN then link_warn info sy action h hashp tab
             else case link_act info sy action row h inh tab of
                    Undefined \<Rightarrow> Some Undefined
                  | Abort \<Rightarrow> Some Abort
                  | Done (Return ok, tab) \<Rightarrow> Some (Done (ok, hashp, tab))
                  | Done (Again row h, tab) \<Rightarrow> link_loop info sy row h inh hashp tab)"

text \<open>Classification of the symbol.\<close>

definition symbol_row :: "link_symbol \<Rightarrow> link_row" where
  "symbol_row sy =
     (let sec = ly_section sy
      in if ls_is_ind sec \<or> ly_indirect sy then INDR_ROW
         else if ly_warning sy then WARN_ROW
         else if ly_constructor sy then SET_ROW
         else if ls_is_und sec then (if ly_weak sy then UNDEFW_ROW else UNDEF_ROW)
         else if ly_weak sy then DEFW_ROW
         else if ls_is_common sec then COMMON_ROW
         else DEF_ROW)"

definition lto_slim :: "string \<Rightarrow> bool" where
  "lto_slim name \<longleftrightarrow> take 2 name = ''__'' \<and> (if take 1 (drop 2 name) = ''_'' then drop 1 name else name) = ''__gnu_lto_slim''"

definition noticed :: "bfd_link_info \<Rightarrow> string \<Rightarrow> bool cresult" where
  "noticed info name =
     (if li_notice_all info then Done True else case li_notice_hash info of None \<Rightarrow> Done False | Some t \<Rightarrow> in_hash t name)"

definition start_loop ::
    "bfd_link_info \<Rightarrow> link_symbol \<Rightarrow> link_row \<Rightarrow> nat \<Rightarrow> nat option \<Rightarrow> nat option \<Rightarrow> bfd_link_hash_table \<Rightarrow> (bool \<times> nat option \<times> bfd_link_hash_table) run" where
  "start_loop info sy row h inh hashp tab =
     rbind (Some (noticed info (ly_name sy))) (\<lambda>n.
       if n \<and> \<not> li_notice info h inh (lf_id (ly_abfd sy)) (ly_section sy) (ly_value sy) then Some (Done (False, hashp, tab))
       else link_loop info sy row h inh (Some h) tab)"

definition bfd_generic_link_add_one_symbol ::
    "bfd_link_info \<Rightarrow> link_symbol \<Rightarrow> nat option \<Rightarrow> bfd_link_hash_table \<Rightarrow> (bool \<times> nat option \<times> bfd_link_hash_table) run" where
  "bfd_generic_link_add_one_symbol info sy hashp tab =
     (let row = symbol_row sy; abfd = ly_abfd sy
      in rbind (if row = INDR_ROW then bfd_wrapped_link_hash_lookup abfd info (ly_string sy) True (ly_copy sy) False tab
                else Some (Done (None, tab))) (\<lambda>(inh, tab).
           if row = INDR_ROW \<and> inh = None then Some (Done (False, hashp, tab))
           else let tab = (if row = COMMON_ROW \<and> \<not> li_relocatable info \<and> lto_slim (ly_name sy) then tell (Lto_needed (lf_id abfd)) tab else tab)
                in case hashp of
                     Some h \<Rightarrow> start_loop info sy row h inh hashp tab
                   | None \<Rightarrow>
                       rbind (if row = UNDEF_ROW \<or> row = UNDEFW_ROW
                              then bfd_wrapped_link_hash_lookup abfd info (ly_name sy) True (ly_copy sy) False tab
                              else bfd_link_hash_lookup tab (ly_name sy) True (ly_copy sy) False) (\<lambda>(r, tab).
                         case r of
                           None \<Rightarrow> Some (Done (False, None, tab))
                         | Some h \<Rightarrow> start_loop info sy row h inh hashp tab)))"

end
