(* ===== verification/Bfd_Link_Heap.thy ===== *)
theory Bfd_Link_Heap
  imports Bfd_Link
begin

text \<open>
  The entries of the symbol table of a link as objects: addresses are handed out once, by the hash table's memory, and an entry is found by its address
  whether it is in the table or was replaced by a warning symbol.  Changing an entry changes what its address leads to and nothing else.
\<close>

section \<open>Addresses\<close>

lemma grow_memory:
  "ht_memory t = Some m \<Longrightarrow> hash_grow t = Done t' \<Longrightarrow> \<exists>m'. ht_memory t' = Some m' \<and> oa_next m \<le> oa_next m'"
  by (auto simp: hash_grow_def table_alloc_def objalloc_alloc_def Let_def cbind_Done split: if_splits)

context hash_newfunc
begin

text \<open>A lookup hands out no address twice.\<close>

lemma insert_memory:
  assumes m: "ht_memory t = Some m" and run: "bfd_hash_insert newfunc t s h = Done (r, t')"
  shows "\<exists>m'. ht_memory t' = Some m' \<and> oa_next m \<le> oa_next m' \<and> (\<forall>e. r = Some e \<longrightarrow> oa_next m \<le> he_addr e \<and> he_addr e < oa_next m')"
proof -
  obtain x t1 where x: "newfunc None t s = Done (x, t1)" using returned [OF m] by blast
  show ?thesis
  proof (cases x)
    case None
    then show ?thesis using failed [OF m, of s t1] x run by (fastforce simp: bfd_hash_insert_def)
  next
    case (Some e)
    then obtain m1 where t1: "t1 = t\<lparr>ht_memory := Some m1\<rparr>" "oa_next m \<le> he_addr e" "he_addr e < oa_next m1" using made [OF m] x by blast
    let ?e = "e\<lparr>he_string := s, he_hash := h\<rparr>"
    have link: "ht_memory (hash_link ?e t1) = Some m1" by (simp add: hash_link_def Let_def t1(1))
    have "r = Some ?e \<and> (t' = hash_link ?e t1 \<or> hash_grow (hash_link ?e t1) = Done t')"
      using run x Some by (auto simp: bfd_hash_insert_def Let_def cbind_Done split: if_splits)
    moreover have "\<exists>m2. ht_memory t2 = Some m2 \<and> oa_next m1 \<le> oa_next m2" if "hash_grow (hash_link ?e t1) = Done t2" for t2
      using grow_memory [OF link that] .
    ultimately show ?thesis using t1 link by fastforce
  qed
qed

lemma lookup_memory:
  assumes ok: "hash_ok t" and m: "ht_memory t = Some m" and run: "bfd_hash_lookup newfunc t s create copy = Done (r, t')"
  shows "\<exists>m'. ht_memory t' = Some m' \<and> oa_next m \<le> oa_next m' \<and>
    (\<forall>e. r = Some e \<and> ht_map t s = None \<longrightarrow> oa_next m \<le> he_addr e \<and> he_addr e < oa_next m')"
proof -
  have pos: "ht_size t \<noteq> 0" using ok by (simp add: hash_ok_def)
  note unf = bfd_hash_lookup_def Let_def pos m find_in_chain [OF ok]
  show ?thesis
  proof (cases "ht_map t s = None \<and> create")
    case False
    then have "t' = t \<and> (r = None \<or> ht_map t s \<noteq> None)" using run by (auto simp: unf split: option.splits if_splits)
    then show ?thesis using m by auto
  next
    case new: True
    from m show ?thesis
    proof (cases rule: table_alloc_cases)
      case (ok m' a)
      have m': "ht_memory (t\<lparr>ht_memory := Some m'\<rparr>) = Some m'" by simp
      show ?thesis
      proof (cases copy)
        case True
        then have "bfd_hash_insert newfunc (t\<lparr>ht_memory := Some m'\<rparr>) s (hash_of s) = Done (r, t')" using run new ok(1) by (simp add: unf split: if_splits)
        from insert_memory [OF m' this] show ?thesis using ok(3) by fastforce
      next
        case False
        then have "bfd_hash_insert newfunc t s (hash_of s) = Done (r, t')" using run new by (simp add: unf)
        from insert_memory [OF m this] show ?thesis by blast
      qed
    next
      case (fail m')
      show ?thesis
      proof (cases copy)
        case True
        then show ?thesis using run new fail by (auto simp: unf)
      next
        case False
        then have "bfd_hash_insert newfunc t s (hash_of s) = Done (r, t')" using run new by (simp add: unf)
        from insert_memory [OF m this] show ?thesis by blast
      qed
    qed
  qed
qed

end

lemma bfd_link_hash_newfunc_made:
  "ht_memory t = Some m \<Longrightarrow> bfd_link_hash_newfunc None t s =
     (if oa_ok m (oa_next m)
      then Done (Some \<lparr>he_addr = oa_next m, he_string = [], he_hash = 0, lh_type = bfd_link_hash_new, lh_next = None, lh_u = U_undef None,
             lh_non_ir_ref_regular = False, lh_non_ir_ref_dynamic = False, lh_ref_real = False, lh_wrapper_symbol = False, lh_linker_def = False,
             lh_ldscript_def = False\<rparr>, t\<lparr>ht_memory := Some (m\<lparr>oa_next := Suc (oa_next m)\<rparr>)\<rparr>)
      else Done (None, t\<lparr>ht_memory := Some (m\<lparr>oa_next := Suc (oa_next m)\<rparr>)\<rparr>))"
  by (simp add: bfd_link_hash_newfunc_def bfd_hash_allocate_def table_alloc_def objalloc_alloc_def Let_def)

interpretation link_hash: initialising_newfunc bfd_link_hash_newfunc
  "\<lambda>e. lh_type e = bfd_link_hash_new \<and> lh_next e = None \<and> \<not> lh_ldscript_def e \<and> \<not> lh_non_ir_ref_regular e \<and> \<not> lh_non_ir_ref_dynamic e"
proof
  show "lh_type e = bfd_link_hash_new \<and> lh_next e = None \<and> \<not> lh_ldscript_def e \<and> \<not> lh_non_ir_ref_regular e \<and> \<not> lh_non_ir_ref_dynamic e"
    if "bfd_link_hash_newfunc None t s = Done (Some e, t1)" for t s e t1
    using that by (auto simp: bfd_link_hash_newfunc_def Let_def cbind_Done)
qed (fastforce simp: bfd_link_hash_newfunc_made split: if_splits)+

text \<open>The table as a store of objects and a map from names to their addresses.\<close>

definition sym_addr :: "bfd_link_hash_table \<Rightarrow> string \<rightharpoonup> nat" where
  "sym_addr tab s = map_option he_addr (ht_map (lt_table tab) s)"

definition link_heap :: "bfd_link_hash_table \<Rightarrow> bool" where
  "link_heap tab \<longleftrightarrow> hash_ok (lt_table tab) \<and> distinct (map he_addr (ht_entries (lt_table tab) @ lt_off tab)) \<and>
     (\<exists>m. ht_memory (lt_table tab) = Some m \<and> (\<forall>e \<in> set (lt_off tab). he_addr e < oa_next m))"

lemma find_by_addr:
  "distinct (map he_addr xs) \<Longrightarrow> find (\<lambda>e. he_addr e = a) xs = Some e \<longleftrightarrow> e \<in> set xs \<and> he_addr e = a"
  by (induction xs) (auto simp: image_iff)

lemma lh_at_iff: "link_heap tab \<Longrightarrow> lh_at tab a = Some e \<longleftrightarrow> e \<in> set (ht_entries (lt_table tab)) \<union> set (lt_off tab) \<and> he_addr e = a"
  unfolding lh_at_def link_heap_def by (subst find_by_addr) auto

lemma lh_at_addr: "link_heap tab \<Longrightarrow> lh_at tab a = Some e \<Longrightarrow> he_addr e = a"
  by (simp add: lh_at_iff)

lemma sym_addr_Some:
  assumes "link_heap tab"
  shows "sym_addr tab s = Some a \<longleftrightarrow> (\<exists>e \<in> set (ht_entries (lt_table tab)). he_string e = s \<and> he_addr e = a)"
  using assms ht_map_Some [of "lt_table tab" s] by (auto simp: sym_addr_def link_heap_def)

lemma sym_addr_at:
  assumes "link_heap tab" "sym_addr tab s = Some a"
  obtains e where "lh_at tab a = Some e" "he_string e = s" "e \<in> set (ht_entries (lt_table tab))"
  using assms sym_addr_Some lh_at_iff by (metis UnCI)

lemma lh_put_lists:
  "ht_entries (lt_table (lh_put e tab)) = map (\<lambda>x. if he_addr x = he_addr e then e else x) (ht_entries (lt_table tab))"
  "lt_off (lh_put e tab) = map (\<lambda>x. if he_addr x = he_addr e then e else x) (lt_off tab)"
  "lt_undefs (lh_put e tab) = lt_undefs tab" "lt_undefs_tail (lh_put e tab) = lt_undefs_tail tab"
  "lt_events (lh_put e tab) = lt_events tab" "lt_asserts (lh_put e tab) = lt_asserts tab" "lt_heap (lh_put e tab) = lt_heap tab"
  "ht_memory (lt_table (lh_put e tab)) = ht_memory (lt_table tab)" "ht_size (lt_table (lh_put e tab)) = ht_size (lt_table tab)"
  by (simp_all add: lh_put_def put_in_entries) (simp_all add: put_in_def)

lemma put_in_absent: "\<forall>x \<in> set (ht_entries t). he_addr x \<noteq> he_addr e \<Longrightarrow> put_in e t = t"
proof -
  assume *: "\<forall>x \<in> set (ht_entries t). he_addr x \<noteq> he_addr e"
  have "map (map (\<lambda>x. if he_addr x = he_addr e then e else x)) (ht_table t) = ht_table t"
    using * by (intro map_idI) (auto simp: ht_entries_def intro!: map_idI)
  then show ?thesis by (simp add: put_in_def)
qed

lemma put_in_table:
  assumes "link_heap tab" "lh_at tab (he_addr e) = Some x" "same_object e x"
  shows "hash_ok (put_in e (lt_table tab))" "map_option he_addr (ht_map (put_in e (lt_table tab)) s) = map_option he_addr (ht_map (lt_table tab) s)"
proof -
  have ok: "hash_ok (lt_table tab)" using assms(1) by (simp add: link_heap_def)
  have "hash_ok (put_in e (lt_table tab)) \<and> map_option he_addr (ht_map (put_in e (lt_table tab)) s) = map_option he_addr (ht_map (lt_table tab) s)"
  proof (cases "x \<in> set (ht_entries (lt_table tab))")
    case True
    have "ht_map (lt_table tab) (he_string e) = Some x" using True assms(3) ht_map_Some [OF ok] by (simp add: same_object_def)
    then show ?thesis using put_in_ok [OF ok True assms(3)] assms(3) by (simp add: same_object_def)
  next
    case False
    have "\<forall>y \<in> set (ht_entries (lt_table tab)). he_addr y \<noteq> he_addr e"
    proof (intro ballI notI)
      fix y assume y: "y \<in> set (ht_entries (lt_table tab))" "he_addr y = he_addr e"
      then have "lh_at tab (he_addr e) = Some y" using lh_at_iff [OF assms(1)] by blast
      then show False using assms(2) False y(1) by simp
    qed
    then show ?thesis using ok put_in_absent by metis
  qed
  then show "hash_ok (put_in e (lt_table tab))" "map_option he_addr (ht_map (put_in e (lt_table tab)) s) = map_option he_addr (ht_map (lt_table tab) s)" by blast+
qed

lemma lh_put_ok:
  assumes heap: "link_heap tab" and x: "lh_at tab (he_addr e) = Some x" "same_object e x"
  shows "link_heap (lh_put e tab)" "lh_at (lh_put e tab) = (lh_at tab)(he_addr e \<mapsto> e)" "sym_addr (lh_put e tab) = sym_addr tab"
proof -
  let ?f = "\<lambda>x. if he_addr x = he_addr e then e else x" and ?t = "lh_put e tab"
  let ?xs = "ht_entries (lt_table tab) @ lt_off tab"
  have addrs: "map he_addr (map ?f xs) = map he_addr xs" for xs :: "bfd_link_hash_entry list" by simp
  have off: "\<forall>y \<in> set (map ?f (lt_off tab)). he_addr y < n" if "\<forall>y \<in> set (lt_off tab). he_addr y < n" for n
    using that by (auto split: if_splits)
  have ok: "hash_ok (lt_table ?t)" using put_in_table [OF assms] by (simp add: lh_put_def)
  have "distinct (map he_addr (ht_entries (lt_table ?t) @ lt_off ?t))"
    using heap unfolding lh_put_lists link_heap_def map_append [symmetric] addrs by blast
  then show okt: "link_heap ?t" using ok heap off unfolding link_heap_def lh_put_lists by blast
  have mem: "y \<in> set ?xs \<Longrightarrow> he_addr y = he_addr e \<Longrightarrow> y = x" for y
    using lh_at_iff [OF heap, of "he_addr e" y] x(1) by auto
  show "lh_at ?t = (lh_at tab)(he_addr e \<mapsto> e)"
  proof
    fix a
    have "lh_at ?t a = Some y \<longleftrightarrow> ((lh_at tab)(he_addr e \<mapsto> e)) a = Some y" for y
    proof -
      have "lh_at ?t a = Some y \<longleftrightarrow> y \<in> ?f ` set ?xs \<and> he_addr y = a" unfolding lh_at_iff [OF okt] lh_put_lists by auto
      also have "\<dots> \<longleftrightarrow> ((lh_at tab)(he_addr e \<mapsto> e)) a = Some y"
        using lh_at_iff [OF heap, of a y] lh_at_iff [OF heap, of "he_addr e" x] x(1) by (auto simp: image_iff)
      finally show ?thesis .
    qed
    then show "lh_at ?t a = ((lh_at tab)(he_addr e \<mapsto> e)) a" by (intro option_eqI)
  qed
  show "sym_addr ?t = sym_addr tab" using put_in_table(2) [OF assms] by (auto simp: sym_addr_def lh_put_def)
qed

lemma lh_update_ok:
  assumes "link_heap tab" "lh_at tab a = Some x" "same_object (f x) x"
  shows "lh_update a f tab = Done (lh_put (f x) tab)" "link_heap (lh_put (f x) tab)" "lh_at (lh_put (f x) tab) = (lh_at tab)(a \<mapsto> f x)"
    "sym_addr (lh_put (f x) tab) = sym_addr tab"
proof -
  have "he_addr (f x) = a" using assms lh_at_addr by (auto simp: same_object_def)
  then show "link_heap (lh_put (f x) tab)" "lh_at (lh_put (f x) tab) = (lh_at tab)(a \<mapsto> f x)" "sym_addr (lh_put (f x) tab) = sym_addr tab"
    using lh_put_ok [OF assms(1), of "f x" x] assms(2,3) by auto
qed (simp add: lh_update_def lh_get_def assms(2))

end
