(* ===== verification/Bfd_Link_Inv.thy ===== *)
theory Bfd_Link_Inv
  imports Bfd_Link_Heap
begin

text \<open>
  The invariant of the symbol table of a link: every entry's union is read as its type says, indirect and warning symbols lead to symbols and
  never in a circle, and the undefined symbols are threaded on a list.  Lookups keep it, and so does the change of an entry.
\<close>

section \<open>Lookups and allocation\<close>

lemma link_heapI:
  assumes "hash_ok t" "distinct (map he_addr off)" "\<forall>e \<in> set (ht_entries t). \<forall>x \<in> set off. he_addr e \<noteq> he_addr x"
    and "ht_memory t = Some m" "\<forall>x \<in> set off. he_addr x < oa_next m" "lt_table tab = t" "lt_off tab = off"
  shows "link_heap tab"
  using assms by (auto simp: link_heap_def hash_ok_def)

lemma link_heapD:
  assumes "link_heap tab"
  obtains m where "hash_ok (lt_table tab)" "distinct (map he_addr (lt_off tab))"
    "\<forall>e \<in> set (ht_entries (lt_table tab)). \<forall>x \<in> set (lt_off tab). he_addr e \<noteq> he_addr x"
    "ht_memory (lt_table tab) = Some m" "\<forall>x \<in> set (lt_off tab). he_addr x < oa_next m" "\<forall>x \<in> set (ht_entries (lt_table tab)). he_addr x < oa_next m"
proof -
  obtain m where "ht_memory (lt_table tab) = Some m" "\<forall>x \<in> set (lt_off tab). he_addr x < oa_next m" using assms by (auto simp: link_heap_def)
  then show thesis using assms by (intro that [of m]) (auto simp: link_heap_def hash_ok_def image_iff)
qed

lemma fresh_addr:
  assumes heap: "link_heap tab" and m: "ht_memory (lt_table tab) = Some m" "oa_next m \<le> a"
  shows "lh_at tab a = None"
proof (rule ccontr)
  assume "lh_at tab a \<noteq> None"
  then obtain x where "x \<in> set (ht_entries (lt_table tab)) \<union> set (lt_off tab)" "he_addr x = a" using lh_at_iff [OF heap] by blast
  then have "a < oa_next m" by (rule_tac link_heapD [OF heap]) (use m in auto)
  then show False using m(2) by simp
qed

lemma table_view:
  assumes heap: "link_heap tab" and t: "hash_ok t" "ht_map t = ht_map (lt_table tab)"
    and m: "ht_memory (lt_table tab) = Some m" "ht_memory t = Some m'" "oa_next m \<le> oa_next m'"
  shows "link_heap (tab\<lparr>lt_table := t\<rparr>)" "lh_at (tab\<lparr>lt_table := t\<rparr>) = lh_at tab" "sym_addr (tab\<lparr>lt_table := t\<rparr>) = sym_addr tab"
proof -
  have ok: "hash_ok (lt_table tab)" using heap by (simp add: link_heap_def)
  have set: "set (ht_entries t) = set (ht_entries (lt_table tab))"
    using ht_map_Some [OF ok] ht_map_Some [OF t(1)] t(2) by auto
  show heap': "link_heap (tab\<lparr>lt_table := t\<rparr>)"
    by (rule link_heapD [OF heap], rule link_heapI [OF t(1), of "lt_off tab" m']) (use set m in auto)
  show "lh_at (tab\<lparr>lt_table := t\<rparr>) = lh_at tab"
    using lh_at_iff [OF heap'] lh_at_iff [OF heap] set by (intro ext option_eqI) auto
  show "sym_addr (tab\<lparr>lt_table := t\<rparr>) = sym_addr tab" by (simp add: sym_addr_def t(2) fun_eq_iff)
qed

lemma allocate_view:
  assumes heap: "link_heap tab" and run: "bfd_hash_allocate (lt_table tab) n = Done (r, t)"
  shows "link_heap (tab\<lparr>lt_table := t\<rparr>)" "lh_at (tab\<lparr>lt_table := t\<rparr>) = lh_at tab" "sym_addr (tab\<lparr>lt_table := t\<rparr>) = sym_addr tab"
    "ht_size t = ht_size (lt_table tab)" "\<forall>a. r = Some a \<longrightarrow> lh_at tab a = None"
proof -
  obtain m where m: "ht_memory (lt_table tab) = Some m" "\<forall>x \<in> set (lt_off tab). he_addr x < oa_next m"
      "\<forall>x \<in> set (ht_entries (lt_table tab)). he_addr x < oa_next m" and ok: "hash_ok (lt_table tab)"
    by (rule link_heapD [OF heap])
  obtain m' where t: "t = (lt_table tab)\<lparr>ht_memory := Some m'\<rparr>" "oa_next m \<le> oa_next m'" "\<forall>a. r = Some a \<longrightarrow> a = oa_next m"
    using m(1) run by (cases rule: table_alloc_cases) (auto simp: bfd_hash_allocate_def)
  then have "hash_ok t \<and> ht_map t = ht_map (lt_table tab)"
    using m ok by (intro hash_ok_permuted [OF ok]) (auto simp: ht_entries_def hash_ok_def)
  then show "link_heap (tab\<lparr>lt_table := t\<rparr>)" "lh_at (tab\<lparr>lt_table := t\<rparr>) = lh_at tab" "sym_addr (tab\<lparr>lt_table := t\<rparr>) = sym_addr tab"
    using table_view [OF heap _ _ m(1), of t m'] t by simp_all
  show "ht_size t = ht_size (lt_table tab)" using t(1) by simp
  show "\<forall>a. r = Some a \<longrightarrow> lh_at tab a = None" using t(3) fresh_addr [OF heap m(1)] by simp
qed

text \<open>An entry nobody has changed yet.\<close>

definition pristine :: "bfd_link_hash_entry \<Rightarrow> bool" where
  "pristine e \<longleftrightarrow> lh_type e = bfd_link_hash_new \<and> lh_next e = None \<and> \<not> lh_ldscript_def e \<and> \<not> lh_non_ir_ref_regular e \<and> \<not> lh_non_ir_ref_dynamic e"

text \<open>What looking a name up does to the table: nothing, or a new entry.\<close>

definition found :: "bfd_link_hash_table \<Rightarrow> string \<Rightarrow> nat option \<Rightarrow> bfd_link_hash_table \<Rightarrow> bool" where
  "found tab s r tab' \<longleftrightarrow> link_heap tab' \<and> lt_undefs tab' = lt_undefs tab \<and> lt_undefs_tail tab' = lt_undefs_tail tab \<and>
     lt_events tab' = lt_events tab \<and> lt_asserts tab' = lt_asserts tab \<and>
     (case r of
        None \<Rightarrow> sym_addr tab s = None \<and> lh_at tab' = lh_at tab \<and> sym_addr tab' = sym_addr tab
      | Some a \<Rightarrow>
          if sym_addr tab s \<noteq> None then sym_addr tab s = Some a \<and> tab' = tab
          else lh_at tab a = None \<and> (\<exists>e. pristine e \<and> he_string e = s \<and> he_addr e = a \<and> lh_at tab' = (lh_at tab)(a \<mapsto> e)) \<and>
            sym_addr tab' = (sym_addr tab)(s \<mapsto> a))"

lemma link_lookup_found:
  assumes heap: "link_heap tab" and size: "ht_size (lt_table tab) < 4294967291" and fits: "sym_addr tab s = None \<longrightarrow> copy_fits copy s"
  shows "\<exists>r tab'. bfd_link_hash_lookup tab s True copy False = Some (Done (r, tab')) \<and> found tab s r tab'"
proof -
  let ?t = "lt_table tab"
  obtain m where m: "ht_memory ?t = Some m" "\<forall>x \<in> set (lt_off tab). he_addr x < oa_next m" "\<forall>x \<in> set (ht_entries ?t). he_addr x < oa_next m"
    and ok: "hash_ok ?t" "distinct (map he_addr (lt_off tab))" "\<forall>e \<in> set (ht_entries ?t). \<forall>x \<in> set (lt_off tab). he_addr e \<noteq> he_addr x"
    by (rule link_heapD [OF heap])
  obtain r t where t: "bfd_hash_lookup bfd_link_hash_newfunc ?t s True copy = Done (r, t)" "hash_ok t"
    and r: "case r of Some e \<Rightarrow> he_string e = s \<and> ht_map t = (ht_map ?t)(s \<mapsto> e) \<and> (ht_map ?t s \<noteq> None \<longrightarrow> t = ?t)
       | None \<Rightarrow> ht_map ?t s = None \<and> ht_map t = ht_map ?t"
    using link_hash.lookup_ok [OF ok(1) size, of s copy True] fits by (auto simp: sym_addr_def split: option.splits)
  obtain m' where m': "ht_memory t = Some m'" "oa_next m \<le> oa_next m'" "\<forall>e. r = Some e \<and> ht_map ?t s = None \<longrightarrow> oa_next m \<le> he_addr e"
    using link_hash.lookup_memory [OF ok(1) m(1) t(1)] by blast
  let ?tab = "tab\<lparr>lt_table := t\<rparr>"
  have run: "bfd_link_hash_lookup tab s True copy False = Some (Done (map_option he_addr r, ?tab))"
    using t(1) by (cases r) (simp_all add: bfd_link_hash_lookup_def Let_def)
  have "found tab s (map_option he_addr r) ?tab"
  proof (cases r)
    case None
    then show ?thesis using table_view [OF heap t(2) _ m(1) m'(1,2)] r by (simp add: found_def sym_addr_def)
  next
    case (Some e)
    then have e: "he_string e = s" "ht_map t = (ht_map ?t)(s \<mapsto> e)" "ht_map ?t s \<noteq> None \<longrightarrow> t = ?t" using r by simp_all
    show ?thesis
    proof (cases "ht_map ?t s")
      case old: (Some x)
      then have "x = e" using e(2,3) by (metis fun_upd_same option.inject option.discI)
      then show ?thesis using Some old e(3) heap by (simp add: found_def sym_addr_def)
    next
      case None
      have fresh: "pristine e" using link_hash.lookup_fresh [OF ok(1) _ None, of True copy e t] t(1) Some by (simp add: pristine_def)
      have addr: "oa_next m \<le> he_addr e" using m'(3) Some None by blast
      have set: "x \<in> set (ht_entries t) \<longleftrightarrow> x = e \<or> x \<in> set (ht_entries ?t)" for x
        using ht_map_Some [OF ok(1), of "he_string x" x] ht_map_Some [OF t(2), of "he_string x" x] e None by (auto split: if_splits)
      have heap': "link_heap ?tab"
      proof (rule link_heapI [OF t(2) ok(2) _ m'(1)])
        show "\<forall>y \<in> set (ht_entries t). \<forall>x \<in> set (lt_off tab). he_addr y \<noteq> he_addr x" using set ok(3) addr m(2) by fastforce
        show "\<forall>x \<in> set (lt_off tab). he_addr x < oa_next m'" using m(2) m'(2) by fastforce
      qed simp_all
      have new: "lh_at tab (he_addr e) = None"
        by (rule fresh_addr [OF heap m(1) addr])
      have "lh_at ?tab a = ((lh_at tab)(he_addr e \<mapsto> e)) a" for a
        using lh_at_iff [OF heap', of a] lh_at_iff [OF heap, of a] lh_at_iff [OF heap, of "he_addr e"] new set by (intro option_eqI) auto
      then have "lh_at ?tab = (lh_at tab)(he_addr e \<mapsto> e)" by blast
      moreover have "sym_addr ?tab = (sym_addr tab)(s \<mapsto> he_addr e)" using e(2) by (simp add: sym_addr_def fun_eq_iff)
      moreover have "sym_addr tab s = None" using None by (simp add: sym_addr_def)
      ultimately show ?thesis using Some heap' new fresh e(1) by (auto simp: found_def)
    qed
  qed
  then show ?thesis using run by blast
qed

section \<open>The invariant\<close>

text \<open>The union is read as the type says, links lead to symbols and never in a circle.\<close>

definition typed :: "bfd_link_hash_entry \<Rightarrow> bool" where
  "typed e \<longleftrightarrow> (case lh_type e of
     bfd_link_hash_new \<Rightarrow> True
   | bfd_link_hash_undefined \<Rightarrow> \<exists>f. lh_u e = U_undef f
   | bfd_link_hash_undefweak \<Rightarrow> \<exists>f. lh_u e = U_undef f
   | bfd_link_hash_defined \<Rightarrow> \<exists>sec v. lh_u e = U_def sec v
   | bfd_link_hash_defweak \<Rightarrow> \<exists>sec v. lh_u e = U_def sec v
   | bfd_link_hash_common \<Rightarrow> \<exists>c n. lh_u e = U_c (Some c) n
   | bfd_link_hash_indirect \<Rightarrow> \<exists>b w. lh_u e = U_i b w
   | bfd_link_hash_warning \<Rightarrow> \<exists>b w. lh_u e = U_i b w)"

definition link_of :: "bfd_link_hash_entry \<Rightarrow> nat option" where
  "link_of e = (if lh_type e \<in> {bfd_link_hash_indirect, bfd_link_hash_warning} then (case lh_u e of U_i b _ \<Rightarrow> Some b | _ \<Rightarrow> None) else None)"

definition links :: "(nat \<rightharpoonup> bfd_link_hash_entry) \<Rightarrow> (nat \<times> nat) set" where
  "links H = {(b, a). \<exists>e. H a = Some e \<and> link_of e = Some b}"

definition entries_ok :: "(nat \<rightharpoonup> bfd_link_hash_entry) \<Rightarrow> bool" where
  "entries_ok H \<longleftrightarrow> (\<forall>a e. H a = Some e \<longrightarrow> typed e \<and> \<not> lh_ldscript_def e \<and> (\<forall>b. link_of e = Some b \<longrightarrow> H b \<noteq> None))"

text \<open>The list of undefined symbols, threaded through the entries.\<close>

definition undef_chain :: "(nat \<rightharpoonup> bfd_link_hash_entry) \<Rightarrow> nat option \<Rightarrow> nat option \<Rightarrow> nat list \<Rightarrow> bool" where
  "undef_chain H first tail us \<longleftrightarrow> distinct us \<and> first = (if us = [] then None else Some (hd us)) \<and> tail = (if us = [] then None else Some (last us)) \<and>
     (\<forall>k < length us. \<exists>e. H (us ! k) = Some e \<and> lh_next e = (if Suc k < length us then Some (us ! Suc k) else None))"

text \<open>Which symbols are on it; a symbol that is not can point to itself, to say that it was referenced.\<close>

definition undef_types :: "(nat \<rightharpoonup> bfd_link_hash_entry) \<Rightarrow> nat list \<Rightarrow> bool" where
  "undef_types H us \<longleftrightarrow> (\<forall>a e. H a = Some e \<longrightarrow>
     (lh_type e = bfd_link_hash_undefined \<longrightarrow> a \<in> set us) \<and>
     (lh_type e \<in> {bfd_link_hash_new, bfd_link_hash_undefweak} \<longrightarrow> a \<notin> set us \<and> lh_next e = None) \<and>
     (a \<notin> set us \<and> lh_type e \<noteq> bfd_link_hash_warning \<longrightarrow> lh_next e \<in> {None, Some a}))"

definition link_inv :: "bfd_link_hash_table \<Rightarrow> nat list \<Rightarrow> bool" where
  "link_inv tab us \<longleftrightarrow> link_heap tab \<and> entries_ok (lh_at tab) \<and> wf (links (lh_at tab)) \<and>
     undef_chain (lh_at tab) (lt_undefs tab) (lt_undefs_tail tab) us \<and> undef_types (lh_at tab) us"

lemma link_invD:
  assumes "link_inv tab us"
  shows "link_heap tab" "entries_ok (lh_at tab)" "wf (links (lh_at tab))" "undef_chain (lh_at tab) (lt_undefs tab) (lt_undefs_tail tab) us"
    "undef_types (lh_at tab) us"
  using assms by (simp_all add: link_inv_def)

text \<open>Only \<open>next\<close> pointers differ.\<close>

definition next_only :: "(nat \<rightharpoonup> bfd_link_hash_entry) \<Rightarrow> (nat \<rightharpoonup> bfd_link_hash_entry) \<Rightarrow> bool" where
  "next_only H H' \<longleftrightarrow> (\<forall>a. rel_option (\<lambda>e e'. e' = e\<lparr>lh_next := lh_next e'\<rparr>) (H a) (H' a))"

lemma next_only_cases:
  assumes "next_only H H'" "H' a = Some e'"
  obtains e where "H a = Some e" "e' = e\<lparr>lh_next := lh_next e'\<rparr>" "lh_type e' = lh_type e" "lh_u e' = lh_u e" "lh_ldscript_def e' = lh_ldscript_def e"
    "typed e' = typed e" "link_of e' = link_of e" "he_string e' = he_string e" "he_addr e' = he_addr e"
proof -
  have "rel_option (\<lambda>e e'. e' = e\<lparr>lh_next := lh_next e'\<rparr>) (H a) (Some e')" using assms unfolding next_only_def by metis
  then obtain e where e: "H a = Some e" "e' = e\<lparr>lh_next := lh_next e'\<rparr>" by (auto simp: option_rel_Some2)
  have eq: "lh_type e' = lh_type e" "lh_u e' = lh_u e" "lh_ldscript_def e' = lh_ldscript_def e" "he_string e' = he_string e" "he_addr e' = he_addr e"
    by (subst e(2), simp)+
  have "typed e' = typed e" "link_of e' = link_of e" unfolding typed_def link_of_def eq by (rule refl)+
  then show thesis using that e eq by blast
qed

lemma next_only_defined: "next_only H H' \<Longrightarrow> H a = None \<longleftrightarrow> H' a = None"
  unfolding next_only_def by (metis option.rel_distinct(1,2) not_Some_eq)

lemma next_only_refl: "next_only H H"
  by (auto simp: next_only_def intro: option.rel_refl)

lemma next_only_links:
  assumes "next_only H H'"
  shows "links H' = links H"
proof -
  have "(\<exists>e. H' a = Some e \<and> link_of e = Some b) \<longleftrightarrow> (\<exists>e. H a = Some e \<and> link_of e = Some b)" for a b
    using next_only_cases [OF assms, of a] next_only_defined [OF assms, of a] by (metis option.inject not_Some_eq)
  then show ?thesis by (simp add: links_def)
qed

lemma next_only_entries:
  assumes "next_only H H'" "entries_ok H"
  shows "entries_ok H'"
  unfolding entries_ok_def
proof (intro allI impI)
  fix a e' assume "H' a = Some e'"
  then show "typed e' \<and> \<not> lh_ldscript_def e' \<and> (\<forall>b. link_of e' = Some b \<longrightarrow> H' b \<noteq> None)"
    using assms(2) next_only_defined [OF assms(1)] by (elim next_only_cases [OF assms(1)]) (simp add: entries_ok_def)
qed

section \<open>Changing an entry\<close>

lemma chain_update:
  assumes "undef_chain H f l us" "a \<in> set us \<longrightarrow> (\<exists>e. H a = Some e \<and> lh_next e' = lh_next e)"
  shows "undef_chain (H(a \<mapsto> e')) f l us"
proof -
  have "\<exists>x. (H(a \<mapsto> e')) (us ! k) = Some x \<and> lh_next x = (if Suc k < length us then Some (us ! Suc k) else None)" if k: "k < length us" for k
  proof -
    obtain x where x: "H (us ! k) = Some x" "lh_next x = (if Suc k < length us then Some (us ! Suc k) else None)"
      using assms(1) k unfolding undef_chain_def by blast
    then show ?thesis using assms(2) nth_mem [OF k] by (cases "us ! k = a") auto
  qed
  then show ?thesis using assms(1) by (simp add: undef_chain_def)
qed

lemma links_update:
  assumes "wf (links H)" "link_of e' = None \<or> (\<exists>b. link_of e' = Some b \<and> (a, b) \<notin> (links H)\<^sup>*)"
  shows "wf (links (H(a \<mapsto> e')))"
proof (cases "link_of e'")
  case None
  then have "links (H(a \<mapsto> e')) \<subseteq> links H" by (auto simp: links_def split: if_splits)
  then show ?thesis using assms(1) wf_subset by blast
next
  case (Some b)
  then have "links (H(a \<mapsto> e')) \<subseteq> insert (b, a) (links H)" by (auto simp: links_def split: if_splits)
  moreover have "wf (insert (b, a) (links H))" using assms Some by (simp add: wf_insert)
  ultimately show ?thesis using wf_subset by blast
qed

lemma entries_update:
  assumes "entries_ok H" "typed e'" "\<not> lh_ldscript_def e'" "\<forall>b. link_of e' = Some b \<longrightarrow> H b \<noteq> None"
  shows "entries_ok (H(a \<mapsto> e'))"
  using assms unfolding entries_ok_def by auto

lemma types_update:
  assumes "undef_types H us" "lh_type e' = bfd_link_hash_undefined \<longrightarrow> a \<in> set us"
    "lh_type e' \<in> {bfd_link_hash_new, bfd_link_hash_undefweak} \<longrightarrow> a \<notin> set us \<and> lh_next e' = None"
    "a \<notin> set us \<and> lh_type e' \<noteq> bfd_link_hash_warning \<longrightarrow> lh_next e' \<in> {None, Some a}"
  shows "undef_types (H(a \<mapsto> e')) us"
  using assms unfolding undef_types_def by auto

lemma put_inv:
  assumes inv: "link_inv tab us" and e: "lh_at tab a = Some e" "same_object e' e" and t: "typed e'" "\<not> lh_ldscript_def e'"
    and links: "link_of e' = None \<or> (\<exists>b. link_of e' = Some b \<and> lh_at tab b \<noteq> None \<and> (a, b) \<notin> (links (lh_at tab))\<^sup>*)"
    and chain: "a \<in> set us \<longrightarrow> lh_next e' = lh_next e"
    and types: "lh_type e' = bfd_link_hash_undefined \<longrightarrow> a \<in> set us"
      "lh_type e' \<in> {bfd_link_hash_new, bfd_link_hash_undefweak} \<longrightarrow> a \<notin> set us \<and> lh_next e' = None"
      "a \<notin> set us \<and> lh_type e' \<noteq> bfd_link_hash_warning \<longrightarrow> lh_next e' \<in> {None, Some a}"
  shows "link_inv (lh_put e' tab) us" "lh_at (lh_put e' tab) = (lh_at tab)(a \<mapsto> e')" "sym_addr (lh_put e' tab) = sym_addr tab"
proof -
  note D = link_invD [OF inv]
  have addr: "he_addr e' = a" using lh_at_addr [OF D(1) e(1)] e(2) by (simp add: same_object_def)
  note put = lh_put_ok [OF D(1), of e' e, unfolded addr, OF e]
  then show "lh_at (lh_put e' tab) = (lh_at tab)(a \<mapsto> e')" "sym_addr (lh_put e' tab) = sym_addr tab" by simp_all
  show "link_inv (lh_put e' tab) us"
    unfolding link_inv_def put(2) lh_put_lists
    using put(1) entries_update [OF D(2) t] links_update [OF D(3)] chain_update [OF D(4), of a e'] types_update [OF D(5) types] links chain e(1)
    by auto
qed

end
