(* ===== verification/Bfd_Link_Actions.thy ===== *)
theory Bfd_Link_Actions
  imports Bfd_Link_Inv
begin

text \<open>
  The actions of \<open>_bfd_generic_link_add_one_symbol\<close> for definitions, common symbols and references: each keeps the invariant, and what it makes of a
  symbol is a function of the symbol's state, \<open>merge\<close>, with the reports it gives to the linker.
\<close>

section \<open>The list of undefined symbols\<close>

lemma get_at: "lh_at tab a = Some e \<Longrightarrow> lh_get tab a = Done e"
  by (simp add: lh_get_def)

lemma next_irrelevant: "typed (e\<lparr>lh_next := n\<rparr>) = typed e" "link_of (e\<lparr>lh_next := n\<rparr>) = link_of e"
  by (simp_all add: typed_def link_of_def split: bfd_link_hash_type.split)

lemma chain_append:
  assumes chain: "undef_chain H f l us" and a: "H a = Some e" "lh_next e = None" "a \<notin> set us"
    and H': "H' = (case l of None \<Rightarrow> H | Some t \<Rightarrow> H(t \<mapsto> (the (H t))\<lparr>lh_next := Some a\<rparr>))"
  shows "undef_chain H' (if f = None then Some a else f) (Some a) (us @ [a])"
proof (cases "us = []")
  case True
  then show ?thesis using chain a H' by (simp add: undef_chain_def)
next
  case False
  let ?n = "length us"
  have l: "l = Some (last us)" "last us = us ! (?n - 1)" "?n - 1 < ?n" using chain False by (simp_all add: undef_chain_def last_conv_nth)
  have row: "\<exists>x. H (us ! k) = Some x \<and> lh_next x = (if Suc k < ?n then Some (us ! Suc k) else None)" if "k < ?n" for k
    using chain that unfolding undef_chain_def by blast
  have d: "distinct us" and f: "f = Some (hd us)" using chain False by (simp_all add: undef_chain_def)
  have "\<exists>x. H' ((us @ [a]) ! k) = Some x \<and> lh_next x = (if Suc k < length (us @ [a]) then Some ((us @ [a]) ! Suc k) else None)"
    if k: "k < length (us @ [a])" for k
  proof -
    consider "k = ?n" | "k = ?n - 1" "k < ?n" | "Suc k < ?n" using k by fastforce
    then show ?thesis
    proof cases
      case 1
      then show ?thesis using a l H' nth_mem [OF l(3)] by auto
    next
      case 2
      then show ?thesis using row [OF 2(2)] l H' False by (auto simp: nth_append)
    next
      case 3
      then have "us ! k \<noteq> last us" using d l by (simp add: nth_eq_iff_index_eq)
      then show ?thesis using row [of k] 3 l(1) H' by (auto simp: nth_append)
    qed
  qed
  then show ?thesis using d f a False by (simp add: undef_chain_def)
qed

lemma add_undef_ok:
  assumes heap: "link_heap tab" and chain: "undef_chain (lh_at tab) (lt_undefs tab) (lt_undefs_tail tab) us"
    and a: "lh_at tab a = Some e" "lh_next e = None" "a \<notin> set us"
  shows "\<exists>tab'. bfd_link_add_undef a tab = Done tab' \<and> link_heap tab' \<and> sym_addr tab' = sym_addr tab \<and>
    next_only (lh_at tab) (lh_at tab') \<and> (\<forall>x. x \<notin> set us \<longrightarrow> lh_at tab' x = lh_at tab x) \<and>
    undef_chain (lh_at tab') (lt_undefs tab') (lt_undefs_tail tab') (us @ [a]) \<and> lt_events tab' = lt_events tab \<and>
    lt_asserts tab' = lt_asserts tab"
proof (cases "us = []")
  case True
  then have tail: "lt_undefs_tail tab = None" "lt_undefs tab = None" using chain by (simp_all add: undef_chain_def)
  let ?t = "tab\<lparr>lt_undefs := Some a, lt_undefs_tail := Some a\<rparr>"
  have "bfd_link_add_undef a tab = Done ?t" using tail a by (simp add: bfd_link_add_undef_def get_at lt_assert_def)
  moreover have "lh_at ?t = lh_at tab" "sym_addr ?t = sym_addr tab" "link_heap ?t = link_heap tab"
    by (simp_all add: lh_at_def sym_addr_def link_heap_def fun_eq_iff)
  moreover have "undef_chain (lh_at tab) (Some a) (Some a) ([] @ [a])" using a by (simp add: undef_chain_def)
  ultimately show ?thesis using heap True by (auto simp: next_only_refl)
next
  case False
  let ?l = "last us"
  have tail: "lt_undefs_tail tab = Some ?l" "lt_undefs tab = Some (hd us)" using chain False by (simp_all add: undef_chain_def)
  obtain x where x: "lh_at tab ?l = Some x"
    using chain False unfolding undef_chain_def by (metis diff_less last_conv_nth length_greater_0_conv zero_less_one)
  let ?x = "x\<lparr>lh_next := Some a\<rparr>"
  let ?p = "lh_put ?x tab" let ?t = "?p\<lparr>lt_undefs_tail := Some a\<rparr>"
  have same: "same_object ?x x" by (simp add: same_object_def)
  have put: "link_heap ?p" "lh_at ?p = (lh_at tab)(?l \<mapsto> ?x)" "sym_addr ?p = sym_addr tab"
    using lh_update_ok(2-4) [where f = "\<lambda>x. x\<lparr>lh_next := Some a\<rparr>", OF heap x same] by simp_all
  have "lh_update ?l (\<lambda>x. x\<lparr>lh_next := Some a\<rparr>) tab = Done ?p" using lh_update_ok(1) [where f = "\<lambda>x. x\<lparr>lh_next := Some a\<rparr>", OF heap x same] by simp
  then have run: "bfd_link_add_undef a tab = Done ?t"
    using tail a by (simp add: bfd_link_add_undef_def get_at lt_assert_def lh_put_lists)
  have view: "lh_at ?t = lh_at ?p" "sym_addr ?t = sym_addr ?p" "link_heap ?t = link_heap ?p"
    by (simp_all add: lh_at_def sym_addr_def link_heap_def fun_eq_iff)
  have "undef_chain (lh_at ?p) (lt_undefs tab) (Some a) (us @ [a])"
    using chain_append [OF chain a refl] tail x put(2) by simp
  moreover have "next_only (lh_at tab) (lh_at ?p)" unfolding put(2) using x by (auto simp: next_only_def intro: option.rel_refl)
  moreover have "\<forall>y. y \<notin> set us \<longrightarrow> lh_at ?p y = lh_at tab y" using put(2) last_in_set [OF False] by auto
  ultimately show ?thesis using run put view by (simp add: lh_put_lists)
qed

text \<open>A symbol that gets its first type that belongs on the list.\<close>

lemma enlisted:
  assumes inv: "link_inv tab us" and a: "lh_at tab a = Some e" "lh_type e \<in> {bfd_link_hash_new, bfd_link_hash_undefweak}"
    and e': "typed e'" "\<not> lh_ldscript_def e'" "link_of e' = None" "lh_type e' \<notin> {bfd_link_hash_new, bfd_link_hash_undefweak, bfd_link_hash_warning}"
    and H': "next_only ((lh_at tab)(a \<mapsto> e')) H'" "\<forall>x. x \<notin> set us \<longrightarrow> x \<noteq> a \<longrightarrow> H' x = lh_at tab x"
  shows "entries_ok H' \<and> wf (links H') \<and> undef_types H' (us @ [a])"
proof -
  note D = link_invD [OF inv]
  have "entries_ok ((lh_at tab)(a \<mapsto> e'))" using entries_update [OF D(2) e'(1,2)] e'(3) by simp
  then have ents: "entries_ok H'" by (rule next_only_entries [OF H'(1)])
  have "wf (links ((lh_at tab)(a \<mapsto> e')))" using links_update [OF D(3)] e'(3) by blast
  then have lnks: "wf (links H')" using next_only_links [OF H'(1)] by simp
  have "undef_types H' (us @ [a])"
    unfolding undef_types_def
  proof (intro allI impI)
    fix x y assume y: "H' x = Some y"
    let ?ok = "\<lambda>y us. (lh_type y = bfd_link_hash_undefined \<longrightarrow> x \<in> set us) \<and>
        (lh_type y \<in> {bfd_link_hash_new, bfd_link_hash_undefweak} \<longrightarrow> x \<notin> set us \<and> lh_next y = None) \<and>
        (x \<notin> set us \<and> lh_type y \<noteq> bfd_link_hash_warning \<longrightarrow> lh_next y \<in> {None, Some x})"
    obtain y0 where y0: "((lh_at tab)(a \<mapsto> e')) x = Some y0" "lh_type y = lh_type y0" by (rule next_only_cases [OF H'(1) y])
    show "?ok y (us @ [a])"
    proof (cases "x = a")
      case True
      then show ?thesis using y0 e'(4) by auto
    next
      case False
      then have "?ok y0 us" using y0(1) D(5) unfolding undef_types_def by simp
      moreover have "x \<notin> set us \<longrightarrow> y = y0" using H'(2) False y y0(1) by auto
      ultimately show ?thesis using y0(2) False by auto
    qed
  qed
  then show ?thesis using ents lnks by blast
qed

section \<open>Actions\<close>

text \<open>The entry of the symbol is replaced; of other entries only \<open>next\<close> can change.\<close>

definition becomes :: "bfd_link_hash_table \<Rightarrow> nat \<Rightarrow> bfd_link_hash_entry \<Rightarrow> bfd_link_hash_table \<Rightarrow> bool" where
  "becomes tab h e' tab' \<longleftrightarrow> (\<exists>us. link_inv tab' us) \<and> sym_addr tab' = sym_addr tab \<and> lt_asserts tab' = lt_asserts tab \<and>
     next_only ((lh_at tab)(h \<mapsto> e')) (lh_at tab')"

lemma becomes_put:
  assumes inv: "link_inv tab us" and e: "lh_at tab a = Some e" "same_object e' e" and t: "typed e'" "\<not> lh_ldscript_def e'" "link_of e' = None"
    and chain: "lh_next e' = lh_next e" and types: "lh_type e \<noteq> bfd_link_hash_warning"
      "lh_type e' = bfd_link_hash_undefined \<longrightarrow> lh_type e = bfd_link_hash_undefined"
      "lh_type e' = bfd_link_hash_undefweak \<longrightarrow> lh_type e \<in> {bfd_link_hash_new, bfd_link_hash_undefweak}" "lh_type e' \<noteq> bfd_link_hash_new"
  shows "becomes tab a e' (lh_put e' tab)"
proof -
  note T = link_invD(5) [OF inv, unfolded undef_types_def, rule_format, OF e(1)]
  have 1: "lh_type e' = bfd_link_hash_undefined \<longrightarrow> a \<in> set us" using T types(2) by blast
  have 2: "lh_type e' \<in> {bfd_link_hash_new, bfd_link_hash_undefweak} \<longrightarrow> a \<notin> set us \<and> lh_next e' = None" using T types(3,4) chain by auto
  have 3: "a \<notin> set us \<and> lh_type e' \<noteq> bfd_link_hash_warning \<longrightarrow> lh_next e' \<in> {None, Some a}" using T types(1) chain by auto
  note put = put_inv [OF inv e t(1,2) _ _ 1 2 3]
  show ?thesis using put t(3) chain by (auto simp: becomes_def next_only_refl lh_put_lists)
qed

lemma mark_referenced_ok:
  assumes inv: "link_inv tab us" and e: "lh_at tab h = Some e" "lh_type e \<in> {bfd_link_hash_defined, bfd_link_hash_defweak, bfd_link_hash_indirect}"
  shows "\<exists>tab'. mark_referenced h tab = Done tab' \<and> link_inv tab' us \<and> sym_addr tab' = sym_addr tab \<and> lt_asserts tab' = lt_asserts tab \<and>
    lt_events tab' = lt_events tab \<and> next_only (lh_at tab) (lh_at tab')"
proof (cases "lh_next e = None \<and> lt_undefs_tail tab \<noteq> Some h")
  case False
  then show ?thesis using e inv by (auto simp: mark_referenced_def get_at next_only_refl)
next
  case True
  let ?e = "e\<lparr>lh_next := Some h\<rparr>"
  have off: "h \<notin> set us"
  proof
    assume "h \<in> set us"
    then obtain k where k: "k < length us" "us ! k = h" by (auto simp: in_set_conv_nth)
    have chain: "undef_chain (lh_at tab) (lt_undefs tab) (lt_undefs_tail tab) us" by (rule link_invD(4) [OF inv])
    obtain x where "lh_at tab (us ! k) = Some x" "lh_next x = (if Suc k < length us then Some (us ! Suc k) else None)"
      using chain k(1) unfolding undef_chain_def by blast
    then have "Suc k = length us" using k e(1) True by (auto split: if_splits)
    then have "k = length us - 1" "us \<noteq> []" by auto
    then have "last us = h" "us \<noteq> []" using k by (simp_all add: last_conv_nth)
    then show False using True chain by (simp add: undef_chain_def)
  qed
  have t: "typed ?e" "\<not> lh_ldscript_def ?e" "link_of ?e = link_of e" using link_invD(2) [OF inv] e(1) by (simp_all add: entries_ok_def next_irrelevant)
  have lnk: "link_of ?e = None \<or> (\<exists>b. link_of ?e = Some b \<and> lh_at tab b \<noteq> None \<and> (h, b) \<notin> (links (lh_at tab))\<^sup>*)"
  proof (cases "link_of e")
    case (Some b)
    then have b: "(b, h) \<in> links (lh_at tab)" "lh_at tab b \<noteq> None" using e(1) link_invD(2) [OF inv] by (auto simp: links_def entries_ok_def)
    then have "(h, b) \<notin> (links (lh_at tab))\<^sup>*" using link_invD(3) [OF inv] by (meson rtrancl_into_trancl1 wf_not_refl wf_trancl)
    then show ?thesis using b Some t(3) by auto
  qed (use t(3) in simp)
  have "same_object ?e e" by (simp add: same_object_def)
  then have "link_inv (lh_put ?e tab) us" "lh_at (lh_put ?e tab) = (lh_at tab)(h \<mapsto> ?e)" "sym_addr (lh_put ?e tab) = sym_addr tab"
    using put_inv [OF inv e(1) _ t(1,2) lnk] off e(2) by auto
  moreover have "next_only (lh_at tab) ((lh_at tab)(h \<mapsto> ?e))" using e(1) by (auto simp: next_only_def intro: option.rel_refl)
  ultimately show ?thesis using True e(1) by (simp add: mark_referenced_def get_at lh_put_lists)
qed

text \<open>What a symbol is, and what adding a symbol makes of it when it is not a link.\<close>

datatype sym_state =
  S_new | S_undef "nat option" | S_undefw "nat option" | S_def link_section bfd_vma | S_defw link_section bfd_vma | S_common bfd_size_type | S_link

definition state_of :: "bfd_link_hash_entry \<Rightarrow> sym_state" where
  "state_of e = (case (lh_type e, lh_u e) of
     (bfd_link_hash_undefined, U_undef f) \<Rightarrow> S_undef f
   | (bfd_link_hash_undefweak, U_undef f) \<Rightarrow> S_undefw f
   | (bfd_link_hash_defined, U_def sec v) \<Rightarrow> S_def sec v
   | (bfd_link_hash_defweak, U_def sec v) \<Rightarrow> S_defw sec v
   | (bfd_link_hash_common, U_c _ n) \<Rightarrow> S_common n
   | (bfd_link_hash_new, _) \<Rightarrow> S_new
   | _ \<Rightarrow> S_link)"

definition plain_row :: "link_row \<Rightarrow> bool" where
  "plain_row row \<longleftrightarrow> row \<in> {UNDEF_ROW, UNDEFW_ROW, DEF_ROW, DEFW_ROW, COMMON_ROW}"

definition merge :: "link_row \<Rightarrow> link_symbol \<Rightarrow> sym_state \<Rightarrow> sym_state" where
  "merge row sy st = (case row of
     UNDEF_ROW \<Rightarrow> (case st of S_new \<Rightarrow> S_undef (Some (lf_id (ly_abfd sy))) | S_undefw _ \<Rightarrow> S_undef (Some (lf_id (ly_abfd sy))) | _ \<Rightarrow> st)
   | UNDEFW_ROW \<Rightarrow> (case st of S_new \<Rightarrow> S_undefw (Some (lf_id (ly_abfd sy))) | _ \<Rightarrow> st)
   | DEF_ROW \<Rightarrow> (case st of S_def _ _ \<Rightarrow> st | S_link \<Rightarrow> st | _ \<Rightarrow> S_def (ly_section sy) (ly_value sy))
   | DEFW_ROW \<Rightarrow> (case st of S_new \<Rightarrow> S_defw (ly_section sy) (ly_value sy) | S_undef _ \<Rightarrow> S_defw (ly_section sy) (ly_value sy)
       | S_undefw _ \<Rightarrow> S_defw (ly_section sy) (ly_value sy) | _ \<Rightarrow> st)
   | COMMON_ROW \<Rightarrow> (case st of S_def _ _ \<Rightarrow> st | S_link \<Rightarrow> st | S_common n \<Rightarrow> S_common (max n (ly_value sy)) | _ \<Rightarrow> S_common (ly_value sy))
   | _ \<Rightarrow> st)"

text \<open>What the linker is told.\<close>

definition reports :: "link_row \<Rightarrow> link_symbol \<Rightarrow> nat \<Rightarrow> sym_state \<Rightarrow> link_event list" where
  "reports row sy h st = (case (row, st) of
     (DEF_ROW, S_def _ _) \<Rightarrow> [Multiple_definition h (lf_id (ly_abfd sy)) (ly_section sy) (ly_value sy)]
   | (DEF_ROW, S_common _) \<Rightarrow> [Multiple_common h (lf_id (ly_abfd sy)) bfd_link_hash_defined 0]
   | (COMMON_ROW, S_def _ _) \<Rightarrow> [Multiple_common h (lf_id (ly_abfd sy)) bfd_link_hash_common (ly_value sy)]
   | (COMMON_ROW, S_common _) \<Rightarrow> [Multiple_common h (lf_id (ly_abfd sy)) bfd_link_hash_common (ly_value sy)]
   | _ \<Rightarrow> [])"

text \<open>Sections can be made, and the name is not one of a constructor when those are collected.\<close>

definition env_ok :: "bfd_link_info \<Rightarrow> link_symbol \<Rightarrow> bool" where
  "env_ok info sy \<longleftrightarrow> (\<forall>f n. li_make_section info f n \<noteq> None) \<and> (ly_collect sy \<longrightarrow> constructor_kind (ly_name sy) = Done None)"

lemma typed_cases:
  assumes "typed e" "lh_type e \<notin> {bfd_link_hash_indirect, bfd_link_hash_warning}"
  obtains "lh_type e = bfd_link_hash_new" "state_of e = S_new"
    | f where "lh_type e = bfd_link_hash_undefined" "lh_u e = U_undef f" "state_of e = S_undef f"
    | f where "lh_type e = bfd_link_hash_undefweak" "lh_u e = U_undef f" "state_of e = S_undefw f"
    | sec v where "lh_type e = bfd_link_hash_defined" "lh_u e = U_def sec v" "state_of e = S_def sec v"
    | sec v where "lh_type e = bfd_link_hash_defweak" "lh_u e = U_def sec v" "state_of e = S_defw sec v"
    | c n where "lh_type e = bfd_link_hash_common" "lh_u e = U_c (Some c) n" "state_of e = S_common n"
  using assms by (cases "lh_type e") (auto simp: typed_def state_of_def)

lemma set_entry:
  assumes "lh_at tab h = Some e"
  shows "lh_update h (\<lambda>e. f e) tab = Done (lh_put (f e) tab)"
  using assms by (simp add: lh_update_def get_at)

lemma make_undef_ok:
  assumes inv: "link_inv tab us" and e: "lh_at tab h = Some e" "lh_type e \<in> {bfd_link_hash_new, bfd_link_hash_undefweak}"
  shows "\<exists>tab' e'. cbind (make_undef bfd_link_hash_undefined abfd h tab) (bfd_link_add_undef h) = Done tab' \<and> becomes tab h e' tab' \<and>
    lt_events tab' = lt_events tab \<and> state_of e' = S_undef (Some (lf_id abfd)) \<and> link_inv tab' (us @ [h])"
proof -
  note D = link_invD [OF inv]
  let ?e = "e\<lparr>lh_type := bfd_link_hash_undefined, lh_u := U_undef (Some (lf_id abfd))\<rparr>" let ?p = "lh_put ?e tab"
  have T: "h \<notin> set us" "lh_next e = None" using D(5) e by (auto simp: undef_types_def)
  have t: "typed ?e" "\<not> lh_ldscript_def ?e" "link_of ?e = None" "state_of ?e = S_undef (Some (lf_id abfd))"
    using D(2) e(1) by (auto simp: entries_ok_def typed_def link_of_def state_of_def)
  have same: "same_object ?e e" by (simp add: same_object_def)
  have addr: "he_addr ?e = h" using lh_at_addr [OF D(1) e(1)] by simp
  note put = lh_put_ok [OF D(1), of ?e e, unfolded addr, OF e(1) same]
  have chain: "undef_chain (lh_at ?p) (lt_undefs ?p) (lt_undefs_tail ?p) us"
    unfolding put(2) lh_put_lists using T chain_update [OF D(4)] by blast
  obtain tab' where tab': "bfd_link_add_undef h ?p = Done tab'" "link_heap tab'" "sym_addr tab' = sym_addr ?p" "next_only (lh_at ?p) (lh_at tab')"
      "\<forall>x. x \<notin> set us \<longrightarrow> lh_at tab' x = lh_at ?p x" "undef_chain (lh_at tab') (lt_undefs tab') (lt_undefs_tail tab') (us @ [h])"
      "lt_events tab' = lt_events ?p" "lt_asserts tab' = lt_asserts ?p"
    using add_undef_ok [OF put(1) chain, of h ?e] put(2) T by auto
  have "entries_ok (lh_at tab') \<and> wf (links (lh_at tab')) \<and> undef_types (lh_at tab') (us @ [h])"
    using enlisted [OF inv e t(1-3)] tab'(4,5) put(2) by auto
  then have inv': "link_inv tab' (us @ [h])" using tab'(2,6) by (simp add: link_inv_def)
  have "becomes tab h ?e tab'"
    using inv' tab'(3,4,8) put(2,3) unfolding becomes_def lh_put_lists by auto
  moreover have "make_undef bfd_link_hash_undefined abfd h tab = Done ?p" unfolding make_undef_def by (rule set_entry [OF e(1)])
  ultimately show ?thesis using tab'(1,7) t(4) inv' by (auto simp: lh_put_lists)
qed

lemma define_ok:
  assumes inv: "link_inv tab us" and e: "lh_at tab h = Some e" "lh_type e \<notin> {bfd_link_hash_indirect, bfd_link_hash_warning}"
    and env: "env_ok info sy" and type: "type \<in> {bfd_link_hash_defined, bfd_link_hash_defweak}"
  shows "\<exists>tab' e'. define_symbol sy type h tab = Done tab' \<and> becomes tab h e' tab' \<and> lt_events tab' = lt_events tab \<and>
    state_of e' = (if type = bfd_link_hash_defined then S_def (ly_section sy) (ly_value sy) else S_defw (ly_section sy) (ly_value sy))"
proof -
  let ?e = "e\<lparr>lh_type := type, lh_u := U_def (ly_section sy) (ly_value sy), lh_linker_def := False, lh_ldscript_def := False\<rparr>"
  have "define_symbol sy type h tab = Done (lh_put ?e tab)"
    using env e(1) by (auto simp: define_symbol_def get_at env_ok_def Let_def)
  moreover have "becomes tab h ?e (lh_put ?e tab)"
    by (rule becomes_put [OF inv e(1)]) (use type e(2) in \<open>auto simp: same_object_def typed_def link_of_def\<close>)
  moreover have "state_of ?e = (if type = bfd_link_hash_defined then S_def (ly_section sy) (ly_value sy) else S_defw (ly_section sy) (ly_value sy))"
    using type by (auto simp: state_of_def)
  ultimately show ?thesis by (auto simp: lh_put_lists)
qed

lemma common_section_ok: "env_ok info sy \<Longrightarrow> \<exists>sec. common_section info sy = Done sec"
proof -
  assume "env_ok info sy"
  then obtain a b where "li_make_section info (lf_id (ly_abfd sy)) ''COMMON'' = Some a"
      "li_make_section info (lf_id (ly_abfd sy)) (ls_name (ly_section sy)) = Some b"
    unfolding env_ok_def by blast
  then show ?thesis by (auto simp: common_section_def Let_def)
qed

lemma make_common_ok:
  assumes inv: "link_inv tab us" and e: "lh_at tab h = Some e" "lh_type e \<notin> {bfd_link_hash_indirect, bfd_link_hash_warning}"
    and env: "env_ok info sy"
  shows "\<exists>ok tab' e'. make_common info sy h tab = Done (ok, tab') \<and>
    (ok \<longrightarrow> becomes tab h e' tab' \<and> lt_events tab' = lt_events tab \<and> state_of e' = S_common (ly_value sy))"
proof -
  note D = link_invD [OF inv]
  let ?new = "lh_type e = bfd_link_hash_new" let ?us = "if ?new then us @ [h] else us"
  have T: "?new \<longrightarrow> h \<notin> set us \<and> lh_next e = None" using D(5) e(1) by (auto simp: undef_types_def)
  obtain tab1 where tab1: "(if ?new then bfd_link_add_undef h tab else Done tab) = Done tab1" "link_heap tab1" "sym_addr tab1 = sym_addr tab"
      "next_only (lh_at tab) (lh_at tab1)" "\<forall>x. x \<notin> set us \<longrightarrow> lh_at tab1 x = lh_at tab x" "\<not> ?new \<longrightarrow> tab1 = tab"
      "undef_chain (lh_at tab1) (lt_undefs tab1) (lt_undefs_tail tab1) ?us" "lt_events tab1 = lt_events tab" "lt_asserts tab1 = lt_asserts tab"
  proof (cases ?new)
    case True
    then show thesis using add_undef_ok [OF D(1,4) e(1)] T that by fastforce
  next
    case False
    then show thesis using that [of tab] D(1,4) next_only_refl [of "lh_at tab"] by simp
  qed
  obtain r t where t: "bfd_hash_allocate (lt_table tab1) 16 = Done (r, t)"
    using tab1(2) by (auto simp: link_heap_def bfd_hash_allocate_def table_alloc_def objalloc_alloc_def split: if_splits)
  let ?tab = "tab1\<lparr>lt_table := t\<rparr>"
  note view = allocate_view [OF tab1(2) t]
  obtain e1 where e1: "lh_at ?tab h = Some e1" "e1 = e\<lparr>lh_next := lh_next e1\<rparr>" "?new \<longrightarrow> e1 = e"
  proof -
    have "rel_option (\<lambda>e e'. e' = e\<lparr>lh_next := lh_next e'\<rparr>) (Some e) (lh_at tab1 h)" using tab1(4) e(1) unfolding next_only_def by metis
    then obtain e1 where e1: "lh_at tab1 h = Some e1" "e1 = e\<lparr>lh_next := lh_next e1\<rparr>" by (auto simp: option_rel_Some1)
    moreover have "?new \<longrightarrow> e1 = e" using tab1(5) T e(1) e1(1) by auto
    ultimately show thesis using that view(2) by simp
  qed
  obtain sec where sec: "common_section info sy = Done sec" using common_section_ok [OF env] by blast
  let ?e = "e1\<lparr>lh_type := bfd_link_hash_common, lh_u := U_c (Some \<lparr>cm_alignment_power = default_power (ly_value sy), cm_section = sec\<rparr>) (ly_value sy),
      lh_linker_def := False, lh_ldscript_def := False\<rparr>"
  have run: "make_common info sy h tab = (case r of
      None \<Rightarrow> Done (False, lh_put (e1\<lparr>lh_type := bfd_link_hash_common, lh_u := U_c None 0\<rparr>) ?tab) | Some _ \<Rightarrow> Done (True, lh_put ?e ?tab))"
    using e(1) tab1(1) t sec e1(1) by (simp add: make_common_def get_at set_entry split: option.split)
  show ?thesis
  proof (cases r)
    case None
    then show ?thesis using run by auto
  next
    case (Some x)
    have same: "same_object ?e e1" by (simp add: same_object_def)
    have addr: "he_addr ?e = h" using lh_at_addr [OF view(1) e1(1)] by simp
    note put = lh_put_ok [OF view(1), of ?e e1, unfolded addr, OF e1(1) same]
    have ty: "typed ?e" "\<not> lh_ldscript_def ?e" "link_of ?e = None" "state_of ?e = S_common (ly_value sy)" "lh_type ?e = bfd_link_hash_common"
      by (simp_all add: typed_def link_of_def state_of_def)
    have at': "lh_at (lh_put ?e ?tab) = (lh_at tab1)(h \<mapsto> ?e)" using put(2) view(2) by simp
    have no: "next_only ((lh_at tab)(h \<mapsto> ?e)) ((lh_at tab1)(h \<mapsto> ?e))"
      using tab1(4) by (auto simp: next_only_def intro: option.rel_refl)
    have ch: "undef_chain (lh_at (lh_put ?e ?tab)) (lt_undefs (lh_put ?e ?tab)) (lt_undefs_tail (lh_put ?e ?tab)) ?us"
      unfolding at' lh_put_lists using chain_update [OF tab1(7), of h ?e] e1(1) view(2) by auto
    have "link_inv (lh_put ?e ?tab) ?us"
    proof (cases ?new)
      case True
      have "entries_ok ((lh_at tab1)(h \<mapsto> ?e)) \<and> wf (links ((lh_at tab1)(h \<mapsto> ?e))) \<and> undef_types ((lh_at tab1)(h \<mapsto> ?e)) (us @ [h])"
        by (rule enlisted [OF inv e(1) _ ty(1-3) _ no]) (use True ty(5) tab1(5) in auto)
      then show ?thesis using True put(1) ch at' by (simp add: link_inv_def)
    next
      case False
      then have tab1': "tab1 = tab" using tab1(6) by blast
      have e1e: "e1 = e" using e1(1) view(2) e(1) tab1' by simp
      have "h \<notin> set us \<longrightarrow> lh_next e \<in> {None, Some h}" using D(5) e by (auto simp: undef_types_def)
      then have "undef_types ((lh_at tab)(h \<mapsto> ?e)) us" using types_update [OF D(5), of ?e h] e1e by simp
      then show ?thesis
        using False put(1) ch at' tab1' entries_update [OF D(2) ty(1,2)] links_update [OF D(3)] ty(3) by (simp add: link_inv_def)
    qed
    then have "becomes tab h ?e (lh_put ?e ?tab)"
      using at' no put(3) view(3) tab1(3,9) unfolding becomes_def by (auto simp: lh_put_lists)
    then show ?thesis using run Some ty(4) tab1(8) by (auto simp: lh_put_lists)
  qed
qed

lemma tell_view:
  "lh_at (tell ev tab) = lh_at tab" "sym_addr (tell ev tab) = sym_addr tab" "link_inv (tell ev tab) us = link_inv tab us"
  "lt_asserts (tell ev tab) = lt_asserts tab" "lt_events (tell ev tab) = lt_events tab @ [ev]" "lh_get (tell ev tab) = lh_get tab"
proof -
  show at: "lh_at (tell ev tab) = lh_at tab" by (simp add: tell_def lh_at_def fun_eq_iff)
  have "link_heap (tell ev tab) = link_heap tab" by (simp add: tell_def link_heap_def)
  then show "link_inv (tell ev tab) us = link_inv tab us" unfolding link_inv_def at by (simp add: tell_def)
  show "lh_get (tell ev tab) = lh_get tab" using at by (simp add: lh_get_def fun_eq_iff)
qed (simp_all add: tell_def sym_addr_def fun_eq_iff)

lemma becomes_tell: "becomes (tell ev tab) h e' tab' = becomes tab h e' tab'"
  by (simp add: becomes_def tell_view)

lemma becomes_same:
  assumes "link_inv tab us" "lh_at tab h = Some e"
  shows "becomes tab h e tab" "becomes tab h e (tell ev tab)"
  using assms by (auto simp: becomes_def tell_view next_only_refl map_upd_triv)

lemma enlarge_common_ok:
  assumes inv: "link_inv tab us" and e: "lh_at tab h = Some e" "lh_type e = bfd_link_hash_common" "lh_u e = U_c (Some c) n"
    and env: "env_ok info sy"
  shows "\<exists>tab' e'. enlarge_common info sy h tab = Done tab' \<and> becomes tab h e' tab' \<and> state_of e' = S_common (max n (ly_value sy)) \<and>
    lt_events tab' = lt_events tab @ [Multiple_common h (lf_id (ly_abfd sy)) bfd_link_hash_common (ly_value sy)]"
proof -
  let ?t = "tell (Multiple_common h (lf_id (ly_abfd sy)) bfd_link_hash_common (ly_value sy)) tab"
  obtain sec where sec: "common_section info sy = Done sec" using common_section_ok [OF env] by blast
  show ?thesis
  proof (cases "n < ly_value sy")
    case False
    have "enlarge_common info sy h tab = Done ?t" using e False by (simp add: enlarge_common_def get_at lt_assert_def Let_def)
    moreover have "state_of e = S_common (max n (ly_value sy))" using e False by (simp add: state_of_def max_def)
    ultimately show ?thesis using becomes_same(2) [OF inv e(1)] tell_view(5) by auto
  next
    case True
    let ?e = "e\<lparr>lh_u := U_c (Some \<lparr>cm_alignment_power = default_power (ly_value sy), cm_section = sec\<rparr>) (ly_value sy)\<rparr>"
    have "enlarge_common info sy h tab = Done (lh_put ?e ?t)" using e True sec by (simp add: enlarge_common_def get_at lt_assert_def Let_def)
    moreover have "becomes ?t h ?e (lh_put ?e ?t)"
      by (rule becomes_put [of ?t us h e]) (use inv e link_invD(2) [OF inv] in \<open>auto simp: tell_view same_object_def typed_def link_of_def entries_ok_def\<close>)
    moreover have "state_of ?e = S_common (max n (ly_value sy))" using e True by (simp add: state_of_def max_absorb2 less_imp_le)
    ultimately show ?thesis by (auto simp: becomes_tell lh_put_lists tell_view)
  qed
qed

lemmas link_action_simps = link_action_def link_actions_def

lemma assert_true: "lt_assert True tab = tab"
  by (simp add: lt_assert_def)

text \<open>Every action for a symbol that is not a link: the new state is that of \<open>merge\<close>, and the linker is told what \<open>reports\<close> says.\<close>

definition outcome ::
    "bfd_link_info \<Rightarrow> link_symbol \<Rightarrow> link_row \<Rightarrow> nat \<Rightarrow> nat option \<Rightarrow> bfd_link_hash_table \<Rightarrow> link_action_type \<Rightarrow> sym_state \<Rightarrow> link_event list \<Rightarrow> bool" where
  "outcome info sy row h inh tab action st evs \<longleftrightarrow> (\<exists>ok tab' e'. link_act info sy action row h inh tab = Done (Return ok, tab') \<and>
     (ok \<longrightarrow> becomes tab h e' tab' \<and> state_of e' = st \<and> lt_events tab' = lt_events tab @ evs))"

lemma outcome_finish:
  assumes "link_act info sy action row h inh tab = finish r" "r = Done tab'" "becomes tab h e' tab'" "state_of e' = st" "lt_events tab' = lt_events tab @ evs"
  shows "outcome info sy row h inh tab action st evs"
  using assms by (auto simp: outcome_def finish_def)

lemma undef_outcomes:
  assumes inv: "link_inv tab us" and e: "lh_at tab h = Some e"
  shows "outcome info sy row h inh tab NOACT (state_of e) []"
    "lh_type e \<in> {bfd_link_hash_new, bfd_link_hash_undefweak} \<Longrightarrow> outcome info sy row h inh tab UND (S_undef (Some (lf_id (ly_abfd sy)))) []"
    "lh_type e = bfd_link_hash_new \<Longrightarrow> outcome info sy row h inh tab WEAK (S_undefw (Some (lf_id (ly_abfd sy)))) []"
    "lh_type e \<in> {bfd_link_hash_defined, bfd_link_hash_defweak} \<Longrightarrow> outcome info sy row h inh tab REF (state_of e) []"
proof -
  let ?f = "Some (lf_id (ly_abfd sy))"
  show "outcome info sy row h inh tab NOACT (state_of e) []"
    using becomes_same(1) [OF inv e] by (auto simp: outcome_def link_act_def)
  show "outcome info sy row h inh tab UND (S_undef ?f) []" if "lh_type e \<in> {bfd_link_hash_new, bfd_link_hash_undefweak}"
    using make_undef_ok [OF inv e that, of "ly_abfd sy"] by (auto simp: link_act_def intro: outcome_finish)
  show "outcome info sy row h inh tab WEAK (S_undefw ?f) []" if new: "lh_type e = bfd_link_hash_new"
  proof -
    let ?e = "e\<lparr>lh_type := bfd_link_hash_undefweak, lh_u := U_undef ?f\<rparr>"
    have "becomes tab h ?e (lh_put ?e tab)"
      by (rule becomes_put [OF inv e])
        (use new link_invD(2) [OF inv] e in \<open>auto simp: same_object_def typed_def link_of_def entries_ok_def\<close>)
    moreover have "make_undef bfd_link_hash_undefweak (ly_abfd sy) h tab = Done (lh_put ?e tab)"
      unfolding make_undef_def by (rule set_entry [OF e])
    moreover have "state_of ?e = S_undefw ?f" by (simp add: state_of_def)
    ultimately show ?thesis by (intro outcome_finish [where tab' = "lh_put ?e tab" and e' = ?e]) (simp_all add: link_act_def lh_put_lists)
  qed
  show "outcome info sy row h inh tab REF (state_of e) []" if d: "lh_type e \<in> {bfd_link_hash_defined, bfd_link_hash_defweak}"
  proof -
    obtain tab' where tab': "mark_referenced h tab = Done tab'" "link_inv tab' us" "sym_addr tab' = sym_addr tab" "lt_asserts tab' = lt_asserts tab"
        "lt_events tab' = lt_events tab" "next_only (lh_at tab) (lh_at tab')"
      using mark_referenced_ok [OF inv e] d by auto
    then have "becomes tab h e tab'" using e by (auto simp: becomes_def map_upd_triv)
    then show ?thesis using tab' by (intro outcome_finish [where tab' = tab' and e' = e]) (simp_all add: link_act_def)
  qed
qed

lemma def_outcomes:
  assumes inv: "link_inv tab us" and e: "lh_at tab h = Some e" "lh_type e \<notin> {bfd_link_hash_indirect, bfd_link_hash_warning}"
    and env: "env_ok info sy"
  shows "outcome info sy row h inh tab DEF (S_def (ly_section sy) (ly_value sy)) []"
    "outcome info sy row h inh tab DEFW (S_defw (ly_section sy) (ly_value sy)) []"
    "outcome info sy row h inh tab MDEF (state_of e) [Multiple_definition h (lf_id (ly_abfd sy)) (ly_section sy) (ly_value sy)]"
    "lh_type e = bfd_link_hash_common \<Longrightarrow> outcome info sy row h inh tab CDEF (S_def (ly_section sy) (ly_value sy))
      [Multiple_common h (lf_id (ly_abfd sy)) bfd_link_hash_defined 0]"
proof -
  show "outcome info sy row h inh tab DEF (S_def (ly_section sy) (ly_value sy)) []"
    using define_ok [OF inv e env, of bfd_link_hash_defined] by (auto simp: link_act_def intro: outcome_finish)
  show "outcome info sy row h inh tab DEFW (S_defw (ly_section sy) (ly_value sy)) []"
    using define_ok [OF inv e env, of bfd_link_hash_defweak] by (auto simp: link_act_def intro: outcome_finish)
  show "outcome info sy row h inh tab MDEF (state_of e) [Multiple_definition h (lf_id (ly_abfd sy)) (ly_section sy) (ly_value sy)]"
    using becomes_same(2) [OF inv e(1)] by (auto simp: outcome_def link_act_def Let_def tell_view)
  show "outcome info sy row h inh tab CDEF (S_def (ly_section sy) (ly_value sy)) [Multiple_common h (lf_id (ly_abfd sy)) bfd_link_hash_defined 0]"
    if c: "lh_type e = bfd_link_hash_common"
  proof -
    let ?t = "tell (Multiple_common h (lf_id (ly_abfd sy)) bfd_link_hash_defined 0) tab"
    have "link_inv ?t us" "lh_at ?t h = Some e" using inv e by (simp_all add: tell_view)
    from define_ok [OF this e(2) env, of bfd_link_hash_defined] show ?thesis
      using e(1) c by (auto simp: link_act_def Let_def get_at assert_true becomes_tell tell_view intro!: outcome_finish)
  qed
qed

lemma common_outcomes:
  assumes inv: "link_inv tab us" and e: "lh_at tab h = Some e" "lh_type e \<notin> {bfd_link_hash_indirect, bfd_link_hash_warning}"
    and env: "env_ok info sy"
  shows "outcome info sy row h inh tab COM (S_common (ly_value sy)) []"
    "outcome info sy row h inh tab CREF (state_of e) [Multiple_common h (lf_id (ly_abfd sy)) bfd_link_hash_common (ly_value sy)]"
    "lh_type e = bfd_link_hash_common \<Longrightarrow> lh_u e = U_c (Some c) n \<Longrightarrow> outcome info sy row h inh tab BIG (S_common (max n (ly_value sy)))
      [Multiple_common h (lf_id (ly_abfd sy)) bfd_link_hash_common (ly_value sy)]"
proof -
  obtain ok tab' e' where "make_common info sy h tab = Done (ok, tab')"
      "ok \<longrightarrow> becomes tab h e' tab' \<and> lt_events tab' = lt_events tab \<and> state_of e' = S_common (ly_value sy)"
    using make_common_ok [OF inv e env] by blast
  then show "outcome info sy row h inh tab COM (S_common (ly_value sy)) []" by (auto simp: outcome_def link_act_def)
  show "outcome info sy row h inh tab CREF (state_of e) [Multiple_common h (lf_id (ly_abfd sy)) bfd_link_hash_common (ly_value sy)]"
    using becomes_same(2) [OF inv e(1)] by (auto simp: outcome_def link_act_def Let_def tell_view)
  show "outcome info sy row h inh tab BIG (S_common (max n (ly_value sy))) [Multiple_common h (lf_id (ly_abfd sy)) bfd_link_hash_common (ly_value sy)]"
    if "lh_type e = bfd_link_hash_common" "lh_u e = U_c (Some c) n"
    using enlarge_common_ok [OF inv e(1) that env] by (auto simp: link_act_def intro!: outcome_finish)
qed

lemma plain_action:
  assumes inv: "link_inv tab us" and e: "lh_at tab h = Some e" "lh_type e \<notin> {bfd_link_hash_indirect, bfd_link_hash_warning}"
    and env: "env_ok info sy" and row: "plain_row row"
  shows "outcome info sy row h inh tab (link_action row (lh_type e)) (merge row sy (state_of e)) (reports row sy h (state_of e))"
proof -
  have typed: "typed e" using link_invD(2) [OF inv] e(1) by (simp add: entries_ok_def)
  note out = undef_outcomes [OF inv e(1), of info sy row inh] def_outcomes [OF inv e env, of row inh]
    common_outcomes [OF inv e env, where row = row and inh = inh]
  from row consider "row = UNDEF_ROW" | "row = UNDEFW_ROW" | "row = DEF_ROW" | "row = DEFW_ROW" | "row = COMMON_ROW" by (auto simp: plain_row_def)
  then show ?thesis
    by cases (rule typed_cases [OF typed e(2)]; use out in \<open>simp add: link_action_simps merge_def reports_def\<close>)+
qed

end
