(* ===== verification/Bfd_Link_Resolve.thy ===== *)
theory Bfd_Link_Resolve
  imports Bfd_Link_Actions
begin

text \<open>
  Adding a symbol and adding all symbols of a link, for symbols that are definitions, common symbols and references: the state of the table is the
  \<open>resolution\<close> of the symbols that were added.
\<close>

section \<open>Adding one symbol\<close>

text \<open>No option \<open>--wrap\<close> and no tracing of symbols.\<close>

definition quiet :: "bfd_link_info \<Rightarrow> bool" where
  "quiet info \<longleftrightarrow> li_wrap_hash info = None \<and> \<not> li_notice_all info \<and> li_notice_hash info = None"

definition state :: "bfd_link_hash_table \<Rightarrow> string \<Rightarrow> sym_state" where
  "state tab s = (case sym_addr tab s of None \<Rightarrow> S_new | Some a \<Rightarrow> (case lh_at tab a of None \<Rightarrow> S_new | Some e \<Rightarrow> state_of e))"

lemma state_tell: "state (tell ev tab) = state tab"
  unfolding state_def tell_view by (rule refl)

lemma found_inv:
  assumes inv: "link_inv tab us" and found: "found tab s (Some a) tab'"
  shows "link_inv tab' us" "sym_addr tab' s = Some a" "\<exists>e. lh_at tab' a = Some e \<and> he_string e = s" "state tab' = state tab"
    "lt_events tab' = lt_events tab" "lt_asserts tab' = lt_asserts tab"
proof -
  note D = link_invD [OF inv]
  have F: "link_heap tab'" "lt_undefs tab' = lt_undefs tab" "lt_undefs_tail tab' = lt_undefs_tail tab"
      "lt_events tab' = lt_events tab" "lt_asserts tab' = lt_asserts tab"
    using found by (simp_all add: found_def)
  then show "lt_events tab' = lt_events tab" "lt_asserts tab' = lt_asserts tab" by simp_all
  have "link_inv tab' us \<and> sym_addr tab' s = Some a \<and> (\<exists>e. lh_at tab' a = Some e \<and> he_string e = s) \<and> state tab' = state tab"
  proof (cases "sym_addr tab s")
    case (Some b)
    then have same: "b = a" "tab' = tab" using found by (auto simp: found_def)
    obtain e where "lh_at tab b = Some e" "he_string e = s" by (rule sym_addr_at [OF D(1) Some])
    then show ?thesis using same inv Some by auto
  next
    case None
    then obtain e where e: "lh_at tab a = None" "pristine e" "he_string e = s" "lh_at tab' = (lh_at tab)(a \<mapsto> e)" "sym_addr tab' = (sym_addr tab)(s \<mapsto> a)"
      using found by (auto simp: found_def)
    have off: "a \<notin> set us" using D(4) e(1) unfolding undef_chain_def by (metis in_set_conv_nth option.discI)
    have ty: "typed e" "link_of e = None" "state_of e = S_new" "lh_type e = bfd_link_hash_new" "lh_next e = None" "\<not> lh_ldscript_def e"
      using e(2) by (simp_all add: pristine_def typed_def link_of_def state_of_def)
    have "undef_chain ((lh_at tab)(a \<mapsto> e)) (lt_undefs tab) (lt_undefs_tail tab) us" using chain_update [OF D(4)] off by blast
    moreover have "undef_types ((lh_at tab)(a \<mapsto> e)) us" by (rule types_update [OF D(5)]) (use off ty in simp_all)
    ultimately have "link_inv tab' us"
      using F(1-3) e(4) entries_update [OF D(2) ty(1,6)] links_update [OF D(3)] ty(2) by (simp add: link_inv_def)
    moreover have "state tab' x = state tab x" for x
    proof -
      have "b \<noteq> a" if b: "sym_addr tab x = Some b" for b
      proof -
        obtain y where "lh_at tab b = Some y" by (rule sym_addr_at [OF D(1) b])
        then show ?thesis using e(1) by auto
      qed
      then show ?thesis using e(4,5) ty(3) None by (auto simp: state_def split: option.splits)
    qed
    ultimately show ?thesis using e by auto
  qed
  then show "link_inv tab' us" "sym_addr tab' s = Some a" "\<exists>e. lh_at tab' a = Some e \<and> he_string e = s" "state tab' = state tab" by blast+
qed

lemma state_next_only:
  assumes "next_only H (lh_at tab')" "sym_addr tab' s = Some a" "H a = Some e"
  shows "state tab' s = state_of e"
proof -
  obtain e' where e': "lh_at tab' a = Some e'" using next_only_defined [OF assms(1), of a] assms(3) by (cases "lh_at tab' a") auto
  obtain x where "H a = Some x" "lh_type e' = lh_type x" "lh_u e' = lh_u x" by (rule next_only_cases [OF assms(1) e'])
  then show ?thesis using assms(2,3) e' by (simp add: state_def state_of_def)
qed

lemma state_becomes:
  assumes heap: "link_heap tab" and b: "becomes tab h e' tab'" and h: "sym_addr tab s = Some h"
  shows "state tab' s = state_of e'" "x \<noteq> s \<Longrightarrow> state tab' x = state tab x"
proof -
  have no: "next_only ((lh_at tab)(h \<mapsto> e')) (lh_at tab')" and addr: "sym_addr tab' = sym_addr tab" using b by (simp_all add: becomes_def)
  show "state tab' s = state_of e'" using state_next_only [OF no] addr h by simp
  show "state tab' x = state tab x" if "x \<noteq> s"
  proof (cases "sym_addr tab x")
    case None
    then show ?thesis using addr by (simp add: state_def)
  next
    case (Some a)
    obtain y where y: "lh_at tab a = Some y" "he_string y = x" by (rule sym_addr_at [OF heap Some])
    obtain z where z: "lh_at tab h = Some z" "he_string z = s" by (rule sym_addr_at [OF heap h])
    have "a \<noteq> h" using y z that by auto
    then show ?thesis using state_next_only [OF no, of x a y] addr Some y(1) by (simp add: state_def)
  qed
qed

lemma link_loop_plain:
  assumes inv: "link_inv tab us" and e: "lh_at tab h = Some e" "lh_type e \<notin> {bfd_link_hash_indirect, bfd_link_hash_warning}"
    and env: "env_ok info sy" and row: "plain_row row"
  shows "\<exists>ok tab' e'. link_loop info sy row h inh hashp tab = Some (Done (ok, hashp, tab')) \<and>
    (ok \<longrightarrow> becomes tab h e' tab' \<and> state_of e' = merge row sy (state_of e) \<and> lt_events tab' = lt_events tab @ reports row sy h (state_of e))"
proof -
  have "\<not> lh_ldscript_def e" using link_invD(2) [OF inv] e(1) by (simp add: entries_ok_def)
  moreover have "link_action row (lh_type e) \<noteq> WARN \<and> link_action row (lh_type e) \<noteq> MWARN"
    using row by (cases "lh_type e") (auto simp: plain_row_def link_action_simps)
  moreover obtain ok tab' e' where "link_act info sy (link_action row (lh_type e)) row h inh tab = Done (Return ok, tab')"
      "ok \<longrightarrow> becomes tab h e' tab' \<and> state_of e' = merge row sy (state_of e) \<and> lt_events tab' = lt_events tab @ reports row sy h (state_of e)"
    using plain_action [OF inv e env row] unfolding outcome_def by blast
  ultimately show ?thesis using e(1) by (subst link_loop.simps) (auto simp: get_at Let_def)
qed

definition lto_events :: "bfd_link_info \<Rightarrow> link_symbol \<Rightarrow> link_event list" where
  "lto_events info sy = (if symbol_row sy = COMMON_ROW \<and> \<not> li_relocatable info \<and> lto_slim (ly_name sy) then [Lto_needed (lf_id (ly_abfd sy))] else [])"

text \<open>A symbol that is not indirect, a warning or a member of a set, added to a name that is not a link.\<close>

lemma add_plain:
  assumes inv: "link_inv tab us" and info: "quiet info" "env_ok info sy" and row: "plain_row (symbol_row sy)"
    and size: "ht_size (lt_table tab) < 4294967291" and st: "state tab (ly_name sy) \<noteq> S_link"
    and fits: "sym_addr tab (ly_name sy) = None \<longrightarrow> copy_fits (ly_copy sy) (ly_name sy)"
  shows "\<exists>ok p tab'. bfd_generic_link_add_one_symbol info sy None tab = Some (Done (ok, p, tab')) \<and>
    (ok \<longrightarrow> (\<exists>us'. link_inv tab' us') \<and> lt_asserts tab' = lt_asserts tab \<and>
      state tab' = (state tab)(ly_name sy := merge (symbol_row sy) sy (state tab (ly_name sy))) \<and>
      (\<exists>h. sym_addr tab' (ly_name sy) = Some h \<and>
         lt_events tab' = lt_events tab @ lto_events info sy @ reports (symbol_row sy) sy h (state tab (ly_name sy))))"
proof -
  let ?row = "symbol_row sy" and ?s = "ly_name sy"
  have r: "?row \<noteq> INDR_ROW" using row by (auto simp: plain_row_def)
  define tab0 where "tab0 = (if lto_events info sy \<noteq> [] then tell (Lto_needed (lf_id (ly_abfd sy))) tab else tab)"
  have tab0: "link_inv tab0 us" "state tab0 = state tab" "lt_events tab0 = lt_events tab @ lto_events info sy" "lt_asserts tab0 = lt_asserts tab"
      "ht_size (lt_table tab0) = ht_size (lt_table tab)" "sym_addr tab0 = sym_addr tab"
    using inv by (auto simp: tab0_def lto_events_def tell_view state_tell) (simp_all add: tell_def)
  have size0: "ht_size (lt_table tab0) < 4294967291" using size tab0(5) by simp
  obtain rr tab1 where look: "bfd_link_hash_lookup tab0 ?s True (ly_copy sy) False = Some (Done (rr, tab1))" "found tab0 ?s rr tab1"
    using link_lookup_found [OF link_invD(1) [OF tab0(1)] size0, of ?s "ly_copy sy"] fits tab0(6) by auto
  have wrapped: "bfd_wrapped_link_hash_lookup (ly_abfd sy) info ?s True (ly_copy sy) False tab0 = Some (Done (rr, tab1))"
    using look(1) info(1) by (simp add: bfd_wrapped_link_hash_lookup_def quiet_def)
  have run: "bfd_generic_link_add_one_symbol info sy None tab = (case rr of
      None \<Rightarrow> Some (Done (False, None, tab1)) | Some h \<Rightarrow> link_loop info sy ?row h None (Some h) tab1)"
  proof -
    have "(if ?row = COMMON_ROW \<and> \<not> li_relocatable info \<and> lto_slim ?s then tell (Lto_needed (lf_id (ly_abfd sy))) tab else tab) = tab0"
      by (simp add: tab0_def lto_events_def)
    moreover have "start_loop info sy ?row h None None t = link_loop info sy ?row h None (Some h) t" for h t
      using info(1) by (simp add: start_loop_def noticed_def quiet_def)
    ultimately show ?thesis using r look(1) wrapped by (cases rr) (simp_all add: bfd_generic_link_add_one_symbol_def Let_def)
  qed
  show ?thesis
  proof (cases rr)
    case None
    then show ?thesis using run by (intro exI [of _ False] exI [of _ None] exI [of _ tab1]) simp
  next
    case (Some h)
    note F = found_inv [OF tab0(1) look(2) [unfolded Some]]
    obtain e where e: "lh_at tab1 h = Some e" using F(3) by blast
    have "state tab1 ?s = state_of e" using F(2) e by (simp add: state_def)
    then have se: "state_of e = state tab ?s" using F(4) tab0(2) by simp
    have tye: "typed e" using link_invD(2) [OF F(1)] e by (simp add: entries_ok_def)
    have "lh_type e \<notin> {bfd_link_hash_indirect, bfd_link_hash_warning}" using se st tye by (auto simp: state_of_def typed_def split: link_u.splits)
    then obtain ok tab' e' where loop: "link_loop info sy ?row h None (Some h) tab1 = Some (Done (ok, Some h, tab'))"
        "ok \<longrightarrow> becomes tab1 h e' tab' \<and> state_of e' = merge ?row sy (state_of e) \<and> lt_events tab' = lt_events tab1 @ reports ?row sy h (state_of e)"
      using link_loop_plain [OF F(1) e _ info(2) row] by blast
    have "state tab' = (state tab)(?s := merge ?row sy (state tab ?s))" if ok
      using state_becomes [OF link_invD(1) [OF F(1)] _ F(2)] loop(2) that se F(4) tab0(2) by fastforce
    moreover have "sym_addr tab' ?s = Some h" if ok using loop(2) that F(2) by (simp add: becomes_def)
    ultimately show ?thesis using run Some loop F(5,6) tab0(3,4) se by (auto simp: becomes_def)
  qed
qed

text \<open>A name that is too long to be copied is not added.\<close>

lemma added_fits:
  assumes heap: "link_heap tab" and "quiet info" and row: "symbol_row sy \<noteq> INDR_ROW"
    and run: "bfd_generic_link_add_one_symbol info sy None tab = Some (Done (True, p, t))"
  shows "sym_addr tab (ly_name sy) = None \<longrightarrow> copy_fits (ly_copy sy) (ly_name sy)"
proof (rule ccontr)
  assume "\<not> ?thesis"
  then have new: "ht_map (lt_table tab) (ly_name sy) = None" and long: "\<not> copy_fits (ly_copy sy) (ly_name sy)" by (simp_all add: sym_addr_def)
  have ok: "hash_ok (lt_table tab)" using heap by (simp add: link_heap_def)
  have "r = None" if "bfd_hash_lookup bfd_link_hash_newfunc (lt_table tab) (ly_name sy) True (ly_copy sy) = Done (r, u)" for r u
    using lookup_too_long [OF ok new long that] .
  then have "bfd_link_hash_lookup v (ly_name sy) True (ly_copy sy) False \<noteq> Some (Done (Some h, u))" if "lt_table v = lt_table tab" for v h u
    using that by (cases "bfd_hash_lookup bfd_link_hash_newfunc (lt_table tab) (ly_name sy) True (ly_copy sy)")
      (fastforce simp: bfd_link_hash_lookup_def Let_def split: option.splits prod.splits)+
  moreover have "lt_table (tell ev tab) = lt_table tab" for ev by (simp add: tell_def)
  ultimately show False
    using run row \<open>quiet info\<close>
    by (fastforce simp: bfd_generic_link_add_one_symbol_def bfd_wrapped_link_hash_lookup_def quiet_def Let_def rbind_def
        split: if_splits option.splits cresult.splits)
qed

section \<open>The symbols of a link\<close>

text \<open>What the symbols of one name amount to: a strong definition wins, the first of them when there are several, then common
  symbols with their largest size, then the first weak definition, then references.\<close>

definition resolution :: "link_symbol list \<Rightarrow> sym_state" where
  "resolution sys =
     (case find (\<lambda>sy. symbol_row sy = DEF_ROW) sys of
        Some sy \<Rightarrow> S_def (ly_section sy) (ly_value sy)
      | None \<Rightarrow>
          let commons = map ly_value (filter (\<lambda>sy. symbol_row sy = COMMON_ROW) sys)
          in if commons \<noteq> [] then S_common (Max (set commons))
             else case find (\<lambda>sy. symbol_row sy = DEFW_ROW) sys of
               Some sy \<Rightarrow> S_defw (ly_section sy) (ly_value sy)
             | None \<Rightarrow>
                (case find (\<lambda>sy. symbol_row sy = UNDEF_ROW) sys of
                   Some sy \<Rightarrow> S_undef (Some (lf_id (ly_abfd sy)))
                 | None \<Rightarrow>
                     (case find (\<lambda>sy. symbol_row sy = UNDEFW_ROW) sys of
                        Some sy \<Rightarrow> S_undefw (Some (lf_id (ly_abfd sy)))
                      | None \<Rightarrow> S_new)))"

lemma find_snoc: "find P (xs @ [y]) = (case find P xs of Some x \<Rightarrow> Some x | None \<Rightarrow> if P y then Some y else None)"
  by (induction xs) auto

lemma Max_snoc: "xs \<noteq> [] \<Longrightarrow> Max (set (xs @ [y])) = max (Max (set xs)) (y :: bfd_vma)"
  by (simp add: max.commute)

lemma resolution_snoc:
  assumes "plain_row (symbol_row sy)"
  shows "resolution (sys @ [sy]) = merge (symbol_row sy) sy (resolution sys)"
proof -
  let ?c = "map ly_value (filter (\<lambda>sy. symbol_row sy = COMMON_ROW) sys)"
  have c: "map ly_value (filter (\<lambda>sy. symbol_row sy = COMMON_ROW) (sys @ [sy])) = (if symbol_row sy = COMMON_ROW then ?c @ [ly_value sy] else ?c)" by simp
  have "?c = [] \<or> Max (set (?c @ [ly_value sy])) = max (Max (set ?c)) (ly_value sy)" using Max_snoc by blast
  with assms show ?thesis
    unfolding resolution_def c find_snoc Let_def plain_row_def
    by (auto simp: merge_def split: option.split)
qed

lemma resolution_not_link: "resolution sys \<noteq> S_link"
  by (simp add: resolution_def Let_def split: option.split)

lemma resolution_def_iff: "(\<exists>sec v. resolution sys = S_def sec v) \<longleftrightarrow> (\<exists>sy \<in> set sys. symbol_row sy = DEF_ROW)"
  by (auto simp: resolution_def Let_def find_None_iff find_Some_iff split: option.splits)

text \<open>The tables a link goes through, and the symbols that were added.\<close>

inductive linked :: "bfd_link_info \<Rightarrow> bfd_link_hash_table \<Rightarrow> link_symbol list \<Rightarrow> bool" for info where
  init: "bfd_link_hash_table_init n created heap True entsize = Some tab \<Longrightarrow> n \<noteq> 0 \<Longrightarrow> linked info tab []"
| add: "linked info tab sys \<Longrightarrow> bfd_generic_link_add_one_symbol info sy None tab = Some (Done (True, p, t)) \<Longrightarrow>
    plain_row (symbol_row sy) \<Longrightarrow> env_ok info sy \<Longrightarrow> ht_size (lt_table tab) < 4294967291 \<Longrightarrow> linked info t (sys @ [sy])"

lemma link_init_ok:
  assumes "bfd_link_hash_table_init n created heap True entsize = Some tab" "n \<noteq> 0"
  shows "link_inv tab []" "state tab = (\<lambda>_. S_new)" "lt_events tab = []" "lt_asserts tab = 0" "ht_size (lt_table tab) = n"
proof -
  obtain t where t: "bfd_hash_table_init n created entsize = Some t"
      "tab = \<lparr>lt_table = t, lt_off = [], lt_undefs = None, lt_undefs_tail = None, lt_heap = heap, lt_events = [], lt_asserts = 0\<rparr>"
    using assms(1) by (auto simp: bfd_link_hash_table_init_def lt_assert_def split: option.splits)
  have ok: "hash_ok t" "ht_map t = Map.empty" "ht_size t = n" using init_ok [OF assms(2)] t(1) unfolding bfd_hash_table_init_def by blast+
  have "x \<notin> set (ht_entries t)" for x using ht_map_Some [OF ok(1), of "he_string x" x] ok(2) by auto
  then have "ht_entries t = []" by (cases "ht_entries t") auto
  then have at: "lh_at tab = Map.empty" using t(2) by (simp add: lh_at_def fun_eq_iff)
  have "link_heap tab" using ok(1) t(2) by (auto simp: link_heap_def hash_ok_def)
  moreover have "lt_undefs tab = None" "lt_undefs_tail tab = None" using t(2) by simp_all
  ultimately show "link_inv tab []" unfolding link_inv_def at by (simp add: entries_ok_def links_def undef_chain_def undef_types_def)
  show "state tab = (\<lambda>_. S_new)" using ok(2) t(2) by (simp add: state_def sym_addr_def fun_eq_iff)
  show "lt_events tab = []" "lt_asserts tab = 0" "ht_size (lt_table tab) = n" using t(2) ok(3) by simp_all
qed

definition is_multiple :: "link_event \<Rightarrow> bool" where
  "is_multiple ev \<longleftrightarrow> (case ev of Multiple_definition _ _ _ _ \<Rightarrow> True | _ \<Rightarrow> False)"

lemma reports_multiple:
  "plain_row (symbol_row sy) \<Longrightarrow> (\<exists>ev \<in> set (lto_events info sy @ reports (symbol_row sy) sy h st). is_multiple ev) \<longleftrightarrow>
    symbol_row sy = DEF_ROW \<and> (\<exists>sec v. st = S_def sec v)"
  by (cases st) (auto simp: reports_def lto_events_def is_multiple_def plain_row_def)

abbreviation of_name :: "string \<Rightarrow> link_symbol list \<Rightarrow> link_symbol list" where
  "of_name s sys \<equiv> filter (\<lambda>sy. ly_name sy = s) sys"

abbreviation strong_names :: "link_symbol list \<Rightarrow> string list" where
  "strong_names sys \<equiv> map ly_name (filter (\<lambda>sy. symbol_row sy = DEF_ROW) sys)"

lemma linked_state:
  assumes "linked info tab sys" "quiet info"
  shows "(\<exists>us. link_inv tab us) \<and> (\<forall>s. state tab s = resolution (of_name s sys)) \<and> lt_asserts tab = 0 \<and>
    ((\<exists>ev \<in> set (lt_events tab). is_multiple ev) \<longleftrightarrow> \<not> distinct (strong_names sys))"
  using assms
proof (induction rule: linked.induct)
  case (init n created heap entsize tab)
  then show ?case using link_init_ok [OF init.hyps] by (auto simp: resolution_def)
next
  case (add tab sys sy p t)
  then obtain us where inv: "link_inv tab us" and st: "\<And>s. state tab s = resolution (of_name s sys)" and asserts: "lt_asserts tab = 0"
    and ev: "(\<exists>ev \<in> set (lt_events tab). is_multiple ev) \<longleftrightarrow> \<not> distinct (strong_names sys)" by blast
  have "state tab (ly_name sy) \<noteq> S_link" using st resolution_not_link by simp
  moreover have "sym_addr tab (ly_name sy) = None \<longrightarrow> copy_fits (ly_copy sy) (ly_name sy)"
    using added_fits [OF link_invD(1) [OF inv] add.prems _ add.hyps(2)] add.hyps(3) by (auto simp: plain_row_def)
  ultimately have "\<exists>ok p tab'. bfd_generic_link_add_one_symbol info sy None tab = Some (Done (ok, p, tab')) \<and>
    (ok \<longrightarrow> (\<exists>us'. link_inv tab' us') \<and> lt_asserts tab' = lt_asserts tab \<and>
      state tab' = (state tab)(ly_name sy := merge (symbol_row sy) sy (state tab (ly_name sy))) \<and>
      (\<exists>h. sym_addr tab' (ly_name sy) = Some h \<and>
         lt_events tab' = lt_events tab @ lto_events info sy @ reports (symbol_row sy) sy h (state tab (ly_name sy))))"
    by (rule add_plain [OF inv add.prems add.hyps(4,3,5)])
  with add.hyps(2)
  obtain us' h where t: "link_inv t us'" "lt_asserts t = lt_asserts tab" "state t = (state tab)(ly_name sy := merge (symbol_row sy) sy (state tab (ly_name sy)))"
      "lt_events t = lt_events tab @ lto_events info sy @ reports (symbol_row sy) sy h (state tab (ly_name sy))"
    by auto
  have "state t s = resolution (of_name s (sys @ [sy]))" for s
    using t(3) st resolution_snoc [OF add.hyps(3)] by simp
  moreover have "(\<exists>sec v. state tab (ly_name sy) = S_def sec v) \<longleftrightarrow> ly_name sy \<in> set (strong_names sys)"
    unfolding st resolution_def_iff by (auto simp: image_iff)
  then have "(\<exists>ev \<in> set (lt_events t). is_multiple ev) \<longleftrightarrow> \<not> distinct (strong_names (sys @ [sy]))"
    using ev reports_multiple [OF add.hyps(3), of info h "state tab (ly_name sy)"] t(4) by auto
  ultimately show ?case using t(1,2) asserts by (metis)
qed

end
