(* ===== verification/Bfd_Link_Order.thy ===== *)
theory Bfd_Link_Order
  imports Bfd_Link_Resolve
begin

text \<open>
  What a link makes of its symbols: the properties of the global symbol table for the symbols of input files, in the
  order in which they are added and in any other order, and of the list of undefined symbols.
\<close>

section \<open>Order\<close>

primrec kind :: "sym_state \<Rightarrow> nat" where
  "kind S_new = 0" | "kind (S_undef _) = 1" | "kind (S_undefw _) = 2" | "kind (S_def _ _) = 3" | "kind (S_defw _ _) = 4" | "kind (S_common _) = 5" | "kind S_link = 6"

lemma find_same: "set xs = set ys \<Longrightarrow> find P xs = None \<longleftrightarrow> find P ys = None"
  by (simp add: find_None_iff)

lemma find_SomeD: "find P xs = Some x \<Longrightarrow> x \<in> set xs \<and> P x"
  by (induction xs) (auto split: if_splits)

lemma kind_resolution:
  "kind (resolution sys) =
     (if \<exists>sy \<in> set sys. symbol_row sy = DEF_ROW then 3 else if \<exists>sy \<in> set sys. symbol_row sy = COMMON_ROW then 5
      else if \<exists>sy \<in> set sys. symbol_row sy = DEFW_ROW then 4 else if \<exists>sy \<in> set sys. symbol_row sy = UNDEF_ROW then 1
      else if \<exists>sy \<in> set sys. symbol_row sy = UNDEFW_ROW then 2 else 0)"
proof -
  have c: "map ly_value (filter (\<lambda>sy. symbol_row sy = COMMON_ROW) sys) \<noteq> [] \<longleftrightarrow> (\<exists>sy \<in> set sys. symbol_row sy = COMMON_ROW)"
    by (simp add: filter_empty_conv)
  have f: "(case find P sys of None \<Rightarrow> u | Some sy \<Rightarrow> v sy) = (if \<exists>sy \<in> set sys. P sy then v (the (find P sys)) else u)" for P u and v :: "link_symbol \<Rightarrow> sym_state"
    using find_None_iff [of P sys] find_SomeD [of P sys] by (cases "find P sys") auto
  show ?thesis unfolding resolution_def Let_def c f by simp
qed

lemma resolution_kind: "set xs = set ys \<Longrightarrow> kind (resolution xs) = kind (resolution ys)"
  by (simp add: kind_resolution)

lemma resolution_common:
  assumes "set xs = set ys" "resolution xs = S_common n"
  shows "resolution ys = S_common n"
proof -
  have xs: "find (\<lambda>sy. symbol_row sy = DEF_ROW) xs = None" "map ly_value (filter (\<lambda>sy. symbol_row sy = COMMON_ROW) xs) \<noteq> []"
      "n = Max (set (map ly_value (filter (\<lambda>sy. symbol_row sy = COMMON_ROW) xs)))"
    using assms(2) by (auto simp: resolution_def Let_def split: option.splits if_splits)
  have "set (map ly_value (filter (\<lambda>sy. symbol_row sy = COMMON_ROW) ys)) = set (map ly_value (filter (\<lambda>sy. symbol_row sy = COMMON_ROW) xs))"
    using assms(1) by simp
  moreover have "map ly_value (filter (\<lambda>sy. symbol_row sy = COMMON_ROW) ys) \<noteq> []" using xs(2) assms(1) by (auto simp: filter_empty_conv)
  moreover have "find (\<lambda>sy. symbol_row sy = DEF_ROW) ys = None" using xs(1) find_same [OF assms(1)] by simp
  ultimately show ?thesis using xs(3) unfolding resolution_def Let_def by simp
qed

lemma resolution_unique:
  assumes "mset xs = mset ys" "length (filter (\<lambda>sy. symbol_row sy = DEF_ROW) xs) \<le> 1" "resolution xs = S_def sec v"
  shows "resolution ys = S_def sec v"
proof -
  let ?P = "\<lambda>sy. symbol_row sy = DEF_ROW"
  obtain sy where sy: "find ?P xs = Some sy" "sec = ly_section sy" "v = ly_value sy"
    using assms(3) by (auto simp: resolution_def Let_def split: option.splits if_splits)
  have one: "x = sy" if "x \<in> set ys" "?P x" for x
  proof -
    have "x \<in> set (filter ?P xs)" "sy \<in> set (filter ?P xs)" using that mset_eq_setD [OF assms(1)] sy(1) by (auto simp: find_Some_iff)
    then show ?thesis using assms(2) by (cases "filter ?P xs") auto
  qed
  have "find ?P ys \<noteq> None" using find_same [of xs ys ?P] mset_eq_setD [OF assms(1)] sy(1) by simp
  then obtain y where y: "find ?P ys = Some y" by blast
  then have "y = sy" using one by (auto simp: find_Some_iff)
  then show ?thesis using y sy by (simp add: resolution_def)
qed

lemma strong_once:
  assumes "distinct (strong_names sys)"
  shows "length (filter (\<lambda>sy. symbol_row sy = DEF_ROW) (of_name s sys)) \<le> 1"
proof -
  have "length (filter (\<lambda>n. n = s) (strong_names sys)) = card ({n. n = s} \<inter> set (strong_names sys))" by (rule distinct_length_filter [OF assms])
  also have "\<dots> \<le> card {s}" by (rule card_mono) auto
  finally have "length (filter (\<lambda>n. n = s) (strong_names sys)) \<le> 1" by simp
  moreover have "length (filter (\<lambda>n. n = s) (strong_names sys)) = length (filter (\<lambda>sy. symbol_row sy = DEF_ROW) (of_name s sys))"
    by (induction sys) auto
  ultimately show ?thesis by simp
qed

section \<open>Properties\<close>

text \<open>C11: The symbol table resolves the symbols of a link: after any sequence of definitions, common symbols and references, strong or weak, a name
  stands for its first strong definition, or for the largest of its common symbols when there is no definition, or for its
  first weak definition, or is undefined, or weakly undefined.  Definitions that collide are reported exactly when two
  strong ones have the same name.\<close>

theorem link_symbols_resolved:
  assumes "linked info tab sys" "quiet info"
  shows "(\<forall>s. state tab s = resolution (of_name s sys)) \<and>
    ((\<exists>ev \<in> set (lt_events tab). is_multiple ev) \<longleftrightarrow> \<not> distinct (strong_names sys))"
  using linked_state [OF assms] by blast

text \<open>C12: The order of the input files decides neither whether a name is defined nor how: when no two strong definitions
  collide, every order gives each name the same kind, the same strong definition and the same common size.\<close>

theorem link_order_irrelevant:
  assumes "linked info tab sys" "linked info' tab' sys'" "quiet info" "quiet info'" "mset sys' = mset sys" "distinct (strong_names sys)"
  shows "kind (state tab' s) = kind (state tab s) \<and> (kind (state tab s) \<in> {kind (S_def sec v), kind (S_common n)} \<longrightarrow> state tab' s = state tab s)"
proof -
  let ?xs = "of_name s sys" and ?ys = "of_name s sys'"
  have st: "state tab s = resolution ?xs" "state tab' s = resolution ?ys" using linked_state [OF assms(1,3)] linked_state [OF assms(2,4)] by blast+
  have m: "mset ?xs = mset ?ys" using assms(5) by simp
  then have set: "set ?xs = set ?ys" by (rule mset_eq_setD)
  show ?thesis unfolding st
    using resolution_kind [OF set] resolution_common [OF set] resolution_unique [OF m strong_once [OF assms(6)]]
    by (cases "resolution ?xs") auto
qed

text \<open>C14: The list of undefined symbols is sound and complete at every moment of a link: it is a list from \<open>undefs\<close> to \<open>undefs_tail\<close> without
  repetition, every name that is still undefined is on it, none that is new or weakly undefined is, and no assertion of the
  code has failed.\<close>

theorem undefined_symbols_listed:
  assumes "linked info tab sys" "quiet info"
  shows "\<exists>us. undef_chain (lh_at tab) (lt_undefs tab) (lt_undefs_tail tab) us \<and> lt_asserts tab = 0 \<and>
    (\<forall>s a. sym_addr tab s = Some a \<longrightarrow> (kind (state tab s) = kind (S_undef f) \<longrightarrow> a \<in> set us) \<and>
       (kind (state tab s) \<in> {kind S_new, kind (S_undefw f)} \<longrightarrow> a \<notin> set us))"
proof -
  obtain us where inv: "link_inv tab us" and asserts: "lt_asserts tab = 0" using linked_state [OF assms] by blast
  have "(kind (state tab s) = kind (S_undef f) \<longrightarrow> a \<in> set us) \<and> (kind (state tab s) \<in> {kind S_new, kind (S_undefw f)} \<longrightarrow> a \<notin> set us)"
    if a: "sym_addr tab s = Some a" for s a
  proof -
    obtain e where e: "lh_at tab a = Some e" by (rule sym_addr_at [OF link_invD(1) [OF inv] a])
    have t: "typed e" and u: "undef_types (lh_at tab) us" using link_invD(2,5) [OF inv] e by (simp_all add: entries_ok_def)
    have st: "state tab s = state_of e" using a e by (simp add: state_def)
    have "(lh_type e = bfd_link_hash_undefined \<longrightarrow> a \<in> set us) \<and> (lh_type e \<in> {bfd_link_hash_new, bfd_link_hash_undefweak} \<longrightarrow> a \<notin> set us)"
      using u e unfolding undef_types_def by blast
    then show ?thesis using t unfolding st by (cases "lh_type e") (auto simp: typed_def state_of_def)
  qed
  then show ?thesis using link_invD(4) [OF inv] asserts by blast
qed

section \<open>An example\<close>

declare link_loop.simps [code] hash_entry_bfd.simps [code] follow_links.simps [code] repair_loop.simps [code]

definition sample_info :: bfd_link_info where
  "sample_info = \<lparr>li_relocatable = False, li_wrap_hash = None, li_wrap_char = nul, li_notice_all = False, li_notice_hash = None,
     li_notice = \<lambda>_ _ _ _ _. True, li_lto_plugin_active = False, li_gc_sections = False,
     li_make_section = \<lambda>f n. Some \<lparr>ls_name = n, ls_is_und = False, ls_is_ind = False, ls_is_com_ptr = False, ls_is_common = True,
       ls_alloc = False, ls_owner = Some f\<rparr>\<rparr>"

definition sample_link_table :: bfd_link_hash_table where
  "sample_link_table = \<lparr>lt_table = \<lparr>ht_table = replicate 31 [], ht_memory = Some \<lparr>oa_ok = \<lambda>_. True, oa_next = 1\<rparr>, ht_size = 31,
     ht_count = 0, ht_entsize = 64, ht_frozen = False\<rparr>, lt_off = [], lt_undefs = None, lt_undefs_tail = None,
     lt_heap = \<lparr>oa_ok = \<lambda>_. True, oa_next = 0\<rparr>, lt_events = [], lt_asserts = 0\<rparr>"

definition sample_file :: link_file where
  "sample_file = \<lparr>lf_id = 7, lf_leading_char = nul, lf_plugin = False\<rparr>"

definition text_section :: link_section where
  "text_section = \<lparr>ls_name = ''.text'', ls_is_und = False, ls_is_ind = False, ls_is_com_ptr = False, ls_is_common = False, ls_alloc = True, ls_owner = Some 7\<rparr>"

definition und_section :: link_section where
  "und_section = \<lparr>ls_name = ''*UND*'', ls_is_und = True, ls_is_ind = False, ls_is_com_ptr = False, ls_is_common = False, ls_alloc = False, ls_owner = None\<rparr>"

definition sample_symbol :: "string \<Rightarrow> link_section \<Rightarrow> bfd_vma \<Rightarrow> bool \<Rightarrow> string \<Rightarrow> link_symbol" where
  "sample_symbol name sec v ind str = \<lparr>ly_abfd = sample_file, ly_name = name, ly_indirect = ind, ly_warning = False, ly_constructor = False, ly_weak = False,
     ly_section = sec, ly_value = v, ly_string = str, ly_copy = False, ly_collect = False\<rparr>"

definition run_ok :: "(bool \<times> nat option \<times> bfd_link_hash_table) run \<Rightarrow> bool" where
  "run_ok r = (case r of Some (Done (ok, _, _)) \<Rightarrow> ok | _ \<Rightarrow> False)"

definition run_table :: "(bool \<times> nat option \<times> bfd_link_hash_table) run \<Rightarrow> bfd_link_hash_table" where
  "run_table r = (case r of Some (Done (_, _, t)) \<Rightarrow> t | _ \<Rightarrow> sample_link_table)"


abbreviation sample_ref :: link_symbol where
  "sample_ref \<equiv> sample_symbol ''f'' und_section 0 False []"

abbreviation sample_def :: link_symbol where
  "sample_def \<equiv> sample_symbol ''f'' text_section 4 False []"

definition after_symbol :: "link_symbol \<Rightarrow> bfd_link_hash_table \<Rightarrow> bfd_link_hash_table" where
  "after_symbol sy tab = run_table (bfd_generic_link_add_one_symbol sample_info sy None tab)"

lemma run_okD: "run_ok r \<Longrightarrow> \<exists>p. r = Some (Done (True, p, run_table r))"
  by (auto simp: run_ok_def run_table_def split: option.splits cresult.splits)

lemma sample_added:
  assumes "linked sample_info tab sys" "run_ok (bfd_generic_link_add_one_symbol sample_info sy None tab)"
    and "plain_row (symbol_row sy)" "\<not> ly_collect sy" "ht_size (lt_table tab) < 4294967291"
  shows "linked sample_info (after_symbol sy tab) (sys @ [sy])"
proof -
  obtain p where "bfd_generic_link_add_one_symbol sample_info sy None tab = Some (Done (True, p, after_symbol sy tab))"
    using run_okD [OF assms(2)] by (auto simp: after_symbol_def)
  then show ?thesis using assms by (intro linked.add) (auto simp: env_ok_def sample_info_def)
qed

lemma sample_rows: "plain_row (symbol_row sample_ref)" "plain_row (symbol_row sample_def)" "symbol_row sample_ref = UNDEF_ROW" "symbol_row sample_def = DEF_ROW"
  by code_simp+

lemma sample_start: "linked sample_info sample_link_table []"
proof (rule linked.init [where n = 31])
  show "bfd_link_hash_table_init 31 (Some \<lparr>oa_ok = \<lambda>_. True, oa_next = 0\<rparr>) \<lparr>oa_ok = \<lambda>_. True, oa_next = 0\<rparr> True 64 = Some sample_link_table"
    by (simp add: bfd_link_hash_table_init_def bfd_hash_table_init_def bfd_hash_table_init_n_def objalloc_alloc_def lt_assert_def
        sample_link_table_def Let_def)
qed simp

lemma sample_linked:
  "linked sample_info (after_symbol sample_ref sample_link_table) [sample_ref]"
  "linked sample_info (after_symbol sample_def (after_symbol sample_ref sample_link_table)) [sample_ref, sample_def]"
  "linked sample_info (after_symbol sample_ref (after_symbol sample_def sample_link_table)) [sample_def, sample_ref]"
proof -
  have collect: "\<not> ly_collect sample_ref" "\<not> ly_collect sample_def" by (simp_all add: sample_symbol_def)
  have ref: "linked sample_info (after_symbol sample_ref sample_link_table) ([] @ [sample_ref])"
    by (rule sample_added [OF sample_start _ sample_rows(1) collect(1)]) code_simp+
  have dfn: "linked sample_info (after_symbol sample_def sample_link_table) ([] @ [sample_def])"
    by (rule sample_added [OF sample_start _ sample_rows(2) collect(2)]) code_simp+
  have "linked sample_info (after_symbol sample_def (after_symbol sample_ref sample_link_table)) (([] @ [sample_ref]) @ [sample_def])"
    by (rule sample_added [OF ref _ sample_rows(2) collect(2)]) code_simp+
  moreover have "linked sample_info (after_symbol sample_ref (after_symbol sample_def sample_link_table)) (([] @ [sample_def]) @ [sample_ref])"
    by (rule sample_added [OF dfn _ sample_rows(1) collect(1)]) code_simp+
  ultimately show "linked sample_info (after_symbol sample_ref sample_link_table) [sample_ref]"
    "linked sample_info (after_symbol sample_def (after_symbol sample_ref sample_link_table)) [sample_ref, sample_def]"
    "linked sample_info (after_symbol sample_ref (after_symbol sample_def sample_link_table)) [sample_def, sample_ref]"
    using ref by simp_all
qed

lemma sample_quiet: "quiet sample_info"
  by (simp add: quiet_def sample_info_def)

theorem link_symbols_resolved_witness:
  "state (after_symbol sample_def (after_symbol sample_ref sample_link_table)) ''f'' = S_def text_section 4"
  using link_symbols_resolved [OF sample_linked(2) sample_quiet] sample_rows by (simp add: resolution_def sample_symbol_def)

theorem link_order_irrelevant_witness:
  "kind (state (after_symbol sample_ref (after_symbol sample_def sample_link_table)) ''f'') =
   kind (state (after_symbol sample_def (after_symbol sample_ref sample_link_table)) ''f'')"
proof -
  have "distinct (strong_names [sample_ref, sample_def])" using sample_rows by simp
  then show ?thesis using link_order_irrelevant [OF sample_linked(2,3) sample_quiet sample_quiet, of "''f''" text_section 0 0] by simp
qed

theorem undefined_symbols_listed_witness:
  "\<exists>us. undef_chain (lh_at (after_symbol sample_ref sample_link_table)) (lt_undefs (after_symbol sample_ref sample_link_table))
     (lt_undefs_tail (after_symbol sample_ref sample_link_table)) us \<and> lt_asserts (after_symbol sample_ref sample_link_table) = 0"
  using undefined_symbols_listed [OF sample_linked(1) sample_quiet, of None] by blast

end
