(* ===== verification/Bfd_Link_Loop.thy ===== *)
theory Bfd_Link_Loop
  imports Bfd_Link_Order
begin

text \<open>
  Two loops over symbols that are linked by pointers.  \<open>_bfd_generic_link_add_one_symbol\<close> follows an indirect symbol that points to
  itself for ever.  \<open>bfd_link_repair_undef_list\<close> takes symbols out of the list of undefined symbols by way of a pointer to the
  pointer that leads to them, and returns: the list is seen as segments, as in a proof about pointer programs.
\<close>

section \<open>A circle\<close>

text \<open>An indirect symbol that points to itself.\<close>

definition circle :: "bfd_link_hash_table \<Rightarrow> nat \<Rightarrow> bool" where
  "circle tab h \<longleftrightarrow> link_heap tab \<and> (\<exists>e w. lh_at tab h = Some e \<and> lh_type e = bfd_link_hash_indirect \<and> lh_u e = U_i h w \<and> \<not> lh_ldscript_def e)"

lemma circle_step:
  assumes "circle tab h"
  shows "\<exists>tab'. link_act info sy REFC UNDEF_ROW h inh tab = Done (Again UNDEF_ROW h, tab') \<and> circle tab' h"
proof -
  obtain e w where e: "link_heap tab" "lh_at tab h = Some e" "lh_type e = bfd_link_hash_indirect" "lh_u e = U_i h w" "\<not> lh_ldscript_def e"
    using assms by (auto simp: circle_def)
  let ?e = "if lh_next e = None \<and> lt_undefs_tail tab \<noteq> Some h then e\<lparr>lh_next := Some h\<rparr> else e"
  let ?t = "if lh_next e = None \<and> lt_undefs_tail tab \<noteq> Some h then lh_put (e\<lparr>lh_next := Some h\<rparr>) tab else tab"
  have same: "same_object (e\<lparr>lh_next := Some h\<rparr>) e" by (simp add: same_object_def)
  have "he_addr (e\<lparr>lh_next := Some h\<rparr>) = h" using lh_at_addr [OF e(1,2)] by simp
  then have at: "lh_at ?t h = Some ?e" "link_heap ?t"
    using lh_put_ok [OF e(1), of "e\<lparr>lh_next := Some h\<rparr>" e] e(1,2) same by auto
  have "mark_referenced h tab = Done ?t" using e(2) by (simp add: mark_referenced_def get_at)
  moreover have "cycle UNDEF_ROW h ?t = Done (Again UNDEF_ROW h, ?t)" using at(1) e(4) by (simp add: cycle_def get_at u_link_def)
  ultimately have "link_act info sy REFC UNDEF_ROW h inh tab = Done (Again UNDEF_ROW h, ?t)" by (simp add: link_act_def Let_def)
  moreover have "circle ?t h" using at e by (auto simp: circle_def)
  ultimately show ?thesis by blast
qed

lemma refc: "link_action UNDEF_ROW bfd_link_hash_indirect = REFC"
  by (simp add: link_action_simps)

lemma circle_hangs:
  assumes "link_loop info sy row h inh hashp tab = Some y"
  shows "row = UNDEF_ROW \<longrightarrow> \<not> circle tab h"
proof (rule link_loop.raw_induct [where P = "\<lambda>_ _ row h _ _ tab _. row = UNDEF_ROW \<longrightarrow> \<not> circle tab h", OF _ assms], intro impI notI)
  fix f :: "bfd_link_info \<Rightarrow> link_symbol \<Rightarrow> link_row \<Rightarrow> nat \<Rightarrow> nat option \<Rightarrow> nat option \<Rightarrow> bfd_link_hash_table \<Rightarrow> (bool \<times> nat option \<times> bfd_link_hash_table) run"
    and info sy row h inh hashp tab y
  assume IH: "\<And>info sy row h inh hashp tab y. f info sy row h inh hashp tab = Some y \<Longrightarrow> row = UNDEF_ROW \<longrightarrow> \<not> circle tab h"
    and run: "(case lh_get tab h of
        Undefined \<Rightarrow> Some Undefined
      | Abort \<Rightarrow> Some Abort
      | Done e \<Rightarrow>
          let action = link_action row (if lh_ldscript_def e then bfd_link_hash_undefined else lh_type e)
          in if action = WARN \<or> action = MWARN then link_warn info sy action h hashp tab
             else case link_act info sy action row h inh tab of
                    Undefined \<Rightarrow> Some Undefined
                  | Abort \<Rightarrow> Some Abort
                  | Done (Return ok, tab) \<Rightarrow> Some (Done (ok, hashp, tab))
                  | Done (Again row h, tab) \<Rightarrow> f info sy row h inh hashp tab) = Some y"
    and row: "row = UNDEF_ROW" and c: "circle tab h"
  obtain e where e: "lh_at tab h = Some e" "lh_type e = bfd_link_hash_indirect" "\<not> lh_ldscript_def e" using c by (auto simp: circle_def)
  obtain tab' where tab': "link_act info sy REFC UNDEF_ROW h inh tab = Done (Again UNDEF_ROW h, tab')" "circle tab' h" using circle_step [OF c] by blast
  have "f info sy UNDEF_ROW h inh hashp tab' = Some y"
    using run e tab'(1) row by (simp add: get_at Let_def refc)
  then show False using IH tab'(2) by blast
qed

lemma self_circle:
  assumes "link_heap tab" "lh_at tab h = Some e" "lh_type e \<notin> {bfd_link_hash_new, bfd_link_hash_indirect}" "\<not> lh_ldscript_def e"
  shows "\<exists>tab'. make_indirect sy row h h tab = Done (Again UNDEF_ROW h, tab') \<and> circle tab' h"
proof -
  let ?e = "e\<lparr>lh_type := bfd_link_hash_indirect, lh_u := U_i h None\<rparr>"
  have "he_addr ?e = h" using lh_at_addr [OF assms(1,2)] by simp
  then have "link_heap (lh_put ?e tab)" "lh_at (lh_put ?e tab) h = Some ?e"
    using lh_put_ok [OF assms(1), of ?e e] assms(2) by (simp_all add: same_object_def)
  then have "circle (lh_put ?e tab) h" using assms(4) by (auto simp: circle_def)
  then show ?thesis using assms by (simp add: make_indirect_def get_at Let_def)
qed

lemma lookup_known:
  assumes "link_heap tab" "ht_size (lt_table tab) < 4294967291" "sym_addr tab s = Some h"
  shows "bfd_link_hash_lookup tab s True copy False = Some (Done (Some h, tab))"
  using link_lookup_found [OF assms(1,2), of s copy] assms(3) by (auto simp: found_def split: option.splits)

lemma self_loop:
  assumes inv: "link_inv tab us" and e: "lh_at tab h = Some e" "lh_type e \<notin> {bfd_link_hash_new, bfd_link_hash_defined, bfd_link_hash_indirect, bfd_link_hash_warning}"
  shows "link_loop info sy INDR_ROW h (Some h) hashp tab = None"
proof -
  have ld: "\<not> lh_ldscript_def e" using link_invD(2) [OF inv] e(1) by (simp add: entries_ok_def)
  let ?t = "if lh_type e = bfd_link_hash_common then tell (Multiple_common h (lf_id (ly_abfd sy)) bfd_link_hash_indirect 0) tab else tab"
  have "link_heap ?t" "lh_at ?t h = Some e" using link_invD(1) [OF inv] e(1) by (simp_all add: tell_view link_heap_def) (simp_all add: tell_def)
  then obtain tab' where m: "make_indirect sy INDR_ROW h h ?t = Done (Again UNDEF_ROW h, tab')" "circle tab' h"
    using self_circle [of ?t h e sy INDR_ROW] e(2) ld by auto
  have "link_loop info sy INDR_ROW h (Some h) hashp tab = link_loop info sy UNDEF_ROW h (Some h) hashp tab'"
    using e m(1) ld by (subst link_loop.simps) (cases "lh_type e"; simp add: get_at Let_def link_action_simps link_act_def lt_assert_def)
  moreover have "link_loop info sy UNDEF_ROW h (Some h) hashp tab' = None" using circle_hangs m(2) by (metis option.exhaust)
  ultimately show ?thesis by simp
qed

section \<open>List segments\<close>

text \<open>The entries from a pointer to another, along \<open>next\<close>.\<close>

primrec segment :: "(nat \<rightharpoonup> bfd_link_hash_entry) \<Rightarrow> nat option \<Rightarrow> nat list \<Rightarrow> nat option \<Rightarrow> bool" where
  "segment H f [] g \<longleftrightarrow> f = g"
| "segment H f (a # us) g \<longleftrightarrow> f = Some a \<and> (\<exists>e. H a = Some e \<and> segment H (lh_next e) us g)"

lemma segment_append: "segment H f (us @ vs) g \<longleftrightarrow> (\<exists>m. segment H f us m \<and> segment H m vs g)"
  by (induction us arbitrary: f) auto

lemma segment_frame: "\<forall>a \<in> set us. H' a = H a \<Longrightarrow> segment H' f us g = segment H f us g"
  by (induction us arbitrary: f) auto

lemma segment_hd: "segment H f us None \<Longrightarrow> f = (if us = [] then None else Some (hd us))"
  by (cases us) auto

lemma segment_nth:
  "segment H f us None \<longleftrightarrow> f = (if us = [] then None else Some (hd us)) \<and>
     (\<forall>k < length us. \<exists>e. H (us ! k) = Some e \<and> lh_next e = (if Suc k < length us then Some (us ! Suc k) else None))"
proof (induction us arbitrary: f)
  case (Cons a us)
  have hd: "us \<noteq> [] \<Longrightarrow> us ! 0 = hd us" by (simp add: hd_conv_nth)
  show ?case using hd by (auto simp: Cons.IH All_less_Suc2)
qed simp

lemma undef_chain_segment: "undef_chain H f l us \<longleftrightarrow> distinct us \<and> segment H f us None \<and> l = (if us = [] then None else Some (last us))"
  unfolding undef_chain_def segment_nth by blast

lemma segment_last:
  assumes "segment H f ps g" "distinct ps" "ps \<noteq> []" "H (last ps) = Some x"
  shows "lh_next x = g" "segment (H(last ps \<mapsto> x\<lparr>lh_next := g'\<rparr>)) f ps g'"
proof -
  obtain qs p where ps: "ps = qs @ [p]" using assms(3) by (metis append_butlast_last_id)
  then have qs: "segment H f qs (Some p)" "lh_next x = g" using assms(1,4) by (auto simp: segment_append)
  then show "lh_next x = g" by simp
  have "segment (H(p \<mapsto> x\<lparr>lh_next := g'\<rparr>)) f qs (Some p)" using qs(1) assms(2) ps by (subst segment_frame [of _ _ H]) auto
  then show "segment (H(last ps \<mapsto> x\<lparr>lh_next := g'\<rparr>)) f ps g'" using ps by (auto simp: segment_append)
qed

section \<open>Repairing the list\<close>

definition keeps :: "(nat \<rightharpoonup> bfd_link_hash_entry) \<Rightarrow> nat \<Rightarrow> bool" where
  "keeps H a \<longleftrightarrow> (\<forall>e. H a = Some e \<longrightarrow> lh_type e \<noteq> bfd_link_hash_new \<and> lh_type e \<noteq> bfd_link_hash_undefweak)"

lemma keeps_next_only:
  assumes "next_only H H'"
  shows "keeps H' = keeps H"
proof
  fix a show "keeps H' a = keeps H a"
    using next_only_cases [OF assms, of a] next_only_defined [OF assms, of a] unfolding keeps_def by (metis option.exhaust option.inject)
qed

lemma next_only_trans:
  assumes "next_only H H'" "next_only H' H''"
  shows "next_only H H''"
  unfolding next_only_def
proof
  fix a
  show "rel_option (\<lambda>e e'. e' = e\<lparr>lh_next := lh_next e'\<rparr>) (H a) (H'' a)"
  proof (cases "H'' a")
    case None
    then show ?thesis using next_only_defined [OF assms(1), of a] next_only_defined [OF assms(2), of a] by simp
  next
    case (Some e2)
    obtain e1 where 1: "H' a = Some e1" "e2 = e1\<lparr>lh_next := lh_next e2\<rparr>" by (rule next_only_cases [OF assms(2) Some])
    obtain e where 0: "H a = Some e" "e1 = e\<lparr>lh_next := lh_next e1\<rparr>" by (rule next_only_cases [OF assms(1) 1(1)])
    have "e1\<lparr>lh_next := n\<rparr> = e\<lparr>lh_next := n\<rparr>" for n by (subst 0(2)) simp
    then show ?thesis using 0(1) 1(2) Some by simp
  qed
qed

abbreviation pun_of :: "nat list \<Rightarrow> nat option" where
  "pun_of ps \<equiv> (if ps = [] then None else Some (last ps))"

text \<open>A round that drops the symbol \<open>pun\<close> points to.\<close>

lemma next_update: "H a = Some e \<Longrightarrow> next_only H (H(a \<mapsto> e\<lparr>lh_next := n\<rparr>))"
  by (auto simp: next_only_def intro: option.rel_refl)

lemma heap_write:
  assumes "link_heap tab" "lh_at tab a = Some e"
  shows "\<exists>t. lh_update a (\<lambda>e. e\<lparr>lh_next := n\<rparr>) tab = Done t \<and> link_heap t \<and> lh_at t = (lh_at tab)(a \<mapsto> e\<lparr>lh_next := n\<rparr>) \<and>
    sym_addr t = sym_addr tab \<and> lt_undefs t = lt_undefs tab \<and> lt_undefs_tail t = lt_undefs_tail tab"
  using lh_update_ok [of tab a e "\<lambda>e. e\<lparr>lh_next := n\<rparr>", OF assms] by (auto simp: same_object_def lh_put_lists)

lemma write_pun_ok:
  assumes heap: "link_heap tab" and seg: "segment (lh_at tab) (lt_undefs tab) ps m" "distinct ps"
  shows "\<exists>t. write_pun (pun_of ps) n tab = Done t \<and> link_heap t \<and> segment (lh_at t) (lt_undefs t) ps n \<and> next_only (lh_at tab) (lh_at t) \<and>
    (\<forall>a. a \<notin> set ps \<longrightarrow> lh_at t a = lh_at tab a) \<and> sym_addr t = sym_addr tab \<and> lt_undefs_tail t = lt_undefs_tail tab"
proof (cases "ps = []")
  case True
  have "lh_at (tab\<lparr>lt_undefs := n\<rparr>) = lh_at tab" "sym_addr (tab\<lparr>lt_undefs := n\<rparr>) = sym_addr tab" "link_heap (tab\<lparr>lt_undefs := n\<rparr>)"
    using heap by (auto simp: lh_at_def sym_addr_def link_heap_def)
  then show ?thesis using True by (simp add: write_pun_def next_only_refl)
next
  case False
  obtain qs p where ps: "ps = qs @ [p]" using False by (metis append_butlast_last_id)
  obtain x where x: "lh_at tab (last ps) = Some x" using seg(1) ps by (auto simp: segment_append)
  obtain t where t: "lh_update (last ps) (\<lambda>e. e\<lparr>lh_next := n\<rparr>) tab = Done t" "link_heap t" "lh_at t = (lh_at tab)(last ps \<mapsto> x\<lparr>lh_next := n\<rparr>)"
      "sym_addr t = sym_addr tab" "lt_undefs t = lt_undefs tab" "lt_undefs_tail t = lt_undefs_tail tab"
    using heap_write [OF heap x] by blast
  then show ?thesis using False segment_last(2) [OF seg False x] next_update [of "lh_at tab" "last ps" x n, OF x] by (auto simp: write_pun_def)
qed

lemma read_pun_ok:
  assumes "segment (lh_at tab) (lt_undefs tab) ps m" "distinct ps"
  shows "read_pun (pun_of ps) tab = Done m"
proof (cases "ps = []")
  case False
  then obtain qs p where ps: "ps = qs @ [p]" by (metis append_butlast_last_id)
  then show ?thesis using assms(1) by (auto simp: read_pun_def segment_append get_at)
qed (use assms in \<open>simp add: read_pun_def\<close>)

lemma repair_drops:
  assumes heap: "link_heap tab" and chain: "undef_chain (lh_at tab) (lt_undefs tab) (lt_undefs_tail tab) (ps @ h # r)" and drop: "\<not> keeps (lh_at tab) h"
  shows "\<exists>t. repair_step (pun_of ps) tab = Done (if r = [] then None else Some (pun_of ps), t) \<and> link_heap t \<and>
    undef_chain (lh_at t) (lt_undefs t) (lt_undefs_tail t) (ps @ r) \<and> next_only (lh_at tab) (lh_at t) \<and> sym_addr t = sym_addr tab"
proof -
  have C: "distinct (ps @ h # r)" "segment (lh_at tab) (lt_undefs tab) (ps @ h # r) None" "lt_undefs_tail tab = Some (last (h # r))"
    using chain by (simp_all add: undef_chain_segment)
  then obtain e where e: "segment (lh_at tab) (lt_undefs tab) ps (Some h)" "lh_at tab h = Some e" "segment (lh_at tab) (lh_next e) r None"
    by (auto simp: segment_append)
  obtain t1 where t1: "write_pun (pun_of ps) (lh_next e) tab = Done t1" "link_heap t1" "segment (lh_at t1) (lt_undefs t1) ps (lh_next e)"
      "next_only (lh_at tab) (lh_at t1)" "\<forall>a. a \<notin> set ps \<longrightarrow> lh_at t1 a = lh_at tab a" "sym_addr t1 = sym_addr tab" "lt_undefs_tail t1 = lt_undefs_tail tab"
    using write_pun_ok [OF heap e(1), of "lh_next e"] C(1) by auto
  have h1: "lh_at t1 h = Some e" using t1(5) e(2) C(1) by simp
  obtain t2 where t2: "lh_update h (\<lambda>e. e\<lparr>lh_next := None\<rparr>) t1 = Done t2" "link_heap t2" "lh_at t2 = (lh_at t1)(h \<mapsto> e\<lparr>lh_next := None\<rparr>)"
      "sym_addr t2 = sym_addr t1" "lt_undefs t2 = lt_undefs t1" "lt_undefs_tail t2 = lt_undefs_tail t1"
    using heap_write [OF t1(2) h1] by blast
  have "segment (lh_at t2) (lt_undefs t2) ps (lh_next e)" unfolding t2(3,5) using t1(3) C(1) by (subst segment_frame [of _ _ "lh_at t1"]) auto
  moreover have "segment (lh_at t2) (lh_next e) r None" using e(3) C(1) t1(5) t2(3) by (subst segment_frame [of _ _ "lh_at tab"]) auto
  ultimately have seg: "segment (lh_at t2) (lt_undefs t2) (ps @ r) None" by (auto simp: segment_append)
  let ?t = "if r = [] then t2\<lparr>lt_undefs_tail := pun_of ps\<rparr> else t2"
  have view: "lh_at ?t = lh_at t2" "sym_addr ?t = sym_addr t2" "link_heap ?t" "lt_undefs ?t = lt_undefs t2"
    using t2(2) by (auto simp: lh_at_def sym_addr_def link_heap_def)
  have "lt_undefs_tail ?t = pun_of (ps @ r)" using C(3) t1(7) t2(6) by simp
  then have chain': "undef_chain (lh_at ?t) (lt_undefs ?t) (lt_undefs_tail ?t) (ps @ r)"
    using seg view C(1) by (simp add: undef_chain_segment)
  have "lt_undefs_tail t2 = Some h \<longleftrightarrow> r = []" using C(1,3) t1(7) t2(6) last_in_set [of r] by auto
  moreover have "lh_type e = bfd_link_hash_new \<or> lh_type e = bfd_link_hash_undefweak" using drop e(2) by (auto simp: keeps_def)
  ultimately have run: "repair_step (pun_of ps) tab = Done (if r = [] then None else Some (pun_of ps), ?t)"
    using read_pun_ok [OF e(1)] C(1) e(2) t1(1) t2(1) by (simp add: repair_step_def get_at)
  have "next_only (lh_at tab) (lh_at ?t)" unfolding view t2(3) using next_only_trans [OF t1(4) next_update [of "lh_at t1" h e None, OF h1]] .
  then show ?thesis using run chain' view t2(4) t1(6) by (intro exI [of _ ?t]) simp
qed

lemma repair_keeps:
  assumes chain: "undef_chain (lh_at tab) (lt_undefs tab) (lt_undefs_tail tab) (ps @ h # r)" and keep: "keeps (lh_at tab) h"
  shows "repair_step (pun_of ps) tab = Done (Some (pun_of (ps @ [h])), tab)"
proof -
  obtain e where e: "segment (lh_at tab) (lt_undefs tab) ps (Some h)" "lh_at tab h = Some e" "distinct ps"
    using chain by (auto simp: undef_chain_segment segment_append)
  then show ?thesis using read_pun_ok [OF e(1,3)] keep by (simp add: repair_step_def get_at keeps_def)
qed

lemma repair_loop_ok:
  assumes "link_heap tab" "undef_chain (lh_at tab) (lt_undefs tab) (lt_undefs_tail tab) (ps @ us)"
  shows "\<exists>t. repair_loop (pun_of ps) tab = Some (Done t) \<and> link_heap t \<and>
    undef_chain (lh_at t) (lt_undefs t) (lt_undefs_tail t) (ps @ filter (keeps (lh_at tab)) us) \<and> next_only (lh_at tab) (lh_at t) \<and> sym_addr t = sym_addr tab"
  using assms
proof (induction us arbitrary: ps tab)
  case Nil
  have "segment (lh_at tab) (lt_undefs tab) ps None" "distinct ps" using Nil.prems(2) by (simp_all add: undef_chain_segment)
  then have "repair_step (pun_of ps) tab = Done (None, tab)" by (simp only: repair_step_def read_pun_ok) simp
  then show ?case using Nil.prems by (subst repair_loop.simps) (simp add: next_only_refl)
next
  case (Cons h r)
  show ?case
  proof (cases "keeps (lh_at tab) h")
    case True
    have "repair_loop (pun_of ps) tab = repair_loop (pun_of (ps @ [h])) tab"
      using repair_keeps [OF Cons.prems(2) True] by (subst repair_loop.simps) simp
    then show ?thesis using Cons.IH [of tab "ps @ [h]"] Cons.prems True by simp
  next
    case False
    obtain t where t: "repair_step (pun_of ps) tab = Done (if r = [] then None else Some (pun_of ps), t)" "link_heap t"
      "undef_chain (lh_at t) (lt_undefs t) (lt_undefs_tail t) (ps @ r)" "next_only (lh_at tab) (lh_at t)" "sym_addr t = sym_addr tab"
      using repair_drops [OF Cons.prems False] by blast
    have run: "repair_loop (pun_of ps) tab = (if r = [] then Some (Done t) else repair_loop (pun_of ps) t)"
      using t(1) by (subst repair_loop.simps) simp
    show ?thesis
    proof (cases "r = []")
      case True
      then show ?thesis using run t False by simp
    next
      case r: False
      then show ?thesis
        using run Cons.IH [OF t(2,3)] t(5) next_only_trans [OF t(4)] keeps_next_only [OF t(4)] False by auto
    qed
  qed
qed

section \<open>Properties\<close>

text \<open>C40: The test for a loop of indirect symbols covers two symbols that point at each other only.  An input file that makes a symbol
  indirect to itself makes the linker run for ever, when the name is already known, unless it has a strong definition.\<close>

theorem self_indirect_hangs:
  assumes "linked info tab sys" "quiet info" "ht_size (lt_table tab) < 4294967291"
    and "symbol_row sy = INDR_ROW" "ly_string sy = ly_name sy" "kind (state tab (ly_name sy)) \<notin> {kind S_new, kind (S_def sec v)}"
  shows "bfd_generic_link_add_one_symbol info sy None tab = None"
proof -
  obtain us where inv: "link_inv tab us" using linked_state [OF assms(1,2)] by blast
  have nl: "state tab (ly_name sy) \<noteq> S_link" using linked_state [OF assms(1,2)] resolution_not_link by simp
  obtain h where h: "sym_addr tab (ly_name sy) = Some h" using assms(6) by (cases "sym_addr tab (ly_name sy)") (auto simp: state_def)
  obtain e where e: "lh_at tab h = Some e" by (rule sym_addr_at [OF link_invD(1) [OF inv] h])
  have "typed e" using link_invD(2) [OF inv] e by (simp add: entries_ok_def)
  then have "lh_type e \<notin> {bfd_link_hash_new, bfd_link_hash_defined, bfd_link_hash_indirect, bfd_link_hash_warning}"
    using nl assms(6) h e by (auto simp: state_def state_of_def typed_def)
  note hang = self_loop [OF inv e this, of info sy]
  note look = lookup_known [OF link_invD(1) [OF inv] assms(3) h]
  show ?thesis
    using assms(2,4,5) look hang
    by (simp add: bfd_generic_link_add_one_symbol_def bfd_wrapped_link_hash_lookup_def quiet_def Let_def start_loop_def noticed_def)
qed

theorem self_indirect_hangs_witness:
  "bfd_generic_link_add_one_symbol sample_info (sample_symbol ''f'' und_section 0 True ''f'') None (after_symbol sample_ref sample_link_table) = None"
proof (rule self_indirect_hangs [OF sample_linked(1) sample_quiet, where sec = text_section and v = 0])
  show "ht_size (lt_table (after_symbol sample_ref sample_link_table)) < 4294967291" by code_simp
  show "symbol_row (sample_symbol ''f'' und_section 0 True ''f'') = INDR_ROW" by code_simp
  show "ly_string (sample_symbol ''f'' und_section 0 True ''f'') = ly_name (sample_symbol ''f'' und_section 0 True ''f'')" by (simp add: sample_symbol_def)
  show "kind (state (after_symbol sample_ref sample_link_table) (ly_name (sample_symbol ''f'' und_section 0 True ''f''))) \<notin> {kind S_new, kind (S_def text_section 0)}"
    by code_simp
qed


text \<open>C15: Repairing the list of undefined symbols ends, and takes exactly those symbols out of it that have become new or weakly undefined: what is left is
  again a list from \<open>undefs\<close> to \<open>undefs_tail\<close>, in the same order, and nothing but \<open>next\<close> pointers has changed.\<close>

theorem undef_list_repaired:
  assumes "link_heap tab" "undef_chain (lh_at tab) (lt_undefs tab) (lt_undefs_tail tab) us"
  shows "\<exists>t. bfd_link_repair_undef_list tab = Some (Done t) \<and>
    undef_chain (lh_at t) (lt_undefs t) (lt_undefs_tail t) (filter (keeps (lh_at tab)) us) \<and> next_only (lh_at tab) (lh_at t) \<and> sym_addr t = sym_addr tab"
  using repair_loop_ok [of tab "[]" us] assms unfolding bfd_link_repair_undef_list_def by auto

text \<open>A symbol that was undefined and is weakly undefined now.\<close>

definition sample_weakened :: bfd_link_hash_table where
  "sample_weakened = (let tab = after_symbol sample_ref sample_link_table; e = the (lh_at tab (the (lt_undefs tab)))
     in lh_put (e\<lparr>lh_type := bfd_link_hash_undefweak\<rparr>) tab)"

lemma sample_weakened_heap: "link_heap sample_weakened"
proof -
  let ?tab = "after_symbol sample_ref sample_link_table" let ?e = "the (lh_at ?tab (the (lt_undefs ?tab)))"
  obtain us where inv: "link_inv ?tab us" using linked_state [OF sample_linked(1) sample_quiet] by blast
  have "lh_at ?tab (the (lt_undefs ?tab)) \<noteq> None" by code_simp
  then have e: "lh_at ?tab (the (lt_undefs ?tab)) = Some ?e" by simp
  then have "lh_at ?tab (he_addr ?e) = Some ?e" using lh_at_addr [OF link_invD(1) [OF inv] e] by simp
  then show ?thesis unfolding sample_weakened_def Let_def
    by (intro lh_put_ok(1) [OF link_invD(1) [OF inv], of _ ?e]) (simp_all add: same_object_def)
qed

theorem undef_list_repaired_witness:
  "\<exists>t. bfd_link_repair_undef_list sample_weakened = Some (Done t) \<and> lt_undefs sample_weakened \<noteq> None \<and> lt_undefs t = None \<and> lt_undefs_tail t = None"
proof -
  let ?u = "the (lt_undefs sample_weakened)"
  have "lt_undefs sample_weakened = Some ?u \<and> lt_undefs_tail sample_weakened = Some ?u" by code_simp
  moreover have "(case lh_at sample_weakened ?u of None \<Rightarrow> False | Some e \<Rightarrow> lh_next e = None \<and> lh_type e = bfd_link_hash_undefweak)" by code_simp
  then obtain e where "lh_at sample_weakened ?u = Some e" "lh_next e = None" "lh_type e = bfd_link_hash_undefweak" by (auto split: option.splits)
  ultimately show ?thesis
    using undef_list_repaired [OF sample_weakened_heap, of "[?u]"] by (auto simp: undef_chain_segment keeps_def)
qed

end
