(* ===== verification/Bfd_Link_Returns.thy ===== *)
theory Bfd_Link_Returns
  imports Bfd_Link_Loop
begin

text \<open>
  \<open>_bfd_generic_link_add_one_symbol\<close> returns.  Every round of its loop succeeds, and either returns, or follows the link of an indirect or
  warning symbol and leaves all links as they are, or makes a symbol indirect and adds one link; the relation of the links is well-founded as
  long as no circle is closed.
\<close>

section \<open>Tables the loop can work on\<close>

definition solid :: "bfd_link_hash_table \<Rightarrow> bool" where
  "solid tab \<longleftrightarrow> link_heap tab \<and> entries_ok (lh_at tab) \<and> (\<forall>a. lt_undefs_tail tab = Some a \<longrightarrow> lh_at tab a \<noteq> None)"

lemma solidD:
  assumes "solid tab"
  shows "link_heap tab" "entries_ok (lh_at tab)" "lt_undefs_tail tab = Some a \<Longrightarrow> lh_at tab a \<noteq> None"
    "lh_at tab h = Some e \<Longrightarrow> typed e \<and> \<not> lh_ldscript_def e \<and> (\<forall>b. link_of e = Some b \<longrightarrow> lh_at tab b \<noteq> None)"
  using assms by (auto simp: solid_def entries_ok_def)

lemma link_inv_solid:
  assumes "link_inv tab us"
  shows "solid tab"
proof -
  note D = link_invD [OF assms]
  have "lh_at tab a \<noteq> None" if "lt_undefs_tail tab = Some a" for a
  proof -
    have "us \<noteq> []" "a = last us" using D(4) that by (auto simp: undef_chain_def split: if_splits)
    then have "length us - 1 < length us" "a = us ! (length us - 1)" by (simp_all add: last_conv_nth)
    then show ?thesis using D(4) unfolding undef_chain_def by blast
  qed
  then show ?thesis using D by (simp add: solid_def)
qed

text \<open>What a step of the loop does to the table when it leaves every link as it is.\<close>

definition same_links :: "bfd_link_hash_table \<Rightarrow> bfd_link_hash_table \<Rightarrow> bool" where
  "same_links tab tab' \<longleftrightarrow> solid tab' \<and> links (lh_at tab') = links (lh_at tab) \<and> dom (lh_at tab') = dom (lh_at tab)"

lemma same_links_trans: "same_links t t' \<Longrightarrow> same_links t' t'' \<Longrightarrow> same_links t t''"
  by (simp add: same_links_def)

lemma same_links_refl: "solid tab \<Longrightarrow> same_links tab tab"
  by (simp add: same_links_def)

lemma same_store:
  assumes "lt_table t = lt_table tab" "lt_off t = lt_off tab"
  shows "lh_at t = lh_at tab" "link_heap t = link_heap tab"
  using assms by (auto simp: lh_at_def link_heap_def fun_eq_iff)

lemma report_view: "lh_at (tell ev (lt_assert c tab)) = lh_at tab" "solid (tell ev (lt_assert c tab)) = solid tab"
    "lh_get (tell ev (lt_assert c tab)) = lh_get tab"
proof -
  show at: "lh_at (tell ev (lt_assert c tab)) = lh_at tab" by (simp add: tell_def lt_assert_def lh_at_def fun_eq_iff)
  have "link_heap (tell ev (lt_assert c tab)) = link_heap tab" by (simp add: tell_def lt_assert_def link_heap_def)
  then show "solid (tell ev (lt_assert c tab)) = solid tab" unfolding solid_def at by (simp add: tell_def lt_assert_def)
  show "lh_get (tell ev (lt_assert c tab)) = lh_get tab" using at by (simp add: lh_get_def fun_eq_iff)
qed

lemma put_view:
  assumes "link_heap tab" "lh_at tab h = Some e" "same_object e' e"
  shows "lh_at (lh_put e' tab) = (lh_at tab)(h \<mapsto> e')" "link_heap (lh_put e' tab)"
proof -
  have "he_addr e' = h" using lh_at_addr [OF assms(1,2)] assms(3) by (simp add: same_object_def)
  then show "lh_at (lh_put e' tab) = (lh_at tab)(h \<mapsto> e')" "link_heap (lh_put e' tab)"
    using lh_put_ok [OF assms(1), of e' e] assms(2,3) by simp_all
qed

lemma put_solid:
  assumes "solid tab" "lh_at tab h = Some e" "same_object e' e" "typed e'" "\<not> lh_ldscript_def e'" "\<forall>b. link_of e' = Some b \<longrightarrow> lh_at tab b \<noteq> None"
  shows "solid (lh_put e' tab)"
  using put_view [OF solidD(1) [OF assms(1)] assms(2,3)] entries_update [OF solidD(2) [OF assms(1)] assms(4-6), of h] assms(1)
  by (auto simp: solid_def lh_put_lists)

lemma put_same_links:
  assumes "solid tab" "lh_at tab h = Some e" "same_object e' e" "typed e'" "\<not> lh_ldscript_def e'" "link_of e' = link_of e"
  shows "same_links tab (lh_put e' tab)"
proof -
  have "solid (lh_put e' tab)" using put_solid [OF assms(1-5)] solidD(4) [OF assms(1,2)] assms(6) by simp
  moreover have "links ((lh_at tab)(h \<mapsto> e')) = links (lh_at tab)" using assms(2,6) by (auto simp: links_def)
  ultimately show ?thesis
    using put_view(1) [OF solidD(1) [OF assms(1)] assms(2,3)] assms(2) by (auto simp: same_links_def)
qed

section \<open>Changes that keep links\<close>

lemma mark_same_links:
  assumes "solid tab" "lh_at tab h = Some e"
  shows "\<exists>t e'. mark_referenced h tab = Done t \<and> same_links tab t \<and> lh_at t h = Some e' \<and> lh_u e' = lh_u e"
proof (cases "lh_next e = None \<and> lt_undefs_tail tab \<noteq> Some h")
  case True
  let ?e = "e\<lparr>lh_next := Some h\<rparr>"
  have same: "same_object ?e e" by (simp add: same_object_def)
  have "same_links tab (lh_put ?e tab)"
    using put_same_links [OF assms same] solidD(4) [OF assms] by (simp add: next_irrelevant)
  then show ?thesis using True assms(2) put_view(1) [OF solidD(1) [OF assms(1)] assms(2) same] by (simp add: mark_referenced_def get_at)
next
  case False
  then have "mark_referenced h tab = Done tab" using assms(2) by (auto simp: mark_referenced_def get_at)
  then show ?thesis using assms same_links_refl by blast
qed

lemma issue_same_links:
  assumes "solid tab" "lh_at tab h = Some e" "lh_u e = U_i l w"
  shows "\<exists>t e' w'. issue_warning sy h tab = Done t \<and> same_links tab t \<and> lh_at t h = Some e' \<and> lh_u e' = U_i l w'"
proof (cases "w = None \<or> lf_plugin (ly_abfd sy)")
  case True
  then have "issue_warning sy h tab = Done tab" using assms by (auto simp: issue_warning_def get_at split: option.splits)
  then show ?thesis using assms same_links_refl by blast
next
  case False
  then obtain x where x: "w = Some x" "\<not> lf_plugin (ly_abfd sy)" by auto
  let ?t = "tell (Warning x (he_string e) (Some (lf_id (ly_abfd sy)))) (lt_assert True tab)" and ?e = "e\<lparr>lh_u := U_i l None\<rparr>"
  have t: "solid ?t" "lh_at ?t h = Some e" using assms by (simp_all add: report_view)
  have same: "same_object ?e e" by (simp add: same_object_def)
  have "same_links ?t (lh_put ?e ?t)"
    using put_same_links [OF t same] solidD(4) [OF assms(1,2)] assms(3)
    by (simp add: typed_def link_of_def split: bfd_link_hash_type.splits)
  then have "same_links tab (lh_put ?e ?t)" by (simp add: same_links_def report_view)
  moreover have "issue_warning sy h tab = Done (lh_put ?e ?t)" using assms x by (simp add: issue_warning_def get_at lt_assert_def)
  ultimately show ?thesis using put_view(1) [OF solidD(1) [OF t(1)] t(2) same] by simp
qed

lemma add_undef_same_links:
  assumes "solid tab" "lh_at tab h = Some e"
  shows "\<exists>t. bfd_link_add_undef h tab = Done t \<and> same_links tab t \<and> (\<exists>x. lh_at t h = Some x \<and> lh_type x = lh_type e \<and> lh_u x = lh_u e) \<and>
    (\<forall>a x. lh_at t a = Some x \<longrightarrow> (\<exists>y. lh_at tab a = Some y \<and> lh_type x = lh_type y))"
proof -
  let ?a = "lt_assert (lh_next e = None) tab"
  let ?fin = "\<lambda>t. t\<lparr>lt_undefs := if lt_undefs t = None then Some h else lt_undefs t, lt_undefs_tail := Some h\<rparr>"
  have a: "lh_at ?a = lh_at tab" "solid ?a" "lt_undefs_tail ?a = lt_undefs_tail tab"
    using assms(1) same_store [of ?a tab] by (simp_all add: solid_def lt_assert_def)
  have fin: "lh_at (?fin t) = lh_at t" "solid t \<Longrightarrow> lh_at t h \<noteq> None \<Longrightarrow> solid (?fin t)" for t
    using same_store [of "?fin t" t] by (simp_all add: solid_def)
  have finished: ?thesis if t: "bfd_link_add_undef h tab = Done (?fin t)" "same_links tab t"
      "\<forall>b. rel_option (\<lambda>y x. lh_type x = lh_type y \<and> lh_u x = lh_u y) (lh_at tab b) (lh_at t b)" for t
  proof -
    have "lh_at t h \<noteq> None" using t(2) assms(2) by (auto simp: same_links_def dom_def)
    then have "same_links tab (?fin t)" using t(2) fin(2) [of t] fin(1) by (simp add: same_links_def)
    moreover have "\<exists>x. lh_at (?fin t) h = Some x \<and> lh_type x = lh_type e \<and> lh_u x = lh_u e"
      using t(3) [rule_format, of h] assms(2) fin(1) by (auto simp: option_rel_Some1)
    moreover have "\<exists>y. lh_at tab b = Some y \<and> lh_type x = lh_type y" if "lh_at (?fin t) b = Some x" for b x
      using t(3) [rule_format, of b] that fin(1) by (auto simp: option_rel_Some2)
    ultimately show ?thesis using t(1) by blast
  qed
  show ?thesis
  proof (cases "lt_undefs_tail tab")
    case None
    then show ?thesis using assms a by (intro finished [of ?a]) (auto simp: bfd_link_add_undef_def get_at same_links_def option.rel_refl)
  next
    case (Some b)
    then obtain x where x: "lh_at ?a b = Some x" using solidD(3) [OF assms(1)] a(1) by fastforce
    let ?x = "x\<lparr>lh_next := Some h\<rparr>"
    have same: "same_object ?x x" by (simp add: same_object_def)
    have "same_links ?a (lh_put ?x ?a)" using put_same_links [OF a(2) x same] solidD(4) [OF a(2) x] by (simp add: next_irrelevant)
    then have "same_links tab (lh_put ?x ?a)" using a(1) by (simp add: same_links_def)
    moreover have "bfd_link_add_undef h tab = Done (?fin (lh_put ?x ?a))"
      using Some assms(2) x by (simp add: bfd_link_add_undef_def get_at lh_update_def lh_put_lists)
    moreover have "lh_at (lh_put ?x ?a) = (lh_at tab)(b \<mapsto> ?x)" using put_view(1) [OF solidD(1) [OF a(2)] x same] a(1) by simp
    ultimately show ?thesis using x a(1) by (intro finished [of "lh_put ?x ?a"]) (auto simp: option.rel_refl)
  qed
qed

lemma undef_same_links:
  assumes "solid tab" "lh_at tab a = Some e" "lh_type e \<notin> {bfd_link_hash_indirect, bfd_link_hash_warning}"
  shows "\<exists>t. cbind (make_undef bfd_link_hash_undefined f a tab) (bfd_link_add_undef a) = Done t \<and> same_links tab t \<and>
    (\<forall>h x. h \<noteq> a \<longrightarrow> lh_at t h = Some x \<longrightarrow> (\<exists>y. lh_at tab h = Some y \<and> lh_type x = lh_type y))"
proof -
  let ?e = "e\<lparr>lh_type := bfd_link_hash_undefined, lh_u := U_undef (Some (lf_id f))\<rparr>"
  have same: "same_object ?e e" by (simp add: same_object_def)
  have put: "same_links tab (lh_put ?e tab)"
    using put_same_links [OF assms(1,2) same] solidD(4) [OF assms(1,2)] assms(3) by (simp add: typed_def link_of_def)
  have at: "lh_at (lh_put ?e tab) = (lh_at tab)(a \<mapsto> ?e)" by (rule put_view(1) [OF solidD(1) [OF assms(1)] assms(2) same])
  have "make_undef bfd_link_hash_undefined f a tab = Done (lh_put ?e tab)" using assms(2) by (simp add: make_undef_def lh_update_def get_at)
  moreover obtain t where "bfd_link_add_undef a (lh_put ?e tab) = Done t" "same_links (lh_put ?e tab) t"
      "\<forall>h x. lh_at t h = Some x \<longrightarrow> (\<exists>y. lh_at (lh_put ?e tab) h = Some y \<and> lh_type x = lh_type y)"
    using add_undef_same_links [of "lh_put ?e tab" a ?e] put at by (auto simp: same_links_def)
  ultimately show ?thesis using same_links_trans [OF put] at by (fastforce split: if_splits)
qed

section \<open>Steps of the loop\<close>

lemma loop_step:
  assumes "lh_at tab h = Some e" "\<not> lh_ldscript_def e" "link_action row (lh_type e) \<notin> {WARN, MWARN}"
    "link_act info sy (link_action row (lh_type e)) row h inh tab = Done (n, t)"
  shows "link_loop info sy row h inh hashp tab =
    (case n of Return ok \<Rightarrow> Some (Done (ok, hashp, t)) | Again row' h' \<Rightarrow> link_loop info sy row' h' inh hashp t)"
  using assms by (subst link_loop.simps) (simp add: get_at Let_def split: link_next.split)

lemma link_target:
  assumes "solid tab" "lh_at tab h = Some e" "lh_type e \<in> {bfd_link_hash_indirect, bfd_link_hash_warning}"
  obtains l w where "lh_u e = U_i l w" "link_of e = Some l" "(l, h) \<in> links (lh_at tab)" "lh_at tab l \<noteq> None"
proof -
  have e: "typed e" "\<forall>b. link_of e = Some b \<longrightarrow> lh_at tab b \<noteq> None" using solidD(4) [OF assms(1,2)] by simp_all
  obtain l w where l: "lh_u e = U_i l w" using e(1) assms(3) by (auto simp: typed_def)
  then have "link_of e = Some l" using assms(3) by (simp add: link_of_def)
  then show thesis using that l e(2) assms(2) by (auto simp: links_def)
qed

lemma cycle_done: "lh_at tab h = Some e \<Longrightarrow> lh_u e = U_i l w \<Longrightarrow> cycle row h tab = Done (Again row l, tab)"
  by (simp add: cycle_def get_at u_link_def)

lemma multiple_indirect_done:
  assumes "lh_at tab h = Some e" "lh_u e = U_i l w" "lh_at tab l = Some x"
  shows "\<exists>n t. multiple_indirect sy row h inh tab = Done (n, t) \<and>
    (if Some l \<noteq> inh \<and> lh_type x = bfd_link_hash_defweak then n = Again row l \<and> t = tab else n = Return True)"
  using assms by (auto simp: multiple_indirect_def get_at u_link_def)

text \<open>The actions for a symbol that is a link: they return, or follow the link and leave all links as they are.\<close>

lemma follow_done:
  assumes solid: "solid tab" and e: "lh_at tab h = Some e" "lh_type e \<in> {bfd_link_hash_indirect, bfd_link_hash_warning}"
    and action: "action \<in> {REFC, WARNC, CYCLE, MIND}"
  shows "\<exists>n t. link_act info sy action row h inh tab = Done (n, t) \<and>
    (n = Return True \<or> (\<exists>l. n = Again row l \<and> (l, h) \<in> links (lh_at tab) \<and> same_links tab t))"
proof -
  obtain l w where l: "lh_u e = U_i l w" "link_of e = Some l" "(l, h) \<in> links (lh_at tab)" "lh_at tab l \<noteq> None"
    by (rule link_target [OF solid e])
  have again: "\<exists>n t. cycle row h t1 = Done (n, t) \<and> (n = Return True \<or> (\<exists>l. n = Again row l \<and> (l, h) \<in> links (lh_at tab) \<and> same_links tab t))"
    if "same_links tab t1" "lh_at t1 h = Some e1" "lh_u e1 = U_i l w1" for t1 e1 w1
    using cycle_done [OF that(2,3)] that(1) l(3) by blast
  consider "action = REFC" | "action = WARNC" | "action = CYCLE" | "action = MIND" using action by blast
  then show ?thesis
  proof cases
    case 1
    obtain t e' where "mark_referenced h tab = Done t" "same_links tab t" "lh_at t h = Some e'" "lh_u e' = lh_u e"
      using mark_same_links [OF solid e(1)] by blast
    then show ?thesis using 1 again [of t e' w] l(1) by (simp add: link_act_def Let_def)
  next
    case 2
    obtain t e' w' where "issue_warning sy h tab = Done t" "same_links tab t" "lh_at t h = Some e'" "lh_u e' = U_i l w'"
      using issue_same_links [OF solid e(1) l(1)] by blast
    then show ?thesis using 2 again [of t e' w'] by (simp add: link_act_def Let_def)
  next
    case 3
    then show ?thesis using again [OF same_links_refl [OF solid] e(1) l(1)] by (simp add: link_act_def Let_def)
  next
    case 4
    obtain x where "lh_at tab l = Some x" using l(4) by blast
    from multiple_indirect_done [OF e(1) l(1) this, of sy row inh] show ?thesis
      using 4 same_links_refl [OF solid] l(3) by (fastforce simp: link_act_def Let_def split: if_splits)
  qed
qed

lemma make_common_done:
  assumes solid: "solid tab" and e: "lh_at tab h = Some e" and env: "env_ok info sy"
  shows "\<exists>ok t. make_common info sy h tab = Done (ok, t)"
proof -
  obtain t1 x where t1: "(if lh_type e = bfd_link_hash_new then bfd_link_add_undef h tab else Done tab) = Done t1" "solid t1" "lh_at t1 h = Some x"
    using add_undef_same_links [OF solid e] solid e by (cases "lh_type e = bfd_link_hash_new") (auto simp: same_links_def)
  obtain p t where t: "bfd_hash_allocate (lt_table t1) 16 = Done (p, t)"
    using solidD(1) [OF t1(2)] by (auto simp: link_heap_def bfd_hash_allocate_def table_alloc_def objalloc_alloc_def split: if_splits)
  have at: "lh_at (t1\<lparr>lt_table := t\<rparr>) h = Some x" using allocate_view(2) [OF solidD(1) [OF t1(2)] t] t1(3) by simp
  obtain sec where "common_section info sy = Done sec" using common_section_ok [OF env] by blast
  then show ?thesis using e t1(1) t at by (cases p) (auto simp: make_common_def get_at lh_update_def)
qed

definition terminal :: "link_action_type set" where
  "terminal = {NOACT, UND, WEAK, CDEF, DEF, DEFW, COM, REF, BIG, CREF, MDEF, SET}"

lemma terminal_done:
  assumes solid: "solid tab" and e: "lh_at tab h = Some e" and env: "env_ok info sy" and action: "action \<in> terminal"
    and types: "action = UND \<Longrightarrow> lh_type e \<notin> {bfd_link_hash_indirect, bfd_link_hash_warning}" "action = BIG \<Longrightarrow> lh_type e = bfd_link_hash_common"
  shows "\<exists>ok t. link_act info sy action row h inh tab = Done (Return ok, t)"
proof -
  have defining: "\<exists>t. define_symbol sy ty h u = Done t" if "lh_at u h = Some e" for ty u
    using env that by (auto simp: define_symbol_def get_at env_ok_def Let_def)
  have undef: "\<exists>t. cbind (make_undef bfd_link_hash_undefined (ly_abfd sy) h tab) (bfd_link_add_undef h) = Done t" if "action = UND"
    using undef_same_links [OF solid e types(1) [OF that]] by blast
  have big: "\<exists>t. enlarge_common info sy h tab = Done t" if b: "action = BIG"
  proof -
    obtain c n where "lh_u e = U_c (Some c) n" using types(2) [OF b] solidD(4) [OF solid e] by (auto simp: typed_def)
    then show ?thesis using e common_section_ok [OF env] by (auto simp: enlarge_common_def get_at Let_def)
  qed
  obtain ok t where com: "make_common info sy h tab = Done (ok, t)" using make_common_done [OF solid e env] by blast
  obtain t where ref: "mark_referenced h tab = Done t" using mark_same_links [OF solid e] by blast
  have weak: "make_undef bfd_link_hash_undefweak (ly_abfd sy) h tab = Done (lh_put (e\<lparr>lh_type := bfd_link_hash_undefweak, lh_u := U_undef (Some (lf_id (ly_abfd sy)))\<rparr>) tab)"
    using e by (simp add: make_undef_def lh_update_def get_at)
  obtain d dw where strong: "define_symbol sy bfd_link_hash_defined h tab = Done d" "define_symbol sy bfd_link_hash_defweak h tab = Done dw"
    using defining [OF e] by blast
  obtain cd where cdef: "define_symbol sy bfd_link_hash_defined h
      (tell (Multiple_common h (lf_id (ly_abfd sy)) bfd_link_hash_defined 0) (lt_assert (lh_type e = bfd_link_hash_common) tab)) = Done cd"
    using defining [of "tell (Multiple_common h (lf_id (ly_abfd sy)) bfd_link_hash_defined 0) (lt_assert (lh_type e = bfd_link_hash_common) tab)"] e
    by (auto simp: report_view)
  from action show ?thesis unfolding terminal_def
    by (elim insertE emptyE) (use undef big com ref weak strong cdef e in \<open>auto simp: link_act_def finish_def Let_def get_at\<close>)
qed

lemma row_action:
  assumes "row \<notin> {INDR_ROW, WARN_ROW}"
  shows "link_action row ty \<in> terminal \<and> (link_action row ty = UND \<longrightarrow> ty \<notin> {bfd_link_hash_indirect, bfd_link_hash_warning}) \<and>
      (link_action row ty = BIG \<longrightarrow> ty = bfd_link_hash_common) \<or>
    link_action row ty \<in> {REFC, WARNC, CYCLE, MIND} \<and> ty \<in> {bfd_link_hash_indirect, bfd_link_hash_warning}"
  using assms by (cases row; cases ty) (simp_all add: link_action_simps terminal_def)

lemma terminal_no_warning: "action \<in> terminal \<Longrightarrow> action \<notin> {WARN, MWARN}"
  by (auto simp: terminal_def)

section \<open>The loop\<close>

lemma loop_done:
  assumes "wf L" "row \<notin> {INDR_ROW, WARN_ROW}" "env_ok info sy" "solid tab" "links (lh_at tab) = L" "lh_at tab h \<noteq> None"
  shows "\<exists>r. link_loop info sy row h inh hashp tab = Some (Done r)"
  using assms
proof (induction h arbitrary: tab rule: wf_induct_rule)
  case (less h)
  obtain e where e: "lh_at tab h = Some e" "\<not> lh_ldscript_def e" using less.prems(5) solidD(4) [OF less.prems(3)] by blast
  let ?a = "link_action row (lh_type e)"
  show ?case
  proof (cases "?a \<in> terminal")
    case True
    then have types: "?a = UND \<Longrightarrow> lh_type e \<notin> {bfd_link_hash_indirect, bfd_link_hash_warning}" "?a = BIG \<Longrightarrow> lh_type e = bfd_link_hash_common"
      using row_action [OF less.prems(1), of "lh_type e"] by (auto simp: terminal_def)
    obtain ok t where "link_act info sy ?a row h inh tab = Done (Return ok, t)"
      using terminal_done [OF less.prems(3) e(1) less.prems(2) True types] by blast
    then show ?thesis using loop_step [OF e terminal_no_warning [OF True]] by simp
  next
    case False
    then have f: "?a \<in> {REFC, WARNC, CYCLE, MIND}" "lh_type e \<in> {bfd_link_hash_indirect, bfd_link_hash_warning}"
      using row_action [OF less.prems(1), of "lh_type e"] by auto
    obtain n t where t: "link_act info sy ?a row h inh tab = Done (n, t)"
        "n = Return True \<or> (\<exists>l. n = Again row l \<and> (l, h) \<in> links (lh_at tab) \<and> same_links tab t)"
      using follow_done [OF less.prems(3) e(1) f(2,1)] by blast
    have step: "link_loop info sy row h inh hashp tab =
        (case n of Return ok \<Rightarrow> Some (Done (ok, hashp, t)) | Again row' h' \<Rightarrow> link_loop info sy row' h' inh hashp t)"
      using f(1) by (intro loop_step [OF e _ t(1)]) auto
    show ?thesis using t(2)
    proof
      assume "\<exists>l. n = Again row l \<and> (l, h) \<in> links (lh_at tab) \<and> same_links tab t"
      then obtain l where l: "n = Again row l" "(l, h) \<in> L" "same_links tab t" using less.prems(4) by blast
      have "lh_at tab l \<noteq> None" using l(2) less.prems(4) solidD(4) [OF less.prems(3)] by (fastforce simp: links_def)
      then have "lh_at t l \<noteq> None" using l(3) by (auto simp: same_links_def dom_def)
      then show ?thesis using less.IH [OF l(2) less.prems(1,2), of t] l(3) less.prems(4) step l(1) by (simp add: same_links_def)
    qed (simp add: step, blast)
  qed
qed

lemma hash_entry_bfd_done:
  assumes "wf (links (lh_at tab))" "solid tab" "lh_at tab h \<noteq> None"
  shows "\<exists>f. hash_entry_bfd tab h = Some (Done f)"
  using assms(1,3)
proof (induction h rule: wf_induct_rule)
  case (less h)
  then obtain e where e: "lh_at tab h = Some e" by blast
  show ?case
  proof (cases "lh_type e = bfd_link_hash_warning")
    case True
    then obtain l w where "lh_u e = U_i l w" "(l, h) \<in> links (lh_at tab)" "lh_at tab l \<noteq> None" using link_target [OF assms(2) e] by blast
    then show ?thesis using less.IH True e by (subst hash_entry_bfd.simps) (simp add: get_at)
  next
    case False
    have "typed e" using solidD(4) [OF assms(2) e] by simp
    then have "\<exists>f. entry_bfd e = Done f" using False by (cases "lh_type e") (auto simp: typed_def entry_bfd_def)
    then show ?thesis using False e by (subst hash_entry_bfd.simps) (simp add: get_at)
  qed
qed

lemma chain_of_entry:
  assumes "hash_ok t" "e \<in> set (ht_entries t)"
  shows "e \<in> set (ht_table t ! slot (he_hash e) (ht_size t))"
proof -
  have slots: "slots_ok (ht_size t) (ht_table t)" using assms(1) by (simp add: hash_ok_def)
  obtain k where k: "k < length (ht_table t)" "e \<in> set (ht_table t ! k)"
    using assms(2) by (auto simp: ht_entries_def in_set_conv_nth [of _ "ht_table t"])
  then show ?thesis using slots_okD [OF slots k] by simp
qed

lemma make_warning_done:
  assumes "link_heap tab" "lh_at tab h = Some e" "e \<in> set (ht_entries (lt_table tab))" "copy_fits (ly_copy sy) (ly_string sy)"
  shows "\<exists>r. make_warning sy h tab = Done r"
proof -
  let ?t = "lt_table tab"
  obtain m where m: "ht_memory ?t = Some m" and ok: "hash_ok ?t" using assms(1) by (auto simp: link_heap_def)
  obtain q t where q: "bfd_link_hash_newfunc None ?t (he_string e) = Done (q, t)" using link_hash.returned [OF m] by blast
  obtain m1 where t: "t = ?t\<lparr>ht_memory := Some m1\<rparr>"
    using q link_hash.made [OF m] link_hash.failed [OF m] by (cases q) blast+
  let ?alloc = "if ly_copy sy then bfd_hash_allocate t (of_nat (length (ly_string sy) + 1)) else Done (Some 0, t)"
  obtain w t2 m2 where w: "?alloc = Done (w, t2)" "t2 = ?t\<lparr>ht_memory := Some m2\<rparr>"
    by (cases "ly_copy sy") (auto simp: t bfd_hash_allocate_def table_alloc_def objalloc_alloc_def split: if_splits)
  have "list_ex (\<lambda>x. he_addr x = he_addr e) (ht_table t2 ! slot (he_hash e) (ht_size t2))"
    using chain_of_entry [OF ok assms(3)] w(2) by (auto simp: list_ex_iff)
  moreover have "ht_size t2 \<noteq> 0" "ht_memory t2 \<noteq> None" using ok w(2) by (simp_all add: hash_ok_def)
  ultimately have "bfd_hash_replace t2 e sub rest = Done (t2\<lparr>ht_table := (ht_table t2)[slot (he_hash e) (ht_size t2) :=
      takeWhile (\<lambda>x. he_addr x \<noteq> he_addr e) (ht_table t2 ! slot (he_hash e) (ht_size t2)) @ sub # rest]\<rparr>)" for sub rest
    by (simp add: bfd_hash_replace_def Let_def)
  note replace = this
  have fits: "\<not> (ly_copy sy \<and> \<not> memcpy_fits (of_nat (length (ly_string sy) + 1)) (length (ly_string sy) + 1))"
    using assms(4) memcpy_fits_len [of "ly_string sy"] by (auto simp: copy_fits_def bfd_hash_hash_def Let_def add.commute)
  show ?thesis
  proof (cases q)
    case None
    then show ?thesis using assms(2) q by (auto simp: make_warning_def get_at)
  next
    case (Some new)
    show ?thesis
      unfolding make_warning_def get_at [OF assms(2)] cbind_simps q prod.case Some option.case Let_def w(1) replace if_not_P [OF fits]
      by (cases w) auto
  qed
qed

lemma warning_done:
  assumes "wf (links (lh_at tab))" "solid tab" "lh_at tab h = Some e" "e \<in> set (ht_entries (lt_table tab))" "copy_fits (ly_copy sy) (ly_string sy)"
  shows "\<exists>r. link_loop info sy WARN_ROW h inh hashp tab = Some (Done r)"
proof -
  obtain f where f: "hash_entry_bfd tab h = Some (Done f)" using hash_entry_bfd_done [OF assms(1,2)] assms(3) by blast
  obtain r where r: "make_warning sy h tab = Done r" using make_warning_done [OF solidD(1) [OF assms(2)] assms(3-5)] by blast
  have warn: "\<exists>r. link_warn info sy action h hashp tab = Some (Done r)" for action
    using assms(3) f r by (cases r) (auto simp: link_warn_def get_at Let_def)
  have e: "\<not> lh_ldscript_def e" using solidD(4) [OF assms(2,3)] by simp
  show ?thesis
  proof (cases "lh_type e = bfd_link_hash_warning")
    case True
    then have "link_action WARN_ROW (lh_type e) = NOACT" by (simp add: link_action_simps)
    then show ?thesis using assms(3) e by (subst link_loop.simps) (simp add: get_at Let_def link_act_def, blast)
  next
    case False
    then have "link_action WARN_ROW (lh_type e) \<in> {WARN, MWARN}" by (cases "lh_type e") (simp_all add: link_action_simps)
    then show ?thesis using assms(3) e warn by (subst link_loop.simps) (auto simp: get_at Let_def)
  qed
qed

section \<open>Indirect symbols\<close>

text \<open>The links the loop follows when it is to make a symbol an indirect one to \<open>i\<close>: those of warnings, and of an indirect symbol to a weak
  definition other than \<open>i\<close>.\<close>

definition passed :: "bfd_link_hash_table \<Rightarrow> nat \<Rightarrow> (nat \<times> nat) set" where
  "passed tab i = {(b, a). \<exists>e. lh_at tab a = Some e \<and> link_of e = Some b \<and>
     (lh_type e = bfd_link_hash_warning \<or> b \<noteq> i \<and> (\<exists>x. lh_at tab b = Some x \<and> lh_type x = bfd_link_hash_defweak))}"

definition refused :: "bfd_link_hash_table \<Rightarrow> nat \<Rightarrow> nat \<Rightarrow> bool" where
  "refused tab i x \<longleftrightarrow> (\<exists>e. lh_at tab i = Some e \<and> lh_type e = bfd_link_hash_indirect \<and> link_of e = Some x)"

text \<open>Making \<open>h\<close> an indirect symbol to \<open>i\<close> closes a circle that the code does not notice, and goes around in it: the symbol \<open>x\<close> that is to become the
  indirect one is \<open>i\<close> itself, or it is in use and \<open>i\<close> leads to it, not by a single link, which is refused.\<close>

definition closes_circle :: "bfd_link_hash_table \<Rightarrow> nat \<Rightarrow> nat \<Rightarrow> bool" where
  "closes_circle tab h i \<longleftrightarrow> (\<exists>x e. (x, h) \<in> (passed tab i)\<^sup>* \<and> lh_at tab x = Some e \<and> lh_type e \<notin> {bfd_link_hash_indirect, bfd_link_hash_warning} \<and>
     (x = i \<or> lh_type e \<noteq> bfd_link_hash_new \<and> (x, i) \<in> (links (lh_at tab))\<^sup>* \<and> \<not> refused tab i x))"

lemma passed_links: "passed tab i \<subseteq> links (lh_at tab)"
  by (auto simp: passed_def links_def)

lemma indirect_done:
  assumes solid: "solid tab" and e: "lh_at tab h = Some e" "lh_type e \<notin> {bfd_link_hash_indirect, bfd_link_hash_warning}"
    and i: "lh_at tab i = Some x" "h \<noteq> i"
  shows "\<exists>n t. make_indirect sy row h i tab = Done (n, t) \<and>
    (n \<in> range Return \<or> n = Again UNDEF_ROW h \<and> lh_type e \<noteq> bfd_link_hash_new \<and> \<not> refused tab i h \<and> solid t \<and> lh_at t h \<noteq> None \<and>
       links (lh_at t) \<subseteq> insert (i, h) (links (lh_at tab)))"
proof -
  have loop: "(if lh_type x = bfd_link_hash_indirect then cbind (u_link x) (\<lambda>l. Done (l = h)) else Done False) = Done (refused tab i h)"
  proof (cases "lh_type x = bfd_link_hash_indirect")
    case True
    then obtain l w where "lh_u x = U_i l w" "link_of x = Some l" using link_target [OF solid i(1)] by blast
    then show ?thesis using True i(1) by (simp add: u_link_def refused_def)
  qed (use i(1) in \<open>simp add: refused_def\<close>)
  show ?thesis
  proof (cases "refused tab i h")
    case True
    then show ?thesis using i(1) loop by (auto simp: make_indirect_def get_at)
  next
    case False
    let ?u = "if lh_type x = bfd_link_hash_new then cbind (make_undef bfd_link_hash_undefined (ly_abfd sy) i tab) (bfd_link_add_undef i) else Done tab"
    obtain t1 where t1: "?u = Done t1" "same_links tab t1"
        "\<forall>a y. a \<noteq> i \<longrightarrow> lh_at t1 a = Some y \<longrightarrow> (\<exists>z. lh_at tab a = Some z \<and> lh_type y = lh_type z)"
      using undef_same_links [OF solid i(1), of "ly_abfd sy"] same_links_refl [OF solid]
      by (cases "lh_type x = bfd_link_hash_new") auto
    have dom: "lh_at t1 a \<noteq> None \<longleftrightarrow> lh_at tab a \<noteq> None" for a using t1(2) by (auto simp: same_links_def dom_def)
    obtain e1 where e1: "lh_at t1 h = Some e1" using dom [of h] e(1) by blast
    then have ty: "lh_type e1 = lh_type e" using t1(3) i(2) e(1) by fastforce
    let ?e = "e1\<lparr>lh_type := bfd_link_hash_indirect, lh_u := U_i i None\<rparr>"
    have same: "same_object ?e e1" by (simp add: same_object_def)
    have solid1: "solid t1" using t1(2) by (simp add: same_links_def)
    have at: "lh_at (lh_put ?e t1) = (lh_at t1)(h \<mapsto> ?e)" by (rule put_view(1) [OF solidD(1) [OF solid1] e1 same])
    have "solid (lh_put ?e t1)"
      using put_solid [OF solid1 e1 same] solidD(4) [OF solid1 e1] dom [of i] i(1) by (simp add: typed_def link_of_def)
    moreover have "links ((lh_at t1)(h \<mapsto> ?e)) \<subseteq> insert (i, h) (links (lh_at t1))" by (auto simp: links_def link_of_def split: if_splits)
    moreover have "make_indirect sy row h i tab = Done (if lh_type e \<noteq> bfd_link_hash_new then Again UNDEF_ROW h else Return True, lh_put ?e t1)"
      unfolding make_indirect_def get_at [OF i(1)] cbind_simps loop t1(1) get_at [OF e1] Let_def ty using False by simp
    ultimately show ?thesis using False t1(2) at by (auto simp: same_links_def)
  qed
qed

lemma indirect_loop_done:
  assumes wf: "wf (links (lh_at tab))" and solid: "solid tab" and env: "env_ok info sy" and i: "lh_at tab i = Some x"
    and h: "lh_at tab h \<noteq> None" "\<not> closes_circle tab h i"
  shows "\<exists>r. link_loop info sy INDR_ROW h (Some i) hashp tab = Some (Done r)"
  using wf h
proof (induction h rule: wf_induct_rule)
  case (less h)
  obtain e where e: "lh_at tab h = Some e" "\<not> lh_ldscript_def e" using less.prems(1) solidD(4) [OF solid] by blast
  let ?a = "link_action INDR_ROW (lh_type e)"
  have on: "\<exists>r. link_loop info sy INDR_ROW l (Some i) hashp tab = Some (Done r)" if "(l, h) \<in> passed tab i" "lh_at tab l \<noteq> None" for l
  proof -
    have "\<not> closes_circle tab l i" using less.prems(2) rtrancl_trans [OF _ r_into_rtrancl [OF that(1)]] unfolding closes_circle_def by blast
    then show ?thesis using less.IH [of l] that passed_links by blast
  qed
  consider (warning) "lh_type e = bfd_link_hash_warning" | (indirect) "lh_type e = bfd_link_hash_indirect" | (defined) "lh_type e = bfd_link_hash_defined"
    | (rest) "lh_type e \<notin> {bfd_link_hash_indirect, bfd_link_hash_warning, bfd_link_hash_defined}" by blast
  then show ?case
  proof cases
    case warning
    obtain l w where l: "lh_u e = U_i l w" "link_of e = Some l" "lh_at tab l \<noteq> None" using link_target [OF solid e(1)] warning by blast
    have a: "?a = CYCLE" using warning by (simp add: link_action_simps)
    have "(l, h) \<in> passed tab i" using e(1) l(2) warning by (simp add: passed_def)
    then show ?thesis
      using on l(3) loop_step [OF e, of INDR_ROW info sy "Some i" "Again INDR_ROW l" tab] cycle_done [OF e(1) l(1), of INDR_ROW] a
      by (simp add: link_act_def Let_def)
  next
    case indirect
    obtain l w where l: "lh_u e = U_i l w" "link_of e = Some l" "lh_at tab l \<noteq> None" using link_target [OF solid e(1)] indirect by blast
    obtain y where y: "lh_at tab l = Some y" using l(3) by blast
    have a: "?a = MIND" using indirect by (simp add: link_action_simps)
    obtain n t where t: "multiple_indirect sy INDR_ROW h (Some i) tab = Done (n, t)"
        "if Some l \<noteq> Some i \<and> lh_type y = bfd_link_hash_defweak then n = Again INDR_ROW l \<and> t = tab else n = Return True"
      using multiple_indirect_done [OF e(1) l(1) y] by blast
    have step: "link_loop info sy INDR_ROW h (Some i) hashp tab =
        (case n of Return ok \<Rightarrow> Some (Done (ok, hashp, t)) | Again row' h' \<Rightarrow> link_loop info sy row' h' (Some i) hashp t)"
      using a t(1) by (intro loop_step [OF e]) (simp_all add: link_act_def Let_def)
    show ?thesis
    proof (cases "l \<noteq> i \<and> lh_type y = bfd_link_hash_defweak")
      case True
      then have "(l, h) \<in> passed tab i" using e(1) l(2) y by (simp add: passed_def)
      then show ?thesis using on l(3) step t(2) True by simp
    next
      case False
      then show ?thesis using step t(2) by (auto split: if_splits)
    qed
  next
    case defined
    then have "link_act info sy ?a INDR_ROW h (Some i) tab =
        Done (Return True, tell (Multiple_definition h (lf_id (ly_abfd sy)) (ly_section sy) (ly_value sy)) tab)" "?a \<notin> {WARN, MWARN}"
      by (simp_all add: link_action_simps link_act_def Let_def)
    then show ?thesis using loop_step [OF e] by auto
  next
    case rest
    then have nl: "lh_type e \<notin> {bfd_link_hash_indirect, bfd_link_hash_warning}" by blast
    have "(h, h) \<in> (passed tab i)\<^sup>*" by simp
    then have open': "h \<noteq> i" "lh_type e = bfd_link_hash_new \<or> (h, i) \<notin> (links (lh_at tab))\<^sup>* \<or> refused tab i h"
      using less.prems(2) e(1) nl unfolding closes_circle_def by blast+
    define t0 where "t0 = (if lh_type e = bfd_link_hash_common
      then tell (Multiple_common h (lf_id (ly_abfd sy)) bfd_link_hash_indirect 0) (lt_assert True tab) else tab)"
    have t0: "lh_at t0 = lh_at tab" "solid t0" "refused t0 i h = refused tab i h" using solid by (simp_all add: t0_def report_view refused_def)
    have act: "link_act info sy ?a INDR_ROW h (Some i) tab = make_indirect sy INDR_ROW h i t0" "?a \<notin> {WARN, MWARN}"
      using rest e(1) by (cases "lh_type e"; simp add: link_action_simps link_act_def Let_def t0_def get_at)+
    obtain n t where t: "make_indirect sy INDR_ROW h i t0 = Done (n, t)"
        "n \<in> range Return \<or> n = Again UNDEF_ROW h \<and> lh_type e \<noteq> bfd_link_hash_new \<and> \<not> refused t0 i h \<and> solid t \<and> lh_at t h \<noteq> None \<and>
          links (lh_at t) \<subseteq> insert (i, h) (links (lh_at tab))"
      using indirect_done [OF t0(2) _ nl _ open'(1), of x sy INDR_ROW] e(1) i t0(1) by auto
    have step: "link_loop info sy INDR_ROW h (Some i) hashp tab =
        (case n of Return ok \<Rightarrow> Some (Done (ok, hashp, t)) | Again row' h' \<Rightarrow> link_loop info sy row' h' (Some i) hashp t)"
      using act t(1) by (intro loop_step [OF e]) simp_all
    show ?thesis using t(2)
    proof
      assume again: "n = Again UNDEF_ROW h \<and> lh_type e \<noteq> bfd_link_hash_new \<and> \<not> refused t0 i h \<and> solid t \<and> lh_at t h \<noteq> None \<and>
          links (lh_at t) \<subseteq> insert (i, h) (links (lh_at tab))"
      then have "(h, i) \<notin> (links (lh_at tab))\<^sup>*" using open'(2) t0(3) by blast
      then have "wf (links (lh_at t))" using wf again wf_subset [of "insert (i, h) (links (lh_at tab))"] by (simp add: wf_insert)
      then show ?thesis using loop_done [OF _ _ env, of "links (lh_at t)" UNDEF_ROW t h] again step by simp
    qed (auto simp: step)
  qed
qed

section \<open>Adding a symbol returns\<close>

lemma grow_small:
  assumes "hash_grow t = Done t'" "ht_size t < 2147483647"
  shows "ht_size t' < 4294967291"
proof -
  have "(2147483647 :: u32) < 4294967291" by simp
  then have small: "ht_size t < 4294967291" using assms(2) by (rule_tac less_trans)
  then obtain p where p: "higher_prime_number (ht_size t) = Done p" "p \<le> 2147483647"
    using higher_prime_number_spec [of "ht_size t"] assms(2) by (auto simp: primes_def)
  have "p < 4294967291" by (rule le_less_trans [OF p(2)]) simp
  then show ?thesis
    using assms(1) p(1) small by (auto simp: hash_grow_def Let_def table_alloc_def cbind_Done split: if_splits option.splits prod.splits)
qed

lemma lookup_small:
  assumes "bfd_hash_lookup bfd_link_hash_newfunc t s create copy = Done (r, t')" "ht_size t < 2147483647"
  shows "ht_size t' < 4294967291"
proof -
  have small: "ht_size t < 4294967291" by (rule less_trans [OF assms(2)]) simp
  have insert: "ht_size v < 4294967291" if "bfd_hash_insert bfd_link_hash_newfunc u s h = Done (q, v)" "ht_size u = ht_size t" for u v h q
    using that small assms(2) grow_small
    by (fastforce simp: bfd_hash_insert_def bfd_link_hash_newfunc_def Let_def cbind_Done hash_link_def bfd_hash_allocate_def table_alloc_def split: option.splits prod.splits if_splits)
  show ?thesis
    using assms(1) small insert
    by (fastforce simp: bfd_hash_lookup_def Let_def table_alloc_def cbind_Done split: option.splits prod.splits if_splits)
qed

lemma found_links:
  assumes "link_inv tab us" "found tab s r tab'"
  shows "link_heap tab'" "links (lh_at tab') = links (lh_at tab)"
proof -
  show "link_heap tab'" using assms(2) by (simp add: found_def)
  have "links (H(a \<mapsto> e)) = links H" if "H a = None" "link_of e = None" for H a e
    using that by (auto simp: links_def)
  moreover have "link_of e = None" if "pristine e" for e using that by (simp add: link_of_def pristine_def)
  ultimately show "links (lh_at tab') = links (lh_at tab)"
    using assms(2) by (auto simp: found_def split: option.splits if_splits)
qed

lemma unlinked:
  assumes "entries_ok H" "H a = None"
  shows "(x, a) \<in> (links H)\<^sup>* \<Longrightarrow> x = a" "(a, x) \<in> (links H)\<^sup>* \<Longrightarrow> x = a"
proof -
  have "(a, y) \<notin> links H" "(y, a) \<notin> links H" for y using assms by (fastforce simp: links_def entries_ok_def)+
  then show "(x, a) \<in> (links H)\<^sup>* \<Longrightarrow> x = a" "(a, x) \<in> (links H)\<^sup>* \<Longrightarrow> x = a"
    by (auto elim: rtranclE converse_rtranclE)
qed


text \<open>Looking the two names up makes entries that lead nowhere, so no circle is closed that was not there to be closed.\<close>

lemma found_entry: "link_heap tab' \<Longrightarrow> found tab s (Some a) tab' \<Longrightarrow> sym_addr tab' s = Some a \<and> lh_at tab' a \<noteq> None"
proof -
  assume "link_heap tab'" "found tab s (Some a) tab'"
  moreover from this have "sym_addr tab' s = Some a" by (auto simp: found_def split: if_splits)
  ultimately show ?thesis using sym_addr_at by blast
qed

lemma still_open:
  assumes inv: "link_inv tab us" and i: "found tab s (Some i) t1" and h: "found t1 n (Some h) t2" and names: "s \<noteq> n"
    and open': "\<And>a b. sym_addr tab n = Some a \<Longrightarrow> sym_addr tab s = Some b \<Longrightarrow> \<not> closes_circle tab a b"
  shows "\<not> closes_circle t2 h i"
proof -
  have inv1: "link_inv t1 us" by (rule found_inv(1) [OF inv i])
  have heap: "link_heap tab" "link_heap t1" "link_heap t2" using link_invD(1) [OF inv] i h by (simp_all add: found_def)
  have n1: "sym_addr t1 n = sym_addr tab n" using i names by (auto simp: found_def split: if_splits)
  have at1: "lh_at t1 i \<noteq> None" using found_entry [OF heap(2) i] by simp
  show ?thesis
  proof (cases "sym_addr tab n")
    case None
    then have fresh: "lh_at t1 h = None" using h n1 by (auto simp: found_def split: if_splits)
    obtain e where e: "lh_at t2 = (lh_at t1)(h \<mapsto> e)" "pristine e" using h n1 None by (auto simp: found_def split: if_splits)
    have ne: "h \<noteq> i" using fresh at1 by auto
    have "(x, h) \<notin> passed t2 i" for x using e by (auto simp: passed_def link_of_def pristine_def)
    then have "x = h" if "(x, h) \<in> (passed t2 i)\<^sup>*" for x using that by (auto elim: rtranclE)
    then show ?thesis using e ne by (auto simp: closes_circle_def pristine_def)
  next
    case (Some a)
    then have a: "a = h" "t2 = t1" using h n1 by (auto simp: found_def split: if_splits)
    have ath: "lh_at tab h \<noteq> None" using sym_addr_at [OF heap(1) Some] a by blast
    show ?thesis
    proof (cases "sym_addr tab s")
      case None
      then have fresh: "lh_at tab i = None" using i by (auto simp: found_def split: if_splits)
      obtain e where e: "lh_at t1 = (lh_at tab)(i \<mapsto> e)" "pristine e" using i None by (auto simp: found_def split: if_splits)
      have lnk: "links (lh_at t1) = links (lh_at tab)" using found_links [OF inv i] by simp
      note un = unlinked [OF link_invD(2) [OF inv] fresh, folded lnk]
      have "x \<noteq> i" if "(x, h) \<in> (passed t1 i)\<^sup>*" for x
      proof
        assume "x = i"
        then have "(i, h) \<in> (links (lh_at t1))\<^sup>*" using that rtrancl_mono [OF passed_links, of t1 i] by blast
        from un(2) [OF this] show False using fresh ath by simp
      qed
      moreover have "x = i" if "(x, i) \<in> (links (lh_at t1))\<^sup>*" for x using un(1) that by blast
      ultimately show ?thesis using a(2) by (auto simp: closes_circle_def)
    next
      case known: (Some b)
      then have "b = i" "t1 = tab" using i by (auto simp: found_def split: if_splits)
      then show ?thesis using open' [OF Some known] a by simp
    qed
  qed
qed

lemma lookup_again:
  assumes inv: "link_inv tab us" and size: "ht_size (lt_table tab) < 2147483647" and fits: "copy_fits copy s"
  obtains r t where "bfd_link_hash_lookup tab s True copy False = Some (Done (r, t))" "found tab s r t" "ht_size (lt_table t) < 4294967291"
proof -
  have small: "ht_size (lt_table tab) < 4294967291" by (rule less_trans [OF size]) simp
  obtain r t where t: "bfd_link_hash_lookup tab s True copy False = Some (Done (r, t))" "found tab s r t"
    using link_lookup_found [OF link_invD(1) [OF inv] small, of s copy] fits by blast
  then obtain q where "bfd_hash_lookup bfd_link_hash_newfunc (lt_table tab) s True copy = Done (q, lt_table t)"
    by (cases "bfd_hash_lookup bfd_link_hash_newfunc (lt_table tab) s True copy")
       (auto simp: bfd_link_hash_lookup_def Let_def split: option.splits)
  then show thesis using that t lookup_small [OF _ size] by blast
qed

lemma quiet_run:
  assumes "quiet info"
  shows "start_loop info sy row h inh hashp tab = link_loop info sy row h inh (Some h) tab"
    "bfd_wrapped_link_hash_lookup abfd info s create copy follow tab = bfd_link_hash_lookup tab s create copy follow"
  using assms by (simp_all add: quiet_def start_loop_def noticed_def bfd_wrapped_link_hash_lookup_def)

text \<open>What is asked of the symbol: sections can be made, constructors are not to be collected under its name, and its strings can be copied.\<close>

definition acceptable :: "bfd_link_info \<Rightarrow> link_symbol \<Rightarrow> bool" where
  "acceptable info sy \<longleftrightarrow> env_ok info sy \<and> copy_fits (ly_copy sy) (ly_name sy) \<and> copy_fits (ly_copy sy) (ly_string sy)"

lemma add_other_returns:
  assumes inv: "link_inv tab us" and "quiet info" and sy: "acceptable info sy" and size: "ht_size (lt_table tab) < 2147483647"
    and row: "symbol_row sy \<noteq> INDR_ROW"
  shows "\<exists>r. bfd_generic_link_add_one_symbol info sy None tab = Some (Done r)"
proof -
  define tab0 where "tab0 = (if symbol_row sy = COMMON_ROW \<and> \<not> li_relocatable info \<and> lto_slim (ly_name sy) then tell (Lto_needed (lf_id (ly_abfd sy))) tab else tab)"
  have inv0: "link_inv tab0 us" "ht_size (lt_table tab0) < 2147483647" using inv size by (simp_all add: tab0_def tell_view) (simp add: tell_def)
  have fits: "copy_fits (ly_copy sy) (ly_name sy)" "copy_fits (ly_copy sy) (ly_string sy)" "env_ok info sy" using sy by (simp_all add: acceptable_def)
  obtain r t where t: "bfd_link_hash_lookup tab0 (ly_name sy) True (ly_copy sy) False = Some (Done (r, t))" "found tab0 (ly_name sy) r t"
    by (rule lookup_again [OF inv0 fits(1)])
  have run: "bfd_generic_link_add_one_symbol info sy None tab =
      (case r of None \<Rightarrow> Some (Done (False, None, t)) | Some h \<Rightarrow> link_loop info sy (symbol_row sy) h None (Some h) t)"
    unfolding bfd_generic_link_add_one_symbol_def Let_def quiet_run [OF \<open>quiet info\<close>] using t(1) row by (simp add: tab0_def)
  show ?thesis
  proof (cases r)
    case (Some h)
    have invt: "link_inv t us" using found_inv(1) [OF inv0(1)] t(2) Some by simp
    have solid: "solid t" by (rule link_inv_solid [OF invt])
    have h: "sym_addr t (ly_name sy) = Some h" using found_entry [OF solidD(1) [OF solid]] t(2) Some by blast
    obtain e where e: "lh_at t h = Some e" "e \<in> set (ht_entries (lt_table t))" by (rule sym_addr_at [OF solidD(1) [OF solid] h])
    show ?thesis
    proof (cases "symbol_row sy = WARN_ROW")
      case True
      then show ?thesis using warning_done [OF link_invD(3) [OF invt] solid e fits(2)] run Some by simp
    next
      case False
      then show ?thesis using loop_done [OF link_invD(3) [OF invt] _ fits(3) solid refl, of "symbol_row sy" h] row e(1) run Some by simp
    qed
  qed (use run in auto)
qed

lemma add_indirect_returns:
  assumes inv: "link_inv tab us" and "quiet info" and sy: "acceptable info sy" and size: "ht_size (lt_table tab) < 2147483647"
    and row: "symbol_row sy = INDR_ROW" and names: "ly_string sy \<noteq> ly_name sy"
    and open': "\<And>a b. sym_addr tab (ly_name sy) = Some a \<Longrightarrow> sym_addr tab (ly_string sy) = Some b \<Longrightarrow> \<not> closes_circle tab a b"
  shows "\<exists>r. bfd_generic_link_add_one_symbol info sy None tab = Some (Done r)"
proof -
  have fits: "copy_fits (ly_copy sy) (ly_name sy)" "copy_fits (ly_copy sy) (ly_string sy)" "env_ok info sy" using sy by (simp_all add: acceptable_def)
  obtain r t where t: "bfd_link_hash_lookup tab (ly_string sy) True (ly_copy sy) False = Some (Done (r, t))" "found tab (ly_string sy) r t"
      "ht_size (lt_table t) < 4294967291"
    by (rule lookup_again [OF inv size fits(2)])
  have run: "bfd_generic_link_add_one_symbol info sy None tab = (if r = None then Some (Done (False, None, t))
      else rbind (bfd_link_hash_lookup t (ly_name sy) True (ly_copy sy) False) (\<lambda>(q, t). case q of None \<Rightarrow> Some (Done (False, None, t))
        | Some h \<Rightarrow> link_loop info sy INDR_ROW h r (Some h) t))"
    unfolding bfd_generic_link_add_one_symbol_def Let_def quiet_run [OF \<open>quiet info\<close>] row using t(1) by simp
  show ?thesis
  proof (cases r)
    case (Some i)
    have inv1: "link_inv t us" using found_inv(1) [OF inv] t(2) Some by simp
    obtain q t2 where t2: "bfd_link_hash_lookup t (ly_name sy) True (ly_copy sy) False = Some (Done (q, t2))" "found t (ly_name sy) q t2"
      using link_lookup_found [OF link_invD(1) [OF inv1] t(3)] fits(1) by blast
    show ?thesis
    proof (cases q)
      case q: (Some h)
      have inv2: "link_inv t2 us" using found_inv(1) [OF inv1] t2(2) q by simp
      have solid: "solid t2" by (rule link_inv_solid [OF inv2])
      have "lh_at t i \<noteq> None" using found_entry [OF link_invD(1) [OF inv1]] t(2) Some by blast
      then obtain x where x: "lh_at t2 i = Some x" using t2(2) q by (fastforce simp: found_def split: if_splits)
      have h: "lh_at t2 h \<noteq> None" using found_entry [OF solidD(1) [OF solid]] t2(2) q by blast
      have "\<not> closes_circle t2 h i" using still_open [OF inv _ _ names open'] t(2) t2(2) Some q by blast
      then show ?thesis
        using indirect_loop_done [OF link_invD(3) [OF inv2] solid fits(3) x h] run t2(1) Some q by simp
    qed (use run t2(1) Some in auto)
  qed (use run in auto)
qed

section \<open>Properties\<close>

text \<open>C13: \<open>_bfd_generic_link_add_one_symbol\<close> returns, with success or failure and without undefined behaviour or \<open>abort\<close>, for a symbol of any
  kind (undefined, weak, defined, common, indirect, warning, member of a set) and whatever allocations fail, in a table whose links lead in
  no circle.  The linker has no \<open>--wrap\<close> names and notices no symbols, sections for common symbols can be made, the strings can be copied and the
  hash table can grow.  The one exception is an indirect symbol of which the two names are the same or that closes a circle: the symbol that is
  to become indirect, the one the first name stands for after warnings and an indirect link to a weak definition are passed, is the second
  one itself, or is in use already and the second leads to it over more than one link.\<close>

theorem add_symbol_returns:
  assumes "link_inv tab us" "quiet info" "acceptable info sy" "ht_size (lt_table tab) < 2147483647"
    and "symbol_row sy = INDR_ROW \<longrightarrow> ly_string sy \<noteq> ly_name sy \<and>
      (\<forall>a b. sym_addr tab (ly_name sy) = Some a \<longrightarrow> sym_addr tab (ly_string sy) = Some b \<longrightarrow> \<not> closes_circle tab a b)"
  shows "\<exists>ok hashp tab'. bfd_generic_link_add_one_symbol info sy None tab = Some (Done (ok, hashp, tab'))"
  using add_other_returns [OF assms(1-4)] add_indirect_returns [OF assms(1-4)] assms(5) by fastforce

theorem add_symbol_returns_witness:
  "\<exists>ok hashp tab'. bfd_generic_link_add_one_symbol sample_info (sample_symbol ''f'' und_section 0 True ''g'') None
    (after_symbol sample_ref sample_link_table) = Some (Done (ok, hashp, tab'))"
proof -
  obtain us where inv: "link_inv (after_symbol sample_ref sample_link_table) us" using linked_state [OF sample_linked(1) sample_quiet] by blast
  have "sym_addr (after_symbol sample_ref sample_link_table) ''g'' = None" by code_simp
  moreover have "ht_size (lt_table (after_symbol sample_ref sample_link_table)) < 2147483647" by code_simp
  moreover have "acceptable sample_info (sample_symbol ''f'' und_section 0 True ''g'')"
    by (simp add: acceptable_def env_ok_def sample_info_def sample_symbol_def copy_fits_def)
  ultimately show ?thesis using add_symbol_returns [OF inv sample_quiet] by (simp add: sample_symbol_def)
qed

end
