(* ===== verification/Bfd_Cache.thy ===== *)
theory Bfd_Cache
  imports Bfd_Base
begin

text \<open>
  The cache of open files, \<open>tooling/bfd-scrape/bfd/cache.c\<close>: files that are in use are on a ring in the order of their last use, and when too many
  are open the least recently used one is closed, its position remembered, and opened again when it is needed.  The structures \<open>bfd\<close> are
  objects in a heap; the ring is made of their pointers.  Of the C library, streams, files and their contents are modelled, with
  an oracle that says which calls fail; streams have no buffer.
\<close>

unbundle bit_operations_syntax

section \<open>Files and streams\<close>

record stream =
  sm_inode :: nat
  sm_pos :: nat
  sm_err :: bool

text \<open>\<open>io_ok\<close> and \<open>io_close_ok\<close>: which calls succeed, by their number, and which calls of \<open>fclose\<close>; \<open>io_part\<close>: how many bytes a read or write that fails has transferred; \<open>io_limit\<close>: an eighth of the allowed number of open files;
  \<open>io_plain\<close>: which names are those of ordinary files; \<open>io_map\<close>: the addresses of memory maps, by the number of the call.\<close>

record stdio =
  io_disk :: "string \<rightharpoonup> nat"
  io_inodes :: "nat \<Rightarrow> bytes"
  io_streams :: "nat \<rightharpoonup> stream"
  io_next :: nat
  io_ok :: "nat \<Rightarrow> bool"
  io_close_ok :: "nat \<Rightarrow> bool"
  io_part :: "nat \<Rightarrow> nat"
  io_calls :: nat
  io_limit :: int
  io_plain :: "string \<Rightarrow> bool"
  io_map :: "nat \<Rightarrow> u64"

datatype fopen_mode = FOPEN_RB | FOPEN_RUB | FOPEN_WUB

datatype whence = SEEK_SET | SEEK_CUR | SEEK_END

definition try_call :: "stdio \<Rightarrow> bool \<times> stdio" where
  "try_call io = (io_ok io (io_calls io), io\<lparr>io_calls := Suc (io_calls io)\<rparr>)"

definition new_stream :: "nat \<Rightarrow> stdio \<Rightarrow> nat option \<times> stdio" where
  "new_stream i io = (Some (io_next io), io\<lparr>io_streams := (io_streams io)(io_next io \<mapsto> \<lparr>sm_inode = i, sm_pos = 0, sm_err = False\<rparr>), io_next := Suc (io_next io)\<rparr>)"

definition fopen :: "string \<Rightarrow> fopen_mode \<Rightarrow> stdio \<Rightarrow> nat option \<times> stdio" where
  "fopen name mode io =
     (case try_call io of (ok, io) \<Rightarrow>
        if \<not> ok then (None, io)
        else if mode = FOPEN_WUB
        then (case io_disk io name of
                Some i \<Rightarrow> new_stream i (io\<lparr>io_inodes := (io_inodes io)(i := [])\<rparr>)
              | None \<Rightarrow> new_stream (io_next io) (io\<lparr>io_disk := (io_disk io)(name \<mapsto> io_next io), io_inodes := (io_inodes io)(io_next io := []),
                  io_next := Suc (io_next io)\<rparr>))
        else (case io_disk io name of None \<Rightarrow> (None, io) | Some i \<Rightarrow> new_stream i io))"

definition fclose :: "nat \<Rightarrow> stdio \<Rightarrow> (bool \<times> stdio) cresult" where
  "fclose f io = (case io_streams io f of None \<Rightarrow> Undefined
     | Some _ \<Rightarrow> (case try_call io of (_, io) \<Rightarrow> Done (io_close_ok io (io_calls io), io\<lparr>io_streams := (io_streams io)(f := None)\<rparr>)))"

definition ftell :: "nat \<Rightarrow> stdio \<Rightarrow> (int \<times> stdio) cresult" where
  "ftell f io = (case io_streams io f of None \<Rightarrow> Undefined
     | Some s \<Rightarrow> (case try_call io of (ok, io) \<Rightarrow> Done (if ok then int (sm_pos s) else - 1, io)))"

definition fseek :: "nat \<Rightarrow> int \<Rightarrow> whence \<Rightarrow> stdio \<Rightarrow> (bool \<times> stdio) cresult" where
  "fseek f off w io = (case io_streams io f of None \<Rightarrow> Undefined
     | Some s \<Rightarrow> (case try_call io of (ok, io) \<Rightarrow>
         let pos = off + (case w of SEEK_SET \<Rightarrow> 0 | SEEK_CUR \<Rightarrow> int (sm_pos s) | SEEK_END \<Rightarrow> int (length (io_inodes io (sm_inode s))))
         in Done (if ok \<and> 0 \<le> pos then (True, io\<lparr>io_streams := (io_streams io)(f \<mapsto> s\<lparr>sm_pos := nat pos\<rparr>)\<rparr>) else (False, io))))"

definition fread :: "nat \<Rightarrow> nat \<Rightarrow> stdio \<Rightarrow> (bytes \<times> stdio) cresult" where
  "fread f n io = (case io_streams io f of None \<Rightarrow> Undefined
     | Some s \<Rightarrow> (case try_call io of (ok, io) \<Rightarrow>
         let got = take (if ok then n else min n (io_part io (io_calls io))) (drop (sm_pos s) (io_inodes io (sm_inode s)))
         in Done (got, io\<lparr>io_streams := (io_streams io)(f \<mapsto> s\<lparr>sm_pos := sm_pos s + length got, sm_err := sm_err s \<or> \<not> ok\<rparr>)\<rparr>)))"

definition overwrite :: "nat \<Rightarrow> bytes \<Rightarrow> bytes \<Rightarrow> bytes" where
  "overwrite pos new old = take pos (old @ replicate (pos - length old) 0) @ new @ drop (pos + length new) old"

definition fwrite :: "nat \<Rightarrow> bytes \<Rightarrow> stdio \<Rightarrow> (nat \<times> stdio) cresult" where
  "fwrite f bs io = (case io_streams io f of None \<Rightarrow> Undefined
     | Some s \<Rightarrow> (case try_call io of (ok, io) \<Rightarrow>
         let put = (if ok then bs else take (io_part io (io_calls io)) bs)
         in Done (length put, io\<lparr>io_inodes := (io_inodes io)(sm_inode s := overwrite (sm_pos s) put (io_inodes io (sm_inode s))),
              io_streams := (io_streams io)(f \<mapsto> s\<lparr>sm_pos := sm_pos s + length put, sm_err := sm_err s \<or> \<not> ok\<rparr>)\<rparr>)))"

definition ferror :: "nat \<Rightarrow> stdio \<Rightarrow> bool" where
  "ferror f io = (case io_streams io f of None \<Rightarrow> False | Some s \<Rightarrow> sm_err s)"

text \<open>A call on a stream that changes nothing of what is modelled: \<open>fflush\<close>.\<close>

definition fflush :: "nat \<Rightarrow> stdio \<Rightarrow> (bool \<times> stdio) cresult" where
  "fflush f io = (case io_streams io f of None \<Rightarrow> Undefined | Some _ \<Rightarrow> Done (try_call io))"

definition fstat :: "nat \<Rightarrow> stdio \<Rightarrow> (nat option \<times> stdio) cresult" where
  "fstat f io = (case io_streams io f of None \<Rightarrow> Undefined
     | Some s \<Rightarrow> (case try_call io of (ok, io) \<Rightarrow> Done (if ok then Some (length (io_inodes io (sm_inode s))) else None, io)))"

text \<open>Only the address of a memory map is modelled.\<close>

definition mmap :: "nat \<Rightarrow> u64 \<Rightarrow> u64 \<Rightarrow> stdio \<Rightarrow> (u64 option \<times> stdio) cresult" where
  "mmap f len offset io = (case io_streams io f of None \<Rightarrow> Undefined
     | Some _ \<Rightarrow> (case try_call io of (ok, io) \<Rightarrow> Done (if ok then Some (io_map io (io_calls io)) else None, io)))"

text \<open>\<open>stat\<close> and \<open>unlink_if_ordinary\<close>.\<close>

definition unlink_nonempty :: "string \<Rightarrow> stdio \<Rightarrow> stdio" where
  "unlink_nonempty name io =
     (case try_call io of (ok, io) \<Rightarrow>
        case io_disk io name of
          Some i \<Rightarrow> if ok \<and> io_inodes io i \<noteq> [] \<and> io_plain io name
                    then (case try_call io of (ok, io) \<Rightarrow> if ok then io\<lparr>io_disk := (io_disk io)(name := None)\<rparr> else io) else io
        | None \<Rightarrow> io)"

section \<open>The cache\<close>

datatype bfd_direction = no_direction | read_direction | write_direction | both_direction

record cached_bfd =
  cb_filename :: string
  cb_direction :: bfd_direction
  cb_iostream :: "nat option"
  cb_where :: int
  cb_lru_next :: "nat option"
  cb_lru_prev :: "nat option"
  cb_cacheable :: bool
  cb_opened_once :: bool
  cb_in_format_matches :: bool
  cb_in_memory :: bool
  cb_my_archive :: "bool option"
  cb_cache_iovec :: bool
  cb_closed_by_cache :: bool
  cb_io_force :: bool

datatype bfd_error = bfd_error_system_call | bfd_error_file_truncated

record bfd_cache =
  ca_max_open_files :: u32
  ca_open_files :: u32
  ca_last_cache :: "nat option"
  ca_bfds :: "nat \<rightharpoonup> cached_bfd"
  ca_io :: stdio
  ca_error :: "bfd_error option"
  ca_messages :: nat
  ca_asserts :: nat

text \<open>The flags of a lookup.\<close>

record cache_flag =
  CACHE_NO_OPEN :: bool
  CACHE_NO_SEEK :: bool
  CACHE_NO_SEEK_ERROR :: bool

definition CACHE_NORMAL :: cache_flag where
  "CACHE_NORMAL = \<lparr>CACHE_NO_OPEN = False, CACHE_NO_SEEK = False, CACHE_NO_SEEK_ERROR = False\<rparr>"

definition cb_get :: "nat \<Rightarrow> bfd_cache \<Rightarrow> cached_bfd cresult" where
  "cb_get a st = (case ca_bfds st a of None \<Rightarrow> Undefined | Some e \<Rightarrow> Done e)"

definition cb_put :: "nat \<Rightarrow> cached_bfd \<Rightarrow> bfd_cache \<Rightarrow> bfd_cache" where
  "cb_put a e st = st\<lparr>ca_bfds := (ca_bfds st)(a \<mapsto> e)\<rparr>"

definition cb_update :: "nat \<Rightarrow> (cached_bfd \<Rightarrow> cached_bfd) \<Rightarrow> bfd_cache \<Rightarrow> bfd_cache cresult" where
  "cb_update a f st = cbind (cb_get a st) (\<lambda>e. Done (cb_put a (f e) st))"

definition deref :: "'a option \<Rightarrow> 'a cresult" where
  "deref p = (case p of None \<Rightarrow> Undefined | Some a \<Rightarrow> Done a)"

definition set_error :: "bfd_error \<Rightarrow> bfd_cache \<Rightarrow> bfd_cache" where
  "set_error e st = st\<lparr>ca_error := Some e\<rparr>"

text \<open>A call of the C library within the cache.\<close>

definition with_io :: "(stdio \<Rightarrow> ('a \<times> stdio) cresult) \<Rightarrow> bfd_cache \<Rightarrow> ('a \<times> bfd_cache) cresult" where
  "with_io f st = cbind (f (ca_io st)) (\<lambda>(r, io). Done (r, st\<lparr>ca_io := io\<rparr>))"

definition bfd_cache_max_open :: "bfd_cache \<Rightarrow> u32 \<times> bfd_cache" where
  "bfd_cache_max_open st =
     (if ca_max_open_files st = 0
      then let n = (if io_limit (ca_io st) < 10 then 10 else of_int (io_limit (ca_io st))) in (n, st\<lparr>ca_max_open_files := n\<rparr>)
      else (ca_max_open_files st, st))"

definition lru_insert :: "nat \<Rightarrow> bfd_cache \<Rightarrow> bfd_cache cresult" where
  "lru_insert abfd st =
     cbind (case ca_last_cache st of
              None \<Rightarrow> cb_update abfd (\<lambda>e. e\<lparr>cb_lru_next := Some abfd, cb_lru_prev := Some abfd\<rparr>) st
            | Some l \<Rightarrow>
                cbind (cb_update abfd (\<lambda>e. e\<lparr>cb_lru_next := Some l\<rparr>) st) (\<lambda>st.
                cbind (cb_get l st) (\<lambda>el.
                cbind (cb_update abfd (\<lambda>e. e\<lparr>cb_lru_prev := cb_lru_prev el\<rparr>) st) (\<lambda>st.
                cbind (deref (cb_lru_prev el)) (\<lambda>p.
                cbind (cb_update p (\<lambda>e. e\<lparr>cb_lru_next := Some abfd\<rparr>) st) (\<lambda>st.
                cbind (cb_get abfd st) (\<lambda>e.
                cbind (deref (cb_lru_next e)) (\<lambda>n.
                cb_update n (\<lambda>e. e\<lparr>cb_lru_prev := Some abfd\<rparr>) st))))))))
       (\<lambda>st. Done (st\<lparr>ca_last_cache := Some abfd\<rparr>))"

definition snip :: "nat \<Rightarrow> bfd_cache \<Rightarrow> bfd_cache cresult" where
  "snip abfd st =
     cbind (cb_get abfd st) (\<lambda>e.
     cbind (deref (cb_lru_prev e)) (\<lambda>p.
     cbind (cb_update p (\<lambda>x. x\<lparr>cb_lru_next := cb_lru_next e\<rparr>) st) (\<lambda>st.
     cbind (cb_get abfd st) (\<lambda>e.
     cbind (deref (cb_lru_next e)) (\<lambda>n.
     cbind (cb_update n (\<lambda>x. x\<lparr>cb_lru_prev := cb_lru_prev e\<rparr>) st) (\<lambda>st.
     cbind (cb_get abfd st) (\<lambda>e.
       Done (if ca_last_cache st = Some abfd
             then st\<lparr>ca_last_cache := if cb_lru_next e = Some abfd then None else cb_lru_next e\<rparr>
             else st))))))))"

definition bfd_cache_delete :: "nat \<Rightarrow> bfd_cache \<Rightarrow> (bool \<times> bfd_cache) cresult" where
  "bfd_cache_delete abfd st =
     cbind (cb_get abfd st) (\<lambda>e.
     cbind (deref (cb_iostream e)) (\<lambda>f.
     cbind (with_io (fclose f) st) (\<lambda>(ret, st).
     cbind (snip abfd (if ret then st else set_error bfd_error_system_call st)) (\<lambda>st.
     cbind (cb_update abfd (\<lambda>e. e\<lparr>cb_iostream := None, cb_closed_by_cache := True, cb_io_force := True\<rparr>) st) (\<lambda>st.
       Done (ret, st\<lparr>ca_open_files := ca_open_files st - 1, ca_asserts := ca_asserts st + (if ca_open_files st > 0 then 0 else 1)\<rparr>))))))"

text \<open>The search for the file to close, from the least recently used one on.\<close>

partial_function (option) find_victim :: "nat \<Rightarrow> bfd_cache \<Rightarrow> nat option run" where
  "find_victim to_kill st =
     (case cb_get to_kill st of
        Undefined \<Rightarrow> Some Undefined
      | Abort \<Rightarrow> Some Abort
      | Done e \<Rightarrow>
          if cb_cacheable e then Some (Done (Some to_kill))
          else if ca_last_cache st = Some to_kill then Some (Done None)
          else (case cb_lru_prev e of None \<Rightarrow> Some Undefined | Some p \<Rightarrow> find_victim p st))"

definition close_one :: "bfd_cache \<Rightarrow> (bool \<times> bfd_cache) run" where
  "close_one st =
     rbind (case ca_last_cache st of
              None \<Rightarrow> Some (Done None)
            | Some l \<Rightarrow> rbind (Some (cbind (cb_get l st) (\<lambda>e. deref (cb_lru_prev e)))) (\<lambda>p. find_victim p st)) (\<lambda>to_kill.
       case to_kill of
         None \<Rightarrow> Some (Done (True, st))
       | Some k \<Rightarrow> Some
           (cbind (cb_get k st) (\<lambda>e.
            cbind (deref (cb_iostream e)) (\<lambda>f.
            cbind (with_io (ftell f) st) (\<lambda>(pos, st).
            cbind (cb_update k (\<lambda>e. e\<lparr>cb_where := pos\<rparr>) st) (bfd_cache_delete k))))))"

definition possibly_cached :: "cached_bfd \<Rightarrow> bool" where
  "possibly_cached e \<longleftrightarrow> \<not> cb_in_memory e \<and> cb_my_archive e \<noteq> Some False"

text \<open>Closes a file when too many are open.\<close>

definition make_room :: "bfd_cache \<Rightarrow> (bool \<times> bfd_cache) run" where
  "make_room st = (case bfd_cache_max_open st of (n, st) \<Rightarrow> if n \<le> ca_open_files st then close_one st else Some (Done (True, st)))"

definition bfd_cache_init_unlocked :: "nat \<Rightarrow> bfd_cache \<Rightarrow> (bool \<times> bfd_cache) run" where
  "bfd_cache_init_unlocked abfd st =
     rbind (Some (cb_get abfd st)) (\<lambda>e.
       rbind (make_room (st\<lparr>ca_asserts := ca_asserts st + (if cb_iostream e \<noteq> None then 0 else 1)\<rparr>)) (\<lambda>(ok, st).
         if \<not> ok then Some (Done (False, st))
         else Some
           (cbind (cb_update abfd (\<lambda>e. e\<lparr>cb_cache_iovec := True\<rparr>) st) (\<lambda>st.
            cbind (lru_insert abfd st) (\<lambda>st.
            cbind (cb_update abfd (\<lambda>e. e\<lparr>cb_closed_by_cache := False\<rparr>) st) (\<lambda>st.
              Done (True, st\<lparr>ca_open_files := ca_open_files st + 1\<rparr>)))))))"

definition real_open :: "cached_bfd \<Rightarrow> stdio \<Rightarrow> (nat option \<times> bool) \<times> stdio" where
  "real_open e io =
     (if cb_direction e \<in> {read_direction, no_direction}
      then (case fopen (cb_filename e) FOPEN_RB io of (f, io) \<Rightarrow> ((f, cb_opened_once e), io))
      else if cb_opened_once e
      then (case fopen (cb_filename e) FOPEN_RUB io of
              (Some f, io) \<Rightarrow> ((Some f, True), io)
            | (None, io) \<Rightarrow> (case fopen (cb_filename e) FOPEN_WUB io of (f, io) \<Rightarrow> ((f, True), io)))
      else (case fopen (cb_filename e) FOPEN_WUB (unlink_nonempty (cb_filename e) io) of (f, io) \<Rightarrow> ((f, True), io)))"

definition bfd_open_file_unlocked :: "nat \<Rightarrow> bfd_cache \<Rightarrow> (nat option \<times> bfd_cache) run" where
  "bfd_open_file_unlocked abfd st =
     rbind (Some (cb_update abfd (\<lambda>e. e\<lparr>cb_cacheable := True\<rparr>) st)) (\<lambda>st.
     rbind (make_room st) (\<lambda>(ok, st).
       if \<not> ok then Some (Done (None, st))
       else rbind (Some (cb_get abfd st)) (\<lambda>e.
         case real_open e (ca_io st) of ((f, once), io) \<Rightarrow>
           let st = cb_put abfd (e\<lparr>cb_iostream := f, cb_opened_once := once\<rparr>) (st\<lparr>ca_io := io\<rparr>)
           in if f = None then Some (Done (None, set_error bfd_error_system_call st))
              else rbind (bfd_cache_init_unlocked abfd st) (\<lambda>(ok, st). Some (Done (if ok then f else None, st))))))"

definition bfd_cache_lookup_worker :: "nat \<Rightarrow> cache_flag \<Rightarrow> bfd_cache \<Rightarrow> (nat option \<times> bfd_cache) run" where
  "bfd_cache_lookup_worker abfd flag st =
     rbind (Some (cb_get abfd st)) (\<lambda>e.
       if \<not> possibly_cached e then Some Abort
       else if cb_in_format_matches e then (if cb_iostream e = None then Some Abort else Some (Done (cb_iostream e, st)))
       else if cb_iostream e \<noteq> None
       then rbind (Some (if ca_last_cache st \<noteq> Some abfd then cbind (snip abfd st) (lru_insert abfd) else Done st)) (\<lambda>st. Some (Done (cb_iostream e, st)))
       else if CACHE_NO_OPEN flag then Some (Done (None, st))
       else rbind (bfd_open_file_unlocked abfd st) (\<lambda>(f, st).
         case f of
           None \<Rightarrow> Some (Done (None, st\<lparr>ca_messages := Suc (ca_messages st)\<rparr>))
         | Some f \<Rightarrow>
             rbind (if CACHE_NO_SEEK flag then Some (Done (True, st))
                    else rbind (Some (cb_get abfd st)) (\<lambda>e. Some (with_io (fseek f (cb_where e) SEEK_SET) st))) (\<lambda>(ok, st).
               if \<not> ok \<and> \<not> CACHE_NO_SEEK_ERROR flag
               then Some (Done (None, (set_error bfd_error_system_call st)\<lparr>ca_messages := Suc (ca_messages st)\<rparr>))
               else Some (Done (Some f, st)))))"

definition bfd_cache_lookup :: "nat \<Rightarrow> cache_flag \<Rightarrow> bfd_cache \<Rightarrow> (nat option \<times> bfd_cache) run" where
  "bfd_cache_lookup abfd flag st =
     (if ca_last_cache st = Some abfd then rbind (Some (cb_get abfd st)) (\<lambda>e. Some (Done (cb_iostream e, st)))
      else bfd_cache_lookup_worker abfd flag st)"

section \<open>Operations\<close>

text \<open>Taking the lock and giving it back can fail.\<close>

definition bfd_lock :: "bfd_cache \<Rightarrow> bool \<times> bfd_cache" where
  "bfd_lock st = (case try_call (ca_io st) of (ok, io) \<Rightarrow> (ok, st\<lparr>ca_io := io\<rparr>))"

definition locked :: "'a \<Rightarrow> (bfd_cache \<Rightarrow> ('a \<times> bfd_cache) run) \<Rightarrow> bfd_cache \<Rightarrow> ('a \<times> bfd_cache) run" where
  "locked fail body st =
     (case bfd_lock st of (ok, st) \<Rightarrow>
        if \<not> ok then Some (Done (fail, st))
        else rbind (body st) (\<lambda>(r, st). case bfd_lock st of (ok, st) \<Rightarrow> Some (Done (if ok then r else fail, st))))"

definition cache_btell :: "nat \<Rightarrow> bfd_cache \<Rightarrow> (int \<times> bfd_cache) run" where
  "cache_btell abfd =
     locked (- 1) (\<lambda>st.
       rbind (bfd_cache_lookup abfd (CACHE_NORMAL\<lparr>CACHE_NO_OPEN := True\<rparr>) st) (\<lambda>(f, st).
         case f of
           None \<Rightarrow> rbind (Some (cb_get abfd st)) (\<lambda>e. Some (Done (cb_where e, st)))
         | Some f \<Rightarrow> Some (with_io (ftell f) st)))"

definition cache_bseek :: "nat \<Rightarrow> int \<Rightarrow> whence \<Rightarrow> bfd_cache \<Rightarrow> (int \<times> bfd_cache) run" where
  "cache_bseek abfd offset whence =
     locked (- 1) (\<lambda>st.
       rbind (bfd_cache_lookup abfd (CACHE_NORMAL\<lparr>CACHE_NO_SEEK := whence \<noteq> SEEK_CUR\<rparr>) st) (\<lambda>(f, st).
         case f of
           None \<Rightarrow> Some (Done (- 1, st))
         | Some f \<Rightarrow> rbind (Some (with_io (fseek f offset whence) st)) (\<lambda>(ok, st). Some (Done (if ok then 0 else - 1, st)))))"

definition cache_bread_1 :: "nat \<Rightarrow> nat \<Rightarrow> bfd_cache \<Rightarrow> (bytes \<times> bfd_cache) cresult" where
  "cache_bread_1 f nbytes st =
     cbind (with_io (fread f nbytes) st) (\<lambda>(got, st).
       Done (got, if length got < nbytes then set_error (if ferror f (ca_io st) then bfd_error_system_call else bfd_error_file_truncated) st else st))"

text \<open>The chunks of 8 MB; the bytes read so far are the contents of the buffer.\<close>

function bread_loop :: "nat \<Rightarrow> nat \<Rightarrow> bytes \<Rightarrow> bfd_cache \<Rightarrow> (bytes \<times> bfd_cache) cresult" where
  "bread_loop f nbytes buf st =
     (if length buf < nbytes
      then let chunk_size = min (nbytes - length buf) 0x800000
           in case cache_bread_1 f chunk_size st of
                Undefined \<Rightarrow> Undefined
              | Abort \<Rightarrow> Abort
              | Done (got, st) \<Rightarrow> if length got < chunk_size then Done (buf @ got, st) else bread_loop f nbytes (buf @ got) st
      else Done (buf, st))"
  by pat_completeness auto
termination by (relation "measure (\<lambda>(f, n, buf, st). n - length buf)") auto

declare bread_loop.simps [simp del]

text \<open>The result is the number of bytes, or -1, and the bytes.\<close>

definition cache_bread :: "nat \<Rightarrow> nat \<Rightarrow> bfd_cache \<Rightarrow> ((int \<times> bytes) \<times> bfd_cache) run" where
  "cache_bread abfd nbytes =
     locked (- 1, []) (\<lambda>st.
       rbind (bfd_cache_lookup abfd CACHE_NORMAL st) (\<lambda>(f, st).
         case f of
           None \<Rightarrow> Some (Done ((- 1, []), st))
         | Some f \<Rightarrow> rbind (Some (bread_loop f nbytes [] st)) (\<lambda>(buf, st). Some (Done ((int (length buf), buf), st)))))"

definition cache_bwrite :: "nat \<Rightarrow> bytes \<Rightarrow> bfd_cache \<Rightarrow> (int \<times> bfd_cache) run" where
  "cache_bwrite abfd bs =
     locked (- 1) (\<lambda>st.
       rbind (bfd_cache_lookup abfd CACHE_NORMAL st) (\<lambda>(f, st).
         case f of
           None \<Rightarrow> Some (Done (0, st))
         | Some f \<Rightarrow>
             rbind (Some (with_io (fwrite f bs) st)) (\<lambda>(n, st).
               if n < length bs \<and> ferror f (ca_io st) then Some (Done (- 1, set_error bfd_error_system_call st))
               else Some (Done (int n, st)))))"

definition cache_bflush :: "nat \<Rightarrow> bfd_cache \<Rightarrow> (int \<times> bfd_cache) run" where
  "cache_bflush abfd =
     locked (- 1) (\<lambda>st.
       rbind (bfd_cache_lookup abfd (CACHE_NORMAL\<lparr>CACHE_NO_OPEN := True\<rparr>) st) (\<lambda>(f, st).
         case f of
           None \<Rightarrow> Some (Done (0, st))
         | Some f \<Rightarrow> rbind (Some (with_io (fflush f) st)) (\<lambda>(ok, st).
             Some (Done (if ok then (0, st) else (- 1, set_error bfd_error_system_call st))))))"

definition cache_bstat :: "nat \<Rightarrow> bfd_cache \<Rightarrow> (nat option \<times> bfd_cache) run" where
  "cache_bstat abfd =
     locked None (\<lambda>st.
       rbind (bfd_cache_lookup abfd (CACHE_NORMAL\<lparr>CACHE_NO_SEEK_ERROR := True\<rparr>) st) (\<lambda>(f, st).
         case f of
           None \<Rightarrow> Some (Done (None, st))
         | Some f \<Rightarrow> rbind (Some (with_io (fstat f) st)) (\<lambda>(r, st).
             Some (Done (r, if r = None then set_error bfd_error_system_call st else st)))))"

text \<open>The pages that a range of the file is on, and the map of them: the address of the range, and what is left in \<open>*map_addr\<close> and \<open>*map_len\<close>.\<close>

definition page_start :: "u64 \<Rightarrow> u64 \<Rightarrow> u64" where
  "page_start pagesize_m1 offset = offset AND NOT pagesize_m1"

definition page_length :: "u64 \<Rightarrow> u64 \<Rightarrow> u64 \<Rightarrow> u64" where
  "page_length pagesize_m1 offset len = (len + (offset - page_start pagesize_m1 offset) + pagesize_m1) AND NOT pagesize_m1"

definition map_pages :: "u64 \<Rightarrow> u64 \<Rightarrow> u64 \<Rightarrow> nat \<Rightarrow> bfd_cache \<Rightarrow> ((u64 option \<times> (u64 \<times> u64) option) \<times> bfd_cache) run" where
  "map_pages pagesize_m1 len offset f st =
     rbind (Some (with_io (mmap f (page_length pagesize_m1 offset len) (page_start pagesize_m1 offset)) st)) (\<lambda>(ret, st).
       Some (Done (case ret of
           None \<Rightarrow> ((None, None), set_error bfd_error_system_call st)
         | Some a \<Rightarrow> ((Some (a + (offset AND pagesize_m1)), Some (a, page_length pagesize_m1 offset len)), st))))"

definition cache_bmmap :: "u64 \<Rightarrow> nat \<Rightarrow> u64 \<Rightarrow> u64 \<Rightarrow> bfd_cache \<Rightarrow> ((u64 option \<times> (u64 \<times> u64) option) \<times> bfd_cache) run" where
  "cache_bmmap pagesize_m1 abfd len offset st =
     (case bfd_lock st of (ok, st) \<Rightarrow>
        if \<not> ok then Some (Done ((None, None), st))
        else rbind (Some (cb_get abfd st)) (\<lambda>e.
          if cb_in_memory e then Some Abort
          else rbind (rbind (bfd_cache_lookup abfd (CACHE_NORMAL\<lparr>CACHE_NO_SEEK_ERROR := True\<rparr>) st) (\<lambda>(f, st).
              case f of None \<Rightarrow> Some (Done ((None, None), st)) | Some f \<Rightarrow> map_pages pagesize_m1 len offset f st)) (\<lambda>((r, m), st).
            case bfd_lock st of (ok, st) \<Rightarrow> Some (Done ((if ok then r else None, m), st)))))"

definition bfd_cache_init :: "nat \<Rightarrow> bfd_cache \<Rightarrow> (bool \<times> bfd_cache) run" where
  "bfd_cache_init abfd = locked False (bfd_cache_init_unlocked abfd)"

definition bfd_cache_close_unlocked :: "nat \<Rightarrow> bfd_cache \<Rightarrow> (bool \<times> bfd_cache) cresult" where
  "bfd_cache_close_unlocked abfd st =
     cbind (cb_get abfd st) (\<lambda>e.
       if \<not> cb_cache_iovec e \<or> cb_iostream e = None then Done (True, st) else bfd_cache_delete abfd st)"

definition bfd_cache_close :: "nat \<Rightarrow> bfd_cache \<Rightarrow> (bool \<times> bfd_cache) run" where
  "bfd_cache_close abfd = locked False (\<lambda>st. Some (bfd_cache_close_unlocked abfd st))"

definition cache_bclose :: "nat \<Rightarrow> bfd_cache \<Rightarrow> (int \<times> bfd_cache) run" where
  "cache_bclose abfd st = rbind (bfd_cache_close abfd st) (\<lambda>(ok, st). Some (Done (of_bool ok - 1, st)))"

partial_function (option) close_all_loop :: "bool \<Rightarrow> bfd_cache \<Rightarrow> (bool \<times> bfd_cache) run" where
  "close_all_loop ret st =
     (case ca_last_cache st of
        None \<Rightarrow> Some (Done (ret, st))
      | Some l \<Rightarrow>
          (case bfd_cache_close_unlocked l st of
             Undefined \<Rightarrow> Some Undefined
           | Abort \<Rightarrow> Some Abort
           | Done (ok, st) \<Rightarrow> if ca_last_cache st = Some l then Some (Done (ret \<and> ok, st)) else close_all_loop (ret \<and> ok) st))"

definition bfd_cache_close_all :: "bfd_cache \<Rightarrow> (bool \<times> bfd_cache) run" where
  "bfd_cache_close_all = locked False (close_all_loop True)"

text \<open>The second result is what is left in \<open>*old\<close>.\<close>

definition bfd_cache_set_uncloseable :: "nat \<Rightarrow> bool \<Rightarrow> bfd_cache \<Rightarrow> ((bool \<times> bool option) \<times> bfd_cache) run" where
  "bfd_cache_set_uncloseable abfd val st =
     (case bfd_lock st of (ok, st) \<Rightarrow>
        if \<not> ok then Some (Done ((False, None), st))
        else rbind (Some (cb_get abfd st)) (\<lambda>e.
          rbind (if val \<noteq> cb_in_format_matches e \<and> cb_cache_iovec e \<and> possibly_cached e
                 then rbind (if val
                             then rbind (bfd_cache_lookup abfd CACHE_NORMAL st) (\<lambda>(f, st).
                                    if f = None then Some (Done (False, st)) else rbind (Some (snip abfd st)) (\<lambda>st. Some (Done (True, st))))
                             else rbind (Some (lru_insert abfd st)) (\<lambda>st. Some (Done (True, st)))) (\<lambda>(r, st).
                        rbind (Some (cb_update abfd (\<lambda>e. e\<lparr>cb_in_format_matches := val\<rparr>) st)) (\<lambda>st. Some (Done (r, st))))
                 else Some (Done (True, st))) (\<lambda>(r, st).
            case bfd_lock st of (ok, st) \<Rightarrow> Some (Done ((ok \<and> r, Some (cb_in_format_matches e)), st)))))"

definition bfd_cache_size :: "bfd_cache \<Rightarrow> u32" where
  "bfd_cache_size st = ca_open_files st"

definition bfd_open_file :: "nat \<Rightarrow> bfd_cache \<Rightarrow> (nat option \<times> bfd_cache) run" where
  "bfd_open_file abfd = locked None (bfd_open_file_unlocked abfd)"

end
