(* ===== verification/Bfd_Cache_Ring.thy ===== *)
theory Bfd_Cache_Ring
  imports Bfd_Cache
begin

text \<open>
  The ring of the cache: \<open>insert\<close> puts a file in front of it, \<open>snip\<close> takes one out, and nothing but the pointers of the ring changes.
\<close>

section \<open>Rings\<close>

definition nx :: "(nat \<rightharpoonup> cached_bfd) \<Rightarrow> nat \<rightharpoonup> nat" where
  "nx H a = (case H a of None \<Rightarrow> None | Some e \<Rightarrow> cb_lru_next e)"

definition pv :: "(nat \<rightharpoonup> cached_bfd) \<Rightarrow> nat \<rightharpoonup> nat" where
  "pv H a = (case H a of None \<Rightarrow> None | Some e \<Rightarrow> cb_lru_prev e)"

definition adjacent :: "(nat \<rightharpoonup> cached_bfd) \<Rightarrow> nat \<Rightarrow> nat \<Rightarrow> bool" where
  "adjacent H a b \<longleftrightarrow> nx H a = Some b \<and> pv H b = Some a"

definition ring :: "(nat \<rightharpoonup> cached_bfd) \<Rightarrow> nat list \<Rightarrow> bool" where
  "ring H xs \<longleftrightarrow> distinct xs \<and> successively (adjacent H) xs \<and> (xs \<noteq> [] \<longrightarrow> adjacent H (last xs) (hd xs))"

text \<open>Everything but the pointers.\<close>

definition bare :: "(nat \<rightharpoonup> cached_bfd) \<Rightarrow> (nat \<rightharpoonup> cached_bfd)" where
  "bare H a = map_option (\<lambda>e. e\<lparr>cb_lru_next := None, cb_lru_prev := None\<rparr>) (H a)"

abbreviation head_of :: "nat list \<Rightarrow> nat option" where
  "head_of xs \<equiv> (if xs = [] then None else Some (hd xs))"

lemma successively_change:
  assumes "successively P xs" "\<And>a b. a \<in> set (butlast xs) \<Longrightarrow> b \<in> set (tl xs) \<Longrightarrow> P a b \<Longrightarrow> Q a b"
  shows "successively Q xs"
  using assms
proof (induction xs rule: induct_list012)
  case (3 x y zs)
  have "successively Q (y # zs)"
    using 3 by (intro "3.IH"(2)) (auto split: if_splits)
  then show ?case using 3 by simp
qed simp_all

lemma ends_differ: "distinct xs \<Longrightarrow> a \<in> set (butlast xs) \<Longrightarrow> a \<noteq> last xs" "distinct xs \<Longrightarrow> b \<in> set (tl xs) \<Longrightarrow> b \<noteq> hd xs"
  by (metis append_butlast_last_id butlast.simps(1) distinct_append disjoint_iff list.set_intros(1) empty_iff list.set(1))
     (cases xs; auto)

lemma butlast_in: "a \<in> set (butlast xs) \<Longrightarrow> a \<in> set xs" by (rule in_set_butlastD)

lemma tl_in: "b \<in> set (tl xs) \<Longrightarrow> b \<in> set xs" by (cases xs) auto

lemma ring_insert:
  assumes "ring H xs" "x \<notin> set xs"
    and nx: "nx H' = (if xs = [] then (nx H)(x \<mapsto> x) else (nx H)(x \<mapsto> hd xs, last xs \<mapsto> x))"
    and pv: "pv H' = (if xs = [] then (pv H)(x \<mapsto> x) else (pv H)(x \<mapsto> last xs, hd xs \<mapsto> x))"
  shows "ring H' (x # xs)"
proof (cases "xs = []")
  case True
  then show ?thesis using nx pv by (simp add: ring_def adjacent_def)
next
  case False
  have xs: "distinct xs" "successively (adjacent H) xs" using assms(1) by (simp_all add: ring_def)
  have "successively (adjacent H') xs"
  proof (rule successively_change [OF xs(2)])
    fix a b assume ab: "a \<in> set (butlast xs)" "b \<in> set (tl xs)" "adjacent H a b"
    then show "adjacent H' a b"
      using ends_differ [OF xs(1)] assms(2) False butlast_in [OF ab(1)] tl_in [OF ab(2)] unfolding adjacent_def nx pv by auto
  qed
  moreover have "hd xs \<in> set xs" "last xs \<in> set xs" using False by simp_all
  then have "adjacent H' x (hd xs)" "adjacent H' (last xs) x" using assms(2) False unfolding adjacent_def nx pv by auto
  ultimately show ?thesis using xs(1) assms(2) False by (simp add: ring_def successively_Cons)
qed

lemma ring_neighbours:
  assumes "ring H (ys @ x # zs)"
  shows "pv H x = Some (if ys = [] then last (x # zs) else last ys)" "nx H x = Some (if zs = [] then hd (ys @ [x]) else hd zs)"
  using assms by (auto simp: ring_def adjacent_def successively_append_iff successively_Cons split: if_splits)

lemma ring_snip:
  assumes R: "ring H (ys @ x # zs)" and p: "pv H x = Some p" and n: "nx H x = Some n"
    and nx: "nx H' = (nx H)(p \<mapsto> n)" and pv: "pv H' = (pv H)(n \<mapsto> p)"
  shows "ring H' (ys @ zs)"
proof -
  have d: "distinct (ys @ x # zs)" and s: "successively (adjacent H) ys" "successively (adjacent H) zs"
    using R by (auto simp: ring_def successively_append_iff successively_Cons)
  have pn: "p = (if ys = [] then last (x # zs) else last ys)" "n = (if zs = [] then hd (ys @ [x]) else hd zs)"
    using ring_neighbours [OF R] p n by auto
  have keep: "adjacent H a b \<Longrightarrow> a \<noteq> p \<Longrightarrow> b \<noteq> n \<Longrightarrow> adjacent H' a b" for a b
    unfolding adjacent_def nx pv by simp
  have sep: "a \<in> set ys \<Longrightarrow> a \<notin> set zs" for a using d by auto
  then have apart: "ys \<noteq> [] \<Longrightarrow> last ys \<notin> set zs" by simp
  have new: "adjacent H' p n" unfolding adjacent_def nx pv by simp
  have "successively (adjacent H') ys"
  proof (rule successively_change [OF s(1)])
    fix a b assume ab: "a \<in> set (butlast ys)" "b \<in> set (tl ys)" "adjacent H a b"
    then show "adjacent H' a b"
      using ends_differ [of ys] d pn butlast_in [OF ab(1)] tl_in [OF ab(2)] by (intro keep) (auto split: if_splits)
  qed
  moreover have "successively (adjacent H') zs"
  proof (rule successively_change [OF s(2)])
    fix a b assume ab: "a \<in> set (butlast zs)" "b \<in> set (tl zs)" "adjacent H a b"
    then show "adjacent H' a b"
      using ends_differ [of zs] d pn butlast_in [OF ab(1)] tl_in [OF ab(2)] apart by (intro keep) (auto split: if_splits)
  qed
  moreover have "ys \<noteq> [] \<Longrightarrow> zs \<noteq> [] \<Longrightarrow> adjacent H' (last ys) (hd zs)" using new pn by simp
  moreover have "adjacent H' (last (ys @ zs)) (hd (ys @ zs))" if ne: "ys @ zs \<noteq> []"
  proof (cases "ys = [] \<or> zs = []")
    case True
    then show ?thesis using new pn ne by auto
  next
    case False
    then have "adjacent H (last zs) (hd ys)" using R by (simp add: ring_def)
    moreover have "hd ys \<notin> set zs" "last zs \<in> set zs" "hd zs \<in> set zs" using False sep by simp_all
    then have "last zs \<noteq> p" "hd ys \<noteq> n" using False apart pn by (metis, metis)
    ultimately show ?thesis using keep False by simp
  qed
  ultimately show ?thesis using d by (auto simp: ring_def successively_append_iff)
qed

lemma ring_dom: "ring H xs \<Longrightarrow> x \<in> set xs \<Longrightarrow> H x \<noteq> None"
proof -
  assume R: "ring H xs" "x \<in> set xs"
  then obtain ys zs where "xs = ys @ x # zs" by (meson split_list)
  then show "H x \<noteq> None" using ring_neighbours(1) [of H ys x zs] R(1) by (auto simp: pv_def split: option.splits)
qed

section \<open>The operations\<close>

lemma bare_same: "bare H' = bare H \<Longrightarrow> H' a = Some e' \<Longrightarrow> \<exists>e. H a = Some e \<and> e' = e\<lparr>cb_lru_next := cb_lru_next e', cb_lru_prev := cb_lru_prev e'\<rparr>"
proof -
  assume "bare H' = bare H" "H' a = Some e'"
  then obtain e where e: "H a = Some e" "e'\<lparr>cb_lru_next := None, cb_lru_prev := None\<rparr> = e\<lparr>cb_lru_next := None, cb_lru_prev := None\<rparr>"
    unfolding bare_def by (metis (no_types, lifting) map_option_eq_Some option.simps(9))
  then have "e' = e\<lparr>cb_lru_next := cb_lru_next e', cb_lru_prev := cb_lru_prev e'\<rparr>" by (cases e; cases e') simp
  then show ?thesis using e(1) by blast
qed

definition hmod :: "nat \<Rightarrow> (cached_bfd \<Rightarrow> cached_bfd) \<Rightarrow> (nat \<rightharpoonup> cached_bfd) \<Rightarrow> (nat \<rightharpoonup> cached_bfd)" where
  "hmod a f H = H(a := map_option f (H a))"

lemma hmod_None [simp]: "hmod a f H b = None \<longleftrightarrow> H b = None"
  by (auto simp: hmod_def)

lemma hmod_pointers:
  "H a \<noteq> None \<Longrightarrow> nx (hmod a (\<lambda>e. e\<lparr>cb_lru_next := v\<rparr>) H) = (nx H)(a := v)" "pv (hmod a (\<lambda>e. e\<lparr>cb_lru_next := v\<rparr>) H) = pv H"
  "H a \<noteq> None \<Longrightarrow> pv (hmod a (\<lambda>e. e\<lparr>cb_lru_prev := v\<rparr>) H) = (pv H)(a := v)" "nx (hmod a (\<lambda>e. e\<lparr>cb_lru_prev := v\<rparr>) H) = nx H"
  "bare (hmod a (\<lambda>e. e\<lparr>cb_lru_next := v\<rparr>) H) = bare H" "bare (hmod a (\<lambda>e. e\<lparr>cb_lru_prev := v\<rparr>) H) = bare H"
  by (auto simp: hmod_def nx_def pv_def bare_def fun_eq_iff option.map_comp comp_def split: option.split)

lemma cb_update_hmod: "ca_bfds st a \<noteq> None \<Longrightarrow> cb_update a f st = Done (st\<lparr>ca_bfds := hmod a f (ca_bfds st)\<rparr>)"
  by (auto simp: cb_update_def cb_get_def cb_put_def hmod_def)

lemma cb_get_at: "ca_bfds st a = Some e \<Longrightarrow> cb_get a st = Done e"
  by (simp add: cb_get_def)

lemma pointers_at: "H a = Some e \<Longrightarrow> cb_lru_next e = nx H a" "H a = Some e \<Longrightarrow> cb_lru_prev e = pv H a"
  by (simp_all add: nx_def pv_def)

lemma lru_insert_ok:
  assumes R: "ring (ca_bfds st) xs" and l: "ca_last_cache st = head_of xs" and x: "x \<notin> set xs" "ca_bfds st x \<noteq> None"
  shows "\<exists>H'. lru_insert x st = Done (st\<lparr>ca_bfds := H', ca_last_cache := Some x\<rparr>) \<and> bare H' = bare (ca_bfds st) \<and> ring H' (x # xs)"
proof (cases "xs = []")
  case True
  obtain e where e: "ca_bfds st x = Some e" using x(2) by blast
  let ?H = "(ca_bfds st)(x \<mapsto> e\<lparr>cb_lru_next := Some x, cb_lru_prev := Some x\<rparr>)"
  have "lru_insert x st = Done (st\<lparr>ca_bfds := ?H, ca_last_cache := Some x\<rparr>)"
    using True l e by (simp add: lru_insert_def cb_update_def cb_get_def cb_put_def)
  moreover have "ring ?H (x # xs)" using True R x by (intro ring_insert) (auto simp: nx_def pv_def fun_eq_iff)
  moreover have "bare ?H = bare (ca_bfds st)" using e by (auto simp: bare_def fun_eq_iff)
  ultimately show ?thesis by blast
next
  case False
  let ?H = "ca_bfds st" let ?l = "hd xs" let ?p = "last xs"
  have adj: "pv ?H ?l = Some ?p" using R False by (simp add: ring_def adjacent_def)
  have dom: "?H ?l \<noteq> None" "?H ?p \<noteq> None" using ring_dom [OF R] False by simp_all
  have ne: "?l \<noteq> x" "?p \<noteq> x" using x(1) False by auto
  define H1 where "H1 = hmod x (\<lambda>e. e\<lparr>cb_lru_next := Some ?l\<rparr>) ?H"
  define H2 where "H2 = hmod x (\<lambda>e. e\<lparr>cb_lru_prev := Some ?p\<rparr>) H1"
  define H3 where "H3 = hmod ?p (\<lambda>e. e\<lparr>cb_lru_next := Some x\<rparr>) H2"
  define H4 where "H4 = hmod ?l (\<lambda>e. e\<lparr>cb_lru_prev := Some x\<rparr>) H3"
  have dom': "H1 a = None \<longleftrightarrow> ?H a = None" "H2 a = None \<longleftrightarrow> ?H a = None" "H3 a = None \<longleftrightarrow> ?H a = None" for a
    by (simp_all add: H1_def H2_def H3_def)
  have ptr: "pv H1 = pv ?H" "nx H3 = (nx ?H)(x \<mapsto> ?l, ?p \<mapsto> x)" "pv H3 = (pv ?H)(x \<mapsto> ?p)" "nx H4 = nx H3" "pv H4 = (pv ?H)(x \<mapsto> ?p, ?l \<mapsto> x)"
    "bare H4 = bare ?H" using x(2) dom dom' by (simp_all add: H1_def H2_def H3_def H4_def hmod_pointers)
  obtain el where el: "H1 ?l = Some el" using dom(1) dom'(1) by (metis option.exhaust)
  obtain e3 where e3: "H3 x = Some e3" using x(2) dom'(3) by (metis option.exhaust)
  have "cb_lru_prev el = Some ?p" "cb_lru_next e3 = Some ?l" using pointers_at [of H1 ?l el, OF el] pointers_at [of H3 x e3, OF e3] ptr adj ne by simp_all
  then have "lru_insert x st = Done (st\<lparr>ca_bfds := H4, ca_last_cache := Some x\<rparr>)"
    using False l x(2) el e3 dom dom'
    by (simp add: lru_insert_def cb_update_hmod cb_get_at deref_def H1_def [symmetric] H2_def [symmetric] H3_def [symmetric] H4_def [symmetric])
  moreover have "ring H4 (x # xs)" using R x(1) by (rule ring_insert) (simp_all add: ptr False)
  ultimately show ?thesis using ptr(6) by blast
qed

lemma snip_ok:
  assumes R: "ring (ca_bfds st) (ys @ x # zs)" and l: "ca_last_cache st = head_of (ys @ x # zs)"
  shows "\<exists>H'. snip x st = Done (st\<lparr>ca_bfds := H', ca_last_cache := head_of (ys @ zs)\<rparr>) \<and> bare H' = bare (ca_bfds st) \<and> ring H' (ys @ zs)"
proof -
  let ?H = "ca_bfds st"
  define p n where "p = (if ys = [] then last (x # zs) else last ys)" "n = (if zs = [] then hd (ys @ [x]) else hd zs)"
  have pn: "pv ?H x = Some p" "nx ?H x = Some n" using ring_neighbours [OF R] by (simp_all add: p_n_def)
  have "p \<in> set (ys @ x # zs)" "n \<in> set (ys @ x # zs)" unfolding p_n_def by (auto simp: hd_append)
  then have dom: "?H x \<noteq> None" "?H p \<noteq> None" "?H n \<noteq> None" using ring_dom [OF R] by (simp_all del: not_None_eq)
  define H1 where "H1 = hmod p (\<lambda>e. e\<lparr>cb_lru_next := Some n\<rparr>) ?H"
  define H2 where "H2 = hmod n (\<lambda>e. e\<lparr>cb_lru_prev := Some p\<rparr>) H1"
  have dom': "H1 a = None \<longleftrightarrow> ?H a = None" "H2 a = None \<longleftrightarrow> ?H a = None" for a by (simp_all add: H1_def H2_def)
  have ptr: "nx H1 = (nx ?H)(p \<mapsto> n)" "pv H1 = pv ?H" "nx H2 = nx H1" "pv H2 = (pv ?H)(n \<mapsto> p)" "bare H2 = bare ?H"
    using dom dom' by (simp_all add: H1_def H2_def hmod_pointers)
  obtain e e1 e2 where e: "?H x = Some e" "H1 x = Some e1" "H2 x = Some e2" using dom(1) dom' by (metis option.exhaust)
  have f: "cb_lru_prev e = Some p" "cb_lru_next e = Some n" "cb_lru_next e1 = Some n" "cb_lru_prev e1 = Some p" "cb_lru_next e2 = Some n"
    using pointers_at [of ?H x e, OF e(1)] pointers_at [of H1 x e1, OF e(2)] pointers_at [of H2 x e2, OF e(3)] ptr pn by simp_all
  have d: "distinct (ys @ x # zs)" using R by (simp add: ring_def)
  have nxp: "n = x \<longleftrightarrow> ys = [] \<and> zs = []" using d unfolding p_n_def by (auto simp: hd_append)
  have head: "(if ca_last_cache st = Some x then if n = x then None else Some n else ca_last_cache st) = head_of (ys @ zs)"
  proof (cases "ys = []")
    case True
    then show ?thesis using l nxp by (auto simp: p_n_def)
  next
    case False
    then have "hd ys \<noteq> x" using d by (cases ys) auto
    then show ?thesis using l False by (simp add: hd_append)
  qed
  have "snip x st = Done (st\<lparr>ca_bfds := H2, ca_last_cache := if ca_last_cache st = Some x then if n = x then None else Some n else ca_last_cache st\<rparr>)"
    using e f dom dom'
    by (simp add: snip_def cb_update_hmod cb_get_at deref_def H1_def [symmetric] H2_def [symmetric])
  then have "snip x st = Done (st\<lparr>ca_bfds := H2, ca_last_cache := head_of (ys @ zs)\<rparr>)" unfolding head .
  moreover have "ring H2 (ys @ zs)" by (rule ring_snip [OF R pn]) (simp_all add: ptr)
  ultimately show ?thesis using ptr(5) by blast
qed

end
