(* ===== verification/Bfd_Cache_Inv.thy ===== *)
theory Bfd_Cache_Inv
  imports Bfd_Cache_Ring
begin

text \<open>
  The invariant of the cache, and that opening, closing, evicting and looking up files keep it.
\<close>

section \<open>The invariant\<close>

text \<open>Of a file: whether the cache manages it, its stream, and whether its format is being determined.\<close>

definition handle :: "(nat \<rightharpoonup> cached_bfd) \<Rightarrow> nat \<rightharpoonup> bool \<times> nat option \<times> bool" where
  "handle H b = map_option (\<lambda>e. (cb_cache_iovec e, cb_iostream e, cb_in_format_matches e)) (H b)"

text \<open>Which files are open (outside of \<open>X\<close>, files that are just being opened): those on the ring, \<open>xs\<close>, and those that were taken off it while their format is being determined, \<open>ps\<close>.\<close>

definition held :: "nat set \<Rightarrow> (nat \<rightharpoonup> bool \<times> nat option \<times> bool) \<Rightarrow> stdio \<Rightarrow> nat list \<Rightarrow> nat list \<Rightarrow> bool" where
  "held X h io xs ps \<longleftrightarrow>
     (\<forall>b \<in> set (xs @ ps). \<exists>f. h b = Some (True, Some f, b \<in> set ps) \<and> f \<in> dom (io_streams io)) \<and>
     (\<forall>b f m. h b = Some (True, f, m) \<and> b \<notin> set (xs @ ps) \<and> b \<notin> X \<longrightarrow> f = None \<and> \<not> m) \<and>
     (\<forall>b b' i i' m m' f. h b = Some (i, Some f, m) \<and> h b' = Some (i', Some f, m') \<longrightarrow> b = b') \<and>
     (\<forall>b i f m. h b = Some (i, Some f, m) \<longrightarrow> f < io_next io) \<and> (\<forall>f \<in> dom (io_streams io). f < io_next io)"

definition cache_ok :: "nat set \<Rightarrow> bfd_cache \<Rightarrow> nat list \<Rightarrow> nat list \<Rightarrow> bool" where
  "cache_ok X st xs ps \<longleftrightarrow> ring (ca_bfds st) xs \<and> ca_last_cache st = head_of xs \<and> distinct (xs @ ps) \<and>
     ca_open_files st = of_nat (length xs + length ps) \<and> held X (handle (ca_bfds st)) (ca_io st) xs ps"

definition strip :: "cached_bfd \<Rightarrow> cached_bfd" where
  "strip e = e\<lparr>cb_lru_next := None, cb_lru_prev := None\<rparr>"

lemma strip_simps [simp]:
  "cb_filename (strip e) = cb_filename e" "cb_direction (strip e) = cb_direction e" "cb_iostream (strip e) = cb_iostream e" "cb_where (strip e) = cb_where e"
  "cb_cacheable (strip e) = cb_cacheable e" "cb_opened_once (strip e) = cb_opened_once e" "cb_in_format_matches (strip e) = cb_in_format_matches e"
  "cb_in_memory (strip e) = cb_in_memory e" "cb_my_archive (strip e) = cb_my_archive e" "cb_cache_iovec (strip e) = cb_cache_iovec e"
  "possibly_cached (strip e) = possibly_cached e"
  by (simp_all add: strip_def possibly_cached_def)

lemma strip_eqD:
  assumes "strip e' = strip e"
  shows "cb_filename e' = cb_filename e" "cb_direction e' = cb_direction e" "cb_iostream e' = cb_iostream e" "cb_where e' = cb_where e"
    "cb_cacheable e' = cb_cacheable e" "cb_opened_once e' = cb_opened_once e" "cb_in_format_matches e' = cb_in_format_matches e"
    "cb_cache_iovec e' = cb_cache_iovec e" "possibly_cached e' = possibly_cached e"
  using arg_cong [OF assms, of cb_filename]
    arg_cong [OF assms, of cb_direction]
    arg_cong [OF assms, of cb_iostream]
    arg_cong [OF assms, of cb_where]
    arg_cong [OF assms, of cb_cacheable]
    arg_cong [OF assms, of cb_opened_once]
    arg_cong [OF assms, of cb_in_format_matches]
    arg_cong [OF assms, of cb_cache_iovec]
    arg_cong [OF assms, of possibly_cached]
  by simp_all

lemma bare_strip: "bare H a = map_option strip (H a)"
  unfolding bare_def strip_def [abs_def] by (rule refl)

lemma bare_at: "bare H' = bare H \<Longrightarrow> H a = Some e \<Longrightarrow> \<exists>e'. H' a = Some e' \<and> strip e' = strip e"
proof -
  assume "bare H' = bare H" "H a = Some e"
  then have "map_option strip (H' a) = Some (strip e)" using bare_strip [of H' a] bare_strip [of H a] by simp
  then show ?thesis by auto
qed

lemma handle_bare: "handle (bare H) = handle H"
  by (simp add: handle_def bare_strip fun_eq_iff option.map_comp comp_def)

lemma handle_same: "bare H' = bare H \<Longrightarrow> handle H' = handle H"
  by (metis handle_bare)

lemma handle_put: "handle (H(b \<mapsto> e)) = (handle H)(b \<mapsto> (cb_cache_iovec e, cb_iostream e, cb_in_format_matches e))"
  by (simp add: handle_def fun_eq_iff)

lemma heldD:
  assumes "held X h io xs ps"
  shows "\<And>b. b \<in> set (xs @ ps) \<Longrightarrow> \<exists>f. h b = Some (True, Some f, b \<in> set ps) \<and> f \<in> dom (io_streams io)"
    "\<And>b f m. h b = Some (True, f, m) \<Longrightarrow> b \<notin> set (xs @ ps) \<Longrightarrow> b \<notin> X \<Longrightarrow> f = None \<and> \<not> m"
    "\<And>b b' i i' m m' f. h b = Some (i, Some f, m) \<Longrightarrow> h b' = Some (i', Some f, m') \<Longrightarrow> b = b'"
    "\<And>b i f m. h b = Some (i, Some f, m) \<Longrightarrow> f < io_next io" "\<And>f. f \<in> dom (io_streams io) \<Longrightarrow> f < io_next io"
  using assms unfolding held_def by blast+

lemma heldI:
  assumes "\<And>b. b \<in> set (xs @ ps) \<Longrightarrow> \<exists>f. h b = Some (True, Some f, b \<in> set ps) \<and> f \<in> dom (io_streams io)"
    "\<And>b f m. h b = Some (True, f, m) \<Longrightarrow> b \<notin> set (xs @ ps) \<Longrightarrow> b \<notin> X \<Longrightarrow> f = None \<and> \<not> m"
    "\<And>b b' i i' m m' f. h b = Some (i, Some f, m) \<Longrightarrow> h b' = Some (i', Some f, m') \<Longrightarrow> b = b'"
    "\<And>b i f m. h b = Some (i, Some f, m) \<Longrightarrow> f < io_next io" "\<And>f. f \<in> dom (io_streams io) \<Longrightarrow> f < io_next io"
  shows "held X h io xs ps"
  unfolding held_def using assms by blast

lemma handle_unchanged:
  assumes "H b = Some e" "cb_cache_iovec e' = cb_cache_iovec e" "cb_iostream e' = cb_iostream e" "cb_in_format_matches e' = cb_in_format_matches e"
  shows "handle (H(b \<mapsto> e')) = handle H"
  using assms by (auto simp: handle_def fun_eq_iff)

lemma held_io: "io_streams io' = io_streams io \<Longrightarrow> io_next io' = io_next io \<Longrightarrow> held X h io' xs ps = held X h io xs ps"
  by (simp add: held_def)

lemma held_order: "set xs' = set xs \<Longrightarrow> held X h io xs' ps = held X h io xs ps"
  by (simp add: held_def)

lemma cache_okD:
  assumes "cache_ok X st xs ps"
  shows "ring (ca_bfds st) xs" "ca_last_cache st = head_of xs" "distinct (xs @ ps)" "ca_open_files st = of_nat (length xs + length ps)"
    "held X (handle (ca_bfds st)) (ca_io st) xs ps"
  using assms by (simp_all add: cache_ok_def)

lemma held_at:
  assumes "held X (handle H) io xs ps" "b \<in> set (xs @ ps)"
  obtains e f where "H b = Some e" "cb_cache_iovec e" "cb_iostream e = Some f" "f \<in> dom (io_streams io)" "cb_in_format_matches e \<longleftrightarrow> b \<in> set ps"
proof -
  obtain f where "handle H b = Some (True, Some f, b \<in> set ps)" "f \<in> dom (io_streams io)" using assms unfolding held_def by blast
  then show thesis using that by (auto simp: handle_def)
qed

section \<open>Use\<close>

lemma move_to_front:
  assumes ok: "cache_ok X st (ys @ b # zs) ps"
  shows "\<exists>H'. cbind (snip b st) (lru_insert b) = Done (st\<lparr>ca_bfds := H', ca_last_cache := Some b\<rparr>) \<and> bare H' = bare (ca_bfds st) \<and>
    cache_ok X (st\<lparr>ca_bfds := H', ca_last_cache := Some b\<rparr>) (b # ys @ zs) ps"
proof -
  note D = cache_okD [OF ok]
  obtain H1 where H1: "snip b st = Done (st\<lparr>ca_bfds := H1, ca_last_cache := head_of (ys @ zs)\<rparr>)" "bare H1 = bare (ca_bfds st)" "ring H1 (ys @ zs)"
    using snip_ok [OF D(1,2)] by blast
  let ?s = "st\<lparr>ca_bfds := H1, ca_last_cache := head_of (ys @ zs)\<rparr>"
  have "ca_bfds st b \<noteq> None" using ring_dom [OF D(1)] by simp
  then have "H1 b \<noteq> None" using H1(2) by (metis bare_strip map_option_is_None)
  then obtain H2 where H2: "lru_insert b ?s = Done (?s\<lparr>ca_bfds := H2, ca_last_cache := Some b\<rparr>)" "bare H2 = bare H1" "ring H2 (b # ys @ zs)"
    using lru_insert_ok [of ?s "ys @ zs" b] H1(3) D(3) by auto
  have "held X (handle H2) (ca_io st) (b # ys @ zs) ps"
    using D(5) H1(2) H2(2) handle_same [of H2 "ca_bfds st"] held_order [of "b # ys @ zs" "ys @ b # zs"] by auto
  then have "cache_ok X (st\<lparr>ca_bfds := H2, ca_last_cache := Some b\<rparr>) (b # ys @ zs) ps"
    using H2(3) D(3,4) by (auto simp: cache_ok_def)
  then show ?thesis using H1(1,2) H2(1,2) by (intro exI [of _ H2]) simp
qed

section \<open>Closing\<close>

lemma bare_put: "bare (H(a \<mapsto> e)) = (bare H)(a \<mapsto> strip e)"
  by (auto simp: bare_strip fun_eq_iff)

definition shut :: "cached_bfd \<Rightarrow> cached_bfd" where
  "shut e = e\<lparr>cb_iostream := None, cb_closed_by_cache := True, cb_io_force := True\<rparr>"

lemma shut_strip: "strip (shut e) = shut (strip e)"
  by (simp add: strip_def shut_def)

lemma ring_put:
  assumes "ring H xs" "H b = Some e" "cb_lru_next e' = cb_lru_next e" "cb_lru_prev e' = cb_lru_prev e"
  shows "ring (H(b \<mapsto> e')) xs"
proof -
  have "nx (H(b \<mapsto> e')) = nx H" "pv (H(b \<mapsto> e')) = pv H" using assms(2-4) by (auto simp: nx_def pv_def fun_eq_iff)
  then have "adjacent (H(b \<mapsto> e')) = adjacent H" by (simp add: adjacent_def fun_eq_iff)
  then show ?thesis using assms(1) by (simp add: ring_def)
qed

text \<open>The stream of a file on the ring is closed.\<close>

lemma held_close:
  assumes "held X h io (ys @ b # zs) ps" "h b = Some (True, Some f, False)" "b \<notin> set (ys @ zs)" "b \<notin> set ps"
    and "io_streams io' = (io_streams io)(f := None)" "io_next io' = io_next io"
  shows "held X (h(b \<mapsto> (True, None, False))) io' (ys @ zs) ps"
proof -
  have other: "h a \<noteq> Some (i, Some f, m)" if "a \<noteq> b" for a i m using assms(1,2) that unfolding held_def by blast
  note D = heldD [OF assms(1)]
  show ?thesis
  proof (rule heldI)
    fix a assume a: "a \<in> set ((ys @ zs) @ ps)"
    then have "a \<noteq> b" "a \<in> set ((ys @ b # zs) @ ps)" using assms(3,4) by auto
    then show "\<exists>f'. (h(b \<mapsto> (True, None, False))) a = Some (True, Some f', a \<in> set ps) \<and> f' \<in> dom (io_streams io')"
      using D(1) [of a] other assms(5) by fastforce
  next
    fix a g m assume "(h(b \<mapsto> (True, None, False))) a = Some (True, g, m)" "a \<notin> set ((ys @ zs) @ ps)" "a \<notin> X"
    then show "g = None \<and> \<not> m" using D(2) [of a g m] by (auto split: if_splits)
  next
    fix a a' i i' m m' g
    assume "(h(b \<mapsto> (True, None, False))) a = Some (i, Some g, m)" "(h(b \<mapsto> (True, None, False))) a' = Some (i', Some g, m')"
    then show "a = a'" using D(3) [of a i g m a' i' m'] by (auto split: if_splits)
  next
    fix a i g m assume "(h(b \<mapsto> (True, None, False))) a = Some (i, Some g, m)"
    then show "g < io_next io'" using D(4) [of a i g m] assms(6) by (auto split: if_splits)
  next
    fix g assume "g \<in> dom (io_streams io')"
    then show "g < io_next io'" using D(5) [of g] assms(5,6) by (auto split: if_splits)
  qed
qed

lemma strip_where: "strip (e\<lparr>cb_where := p\<rparr>) = (strip e)\<lparr>cb_where := p\<rparr>"
  by (cases e) (simp add: strip_def)

lemma delete_ok:
  assumes ok: "cache_ok X st (ys @ b # zs) ps" and e: "ca_bfds st b = Some e" "cb_iostream e = Some f"
  shows "\<exists>ret st'. bfd_cache_delete b st = Done (ret, st') \<and> cache_ok X st' (ys @ zs) ps \<and>
    bare (ca_bfds st') = (bare (ca_bfds st))(b \<mapsto> shut (strip e)) \<and>
    ca_io st' = (ca_io st)\<lparr>io_streams := (io_streams (ca_io st))(f := None), io_calls := Suc (io_calls (ca_io st))\<rparr> \<and>
    ret = io_close_ok (ca_io st) (Suc (io_calls (ca_io st))) \<and> ca_max_open_files st' = ca_max_open_files st"
proof -
  note D = cache_okD [OF ok]
  let ?io = "ca_io st"
  let ?io' = "?io\<lparr>io_streams := (io_streams ?io)(f := None), io_calls := Suc (io_calls ?io)\<rparr>"
  let ?ret = "io_close_ok ?io (Suc (io_calls ?io))"
  have managed: "cb_cache_iovec e" "\<not> cb_in_format_matches e" and "f \<in> dom (io_streams ?io)"
    by (rule held_at [OF D(5), of b]; use e D(3) in auto)+
  then have fc: "with_io (fclose f) st = Done (?ret, st\<lparr>ca_io := ?io'\<rparr>)" by (auto simp: with_io_def fclose_def try_call_def)
  define s1 where "s1 = (if ?ret then st\<lparr>ca_io := ?io'\<rparr> else set_error bfd_error_system_call (st\<lparr>ca_io := ?io'\<rparr>))"
  have s1: "ca_bfds s1 = ca_bfds st" "ca_last_cache s1 = ca_last_cache st" "ca_open_files s1 = ca_open_files st" "ca_io s1 = ?io'"
      "ca_max_open_files s1 = ca_max_open_files st"
    by (simp_all add: s1_def set_error_def)
  obtain H1 where H1: "snip b s1 = Done (s1\<lparr>ca_bfds := H1, ca_last_cache := head_of (ys @ zs)\<rparr>)" "bare H1 = bare (ca_bfds st)" "ring H1 (ys @ zs)"
    using snip_ok [of s1 ys b zs] D(1,2) s1 by auto
  obtain e1 where e1: "H1 b = Some e1" "strip e1 = strip e" using bare_at [OF H1(2) e(1)] by blast
  let ?e = "shut e1"
  let ?st = "s1\<lparr>ca_bfds := H1(b \<mapsto> ?e), ca_last_cache := head_of (ys @ zs), ca_open_files := ca_open_files s1 - 1,
    ca_asserts := ca_asserts s1 + (if ca_open_files s1 > 0 then 0 else 1)\<rparr>"
  have run: "bfd_cache_delete b st = Done (?ret, ?st)"
    using e fc H1(1) e1(1) unfolding bfd_cache_delete_def shut_def
    by (simp add: cb_get_at deref_def s1_def [symmetric] cb_update_def cb_get_def cb_put_def)
  have b: "b \<notin> set (ys @ zs)" "b \<notin> set ps" "distinct ((ys @ zs) @ ps)" using D(3) by auto
  have bare: "bare (ca_bfds ?st) = (bare (ca_bfds st))(b \<mapsto> shut (strip e))"
    using H1(2) e1(2) by (simp add: bare_put shut_strip)
  have "ring (H1(b \<mapsto> ?e)) (ys @ zs)" by (rule ring_put [OF H1(3) e1(1)]) (simp_all add: shut_def)
  moreover have "held X (handle (ca_bfds ?st)) ?io' (ys @ zs) ps"
    using held_close [OF D(5) _ b(1,2), of f ?io'] e managed handle_same [OF H1(2)] strip_eqD [OF e1(2)] handle_put [of H1 b "shut e1"]
    by (simp add: shut_def handle_def)
  moreover have "ca_open_files ?st = of_nat (length (ys @ zs) + length ps)" using D(4) s1 by simp
  ultimately have "cache_ok X ?st (ys @ zs) ps" using b s1 by (simp add: cache_ok_def)
  moreover have "ca_io ?st = ?io'" "ca_max_open_files ?st = ca_max_open_files st" using s1 by simp_all
  ultimately show ?thesis using run bare by blast
qed

section \<open>Eviction\<close>

text \<open>The least recently used file that may be closed.\<close>

definition cacheable_at :: "(nat \<rightharpoonup> cached_bfd) \<Rightarrow> nat \<Rightarrow> bool" where
  "cacheable_at H b = (case H b of None \<Rightarrow> False | Some e \<Rightarrow> cb_cacheable e)"

definition victim :: "(nat \<rightharpoonup> cached_bfd) \<Rightarrow> nat list \<Rightarrow> nat option" where
  "victim H xs = find (cacheable_at H) (rev xs)"

lemma find_victim_ok:
  assumes "ring (ca_bfds st) (ys @ x # zs)" "ca_last_cache st = head_of (ys @ x # zs)"
  shows "find_victim x st = Some (Done (victim (ca_bfds st) (ys @ [x])))"
  using assms
proof (induction ys arbitrary: x zs rule: rev_induct)
  case Nil
  obtain e where e: "ca_bfds st x = Some e" using ring_dom [OF Nil.prems(1), of x] by auto
  then show ?case using Nil.prems(2) by (subst find_victim.simps) (simp add: cb_get_at victim_def cacheable_at_def)
next
  case (snoc y ys)
  obtain e where e: "ca_bfds st x = Some e" using ring_dom [OF snoc.prems(1), of x] by auto
  have p: "cb_lru_prev e = Some y" using ring_neighbours(1) [of "ca_bfds st" "ys @ [y]" x zs] snoc.prems(1) pointers_at(2) [of "ca_bfds st" x e] e by simp
  have "hd ((ys @ [y]) @ x # zs) \<noteq> x" using snoc.prems(1) by (cases ys) (auto simp: ring_def)
  then have last: "ca_last_cache st \<noteq> Some x" using snoc.prems(2) by simp
  have "find_victim y st = Some (Done (victim (ca_bfds st) (ys @ [y])))" using snoc.IH [of y "x # zs"] snoc.prems by simp
  then show ?case using e p last by (subst find_victim.simps) (simp add: cb_get_at victim_def cacheable_at_def)
qed

lemma victim_split:
  assumes "victim H xs = Some k"
  obtains ys zs where "xs = ys @ k # zs" "cacheable_at H k" "\<forall>b \<in> set zs. \<not> cacheable_at H b"
proof -
  have k: "cacheable_at H k" using assms by (auto simp: victim_def find_Some_iff)
  obtain i where i: "i < length xs" "cacheable_at H (rev xs ! i)" "k = rev xs ! i" "\<forall>j < i. \<not> cacheable_at H (rev xs ! j)"
    using assms by (auto simp: victim_def find_Some_iff)
  have split: "rev xs = take i (rev xs) @ k # drop (Suc i) (rev xs)" using i(1,3) id_take_nth_drop [of i "rev xs"] by simp
  have "xs = rev (drop (Suc i) (rev xs)) @ k # rev (take i (rev xs))" by (subst rev_rev_ident [symmetric], subst split) simp
  moreover have "\<forall>b \<in> set (rev (take i (rev xs))). \<not> cacheable_at H b" using i(1,4) by (auto simp: in_set_conv_nth)
  ultimately show thesis using that k by blast
qed

text \<open>What evicting a file leaves of the state.\<close>

definition evicted :: "bfd_cache \<Rightarrow> nat option \<Rightarrow> bfd_cache \<Rightarrow> bool" where
  "evicted st k st' \<longleftrightarrow>
     (case k of
        None \<Rightarrow> ca_bfds st' = ca_bfds st \<and> ca_io st' = ca_io st
      | Some k \<Rightarrow> \<exists>e f s. ca_bfds st k = Some e \<and> cb_iostream e = Some f \<and> io_streams (ca_io st) f = Some s \<and>
          bare (ca_bfds st') = (bare (ca_bfds st))(k \<mapsto> shut ((strip e)\<lparr>cb_where := if io_ok (ca_io st) (io_calls (ca_io st)) then int (sm_pos s) else - 1\<rparr>)) \<and>
          ca_io st' = (ca_io st)\<lparr>io_streams := (io_streams (ca_io st))(f := None), io_calls := Suc (Suc (io_calls (ca_io st)))\<rparr>)"

lemma close_one_ok:
  assumes ok: "cache_ok X st xs ps"
  shows "\<exists>ret st'. close_one st = Some (Done (ret, st')) \<and> ((\<forall>n. io_close_ok (ca_io st) n) \<longrightarrow> ret) \<and>
    cache_ok X st' (case victim (ca_bfds st) xs of None \<Rightarrow> xs | Some k \<Rightarrow> remove1 k xs) ps \<and> evicted st (victim (ca_bfds st) xs) st'"
proof (cases "xs = []")
  case True
  then have "close_one st = Some (Done (True, st))" "victim (ca_bfds st) xs = None"
    using cache_okD(2) [OF ok] by (simp_all add: close_one_def victim_def)
  then show ?thesis using ok by (auto simp: evicted_def)
next
  case False
  note D = cache_okD [OF ok]
  obtain us p where us: "xs = us @ [p]" using False by (metis append_butlast_last_id)
  have fv: "find_victim p st = Some (Done (victim (ca_bfds st) xs))" using find_victim_ok [of st us p "[]"] D(1,2) us by simp
  have "pv (ca_bfds st) (hd xs) = Some p" using D(1) False us by (simp add: ring_def adjacent_def)
  moreover obtain el where el: "ca_bfds st (hd xs) = Some el" using ring_dom [OF D(1), of "hd xs"] False by auto
  ultimately have look: "rbind (case ca_last_cache st of None \<Rightarrow> Some (Done None)
      | Some l \<Rightarrow> rbind (Some (cbind (cb_get l st) (\<lambda>e. deref (cb_lru_prev e)))) (\<lambda>p. find_victim p st)) g = g (victim (ca_bfds st) xs)"
    for g :: "nat option \<Rightarrow> (bool \<times> bfd_cache) run"
    using D(2) False fv pointers_at(2) [of "ca_bfds st" "hd xs" el] by (simp add: cb_get_at deref_def)
  show ?thesis
  proof (cases "victim (ca_bfds st) xs")
    case None
    then show ?thesis using ok by (auto simp: close_one_def look evicted_def)
  next
    case (Some k)
    then obtain ys zs where xs: "xs = ys @ k # zs" by (rule victim_split)
    obtain e f where e: "ca_bfds st k = Some e" "cb_iostream e = Some f" "f \<in> dom (io_streams (ca_io st))" by (rule held_at [OF D(5), of k]) (use xs in auto)
    then obtain s where s: "io_streams (ca_io st) f = Some s" by blast
    let ?io = "(ca_io st)\<lparr>io_calls := Suc (io_calls (ca_io st))\<rparr>"
    let ?pos = "if io_ok (ca_io st) (io_calls (ca_io st)) then int (sm_pos s) else - 1"
    let ?e = "e\<lparr>cb_where := ?pos\<rparr>"
    let ?s = "st\<lparr>ca_io := ?io, ca_bfds := (ca_bfds st)(k \<mapsto> ?e)\<rparr>"
    have run: "close_one st = Some (bfd_cache_delete k ?s)"
      using e s by (simp add: close_one_def look Some cb_get_at deref_def with_io_def ftell_def try_call_def cb_update_def cb_get_def cb_put_def)
    have "ring (ca_bfds ?s) xs" using ring_put [OF D(1) e(1), of ?e] by simp
    moreover have "held X (handle (ca_bfds ?s)) ?io xs ps"
      using D(5) handle_unchanged [of "ca_bfds st" k e ?e, OF e(1)] held_io [of ?io "ca_io st"] by simp
    ultimately have "cache_ok X ?s (ys @ k # zs) ps" using D xs by (simp add: cache_ok_def)
    from delete_ok [OF this, of ?e f]
    obtain ret st' where d: "bfd_cache_delete k ?s = Done (ret, st')" "cache_ok X st' (ys @ zs) ps" "bare (ca_bfds st') = (bare (ca_bfds ?s))(k \<mapsto> shut (strip ?e))"
        "ca_io st' = ?io\<lparr>io_streams := (io_streams ?io)(f := None), io_calls := Suc (io_calls ?io)\<rparr>" "ret = io_close_ok ?io (Suc (io_calls ?io))"
        "ca_max_open_files st' = ca_max_open_files st"
      using e by auto
    have "remove1 k xs = ys @ zs" using xs D(3) by (simp add: remove1_append)
    moreover have "bare (ca_bfds st') = (bare (ca_bfds st))(k \<mapsto> shut ((strip e)\<lparr>cb_where := ?pos\<rparr>))"
      using d(3) by (simp add: bare_put strip_where)
    ultimately show ?thesis using run d Some e s by (auto simp: evicted_def)
  qed
qed

end
