(* ===== verification/Bfd_Cache_Open.thy ===== *)
theory Bfd_Cache_Open
  imports Bfd_Cache_Inv
begin

text \<open>
  Opening and looking up files.  A file has a place, an inode and a position in it, whether it is open or was closed by the cache;
  making room for another file does not change the place of any file.
\<close>

section \<open>Places\<close>

definition place :: "(nat \<rightharpoonup> cached_bfd) \<Rightarrow> stdio \<Rightarrow> nat \<rightharpoonup> nat \<times> int" where
  "place H io b = (case H b of
     None \<Rightarrow> None
   | Some e \<Rightarrow> (case cb_iostream e of
       Some f \<Rightarrow> map_option (\<lambda>s. (sm_inode s, int (sm_pos s))) (io_streams io f)
     | None \<Rightarrow> map_option (\<lambda>i. (i, cb_where e)) (io_disk io (cb_filename e))))"

text \<open>The names of the files that are open still lead to them.\<close>

definition key :: "(nat \<rightharpoonup> cached_bfd) \<Rightarrow> nat \<rightharpoonup> string \<times> nat" where
  "key H b = (case H b of None \<Rightarrow> None | Some e \<Rightarrow> map_option (Pair (cb_filename e)) (cb_iostream e))"

definition named :: "(nat \<rightharpoonup> cached_bfd) \<Rightarrow> stdio \<Rightarrow> bool" where
  "named H io \<longleftrightarrow> (\<forall>b n f s. key H b = Some (n, f) \<and> io_streams io f = Some s \<longrightarrow> io_disk io n = Some (sm_inode s))"

definition meta :: "(nat \<rightharpoonup> cached_bfd) \<Rightarrow> nat \<rightharpoonup> string \<times> bfd_direction \<times> bool \<times> bool \<times> bool" where
  "meta H b = map_option (\<lambda>e. (cb_filename e, cb_direction e, cb_opened_once e, possibly_cached e, cb_in_format_matches e)) (H b)"

lemma place_bare: "place (bare H) = place H"
  by (auto simp: place_def bare_strip fun_eq_iff split: option.split)

lemma meta_bare: "meta (bare H) = meta H"
  by (simp add: meta_def bare_strip fun_eq_iff option.map_comp comp_def)

lemma key_bare: "key (bare H) = key H"
  by (auto simp: key_def bare_strip fun_eq_iff split: option.split)

lemma named_bare: "named (bare H) io = named H io"
  by (simp add: named_def key_bare)

lemma bare_views:
  assumes "bare H' = bare H"
  shows "place H' = place H" "meta H' = meta H" "named H' io = named H io" "handle H' = handle H"
  using assms place_bare meta_bare named_bare handle_same by metis+

text \<open>A change that no user of a file notices, when nothing fails.\<close>

abbreviation all_ok :: "stdio \<Rightarrow> bool" where
  "all_ok io \<equiv> io_ok io = (\<lambda>_. True)"

definition calm :: "bfd_cache \<Rightarrow> bfd_cache \<Rightarrow> bool" where
  "calm st st' \<longleftrightarrow> io_disk (ca_io st') = io_disk (ca_io st) \<and> io_inodes (ca_io st') = io_inodes (ca_io st) \<and> io_ok (ca_io st') = io_ok (ca_io st) \<and>
     io_close_ok (ca_io st') = io_close_ok (ca_io st) \<and> meta (ca_bfds st') = meta (ca_bfds st) \<and>
     (all_ok (ca_io st) \<longrightarrow> named (ca_bfds st) (ca_io st) \<longrightarrow>
        named (ca_bfds st') (ca_io st') \<and> place (ca_bfds st') (ca_io st') = place (ca_bfds st) (ca_io st))"

lemma calm_refl: "calm st st"
  by (simp add: calm_def)

lemma calm_trans: "calm st st' \<Longrightarrow> calm st' st'' \<Longrightarrow> calm st st''"
  by (simp add: calm_def)

lemma calm_bare: "bare (ca_bfds st') = bare (ca_bfds st) \<Longrightarrow> ca_io st' = ca_io st \<Longrightarrow> calm st st'"
  by (simp add: calm_def bare_views [of "ca_bfds st'" "ca_bfds st"])

text \<open>Entries that differ in what does not count only.\<close>

lemma put_views:
  assumes "bare H' = (bare H)(b \<mapsto> e')" "H b = Some e" "cb_filename e' = cb_filename e" "cb_iostream e' = cb_iostream e" "cb_where e' = cb_where e"
    "cb_direction e' = cb_direction e" "cb_opened_once e' = cb_opened_once e" "possibly_cached e' = possibly_cached e" "cb_in_format_matches e' = cb_in_format_matches e"
  shows "place H' = place H" "meta H' = meta H" "named H' io = named H io"
proof -
  have b: "bare H b = Some (strip e)" using assms(2) by (simp add: bare_strip)
  have "place ((bare H)(b \<mapsto> e')) io = place (bare H) io" for io using b assms(3-5) by (auto simp: place_def fun_eq_iff split: option.split)
  then show "place H' = place H" using assms(1) place_bare by (metis ext)
  have "meta ((bare H)(b \<mapsto> e')) = meta (bare H)" using b assms(3-9) by (auto simp: meta_def fun_eq_iff)
  then show "meta H' = meta H" using assms(1) meta_bare by metis
  have "key ((bare H)(b \<mapsto> e')) = key (bare H)" using b assms(3,4) by (auto simp: key_def fun_eq_iff)
  then have "named ((bare H)(b \<mapsto> e')) io = named (bare H) io" by (simp add: named_def)
  then show "named H' io = named H io" using assms(1) named_bare by metis
qed

lemma evicted_calm:
  assumes ok: "cache_ok X st xs ps" and ev: "evicted st k st'"
  shows "calm st st'"
proof (cases k)
  case None
  then show ?thesis using ev by (simp add: evicted_def calm_def)
next
  case (Some k)
  let ?io = "ca_io st" let ?H = "ca_bfds st"
  let ?pos = "\<lambda>s. if io_ok ?io (io_calls ?io) then int (sm_pos s) else - 1"
  obtain e f s where e: "?H k = Some e" "cb_iostream e = Some f" "io_streams ?io f = Some s" "bare (ca_bfds st') = (bare ?H)(k \<mapsto> shut ((strip e)\<lparr>cb_where := ?pos s\<rparr>))"
      "ca_io st' = ?io\<lparr>io_streams := (io_streams ?io)(f := None), io_calls := Suc (Suc (io_calls ?io))\<rparr>"
    using ev Some by (auto simp: evicted_def)
  let ?e = "shut ((strip e)\<lparr>cb_where := ?pos s\<rparr>)"
  have b: "bare ?H k = Some (strip e)" using e(1) by (simp add: bare_strip)
  have f: "cb_filename ?e = cb_filename e" "cb_iostream ?e = None" "cb_where ?e = ?pos s" "cb_direction ?e = cb_direction e" "cb_opened_once ?e = cb_opened_once e"
      "possibly_cached ?e = possibly_cached e" "cb_in_format_matches ?e = cb_in_format_matches e"
    by (simp_all add: shut_def possibly_cached_def strip_def)
  have meta: "meta (ca_bfds st') = meta ?H"
  proof -
    have "meta ((bare ?H)(k \<mapsto> ?e)) = meta (bare ?H)" using b f by (auto simp: meta_def fun_eq_iff)
    then show ?thesis using e(4) meta_bare by metis
  qed
  have other: "cb_iostream x \<noteq> Some f" if "bare ?H a = Some x" "a \<noteq> k" for a x
    using heldD(3) [OF cache_okD(5) [OF ok], of a _ f _ k] that e(1,2) by (auto simp: handle_def bare_strip)
  have plc: "place (ca_bfds st') (ca_io st') = place ?H ?io" if all: "all_ok ?io" and nm: "named ?H ?io"
  proof -
    have "key ?H k = Some (cb_filename e, f)" using e(1,2) by (simp add: key_def)
    then have disk: "io_disk ?io (cb_filename e) = Some (sm_inode s)" using nm e(3) unfolding named_def by blast
    have "place ((bare ?H)(k \<mapsto> ?e)) (ca_io st') a = place (bare ?H) ?io a" for a
    proof (cases "a = k")
      case True
      then show ?thesis using b e(2,3,5) f disk all by (simp add: place_def)
    next
      case False
      then show ?thesis using other [of a] e(5) by (auto simp: place_def split: option.split)
    qed
    then show ?thesis using e(4) place_bare by (metis ext)
  qed
  have "named (ca_bfds st') (ca_io st')" if nm: "named ?H ?io"
  proof -
    have "named ((bare ?H)(k \<mapsto> ?e)) (ca_io st')"
      using nm [folded named_bare [of ?H]] f(2) unfolding named_def e(5) by (auto simp: key_def split: if_splits)
    then show ?thesis using e(4) named_bare by metis
  qed
  then show ?thesis using plc meta e(5) by (simp add: calm_def)
qed

section \<open>Making room\<close>

abbreviation closes :: "bfd_cache \<Rightarrow> bool" where
  "closes st \<equiv> io_close_ok (ca_io st) = (\<lambda>_. True)"

lemma make_room_ok:
  assumes ok: "cache_ok X st xs ps"
  shows "\<exists>ret st' xs'. make_room st = Some (Done (ret, st')) \<and> (closes st \<longrightarrow> ret) \<and> cache_ok X st' xs' ps \<and> set xs' \<subseteq> set xs \<and> calm st st' \<and>
    io_next (ca_io st') = io_next (ca_io st) \<and> (\<forall>b. b \<notin> set xs \<longrightarrow> bare (ca_bfds st') b = bare (ca_bfds st) b) \<and>
    (\<forall>b e f. b \<notin> set xs \<longrightarrow> ca_bfds st b = Some e \<longrightarrow> cb_iostream e = Some f \<longrightarrow> io_streams (ca_io st') f = io_streams (ca_io st) f)"
proof -
  obtain n s0 where n: "bfd_cache_max_open st = (n, s0)" by fastforce
  then have s0: "ca_bfds s0 = ca_bfds st" "ca_io s0 = ca_io st" "ca_last_cache s0 = ca_last_cache st" "ca_open_files s0 = ca_open_files st"
    by (auto simp: bfd_cache_max_open_def Let_def split: if_splits)
  have ok0: "cache_ok X s0 xs ps" and calm0: "calm st s0" using ok s0 by (simp_all add: cache_ok_def calm_def)
  show ?thesis
  proof (cases "n \<le> ca_open_files s0")
    case False
    then show ?thesis using n ok0 calm0 s0 by (auto simp: make_room_def)
  next
    case True
    obtain ret st' where c: "close_one s0 = Some (Done (ret, st'))" "(\<forall>n. io_close_ok (ca_io s0) n) \<longrightarrow> ret"
        "cache_ok X st' (case victim (ca_bfds s0) xs of None \<Rightarrow> xs | Some k \<Rightarrow> remove1 k xs) ps" "evicted s0 (victim (ca_bfds s0) xs) st'"
      using close_one_ok [OF ok0] by blast
    have vic: "victim (ca_bfds s0) xs = Some k \<Longrightarrow> k \<in> set xs" for k by (erule victim_split) simp
    have "io_streams (ca_io st') f = io_streams (ca_io s0) f" if "b \<notin> set xs" "ca_bfds s0 b = Some e" "cb_iostream e = Some f" for b e f
      using heldD(3) [OF cache_okD(5) [OF ok0], of b _ f] c(4) that vic by (fastforce simp: evicted_def handle_def split: option.splits)
    moreover from vic have "\<forall>b. b \<notin> set xs \<longrightarrow> bare (ca_bfds st') b = bare (ca_bfds s0) b" "io_next (ca_io st') = io_next (ca_io s0)"
      using c(4) by (auto simp: evicted_def split: option.splits)
    moreover have "calm st st'" using calm_trans [OF calm0 evicted_calm [OF ok0 c(4)]] .
    moreover have "set (case victim (ca_bfds s0) xs of None \<Rightarrow> xs | Some k \<Rightarrow> remove1 k xs) \<subseteq> set xs" by (simp add: set_remove1_subset split: option.split)
    ultimately show ?thesis using c(1-3) n True s0
      by (intro exI [of _ ret] exI [of _ st'] exI [of _ "case victim (ca_bfds s0) xs of None \<Rightarrow> xs | Some k \<Rightarrow> remove1 k xs"]) (simp add: make_room_def)
  qed
qed

definition admit :: "cached_bfd \<Rightarrow> cached_bfd" where
  "admit e = e\<lparr>cb_cache_iovec := True, cb_closed_by_cache := False\<rparr>"

lemma admit_simps [simp]:
  "cb_filename (admit e) = cb_filename e" "cb_direction (admit e) = cb_direction e" "cb_iostream (admit e) = cb_iostream e" "cb_where (admit e) = cb_where e"
  "cb_opened_once (admit e) = cb_opened_once e" "cb_in_format_matches (admit e) = cb_in_format_matches e" "possibly_cached (admit e) = possibly_cached e"
  "cb_cache_iovec (admit e)"
  by (simp_all add: admit_def possibly_cached_def)

lemma held_admit:
  assumes "held (insert b X) h io xs ps" "b \<notin> set (xs @ ps)" "h b = Some (i, Some f, m)" "f \<in> dom (io_streams io)"
  shows "held X (h(b \<mapsto> (True, Some f, False))) io (b # xs) ps"
proof (rule heldI)
  note D = heldD [OF assms(1)]
  let ?h = "h(b \<mapsto> (True, Some f, False))"
  { fix a assume "a \<in> set ((b # xs) @ ps)"
    then show "\<exists>g. ?h a = Some (True, Some g, a \<in> set ps) \<and> g \<in> dom (io_streams io)" using D(1) [of a] assms(2,4) by auto }
  { fix a g m' assume "?h a = Some (True, g, m')" "a \<notin> set ((b # xs) @ ps)" "a \<notin> X"
    then show "g = None \<and> \<not> m'" using D(2) [of a g m'] by auto }
  { fix a a' j j' k k' g assume "?h a = Some (j, Some g, k)" "?h a' = Some (j', Some g, k')"
    then show "a = a'"
      using D(3) [of a j g k a' j' k'] D(3) [of a j f k b i m] D(3) [of b i f m a' j' k'] assms(3) by (cases "a = b"; cases "a' = b") simp_all }
  { fix a j g k assume "?h a = Some (j, Some g, k)"
    then show "g < io_next io" using D(4) [of a j g k] D(4) [of b i f m] assms(3) by (auto split: if_splits) }
  { fix g assume "g \<in> dom (io_streams io)"
    then show "g < io_next io" by (rule D(5)) }
qed

lemma admit_ok:
  assumes ok: "cache_ok (insert b X) st xs ps" and b: "b \<notin> set (xs @ ps)" "ca_bfds st b = Some e" "cb_iostream e = Some f" "f \<in> dom (io_streams (ca_io st))"
    "\<not> cb_in_format_matches e"
  shows "\<exists>st'. cbind (cb_update b (\<lambda>e. e\<lparr>cb_cache_iovec := True\<rparr>) st) (\<lambda>st. cbind (lru_insert b st) (\<lambda>st.
      cbind (cb_update b (\<lambda>e. e\<lparr>cb_closed_by_cache := False\<rparr>) st) (\<lambda>st. Done (True, st\<lparr>ca_open_files := ca_open_files st + 1\<rparr>)))) = Done (True, st') \<and>
    cache_ok X st' (b # xs) ps \<and> bare (ca_bfds st') = (bare (ca_bfds st))(b \<mapsto> admit (strip e)) \<and> ca_io st' = ca_io st"
proof -
  note D = cache_okD [OF ok]
  let ?e1 = "e\<lparr>cb_cache_iovec := True\<rparr>"
  let ?s1 = "st\<lparr>ca_bfds := (ca_bfds st)(b \<mapsto> ?e1)\<rparr>"
  have R1: "ring (ca_bfds ?s1) xs" using ring_put [OF D(1) b(2), of ?e1] by simp
  then obtain H2 where H2: "lru_insert b ?s1 = Done (?s1\<lparr>ca_bfds := H2, ca_last_cache := Some b\<rparr>)" "bare H2 = bare (ca_bfds ?s1)" "ring H2 (b # xs)"
    using lru_insert_ok [of ?s1 xs b] D(2) b(1) by auto
  obtain e2 where e2: "H2 b = Some e2" "strip e2 = strip ?e1" using bare_at [OF H2(2), of b ?e1] by auto
  let ?e3 = "e2\<lparr>cb_closed_by_cache := False\<rparr>"
  let ?st = "?s1\<lparr>ca_bfds := H2(b \<mapsto> ?e3), ca_last_cache := Some b, ca_open_files := ca_open_files st + 1\<rparr>"
  have run: "cbind (cb_update b (\<lambda>e. e\<lparr>cb_cache_iovec := True\<rparr>) st) (\<lambda>st. cbind (lru_insert b st) (\<lambda>st.
      cbind (cb_update b (\<lambda>e. e\<lparr>cb_closed_by_cache := False\<rparr>) st) (\<lambda>st. Done (True, st\<lparr>ca_open_files := ca_open_files st + 1\<rparr>)))) = Done (True, ?st)"
    using b(2) H2(1) e2(1) by (simp add: cb_update_def cb_get_def cb_put_def)
  have "strip ?e3 = (strip e2)\<lparr>cb_closed_by_cache := False\<rparr>" by (cases e2) (simp add: strip_def)
  moreover have "strip ?e1 = (strip e)\<lparr>cb_cache_iovec := True\<rparr>" by (cases e) (simp add: strip_def)
  ultimately have st3: "strip ?e3 = admit (strip e)" using e2(2) by (simp add: admit_def)
  have bare: "bare (ca_bfds ?st) = (bare (ca_bfds st))(b \<mapsto> admit (strip e))"
    using H2(2) st3 by (simp add: bare_put)
  have "handle (ca_bfds ?st) = (handle (ca_bfds st))(b \<mapsto> (True, Some f, False))"
    using bare b(3,5) handle_bare [of "ca_bfds ?st"] handle_bare [of "ca_bfds st"] handle_put [of "bare (ca_bfds st)" b "admit (strip e)"] by simp
  moreover have "held X ((handle (ca_bfds st))(b \<mapsto> (True, Some f, False))) (ca_io st) (b # xs) ps"
    using held_admit [OF D(5) b(1)] b(2-5) by (auto simp: handle_def)
  moreover have "ring (ca_bfds ?st) (b # xs)" using ring_put [OF H2(3) e2(1), of ?e3] by simp
  ultimately have "cache_ok X ?st (b # xs) ps" using D(3,4) b(1) by (simp add: cache_ok_def)
  then show ?thesis using run bare by (intro exI [of _ ?st]) simp
qed

lemma cache_init_ok:
  assumes ok: "cache_ok (insert b X) st xs ps" and b: "b \<notin> set (xs @ ps)" "ca_bfds st b = Some e" "cb_iostream e = Some f" "f \<in> dom (io_streams (ca_io st))"
    "\<not> cb_in_format_matches e"
  shows "\<exists>ret st' xs'. bfd_cache_init_unlocked b st = Some (Done (ret, st')) \<and> (closes st \<longrightarrow> ret) \<and> set xs' \<subseteq> set xs \<and> calm st st' \<and>
    (if ret then cache_ok X st' (b # xs') ps \<and> bare (ca_bfds st') b = Some (admit (strip e))
     else cache_ok (insert b X) st' xs' ps \<and> bare (ca_bfds st') b = Some (strip e))"
proof -
  let ?s = "st\<lparr>ca_asserts := ca_asserts st + (if cb_iostream e \<noteq> None then 0 else 1)\<rparr>"
  have ok0: "cache_ok (insert b X) ?s xs ps" and calm0: "calm st ?s" using ok by (simp_all add: cache_ok_def calm_def)
  obtain ret s1 xs' where r: "make_room ?s = Some (Done (ret, s1))" "closes ?s \<longrightarrow> ret" "cache_ok (insert b X) s1 xs' ps" "set xs' \<subseteq> set xs" "calm ?s s1"
      "\<forall>a. a \<notin> set xs \<longrightarrow> bare (ca_bfds s1) a = bare (ca_bfds ?s) a"
      "\<forall>b e f. b \<notin> set xs \<longrightarrow> ca_bfds ?s b = Some e \<longrightarrow> cb_iostream e = Some f \<longrightarrow> io_streams (ca_io s1) f = io_streams (ca_io ?s) f"
    using make_room_ok [OF ok0] by blast
  have bb: "bare (ca_bfds s1) b = Some (strip e)" using r(6) b(1,2) by (simp add: bare_strip)
  then obtain e1 where e1: "ca_bfds s1 b = Some e1" "strip e1 = strip e" by (auto simp: bare_strip)
  have calm1: "calm st s1" by (rule calm_trans [OF calm0 r(5)])
  show ?thesis
  proof (cases ret)
    case False
    then have "bfd_cache_init_unlocked b st = Some (Done (False, s1))" using b(2) r(1) by (simp add: bfd_cache_init_unlocked_def cb_get_at)
    then show ?thesis using False r(2-4) calm1 bb by (intro exI [of _ False] exI [of _ s1] exI [of _ xs']) simp
  next
    case True
    have f: "cb_iostream e1 = Some f" "\<not> cb_in_format_matches e1" using strip_eqD [OF e1(2)] b(3,5) by simp_all
    have "io_streams (ca_io s1) f = io_streams (ca_io st) f" using r(7) b(1-3) by auto
    then have "f \<in> dom (io_streams (ca_io s1))" using b(4) by (simp add: dom_def)
    then obtain st' where st': "cbind (cb_update b (\<lambda>e. e\<lparr>cb_cache_iovec := True\<rparr>) s1) (\<lambda>st. cbind (lru_insert b st) (\<lambda>st.
      cbind (cb_update b (\<lambda>e. e\<lparr>cb_closed_by_cache := False\<rparr>) st) (\<lambda>st. Done (True, st\<lparr>ca_open_files := ca_open_files st + 1\<rparr>)))) = Done (True, st')"
        "cache_ok X st' (b # xs') ps" "bare (ca_bfds st') = (bare (ca_bfds s1))(b \<mapsto> admit (strip e1))" "ca_io st' = ca_io s1"
      using admit_ok [OF r(3), of e1 f] b(1) r(4) e1(1) f by auto
    have "bfd_cache_init_unlocked b st = Some (Done (True, st'))" using b(2) r(1) True st'(1) by (simp add: bfd_cache_init_unlocked_def cb_get_at)
    moreover have "calm s1 st'"
      using put_views [OF st'(3) e1(1)] st'(4) by (simp add: calm_def)
    then have "calm st st'" by (rule calm_trans [OF calm1])
    ultimately show ?thesis using True st'(2,3) r(4) e1(2) by (intro exI [of _ True] exI [of _ st'] exI [of _ xs']) simp
  qed
qed

section \<open>Opening\<close>

definition opens :: "stdio \<Rightarrow> nat option \<Rightarrow> stdio \<Rightarrow> bool" where
  "opens io f io' \<longleftrightarrow> io_ok io' = io_ok io \<and> io_close_ok io' = io_close_ok io \<and> io_next io \<le> io_next io' \<and>
     (case f of None \<Rightarrow> io_streams io' = io_streams io
      | Some g \<Rightarrow> io_next io \<le> g \<and> g < io_next io' \<and> (\<exists>s. io_streams io' = (io_streams io)(g \<mapsto> s)))"

lemma fopen_opens: "fopen name mode io = (f, io') \<Longrightarrow> opens io f io'"
  by (auto simp: fopen_def try_call_def new_stream_def opens_def split: if_splits option.splits)

lemma opens_after: "opens io None io' \<Longrightarrow> opens io' f io'' \<Longrightarrow> opens io f io''"
  by (auto simp: opens_def split: option.splits)

lemma unlink_opens: "opens io None (unlink_nonempty name io)"
  by (auto simp: unlink_nonempty_def try_call_def opens_def split: option.splits)

lemma real_open_opens: "real_open e io = ((f, once), io') \<Longrightarrow> opens io f io'"
  using fopen_opens opens_after unlink_opens by (auto simp: real_open_def split: if_splits prod.splits option.splits) blast+

text \<open>A file that is opened again.\<close>

definition reopenable :: "cached_bfd \<Rightarrow> bool" where
  "reopenable e \<longleftrightarrow> cb_direction e \<in> {read_direction, no_direction} \<or> cb_opened_once e"

lemma reopen:
  assumes "all_ok io" "reopenable e" "io_disk io (cb_filename e) = Some i"
  shows "real_open e io = ((Some (io_next io), cb_opened_once e), io\<lparr>io_streams := (io_streams io)(io_next io \<mapsto> \<lparr>sm_inode = i, sm_pos = 0, sm_err = False\<rparr>),
    io_next := Suc (io_next io), io_calls := Suc (io_calls io)\<rparr>)"
  using assms by (auto simp: reopenable_def real_open_def fopen_def try_call_def new_stream_def)

lemma held_grow:
  assumes "held X h io xs ps" "opens io None io'"
  shows "held X h io' xs ps"
proof (rule heldI)
  note D = heldD [OF assms(1)]
  have n: "io_streams io' = io_streams io" "io_next io \<le> io_next io'" using assms(2) by (simp_all add: opens_def)
  show "\<And>b i f m. h b = Some (i, Some f, m) \<Longrightarrow> f < io_next io'" "\<And>f. f \<in> dom (io_streams io') \<Longrightarrow> f < io_next io'"
    using D(4,5) n by (fastforce, fastforce)
qed (use heldD [OF assms(1)] assms(2) in \<open>auto simp: opens_def\<close>)

lemma held_open:
  assumes "held {} h io xs ps" "b \<notin> set (xs @ ps)" "opens io (Some g) io'"
  shows "held {b} (h(b \<mapsto> (i, Some g, False))) io' xs ps"
proof (rule heldI)
  note D = heldD [OF assms(1)]
  let ?h = "h(b \<mapsto> (i, Some g, False))"
  obtain s where s: "io_streams io' = (io_streams io)(g \<mapsto> s)" "io_next io \<le> g" "g < io_next io'" "io_next io \<le> io_next io'"
    using assms(3) by (auto simp: opens_def)
  have new: "h a \<noteq> Some (j, Some g, k)" for a j k using D(4) [of a j g k] s(2) by auto
  { fix a assume "a \<in> set (xs @ ps)"
    then show "\<exists>f. ?h a = Some (True, Some f, a \<in> set ps) \<and> f \<in> dom (io_streams io')" using D(1) [of a] assms(2) s(1) by auto }
  { fix a f m assume "?h a = Some (True, f, m)" "a \<notin> set (xs @ ps)" "a \<notin> {b}"
    then show "f = None \<and> \<not> m" using D(2) [of a f m] by auto }
  { fix a a' j j' k k' f assume "?h a = Some (j, Some f, k)" "?h a' = Some (j', Some f, k')"
    then show "a = a'" using D(3) [of a j f k a' j' k'] new [of a j k] new [of a' j' k'] by (cases "a = b"; cases "a' = b") auto }
  { fix a j f k assume "?h a = Some (j, Some f, k)"
    then show "f < io_next io'" using D(4) [of a j f k] s(3,4) by (cases "a = b") auto }
  { fix f assume "f \<in> dom (io_streams io')"
    then show "f < io_next io'" using D(5) [of f] s by (cases "f = g") auto }
qed

text \<open>The state when the stream is there.\<close>

lemma opened_views:
  assumes ok: "cache_ok {} st xs ps" and e: "ca_bfds st b = Some e" "cb_iostream e = None" and io: "all_ok (ca_io st)" "named (ca_bfds st) (ca_io st)"
    and disk: "io_disk (ca_io st) (cb_filename e) = Some i" and r: "reopenable e" and run: "real_open e (ca_io st) = ((f, once), io')"
    and st': "ca_bfds st' = (ca_bfds st)(b \<mapsto> e\<lparr>cb_iostream := f, cb_opened_once := once\<rparr>)" "ca_io st' = io'"
  shows "f \<noteq> None" "named (ca_bfds st') io'" "place (ca_bfds st') io' = (place (ca_bfds st) (ca_io st))(b \<mapsto> (i, 0))"
    "io_disk io' = io_disk (ca_io st)" "io_inodes io' = io_inodes (ca_io st)" "meta (ca_bfds st') = meta (ca_bfds st)"
proof -
  let ?io = "ca_io st" let ?g = "io_next ?io" let ?s = "\<lparr>sm_inode = i, sm_pos = 0, sm_err = False\<rparr>"
  have f: "f = Some ?g" "once = cb_opened_once e"
      and io': "io' = ?io\<lparr>io_streams := (io_streams ?io)(?g \<mapsto> ?s), io_next := Suc ?g, io_calls := Suc (io_calls ?io)\<rparr>"
    using reopen [OF io(1) r disk] run by simp_all
  then show "f \<noteq> None" "io_disk io' = io_disk ?io" "io_inodes io' = io_inodes ?io" by simp_all
  have lt: "h < ?g" if "ca_bfds st a = Some x" "cb_iostream x = Some h" for a x h
    using heldD(4) [OF cache_okD(5) [OF ok], of a _ h] that by (auto simp: handle_def)
  show "place (ca_bfds st') io' = (place (ca_bfds st) ?io)(b \<mapsto> (i, 0))"
  proof
    fix a show "place (ca_bfds st') io' a = ((place (ca_bfds st) ?io)(b \<mapsto> (i, 0))) a"
      using lt [of a] unfolding st'(1) f io' by (auto simp: place_def split: option.split)
  qed
  have "key (ca_bfds st') = (key (ca_bfds st))(b \<mapsto> (cb_filename e, ?g))" unfolding st'(1) f by (auto simp: key_def fun_eq_iff)
  moreover have "h \<noteq> ?g" if "key (ca_bfds st) a = Some (n, h)" for a n h using that lt [of a] by (auto simp: key_def split: option.splits)
  ultimately show "named (ca_bfds st') io'" using io(2) disk unfolding named_def io' by (auto split: if_splits)
  show "meta (ca_bfds st') = meta (ca_bfds st)" unfolding st'(1) f using e(1) by (auto simp: meta_def possibly_cached_def fun_eq_iff)
qed

lemma open_start:
  assumes ok: "cache_ok {} st xs ps" and e: "ca_bfds st b = Some e" "cb_iostream e = None"
  shows "cache_ok {} (cb_put b (e\<lparr>cb_cacheable := True\<rparr>) st) xs ps" "calm st (cb_put b (e\<lparr>cb_cacheable := True\<rparr>) st)" "b \<notin> set (xs @ ps)"
proof -
  note D = cache_okD [OF ok]
  let ?e = "e\<lparr>cb_cacheable := True\<rparr>" let ?H = "ca_bfds st"
  show "b \<notin> set (xs @ ps)" using heldD(1) [OF D(5), of b] e by (auto simp: handle_def)
  have "ring (?H(b \<mapsto> ?e)) xs" using ring_put [OF D(1) e(1), of ?e] by simp
  moreover have "handle (?H(b \<mapsto> ?e)) = handle ?H" using handle_unchanged [of ?H b e ?e] e(1) by simp
  ultimately show "cache_ok {} (cb_put b ?e st) xs ps" using D by (simp add: cache_ok_def cb_put_def)
  have "place (?H(b \<mapsto> ?e)) = place ?H" "meta (?H(b \<mapsto> ?e)) = meta ?H" "named (?H(b \<mapsto> ?e)) io = named ?H io" for io
    using put_views [of "?H(b \<mapsto> ?e)" ?H b "strip ?e" e] e(1) bare_put by (auto simp: possibly_cached_def)
  then show "calm st (cb_put b ?e st)" by (simp add: calm_def cb_put_def)
qed

text \<open>What opening a file does, after there is room for it.\<close>

definition opened :: "bfd_cache \<Rightarrow> nat \<Rightarrow> nat option \<Rightarrow> bfd_cache \<Rightarrow> bool" where
  "opened st b r st' \<longleftrightarrow> io_ok (ca_io st') = io_ok (ca_io st) \<and> io_close_ok (ca_io st') = io_close_ok (ca_io st) \<and>
     (\<forall>e. ca_bfds st b = Some e \<longrightarrow> ca_bfds st' b \<noteq> None \<and>
        (\<forall>g. r = Some g \<longrightarrow> (\<exists>e'. ca_bfds st' b = Some e' \<and> cb_iostream e' = Some g \<and> cb_where e' = cb_where e)) \<and>
        (\<forall>i. all_ok (ca_io st) \<longrightarrow> named (ca_bfds st) (ca_io st) \<longrightarrow> reopenable e \<longrightarrow> io_disk (ca_io st) (cb_filename e) = Some i \<longrightarrow>
           r \<noteq> None \<and> named (ca_bfds st') (ca_io st') \<and> io_disk (ca_io st') = io_disk (ca_io st) \<and> io_inodes (ca_io st') = io_inodes (ca_io st) \<and>
           meta (ca_bfds st') = meta (ca_bfds st) \<and> place (ca_bfds st') (ca_io st') = (place (ca_bfds st) (ca_io st))(b \<mapsto> (i, 0))))"

lemma opened_cong:
  assumes "calm st st0" "ca_bfds st b = Some e" "ca_bfds st0 b = Some e0" "cb_where e0 = cb_where e" "opened st0 b r st'"
  shows "opened st b r st'"
proof -
  have m: "meta (ca_bfds st0) b = meta (ca_bfds st) b" using assms(1) by (simp add: calm_def)
  then have "cb_filename e0 = cb_filename e" "reopenable e0 = reopenable e" using assms(2,3) by (simp_all add: meta_def reopenable_def)
  then show ?thesis using assms unfolding opened_def calm_def by simp
qed

lemma open_with_room:
  assumes ok: "cache_ok {} st xs ps" and e: "ca_bfds st b = Some e" "cb_iostream e = None" "\<not> cb_in_format_matches e" "b \<notin> set (xs @ ps)" and cl: "closes st"
    and ro: "real_open e (ca_io st) = ((f, once), io)"
  defines "s \<equiv> cb_put b (e\<lparr>cb_iostream := f, cb_opened_once := once\<rparr>) (st\<lparr>ca_io := io\<rparr>)"
  shows "\<exists>st' xs'. (if f = None then Some (Done (None, set_error bfd_error_system_call s))
      else rbind (bfd_cache_init_unlocked b s) (\<lambda>(ok, st). Some (Done (if ok then f else None, st)))) = Some (Done (f, st')) \<and>
    cache_ok {} st' xs' ps \<and> (f \<noteq> None \<longrightarrow> (\<exists>ys. xs' = b # ys \<and> set ys \<subseteq> set xs)) \<and> opened st b f st'"
proof -
  note D = cache_okD [OF ok]
  let ?e = "e\<lparr>cb_iostream := f, cb_opened_once := once\<rparr>"
  have s: "ca_bfds s = (ca_bfds st)(b \<mapsto> ?e)" "ca_io s = io" "ca_last_cache s = ca_last_cache st" "ca_open_files s = ca_open_files st"
    by (simp_all add: s_def cb_put_def)
  have R: "ring (ca_bfds s) xs" unfolding s(1) using ring_put [OF D(1) e(1), of ?e] by simp
  have op: "opens (ca_io st) f io" by (rule real_open_opens [OF ro])
  then have ios: "io_ok io = io_ok (ca_io st)" "io_close_ok io = io_close_ok (ca_io st)" by (simp_all add: opens_def)
  note views = opened_views [OF ok e(1,2) _ _ _ _ ro s(1,2)]
  show ?thesis
  proof (cases f)
    case None
    have "handle (ca_bfds s) = handle (ca_bfds st)" unfolding s(1) using handle_unchanged [of "ca_bfds st" b e ?e] e(1,2) None by simp
    then have "cache_ok {} (set_error bfd_error_system_call s) xs ps"
      using R D s held_grow [OF D(5)] op None by (simp add: cache_ok_def set_error_def)
    moreover have "opened st b None (set_error bfd_error_system_call s)"
      using views(1) e(1) ios s(1,2) None by (cases "io_disk (ca_io st) (cb_filename e)") (auto simp: opened_def set_error_def)
    ultimately show ?thesis using None by auto
  next
    case (Some g)
    have "handle (ca_bfds s) = (handle (ca_bfds st))(b \<mapsto> (cb_cache_iovec e, Some g, False))"
      unfolding s(1) using handle_put [of "ca_bfds st" b ?e] e(3) Some by simp
    then have okb: "cache_ok {b} s xs ps" using R D(2-4) s held_open [OF D(5) e(4)] op Some by (simp add: cache_ok_def)
    have "g \<in> dom (io_streams io)" using op Some by (auto simp: opens_def)
    then obtain ret st' xs' where i: "bfd_cache_init_unlocked b s = Some (Done (ret, st'))" "closes s \<longrightarrow> ret" "set xs' \<subseteq> set xs" "calm s st'"
        "if ret then cache_ok {} st' (b # xs') ps \<and> bare (ca_bfds st') b = Some (admit (strip ?e))
         else cache_ok {b} st' xs' ps \<and> bare (ca_bfds st') b = Some (strip ?e)"
      using cache_init_ok [OF okb e(4), of ?e g] e(3) s Some by auto
    have ret: ret using i(2) cl ios s(2) by simp
    then obtain e' where "ca_bfds st' b = Some e'" "strip e' = admit (strip ?e)" using i(5) by (auto simp: bare_strip)
    then have e': "ca_bfds st' b = Some e'" "cb_iostream e' = Some g" "cb_where e' = cb_where e"
      using strip_simps [of e'] Some by (simp_all add: strip_def)
    have "opened st b f st'"
      using views e(1) ios i(4) e' Some s(2) unfolding opened_def calm_def by auto
    then show ?thesis using i(1,3,5) ret Some by auto
  qed
qed

lemma open_ok:
  assumes ok: "cache_ok {} st xs ps" and e: "ca_bfds st b = Some e" "cb_iostream e = None" "\<not> cb_in_format_matches e" and cl: "closes st"
  shows "\<exists>r st' xs'. bfd_open_file_unlocked b st = Some (Done (r, st')) \<and> cache_ok {} st' xs' ps \<and>
    (r \<noteq> None \<longrightarrow> (\<exists>ys. xs' = b # ys \<and> set ys \<subseteq> set xs)) \<and> opened st b r st'"
proof -
  let ?s1 = "cb_put b (e\<lparr>cb_cacheable := True\<rparr>) st"
  note s1 = open_start [OF ok e(1,2)]
  obtain ret s2 xs2 where r: "make_room ?s1 = Some (Done (ret, s2))" "closes ?s1 \<longrightarrow> ret" "cache_ok {} s2 xs2 ps" "set xs2 \<subseteq> set xs" "calm ?s1 s2"
      "\<forall>a. a \<notin> set xs \<longrightarrow> bare (ca_bfds s2) a = bare (ca_bfds ?s1) a"
    using make_room_ok [OF s1(1)] by blast
  have ret: "ret" using r(2) cl by (simp add: cb_put_def)
  have calm2: "calm st s2" by (rule calm_trans [OF s1(2) r(5)])
  have "bare (ca_bfds s2) b = Some (strip (e\<lparr>cb_cacheable := True\<rparr>))" using r(6) s1(3) by (simp add: cb_put_def bare_put)
  then obtain e2 where e2: "ca_bfds s2 b = Some e2" "strip e2 = strip (e\<lparr>cb_cacheable := True\<rparr>)" by (auto simp: bare_strip)
  note f2 = strip_eqD [OF e2(2), simplified]
  obtain f once io3 where ro: "real_open e2 (ca_io s2) = ((f, once), io3)" by (metis prod.exhaust)
  have cl2: "closes s2" using calm2 cl by (simp add: calm_def)
  have b2: "b \<notin> set (xs2 @ ps)" using s1(3) r(4) by auto
  from open_with_room [OF r(3) e2(1) _ _ b2 cl2 ro] e(2,3) f2
  obtain st' xs' where o: "(let s = cb_put b (e2\<lparr>cb_iostream := f, cb_opened_once := once\<rparr>) (s2\<lparr>ca_io := io3\<rparr>) in
      if f = None then Some (Done (None, set_error bfd_error_system_call s))
      else rbind (bfd_cache_init_unlocked b s) (\<lambda>(ok, st). Some (Done (if ok then f else None, st)))) = Some (Done (f, st'))"
      "cache_ok {} st' xs' ps" "f \<noteq> None \<longrightarrow> (\<exists>ys. xs' = b # ys \<and> set ys \<subseteq> set xs2)" "opened s2 b f st'"
    by (auto simp: Let_def)
  have "bfd_open_file_unlocked b st = Some (Done (f, st'))"
    using o(1) e(1) r(1) ret ro e2(1) by (simp add: bfd_open_file_unlocked_def cb_update_def cb_get_at)
  moreover have "opened st b f st'" using opened_cong [OF calm2 e(1) e2(1)] f2 o(4) by simp
  ultimately show ?thesis using o(2,3) r(4) by blast
qed

end
