(* ===== verification/Bfd_Cache_Use.thy ===== *)
theory Bfd_Cache_Use
  imports Bfd_Cache_Open
begin

text \<open>
  Looking a file up and working with it, and the calls of a client of the cache: each keeps the invariant.
\<close>

section \<open>Calls on a stream\<close>

definition touches :: "stdio \<Rightarrow> nat \<Rightarrow> stream \<Rightarrow> stream \<Rightarrow> stdio \<Rightarrow> bool" where
  "touches io f s s' io' \<longleftrightarrow> io_streams io f = Some s \<and> io_streams io' = (io_streams io)(f \<mapsto> s') \<and> sm_inode s' = sm_inode s \<and>
     io_next io' = io_next io \<and> io_ok io' = io_ok io \<and> io_close_ok io' = io_close_ok io \<and> io_disk io' = io_disk io"

lemma touch_ok:
  assumes "cache_ok X st xs ps" "touches (ca_io st) f s s' io'"
  shows "cache_ok X (st\<lparr>ca_io := io'\<rparr>) xs ps"
proof -
  have "dom (io_streams io') = dom (io_streams (ca_io st))" "io_next io' = io_next (ca_io st)" using assms(2) by (auto simp: touches_def)
  then have "held X h io' xs ps = held X h (ca_io st) xs ps" for h by (simp add: held_def)
  then show ?thesis using assms(1) by (simp add: cache_ok_def)
qed

lemma touch_place:
  assumes ok: "cache_ok X st xs ps" and b: "ca_bfds st b = Some e" "cb_iostream e = Some f" and t: "touches (ca_io st) f s s' io'"
  shows "place (ca_bfds st) io' = (place (ca_bfds st) (ca_io st))(b \<mapsto> (sm_inode s, int (sm_pos s')))"
    "named (ca_bfds st) (ca_io st) \<Longrightarrow> named (ca_bfds st) io'"
proof -
  have T: "io_streams (ca_io st) f = Some s" "io_streams io' = (io_streams (ca_io st))(f \<mapsto> s')" "sm_inode s' = sm_inode s" "io_disk io' = io_disk (ca_io st)"
    using t by (simp_all add: touches_def)
  have other: "cb_iostream x \<noteq> Some f" if "ca_bfds st a = Some x" "a \<noteq> b" for a x
    using heldD(3) [OF cache_okD(5) [OF ok], of a _ f _ b] that b by (auto simp: handle_def)
  show "place (ca_bfds st) io' = (place (ca_bfds st) (ca_io st))(b \<mapsto> (sm_inode s, int (sm_pos s')))"
  proof
    fix a show "place (ca_bfds st) io' a = ((place (ca_bfds st) (ca_io st))(b \<mapsto> (sm_inode s, int (sm_pos s')))) a"
      using other [of a] b T by (cases "a = b") (auto simp: place_def split: option.split)
  qed
  show "named (ca_bfds st) (ca_io st) \<Longrightarrow> named (ca_bfds st) io'" using T unfolding named_def by auto
qed

lemma stream_calls:
  assumes "io_streams io f = Some s"
  shows "\<exists>r io'. fflush f io = Done (r, io') \<and> touches io f s s io'" "\<exists>r io'. fstat f io = Done (r, io') \<and> touches io f s s io'"
    "\<exists>r io'. ftell f io = Done (r, io') \<and> touches io f s s io'" "\<exists>r io'. mmap f len off io = Done (r, io') \<and> touches io f s s io'"
    "\<exists>r io' s'. fwrite f bs io = Done (r, io') \<and> touches io f s s' io'"
  using assms by (auto simp: fflush_def fstat_def ftell_def mmap_def fwrite_def try_call_def touches_def Let_def fun_upd_idem)

lemma fseek_call:
  assumes "io_streams io f = Some s"
  shows "\<exists>r io' s'. fseek f off w io = Done (r, io') \<and> touches io f s s' io' \<and> io_inodes io' = io_inodes io \<and>
    (all_ok io \<and> w = SEEK_SET \<and> 0 \<le> off \<longrightarrow> r \<and> int (sm_pos s') = off)"
proof -
  obtain ok io1 where c: "try_call io = (ok, io1)" by fastforce
  then have io1: "io_streams io1 = io_streams io" "io1 = io\<lparr>io_calls := Suc (io_calls io)\<rparr>" "ok = io_ok io (io_calls io)" by (auto simp: try_call_def)
  let ?pos = "off + (case w of SEEK_SET \<Rightarrow> 0 | SEEK_CUR \<Rightarrow> int (sm_pos s) | SEEK_END \<Rightarrow> int (length (io_inodes io1 (sm_inode s))))"
  show ?thesis
  proof (cases "ok \<and> 0 \<le> ?pos")
    case True
    let ?s = "s\<lparr>sm_pos := nat ?pos\<rparr>" let ?io = "io1\<lparr>io_streams := (io_streams io1)(f \<mapsto> ?s)\<rparr>"
    have "fseek f off w io = Done (True, ?io)" using True assms c by (simp add: fseek_def Let_def)
    moreover have "touches io f s ?s ?io" "io_inodes ?io = io_inodes io" using assms io1 by (simp_all add: touches_def)
    ultimately show ?thesis using True by (intro exI [of _ True] exI [of _ ?io] exI [of _ ?s]) simp
  next
    case False
    then have "fseek f off w io = Done (False, io1)" using assms c by (auto simp: fseek_def Let_def)
    moreover have "touches io f s s io1" "io_inodes io1 = io_inodes io" using assms io1 by (simp_all add: touches_def fun_upd_idem)
    moreover have "\<not> (all_ok io \<and> w = SEEK_SET \<and> 0 \<le> off)" using False io1(3) by auto
    ultimately show ?thesis by blast
  qed
qed

section \<open>Lookup\<close>

text \<open>The only change that users of files can notice: \<open>b\<close> is at the place \<open>q\<close>, and the files have the contents \<open>C\<close>.\<close>

definition after :: "bfd_cache \<Rightarrow> nat \<Rightarrow> nat \<times> int \<Rightarrow> (nat \<Rightarrow> bytes) \<Rightarrow> bfd_cache \<Rightarrow> bool" where
  "after st b q C st' \<longleftrightarrow> io_disk (ca_io st') = io_disk (ca_io st) \<and> io_inodes (ca_io st') = C \<and> io_ok (ca_io st') = io_ok (ca_io st) \<and>
     meta (ca_bfds st') = meta (ca_bfds st) \<and> named (ca_bfds st') (ca_io st') \<and> place (ca_bfds st') (ca_io st') = (place (ca_bfds st) (ca_io st))(b \<mapsto> q)"

lemma calm_after: "calm st st' \<Longrightarrow> all_ok (ca_io st) \<Longrightarrow> named (ca_bfds st) (ca_io st) \<Longrightarrow> place (ca_bfds st) (ca_io st) b = Some q \<Longrightarrow> after st b q (io_inodes (ca_io st)) st'"
  by (simp add: calm_def after_def fun_upd_idem)

text \<open>What a lookup gives: the stream of the file, and when all goes well no file is anywhere else than before (the file itself may be, when it is about to be positioned anyway).\<close>

definition served :: "bfd_cache \<Rightarrow> nat \<Rightarrow> cache_flag \<Rightarrow> nat option \<Rightarrow> bfd_cache \<Rightarrow> bool" where
  "served st b flag r st' \<longleftrightarrow> io_ok (ca_io st') = io_ok (ca_io st) \<and> io_close_ok (ca_io st') = io_close_ok (ca_io st) \<and>
     (ca_bfds st b \<noteq> None \<longrightarrow> ca_bfds st' b \<noteq> None) \<and> (\<forall>g. r = Some g \<longrightarrow> (\<exists>e'. ca_bfds st' b = Some e' \<and> cb_iostream e' = Some g)) \<and>
     (\<forall>e i p. ca_bfds st b = Some e \<longrightarrow> all_ok (ca_io st) \<longrightarrow> named (ca_bfds st) (ca_io st) \<longrightarrow> reopenable e \<longrightarrow>
        place (ca_bfds st) (ca_io st) b = Some (i, p) \<longrightarrow> 0 \<le> p \<longrightarrow>
        (CACHE_NO_OPEN flag \<and> cb_iostream e = None \<or> r \<noteq> None) \<and> (\<exists>q. (CACHE_NO_SEEK flag \<or> q = p) \<and> after st b (i, q) (io_inodes (ca_io st)) st'))"

lemma open_and_seek:
  assumes ok: "cache_ok {} st xs ps" and e: "ca_bfds st b = Some e" "cb_iostream e = None" and o: "opened st b (Some f) st1"
    and ok1: "cache_ok {} st1 (b # ys) ps"
  shows "\<exists>r st2 e1. ca_bfds st1 b = Some e1 \<and> with_io (fseek f (cb_where e1) SEEK_SET) st1 = Done (r, st2) \<and> cache_ok {} st2 (b # ys) ps \<and> ca_bfds st2 = ca_bfds st1 \<and>
    io_ok (ca_io st2) = io_ok (ca_io st) \<and> io_close_ok (ca_io st2) = io_close_ok (ca_io st) \<and>
    (\<forall>i p. all_ok (ca_io st) \<longrightarrow> named (ca_bfds st) (ca_io st) \<longrightarrow> reopenable e \<longrightarrow> place (ca_bfds st) (ca_io st) b = Some (i, p) \<longrightarrow> 0 \<le> p \<longrightarrow> r \<and> calm st st2)"
proof -
  obtain e1 where e1: "ca_bfds st1 b = Some e1" "cb_iostream e1 = Some f" "cb_where e1 = cb_where e" using o e(1) unfolding opened_def by blast
  have "f \<in> dom (io_streams (ca_io st1))" using heldD(1) [OF cache_okD(5) [OF ok1], of b] e1 by (auto simp: handle_def)
  then obtain s where s: "io_streams (ca_io st1) f = Some s" by blast
  obtain r io' s' where sk: "fseek f (cb_where e1) SEEK_SET (ca_io st1) = Done (r, io')" "touches (ca_io st1) f s s' io'" "io_inodes io' = io_inodes (ca_io st1)"
      "all_ok (ca_io st1) \<and> 0 \<le> cb_where e1 \<longrightarrow> r \<and> int (sm_pos s') = cb_where e1"
    using fseek_call [OF s, of "cb_where e1" SEEK_SET] by blast
  let ?st = "st1\<lparr>ca_io := io'\<rparr>"
  have run: "with_io (fseek f (cb_where e1) SEEK_SET) st1 = Done (r, ?st)" using sk(1) by (simp add: with_io_def)
  note tp = touch_place [OF ok1 e1(1,2) sk(2)]
  have io': "io_ok io' = io_ok (ca_io st1)" "io_close_ok io' = io_close_ok (ca_io st1)" "io_disk io' = io_disk (ca_io st1)" using sk(2) by (simp_all add: touches_def)
  have main: "r \<and> calm st ?st" if a: "all_ok (ca_io st)" "named (ca_bfds st) (ca_io st)" "reopenable e" "place (ca_bfds st) (ca_io st) b = Some (i, p)" "0 \<le> p" for i p
  proof -
    have disk: "io_disk (ca_io st) (cb_filename e) = Some i" "cb_where e = p" using a(4) e by (auto simp: place_def)
    then have st1: "named (ca_bfds st1) (ca_io st1)" "io_disk (ca_io st1) = io_disk (ca_io st)" "io_inodes (ca_io st1) = io_inodes (ca_io st)"
        "meta (ca_bfds st1) = meta (ca_bfds st)" "place (ca_bfds st1) (ca_io st1) = (place (ca_bfds st) (ca_io st))(b \<mapsto> (i, 0))"
        "io_ok (ca_io st1) = io_ok (ca_io st)" "io_close_ok (ca_io st1) = io_close_ok (ca_io st)"
      using o e(1) a unfolding opened_def by auto
    have r: r "int (sm_pos s') = p" using sk(4) st1(6) a(1,5) disk(2) e1(3) by auto
    have "sm_inode s = i" using fun_cong [OF st1(5), of b] e1 s by (simp add: place_def)
    then have "place (ca_bfds st1) io' = place (ca_bfds st) (ca_io st)" using tp(1) st1(5) r(2) a(4) by (simp add: fun_upd_idem)
    then show ?thesis using r(1) st1 tp(2) io' sk(3) by (simp add: calm_def)
  qed
  have "io_ok (ca_io st1) = io_ok (ca_io st)" "io_close_ok (ca_io st1) = io_close_ok (ca_io st)" using o by (simp_all add: opened_def)
  then show ?thesis using run e1(1) touch_ok [OF ok1 sk(2)] io' main by (intro exI [of _ r] exI [of _ ?st] exI [of _ e1]) simp
qed

lemma worker_opens:
  assumes ok: "cache_ok {} st xs ps" and e: "ca_bfds st b = Some e" "cb_iostream e = None" "\<not> cb_in_format_matches e" "possibly_cached e" and cl: "closes st"
  shows "\<exists>r st' xs'. bfd_cache_lookup_worker b flag st = Some (Done (r, st')) \<and> cache_ok {} st' xs' ps \<and> served st b flag r st' \<and>
    (r \<noteq> None \<longrightarrow> (\<exists>ys. xs' = b # ys))"
proof (cases "CACHE_NO_OPEN flag")
  case True
  then show ?thesis using ok e by (auto simp: bfd_cache_lookup_worker_def cb_get_at served_def calm_after calm_refl)
next
  case False
  obtain r st1 xs1 where o: "bfd_open_file_unlocked b st = Some (Done (r, st1))" "cache_ok {} st1 xs1 ps" "r \<noteq> None \<longrightarrow> (\<exists>ys. xs1 = b # ys)" "opened st b r st1"
    using open_ok [OF ok e(1-3) cl] by blast
  have ios: "io_ok (ca_io st1) = io_ok (ca_io st)" "io_close_ok (ca_io st1) = io_close_ok (ca_io st)" using o(4) by (simp_all add: opened_def)
  show ?thesis
  proof (cases r)
    case None
    let ?st = "st1\<lparr>ca_messages := Suc (ca_messages st1)\<rparr>"
    have "bfd_cache_lookup_worker b flag st = Some (Done (None, ?st))" using e False o(1) None by (simp add: bfd_cache_lookup_worker_def cb_get_at)
    moreover have "cache_ok {} ?st xs1 ps" using o(2) by (simp add: cache_ok_def)
    moreover have "place (ca_bfds st) (ca_io st) b = map_option (\<lambda>i. (i, cb_where e)) (io_disk (ca_io st) (cb_filename e))" using e by (simp add: place_def)
    then have "served st b flag None ?st" using o(4) e(1) None ios by (auto simp: served_def opened_def)
    ultimately show ?thesis by blast
  next
    case (Some f)
    then obtain ys where ys: "xs1 = b # ys" using o(3) by blast
    obtain e1 where e1: "ca_bfds st1 b = Some e1" "cb_iostream e1 = Some f" using o(4) e(1) Some unfolding opened_def by blast
    obtain ok2 st2 e1' where s: "ca_bfds st1 b = Some e1'" "with_io (fseek f (cb_where e1') SEEK_SET) st1 = Done (ok2, st2)" "cache_ok {} st2 (b # ys) ps" "ca_bfds st2 = ca_bfds st1"
        "io_ok (ca_io st2) = io_ok (ca_io st)" "io_close_ok (ca_io st2) = io_close_ok (ca_io st)"
        "\<forall>i p. all_ok (ca_io st) \<longrightarrow> named (ca_bfds st) (ca_io st) \<longrightarrow> reopenable e \<longrightarrow> place (ca_bfds st) (ca_io st) b = Some (i, p) \<longrightarrow> 0 \<le> p \<longrightarrow> ok2 \<and> calm st st2"
      using open_and_seek [OF ok e(1,2) o(4) [unfolded Some] o(2) [unfolded ys]] by blast
    let ?bad = "(set_error bfd_error_system_call st2)\<lparr>ca_messages := Suc (ca_messages st2)\<rparr>"
    have run: "bfd_cache_lookup_worker b flag st = Some (Done (if CACHE_NO_SEEK flag then (Some f, st1)
        else if \<not> ok2 \<and> \<not> CACHE_NO_SEEK_ERROR flag then (None, ?bad) else (Some f, st2)))"
      using e False o(1) Some s(1,2) by (simp add: bfd_cache_lookup_worker_def cb_get_at set_error_def)
    have "cache_ok {} ?bad (b # ys) ps" using s(3) by (simp add: cache_ok_def set_error_def)
    moreover have "served st b flag None ?bad" if "\<not> ok2" using s(4-7) e(1) e1(1) that by (auto simp: served_def set_error_def)
    moreover have "served st b flag (Some f) st2" using s(4-7) e(1) e1 calm_after by (auto simp: served_def)
    moreover have "CACHE_NO_SEEK flag \<Longrightarrow> served st b flag (Some f) st1" using e1 ios o(4) e(1,2) Some by (auto simp: served_def opened_def after_def place_def)
    ultimately show ?thesis using run s(3) o(2) ys
      by (cases "CACHE_NO_SEEK flag"; cases "\<not> ok2 \<and> \<not> CACHE_NO_SEEK_ERROR flag") (auto split: if_splits)
  qed
qed

lemma cache_lookup_ok:
  assumes ok: "cache_ok {} st xs ps" and e: "ca_bfds st b = Some e" "cb_cache_iovec e" "possibly_cached e" and cl: "closes st"
  shows "\<exists>r st' xs'. bfd_cache_lookup b flag st = Some (Done (r, st')) \<and> cache_ok {} st' xs' ps \<and> served st b flag r st' \<and>
    (r \<noteq> None \<longrightarrow> b \<in> set ps \<or> (\<exists>ys. xs' = b # ys))"
proof -
  note D = cache_okD [OF ok]
  have h: "handle (ca_bfds st) b = Some (True, cb_iostream e, cb_in_format_matches e)" using e by (simp add: handle_def)
  have same: "served st b flag (cb_iostream e) st" if "cb_iostream e \<noteq> None" using e(1) that by (auto simp: served_def calm_after calm_refl)
  show ?thesis
  proof (cases "ca_last_cache st = Some b")
    case True
    then have "\<exists>ys. xs = b # ys" using D(2) by (cases xs) auto
    moreover from this have "cb_iostream e \<noteq> None" using heldD(1) [OF D(5), of b] h by auto
    ultimately show ?thesis using True ok e same by (auto simp: bfd_cache_lookup_def cb_get_at)
  next
    case front: False
    show ?thesis
    proof (cases "cb_in_format_matches e")
      case True
      then have "b \<in> set ps" "cb_iostream e \<noteq> None" using heldD(1) [OF D(5), of b] heldD(2) [OF D(5), of b] h by auto
      then show ?thesis using True front ok e same by (auto simp: bfd_cache_lookup_def bfd_cache_lookup_worker_def cb_get_at)
    next
      case nf: False
      show ?thesis
      proof (cases "cb_iostream e")
        case None
        then show ?thesis using worker_opens [OF ok e(1) _ nf e(3) cl, of flag] front by (auto simp: bfd_cache_lookup_def)
      next
        case (Some f)
        then have "b \<in> set xs" using heldD(1) [OF D(5), of b] heldD(2) [OF D(5), of b "Some f" False] h nf by auto
        then obtain ys zs where xs: "xs = ys @ b # zs" by (meson split_list)
        then obtain H' where H': "cbind (snip b st) (lru_insert b) = Done (st\<lparr>ca_bfds := H', ca_last_cache := Some b\<rparr>)" "bare H' = bare (ca_bfds st)"
            "cache_ok {} (st\<lparr>ca_bfds := H', ca_last_cache := Some b\<rparr>) (b # ys @ zs) ps"
          using move_to_front [of "{}" st ys b zs ps] ok by auto
        let ?st = "st\<lparr>ca_bfds := H', ca_last_cache := Some b\<rparr>"
        have "bfd_cache_lookup b flag st = Some (Done (Some f, ?st))"
          using front nf e Some H'(1) by (simp add: bfd_cache_lookup_def bfd_cache_lookup_worker_def cb_get_at)
        moreover obtain e' where "H' b = Some e'" "strip e' = strip e" using bare_at [OF H'(2) e(1)] by blast
        then have "H' b = Some e'" "cb_iostream e' = Some f" using strip_eqD(3) [of e' e] Some by simp_all
        then have "served st b flag (Some f) ?st" using calm_bare [of ?st st] H'(2) by (auto simp: served_def calm_after)
        ultimately show ?thesis using H'(3) by blast
      qed
    qed
  qed
qed

section \<open>Operations\<close>

definition good :: "bfd_cache \<Rightarrow> nat list \<Rightarrow> bool" where
  "good st ps \<longleftrightarrow> (\<exists>xs. cache_ok {} st xs ps) \<and> closes st"

definition returns_good :: "('a \<times> bfd_cache) run \<Rightarrow> nat list \<Rightarrow> bool" where
  "returns_good m ps \<longleftrightarrow> (\<exists>r st. m = Some (Done (r, st)) \<and> good st ps)"

definition managed :: "(nat \<rightharpoonup> cached_bfd) \<Rightarrow> nat \<Rightarrow> bool" where
  "managed H b \<longleftrightarrow> (\<exists>e. H b = Some e \<and> cb_cache_iovec e \<and> possibly_cached e)"

lemma good_calls:
  assumes "good st ps" "ca_bfds st' = ca_bfds st" "ca_last_cache st' = ca_last_cache st" "ca_open_files st' = ca_open_files st"
    "io_streams (ca_io st') = io_streams (ca_io st)" "io_next (ca_io st') = io_next (ca_io st)" "io_close_ok (ca_io st') = io_close_ok (ca_io st)"
  shows "good st' ps"
  using assms held_io [of "ca_io st'" "ca_io st"] by (simp add: good_def cache_ok_def)

lemma good_touch: "good st ps \<Longrightarrow> touches (ca_io st) f s s' io' \<Longrightarrow> good (st\<lparr>ca_io := io'\<rparr>) ps"
  using touch_ok by (fastforce simp: good_def touches_def)

lemma lock_good:
  assumes "good st ps" "bfd_lock st = (ok, st')"
  shows "good st' ps" "ca_bfds st' = ca_bfds st" "io_streams (ca_io st') = io_streams (ca_io st)"
  using good_calls [OF assms(1), of st'] assms(2) by (auto simp: bfd_lock_def try_call_def)

lemma locked_good:
  assumes "good st ps" "\<And>s. good s ps \<Longrightarrow> ca_bfds s = ca_bfds st \<Longrightarrow> io_streams (ca_io s) = io_streams (ca_io st) \<Longrightarrow> returns_good (body s) ps"
  shows "returns_good (locked fail body st) ps"
proof -
  obtain ok s where s: "bfd_lock st = (ok, s)" by fastforce
  note g = lock_good [OF assms(1) s]
  obtain r s1 where s1: "body s = Some (Done (r, s1))" "good s1 ps" using assms(2) [OF g] by (auto simp: returns_good_def)
  obtain ok2 s2 where s2: "bfd_lock s1 = (ok2, s2)" by fastforce
  show ?thesis using s s1 s2 lock_good(1) [OF s1(2) s2] g(1) by (simp add: locked_def returns_good_def)
qed

lemma lookup_good:
  assumes "good st ps" "managed (ca_bfds st) b"
  shows "\<exists>r st'. bfd_cache_lookup b flag st = Some (Done (r, st')) \<and> good st' ps \<and> ca_bfds st' b \<noteq> None \<and>
    (\<forall>f. r = Some f \<longrightarrow> (\<exists>s. io_streams (ca_io st') f = Some s))"
proof -
  obtain xs where ok: "cache_ok {} st xs ps" and cl: "closes st" using assms(1) by (auto simp: good_def)
  obtain e where e: "ca_bfds st b = Some e" "cb_cache_iovec e" "possibly_cached e" using assms(2) by (auto simp: managed_def)
  obtain r st' xs' where l: "bfd_cache_lookup b flag st = Some (Done (r, st'))" "cache_ok {} st' xs' ps" "served st b flag r st'"
      "r \<noteq> None \<longrightarrow> b \<in> set ps \<or> (\<exists>ys. xs' = b # ys)"
    using cache_lookup_ok [OF ok e cl] by blast
  have "io_streams (ca_io st') f \<noteq> None" if rf: "r = Some f" for f
    using heldD(1) [OF cache_okD(5) [OF l(2)], of b] l(3,4) that by (auto simp: served_def handle_def)
  then show ?thesis using l cl e(1) by (auto simp: good_def served_def)
qed

lemma lookup_no_open: "bfd_cache_lookup b flag st = Some (Done (None, st')) \<Longrightarrow> CACHE_NO_OPEN flag \<Longrightarrow> st' = st"
  by (auto simp: bfd_cache_lookup_def bfd_cache_lookup_worker_def rbind_def split: option.splits cresult.splits if_splits)

lemma call_good:
  assumes "good st ps" "io_streams (ca_io st) f = Some s" "call (ca_io st) = Done (r, io')" "touches (ca_io st) f s s' io'"
  shows "with_io call st = Done (r, st\<lparr>ca_io := io'\<rparr>) \<and> good (st\<lparr>ca_io := io'\<rparr>) ps"
  using good_touch [OF assms(1,4)] assms(3) by (simp add: with_io_def)

lemma error_good: "good (set_error err st) ps = good st ps"
  by (simp add: good_def cache_ok_def set_error_def)

lemma fread_call:
  assumes "io_streams io f = Some s"
  shows "\<exists>r io' s'. fread f n io = Done (r, io') \<and> touches io f s s' io'"
  using assms by (auto simp: fread_def try_call_def touches_def Let_def)

lemma bread_1_good:
  assumes "good st ps" "io_streams (ca_io st) f = Some s"
  shows "\<exists>got st' s'. cache_bread_1 f n st = Done (got, st') \<and> good st' ps \<and> io_streams (ca_io st') f = Some s'"
proof -
  obtain r io' s' where c: "fread f n (ca_io st) = Done (r, io')" "touches (ca_io st) f s s' io'" using fread_call [OF assms(2)] by blast
  then have "io_streams io' f = Some s'" by (simp add: touches_def)
  then show ?thesis using call_good [where call = "fread f n", OF assms c] by (simp add: cache_bread_1_def error_good) (simp add: set_error_def)
qed

lemma bread_loop_good:
  assumes "good st ps" "io_streams (ca_io st) f = Some s"
  shows "\<exists>buf' st'. bread_loop f n buf st = Done (buf', st') \<and> good st' ps"
  using assms
proof (induction f n buf st arbitrary: s rule: bread_loop.induct)
  case (1 f n buf st)
  let ?c = "min (n - length buf) 0x800000"
  obtain got st' s' where g: "cache_bread_1 f ?c st = Done (got, st')" "good st' ps" "io_streams (ca_io st') f = Some s'" using bread_1_good [OF 1(2,3)] by blast
  show ?case
  proof (cases "length buf < n \<and> \<not> length got < ?c")
    case True
    then show ?thesis using "1.IH" [OF _ refl g(1) refl _ g(2,3)] g(1,2) by (subst bread_loop.simps) (auto simp: Let_def)
  next
    case False
    then show ?thesis using 1(2) g by (subst bread_loop.simps) (auto simp: Let_def)
  qed
qed

lemma op_good:
  assumes g: "good st ps" and m: "managed (ca_bfds st) b"
    and act: "\<And>f s1 s. good s1 ps \<Longrightarrow> io_streams (ca_io s1) f = Some s \<Longrightarrow> returns_good (act f s1) ps"
    and no: "\<And>s s1. bfd_cache_lookup b flag s = Some (Done (None, s1)) \<Longrightarrow> ca_bfds s = ca_bfds st \<Longrightarrow> good s1 ps \<Longrightarrow> returns_good (no s1) ps"
  shows "returns_good (locked fail (\<lambda>st. rbind (bfd_cache_lookup b flag st) (\<lambda>(f, st). case f of None \<Rightarrow> no st | Some f \<Rightarrow> act f st)) st) ps"
  using g
proof (rule locked_good)
  fix s assume s: "good s ps" "ca_bfds s = ca_bfds st"
  obtain r s1 where l: "bfd_cache_lookup b flag s = Some (Done (r, s1))" "good s1 ps" "\<forall>f. r = Some f \<longrightarrow> (\<exists>x. io_streams (ca_io s1) f = Some x)"
    using lookup_good [OF s(1), of b flag] m s(2) by auto
  show "returns_good (rbind (bfd_cache_lookup b flag s) (\<lambda>(f, st). case f of None \<Rightarrow> no st | Some f \<Rightarrow> act f st)) ps"
    using l no [of s s1] act [of s1] s(2) by (cases r) auto
qed

lemma returns_Done: "returns_good (Some (Done (r, st))) ps \<longleftrightarrow> good st ps"
  by (simp add: returns_good_def)

lemma calls_good:
  assumes "good st ps" "io_streams (ca_io st) f = Some s"
  shows "\<exists>r io. with_io (ftell f) st = Done (r, st\<lparr>ca_io := io\<rparr>) \<and> good (st\<lparr>ca_io := io\<rparr>) ps"
    "\<exists>r io. with_io (fflush f) st = Done (r, st\<lparr>ca_io := io\<rparr>) \<and> good (st\<lparr>ca_io := io\<rparr>) ps"
    "\<exists>r io. with_io (fstat f) st = Done (r, st\<lparr>ca_io := io\<rparr>) \<and> good (st\<lparr>ca_io := io\<rparr>) ps"
    "\<exists>r io. with_io (fwrite f bs) st = Done (r, st\<lparr>ca_io := io\<rparr>) \<and> good (st\<lparr>ca_io := io\<rparr>) ps"
    "\<exists>r io. with_io (fseek f off w) st = Done (r, st\<lparr>ca_io := io\<rparr>) \<and> good (st\<lparr>ca_io := io\<rparr>) ps"
    "\<exists>r io. with_io (mmap f len start) st = Done (r, st\<lparr>ca_io := io\<rparr>) \<and> good (st\<lparr>ca_io := io\<rparr>) ps"
  using stream_calls [OF assms(2)] fseek_call [OF assms(2)] call_good [OF assms] by metis+

lemma operations_good:
  assumes g: "good st ps" and m: "managed (ca_bfds st) b"
  shows "returns_good (cache_btell b st) ps" "returns_good (cache_bseek b off w st) ps" "returns_good (cache_bread b n st) ps"
    "returns_good (cache_bwrite b bs st) ps" "returns_good (cache_bflush b st) ps" "returns_good (cache_bstat b st) ps"
proof -
  show "returns_good (cache_btell b st) ps"
    unfolding cache_btell_def using g m
  proof (rule op_good)
    fix f s1 s assume "good s1 ps" "io_streams (ca_io s1) f = Some s"
    then show "returns_good (Some (with_io (ftell f) s1)) ps" using calls_good(1) by (fastforce simp: returns_Done)
  next
    fix s s1 assume "bfd_cache_lookup b (CACHE_NORMAL\<lparr>CACHE_NO_OPEN := True\<rparr>) s = Some (Done (None, s1))" "ca_bfds s = ca_bfds st" "good s1 ps"
    moreover from this have "s1 = s" using lookup_no_open by simp
    ultimately show "returns_good (rbind (Some (cb_get b s1)) (\<lambda>e. Some (Done (cb_where e, s1)))) ps" using m by (auto simp: managed_def cb_get_at returns_Done)
  qed
  show "returns_good (cache_bseek b off w st) ps"
    unfolding cache_bseek_def using g m
  proof (rule op_good)
    fix f s1 s assume "good s1 ps" "io_streams (ca_io s1) f = Some s"
    then show "returns_good (rbind (Some (with_io (fseek f off w) s1)) (\<lambda>(ok, st). Some (Done (if ok then 0 else - 1, st)))) ps"
      using calls_good(5) [of s1 ps f s off w] by (auto simp: returns_Done)
  qed (simp add: returns_Done)
  show "returns_good (cache_bread b n st) ps"
    unfolding cache_bread_def using g m
  proof (rule op_good)
    fix f s1 s assume "good s1 ps" "io_streams (ca_io s1) f = Some s"
    then show "returns_good (rbind (Some (bread_loop f n [] s1)) (\<lambda>(buf, st). Some (Done ((int (length buf), buf), st)))) ps"
      using bread_loop_good [of s1 ps f s n "[]"] by (auto simp: returns_Done)
  qed (simp add: returns_Done)
  show "returns_good (cache_bwrite b bs st) ps"
    unfolding cache_bwrite_def using g m
  proof (rule op_good)
    fix f s1 s assume "good s1 ps" "io_streams (ca_io s1) f = Some s"
    then show "returns_good (rbind (Some (with_io (fwrite f bs) s1)) (\<lambda>(n, st).
               if n < length bs \<and> ferror f (ca_io st) then Some (Done (- 1, set_error bfd_error_system_call st))
               else Some (Done (int n, st)))) ps"
      using calls_good(4) [of s1 ps f s bs] by (auto simp: returns_Done error_good)
  qed (simp add: returns_Done)
  show "returns_good (cache_bflush b st) ps"
    unfolding cache_bflush_def using g m
  proof (rule op_good)
    fix f s1 s assume "good s1 ps" "io_streams (ca_io s1) f = Some s"
    then show "returns_good (rbind (Some (with_io (fflush f) s1)) (\<lambda>(ok, st). Some (Done (if ok then (0, st) else (- 1, set_error bfd_error_system_call st))))) ps"
      using calls_good(2) [of s1 ps f s] by (auto simp: returns_Done error_good)
  qed (simp add: returns_Done)
  show "returns_good (cache_bstat b st) ps"
    unfolding cache_bstat_def using g m
  proof (rule op_good)
    fix f s1 s assume "good s1 ps" "io_streams (ca_io s1) f = Some s"
    then show "returns_good (rbind (Some (with_io (fstat f) s1)) (\<lambda>(r, st). Some (Done (r, if r = None then set_error bfd_error_system_call st else st)))) ps"
      using calls_good(3) [of s1 ps f s] by (auto simp: returns_Done error_good)
  qed (simp add: returns_Done)
qed

lemma bmmap_good:
  assumes g: "good st ps" and m: "managed (ca_bfds st) b"
  shows "returns_good (cache_bmmap pm b len off st) ps"
proof -
  obtain ok s where s: "bfd_lock st = (ok, s)" by fastforce
  note gs = lock_good [OF g s]
  obtain e where e: "ca_bfds s b = Some e" "\<not> cb_in_memory e" using m gs(2) by (auto simp: managed_def possibly_cached_def)
  obtain r s1 where l: "bfd_cache_lookup b (CACHE_NORMAL\<lparr>CACHE_NO_SEEK_ERROR := True\<rparr>) s = Some (Done (r, s1))" "good s1 ps" "\<And>f. r = Some f \<Longrightarrow> \<exists>x. io_streams (ca_io s1) f = Some x"
    using lookup_good [OF gs(1), of b] m gs(2) by metis
  have mp: "returns_good (map_pages pm len off f s1) ps" if rf: "r = Some f" for f
  proof -
    obtain x where "io_streams (ca_io s1) f = Some x" using l(3) rf by blast
    then show ?thesis using calls_good(6) [OF l(2), of f x "page_length pm off len" "page_start pm off"]
      by (auto simp: map_pages_def returns_Done error_good split: option.split)
  qed
  let ?body = "case r of None \<Rightarrow> Some (Done ((None, None), s1)) | Some f \<Rightarrow> map_pages pm len off f s1"
  have "returns_good ?body ps" using mp l(2) by (cases r) (simp_all add: returns_Done)
  then obtain r2 m2 s2 where b: "?body = Some (Done ((r2, m2), s2))" "good s2 ps" by (auto simp: returns_good_def)
  obtain ok3 s3 where s3: "bfd_lock s2 = (ok3, s3)" by fastforce
  show ?thesis
  proof (cases ok)
    case True
    then have "cache_bmmap pm b len off st = Some (Done ((if ok3 then r2 else None, m2), s3))"
      using s e l(1) b(1) s3 by (simp add: cache_bmmap_def cb_get_at)
    then show ?thesis using lock_good(1) [OF b(2) s3] by (simp add: returns_Done)
  next
    case False
    then show ?thesis using s gs(1) by (simp add: cache_bmmap_def returns_Done)
  qed
qed

end
