(* ===== verification/Bfd_Cache_Client.thy ===== *)
theory Bfd_Cache_Client
  imports Bfd_Cache_Use
begin

text \<open>
  A client of the cache: the calls it may make, the states it can reach by them, and what the cache promises it.
\<close>

section \<open>Opening and closing\<close>

lemma open_good:
  assumes "good st ps" "ca_bfds st b = Some e" "cb_iostream e = None" "\<not> cb_in_format_matches e"
  shows "returns_good (bfd_open_file b st) ps"
  unfolding bfd_open_file_def using assms(1)
proof (rule locked_good)
  fix s assume s: "good s ps" "ca_bfds s = ca_bfds st"
  obtain xs where "cache_ok {} s xs ps" "closes s" using s(1) by (auto simp: good_def)
  then show "returns_good (bfd_open_file_unlocked b s) ps"
    using open_ok [of s xs ps b e] assms(2-4) s(2) by (auto simp: returns_good_def good_def opened_def)
qed

lemma init_good:
  assumes "good st ps" "ca_bfds st b = Some e" "cb_iostream e = Some f" "f \<in> dom (io_streams (ca_io st))" "\<not> cb_cache_iovec e" "\<not> cb_in_format_matches e"
  shows "returns_good (bfd_cache_init b st) ps"
  unfolding bfd_cache_init_def using assms(1)
proof (rule locked_good)
  fix s assume s: "good s ps" "ca_bfds s = ca_bfds st" "io_streams (ca_io s) = io_streams (ca_io st)"
  obtain xs where ok: "cache_ok {} s xs ps" and cl: "closes s" using s(1) by (auto simp: good_def)
  have "held {b} h io xs ps" if "held {} h io xs ps" for h io using that unfolding held_def by auto
  then have okb: "cache_ok {b} s xs ps" using ok by (simp add: cache_ok_def)
  have b: "b \<notin> set (xs @ ps)" using heldD(1) [OF cache_okD(5) [OF ok], of b] assms(2,5) s(2) by (auto simp: handle_def)
  obtain ret st' xs' where i: "bfd_cache_init_unlocked b s = Some (Done (ret, st'))" "closes s \<longrightarrow> ret" "calm s st'" "ret \<longrightarrow> cache_ok {} st' (b # xs') ps"
    using cache_init_ok [OF okb b, of e f] assms s(2,3) by (auto split: if_splits)
  then show "returns_good (bfd_cache_init_unlocked b s) ps" using cl by (auto simp: returns_good_def good_def calm_def)
qed

lemma close_unlocked_ok:
  assumes ok: "cache_ok {} st xs ps" and e: "ca_bfds st b = Some e" "\<not> cb_in_format_matches e"
  shows "\<exists>ret st'. bfd_cache_close_unlocked b st = Done (ret, st') \<and> cache_ok {} st' (remove1 b xs) ps \<and> io_close_ok (ca_io st') = io_close_ok (ca_io st)"
proof (cases "b \<in> set xs")
  case True
  then obtain ys zs where xs: "xs = ys @ b # zs" "b \<notin> set ys" by (meson split_list_first)
  obtain f where f: "cb_iostream e = Some f" "cb_cache_iovec e" using heldD(1) [OF cache_okD(5) [OF ok], of b] True e by (auto simp: handle_def)
  obtain ret st' where d: "bfd_cache_delete b st = Done (ret, st')" "cache_ok {} st' (ys @ zs) ps"
      "ca_io st' = (ca_io st)\<lparr>io_streams := (io_streams (ca_io st))(f := None), io_calls := Suc (io_calls (ca_io st))\<rparr>"
    using delete_ok [of "{}" st ys b zs ps e f] ok e(1) f(1) xs(1) by blast
  then show ?thesis using f e(1) xs by (simp add: bfd_cache_close_unlocked_def cb_get_at remove1_append)
next
  case False
  have "b \<notin> set ps" using heldD(1) [OF cache_okD(5) [OF ok], of b] e by (auto simp: handle_def)
  then have "\<not> cb_cache_iovec e \<or> cb_iostream e = None" using heldD(2) [OF cache_okD(5) [OF ok], of b] False e by (auto simp: handle_def)
  then show ?thesis using ok e(1) False
    by (intro exI [of _ True] exI [of _ st]) (simp add: bfd_cache_close_unlocked_def cb_get_at remove1_idem)
qed

lemma close_good:
  assumes "good st ps" "ca_bfds st b = Some e" "\<not> cb_in_format_matches e"
  shows "returns_good (bfd_cache_close b st) ps"
  unfolding bfd_cache_close_def using assms(1)
proof (rule locked_good)
  fix s assume s: "good s ps" "ca_bfds s = ca_bfds st"
  obtain xs where "cache_ok {} s xs ps" "closes s" using s(1) by (auto simp: good_def)
  then show "returns_good (Some (bfd_cache_close_unlocked b s)) ps"
    using close_unlocked_ok [of s xs ps b e] assms(2,3) s(2) by (auto simp: returns_good_def good_def)
qed

lemma close_all_loop_ok:
  assumes "cache_ok {} st xs ps"
  shows "\<exists>r st'. close_all_loop ret st = Some (Done (r, st')) \<and> cache_ok {} st' [] ps \<and> io_close_ok (ca_io st') = io_close_ok (ca_io st)"
  using assms
proof (induction xs arbitrary: st ret)
  case Nil
  then show ?case using cache_okD(2) [OF Nil] by (subst close_all_loop.simps) simp
next
  case (Cons b xs)
  note D = cache_okD [OF Cons.prems]
  obtain e where e: "ca_bfds st b = Some e" "\<not> cb_in_format_matches e" using heldD(1) [OF D(5), of b] D(3) by (auto simp: handle_def)
  obtain ok st' where c: "bfd_cache_close_unlocked b st = Done (ok, st')" "cache_ok {} st' xs ps" "io_close_ok (ca_io st') = io_close_ok (ca_io st)"
    using close_unlocked_ok [OF Cons.prems e] by auto
  have "ca_last_cache st' \<noteq> Some b" using cache_okD(2) [OF c(2)] D(3) by auto
  then have "close_all_loop ret st = close_all_loop (ret \<and> ok) st'" using D(2) c(1) by (subst close_all_loop.simps) simp
  then show ?case using Cons.IH [OF c(2), of "ret \<and> ok"] c(3) by simp
qed

lemma close_all_good:
  assumes "good st ps"
  shows "returns_good (bfd_cache_close_all st) ps"
  unfolding bfd_cache_close_all_def using assms
proof (rule locked_good)
  fix s assume s: "good s ps"
  then obtain xs where "cache_ok {} s xs ps" "closes s" by (auto simp: good_def)
  then show "returns_good (close_all_loop True s) ps" using close_all_loop_ok [of s xs ps True] by (auto simp: returns_good_def good_def)
qed

section \<open>Files that must stay open\<close>

lemma held_flag:
  assumes "held {} h io xs ps" "h b = Some (i, Some f, m)" "f \<in> dom (io_streams io)" "set (xs' @ ps') = set (xs @ ps)" "b \<in> set (xs @ ps)"
    "\<And>a. a \<noteq> b \<Longrightarrow> a \<in> set ps' \<longleftrightarrow> a \<in> set ps" "m' = (b \<in> set ps')"
  shows "held {} (h(b \<mapsto> (True, Some f, m'))) io xs' ps'"
proof (rule heldI)
  note D = heldD [OF assms(1)]
  let ?h = "h(b \<mapsto> (True, Some f, m'))"
  { fix a assume "a \<in> set (xs' @ ps')"
    then show "\<exists>g. ?h a = Some (True, Some g, a \<in> set ps') \<and> g \<in> dom (io_streams io)"
      using D(1) [of a] assms(3,4,6,7) by (cases "a = b") auto }
  { fix a g k assume "?h a = Some (True, g, k)" "a \<notin> set (xs' @ ps')"
    then show "g = None \<and> \<not> k" using D(2) [of a g k] assms(4,5) by (cases "a = b") auto }
  { fix a a' j j' k k' g assume "?h a = Some (j, Some g, k)" "?h a' = Some (j', Some g, k')"
    then show "a = a'"
      using D(3) [of a j g k a' j' k'] D(3) [of a j f k b i m] D(3) [of b i f m a' j' k'] assms(2) by (cases "a = b"; cases "a' = b") simp_all }
  { fix a j g k assume "?h a = Some (j, Some g, k)"
    then show "g < io_next io" using D(4) [of a j g k] D(4) [of b i f m] assms(2) by (cases "a = b") auto }
  { fix g assume "g \<in> dom (io_streams io)"
    then show "g < io_next io" by (rule D(5)) }
qed

lemma pinned_ok:
  assumes ok: "cache_ok {} st (b # xs) ps"
  shows "\<exists>H e. snip b st = Done (st\<lparr>ca_bfds := H, ca_last_cache := head_of xs\<rparr>) \<and> H b = Some e \<and>
    cache_ok {} (st\<lparr>ca_bfds := H(b \<mapsto> e\<lparr>cb_in_format_matches := True\<rparr>), ca_last_cache := head_of xs\<rparr>) xs (b # ps)"
proof -
  note D = cache_okD [OF ok]
  obtain H where H: "snip b st = Done (st\<lparr>ca_bfds := H, ca_last_cache := head_of xs\<rparr>)" "bare H = bare (ca_bfds st)" "ring H xs"
    using snip_ok [of st "[]" b xs, unfolded append_Nil] D(1,2) by auto
  obtain f where f: "handle (ca_bfds st) b = Some (True, Some f, False)" "f \<in> dom (io_streams (ca_io st))" using heldD(1) [OF D(5), of b] D(3) by auto
  have "handle H b = Some (True, Some f, False)" using handle_same [OF H(2)] f(1) by simp
  then obtain e where e: "H b = Some e" "cb_cache_iovec e" "cb_iostream e = Some f" by (auto simp: handle_def)
  let ?e = "e\<lparr>cb_in_format_matches := True\<rparr>"
  have "held {} ((handle (ca_bfds st))(b \<mapsto> (True, Some f, True))) (ca_io st) xs (b # ps)"
    using D(3) f(2) by (intro held_flag [OF D(5) f(1)]) auto
  then have "held {} (handle (H(b \<mapsto> ?e))) (ca_io st) xs (b # ps)" using handle_same [OF H(2)] e by (simp add: handle_put)
  moreover have "ring (H(b \<mapsto> ?e)) xs" using ring_put [OF H(3) e(1), of ?e] by simp
  ultimately show ?thesis using H(1) e(1) D(3,4) by (auto simp: cache_ok_def)
qed

lemma unpinned_ok:
  assumes ok: "cache_ok {} st xs ps" and b: "b \<in> set ps"
  shows "\<exists>H e. lru_insert b st = Done (st\<lparr>ca_bfds := H, ca_last_cache := Some b\<rparr>) \<and> H b = Some e \<and>
    cache_ok {} (st\<lparr>ca_bfds := H(b \<mapsto> e\<lparr>cb_in_format_matches := False\<rparr>), ca_last_cache := Some b\<rparr>) (b # xs) (remove1 b ps)"
proof -
  note D = cache_okD [OF ok]
  obtain f where f: "handle (ca_bfds st) b = Some (True, Some f, True)" "f \<in> dom (io_streams (ca_io st))" using heldD(1) [OF D(5), of b] b by auto
  have nb: "b \<notin> set xs" "ca_bfds st b \<noteq> None" using D(3) b f(1) by (auto simp: handle_def)
  obtain H where H: "lru_insert b st = Done (st\<lparr>ca_bfds := H, ca_last_cache := Some b\<rparr>)" "bare H = bare (ca_bfds st)" "ring H (b # xs)"
    using lru_insert_ok [OF D(1,2) nb] by blast
  have "handle H b = Some (True, Some f, True)" using handle_same [OF H(2)] f(1) by simp
  then obtain e where e: "H b = Some e" "cb_cache_iovec e" "cb_iostream e = Some f" by (auto simp: handle_def)
  let ?e = "e\<lparr>cb_in_format_matches := False\<rparr>"
  have d: "distinct ps" "set (remove1 b ps) = set ps - {b}" "length ps = Suc (length (remove1 b ps))"
    using D(3) b by (simp_all add: set_remove1_eq length_remove1) (cases ps; simp)
  have "held {} ((handle (ca_bfds st))(b \<mapsto> (True, Some f, False))) (ca_io st) (b # xs) (remove1 b ps)"
    using D(3) f(2) b d by (intro held_flag [OF D(5) f(1)]) auto
  then have "held {} (handle (H(b \<mapsto> ?e))) (ca_io st) (b # xs) (remove1 b ps)" using handle_same [OF H(2)] e by (simp add: handle_put)
  moreover have "ring (H(b \<mapsto> ?e)) (b # xs)" using ring_put [OF H(3) e(1), of ?e] by simp
  ultimately show ?thesis using H(1) e(1) D(3,4) d nb by (auto simp: cache_ok_def)
qed

lemma uncloseable_step:
  assumes g: "good s ps" and e: "ca_bfds s b = Some e" "val \<noteq> cb_in_format_matches e" "cb_cache_iovec e" "possibly_cached e"
  shows "\<exists>r s1 s2 ps'. (if val
      then rbind (bfd_cache_lookup b CACHE_NORMAL s) (\<lambda>(f, st). if f = None then Some (Done (False, st)) else rbind (Some (snip b st)) (\<lambda>st. Some (Done (True, st))))
      else rbind (Some (lru_insert b s)) (\<lambda>st. Some (Done (True, st)))) = Some (Done (r, s1)) \<and>
    cb_update b (\<lambda>e. e\<lparr>cb_in_format_matches := val\<rparr>) s1 = Done s2 \<and> (r \<longrightarrow> good s2 ps')"
proof -
  obtain xs where ok: "cache_ok {} s xs ps" and cl: "closes s" using g by (auto simp: good_def)
  note D = cache_okD [OF ok]
  show ?thesis
  proof (cases val)
    case True
    then have nb: "b \<notin> set ps" using heldD(1) [OF D(5), of b] e(1,2) by (auto simp: handle_def)
    obtain r s1 xs1 where l: "bfd_cache_lookup b CACHE_NORMAL s = Some (Done (r, s1))" "cache_ok {} s1 xs1 ps" "served s b CACHE_NORMAL r s1" "r \<noteq> None \<longrightarrow> (\<exists>ys. xs1 = b # ys)"
      using cache_lookup_ok [OF ok e(1,3,4) cl, of CACHE_NORMAL] nb by blast
    have cl1: "closes s1" "ca_bfds s1 b \<noteq> None" using l(3) cl e(1) by (simp_all add: served_def)
    show ?thesis
    proof (cases r)
      case None
      then show ?thesis using True l(1) cl1(2) cb_update_hmod [of s1 b] by auto
    next
      case (Some f)
      then obtain ys where ys: "xs1 = b # ys" using l(4) by blast
      obtain H e1 where p: "snip b s1 = Done (s1\<lparr>ca_bfds := H, ca_last_cache := head_of ys\<rparr>)" "H b = Some e1"
          "cache_ok {} (s1\<lparr>ca_bfds := H(b \<mapsto> e1\<lparr>cb_in_format_matches := True\<rparr>), ca_last_cache := head_of ys\<rparr>) ys (b # ps)"
        using pinned_ok [of s1 b ys ps] l(2) ys by blast
      have "good (s1\<lparr>ca_bfds := H(b \<mapsto> e1\<lparr>cb_in_format_matches := True\<rparr>), ca_last_cache := head_of ys\<rparr>) (b # ps)" using p(3) cl1(1) by (auto simp: good_def)
      then show ?thesis using True l(1) Some p(1,2)
        by (intro exI [of _ True] exI [of _ "s1\<lparr>ca_bfds := H, ca_last_cache := head_of ys\<rparr>"] exI [of _ "b # ps"]
          exI [of _ "s1\<lparr>ca_bfds := H(b \<mapsto> e1\<lparr>cb_in_format_matches := True\<rparr>), ca_last_cache := head_of ys\<rparr>"])
          (simp add: cb_update_def cb_get_def cb_put_def)
    qed
  next
    case False
    then have "b \<in> set ps" using heldD(1) [OF D(5), of b] heldD(2) [OF D(5), of b] e by (auto simp: handle_def)
    then obtain H e1 where p: "lru_insert b s = Done (s\<lparr>ca_bfds := H, ca_last_cache := Some b\<rparr>)" "H b = Some e1"
        "cache_ok {} (s\<lparr>ca_bfds := H(b \<mapsto> e1\<lparr>cb_in_format_matches := False\<rparr>), ca_last_cache := Some b\<rparr>) (b # xs) (remove1 b ps)"
      using unpinned_ok [OF ok] by blast
    then have "good (s\<lparr>ca_bfds := H(b \<mapsto> e1\<lparr>cb_in_format_matches := False\<rparr>), ca_last_cache := Some b\<rparr>) (remove1 b ps)" using cl by (auto simp: good_def)
    then show ?thesis using False p(1,2)
      by (intro exI [of _ True] exI [of _ "s\<lparr>ca_bfds := H, ca_last_cache := Some b\<rparr>"] exI [of _ "remove1 b ps"]
        exI [of _ "s\<lparr>ca_bfds := H(b \<mapsto> e1\<lparr>cb_in_format_matches := False\<rparr>), ca_last_cache := Some b\<rparr>"])
        (simp add: cb_update_def cb_get_def cb_put_def)
  qed
qed

lemma uncloseable_good:
  assumes "good st ps" "ca_bfds st b = Some e"
  shows "\<exists>r old st'. bfd_cache_set_uncloseable b val st = Some (Done ((r, old), st')) \<and> (r \<longrightarrow> (\<exists>ps'. good st' ps'))"
proof -
  obtain ok s where s: "bfd_lock st = (ok, s)" by fastforce
  note g = lock_good [OF assms(1) s]
  have e: "ca_bfds s b = Some e" using g(2) assms(2) by simp
  show ?thesis
  proof (cases "ok \<and> val \<noteq> cb_in_format_matches e \<and> cb_cache_iovec e \<and> possibly_cached e")
    case True
    then obtain r s1 s2 ps' where u: "(if val
      then rbind (bfd_cache_lookup b CACHE_NORMAL s) (\<lambda>(f, st). if f = None then Some (Done (False, st)) else rbind (Some (snip b st)) (\<lambda>st. Some (Done (True, st))))
      else rbind (Some (lru_insert b s)) (\<lambda>st. Some (Done (True, st)))) = Some (Done (r, s1))"
        "cb_update b (\<lambda>e. e\<lparr>cb_in_format_matches := val\<rparr>) s1 = Done s2" "r \<longrightarrow> good s2 ps'"
      using uncloseable_step [OF g(1) e] by blast
    obtain ok2 s3 where s3: "bfd_lock s2 = (ok2, s3)" by fastforce
    have "bfd_cache_set_uncloseable b val st = Some (Done ((ok2 \<and> r, Some (cb_in_format_matches e)), s3))"
      unfolding bfd_cache_set_uncloseable_def using True s e u(1,2) s3 by (simp add: cb_get_at)
    then show ?thesis using u(3) lock_good(1) [OF _ s3] by auto
  next
    case False
    obtain ok2 s3 where s3: "bfd_lock s = (ok2, s3)" by fastforce
    show ?thesis
    proof (cases ok)
      case True
      then have no: "(val \<noteq> cb_in_format_matches e \<and> cb_cache_iovec e \<and> possibly_cached e) = False" using False by blast
      have "bfd_cache_set_uncloseable b val st = Some (Done ((ok2, Some (cb_in_format_matches e)), s3))"
        unfolding bfd_cache_set_uncloseable_def s prod.case rbind_simps cb_get_at [OF e] no if_False using True s3 by simp
      then show ?thesis using lock_good(1) [OF g(1) s3] by auto
    next
      case False
      then show ?thesis using s g(1) by (auto simp: bfd_cache_set_uncloseable_def)
    qed
  qed
qed

section \<open>Clients\<close>

datatype cache_call =
  Tell nat | Seek nat int whence | Read nat nat | Write nat bytes | Flush nat | Stat nat | Mmap u64 nat u64 u64 | Open nat | Init nat | Close nat | Close_all | Uncloseable nat bool

definition finished :: "('a \<times> bfd_cache) run \<Rightarrow> (bool \<times> bfd_cache) run" where
  "finished m = rbind m (\<lambda>(_, st). Some (Done (True, st)))"

text \<open>The call, and whether the client may go on: not after \<open>bfd_cache_set_uncloseable\<close> has failed.\<close>

definition perform :: "cache_call \<Rightarrow> bfd_cache \<Rightarrow> (bool \<times> bfd_cache) run" where
  "perform c st = (case c of
     Tell b \<Rightarrow> finished (cache_btell b st) | Seek b off w \<Rightarrow> finished (cache_bseek b off w st) | Read b n \<Rightarrow> finished (cache_bread b n st)
   | Write b bs \<Rightarrow> finished (cache_bwrite b bs st) | Flush b \<Rightarrow> finished (cache_bflush b st) | Stat b \<Rightarrow> finished (cache_bstat b st)
   | Mmap pm b len off \<Rightarrow> finished (cache_bmmap pm b len off st)
   | Open b \<Rightarrow> finished (bfd_open_file b st) | Init b \<Rightarrow> finished (bfd_cache_init b st) | Close b \<Rightarrow> finished (bfd_cache_close b st)
   | Close_all \<Rightarrow> finished (bfd_cache_close_all st)
   | Uncloseable b v \<Rightarrow> rbind (bfd_cache_set_uncloseable b v st) (\<lambda>((ok, _), st). Some (Done (ok, st))))"

definition with_bfd :: "bfd_cache \<Rightarrow> nat \<Rightarrow> (cached_bfd \<Rightarrow> bool) \<Rightarrow> bool" where
  "with_bfd st b P = (case ca_bfds st b of None \<Rightarrow> False | Some e \<Rightarrow> P e)"

text \<open>What the client has to know: a file is read and written while the cache has it, opened when it is not open, given to
  the cache once, and not closed while its format is being determined.\<close>

definition allowed :: "cache_call \<Rightarrow> bfd_cache \<Rightarrow> bool" where
  "allowed c st = (let io_call = (\<lambda>b. with_bfd st b (\<lambda>e. cb_cache_iovec e \<and> possibly_cached e)) in case c of
     Tell b \<Rightarrow> io_call b | Seek b _ _ \<Rightarrow> io_call b | Read b _ \<Rightarrow> io_call b | Write b _ \<Rightarrow> io_call b | Flush b \<Rightarrow> io_call b | Stat b \<Rightarrow> io_call b
   | Mmap _ b _ _ \<Rightarrow> io_call b
   | Open b \<Rightarrow> with_bfd st b (\<lambda>e. cb_iostream e = None \<and> \<not> cb_in_format_matches e)
   | Init b \<Rightarrow> with_bfd st b (\<lambda>e. \<not> cb_cache_iovec e \<and> \<not> cb_in_format_matches e \<and>
       (case cb_iostream e of None \<Rightarrow> False | Some f \<Rightarrow> io_streams (ca_io st) f \<noteq> None))
   | Close b \<Rightarrow> with_bfd st b (\<lambda>e. \<not> cb_in_format_matches e)
   | Close_all \<Rightarrow> True
   | Uncloseable b _ \<Rightarrow> with_bfd st b (\<lambda>_. True))"

lemma finished_good: "returns_good m ps \<Longrightarrow> \<exists>st. finished m = Some (Done (True, st)) \<and> good st ps"
  by (auto simp: returns_good_def finished_def)

lemma perform_good:
  assumes "good st ps" "allowed c st"
  shows "\<exists>ok st'. perform c st = Some (Done (ok, st')) \<and> (ok \<longrightarrow> (\<exists>ps'. good st' ps'))"
proof -
  have io: "managed (ca_bfds st) b" if "with_bfd st b (\<lambda>e. cb_cache_iovec e \<and> possibly_cached e)" for b
    using that by (auto simp: with_bfd_def managed_def split: option.splits)
  show ?thesis
  proof (cases c)
    case (Tell b)
    then show ?thesis using finished_good [OF operations_good(1) [OF assms(1) io], of b] assms(2) by (fastforce simp: perform_def allowed_def Let_def)
  next
    case (Seek b off w)
    then show ?thesis using finished_good [OF operations_good(2) [OF assms(1) io], of b] assms(2) by (fastforce simp: perform_def allowed_def Let_def)
  next
    case (Read b n)
    then show ?thesis using finished_good [OF operations_good(3) [OF assms(1) io], of b] assms(2) by (fastforce simp: perform_def allowed_def Let_def)
  next
    case (Write b bs)
    then show ?thesis using finished_good [OF operations_good(4) [OF assms(1) io], of b] assms(2) by (fastforce simp: perform_def allowed_def Let_def)
  next
    case (Flush b)
    then show ?thesis using finished_good [OF operations_good(5) [OF assms(1) io], of b] assms(2) by (fastforce simp: perform_def allowed_def Let_def)
  next
    case (Stat b)
    then show ?thesis using finished_good [OF operations_good(6) [OF assms(1) io], of b] assms(2) by (fastforce simp: perform_def allowed_def Let_def)
  next
    case (Mmap pm b len off)
    then show ?thesis using finished_good [OF bmmap_good [OF assms(1) io], of b] assms(2) by (fastforce simp: perform_def allowed_def Let_def)
  next
    case (Open b)
    then obtain e where "ca_bfds st b = Some e" "cb_iostream e = None" "\<not> cb_in_format_matches e"
      using assms(2) by (auto simp: allowed_def with_bfd_def split: option.splits)
    then show ?thesis using finished_good [OF open_good [OF assms(1)]] Open by (fastforce simp: perform_def)
  next
    case (Init b)
    then obtain e f where "ca_bfds st b = Some e" "cb_iostream e = Some f" "f \<in> dom (io_streams (ca_io st))" "\<not> cb_cache_iovec e" "\<not> cb_in_format_matches e"
      using assms(2) by (auto simp: allowed_def with_bfd_def split: option.splits)
    then show ?thesis using finished_good [OF init_good [OF assms(1)]] Init by (fastforce simp: perform_def)
  next
    case (Close b)
    then obtain e where "ca_bfds st b = Some e" "\<not> cb_in_format_matches e"
      using assms(2) by (auto simp: allowed_def with_bfd_def split: option.splits)
    then show ?thesis using finished_good [OF close_good [OF assms(1)]] Close by (fastforce simp: perform_def)
  next
    case Close_all
    then show ?thesis using finished_good [OF close_all_good [OF assms(1)]] by (fastforce simp: perform_def)
  next
    case (Uncloseable b v)
    then obtain e where "ca_bfds st b = Some e" using assms(2) by (auto simp: allowed_def with_bfd_def split: option.splits)
    then show ?thesis using uncloseable_good [OF assms(1), of b e v] Uncloseable by (auto simp: perform_def)
  qed
qed

end
