(* ===== verification/Bfd_Cache_Props.thy ===== *)
theory Bfd_Cache_Props
  imports Bfd_Cache_Client
begin

text \<open>
  The properties of the cache: every sequence of calls is safe and keeps the ring in order.
\<close>

section \<open>Reachable states\<close>

inductive cache_reach :: "bfd_cache \<Rightarrow> bool" where
  start: "ca_bfds st = Map.empty \<Longrightarrow> ca_last_cache st = None \<Longrightarrow> ca_open_files st = 0 \<Longrightarrow> closes st \<Longrightarrow> \<forall>f \<in> dom (io_streams (ca_io st)). f < io_next (ca_io st) \<Longrightarrow>
    cache_reach st"
| create: "cache_reach st \<Longrightarrow> ca_bfds st b = None \<Longrightarrow> \<not> cb_cache_iovec e \<Longrightarrow> \<not> cb_in_format_matches e \<Longrightarrow> cb_iostream e = None \<Longrightarrow>
    cache_reach (st\<lparr>ca_bfds := (ca_bfds st)(b \<mapsto> e)\<rparr>)"
| create_open: "cache_reach st \<Longrightarrow> ca_bfds st b = None \<Longrightarrow> \<not> cb_cache_iovec e \<Longrightarrow> \<not> cb_in_format_matches e \<Longrightarrow> fopen name mode (ca_io st) = (Some f, io) \<Longrightarrow>
    cb_iostream e = Some f \<Longrightarrow> cache_reach (st\<lparr>ca_bfds := (ca_bfds st)(b \<mapsto> e), ca_io := io\<rparr>)"
| call: "cache_reach st \<Longrightarrow> allowed c st \<Longrightarrow> perform c st = Some (Done (True, st')) \<Longrightarrow> cache_reach st'"

lemma ring_new:
  assumes "ring H xs" "H b = None"
  shows "ring (H(b \<mapsto> e)) xs"
proof -
  have "adjacent H a c \<Longrightarrow> adjacent (H(b \<mapsto> e)) a c" for a c using assms(2) by (auto simp: adjacent_def nx_def pv_def split: if_splits)
  then show ?thesis using assms(1) unfolding ring_def by (blast intro: successively_mono)
qed

lemma held_new:
  assumes "held {} h io xs ps" "h b = None" "f = None \<and> io' = io \<or> f \<noteq> None \<and> opens io f io'"
  shows "held {} (h(b \<mapsto> (False, f, False))) io' xs ps"
proof (rule heldI)
  note D = heldD [OF assms(1)]
  let ?h = "h(b \<mapsto> (False, f, False))"
  have io: "io_next io \<le> io_next io'" "\<And>g. g \<in> dom (io_streams io) \<Longrightarrow> g \<in> dom (io_streams io')" "\<And>g. f = Some g \<Longrightarrow> io_next io \<le> g \<and> g < io_next io'"
    "\<And>g. g \<in> dom (io_streams io') \<Longrightarrow> g \<in> dom (io_streams io) \<or> f = Some g"
    using assms(3) by (cases f; auto simp: opens_def split: if_splits)+
  { fix a assume a: "a \<in> set (xs @ ps)"
    then show "\<exists>g. ?h a = Some (True, Some g, a \<in> set ps) \<and> g \<in> dom (io_streams io')" using D(1) [OF a] io(2) assms(2) by (metis fun_upd_other option.distinct(1)) }
  { fix a g k assume "?h a = Some (True, g, k)" "a \<notin> set (xs @ ps)"
    then show "g = None \<and> \<not> k" using D(2) [of a g k] by (cases "a = b") auto }
  { fix a a' j j' k k' g assume "?h a = Some (j, Some g, k)" "?h a' = Some (j', Some g, k')"
    then show "a = a'" using D(3) [of a j g k a' j' k'] D(4) [of a j g k] D(4) [of a' j' g k'] io(3) [of g] by (cases "a = b"; cases "a' = b") auto }
  { fix a j g k assume "?h a = Some (j, Some g, k)"
    then show "g < io_next io'" using D(4) [of a j g k] io(1,3) by (cases "a = b") auto }
  { fix g assume "g \<in> dom (io_streams io')"
    then show "g < io_next io'" using D(5) [of g] io by fastforce }
qed

lemma new_good:
  assumes "good st ps" "ca_bfds st b = None" "\<not> cb_cache_iovec e" "\<not> cb_in_format_matches e"
    and "cb_iostream e = None \<and> io' = ca_io st \<or> cb_iostream e \<noteq> None \<and> opens (ca_io st) (cb_iostream e) io'"
  shows "good (st\<lparr>ca_bfds := (ca_bfds st)(b \<mapsto> e), ca_io := io'\<rparr>) ps"
proof -
  obtain xs where ok: "cache_ok {} st xs ps" and cl: "closes st" using assms(1) by (auto simp: good_def)
  have "held {} (handle ((ca_bfds st)(b \<mapsto> e))) io' xs ps"
    using held_new [OF cache_okD(5) [OF ok] _ assms(5)] assms(2-4) by (simp add: handle_put) (simp add: handle_def)
  moreover have "ring ((ca_bfds st)(b \<mapsto> e)) xs" by (rule ring_new [OF cache_okD(1) [OF ok] assms(2)])
  ultimately have "cache_ok {} (st\<lparr>ca_bfds := (ca_bfds st)(b \<mapsto> e), ca_io := io'\<rparr>) xs ps" using ok by (simp add: cache_ok_def)
  moreover have "io_close_ok io' = io_close_ok (ca_io st)" using assms(5) by (auto simp: opens_def)
  ultimately show ?thesis using cl by (auto simp: good_def)
qed

lemma reach_good: "cache_reach st \<Longrightarrow> \<exists>ps. good st ps"
proof (induction rule: cache_reach.induct)
  case (start st)
  then have "cache_ok {} st [] []" by (auto simp: cache_ok_def held_def handle_def ring_def)
  then show ?case using start by (auto simp: good_def)
next
  case (create st b e)
  then obtain ps where "good st ps" by blast
  then show ?case using new_good [of st ps b e "ca_io st"] create by auto
next
  case (create_open st b e name mode f io)
  then obtain ps where "good st ps" by blast
  then show ?case using new_good [of st ps b e io] create_open fopen_opens [OF create_open.hyps(5)] by auto
next
  case (call st c st')
  then show ?case using perform_good by fastforce
qed

section \<open>The properties\<close>

text \<open>C21: Every sequence of calls of the cache by clients that keep to the contract returns a result: no stale pointer, closed stream or null pointer is used, the assertions of the
  lookup never abort, and the searches along the ring end.\<close>

theorem cache_calls_safe:
  assumes "cache_reach st" "allowed c st"
  shows "\<exists>ok st'. perform c st = Some (Done (ok, st'))"
  using reach_good [OF assms(1)] perform_good [OF _ assms(2)] by blast


section \<open>An example\<close>

declare find_victim.simps [code] close_all_loop.simps [code]

text \<open>The state after a call that returns and after which the client may go on.\<close>

definition goes_on :: "cache_call \<Rightarrow> bfd_cache \<Rightarrow> bool" where
  "goes_on c st = (case perform c st of Some (Done (ok, _)) \<Rightarrow> ok | _ \<Rightarrow> False)"

definition after_call :: "cache_call \<Rightarrow> bfd_cache \<Rightarrow> bfd_cache" where
  "after_call c st = (case perform c st of Some (Done (_, st')) \<Rightarrow> st' | _ \<Rightarrow> st)"

lemma reach_after: "cache_reach st \<Longrightarrow> allowed c st \<Longrightarrow> goes_on c st \<Longrightarrow> cache_reach (after_call c st)"
  by (auto simp: goes_on_def after_call_def intro: cache_reach.call split: option.splits cresult.splits)

text \<open>Two files and room for one: opening the second closes the first.\<close>

definition sample_io :: stdio where
  "sample_io = \<lparr>io_disk = [''a'' \<mapsto> 0, ''b'' \<mapsto> 1], io_inodes = (\<lambda>i. if i = 0 then [1, 2, 3] else [4, 5]), io_streams = Map.empty, io_next = 2,
     io_ok = (\<lambda>_. True), io_close_ok = (\<lambda>_. True), io_part = (\<lambda>_. 0), io_calls = 0, io_limit = 0, io_plain = (\<lambda>_. True), io_map = (\<lambda>_. 0x10000)\<rparr>"

definition sample_bfd :: "string \<Rightarrow> cached_bfd" where
  "sample_bfd name = \<lparr>cb_filename = name, cb_direction = read_direction, cb_iostream = None, cb_where = 0, cb_lru_next = None, cb_lru_prev = None, cb_cacheable = False,
     cb_opened_once = False, cb_in_format_matches = False, cb_in_memory = False, cb_my_archive = None, cb_cache_iovec = False, cb_closed_by_cache = False, cb_io_force = False\<rparr>"

definition sample_start :: bfd_cache where
  "sample_start = \<lparr>ca_max_open_files = 1, ca_open_files = 0, ca_last_cache = None, ca_bfds = Map.empty, ca_io = sample_io, ca_error = None, ca_messages = 0, ca_asserts = 0\<rparr>"

definition sample_closed :: bfd_cache where
  "sample_closed = sample_start\<lparr>ca_bfds := [10 \<mapsto> sample_bfd ''a'', 11 \<mapsto> sample_bfd ''b'']\<rparr>"

definition sample_cache :: bfd_cache where
  "sample_cache = after_call (Open 11) (after_call (Seek 10 1 SEEK_SET) (after_call (Open 10) sample_closed))"

lemma sample_closed_reach: "cache_reach sample_closed"
proof -
  have "cache_reach sample_start" by (rule cache_reach.start) (simp_all add: sample_start_def sample_io_def)
  then have "cache_reach (sample_start\<lparr>ca_bfds := (ca_bfds sample_start)(10 \<mapsto> sample_bfd ''a'')\<rparr>)" (is "cache_reach ?s")
    by (rule cache_reach.create) (simp_all add: sample_start_def sample_bfd_def)
  then have "cache_reach (?s\<lparr>ca_bfds := (ca_bfds ?s)(11 \<mapsto> sample_bfd ''b'')\<rparr>)"
    by (rule cache_reach.create) (simp_all add: sample_start_def sample_bfd_def)
  then show ?thesis by (simp add: sample_closed_def sample_start_def)
qed

lemma sample_calls:
  "allowed (Open 10) sample_closed" "goes_on (Open 10) sample_closed"
  "allowed (Seek 10 1 SEEK_SET) (after_call (Open 10) sample_closed)" "goes_on (Seek 10 1 SEEK_SET) (after_call (Open 10) sample_closed)"
  "allowed (Open 11) (after_call (Seek 10 1 SEEK_SET) (after_call (Open 10) sample_closed))" "goes_on (Open 11) (after_call (Seek 10 1 SEEK_SET) (after_call (Open 10) sample_closed))"
  "allowed (Read 10 9) sample_cache"
  by code_simp+

lemma sample_reach: "cache_reach sample_cache"
  unfolding sample_cache_def by (rule reach_after sample_calls sample_closed_reach)+

theorem cache_calls_safe_witness: "\<exists>ok st'. perform (Read 10 9) sample_cache = Some (Done (ok, st'))"
  by (rule cache_calls_safe [OF sample_reach sample_calls(7)])

lemma sample_views:
  "bfd_cache_size sample_cache = 1" "ca_last_cache sample_cache = Some 11" "map_option cb_iostream (ca_bfds sample_cache 10) = Some None" "map_option cb_where (ca_bfds sample_cache 10) = Some 1"
  by code_simp+


end
