(* ===== verification/Bfd_Cache_Files.thy ===== *)
theory Bfd_Cache_Files
  imports Bfd_Cache_Props
begin

text \<open>
  The files behind the cache: reading, writing and positioning through the cache gives what files that stay open would give.
\<close>

section \<open>Reading\<close>

lemma touches_trans: "touches io f s s' io' \<Longrightarrow> touches io' f s' s'' io'' \<Longrightarrow> touches io f s s'' io''"
  by (auto simp: touches_def)

lemma fread_exact:
  assumes "io_streams io f = Some s" "all_ok io" "got = take n (drop (sm_pos s) (io_inodes io (sm_inode s)))"
  shows "\<exists>io'. fread f n io = Done (got, io') \<and> touches io f s (s\<lparr>sm_pos := sm_pos s + length got\<rparr>) io' \<and> io_inodes io' = io_inodes io"
  using assms by (auto simp: fread_def try_call_def touches_def Let_def)

definition read_from :: "bfd_cache \<Rightarrow> nat \<Rightarrow> stream \<Rightarrow> bytes \<Rightarrow> bfd_cache \<Rightarrow> bool" where
  "read_from st f s got st' \<longleftrightarrow> (\<exists>io s' err. st' = st\<lparr>ca_io := io, ca_error := err\<rparr> \<and> touches (ca_io st) f s s' io \<and>
     sm_pos s' = sm_pos s + length got \<and> io_inodes io = io_inodes (ca_io st))"

lemma error_same: "\<exists>err. st\<lparr>ca_io := io\<rparr> = st\<lparr>ca_io := io, ca_error := err\<rparr>" "\<exists>err. st = st\<lparr>ca_error := err\<rparr>"
  by (rule exI [of _ "ca_error st"], simp)+

lemma bread_1_exact:
  assumes "io_streams (ca_io st) f = Some s" "all_ok (ca_io st)" "got = take n (drop (sm_pos s) (io_inodes (ca_io st) (sm_inode s)))"
  shows "\<exists>st'. cache_bread_1 f n st = Done (got, st') \<and> read_from st f s got st'"
proof -
  obtain io' where "fread f n (ca_io st) = Done (got, io')" "touches (ca_io st) f s (s\<lparr>sm_pos := sm_pos s + length got\<rparr>) io'" "io_inodes io' = io_inodes (ca_io st)"
    using fread_exact [OF assms] by blast
  then show ?thesis
    by (auto simp: cache_bread_1_def with_io_def set_error_def read_from_def error_same intro!: exI [of _ io'] exI [of _ "s\<lparr>sm_pos := sm_pos s + length got\<rparr>"])
qed

lemma read_from_trans:
  assumes "read_from st f s got st'" "io_streams (ca_io st') f = Some s'" "read_from st' f s' got' st''"
  shows "read_from st f s (got @ got') st''"
proof -
  obtain io s1 err where 1: "st' = st\<lparr>ca_io := io, ca_error := err\<rparr>" "touches (ca_io st) f s s1 io" "sm_pos s1 = sm_pos s + length got" "io_inodes io = io_inodes (ca_io st)"
    using assms(1) by (auto simp: read_from_def)
  have "s1 = s'" using 1(1,2) assms(2) by (simp add: touches_def)
  then show ?thesis using assms(3) 1 touches_trans [OF 1(2)] by (fastforce simp: read_from_def)
qed

lemma full_take: "\<not> length (take c xs) < c \<Longrightarrow> length (take c xs) = c"
  by simp

lemma chunk_take: "c \<le> m \<Longrightarrow> take c xs @ take (m - c) (drop c xs) = take m xs"
  by (metis le_add_diff_inverse take_add)

lemma short_take: "length (take c xs) < c \<Longrightarrow> c \<le> m \<Longrightarrow> take m xs = take c xs"
  by simp

lemma bread_more:
  assumes "length buf < n" "cache_bread_1 f (min (n - length buf) 0x800000) st = Done (got, st1)" "\<not> length got < min (n - length buf) 0x800000"
  shows "bread_loop f n buf st = bread_loop f n (buf @ got) st1"
  using assms by (subst bread_loop.simps) (auto simp: Let_def)

lemma bread_loop_exact:
  assumes "io_streams (ca_io st) f = Some s" "all_ok (ca_io st)" "length buf \<le> n"
  shows "\<exists>st' got. bread_loop f n buf st = Done (buf @ got, st') \<and> got = take (n - length buf) (drop (sm_pos s) (io_inodes (ca_io st) (sm_inode s))) \<and> read_from st f s got st'"
  using assms
proof (induction f n buf st arbitrary: s rule: bread_loop.induct)
  case (1 f n buf st)
  let ?c = "min (n - length buf) 0x800000" let ?rest = "drop (sm_pos s) (io_inodes (ca_io st) (sm_inode s))"
  obtain st1 where g: "cache_bread_1 f ?c st = Done (take ?c ?rest, st1)" "read_from st f s (take ?c ?rest) st1" using bread_1_exact [OF 1(2,3) refl, of ?c] by blast
  obtain io s1 err where st1: "st1 = st\<lparr>ca_io := io, ca_error := err\<rparr>" "touches (ca_io st) f s s1 io" "sm_pos s1 = sm_pos s + length (take ?c ?rest)" "io_inodes io = io_inodes (ca_io st)"
    using g(2) by (auto simp: read_from_def)
  have s1: "io_streams (ca_io st1) f = Some s1" "all_ok (ca_io st1)" "sm_inode s1 = sm_inode s" using st1(1,2) 1(3) by (simp_all add: touches_def)
  show ?case
  proof (cases "length buf < n")
    case False
    moreover have "read_from st f s [] st"
      using 1(2) by (auto simp: read_from_def touches_def fun_upd_idem error_same intro!: exI [of _ "ca_io st"] exI [of _ s])
    ultimately show ?thesis using 1(4) by (subst bread_loop.simps) simp
  next
    case left: True
    show ?thesis
    proof (cases "length (take ?c ?rest) < ?c")
      case True
      then have "take (n - length buf) ?rest = take ?c ?rest" by (rule short_take) simp
      moreover have "bread_loop f n buf st = Done (buf @ take ?c ?rest, st1)" using left g(1) True by (subst bread_loop.simps) (simp add: Let_def)
      ultimately show ?thesis using g(2) by auto
    next
      case False
      then have len: "length (take ?c ?rest) = ?c" by (rule full_take)
      then have "length (buf @ take ?c ?rest) \<le> n" using left by simp
      from "1.IH" [OF left refl g(1) refl False s1(1,2) this]
      obtain st2 got where r: "bread_loop f n (buf @ take ?c ?rest) st1 = Done ((buf @ take ?c ?rest) @ got, st2)"
          "got = take (n - length (buf @ take ?c ?rest)) (drop (sm_pos s1) (io_inodes (ca_io st1) (sm_inode s1)))" "read_from st1 f s1 got st2"
        by blast
      have got: "got = take (n - length buf - ?c) (drop ?c ?rest)" using r(2) s1(3) st1(1,3,4) len by (simp add: add.commute)
      have "bread_loop f n buf st = Done (buf @ take ?c ?rest @ got, st2)" using bread_more [OF left g(1) False] r(1) by simp
      moreover have "take ?c ?rest @ got = take (n - length buf) ?rest" unfolding got by (rule chunk_take) simp
      ultimately show ?thesis using read_from_trans [OF g(2) s1(1) r(3)] by auto
    qed
  qed
qed


text \<open>What a user of a file sees of the files.\<close>

lemma views_calls:
  "place H (io\<lparr>io_calls := n\<rparr>) = place H io" "named H (io\<lparr>io_calls := n\<rparr>) = named H io"
  by (auto simp: place_def named_def fun_eq_iff split: option.splits)

lemma lock_all_ok: "all_ok (ca_io st) \<Longrightarrow> bfd_lock st = (True, st\<lparr>ca_io := (ca_io st)\<lparr>io_calls := Suc (io_calls (ca_io st))\<rparr>\<rparr>)"
  by (simp add: bfd_lock_def try_call_def)

lemma place_stream: "place H io b = Some (i, p) \<Longrightarrow> H b = Some e \<Longrightarrow> cb_iostream e = Some f \<Longrightarrow> \<exists>s. io_streams io f = Some s \<and> sm_inode s = i \<and> int (sm_pos s) = p"
  by (auto simp: place_def)

section \<open>Files stay with the cache\<close>

definition keeps :: "bfd_cache \<Rightarrow> bfd_cache \<Rightarrow> bool" where
  "keeps st st' \<longleftrightarrow> (\<forall>b e. ca_bfds st b = Some e \<and> cb_cache_iovec e \<longrightarrow> (\<exists>e'. ca_bfds st' b = Some e' \<and> cb_cache_iovec e'))"

definition results :: "('a \<Rightarrow> bool) \<Rightarrow> 'a cresult \<Rightarrow> bool" where
  "results P m \<longleftrightarrow> (\<forall>x. m = Done x \<longrightarrow> P x)"

definition outcomes :: "('a \<Rightarrow> bool) \<Rightarrow> 'a run \<Rightarrow> bool" where
  "outcomes P m \<longleftrightarrow> (\<forall>x. m = Some (Done x) \<longrightarrow> P x)"

lemma keeps_simps:
  "keeps st (s\<lparr>ca_io := io\<rparr>) = keeps st s" "keeps st (s\<lparr>ca_last_cache := l\<rparr>) = keeps st s" "keeps st (s\<lparr>ca_open_files := n\<rparr>) = keeps st s"
  "keeps st (s\<lparr>ca_asserts := m\<rparr>) = keeps st s" "keeps st (s\<lparr>ca_messages := m\<rparr>) = keeps st s" "keeps st (s\<lparr>ca_max_open_files := n\<rparr>) = keeps st s"
  "keeps st (set_error err s) = keeps st s" "keeps st st"
  by (simp_all add: keeps_def set_error_def)

lemma keeps_put: "keeps st s \<Longrightarrow> ca_bfds s b = Some e \<Longrightarrow> (cb_cache_iovec e \<Longrightarrow> cb_cache_iovec e') \<Longrightarrow> keeps st (cb_put b e' s)"
  by (fastforce simp: keeps_def cb_put_def)

named_theorems kept

lemma results_rules [kept]:
  "P x \<Longrightarrow> results P (Done x)"
  "(\<And>e. ca_bfds s a = Some e \<Longrightarrow> results P (k e)) \<Longrightarrow> results P (cbind (cb_get a s) k)"
  "(\<And>a. results P (h a)) \<Longrightarrow> results P (cbind (deref p) h)"
  "results P Abort" "results P Undefined"
  by (auto simp: results_def cb_get_def deref_def split: option.splits)

lemma io_kept [kept]:
  assumes "keeps st s"
  shows "results (\<lambda>(r, s'). keeps st s') (with_io c s)" "(\<And>r s'. keeps st s' \<Longrightarrow> results P (g (r, s'))) \<Longrightarrow> results P (cbind (with_io c s) g)"
proof -
  have k: "keeps st (s\<lparr>ca_io := io\<rparr>)" for io using assms by (simp add: keeps_simps)
  show "results (\<lambda>(r, s'). keeps st s') (with_io c s)" using k by (cases "c (ca_io s)") (auto simp: with_io_def results_def)
  show "results P (cbind (with_io c s) g)" if "\<And>r s'. keeps st s' \<Longrightarrow> results P (g (r, s'))"
    using that [OF k] by (cases "c (ca_io s)") (auto simp: with_io_def results_def)
qed

lemma update_kept [kept]:
  assumes "keeps st s" "\<And>e. cb_cache_iovec e \<Longrightarrow> cb_cache_iovec (f e)"
  shows "results (keeps st) (cb_update a f s)"
  using assms keeps_put [OF assms(1)] by (auto simp: results_def cb_update_def cb_get_def split: option.splits)

lemma bind_kept: "results (keeps st) m \<Longrightarrow> (\<And>s. keeps st s \<Longrightarrow> results P (k s)) \<Longrightarrow> results P (cbind m k)"
  by (cases m) (auto simp: results_def)

lemma bind_update_kept [kept]:
  "keeps st s \<Longrightarrow> (\<And>e. cb_cache_iovec e \<Longrightarrow> cb_cache_iovec (f e)) \<Longrightarrow> (\<And>s. keeps st s \<Longrightarrow> results P (k s)) \<Longrightarrow> results P (cbind (cb_update a f s) k)"
  by (rule bind_kept [OF update_kept])

lemma insert_kept: "keeps st s \<Longrightarrow> results (keeps st) (lru_insert b s)"
  by (cases "ca_last_cache s") (auto simp: lru_insert_def keeps_simps intro!: kept bind_kept [where st = st])

lemma snip_kept: "keeps st s \<Longrightarrow> results (keeps st) (snip b s)"
  by (auto simp: snip_def keeps_simps intro!: kept)

lemma bind_ring_kept [kept]:
  "keeps st s \<Longrightarrow> (\<And>s. keeps st s \<Longrightarrow> results P (k s)) \<Longrightarrow> results P (cbind (lru_insert b s) k)"
  "keeps st s \<Longrightarrow> (\<And>s. keeps st s \<Longrightarrow> results P (k s)) \<Longrightarrow> results P (cbind (snip b s) k)"
  by (blast intro: bind_kept insert_kept snip_kept)+

lemma delete_kept: "keeps st s \<Longrightarrow> results (\<lambda>(r, s'). keeps st s') (bfd_cache_delete b s)"
  by (auto simp: bfd_cache_delete_def keeps_simps intro!: kept)

text \<open>The same with loops.\<close>

lemma outcomes_rules [kept]:
  "results P m \<Longrightarrow> outcomes P (Some m)"
  "(\<And>e. ca_bfds s a = Some e \<Longrightarrow> outcomes P (k e)) \<Longrightarrow> outcomes P (rbind (Some (cb_get a s)) k)"
  by (auto simp: results_def outcomes_def cb_get_def split: option.splits)

lemma rbind_kept:
  "results (keeps st) m \<Longrightarrow> (\<And>s. keeps st s \<Longrightarrow> outcomes P (k s)) \<Longrightarrow> outcomes P (rbind (Some m) k)"
  "outcomes (\<lambda>(r, s'). keeps st s') c \<Longrightarrow> (\<And>r s. keeps st s \<Longrightarrow> outcomes P (h (r, s))) \<Longrightarrow> outcomes P (rbind c h)"
  "(\<And>x. outcomes P (g x)) \<Longrightarrow> outcomes P (rbind d g)"
  by (auto simp: outcomes_def results_def rbind_def split: option.splits cresult.splits)

lemma close_one_kept: "keeps st s \<Longrightarrow> outcomes (\<lambda>(r, s'). keeps st s') (close_one s)"
  unfolding close_one_def
  by (rule rbind_kept(3)) (auto simp: keeps_simps delete_kept split: option.splits intro!: kept)

lemma make_room_kept: "keeps st s \<Longrightarrow> outcomes (\<lambda>(r, s'). keeps st s') (make_room s)"
  by (auto simp: make_room_def bfd_cache_max_open_def Let_def keeps_simps close_one_kept intro!: kept)

lemma init_kept: "keeps st s \<Longrightarrow> outcomes (\<lambda>(r, s'). keeps st s') (bfd_cache_init_unlocked b s)"
  unfolding bfd_cache_init_unlocked_def
  by (auto simp: keeps_simps intro!: kept rbind_kept(2) [OF make_room_kept])

lemma opened_kept: "keeps st s \<Longrightarrow> ca_bfds s b = Some e \<Longrightarrow> keeps st (cb_put b (e\<lparr>cb_iostream := f, cb_opened_once := once\<rparr>) (s\<lparr>ca_io := io\<rparr>))"
  by (rule keeps_put [where e = e]) (simp_all add: keeps_simps)

lemma open_kept: "keeps st s \<Longrightarrow> outcomes (\<lambda>(r, s'). keeps st s') (bfd_open_file_unlocked b s)"
  unfolding bfd_open_file_unlocked_def
  by (auto simp: keeps_simps Let_def intro!: kept opened_kept rbind_kept(1) [OF update_kept] rbind_kept(2) [OF make_room_kept] rbind_kept(2) [OF init_kept] split: prod.splits)

lemma move_kept: "keeps st s \<Longrightarrow> results (keeps st) (cbind (snip b s) (lru_insert b))"
  by (auto intro!: kept insert_kept)

lemma reopen_kept:
  assumes "keeps st s" "\<And>f s. keeps st s \<Longrightarrow> outcomes (\<lambda>(r, s'). keeps st s') (seek f s)"
  shows "outcomes (\<lambda>(r, s'). keeps st s') (rbind (bfd_open_file_unlocked b s) (\<lambda>(f, st). case f of
      None \<Rightarrow> Some (Done (None, st\<lparr>ca_messages := Suc (ca_messages st)\<rparr>))
    | Some f \<Rightarrow> rbind (seek f st) (\<lambda>(ok, st).
        if \<not> ok \<and> \<not> CACHE_NO_SEEK_ERROR flag then Some (Done (None, (set_error bfd_error_system_call st)\<lparr>ca_messages := Suc (ca_messages st)\<rparr>))
        else Some (Done (Some f, st)))))"
  using assms(1) by (auto simp: keeps_simps intro!: kept rbind_kept(2) [OF open_kept] rbind_kept(2) [OF assms(2)] split: option.splits)

lemma seek_kept: "keeps st s \<Longrightarrow> outcomes (\<lambda>(r, s'). keeps st s')
    (if CACHE_NO_SEEK flag then Some (Done (True, s)) else rbind (Some (cb_get b s)) (\<lambda>e. Some (with_io (fseek f (cb_where e) SEEK_SET) s)))"
  by (auto intro!: kept)

lemma outcomes_if: "(c \<Longrightarrow> outcomes P m) \<Longrightarrow> (\<not> c \<Longrightarrow> outcomes P n) \<Longrightarrow> outcomes P (if c then m else n)"
  by simp

lemma lookup_kept:
  assumes "keeps st s"
  shows "outcomes (\<lambda>(r, s'). keeps st s') (bfd_cache_lookup b flag s)"
  unfolding bfd_cache_lookup_def bfd_cache_lookup_worker_def
proof (intro outcomes_if outcomes_rules(2), goal_cases)
  case (5 e)
  then show ?case using assms by (cases "ca_last_cache s = Some b") (auto simp: keeps_simps intro!: kept rbind_kept(1) [OF move_kept])
next
  case (7 e)
  then show ?case by (intro reopen_kept seek_kept assms)
qed (use assms in \<open>auto intro!: kept\<close>)

section \<open>What users see\<close>

text \<open>Files that stay open: their contents, and for each user the file and the position in it.\<close>

type_synonym files = "(nat \<Rightarrow> bytes) \<times> (nat \<rightharpoonup> nat \<times> int)"

datatype answer = Number int | Contents int bytes | Length "nat option"

definition file_at :: "files \<Rightarrow> nat \<Rightarrow> (nat \<Rightarrow> int \<Rightarrow> 'a option) \<Rightarrow> 'a option" where
  "file_at F b k = (case snd F b of None \<Rightarrow> None | Some (i, p) \<Rightarrow> if 0 \<le> p then k i p else None)"

definition seek_target :: "int \<Rightarrow> whence \<Rightarrow> int \<Rightarrow> nat \<Rightarrow> int" where
  "seek_target off w p len = off + (case w of SEEK_SET \<Rightarrow> 0 | SEEK_CUR \<Rightarrow> p | SEEK_END \<Rightarrow> int len)"

definition file_call :: "cache_call \<Rightarrow> files \<Rightarrow> (answer \<times> files) option" where
  "file_call c F = (case F of (C, P) \<Rightarrow> case c of
     Tell b \<Rightarrow> file_at F b (\<lambda>i p. Some (Number p, F))
   | Seek b off w \<Rightarrow> file_at F b (\<lambda>i p. let q = seek_target off w p (length (C i)) in if 0 \<le> q then Some (Number 0, C, P(b \<mapsto> (i, q))) else None)
   | Read b n \<Rightarrow> file_at F b (\<lambda>i p. let got = take n (drop (nat p) (C i)) in Some (Contents (int (length got)) got, C, P(b \<mapsto> (i, p + int (length got)))))
   | Write b bs \<Rightarrow> file_at F b (\<lambda>i p. Some (Number (int (length bs)), C(i := overwrite (nat p) bs (C i)), P(b \<mapsto> (i, p + int (length bs)))))
   | Flush b \<Rightarrow> file_at F b (\<lambda>i p. Some (Number 0, F))
   | Stat b \<Rightarrow> file_at F b (\<lambda>i p. Some (Length (Some (length (C i))), F))
   | _ \<Rightarrow> None)"

primrec run_files :: "cache_call list \<Rightarrow> files \<Rightarrow> (answer list \<times> files) option" where
  "run_files [] F = Some ([], F)"
| "run_files (c # cs) F = (case file_call c F of None \<Rightarrow> None | Some (a, F) \<Rightarrow> map_option (\<lambda>(as, F). (a # as, F)) (run_files cs F))"

text \<open>The same calls on the cache.\<close>

definition answers :: "('a \<Rightarrow> answer) \<Rightarrow> ('a \<times> bfd_cache) run \<Rightarrow> (answer \<times> bfd_cache) run" where
  "answers f m = rbind m (\<lambda>(r, st). Some (Done (f r, st)))"

definition ask :: "cache_call \<Rightarrow> bfd_cache \<Rightarrow> (answer \<times> bfd_cache) run" where
  "ask c st = (case c of
     Tell b \<Rightarrow> answers Number (cache_btell b st) | Seek b off w \<Rightarrow> answers Number (cache_bseek b off w st)
   | Read b n \<Rightarrow> answers (\<lambda>(n, bs). Contents n bs) (cache_bread b n st) | Write b bs \<Rightarrow> answers Number (cache_bwrite b bs st)
   | Flush b \<Rightarrow> answers Number (cache_bflush b st) | Stat b \<Rightarrow> answers Length (cache_bstat b st) | _ \<Rightarrow> None)"

primrec run_cache :: "cache_call list \<Rightarrow> bfd_cache \<Rightarrow> (answer list \<times> bfd_cache) run" where
  "run_cache [] st = Some (Done ([], st))"
| "run_cache (c # cs) st = rbind (ask c st) (\<lambda>(a, st). rbind (run_cache cs st) (\<lambda>(as, st). Some (Done (a # as, st))))"

definition call_target :: "cache_call \<Rightarrow> nat option" where
  "call_target c = (case c of Tell b \<Rightarrow> Some b | Seek b _ _ \<Rightarrow> Some b | Read b _ \<Rightarrow> Some b | Write b _ \<Rightarrow> Some b | Flush b \<Rightarrow> Some b | Stat b \<Rightarrow> Some b | _ \<Rightarrow> None)"

definition files_of :: "bfd_cache \<Rightarrow> files" where
  "files_of st = (io_inodes (ca_io st), place (ca_bfds st) (ca_io st))"

text \<open>A file of the cache that opening again does not empty.\<close>

definition ready :: "bfd_cache \<Rightarrow> nat \<Rightarrow> bool" where
  "ready st b = with_bfd st b (\<lambda>e. cb_cache_iovec e \<and> possibly_cached e \<and> reopenable e)"

definition calm_state :: "bfd_cache \<Rightarrow> bool" where
  "calm_state st \<longleftrightarrow> (\<exists>ps. good st ps) \<and> all_ok (ca_io st) \<and> named (ca_bfds st) (ca_io st)"

lemma ready_after:
  assumes "after st b q C st'" "keeps st st'" "ready st b'"
  shows "ready st' b'"
proof -
  obtain e where e: "ca_bfds st b' = Some e" "cb_cache_iovec e" "possibly_cached e" "reopenable e" using assms(3) by (auto simp: ready_def with_bfd_def split: option.splits)
  obtain e' where e': "ca_bfds st' b' = Some e'" "cb_cache_iovec e'" using assms(2) e by (auto simp: keeps_def)
  have "meta (ca_bfds st') b' = meta (ca_bfds st) b'" using assms(1) by (simp add: after_def)
  then have "possibly_cached e'" "reopenable e'" using e e' by (auto simp: meta_def reopenable_def)
  then show ?thesis using e' by (simp add: ready_def with_bfd_def)
qed

section \<open>One call\<close>

abbreviation ticked :: "bfd_cache \<Rightarrow> bfd_cache" where
  "ticked st \<equiv> st\<lparr>ca_io := (ca_io st)\<lparr>io_calls := Suc (io_calls (ca_io st))\<rparr>\<rparr>"

lemma after_ticked: "after (ticked st) b q C st' = after st b q C st'" "after st b q C (ticked st') = after st b q C st'"
  by (simp_all add: after_def views_calls)

lemma after_trans: "after st b q C st1 \<Longrightarrow> after st1 b q' C' st2 \<Longrightarrow> after st b q' C' st2"
  by (simp add: after_def)

lemma after_touch:
  assumes "cache_ok X st xs ps" "ca_bfds st b = Some e" "cb_iostream e = Some f" "touches (ca_io st) f s s' io" "named (ca_bfds st) (ca_io st)"
    and "ca_bfds st' = ca_bfds st" "ca_io st' = io"
  shows "after st b (sm_inode s, int (sm_pos s')) (io_inodes io) st'"
  using touch_place [OF assms(1-4)] assms(4-7) by (simp add: after_def touches_def)

lemma after_same: "named (ca_bfds st) (ca_io st) \<Longrightarrow> place (ca_bfds st) (ca_io st) b = Some q \<Longrightarrow> after st b q (io_inodes (ca_io st)) st"
  by (simp add: after_def fun_upd_idem)

text \<open>What the action of a call does with the stream.\<close>

definition acts :: "(nat \<Rightarrow> bfd_cache \<Rightarrow> ('a \<times> bfd_cache) run) \<Rightarrow> bfd_cache \<Rightarrow> nat \<Rightarrow> stream \<Rightarrow> 'a \<Rightarrow> int \<Rightarrow> (nat \<Rightarrow> bytes) \<Rightarrow> bool" where
  "acts act st f s r p C \<longleftrightarrow> (\<exists>st' s'. act f st = Some (Done (r, st')) \<and> ca_bfds st' = ca_bfds st \<and> touches (ca_io st) f s s' (ca_io st') \<and>
     int (sm_pos s') = p \<and> io_inodes (ca_io st') = C)"

lemma op_body:
  assumes ok: "cache_ok {} st xs ps" "closes st" and io: "all_ok (ca_io st)" "named (ca_bfds st) (ca_io st)" and b: "ready st b"
    and p: "place (ca_bfds st) (ca_io st) b = Some (i, p)" "0 \<le> p"
    and act: "\<And>f s1 s. io_streams (ca_io s1) f = Some s \<Longrightarrow> sm_inode s = i \<Longrightarrow> CACHE_NO_SEEK flag \<or> int (sm_pos s) = p \<Longrightarrow> all_ok (ca_io s1) \<Longrightarrow>
      io_inodes (ca_io s1) = io_inodes (ca_io st) \<Longrightarrow> acts act s1 f s r p' C"
    and no: "CACHE_NO_OPEN flag \<Longrightarrow> p' = p \<and> C = io_inodes (ca_io st) \<and> (\<forall>s e. ca_bfds s b = Some e \<and> cb_where e = p \<longrightarrow> no s = Some (Done (r, s)))"
  shows "\<exists>st'. rbind (bfd_cache_lookup b flag st) (\<lambda>(f, st). case f of None \<Rightarrow> no st | Some f \<Rightarrow> act f st) = Some (Done (r, st')) \<and> after st b (i, p') C st' \<and> keeps st st'"
proof -
  obtain e where e: "ca_bfds st b = Some e" "cb_cache_iovec e" "possibly_cached e" "reopenable e" using b by (auto simp: ready_def with_bfd_def split: option.splits)
  obtain r1 st1 xs' where l: "bfd_cache_lookup b flag st = Some (Done (r1, st1))" "cache_ok {} st1 xs' ps" "served st b flag r1 st1"
    using cache_lookup_ok [OF ok(1) e(1-3) ok(2)] by blast
  then obtain q where q: "CACHE_NO_OPEN flag \<and> cb_iostream e = None \<or> r1 \<noteq> None" "CACHE_NO_SEEK flag \<or> q = p" "after st b (i, q) (io_inodes (ca_io st)) st1"
    using e(1,4) io p unfolding served_def by blast
  show ?thesis
  proof (cases r1)
    case None
    then have n: "CACHE_NO_OPEN flag" "cb_iostream e = None" "st1 = st" using q(1) lookup_no_open [of b flag st st1] l(1) by auto
    then have "cb_where e = p" using p(1) e(1) by (auto simp: place_def)
    then show ?thesis using l(1) None n no e(1) after_same [OF io(2) p(1)] by (auto simp: keeps_simps)
  next
    case (Some f)
    then obtain e1 where e1: "ca_bfds st1 b = Some e1" "cb_iostream e1 = Some f" using l(3) by (auto simp: served_def)
    have a: "named (ca_bfds st1) (ca_io st1)" "all_ok (ca_io st1)" "io_inodes (ca_io st1) = io_inodes (ca_io st)" "place (ca_bfds st1) (ca_io st1) b = Some (i, q)"
      using q(3) io(1) by (simp_all add: after_def)
    obtain s where s: "io_streams (ca_io st1) f = Some s" "sm_inode s = i" "int (sm_pos s) = q" using place_stream [OF a(4) e1] by blast
    obtain st2 s' where t: "act f st1 = Some (Done (r, st2))" "ca_bfds st2 = ca_bfds st1" "touches (ca_io st1) f s s' (ca_io st2)" "int (sm_pos s') = p'" "io_inodes (ca_io st2) = C"
      using act [OF s(1,2) _ a(2,3)] q(2) s(3) by (auto simp: acts_def)
    have "after st b (i, p') C st2" using after_trans [OF q(3)] after_touch [OF l(2) e1 t(3) a(1) t(2) refl] s(2) t(4,5) by simp
    moreover have "keeps st st2" using lookup_kept [OF keeps_simps(8), of st b flag] l(1) t(2) by (simp add: outcomes_def keeps_def)
    ultimately show ?thesis using l(1) Some t(1) by auto
  qed
qed

lemma locked_all_ok:
  assumes "all_ok (ca_io st)" "body (ticked st) = Some (Done (r, st1))" "all_ok (ca_io st1)"
  shows "locked fail body st = Some (Done (r, ticked st1))"
  using assms by (simp add: locked_def lock_all_ok)

lemma op_exact:
  assumes st: "calm_state st" and b: "ready st b" and p: "place (ca_bfds st) (ca_io st) b = Some (i, p)" "0 \<le> p"
    and act: "\<And>f s1 s. io_streams (ca_io s1) f = Some s \<Longrightarrow> sm_inode s = i \<Longrightarrow> CACHE_NO_SEEK flag \<or> int (sm_pos s) = p \<Longrightarrow> all_ok (ca_io s1) \<Longrightarrow>
      io_inodes (ca_io s1) = io_inodes (ca_io st) \<Longrightarrow> acts act s1 f s r p' C"
    and no: "CACHE_NO_OPEN flag \<Longrightarrow> p' = p \<and> C = io_inodes (ca_io st) \<and> (\<forall>s e. ca_bfds s b = Some e \<and> cb_where e = p \<longrightarrow> no s = Some (Done (r, s)))"
  shows "\<exists>st'. locked fail (\<lambda>st. rbind (bfd_cache_lookup b flag st) (\<lambda>(f, st). case f of None \<Rightarrow> no st | Some f \<Rightarrow> act f st)) st = Some (Done (r, st')) \<and>
    after st b (i, p') C st' \<and> keeps st st'"
proof -
  obtain ps where g: "good st ps" and io: "all_ok (ca_io st)" "named (ca_bfds st) (ca_io st)" using st by (auto simp: calm_state_def)
  obtain xs where ok: "cache_ok {} (ticked st) xs ps" "closes (ticked st)" using lock_good(1) [OF g lock_all_ok [OF io(1)]] by (auto simp: good_def)
  obtain st1 where r: "rbind (bfd_cache_lookup b flag (ticked st)) (\<lambda>(f, st). case f of None \<Rightarrow> no st | Some f \<Rightarrow> act f st) = Some (Done (r, st1))"
      "after (ticked st) b (i, p') C st1" "keeps (ticked st) st1"
    using op_body [OF ok, where b = b and i = i and p = p and flag = flag and act = act and no = no and r = r and p' = p' and C = C] io b p act no
    by (auto simp: views_calls ready_def with_bfd_def)
  have "all_ok (ca_io st1)" using r(2) io(1) by (simp add: after_def)
  then show ?thesis using locked_all_ok [where body = "\<lambda>st. rbind (bfd_cache_lookup b flag st) (\<lambda>(f, st). case f of None \<Rightarrow> no st | Some f \<Rightarrow> act f st)", OF io(1) r(1)] r(2,3)
    by (auto simp: after_ticked keeps_def)
qed

end
