(* ===== verification/Bfd_Cache_Refine.thy ===== *)
theory Bfd_Cache_Refine
  imports Bfd_Cache_Files
begin

text \<open>
  The calls of the cache refine those on files that stay open.
\<close>

section \<open>The calls\<close>

lemma actsI:
  "act f st = Some (Done (r, st')) \<Longrightarrow> ca_bfds st' = ca_bfds st \<Longrightarrow> touches (ca_io st) f s s' (ca_io st') \<Longrightarrow> int (sm_pos s') = p \<Longrightarrow> io_inodes (ca_io st') = C \<Longrightarrow> acts act st f s r p C"
  by (auto simp: acts_def)

lemmas stdio_simps = with_io_def try_call_def touches_def fun_upd_idem ftell_def fseek_def fflush_def fstat_def fwrite_def set_error_def

lemma calls_act:
  assumes f: "io_streams (ca_io st) f = Some s" and io: "all_ok (ca_io st)"
  shows "acts (\<lambda>f st. Some (with_io (ftell f) st)) st f s (int (sm_pos s)) (int (sm_pos s)) (io_inodes (ca_io st))"
    "acts (\<lambda>f st. rbind (Some (with_io (fflush f) st)) (\<lambda>(ok, st). Some (Done (if ok then (0, st) else (- 1, set_error bfd_error_system_call st))))) st f s (0 :: int) (int (sm_pos s))
      (io_inodes (ca_io st))"
    "acts (\<lambda>f st. rbind (Some (with_io (fstat f) st)) (\<lambda>(r, st). Some (Done (r, if r = None then set_error bfd_error_system_call st else st)))) st f s
      (Some (length (io_inodes (ca_io st) (sm_inode s)))) (int (sm_pos s)) (io_inodes (ca_io st))"
  by (rule actsI [where st' = "ticked st" and s' = s]; use f io in \<open>simp add: stdio_simps\<close>)+

lemma seek_acts:
  assumes f: "io_streams (ca_io st) f = Some s" and io: "all_ok (ca_io st)"
    and q: "q = seek_target off w p (length (io_inodes (ca_io st) (sm_inode s)))" "0 \<le> q" "w \<noteq> SEEK_CUR \<or> int (sm_pos s) = p"
  shows "acts (\<lambda>f st. rbind (Some (with_io (fseek f off w) st)) (\<lambda>(ok, st). Some (Done (if ok then 0 else - 1, st)))) st f s (0 :: int) q (io_inodes (ca_io st))"
proof -
  let ?s = "s\<lparr>sm_pos := nat q\<rparr>"
  let ?st = "st\<lparr>ca_io := (ca_io st)\<lparr>io_calls := Suc (io_calls (ca_io st)), io_streams := (io_streams (ca_io st))(f \<mapsto> ?s)\<rparr>\<rparr>"
  have "q = off + (case w of SEEK_SET \<Rightarrow> 0 | SEEK_CUR \<Rightarrow> int (sm_pos s) | SEEK_END \<Rightarrow> int (length (io_inodes (ca_io st) (sm_inode s))))"
    using q(1,3) by (auto simp: seek_target_def split: whence.splits)
  then show ?thesis using f io q(2) by (intro actsI [where st' = ?st and s' = ?s]) (cases w; simp add: stdio_simps Let_def)+
qed

lemma write_acts:
  assumes f: "io_streams (ca_io st) f = Some s" and io: "all_ok (ca_io st)" and p: "int (sm_pos s) = p"
  shows "acts (\<lambda>f st. rbind (Some (with_io (fwrite f bs) st)) (\<lambda>(n, st).
      if n < length bs \<and> ferror f (ca_io st) then Some (Done (- 1, set_error bfd_error_system_call st)) else Some (Done (int n, st)))) st f s (int (length bs)) (p + int (length bs))
      ((io_inodes (ca_io st))(sm_inode s := overwrite (nat p) bs (io_inodes (ca_io st) (sm_inode s))))"
proof -
  let ?s = "s\<lparr>sm_pos := sm_pos s + length bs\<rparr>" let ?io = "ca_io st"
  let ?st = "st\<lparr>ca_io := ?io\<lparr>io_calls := Suc (io_calls ?io), io_inodes := (io_inodes ?io)(sm_inode s := overwrite (sm_pos s) bs (io_inodes ?io (sm_inode s))),
    io_streams := (io_streams ?io)(f \<mapsto> ?s)\<rparr>\<rparr>"
  show ?thesis using f io p by (intro actsI [where st' = ?st and s' = ?s]) (auto simp: stdio_simps Let_def)
qed

lemma read_acts:
  assumes f: "io_streams (ca_io st) f = Some s" and io: "all_ok (ca_io st)" and p: "int (sm_pos s) = p"
    and got: "got = take n (drop (nat p) (io_inodes (ca_io st) (sm_inode s)))"
  shows "acts (\<lambda>f st. rbind (Some (bread_loop f n [] st)) (\<lambda>(buf, st). Some (Done ((int (length buf), buf), st)))) st f s (int (length got), got) (p + int (length got)) (io_inodes (ca_io st))"
proof -
  obtain st' where r: "bread_loop f n [] st = Done (got, st')" "read_from st f s got st'" using bread_loop_exact [OF f io, of "[]" n] p got by auto
  then obtain io' s' err where "st' = st\<lparr>ca_io := io', ca_error := err\<rparr>" "touches (ca_io st) f s s' io'" "sm_pos s' = sm_pos s + length got" "io_inodes io' = io_inodes (ca_io st)"
    by (auto simp: read_from_def)
  then show ?thesis using r(1) p by (intro actsI [where st' = st' and s' = s']) simp_all
qed

lemma ops_exact:
  assumes st: "calm_state st" and b: "ready st b" and p: "place (ca_bfds st) (ca_io st) b = Some (i, p)" "0 \<le> p"
  defines "C \<equiv> io_inodes (ca_io st)"
  shows "\<exists>st'. cache_btell b st = Some (Done (p, st')) \<and> after st b (i, p) C st' \<and> keeps st st'"
    "\<exists>st'. cache_bflush b st = Some (Done (0, st')) \<and> after st b (i, p) C st' \<and> keeps st st'"
    "\<exists>st'. cache_bstat b st = Some (Done (Some (length (C i)), st')) \<and> after st b (i, p) C st' \<and> keeps st st'"
    "0 \<le> seek_target off w p (length (C i)) \<Longrightarrow> \<exists>st'. cache_bseek b off w st = Some (Done (0, st')) \<and> after st b (i, seek_target off w p (length (C i))) C st' \<and> keeps st st'"
    "\<exists>st'. cache_bwrite b bs st = Some (Done (int (length bs), st')) \<and> after st b (i, p + int (length bs)) (C(i := overwrite (nat p) bs (C i))) st' \<and> keeps st st'"
    "got = take n (drop (nat p) (C i)) \<Longrightarrow> \<exists>st'. cache_bread b n st = Some (Done ((int (length got), got), st')) \<and> after st b (i, p + int (length got)) C st' \<and> keeps st st'"
proof -
  note op = op_exact [OF st b p]
  show "\<exists>st'. cache_btell b st = Some (Done (p, st')) \<and> after st b (i, p) C st' \<and> keeps st st'"
    unfolding cache_btell_def C_def by (rule op) (use calls_act(1) in \<open>force simp: CACHE_NORMAL_def cb_get_def\<close>)+
  show "\<exists>st'. cache_bflush b st = Some (Done (0, st')) \<and> after st b (i, p) C st' \<and> keeps st st'"
    unfolding cache_bflush_def C_def by (rule op) (use calls_act(2) in \<open>force simp: CACHE_NORMAL_def\<close>)+
  show "\<exists>st'. cache_bstat b st = Some (Done (Some (length (C i)), st')) \<and> after st b (i, p) C st' \<and> keeps st st'"
    unfolding cache_bstat_def C_def by (rule op) (use calls_act(3) in \<open>force simp: CACHE_NORMAL_def\<close>)+
  show "\<exists>st'. cache_bseek b off w st = Some (Done (0, st')) \<and> after st b (i, seek_target off w p (length (C i))) C st' \<and> keeps st st'"
    if "0 \<le> seek_target off w p (length (C i))"
    unfolding cache_bseek_def C_def by (rule op) (use seek_acts that in \<open>force simp: CACHE_NORMAL_def C_def\<close>)+
  show "\<exists>st'. cache_bwrite b bs st = Some (Done (int (length bs), st')) \<and> after st b (i, p + int (length bs)) (C(i := overwrite (nat p) bs (C i))) st' \<and> keeps st st'"
    unfolding cache_bwrite_def C_def by (rule op) (use write_acts in \<open>force simp: CACHE_NORMAL_def\<close>)+
  show "\<exists>st'. cache_bread b n st = Some (Done ((int (length got), got), st')) \<and> after st b (i, p + int (length got)) C st' \<and> keeps st st'"
    if "got = take n (drop (nat p) (C i))"
    unfolding cache_bread_def C_def by (rule op) (use read_acts that in \<open>force simp: CACHE_NORMAL_def C_def\<close>)+
qed

section \<open>Refinement\<close>

lemma calm_after_call:
  assumes "calm_state st" "ready st b" "after st b q C st'" "returns_good m ps" "m = Some (Done (r, st'))"
  shows "calm_state st'"
  using assms by (auto simp: calm_state_def after_def returns_good_def)

lemma answers_good: "returns_good m ps \<Longrightarrow> returns_good (answers g m) ps"
  by (auto simp: returns_good_def answers_def)

lemma ask_good:
  assumes "good st ps" "ready st b" "call_target c = Some b"
  shows "returns_good (ask c st) ps"
proof -
  have m: "managed (ca_bfds st) b" using assms(2) by (auto simp: ready_def with_bfd_def managed_def split: option.splits)
  show ?thesis using assms(3) operations_good [OF assms(1) m] by (auto simp: call_target_def ask_def intro!: answers_good split: cache_call.splits)
qed

lemma ask_exact:
  assumes st: "calm_state st" and b: "ready st b" "call_target c = Some b" and F: "file_call c (files_of st) = Some (a, F)"
  shows "\<exists>st' q. ask c st = Some (Done (a, st')) \<and> after st b q (fst F) st' \<and> keeps st st' \<and> files_of st' = F"
proof -
  obtain i p where p: "place (ca_bfds st) (ca_io st) b = Some (i, p)" "0 \<le> p"
    using F b(2) by (auto simp: file_call_def file_at_def call_target_def files_of_def split: cache_call.splits option.splits prod.splits if_splits)
  note ex = ops_exact [OF st b(1) p]
  have fin: ?thesis if "ask c st = Some (Done (a, st'))" "after st b q (fst F) st'" "keeps st st'" "F = (fst F, (place (ca_bfds st) (ca_io st))(b \<mapsto> q))" for st' q
    using that(1-3) that(4) [symmetric] by (intro exI [of _ st'] exI [of _ q]) (simp add: after_def files_of_def)
  show ?thesis
  proof (cases c)
    case (Tell b')
    then obtain st' where "cache_btell b st = Some (Done (p, st'))" "after st b (i, p) (io_inodes (ca_io st)) st'" "keeps st st'" using ex(1) by blast
    then show ?thesis using fin [of st' "(i, p)"] F p b(2) Tell by (auto simp: file_call_def file_at_def files_of_def call_target_def ask_def answers_def fun_upd_idem)
  next
    case (Flush b')
    then obtain st' where "cache_bflush b st = Some (Done (0, st'))" "after st b (i, p) (io_inodes (ca_io st)) st'" "keeps st st'" using ex(2) by blast
    then show ?thesis using fin [of st' "(i, p)"] F p b(2) Flush by (auto simp: file_call_def file_at_def files_of_def call_target_def ask_def answers_def fun_upd_idem)
  next
    case (Stat b')
    then obtain st' where "cache_bstat b st = Some (Done (Some (length (io_inodes (ca_io st) i)), st'))" "after st b (i, p) (io_inodes (ca_io st)) st'" "keeps st st'" using ex(3) by blast
    then show ?thesis using fin [of st' "(i, p)"] F p b(2) Stat by (auto simp: file_call_def file_at_def files_of_def call_target_def ask_def answers_def fun_upd_idem)
  next
    case (Seek b' off w)
    then show ?thesis using ex(4) [of off w] fin F p b(2) by (auto simp: file_call_def file_at_def files_of_def call_target_def ask_def answers_def Let_def split: if_splits)
  next
    case (Write b' bs)
    then show ?thesis using ex(5) [of bs] fin F p b(2) by (auto simp: file_call_def file_at_def files_of_def call_target_def ask_def answers_def)
  next
    case (Read b' n)
    then show ?thesis using ex(6) [OF refl, of n] fin F p b(2) by (auto simp: file_call_def file_at_def files_of_def call_target_def ask_def answers_def Let_def)
  qed (use b(2) in \<open>simp_all add: call_target_def\<close>)
qed

lemma run_exact:
  assumes "calm_state st" "\<And>c. c \<in> set cs \<Longrightarrow> \<exists>b. call_target c = Some b \<and> ready st b" "run_files cs (files_of st) = Some (as, F)"
  shows "\<exists>st'. run_cache cs st = Some (Done (as, st')) \<and> files_of st' = F"
  using assms
proof (induction cs arbitrary: st as)
  case Nil
  then show ?case by simp
next
  case (Cons c cs)
  obtain b where b: "call_target c = Some b" "ready st b" using Cons.prems(2) [of c] by auto
  obtain a F1 as1 where F: "file_call c (files_of st) = Some (a, F1)" "run_files cs F1 = Some (as1, F)" "as = a # as1" using Cons.prems(3) by (auto split: option.splits prod.splits)
  obtain st1 q where s: "ask c st = Some (Done (a, st1))" "after st b q (fst F1) st1" "keeps st st1" "files_of st1 = F1" using ask_exact [OF Cons.prems(1) b(2,1) F(1)] by blast
  obtain ps where "good st ps" using Cons.prems(1) by (auto simp: calm_state_def)
  then have "calm_state st1" using calm_after_call [OF Cons.prems(1) b(2) s(2) ask_good s(1)] b by blast
  moreover have "\<exists>b. call_target c = Some b \<and> ready st1 b" if "c \<in> set cs" for c using Cons.prems(2) [of c] that ready_after [OF s(2,3)] by auto
  ultimately obtain st' where "run_cache cs st1 = Some (Done (as1, st'))" "files_of st' = F" using Cons.IH [of st1 as1] s(4) F(2) by blast
  then show ?case using s(1) F(3) by simp
qed




lemmas sample_simps = after_call_def perform_def finished_def bfd_open_file_def locked_def bfd_lock_def try_call_def bfd_open_file_unlocked_def cb_update_def cb_get_def cb_put_def make_room_def
  bfd_cache_max_open_def real_open_def fopen_def new_stream_def bfd_cache_init_unlocked_def lru_insert_def deref_def with_io_def cache_bseek_def bfd_cache_lookup_def bfd_cache_lookup_worker_def
  fseek_def close_one_def bfd_cache_delete_def snip_def fclose_def ftell_def Let_def CACHE_NORMAL_def possibly_cached_def set_error_def

lemma sample_views_exact:
  "io_disk (ca_io sample_cache) = [''a'' \<mapsto> 0, ''b'' \<mapsto> 1]" "io_streams (ca_io sample_cache) = [3 \<mapsto> \<lparr>sm_inode = 1, sm_pos = 0, sm_err = False\<rparr>]" "all_ok (ca_io sample_cache)"
  "key (ca_bfds sample_cache) = [11 \<mapsto> (''b'', 3)]"
  by (simp_all add: sample_cache_def sample_simps sample_closed_def sample_start_def sample_io_def sample_bfd_def find_victim.simps key_def fun_eq_iff)

lemma sample_named: "named (ca_bfds sample_cache) (ca_io sample_cache)"
  by (simp add: named_def sample_views_exact)


end
