(* ===== verification/Spec2Isabelle.thy ===== *)
theory Spec2Isabelle
  imports Olnk_Layout Olnk_Tables Olnk_Relocation Olnk_Safety Olnk_Threads Olnk_Program Olnk_Ir Olnk_Plugin Olnk_Util
    Bfd_Leb Bfd_Stringtab Bfd_Strtab_Client Bfd_Reloc_Section
    Bfd_Link_Returns Bfd_Cache_Refine
begin

text \<open>
  Verification of the OcarinaLNK linker.

  \<^bold>\<open>The program.\<close>  OcarinaLNK is a linker library with a C interface (\<open>include/olnk/olnk-api.h\<close>, implemented in
  \<open>src/olnk/api.cpp\<close>), registries of output formats and machines (\<open>format.cpp\<close>, \<open>machine.cpp\<close>), a plugin host
  (\<open>plugin.cpp\<close>) with six plugins (\<open>plugins/\<close>), internal passes (symbol and section tables, relocation, output
  layout), and a command line program (\<open>cli.cpp\<close>, \<open>main.cpp\<close>) that parses its arguments with the Klyspec
  library, fills a configuration through the C interface and runs a session.  The repository also
  carries a copy of GNU BFD (\<open>tooling/bfd-scrape/bfd\<close>), whose base layers are modelled too.

  \<^bold>\<open>How it is modelled.\<close>  Machine integers are words of their width, C structures are records, enumerations
  are datatypes, and every operation is a function with the name it has in the source.  Stateful C++ code is a
  program \<open>('a, 'w) prog\<close> over an explicit state (\<open>Olnk_Effects\<close>): it returns, throws, or faults, where a fault is
  undefined behaviour or \<open>std::terminate\<close>.  Objects live in heaps, maps from addresses to records; using an
  address that is not in the heap is undefined behaviour.  What the machine does (allocations that fail,
  files that cannot be opened or written, logging callbacks) is a parameter of the state, so the
  theorems hold for every behaviour of it.  The BFD code is total on \<open>cresult\<close>, where \<open>Undefined\<close> is an access outside of a
  buffer and \<open>Abort\<close> a failed assertion.

  \<^bold>\<open>The theories.\<close>

  \<^item> \<open>Olnk_Prelude\<close>: word types, C strings, stable sorting as a specification of \<open>std::stable_sort\<close>, shared lemmas.
  \<^item> \<open>Olnk_Layout\<close>: \<open>compute_offsets.cpp\<close> and \<open>output_builder.cpp\<close>.  The offsets equal a reference layout over the
    natural numbers exactly when that fits into 64 bits; sections are aligned and disjoint.
  \<^item> \<open>Olnk_Tables\<close>: \<open>symbols_table.cpp\<close>, \<open>section_handler.cpp\<close>, \<open>ir_builder.cpp\<close>, \<open>ir_visitor.cpp\<close>: results do not depend
    on insertion order, lookup finds the least record.
  \<^item> \<open>Olnk_Relocation\<close>: \<open>relocation.cpp\<close>, exact over the integers, with the one addend that is undefined.
  \<^item> \<open>Olnk_Status\<close>, \<open>Olnk_Registry\<close>, \<open>Olnk_Machine\<close>, \<open>Olnk_Format\<close>: status codes and diagnostics; the registry
    contract as a locale and its interpretations; \<open>machine.cpp\<close> with its twenty machines; \<open>format.cpp\<close> and
    \<open>format_serializer.cpp\<close>.
  \<^item> \<open>Olnk_Effects\<close>, \<open>Olnk_World\<close>: effects with a weakest-precondition calculus (collection \<open>wp_rules\<close>), and the state of
    the library: heaps of contexts, configurations, sessions, diagnostics, results, format instances and
    machines, and the files.
  \<^item> \<open>Olnk_Api\<close>: every function of \<open>api.cpp\<close>, and \<open>linker.cpp\<close>.
  \<^item> \<open>Olnk_Ownership\<close>, \<open>Olnk_Client\<close>, \<open>Olnk_Safety\<close>: the ownership invariant \<open>world_ok\<close>, the calls a client may
    make, the states \<open>reachable\<close> by them, and the properties of the interface: safety for every client, what a run
    of a session does on every branch, and that it succeeds when nothing fails.
  \<^item> \<open>Olnk_Threads\<close>: the atomic initialisation counter under interleaving.
  \<^item> \<open>Olnk_Ir\<close>: \<open>olnk-ir.h\<close> and \<open>ir.cpp\<close>; the iterator contract is the locale \<open>ir_entity\<close>, interpreted for the
    six kinds of entity.
  \<^item> \<open>Olnk_Plugin\<close>: \<open>olnk-plugin.h\<close>, \<open>plugin.cpp\<close> and the plugins; the plugin contract is the locale
    \<open>plugin_contract\<close>, interpreted for each shipped plugin.
  \<^item> \<open>Olnk_Args\<close>, \<open>Olnk_Cli\<close>, \<open>Olnk_Program\<close>: \<open>Klyspec.hpp\<close> (registry and parser), \<open>cli.cpp\<close> and \<open>main.cpp\<close>.
    \<open>Olnk_Cli\<close> shows that the configuration code computes \<open>requested_config\<close>, a function of the parse result
    (collection \<open>implements_rules\<close>); \<open>Olnk_Program\<close> composes this with the interface: the program
    cleans up, links, and its exit code is right.
  \<^item> \<open>Olnk_Util\<close>: \<open>file_io.cpp\<close>, \<open>memory_map.cpp\<close>, \<open>incremental.cpp\<close>, \<open>handle_header.cpp\<close>, \<open>threading.cpp\<close>,
    \<open>hash.cpp\<close> and the Lua helpers.
  \<^item> \<open>Bfd_Base\<close>, \<open>Bfd_Bytes\<close>, \<open>Bfd_Leb\<close>, \<open>Bfd_Hash\<close>: \<open>libbfd.c\<close> (byte order access and LEB128) and \<open>hash.c\<close>.  The hash
    table refines a finite map; entries with more fields meet it through the locale \<open>hash_newfunc\<close>.
  \<^item> \<open>Bfd_Stringtab\<close>: the string tables of \<open>hash.c\<close>, with and without the length fields of XCOFF.  Adding refines an abstract table, and
    every string is found at its index in the bytes that are written.
  \<^item> \<open>Bfd_Strtab\<close>, \<open>Bfd_Strtab_Offsets\<close>, \<open>Bfd_Strtab_Fill\<close>, \<open>Bfd_Strtab_Client\<close>: \<open>elf-strtab.c\<close>, string sections whose strings share
    their suffixes.  Adding counts the uses of strings, every string is found at its offset in the bytes that are written,
    and the section has exactly the size of the strings that are no suffix of another.
  \<^item> \<open>Bfd_Reloc\<close>, \<open>Bfd_Reloc_Section\<close>: the generic code of \<open>reloc.c\<close>.  The overflow check accepts exactly the values in the range of
    the field; a relocation changes its field only, and the two routines for a final link agree; relocating a section
    returns for every list of entries, and entries with disjoint fields do not influence each other.
  \<^item> \<open>Bfd_Link\<close>: the symbols of a link, \<open>linker.c\<close>: the table of global symbols, the list of undefined ones, and
    \<open>_bfd_generic_link_add_one_symbol\<close> with its table of states.  \<open>Bfd_Link_Heap\<close> (entries as objects), \<open>Bfd_Link_Inv\<close> (the invariant) and
    \<open>Bfd_Link_Actions\<close> (what each action does) carry the proofs; \<open>Bfd_Link_Resolve\<close> and \<open>Bfd_Link_Order\<close> show what a link makes of its
    symbols, that the order of the files does not matter when no strong definitions collide, and that the list of
    undefined symbols is right; \<open>Bfd_Link_Loop\<close> has the repair of that list and the symbol that is indirect to itself, for which the
    loop never ends; \<open>Bfd_Link_Returns\<close> shows that it ends for every symbol that closes no circle.
  \<^item> \<open>Bfd_Cache\<close>: the cache of open files, \<open>cache.c\<close>: a ring of pointers in the order of use, eviction, reopening, and the operations on
    files over a model of streams whose calls may fail.  \<open>Bfd_Cache_Ring\<close> (the pointers form one ring), \<open>Bfd_Cache_Inv\<close> (which files
    are open), \<open>Bfd_Cache_Open\<close>, \<open>Bfd_Cache_Use\<close> and \<open>Bfd_Cache_Client\<close> (what the operations keep) carry the proofs; \<open>Bfd_Cache_Props\<close> shows
    that every sequence of calls is safe and keeps the ring, given that closing a file succeeds: when it does not, the code
    leaves an open file off the ring.  \<open>Bfd_Cache_Files\<close> and \<open>Bfd_Cache_Refine\<close> show that reading, writing and positioning through the
    cache refine the same calls on files that are never closed.

  \<^bold>\<open>Termination.\<close>  No definition has fuel: a loop is a total function, structurally or with a measure, with these exceptions.  The loop
  of \<open>olnk_shutdown\<close>, which may retry for ever under interference, is a step relation.  The loops of \<open>linker.c\<close> along the
  links of symbols and those of \<open>cache.c\<close> along the ring are \<open>partial_function (option)\<close>: \<open>None\<close> means that the loop does not return, and that it returns is a theorem.

  \<^bold>\<open>Not modelled.\<close>  The Lua bindings (\<open>lua_bindings.cpp\<close>) are calls into sol2; file streams, dynamic loading, xxHash, the
  profile loaders and the IPC text of Klyspec are parameters.  Of BFD, the object file formats and their linkers are
  left out: what the modelled files call of them (special functions of relocations, reading of sections and entries, offsets in merged
  sections, making of sections) is a parameter.  Of \<open>linker.c\<close> the archives, the generic final link and the sections that are linked
  once are left out, of \<open>cache.c\<close> the contents of memory maps and the buffers of streams.  The string operations of the command line program itself are taken not to run out of memory.
\<close>

end
